(* ===== verification/S2OPC_Prelude.thy ===== *)
theory S2OPC_Prelude
  imports Main "HOL-Library.Word" "HOL-Library.Monad_Syntax"
begin

text \<open>
  Shared vocabulary of the development: the machine types, the return status of the C functions,
  the memory primitives (allocation, copy, fill) and the combinator that models the
  \<open>if (SOPC_STATUS_OK == status)\<close> chains.

  Two readings of \<open>option\<close> are used and never mixed in one type position:
  \<^item> a pointer parameter or field is an \<open>option\<close>, with \<open>None\<close> for \<open>NULL\<close>;
  \<^item> a computation is an \<open>option\<close>, with \<open>None\<close> for a run that does not continue normally: a
    failed \<open>SOPC_ASSERT\<close>, a read or write outside of an allocated block, a division by zero.
    A theorem that a call returns \<open>Some\<close> is therefore a memory safety statement.
\<close>

section \<open>Machine types and status codes\<close>

type_synonym byte = "8 word"
type_synonym u16 = "16 word"
type_synonym u32 = "32 word"
type_synonym u64 = "64 word"
type_synonym uintptr = "64 word"

text \<open>Signed integers keep their width and are read with \<open>sint\<close>.\<close>

type_synonym i16 = "16 word"
type_synonym i32 = "32 word"
type_synonym i64 = "64 word"

datatype SOPC_ReturnStatus =
    SOPC_STATUS_OK
  | SOPC_STATUS_NOK
  | SOPC_STATUS_INVALID_PARAMETERS
  | SOPC_STATUS_INVALID_STATE
  | SOPC_STATUS_ENCODING_ERROR
  | SOPC_STATUS_WOULD_BLOCK
  | SOPC_STATUS_TIMEOUT
  | SOPC_STATUS_OUT_OF_MEMORY
  | SOPC_STATUS_CLOSED
  | SOPC_STATUS_NOT_SUPPORTED

section \<open>Memory\<close>

text \<open>
  The environment of a run, as far as memory is concerned: whether an allocation of \<open>n\<close> bytes
  succeeds, and which bytes fresh (not zeroed) memory holds. Both are left open.
\<close>

record mem_env =
  mem_ok :: "nat \<Rightarrow> bool"
  mem_fill :: "nat \<Rightarrow> byte"

definition mem_total :: "('e) mem_env_scheme \<Rightarrow> bool" where
  "mem_total env \<longleftrightarrow> (\<forall>n. mem_ok env n)"

lemma mem_totalD [simp]: "mem_total env \<Longrightarrow> mem_ok env n"
  by (simp add: mem_total_def)

text \<open>A memory without limit, filled with zeros.\<close>

definition demo_mem :: mem_env where
  "demo_mem = \<lparr>mem_ok = (\<lambda>_. True), mem_fill = (\<lambda>_. 0)\<rparr>"

lemma demo_mem_total [simp]: "mem_total demo_mem"
  by (simp add: mem_total_def demo_mem_def)

definition SOPC_Calloc :: "('e) mem_env_scheme \<Rightarrow> nat \<Rightarrow> byte list option" where
  "SOPC_Calloc env n = (if mem_ok env n then Some (replicate n 0) else None)"

definition SOPC_Malloc :: "('e) mem_env_scheme \<Rightarrow> nat \<Rightarrow> byte list option" where
  "SOPC_Malloc env n = (if mem_ok env n then Some (map (mem_fill env) [0..<n]) else None)"

text \<open>
  \<open>realloc\<close> keeps the common prefix; a \<open>NULL\<close> block is a fresh allocation; the bytes after the
  old ones are not initialised.
\<close>

definition SOPC_Realloc :: "('e) mem_env_scheme \<Rightarrow> byte list option \<Rightarrow> nat \<Rightarrow> byte list option" where
  "SOPC_Realloc env ptr new_size =
     (if mem_ok env new_size then
        (let old = (case ptr of None \<Rightarrow> [] | Some d \<Rightarrow> d)
         in Some (take new_size old @ map (mem_fill env) [length old..<new_size]))
      else None)"

text \<open>\<open>memcpy\<close> into a block and out of a block, and \<open>memset\<close>: \<open>None\<close> out of bounds.\<close>

definition mem_write :: "byte list \<Rightarrow> nat \<Rightarrow> byte list \<Rightarrow> byte list option" where
  "mem_write d off src =
     (if off + length src \<le> length d then Some (take off d @ src @ drop (off + length src) d)
      else None)"

definition mem_read :: "byte list \<Rightarrow> nat \<Rightarrow> nat \<Rightarrow> byte list option" where
  "mem_read d off n = (if off + n \<le> length d then Some (take n (drop off d)) else None)"

definition mem_set :: "byte list \<Rightarrow> nat \<Rightarrow> byte \<Rightarrow> nat \<Rightarrow> byte list option" where
  "mem_set d off c n = mem_write d off (replicate n c)"

lemma length_SOPC_Realloc:
  "SOPC_Realloc env (Some d) n = Some d' \<Longrightarrow> length d' = n"
  by (auto simp: SOPC_Realloc_def Let_def split: if_splits)

lemma take_SOPC_Realloc:
  "SOPC_Realloc env (Some d) n = Some d' \<Longrightarrow> k \<le> length d \<Longrightarrow> k \<le> n \<Longrightarrow> take k d' = take k d"
  by (auto simp: SOPC_Realloc_def Let_def min_absorb1 split: if_splits)

lemma SOPC_Realloc_total [simp]:
  "mem_total env \<Longrightarrow> SOPC_Realloc env ptr n \<noteq> None"
  by (simp add: SOPC_Realloc_def Let_def)

lemma length_mem_write: "mem_write d off src = Some d' \<Longrightarrow> length d' = length d"
  by (auto simp: mem_write_def split: if_splits)

lemma length_mem_read: "mem_read d off n = Some bs \<Longrightarrow> length bs = n"
  by (auto simp: mem_read_def split: if_splits)

lemma mem_write_Some:
  "off + length src \<le> length d \<Longrightarrow>
    mem_write d off src = Some (take off d @ src @ drop (off + length src) d)"
  by (simp add: mem_write_def)

section \<open>Status chains\<close>

text \<open>
  \<open>and_then r f\<close> is \<open>status = r; if (SOPC_STATUS_OK == status) { status = f; }\<close> on a state that
  both parts update.
\<close>

definition and_then ::
  "(SOPC_ReturnStatus \<times> 's) option \<Rightarrow> ('s \<Rightarrow> (SOPC_ReturnStatus \<times> 's) option) \<Rightarrow>
   (SOPC_ReturnStatus \<times> 's) option" where
  "and_then r f =
     (case r of None \<Rightarrow> None
      | Some (st, s) \<Rightarrow> if st = SOPC_STATUS_OK then f s else Some (st, s))"

text \<open>The same, with the second part guarded by a further condition of the source.\<close>

definition and_when ::
  "(SOPC_ReturnStatus \<times> 's) option \<Rightarrow> bool \<Rightarrow> ('s \<Rightarrow> (SOPC_ReturnStatus \<times> 's) option) \<Rightarrow>
   (SOPC_ReturnStatus \<times> 's) option" where
  "and_when r c f = and_then r (\<lambda>s. if c then f s else Some (SOPC_STATUS_OK, s))"

text \<open>A final \<open>if (SOPC_STATUS_OK != status)\<close> block that changes the status and the state.\<close>

definition on_error ::
  "(SOPC_ReturnStatus \<times> 's) option \<Rightarrow>
   (SOPC_ReturnStatus \<Rightarrow> 's \<Rightarrow> SOPC_ReturnStatus \<times> 's) \<Rightarrow>
   (SOPC_ReturnStatus \<times> 's) option" where
  "on_error r h =
     (case r of None \<Rightarrow> None
      | Some (st, s) \<Rightarrow> Some (if st = SOPC_STATUS_OK then (st, s) else h st s))"

lemma and_then_OK [simp]: "and_then (Some (SOPC_STATUS_OK, s)) f = f s"
  by (simp add: and_then_def)

lemma and_then_error [simp]:
  "st \<noteq> SOPC_STATUS_OK \<Longrightarrow> and_then (Some (st, s)) f = Some (st, s)"
  by (simp add: and_then_def)

lemma and_then_None [simp]: "and_then None f = None"
  by (simp add: and_then_def)

lemma and_when_True [simp]: "and_when r True f = and_then r f"
  by (simp add: and_when_def)

lemma and_when_False [simp]: "and_when r False f = r"
  by (simp add: and_when_def and_then_def split: option.splits)

lemma and_when_error [simp]:
  "st \<noteq> SOPC_STATUS_OK \<Longrightarrow> and_when (Some (st, s)) c f = Some (st, s)"
  by (simp add: and_when_def)

lemma on_error_OK [simp]: "on_error (Some (SOPC_STATUS_OK, s)) h = Some (SOPC_STATUS_OK, s)"
  by (simp add: on_error_def)

lemma on_error_error [simp]:
  "st \<noteq> SOPC_STATUS_OK \<Longrightarrow> on_error (Some (st, s)) h = Some (h st s)"
  by (simp add: on_error_def)

lemma on_error_None [simp]: "on_error None h = None"
  by (simp add: on_error_def)

section \<open>Words\<close>

lemma unat_add_u32: "unat (a :: u32) + unat b < 2 ^ 32 \<Longrightarrow> unat (a + b) = unat a + unat b"
  by (simp add: unat_plus_if')

lemma unat_mult_u32: "unat (a :: u32) * unat b < 2 ^ 32 \<Longrightarrow> unat (a * b) = unat a * unat b"
  by (simp add: unat_word_ariths)

lemma unat_lt_u32: "unat (a :: u32) < 4294967296"
  using unsigned_less [of a] by simp

lemma unat_of_nat_u32: "n < 2 ^ 32 \<Longrightarrow> unat (of_nat n :: u32) = n"
  by (simp add: unat_of_nat)

lemma word_of_unat: "unat w = n \<Longrightarrow> w = of_nat n"
  by auto

lemma u32_le_iff: "(a :: u32) \<le> b \<longleftrightarrow> unat a \<le> unat b"
  by (simp add: word_le_nat_alt)

lemma u32_less_iff: "(a :: u32) < b \<longleftrightarrow> unat a < unat b"
  by (simp add: word_less_nat_alt)

text \<open>A positive signed word reads the same unsigned.\<close>

lemma sint_pos_unat: "0 < sint (w :: i32) \<Longrightarrow> nat (sint w) = unat w"
  using sint_less [of w] by (simp add: unat_eq_nat_uint uint_sint take_bit_int_eq_self)

section \<open>Little endian memory\<close>

text \<open>
  The memory image of an unsigned integer on a little endian machine
  (\<open>SOPC_IS_LITTLE_ENDIAN\<close>, the default configuration), least significant byte first.
\<close>

primrec le_bytes :: "nat \<Rightarrow> nat \<Rightarrow> byte list" where
  "le_bytes 0 k = []"
| "le_bytes (Suc n) k = of_nat (k mod 256) # le_bytes n (k div 256)"

primrec le_nat :: "byte list \<Rightarrow> nat" where
  "le_nat [] = 0"
| "le_nat (x # xs) = unat x + 256 * le_nat xs"

lemma length_le_bytes [simp]: "length (le_bytes n k) = n"
  by (induction n arbitrary: k) auto

lemma le_nat_le_bytes: "le_nat (le_bytes n k) = k mod 256 ^ n"
proof (induction n arbitrary: k)
  case (Suc n)
  have "unat (of_nat (k mod 256) :: byte) = k mod 256"
    by (simp add: unat_of_nat)
  with Suc show ?case by (simp add: mod_mult2_eq add.commute)
qed simp

lemma le_bytes_le_nat: "le_bytes (length bs) (le_nat bs) = bs"
proof (induction bs)
  case (Cons x xs)
  have "unat x < 256" using unsigned_less [of x] by simp
  with Cons show ?case by simp
qed simp

lemma le_bytes_byte: "le_bytes 1 (unat e) = [e :: byte]"
proof -
  have "unat e < 256" using unsigned_less [of e] by simp
  then show ?thesis by simp
qed

lemma le_bytes_le_nat': "length bs = n \<Longrightarrow> le_bytes n (le_nat bs) = bs"
  using le_bytes_le_nat by blast

text \<open>A word of \<open>n\<close> bytes survives its memory image.\<close>

lemma le_word_roundtrip:
  "LENGTH('a::len) = 8 * n \<Longrightarrow> of_nat (le_nat (le_bytes n (unat w))) = (w :: 'a word)"
proof -
  assume len: "LENGTH('a) = 8 * n"
  have "(256 :: nat) ^ n = 2 ^ LENGTH('a)" by (simp add: len power_mult)
  then have "unat w mod 256 ^ n = unat w"
    using unsigned_less [of w] by simp
  then show ?thesis by (simp add: le_nat_le_bytes)
qed

lemma le_bytes_inject:
  "LENGTH('a::len) = 8 * n \<Longrightarrow> le_bytes n (unat (v :: 'a word)) = le_bytes n (unat w) \<longleftrightarrow> v = w"
  using le_word_roundtrip [of n v] le_word_roundtrip [of n w] by metis

section \<open>C strings and memory comparison\<close>

text \<open>Only the sign of the results of \<open>memcmp\<close> and \<open>strcmp\<close> is specified: -1, 0 or 1 here.\<close>

definition c_sign :: "byte \<Rightarrow> byte \<Rightarrow> int" where
  "c_sign x y = (if x < y then -1 else if y < x then 1 else 0)"

fun c_memcmp :: "byte list \<Rightarrow> byte list \<Rightarrow> nat \<Rightarrow> int option" where
  "c_memcmp xs ys 0 = Some 0"
| "c_memcmp (x # xs) (y # ys) (Suc n) =
     (if x = y then c_memcmp xs ys n else Some (c_sign x y))"
| "c_memcmp xs ys (Suc n) = None"

fun c_strcmp :: "byte list \<Rightarrow> byte list \<Rightarrow> int option" where
  "c_strcmp (x # xs) (y # ys) =
     (if x \<noteq> y then Some (c_sign x y) else if x = 0 then Some 0 else c_strcmp xs ys)"
| "c_strcmp _ _ = None"

lemma c_sign_0 [simp]: "c_sign x y = 0 \<longleftrightarrow> x = y"
  by (auto simp: c_sign_def)

lemma c_memcmp_total:
  "n \<le> length xs \<Longrightarrow> n \<le> length ys \<Longrightarrow> \<exists>c. c_memcmp xs ys n = Some c"
  by (induction xs ys n rule: c_memcmp.induct) auto

lemma c_memcmp_eq_0:
  "n \<le> length xs \<Longrightarrow> n \<le> length ys \<Longrightarrow> c_memcmp xs ys n = Some 0 \<longleftrightarrow> take n xs = take n ys"
  by (induction xs ys n rule: c_memcmp.induct) auto

lemma c_memcmp_swap: "c_memcmp ys xs n = map_option uminus (c_memcmp xs ys n)"
  by (induction xs ys n rule: c_memcmp.induct) (auto simp: c_sign_def)

lemma c_strcmp_swap: "c_strcmp ys xs = map_option uminus (c_strcmp xs ys)"
  by (induction xs ys rule: c_strcmp.induct) (auto simp: c_sign_def)

text \<open>On terminated strings without an inner zero, \<open>strcmp\<close> decides equality.\<close>

lemma c_strcmp_terminated:
  assumes "length xs = length ys" "0 \<notin> set xs" "0 \<notin> set ys"
  shows "\<exists>c. c_strcmp (xs @ 0 # us) (ys @ 0 # vs) = Some c \<and> (c = 0 \<longleftrightarrow> xs = ys)"
  using assms by (induction xs ys rule: list_induct2) auto

end
