(* ===== verification/Buffer.thy ===== *)
theory Buffer
  imports S2OPC_Prelude
begin

text \<open>
  The byte buffer of \<open>src/Common/helpers/sopc_buffer.c\<close>: a block of bytes with a read/write
  position, a data length and a size that grows up to a maximum. All operations but the file and
  floating point ones are modelled. The invariant \<open>buf_wf\<close> holds after creation and is kept by
  every operation; the abstraction \<open>stream_of\<close> forgets the allocation and shows that writing and
  reading a buffer is writing and reading a byte stream of bounded capacity.
\<close>

section \<open>The structure\<close>

record SOPC_Buffer =
  initial_size :: u32
  current_size :: u32
  maximum_size :: u32
  position :: u32
  buf_length :: u32
  buf_data :: "byte list option"

type_synonym bufp = "SOPC_Buffer option"

definition sizeof_SOPC_Buffer :: nat where
  "sizeof_SOPC_Buffer = 32"

section \<open>Operations\<close>

text \<open>
  The buffer that \<open>SOPC_Buffer_Init\<close> fills is the one allocated by its caller; the fields it does
  not write before failing are those of the argument.
\<close>

definition SOPC_Buffer_Init ::
  "('e) mem_env_scheme \<Rightarrow> bufp \<Rightarrow> u32 \<Rightarrow> u32 \<Rightarrow> SOPC_ReturnStatus \<times> bufp" where
  "SOPC_Buffer_Init env buffer init_size max_size =
     (case buffer of
        None \<Rightarrow> (SOPC_STATUS_INVALID_PARAMETERS, None)
      | Some b \<Rightarrow>
          if init_size \<le> 0 \<or> init_size > max_size then (SOPC_STATUS_INVALID_PARAMETERS, Some b)
          else (case SOPC_Calloc env (unat init_size) of
                  None \<Rightarrow> (SOPC_STATUS_OUT_OF_MEMORY, Some (b\<lparr>buf_data := None\<rparr>))
                | Some d \<Rightarrow>
                    (SOPC_STATUS_OK,
                     Some (b\<lparr>buf_data := Some d, position := 0, buf_length := 0,
                            initial_size := init_size, current_size := init_size,
                            maximum_size := max_size\<rparr>))))"

text \<open>A structure obtained from \<open>SOPC_Calloc\<close>: every field is zero.\<close>

definition zero_buffer :: SOPC_Buffer where
  "zero_buffer = \<lparr>initial_size = 0, current_size = 0, maximum_size = 0, position = 0,
                  buf_length = 0, buf_data = None\<rparr>"

definition SOPC_Buffer_Create :: "('e) mem_env_scheme \<Rightarrow> u32 \<Rightarrow> bufp" where
  "SOPC_Buffer_Create env sz =
     (if sz > 0 \<and> mem_ok env sizeof_SOPC_Buffer then
        (case SOPC_Buffer_Init env (Some zero_buffer) sz sz of
           (SOPC_STATUS_OK, buf) \<Rightarrow> buf
         | (_, _) \<Rightarrow> None)
      else None)"

definition SOPC_Buffer_CreateResizable :: "('e) mem_env_scheme \<Rightarrow> u32 \<Rightarrow> u32 \<Rightarrow> bufp" where
  "SOPC_Buffer_CreateResizable env init_size max_size =
     (if init_size > 0 \<and> mem_ok env sizeof_SOPC_Buffer then
        (case SOPC_Buffer_Init env (Some zero_buffer) init_size max_size of
           (SOPC_STATUS_OK, buf) \<Rightarrow> buf
         | (_, _) \<Rightarrow> None)
      else None)"

definition SOPC_Buffer_Attach :: "('e) mem_env_scheme \<Rightarrow> byte list option \<Rightarrow> u32 \<Rightarrow> bufp" where
  "SOPC_Buffer_Attach env d sz =
     (if mem_ok env sizeof_SOPC_Buffer then
        Some (zero_buffer\<lparr>buf_data := d, buf_length := sz, initial_size := sz,
                          current_size := sz, maximum_size := sz\<rparr>)
      else None)"

definition SOPC_Buffer_Clear :: "bufp \<Rightarrow> bufp" where
  "SOPC_Buffer_Clear buffer =
     (case buffer of None \<Rightarrow> None
      | Some b \<Rightarrow> (if buf_data b \<noteq> None then Some (b\<lparr>buf_data := None\<rparr>) else Some b))"

definition SOPC_Buffer_Reset :: "bufp \<Rightarrow> bufp option" where
  "SOPC_Buffer_Reset buffer =
     (case buffer of None \<Rightarrow> Some None
      | Some b \<Rightarrow>
          (case buf_data b of None \<Rightarrow> Some (Some b)
           | Some d \<Rightarrow> do {
               d' \<leftarrow> mem_set d 0 0 (unat (current_size b));
               Some (Some (b\<lparr>position := 0, buf_length := 0, buf_data := Some d'\<rparr>)) }))"

definition SOPC_Buffer_ResetAfterPosition ::
  "bufp \<Rightarrow> u32 \<Rightarrow> (SOPC_ReturnStatus \<times> bufp) option" where
  "SOPC_Buffer_ResetAfterPosition buffer pos =
     (case buffer of None \<Rightarrow> Some (SOPC_STATUS_INVALID_PARAMETERS, None)
      | Some b \<Rightarrow>
          (case buf_data b of None \<Rightarrow> Some (SOPC_STATUS_INVALID_PARAMETERS, Some b)
           | Some d \<Rightarrow>
               if pos \<le> buf_length b then do {
                 d' \<leftarrow> mem_set d (unat pos) 0 (unat (current_size b - pos));
                 Some (SOPC_STATUS_OK,
                       Some (b\<lparr>position := pos, buf_length := pos, buf_data := Some d'\<rparr>)) }
               else Some (SOPC_STATUS_INVALID_PARAMETERS, Some b)))"

text \<open>The out parameter is an \<open>option\<close>: \<open>None\<close> when the caller passes \<open>NULL\<close>.\<close>

definition SOPC_Buffer_GetPosition ::
  "bufp \<Rightarrow> u32 option \<Rightarrow> SOPC_ReturnStatus \<times> u32 option" where
  "SOPC_Buffer_GetPosition buffer out =
     (case (buffer, out) of
        (Some b, Some _) \<Rightarrow> (SOPC_STATUS_OK, Some (position b))
      | _ \<Rightarrow> (SOPC_STATUS_INVALID_PARAMETERS, out))"

definition SOPC_Buffer_SetPosition :: "bufp \<Rightarrow> u32 \<Rightarrow> SOPC_ReturnStatus \<times> bufp" where
  "SOPC_Buffer_SetPosition buffer pos =
     (case buffer of None \<Rightarrow> (SOPC_STATUS_INVALID_PARAMETERS, None)
      | Some b \<Rightarrow>
          if buf_data b \<noteq> None \<and> buf_length b \<ge> pos
          then (SOPC_STATUS_OK, Some (b\<lparr>position := pos\<rparr>))
          else (SOPC_STATUS_INVALID_PARAMETERS, Some b))"

definition SOPC_Buffer_SetDataLength ::
  "bufp \<Rightarrow> u32 \<Rightarrow> (SOPC_ReturnStatus \<times> bufp) option" where
  "SOPC_Buffer_SetDataLength buffer len =
     (case buffer of None \<Rightarrow> Some (SOPC_STATUS_INVALID_PARAMETERS, None)
      | Some b \<Rightarrow>
          (case buf_data b of None \<Rightarrow> Some (SOPC_STATUS_INVALID_PARAMETERS, Some b)
           | Some d \<Rightarrow>
               if current_size b \<ge> len \<and> position b \<le> len then do {
                 d' \<leftarrow> (if buf_length b > len
                         then mem_set d (unat len) 0 (unat (buf_length b - len))
                         else Some d);
                 Some (SOPC_STATUS_OK, Some (b\<lparr>buf_data := Some d', buf_length := len\<rparr>)) }
               else Some (SOPC_STATUS_INVALID_PARAMETERS, Some b)))"

text \<open>The size a resizable buffer grows to: the first multiple of the initial size, or the maximum.\<close>

definition SOPC_Buffer_NewSize :: "SOPC_Buffer \<Rightarrow> u32 \<Rightarrow> bool \<Rightarrow> u32 option" where
  "SOPC_Buffer_NewSize b totalNbBytes exactResize =
     (if exactResize then Some totalNbBytes
      else if initial_size b = 0 then None
      else
        (let requiredSteps = totalNbBytes div initial_size b;
             requiredSteps = (if totalNbBytes mod initial_size b \<noteq> 0 then requiredSteps + 1
                              else requiredSteps)
         in Some (if requiredSteps > maximum_size b div initial_size b then maximum_size b
                  else requiredSteps * initial_size b)))"

definition SOPC_Buffer_CheckSizeAndResize ::
  "('e) mem_env_scheme \<Rightarrow> bufp \<Rightarrow> u32 \<Rightarrow> bool \<Rightarrow> (bool \<times> bufp) option" where
  "SOPC_Buffer_CheckSizeAndResize env buffer totalNbBytes exactResize = do {
     b \<leftarrow> buffer;
     if totalNbBytes \<le> current_size b then Some (True, Some b)
     else if totalNbBytes \<le> maximum_size b then do {
       newSize \<leftarrow> SOPC_Buffer_NewSize b totalNbBytes exactResize;
       (case SOPC_Realloc env (buf_data b) (unat newSize) of
          None \<Rightarrow> Some (False, Some b)
        | Some newData \<Rightarrow>
            Some (True, Some (b\<lparr>buf_data := Some newData, current_size := newSize\<rparr>))) }
     else Some (False, Some b) }"

text \<open>
  \<open>memcpy\<close> returns its first argument, so the \<open>SOPC_STATUS_INVALID_STATE\<close> branches of
  \<open>SOPC_Buffer_Write\<close> and \<open>SOPC_Buffer_Read\<close> are never taken.
\<close>

definition SOPC_Buffer_Write ::
  "('e) mem_env_scheme \<Rightarrow> bufp \<Rightarrow> byte list option \<Rightarrow> u32 \<Rightarrow>
   (SOPC_ReturnStatus \<times> bufp) option" where
  "SOPC_Buffer_Write env buffer data_src count =
     (case (data_src, buffer) of
        (Some src, Some b) \<Rightarrow>
          (if buf_data b = None then Some (SOPC_STATUS_INVALID_PARAMETERS, Some b)
           else do {
             (ok, buffer') \<leftarrow> SOPC_Buffer_CheckSizeAndResize env (Some b) (position b + count) False;
             b \<leftarrow> buffer';
             if ok then do {
               d \<leftarrow> buf_data b;
               s \<leftarrow> mem_read src 0 (unat count);
               d' \<leftarrow> mem_write d (unat (position b)) s;
               let b = b\<lparr>buf_data := Some d', position := position b + count\<rparr>;
                   b = (if position b > buf_length b then b\<lparr>buf_length := position b\<rparr> else b)
               in Some (SOPC_STATUS_OK, Some b) }
             else Some (SOPC_STATUS_OUT_OF_MEMORY, Some b) })
      | _ \<Rightarrow> Some (SOPC_STATUS_INVALID_PARAMETERS, buffer))"

text \<open>
  The destination of a read: \<open>None\<close> for \<open>NULL\<close> (the bytes are skipped), otherwise the block
  the bytes are copied to, at its start.
\<close>

definition SOPC_Buffer_Read ::
  "byte list option \<Rightarrow> bufp \<Rightarrow> u32 \<Rightarrow> (SOPC_ReturnStatus \<times> byte list option \<times> bufp) option" where
  "SOPC_Buffer_Read data_dest buffer count =
     (case buffer of None \<Rightarrow> Some (SOPC_STATUS_INVALID_PARAMETERS, data_dest, None)
      | Some b \<Rightarrow>
          (case buf_data b of None \<Rightarrow> Some (SOPC_STATUS_INVALID_PARAMETERS, data_dest, Some b)
           | Some d \<Rightarrow>
               if position b + count \<le> buf_length b then do {
                 dest' \<leftarrow> (case data_dest of
                     None \<Rightarrow> Some None
                   | Some dst \<Rightarrow> do {
                       s \<leftarrow> mem_read d (unat (position b)) (unat count);
                       dst' \<leftarrow> mem_write dst 0 s;
                       Some (Some dst') });
                 Some (SOPC_STATUS_OK, dest', Some (b\<lparr>position := position b + count\<rparr>)) }
               else Some (SOPC_STATUS_OUT_OF_MEMORY, data_dest, Some b)))"

definition SOPC_Buffer_CopyWithLength ::
  "('e) mem_env_scheme \<Rightarrow> bufp \<Rightarrow> bufp \<Rightarrow> u32 \<Rightarrow> (SOPC_ReturnStatus \<times> bufp) option" where
  "SOPC_Buffer_CopyWithLength env dest src limitedLength =
     (case (dest, src) of
        (Some ds, Some sr) \<Rightarrow>
          (case (buf_data ds, buf_data sr) of
             (Some _, Some sd) \<Rightarrow>
               if buf_length sr \<ge> limitedLength \<and> position sr \<le> limitedLength then
                 (if position sr \<le> buf_length sr then do {
                    (ok, dest') \<leftarrow> SOPC_Buffer_CheckSizeAndResize env (Some ds) limitedLength True;
                    ds' \<leftarrow> dest';
                    if ok then do {
                      d \<leftarrow> buf_data ds';
                      s \<leftarrow> mem_read sd 0 (unat limitedLength);
                      d' \<leftarrow> mem_write d 0 s;
                      and_then
                        (and_then
                          (Some (SOPC_Buffer_SetPosition (Some (ds'\<lparr>buf_data := Some d'\<rparr>)) 0))
                          (\<lambda>buf. SOPC_Buffer_SetDataLength buf limitedLength))
                        (\<lambda>buf. Some (SOPC_Buffer_SetPosition buf (position sr))) }
                    else Some (SOPC_STATUS_OUT_OF_MEMORY, Some ds') }
                  else None)
               else Some (SOPC_STATUS_INVALID_PARAMETERS, Some ds)
           | _ \<Rightarrow> Some (SOPC_STATUS_INVALID_PARAMETERS, Some ds))
      | _ \<Rightarrow> Some (SOPC_STATUS_INVALID_PARAMETERS, dest))"

definition SOPC_Buffer_Copy ::
  "('e) mem_env_scheme \<Rightarrow> bufp \<Rightarrow> bufp \<Rightarrow> (SOPC_ReturnStatus \<times> bufp) option" where
  "SOPC_Buffer_Copy env dest src =
     (case src of None \<Rightarrow> Some (SOPC_STATUS_INVALID_PARAMETERS, dest)
      | Some sr \<Rightarrow> SOPC_Buffer_CopyWithLength env dest src (buf_length sr))"

definition SOPC_Buffer_Remaining :: "bufp \<Rightarrow> u32 option" where
  "SOPC_Buffer_Remaining buffer = do { b \<leftarrow> buffer; Some (buf_length b - position b) }"

text \<open>The returned \<open>int64_t\<close> is an \<open>int\<close>; the source buffer and the destination are returned updated.\<close>

definition SOPC_Buffer_ReadFrom :: "bufp \<Rightarrow> bufp \<Rightarrow> u32 \<Rightarrow> (int \<times> bufp \<times> bufp) option" where
  "SOPC_Buffer_ReadFrom buffer src n =
     (case (buffer, src) of
        (Some b, Some sr) \<Rightarrow>
          if current_size b - buf_length b < n then Some (-1, buffer, src)
          else
            (let available = buf_length sr - position sr;
                 n = (if available < n then available else n)
             in do {
               d \<leftarrow> buf_data b;
               sd \<leftarrow> buf_data sr;
               s \<leftarrow> mem_read sd (unat (position sr)) (unat n);
               d' \<leftarrow> mem_write d (unat (buf_length b)) s;
               Some (uint n,
                     Some (b\<lparr>buf_data := Some d', buf_length := buf_length b + n\<rparr>),
                     Some (sr\<lparr>position := position sr + n\<rparr>)) })
      | _ \<Rightarrow> Some (-1, buffer, src))"

text \<open>Decimal printing (\<open>PRIu32\<close>, \<open>PRIi32\<close>) and printing of a C string given without its final 0.\<close>

fun dec_digits :: "nat \<Rightarrow> byte list" where
  "dec_digits n = (if n < 10 then [of_nat (48 + n)]
                   else dec_digits (n div 10) @ [of_nat (48 + n mod 10)])"

declare dec_digits.simps [simp del]

definition SOPC_Buffer_PrintU32 ::
  "('e) mem_env_scheme \<Rightarrow> bufp \<Rightarrow> u32 \<Rightarrow> (SOPC_ReturnStatus \<times> bufp) option" where
  "SOPC_Buffer_PrintU32 env buf val =
     (let s = dec_digits (unat val); res = length s
      in if 0 < res \<and> res < 11 then SOPC_Buffer_Write env buf (Some s) (of_nat (length s))
         else Some (SOPC_STATUS_NOK, buf))"

definition SOPC_Buffer_PrintI32 ::
  "('e) mem_env_scheme \<Rightarrow> bufp \<Rightarrow> i32 \<Rightarrow> (SOPC_ReturnStatus \<times> bufp) option" where
  "SOPC_Buffer_PrintI32 env buf val =
     (let s = (if sint val < 0 then 45 # dec_digits (nat (- sint val))
               else dec_digits (nat (sint val)));
          res = length s
      in if 0 < res \<and> res < 12 then SOPC_Buffer_Write env buf (Some s) (of_nat (length s))
         else Some (SOPC_STATUS_NOK, buf))"

definition SOPC_Buffer_PrintCString ::
  "('e) mem_env_scheme \<Rightarrow> bufp \<Rightarrow> byte list option \<Rightarrow> (SOPC_ReturnStatus \<times> bufp) option" where
  "SOPC_Buffer_PrintCString env buf val =
     (let s = (case val of None \<Rightarrow> [60, 110, 117, 108, 108, 62] | Some s \<Rightarrow> s)
      in SOPC_Buffer_Write env buf (Some s) (of_nat (length s)))"

section \<open>Invariant and abstraction\<close>

definition buf_wf :: "SOPC_Buffer \<Rightarrow> bool" where
  "buf_wf b \<longleftrightarrow>
     (case buf_data b of None \<Rightarrow> False | Some d \<Rightarrow> length d = unat (current_size b)) \<and>
     position b \<le> buf_length b \<and> buf_length b \<le> current_size b \<and>
     current_size b \<le> maximum_size b \<and>
     (initial_size b = 0 \<longrightarrow> current_size b = maximum_size b)"

text \<open>A byte stream of bounded capacity, with a position.\<close>

record stream =
  s_bytes :: "byte list"
  s_pos :: nat
  s_cap :: nat

definition buf_bytes :: "SOPC_Buffer \<Rightarrow> byte list" where
  "buf_bytes b = take (unat (buf_length b)) (case buf_data b of None \<Rightarrow> [] | Some d \<Rightarrow> d)"

definition stream_of :: "SOPC_Buffer \<Rightarrow> stream" where
  "stream_of b = \<lparr>s_bytes = buf_bytes b, s_pos = unat (position b), s_cap = unat (maximum_size b)\<rparr>"

definition stream_put :: "byte list \<Rightarrow> stream \<Rightarrow> stream" where
  "stream_put bs s =
     s\<lparr>s_bytes := take (s_pos s) (s_bytes s) @ bs @ drop (s_pos s + length bs) (s_bytes s),
       s_pos := s_pos s + length bs\<rparr>"

definition stream_rest :: "stream \<Rightarrow> byte list" where
  "stream_rest s = drop (s_pos s) (s_bytes s)"

lemma buf_wfE:
  assumes "buf_wf b"
  obtains d where "buf_data b = Some d" "length d = unat (current_size b)"
    "unat (position b) \<le> unat (buf_length b)" "unat (buf_length b) \<le> unat (current_size b)"
    "unat (current_size b) \<le> unat (maximum_size b)"
    "initial_size b = 0 \<longrightarrow> current_size b = maximum_size b"
  using assms by (auto simp: buf_wf_def u32_le_iff split: option.splits)

lemma stream_of_simps [simp]:
  "s_bytes (stream_of b) = buf_bytes b"
  "s_pos (stream_of b) = unat (position b)"
  "s_cap (stream_of b) = unat (maximum_size b)"
  by (simp_all add: stream_of_def)

lemma length_buf_bytes: "buf_wf b \<Longrightarrow> length (buf_bytes b) = unat (buf_length b)"
  by (erule buf_wfE) (simp add: buf_bytes_def)

lemma stream_put_pos [simp]: "s_pos (stream_put bs s) = s_pos s + length bs"
  by (simp add: stream_put_def)

lemma stream_put_cap [simp]: "s_cap (stream_put bs s) = s_cap s"
  by (simp add: stream_put_def)

lemma stream_put_Nil [simp]: "stream_put [] s = s"
  by (simp add: stream_put_def)

lemma stream_put_append:
  assumes "s_pos s \<le> length (s_bytes s)"
  shows "stream_put (xs @ ys) s = stream_put ys (stream_put xs s)"
  using assms by (simp add: stream_put_def ac_simps)

lemma stream_put_length:
  "s_pos s \<le> length (s_bytes s) \<Longrightarrow>
    length (s_bytes (stream_put bs s)) = max (length (s_bytes s)) (s_pos s + length bs)"
  by (simp add: stream_put_def max_def)

text \<open>What was put is what is found there.\<close>

lemma stream_put_take:
  "s_pos s \<le> length (s_bytes s) \<Longrightarrow>
    take (length bs) (drop (s_pos s) (s_bytes (stream_put bs s))) = bs"
  by (simp add: stream_put_def)

section \<open>Growing\<close>

text \<open>Rounding up to a multiple of \<open>i\<close>, over the naturals.\<close>

lemma round_up_ge:
  assumes "0 < i"
  shows "(t :: nat) \<le> (if t mod i \<noteq> 0 then t div i + 1 else t div i) * i"
proof -
  have eq: "t = t div i * i + t mod i" by simp
  have "t mod i < i" using assms by simp
  with eq have "t \<le> (t div i + 1) * i" unfolding add_mult_distrib by linarith
  moreover have "t mod i = 0 \<Longrightarrow> t \<le> t div i * i" using eq by linarith
  ultimately show ?thesis by simp
qed

lemma unat_round_up:
  assumes "i \<noteq> 0"
  shows "unat (if tot mod i \<noteq> 0 then tot div i + 1 else tot div i :: u32) =
    (if unat tot mod unat i \<noteq> 0 then unat tot div unat i + 1 else unat tot div unat i)"
proof (cases "unat tot mod unat i = 0")
  case True
  then show ?thesis by (simp add: unat_div unat_mod word_unat_eq_iff)
next
  case False
  have "unat i \<noteq> 0" using assms by (simp add: unat_eq_0)
  moreover have "unat i \<noteq> 1" using False by (metis mod_by_1)
  ultimately have "2 \<le> unat i" by linarith
  then have "unat tot div unat i \<le> unat tot div 2" by (simp add: div_le_mono2)
  then have "unat tot div unat i < 2 ^ 32 - 1"
    using unat_lt_u32 [of tot] by simp
  then have "unat (tot div i + 1) = unat tot div unat i + 1"
    by (simp add: unat_plus_if' unat_div)
  with False show ?thesis by (simp add: unat_mod word_unat_eq_iff)
qed

lemma SOPC_Buffer_NewSize_bounds:
  assumes "buf_wf b" "current_size b < tot" "tot \<le> maximum_size b"
  shows "\<exists>n. SOPC_Buffer_NewSize b tot ex = Some n \<and> tot \<le> n \<and> n \<le> maximum_size b"
proof (cases ex)
  case True
  with assms show ?thesis by (simp add: SOPC_Buffer_NewSize_def)
next
  case False
  let ?i = "initial_size b" and ?m = "maximum_size b"
  define r where "r = (if tot mod ?i \<noteq> 0 then tot div ?i + 1 else tot div ?i)"
  have i0: "?i \<noteq> 0"
    using assms by (auto simp: buf_wf_def split: option.splits)
  have eq: "SOPC_Buffer_NewSize b tot ex = Some (if r > ?m div ?i then ?m else r * ?i)"
    using False i0 by (simp add: SOPC_Buffer_NewSize_def Let_def r_def)
  show ?thesis
  proof (cases "r > ?m div ?i")
    case True
    with eq assms show ?thesis by simp
  next
    case le: False
    then have "unat r \<le> unat ?m div unat ?i"
      by (simp add: u32_less_iff unat_div)
    then have prod: "unat r * unat ?i \<le> unat ?m"
      by (meson div_times_less_eq_dividend le_trans mult_le_mono1)
    then have "unat (r * ?i) = unat r * unat ?i"
      using le_less_trans [OF prod unat_lt_u32] by (intro unat_mult_u32) simp
    moreover have "unat tot \<le> unat r * unat ?i"
      using round_up_ge [of "unat ?i" "unat tot"] i0 by (simp add: r_def unat_round_up unat_gt_0)
    ultimately show ?thesis using le prod eq by (simp add: u32_le_iff)
  qed
qed

lemma CheckSizeAndResize_spec:
  assumes wf: "buf_wf b"
  obtains ok b' where
    "SOPC_Buffer_CheckSizeAndResize env (Some b) tot ex = Some (ok, Some b')"
    "buf_wf b'" "stream_of b' = stream_of b"
    "position b' = position b" "buf_length b' = buf_length b" "maximum_size b' = maximum_size b"
    "initial_size b' = initial_size b"
    "ok \<Longrightarrow> tot \<le> current_size b'" "\<not> ok \<Longrightarrow> b' = b"
    "mem_total env \<Longrightarrow> ok \<longleftrightarrow> tot \<le> maximum_size b"
    "tot > maximum_size b \<Longrightarrow> \<not> ok"
proof -
  obtain d where d: "buf_data b = Some d" "length d = unat (current_size b)"
    and le: "unat (buf_length b) \<le> unat (current_size b)" "current_size b \<le> maximum_size b"
    using wf by (auto elim!: buf_wfE simp: u32_le_iff)
  consider (fits) "tot \<le> current_size b" | (grow) "current_size b < tot" "tot \<le> maximum_size b"
    | (full) "maximum_size b < tot"
    by fastforce
  then show ?thesis
  proof cases
    case fits
    then show ?thesis
      using wf le by (intro that [of True b]) (auto simp: SOPC_Buffer_CheckSizeAndResize_def)
  next
    case full
    then show ?thesis
      using wf le by (intro that [of False b])
        (auto simp: SOPC_Buffer_CheckSizeAndResize_def not_le)
  next
    case grow
    then obtain n where n: "SOPC_Buffer_NewSize b tot ex = Some n" "tot \<le> n" "n \<le> maximum_size b"
      using SOPC_Buffer_NewSize_bounds [OF wf, of tot ex] by blast
    show ?thesis
    proof (cases "SOPC_Realloc env (Some d) (unat n)")
      case None
      with grow n d wf show ?thesis
        by (intro that [of False b]) (auto simp: SOPC_Buffer_CheckSizeAndResize_def)
    next
      case (Some d')
      have len: "length d' = unat n" and "unat (buf_length b) \<le> unat n"
        using length_SOPC_Realloc [OF Some] grow n le by (auto simp: u32_le_iff u32_less_iff)
      then have "take (unat (buf_length b)) d' = take (unat (buf_length b)) d"
        using take_SOPC_Realloc [OF Some] le d by simp
      moreover have "initial_size b = 0 \<Longrightarrow> n = maximum_size b"
        using wf grow by (auto simp: buf_wf_def split: option.splits)
      ultimately show ?thesis
        using grow n d wf len Some le
        by (intro that [of True "b\<lparr>buf_data := Some d', current_size := n\<rparr>"])
          (auto simp: SOPC_Buffer_CheckSizeAndResize_def buf_wf_def stream_of_def buf_bytes_def)
    qed
  qed
qed

section \<open>Writing\<close>

text \<open>Storing bytes inside of the allocated block, and the length update that follows.\<close>

lemma store_in_block:
  assumes wf: "buf_wf b" and d: "buf_data b = Some d"
    and fit: "unat (position b) + length s \<le> unat (current_size b)" and cnt: "unat n = length s"
  defines "d' \<equiv> take (unat (position b)) d @ s @ drop (unat (position b) + length s) d"
  defines "b' \<equiv> b\<lparr>buf_data := Some d', position := position b + n\<rparr>"
  defines "b'' \<equiv> (if position b' > buf_length b' then b'\<lparr>buf_length := position b'\<rparr> else b')"
  shows "buf_wf b'' \<and> stream_of b'' = stream_put s (stream_of b)"
proof -
  note wfs = wf [THEN buf_wfE]
  have len: "length d = unat (current_size b)" and pl: "unat (position b) \<le> unat (buf_length b)"
    and lc: "unat (buf_length b) \<le> unat (current_size b)"
    using wf d by (auto elim!: buf_wfE)
  have up: "unat (position b + n) = unat (position b) + length s"
    using fit cnt unat_lt_u32 [of "current_size b"] by (subst unat_add_u32) auto
  have "length d' = length d" using fit len by (simp add: d'_def)
  then have wf'': "buf_wf b''"
    using wf d up fit cnt
    by (auto simp: b''_def b'_def buf_wf_def u32_le_iff u32_less_iff split: option.splits)
  have "take (max (unat (buf_length b)) (unat (position b) + length s)) d' =
      take (unat (position b)) (take (unat (buf_length b)) d) @ s @
      drop (unat (position b) + length s) (take (unat (buf_length b)) d)"
    using fit len pl lc by (auto simp: d'_def min_absorb1 max_def drop_take)
  then have "stream_of b'' = stream_put s (stream_of b)"
    using d up by (auto simp: b''_def b'_def stream_of_def stream_put_def buf_bytes_def u32_less_iff
        max_def not_less)
  with wf'' show ?thesis by blast
qed

lemma SOPC_Buffer_Write_ok:
  assumes wf: "buf_wf b" and mem: "mem_total env"
    and src: "unat count \<le> length src"
    and room: "unat (position b) + unat count \<le> unat (maximum_size b)"
  shows "\<exists>b'. SOPC_Buffer_Write env (Some b) (Some src) count = Some (SOPC_STATUS_OK, Some b') \<and>
    buf_wf b' \<and> stream_of b' = stream_put (take (unat count) src) (stream_of b)"
proof -
  let ?tot = "position b + count"
  have ut: "unat ?tot = unat (position b) + unat count"
    using room unat_lt_u32 [of "maximum_size b"] by (intro unat_add_u32) simp
  then have "?tot \<le> maximum_size b" using room by (simp add: u32_le_iff)
  with mem obtain b1
    where b1: "SOPC_Buffer_CheckSizeAndResize env (Some b) ?tot False = Some (True, Some b1)"
    and wf1: "buf_wf b1" and s1: "stream_of b1 = stream_of b" and p1: "position b1 = position b"
    and c1: "?tot \<le> current_size b1"
    using CheckSizeAndResize_spec [OF wf, of env ?tot False] by metis
  obtain d where d: "buf_data b1 = Some d" "length d = unat (current_size b1)"
    using wf1 by (auto elim!: buf_wfE)
  have "buf_data b \<noteq> None" using wf by (auto elim!: buf_wfE)
  moreover have "mem_read src 0 (unat count) = Some (take (unat count) src)"
    using src by (simp add: mem_read_def)
  moreover have fit: "unat (position b1) + length (take (unat count) src) \<le> unat (current_size b1)"
    using c1 src ut p1 by (simp add: u32_le_iff)
  ultimately show ?thesis
    using store_in_block [OF wf1 d(1) fit, of count] src d s1
    by (auto simp: SOPC_Buffer_Write_def b1 mem_write_Some Let_def)
qed

lemma SOPC_Buffer_Write_full:
  assumes wf: "buf_wf b"
    and "unat (position b) + unat count < 2 ^ 32"
    and "unat (maximum_size b) < unat (position b) + unat count"
  shows "SOPC_Buffer_Write env (Some b) (Some src) count =
    Some (SOPC_STATUS_OUT_OF_MEMORY, Some b)"
proof -
  let ?tot = "position b + count"
  have "?tot > maximum_size b"
    using assms by (simp add: u32_less_iff unat_add_u32)
  then have "SOPC_Buffer_CheckSizeAndResize env (Some b) ?tot False = Some (False, Some b)"
    by (rule_tac CheckSizeAndResize_spec [OF wf, of env ?tot False]) auto
  moreover have "buf_data b \<noteq> None" using wf by (auto elim!: buf_wfE)
  ultimately show ?thesis by (auto simp: SOPC_Buffer_Write_def)
qed

section \<open>Reading\<close>

text \<open>Only the position of a buffer changes when it is read.\<close>

definition buf_advance :: "nat \<Rightarrow> SOPC_Buffer \<Rightarrow> SOPC_Buffer" where
  "buf_advance n b = b\<lparr>position := position b + of_nat n\<rparr>"

lemma unat_position_advance:
  "unat (position b) + n < 2 ^ 32 \<Longrightarrow> unat (position (buf_advance n b)) = unat (position b) + n"
  by (simp add: buf_advance_def unat_add_u32 unat_of_nat_u32)

lemma buf_wf_advance:
  assumes "buf_wf b" "unat (position b) + n \<le> unat (buf_length b)"
  shows "buf_wf (buf_advance n b)"
proof -
  have "unat (position b) + n < 2 ^ 32"
    using assms unat_lt_u32 [of "buf_length b"] by simp
  with assms show ?thesis
    using unat_position_advance [of b n]
    by (auto simp: buf_wf_def u32_le_iff buf_advance_def split: option.splits)
qed

lemma buf_advance_simps [simp]:
  "buf_data (buf_advance n b) = buf_data b"
  "buf_length (buf_advance n b) = buf_length b"
  "current_size (buf_advance n b) = current_size b"
  "maximum_size (buf_advance n b) = maximum_size b"
  "initial_size (buf_advance n b) = initial_size b"
  "buf_bytes (buf_advance n b) = buf_bytes b"
  by (simp_all add: buf_advance_def buf_bytes_def)

lemma buf_advance_advance: "buf_advance m (buf_advance n b) = buf_advance (n + m) b"
  by (simp add: buf_advance_def algebra_simps)

lemma buf_advance_0 [simp]: "buf_advance 0 b = b"
  by (simp add: buf_advance_def)

lemma stream_rest_of: "buf_wf b \<Longrightarrow> length (stream_rest (stream_of b)) = unat (buf_length b) - unat (position b)"
  by (simp add: stream_rest_def length_buf_bytes)

lemma stream_rest_advance:
  assumes "buf_wf b" "unat (position b) + n \<le> unat (buf_length b)"
  shows "stream_rest (stream_of (buf_advance n b)) = drop n (stream_rest (stream_of b))"
proof -
  have "unat (position b) + n < 2 ^ 32"
    using assms unat_lt_u32 [of "buf_length b"] by simp
  then show ?thesis by (simp add: stream_rest_def unat_position_advance add.commute)
qed

lemma SOPC_Buffer_Read_ok:
  assumes wf: "buf_wf b"
    and avail: "unat (position b) + unat count \<le> unat (buf_length b)"
    and dst: "unat count \<le> length dst"
  shows "SOPC_Buffer_Read (Some dst) (Some b) count =
    Some (SOPC_STATUS_OK,
          Some (take (unat count) (stream_rest (stream_of b)) @ drop (unat count) dst),
          Some (buf_advance (unat count) b))"
proof -
  obtain d where d: "buf_data b = Some d" "length d = unat (current_size b)"
    and lc: "unat (buf_length b) \<le> unat (current_size b)"
    using wf by (auto elim!: buf_wfE)
  have "position b + count \<le> buf_length b"
    using avail unat_lt_u32 [of "buf_length b"] by (simp add: u32_le_iff unat_add_u32)
  moreover have "take (unat count) (drop (unat (position b)) d) =
      take (unat count) (stream_rest (stream_of b))"
    using d avail by (simp add: stream_rest_def buf_bytes_def drop_take min_absorb1)
  moreover have "unat count \<le> length (stream_rest (stream_of b))"
    using wf avail by (simp add: stream_rest_of)
  ultimately show ?thesis
    using d lc avail dst
    by (simp add: SOPC_Buffer_Read_def mem_read_def mem_write_def buf_advance_def min_absorb2)
qed

lemma SOPC_Buffer_Read_short:
  assumes wf: "buf_wf b"
    and "unat (position b) + unat count < 2 ^ 32"
    and "unat (buf_length b) < unat (position b) + unat count"
  shows "SOPC_Buffer_Read dst (Some b) count = Some (SOPC_STATUS_OUT_OF_MEMORY, dst, Some b)"
proof -
  have "\<not> position b + count \<le> buf_length b"
    using assms by (simp add: u32_le_iff unat_add_u32)
  then show ?thesis
    using wf by (auto simp: SOPC_Buffer_Read_def elim!: buf_wfE)
qed

section \<open>Every operation keeps the invariant\<close>

lemma Write_total:
  assumes wf: "buf_wf b" and src: "unat count \<le> length src"
    and nowrap: "unat (position b) + unat count < 2 ^ 32"
  shows "\<exists>st b'. SOPC_Buffer_Write env (Some b) (Some src) count = Some (st, Some b') \<and> buf_wf b' \<and>
    maximum_size b' = maximum_size b"
proof -
  let ?tot = "position b + count"
  obtain ok b1
    where b1: "SOPC_Buffer_CheckSizeAndResize env (Some b) ?tot False = Some (ok, Some b1)"
    and wf1: "buf_wf b1" and p1: "position b1 = position b" and m1: "maximum_size b1 = maximum_size b"
    and c1: "ok \<Longrightarrow> ?tot \<le> current_size b1"
    using CheckSizeAndResize_spec [OF wf, of env ?tot False] by metis
  have nn: "buf_data b \<noteq> None" using wf by (auto elim!: buf_wfE)
  obtain d where d: "buf_data b1 = Some d" "length d = unat (current_size b1)"
    using wf1 by (auto elim!: buf_wfE)
  show ?thesis
  proof (cases ok)
    case True
    then have fit: "unat (position b1) + length (take (unat count) src) \<le> unat (current_size b1)"
      using c1 src nowrap p1 by (simp add: u32_le_iff unat_add_u32)
    with True show ?thesis
      using store_in_block [OF wf1 d(1) fit, of count] src d nn m1
      by (auto simp: SOPC_Buffer_Write_def b1 mem_write_Some mem_read_def Let_def)
  next
    case False
    with b1 wf1 nn m1 show ?thesis by (auto simp: SOPC_Buffer_Write_def)
  qed
qed

lemma Read_total:
  assumes wf: "buf_wf b" and dst: "unat count \<le> length dst"
    and nowrap: "unat (position b) + unat count < 2 ^ 32"
  shows "\<exists>st dst' b'. SOPC_Buffer_Read (Some dst) (Some b) count = Some (st, dst', Some b') \<and>
    buf_wf b' \<and> maximum_size b' = maximum_size b"
proof (cases "unat (position b) + unat count \<le> unat (buf_length b)")
  case True
  then show ?thesis
    using SOPC_Buffer_Read_ok [OF wf True dst] buf_wf_advance [OF wf True] by simp
next
  case False
  then show ?thesis using SOPC_Buffer_Read_short [OF wf nowrap] wf by simp
qed

lemma SetPosition_wf:
  "buf_wf b \<Longrightarrow> \<exists>st b'. SOPC_Buffer_SetPosition (Some b) p = (st, Some b') \<and> buf_wf b' \<and>
    maximum_size b' = maximum_size b"
  by (auto simp: SOPC_Buffer_SetPosition_def buf_wf_def split: option.splits)

lemma mem_set_Some: "off + n \<le> length d \<Longrightarrow> \<exists>d'. mem_set d off c n = Some d' \<and> length d' = length d"
  by (simp add: mem_set_def mem_write_def)

lemma SetDataLength_wf:
  assumes "buf_wf b"
  shows "\<exists>st b'. SOPC_Buffer_SetDataLength (Some b) n = Some (st, Some b') \<and> buf_wf b' \<and>
    maximum_size b' = maximum_size b"
proof -
  obtain d where d: "buf_data b = Some d" "length d = unat (current_size b)"
    and lc: "unat (buf_length b) \<le> unat (current_size b)"
    using assms by (auto elim!: buf_wfE)
  have "n < buf_length b \<Longrightarrow>
      \<exists>d'. mem_set d (unat n) 0 (unat (buf_length b - n)) = Some d' \<and> length d' = length d"
    using d lc by (intro mem_set_Some) (auto simp: u32_less_iff unat_sub_if')
  with d assms show ?thesis
    by (auto simp: SOPC_Buffer_SetDataLength_def buf_wf_def)
qed

lemma ResetAfterPosition_wf:
  assumes "buf_wf b"
  shows "\<exists>st b'. SOPC_Buffer_ResetAfterPosition (Some b) n = Some (st, Some b') \<and> buf_wf b' \<and>
    maximum_size b' = maximum_size b"
proof -
  obtain d where d: "buf_data b = Some d" "length d = unat (current_size b)"
    and lc: "unat (buf_length b) \<le> unat (current_size b)"
    using assms by (auto elim!: buf_wfE)
  have "n \<le> buf_length b \<Longrightarrow>
      \<exists>d'. mem_set d (unat n) 0 (unat (current_size b - n)) = Some d' \<and> length d' = length d"
    using d lc by (intro mem_set_Some) (auto simp: u32_le_iff unat_sub_if')
  with d assms show ?thesis
    by (auto simp: SOPC_Buffer_ResetAfterPosition_def buf_wf_def)
qed

lemma Reset_wf:
  assumes "buf_wf b"
  shows "\<exists>b'. SOPC_Buffer_Reset (Some b) = Some (Some b') \<and> buf_wf b' \<and>
    maximum_size b' = maximum_size b"
proof -
  obtain d where d: "buf_data b = Some d" "length d = unat (current_size b)"
    using assms by (auto elim!: buf_wfE)
  then obtain d' where "mem_set d 0 0 (unat (current_size b)) = Some d'" "length d' = length d"
    using mem_set_Some [of 0 "unat (current_size b)" d 0] by auto
  with d assms show ?thesis
    by (auto simp: SOPC_Buffer_Reset_def buf_wf_def)
qed

text \<open>The state of a buffer after an operation, as the user of the component sees it.\<close>

datatype buf_op =
    OpReset
  | OpResetAfterPosition u32
  | OpSetPosition u32
  | OpSetDataLength u32
  | OpWrite "byte list"
  | OpRead u32

definition buf_exec :: "('e) mem_env_scheme \<Rightarrow> buf_op \<Rightarrow> SOPC_Buffer \<Rightarrow> bufp option" where
  "buf_exec env opn b =
     (case opn of
        OpReset \<Rightarrow> SOPC_Buffer_Reset (Some b)
      | OpResetAfterPosition p \<Rightarrow> map_option snd (SOPC_Buffer_ResetAfterPosition (Some b) p)
      | OpSetPosition p \<Rightarrow> Some (snd (SOPC_Buffer_SetPosition (Some b) p))
      | OpSetDataLength n \<Rightarrow> map_option snd (SOPC_Buffer_SetDataLength (Some b) n)
      | OpWrite bs \<Rightarrow> map_option snd (SOPC_Buffer_Write env (Some b) (Some bs) (of_nat (length bs)))
      | OpRead n \<Rightarrow> map_option (snd \<circ> snd)
          (SOPC_Buffer_Read (Some (replicate (unat n) 0)) (Some b) n))"

fun buf_run :: "('e) mem_env_scheme \<Rightarrow> buf_op list \<Rightarrow> SOPC_Buffer \<Rightarrow> bufp option" where
  "buf_run env [] b = Some (Some b)"
| "buf_run env (x # xs) b = do { bp \<leftarrow> buf_exec env x b; b' \<leftarrow> bp; buf_run env xs b' }"

text \<open>The counts a caller may pass: at most \<open>INT32_MAX\<close> bytes at once.\<close>

fun op_bounded :: "buf_op \<Rightarrow> bool" where
  "op_bounded (OpWrite bs) = (length bs < 2 ^ 31)"
| "op_bounded (OpRead n) = (unat n < 2 ^ 31)"
| "op_bounded _ = True"

lemma buf_exec_wf:
  assumes wf: "buf_wf b" and op: "op_bounded opn" and small: "unat (maximum_size b) \<le> 2 ^ 31"
  shows "\<exists>b'. buf_exec env opn b = Some (Some b') \<and> buf_wf b' \<and> maximum_size b' = maximum_size b"
proof -
  have p: "unat (position b) \<le> 2 ^ 31"
    using wf small by (auto elim!: buf_wfE)
  show ?thesis
  proof (cases opn)
    case (OpWrite bs)
    then have "unat (of_nat (length bs) :: u32) = length bs" "length bs < 2 ^ 31"
      using op by (auto intro: unat_of_nat_u32)
    with p OpWrite show ?thesis
      using Write_total [OF wf, of "of_nat (length bs)" bs env] by (auto simp: buf_exec_def)
  next
    case (OpRead n)
    with op p show ?thesis
      using Read_total [OF wf, of n "replicate (unat n) 0"] by (auto simp: buf_exec_def)
  next
    case (OpSetPosition p)
    then show ?thesis using SetPosition_wf [OF wf, of p] by (auto simp: buf_exec_def)
  next
    case (OpSetDataLength n)
    then show ?thesis using SetDataLength_wf [OF wf, of n] by (auto simp: buf_exec_def)
  next
    case (OpResetAfterPosition p)
    then show ?thesis using ResetAfterPosition_wf [OF wf, of p] by (auto simp: buf_exec_def)
  next
    case OpReset
    then show ?thesis using Reset_wf [OF wf] by (auto simp: buf_exec_def)
  qed
qed

lemma buf_run_wf:
  assumes "buf_wf b" "list_all op_bounded ops" "unat (maximum_size b) \<le> 2 ^ 31"
  shows "\<exists>b'. buf_run env ops b = Some (Some b') \<and> buf_wf b' \<and> maximum_size b' = maximum_size b"
  using assms
proof (induction ops arbitrary: b)
  case Nil
  then show ?case by simp
next
  case (Cons x ops)
  then obtain b1 where "buf_exec env x b = Some (Some b1)" "buf_wf b1" "maximum_size b1 = maximum_size b"
    using buf_exec_wf [of b x env] by auto
  with Cons show ?case by fastforce
qed

lemma SOPC_Buffer_CreateResizable_wf:
  assumes "SOPC_Buffer_CreateResizable env i m = Some b"
  shows "buf_wf b \<and> maximum_size b = m \<and> stream_of b = \<lparr>s_bytes = [], s_pos = 0, s_cap = unat m\<rparr>"
  using assms
  by (auto simp: SOPC_Buffer_CreateResizable_def SOPC_Buffer_Init_def SOPC_Calloc_def buf_wf_def
      stream_of_def buf_bytes_def not_less split: if_splits option.splits prod.splits
      SOPC_ReturnStatus.splits)

lemma SOPC_Buffer_CopyWithLength_ok:
  assumes wfd: "buf_wf ds" and wfs: "buf_wf sr" and mem: "n \<le> current_size ds \<or> mem_total env \<and> n \<le> maximum_size ds"
    and len: "n \<le> buf_length sr" and pos: "position sr \<le> n"
  shows "\<exists>b'. SOPC_Buffer_CopyWithLength env (Some ds) (Some sr) n = Some (SOPC_STATUS_OK, Some b') \<and>
    buf_wf b' \<and> buf_bytes b' = take (unat n) (buf_bytes sr) \<and> position b' = position sr \<and>
    maximum_size b' = maximum_size ds \<and> buf_length b' = n \<and>
    (n \<le> current_size ds \<longrightarrow> current_size b' = current_size ds)"
proof -
  obtain b1 where b1: "SOPC_Buffer_CheckSizeAndResize env (Some ds) n True = Some (True, Some b1)"
    and wf1: "buf_wf b1" and m1: "maximum_size b1 = maximum_size ds" and c1: "n \<le> current_size b1"
    and k1: "n \<le> current_size ds \<longrightarrow> b1 = ds"
  proof (cases "n \<le> current_size ds")
    case True
    then show thesis using wfd by (intro that [of ds]) (auto simp: SOPC_Buffer_CheckSizeAndResize_def)
  next
    case False
    then show thesis using CheckSizeAndResize_spec [OF wfd, of env n True] mem that by metis
  qed
  obtain d1 where d1: "buf_data b1 = Some d1" "length d1 = unat (current_size b1)"
    and bl1: "unat (buf_length b1) \<le> unat (current_size b1)"
    using wf1 by (auto elim!: buf_wfE)
  obtain sd where sd: "buf_data sr = Some sd" "length sd = unat (current_size sr)"
    and sl: "unat (buf_length sr) \<le> unat (current_size sr)" and sp: "position sr \<le> buf_length sr"
    using wfs by (auto elim!: buf_wfE simp: u32_le_iff)
  define s where "s = take (unat n) sd"
  have ls: "length s = unat n" and rd: "mem_read sd 0 (unat n) = Some s"
    using sd sl len by (auto simp: s_def mem_read_def u32_le_iff)
  have wr: "mem_write d1 0 s = Some (s @ drop (unat n) d1)"
    using ls d1 c1 by (simp add: mem_write_def u32_le_iff)
  have dd: "buf_data ds \<noteq> None" using wfd by (auto elim!: buf_wfE)
  have bytes: "buf_bytes sr = take (unat (buf_length sr)) sd" by (simp add: buf_bytes_def sd)
  let ?b2 = "b1\<lparr>buf_data := Some (s @ drop (unat n) d1), position := 0\<rparr>"
  have set0: "SOPC_Buffer_SetPosition (Some (b1\<lparr>buf_data := Some (s @ drop (unat n) d1)\<rparr>)) 0 =
      (SOPC_STATUS_OK, Some ?b2)"
    by (simp add: SOPC_Buffer_SetPosition_def)
  obtain d2 where sdl: "SOPC_Buffer_SetDataLength (Some ?b2) n =
      Some (SOPC_STATUS_OK, Some (?b2\<lparr>buf_data := Some d2, buf_length := n\<rparr>))"
    and d2: "length d2 = length d1" "take (unat n) d2 = s"
  proof (cases "n < buf_length b1")
    case True
    then have "unat n + unat (buf_length b1 - n) \<le> length (s @ drop (unat n) d1)"
      using d1 ls bl1 by (auto simp: u32_less_iff unat_sub_if')
    then obtain d2 where "mem_set (s @ drop (unat n) d1) (unat n) 0 (unat (buf_length b1 - n)) = Some d2"
      "length d2 = length d1" "take (unat n) d2 = s"
      using ls c1 d1 by (auto simp: mem_set_def mem_write_Some u32_le_iff)
    then show ?thesis
      using True c1 by (intro that) (auto simp: SOPC_Buffer_SetDataLength_def u32_le_iff)
  next
    case False
    then show ?thesis
      using c1 ls d1 by (intro that [of "s @ drop (unat n) d1"])
        (auto simp: SOPC_Buffer_SetDataLength_def u32_le_iff)
  qed
  obtain dd' where dd': "buf_data ds = Some dd'" using dd by auto
  let ?b3 = "?b2\<lparr>buf_data := Some d2, buf_length := n, position := position sr\<rparr>"
  have "SOPC_Buffer_CopyWithLength env (Some ds) (Some sr) n = Some (SOPC_STATUS_OK, Some ?b3)"
    using dd' sd len pos sp d1
    by (simp add: SOPC_Buffer_CopyWithLength_def b1 rd wr set0 sdl SOPC_Buffer_SetPosition_def [of _ "position sr"])
  moreover have "buf_wf ?b3"
    using wf1 d1 d2 c1 pos by (simp add: buf_wf_def)
  moreover have "take (unat n) (buf_bytes sr) = s"
    using len by (simp add: bytes s_def u32_le_iff min_absorb1)
  ultimately show ?thesis
    using d2 m1 k1 by (simp add: buf_bytes_def)
qed

section \<open>Properties\<close>

text \<open>
  C18: writing into a well-formed buffer at a position where \<open>position + count\<close> does not wrap
  around is memory safe and total: when the bytes fit below the maximum size the write succeeds,
  and the content and position are those of the same write on a byte stream, whatever growing of
  the block was necessary; otherwise the buffer is unchanged and the status is
  \<open>SOPC_STATUS_OUT_OF_MEMORY\<close>. The memory for a growing block is available (\<open>mem_total\<close>) and the source holds the
  \<open>count\<close> bytes.
\<close>

theorem buffer_write_refines_stream:
  assumes "buf_wf b" and "mem_total env" and "unat count \<le> length src"
    and "unat (position b) + unat count < 2 ^ 32"
  shows "if unat (position b) + unat count \<le> unat (maximum_size b) then
      (\<exists>b'. SOPC_Buffer_Write env (Some b) (Some src) count = Some (SOPC_STATUS_OK, Some b') \<and>
        buf_wf b' \<and> stream_of b' = stream_put (take (unat count) src) (stream_of b))
    else SOPC_Buffer_Write env (Some b) (Some src) count =
      Some (SOPC_STATUS_OUT_OF_MEMORY, Some b)"
proof (cases "unat (position b) + unat count \<le> unat (maximum_size b)")
  case True
  with SOPC_Buffer_Write_ok [OF assms(1-3) True] show ?thesis by simp
next
  case False
  with SOPC_Buffer_Write_full [OF assms(1,4)] show ?thesis by simp
qed

definition demo_env :: mem_env where
  "demo_env = \<lparr>mem_ok = (\<lambda>_. True), mem_fill = (\<lambda>_. 170)\<rparr>"

definition demo_buffer :: SOPC_Buffer where
  "demo_buffer = \<lparr>initial_size = 2, current_size = 2, maximum_size = 7, position = 1,
                  buf_length = 2, buf_data = Some [10, 11]\<rparr>"

lemma demo_facts: "mem_total demo_env" "buf_wf demo_buffer"
  by (simp_all add: demo_env_def demo_buffer_def mem_total_def buf_wf_def)

theorem buffer_write_refines_stream_witness:
  "\<exists>b'. SOPC_Buffer_Write demo_env (Some demo_buffer) (Some [1, 2, 3]) 3 =
      Some (SOPC_STATUS_OK, Some b') \<and> buf_wf b' \<and>
    stream_of b' = stream_put [1, 2, 3] (stream_of demo_buffer)"
  using buffer_write_refines_stream [OF demo_facts(2,1), of 3 "[1, 2, 3]"]
  by (simp add: demo_buffer_def)

text \<open>
  C29: whatever sequence of operations is applied to a freshly created buffer of at most
  \<open>2 ^ 31\<close> bytes, with counts below \<open>2 ^ 31\<close>, no operation accesses memory outside of the
  allocated block, and the buffer stays well-formed (block size, position, length, current size and
  maximum size ordered).
\<close>

theorem buffer_operations_safe:
  assumes "SOPC_Buffer_CreateResizable env i m = Some b" and "unat m \<le> 2 ^ 31"
    and "list_all op_bounded ops"
  shows "\<exists>b'. buf_run env ops b = Some (Some b') \<and> buf_wf b' \<and> maximum_size b' = m"
  using SOPC_Buffer_CreateResizable_wf [OF assms(1)] buf_run_wf [of b ops env] assms(2,3) by simp

theorem buffer_operations_safe_witness:
  "\<exists>b b'. SOPC_Buffer_CreateResizable demo_env 2 9 = Some b \<and>
    buf_run demo_env [OpWrite [1, 2, 3], OpSetPosition 1, OpRead 2, OpSetDataLength 4] b =
      Some (Some b') \<and> buf_wf b' \<and> maximum_size b' = 9"
proof -
  obtain b where c: "SOPC_Buffer_CreateResizable demo_env 2 9 = Some b"
    by (simp add: SOPC_Buffer_CreateResizable_def SOPC_Buffer_Init_def SOPC_Calloc_def demo_env_def)
  then show ?thesis
    using buffer_operations_safe [OF c,
        of "[OpWrite [1, 2, 3], OpSetPosition 1, OpRead 2, OpSetDataLength 4]"]
    by simp
qed

text \<open>
  What is written is read back: after a write that fits, going back to the position of the
  write and reading as many bytes gives the bytes written and leaves the position after them.
\<close>

theorem buffer_write_read_roundtrip:
  assumes "buf_wf b" and "mem_total env" and "unat count = length src" and "length dst = length src"
    and "unat (position b) + length src \<le> unat (maximum_size b)"
  shows "\<exists>b1 b2. SOPC_Buffer_Write env (Some b) (Some src) count = Some (SOPC_STATUS_OK, Some b1) \<and>
    SOPC_Buffer_SetPosition (Some b1) (position b) = (SOPC_STATUS_OK, Some b2) \<and>
    SOPC_Buffer_Read (Some dst) (Some b2) count =
      Some (SOPC_STATUS_OK, Some src, Some (buf_advance (length src) b2))"
proof -
  obtain b1 where b1: "SOPC_Buffer_Write env (Some b) (Some src) count = Some (SOPC_STATUS_OK, Some b1)"
    "buf_wf b1" "stream_of b1 = stream_put src (stream_of b)"
    using SOPC_Buffer_Write_ok [of b env count src] assms by auto
  have pl: "unat (position b) \<le> length (buf_bytes b)"
    using assms(1) by (simp add: length_buf_bytes) (auto elim!: buf_wfE)
  have bytes: "buf_bytes b1 = s_bytes (stream_put src (stream_of b))"
    using arg_cong [OF b1(3), of s_bytes] by simp
  have len: "unat (position b) + length src \<le> unat (buf_length b1)"
    using length_buf_bytes [OF b1(2)] bytes stream_put_length [of "stream_of b" src] pl by simp
  let ?b2 = "b1\<lparr>position := position b\<rparr>"
  have wf2: "buf_wf ?b2"
    using b1(2) len by (auto simp: buf_wf_def u32_le_iff split: option.splits)
  have "buf_data b1 \<noteq> None" using b1(2) by (auto elim!: buf_wfE)
  then have sp: "SOPC_Buffer_SetPosition (Some b1) (position b) = (SOPC_STATUS_OK, Some ?b2)"
    using len by (simp add: SOPC_Buffer_SetPosition_def u32_le_iff)
  have "buf_bytes ?b2 = buf_bytes b1" by (simp add: buf_bytes_def)
  then have "take (length src) (stream_rest (stream_of ?b2)) = src"
    using stream_put_take [of "stream_of b" src] pl bytes by (simp add: stream_rest_def)
  then have "SOPC_Buffer_Read (Some dst) (Some ?b2) count =
      Some (SOPC_STATUS_OK, Some src, Some (buf_advance (length src) ?b2))"
    using SOPC_Buffer_Read_ok [OF wf2, of count dst] assms(3,4) len by simp
  with b1(1) sp show ?thesis by blast
qed

theorem buffer_write_read_roundtrip_witness:
  "\<exists>b1 b2. SOPC_Buffer_Write demo_env (Some demo_buffer) (Some [7, 8]) 2 =
      Some (SOPC_STATUS_OK, Some b1) \<and>
    SOPC_Buffer_SetPosition (Some b1) 1 = (SOPC_STATUS_OK, Some b2) \<and>
    SOPC_Buffer_Read (Some [0, 0]) (Some b2) 2 =
      Some (SOPC_STATUS_OK, Some [7, 8], Some (buf_advance (length [7, 8 :: byte]) b2))"
  using buffer_write_read_roundtrip [OF demo_facts(2,1), of 2 "[7, 8]" "[0, 0]"]
  by (simp add: demo_buffer_def)

text \<open>
  Copying a buffer (or its first \<open>n\<close> bytes, when the position is not after them) into one
  whose maximum size is large enough succeeds: the destination stays well-formed, holds exactly the
  copied bytes and takes the position of the source.
\<close>

theorem buffer_copy_with_length:
  assumes "buf_wf ds" and "buf_wf sr" and "mem_total env"
    and "n \<le> buf_length sr" and "position sr \<le> n" and "n \<le> maximum_size ds"
  shows "\<exists>b'. SOPC_Buffer_CopyWithLength env (Some ds) (Some sr) n = Some (SOPC_STATUS_OK, Some b') \<and>
    buf_wf b' \<and> buf_bytes b' = take (unat n) (buf_bytes sr) \<and> position b' = position sr"
  using SOPC_Buffer_CopyWithLength_ok [OF assms(1,2) _ assms(4,5)] assms(3,6) by blast

theorem buffer_copy_with_length_witness:
  "\<exists>b'. SOPC_Buffer_CopyWithLength demo_env (Some demo_buffer) (Some demo_buffer) 1 =
      Some (SOPC_STATUS_OK, Some b') \<and>
    buf_wf b' \<and> buf_bytes b' = take (unat (1 :: u32)) (buf_bytes demo_buffer) \<and>
    position b' = position demo_buffer"
  by (rule buffer_copy_with_length) (simp_all add: demo_facts, simp_all add: demo_buffer_def)

text \<open>
  C35: the size check of \<open>SOPC_Buffer_Write\<close> adds \<open>position\<close> and \<open>count\<close> in 32 bits. A count that
  makes the sum wrap around passes the check although it exceeds the maximum size, and the copy then
  runs outside of the block, even when the source holds that many bytes.
\<close>

theorem buffer_write_count_wraps:
  "\<exists>b src count. buf_wf b \<and> unat (maximum_size b) < unat count \<and> length src = unat count \<and>
     SOPC_Buffer_CheckSizeAndResize demo_env (Some b) (position b + count) False = Some (True, Some b) \<and>
     SOPC_Buffer_Write demo_env (Some b) (Some src) count = None"
proof -
  obtain src :: "byte list" where src: "length src = unat (4294967295 :: u32)"
    using Ex_list_of_length by blast
  then have "SOPC_Buffer_Write demo_env (Some demo_buffer) (Some src) 4294967295 = None"
    by (simp add: SOPC_Buffer_Write_def SOPC_Buffer_CheckSizeAndResize_def demo_buffer_def
        mem_read_def mem_write_def)
  moreover have "unat (maximum_size demo_buffer) < unat (4294967295 :: u32)" by (simp add: demo_buffer_def)
  moreover have "SOPC_Buffer_CheckSizeAndResize demo_env (Some demo_buffer)
      (position demo_buffer + 4294967295) False = Some (True, Some demo_buffer)"
    by (simp add: SOPC_Buffer_CheckSizeAndResize_def demo_buffer_def)
  ultimately show ?thesis using src demo_facts by blast
qed

end
