(* ===== verification/Builtin_Types.thy ===== *)
theory Builtin_Types
  imports S2OPC_Prelude
begin

unbundle bit_operations_syntax

text \<open>
  The OPC UA built-in types of \<open>src/Common/opcua_types/sopc_builtintypes.c\<close> that the encoder and
  the containers use: strings, byte strings, GUIDs and node identifiers, with their initialisation,
  clearing, copy, comparison and hash. Blocks are values, so \<open>SOPC_Free\<close> has no effect in the
  model and a copied pointer is a copied block.
\<close>

section \<open>Structures\<close>

record SOPC_String =
  Str_Length :: i32
  Str_DoNotClear :: bool
  Str_Data :: "byte list option"

type_synonym SOPC_ByteString = SOPC_String
type_synonym SOPC_XmlElement = SOPC_String

record SOPC_Guid =
  Guid_Data1 :: u32
  Guid_Data2 :: u16
  Guid_Data3 :: u16
  Guid_Data4 :: "byte list"

datatype SOPC_IdentifierType =
    SOPC_IdentifierType_Numeric
  | SOPC_IdentifierType_String
  | SOPC_IdentifierType_Guid
  | SOPC_IdentifierType_ByteString

fun IdentifierType_value :: "SOPC_IdentifierType \<Rightarrow> nat" where
  "IdentifierType_value SOPC_IdentifierType_Numeric = 0"
| "IdentifierType_value SOPC_IdentifierType_String = 1"
| "IdentifierType_value SOPC_IdentifierType_Guid = 2"
| "IdentifierType_value SOPC_IdentifierType_ByteString = 3"

text \<open>
  The union of a node identifier, by the member written last. \<open>Str_Length\<close> is the first member of a
  string, so it shares its memory with \<open>Numeric\<close>; a numeric identifier is written over memory that
  \<open>SOPC_NodeId_Initialize\<close> has zeroed.
\<close>

datatype SOPC_NodeId_Data =
    Id_Numeric u32
  | Id_String SOPC_String
  | Id_Guid "SOPC_Guid option"
  | Id_Bstring SOPC_ByteString

record SOPC_NodeId =
  NodeId_IdentifierType :: SOPC_IdentifierType
  NodeId_Namespace :: u16
  NodeId_Data :: SOPC_NodeId_Data

fun union_Numeric :: "SOPC_NodeId_Data \<Rightarrow> u32 option" where
  "union_Numeric (Id_Numeric n) = Some n"
| "union_Numeric (Id_String s) = Some (Str_Length s)"
| "union_Numeric (Id_Bstring s) = Some (Str_Length s)"
| "union_Numeric (Id_Guid None) = Some 0"
| "union_Numeric (Id_Guid (Some g)) = None"

fun union_String :: "SOPC_NodeId_Data \<Rightarrow> SOPC_String option" where
  "union_String (Id_Numeric n) = Some \<lparr>Str_Length = n, Str_DoNotClear = False, Str_Data = None\<rparr>"
| "union_String (Id_String s) = Some s"
| "union_String (Id_Bstring s) = Some s"
| "union_String (Id_Guid p) = None"

fun union_Guid :: "SOPC_NodeId_Data \<Rightarrow> SOPC_Guid option option" where
  "union_Guid (Id_Guid p) = Some p"
| "union_Guid (Id_Numeric n) = (if n = 0 then Some None else None)"
| "union_Guid _ = None"

section \<open>Strings\<close>

definition str_init :: SOPC_String where
  "str_init = \<lparr>Str_Length = -1, Str_DoNotClear = False, Str_Data = None\<rparr>"

definition SOPC_String_Initialize :: "SOPC_String option \<Rightarrow> SOPC_String option" where
  "SOPC_String_Initialize string = map_option (\<lambda>_. str_init) string"

definition SOPC_String_Clear :: "SOPC_String option \<Rightarrow> SOPC_String option" where
  "SOPC_String_Clear string = SOPC_String_Initialize string"

definition SOPC_String_AttachFrom ::
  "SOPC_String option \<Rightarrow> SOPC_String option \<Rightarrow> SOPC_ReturnStatus \<times> SOPC_String option" where
  "SOPC_String_AttachFrom dest src =
     (case (dest, src) of
        (Some d, Some s) \<Rightarrow>
          if 0 \<le> sint (Str_Length s) \<and> Str_Data s \<noteq> None then
            (SOPC_STATUS_OK,
             Some \<lparr>Str_Length = Str_Length s, Str_DoNotClear = True, Str_Data = Str_Data s\<rparr>)
          else (SOPC_STATUS_INVALID_PARAMETERS, dest)
      | _ \<Rightarrow> (SOPC_STATUS_INVALID_PARAMETERS, dest))"

text \<open>
  \<open>SIZE_MAX\<close> is at least \<open>UINT32_MAX\<close> (checked when the library is compiled), so the size guards
  on a positive \<open>int32_t\<close> length always hold.
\<close>

definition SOPC_String_Copy ::
  "('e) mem_env_scheme \<Rightarrow> SOPC_String option \<Rightarrow> SOPC_String option \<Rightarrow>
   (SOPC_ReturnStatus \<times> SOPC_String option) option" where
  "SOPC_String_Copy env dest src =
     (case (dest, src) of
        (Some d, Some s) \<Rightarrow>
          if Str_Data d = None then
            (let d = d\<lparr>Str_Length := Str_Length s\<rparr>
             in if 0 < sint (Str_Length d) then
                  (case SOPC_Malloc env (nat (sint (Str_Length d)) + 1) of
                     None \<Rightarrow> Some (SOPC_STATUS_OUT_OF_MEMORY, Some (d\<lparr>Str_Data := None\<rparr>))
                   | Some blk \<Rightarrow> do {
                       sd \<leftarrow> Str_Data s;
                       bs \<leftarrow> mem_read sd 0 (nat (sint (Str_Length d)));
                       blk \<leftarrow> mem_write blk 0 (bs @ [0]);
                       Some (SOPC_STATUS_OK,
                             Some (d\<lparr>Str_Data := Some blk, Str_DoNotClear := False\<rparr>)) })
                else Some (SOPC_STATUS_OK, Some (d\<lparr>Str_Data := None\<rparr>)))
          else Some (SOPC_STATUS_INVALID_PARAMETERS, dest)
      | _ \<Rightarrow> Some (SOPC_STATUS_INVALID_PARAMETERS, dest))"

text \<open>C strings: the length up to the terminating zero, \<open>None\<close> when the block holds none.\<close>

fun c_strlen :: "byte list \<Rightarrow> nat option" where
  "c_strlen [] = None"
| "c_strlen (x # xs) = (if x = 0 then Some 0 else map_option Suc (c_strlen xs))"

definition SOPC_String_AttachFromCstring ::
  "SOPC_String option \<Rightarrow> byte list option \<Rightarrow> (SOPC_ReturnStatus \<times> SOPC_String option) option" where
  "SOPC_String_AttachFromCstring dest src =
     (case (dest, src) of
        (Some d, Some c) \<Rightarrow>
          if Str_Data d = None then do {
            stringLength \<leftarrow> c_strlen c;
            Some (if stringLength \<le> 2147483647
                  then (SOPC_STATUS_OK, Some (d\<lparr>Str_Length := of_nat stringLength, Str_Data := Some c, Str_DoNotClear := True\<rparr>))
                  else (SOPC_STATUS_INVALID_PARAMETERS, dest)) }
          else Some (SOPC_STATUS_INVALID_PARAMETERS, dest)
      | _ \<Rightarrow> Some (SOPC_STATUS_INVALID_PARAMETERS, dest))"

definition SOPC_String_CopyFromCString ::
  "('e) mem_env_scheme \<Rightarrow> SOPC_String option \<Rightarrow> byte list option \<Rightarrow> (SOPC_ReturnStatus \<times> SOPC_String option) option" where
  "SOPC_String_CopyFromCString env string cString =
     (case (string, cString) of
        (Some s, Some c) \<Rightarrow>
          if Str_Data s = None then do {
            stringLength \<leftarrow> c_strlen c;
            if 0 < stringLength \<and> stringLength \<le> 2147483647 then
              (let s = s\<lparr>Str_Length := of_nat stringLength\<rparr>
               in case SOPC_Malloc env (stringLength + 1) of
                    None \<Rightarrow> Some (SOPC_STATUS_NOK, Some s)
                  | Some blk \<Rightarrow> do {
                      bs \<leftarrow> mem_read c 0 (stringLength + 1);
                      blk \<leftarrow> mem_write blk 0 bs;
                      Some (SOPC_STATUS_OK, Some (s\<lparr>Str_Data := Some blk\<rparr>)) })
            else if stringLength = 0 then Some (SOPC_STATUS_OK, Some (s\<lparr>Str_Length := 0\<rparr>))
            else Some (SOPC_STATUS_NOK, string) }
          else Some (SOPC_STATUS_INVALID_PARAMETERS, string)
      | _ \<Rightarrow> Some (SOPC_STATUS_INVALID_PARAMETERS, string))"

definition SOPC_ByteString_InitializeFixedSize ::
  "('e) mem_env_scheme \<Rightarrow> SOPC_ByteString option \<Rightarrow> u32 \<Rightarrow> SOPC_ReturnStatus \<times> SOPC_ByteString option" where
  "SOPC_ByteString_InitializeFixedSize env bstring sz =
     (case bstring of None \<Rightarrow> (SOPC_STATUS_INVALID_PARAMETERS, None)
      | Some _ \<Rightarrow>
          if unat sz \<le> 2147483647 then
            (case SOPC_Malloc env (unat sz) of
               None \<Rightarrow> (SOPC_STATUS_NOK, Some (str_init\<lparr>Str_Length := sz\<rparr>))
             | Some d \<Rightarrow> (SOPC_STATUS_OK, Some (str_init\<lparr>Str_Length := sz, Str_Data := Some (replicate (unat sz) 0)\<rparr>)))
          else (SOPC_STATUS_NOK, Some str_init))"

definition SOPC_ByteString_Copy ::
  "('e) mem_env_scheme \<Rightarrow> SOPC_ByteString option \<Rightarrow> SOPC_ByteString option \<Rightarrow>
   (SOPC_ReturnStatus \<times> SOPC_ByteString option) option" where
  "SOPC_ByteString_Copy env dest src =
     (case (dest, src) of
        (Some d, Some s) \<Rightarrow>
          if Str_Data d = None then
            (let d = d\<lparr>Str_Length := Str_Length s\<rparr>
             in if 0 < sint (Str_Length d) then
                  (case SOPC_Malloc env (nat (sint (Str_Length d))) of
                     None \<Rightarrow> Some (SOPC_STATUS_NOK, Some (d\<lparr>Str_Data := None\<rparr>))
                   | Some blk \<Rightarrow> do {
                       sd \<leftarrow> Str_Data s;
                       bs \<leftarrow> mem_read sd 0 (nat (sint (Str_Length d)));
                       blk \<leftarrow> mem_write blk 0 bs;
                       Some (SOPC_STATUS_OK, Some (d\<lparr>Str_Data := Some blk\<rparr>)) })
                else Some (SOPC_STATUS_OK, Some d))
          else Some (SOPC_STATUS_INVALID_PARAMETERS, dest)
      | _ \<Rightarrow> Some (SOPC_STATUS_INVALID_PARAMETERS, dest))"

text \<open>\<open>tolower\<close> in the C locale, on bytes.\<close>

definition c_tolower :: "byte \<Rightarrow> byte" where
  "c_tolower x = (if 65 \<le> x \<and> x \<le> 90 then x + 32 else x)"

text \<open>The loop of \<open>SOPC_strncmp_ignore_case\<close>, on the bytes still to compare.\<close>

fun strncmp_ignore_case_loop :: "byte list \<Rightarrow> byte list \<Rightarrow> nat \<Rightarrow> int option" where
  "strncmp_ignore_case_loop xs ys 0 = Some 0"
| "strncmp_ignore_case_loop (x # xs) (y # ys) (Suc n) =
     (let lc1 = c_tolower x; lc2 = c_tolower y
      in if lc1 < lc2 then Some (-1)
         else if lc1 > lc2 then Some 1
         else if lc1 = 0 then Some 0
         else strncmp_ignore_case_loop xs ys n)"
| "strncmp_ignore_case_loop xs ys (Suc n) = None"

definition SOPC_strncmp_ignore_case ::
  "byte list option \<Rightarrow> byte list option \<Rightarrow> nat \<Rightarrow> int option" where
  "SOPC_strncmp_ignore_case s1 s2 n =
     (case (s1, s2) of
        (Some xs, Some ys) \<Rightarrow> strncmp_ignore_case_loop xs ys n
      | _ \<Rightarrow> Some (-1000))"

definition SOPC_String_Compare ::
  "SOPC_String option \<Rightarrow> SOPC_String option \<Rightarrow> bool \<Rightarrow> int option \<Rightarrow>
   (SOPC_ReturnStatus \<times> int option) option" where
  "SOPC_String_Compare left right ignoreCase comparison =
     (case (left, right, comparison) of
        (Some l, Some r, Some _) \<Rightarrow> do {
          c \<leftarrow> (if sint (Str_Length l) \<le> 0 \<and> sint (Str_Length r) \<le> 0 then Some 0
                 else if Str_Length l = Str_Length r then
                   (if \<not> ignoreCase then do {
                      ld \<leftarrow> Str_Data l; rd \<leftarrow> Str_Data r; c_strcmp ld rd }
                    else SOPC_strncmp_ignore_case (Str_Data l) (Str_Data r)
                           (nat (sint (Str_Length l))))
                 else if sint (Str_Length l) > sint (Str_Length r) then Some 1
                 else Some (-1));
          Some (SOPC_STATUS_OK, Some c) }
      | _ \<Rightarrow> Some (SOPC_STATUS_INVALID_PARAMETERS, comparison))"

definition SOPC_String_Equal :: "SOPC_String option \<Rightarrow> SOPC_String option \<Rightarrow> bool option" where
  "SOPC_String_Equal left right = do {
     (st, c) \<leftarrow> SOPC_String_Compare left right False (Some 0);
     Some (st = SOPC_STATUS_OK \<and> c = Some 0) }"

text \<open>\<open>SOPC_ByteString_Compare\<close> does not check \<open>comparison\<close>, which its callers never pass as \<open>NULL\<close>.\<close>

definition SOPC_ByteString_Compare ::
  "SOPC_ByteString option \<Rightarrow> SOPC_ByteString option \<Rightarrow> int \<Rightarrow>
   (SOPC_ReturnStatus \<times> int) option" where
  "SOPC_ByteString_Compare left right comparison =
     (case (left, right) of
        (Some l, Some r) \<Rightarrow> do {
          c \<leftarrow> (if Str_Length l = Str_Length r \<or>
                    sint (Str_Length l) \<le> 0 \<and> sint (Str_Length r) \<le> 0 then
                   (if sint (Str_Length l) \<le> 0 \<and> sint (Str_Length r) \<le> 0 then Some 0
                    else do { ld \<leftarrow> Str_Data l; rd \<leftarrow> Str_Data r;
                              c_memcmp ld rd (nat (sint (Str_Length l))) })
                 else if sint (Str_Length l) > sint (Str_Length r) then Some 1
                 else Some (-1));
          Some (SOPC_STATUS_OK, c) }
      | _ \<Rightarrow> Some (SOPC_STATUS_INVALID_PARAMETERS, comparison))"

definition SOPC_ByteString_Equal ::
  "SOPC_ByteString option \<Rightarrow> SOPC_ByteString option \<Rightarrow> bool option" where
  "SOPC_ByteString_Equal left right = do {
     (st, c) \<leftarrow> SOPC_ByteString_Compare left right 0;
     Some (st = SOPC_STATUS_OK \<and> c = 0) }"

section \<open>GUIDs\<close>

definition guid_zero :: SOPC_Guid where
  "guid_zero = \<lparr>Guid_Data1 = 0, Guid_Data2 = 0, Guid_Data3 = 0, Guid_Data4 = replicate 8 0\<rparr>"

definition SOPC_Guid_Initialize :: "SOPC_Guid option \<Rightarrow> SOPC_Guid option" where
  "SOPC_Guid_Initialize guid = map_option (\<lambda>_. guid_zero) guid"

definition SOPC_Guid_Copy ::
  "SOPC_Guid option \<Rightarrow> SOPC_Guid option \<Rightarrow> SOPC_ReturnStatus \<times> SOPC_Guid option" where
  "SOPC_Guid_Copy dest src =
     (case (dest, src) of
        (Some _, Some s) \<Rightarrow> (SOPC_STATUS_OK, Some s)
      | _ \<Rightarrow> (SOPC_STATUS_INVALID_PARAMETERS, dest))"

text \<open>The memory image of a GUID: 16 bytes without padding.\<close>

definition guid_mem :: "SOPC_Guid \<Rightarrow> byte list" where
  "guid_mem g = le_bytes 4 (unat (Guid_Data1 g)) @ le_bytes 2 (unat (Guid_Data2 g)) @
     le_bytes 2 (unat (Guid_Data3 g)) @ Guid_Data4 g"

definition guid_wf :: "SOPC_Guid \<Rightarrow> bool" where
  "guid_wf g \<longleftrightarrow> length (Guid_Data4 g) = 8"

section \<open>Hash functions\<close>

definition FNV1A_OFFSET_BASIS :: u64 where
  "FNV1A_OFFSET_BASIS = 14695981039346656037"

definition FNV1A_PRIME :: u64 where
  "FNV1A_PRIME = 1099511628211"

primrec SOPC_FNV1aHash_Step :: "byte list \<Rightarrow> u64 \<Rightarrow> u64" where
  "SOPC_FNV1aHash_Step [] current = current"
| "SOPC_FNV1aHash_Step (x # xs) current =
     SOPC_FNV1aHash_Step xs ((current XOR ucast x) * FNV1A_PRIME)"

definition SOPC_FNV1aHash :: "byte list \<Rightarrow> u64" where
  "SOPC_FNV1aHash bytes = SOPC_FNV1aHash_Step bytes FNV1A_OFFSET_BASIS"

primrec SOPC_DJBHash_Step :: "byte list \<Rightarrow> u64 \<Rightarrow> u64" where
  "SOPC_DJBHash_Step [] current = current"
| "SOPC_DJBHash_Step (x # xs) current =
     SOPC_DJBHash_Step xs (push_bit 5 current + current + ucast x)"

definition SOPC_DJBHash :: "byte list \<Rightarrow> u64" where
  "SOPC_DJBHash bytes = SOPC_DJBHash_Step bytes 5381"

section \<open>Node identifiers\<close>

definition nodeid_zero :: SOPC_NodeId where
  "nodeid_zero = \<lparr>NodeId_IdentifierType = SOPC_IdentifierType_Numeric, NodeId_Namespace = 0,
                  NodeId_Data = Id_Numeric 0\<rparr>"

definition SOPC_NodeId_Initialize :: "SOPC_NodeId option \<Rightarrow> SOPC_NodeId option" where
  "SOPC_NodeId_Initialize nodeId = map_option (\<lambda>_. nodeid_zero) nodeId"

text \<open>Clearing the string member leaves its initial value in the union.\<close>

definition SOPC_NodeId_Clear :: "SOPC_NodeId option \<Rightarrow> SOPC_NodeId option" where
  "SOPC_NodeId_Clear nodeId =
     map_option
       (\<lambda>n. n\<lparr>NodeId_Namespace := 0,
              NodeId_Data :=
                (case NodeId_IdentifierType n of
                   SOPC_IdentifierType_Numeric \<Rightarrow> Id_Numeric 0
                 | SOPC_IdentifierType_String \<Rightarrow> Id_String str_init
                 | SOPC_IdentifierType_Guid \<Rightarrow> Id_Guid None
                 | SOPC_IdentifierType_ByteString \<Rightarrow> Id_Bstring str_init),
              NodeId_IdentifierType := SOPC_IdentifierType_Numeric\<rparr>) nodeId"

definition SOPC_NodeId_IsNull :: "SOPC_NodeId option \<Rightarrow> bool option" where
  "SOPC_NodeId_IsNull nodeId =
     (case nodeId of None \<Rightarrow> Some True
      | Some n \<Rightarrow>
          if NodeId_Namespace n \<noteq> 0 then Some False
          else (case NodeId_IdentifierType n of
                  SOPC_IdentifierType_Numeric \<Rightarrow> do {
                    v \<leftarrow> union_Numeric (NodeId_Data n); Some (v = 0) }
                | SOPC_IdentifierType_Guid \<Rightarrow> do {
                    p \<leftarrow> union_Guid (NodeId_Data n);
                    Some (case p of None \<Rightarrow> True | Some g \<Rightarrow> g = guid_zero) }
                | _ \<Rightarrow> do {
                    s \<leftarrow> union_String (NodeId_Data n); Some (sint (Str_Length s) \<le> 0) }))"

text \<open>\<open>same\<close> tells whether the two arguments are the same pointer.\<close>

definition SOPC_NodeId_Equal ::
  "bool \<Rightarrow> SOPC_NodeId option \<Rightarrow> SOPC_NodeId option \<Rightarrow> bool option" where
  "SOPC_NodeId_Equal same left right =
     (case (left, right) of
        (Some l, Some r) \<Rightarrow>
          if same then Some True
          else if NodeId_Namespace l = NodeId_Namespace r \<and>
                  NodeId_IdentifierType l = NodeId_IdentifierType r then
            (case NodeId_IdentifierType l of
               SOPC_IdentifierType_Numeric \<Rightarrow> do {
                 a \<leftarrow> union_Numeric (NodeId_Data l); b \<leftarrow> union_Numeric (NodeId_Data r);
                 Some (a = b) }
             | SOPC_IdentifierType_String \<Rightarrow> do {
                 a \<leftarrow> union_String (NodeId_Data l); b \<leftarrow> union_String (NodeId_Data r);
                 SOPC_String_Equal (Some a) (Some b) }
             | SOPC_IdentifierType_Guid \<Rightarrow> do {
                 a \<leftarrow> union_Guid (NodeId_Data l); b \<leftarrow> union_Guid (NodeId_Data r);
                 (case (a, b) of
                    (Some g, Some h) \<Rightarrow> do {
                      c \<leftarrow> c_memcmp (guid_mem g) (guid_mem h) 16; Some (c = 0) }
                  | _ \<Rightarrow> Some False) }
             | SOPC_IdentifierType_ByteString \<Rightarrow> do {
                 a \<leftarrow> union_String (NodeId_Data l); b \<leftarrow> union_String (NodeId_Data r);
                 SOPC_ByteString_Equal (Some a) (Some b) })
          else Some False
      | _ \<Rightarrow> Some False)"

definition SOPC_NodeId_Compare ::
  "bool \<Rightarrow> SOPC_NodeId option \<Rightarrow> SOPC_NodeId option \<Rightarrow> int option \<Rightarrow>
   (SOPC_ReturnStatus \<times> int option) option" where
  "SOPC_NodeId_Compare same left right comparison =
     (case (left, right, comparison) of
        (Some l, Some r, Some c0) \<Rightarrow>
          if same then Some (SOPC_STATUS_OK, Some 0)
          else if NodeId_Namespace l = NodeId_Namespace r \<and>
                  NodeId_IdentifierType l = NodeId_IdentifierType r then
            (case NodeId_IdentifierType l of
               SOPC_IdentifierType_Numeric \<Rightarrow> do {
                 a \<leftarrow> union_Numeric (NodeId_Data l); b \<leftarrow> union_Numeric (NodeId_Data r);
                 Some (SOPC_STATUS_OK, Some (if a = b then 0 else if a < b then -1 else 1)) }
             | SOPC_IdentifierType_String \<Rightarrow> do {
                 a \<leftarrow> union_String (NodeId_Data l); b \<leftarrow> union_String (NodeId_Data r);
                 SOPC_String_Compare (Some a) (Some b) False comparison }
             | SOPC_IdentifierType_Guid \<Rightarrow> do {
                 a \<leftarrow> union_Guid (NodeId_Data l); b \<leftarrow> union_Guid (NodeId_Data r);
                 (case (a, b) of
                    (Some g, Some h) \<Rightarrow> do {
                      c \<leftarrow> c_memcmp (guid_mem g) (guid_mem h) 16; Some (SOPC_STATUS_OK, Some c) }
                  | _ \<Rightarrow> Some (SOPC_STATUS_INVALID_PARAMETERS, comparison)) }
             | SOPC_IdentifierType_ByteString \<Rightarrow> do {
                 a \<leftarrow> union_String (NodeId_Data l); b \<leftarrow> union_String (NodeId_Data r);
                 (st, c) \<leftarrow> SOPC_ByteString_Compare (Some a) (Some b) c0;
                 Some (st, Some c) })
          else
            (if NodeId_IdentifierType l = NodeId_IdentifierType r then
               Some (SOPC_STATUS_OK,
                     Some (if NodeId_Namespace l < NodeId_Namespace r then -1 else 1))
             else if IdentifierType_value (NodeId_IdentifierType l) <
                     IdentifierType_value (NodeId_IdentifierType r)
             then Some (SOPC_STATUS_OK, Some (-1))
             else Some (SOPC_STATUS_OK, Some 1))
      | _ \<Rightarrow> Some (SOPC_STATUS_INVALID_PARAMETERS, comparison))"

definition SOPC_NodeId_Hash :: "SOPC_NodeId option \<Rightarrow> u64 option" where
  "SOPC_NodeId_Hash nodeId = do {
     n \<leftarrow> nodeId;
     let h = SOPC_FNV1aHash (le_bytes 4 (IdentifierType_value (NodeId_IdentifierType n)));
         h = SOPC_FNV1aHash_Step (le_bytes 2 (unat (NodeId_Namespace n))) h
     in (case NodeId_IdentifierType n of
           SOPC_IdentifierType_Numeric \<Rightarrow> do {
             v \<leftarrow> union_Numeric (NodeId_Data n);
             Some (SOPC_FNV1aHash_Step (le_bytes 4 (unat v)) h) }
         | SOPC_IdentifierType_Guid \<Rightarrow> do {
             p \<leftarrow> union_Guid (NodeId_Data n);
             Some (case p of None \<Rightarrow> h | Some g \<Rightarrow> SOPC_FNV1aHash_Step (guid_mem g) h) }
         | _ \<Rightarrow> do {
             s \<leftarrow> union_String (NodeId_Data n);
             if 0 < sint (Str_Length s) then do {
               d \<leftarrow> Str_Data s;
               bs \<leftarrow> mem_read d 0 (nat (sint (Str_Length s)));
               Some (SOPC_FNV1aHash_Step bs h) }
             else Some h }) }"

definition SOPC_NodeId_Copy ::
  "('e) mem_env_scheme \<Rightarrow> SOPC_NodeId option \<Rightarrow> SOPC_NodeId option \<Rightarrow>
   (SOPC_ReturnStatus \<times> SOPC_NodeId option) option" where
  "SOPC_NodeId_Copy env dest src =
     (case (dest, src) of
        (Some d, Some s) \<Rightarrow>
          (let d = d\<lparr>NodeId_Namespace := NodeId_Namespace s,
                     NodeId_IdentifierType := NodeId_IdentifierType s\<rparr>
           in on_error
             (case NodeId_IdentifierType s of
                SOPC_IdentifierType_Numeric \<Rightarrow> do {
                  v \<leftarrow> union_Numeric (NodeId_Data s);
                  Some (SOPC_STATUS_OK, Some (d\<lparr>NodeId_Data := Id_Numeric v\<rparr>)) }
              | SOPC_IdentifierType_String \<Rightarrow> do {
                  v \<leftarrow> union_String (NodeId_Data s);
                  (st, t) \<leftarrow> SOPC_String_Copy env (Some str_init) (Some v);
                  t \<leftarrow> t;
                  Some (st, Some (d\<lparr>NodeId_Data := Id_String t\<rparr>)) }
              | SOPC_IdentifierType_Guid \<Rightarrow> do {
                  p \<leftarrow> union_Guid (NodeId_Data s);
                  if mem_ok env 16
                  then (case SOPC_Guid_Copy (Some guid_zero) p of
                          (st, q) \<Rightarrow> Some (st, Some (d\<lparr>NodeId_Data := Id_Guid q\<rparr>)))
                  else Some (SOPC_STATUS_OUT_OF_MEMORY, Some (d\<lparr>NodeId_Data := Id_Guid None\<rparr>)) }
              | SOPC_IdentifierType_ByteString \<Rightarrow> do {
                  v \<leftarrow> union_String (NodeId_Data s);
                  (st, t) \<leftarrow> SOPC_ByteString_Copy env (Some str_init) (Some v);
                  t \<leftarrow> t;
                  Some (st, Some (d\<lparr>NodeId_Data := Id_Bstring t\<rparr>)) })
             (\<lambda>st p. (st, SOPC_NodeId_Clear p)))
      | _ \<Rightarrow> Some (SOPC_STATUS_INVALID_PARAMETERS, dest))"

section \<open>Well-formed values\<close>

text \<open>
  The bytes of a string, a terminated string (what \<open>SOPC_String_Copy\<close> and the decoder produce, with
  no inner zero), a byte string, and a node identifier whose union holds the member of its type.
\<close>

definition str_bytes :: "SOPC_String \<Rightarrow> byte list" where
  "str_bytes s = (if 0 < sint (Str_Length s)
                  then take (nat (sint (Str_Length s))) (case Str_Data s of None \<Rightarrow> [] | Some d \<Rightarrow> d)
                  else [])"

definition bytestring_wf :: "SOPC_ByteString \<Rightarrow> bool" where
  "bytestring_wf s \<longleftrightarrow> 0 < sint (Str_Length s) \<longrightarrow>
     (case Str_Data s of None \<Rightarrow> False | Some d \<Rightarrow> nat (sint (Str_Length s)) \<le> length d)"

definition string_wf :: "SOPC_String \<Rightarrow> bool" where
  "string_wf s \<longleftrightarrow> 0 < sint (Str_Length s) \<longrightarrow>
     (case Str_Data s of None \<Rightarrow> False
      | Some d \<Rightarrow> nat (sint (Str_Length s)) < length d \<and> d ! nat (sint (Str_Length s)) = 0 \<and>
                   0 \<notin> set (take (nat (sint (Str_Length s))) d))"

definition nodeid_wf :: "SOPC_NodeId \<Rightarrow> bool" where
  "nodeid_wf n =
     (case (NodeId_IdentifierType n, NodeId_Data n) of
        (SOPC_IdentifierType_Numeric, Id_Numeric v) \<Rightarrow> True
      | (SOPC_IdentifierType_String, Id_String s) \<Rightarrow> string_wf s
      | (SOPC_IdentifierType_Guid, Id_Guid (Some g)) \<Rightarrow> guid_wf g
      | (SOPC_IdentifierType_ByteString, Id_Bstring s) \<Rightarrow> bytestring_wf s
      | _ \<Rightarrow> False)"

lemma nodeid_wf_cases [consumes 1, case_names Numeric String Guid ByteString]:
  assumes "nodeid_wf n"
  obtains v where "NodeId_IdentifierType n = SOPC_IdentifierType_Numeric" "NodeId_Data n = Id_Numeric v"
  | s where "NodeId_IdentifierType n = SOPC_IdentifierType_String" "NodeId_Data n = Id_String s"
      "string_wf s"
  | g where "NodeId_IdentifierType n = SOPC_IdentifierType_Guid" "NodeId_Data n = Id_Guid (Some g)"
      "guid_wf g"
  | s where "NodeId_IdentifierType n = SOPC_IdentifierType_ByteString" "NodeId_Data n = Id_Bstring s"
      "bytestring_wf s"
  using assms
  by (auto simp: nodeid_wf_def
      split: SOPC_IdentifierType.splits SOPC_NodeId_Data.splits option.splits)

lemma string_wfE:
  assumes "string_wf s" "0 < sint (Str_Length s)"
  obtains rest where "Str_Data s = Some (str_bytes s @ 0 # rest)"
    "length (str_bytes s) = nat (sint (Str_Length s))" "0 \<notin> set (str_bytes s)"
proof -
  let ?n = "nat (sint (Str_Length s))"
  obtain d where d: "Str_Data s = Some d" "?n < length d" "d ! ?n = 0" "0 \<notin> set (take ?n d)"
    using assms by (auto simp: string_wf_def split: option.splits)
  then have "d = take ?n d @ 0 # drop (Suc ?n) d"
    using id_take_nth_drop [of ?n d] by simp
  with d that [of "drop (Suc ?n) d"] show thesis
    using assms by (simp add: str_bytes_def)
qed

lemma bytestring_wfE:
  assumes "bytestring_wf s" "0 < sint (Str_Length s)"
  obtains d where "Str_Data s = Some d" "nat (sint (Str_Length s)) \<le> length d"
    "str_bytes s = take (nat (sint (Str_Length s))) d"
  using assms by (auto simp: bytestring_wf_def str_bytes_def split: option.splits)

lemma string_wf_bytestring_wf: "string_wf s \<Longrightarrow> bytestring_wf s"
  by (auto simp: string_wf_def bytestring_wf_def split: option.splits)

lemma length_str_bytes:
  "bytestring_wf s \<Longrightarrow> length (str_bytes s) = nat (sint (Str_Length s))"
  by (auto simp: bytestring_wf_def str_bytes_def split: option.splits)

lemma str_bytes_neq:
  assumes "Str_Length l \<noteq> Str_Length r" "0 < sint (Str_Length l) \<or> 0 < sint (Str_Length r)"
    "length (str_bytes l) = nat (sint (Str_Length l))" "length (str_bytes r) = nat (sint (Str_Length r))"
  shows "sint (Str_Length l) \<noteq> sint (Str_Length r)" "str_bytes l \<noteq> str_bytes r"
proof -
  show "sint (Str_Length l) \<noteq> sint (Str_Length r)"
    using assms(1) signed_word_eqI by blast
  then have "nat (sint (Str_Length l)) \<noteq> nat (sint (Str_Length r))"
    using assms(2) by linarith
  then show "str_bytes l \<noteq> str_bytes r" using assms(3,4) by metis
qed

lemma guid_mem_length: "guid_wf g \<Longrightarrow> length (guid_mem g) = 16"
  by (simp add: guid_mem_def guid_wf_def)

lemma guid_mem_inject: "guid_mem g = guid_mem h \<longleftrightarrow> g = h"
  by (cases g; cases h) (simp add: guid_mem_def le_bytes_inject)

section \<open>Comparison and hash\<close>

text \<open>On well-formed strings the comparison is decided by the bytes, and swapping changes the sign.\<close>

lemma String_Compare_wf:
  assumes "string_wf l" "string_wf r"
  obtains c where "SOPC_String_Compare (Some l) (Some r) False (Some x) = Some (SOPC_STATUS_OK, Some c)"
    "SOPC_String_Compare (Some r) (Some l) False (Some y) = Some (SOPC_STATUS_OK, Some (- c))"
    "c = 0 \<longleftrightarrow> str_bytes l = str_bytes r"
proof (cases "0 < sint (Str_Length l) \<or> 0 < sint (Str_Length r)")
  case False
  then show ?thesis
    by (intro that [of 0]) (simp_all add: SOPC_String_Compare_def str_bytes_def)
next
  case pos: True
  note lens = length_str_bytes [OF string_wf_bytestring_wf [OF assms(1)]]
    length_str_bytes [OF string_wf_bytestring_wf [OF assms(2)]]
  show ?thesis
  proof (cases "Str_Length l = Str_Length r")
    case True
    with pos have "0 < sint (Str_Length l)" "0 < sint (Str_Length r)" by auto
    then obtain u v where lr: "Str_Data l = Some (str_bytes l @ 0 # u)" "0 \<notin> set (str_bytes l)"
      "Str_Data r = Some (str_bytes r @ 0 # v)" "0 \<notin> set (str_bytes r)"
      using string_wfE [OF assms(1)] string_wfE [OF assms(2)] by metis
    with c_strcmp_terminated [of "str_bytes l" "str_bytes r" u v] lens True
    obtain c where "c_strcmp (str_bytes l @ 0 # u) (str_bytes r @ 0 # v) = Some c"
      "c = 0 \<longleftrightarrow> str_bytes l = str_bytes r" by auto
    moreover from this have "c_strcmp (str_bytes r @ 0 # v) (str_bytes l @ 0 # u) = Some (- c)"
      by (subst c_strcmp_swap) simp
    ultimately show ?thesis
      using lr True pos by (intro that [of c]) (auto simp: SOPC_String_Compare_def)
  next
    case False
    with pos lens have ne: "sint (Str_Length l) \<noteq> sint (Str_Length r)" "str_bytes l \<noteq> str_bytes r"
      using str_bytes_neq [of l r] by blast+
    with pos False show ?thesis
      by (intro that [of "if sint (Str_Length r) < sint (Str_Length l) then 1 else -1"])
        (auto simp: SOPC_String_Compare_def)
  qed
qed

lemma ByteString_Compare_wf:
  assumes "bytestring_wf l" "bytestring_wf r"
  obtains c where "SOPC_ByteString_Compare (Some l) (Some r) x = Some (SOPC_STATUS_OK, c)"
    "SOPC_ByteString_Compare (Some r) (Some l) y = Some (SOPC_STATUS_OK, - c)"
    "c = 0 \<longleftrightarrow> str_bytes l = str_bytes r"
proof (cases "0 < sint (Str_Length l) \<or> 0 < sint (Str_Length r)")
  case False
  then show ?thesis
    by (intro that [of 0]) (simp_all add: SOPC_ByteString_Compare_def str_bytes_def)
next
  case pos: True
  note lens = length_str_bytes [OF assms(1)] length_str_bytes [OF assms(2)]
  show ?thesis
  proof (cases "Str_Length l = Str_Length r")
    case True
    let ?n = "nat (sint (Str_Length l))"
    from True pos have "0 < sint (Str_Length l)" "0 < sint (Str_Length r)" by auto
    then obtain ld rd where lr: "Str_Data l = Some ld" "?n \<le> length ld" "str_bytes l = take ?n ld"
      "Str_Data r = Some rd" "?n \<le> length rd" "str_bytes r = take ?n rd"
      using bytestring_wfE [OF assms(1)] bytestring_wfE [OF assms(2)] True by metis
    then obtain c where "c_memcmp ld rd ?n = Some c" using c_memcmp_total by blast
    moreover from this have "c_memcmp rd ld ?n = Some (- c)" by (subst c_memcmp_swap) simp
    moreover have "c = 0 \<longleftrightarrow> str_bytes l = str_bytes r"
      using c_memcmp_eq_0 [of ?n ld rd] lr calculation by simp
    ultimately show ?thesis
      using lr True pos by (intro that [of c]) (auto simp: SOPC_ByteString_Compare_def)
  next
    case False
    with pos lens have ne: "sint (Str_Length l) \<noteq> sint (Str_Length r)" "str_bytes l \<noteq> str_bytes r"
      using str_bytes_neq [of l r] by blast+
    with pos False show ?thesis
      by (intro that [of "if sint (Str_Length r) < sint (Str_Length l) then 1 else -1"])
        (auto simp: SOPC_ByteString_Compare_def)
  qed
qed

text \<open>
  The bytes that tell two node identifiers apart, and the two operations in terms of them.
\<close>

definition nodeid_key :: "SOPC_NodeId \<Rightarrow> SOPC_IdentifierType \<times> u16 \<times> byte list" where
  "nodeid_key n =
     (NodeId_IdentifierType n, NodeId_Namespace n,
      (case NodeId_Data n of
         Id_Numeric v \<Rightarrow> le_bytes 4 (unat v)
       | Id_String s \<Rightarrow> str_bytes s
       | Id_Guid p \<Rightarrow> (case p of None \<Rightarrow> [] | Some g \<Rightarrow> guid_mem g)
       | Id_Bstring s \<Rightarrow> str_bytes s))"

lemma String_Equal_wf:
  assumes "string_wf l" "string_wf r"
  shows "SOPC_String_Equal (Some l) (Some r) = Some (str_bytes l = str_bytes r)"
proof -
  obtain c where "SOPC_String_Compare (Some l) (Some r) False (Some 0) = Some (SOPC_STATUS_OK, Some c)"
    "c = 0 \<longleftrightarrow> str_bytes l = str_bytes r"
    using String_Compare_wf [OF assms] by metis
  then show ?thesis by (simp add: SOPC_String_Equal_def)
qed

lemma ByteString_Equal_wf:
  assumes "bytestring_wf l" "bytestring_wf r"
  shows "SOPC_ByteString_Equal (Some l) (Some r) = Some (str_bytes l = str_bytes r)"
proof -
  obtain c where "SOPC_ByteString_Compare (Some l) (Some r) 0 = Some (SOPC_STATUS_OK, c)"
    "c = 0 \<longleftrightarrow> str_bytes l = str_bytes r"
    using ByteString_Compare_wf [OF assms] by metis
  then show ?thesis by (simp add: SOPC_ByteString_Equal_def)
qed

lemma guid_memcmp:
  assumes "guid_wf g" "guid_wf h"
  obtains c where "c_memcmp (guid_mem g) (guid_mem h) 16 = Some c"
    "c_memcmp (guid_mem h) (guid_mem g) 16 = Some (- c)" "c = 0 \<longleftrightarrow> guid_mem g = guid_mem h"
proof -
  have len: "16 \<le> length (guid_mem g)" "16 \<le> length (guid_mem h)"
    using assms by (simp_all add: guid_mem_length)
  then obtain c where c: "c_memcmp (guid_mem g) (guid_mem h) 16 = Some c" using c_memcmp_total by blast
  moreover from this have "c_memcmp (guid_mem h) (guid_mem g) 16 = Some (- c)"
    by (subst c_memcmp_swap) simp
  moreover have "c = 0 \<longleftrightarrow> guid_mem g = guid_mem h"
    using c_memcmp_eq_0 [OF len] c assms by (simp add: guid_mem_length)
  ultimately show thesis using that by blast
qed

lemma NodeId_Compare_wf:
  assumes "nodeid_wf l" "nodeid_wf r"
  shows "\<exists>c. SOPC_NodeId_Compare False (Some l) (Some r) (Some x) = Some (SOPC_STATUS_OK, Some c) \<and>
    SOPC_NodeId_Compare False (Some r) (Some l) (Some y) = Some (SOPC_STATUS_OK, Some (- c)) \<and>
    (c = 0 \<longleftrightarrow> nodeid_key l = nodeid_key r)"
proof (cases "NodeId_Namespace l = NodeId_Namespace r \<and>
    NodeId_IdentifierType l = NodeId_IdentifierType r")
  case False
  then show ?thesis
    by (cases "NodeId_IdentifierType l"; cases "NodeId_IdentifierType r")
      (auto simp: SOPC_NodeId_Compare_def nodeid_key_def)
next
  case same: True
  from assms(1) show ?thesis
  proof (cases rule: nodeid_wf_cases)
    case (Numeric v)
    with assms(2) same obtain w where "NodeId_Data r = Id_Numeric w"
      by (cases rule: nodeid_wf_cases) auto
    with Numeric same show ?thesis
      by (auto simp: SOPC_NodeId_Compare_def nodeid_key_def le_bytes_inject)
  next
    case (String s)
    with assms(2) same obtain u where "NodeId_Data r = Id_String u" "string_wf u"
      by (cases rule: nodeid_wf_cases) auto
    moreover from this String obtain c
      where "SOPC_String_Compare (Some s) (Some u) False (Some x) = Some (SOPC_STATUS_OK, Some c)"
      "SOPC_String_Compare (Some u) (Some s) False (Some y) = Some (SOPC_STATUS_OK, Some (- c))"
      "c = 0 \<longleftrightarrow> str_bytes s = str_bytes u"
      using String_Compare_wf by metis
    ultimately show ?thesis
      using String same by (auto simp: SOPC_NodeId_Compare_def nodeid_key_def)
  next
    case (Guid g)
    with assms(2) same obtain h where h: "NodeId_Data r = Id_Guid (Some h)" "guid_wf h"
      by (cases rule: nodeid_wf_cases) auto
    obtain c where "c_memcmp (guid_mem g) (guid_mem h) 16 = Some c"
      "c_memcmp (guid_mem h) (guid_mem g) 16 = Some (- c)" "c = 0 \<longleftrightarrow> guid_mem g = guid_mem h"
      using guid_memcmp Guid(3) h(2) by metis
    with Guid h same show ?thesis by (auto simp: SOPC_NodeId_Compare_def nodeid_key_def)
  next
    case (ByteString s)
    with assms(2) same obtain u where "NodeId_Data r = Id_Bstring u" "bytestring_wf u"
      by (cases rule: nodeid_wf_cases) auto
    moreover from this ByteString obtain c
      where "SOPC_ByteString_Compare (Some s) (Some u) x = Some (SOPC_STATUS_OK, c)"
      "SOPC_ByteString_Compare (Some u) (Some s) y = Some (SOPC_STATUS_OK, - c)"
      "c = 0 \<longleftrightarrow> str_bytes s = str_bytes u"
      using ByteString_Compare_wf by metis
    ultimately show ?thesis
      using ByteString same by (auto simp: SOPC_NodeId_Compare_def nodeid_key_def)
  qed
qed

lemma NodeId_Equal_key:
  assumes "nodeid_wf l" "nodeid_wf r"
  shows "SOPC_NodeId_Equal False (Some l) (Some r) = Some (nodeid_key l = nodeid_key r)"
proof (cases "NodeId_Namespace l = NodeId_Namespace r \<and>
    NodeId_IdentifierType l = NodeId_IdentifierType r")
  case False
  then show ?thesis by (auto simp: SOPC_NodeId_Equal_def nodeid_key_def)
next
  case same: True
  from assms(1) show ?thesis
  proof (cases rule: nodeid_wf_cases)
    case (Numeric v)
    with assms(2) same show ?thesis
      by (cases rule: nodeid_wf_cases)
        (auto simp: SOPC_NodeId_Equal_def nodeid_key_def le_bytes_inject)
  next
    case (String s)
    with assms(2) same show ?thesis
      by (cases rule: nodeid_wf_cases)
        (auto simp: SOPC_NodeId_Equal_def nodeid_key_def String_Equal_wf)
  next
    case (Guid g)
    with assms(2) same obtain h where h: "NodeId_Data r = Id_Guid (Some h)" "guid_wf h"
      by (cases rule: nodeid_wf_cases) auto
    obtain c where "c_memcmp (guid_mem g) (guid_mem h) 16 = Some c" "c = 0 \<longleftrightarrow> guid_mem g = guid_mem h"
      using guid_memcmp Guid(3) h(2) by metis
    with Guid h same show ?thesis by (auto simp: SOPC_NodeId_Equal_def nodeid_key_def)
  next
    case (ByteString s)
    with assms(2) same show ?thesis
      by (cases rule: nodeid_wf_cases)
        (auto simp: SOPC_NodeId_Equal_def nodeid_key_def ByteString_Equal_wf)
  qed
qed

lemma NodeId_Hash_key:
  assumes "nodeid_wf n"
  shows "SOPC_NodeId_Hash (Some n) =
    (case nodeid_key n of (t, ns, bs) \<Rightarrow>
       Some (SOPC_FNV1aHash_Step bs (SOPC_FNV1aHash_Step (le_bytes 2 (unat ns))
         (SOPC_FNV1aHash (le_bytes 4 (IdentifierType_value t))))))"
  using assms
proof (cases rule: nodeid_wf_cases)
  case (String s)
  then show ?thesis
    by (cases "0 < sint (Str_Length s)")
      (auto simp: SOPC_NodeId_Hash_def nodeid_key_def str_bytes_def mem_read_def string_wf_def
        split: option.splits)
next
  case (ByteString s)
  then show ?thesis
    by (cases "0 < sint (Str_Length s)")
      (auto simp: SOPC_NodeId_Hash_def nodeid_key_def str_bytes_def mem_read_def bytestring_wf_def
        split: option.splits)
qed (simp_all add: SOPC_NodeId_Hash_def nodeid_key_def)

section \<open>Copies\<close>

lemma SOPC_Malloc_total:
  assumes "mem_total env"
  obtains blk where "SOPC_Malloc env n = Some blk" "length blk = n"
  using assms by (simp add: SOPC_Malloc_def)

lemma String_Copy_wf:
  assumes "mem_total env" "string_wf s" "Str_Data d = None"
  obtains d' where "SOPC_String_Copy env (Some d) (Some s) = Some (SOPC_STATUS_OK, Some d')"
    "string_wf d'" "str_bytes d' = str_bytes s" "Str_Length d' = Str_Length s"
proof (cases "0 < sint (Str_Length s)")
  case False
  then show ?thesis
    using assms by (intro that [of "d\<lparr>Str_Length := Str_Length s\<rparr>"])
      (auto simp: SOPC_String_Copy_def string_wf_def str_bytes_def)
next
  case True
  let ?n = "nat (sint (Str_Length s))"
  obtain rest where r: "Str_Data s = Some (str_bytes s @ 0 # rest)" "length (str_bytes s) = ?n"
    "0 \<notin> set (str_bytes s)"
    using string_wfE [OF assms(2) True] by metis
  obtain blk where blk: "SOPC_Malloc env (?n + 1) = Some blk" "length blk = ?n + 1"
    using SOPC_Malloc_total [OF assms(1)] by metis
  have rd: "mem_read (str_bytes s @ 0 # rest) 0 ?n = Some (str_bytes s)"
    using r(2) by (simp add: mem_read_def)
  have wr: "mem_write blk 0 (str_bytes s @ [0]) = Some (str_bytes s @ [0])"
    using r(2) blk by (simp add: mem_write_def)
  show ?thesis
    using True assms(3) r blk rd wr
    by (intro that [of "d\<lparr>Str_Length := Str_Length s, Str_Data := Some (str_bytes s @ [0]),
          Str_DoNotClear := False\<rparr>"])
      (simp_all add: SOPC_String_Copy_def string_wf_def nth_append,
       simp add: str_bytes_def [of "_\<lparr>Str_DoNotClear := _\<rparr>"])
qed

lemma ByteString_Copy_wf:
  assumes "mem_total env" "bytestring_wf s" "Str_Data d = None"
  obtains d' where "SOPC_ByteString_Copy env (Some d) (Some s) = Some (SOPC_STATUS_OK, Some d')"
    "bytestring_wf d'" "str_bytes d' = str_bytes s" "Str_Length d' = Str_Length s"
proof (cases "0 < sint (Str_Length s)")
  case False
  then show ?thesis
    using assms by (intro that [of "d\<lparr>Str_Length := Str_Length s\<rparr>"])
      (auto simp: SOPC_ByteString_Copy_def bytestring_wf_def str_bytes_def)
next
  case True
  let ?n = "nat (sint (Str_Length s))"
  obtain sd where sd: "Str_Data s = Some sd" "?n \<le> length sd" "str_bytes s = take ?n sd"
    using bytestring_wfE [OF assms(2) True] by metis
  obtain blk where blk: "SOPC_Malloc env ?n = Some blk" "length blk = ?n"
    using SOPC_Malloc_total [OF assms(1)] by metis
  have rd: "mem_read sd 0 ?n = Some (str_bytes s)"
    using sd by (simp add: mem_read_def)
  have wr: "mem_write blk 0 (str_bytes s) = Some (str_bytes s)"
    using sd blk by (simp add: mem_write_def)
  show ?thesis
    using True assms(3) sd blk rd wr
    by (intro that [of "d\<lparr>Str_Length := Str_Length s, Str_Data := Some (str_bytes s)\<rparr>"])
      (simp_all add: SOPC_ByteString_Copy_def bytestring_wf_def str_bytes_def)
qed

lemma NodeId_Copy_wf:
  assumes "mem_total env" "nodeid_wf s"
  shows "\<exists>d'. SOPC_NodeId_Copy env (Some d) (Some s) = Some (SOPC_STATUS_OK, Some d') \<and>
    nodeid_wf d' \<and> nodeid_key d' = nodeid_key s"
  using assms(2)
proof (cases rule: nodeid_wf_cases)
  case (Numeric v)
  then show ?thesis by (simp add: SOPC_NodeId_Copy_def nodeid_wf_def nodeid_key_def)
next
  case (String u)
  obtain u' where "SOPC_String_Copy env (Some str_init) (Some u) = Some (SOPC_STATUS_OK, Some u')"
    "string_wf u'" "str_bytes u' = str_bytes u"
    using String_Copy_wf [OF assms(1) String(3), of str_init] by (auto simp: str_init_def)
  with String show ?thesis by (simp add: SOPC_NodeId_Copy_def nodeid_wf_def nodeid_key_def)
next
  case (Guid g)
  with assms(1) show ?thesis
    by (simp add: SOPC_NodeId_Copy_def SOPC_Guid_Copy_def nodeid_wf_def nodeid_key_def)
next
  case (ByteString u)
  obtain u' where "SOPC_ByteString_Copy env (Some str_init) (Some u) = Some (SOPC_STATUS_OK, Some u')"
    "bytestring_wf u'" "str_bytes u' = str_bytes u"
    using ByteString_Copy_wf [OF assms(1) ByteString(3), of str_init] by (auto simp: str_init_def)
  with ByteString show ?thesis by (simp add: SOPC_NodeId_Copy_def nodeid_wf_def nodeid_key_def)
qed

section \<open>Properties\<close>

text \<open>
  C31: on well-formed node identifiers at different addresses, comparison never fails, exchanging the
  arguments changes the sign of the result, and the result is 0 exactly when \<open>SOPC_NodeId_Equal\<close>
  answers true.
\<close>

theorem nodeid_compare_equal:
  assumes "nodeid_wf l" and "nodeid_wf r"
  shows "\<exists>c. SOPC_NodeId_Compare False (Some l) (Some r) (Some x) = Some (SOPC_STATUS_OK, Some c) \<and>
    SOPC_NodeId_Compare False (Some r) (Some l) (Some y) = Some (SOPC_STATUS_OK, Some (- c)) \<and>
    SOPC_NodeId_Equal False (Some l) (Some r) = Some (c = 0)"
proof -
  obtain c where "SOPC_NodeId_Compare False (Some l) (Some r) (Some x) = Some (SOPC_STATUS_OK, Some c)"
    "SOPC_NodeId_Compare False (Some r) (Some l) (Some y) = Some (SOPC_STATUS_OK, Some (- c))"
    "c = 0 \<longleftrightarrow> nodeid_key l = nodeid_key r"
    using NodeId_Compare_wf [OF assms, of x y] by blast
  then show ?thesis by (intro exI [of _ c]) (simp add: NodeId_Equal_key [OF assms])
qed

definition demo_string :: "byte list \<Rightarrow> SOPC_String" where
  "demo_string bs = \<lparr>Str_Length = of_nat (length bs), Str_DoNotClear = False, Str_Data = Some (bs @ [0])\<rparr>"

definition demo_string_id :: "byte list \<Rightarrow> SOPC_NodeId" where
  "demo_string_id bs = \<lparr>NodeId_IdentifierType = SOPC_IdentifierType_String, NodeId_Namespace = 2,
                        NodeId_Data = Id_String (demo_string bs)\<rparr>"

lemmas demo_id_simps = demo_string_id_def demo_string_def nodeid_wf_def string_wf_def

theorem nodeid_compare_equal_witness:
  "\<exists>c. SOPC_NodeId_Compare False (Some (demo_string_id [65, 66])) (Some (demo_string_id [65, 67])) (Some 0)
      = Some (SOPC_STATUS_OK, Some c) \<and>
    SOPC_NodeId_Compare False (Some (demo_string_id [65, 67])) (Some (demo_string_id [65, 66])) (Some 0)
      = Some (SOPC_STATUS_OK, Some (- c)) \<and>
    SOPC_NodeId_Equal False (Some (demo_string_id [65, 66])) (Some (demo_string_id [65, 67])) = Some (c = 0)"
  by (rule nodeid_compare_equal) (simp_all add: demo_id_simps)

text \<open>
  C32: well-formed node identifiers that are equal have the same hash, as a dictionary keyed by node
  identifiers requires; the hash is always defined.
\<close>

theorem nodeid_equal_same_hash:
  assumes "nodeid_wf l" and "nodeid_wf r" and "SOPC_NodeId_Equal False (Some l) (Some r) = Some True"
  shows "\<exists>h. SOPC_NodeId_Hash (Some l) = Some h \<and> SOPC_NodeId_Hash (Some r) = Some h"
  using assms by (simp add: NodeId_Equal_key NodeId_Hash_key split: prod.splits)

theorem nodeid_equal_same_hash_witness:
  "\<exists>h. SOPC_NodeId_Hash (Some (demo_string_id [65, 66])) = Some h \<and>
    SOPC_NodeId_Hash (Some (demo_string_id [65, 66])) = Some h"
  by (rule nodeid_equal_same_hash)
    (simp_all add: demo_id_simps SOPC_NodeId_Equal_def SOPC_String_Equal_def SOPC_String_Compare_def)

text \<open>
  Without that restriction the law required by the hash tables does not hold: two string
  identifiers of the same length that differ after an inner zero byte (both can be received from
  the network) are equal for \<open>SOPC_NodeId_Equal\<close>, which compares them with \<open>strcmp\<close>, but have
  different hashes, which are computed on all bytes.
\<close>

theorem nodeid_equal_different_hash:
  "\<exists>l r. SOPC_NodeId_Equal False (Some l) (Some r) = Some True \<and>
     SOPC_NodeId_Hash (Some l) \<noteq> SOPC_NodeId_Hash (Some r)"
proof (intro exI conjI)
  show "SOPC_NodeId_Equal False (Some (demo_string_id [65, 0, 66])) (Some (demo_string_id [65, 0, 67])) =
      Some True"
    by (simp add: demo_id_simps SOPC_NodeId_Equal_def SOPC_String_Equal_def SOPC_String_Compare_def)
  show "SOPC_NodeId_Hash (Some (demo_string_id [65, 0, 66])) \<noteq>
      SOPC_NodeId_Hash (Some (demo_string_id [65, 0, 67]))"
    by code_simp
qed

text \<open>
  Clearing a node identifier that held a string or a byte string does not give a null identifier:
  the initial length -1 of the cleared string stays in the union and reads as the numeric identifier
  4294967295; clearing any other identifier gives a null one.
\<close>

theorem nodeid_clear_null:
  assumes "nodeid_wf n"
  shows "SOPC_NodeId_IsNull (SOPC_NodeId_Clear (Some n)) =
    Some (NodeId_IdentifierType n \<in> {SOPC_IdentifierType_Numeric, SOPC_IdentifierType_Guid})"
  using assms
  by (cases rule: nodeid_wf_cases)
    (simp_all add: SOPC_NodeId_Clear_def SOPC_NodeId_IsNull_def str_init_def)

theorem nodeid_clear_null_witness:
  "SOPC_NodeId_IsNull (SOPC_NodeId_Clear (Some (demo_string_id [65]))) = Some False"
  using nodeid_clear_null [of "demo_string_id [65]"] by (simp add: demo_id_simps)

text \<open>
  When memory can be allocated, copying a well-formed node identifier succeeds; the copy is
  well-formed and equal to the original, hence has the same hash.
\<close>

theorem nodeid_copy_equal:
  assumes "mem_total env" and "nodeid_wf s"
  shows "\<exists>d'. SOPC_NodeId_Copy env (Some d) (Some s) = Some (SOPC_STATUS_OK, Some d') \<and>
    nodeid_wf d' \<and> SOPC_NodeId_Equal False (Some d') (Some s) = Some True \<and>
    SOPC_NodeId_Hash (Some d') = SOPC_NodeId_Hash (Some s)"
proof -
  obtain d' where "SOPC_NodeId_Copy env (Some d) (Some s) = Some (SOPC_STATUS_OK, Some d')"
    "nodeid_wf d'" "nodeid_key d' = nodeid_key s"
    using NodeId_Copy_wf [OF assms] by blast
  with assms(2) show ?thesis by (simp add: NodeId_Equal_key NodeId_Hash_key)
qed

theorem nodeid_copy_equal_witness:
  "\<exists>d'. SOPC_NodeId_Copy \<lparr>mem_ok = (\<lambda>_. True), mem_fill = (\<lambda>_. 7)\<rparr> (Some nodeid_zero)
      (Some (demo_string_id [65, 66])) = Some (SOPC_STATUS_OK, Some d') \<and>
    nodeid_wf d' \<and> SOPC_NodeId_Equal False (Some d') (Some (demo_string_id [65, 66])) = Some True \<and>
    SOPC_NodeId_Hash (Some d') = SOPC_NodeId_Hash (Some (demo_string_id [65, 66]))"
  by (rule nodeid_copy_equal) (simp_all add: demo_id_simps mem_total_def)

end
