(* ===== verification/Common_Constants.thy ===== *)
theory Common_Constants
  imports S2OPC_Prelude
begin

text \<open>
  The encoding configuration of \<open>src/Common/configuration/sopc_common_constants.c\<close>: the limits the
  encoder checks, their default values, and the function that replaces them once before the library
  is initialised.
\<close>

section \<open>Configuration\<close>

record SOPC_Common_EncodingConstants =
  buffer_size :: u32
  receive_max_msg_size :: u32
  receive_max_nb_chunks :: u32
  send_max_msg_size :: u32
  send_max_nb_chunks :: u32
  max_string_length :: i32
  max_array_length :: i32
  max_nested_diag_info :: u32
  max_nested_struct :: u32

definition SOPC_Common_GetDefaultEncodingConstants :: SOPC_Common_EncodingConstants where
  "SOPC_Common_GetDefaultEncodingConstants =
     \<lparr>buffer_size = 65535, receive_max_msg_size = 65535 * 5, receive_max_nb_chunks = 5,
      send_max_msg_size = 65535 * 12, send_max_nb_chunks = 12,
      max_string_length = 65535, max_array_length = 1000000,
      max_nested_diag_info = 100, max_nested_struct = 50\<rparr>"

text \<open>The two global variables: the configuration in use and whether it was set.\<close>

record constants_state =
  globalEncodingConfig :: SOPC_Common_EncodingConstants
  globalEncodingConfigSet :: bool

definition constants_initial :: constants_state where
  "constants_initial = \<lparr>globalEncodingConfig = SOPC_Common_GetDefaultEncodingConstants,
                        globalEncodingConfigSet = False\<rparr>"

definition SOPC_Internal_Common_GetEncodingConstants ::
  "constants_state \<Rightarrow> SOPC_Common_EncodingConstants" where
  "SOPC_Internal_Common_GetEncodingConstants s = globalEncodingConfig s"

definition SOPC_Common_EncodingConstantsGetInitialized :: "constants_state \<Rightarrow> bool" where
  "SOPC_Common_EncodingConstantsGetInitialized s = globalEncodingConfigSet s"

definition SOPC_Common_SetEncodingConstants ::
  "SOPC_Common_EncodingConstants \<Rightarrow> constants_state \<Rightarrow> (bool \<times> constants_state) option" where
  "SOPC_Common_SetEncodingConstants config s =
     (if receive_max_msg_size config \<noteq> 0 \<and> receive_max_msg_size config < buffer_size config \<or>
         send_max_msg_size config \<noteq> 0 \<and> send_max_msg_size config < buffer_size config
      then Some (False, s)
      else if receive_max_msg_size config = 0 \<and> receive_max_nb_chunks config = 0 \<or>
              send_max_msg_size config = 0 \<and> send_max_nb_chunks config = 0
      then Some (False, s)
      else if \<not> globalEncodingConfigSet s then
        (let s = s\<lparr>globalEncodingConfigSet := True\<rparr> in do {
           config \<leftarrow> (if send_max_msg_size config = 0 then
                        (if send_max_nb_chunks config \<noteq> 0 then
                           Some (config\<lparr>send_max_msg_size :=
                                          send_max_nb_chunks config * buffer_size config\<rparr>)
                         else None)
                      else Some config);
           config \<leftarrow> (if receive_max_msg_size config = 0 then
                        (if receive_max_msg_size config \<noteq> 0 then
                           Some (config\<lparr>receive_max_msg_size :=
                                          receive_max_nb_chunks config * buffer_size config\<rparr>)
                         else None)
                      else Some config);
           Some (True, s\<lparr>globalEncodingConfig := config\<rparr>) })
      else Some (False, s))"

section \<open>Properties\<close>

text \<open>The constraints stated for the default values.\<close>

definition constants_valid :: "SOPC_Common_EncodingConstants \<Rightarrow> bool" where
  "constants_valid c \<longleftrightarrow>
     (receive_max_msg_size c = 0 \<longrightarrow> receive_max_nb_chunks c \<noteq> 0) \<and>
     (send_max_msg_size c = 0 \<longrightarrow> send_max_nb_chunks c \<noteq> 0) \<and>
     (receive_max_msg_size c = 0 \<or> buffer_size c \<le> receive_max_msg_size c) \<and>
     (send_max_msg_size c = 0 \<or> buffer_size c \<le> send_max_msg_size c)"

text \<open>
  With a limited reception message size, a configuration is accepted exactly when it fulfils the
  constraints of the default values and none was accepted before; an accepted configuration becomes
  the one in use, with the maximum message size to send derived from the number of chunks when it is
  left open, and a refused one changes nothing.
\<close>

theorem set_encoding_constants_once:
  assumes "receive_max_msg_size c \<noteq> 0"
  shows "SOPC_Common_SetEncodingConstants c s =
    (if constants_valid c \<and> \<not> globalEncodingConfigSet s then
       Some (True, \<lparr>globalEncodingConfig =
                      (if send_max_msg_size c = 0
                       then c\<lparr>send_max_msg_size := send_max_nb_chunks c * buffer_size c\<rparr> else c),
                    globalEncodingConfigSet = True\<rparr>)
     else Some (False, s))"
  using assms
  by (auto simp: SOPC_Common_SetEncodingConstants_def constants_valid_def Let_def not_less)

theorem set_encoding_constants_once_witness:
  "SOPC_Common_SetEncodingConstants
       (SOPC_Common_GetDefaultEncodingConstants\<lparr>send_max_msg_size := 0\<rparr>) constants_initial =
     Some (True, \<lparr>globalEncodingConfig = SOPC_Common_GetDefaultEncodingConstants,
                  globalEncodingConfigSet = True\<rparr>)"
  using set_encoding_constants_once
    [of "SOPC_Common_GetDefaultEncodingConstants\<lparr>send_max_msg_size := 0\<rparr>" constants_initial]
  by (simp add: SOPC_Common_GetDefaultEncodingConstants_def constants_initial_def
      constants_valid_def)

text \<open>
  A valid configuration that leaves the received message size open (documented as \<open>0 means no
  limit\<close>) and limits the number of chunks is never accepted: the first call stops on an assertion
  that tests the message size where the number of chunks is meant.
\<close>

theorem set_encoding_constants_assert:
  assumes "constants_valid c" and "receive_max_msg_size c = 0" and "\<not> globalEncodingConfigSet s"
  shows "SOPC_Common_SetEncodingConstants c s = None"
  using assms
  by (auto simp: SOPC_Common_SetEncodingConstants_def constants_valid_def Let_def)

theorem set_encoding_constants_assert_witness:
  "SOPC_Common_SetEncodingConstants
     (SOPC_Common_GetDefaultEncodingConstants\<lparr>receive_max_msg_size := 0\<rparr>) constants_initial = None"
  by (rule set_encoding_constants_assert)
    (simp_all add: SOPC_Common_GetDefaultEncodingConstants_def constants_initial_def
      constants_valid_def)

end
