(* ===== verification/Encoder_Core.thy ===== *)
theory Encoder_Core
  imports Buffer Common_Constants
begin

unbundle bit_operations_syntax

text \<open>
  The OPC UA binary encoder of \<open>src/Common/opcua_types/sopc_encoder.c\<close>, first part: the integer and
  floating point types, the arrays, and the two notions the whole encoder is specified with. A writer
  \<^term>\<open>writes\<close> a byte string when it appends exactly these bytes if they fit in the buffer and fails
  with an encoding status otherwise (\<^term>\<open>writes_upto\<close> names the statuses it may fail with); a reader \<^term>\<open>reads\<close> a byte string into a value when it consumes
  exactly these bytes, and is \<^term>\<open>safe_read\<close> when no content of the buffer makes it access memory
  outside of the block. The locale \<open>codec\<close> is the contract of one type; round trips and arrays are
  proved once in it.

  Integers are stored in memory in little endian order, which is the wire format, so
  \<open>SOPC_TO_LITTLE_ENDIAN_*\<close> is the identity. The structure level is a natural number: it is only
  incremented when it is below \<open>max_nested_struct\<close>.
\<close>

section \<open>Environment and guards\<close>

record enc_env = mem_env +
  enc_cfg :: SOPC_Common_EncodingConstants
  nanf_bits :: u32
  nan_bits :: u64
  size_max :: nat

abbreviation max_level :: "enc_env \<Rightarrow> nat" where
  "max_level env \<equiv> unat (max_nested_struct (enc_cfg env))"

type_synonym 'a writer = "'a option \<Rightarrow> bufp \<Rightarrow> nat \<Rightarrow> (SOPC_ReturnStatus \<times> bufp) option"
type_synonym 'a reader =
  "'a option \<Rightarrow> bufp \<Rightarrow> nat \<Rightarrow> (SOPC_ReturnStatus \<times> 'a option \<times> bufp) option"

text \<open>The two early returns every function starts with.\<close>

definition enc_guard ::
  "enc_env \<Rightarrow> bool \<Rightarrow> nat \<Rightarrow> 's \<Rightarrow> (SOPC_ReturnStatus \<times> 's) option \<Rightarrow>
   (SOPC_ReturnStatus \<times> 's) option" where
  "enc_guard env bad lvl s body =
     (if bad then Some (SOPC_STATUS_INVALID_PARAMETERS, s)
      else if lvl \<ge> max_level env then Some (SOPC_STATUS_INVALID_STATE, s)
      else body)"

text \<open>How the status of a buffer operation is reported.\<close>

definition write_status :: "SOPC_ReturnStatus \<Rightarrow> 's \<Rightarrow> SOPC_ReturnStatus \<times> 's" where
  "write_status st s =
     (if st = SOPC_STATUS_OUT_OF_MEMORY then SOPC_STATUS_WOULD_BLOCK else SOPC_STATUS_ENCODING_ERROR, s)"

definition read_status :: "SOPC_ReturnStatus \<Rightarrow> 's \<Rightarrow> SOPC_ReturnStatus \<times> 's" where
  "read_status st s = (SOPC_STATUS_ENCODING_ERROR, s)"

text \<open>Writing the memory of an integer of \<open>n\<close> bytes, and reading into it.\<close>

definition write_word :: "enc_env \<Rightarrow> nat \<Rightarrow> ('w::len) word \<Rightarrow> bufp \<Rightarrow> (SOPC_ReturnStatus \<times> bufp) option" where
  "write_word env n w buf =
     on_error (SOPC_Buffer_Write env buf (Some (le_bytes n (unat w))) (of_nat n)) write_status"

definition read_word ::
  "nat \<Rightarrow> ('w::len) word \<Rightarrow> bufp \<Rightarrow> (SOPC_ReturnStatus \<times> 'w word option \<times> bufp) option" where
  "read_word n w buf = do {
     (st, mem, buf) \<leftarrow> SOPC_Buffer_Read (Some (le_bytes n (unat w))) buf (of_nat n);
     m \<leftarrow> mem;
     on_error (Some (st, Some (of_nat (le_nat m)), buf)) read_status }"

section \<open>Integers\<close>

definition SOPC_Byte_Write :: "enc_env \<Rightarrow> byte writer" where
  "SOPC_Byte_Write env value buf lvl =
     enc_guard env (value = None \<or> buf = None) lvl buf
       (do { v \<leftarrow> value; write_word env 1 v buf })"

definition SOPC_Byte_Read :: "enc_env \<Rightarrow> byte reader" where
  "SOPC_Byte_Read env value buf lvl =
     enc_guard env (value = None \<or> buf = None) lvl (value, buf)
       (do { v \<leftarrow> value; read_word 1 v buf })"

text \<open>\<open>SOPC_Boolean\<close> is a byte.\<close>

definition SOPC_Boolean_Write :: "enc_env \<Rightarrow> byte writer" where
  "SOPC_Boolean_Write env value buf lvl =
     enc_guard env (value = None \<or> buf = None) lvl buf
       (do { v \<leftarrow> value; SOPC_Byte_Write env (Some (if v = 0 then v else 1)) buf (lvl + 1) })"

definition SOPC_Boolean_Read :: "enc_env \<Rightarrow> byte reader" where
  "SOPC_Boolean_Read env value buf lvl =
     enc_guard env (value = None) lvl (value, buf)
       (and_then (SOPC_Byte_Read env value buf (lvl + 1))
         (\<lambda>(value, buf). Some (SOPC_STATUS_OK, map_option (\<lambda>v. if v \<noteq> 0 then 1 else v) value, buf)))"

definition SOPC_SByte_Write :: "enc_env \<Rightarrow> byte writer" where
  "SOPC_SByte_Write env value buf lvl =
     enc_guard env (value = None \<or> buf = None) lvl buf
       (do { v \<leftarrow> value; write_word env 1 v buf })"

definition SOPC_SByte_Read :: "enc_env \<Rightarrow> byte reader" where
  "SOPC_SByte_Read env value buf lvl =
     enc_guard env (value = None \<or> buf = None) lvl (value, buf)
       (do { v \<leftarrow> value; read_word 1 v buf })"

definition SOPC_Int16_Write :: "enc_env \<Rightarrow> i16 writer" where
  "SOPC_Int16_Write env value buf lvl =
     enc_guard env (value = None \<or> buf = None) lvl buf
       (do { v \<leftarrow> value; write_word env 2 v buf })"

definition SOPC_Int16_Read :: "enc_env \<Rightarrow> i16 reader" where
  "SOPC_Int16_Read env value buf lvl =
     enc_guard env (value = None \<or> buf = None) lvl (value, buf)
       (do { v \<leftarrow> value; read_word 2 v buf })"

definition SOPC_UInt16_Write :: "enc_env \<Rightarrow> u16 writer" where
  "SOPC_UInt16_Write env value buf lvl =
     enc_guard env (value = None \<or> buf = None) lvl buf
       (do { v \<leftarrow> value; write_word env 2 v buf })"

definition SOPC_UInt16_Read :: "enc_env \<Rightarrow> u16 reader" where
  "SOPC_UInt16_Read env value buf lvl =
     enc_guard env (value = None \<or> buf = None) lvl (value, buf)
       (do { v \<leftarrow> value; read_word 2 v buf })"

definition SOPC_Int32_Write :: "enc_env \<Rightarrow> i32 writer" where
  "SOPC_Int32_Write env value buf lvl =
     enc_guard env (value = None \<or> buf = None) lvl buf
       (do { v \<leftarrow> value; write_word env 4 v buf })"

definition SOPC_Int32_Read :: "enc_env \<Rightarrow> i32 reader" where
  "SOPC_Int32_Read env value buf lvl =
     enc_guard env (value = None \<or> buf = None) lvl (value, buf)
       (do { v \<leftarrow> value; read_word 4 v buf })"

definition SOPC_UInt32_Write :: "enc_env \<Rightarrow> u32 writer" where
  "SOPC_UInt32_Write env value buf lvl =
     enc_guard env (value = None \<or> buf = None) lvl buf
       (do { v \<leftarrow> value; write_word env 4 v buf })"

definition SOPC_UInt32_Read :: "enc_env \<Rightarrow> u32 reader" where
  "SOPC_UInt32_Read env value buf lvl =
     enc_guard env (value = None \<or> buf = None) lvl (value, buf)
       (do { v \<leftarrow> value; read_word 4 v buf })"

definition SOPC_Int64_Write :: "enc_env \<Rightarrow> i64 writer" where
  "SOPC_Int64_Write env value buf lvl =
     enc_guard env (value = None \<or> buf = None) lvl buf
       (do { v \<leftarrow> value; write_word env 8 v buf })"

definition SOPC_Int64_Read :: "enc_env \<Rightarrow> i64 reader" where
  "SOPC_Int64_Read env value buf lvl =
     enc_guard env (value = None \<or> buf = None) lvl (value, buf)
       (do { v \<leftarrow> value; read_word 8 v buf })"

definition SOPC_UInt64_Write :: "enc_env \<Rightarrow> u64 writer" where
  "SOPC_UInt64_Write env value buf lvl =
     enc_guard env (value = None \<or> buf = None) lvl buf
       (do { v \<leftarrow> value; write_word env 8 v buf })"

definition SOPC_UInt64_Read :: "enc_env \<Rightarrow> u64 reader" where
  "SOPC_UInt64_Read env value buf lvl =
     enc_guard env (value = None \<or> buf = None) lvl (value, buf)
       (do { v \<leftarrow> value; read_word 8 v buf })"

section \<open>Floating point numbers\<close>

text \<open>
  A floating point number is its IEEE 754 bit pattern. What \<open>nanf("")\<close> and \<open>nan("")\<close> return is part
  of the environment; the static variables of the source only cache it.
\<close>

datatype fp_class = FP_NAN | FP_INFINITE | FP_ZERO | FP_SUBNORMAL | FP_NORMAL

definition fp_class_of :: "nat \<Rightarrow> nat \<Rightarrow> ('w::len) word \<Rightarrow> fp_class" where
  "fp_class_of mant ex w =
     (let m = take_bit mant (unat w); e = take_bit ex (drop_bit mant (unat w))
      in if e = 0 then (if m = 0 then FP_ZERO else FP_SUBNORMAL)
         else if e = 2 ^ ex - 1 then (if m = 0 then FP_INFINITE else FP_NAN)
         else FP_NORMAL)"

definition fpclassify_float :: "u32 \<Rightarrow> fp_class" where
  "fpclassify_float w = fp_class_of 23 8 w"

definition fpclassify_double :: "u64 \<Rightarrow> fp_class" where
  "fpclassify_double w = fp_class_of 52 11 w"

definition normalize_float :: "enc_env \<Rightarrow> u32 \<Rightarrow> u32" where
  "normalize_float env value =
     (case fpclassify_float value of
        FP_INFINITE \<Rightarrow> value
      | FP_NORMAL \<Rightarrow> value
      | FP_ZERO \<Rightarrow> value
      | _ \<Rightarrow> if fpclassify_float (nanf_bits env) = FP_ZERO then value else nanf_bits env)"

definition SOPC_Float_Write :: "enc_env \<Rightarrow> u32 writer" where
  "SOPC_Float_Write env value buf lvl =
     enc_guard env (value = None \<or> buf = None) lvl buf
       (do { v \<leftarrow> value; write_word env 4 (normalize_float env v) buf })"

definition SOPC_Float_Read :: "enc_env \<Rightarrow> u32 reader" where
  "SOPC_Float_Read env value buf lvl =
     enc_guard env (value = None \<or> buf = None) lvl (value, buf)
       (do { v \<leftarrow> value;
             (st, v, buf) \<leftarrow> read_word 4 v buf;
             Some (st, map_option (normalize_float env) v, buf) })"

definition normalize_double :: "enc_env \<Rightarrow> u64 \<Rightarrow> u64" where
  "normalize_double env value =
     (case fpclassify_double value of
        FP_INFINITE \<Rightarrow> value
      | FP_NORMAL \<Rightarrow> value
      | FP_ZERO \<Rightarrow> value
      | _ \<Rightarrow> if fpclassify_double (nan_bits env) = FP_ZERO then value else nan_bits env)"

definition SOPC_Double_Write :: "enc_env \<Rightarrow> u64 writer" where
  "SOPC_Double_Write env value buf lvl =
     enc_guard env (value = None \<or> buf = None) lvl buf
       (do { v \<leftarrow> value; write_word env 8 (normalize_double env v) buf })"

definition SOPC_Double_Read :: "enc_env \<Rightarrow> u64 reader" where
  "SOPC_Double_Read env value buf lvl =
     enc_guard env (value = None \<or> buf = None) lvl (value, buf)
       (do { v \<leftarrow> value;
             (st, v, buf) \<leftarrow> read_word 8 v buf;
             Some (st, map_option (normalize_double env) v, buf) })"

section \<open>Dates and status codes\<close>

definition SOPC_DateTime_Write :: "enc_env \<Rightarrow> i64 writer" where
  "SOPC_DateTime_Write env date buf lvl =
     enc_guard env (date = None \<or> buf = None) lvl buf (SOPC_Int64_Write env date buf (lvl + 1))"

definition SOPC_DateTime_Read :: "enc_env \<Rightarrow> i64 reader" where
  "SOPC_DateTime_Read env date buf lvl =
     enc_guard env (date = None) lvl (date, buf) (SOPC_Int64_Read env date buf (lvl + 1))"

definition SOPC_StatusCode_Write :: "enc_env \<Rightarrow> u32 writer" where
  "SOPC_StatusCode_Write env status buf lvl = SOPC_UInt32_Write env status buf lvl"

definition SOPC_StatusCode_Read :: "enc_env \<Rightarrow> u32 reader" where
  "SOPC_StatusCode_Read env status buf lvl = SOPC_UInt32_Read env status buf lvl"

section \<open>Arrays\<close>

text \<open>
  An array is the list of its elements; \<open>eltsArray\<close> is a pointer to a pointer. The loops run over the
  elements in memory. \<open>zero\<close> is the value of an element whose memory is zeroed. The elements cleared
  by the failure branch of \<open>SOPC_Read_Array\<close> are in the block freed right after.
\<close>

primrec Read_Array_loop ::
  "'a reader \<Rightarrow> ('a \<Rightarrow> 'a) \<Rightarrow> 'a list \<Rightarrow> bufp \<Rightarrow> nat \<Rightarrow> (SOPC_ReturnStatus \<times> 'a list \<times> bufp) option"
  where
  "Read_Array_loop decodeFct initializeFct [] buf lvl = Some (SOPC_STATUS_OK, [], buf)"
| "Read_Array_loop decodeFct initializeFct (e # es) buf lvl = do {
     (st, e, buf) \<leftarrow> decodeFct (Some (initializeFct e)) buf lvl;
     e \<leftarrow> e;
     if st = SOPC_STATUS_OK then do {
       (st, es, buf) \<leftarrow> Read_Array_loop decodeFct initializeFct es buf lvl;
       Some (st, e # es, buf) }
     else Some (st, e # es, buf) }"

definition SOPC_Read_Array ::
  "enc_env \<Rightarrow> bufp \<Rightarrow> i32 option \<Rightarrow> 'a list option option \<Rightarrow> nat \<Rightarrow> 'a reader option \<Rightarrow> ('a \<Rightarrow> 'a) \<Rightarrow>
   'a \<Rightarrow> nat \<Rightarrow> (SOPC_ReturnStatus \<times> i32 option \<times> 'a list option option \<times> bufp) option" where
  "SOPC_Read_Array env buf noOfElts eltsArray sizeOfElt decodeFct initializeFct zero lvl =
     enc_guard env
       (buf = None \<or> noOfElts = None \<or> eltsArray = None \<or> (\<exists>xs\<in>set_option eltsArray. xs \<noteq> None) \<or>
        decodeFct = None \<or> sizeOfElt = 0) lvl (noOfElts, eltsArray, buf)
       (do {
          (st, noOfElts, buf) \<leftarrow> SOPC_Int32_Read env noOfElts buf (lvl + 1);
          n \<leftarrow> noOfElts;
          dec \<leftarrow> decodeFct;
          if st \<noteq> SOPC_STATUS_OK then Some (st, noOfElts, eltsArray, buf)
          else
            (let n = (if sint n < 0 then 0 else n)
             in if sint n > sint (max_array_length (enc_cfg env)) then
                  Some (SOPC_STATUS_OUT_OF_MEMORY, Some n, eltsArray, buf)
                else if 0 < sint n \<and> unat n \<le> size_max env div sizeOfElt then
                  (if mem_ok env (unat n * sizeOfElt) then do {
                     (st, es, buf) \<leftarrow>
                       Read_Array_loop dec initializeFct (replicate (unat n) zero) buf (lvl + 1);
                     if st \<noteq> SOPC_STATUS_OK then Some (st, Some 0, Some None, buf)
                     else Some (st, Some n, Some (Some es), buf) }
                   else Some (SOPC_STATUS_NOK, Some n, Some None, buf))
                else if 0 < sint n then Some (SOPC_STATUS_OUT_OF_MEMORY, Some n, eltsArray, buf)
                else Some (SOPC_STATUS_OK, Some n, eltsArray, buf)) })"

primrec Write_Array_loop ::
  "'a writer \<Rightarrow> 'a list \<Rightarrow> nat \<Rightarrow> bufp \<Rightarrow> nat \<Rightarrow> (SOPC_ReturnStatus \<times> bufp) option" where
  "Write_Array_loop encodeFct es 0 buf lvl = Some (SOPC_STATUS_OK, buf)"
| "Write_Array_loop encodeFct es (Suc n) buf lvl =
     (case es of [] \<Rightarrow> None
      | e # es \<Rightarrow> and_then (encodeFct (Some e) buf lvl) (\<lambda>buf. Write_Array_loop encodeFct es n buf lvl))"

definition SOPC_Write_Array ::
  "enc_env \<Rightarrow> bufp \<Rightarrow> i32 option \<Rightarrow> 'a list option option \<Rightarrow> 'a writer option \<Rightarrow> nat \<Rightarrow>
   (SOPC_ReturnStatus \<times> bufp) option" where
  "SOPC_Write_Array env msgBuf noOfElts eltsArray encodeFct lvl =
     enc_guard env
       (msgBuf = None \<or> noOfElts = None \<or> eltsArray = None \<or> encodeFct = None \<or>
        (\<exists>n\<in>set_option noOfElts. 0 < sint n) \<and> eltsArray = Some None) lvl msgBuf
       (do {
          n \<leftarrow> noOfElts;
          enc \<leftarrow> encodeFct;
          and_when (SOPC_Int32_Write env noOfElts msgBuf (lvl + 1)) (0 < sint n)
            (\<lambda>buf. do { p \<leftarrow> eltsArray; es \<leftarrow> p;
                        Write_Array_loop enc es (nat (sint n)) buf (lvl + 1) }) })"

section \<open>Specification of writers and readers\<close>

text \<open>
  The bound \<open>2 ^ 31\<close> on buffer sizes makes \<open>position + count\<close> fit in 32 bits for every count read
  from an \<open>int32_t\<close>.
\<close>

definition writes_upto ::
  "SOPC_ReturnStatus set \<Rightarrow> (bufp \<Rightarrow> (SOPC_ReturnStatus \<times> bufp) option) \<Rightarrow> byte list \<Rightarrow> bool" where
  "writes_upto errs W bs \<longleftrightarrow>
     (\<forall>b. buf_wf b \<longrightarrow> unat (maximum_size b) \<le> 2 ^ 31 \<longrightarrow>
       (if unat (position b) + length bs \<le> unat (maximum_size b) then
          (\<exists>b'. W (Some b) = Some (SOPC_STATUS_OK, Some b') \<and> buf_wf b' \<and>
             stream_of b' = stream_put bs (stream_of b))
        else
          (\<exists>st b'. W (Some b) = Some (st, Some b') \<and> st \<in> errs - {SOPC_STATUS_OK} \<and> buf_wf b' \<and>
             maximum_size b' = maximum_size b)))"

text \<open>The statuses that most writers answer when the buffer is full.\<close>

abbreviation full_statuses :: "SOPC_ReturnStatus set" where
  "full_statuses \<equiv> {SOPC_STATUS_WOULD_BLOCK, SOPC_STATUS_ENCODING_ERROR}"

abbreviation writes :: "(bufp \<Rightarrow> (SOPC_ReturnStatus \<times> bufp) option) \<Rightarrow> byte list \<Rightarrow> bool" where
  "writes \<equiv> writes_upto full_statuses"

definition reads ::
  "('a option \<times> bufp \<Rightarrow> (SOPC_ReturnStatus \<times> 'a option \<times> bufp) option) \<Rightarrow> 'a \<Rightarrow> 'a \<Rightarrow> byte list \<Rightarrow> bool"
  where
  "reads A s s' bs \<longleftrightarrow>
     (\<forall>b rest. buf_wf b \<longrightarrow> unat (buf_length b) \<le> 2 ^ 31 \<longrightarrow> stream_rest (stream_of b) = bs @ rest \<longrightarrow>
       A (Some s, Some b) = Some (SOPC_STATUS_OK, Some s', Some (buf_advance (length bs) b)))"

text \<open>A read only moves the position of the buffer, forward.\<close>

definition buf_read_step :: "SOPC_Buffer \<Rightarrow> SOPC_Buffer \<Rightarrow> bool" where
  "buf_read_step b b' \<longleftrightarrow> buf_wf b' \<and> b' = b\<lparr>position := position b'\<rparr> \<and> position b \<le> position b'"

definition safe_read ::
  "('a option \<times> bufp \<Rightarrow> (SOPC_ReturnStatus \<times> 'a option \<times> bufp) option) \<Rightarrow> 'a \<Rightarrow> ('a \<Rightarrow> bool) \<Rightarrow> bool"
  where
  "safe_read A s Q \<longleftrightarrow>
     (\<forall>b. buf_wf b \<longrightarrow> unat (buf_length b) \<le> 2 ^ 31 \<longrightarrow>
       (\<exists>st s' b'. A (Some s, Some b) = Some (st, Some s', Some b') \<and> buf_read_step b b' \<and>
          (st = SOPC_STATUS_OK \<longrightarrow> Q s')))"

lemma buf_read_step_refl: "buf_wf b \<Longrightarrow> buf_read_step b b"
  by (simp add: buf_read_step_def)

lemma buf_read_step_trans: "buf_read_step a b \<Longrightarrow> buf_read_step b c \<Longrightarrow> buf_read_step a c"
  unfolding buf_read_step_def by (metis SOPC_Buffer.surjective SOPC_Buffer.update_convs(4) order_trans)

lemma buf_read_step_wf: "buf_read_step b b' \<Longrightarrow> buf_wf b' \<and> buf_length b' = buf_length b"
  unfolding buf_read_step_def by (metis SOPC_Buffer.ext_inject SOPC_Buffer.surjective SOPC_Buffer.update_convs(4))

lemma buf_read_step_advance:
  assumes "buf_wf b" "unat (position b) + n \<le> unat (buf_length b)"
  shows "buf_read_step b (buf_advance n b)"
proof -
  have "unat (position b) + n < 2 ^ 32"
    using assms(2) unat_lt_u32 [of "buf_length b"] by simp
  then show ?thesis
    using buf_wf_advance [OF assms] unat_position_advance [of b n]
    by (simp add: buf_read_step_def u32_le_iff buf_advance_def)
qed

subsection \<open>Sequences\<close>

lemma writes_uptoI:
  assumes "\<And>b. buf_wf b \<Longrightarrow> unat (maximum_size b) \<le> 2 ^ 31 \<Longrightarrow>
      unat (position b) + length bs \<le> unat (maximum_size b) \<Longrightarrow>
      \<exists>b'. W (Some b) = Some (SOPC_STATUS_OK, Some b') \<and> buf_wf b' \<and>
        stream_of b' = stream_put bs (stream_of b)"
    and "\<And>b. buf_wf b \<Longrightarrow> unat (maximum_size b) \<le> 2 ^ 31 \<Longrightarrow>
      unat (maximum_size b) < unat (position b) + length bs \<Longrightarrow>
      \<exists>st b'. W (Some b) = Some (st, Some b') \<and> st \<in> errs - {SOPC_STATUS_OK} \<and> buf_wf b' \<and>
        maximum_size b' = maximum_size b"
  shows "writes_upto errs W bs"
  unfolding writes_upto_def using assms by (simp add: not_le)

lemma writesI:
  assumes "\<And>b. buf_wf b \<Longrightarrow> unat (maximum_size b) \<le> 2 ^ 31 \<Longrightarrow>
      unat (position b) + length bs \<le> unat (maximum_size b) \<Longrightarrow>
      \<exists>b'. W (Some b) = Some (SOPC_STATUS_OK, Some b') \<and> buf_wf b' \<and>
        stream_of b' = stream_put bs (stream_of b)"
    and "\<And>b. buf_wf b \<Longrightarrow> unat (maximum_size b) \<le> 2 ^ 31 \<Longrightarrow>
      unat (maximum_size b) < unat (position b) + length bs \<Longrightarrow>
      \<exists>st b'. W (Some b) = Some (st, Some b') \<and> st \<in> full_statuses \<and> buf_wf b' \<and>
        maximum_size b' = maximum_size b"
  shows "writes W bs"
proof (rule writes_uptoI)
  fix b
  assume "buf_wf b" "unat (maximum_size b) \<le> 2 ^ 31" "unat (maximum_size b) < unat (position b) + length bs"
  from assms(2) [OF this] show "\<exists>st b'. W (Some b) = Some (st, Some b') \<and>
      st \<in> full_statuses - {SOPC_STATUS_OK} \<and> buf_wf b' \<and> maximum_size b' = maximum_size b"
    by auto
qed (rule assms(1))

lemma writes_ok:
  assumes "writes_upto errs W bs" "buf_wf b" "unat (maximum_size b) \<le> 2 ^ 31"
    "unat (position b) + length bs \<le> unat (maximum_size b)"
  obtains b' where "W (Some b) = Some (SOPC_STATUS_OK, Some b')" "buf_wf b'"
    "stream_of b' = stream_put bs (stream_of b)" "maximum_size b' = maximum_size b"
    "unat (position b') = unat (position b) + length bs"
proof -
  obtain b' where b': "W (Some b) = Some (SOPC_STATUS_OK, Some b')" "buf_wf b'"
    "stream_of b' = stream_put bs (stream_of b)"
    using assms(1) [unfolded writes_upto_def, rule_format, OF assms(2,3)] assms(4) by auto
  have "s_cap (stream_of b') = s_cap (stream_of b)" "s_pos (stream_of b') = s_pos (stream_of b) + length bs"
    by (simp_all only: b'(3) stream_put_cap stream_put_pos)
  then have "maximum_size b' = maximum_size b" "unat (position b') = unat (position b) + length bs"
    by (simp_all only: stream_of_simps word_unat_eq_iff)
  with b' that show thesis by blast
qed

lemma writes_full:
  assumes "writes_upto errs W bs" "buf_wf b" "unat (maximum_size b) \<le> 2 ^ 31"
    "unat (maximum_size b) < unat (position b) + length bs"
  obtains st b' where "W (Some b) = Some (st, Some b')"
    "st \<in> errs" "st \<noteq> SOPC_STATUS_OK" "buf_wf b'"
    "maximum_size b' = maximum_size b"
  using assms(1) [unfolded writes_upto_def, rule_format, OF assms(2,3)] assms(4) that by auto

text \<open>Both cases at once.\<close>

lemma writes_exact:
  assumes "writes W bs" "buf_wf b" "unat (maximum_size b) \<le> 2 ^ 31"
  shows "if unat (position b) + length bs \<le> unat (maximum_size b) then
      (\<exists>b'. W (Some b) = Some (SOPC_STATUS_OK, Some b') \<and> buf_wf b' \<and>
        stream_of b' = stream_put bs (stream_of b))
    else
      (\<exists>st b'. W (Some b) = Some (st, Some b') \<and> st \<in> full_statuses \<and> buf_wf b' \<and>
        maximum_size b' = maximum_size b)"
  using assms(1) [unfolded writes_upto_def, rule_format, OF assms(2,3)] by auto

lemma writes_seq:
  assumes A: "writes_upto errs A xs" and B: "writes_upto errs B ys"
  shows "writes_upto errs (\<lambda>b. and_then (A b) B) (xs @ ys)"
proof (rule writes_uptoI)
  fix b
  assume b: "buf_wf b" "unat (maximum_size b) \<le> 2 ^ 31"
    "unat (position b) + length (xs @ ys) \<le> unat (maximum_size b)"
  then obtain b1 where b1: "A (Some b) = Some (SOPC_STATUS_OK, Some b1)" "buf_wf b1"
    "stream_of b1 = stream_put xs (stream_of b)" "maximum_size b1 = maximum_size b"
    "unat (position b1) = unat (position b) + length xs"
    using writes_ok [OF A b(1,2)] by auto
  then obtain b2 where b2: "B (Some b1) = Some (SOPC_STATUS_OK, Some b2)" "buf_wf b2"
    "stream_of b2 = stream_put ys (stream_of b1)"
    using writes_ok [OF B b1(2)] b by auto
  have "unat (position b) \<le> length (buf_bytes b)"
    using b(1) by (simp add: length_buf_bytes) (auto elim!: buf_wfE)
  with b1 b2 show "\<exists>b'. and_then (A (Some b)) B = Some (SOPC_STATUS_OK, Some b') \<and> buf_wf b' \<and>
      stream_of b' = stream_put (xs @ ys) (stream_of b)"
    by (simp add: stream_put_append)
next
  fix b
  assume b: "buf_wf b" "unat (maximum_size b) \<le> 2 ^ 31"
    "unat (maximum_size b) < unat (position b) + length (xs @ ys)"
  show "\<exists>st b'. and_then (A (Some b)) B = Some (st, Some b') \<and>
      st \<in> errs - {SOPC_STATUS_OK} \<and> buf_wf b' \<and>
      maximum_size b' = maximum_size b"
  proof (cases "unat (position b) + length xs \<le> unat (maximum_size b)")
    case True
    then obtain b1 where b1: "A (Some b) = Some (SOPC_STATUS_OK, Some b1)" "buf_wf b1"
      "maximum_size b1 = maximum_size b" "unat (position b1) = unat (position b) + length xs"
      using writes_ok [OF A b(1,2)] by auto
    moreover from this b obtain st b2 where "B (Some b1) = Some (st, Some b2)" "st \<in> errs"
      "st \<noteq> SOPC_STATUS_OK" "buf_wf b2" "maximum_size b2 = maximum_size b1"
      using writes_full [OF B, of b1] by (metis add.assoc length_append)
    ultimately show ?thesis by auto
  next
    case False
    then obtain st b1 where "A (Some b) = Some (st, Some b1)" "buf_wf b1"
      "st \<in> errs" "st \<noteq> SOPC_STATUS_OK" "maximum_size b1 = maximum_size b"
      using writes_full [OF A b(1,2)] by (metis not_le)
    then show ?thesis by auto
  qed
qed

lemma writes_upto_mono: "writes_upto errs W bs \<Longrightarrow> errs \<subseteq> errs' \<Longrightarrow> writes_upto errs' W bs"
  unfolding writes_upto_def by (meson Diff_mono subset_iff subset_refl)

lemma writes_when:
  assumes "writes_upto errs A xs" "c \<Longrightarrow> writes_upto errs B ys"
  shows "writes_upto errs (\<lambda>b. and_when (A b) c B) (xs @ (if c then ys else []))"
  using assms writes_seq [of errs A xs B ys] by (cases c) simp_all

lemma readsD:
  "reads A s s' bs \<Longrightarrow> buf_wf b \<Longrightarrow> unat (buf_length b) \<le> 2 ^ 31 \<Longrightarrow>
    stream_rest (stream_of b) = bs @ rest \<Longrightarrow>
    A (Some s, Some b) = Some (SOPC_STATUS_OK, Some s', Some (buf_advance (length bs) b))"
  by (simp add: reads_def)

text \<open>What remains after reading a prefix of the stream.\<close>

lemma stream_rest_split:
  assumes "buf_wf b" "stream_rest (stream_of b) = xs @ ys"
  shows "unat (position b) + length xs \<le> unat (buf_length b)" "buf_wf (buf_advance (length xs) b)"
    "stream_rest (stream_of (buf_advance (length xs) b)) = ys"
proof -
  have "unat (position b) \<le> unat (buf_length b)" using assms(1) by (auto elim!: buf_wfE)
  moreover have "length xs + length ys = unat (buf_length b) - unat (position b)"
    using stream_rest_of [OF assms(1)] assms(2) by simp
  ultimately show le: "unat (position b) + length xs \<le> unat (buf_length b)" by linarith
  show "buf_wf (buf_advance (length xs) b)" by (rule buf_wf_advance [OF assms(1) le])
  show "stream_rest (stream_of (buf_advance (length xs) b)) = ys"
    using stream_rest_advance [OF assms(1) le] assms(2) by simp
qed

lemma reads_seq:
  assumes "reads A s s1 xs" "reads B s1 s2 ys"
  shows "reads (\<lambda>x. and_then (A x) B) s s2 (xs @ ys)"
  unfolding reads_def
proof (intro allI impI)
  fix b rest
  assume b: "buf_wf b" "unat (buf_length b) \<le> 2 ^ 31" "stream_rest (stream_of b) = (xs @ ys) @ rest"
  then have "A (Some s, Some b) = Some (SOPC_STATUS_OK, Some s1, Some (buf_advance (length xs) b))"
    using readsD [OF assms(1)] by simp
  moreover have "B (Some s1, Some (buf_advance (length xs) b)) =
      Some (SOPC_STATUS_OK, Some s2, Some (buf_advance (length ys) (buf_advance (length xs) b)))"
    using readsD [OF assms(2)] stream_rest_split [OF b(1), of xs "ys @ rest"] b by simp
  ultimately show "and_then (A (Some s, Some b)) B =
      Some (SOPC_STATUS_OK, Some s2, Some (buf_advance (length (xs @ ys)) b))"
    by (simp add: buf_advance_advance)
qed

lemma reads_skip: "reads (\<lambda>x. Some (SOPC_STATUS_OK, x)) s s []"
  by (simp add: reads_def)

lemma reads_when:
  assumes "reads A s s1 xs" "c \<Longrightarrow> reads B s1 s2 ys" "\<not> c \<Longrightarrow> s2 = s1"
  shows "reads (\<lambda>x. and_when (A x) c B) s s2 (xs @ (if c then ys else []))"
  using assms reads_seq [of A s s1 xs B s2 ys] by (cases c) simp_all

lemma reads_on_error: "reads A s s' bs \<Longrightarrow> reads (\<lambda>x. on_error (A x) h) s s' bs"
  by (simp add: reads_def)

lemma safe_read_seq:
  assumes A: "safe_read A s Q" and B: "\<And>s1. Q s1 \<Longrightarrow> safe_read B s1 R"
  shows "safe_read (\<lambda>x. and_then (A x) B) s R"
  unfolding safe_read_def
proof (intro allI impI)
  fix b assume b: "buf_wf b" "unat (buf_length b) \<le> 2 ^ 31"
  then obtain st s1 b1 where 1: "A (Some s, Some b) = Some (st, Some s1, Some b1)" "buf_read_step b b1"
    "st = SOPC_STATUS_OK \<longrightarrow> Q s1"
    using A unfolding safe_read_def by blast
  show "\<exists>st s' b'. and_then (A (Some s, Some b)) B = Some (st, Some s', Some b') \<and>
      buf_read_step b b' \<and> (st = SOPC_STATUS_OK \<longrightarrow> R s')"
  proof (cases "st = SOPC_STATUS_OK")
    case True
    with 1 b B obtain st2 s2 b2 where "B (Some s1, Some b1) = Some (st2, Some s2, Some b2)"
      "buf_read_step b1 b2" "st2 = SOPC_STATUS_OK \<longrightarrow> R s2"
      using buf_read_step_wf [OF 1(2)] unfolding safe_read_def by metis
    with 1 True show ?thesis using buf_read_step_trans by auto
  next
    case False
    with 1 show ?thesis by auto
  qed
qed

lemma safe_read_when:
  assumes "safe_read A s Q" "\<And>s1. Q s1 \<Longrightarrow> c \<Longrightarrow> safe_read B s1 R" "\<And>s1. Q s1 \<Longrightarrow> \<not> c \<Longrightarrow> R s1"
  shows "safe_read (\<lambda>x. and_when (A x) c B) s R"
proof (cases c)
  case True
  then show ?thesis using safe_read_seq [OF assms(1), of B R] assms(2) by simp
next
  case False
  then show ?thesis using assms(1,3) unfolding safe_read_def by simp blast
qed

lemma safe_read_on_error:
  assumes "safe_read A s Q" "\<And>st v bp. \<exists>st' v'. h st (Some v, bp) = (st', Some v', bp) \<and> st' \<noteq> SOPC_STATUS_OK"
  shows "safe_read (\<lambda>x. on_error (A x) h) s Q"
  unfolding safe_read_def
proof (intro allI impI)
  fix b assume "buf_wf b" "unat (buf_length b) \<le> 2 ^ 31"
  then obtain st s1 b1 where 1: "A (Some s, Some b) = Some (st, Some s1, Some b1)" "buf_read_step b b1"
    "st = SOPC_STATUS_OK \<longrightarrow> Q s1"
    using assms(1) unfolding safe_read_def by blast
  then show "\<exists>st s' b'. on_error (A (Some s, Some b)) h = Some (st, Some s', Some b') \<and>
      buf_read_step b b' \<and> (st = SOPC_STATUS_OK \<longrightarrow> Q s')"
    using assms(2) [of st s1 "Some b1"] by (cases "st = SOPC_STATUS_OK") auto
qed

lemma safe_read_weaken: "safe_read A s Q \<Longrightarrow> (\<And>v. Q v \<Longrightarrow> R v) \<Longrightarrow> safe_read A s R"
  unfolding safe_read_def by meson

subsection \<open>Guards, blocks and words\<close>

lemma enc_guard_ok [simp]: "lvl < max_level env \<Longrightarrow> enc_guard env False lvl s body = body"
  by (simp add: enc_guard_def)

lemma writes_cong: "(\<And>b. V (Some b) = W (Some b)) \<Longrightarrow> writes_upto errs V bs = writes_upto errs W bs"
  by (simp add: writes_upto_def)

lemma writes_guard:
  "lvl < max_level env \<Longrightarrow> (\<And>b. \<not> bad (Some b)) \<Longrightarrow> writes_upto errs body bs \<Longrightarrow>
    writes_upto errs (\<lambda>b. enc_guard env (bad b) lvl b (body b)) bs"
  by (subst writes_cong [of _ body]) auto

lemma reads_guard:
  "lvl < max_level env \<Longrightarrow> (\<And>b. \<not> bad (Some s) (Some b)) \<Longrightarrow> reads (\<lambda>(p, b). body p b) s s' bs \<Longrightarrow>
    reads (\<lambda>(p, b). enc_guard env (bad p b) lvl (p, b) (body p b)) s s' bs"
  by (simp add: reads_def)

lemma safe_read_guard:
  "safe_read (\<lambda>(p, b). body p b) s Q \<Longrightarrow>
    safe_read (\<lambda>(p, b). enc_guard env (bad p b) lvl (p, b) (body p b)) s Q"
  by (auto simp: safe_read_def enc_guard_def buf_read_step_refl)

lemma writes_block:
  assumes "mem_total env" "unat n = length bs" "length bs < 2 ^ 31" "length bs \<le> length src"
    "take (length bs) src = bs"
  shows "writes (\<lambda>b. on_error (SOPC_Buffer_Write env b (Some src) n) write_status) bs"
proof (rule writesI)
  fix b
  assume "buf_wf b" "unat (position b) + length bs \<le> unat (maximum_size b)"
  then show "\<exists>b'. on_error (SOPC_Buffer_Write env (Some b) (Some src) n) write_status =
      Some (SOPC_STATUS_OK, Some b') \<and> buf_wf b' \<and> stream_of b' = stream_put bs (stream_of b)"
    using SOPC_Buffer_Write_ok [of b env n src] assms by auto
next
  fix b
  assume b: "buf_wf b" "unat (maximum_size b) \<le> 2 ^ 31"
    "unat (maximum_size b) < unat (position b) + length bs"
  then have "unat (position b) + unat n < 2 ^ 32"
    using assms(2,3) by (auto elim!: buf_wfE)
  then show "\<exists>st b'. on_error (SOPC_Buffer_Write env (Some b) (Some src) n) write_status =
      Some (st, Some b') \<and> st \<in> full_statuses \<and>
      buf_wf b' \<and> maximum_size b' = maximum_size b"
    using SOPC_Buffer_Write_full [of b n env src] assms(2) b by (simp add: write_status_def)
qed

lemma writes_word:
  assumes "mem_total env" "n < 2 ^ 31"
  shows "writes (write_word env n w) (le_bytes n (unat w))"
  unfolding write_word_def [abs_def] using assms
  by (intro writes_block) (simp_all add: unat_of_nat_u32)

lemma reads_block:
  assumes "buf_wf b" "stream_rest (stream_of b) = bs @ rest" "unat n = length bs"
    "length dst = length bs"
  shows "SOPC_Buffer_Read (Some dst) (Some b) n =
    Some (SOPC_STATUS_OK, Some bs, Some (buf_advance (length bs) b))"
  using SOPC_Buffer_Read_ok [OF assms(1), of n dst] stream_rest_split(1) [OF assms(1,2)] assms by simp

lemma safe_block:
  assumes "buf_wf b" "unat (buf_length b) \<le> 2 ^ 31" "unat n < 2 ^ 31" "unat n \<le> length dst"
  obtains st dst' b' where "SOPC_Buffer_Read (Some dst) (Some b) n = Some (st, Some dst', Some b')"
    "buf_read_step b b'" "length dst' = length dst"
    "st = SOPC_STATUS_OK \<Longrightarrow> drop (unat n) dst' = drop (unat n) dst"
proof (cases "unat (position b) + unat n \<le> unat (buf_length b)")
  case True
  then show ?thesis
    using that [OF SOPC_Buffer_Read_ok [OF assms(1) True assms(4)] buf_read_step_advance [OF assms(1) True]]
      stream_rest_of [OF assms(1)] assms(4) by simp
next
  case False
  have "unat (position b) + unat n < 2 ^ 32"
    using assms by (auto elim!: buf_wfE)
  then show ?thesis
    using that [OF SOPC_Buffer_Read_short [OF assms(1), of n "Some dst"] buf_read_step_refl] False assms
    by simp
qed

lemma reads_word:
  fixes v w :: "('w::len) word"
  assumes "LENGTH('w) = 8 * n" "n < 2 ^ 31"
  shows "reads (\<lambda>(p, b). do { v \<leftarrow> p; read_word n v b }) w v (le_bytes n (unat v))"
  unfolding reads_def
proof (intro allI impI)
  fix b rest
  assume b: "buf_wf b" "stream_rest (stream_of b) = le_bytes n (unat v) @ rest"
  show "(\<lambda>(p, b). do { v \<leftarrow> p; read_word n v b }) (Some w, Some b) =
      Some (SOPC_STATUS_OK, Some v, Some (buf_advance (length (le_bytes n (unat v))) b))"
    using reads_block [OF b, of "of_nat n" "le_bytes n (unat w)"] assms le_word_roundtrip [OF assms(1), of v]
    by (simp add: read_word_def unat_of_nat_u32)
qed

lemma safe_read_word:
  assumes "n < 2 ^ 31"
  shows "safe_read (\<lambda>(p, b). do { v \<leftarrow> p; read_word n v b }) w (\<lambda>_. True)"
  unfolding safe_read_def
proof (intro allI impI)
  fix b
  assume b: "buf_wf b" "unat (buf_length b) \<le> 2 ^ 31"
  have "unat (of_nat n :: u32) < 2 ^ 31" "unat (of_nat n :: u32) \<le> length (le_bytes n (unat w))"
    using assms by (simp_all add: unat_of_nat_u32)
  from safe_block [OF b this] obtain st m b'
    where "SOPC_Buffer_Read (Some (le_bytes n (unat w))) (Some b) (of_nat n) = Some (st, Some m, Some b')"
    "buf_read_step b b'" by metis
  then show "\<exists>st s' b'. (\<lambda>(p, b). do { v \<leftarrow> p; read_word n v b }) (Some w, Some b) =
      Some (st, Some s', Some b') \<and> buf_read_step b b' \<and> (st = SOPC_STATUS_OK \<longrightarrow> True)"
    by (cases "st = SOPC_STATUS_OK") (auto simp: read_word_def read_status_def)
qed

end
