(* ===== verification/Codec.thy ===== *)
theory Codec
  imports Encoder_Core
begin

text \<open>
  The contract of an encodable type, as a locale: a writer \<open>W\<close> and a reader \<open>R\<close> that agree on the byte
  string \<open>enc\<close> of a value, for the values \<open>ok\<close> that can be decoded under the configured limits.
  \<open>ini\<close> is the value the reader starts from, \<open>dec\<close> what it makes of an encoded value (the value itself
  up to normalisation), \<open>good\<close> what is known of every value it accepts, and \<open>depth\<close> the number of
  structure levels used. The two halves of the contract are the locales \<open>codec_core\<close> (encoded values
  are decoded) and \<open>decoder\<close> (any buffer is decoded safely). Round trips and the laws of
  \<open>SOPC_Write_Array\<close> and \<open>SOPC_Read_Array\<close> are proved once in them; \<open>codec\<close> is interpreted for each
  integer and floating point type here and for the other built-in types in the theories that follow.
\<close>

text \<open>After a write, going back to where it started puts the written bytes in front of the reader.\<close>

lemma write_and_rewind:
  assumes W: "writes_upto errs W bs" and b: "buf_wf b" "unat (maximum_size b) \<le> 2 ^ 31"
    and room: "unat (position b) + length bs \<le> unat (maximum_size b)"
  obtains b1 b2 rest where "W (Some b) = Some (SOPC_STATUS_OK, Some b1)"
    "stream_of b1 = stream_put bs (stream_of b)"
    "SOPC_Buffer_SetPosition (Some b1) (position b) = (SOPC_STATUS_OK, Some b2)"
    "buf_wf b2" "unat (buf_length b2) \<le> 2 ^ 31" "stream_rest (stream_of b2) = bs @ rest"
    "stream_of (buf_advance (length bs) b2) = stream_of b1"
proof -
  obtain b1 where b1: "W (Some b) = Some (SOPC_STATUS_OK, Some b1)" "buf_wf b1"
    "stream_of b1 = stream_put bs (stream_of b)" "maximum_size b1 = maximum_size b"
    "unat (position b1) = unat (position b) + length bs"
    using writes_ok [OF W b room] by metis
  have d: "buf_data b1 \<noteq> None" "unat (position b1) \<le> unat (buf_length b1)"
    "unat (buf_length b1) \<le> unat (maximum_size b1)"
    using b1(2) by (auto elim!: buf_wfE)
  let ?b2 = "b1\<lparr>position := position b\<rparr>"
  have sp: "SOPC_Buffer_SetPosition (Some b1) (position b) = (SOPC_STATUS_OK, Some ?b2)"
    using d b1(5) by (simp add: SOPC_Buffer_SetPosition_def u32_le_iff)
  have wf2: "buf_wf ?b2"
    using b1(2,5) d(2) by (auto simp: buf_wf_def u32_le_iff split: option.splits)
  have pl: "unat (position b) \<le> length (buf_bytes b)"
    using b(1) by (simp add: length_buf_bytes) (auto elim!: buf_wfE)
  have bytes: "buf_bytes ?b2 = s_bytes (stream_put bs (stream_of b))"
    using arg_cong [OF b1(3), of s_bytes] by (simp add: buf_bytes_def)
  then have "take (length bs) (stream_rest (stream_of ?b2)) = bs"
    using stream_put_take [of "stream_of b" bs] pl by (simp add: stream_rest_def)
  then have rest: "stream_rest (stream_of ?b2) = bs @ drop (length bs) (stream_rest (stream_of ?b2))"
    by (metis append_take_drop_id)
  have "stream_of (buf_advance (length bs) ?b2) = stream_of b1"
    using b1(5) unat_position_advance [of ?b2 "length bs"] unat_lt_u32 [of "position b1"]
    by (simp add: stream_of_def buf_bytes_def)
  with that [OF b1(1,3) sp wf2 _ rest] d(3) b1(4) b(2) show thesis by simp
qed

locale codec_core =
  fixes W :: "enc_env \<Rightarrow> 'a writer" and R :: "enc_env \<Rightarrow> 'a reader"
    and enc :: "enc_env \<Rightarrow> 'a \<Rightarrow> byte list" and ok :: "enc_env \<Rightarrow> 'a \<Rightarrow> bool"
    and ini :: 'a and dec :: "enc_env \<Rightarrow> 'a \<Rightarrow> 'a"
    and depth :: nat and errs :: "SOPC_ReturnStatus set"
  assumes depth_pos: "0 < depth" and errs_full: "full_statuses \<subseteq> errs"
    and write_law: "mem_total env \<Longrightarrow> ok env v \<Longrightarrow> lvl + depth \<le> max_level env \<Longrightarrow>
      writes_upto errs (\<lambda>b. W env (Some v) b lvl) (enc env v)"
    and read_law: "mem_total env \<Longrightarrow> ok env v \<Longrightarrow> lvl + depth \<le> max_level env \<Longrightarrow>
      reads (\<lambda>(p, b). R env p b lvl) ini (dec env v) (enc env v)"
begin

text \<open>Encoding, going back and decoding.\<close>

lemma roundtrip:
  assumes env: "mem_total env" and v: "ok env v" and lvl: "lvl + depth \<le> max_level env"
    and b: "buf_wf b" "unat (maximum_size b) \<le> 2 ^ 31"
    and room: "unat (position b) + length (enc env v) \<le> unat (maximum_size b)"
  shows "\<exists>b1 b2 b3. W env (Some v) (Some b) lvl = Some (SOPC_STATUS_OK, Some b1) \<and>
    stream_of b1 = stream_put (enc env v) (stream_of b) \<and>
    SOPC_Buffer_SetPosition (Some b1) (position b) = (SOPC_STATUS_OK, Some b2) \<and>
    R env (Some ini) (Some b2) lvl = Some (SOPC_STATUS_OK, Some (dec env v), Some b3) \<and>
    stream_of b3 = stream_of b1"
proof -
  obtain b1 b2 rest where 1: "W env (Some v) (Some b) lvl = Some (SOPC_STATUS_OK, Some b1)"
    "stream_of b1 = stream_put (enc env v) (stream_of b)"
    "SOPC_Buffer_SetPosition (Some b1) (position b) = (SOPC_STATUS_OK, Some b2)"
    "buf_wf b2" "unat (buf_length b2) \<le> 2 ^ 31" "stream_rest (stream_of b2) = enc env v @ rest"
    "stream_of (buf_advance (length (enc env v)) b2) = stream_of b1"
    using write_and_rewind [OF write_law [OF env v lvl] b room] by metis
  moreover have "R env (Some ini) (Some b2) lvl =
      Some (SOPC_STATUS_OK, Some (dec env v), Some (buf_advance (length (enc env v)) b2))"
    using readsD [OF read_law [OF env v lvl] 1(4-6)] by simp
  ultimately show ?thesis by blast
qed

lemma write_loop_law:
  assumes "mem_total env" "\<forall>v\<in>set vs. ok env v" "lvl + depth \<le> max_level env"
  shows "writes_upto errs (\<lambda>b. Write_Array_loop (W env) vs (length vs) b lvl) (concat (map (enc env) vs))"
  using assms(2)
proof (induction vs)
  case Nil
  then show ?case
    by (intro writes_uptoI) (auto elim!: buf_wfE simp: not_less)
next
  case (Cons v vs)
  then show ?case
    using writes_seq [OF write_law [OF assms(1) _ assms(3), of v] Cons.IH] by simp
qed

lemma write_array_law:
  assumes "mem_total env" "\<forall>v\<in>set vs. ok env v" "lvl + depth + 1 \<le> max_level env"
    "length vs < 2 ^ 31"
  shows "writes_upto errs (\<lambda>b. SOPC_Write_Array env b (Some (of_nat (length vs))) (Some (Some vs)) (Some (W env)) lvl)
    (le_bytes 4 (length vs) @ concat (map (enc env) vs))"
proof -
  let ?n = "of_nat (length vs) :: i32"
  have un: "unat ?n = length vs" using assms(4) by (intro unat_of_nat_u32) simp
  have sn: "sint ?n = int (length vs)"
    using un assms(4) by (simp add: sint_uint uint_nat signed_take_bit_int_eq_self)
  have l1: "lvl < max_level env" "lvl + 1 < max_level env" using assms(3) depth_pos by linarith+
  have int: "writes_upto errs (\<lambda>b. SOPC_Int32_Write env (Some ?n) b (lvl + 1)) (le_bytes 4 (length vs))"
    unfolding SOPC_Int32_Write_def
    by (rule writes_guard)
      (use l1 writes_upto_mono [OF writes_word [OF assms(1), of 4 ?n] errs_full] un in simp_all)
  have loop: "writes_upto errs (\<lambda>b. Write_Array_loop (W env) vs (length vs) b (lvl + 1)) (concat (map (enc env) vs))"
    using write_loop_law [OF assms(1,2), of "lvl + 1"] assms(3) by simp
  show ?thesis
  proof (cases "vs = []")
    case True
    with int l1(1) show ?thesis
      by (subst writes_cong [of _ "\<lambda>b. SOPC_Int32_Write env (Some ?n) b (lvl + 1)"])
        (simp_all add: SOPC_Write_Array_def)
  next
    case False
    then have "writes_upto errs (\<lambda>b. and_then (SOPC_Int32_Write env (Some ?n) b (lvl + 1))
        (\<lambda>b. Write_Array_loop (W env) vs (length vs) b (lvl + 1)))
        (le_bytes 4 (length vs) @ concat (map (enc env) vs))"
      by (intro writes_seq int loop)
    with False sn l1(1) show ?thesis
      by (subst writes_cong) (simp_all add: SOPC_Write_Array_def)
  qed
qed

lemma read_loop_law:
  assumes "mem_total env" "\<forall>v\<in>set vs. ok env v" "lvl + depth \<le> max_level env"
    and "buf_wf b" "unat (buf_length b) \<le> 2 ^ 31" "init zero = ini"
    and "stream_rest (stream_of b) = concat (map (enc env) vs) @ rest"
  shows "Read_Array_loop (R env) init (replicate (length vs) zero) (Some b) lvl =
    Some (SOPC_STATUS_OK, map (dec env) vs, Some (buf_advance (length (concat (map (enc env) vs))) b))"
  using assms(2,4,5,7)
proof (induction vs arbitrary: b)
  case Nil
  then show ?case by simp
next
  case (Cons v vs)
  have rest: "stream_rest (stream_of b) = enc env v @ concat (map (enc env) vs) @ rest"
    using Cons.prems by simp
  have "R env (Some ini) (Some b) lvl =
      Some (SOPC_STATUS_OK, Some (dec env v), Some (buf_advance (length (enc env v)) b))"
    using readsD [OF read_law [OF assms(1) _ assms(3)] Cons.prems(2,3) rest] Cons.prems(1) by simp
  moreover note Cons.IH [of "buf_advance (length (enc env v)) b"] stream_rest_split [OF Cons.prems(2) rest]
  ultimately show ?case
    using Cons.prems assms(6) by (simp add: buf_advance_advance)
qed

text \<open>An encoded array is decoded.\<close>

lemma read_array_law:
  assumes env: "mem_total env" and vs: "\<forall>v\<in>set vs. ok env v" and lvl: "lvl + depth + 1 \<le> max_level env"
    and len: "int (length vs) \<le> sint (max_array_length (enc_cfg env))"
    and sz: "0 < sizeOfElt" "length vs \<le> size_max env div sizeOfElt"
    and b: "buf_wf b" "unat (buf_length b) \<le> 2 ^ 31" and init: "init zero = ini"
    and rest: "stream_rest (stream_of b) = (le_bytes 4 (length vs) @ concat (map (enc env) vs)) @ rest"
  shows "SOPC_Read_Array env (Some b) (Some n0) (Some None) sizeOfElt (Some (R env)) init zero lvl =
    Some (SOPC_STATUS_OK, Some (of_nat (length vs)),
      Some (if vs = [] then None else Some (map (dec env) vs)),
      Some (buf_advance (4 + length (concat (map (enc env) vs))) b))"
proof -
  let ?n = "of_nat (length vs) :: i32"
  have small: "length vs < 2 ^ 31" using len sint_less [of "max_array_length (enc_cfg env)"] by simp
  have un: "unat ?n = length vs" using small by (intro unat_of_nat_u32) simp
  have sn: "sint ?n = int (length vs)"
    using un small by (simp add: sint_uint uint_nat signed_take_bit_int_eq_self)
  have l1: "lvl < max_level env" "lvl + 1 < max_level env" using lvl depth_pos by linarith+
  have rest': "stream_rest (stream_of b) = le_bytes 4 (length vs) @ concat (map (enc env) vs) @ rest"
    using rest by simp
  have "reads (\<lambda>(p, b). SOPC_Int32_Read env p b (lvl + 1)) n0 ?n (le_bytes 4 (unat ?n))"
    unfolding SOPC_Int32_Read_def by (rule reads_guard) (use l1 reads_word [of 4 n0 ?n] in simp_all)
  then have int: "SOPC_Int32_Read env (Some n0) (Some b) (lvl + 1) =
      Some (SOPC_STATUS_OK, Some ?n, Some (buf_advance 4 b))"
    using readsD [OF _ b] rest' un by fastforce
  note split = stream_rest_split [OF b(1) rest', simplified]
  have "Read_Array_loop (R env) init (replicate (length vs) zero) (Some (buf_advance 4 b)) (lvl + 1) =
      Some (SOPC_STATUS_OK, map (dec env) vs,
        Some (buf_advance (length (concat (map (enc env) vs))) (buf_advance 4 b)))"
    using read_loop_law [of env vs "lvl + 1" "buf_advance 4 b" init zero rest] env vs lvl b(2) init split(2,3)
    by simp
  then show ?thesis
    using int l1(1) sz env len un sn
    by (simp add: SOPC_Read_Array_def buf_advance_advance)
qed

end

text \<open>The other half of the contract: decoding whatever the buffer holds.\<close>

locale decoder =
  fixes R :: "enc_env \<Rightarrow> 'a reader" and ini :: 'a and good :: "enc_env \<Rightarrow> 'a \<Rightarrow> bool"
  assumes read_safe: "safe_read (\<lambda>(p, b). R env p b lvl) ini (good env)"
begin

lemma decode_safe:
  assumes "buf_wf b" "unat (buf_length b) \<le> 2 ^ 31"
  shows "\<exists>st v b'. R env (Some ini) (Some b) lvl = Some (st, Some v, Some b') \<and>
    buf_read_step b b' \<and> (st = SOPC_STATUS_OK \<longrightarrow> good env v)"
  using read_safe [of env lvl] assms by (simp add: safe_read_def)

lemma read_loop_safe:
  assumes "buf_wf b" "unat (buf_length b) \<le> 2 ^ 31" "init zero = ini"
  shows "\<exists>st es b'. Read_Array_loop (R env) init (replicate n zero) (Some b) lvl = Some (st, es, Some b') \<and>
    buf_read_step b b' \<and> (st = SOPC_STATUS_OK \<longrightarrow> length es = n \<and> (\<forall>e\<in>set es. good env e))"
  using assms(1,2)
proof (induction n arbitrary: b)
  case 0
  then show ?case by (simp add: buf_read_step_refl)
next
  case (Suc n)
  obtain st e b1 where 1: "R env (Some ini) (Some b) lvl = Some (st, Some e, Some b1)"
    "buf_read_step b b1" "st = SOPC_STATUS_OK \<longrightarrow> good env e"
    using decode_safe [OF Suc.prems] by blast
  then obtain st2 es b2
    where "Read_Array_loop (R env) init (replicate n zero) (Some b1) lvl = Some (st2, es, Some b2)"
    "buf_read_step b1 b2" "st2 = SOPC_STATUS_OK \<longrightarrow> length es = n \<and> (\<forall>e\<in>set es. good env e)"
    using Suc.IH [of b1] buf_read_step_wf [OF 1(2)] Suc.prems(2) by auto
  with 1 assms(3) buf_read_step_trans [OF 1(2)] show ?case by (cases "st = SOPC_STATUS_OK") auto
qed

text \<open>An array is decoded safely from an arbitrary buffer.\<close>

lemma read_array_safe:
  assumes "buf_wf b" "unat (buf_length b) \<le> 2 ^ 31" "init zero = ini"
  shows "\<exists>st n es b'. SOPC_Read_Array env (Some b) (Some n0) (Some None) sizeOfElt (Some (R env)) init zero lvl =
      Some (st, Some n, Some es, Some b') \<and> buf_read_step b b' \<and>
      (st = SOPC_STATUS_OK \<longrightarrow> 0 \<le> sint n \<and> int (length (case es of None \<Rightarrow> [] | Some l \<Rightarrow> l)) = sint n \<and>
        (0 < sint n \<longrightarrow> sint n \<le> sint (max_array_length (enc_cfg env))) \<and>
        (\<forall>l\<in>set_option es. \<forall>e\<in>set l. good env e))"
proof -
  have "safe_read (\<lambda>(p, b). SOPC_Int32_Read env p b (lvl + 1)) n0 (\<lambda>_. True)"
    unfolding SOPC_Int32_Read_def by (intro safe_read_guard safe_read_word) simp
  then obtain st n b1
    where 1: "SOPC_Int32_Read env (Some n0) (Some b) (lvl + 1) = Some (st, Some n, Some b1)"
    "buf_read_step b b1"
    using assms unfolding safe_read_def by fastforce
  define m where "m = (if sint n < 0 then 0 else n)"
  have m0: "0 \<le> sint m" by (simp add: m_def)
  obtain st2 es b2
    where 2: "Read_Array_loop (R env) init (replicate (unat m) zero) (Some b1) (lvl + 1) = Some (st2, es, Some b2)"
    "buf_read_step b1 b2" "st2 = SOPC_STATUS_OK \<longrightarrow> length es = unat m \<and> (\<forall>e\<in>set es. good env e)"
    using read_loop_safe [of b1 init zero env "unat m" "lvl + 1"] buf_read_step_wf [OF 1(2)] assms by auto
  have um: "0 < sint m \<Longrightarrow> int (unat m) = sint m" using sint_pos_unat [of m] by linarith
  show ?thesis
  proof (cases "sizeOfElt = 0 \<or> lvl \<ge> max_level env \<or> st \<noteq> SOPC_STATUS_OK")
    case True
    then show ?thesis
      using 1 assms(1) buf_read_step_refl by (auto simp: SOPC_Read_Array_def enc_guard_def)
  next
    case False
    then have eq: "SOPC_Read_Array env (Some b) (Some n0) (Some None) sizeOfElt (Some (R env)) init zero lvl =
        (if sint m > sint (max_array_length (enc_cfg env))
         then Some (SOPC_STATUS_OUT_OF_MEMORY, Some m, Some None, Some b1)
         else if 0 < sint m \<and> unat m \<le> size_max env div sizeOfElt then
           (if mem_ok env (unat m * sizeOfElt) then
              (if st2 \<noteq> SOPC_STATUS_OK then Some (st2, Some 0, Some None, Some b2)
               else Some (st2, Some m, Some (Some es), Some b2))
            else Some (SOPC_STATUS_NOK, Some m, Some None, Some b1))
         else if 0 < sint m then Some (SOPC_STATUS_OUT_OF_MEMORY, Some m, Some None, Some b1)
         else Some (SOPC_STATUS_OK, Some m, Some None, Some b1))"
      using 1 2(1) by (simp add: SOPC_Read_Array_def m_def [symmetric] del: replicate.simps)
    show ?thesis
      unfolding eq using 1(2) 2(2,3) m0 um buf_read_step_trans [OF 1(2) 2(2)] by auto
  qed
qed

end

locale codec_upto = codec_core W R enc ok ini dec depth errs + decoder R ini good
  for W R enc ok ini dec good depth errs

text \<open>The types whose writers only answer the usual statuses when the buffer is full.\<close>

locale codec = codec_upto W R enc ok ini dec good depth full_statuses for W R enc ok ini dec good depth

section \<open>Integers\<close>

text \<open>A function that only writes, or reads, the memory of an integer.\<close>

lemma word_codec:
  fixes W :: "enc_env \<Rightarrow> ('w::len) word writer" and R :: "enc_env \<Rightarrow> 'w word reader"
  assumes W: "\<And>env p b lvl. W env p b lvl =
      enc_guard env (p = None \<or> b = None) lvl b (do { v \<leftarrow> p; write_word env n v b })"
    and R: "\<And>env p b lvl. R env p b lvl =
      enc_guard env (p = None \<or> b = None) lvl (p, b) (do { v \<leftarrow> p; read_word n v b })"
    and len: "LENGTH('w) = 8 * n" "n < 2 ^ 31"
  shows "codec W R (\<lambda>_ v. le_bytes n (unat v)) (\<lambda>_ _. True) ini (\<lambda>_ v. v) (\<lambda>_ _. True) 1"
proof
  fix env :: enc_env and v and lvl
  assume env: "mem_total env" and lvl: "lvl + 1 \<le> max_level env"
  show "writes (\<lambda>b. W env (Some v) b lvl) (le_bytes n (unat v))"
    unfolding W by (rule writes_guard) (use lvl writes_word [OF env len(2)] in simp_all)
  show "reads (\<lambda>(p, b). R env p b lvl) ini v (le_bytes n (unat v))"
    unfolding R by (rule reads_guard) (use lvl reads_word [OF len] in simp_all)
next
  fix env lvl
  show "safe_read (\<lambda>(p, b). R env p b lvl) ini (\<lambda>_. True)"
    unfolding R by (intro safe_read_guard safe_read_word len)
qed simp_all

interpretation byte_c: codec SOPC_Byte_Write SOPC_Byte_Read
  "\<lambda>_ v. le_bytes 1 (unat v)" "\<lambda>_ _. True" ini "\<lambda>_ v. v" "\<lambda>_ _. True" 1 for ini
  by (rule word_codec) (simp_all add: SOPC_Byte_Write_def SOPC_Byte_Read_def)

interpretation sbyte_c: codec SOPC_SByte_Write SOPC_SByte_Read
  "\<lambda>_ v. le_bytes 1 (unat v)" "\<lambda>_ _. True" ini "\<lambda>_ v. v" "\<lambda>_ _. True" 1 for ini
  by (rule word_codec) (simp_all add: SOPC_SByte_Write_def SOPC_SByte_Read_def)

interpretation int16_c: codec SOPC_Int16_Write SOPC_Int16_Read
  "\<lambda>_ v. le_bytes 2 (unat v)" "\<lambda>_ _. True" ini "\<lambda>_ v. v" "\<lambda>_ _. True" 1 for ini
  by (rule word_codec) (simp_all add: SOPC_Int16_Write_def SOPC_Int16_Read_def)

interpretation uint16_c: codec SOPC_UInt16_Write SOPC_UInt16_Read
  "\<lambda>_ v. le_bytes 2 (unat v)" "\<lambda>_ _. True" ini "\<lambda>_ v. v" "\<lambda>_ _. True" 1 for ini
  by (rule word_codec) (simp_all add: SOPC_UInt16_Write_def SOPC_UInt16_Read_def)

interpretation int32_c: codec SOPC_Int32_Write SOPC_Int32_Read
  "\<lambda>_ v. le_bytes 4 (unat v)" "\<lambda>_ _. True" ini "\<lambda>_ v. v" "\<lambda>_ _. True" 1 for ini
  by (rule word_codec) (simp_all add: SOPC_Int32_Write_def SOPC_Int32_Read_def)

interpretation uint32_c: codec SOPC_UInt32_Write SOPC_UInt32_Read
  "\<lambda>_ v. le_bytes 4 (unat v)" "\<lambda>_ _. True" ini "\<lambda>_ v. v" "\<lambda>_ _. True" 1 for ini
  by (rule word_codec) (simp_all add: SOPC_UInt32_Write_def SOPC_UInt32_Read_def)

interpretation int64_c: codec SOPC_Int64_Write SOPC_Int64_Read
  "\<lambda>_ v. le_bytes 8 (unat v)" "\<lambda>_ _. True" ini "\<lambda>_ v. v" "\<lambda>_ _. True" 1 for ini
  by (rule word_codec) (simp_all add: SOPC_Int64_Write_def SOPC_Int64_Read_def)

interpretation uint64_c: codec SOPC_UInt64_Write SOPC_UInt64_Read
  "\<lambda>_ v. le_bytes 8 (unat v)" "\<lambda>_ _. True" ini "\<lambda>_ v. v" "\<lambda>_ _. True" 1 for ini
  by (rule word_codec) (simp_all add: SOPC_UInt64_Write_def SOPC_UInt64_Read_def)

interpretation status_c: codec SOPC_StatusCode_Write SOPC_StatusCode_Read
  "\<lambda>_ v. le_bytes 4 (unat v)" "\<lambda>_ _. True" ini "\<lambda>_ v. v" "\<lambda>_ _. True" 1 for ini
  by (rule word_codec)
    (simp_all add: SOPC_StatusCode_Write_def SOPC_StatusCode_Read_def SOPC_UInt32_Write_def SOPC_UInt32_Read_def)

end
