(* ===== verification/Encoder_Types.thy ===== *)
theory Encoder_Types
  imports Codec Builtin_Types
begin

unbundle bit_operations_syntax

text \<open>
  The OPC UA binary encoder of \<open>src/Common/opcua_types/sopc_encoder.c\<close>, second part: strings, byte
  strings, XML elements, GUIDs, node identifiers, expanded node identifiers, qualified names,
  localized texts and (recursive) diagnostic informations. This theory holds the operations; the laws
  are in the theory \<open>Encoder_Laws\<close>.
\<close>

section \<open>Structures\<close>

record SOPC_ExpandedNodeId =
  Exp_NodeId :: SOPC_NodeId
  Exp_NamespaceUri :: SOPC_String
  Exp_ServerIndex :: u32

record SOPC_QualifiedName =
  QN_NamespaceIndex :: u16
  QN_Name :: SOPC_String

text \<open>The list of further locales is neither encoded nor decoded.\<close>

record SOPC_LocalizedText =
  LT_defaultLocale :: SOPC_String
  LT_defaultText :: SOPC_String

datatype SOPC_DiagnosticInfo =
  DiagnosticInfo (DI_SymbolicId: i32) (DI_NamespaceUri: i32) (DI_Locale: i32) (DI_LocalizedText: i32)
    (DI_AdditionalInfo: SOPC_String) (DI_InnerStatusCode: u32)
    (DI_InnerDiagnosticInfo: "SOPC_DiagnosticInfo option")

definition expnodeid_init :: SOPC_ExpandedNodeId where
  "expnodeid_init = \<lparr>Exp_NodeId = nodeid_zero, Exp_NamespaceUri = str_init, Exp_ServerIndex = 0\<rparr>"

definition qname_init :: SOPC_QualifiedName where
  "qname_init = \<lparr>QN_NamespaceIndex = 0, QN_Name = str_init\<rparr>"

definition ltext_init :: SOPC_LocalizedText where
  "ltext_init = \<lparr>LT_defaultLocale = str_init, LT_defaultText = str_init\<rparr>"

definition diag_init :: SOPC_DiagnosticInfo where
  "diag_init = DiagnosticInfo (-1) (-1) (-1) (-1) str_init 0 None"

text \<open>Reading a member of a structure in place.\<close>

definition on_field ::
  "('a \<Rightarrow> 'f) \<Rightarrow> ('f \<Rightarrow> 'a \<Rightarrow> 'a) \<Rightarrow>
   ('f option \<Rightarrow> bufp \<Rightarrow> (SOPC_ReturnStatus \<times> 'f option \<times> bufp) option) \<Rightarrow>
   'a option \<times> bufp \<Rightarrow> (SOPC_ReturnStatus \<times> 'a option \<times> bufp) option" where
  "on_field get put R = (\<lambda>(p, b). do {
     v \<leftarrow> p;
     (st, q, b) \<leftarrow> R (Some (get v)) b;
     w \<leftarrow> q;
     Some (st, Some (put w v), b) })"

section \<open>Strings\<close>

definition string_length_field :: "SOPC_String \<Rightarrow> i32" where
  "string_length_field s = (if 0 < sint (Str_Length s) then Str_Length s else -1)"

definition SOPC_ByteString_Write :: "enc_env \<Rightarrow> SOPC_ByteString writer" where
  "SOPC_ByteString_Write env str buf lvl =
     enc_guard env (str = None \<or> buf = None) lvl buf
       (do {
          s \<leftarrow> str;
          and_when
            (on_error (SOPC_Int32_Write env (Some (string_length_field s)) buf (lvl + 1)) write_status)
            (0 < sint (Str_Length s))
            (\<lambda>buf. on_error (SOPC_Buffer_Write env buf (Str_Data s) (Str_Length s)) write_status) })"

text \<open>
  The local variable \<open>length\<close> is only used when reading it succeeded; it starts as 0 here. The guards
  with \<open>SIZE_MAX\<close> hold, as for the copies.
\<close>

definition SOPC_ByteString_Read :: "enc_env \<Rightarrow> SOPC_ByteString reader" where
  "SOPC_ByteString_Read env str buf lvl =
     enc_guard env
       (str = None \<or> (\<exists>s\<in>set_option str. Str_Data s \<noteq> None \<or> 0 < sint (Str_Length s)) \<or> buf = None)
       lvl (str, buf)
       (do {
          s \<leftarrow> str;
          (st, len, buf) \<leftarrow> SOPC_Int32_Read env (Some 0) buf (lvl + 1);
          len \<leftarrow> len;
          if st = SOPC_STATUS_OK then
            (if 0 < sint len then
               (if sint len \<le> sint (max_string_length (enc_cfg env)) then
                  (case SOPC_Malloc env (nat (sint len)) of
                     None \<Rightarrow> Some (SOPC_STATUS_OUT_OF_MEMORY,
                                   Some (s\<lparr>Str_Length := -1, Str_Data := None\<rparr>), buf)
                   | Some blk \<Rightarrow> do {
                       (st, d, buf) \<leftarrow> SOPC_Buffer_Read (Some blk) buf len;
                       if st \<noteq> SOPC_STATUS_OK then
                         Some (SOPC_STATUS_ENCODING_ERROR,
                               Some (s\<lparr>Str_Length := -1, Str_Data := None\<rparr>), buf)
                       else Some (st, Some (s\<lparr>Str_Length := len, Str_Data := d\<rparr>), buf) })
                else Some (SOPC_STATUS_OUT_OF_MEMORY, Some s, buf))
             else Some (st, Some (s\<lparr>Str_Length := -1\<rparr>), buf))
          else Some (st, Some s, buf) })"

definition SOPC_String_Write :: "enc_env \<Rightarrow> SOPC_String writer" where
  "SOPC_String_Write env str buf lvl =
     enc_guard env (str = None \<or> buf = None) lvl buf
       (do {
          s \<leftarrow> str;
          and_when (SOPC_Int32_Write env (Some (string_length_field s)) buf (lvl + 1))
            (0 < sint (Str_Length s))
            (\<lambda>buf. on_error (SOPC_Buffer_Write env buf (Str_Data s) (Str_Length s)) write_status) })"

text \<open>
  The size of the block, one byte more than the length, is computed without bound here; the source adds in
  \<open>int32_t\<close>, which differs for the length \<open>INT32_MAX\<close> only, where the allocation is asked for a negative size cast to
  \<open>size_t\<close> and fails. In the model that is a memory which refuses the block.
\<close>

definition SOPC_String_ReadWithLimitedLength ::
  "enc_env \<Rightarrow> SOPC_String option \<Rightarrow> i32 \<Rightarrow> bufp \<Rightarrow> nat \<Rightarrow>
   (SOPC_ReturnStatus \<times> SOPC_String option \<times> bufp) option" where
  "SOPC_String_ReadWithLimitedLength env str maxLength buf lvl =
     enc_guard env
       (str = None \<or> (\<exists>s\<in>set_option str. Str_Data s \<noteq> None \<or> 0 < sint (Str_Length s)) \<or> buf = None)
       lvl (str, buf)
       (do {
          s \<leftarrow> str;
          (st, len, buf) \<leftarrow> SOPC_Int32_Read env (Some 0) buf (lvl + 1);
          len \<leftarrow> len;
          if st = SOPC_STATUS_OK then
            (if 0 < sint len then
               (if sint len \<le> sint (max_string_length (enc_cfg env)) then
                  (if maxLength = 0 \<or> sint len \<le> sint maxLength then
                     (case SOPC_Malloc env (nat (sint len) + 1) of
                        None \<Rightarrow> Some (SOPC_STATUS_OUT_OF_MEMORY,
                                      Some (s\<lparr>Str_Length := -1, Str_Data := None\<rparr>), buf)
                      | Some blk \<Rightarrow> do {
                          (st, d, buf) \<leftarrow> SOPC_Buffer_Read (Some blk) buf len;
                          d \<leftarrow> d;
                          if st \<noteq> SOPC_STATUS_OK then
                            Some (SOPC_STATUS_ENCODING_ERROR,
                                  Some (s\<lparr>Str_Length := -1, Str_Data := None\<rparr>), buf)
                          else do {
                            d \<leftarrow> mem_write d (nat (sint len)) [0];
                            Some (st, Some (s\<lparr>Str_Length := len, Str_Data := Some d\<rparr>), buf) } })
                   else Some (SOPC_STATUS_WOULD_BLOCK, Some (s\<lparr>Str_Length := -1\<rparr>), buf))
                else Some (SOPC_STATUS_OUT_OF_MEMORY, Some s, buf))
             else Some (st, Some (s\<lparr>Str_Length := -1\<rparr>), buf))
          else Some (st, Some s, buf) })"

definition SOPC_String_Read :: "enc_env \<Rightarrow> SOPC_String reader" where
  "SOPC_String_Read env str buf lvl = SOPC_String_ReadWithLimitedLength env str 0 buf lvl"

definition SOPC_XmlElement_Write :: "enc_env \<Rightarrow> SOPC_XmlElement writer" where
  "SOPC_XmlElement_Write env xml buf lvl = SOPC_ByteString_Write env xml buf lvl"

definition SOPC_XmlElement_Read :: "enc_env \<Rightarrow> SOPC_XmlElement reader" where
  "SOPC_XmlElement_Read env xml buf lvl = SOPC_ByteString_Read env xml buf lvl"

section \<open>GUIDs\<close>

definition SOPC_Guid_Write :: "enc_env \<Rightarrow> SOPC_Guid writer" where
  "SOPC_Guid_Write env guid buf lvl =
     enc_guard env (guid = None \<or> buf = None) lvl buf
       (do {
          g \<leftarrow> guid;
          on_error
            (and_then
              (and_then
                (and_then (SOPC_UInt32_Write env (Some (Guid_Data1 g)) buf (lvl + 1))
                  (\<lambda>buf. SOPC_UInt16_Write env (Some (Guid_Data2 g)) buf (lvl + 1)))
                (\<lambda>buf. SOPC_UInt16_Write env (Some (Guid_Data3 g)) buf (lvl + 1)))
              (\<lambda>buf. SOPC_Buffer_Write env buf (Some (Guid_Data4 g)) 8))
            write_status })"

text \<open>Only the three first members are cleared after a failure.\<close>

definition SOPC_Guid_Read :: "enc_env \<Rightarrow> SOPC_Guid reader" where
  "SOPC_Guid_Read env guid buf lvl =
     enc_guard env (guid = None \<or> buf = None) lvl (guid, buf)
       (on_error
         (and_then
           (and_then
             (and_then
               (on_field Guid_Data1 (\<lambda>v. Guid_Data1_update (\<lambda>_. v))
                  (\<lambda>p b. SOPC_UInt32_Read env p b (lvl + 1)) (guid, buf))
               (on_field Guid_Data2 (\<lambda>v. Guid_Data2_update (\<lambda>_. v))
                  (\<lambda>p b. SOPC_UInt16_Read env p b (lvl + 1))))
             (on_field Guid_Data3 (\<lambda>v. Guid_Data3_update (\<lambda>_. v))
                (\<lambda>p b. SOPC_UInt16_Read env p b (lvl + 1))))
           (on_field Guid_Data4 (\<lambda>v. Guid_Data4_update (\<lambda>_. v))
              (\<lambda>p b. SOPC_Buffer_Read p b 8)))
         (\<lambda>st (p, b). (SOPC_STATUS_ENCODING_ERROR,
            map_option (\<lambda>g. g\<lparr>Guid_Data1 := 0, Guid_Data2 := 0, Guid_Data3 := 0\<rparr>) p, b)))"

section \<open>Node identifiers\<close>

definition SOPC_NodeIdEncoding_TwoBytes :: byte where "SOPC_NodeIdEncoding_TwoBytes = 0"
definition SOPC_NodeIdEncoding_FourBytes :: byte where "SOPC_NodeIdEncoding_FourBytes = 1"
definition SOPC_NodeIdEncoding_Numeric :: byte where "SOPC_NodeIdEncoding_Numeric = 2"
definition SOPC_NodeIdEncoding_String :: byte where "SOPC_NodeIdEncoding_String = 3"
definition SOPC_NodeIdEncoding_Guid :: byte where "SOPC_NodeIdEncoding_Guid = 4"
definition SOPC_NodeIdEncoding_ByteString :: byte where "SOPC_NodeIdEncoding_ByteString = 5"
definition SOPC_NodeIdEncoding_NamespaceUriFlag :: byte where "SOPC_NodeIdEncoding_NamespaceUriFlag = 0x80"
definition SOPC_NodeIdEncoding_ServerIndexFlag :: byte where "SOPC_NodeIdEncoding_ServerIndexFlag = 0x40"
definition SOPC_NodeIdEncoding_Invalid :: byte where "SOPC_NodeIdEncoding_Invalid = 0xFF"

lemmas NodeIdEncoding_defs =
  SOPC_NodeIdEncoding_TwoBytes_def SOPC_NodeIdEncoding_FourBytes_def SOPC_NodeIdEncoding_Numeric_def
  SOPC_NodeIdEncoding_String_def SOPC_NodeIdEncoding_Guid_def SOPC_NodeIdEncoding_ByteString_def
  SOPC_NodeIdEncoding_NamespaceUriFlag_def SOPC_NodeIdEncoding_ServerIndexFlag_def
  SOPC_NodeIdEncoding_Invalid_def

definition GetNodeIdDataEncoding :: "SOPC_NodeId \<Rightarrow> byte option" where
  "GetNodeIdDataEncoding nodeId =
     (case NodeId_IdentifierType nodeId of
        SOPC_IdentifierType_Numeric \<Rightarrow> do {
          v \<leftarrow> union_Numeric (NodeId_Data nodeId);
          Some (if NodeId_Namespace nodeId = 0 \<and> v \<le> 255 then SOPC_NodeIdEncoding_TwoBytes
                else if NodeId_Namespace nodeId \<le> 255 \<and> v \<le> 65535 then SOPC_NodeIdEncoding_FourBytes
                else SOPC_NodeIdEncoding_Numeric) }
      | SOPC_IdentifierType_String \<Rightarrow> Some SOPC_NodeIdEncoding_String
      | SOPC_IdentifierType_Guid \<Rightarrow> Some SOPC_NodeIdEncoding_Guid
      | SOPC_IdentifierType_ByteString \<Rightarrow> Some SOPC_NodeIdEncoding_ByteString)"

text \<open>The \<open>switch\<close> on the encoding type, and the function around it.\<close>

definition NodeId_Write_switch ::
  "enc_env \<Rightarrow> byte \<Rightarrow> SOPC_NodeId \<Rightarrow> nat \<Rightarrow> bufp \<Rightarrow> (SOPC_ReturnStatus \<times> bufp) option" where
  "NodeId_Write_switch env encodingType nodeId lvl buf =
     (let data = NodeId_Data nodeId;
          write_ns = (\<lambda>buf. SOPC_UInt16_Write env (Some (NodeId_Namespace nodeId)) buf lvl)
      in if encodingType = SOPC_NodeIdEncoding_Invalid then Some (SOPC_STATUS_INVALID_PARAMETERS, buf)
         else if encodingType = SOPC_NodeIdEncoding_TwoBytes then do {
           v \<leftarrow> union_Numeric data;
           if NodeId_Namespace nodeId = 0 \<and> v \<le> 255 then SOPC_Byte_Write env (Some (ucast v)) buf lvl
           else None }
         else if encodingType = SOPC_NodeIdEncoding_FourBytes then do {
           v \<leftarrow> union_Numeric data;
           if NodeId_Namespace nodeId \<le> 255 \<and> v \<le> 65535 then
             and_then (SOPC_Byte_Write env (Some (ucast (NodeId_Namespace nodeId))) buf lvl)
               (\<lambda>buf. SOPC_UInt16_Write env (Some (ucast v)) buf lvl)
           else None }
         else if encodingType = SOPC_NodeIdEncoding_Numeric then
           and_then (write_ns buf)
             (\<lambda>buf. do { v \<leftarrow> union_Numeric data; SOPC_UInt32_Write env (Some v) buf lvl })
         else if encodingType = SOPC_NodeIdEncoding_String then
           and_then (write_ns buf)
             (\<lambda>buf. do { s \<leftarrow> union_String data; SOPC_String_Write env (Some s) buf lvl })
         else if encodingType = SOPC_NodeIdEncoding_Guid then
           and_then (write_ns buf)
             (\<lambda>buf. do { g \<leftarrow> union_Guid data; SOPC_Guid_Write env g buf lvl })
         else if encodingType = SOPC_NodeIdEncoding_ByteString then
           and_then (write_ns buf)
             (\<lambda>buf. do { s \<leftarrow> union_String data; SOPC_ByteString_Write env (Some s) buf lvl })
         else Some (SOPC_STATUS_INVALID_PARAMETERS, buf))"

definition Internal_NodeId_Write ::
  "enc_env \<Rightarrow> bufp \<Rightarrow> byte \<Rightarrow> SOPC_NodeId \<Rightarrow> nat \<Rightarrow> (SOPC_ReturnStatus \<times> bufp) option" where
  "Internal_NodeId_Write env buf encodingByte nodeId lvl =
     and_then (SOPC_Byte_Write env (Some encodingByte) buf lvl)
       (NodeId_Write_switch env (0x0F AND encodingByte) nodeId lvl)"

definition SOPC_NodeId_Write :: "enc_env \<Rightarrow> SOPC_NodeId writer" where
  "SOPC_NodeId_Write env nodeId buf lvl =
     enc_guard env (nodeId = None) lvl buf
       (do { n \<leftarrow> nodeId; e \<leftarrow> GetNodeIdDataEncoding n; Internal_NodeId_Write env buf e n (lvl + 1) })"

text \<open>Reading a member of the union in place, and the namespace followed by such a member.\<close>

definition on_member ::
  "(SOPC_NodeId_Data \<Rightarrow> 'f option) \<Rightarrow> ('f \<Rightarrow> SOPC_NodeId_Data) \<Rightarrow>
   ('f option \<Rightarrow> bufp \<Rightarrow> (SOPC_ReturnStatus \<times> 'f option \<times> bufp) option) \<Rightarrow>
   SOPC_NodeId option \<times> bufp \<Rightarrow> (SOPC_ReturnStatus \<times> SOPC_NodeId option \<times> bufp) option" where
  "on_member get put R = (\<lambda>(p, b). do {
     n \<leftarrow> p;
     x \<leftarrow> get (NodeId_Data n);
     (st, y, b) \<leftarrow> R (Some x) b;
     y \<leftarrow> y;
     Some (st, Some (n\<lparr>NodeId_Data := put y\<rparr>), b) })"

definition NodeId_Read_Namespace ::
  "enc_env \<Rightarrow> nat \<Rightarrow> SOPC_IdentifierType \<Rightarrow> SOPC_NodeId option \<Rightarrow> bufp \<Rightarrow>
   (SOPC_ReturnStatus \<times> SOPC_NodeId option \<times> bufp) option" where
  "NodeId_Read_Namespace env lvl ty p buf =
     on_field NodeId_Namespace (\<lambda>v. NodeId_Namespace_update (\<lambda>_. v))
       (\<lambda>p b. SOPC_UInt16_Read env p b lvl)
       (map_option (\<lambda>n. n\<lparr>NodeId_IdentifierType := ty\<rparr>) p, buf)"

text \<open>A GUID is read into fresh memory, released when that fails.\<close>

definition NodeId_Read_Guid ::
  "enc_env \<Rightarrow> nat \<Rightarrow> SOPC_NodeId option \<times> bufp \<Rightarrow>
   (SOPC_ReturnStatus \<times> SOPC_NodeId option \<times> bufp) option" where
  "NodeId_Read_Guid env lvl = (\<lambda>(p, buf). do {
     n \<leftarrow> p;
     if \<not> mem_ok env 16 then Some (SOPC_STATUS_NOK, Some (n\<lparr>NodeId_Data := Id_Guid None\<rparr>), buf)
     else do {
       (st, g, buf) \<leftarrow> SOPC_Guid_Read env (Some guid_zero) buf lvl;
       Some (st, Some (n\<lparr>NodeId_Data := Id_Guid (if st = SOPC_STATUS_OK then g else None)\<rparr>), buf) } })"

definition NodeId_Read_switch ::
  "enc_env \<Rightarrow> byte \<Rightarrow> nat \<Rightarrow> SOPC_NodeId option \<Rightarrow> bufp \<Rightarrow>
   (SOPC_ReturnStatus \<times> SOPC_NodeId option \<times> bufp) option" where
  "NodeId_Read_switch env encodingType lvl p buf =
     (if encodingType = SOPC_NodeIdEncoding_Invalid then Some (SOPC_STATUS_ENCODING_ERROR, p, buf)
      else if encodingType = SOPC_NodeIdEncoding_TwoBytes then do {
        n \<leftarrow> p;
        (st, v, buf) \<leftarrow> SOPC_Byte_Read env (Some 0) buf lvl;
        v \<leftarrow> v;
        Some (st, Some (n\<lparr>NodeId_IdentifierType := SOPC_IdentifierType_Numeric, NodeId_Namespace := 0,
                          NodeId_Data := Id_Numeric (ucast v)\<rparr>), buf) }
      else if encodingType = SOPC_NodeIdEncoding_FourBytes then do {
        n \<leftarrow> p;
        (st, ns, buf) \<leftarrow> SOPC_Byte_Read env (Some 0) buf lvl;
        ns \<leftarrow> ns;
        let n = n\<lparr>NodeId_IdentifierType := SOPC_IdentifierType_Numeric, NodeId_Namespace := ucast ns\<rparr>
        in if st = SOPC_STATUS_OK then do {
             (st, v, buf) \<leftarrow> SOPC_UInt16_Read env (Some 0) buf lvl;
             v \<leftarrow> v;
             Some (st, Some (n\<lparr>NodeId_Data := Id_Numeric (ucast v)\<rparr>), buf) }
           else Some (st, Some n, buf) }
      else if encodingType = SOPC_NodeIdEncoding_Numeric then
        and_then (NodeId_Read_Namespace env lvl SOPC_IdentifierType_Numeric p buf)
          (on_member union_Numeric Id_Numeric (\<lambda>p b. SOPC_UInt32_Read env p b lvl))
      else if encodingType = SOPC_NodeIdEncoding_String then
        and_then (NodeId_Read_Namespace env lvl SOPC_IdentifierType_String p buf)
          (on_member union_String Id_String (\<lambda>p b. SOPC_String_Read env p b lvl))
      else if encodingType = SOPC_NodeIdEncoding_Guid then
        and_then (NodeId_Read_Namespace env lvl SOPC_IdentifierType_Guid p buf)
          (NodeId_Read_Guid env lvl)
      else if encodingType = SOPC_NodeIdEncoding_ByteString then
        and_then (NodeId_Read_Namespace env lvl SOPC_IdentifierType_ByteString p buf)
          (on_member union_String Id_Bstring (\<lambda>p b. SOPC_ByteString_Read env p b lvl))
      else Some (SOPC_STATUS_INVALID_PARAMETERS, p, buf))"

definition Internal_NodeId_Read ::
  "enc_env \<Rightarrow> bufp \<Rightarrow> SOPC_NodeId \<Rightarrow> byte \<Rightarrow> nat \<Rightarrow>
   (SOPC_ReturnStatus \<times> (SOPC_NodeId \<times> byte) \<times> bufp) option" where
  "Internal_NodeId_Read env buf nodeId encodingByte lvl =
     (if lvl \<ge> max_level env then Some (SOPC_STATUS_INVALID_STATE, (nodeId, encodingByte), buf)
      else do {
        (st, e, buf) \<leftarrow> SOPC_Byte_Read env (Some encodingByte) buf lvl;
        e \<leftarrow> e;
        if st = SOPC_STATUS_OK then do {
          (st, p, buf) \<leftarrow> NodeId_Read_switch env (0x0F AND e) lvl (Some nodeId) buf;
          n \<leftarrow> p;
          Some (st, (n, e), buf) }
        else Some (st, (nodeId, e), buf) })"

definition SOPC_NodeId_Read :: "enc_env \<Rightarrow> SOPC_NodeId reader" where
  "SOPC_NodeId_Read env nodeId buf lvl =
     enc_guard env (nodeId = None) lvl (nodeId, buf)
       (do {
          n \<leftarrow> nodeId;
          (st, (n, e), buf) \<leftarrow> Internal_NodeId_Read env buf n 0 (lvl + 1);
          Some (st, Some n, buf) })"

definition ExpandedNodeId_EncodingByte :: "SOPC_ExpandedNodeId \<Rightarrow> byte option" where
  "ExpandedNodeId_EncodingByte x = do {
     e \<leftarrow> GetNodeIdDataEncoding (Exp_NodeId x);
     let e = (if 0 < sint (Str_Length (Exp_NamespaceUri x))
              then e OR SOPC_NodeIdEncoding_NamespaceUriFlag else e);
         e = (if Exp_ServerIndex x > 0 then e OR SOPC_NodeIdEncoding_ServerIndexFlag else e)
     in Some e }"

definition SOPC_ExpandedNodeId_Write :: "enc_env \<Rightarrow> SOPC_ExpandedNodeId writer" where
  "SOPC_ExpandedNodeId_Write env expNodeId buf lvl =
     enc_guard env (expNodeId = None) lvl buf
       (do {
          x \<leftarrow> expNodeId;
          e \<leftarrow> ExpandedNodeId_EncodingByte x;
          and_when
            (and_when (Internal_NodeId_Write env buf e (Exp_NodeId x) (lvl + 1))
              (0 < sint (Str_Length (Exp_NamespaceUri x)))
              (\<lambda>buf. SOPC_String_Write env (Some (Exp_NamespaceUri x)) buf (lvl + 1)))
            (Exp_ServerIndex x > 0)
            (\<lambda>buf. SOPC_UInt32_Write env (Some (Exp_ServerIndex x)) buf (lvl + 1)) })"

definition SOPC_ExpandedNodeId_Read :: "enc_env \<Rightarrow> SOPC_ExpandedNodeId reader" where
  "SOPC_ExpandedNodeId_Read env expNodeId buf lvl =
     enc_guard env (expNodeId = None) lvl (expNodeId, buf)
       (do {
          x \<leftarrow> expNodeId;
          (st, (n, e), buf) \<leftarrow> Internal_NodeId_Read env buf (Exp_NodeId x) 0 (lvl + 1);
          on_error
            (and_when
              (and_when (Some (st, Some (x\<lparr>Exp_NodeId := n\<rparr>), buf))
                (e AND SOPC_NodeIdEncoding_NamespaceUriFlag \<noteq> 0)
                (on_field Exp_NamespaceUri (\<lambda>v. Exp_NamespaceUri_update (\<lambda>_. v))
                   (\<lambda>p b. SOPC_String_Read env p b (lvl + 1))))
              (e AND SOPC_NodeIdEncoding_ServerIndexFlag \<noteq> 0)
              (on_field Exp_ServerIndex (\<lambda>v. Exp_ServerIndex_update (\<lambda>_. v))
                 (\<lambda>p b. SOPC_UInt32_Read env p b (lvl + 1))))
            (\<lambda>st (p, b). (st,
               map_option (\<lambda>x. x\<lparr>Exp_NodeId := the (SOPC_NodeId_Clear (Some (Exp_NodeId x))),
                                 Exp_NamespaceUri := str_init\<rparr>) p, b)) })"

section \<open>Diagnostic informations\<close>

definition SOPC_DiagInfoEncoding_SymbolicId :: byte where "SOPC_DiagInfoEncoding_SymbolicId = 0x01"
definition SOPC_DiagInfoEncoding_Namespace :: byte where "SOPC_DiagInfoEncoding_Namespace = 0x02"
definition SOPC_DiagInfoEncoding_LocalizedTest :: byte where "SOPC_DiagInfoEncoding_LocalizedTest = 0x04"
definition SOPC_DiagInfoEncoding_Locale :: byte where "SOPC_DiagInfoEncoding_Locale = 0x08"
definition SOPC_DiagInfoEncoding_AdditionalInfo :: byte where "SOPC_DiagInfoEncoding_AdditionalInfo = 0x10"
definition SOPC_DiagInfoEncoding_InnerStatusCode :: byte where "SOPC_DiagInfoEncoding_InnerStatusCode = 0x20"
definition SOPC_DiagInfoEncoding_InnerDianosticInfo :: byte where "SOPC_DiagInfoEncoding_InnerDianosticInfo = 0x40"

lemmas DiagInfoEncoding_defs =
  SOPC_DiagInfoEncoding_SymbolicId_def SOPC_DiagInfoEncoding_Namespace_def
  SOPC_DiagInfoEncoding_LocalizedTest_def SOPC_DiagInfoEncoding_Locale_def
  SOPC_DiagInfoEncoding_AdditionalInfo_def SOPC_DiagInfoEncoding_InnerStatusCode_def
  SOPC_DiagInfoEncoding_InnerDianosticInfo_def

definition GetDiagInfoEncodingByte :: "SOPC_DiagnosticInfo \<Rightarrow> byte" where
  "GetDiagInfoEncodingByte d =
     (let e = 0;
          e = (if sint (DI_SymbolicId d) > -1 then e OR SOPC_DiagInfoEncoding_SymbolicId else e);
          e = (if sint (DI_NamespaceUri d) > -1 then e OR SOPC_DiagInfoEncoding_Namespace else e);
          e = (if sint (DI_Locale d) > -1 then e OR SOPC_DiagInfoEncoding_Locale else e);
          e = (if sint (DI_LocalizedText d) > -1 then e OR SOPC_DiagInfoEncoding_LocalizedTest else e);
          e = (if 0 < sint (Str_Length (DI_AdditionalInfo d))
               then e OR SOPC_DiagInfoEncoding_AdditionalInfo else e);
          e = (if DI_InnerStatusCode d > 0 then e OR SOPC_DiagInfoEncoding_InnerStatusCode else e);
          e = (if DI_InnerDiagnosticInfo d \<noteq> None
               then e OR SOPC_DiagInfoEncoding_InnerDianosticInfo else e)
      in e)"

text \<open>
  The members other than the inner diagnostic information, written in the order of the wire format
  at structure level 0; then the inner one, one diagnostic level deeper. The diagnostic level is a
  natural number: it is incremented from a value that is at most \<open>max_nested_diag_info\<close>, whose
  largest 32-bit value is excluded here.
\<close>

definition DiagnosticInfo_Write_Members ::
  "enc_env \<Rightarrow> byte \<Rightarrow> SOPC_DiagnosticInfo \<Rightarrow> bufp \<Rightarrow> (SOPC_ReturnStatus \<times> bufp) option" where
  "DiagnosticInfo_Write_Members env e d buf =
     and_when
      (and_when
       (and_when
        (and_when
         (and_when
          (and_when (SOPC_Byte_Write env (Some e) buf 0)
            (e AND SOPC_DiagInfoEncoding_SymbolicId \<noteq> 0)
            (\<lambda>buf. SOPC_Int32_Write env (Some (DI_SymbolicId d)) buf 0))
          (e AND SOPC_DiagInfoEncoding_Namespace \<noteq> 0)
          (\<lambda>buf. SOPC_Int32_Write env (Some (DI_NamespaceUri d)) buf 0))
         (e AND SOPC_DiagInfoEncoding_Locale \<noteq> 0)
         (\<lambda>buf. SOPC_Int32_Write env (Some (DI_Locale d)) buf 0))
        (e AND SOPC_DiagInfoEncoding_LocalizedTest \<noteq> 0)
        (\<lambda>buf. SOPC_Int32_Write env (Some (DI_LocalizedText d)) buf 0))
       (e AND SOPC_DiagInfoEncoding_AdditionalInfo \<noteq> 0)
       (\<lambda>buf. SOPC_String_Write env (Some (DI_AdditionalInfo d)) buf 0))
      (e AND SOPC_DiagInfoEncoding_InnerStatusCode \<noteq> 0)
      (\<lambda>buf. SOPC_StatusCode_Write env (Some (DI_InnerStatusCode d)) buf 0)"

function (sequential) SOPC_DiagnosticInfo_Write_Internal ::
  "enc_env \<Rightarrow> SOPC_DiagnosticInfo option \<Rightarrow> bufp \<Rightarrow> nat \<Rightarrow> (SOPC_ReturnStatus \<times> bufp) option" where
  "SOPC_DiagnosticInfo_Write_Internal env None buf nestedLevel =
     Some (SOPC_STATUS_INVALID_PARAMETERS, buf)"
| "SOPC_DiagnosticInfo_Write_Internal env (Some d) buf nestedLevel =
     (let e = GetDiagInfoEncodingByte d
      in and_when (DiagnosticInfo_Write_Members env e d buf)
           (e AND SOPC_DiagInfoEncoding_InnerDianosticInfo \<noteq> 0)
           (\<lambda>buf. if nestedLevel + 1 > unat (max_nested_diag_info (enc_cfg env)) then
                     Some (SOPC_STATUS_ENCODING_ERROR, buf)
                   else SOPC_DiagnosticInfo_Write_Internal env (DI_InnerDiagnosticInfo d) buf (nestedLevel + 1)))"
  by pat_completeness auto

termination
proof (relation "measure (\<lambda>(env, p, buf, l). case p of None \<Rightarrow> 0 | Some d \<Rightarrow> Suc (size d))", goal_cases)
  case (2 env d buf l e x)
  then show ?case by (cases d) (auto split: option.splits)
qed simp

definition SOPC_DiagnosticInfo_Write :: "enc_env \<Rightarrow> SOPC_DiagnosticInfo writer" where
  "SOPC_DiagnosticInfo_Write env diagInfo buf lvl =
     enc_guard env False lvl buf (SOPC_DiagnosticInfo_Write_Internal env diagInfo buf 0)"

definition put_SymbolicId :: "i32 \<Rightarrow> SOPC_DiagnosticInfo \<Rightarrow> SOPC_DiagnosticInfo" where
  "put_SymbolicId v d = (case d of DiagnosticInfo a b c e f g h \<Rightarrow> DiagnosticInfo v b c e f g h)"

definition put_NamespaceUri :: "i32 \<Rightarrow> SOPC_DiagnosticInfo \<Rightarrow> SOPC_DiagnosticInfo" where
  "put_NamespaceUri v d = (case d of DiagnosticInfo a b c e f g h \<Rightarrow> DiagnosticInfo a v c e f g h)"

definition put_Locale :: "i32 \<Rightarrow> SOPC_DiagnosticInfo \<Rightarrow> SOPC_DiagnosticInfo" where
  "put_Locale v d = (case d of DiagnosticInfo a b c e f g h \<Rightarrow> DiagnosticInfo a b v e f g h)"

definition put_LocalizedText :: "i32 \<Rightarrow> SOPC_DiagnosticInfo \<Rightarrow> SOPC_DiagnosticInfo" where
  "put_LocalizedText v d = (case d of DiagnosticInfo a b c e f g h \<Rightarrow> DiagnosticInfo a b c v f g h)"

definition put_AdditionalInfo :: "SOPC_String \<Rightarrow> SOPC_DiagnosticInfo \<Rightarrow> SOPC_DiagnosticInfo" where
  "put_AdditionalInfo v d = (case d of DiagnosticInfo a b c e f g h \<Rightarrow> DiagnosticInfo a b c e v g h)"

definition put_InnerStatusCode :: "u32 \<Rightarrow> SOPC_DiagnosticInfo \<Rightarrow> SOPC_DiagnosticInfo" where
  "put_InnerStatusCode v d = (case d of DiagnosticInfo a b c e f g h \<Rightarrow> DiagnosticInfo a b c e f v h)"

definition put_InnerDiagnosticInfo ::
  "SOPC_DiagnosticInfo option \<Rightarrow> SOPC_DiagnosticInfo \<Rightarrow> SOPC_DiagnosticInfo" where
  "put_InnerDiagnosticInfo v d = (case d of DiagnosticInfo a b c e f g h \<Rightarrow> DiagnosticInfo a b c e f g v)"

lemmas put_diag_defs =
  put_SymbolicId_def put_NamespaceUri_def put_Locale_def put_LocalizedText_def
  put_AdditionalInfo_def put_InnerStatusCode_def put_InnerDiagnosticInfo_def

definition DiagnosticInfo_Read_Members ::
  "enc_env \<Rightarrow> byte \<Rightarrow> SOPC_DiagnosticInfo option \<Rightarrow> bufp \<Rightarrow>
   (SOPC_ReturnStatus \<times> SOPC_DiagnosticInfo option \<times> bufp) option" where
  "DiagnosticInfo_Read_Members env e p buf =
     and_when
      (and_when
       (and_when
        (and_when
         (and_when
          (and_when (Some (SOPC_STATUS_OK, p, buf))
            (e AND SOPC_DiagInfoEncoding_SymbolicId \<noteq> 0)
            (on_field DI_SymbolicId put_SymbolicId (\<lambda>p b. SOPC_Int32_Read env p b 0)))
          (e AND SOPC_DiagInfoEncoding_Namespace \<noteq> 0)
          (on_field DI_NamespaceUri put_NamespaceUri (\<lambda>p b. SOPC_Int32_Read env p b 0)))
         (e AND SOPC_DiagInfoEncoding_Locale \<noteq> 0)
         (on_field DI_Locale put_Locale (\<lambda>p b. SOPC_Int32_Read env p b 0)))
        (e AND SOPC_DiagInfoEncoding_LocalizedTest \<noteq> 0)
        (on_field DI_LocalizedText put_LocalizedText (\<lambda>p b. SOPC_Int32_Read env p b 0)))
       (e AND SOPC_DiagInfoEncoding_AdditionalInfo \<noteq> 0)
       (on_field DI_AdditionalInfo put_AdditionalInfo (\<lambda>p b. SOPC_String_Read env p b 0)))
      (e AND SOPC_DiagInfoEncoding_InnerStatusCode \<noteq> 0)
      (on_field DI_InnerStatusCode put_InnerStatusCode (\<lambda>p b. SOPC_StatusCode_Read env p b 0))"

text \<open>
  What is left in the structure after a failure: zeros, which are not the initial values of the
  first four members.
\<close>

definition DiagnosticInfo_Read_Failed :: "SOPC_DiagnosticInfo \<Rightarrow> SOPC_DiagnosticInfo" where
  "DiagnosticInfo_Read_Failed d = DiagnosticInfo 0 0 0 0 str_init 0 (DI_InnerDiagnosticInfo d)"

definition sizeof_SOPC_DiagnosticInfo :: nat where
  "sizeof_SOPC_DiagnosticInfo = 56"

function (sequential) SOPC_DiagnosticInfo_Read_Internal ::
  "enc_env \<Rightarrow> SOPC_DiagnosticInfo option \<Rightarrow> bufp \<Rightarrow> nat \<Rightarrow>
   (SOPC_ReturnStatus \<times> SOPC_DiagnosticInfo option \<times> bufp) option" where
  "SOPC_DiagnosticInfo_Read_Internal env None buf nestedLevel =
     Some (SOPC_STATUS_INVALID_PARAMETERS, None, buf)"
| "SOPC_DiagnosticInfo_Read_Internal env (Some d) buf nestedLevel = do {
     (st, e, buf) \<leftarrow> SOPC_Byte_Read env (Some 0) buf 0;
     e \<leftarrow> e;
     on_error
       (and_when (and_then (Some (st, Some d, buf)) (\<lambda>(p, buf). DiagnosticInfo_Read_Members env e p buf))
         (e AND SOPC_DiagInfoEncoding_InnerDianosticInfo \<noteq> 0)
         (\<lambda>(p, buf). do {
            d \<leftarrow> p;
            if nestedLevel + 1 > unat (max_nested_diag_info (enc_cfg env)) then
              Some (SOPC_STATUS_OUT_OF_MEMORY, Some d, buf)
            else if \<not> mem_ok env sizeof_SOPC_DiagnosticInfo then
              Some (SOPC_STATUS_OUT_OF_MEMORY, Some (put_InnerDiagnosticInfo None d), buf)
            else do {
              (st, inner, buf) \<leftarrow> SOPC_DiagnosticInfo_Read_Internal env (Some diag_init) buf (nestedLevel + 1);
              Some (st,
                Some (put_InnerDiagnosticInfo (if st = SOPC_STATUS_OK then inner else None) d), buf) } }))
       (\<lambda>st (p, b). (st, map_option DiagnosticInfo_Read_Failed p, b)) }"
  by pat_completeness auto

termination
  by (relation "measure (\<lambda>(env, p, buf, l). Suc (unat (max_nested_diag_info (enc_cfg env))) - l)") auto

definition SOPC_DiagnosticInfo_Read :: "enc_env \<Rightarrow> SOPC_DiagnosticInfo reader" where
  "SOPC_DiagnosticInfo_Read env diagInfo buf lvl =
     enc_guard env False lvl (diagInfo, buf) (SOPC_DiagnosticInfo_Read_Internal env diagInfo buf 0)"

section \<open>Qualified names and localized texts\<close>

definition SOPC_QualifiedName_Write :: "enc_env \<Rightarrow> SOPC_QualifiedName writer" where
  "SOPC_QualifiedName_Write env qname buf lvl =
     enc_guard env (qname = None) lvl buf
       (do {
          q \<leftarrow> qname;
          and_then (SOPC_UInt16_Write env (Some (QN_NamespaceIndex q)) buf (lvl + 1))
            (\<lambda>buf. SOPC_String_Write env (Some (QN_Name q)) buf (lvl + 1)) })"

definition SOPC_QualifiedName_Read :: "enc_env \<Rightarrow> SOPC_QualifiedName reader" where
  "SOPC_QualifiedName_Read env qname buf lvl =
     enc_guard env (qname = None) lvl (qname, buf)
       (on_error
         (and_then
           (on_field QN_NamespaceIndex (\<lambda>v. QN_NamespaceIndex_update (\<lambda>_. v))
              (\<lambda>p b. SOPC_UInt16_Read env p b (lvl + 1)) (qname, buf))
           (on_field QN_Name (\<lambda>v. QN_Name_update (\<lambda>_. v))
              (\<lambda>p b. SOPC_String_Read env p b (lvl + 1))))
         (\<lambda>st (p, b). (st, map_option (\<lambda>q. q\<lparr>QN_NamespaceIndex := 0\<rparr>) p, b)))"

definition SOPC_LocalizedText_Locale :: byte where "SOPC_LocalizedText_Locale = 0x01"
definition SOPC_LocalizedText_Text :: byte where "SOPC_LocalizedText_Text = 0x02"

definition GetLocalizedTextEncodingByte :: "SOPC_LocalizedText \<Rightarrow> byte" where
  "GetLocalizedTextEncodingByte t =
     (let e = 0;
          e = (if 0 < sint (Str_Length (LT_defaultLocale t)) then e OR SOPC_LocalizedText_Locale else e);
          e = (if 0 < sint (Str_Length (LT_defaultText t)) then e OR SOPC_LocalizedText_Text else e)
      in e)"

definition SOPC_LocalizedText_Write :: "enc_env \<Rightarrow> SOPC_LocalizedText writer" where
  "SOPC_LocalizedText_Write env localizedText buf lvl =
     enc_guard env (localizedText = None) lvl buf
       (do {
          t \<leftarrow> localizedText;
          let e = GetLocalizedTextEncodingByte t
          in and_when
               (and_when (SOPC_Byte_Write env (Some e) buf (lvl + 1))
                 (e AND SOPC_LocalizedText_Locale \<noteq> 0)
                 (\<lambda>buf. SOPC_String_Write env (Some (LT_defaultLocale t)) buf (lvl + 1)))
               (e AND SOPC_LocalizedText_Text \<noteq> 0)
               (\<lambda>buf. SOPC_String_Write env (Some (LT_defaultText t)) buf (lvl + 1)) })"

definition SOPC_LocalizedText_Read :: "enc_env \<Rightarrow> SOPC_LocalizedText reader" where
  "SOPC_LocalizedText_Read env localizedText buf lvl =
     enc_guard env (localizedText = None) lvl (localizedText, buf)
       (do {
          (st, e, buf) \<leftarrow> SOPC_Byte_Read env (Some 0) buf (lvl + 1);
          e \<leftarrow> e;
          on_error
            (and_when
              (and_when (Some (st, localizedText, buf))
                (e AND SOPC_LocalizedText_Locale \<noteq> 0)
                (on_field LT_defaultLocale (\<lambda>v. LT_defaultLocale_update (\<lambda>_. v))
                   (\<lambda>p b. SOPC_String_Read env p b (lvl + 1))))
              (e AND SOPC_LocalizedText_Text \<noteq> 0)
              (on_field LT_defaultText (\<lambda>v. LT_defaultText_update (\<lambda>_. v))
                 (\<lambda>p b. SOPC_String_Read env p b (lvl + 1))))
            (\<lambda>st (p, b). (st, map_option (\<lambda>t. t\<lparr>LT_defaultLocale := str_init\<rparr>) p, b)) })"

end
