(* ===== verification/Encoder_Laws.thy ===== *)
theory Encoder_Laws
  imports Encoder_Types
begin

unbundle bit_operations_syntax

text \<open>
  The laws of the encoder: for each built-in type the byte string of a value, the values that can be
  decoded under the configured limits, what is known of a decoded value, and the interpretation of the
  locale \<open>codec\<close>, whose proof shows that writer and reader agree on that byte string and that the
  reader is safe on every input.
\<close>

section \<open>Composition rules\<close>

text \<open>The rules for sequences, with the state given as a pair.\<close>

lemma reads_seq2:
  "reads (\<lambda>(p, b). A p b) s s1 xs \<Longrightarrow> reads B s1 s2 ys \<Longrightarrow>
    reads (\<lambda>(p, b). and_then (A p b) B) s s2 (xs @ ys)"
  using reads_seq [of "\<lambda>(p, b). A p b" s s1 xs B s2 ys] by (simp add: case_prod_unfold)

lemma reads_when2:
  "reads (\<lambda>(p, b). A p b) s s1 xs \<Longrightarrow> (c \<Longrightarrow> reads B s1 s2 ys) \<Longrightarrow> (\<not> c \<Longrightarrow> s2 = s1) \<Longrightarrow>
    reads (\<lambda>(p, b). and_when (A p b) c B) s s2 (xs @ (if c then ys else []))"
  using reads_when [of "\<lambda>(p, b). A p b" s s1 xs c B s2 ys] by (simp add: case_prod_unfold)

lemma reads_on_error2:
  "reads (\<lambda>(p, b). A p b) s s' bs \<Longrightarrow> reads (\<lambda>(p, b). on_error (A p b) h) s s' bs"
  using reads_on_error [of "\<lambda>(p, b). A p b" s s' bs h] by (simp add: case_prod_unfold)

lemma reads_field:
  "reads (\<lambda>(p, b). R p b) (get s) w bs \<Longrightarrow> s' = put w s \<Longrightarrow> reads (on_field get put R) s s' bs"
  by (simp add: reads_def on_field_def)

lemma reads_field2:
  "reads (\<lambda>(p, b). R p b) (get s) w bs \<Longrightarrow> s' = put w s \<Longrightarrow>
    reads (\<lambda>(p, b). on_field get put R (p, b)) s s' bs"
  by (simp add: reads_def on_field_def)

lemma safe_seq2:
  "safe_read (\<lambda>(p, b). A p b) s Q \<Longrightarrow> (\<And>s1. Q s1 \<Longrightarrow> safe_read B s1 Q') \<Longrightarrow>
    safe_read (\<lambda>(p, b). and_then (A p b) B) s Q'"
  using safe_read_seq [of "\<lambda>(p, b). A p b" s Q B Q'] by (simp add: case_prod_unfold)

lemma safe_when2:
  "safe_read (\<lambda>(p, b). A p b) s Q \<Longrightarrow> (\<And>s1. Q s1 \<Longrightarrow> c \<Longrightarrow> safe_read B s1 Q') \<Longrightarrow>
    (\<And>s1. Q s1 \<Longrightarrow> \<not> c \<Longrightarrow> Q' s1) \<Longrightarrow> safe_read (\<lambda>(p, b). and_when (A p b) c B) s Q'"
  using safe_read_when [of "\<lambda>(p, b). A p b" s Q c B Q'] by (simp add: case_prod_unfold)

lemma safe_on_error2:
  assumes "safe_read (\<lambda>(p, b). A p b) s Q"
    and "\<And>st v bp. st \<noteq> SOPC_STATUS_OK \<Longrightarrow>
      \<exists>st' v'. h st (Some v, bp) = (st', Some v', bp) \<and> st' \<noteq> SOPC_STATUS_OK"
  shows "safe_read (\<lambda>(p, b). on_error (A p b) h) s Q"
  unfolding safe_read_def
proof (intro allI impI)
  fix b assume "buf_wf b" "unat (buf_length b) \<le> 2 ^ 31"
  then obtain st s1 b1 where 1: "A (Some s) (Some b) = Some (st, Some s1, Some b1)" "buf_read_step b b1"
    "st = SOPC_STATUS_OK \<longrightarrow> Q s1"
    using assms(1) unfolding safe_read_def by force
  then show "\<exists>st s' b'. (\<lambda>(p, b). on_error (A p b) h) (Some s, Some b) = Some (st, Some s', Some b') \<and>
      buf_read_step b b' \<and> (st = SOPC_STATUS_OK \<longrightarrow> Q s')"
    using assms(2) [of st s1 "Some b1"] by (cases "st = SOPC_STATUS_OK") auto
qed

lemma safe_field:
  assumes "safe_read (\<lambda>(p, b). R p b) (get s) Q" "\<And>w. Q w \<Longrightarrow> Q' (put w s)"
  shows "safe_read (on_field get put R) s Q'"
  unfolding safe_read_def
proof (intro allI impI)
  fix b assume "buf_wf b" "unat (buf_length b) \<le> 2 ^ 31"
  then obtain st w b1 where "R (Some (get s)) (Some b) = Some (st, Some w, Some b1)" "buf_read_step b b1"
    "st = SOPC_STATUS_OK \<longrightarrow> Q w"
    using assms(1) unfolding safe_read_def by force
  with assms(2) show "\<exists>st s' b'. on_field get put R (Some s, Some b) = Some (st, Some s', Some b') \<and>
      buf_read_step b b' \<and> (st = SOPC_STATUS_OK \<longrightarrow> Q' s')"
    by (simp add: on_field_def)
qed

lemma safe_field2:
  assumes "safe_read (\<lambda>(p, b). R p b) (get s) Q" "\<And>w. Q w \<Longrightarrow> Q' (put w s)"
  shows "safe_read (\<lambda>(p, b). on_field get put R (p, b)) s Q'"
  using safe_field [of R get s Q Q' put] assms by simp

lemma writes_on_error:
  assumes "writes A bs"
  shows "writes (\<lambda>b. on_error (A b) write_status) bs"
proof (rule writesI)
  fix b assume b: "buf_wf b" "unat (maximum_size b) \<le> 2 ^ 31"
  { assume "unat (position b) + length bs \<le> unat (maximum_size b)"
    then show "\<exists>b'. on_error (A (Some b)) write_status = Some (SOPC_STATUS_OK, Some b') \<and> buf_wf b' \<and>
        stream_of b' = stream_put bs (stream_of b)"
      using writes_ok [OF assms b] by (metis on_error_OK) }
  { assume "unat (maximum_size b) < unat (position b) + length bs"
    then obtain st b' where "A (Some b) = Some (st, Some b')" "buf_wf b'"
      "st \<noteq> SOPC_STATUS_OK" "maximum_size b' = maximum_size b"
      using writes_full [OF assms b] by metis
    then show "\<exists>st b'. on_error (A (Some b)) write_status = Some (st, Some b') \<and>
        st \<in> {SOPC_STATUS_WOULD_BLOCK, SOPC_STATUS_ENCODING_ERROR} \<and> buf_wf b' \<and>
        maximum_size b' = maximum_size b"
      by (auto simp: write_status_def) }
qed

lemma reads_bindD:
  "reads (\<lambda>(p, b). A p b) s s' bs \<Longrightarrow> buf_wf b \<Longrightarrow> unat (buf_length b) \<le> 2 ^ 31 \<Longrightarrow>
    stream_rest (stream_of b) = bs @ rest \<Longrightarrow>
    A (Some s) (Some b) = Some (SOPC_STATUS_OK, Some s', Some (buf_advance (length bs) b))"
  by (drule readsD) simp_all

lemma safe_readE:
  assumes "safe_read (\<lambda>(p, b). A p b) s Q" "buf_wf b" "unat (buf_length b) \<le> 2 ^ 31"
  obtains st s' b' where "A (Some s) (Some b) = Some (st, Some s', Some b')" "buf_read_step b b'"
    "buf_wf b'" "unat (buf_length b') \<le> 2 ^ 31" "st = SOPC_STATUS_OK \<Longrightarrow> Q s'"
proof -
  obtain st s' b' where "A (Some s) (Some b) = Some (st, Some s', Some b')" "buf_read_step b b'"
    "st = SOPC_STATUS_OK \<longrightarrow> Q s'"
    using assms unfolding safe_read_def by fastforce
  with that buf_read_step_wf [of b b'] assms(3) show thesis by metis
qed

section \<open>Booleans, floating point numbers, dates\<close>

lemma reads_map: "reads (\<lambda>(p, b). Some (SOPC_STATUS_OK, map_option f p, b)) s (f s) []"
  by (simp add: reads_def)

interpretation boolean_c: codec SOPC_Boolean_Write SOPC_Boolean_Read
  "\<lambda>_ v. le_bytes 1 (unat (if v = 0 then v else 1))" "\<lambda>_ _. True" ini
  "\<lambda>_ v. if v = 0 then 0 else 1" "\<lambda>_ v. v = 0 \<or> v = 1" 2 for ini
proof
  fix env :: enc_env and v :: byte and lvl
  assume env: "mem_total env" and lvl: "lvl + 2 \<le> max_level env"
  let ?v = "if v = 0 then v else 1"
  show "writes (\<lambda>b. SOPC_Boolean_Write env (Some v) b lvl) (le_bytes 1 (unat ?v))"
    unfolding SOPC_Boolean_Write_def
    by (rule writes_guard) (use lvl byte_c.write_law [OF env, where v = ?v and lvl = "lvl + 1"] in simp_all)
  have "reads (\<lambda>(p, b). and_then (SOPC_Byte_Read env p b (lvl + 1))
      (\<lambda>(p, b). Some (SOPC_STATUS_OK, map_option (\<lambda>v. if v \<noteq> 0 then 1 else v) p, b)))
      ini (if ?v \<noteq> 0 then 1 else ?v) (le_bytes 1 (unat ?v) @ [])"
    by (rule reads_seq2 [OF byte_c.read_law reads_map]) (use env lvl in simp_all)
  then show "reads (\<lambda>(p, b). SOPC_Boolean_Read env p b lvl) ini (if v = 0 then 0 else 1) (le_bytes 1 (unat ?v))"
    unfolding SOPC_Boolean_Read_def
    by (intro reads_guard) (use lvl in \<open>simp_all split: if_splits\<close>)
next
  fix env lvl
  show "safe_read (\<lambda>(p, b). SOPC_Boolean_Read env p b lvl) ini (\<lambda>v. v = 0 \<or> v = 1)"
    unfolding SOPC_Boolean_Read_def
    by (intro safe_read_guard safe_seq2 [OF byte_c.read_safe])
      (simp add: safe_read_def buf_read_step_refl)
qed simp_all

lemma normalize_float_idem [simp]: "normalize_float env (normalize_float env v) = normalize_float env v"
  by (cases "fpclassify_float v"; cases "fpclassify_float (nanf_bits env)") (simp_all add: normalize_float_def)

lemma normalize_double_idem [simp]: "normalize_double env (normalize_double env v) = normalize_double env v"
  by (cases "fpclassify_double v"; cases "fpclassify_double (nan_bits env)") (simp_all add: normalize_double_def)

text \<open>A word that is normalised before it is written and after it is read.\<close>

lemma normalized_codec:
  fixes W :: "enc_env \<Rightarrow> ('w::len) word writer" and R :: "enc_env \<Rightarrow> 'w word reader"
  assumes W: "\<And>env p b lvl. W env p b lvl =
      enc_guard env (p = None \<or> b = None) lvl b (do { v \<leftarrow> p; write_word env n (f env v) b })"
    and R: "\<And>env p b lvl. R env p b lvl =
      enc_guard env (p = None \<or> b = None) lvl (p, b)
        (do { v \<leftarrow> p; (st, v, b) \<leftarrow> read_word n v b; Some (st, map_option (f env) v, b) })"
    and idem: "\<And>env v. f env (f env v) = f env v"
    and len: "LENGTH('w) = 8 * n" "n < 2 ^ 31"
  shows "codec W R (\<lambda>env v. le_bytes n (unat (f env v))) (\<lambda>_ _. True) ini f (\<lambda>env v. f env v = v) 1"
proof
  fix env :: enc_env and v and lvl
  assume env: "mem_total env" and lvl: "lvl + 1 \<le> max_level env"
  show "writes (\<lambda>b. W env (Some v) b lvl) (le_bytes n (unat (f env v)))"
    unfolding W by (rule writes_guard) (use lvl writes_word [OF env len(2)] in simp_all)
  have "reads (\<lambda>(p, b). do { v \<leftarrow> p; (st, v, b) \<leftarrow> read_word n v b; Some (st, map_option (f env) v, b) })
      ini (f env v) (le_bytes n (unat (f env v)))"
    unfolding reads_def
  proof (intro allI impI)
    fix b rest
    assume "buf_wf b" "unat (buf_length b) \<le> 2 ^ 31"
      "stream_rest (stream_of b) = le_bytes n (unat (f env v)) @ rest"
    from reads_bindD [OF reads_word [OF len] this, of ini]
    show "(\<lambda>(p, b). do { v \<leftarrow> p; (st, v, b) \<leftarrow> read_word n v b; Some (st, map_option (f env) v, b) })
        (Some ini, Some b) = Some (SOPC_STATUS_OK, Some (f env v),
          Some (buf_advance (length (le_bytes n (unat (f env v)))) b))"
      by (simp add: idem)
  qed
  then show "reads (\<lambda>(p, b). R env p b lvl) ini (f env v) (le_bytes n (unat (f env v)))"
    unfolding R by (intro reads_guard) (use lvl in simp_all)
next
  fix env lvl
  have "safe_read (\<lambda>(p, b). do { v \<leftarrow> p; (st, v, b) \<leftarrow> read_word n v b; Some (st, map_option (f env) v, b) })
      ini (\<lambda>v. f env v = v)"
    unfolding safe_read_def
  proof (intro allI impI)
    fix b assume b: "buf_wf b" "unat (buf_length b) \<le> 2 ^ 31"
    obtain st w b' where "read_word n ini (Some b) = Some (st, Some w, Some b')" "buf_read_step b b'"
      using safe_readE [OF safe_read_word [OF len(2), of ini] b] by (metis bind.bind_lunit)
    then show "\<exists>st s' b'. (\<lambda>(p, b). do { v \<leftarrow> p; (st, v, b) \<leftarrow> read_word n v b; Some (st, map_option (f env) v, b) })
        (Some ini, Some b) = Some (st, Some s', Some b') \<and> buf_read_step b b' \<and>
        (st = SOPC_STATUS_OK \<longrightarrow> f env s' = s')"
      by (simp add: idem)
  qed
  then show "safe_read (\<lambda>(p, b). R env p b lvl) ini (\<lambda>v. f env v = v)"
    unfolding R by (rule safe_read_guard)
qed simp_all

interpretation float_c: codec SOPC_Float_Write SOPC_Float_Read
  "\<lambda>env v. le_bytes 4 (unat (normalize_float env v))" "\<lambda>_ _. True" ini normalize_float
  "\<lambda>env v. normalize_float env v = v" 1 for ini
  by (rule normalized_codec) (simp_all add: SOPC_Float_Write_def SOPC_Float_Read_def)

interpretation double_c: codec SOPC_Double_Write SOPC_Double_Read
  "\<lambda>env v. le_bytes 8 (unat (normalize_double env v))" "\<lambda>_ _. True" ini normalize_double
  "\<lambda>env v. normalize_double env v = v" 1 for ini
  by (rule normalized_codec) (simp_all add: SOPC_Double_Write_def SOPC_Double_Read_def)

interpretation datetime_c: codec SOPC_DateTime_Write SOPC_DateTime_Read
  "\<lambda>_ v. le_bytes 8 (unat v)" "\<lambda>_ _. True" ini "\<lambda>_ v. v" "\<lambda>_ _. True" 2 for ini
proof
  fix env :: enc_env and v :: i64 and lvl
  assume env: "mem_total env" and lvl: "lvl + 2 \<le> max_level env"
  show "writes (\<lambda>b. SOPC_DateTime_Write env (Some v) b lvl) (le_bytes 8 (unat v))"
    unfolding SOPC_DateTime_Write_def
    by (rule writes_guard) (use lvl int64_c.write_law [OF env, where v = v and lvl = "lvl + 1"] in simp_all)
  show "reads (\<lambda>(p, b). SOPC_DateTime_Read env p b lvl) ini v (le_bytes 8 (unat v))"
    unfolding SOPC_DateTime_Read_def
    by (rule reads_guard) (use lvl int64_c.read_law [OF env, where v = v and lvl = "lvl + 1"] in simp_all)
next
  fix env lvl
  show "safe_read (\<lambda>(p, b). SOPC_DateTime_Read env p b lvl) ini (\<lambda>_. True)"
    unfolding SOPC_DateTime_Read_def by (intro safe_read_guard int64_c.read_safe)
qed simp_all

section \<open>Strings\<close>

text \<open>
  The encoding of a string: its length (-1 for an empty one) and its bytes. A decoded string is
  terminated by a zero byte outside of its length, a decoded byte string is not.
\<close>

definition enc_string :: "SOPC_String \<Rightarrow> byte list" where
  "enc_string s = le_bytes 4 (unat (string_length_field s)) @ str_bytes s"

definition string_ok :: "enc_env \<Rightarrow> SOPC_String \<Rightarrow> bool" where
  "string_ok env s \<longleftrightarrow> bytestring_wf s \<and> sint (Str_Length s) \<le> sint (max_string_length (enc_cfg env))"

definition dec_bytes :: "byte list \<Rightarrow> SOPC_String \<Rightarrow> SOPC_String" where
  "dec_bytes final s =
     (if 0 < sint (Str_Length s)
      then \<lparr>Str_Length = Str_Length s, Str_DoNotClear = False, Str_Data = Some (str_bytes s @ final)\<rparr>
      else str_init)"

definition decoded_bytes :: "nat \<Rightarrow> enc_env \<Rightarrow> SOPC_String \<Rightarrow> bool" where
  "decoded_bytes extra env s \<longleftrightarrow>
     s = str_init \<or>
     0 < sint (Str_Length s) \<and> sint (Str_Length s) \<le> sint (max_string_length (enc_cfg env)) \<and>
     \<not> Str_DoNotClear s \<and>
     (case Str_Data s of None \<Rightarrow> False
      | Some d \<Rightarrow> length d = nat (sint (Str_Length s)) + extra \<and>
                   drop (nat (sint (Str_Length s))) d = replicate extra 0)"

text \<open>What a string reader starts from: an initialised string, or one in zeroed memory.\<close>

definition string_start :: "SOPC_String \<Rightarrow> bool" where
  "string_start s \<longleftrightarrow> sint (Str_Length s) \<le> 0 \<and> \<not> Str_DoNotClear s \<and> Str_Data s = None"

lemma string_start_init [simp]: "string_start str_init"
  by (simp add: string_start_def str_init_def)

lemma string_start_neg: "string_start s \<Longrightarrow> s\<lparr>Str_Length := -1\<rparr> = str_init"
  by (cases s) (simp add: string_start_def str_init_def)

lemma sint_length_field: "0 < sint (string_length_field s) \<longleftrightarrow> 0 < sint (Str_Length s)"
  by (simp add: string_length_field_def)

lemma str_bytes_write:
  assumes "mem_total env" "bytestring_wf s" "0 < sint (Str_Length s)"
  shows "writes (\<lambda>b. on_error (SOPC_Buffer_Write env b (Str_Data s) (Str_Length s)) write_status) (str_bytes s)"
proof -
  obtain d where d: "Str_Data s = Some d" "nat (sint (Str_Length s)) \<le> length d"
    "str_bytes s = take (nat (sint (Str_Length s))) d"
    using bytestring_wfE [OF assms(2,3)] by metis
  have "nat (sint (Str_Length s)) < 2 ^ 31" using sint_less [of "Str_Length s"] by simp
  with d show ?thesis
    using writes_block [OF assms(1), of "Str_Length s" "str_bytes s" d] sint_pos_unat [OF assms(3)] by simp
qed

lemma string_writes:
  assumes "mem_total env" "bytestring_wf s" "lvl + 2 \<le> max_level env"
  shows "writes (\<lambda>b. SOPC_String_Write env (Some s) b lvl) (enc_string s)"
    "writes (\<lambda>b. SOPC_ByteString_Write env (Some s) b lvl) (enc_string s)"
proof -
  let ?len = "string_length_field s"
  have int: "writes (\<lambda>b. SOPC_Int32_Write env (Some ?len) b (lvl + 1)) (le_bytes 4 (unat ?len))"
    using assms by (intro int32_c.write_law) simp_all
  have eq: "enc_string s = le_bytes 4 (unat ?len) @ (if 0 < sint (Str_Length s) then str_bytes s else [])"
    by (simp add: enc_string_def str_bytes_def)
  show "writes (\<lambda>b. SOPC_String_Write env (Some s) b lvl) (enc_string s)"
    unfolding SOPC_String_Write_def eq
    by (rule writes_guard)
      (use assms writes_when [OF int str_bytes_write [OF assms(1,2)]] in simp_all)
  show "writes (\<lambda>b. SOPC_ByteString_Write env (Some s) b lvl) (enc_string s)"
    unfolding SOPC_ByteString_Write_def eq
    by (rule writes_guard)
      (use assms writes_when [OF writes_on_error [OF int] str_bytes_write [OF assms(1,2)]] in simp_all)
qed

text \<open>The two readers on a buffer that starts with an encoded string.\<close>

lemma string_read_length:
  assumes "mem_total env" "lvl + 2 \<le> max_level env" "buf_wf b" "unat (buf_length b) \<le> 2 ^ 31"
    and "stream_rest (stream_of b) = enc_string s @ rest"
  shows "SOPC_Int32_Read env (Some i) (Some b) (Suc lvl) =
      Some (SOPC_STATUS_OK, Some (string_length_field s), Some (buf_advance 4 b))"
    and "buf_wf (buf_advance 4 b)" "stream_rest (stream_of (buf_advance 4 b)) = str_bytes s @ rest"
proof -
  have r: "stream_rest (stream_of b) = le_bytes 4 (unat (string_length_field s)) @ str_bytes s @ rest"
    using assms(5) by (simp add: enc_string_def)
  show "SOPC_Int32_Read env (Some i) (Some b) (Suc lvl) =
      Some (SOPC_STATUS_OK, Some (string_length_field s), Some (buf_advance 4 b))"
    using reads_bindD [OF int32_c.read_law assms(3,4) r, of env "Suc lvl" i] assms(1,2) by simp
  show "buf_wf (buf_advance 4 b)" "stream_rest (stream_of (buf_advance 4 b)) = str_bytes s @ rest"
    using stream_rest_split [OF assms(3) r] by simp_all
qed

lemma string_reads:
  assumes env: "mem_total env" and ok: "string_ok env s" and lvl: "lvl + 2 \<le> max_level env"
    and s0: "string_start s0"
  shows "reads (\<lambda>(p, b). SOPC_String_Read env p b lvl) s0 (dec_bytes [0] s) (enc_string s)"
  unfolding reads_def
proof (intro allI impI)
  fix b rest
  assume b: "buf_wf b" "unat (buf_length b) \<le> 2 ^ 31" "stream_rest (stream_of b) = enc_string s @ rest"
  note len = string_read_length [OF env lvl b]
  let ?n = "nat (sint (Str_Length s))"
  have l: "lvl < max_level env" using lvl by simp
  show "(\<lambda>(p, b). SOPC_String_Read env p b lvl) (Some s0, Some b) =
      Some (SOPC_STATUS_OK, Some (dec_bytes [0] s), Some (buf_advance (length (enc_string s)) b))"
  proof (cases "0 < sint (Str_Length s)")
    case False
    then show ?thesis
      using len(1) l s0 string_start_neg [OF s0]
      by (simp add: SOPC_String_Read_def SOPC_String_ReadWithLimitedLength_def string_start_def
          string_length_field_def enc_string_def dec_bytes_def str_bytes_def)
  next
    case True
    have bl: "length (str_bytes s) = ?n" using ok by (simp add: string_ok_def length_str_bytes)
    obtain blk where blk: "SOPC_Malloc env (Suc ?n) = Some blk" "length blk = Suc ?n"
      using SOPC_Malloc_total [OF env] by metis
    have "unat (Str_Length s) = length (str_bytes s)" using bl sint_pos_unat [OF True] by simp
    then have "SOPC_Buffer_Read (Some blk) (Some (buf_advance 4 b)) (Str_Length s) =
        Some (SOPC_STATUS_OK, Some (str_bytes s @ drop ?n blk),
          Some (buf_advance (length (str_bytes s)) (buf_advance 4 b)))"
      using SOPC_Buffer_Read_ok [OF len(2), of "Str_Length s" blk] stream_rest_split(1) [OF len(2,3)]
        len(3) blk bl by simp
    moreover have "mem_write (str_bytes s @ drop ?n blk) ?n [0] = Some (str_bytes s @ [0])"
      using blk bl by (simp add: mem_write_def)
    ultimately show ?thesis
      using True len(1) l s0 blk ok
      by (cases s0) (simp add: SOPC_String_Read_def SOPC_String_ReadWithLimitedLength_def string_start_def
          string_length_field_def enc_string_def dec_bytes_def string_ok_def buf_advance_advance)
  qed
qed

lemma bytestring_reads:
  assumes env: "mem_total env" and ok: "string_ok env s" and lvl: "lvl + 2 \<le> max_level env"
    and s0: "string_start s0"
  shows "reads (\<lambda>(p, b). SOPC_ByteString_Read env p b lvl) s0 (dec_bytes [] s) (enc_string s)"
  unfolding reads_def
proof (intro allI impI)
  fix b rest
  assume b: "buf_wf b" "unat (buf_length b) \<le> 2 ^ 31" "stream_rest (stream_of b) = enc_string s @ rest"
  note len = string_read_length [OF env lvl b]
  let ?n = "nat (sint (Str_Length s))"
  have l: "lvl < max_level env" using lvl by simp
  show "(\<lambda>(p, b). SOPC_ByteString_Read env p b lvl) (Some s0, Some b) =
      Some (SOPC_STATUS_OK, Some (dec_bytes [] s), Some (buf_advance (length (enc_string s)) b))"
  proof (cases "0 < sint (Str_Length s)")
    case False
    then show ?thesis
      using len(1) l s0 string_start_neg [OF s0]
      by (simp add: SOPC_ByteString_Read_def string_start_def
          string_length_field_def enc_string_def dec_bytes_def str_bytes_def)
  next
    case True
    have bl: "length (str_bytes s) = ?n" using ok by (simp add: string_ok_def length_str_bytes)
    obtain blk where blk: "SOPC_Malloc env ?n = Some blk" "length blk = ?n"
      using SOPC_Malloc_total [OF env] by metis
    have "unat (Str_Length s) = length (str_bytes s)" using bl sint_pos_unat [OF True] by simp
    then have "SOPC_Buffer_Read (Some blk) (Some (buf_advance 4 b)) (Str_Length s) =
        Some (SOPC_STATUS_OK, Some (str_bytes s), Some (buf_advance (length (str_bytes s)) (buf_advance 4 b)))"
      using reads_block [OF len(2,3)] blk bl by simp
    then show ?thesis
      using True len(1) l s0 blk ok
      by (cases s0) (simp add: SOPC_ByteString_Read_def string_start_def
          string_length_field_def enc_string_def dec_bytes_def string_ok_def buf_advance_advance)
  qed
qed

lemma string_safe:
  assumes s0: "string_start s0"
  shows "safe_read (\<lambda>(p, b). SOPC_String_Read env p b lvl) s0 (decoded_bytes 1 env)"
  unfolding SOPC_String_Read_def SOPC_String_ReadWithLimitedLength_def
proof (rule safe_read_guard, unfold safe_read_def, intro allI impI, goal_cases)
  case (1 b)
  obtain st len b1
    where len: "SOPC_Int32_Read env (Some 0) (Some b) (Suc lvl) = Some (st, Some len, Some b1)"
    "buf_read_step b b1" "buf_wf b1" "unat (buf_length b1) \<le> 2 ^ 31"
    using safe_readE [OF int32_c.read_safe 1] by metis
  let ?n = "nat (sint len)"
  show ?case
  proof (cases "st = SOPC_STATUS_OK \<and> 0 < sint len \<and>
      sint len \<le> sint (max_string_length (enc_cfg env)) \<and> SOPC_Malloc env (Suc ?n) \<noteq> None")
    case False
    then show ?thesis
      using len s0 string_start_neg [OF s0]
      by (auto simp: decoded_bytes_def split: option.splits)
  next
    case True
    then obtain blk where blk: "SOPC_Malloc env (Suc ?n) = Some blk" "length blk = Suc ?n"
      by (auto simp: SOPC_Malloc_def split: if_splits)
    have un: "unat len = ?n" "?n < 2 ^ 31"
      using True sint_pos_unat [of len] sint_less [of len] by auto
    obtain st2 d b2
      where rd: "SOPC_Buffer_Read (Some blk) (Some b1) len = Some (st2, Some d, Some b2)"
      "buf_read_step b1 b2" "length d = Suc ?n"
      using safe_block [OF len(3,4), of len blk] un blk by (metis le_SucI order_refl)
    have "mem_write d ?n [0] = Some (take ?n d @ [0])"
      using rd(3) by (simp add: mem_write_def)
    with True blk rd len(1) s0 show ?thesis
      using buf_read_step_trans [OF len(2) rd(2)]
      by (cases "st2 = SOPC_STATUS_OK") (auto simp: decoded_bytes_def string_start_def)
  qed
qed

lemma bytestring_safe:
  assumes s0: "string_start s0"
  shows "safe_read (\<lambda>(p, b). SOPC_ByteString_Read env p b lvl) s0 (decoded_bytes 0 env)"
  unfolding SOPC_ByteString_Read_def
proof (rule safe_read_guard, unfold safe_read_def, intro allI impI, goal_cases)
  case (1 b)
  obtain st len b1
    where len: "SOPC_Int32_Read env (Some 0) (Some b) (Suc lvl) = Some (st, Some len, Some b1)"
    "buf_read_step b b1" "buf_wf b1" "unat (buf_length b1) \<le> 2 ^ 31"
    using safe_readE [OF int32_c.read_safe 1] by metis
  let ?n = "nat (sint len)"
  show ?case
  proof (cases "st = SOPC_STATUS_OK \<and> 0 < sint len \<and>
      sint len \<le> sint (max_string_length (enc_cfg env)) \<and> SOPC_Malloc env ?n \<noteq> None")
    case False
    then show ?thesis
      using len s0 string_start_neg [OF s0]
      by (auto simp: decoded_bytes_def split: option.splits)
  next
    case True
    then obtain blk where blk: "SOPC_Malloc env ?n = Some blk" "length blk = ?n"
      by (auto simp: SOPC_Malloc_def split: if_splits)
    have un: "unat len = ?n" "?n < 2 ^ 31"
      using True sint_pos_unat [of len] sint_less [of len] by auto
    obtain st2 d b2
      where rd: "SOPC_Buffer_Read (Some blk) (Some b1) len = Some (st2, Some d, Some b2)"
      "buf_read_step b1 b2" "length d = ?n"
      using safe_block [OF len(3,4), of len blk] un blk by (metis order_refl)
    with True blk len(1) s0 show ?thesis
      using buf_read_step_trans [OF len(2) rd(2)]
      by (cases "st2 = SOPC_STATUS_OK") (auto simp: decoded_bytes_def string_start_def)
  qed
qed

interpretation string_c: codec SOPC_String_Write SOPC_String_Read
  "\<lambda>_. enc_string" string_ok str_init "\<lambda>_. dec_bytes [0]" "decoded_bytes 1" 2
  by unfold_locales (use string_safe in \<open>simp_all add: string_writes string_reads string_ok_def\<close>)

interpretation bytestring_c: codec SOPC_ByteString_Write SOPC_ByteString_Read
  "\<lambda>_. enc_string" string_ok str_init "\<lambda>_. dec_bytes []" "decoded_bytes 0" 2
  by unfold_locales (simp_all add: string_writes bytestring_reads bytestring_safe string_ok_def)

interpretation xmlelement_c: codec SOPC_XmlElement_Write SOPC_XmlElement_Read
  "\<lambda>_. enc_string" string_ok str_init "\<lambda>_. dec_bytes []" "decoded_bytes 0" 2
  by unfold_locales
    (simp_all add: SOPC_XmlElement_Write_def [abs_def] SOPC_XmlElement_Read_def [abs_def]
      bytestring_c.write_law bytestring_c.read_law bytestring_c.read_safe)

section \<open>GUIDs\<close>

text \<open>The encoding of a GUID is its memory image.\<close>

lemma on_error_and_then:
  "on_error (and_then r f) write_status = and_then (on_error r write_status) (\<lambda>s. on_error (f s) write_status)"
  by (simp add: on_error_def and_then_def write_status_def split: option.splits prod.splits)

interpretation guid_c: codec SOPC_Guid_Write SOPC_Guid_Read
  "\<lambda>_. guid_mem" "\<lambda>_. guid_wf" guid_zero "\<lambda>_ g. g" "\<lambda>_. guid_wf" 2
proof
  fix env :: enc_env and g and lvl
  assume env: "mem_total env" and g: "guid_wf g" and lvl: "lvl + 2 \<le> max_level env"
  have data4: "writes (\<lambda>buf. on_error (SOPC_Buffer_Write env buf (Some (Guid_Data4 g)) 8) write_status)
      (Guid_Data4 g)"
    using g by (intro writes_block env) (simp_all add: guid_wf_def)
  have "writes (\<lambda>buf. on_error (and_then (and_then (and_then
        (SOPC_UInt32_Write env (Some (Guid_Data1 g)) buf (lvl + 1))
        (\<lambda>buf. SOPC_UInt16_Write env (Some (Guid_Data2 g)) buf (lvl + 1)))
        (\<lambda>buf. SOPC_UInt16_Write env (Some (Guid_Data3 g)) buf (lvl + 1)))
        (\<lambda>buf. SOPC_Buffer_Write env buf (Some (Guid_Data4 g)) 8)) write_status)
      (((le_bytes 4 (unat (Guid_Data1 g)) @ le_bytes 2 (unat (Guid_Data2 g))) @
        le_bytes 2 (unat (Guid_Data3 g))) @ Guid_Data4 g)"
    unfolding on_error_and_then
    by (intro writes_seq writes_on_error data4 uint32_c.write_law uint16_c.write_law)
      (use env lvl in simp_all)
  then show "writes (\<lambda>b. SOPC_Guid_Write env (Some g) b lvl) (guid_mem g)"
    unfolding SOPC_Guid_Write_def
    by (intro writes_guard) (use lvl in \<open>simp_all add: guid_mem_def\<close>)
  have data4r: "length d = 8 \<Longrightarrow> reads (\<lambda>(p, b). SOPC_Buffer_Read p b 8) d (Guid_Data4 g) (Guid_Data4 g)" for d
    using g reads_block by (simp add: reads_def guid_wf_def)
  have "reads (\<lambda>(p, b). on_error (and_then (and_then (and_then
        (on_field Guid_Data1 (\<lambda>v. Guid_Data1_update (\<lambda>_. v)) (\<lambda>p b. SOPC_UInt32_Read env p b (lvl + 1)) (p, b))
        (on_field Guid_Data2 (\<lambda>v. Guid_Data2_update (\<lambda>_. v)) (\<lambda>p b. SOPC_UInt16_Read env p b (lvl + 1))))
        (on_field Guid_Data3 (\<lambda>v. Guid_Data3_update (\<lambda>_. v)) (\<lambda>p b. SOPC_UInt16_Read env p b (lvl + 1))))
        (on_field Guid_Data4 (\<lambda>v. Guid_Data4_update (\<lambda>_. v)) (\<lambda>p b. SOPC_Buffer_Read p b 8))) h)
      guid_zero
      (guid_zero\<lparr>Guid_Data1 := Guid_Data1 g, Guid_Data2 := Guid_Data2 g, Guid_Data3 := Guid_Data3 g,
        Guid_Data4 := Guid_Data4 g\<rparr>)
      (((le_bytes 4 (unat (Guid_Data1 g)) @ le_bytes 2 (unat (Guid_Data2 g))) @
        le_bytes 2 (unat (Guid_Data3 g))) @ Guid_Data4 g)" for h
    by (rule reads_on_error2 reads_seq2 reads_field2 reads_field uint32_c.read_law uint16_c.read_law
        data4r refl | use env lvl in \<open>simp add: guid_zero_def; fail\<close>)+
  moreover have "guid_zero\<lparr>Guid_Data1 := Guid_Data1 g, Guid_Data2 := Guid_Data2 g,
      Guid_Data3 := Guid_Data3 g, Guid_Data4 := Guid_Data4 g\<rparr> = g"
    by (cases g) (simp add: guid_zero_def)
  ultimately show "reads (\<lambda>(p, b). SOPC_Guid_Read env p b lvl) guid_zero g (guid_mem g)"
    unfolding SOPC_Guid_Read_def
    by (intro reads_guard) (use lvl in \<open>simp_all add: guid_mem_def\<close>)
next
  fix env lvl
  have data4s: "safe_read (\<lambda>(p, b). SOPC_Buffer_Read p b 8) d (\<lambda>d. length d = 8)" if "length d = 8" for d
    unfolding safe_read_def
  proof (intro allI impI)
    fix b assume b: "buf_wf b" "unat (buf_length b) \<le> 2 ^ 31"
    have "unat (8 :: u32) < 2 ^ 31" "unat (8 :: u32) \<le> length d" using that by simp_all
    from safe_block [OF b this] that
    show "\<exists>st s' b'. (\<lambda>(p, b). SOPC_Buffer_Read p b 8) (Some d, Some b) = Some (st, Some s', Some b') \<and>
        buf_read_step b b' \<and> (st = SOPC_STATUS_OK \<longrightarrow> length s' = 8)"
      by (metis case_prod_conv)
  qed
  show "safe_read (\<lambda>(p, b). SOPC_Guid_Read env p b lvl) guid_zero guid_wf"
    unfolding SOPC_Guid_Read_def
    by (rule safe_read_guard safe_on_error2 safe_seq2 [where Q = guid_wf] safe_field2 safe_field
        uint32_c.read_safe uint16_c.read_safe data4s | simp add: guid_wf_def guid_zero_def; fail)+
qed simp_all

end
