(* ===== verification/NodeId_Laws.thy ===== *)
theory NodeId_Laws
  imports Encoder_Laws
begin

unbundle bit_operations_syntax

text \<open>
  The laws of the encoder for node identifiers and expanded node identifiers: three numeric forms
  chosen by the size of the namespace and of the identifier, four other forms, and the two flags of
  an expanded identifier in the encoding byte.
\<close>

section \<open>Node identifiers\<close>

fun nodeid_ok :: "enc_env \<Rightarrow> SOPC_NodeId \<Rightarrow> bool" where
  "nodeid_ok env n =
     (case (NodeId_IdentifierType n, NodeId_Data n) of
        (SOPC_IdentifierType_Numeric, Id_Numeric v) \<Rightarrow> True
      | (SOPC_IdentifierType_String, Id_String s) \<Rightarrow> string_ok env s
      | (SOPC_IdentifierType_Guid, Id_Guid (Some g)) \<Rightarrow> guid_wf g
      | (SOPC_IdentifierType_ByteString, Id_Bstring s) \<Rightarrow> string_ok env s
      | _ \<Rightarrow> False)"

declare nodeid_ok.simps [simp del]

lemma nodeid_ok_cases [consumes 1, case_names TwoBytes FourBytes Numeric String Guid ByteString]:
  assumes "nodeid_ok env n"
  obtains v where "n = \<lparr>NodeId_IdentifierType = SOPC_IdentifierType_Numeric, NodeId_Namespace = 0,
      NodeId_Data = Id_Numeric v\<rparr>" "v \<le> 255"
  | v ns where "n = \<lparr>NodeId_IdentifierType = SOPC_IdentifierType_Numeric, NodeId_Namespace = ns,
      NodeId_Data = Id_Numeric v\<rparr>" "\<not> (ns = 0 \<and> v \<le> 255)" "ns \<le> 255" "v \<le> 65535"
  | v ns where "n = \<lparr>NodeId_IdentifierType = SOPC_IdentifierType_Numeric, NodeId_Namespace = ns,
      NodeId_Data = Id_Numeric v\<rparr>" "\<not> (ns = 0 \<and> v \<le> 255)" "\<not> (ns \<le> 255 \<and> v \<le> 65535)"
  | s ns where "n = \<lparr>NodeId_IdentifierType = SOPC_IdentifierType_String, NodeId_Namespace = ns,
      NodeId_Data = Id_String s\<rparr>" "string_ok env s"
  | g ns where "n = \<lparr>NodeId_IdentifierType = SOPC_IdentifierType_Guid, NodeId_Namespace = ns,
      NodeId_Data = Id_Guid (Some g)\<rparr>" "guid_wf g"
  | s ns where "n = \<lparr>NodeId_IdentifierType = SOPC_IdentifierType_ByteString, NodeId_Namespace = ns,
      NodeId_Data = Id_Bstring s\<rparr>" "string_ok env s"
  using assms
  by (cases n) (auto simp: nodeid_ok.simps
      split: SOPC_IdentifierType.splits SOPC_NodeId_Data.splits option.splits)

text \<open>The bytes after the encoding byte.\<close>

definition enc_nodeid_body :: "SOPC_NodeId \<Rightarrow> byte list" where
  "enc_nodeid_body n =
     (let ns = le_bytes 2 (unat (NodeId_Namespace n))
      in case NodeId_Data n of
           Id_Numeric v \<Rightarrow>
             (if NodeId_Namespace n = 0 \<and> v \<le> 255 then le_bytes 1 (unat v)
              else if NodeId_Namespace n \<le> 255 \<and> v \<le> 65535
              then le_bytes 1 (unat (NodeId_Namespace n)) @ le_bytes 2 (unat v)
              else ns @ le_bytes 4 (unat v))
         | Id_String s \<Rightarrow> ns @ enc_string s
         | Id_Guid p \<Rightarrow> ns @ (case p of None \<Rightarrow> [] | Some g \<Rightarrow> guid_mem g)
         | Id_Bstring s \<Rightarrow> ns @ enc_string s)"

definition enc_nodeid :: "SOPC_NodeId \<Rightarrow> byte list" where
  "enc_nodeid n =
     (case GetNodeIdDataEncoding n of None \<Rightarrow> [] | Some e \<Rightarrow> le_bytes 1 (unat e) @ enc_nodeid_body n)"

definition dec_nodeid :: "SOPC_NodeId \<Rightarrow> SOPC_NodeId" where
  "dec_nodeid n = n\<lparr>NodeId_Data :=
     (case NodeId_Data n of
        Id_String s \<Rightarrow> Id_String (dec_bytes [0] s)
      | Id_Bstring s \<Rightarrow> Id_Bstring (dec_bytes [] s)
      | d \<Rightarrow> d)\<rparr>"

definition decoded_nodeid :: "enc_env \<Rightarrow> SOPC_NodeId \<Rightarrow> bool" where
  "decoded_nodeid env n =
     (case (NodeId_IdentifierType n, NodeId_Data n) of
        (SOPC_IdentifierType_Numeric, Id_Numeric v) \<Rightarrow> True
      | (SOPC_IdentifierType_String, Id_String s) \<Rightarrow> decoded_bytes 1 env s
      | (SOPC_IdentifierType_Guid, Id_Guid (Some g)) \<Rightarrow> guid_wf g
      | (SOPC_IdentifierType_ByteString, Id_Bstring s) \<Rightarrow> decoded_bytes 0 env s
      | _ \<Rightarrow> False)"

text \<open>A word truncated to a size it fits in keeps its value.\<close>

lemma unat_ucast_fits:
  "unat (v :: ('a::len) word) < 2 ^ LENGTH('b::len) \<Longrightarrow> unat (ucast v :: 'b word) = unat v"
  by (simp add: unsigned_ucast_eq take_bit_nat_eq_self)

lemma ucast_ucast_fits:
  assumes "unat (v :: ('a::len) word) < 2 ^ LENGTH('b::len)"
  shows "ucast (ucast v :: 'b word) = v"
proof -
  have "unat (ucast (ucast v :: 'b word) :: 'a word) = unat v"
    using unat_ucast_fits [OF assms] unsigned_less [of v] by (simp add: unat_ucast_fits)
  then show ?thesis by (simp add: word_unat_eq_iff)
qed

lemma small_u32: "(v :: u32) \<le> 255 \<Longrightarrow> unat v < 256" "(v :: u32) \<le> 65535 \<Longrightarrow> unat v < 65536"
  "(w :: u16) \<le> 255 \<Longrightarrow> unat w < 256"
  by (simp_all add: word_le_nat_alt)

lemma NodeId_Write_switch_law:
  assumes env: "mem_total env" and ok: "nodeid_ok env n" and lvl: "lvl + 2 \<le> max_level env"
    and e: "GetNodeIdDataEncoding n = Some e"
  shows "writes (NodeId_Write_switch env e n lvl) (enc_nodeid_body n)"
  using ok
proof (cases rule: nodeid_ok_cases)
  case (TwoBytes v)
  have "writes (\<lambda>b. SOPC_Byte_Write env (Some (ucast v)) b lvl) (le_bytes 1 (unat (ucast v :: byte)))"
    by (rule byte_c.write_law) (use env lvl in simp_all)
  with TwoBytes e small_u32(1) [OF TwoBytes(2)] show ?thesis
    by (simp add: NodeId_Write_switch_def [abs_def] GetNodeIdDataEncoding_def enc_nodeid_body_def
        NodeIdEncoding_defs unat_ucast_fits)
next
  case (FourBytes v ns)
  have "writes (\<lambda>b. and_then (SOPC_Byte_Write env (Some (ucast ns)) b lvl)
      (\<lambda>b. SOPC_UInt16_Write env (Some (ucast v)) b lvl))
      (le_bytes 1 (unat (ucast ns :: byte)) @ le_bytes 2 (unat (ucast v :: u16)))"
    by (rule writes_seq, rule byte_c.write_law, simp_all add: env, use lvl in simp, rule uint16_c.write_law)
      (use env lvl in simp_all)
  with FourBytes e small_u32(2) [OF FourBytes(4)] small_u32(3) [OF FourBytes(3)] show ?thesis
    by (auto simp: NodeId_Write_switch_def [abs_def] GetNodeIdDataEncoding_def enc_nodeid_body_def
        NodeIdEncoding_defs unat_ucast_fits)
next
  case (Numeric v ns)
  have "writes (\<lambda>b. and_then (SOPC_UInt16_Write env (Some ns) b lvl)
      (\<lambda>b. SOPC_UInt32_Write env (Some v) b lvl)) (le_bytes 2 (unat ns) @ le_bytes 4 (unat v))"
    by (intro writes_seq uint16_c.write_law uint32_c.write_law) (use env lvl in simp_all)
  with Numeric e show ?thesis
    by (auto simp: NodeId_Write_switch_def [abs_def] GetNodeIdDataEncoding_def enc_nodeid_body_def
        NodeIdEncoding_defs split: if_splits)
next
  case (String s ns)
  have "writes (\<lambda>b. and_then (SOPC_UInt16_Write env (Some ns) b lvl)
      (\<lambda>b. SOPC_String_Write env (Some s) b lvl)) (le_bytes 2 (unat ns) @ enc_string s)"
    by (intro writes_seq uint16_c.write_law string_c.write_law) (use String env lvl in simp_all)
  with String e show ?thesis
    by (auto simp: NodeId_Write_switch_def [abs_def] GetNodeIdDataEncoding_def enc_nodeid_body_def
        NodeIdEncoding_defs)
next
  case (Guid g ns)
  have "writes (\<lambda>b. and_then (SOPC_UInt16_Write env (Some ns) b lvl)
      (\<lambda>b. SOPC_Guid_Write env (Some g) b lvl)) (le_bytes 2 (unat ns) @ guid_mem g)"
    by (intro writes_seq uint16_c.write_law guid_c.write_law) (use Guid env lvl in simp_all)
  with Guid e show ?thesis
    by (auto simp: NodeId_Write_switch_def [abs_def] GetNodeIdDataEncoding_def enc_nodeid_body_def
        NodeIdEncoding_defs)
next
  case (ByteString s ns)
  have "writes (\<lambda>b. and_then (SOPC_UInt16_Write env (Some ns) b lvl)
      (\<lambda>b. SOPC_ByteString_Write env (Some s) b lvl)) (le_bytes 2 (unat ns) @ enc_string s)"
    by (intro writes_seq uint16_c.write_law bytestring_c.write_law) (use ByteString env lvl in simp_all)
  with ByteString e show ?thesis
    by (auto simp: NodeId_Write_switch_def [abs_def] GetNodeIdDataEncoding_def enc_nodeid_body_def
        NodeIdEncoding_defs)
qed

lemma Internal_NodeId_Write_law:
  assumes "mem_total env" "nodeid_ok env n" "lvl + 2 \<le> max_level env"
    "GetNodeIdDataEncoding n = Some (0x0F AND e)"
  shows "writes (\<lambda>b. Internal_NodeId_Write env b e n lvl) (le_bytes 1 (unat e) @ enc_nodeid_body n)"
  unfolding Internal_NodeId_Write_def
  using assms by (intro writes_seq NodeId_Write_switch_law byte_c.write_law) simp_all

text \<open>Reading the namespace and a member of the union.\<close>

lemma reads_member:
  "get (NodeId_Data s) = Some x \<Longrightarrow> reads (\<lambda>(p, b). R p b) x w bs \<Longrightarrow> s' = s\<lparr>NodeId_Data := put w\<rparr> \<Longrightarrow>
    reads (on_member get put R) s s' bs"
  by (simp add: reads_def on_member_def)

lemma safe_member:
  assumes "get (NodeId_Data s) = Some x" "safe_read (\<lambda>(p, b). R p b) x Q"
    "\<And>w. Q w \<Longrightarrow> Q' (s\<lparr>NodeId_Data := put w\<rparr>)"
  shows "safe_read (on_member get put R) s Q'"
  unfolding safe_read_def
proof (intro allI impI)
  fix b assume "buf_wf b" "unat (buf_length b) \<le> 2 ^ 31"
  then obtain st w b1 where "R (Some x) (Some b) = Some (st, Some w, Some b1)" "buf_read_step b b1"
    "st = SOPC_STATUS_OK \<Longrightarrow> Q w"
    using safe_readE [OF assms(2)] by metis
  with assms(1,3) show "\<exists>st s' b'. on_member get put R (Some s, Some b) = Some (st, Some s', Some b') \<and>
      buf_read_step b b' \<and> (st = SOPC_STATUS_OK \<longrightarrow> Q' s')"
    by (simp add: on_member_def)
qed

lemma reads_namespace:
  assumes "mem_total env" "lvl + 1 \<le> max_level env"
  shows "reads (\<lambda>(p, b). NodeId_Read_Namespace env lvl ty p b) n
    (n\<lparr>NodeId_IdentifierType := ty, NodeId_Namespace := ns\<rparr>) (le_bytes 2 (unat ns))"
proof -
  have "reads (\<lambda>(p, b). SOPC_UInt16_Read env p b lvl) (NodeId_Namespace n) ns (le_bytes 2 (unat ns))"
    using assms by (intro uint16_c.read_law) simp_all
  then show ?thesis by (simp add: reads_def NodeId_Read_Namespace_def on_field_def)
qed

lemma safe_namespace:
  "safe_read (\<lambda>(p, b). NodeId_Read_Namespace env lvl ty p b) nodeid_zero
    (\<lambda>n. NodeId_IdentifierType n = ty \<and> NodeId_Data n = Id_Numeric 0)"
  unfolding safe_read_def
proof (intro allI impI)
  fix b assume "buf_wf b" "unat (buf_length b) \<le> 2 ^ 31"
  then obtain st w b1 where "SOPC_UInt16_Read env (Some 0) (Some b) lvl = Some (st, Some w, Some b1)"
    "buf_read_step b b1"
    using safe_readE [OF uint16_c.read_safe] by metis
  then show "\<exists>st s' b'. (\<lambda>(p, b). NodeId_Read_Namespace env lvl ty p b) (Some nodeid_zero, Some b) =
      Some (st, Some s', Some b') \<and> buf_read_step b b' \<and>
      (st = SOPC_STATUS_OK \<longrightarrow> NodeId_IdentifierType s' = ty \<and> NodeId_Data s' = Id_Numeric 0)"
    by (simp add: NodeId_Read_Namespace_def on_field_def nodeid_zero_def)
qed

definition zero_string :: SOPC_String where
  "zero_string = \<lparr>Str_Length = 0, Str_DoNotClear = False, Str_Data = None\<rparr>"

lemma zero_string_start [simp]: "string_start zero_string"
  by (simp add: string_start_def zero_string_def)

lemma NodeId_Read_switch_law:
  assumes env: "mem_total env" and ok: "nodeid_ok env n" and lvl: "lvl + 2 \<le> max_level env"
    and e: "GetNodeIdDataEncoding n = Some e"
  shows "reads (\<lambda>(p, b). NodeId_Read_switch env e lvl p b) nodeid_zero (dec_nodeid n) (enc_nodeid_body n)"
  using ok
proof (cases rule: nodeid_ok_cases)
  case (TwoBytes v)
  have e0: "e = 0" and body: "enc_nodeid_body n = le_bytes 1 (unat (ucast v :: byte))"
    using TwoBytes e small_u32(1) [OF TwoBytes(2)]
    by (simp_all add: GetNodeIdDataEncoding_def enc_nodeid_body_def NodeIdEncoding_defs unat_ucast_fits)
  have v: "ucast (ucast v :: byte) = v" using small_u32(1) [OF TwoBytes(2)] by (simp add: ucast_ucast_fits)
  have "reads (\<lambda>(p, b). SOPC_Byte_Read env p b lvl) 0 (ucast v) (le_bytes 1 (unat (ucast v :: byte)))"
    by (rule byte_c.read_law) (use env lvl in simp_all)
  then show ?thesis
    unfolding e0 body using TwoBytes v
    by (simp add: reads_def NodeId_Read_switch_def NodeIdEncoding_defs dec_nodeid_def nodeid_zero_def)
next
  case (FourBytes v ns)
  have e0: "e = 1"
    and body: "enc_nodeid_body n = le_bytes 1 (unat (ucast ns :: byte)) @ le_bytes 2 (unat (ucast v :: u16))"
    using FourBytes e small_u32(2) [OF FourBytes(4)] small_u32(3) [OF FourBytes(3)]
    by (auto simp: GetNodeIdDataEncoding_def enc_nodeid_body_def NodeIdEncoding_defs unat_ucast_fits)
  have v: "ucast (ucast v :: u16) = v" "ucast (ucast ns :: byte) = ns"
    using small_u32(2) [OF FourBytes(4)] small_u32(3) [OF FourBytes(3)]
    by (simp_all add: ucast_ucast_fits)
  have r: "reads (\<lambda>(p, b). SOPC_Byte_Read env p b lvl) 0 (ucast ns) (le_bytes 1 (unat (ucast ns :: byte)))"
    "reads (\<lambda>(p, b). SOPC_UInt16_Read env p b lvl) 0 (ucast v) (le_bytes 2 (unat (ucast v :: u16)))"
    by (rule byte_c.read_law uint16_c.read_law; use env lvl in simp)+
  show ?thesis
    unfolding reads_def body
  proof (intro allI impI)
    fix b rest
    assume b: "buf_wf b" "unat (buf_length b) \<le> 2 ^ 31" "stream_rest (stream_of b) =
        (le_bytes 1 (unat (ucast ns :: byte)) @ le_bytes 2 (unat (ucast v :: u16))) @ rest"
    note s = stream_rest_split [OF b(1), of "le_bytes 1 (unat (ucast ns :: byte))"]
    show "(\<lambda>(p, b). NodeId_Read_switch env e lvl p b) (Some nodeid_zero, Some b) =
        Some (SOPC_STATUS_OK, Some (dec_nodeid n), Some (buf_advance (length
          (le_bytes 1 (unat (ucast ns :: byte)) @ le_bytes 2 (unat (ucast v :: u16)))) b))"
      using reads_bindD [OF r(1) b(1,2)] reads_bindD [OF r(2) s(2)] s(3) b FourBytes v e0
      by (simp add: NodeId_Read_switch_def NodeIdEncoding_defs dec_nodeid_def nodeid_zero_def
          buf_advance_advance numeral_3_eq_3)
  qed
next
  case (Numeric v ns)
  have e0: "e = 2" and body: "enc_nodeid_body n = le_bytes 2 (unat ns) @ le_bytes 4 (unat v)"
    using Numeric e
    by (auto simp: GetNodeIdDataEncoding_def enc_nodeid_body_def NodeIdEncoding_defs split: if_splits)
  have "reads (\<lambda>(p, b). and_then (NodeId_Read_Namespace env lvl SOPC_IdentifierType_Numeric p b)
      (on_member union_Numeric Id_Numeric (\<lambda>p b. SOPC_UInt32_Read env p b lvl)))
      nodeid_zero (dec_nodeid n) (le_bytes 2 (unat ns) @ le_bytes 4 (unat v))"
    by (rule reads_seq2 reads_namespace reads_member uint32_c.read_law |
        use Numeric env lvl in \<open>simp add: nodeid_zero_def dec_nodeid_def; fail\<close>)+
  then show ?thesis
    unfolding body e0 by (simp add: NodeId_Read_switch_def NodeIdEncoding_defs)
next
  case (String s ns)
  have e0: "e = 3" and body: "enc_nodeid_body n = le_bytes 2 (unat ns) @ enc_string s"
    using String e by (auto simp: GetNodeIdDataEncoding_def enc_nodeid_body_def NodeIdEncoding_defs)
  have "reads (\<lambda>(p, b). and_then (NodeId_Read_Namespace env lvl SOPC_IdentifierType_String p b)
      (on_member union_String Id_String (\<lambda>p b. SOPC_String_Read env p b lvl)))
      nodeid_zero (dec_nodeid n) (le_bytes 2 (unat ns) @ enc_string s)"
    by (rule reads_seq2 reads_namespace reads_member [where x = zero_string] string_reads |
        use String env lvl in \<open>simp add: nodeid_zero_def dec_nodeid_def zero_string_def string_start_def; fail\<close>)+
  then show ?thesis
    unfolding body e0 by (simp add: NodeId_Read_switch_def NodeIdEncoding_defs)
next
  case (Guid g ns)
  have e0: "e = 4" and body: "enc_nodeid_body n = le_bytes 2 (unat ns) @ guid_mem g"
    using Guid e by (auto simp: GetNodeIdDataEncoding_def enc_nodeid_body_def NodeIdEncoding_defs)
  have "reads (\<lambda>(p, b). SOPC_Guid_Read env p b lvl) guid_zero g (guid_mem g)"
    using env lvl Guid by (intro guid_c.read_law) simp_all
  then have "reads (NodeId_Read_Guid env lvl)
      (nodeid_zero\<lparr>NodeId_IdentifierType := SOPC_IdentifierType_Guid, NodeId_Namespace := ns\<rparr>)
      (dec_nodeid n) (guid_mem g)"
    using Guid env by (simp add: reads_def NodeId_Read_Guid_def dec_nodeid_def nodeid_zero_def)
  then have "reads (\<lambda>(p, b). and_then (NodeId_Read_Namespace env lvl SOPC_IdentifierType_Guid p b)
      (NodeId_Read_Guid env lvl)) nodeid_zero (dec_nodeid n) (le_bytes 2 (unat ns) @ guid_mem g)"
    using env lvl by (intro reads_seq2 [OF reads_namespace]) simp_all
  then show ?thesis
    unfolding body e0 by (simp add: NodeId_Read_switch_def NodeIdEncoding_defs)
next
  case (ByteString s ns)
  have e0: "e = 5" and body: "enc_nodeid_body n = le_bytes 2 (unat ns) @ enc_string s"
    using ByteString e by (auto simp: GetNodeIdDataEncoding_def enc_nodeid_body_def NodeIdEncoding_defs)
  have "reads (\<lambda>(p, b). and_then (NodeId_Read_Namespace env lvl SOPC_IdentifierType_ByteString p b)
      (on_member union_String Id_Bstring (\<lambda>p b. SOPC_ByteString_Read env p b lvl)))
      nodeid_zero (dec_nodeid n) (le_bytes 2 (unat ns) @ enc_string s)"
    by (rule reads_seq2 reads_namespace reads_member [where x = zero_string] bytestring_reads |
        use ByteString env lvl in \<open>simp add: nodeid_zero_def dec_nodeid_def zero_string_def string_start_def; fail\<close>)+
  then show ?thesis
    unfolding body e0 by (simp add: NodeId_Read_switch_def NodeIdEncoding_defs)
qed

lemma NodeId_Read_switch_safe:
  "safe_read (\<lambda>(p, b). NodeId_Read_switch env e lvl p b) nodeid_zero (decoded_nodeid env)"
proof -
  note defs = NodeId_Read_switch_def NodeIdEncoding_defs
  consider "e = 0" | "e = 1" | "e = 2" | "e = 3" | "e = 4" | "e = 5" | "e \<notin> {0, 1, 2, 3, 4, 5}" by auto
  then show ?thesis
  proof cases
    case 1
    show ?thesis
      unfolding safe_read_def
    proof (intro allI impI)
      fix b assume "buf_wf b" "unat (buf_length b) \<le> 2 ^ 31"
      then obtain st v b1 where "SOPC_Byte_Read env (Some 0) (Some b) lvl = Some (st, Some v, Some b1)"
        "buf_read_step b b1"
        using safe_readE [OF byte_c.read_safe] by metis
      then show "\<exists>st s' b'. (\<lambda>(p, b). NodeId_Read_switch env e lvl p b) (Some nodeid_zero, Some b) =
          Some (st, Some s', Some b') \<and> buf_read_step b b' \<and> (st = SOPC_STATUS_OK \<longrightarrow> decoded_nodeid env s')"
        using 1 by (simp add: defs decoded_nodeid_def)
    qed
  next
    case 2
    show ?thesis
      unfolding safe_read_def
    proof (intro allI impI)
      fix b assume "buf_wf b" "unat (buf_length b) \<le> 2 ^ 31"
      then obtain st v b1 where 1: "SOPC_Byte_Read env (Some 0) (Some b) lvl = Some (st, Some v, Some b1)"
        "buf_read_step b b1" "buf_wf b1" "unat (buf_length b1) \<le> 2 ^ 31"
        using safe_readE [OF byte_c.read_safe] by metis
      then obtain st2 w b2 where "SOPC_UInt16_Read env (Some 0) (Some b1) lvl = Some (st2, Some w, Some b2)"
        "buf_read_step b1 b2"
        using safe_readE [OF uint16_c.read_safe 1(3,4)] by metis
      with 1 show "\<exists>st s' b'. (\<lambda>(p, b). NodeId_Read_switch env e lvl p b) (Some nodeid_zero, Some b) =
          Some (st, Some s', Some b') \<and> buf_read_step b b' \<and> (st = SOPC_STATUS_OK \<longrightarrow> decoded_nodeid env s')"
        using 2 buf_read_step_trans [OF 1(2)]
        by (cases "st = SOPC_STATUS_OK") (simp_all add: defs decoded_nodeid_def Let_def)
    qed
  next
    case 3
    have "safe_read (\<lambda>(p, b). and_then (NodeId_Read_Namespace env lvl SOPC_IdentifierType_Numeric p b)
        (on_member union_Numeric Id_Numeric (\<lambda>p b. SOPC_UInt32_Read env p b lvl)))
        nodeid_zero (decoded_nodeid env)"
      by (rule safe_seq2 [OF safe_namespace] safe_member [where x = 0] uint32_c.read_safe |
          simp add: decoded_nodeid_def; fail)+
    with 3 show ?thesis by (simp add: defs)
  next
    case 4
    have "safe_read (\<lambda>(p, b). and_then (NodeId_Read_Namespace env lvl SOPC_IdentifierType_String p b)
        (on_member union_String Id_String (\<lambda>p b. SOPC_String_Read env p b lvl)))
        nodeid_zero (decoded_nodeid env)"
      by (rule safe_seq2 [OF safe_namespace] safe_member [where x = zero_string]
            string_safe [OF zero_string_start] | simp add: decoded_nodeid_def zero_string_def; fail)+
    with 4 show ?thesis by (simp add: defs)
  next
    case 5
    have "safe_read (NodeId_Read_Guid env lvl) n (decoded_nodeid env)"
      if n: "NodeId_IdentifierType n = SOPC_IdentifierType_Guid" for n
      unfolding safe_read_def
    proof (intro allI impI)
      fix b assume b: "buf_wf b" "unat (buf_length b) \<le> 2 ^ 31"
      then obtain st g b1 where "SOPC_Guid_Read env (Some guid_zero) (Some b) lvl = Some (st, Some g, Some b1)"
        "buf_read_step b b1" "st = SOPC_STATUS_OK \<Longrightarrow> guid_wf g"
        using safe_readE [OF guid_c.read_safe] by metis
      with n b show "\<exists>st s' b'. NodeId_Read_Guid env lvl (Some n, Some b) = Some (st, Some s', Some b') \<and>
          buf_read_step b b' \<and> (st = SOPC_STATUS_OK \<longrightarrow> decoded_nodeid env s')"
        by (simp add: NodeId_Read_Guid_def decoded_nodeid_def buf_read_step_refl)
    qed
    then have "safe_read (\<lambda>(p, b). and_then (NodeId_Read_Namespace env lvl SOPC_IdentifierType_Guid p b)
        (NodeId_Read_Guid env lvl)) nodeid_zero (decoded_nodeid env)"
      by (intro safe_seq2 [OF safe_namespace]) simp
    with 5 show ?thesis by (simp add: defs)
  next
    case 6
    have "safe_read (\<lambda>(p, b). and_then (NodeId_Read_Namespace env lvl SOPC_IdentifierType_ByteString p b)
        (on_member union_String Id_Bstring (\<lambda>p b. SOPC_ByteString_Read env p b lvl)))
        nodeid_zero (decoded_nodeid env)"
      by (rule safe_seq2 [OF safe_namespace] safe_member [where x = zero_string]
            bytestring_safe [OF zero_string_start] | simp add: decoded_nodeid_def zero_string_def; fail)+
    with 6 show ?thesis by (simp add: defs)
  next
    case 7
    then show ?thesis by (auto simp: defs safe_read_def buf_read_step_refl)
  qed
qed

text \<open>The function around the \<open>switch\<close>, on an encoded identifier and on any content.\<close>

lemma Internal_NodeId_Read_law:
  assumes "mem_total env" "nodeid_ok env n" "lvl + 2 \<le> max_level env"
    "GetNodeIdDataEncoding n = Some (0x0F AND e)"
    and b: "buf_wf b" "unat (buf_length b) \<le> 2 ^ 31"
    "stream_rest (stream_of b) = le_bytes 1 (unat e) @ enc_nodeid_body n @ rest"
  shows "Internal_NodeId_Read env (Some b) nodeid_zero e0 lvl =
    Some (SOPC_STATUS_OK, (dec_nodeid n, e), Some (buf_advance (1 + length (enc_nodeid_body n)) b))"
proof -
  have "SOPC_Byte_Read env (Some e0) (Some b) lvl =
      Some (SOPC_STATUS_OK, Some e, Some (buf_advance 1 b))"
    using reads_bindD [OF byte_c.read_law b] assms(1,3) by simp
  moreover have "NodeId_Read_switch env (0x0F AND e) lvl (Some nodeid_zero) (Some (buf_advance 1 b)) =
      Some (SOPC_STATUS_OK, Some (dec_nodeid n),
        Some (buf_advance (length (enc_nodeid_body n)) (buf_advance 1 b)))"
    using reads_bindD [OF NodeId_Read_switch_law [OF assms(1-4)], of "buf_advance 1 b" rest]
      stream_rest_split [OF b(1,3)] b(2) by simp
  ultimately show ?thesis
    using assms(3) by (simp add: Internal_NodeId_Read_def buf_advance_advance)
qed

lemma Internal_NodeId_Read_safe:
  assumes b: "buf_wf b" "unat (buf_length b) \<le> 2 ^ 31"
  obtains st n e b' where "Internal_NodeId_Read env (Some b) nodeid_zero e0 lvl = Some (st, (n, e), Some b')"
    "buf_read_step b b'" "buf_wf b'" "unat (buf_length b') \<le> 2 ^ 31"
    "st = SOPC_STATUS_OK \<Longrightarrow> decoded_nodeid env n"
proof -
  obtain st e b1 where 1: "SOPC_Byte_Read env (Some e0) (Some b) lvl = Some (st, Some e, Some b1)"
    "buf_read_step b b1" "buf_wf b1" "unat (buf_length b1) \<le> 2 ^ 31"
    using safe_readE [OF byte_c.read_safe b] by metis
  obtain st2 n b2
    where 2: "NodeId_Read_switch env (0x0F AND e) lvl (Some nodeid_zero) (Some b1) = Some (st2, Some n, Some b2)"
    "buf_read_step b1 b2" "buf_wf b2" "unat (buf_length b2) \<le> 2 ^ 31"
    "st2 = SOPC_STATUS_OK \<Longrightarrow> decoded_nodeid env n"
    using safe_readE [OF NodeId_Read_switch_safe 1(3,4)] by metis
  show thesis
  proof (cases "max_level env \<le> lvl")
    case True
    with that [of SOPC_STATUS_INVALID_STATE nodeid_zero e0 b] b show thesis
      by (simp add: Internal_NodeId_Read_def buf_read_step_refl)
  next
    case level: False
    show thesis
    proof (cases "st = SOPC_STATUS_OK")
      case True
      with that [of st2 n e b2] 1(1) 2 level buf_read_step_trans [OF 1(2) 2(2)] show thesis
        by (simp add: Internal_NodeId_Read_def)
    next
      case False
      with that [of st nodeid_zero e b1] 1 level show thesis
        by (simp add: Internal_NodeId_Read_def)
    qed
  qed
qed

lemma GetNodeIdDataEncoding_wf:
  assumes "nodeid_ok env n"
  obtains e where "GetNodeIdDataEncoding n = Some e" "0x0F AND e = e" "e \<le> 5"
  using assms
  by (cases rule: nodeid_ok_cases) (auto simp: GetNodeIdDataEncoding_def NodeIdEncoding_defs)

interpretation nodeid_c: codec SOPC_NodeId_Write SOPC_NodeId_Read
  "\<lambda>_. enc_nodeid" nodeid_ok nodeid_zero "\<lambda>_. dec_nodeid" decoded_nodeid 3
proof
  fix env n lvl
  assume env: "mem_total env" and ok: "nodeid_ok env n" and lvl: "lvl + 3 \<le> max_level env"
  obtain e where e: "GetNodeIdDataEncoding n = Some e" "0x0F AND e = e"
    using GetNodeIdDataEncoding_wf [OF ok] by metis
  have enc: "enc_nodeid n = le_bytes 1 (unat e) @ enc_nodeid_body n" by (simp add: enc_nodeid_def e)
  show "writes (\<lambda>b. SOPC_NodeId_Write env (Some n) b lvl) (enc_nodeid n)"
    unfolding SOPC_NodeId_Write_def enc
    by (rule writes_guard)
      (use lvl e Internal_NodeId_Write_law [OF env ok, of "lvl + 1" e] in simp_all)
  show "reads (\<lambda>(p, b). SOPC_NodeId_Read env p b lvl) nodeid_zero (dec_nodeid n) (enc_nodeid n)"
    unfolding reads_def enc
  proof (intro allI impI)
    fix b rest
    assume b: "buf_wf b" "unat (buf_length b) \<le> 2 ^ 31"
      "stream_rest (stream_of b) = (le_bytes 1 (unat e) @ enc_nodeid_body n) @ rest"
    show "(\<lambda>(p, b). SOPC_NodeId_Read env p b lvl) (Some nodeid_zero, Some b) =
        Some (SOPC_STATUS_OK, Some (dec_nodeid n),
          Some (buf_advance (length (le_bytes 1 (unat e) @ enc_nodeid_body n)) b))"
      using Internal_NodeId_Read_law [OF env ok, of "lvl + 1" e b rest 0] e b lvl
      by (simp add: SOPC_NodeId_Read_def)
  qed
next
  fix env lvl
  show "safe_read (\<lambda>(p, b). SOPC_NodeId_Read env p b lvl) nodeid_zero (decoded_nodeid env)"
    unfolding SOPC_NodeId_Read_def
  proof (rule safe_read_guard, unfold safe_read_def, intro allI impI)
    fix b assume b: "buf_wf b" "unat (buf_length b) \<le> 2 ^ 31"
    obtain st n e b'
      where "Internal_NodeId_Read env (Some b) nodeid_zero 0 (lvl + 1) = Some (st, (n, e), Some b')"
      "buf_read_step b b'" "st = SOPC_STATUS_OK \<Longrightarrow> decoded_nodeid env n"
      using Internal_NodeId_Read_safe [OF b, of env 0 "lvl + 1"] by metis
    then show "\<exists>st s' b'. (\<lambda>(p, b). do { n \<leftarrow> p; (st, (n, e), buf) \<leftarrow> Internal_NodeId_Read env b n 0 (lvl + 1);
        Some (st, Some n, buf) }) (Some nodeid_zero, Some b) = Some (st, Some s', Some b') \<and>
        buf_read_step b b' \<and> (st = SOPC_STATUS_OK \<longrightarrow> decoded_nodeid env s')"
      by simp
  qed
qed simp_all

end
