(* ===== verification/Struct_Laws.thy ===== *)
theory Struct_Laws
  imports NodeId_Laws
begin

unbundle bit_operations_syntax

text \<open>
  The laws of the encoder for the structures with optional members announced by an encoding byte:
  expanded node identifiers, localized texts and diagnostic informations; and for qualified names.
\<close>

section \<open>Optional members\<close>

lemma reads_skip2: "reads (\<lambda>(p, b). Some (SOPC_STATUS_OK, p, b)) s s []"
  by (simp add: reads_def)

lemma safe_skip2: "Q s \<Longrightarrow> safe_read (\<lambda>(p, b). Some (SOPC_STATUS_OK, p, b)) s Q"
  by (simp add: safe_read_def buf_read_step_refl)

text \<open>The predicates of a member that stays as it is, on both sides of an optional read.\<close>

lemma safe_optional_field:
  assumes "safe_read (\<lambda>(p, b). A p b) s Q"
    and "\<And>s1. Q s1 \<Longrightarrow> c \<Longrightarrow> safe_read (\<lambda>(p, b). R p b) (get s1) (P s1)"
    and "\<And>s1 w. Q s1 \<Longrightarrow> c \<Longrightarrow> P s1 w \<Longrightarrow> Q' (put w s1)" and "\<And>s1. Q s1 \<Longrightarrow> \<not> c \<Longrightarrow> Q' s1"
  shows "safe_read (\<lambda>(p, b). and_when (A p b) c (on_field get put R)) s Q'"
  using assms(1)
proof (rule safe_when2)
  fix s1 assume "Q s1" c
  then show "safe_read (on_field get put R) s1 Q'"
    using safe_field [of R get s1 "P s1" Q' put] assms(2,3) by blast
qed (rule assms(4))

lemma reads_optional_field:
  assumes "reads (\<lambda>(p, b). A p b) s s1 xs"
    and "c \<Longrightarrow> reads (\<lambda>(p, b). R p b) (get s1) w ys" and "s2 = (if c then put w s1 else s1)"
  shows "reads (\<lambda>(p, b). and_when (A p b) c (on_field get put R)) s s2 (xs @ (if c then ys else []))"
  using assms(1)
proof (rule reads_when2)
  assume c
  then show "reads (on_field get put R) s1 s2 ys"
    using reads_field [of R get s1 w ys s2 put] assms(2,3) by simp
next
  show "\<not> c \<Longrightarrow> s2 = s1" using assms(3) by simp
qed

text \<open>An encoding byte, then what it announces.\<close>

lemma reads_flags:
  assumes "mem_total env" "l < max_level env" "reads (\<lambda>(p, b). B SOPC_STATUS_OK e p b) s s' bs"
  shows "reads (\<lambda>(p, b). do { (st, e, b) \<leftarrow> SOPC_Byte_Read env (Some e0) b l; e \<leftarrow> e; B st e p b })
    s s' (le_bytes 1 (unat e) @ bs)"
  unfolding reads_def
proof (intro allI impI)
  fix b rest
  assume b: "buf_wf b" "unat (buf_length b) \<le> 2 ^ 31"
    "stream_rest (stream_of b) = (le_bytes 1 (unat e) @ bs) @ rest"
  then have r: "stream_rest (stream_of b) = le_bytes 1 (unat e) @ bs @ rest" by simp
  have "SOPC_Byte_Read env (Some e0) (Some b) l = Some (SOPC_STATUS_OK, Some e, Some (buf_advance 1 b))"
    using reads_bindD [OF byte_c.read_law b(1,2) r] assms(1,2) by simp
  moreover have "B SOPC_STATUS_OK e (Some s) (Some (buf_advance 1 b)) =
      Some (SOPC_STATUS_OK, Some s', Some (buf_advance (length bs) (buf_advance 1 b)))"
    using reads_bindD [OF assms(3), of "buf_advance 1 b" rest] stream_rest_split [OF b(1) r] b(2) by simp
  ultimately show "(\<lambda>(p, b). do { (st, e, b) \<leftarrow> SOPC_Byte_Read env (Some e0) b l; e \<leftarrow> e; B st e p b })
      (Some s, Some b) = Some (SOPC_STATUS_OK, Some s', Some (buf_advance (length (le_bytes 1 (unat e) @ bs)) b))"
    by (simp add: buf_advance_advance)
qed

lemma safe_flags:
  assumes "\<And>e. safe_read (\<lambda>(p, b). B SOPC_STATUS_OK e p b) s Q"
    and "\<And>st e b. st \<noteq> SOPC_STATUS_OK \<Longrightarrow>
      \<exists>s' st'. B st e (Some s) (Some b) = Some (st', Some s', Some b) \<and> st' \<noteq> SOPC_STATUS_OK"
  shows "safe_read (\<lambda>(p, b). do { (st, e, b) \<leftarrow> SOPC_Byte_Read env (Some e0) b l; e \<leftarrow> e; B st e p b }) s Q"
  unfolding safe_read_def
proof (intro allI impI)
  fix b assume b: "buf_wf b" "unat (buf_length b) \<le> 2 ^ 31"
  obtain st e b1 where 1: "SOPC_Byte_Read env (Some e0) (Some b) l = Some (st, Some e, Some b1)"
    "buf_read_step b b1" "buf_wf b1" "unat (buf_length b1) \<le> 2 ^ 31"
    using safe_readE [OF byte_c.read_safe b] by metis
  show "\<exists>st s' b'. (\<lambda>(p, b). do { (st, e, b) \<leftarrow> SOPC_Byte_Read env (Some e0) b l; e \<leftarrow> e; B st e p b })
      (Some s, Some b) = Some (st, Some s', Some b') \<and> buf_read_step b b' \<and> (st = SOPC_STATUS_OK \<longrightarrow> Q s')"
  proof (cases "st = SOPC_STATUS_OK")
    case True
    obtain st2 s2 b2 where "B SOPC_STATUS_OK e (Some s) (Some b1) = Some (st2, Some s2, Some b2)"
      "buf_read_step b1 b2" "st2 = SOPC_STATUS_OK \<Longrightarrow> Q s2"
      using safe_readE [OF assms(1) 1(3,4)] by metis
    with 1 True buf_read_step_trans [OF 1(2)] show ?thesis by simp
  next
    case False
    with 1 assms(2) [of st e b1] show ?thesis by auto
  qed
qed

section \<open>Qualified names\<close>

definition enc_qname :: "SOPC_QualifiedName \<Rightarrow> byte list" where
  "enc_qname q = le_bytes 2 (unat (QN_NamespaceIndex q)) @ enc_string (QN_Name q)"

definition qname_ok :: "enc_env \<Rightarrow> SOPC_QualifiedName \<Rightarrow> bool" where
  "qname_ok env q = string_ok env (QN_Name q)"

definition dec_qname :: "SOPC_QualifiedName \<Rightarrow> SOPC_QualifiedName" where
  "dec_qname q = q\<lparr>QN_Name := dec_bytes [0] (QN_Name q)\<rparr>"

interpretation qname_c: codec SOPC_QualifiedName_Write SOPC_QualifiedName_Read
  "\<lambda>_. enc_qname" qname_ok qname_init "\<lambda>_. dec_qname" "\<lambda>env q. decoded_bytes 1 env (QN_Name q)" 3
proof
  fix env q lvl
  assume env: "mem_total env" and ok: "qname_ok env q" and lvl: "lvl + 3 \<le> max_level env"
  have "writes (\<lambda>b. and_then (SOPC_UInt16_Write env (Some (QN_NamespaceIndex q)) b (lvl + 1))
      (\<lambda>b. SOPC_String_Write env (Some (QN_Name q)) b (lvl + 1))) (enc_qname q)"
    unfolding enc_qname_def
    by (intro writes_seq uint16_c.write_law string_c.write_law) (use env ok lvl in \<open>simp_all add: qname_ok_def\<close>)
  then show "writes (\<lambda>b. SOPC_QualifiedName_Write env (Some q) b lvl) (enc_qname q)"
    unfolding SOPC_QualifiedName_Write_def by (intro writes_guard) (use lvl in simp_all)
  show "reads (\<lambda>(p, b). SOPC_QualifiedName_Read env p b lvl) qname_init (dec_qname q) (enc_qname q)"
    unfolding SOPC_QualifiedName_Read_def enc_qname_def
    by (rule reads_guard reads_on_error2 reads_seq2 reads_field2 reads_field uint16_c.read_law string_reads |
        use env ok lvl in \<open>simp add: qname_ok_def qname_init_def dec_qname_def; fail\<close> | rule refl)+
next
  fix env lvl
  show "safe_read (\<lambda>(p, b). SOPC_QualifiedName_Read env p b lvl) qname_init
      (\<lambda>q. decoded_bytes 1 env (QN_Name q))"
    unfolding SOPC_QualifiedName_Read_def
    by (rule safe_read_guard safe_on_error2 safe_seq2 [where Q = "\<lambda>q. QN_Name q = str_init"]
        safe_field2 safe_field uint16_c.read_safe string_safe | simp add: qname_init_def; fail)+
qed simp_all

section \<open>Localized texts\<close>

definition enc_ltext :: "SOPC_LocalizedText \<Rightarrow> byte list" where
  "enc_ltext t =
     (le_bytes 1 (unat (GetLocalizedTextEncodingByte t)) @
      (if 0 < sint (Str_Length (LT_defaultLocale t)) then enc_string (LT_defaultLocale t) else [])) @
     (if 0 < sint (Str_Length (LT_defaultText t)) then enc_string (LT_defaultText t) else [])"

definition ltext_ok :: "enc_env \<Rightarrow> SOPC_LocalizedText \<Rightarrow> bool" where
  "ltext_ok env t \<longleftrightarrow> string_ok env (LT_defaultLocale t) \<and> string_ok env (LT_defaultText t)"

definition dec_ltext :: "SOPC_LocalizedText \<Rightarrow> SOPC_LocalizedText" where
  "dec_ltext t = \<lparr>LT_defaultLocale = dec_bytes [0] (LT_defaultLocale t),
                  LT_defaultText = dec_bytes [0] (LT_defaultText t)\<rparr>"

definition decoded_ltext :: "enc_env \<Rightarrow> SOPC_LocalizedText \<Rightarrow> bool" where
  "decoded_ltext env t \<longleftrightarrow> decoded_bytes 1 env (LT_defaultLocale t) \<and> decoded_bytes 1 env (LT_defaultText t)"

lemma ltext_flags:
  "GetLocalizedTextEncodingByte t AND SOPC_LocalizedText_Locale \<noteq> 0 \<longleftrightarrow> 0 < sint (Str_Length (LT_defaultLocale t))"
  "GetLocalizedTextEncodingByte t AND SOPC_LocalizedText_Text \<noteq> 0 \<longleftrightarrow> 0 < sint (Str_Length (LT_defaultText t))"
  by (simp_all add: GetLocalizedTextEncodingByte_def SOPC_LocalizedText_Locale_def SOPC_LocalizedText_Text_def)

lemma dec_bytes_empty: "\<not> 0 < sint (Str_Length s) \<Longrightarrow> dec_bytes final s = str_init"
  by (simp add: dec_bytes_def)

lemma decoded_init [simp]: "decoded_bytes k env str_init"
  by (simp add: decoded_bytes_def)

lemma reads_optional_ltext:
  assumes "mem_total env" "ltext_ok env t" "lvl + 3 \<le> max_level env"
  shows "reads (\<lambda>(p, b). and_when (and_when (Some (SOPC_STATUS_OK, p, b))
      (0 < sint (Str_Length (LT_defaultLocale t)))
      (on_field LT_defaultLocale (\<lambda>v. LT_defaultLocale_update (\<lambda>_. v)) (\<lambda>p b. SOPC_String_Read env p b (lvl + 1))))
      (0 < sint (Str_Length (LT_defaultText t)))
      (on_field LT_defaultText (\<lambda>v. LT_defaultText_update (\<lambda>_. v)) (\<lambda>p b. SOPC_String_Read env p b (lvl + 1))))
    ltext_init (dec_ltext t)
    (([] @ (if 0 < sint (Str_Length (LT_defaultLocale t)) then enc_string (LT_defaultLocale t) else [])) @
     (if 0 < sint (Str_Length (LT_defaultText t)) then enc_string (LT_defaultText t) else []))"
  by (rule reads_optional_field reads_skip2 string_reads refl |
      use assms in \<open>simp add: ltext_ok_def ltext_init_def dec_ltext_def dec_bytes_empty; fail\<close>)+

interpretation ltext_c: codec SOPC_LocalizedText_Write SOPC_LocalizedText_Read
  "\<lambda>_. enc_ltext" ltext_ok ltext_init "\<lambda>_. dec_ltext" decoded_ltext 3
proof
  fix env t lvl
  assume env: "mem_total env" and ok: "ltext_ok env t" and lvl: "lvl + 3 \<le> max_level env"
  let ?e = "GetLocalizedTextEncodingByte t"
  have "writes (\<lambda>b. and_when (and_when (SOPC_Byte_Write env (Some ?e) b (lvl + 1))
        (0 < sint (Str_Length (LT_defaultLocale t)))
        (\<lambda>b. SOPC_String_Write env (Some (LT_defaultLocale t)) b (lvl + 1)))
        (0 < sint (Str_Length (LT_defaultText t)))
        (\<lambda>b. SOPC_String_Write env (Some (LT_defaultText t)) b (lvl + 1))) (enc_ltext t)"
    unfolding enc_ltext_def
    by (intro writes_when byte_c.write_law string_c.write_law)
      (use env ok lvl in \<open>simp_all add: ltext_ok_def\<close>)
  then show "writes (\<lambda>b. SOPC_LocalizedText_Write env (Some t) b lvl) (enc_ltext t)"
    unfolding SOPC_LocalizedText_Write_def
    by (intro writes_guard) (use lvl in \<open>simp_all add: ltext_flags\<close>)
  show "reads (\<lambda>(p, b). SOPC_LocalizedText_Read env p b lvl) ltext_init (dec_ltext t) (enc_ltext t)"
    unfolding SOPC_LocalizedText_Read_def enc_ltext_def append_assoc
    by (rule reads_guard reads_flags reads_on_error2 | use env lvl in \<open>simp; fail\<close>)+
      (use env ok lvl reads_optional_ltext in \<open>simp add: ltext_flags\<close>)
next
  fix env lvl
  show "safe_read (\<lambda>(p, b). SOPC_LocalizedText_Read env p b lvl) ltext_init (decoded_ltext env)"
    unfolding SOPC_LocalizedText_Read_def
    by (rule safe_read_guard safe_flags safe_on_error2 safe_skip2
        safe_optional_field [where get = LT_defaultLocale and Q = "\<lambda>t. t = ltext_init"
            and P = "\<lambda>_. decoded_bytes 1 env"]
        safe_optional_field [where get = LT_defaultText and P = "\<lambda>_. decoded_bytes 1 env"
            and Q = "\<lambda>t. decoded_bytes 1 env (LT_defaultLocale t) \<and> LT_defaultText t = str_init"]
        string_safe | simp add: ltext_init_def decoded_ltext_def; fail)+
qed simp_all

section \<open>Expanded node identifiers\<close>

definition enc_expnodeid :: "SOPC_ExpandedNodeId \<Rightarrow> byte list" where
  "enc_expnodeid x =
     (((case ExpandedNodeId_EncodingByte x of None \<Rightarrow> [] | Some e \<Rightarrow> le_bytes 1 (unat e)) @
       enc_nodeid_body (Exp_NodeId x)) @
      (if 0 < sint (Str_Length (Exp_NamespaceUri x)) then enc_string (Exp_NamespaceUri x) else [])) @
     (if Exp_ServerIndex x > 0 then le_bytes 4 (unat (Exp_ServerIndex x)) else [])"

definition expnodeid_ok :: "enc_env \<Rightarrow> SOPC_ExpandedNodeId \<Rightarrow> bool" where
  "expnodeid_ok env x \<longleftrightarrow> nodeid_ok env (Exp_NodeId x) \<and> string_ok env (Exp_NamespaceUri x)"

definition dec_expnodeid :: "SOPC_ExpandedNodeId \<Rightarrow> SOPC_ExpandedNodeId" where
  "dec_expnodeid x = x\<lparr>Exp_NodeId := dec_nodeid (Exp_NodeId x),
                       Exp_NamespaceUri := dec_bytes [0] (Exp_NamespaceUri x)\<rparr>"

definition decoded_expnodeid :: "enc_env \<Rightarrow> SOPC_ExpandedNodeId \<Rightarrow> bool" where
  "decoded_expnodeid env x \<longleftrightarrow>
     decoded_nodeid env (Exp_NodeId x) \<and> decoded_bytes 1 env (Exp_NamespaceUri x)"

text \<open>The flags do not disturb the encoding type, and each is found where it was set.\<close>

lemma expnodeid_flags:
  assumes "nodeid_ok env (Exp_NodeId x)"
  obtains e where "ExpandedNodeId_EncodingByte x = Some e"
    "GetNodeIdDataEncoding (Exp_NodeId x) = Some (0x0F AND e)"
    "e AND SOPC_NodeIdEncoding_NamespaceUriFlag \<noteq> 0 \<longleftrightarrow> 0 < sint (Str_Length (Exp_NamespaceUri x))"
    "e AND SOPC_NodeIdEncoding_ServerIndexFlag \<noteq> 0 \<longleftrightarrow> Exp_ServerIndex x > 0"
proof -
  obtain e where e: "GetNodeIdDataEncoding (Exp_NodeId x) = Some e" "e \<in> {0, 1, 2, 3, 4, 5}"
    using assms
    by (cases rule: nodeid_ok_cases) (auto simp: GetNodeIdDataEncoding_def NodeIdEncoding_defs)
  show thesis
    by (rule that [of "(if 0 < sint (Str_Length (Exp_NamespaceUri x)) then e OR 0x80 else e) OR
          (if Exp_ServerIndex x > 0 then 0x40 else 0)"])
      (use e in \<open>auto simp: ExpandedNodeId_EncodingByte_def NodeIdEncoding_defs Let_def\<close>)
qed

interpretation expnodeid_c: codec SOPC_ExpandedNodeId_Write SOPC_ExpandedNodeId_Read
  "\<lambda>_. enc_expnodeid" expnodeid_ok expnodeid_init "\<lambda>_. dec_expnodeid" decoded_expnodeid 3
proof
  fix env x lvl
  assume env: "mem_total env" and ok: "expnodeid_ok env x" and lvl: "lvl + 3 \<le> max_level env"
  have oks: "nodeid_ok env (Exp_NodeId x)" "string_ok env (Exp_NamespaceUri x)"
    using ok by (simp_all add: expnodeid_ok_def)
  obtain e where e: "ExpandedNodeId_EncodingByte x = Some e"
    "GetNodeIdDataEncoding (Exp_NodeId x) = Some (0x0F AND e)"
    "e AND SOPC_NodeIdEncoding_NamespaceUriFlag \<noteq> 0 \<longleftrightarrow> 0 < sint (Str_Length (Exp_NamespaceUri x))"
    "e AND SOPC_NodeIdEncoding_ServerIndexFlag \<noteq> 0 \<longleftrightarrow> Exp_ServerIndex x > 0"
    using expnodeid_flags [OF oks(1)] by metis
  have enc: "enc_expnodeid x = ((le_bytes 1 (unat e) @ enc_nodeid_body (Exp_NodeId x)) @
      (if 0 < sint (Str_Length (Exp_NamespaceUri x)) then enc_string (Exp_NamespaceUri x) else [])) @
      (if Exp_ServerIndex x > 0 then le_bytes 4 (unat (Exp_ServerIndex x)) else [])"
    by (simp add: enc_expnodeid_def e(1))
  have "writes (\<lambda>b. and_when (and_when (Internal_NodeId_Write env b e (Exp_NodeId x) (lvl + 1))
      (0 < sint (Str_Length (Exp_NamespaceUri x)))
      (\<lambda>b. SOPC_String_Write env (Some (Exp_NamespaceUri x)) b (lvl + 1)))
      (Exp_ServerIndex x > 0)
      (\<lambda>b. SOPC_UInt32_Write env (Some (Exp_ServerIndex x)) b (lvl + 1))) (enc_expnodeid x)"
    unfolding enc
    by (intro writes_when Internal_NodeId_Write_law string_c.write_law uint32_c.write_law)
      (use env oks lvl e in simp_all)
  then show "writes (\<lambda>b. SOPC_ExpandedNodeId_Write env (Some x) b lvl) (enc_expnodeid x)"
    unfolding SOPC_ExpandedNodeId_Write_def by (intro writes_guard) (use lvl e in simp_all)
  let ?opt = "(if 0 < sint (Str_Length (Exp_NamespaceUri x)) then enc_string (Exp_NamespaceUri x) else []) @
      (if Exp_ServerIndex x > 0 then le_bytes 4 (unat (Exp_ServerIndex x)) else [])"
  have opt: "reads (\<lambda>(p, b). and_when (and_when (Some (SOPC_STATUS_OK, p, b))
      (0 < sint (Str_Length (Exp_NamespaceUri x)))
      (on_field Exp_NamespaceUri (\<lambda>v. Exp_NamespaceUri_update (\<lambda>_. v)) (\<lambda>p b. SOPC_String_Read env p b (lvl + 1))))
      (Exp_ServerIndex x > 0)
      (on_field Exp_ServerIndex (\<lambda>v. Exp_ServerIndex_update (\<lambda>_. v)) (\<lambda>p b. SOPC_UInt32_Read env p b (lvl + 1))))
      (expnodeid_init\<lparr>Exp_NodeId := dec_nodeid (Exp_NodeId x)\<rparr>) (dec_expnodeid x)
      (([] @ (if 0 < sint (Str_Length (Exp_NamespaceUri x)) then enc_string (Exp_NamespaceUri x) else [])) @
       (if Exp_ServerIndex x > 0 then le_bytes 4 (unat (Exp_ServerIndex x)) else []))"
    by (rule reads_optional_field reads_skip2 string_reads uint32_c.read_law refl |
        use env oks lvl in \<open>simp add: expnodeid_init_def; fail\<close>)+
      (cases x, auto simp: expnodeid_init_def dec_expnodeid_def dec_bytes_empty word_gt_0)
  show "reads (\<lambda>(p, b). SOPC_ExpandedNodeId_Read env p b lvl) expnodeid_init (dec_expnodeid x) (enc_expnodeid x)"
    unfolding reads_def
  proof (intro allI impI)
    fix b rest
    assume b: "buf_wf b" "unat (buf_length b) \<le> 2 ^ 31"
      "stream_rest (stream_of b) = enc_expnodeid x @ rest"
    let ?head = "le_bytes 1 (unat e) @ enc_nodeid_body (Exp_NodeId x)"
    have r: "stream_rest (stream_of b) = ?head @ ?opt @ rest" using b(3) by (simp add: enc)
    have hd: "Internal_NodeId_Read env (Some b) nodeid_zero 0 (lvl + 1) =
        Some (SOPC_STATUS_OK, (dec_nodeid (Exp_NodeId x), e), Some (buf_advance (length ?head) b))"
      using Internal_NodeId_Read_law [OF env oks(1) _ e(2) b(1,2), of "lvl + 1" "?opt @ rest" 0] r lvl by simp
    have "buf_wf (buf_advance (length ?head) b)"
      "stream_rest (stream_of (buf_advance (length ?head) b)) = ?opt @ rest"
      using stream_rest_split [OF b(1) r] by simp_all
    from reads_bindD [OF opt this(1), of rest] this(2) b(2) hd lvl
    show "(\<lambda>(p, b). SOPC_ExpandedNodeId_Read env p b lvl) (Some expnodeid_init, Some b) =
        Some (SOPC_STATUS_OK, Some (dec_expnodeid x), Some (buf_advance (length (enc_expnodeid x)) b))"
      by (simp add: SOPC_ExpandedNodeId_Read_def expnodeid_init_def e(3,4) enc buf_advance_advance add.assoc
          split del: if_split)
  qed
next
  fix env lvl
  show "safe_read (\<lambda>(p, b). SOPC_ExpandedNodeId_Read env p b lvl) expnodeid_init (decoded_expnodeid env)"
    unfolding SOPC_ExpandedNodeId_Read_def
  proof (rule safe_read_guard, unfold safe_read_def, intro allI impI, goal_cases)
    case (1 b)
    obtain st n e b1
      where hd: "Internal_NodeId_Read env (Some b) nodeid_zero 0 (lvl + 1) = Some (st, (n, e), Some b1)"
      "buf_read_step b b1" "buf_wf b1" "unat (buf_length b1) \<le> 2 ^ 31"
      "st = SOPC_STATUS_OK \<Longrightarrow> decoded_nodeid env n"
      using Internal_NodeId_Read_safe [OF 1, of env 0 "lvl + 1"] by metis
    let ?h = "\<lambda>st (p, b). (st, map_option (\<lambda>x. x\<lparr>Exp_NodeId := the (SOPC_NodeId_Clear (Some (Exp_NodeId x))),
        Exp_NamespaceUri := str_init\<rparr>) p, b)"
    show ?case
    proof (cases "st = SOPC_STATUS_OK")
      case True
      with hd(5) have n: "decoded_nodeid env n" by simp
      define F where "F = (\<lambda>(p :: SOPC_ExpandedNodeId option) b. on_error (and_when (and_when
          (Some (SOPC_STATUS_OK, p, b)) (e AND SOPC_NodeIdEncoding_NamespaceUriFlag \<noteq> 0)
          (on_field Exp_NamespaceUri (\<lambda>v. Exp_NamespaceUri_update (\<lambda>_. v)) (\<lambda>p b. SOPC_String_Read env p b (lvl + 1))))
          (e AND SOPC_NodeIdEncoding_ServerIndexFlag \<noteq> 0)
          (on_field Exp_ServerIndex (\<lambda>v. Exp_ServerIndex_update (\<lambda>_. v)) (\<lambda>p b. SOPC_UInt32_Read env p b (lvl + 1)))) ?h)"
      have "safe_read (\<lambda>(p, b). F p b) (expnodeid_init\<lparr>Exp_NodeId := n\<rparr>) (decoded_expnodeid env)"
        unfolding F_def
        by (rule safe_on_error2 safe_skip2 string_safe uint32_c.read_safe
            safe_optional_field [where get = Exp_NamespaceUri and P = "\<lambda>_. decoded_bytes 1 env"
              and Q = "\<lambda>x. Exp_NodeId x = n \<and> Exp_NamespaceUri x = str_init"]
            safe_optional_field [where get = Exp_ServerIndex and P = "\<lambda>_ _. True"
              and Q = "\<lambda>x. Exp_NodeId x = n \<and> decoded_bytes 1 env (Exp_NamespaceUri x)"] |
            use n in \<open>simp add: expnodeid_init_def decoded_expnodeid_def; fail\<close>)+
      then obtain st2 x b2 where "F (Some (expnodeid_init\<lparr>Exp_NodeId := n\<rparr>)) (Some b1) =
          Some (st2, Some x, Some b2)" "buf_read_step b1 b2" "st2 = SOPC_STATUS_OK \<Longrightarrow> decoded_expnodeid env x"
        using safe_readE hd(3,4) by metis
      with True hd(1) buf_read_step_trans [OF hd(2)] show ?thesis
        by (simp add: expnodeid_init_def F_def)
    next
      case False
      with hd show ?thesis by (simp add: expnodeid_init_def)
    qed
  qed
qed simp_all

section \<open>Diagnostic informations\<close>

definition enc_diag_members :: "SOPC_DiagnosticInfo \<Rightarrow> byte list" where
  "enc_diag_members d =
     (((((((if sint (DI_SymbolicId d) > -1 then le_bytes 4 (unat (DI_SymbolicId d)) else [])) @
      (if sint (DI_NamespaceUri d) > -1 then le_bytes 4 (unat (DI_NamespaceUri d)) else [])) @
      (if sint (DI_Locale d) > -1 then le_bytes 4 (unat (DI_Locale d)) else [])) @
      (if sint (DI_LocalizedText d) > -1 then le_bytes 4 (unat (DI_LocalizedText d)) else [])) @
      (if 0 < sint (Str_Length (DI_AdditionalInfo d)) then enc_string (DI_AdditionalInfo d) else [])) @
      (if DI_InnerStatusCode d > 0 then le_bytes 4 (unat (DI_InnerStatusCode d)) else []))"

lemma or_when: "(if c then x OR f else x) = x OR (if c then f else (0 :: byte))"
  by simp

lemma GetDiagInfoEncodingByte_or:
  "GetDiagInfoEncodingByte d =
     (if sint (DI_SymbolicId d) > -1 then 0x01 else 0) OR
     (if sint (DI_NamespaceUri d) > -1 then 0x02 else 0) OR
     (if sint (DI_Locale d) > -1 then 0x08 else 0) OR
     (if sint (DI_LocalizedText d) > -1 then 0x04 else 0) OR
     (if 0 < sint (Str_Length (DI_AdditionalInfo d)) then 0x10 else 0) OR
     (if DI_InnerStatusCode d > 0 then 0x20 else 0) OR
     (if DI_InnerDiagnosticInfo d \<noteq> None then 0x40 else 0)"
  unfolding GetDiagInfoEncodingByte_def DiagInfoEncoding_defs Let_def or_when by (simp only: or.assoc or.left_neutral)

lemma and_if: "(if c then x else (0 :: byte)) AND y = (if c then x AND y else 0)"
  by simp

lemma diag_flags:
  "GetDiagInfoEncodingByte d AND SOPC_DiagInfoEncoding_SymbolicId \<noteq> 0 \<longleftrightarrow> sint (DI_SymbolicId d) > -1"
  "GetDiagInfoEncodingByte d AND SOPC_DiagInfoEncoding_Namespace \<noteq> 0 \<longleftrightarrow> sint (DI_NamespaceUri d) > -1"
  "GetDiagInfoEncodingByte d AND SOPC_DiagInfoEncoding_Locale \<noteq> 0 \<longleftrightarrow> sint (DI_Locale d) > -1"
  "GetDiagInfoEncodingByte d AND SOPC_DiagInfoEncoding_LocalizedTest \<noteq> 0 \<longleftrightarrow> sint (DI_LocalizedText d) > -1"
  "GetDiagInfoEncodingByte d AND SOPC_DiagInfoEncoding_AdditionalInfo \<noteq> 0 \<longleftrightarrow>
    0 < sint (Str_Length (DI_AdditionalInfo d))"
  "GetDiagInfoEncodingByte d AND SOPC_DiagInfoEncoding_InnerStatusCode \<noteq> 0 \<longleftrightarrow> DI_InnerStatusCode d > 0"
  "GetDiagInfoEncodingByte d AND SOPC_DiagInfoEncoding_InnerDianosticInfo \<noteq> 0 \<longleftrightarrow>
    DI_InnerDiagnosticInfo d \<noteq> None"
  unfolding GetDiagInfoEncodingByte_or DiagInfoEncoding_defs bit.conj_disj_distrib2 and_if
  by (simp_all split del: if_split) (simp_all split: if_split)

primrec enc_diag :: "SOPC_DiagnosticInfo \<Rightarrow> byte list" where
  "enc_diag (DiagnosticInfo a b c e f g h) =
     (let d = DiagnosticInfo a b c e f g h
      in le_bytes 1 (unat (GetDiagInfoEncodingByte d)) @ enc_diag_members d @
         (case map_option enc_diag h of None \<Rightarrow> [] | Some bs \<Rightarrow> bs))"

text \<open>The level is the number of diagnostic informations around this one.\<close>

primrec diag_ok :: "enc_env \<Rightarrow> SOPC_DiagnosticInfo \<Rightarrow> nat \<Rightarrow> bool" where
  "diag_ok env (DiagnosticInfo a b c e f g h) = (\<lambda>l. string_ok env f \<and>
     (case map_option (diag_ok env) h of None \<Rightarrow> True
      | Some k \<Rightarrow> l + 1 \<le> unat (max_nested_diag_info (enc_cfg env)) \<and> k (l + 1)))"

definition norm_index :: "i32 \<Rightarrow> i32" where
  "norm_index i = (if sint i > -1 then i else -1)"

primrec dec_diag :: "SOPC_DiagnosticInfo \<Rightarrow> SOPC_DiagnosticInfo" where
  "dec_diag (DiagnosticInfo a b c e f g h) =
     DiagnosticInfo (norm_index a) (norm_index b) (norm_index c) (norm_index e) (dec_bytes [0] f) g
       (map_option dec_diag h)"

primrec decoded_diag :: "enc_env \<Rightarrow> SOPC_DiagnosticInfo \<Rightarrow> nat \<Rightarrow> bool" where
  "decoded_diag env (DiagnosticInfo a b c e f g h) = (\<lambda>l. decoded_bytes 1 env f \<and>
     (case map_option (decoded_diag env) h of None \<Rightarrow> True
      | Some k \<Rightarrow> l + 1 \<le> unat (max_nested_diag_info (enc_cfg env)) \<and> k (l + 1)))"

lemma diag_members_write:
  assumes "mem_total env" "2 \<le> max_level env" "string_ok env (DI_AdditionalInfo d)"
  shows "writes (DiagnosticInfo_Write_Members env (GetDiagInfoEncodingByte d) d)
    (le_bytes 1 (unat (GetDiagInfoEncodingByte d)) @ enc_diag_members d)"
proof -
  have "writes (\<lambda>b. DiagnosticInfo_Write_Members env (GetDiagInfoEncodingByte d) d b)
     ((((((le_bytes 1 (unat (GetDiagInfoEncodingByte d)) @
      (if sint (DI_SymbolicId d) > -1 then le_bytes 4 (unat (DI_SymbolicId d)) else [])) @
      (if sint (DI_NamespaceUri d) > -1 then le_bytes 4 (unat (DI_NamespaceUri d)) else [])) @
      (if sint (DI_Locale d) > -1 then le_bytes 4 (unat (DI_Locale d)) else [])) @
      (if sint (DI_LocalizedText d) > -1 then le_bytes 4 (unat (DI_LocalizedText d)) else [])) @
      (if 0 < sint (Str_Length (DI_AdditionalInfo d)) then enc_string (DI_AdditionalInfo d) else [])) @
      (if DI_InnerStatusCode d > 0 then le_bytes 4 (unat (DI_InnerStatusCode d)) else []))"
    unfolding DiagnosticInfo_Write_Members_def diag_flags
    by (intro writes_when byte_c.write_law int32_c.write_law string_c.write_law status_c.write_law)
      (use assms in simp_all)
  then show ?thesis by (simp add: enc_diag_members_def split del: if_split)
qed

lemma diag_writes:
  assumes "mem_total env" "2 \<le> max_level env" "diag_ok env d l"
  shows "writes (\<lambda>b. SOPC_DiagnosticInfo_Write_Internal env (Some d) b l) (enc_diag d)"
  using assms(3)
proof (induction d arbitrary: l)
  case (DiagnosticInfo a b c e f g h)
  let ?d = "DiagnosticInfo a b c e f g h"
  have m: "writes (DiagnosticInfo_Write_Members env (GetDiagInfoEncodingByte ?d) ?d)
      (le_bytes 1 (unat (GetDiagInfoEncodingByte ?d)) @ enc_diag_members ?d)"
    using DiagnosticInfo.prems by (intro diag_members_write assms) simp
  have flag: "GetDiagInfoEncodingByte ?d AND SOPC_DiagInfoEncoding_InnerDianosticInfo \<noteq> 0 \<longleftrightarrow> h \<noteq> None"
    using diag_flags(7) [of ?d] by simp
  show ?case
  proof (cases h)
    case None
    with m flag show ?thesis by (simp add: Let_def)
  next
    case (Some i)
    with DiagnosticInfo.prems have l: "l + 1 \<le> unat (max_nested_diag_info (enc_cfg env))" "diag_ok env i (l + 1)"
      by simp_all
    then have "writes (\<lambda>b. SOPC_DiagnosticInfo_Write_Internal env (Some i) b (l + 1)) (enc_diag i)"
      using DiagnosticInfo.IH [of i "l + 1"] Some by simp
    with writes_seq [OF m this] l(1) Some flag show ?thesis by (simp add: Let_def not_less)
  qed
qed

lemma diag_members_read:
  assumes "mem_total env" "2 \<le> max_level env" "string_ok env f"
  shows "reads (\<lambda>(p, buf). DiagnosticInfo_Read_Members env
      (GetDiagInfoEncodingByte (DiagnosticInfo a b c e f g h)) p buf) diag_init
    (DiagnosticInfo (norm_index a) (norm_index b) (norm_index c) (norm_index e) (dec_bytes [0] f) g None)
    ([] @ enc_diag_members (DiagnosticInfo a b c e f g h))"
  unfolding DiagnosticInfo_Read_Members_def diag_flags enc_diag_members_def append_assoc [symmetric]
  by (rule reads_optional_field reads_skip2 int32_c.read_law string_reads status_c.read_law refl |
      use assms in \<open>simp add: diag_init_def put_diag_defs; fail\<close>)+
    (auto simp: diag_init_def put_diag_defs norm_index_def dec_bytes_empty word_gt_0)

text \<open>The part of the reader that handles the inner diagnostic information.\<close>

definition diag_read_inner ::
  "enc_env \<Rightarrow> nat \<Rightarrow> SOPC_DiagnosticInfo option \<times> bufp \<Rightarrow>
   (SOPC_ReturnStatus \<times> SOPC_DiagnosticInfo option \<times> bufp) option" where
  "diag_read_inner env l = (\<lambda>(p, buf). do {
     d \<leftarrow> p;
     if l + 1 > unat (max_nested_diag_info (enc_cfg env)) then Some (SOPC_STATUS_OUT_OF_MEMORY, Some d, buf)
     else if \<not> mem_ok env sizeof_SOPC_DiagnosticInfo then
       Some (SOPC_STATUS_OUT_OF_MEMORY, Some (put_InnerDiagnosticInfo None d), buf)
     else do {
       (st, inner, buf) \<leftarrow> SOPC_DiagnosticInfo_Read_Internal env (Some diag_init) buf (l + 1);
       Some (st, Some (put_InnerDiagnosticInfo (if st = SOPC_STATUS_OK then inner else None) d), buf) } })"

definition diag_read_body ::
  "enc_env \<Rightarrow> nat \<Rightarrow> SOPC_ReturnStatus \<Rightarrow> byte \<Rightarrow> SOPC_DiagnosticInfo option \<Rightarrow> bufp \<Rightarrow>
   (SOPC_ReturnStatus \<times> SOPC_DiagnosticInfo option \<times> bufp) option" where
  "diag_read_body env l st e p buf =
     on_error
       (and_when (and_then (Some (st, p, buf)) (\<lambda>(p, buf). DiagnosticInfo_Read_Members env e p buf))
         (e AND SOPC_DiagInfoEncoding_InnerDianosticInfo \<noteq> 0) (diag_read_inner env l))
       (\<lambda>st (p, b). (st, map_option DiagnosticInfo_Read_Failed p, b))"

lemma diag_read_eq:
  "SOPC_DiagnosticInfo_Read_Internal env (Some d) buf l = do {
     (st, e, buf) \<leftarrow> SOPC_Byte_Read env (Some 0) buf 0;
     e \<leftarrow> e;
     diag_read_body env l st e (Some d) buf }"
  by (simp add: diag_read_inner_def diag_read_body_def)

declare SOPC_DiagnosticInfo_Read_Internal.simps(2) [simp del]

lemma reads_cong: "(\<And>b. A (Some s, Some b) = B (Some s, Some b)) \<Longrightarrow> reads A s s' bs = reads B s s' bs"
  by (simp add: reads_def)

lemma safe_read_cong: "(\<And>b. A (Some s, Some b) = B (Some s, Some b)) \<Longrightarrow> safe_read A s Q = safe_read B s Q"
  by (simp add: safe_read_def)

lemma diag_reads:
  assumes "mem_total env" "2 \<le> max_level env" "diag_ok env d l"
  shows "reads (\<lambda>(p, b). SOPC_DiagnosticInfo_Read_Internal env p b l) diag_init (dec_diag d) (enc_diag d)"
  using assms(3)
proof (induction d arbitrary: l)
  case (DiagnosticInfo a b c e f g h)
  let ?d = "DiagnosticInfo a b c e f g h"
  let ?e = "GetDiagInfoEncodingByte ?d"
  let ?m = "DiagnosticInfo (norm_index a) (norm_index b) (norm_index c) (norm_index e) (dec_bytes [0] f) g None"
  have m: "reads (\<lambda>(p, buf). and_then (Some (SOPC_STATUS_OK, p, buf))
      (\<lambda>(p, buf). DiagnosticInfo_Read_Members env ?e p buf)) diag_init ?m (enc_diag_members ?d)"
    using diag_members_read [OF assms(1,2), of f a b c e g h] DiagnosticInfo.prems by simp
  have inner: "reads (diag_read_inner env l) ?m (dec_diag ?d) (case h of None \<Rightarrow> [] | Some i \<Rightarrow> enc_diag i)"
    if h: "h \<noteq> None"
  proof -
    obtain i where i: "h = Some i" using h by auto
    with DiagnosticInfo.prems have l: "l + 1 \<le> unat (max_nested_diag_info (enc_cfg env))" "diag_ok env i (l + 1)"
      by simp_all
    then have "reads (\<lambda>(p, b). SOPC_DiagnosticInfo_Read_Internal env p b (l + 1)) diag_init (dec_diag i) (enc_diag i)"
      using DiagnosticInfo.IH [of i "l + 1"] i by simp
    with l assms(1) i show ?thesis
      by (simp add: reads_def diag_read_inner_def put_diag_defs not_less)
  qed
  have "reads (\<lambda>(p, buf). diag_read_body env l SOPC_STATUS_OK ?e p buf) diag_init (dec_diag ?d)
      (enc_diag_members ?d @ (if h \<noteq> None then (case h of None \<Rightarrow> [] | Some i \<Rightarrow> enc_diag i) else []))"
    unfolding diag_read_body_def diag_flags SOPC_DiagnosticInfo.sel
    by (rule reads_on_error2, rule reads_when2 [OF m]) (use inner in simp_all)
  then have "reads (\<lambda>(p, b). do { (st, e, b) \<leftarrow> SOPC_Byte_Read env (Some 0) b 0; e \<leftarrow> e;
      diag_read_body env l st e p b }) diag_init (dec_diag ?d) (le_bytes 1 (unat ?e) @
      (enc_diag_members ?d @ (if h \<noteq> None then (case h of None \<Rightarrow> [] | Some i \<Rightarrow> enc_diag i) else [])))"
    using assms(1,2) by (intro reads_flags) simp_all
  then show ?case
    by (subst reads_cong [where B = "\<lambda>(p, b). do { (st, e, b) \<leftarrow> SOPC_Byte_Read env (Some 0) b 0; e \<leftarrow> e;
        diag_read_body env l st e p b }"]) (auto simp: diag_read_eq Let_def split: option.splits)
qed

lemma put_diag_sel:
  "DI_AdditionalInfo (put_SymbolicId w d) = DI_AdditionalInfo d"
  "DI_InnerDiagnosticInfo (put_SymbolicId w d) = DI_InnerDiagnosticInfo d"
  "DI_AdditionalInfo (put_NamespaceUri w d) = DI_AdditionalInfo d"
  "DI_InnerDiagnosticInfo (put_NamespaceUri w d) = DI_InnerDiagnosticInfo d"
  "DI_AdditionalInfo (put_Locale w d) = DI_AdditionalInfo d"
  "DI_InnerDiagnosticInfo (put_Locale w d) = DI_InnerDiagnosticInfo d"
  "DI_AdditionalInfo (put_LocalizedText w d) = DI_AdditionalInfo d"
  "DI_InnerDiagnosticInfo (put_LocalizedText w d) = DI_InnerDiagnosticInfo d"
  "DI_AdditionalInfo (put_InnerStatusCode v d) = DI_AdditionalInfo d"
  "DI_InnerDiagnosticInfo (put_InnerStatusCode v d) = DI_InnerDiagnosticInfo d"
  "DI_AdditionalInfo (put_AdditionalInfo s d) = s"
  "DI_InnerDiagnosticInfo (put_AdditionalInfo s d) = DI_InnerDiagnosticInfo d"
  by (cases d; simp add: put_diag_defs)+

lemma diag_members_safe:
  "safe_read (\<lambda>(p, b). DiagnosticInfo_Read_Members env e p b) diag_init
    (\<lambda>d. decoded_bytes 1 env (DI_AdditionalInfo d) \<and> DI_InnerDiagnosticInfo d = None)"
  unfolding DiagnosticInfo_Read_Members_def
  by (rule safe_skip2 int32_c.read_safe status_c.read_safe string_safe
      safe_optional_field [where get = DI_InnerStatusCode and P = "\<lambda>_ _. True"
        and Q = "\<lambda>d. decoded_bytes 1 env (DI_AdditionalInfo d) \<and> DI_InnerDiagnosticInfo d = None"]
      safe_optional_field [where P = "\<lambda>_. decoded_bytes 1 env" and get = DI_AdditionalInfo
        and Q = "\<lambda>d. DI_AdditionalInfo d = str_init \<and> DI_InnerDiagnosticInfo d = None"]
      safe_optional_field [where P = "\<lambda>_ _. True"
        and Q = "\<lambda>d. DI_AdditionalInfo d = str_init \<and> DI_InnerDiagnosticInfo d = None"] |
      simp add: diag_init_def put_diag_sel; fail)+

lemma decoded_diag_sel:
  "decoded_diag env d l \<longleftrightarrow> decoded_bytes 1 env (DI_AdditionalInfo d) \<and>
    (case DI_InnerDiagnosticInfo d of None \<Rightarrow> True
     | Some i \<Rightarrow> l + 1 \<le> unat (max_nested_diag_info (enc_cfg env)) \<and> decoded_diag env i (l + 1))"
  by (cases d) (auto split: option.splits)

lemma diag_inner_safe:
  assumes "decoded_bytes 1 env (DI_AdditionalInfo d)"
    and "l + 1 \<le> unat (max_nested_diag_info (enc_cfg env)) \<Longrightarrow>
      safe_read (\<lambda>(p, b). SOPC_DiagnosticInfo_Read_Internal env p b (l + 1)) diag_init
        (\<lambda>d. decoded_diag env d (l + 1))"
  shows "safe_read (diag_read_inner env l) d (\<lambda>d. decoded_diag env d l)"
  unfolding safe_read_def
proof (intro allI impI)
  fix b assume b: "buf_wf b" "unat (buf_length b) \<le> 2 ^ 31"
  show "\<exists>st s' b'. diag_read_inner env l (Some d, Some b) = Some (st, Some s', Some b') \<and>
      buf_read_step b b' \<and> (st = SOPC_STATUS_OK \<longrightarrow> decoded_diag env s' l)"
  proof (cases "l + 1 > unat (max_nested_diag_info (enc_cfg env)) \<or> \<not> mem_ok env sizeof_SOPC_DiagnosticInfo")
    case True
    with b show ?thesis by (auto simp: diag_read_inner_def buf_read_step_refl)
  next
    case False
    then have l: "l + 1 \<le> unat (max_nested_diag_info (enc_cfg env))" by simp
    obtain st i b1 where "SOPC_DiagnosticInfo_Read_Internal env (Some diag_init) (Some b) (l + 1) =
        Some (st, Some i, Some b1)" "buf_read_step b b1" "st = SOPC_STATUS_OK \<Longrightarrow> decoded_diag env i (l + 1)"
      using safe_readE [OF assms(2) [OF l] b] by metis
    with False l assms(1) show ?thesis
      by (cases d) (auto simp: diag_read_inner_def put_diag_defs)
  qed
qed

lemma diag_safe:
  "safe_read (\<lambda>(p, b). SOPC_DiagnosticInfo_Read_Internal env p b l) diag_init (\<lambda>d. decoded_diag env d l)"
proof (induction "Suc (unat (max_nested_diag_info (enc_cfg env))) - l" arbitrary: l rule: less_induct)
  case less
  have "safe_read (\<lambda>(p, b). diag_read_body env l SOPC_STATUS_OK e p b) diag_init (\<lambda>d. decoded_diag env d l)" for e
    unfolding diag_read_body_def and_then_OK prod.case
  proof (rule safe_on_error2, rule safe_when2 [OF diag_members_safe], goal_cases)
    case (1 d)
    then show ?case using less by (intro diag_inner_safe) simp_all
  next
    case (2 d)
    then show ?case by (subst decoded_diag_sel) simp
  qed auto
  moreover have "\<exists>s' st'. diag_read_body env l st e (Some diag_init) (Some b) = Some (st', Some s', Some b) \<and>
      st' \<noteq> SOPC_STATUS_OK" if "st \<noteq> SOPC_STATUS_OK" for st e b
    using that by (simp add: diag_read_body_def)
  ultimately have "safe_read (\<lambda>(p, b). do { (st, e, b) \<leftarrow> SOPC_Byte_Read env (Some 0) b 0; e \<leftarrow> e;
      diag_read_body env l st e p b }) diag_init (\<lambda>d. decoded_diag env d l)"
    by (intro safe_flags)
  then show ?case
    by (subst safe_read_cong [where B = "\<lambda>(p, b). do { (st, e, b) \<leftarrow> SOPC_Byte_Read env (Some 0) b 0; e \<leftarrow> e;
        diag_read_body env l st e p b }"]) (simp_all add: diag_read_eq)
qed

interpretation diag_c: codec SOPC_DiagnosticInfo_Write SOPC_DiagnosticInfo_Read
  "\<lambda>_. enc_diag" "\<lambda>env d. diag_ok env d 0" diag_init "\<lambda>_. dec_diag" "\<lambda>env d. decoded_diag env d 0" 2
proof
  fix env d lvl
  assume env: "mem_total env" and ok: "diag_ok env d 0" and lvl: "lvl + 2 \<le> max_level env"
  show "writes (\<lambda>b. SOPC_DiagnosticInfo_Write env (Some d) b lvl) (enc_diag d)"
    using diag_writes [OF env _ ok] lvl by (simp add: SOPC_DiagnosticInfo_Write_def)
  show "reads (\<lambda>(p, b). SOPC_DiagnosticInfo_Read env p b lvl) diag_init (dec_diag d) (enc_diag d)"
    using diag_reads [OF env _ ok] lvl by (simp add: SOPC_DiagnosticInfo_Read_def)
next
  fix env lvl
  show "safe_read (\<lambda>(p, b). SOPC_DiagnosticInfo_Read env p b lvl) diag_init (\<lambda>d. decoded_diag env d 0)"
    unfolding SOPC_DiagnosticInfo_Read_def by (intro safe_read_guard diag_safe)
qed simp_all

end
