(* ===== verification/Encoder_Properties.thy ===== *)
theory Encoder_Properties
  imports Struct_Laws
begin

unbundle bit_operations_syntax

text \<open>
  What the laws of the encoder mean for its users: round trips through a buffer, exactness of the
  writers, safety of the readers on arbitrary content, and the statuses of the error paths.
\<close>

section \<open>Statements\<close>

text \<open>There is memory, enough structure levels, and room in the buffer for a byte string.\<close>

definition enc_fits :: "enc_env \<Rightarrow> nat \<Rightarrow> SOPC_Buffer \<Rightarrow> byte list \<Rightarrow> bool" where
  "enc_fits env levels b bs \<longleftrightarrow>
     mem_total env \<and> levels \<le> max_level env \<and> buf_wf b \<and> unat (maximum_size b) \<le> 2 ^ 31 \<and>
     unat (position b) + length bs \<le> unat (maximum_size b)"

text \<open>
  Writing \<open>v\<close> appends \<open>bs\<close>; going back to the start of it and reading gives \<open>d\<close> and leaves the buffer
  where the write had left it.
\<close>

definition decodes_back ::
  "'a writer \<Rightarrow> 'a reader \<Rightarrow> 'a \<Rightarrow> nat \<Rightarrow> SOPC_Buffer \<Rightarrow> 'a \<Rightarrow> byte list \<Rightarrow> 'a \<Rightarrow> bool" where
  "decodes_back W R ini lvl b v bs d \<longleftrightarrow>
     (\<exists>b1 b2 b3. W (Some v) (Some b) lvl = Some (SOPC_STATUS_OK, Some b1) \<and>
        stream_of b1 = stream_put bs (stream_of b) \<and>
        SOPC_Buffer_SetPosition (Some b1) (position b) = (SOPC_STATUS_OK, Some b2) \<and>
        R (Some ini) (Some b2) lvl = Some (SOPC_STATUS_OK, Some d, Some b3) \<and>
        stream_of b3 = stream_of b1)"

text \<open>Reading any content ends without an access outside of memory, and accepted values are good.\<close>

definition decodes_safely :: "'a reader \<Rightarrow> 'a \<Rightarrow> nat \<Rightarrow> SOPC_Buffer \<Rightarrow> ('a \<Rightarrow> bool) \<Rightarrow> bool" where
  "decodes_safely R ini lvl b Q \<longleftrightarrow>
     (\<exists>st v b'. R (Some ini) (Some b) lvl = Some (st, Some v, Some b') \<and> buf_read_step b b' \<and>
        (st = SOPC_STATUS_OK \<longrightarrow> Q v))"

context codec_upto
begin

lemma decodes_back_law:
  "ok env v \<Longrightarrow> enc_fits env (lvl + depth) b (enc env v) \<Longrightarrow>
    decodes_back (W env) (R env) ini lvl b v (enc env v) (dec env v)"
  unfolding decodes_back_def enc_fits_def by (rule roundtrip) simp_all

lemma decodes_safely_law:
  "buf_wf b \<Longrightarrow> unat (buf_length b) \<le> 2 ^ 31 \<Longrightarrow> decodes_safely (R env) ini lvl b (good env)"
  unfolding decodes_safely_def by (rule decode_safe)

text \<open>The same round trip for an array.\<close>

lemma array_decodes_back:
  assumes vs: "\<forall>v\<in>set vs. ok env v" and len: "int (length vs) \<le> sint (max_array_length (enc_cfg env))"
    and sz: "0 < sizeOfElt" "length vs \<le> size_max env div sizeOfElt" and init: "init zero = ini"
    and fits: "enc_fits env (lvl + depth + 1) b (le_bytes 4 (length vs) @ concat (map (enc env) vs))"
  shows "\<exists>b1 b2 b3.
    SOPC_Write_Array env (Some b) (Some (of_nat (length vs))) (Some (Some vs)) (Some (W env)) lvl =
      Some (SOPC_STATUS_OK, Some b1) \<and>
    SOPC_Buffer_SetPosition (Some b1) (position b) = (SOPC_STATUS_OK, Some b2) \<and>
    SOPC_Read_Array env (Some b2) (Some n0) (Some None) sizeOfElt (Some (R env)) init zero lvl =
      Some (SOPC_STATUS_OK, Some (of_nat (length vs)),
        Some (if vs = [] then None else Some (map (dec env) vs)), Some b3) \<and>
    stream_of b3 = stream_of b1"
proof -
  let ?bs = "le_bytes 4 (length vs) @ concat (map (enc env) vs)"
  have f: "mem_total env" "lvl + depth + 1 \<le> max_level env" "buf_wf b" "unat (maximum_size b) \<le> 2 ^ 31"
    "unat (position b) + length ?bs \<le> unat (maximum_size b)"
    using fits by (simp_all add: enc_fits_def)
  have "length vs < 2 ^ 31" using len sint_less [of "max_array_length (enc_cfg env)"] by simp
  then have w: "writes_upto errs (\<lambda>b. SOPC_Write_Array env b (Some (of_nat (length vs))) (Some (Some vs)) (Some (W env)) lvl) ?bs"
    by (intro write_array_law f vs)
  obtain b1 b2 rest where 1: "SOPC_Write_Array env (Some b) (Some (of_nat (length vs))) (Some (Some vs))
      (Some (W env)) lvl = Some (SOPC_STATUS_OK, Some b1)"
    "SOPC_Buffer_SetPosition (Some b1) (position b) = (SOPC_STATUS_OK, Some b2)"
    "buf_wf b2" "unat (buf_length b2) \<le> 2 ^ 31" "stream_rest (stream_of b2) = ?bs @ rest"
    "stream_of (buf_advance (length ?bs) b2) = stream_of b1"
    using write_and_rewind [OF w f(3-5)] by metis
  have "SOPC_Read_Array env (Some b2) (Some n0) (Some None) sizeOfElt (Some (R env)) init zero lvl =
      Some (SOPC_STATUS_OK, Some (of_nat (length vs)),
        Some (if vs = [] then None else Some (map (dec env) vs)), Some (buf_advance (length ?bs) b2))"
    using read_array_law [of env vs lvl sizeOfElt b2 init zero rest n0] f(1,2) vs len sz init 1(3-5) by simp
  with 1 show ?thesis by blast
qed

end

section \<open>Examples for the witnesses\<close>

definition demo_enc :: enc_env where
  "demo_enc = \<lparr>mem_ok = (\<lambda>_. True), mem_fill = (\<lambda>_. 170), enc_cfg = SOPC_Common_GetDefaultEncodingConstants,
               nanf_bits = 0x7fc00000, nan_bits = 0x7ff8000000000000, size_max = 18446744073709551615\<rparr>"

definition demo_out :: SOPC_Buffer where
  "demo_out = \<lparr>initial_size = 16, current_size = 16, maximum_size = 512, position = 0, buf_length = 0,
               buf_data = Some (replicate 16 0)\<rparr>"

definition demo_in :: "byte list \<Rightarrow> SOPC_Buffer" where
  "demo_in bs = \<lparr>initial_size = of_nat (length bs), current_size = of_nat (length bs),
                 maximum_size = of_nat (length bs), position = 0, buf_length = of_nat (length bs),
                 buf_data = Some bs\<rparr>"

lemma demo_fits: "levels \<le> 50 \<Longrightarrow> length bs \<le> 512 \<Longrightarrow> enc_fits demo_enc levels demo_out bs"
  by (simp add: enc_fits_def demo_enc_def demo_out_def mem_total_def buf_wf_def
      SOPC_Common_GetDefaultEncodingConstants_def)

lemma demo_in_wf: "length bs < 256 \<Longrightarrow> buf_wf (demo_in bs) \<and> unat (buf_length (demo_in bs)) \<le> 2 ^ 31"
  by (simp add: demo_in_def buf_wf_def unat_of_nat_u32)

lemma demo_limits [simp]:
  "max_string_length (enc_cfg demo_enc) = 65535" "max_array_length (enc_cfg demo_enc) = 1000000"
  "max_nested_diag_info (enc_cfg demo_enc) = 100" "max_nested_struct (enc_cfg demo_enc) = 50"
  by (simp_all add: demo_enc_def SOPC_Common_GetDefaultEncodingConstants_def)

lemma length_enc_string: "length (enc_string s) = 4 + length (str_bytes s)"
  by (simp add: enc_string_def)

lemmas demo_string_simps = demo_string_def string_ok_def bytestring_wf_def str_bytes_def length_enc_string

section \<open>Strings\<close>

lemma str_bytes_dec: "bytestring_wf s \<Longrightarrow> str_bytes (dec_bytes final s) = str_bytes s"
  using length_str_bytes [of s] by (auto simp: dec_bytes_def str_bytes_def str_init_def)

text \<open>
  A string within the configured length, encoded into a buffer with room for it, is decoded to a
  string with the same bytes, which is zero terminated.
\<close>

theorem string_roundtrip:
  assumes "string_ok env s" and "enc_fits env (lvl + 2) b (enc_string s)"
  shows "decodes_back (SOPC_String_Write env) (SOPC_String_Read env) str_init lvl b s (enc_string s)
      (dec_bytes [0] s) \<and> str_bytes (dec_bytes [0] s) = str_bytes s"
  using string_c.decodes_back_law [OF assms] str_bytes_dec assms(1) by (simp add: string_ok_def)

theorem string_roundtrip_witness:
  "decodes_back (SOPC_String_Write demo_enc) (SOPC_String_Read demo_enc) str_init 0 demo_out
    (demo_string [65, 66]) (enc_string (demo_string [65, 66])) (dec_bytes [0] (demo_string [65, 66]))"
  using string_roundtrip [of demo_enc "demo_string [65, 66]" 0 demo_out]
  by (simp add: demo_string_simps demo_fits)

text \<open>
  C19: whatever a buffer of at most \<open>2 ^ 31\<close> bytes holds, reading a string from it accesses no memory
  outside of the blocks, only moves the position forward, and an accepted string is either empty or
  at most \<open>max_string_length\<close> bytes in a block with one more byte, which is zero.
\<close>

theorem string_decode_safe:
  assumes "buf_wf b" and "unat (buf_length b) \<le> 2 ^ 31"
  shows "decodes_safely (SOPC_String_Read env) str_init lvl b (decoded_bytes 1 env)"
  by (rule string_c.decodes_safely_law [OF assms])

theorem string_decode_safe_witness:
  "decodes_safely (SOPC_String_Read demo_enc) str_init 0 (demo_in [255, 255, 255, 127, 65])
    (decoded_bytes 1 demo_enc)"
  by (rule string_decode_safe) (use demo_in_wf [of "[255, 255, 255, 127, 65]"] in simp_all)

section \<open>Node identifiers\<close>

lemma nodeid_key_dec: "nodeid_ok env n \<Longrightarrow> nodeid_key (dec_nodeid n) = nodeid_key n"
  by (cases rule: nodeid_ok_cases [of env n])
    (simp_all add: nodeid_key_def dec_nodeid_def str_bytes_dec string_ok_def)

text \<open>
  C1: every node identifier (numeric in its three forms, string, GUID or byte string), encoded into a
  buffer with room for it, is decoded to an identifier with the same type, namespace and bytes.
\<close>

theorem nodeid_roundtrip:
  assumes "nodeid_ok env n" and "enc_fits env (lvl + 3) b (enc_nodeid n)"
  shows "decodes_back (SOPC_NodeId_Write env) (SOPC_NodeId_Read env) nodeid_zero lvl b n (enc_nodeid n)
      (dec_nodeid n) \<and> nodeid_key (dec_nodeid n) = nodeid_key n"
  using nodeid_c.decodes_back_law [OF assms] nodeid_key_dec [OF assms(1)] by simp

definition demo_numeric_id :: SOPC_NodeId where
  "demo_numeric_id = \<lparr>NodeId_IdentifierType = SOPC_IdentifierType_Numeric, NodeId_Namespace = 3,
                      NodeId_Data = Id_Numeric 2253\<rparr>"

lemma demo_numeric_id_ok: "nodeid_ok env demo_numeric_id" "length (enc_nodeid demo_numeric_id) = 4"
  by (simp_all add: demo_numeric_id_def nodeid_ok.simps enc_nodeid_def enc_nodeid_body_def
      GetNodeIdDataEncoding_def)

theorem nodeid_roundtrip_witness:
  "decodes_back (SOPC_NodeId_Write demo_enc) (SOPC_NodeId_Read demo_enc) nodeid_zero 0 demo_out
    demo_numeric_id (enc_nodeid demo_numeric_id) (dec_nodeid demo_numeric_id)"
  using nodeid_roundtrip [OF demo_numeric_id_ok(1), of demo_enc 0 demo_out]
  by (simp add: demo_fits demo_numeric_id_ok)

text \<open>
  C30: encoding a node identifier is exact: it succeeds when its encoding fits below the maximum size
  of the buffer and appends exactly these bytes; otherwise it fails with an encoding status, the
  buffer stays well-formed and its maximum size is kept.
\<close>

theorem nodeid_write_exact:
  assumes "mem_total env" and "nodeid_ok env n" and "lvl + 3 \<le> max_level env"
    and "buf_wf b" and "unat (maximum_size b) \<le> 2 ^ 31"
  shows "if unat (position b) + length (enc_nodeid n) \<le> unat (maximum_size b) then
      (\<exists>b'. SOPC_NodeId_Write env (Some n) (Some b) lvl = Some (SOPC_STATUS_OK, Some b') \<and> buf_wf b' \<and>
        stream_of b' = stream_put (enc_nodeid n) (stream_of b))
    else
      (\<exists>st b'. SOPC_NodeId_Write env (Some n) (Some b) lvl = Some (st, Some b') \<and>
        st \<in> {SOPC_STATUS_WOULD_BLOCK, SOPC_STATUS_ENCODING_ERROR} \<and> buf_wf b' \<and>
        maximum_size b' = maximum_size b)"
  by (rule writes_exact [OF nodeid_c.write_law [OF assms(1-3)] assms(4,5)])

definition demo_full :: SOPC_Buffer where
  "demo_full = \<lparr>initial_size = 3, current_size = 3, maximum_size = 3, position = 0, buf_length = 0,
                buf_data = Some [0, 0, 0]\<rparr>"

lemma demo_full_wf: "buf_wf demo_full" "maximum_size demo_full = 3" "position demo_full = 0"
  by (simp_all add: demo_full_def buf_wf_def)

theorem nodeid_write_exact_witness:
  "\<exists>st b'. SOPC_NodeId_Write demo_enc (Some demo_numeric_id) (Some demo_full) 0 = Some (st, Some b') \<and>
    st \<in> {SOPC_STATUS_WOULD_BLOCK, SOPC_STATUS_ENCODING_ERROR} \<and> buf_wf b' \<and>
    maximum_size b' = maximum_size demo_full"
  using nodeid_write_exact [of demo_enc demo_numeric_id 0 demo_full]
  by (simp add: demo_full_wf demo_numeric_id_ok) (simp add: demo_enc_def mem_total_def)

text \<open>
  Whatever a buffer holds, reading an expanded node identifier from it is memory safe, and an
  accepted value has the member of its type in the union, with bounded strings.
\<close>

theorem expnodeid_decode_safe:
  assumes "buf_wf b" and "unat (buf_length b) \<le> 2 ^ 31"
  shows "decodes_safely (SOPC_ExpandedNodeId_Read env) expnodeid_init lvl b (decoded_expnodeid env)"
  by (rule expnodeid_c.decodes_safely_law [OF assms])

theorem expnodeid_decode_safe_witness:
  "decodes_safely (SOPC_ExpandedNodeId_Read demo_enc) expnodeid_init 0 (demo_in [195, 1, 0, 4, 0])
    (decoded_expnodeid demo_enc)"
  by (rule expnodeid_decode_safe) (use demo_in_wf [of "[195, 1, 0, 4, 0]"] in simp_all)

text \<open>
  An expanded node identifier is decoded from its encoding with the same identifier, namespace
  URI and server index.
\<close>

theorem expnodeid_roundtrip:
  assumes "expnodeid_ok env x" and "enc_fits env (lvl + 3) b (enc_expnodeid x)"
  shows "decodes_back (SOPC_ExpandedNodeId_Write env) (SOPC_ExpandedNodeId_Read env) expnodeid_init lvl b x
      (enc_expnodeid x) (dec_expnodeid x) \<and>
    nodeid_key (Exp_NodeId (dec_expnodeid x)) = nodeid_key (Exp_NodeId x) \<and>
    str_bytes (Exp_NamespaceUri (dec_expnodeid x)) = str_bytes (Exp_NamespaceUri x) \<and>
    Exp_ServerIndex (dec_expnodeid x) = Exp_ServerIndex x"
  using expnodeid_c.decodes_back_law [OF assms] assms(1) nodeid_key_dec [of env "Exp_NodeId x"]
  by (simp add: dec_expnodeid_def expnodeid_ok_def str_bytes_dec string_ok_def)

definition demo_exp :: SOPC_ExpandedNodeId where
  "demo_exp = \<lparr>Exp_NodeId = demo_numeric_id, Exp_NamespaceUri = demo_string [117, 114, 110], Exp_ServerIndex = 7\<rparr>"

theorem expnodeid_roundtrip_witness:
  "decodes_back (SOPC_ExpandedNodeId_Write demo_enc) (SOPC_ExpandedNodeId_Read demo_enc) expnodeid_init 0
    demo_out demo_exp (enc_expnodeid demo_exp) (dec_expnodeid demo_exp)"
  using expnodeid_roundtrip [of demo_enc demo_exp 0 demo_out]
  by (simp add: demo_fits demo_exp_def expnodeid_ok_def demo_numeric_id_ok demo_string_simps
      enc_expnodeid_def ExpandedNodeId_EncodingByte_def enc_nodeid_body_def demo_numeric_id_def
      GetNodeIdDataEncoding_def nodeid_ok.simps Let_def)

text \<open>
  An encoding byte whose low four bits are above the six defined encodings is refused with
  \<open>SOPC_STATUS_INVALID_PARAMETERS\<close>; the branch of the source that reports an encoding error for
  \<open>SOPC_NodeIdEncoding_Invalid\<close> (0xFF) is never taken, since the byte is masked before.
\<close>

theorem nodeid_read_unknown_encoding:
  assumes "lvl + 1 < max_level env" and "buf_wf b" and "unat (buf_length b) \<le> 2 ^ 31"
    and "stream_rest (stream_of b) = e # rest" and "0x0F AND e > 5"
  shows "SOPC_NodeId_Read env (Some nodeid_zero) (Some b) lvl =
    Some (SOPC_STATUS_INVALID_PARAMETERS, Some nodeid_zero, Some (buf_advance 1 b))"
proof -
  have ne: "0x0F AND e \<noteq> 0xFF"
  proof
    assume "0x0F AND e = 0xFF"
    then have "0xFF AND 0xF0 = (0x0F AND e) AND (0xF0 :: byte)" by simp
    also have "\<dots> = 0" by (simp add: and.commute [of _ e] and.assoc)
    finally show False by simp
  qed
  have "SOPC_Byte_Read env (Some 0) (Some b) (Suc lvl) = Some (SOPC_STATUS_OK, Some e, Some (buf_advance 1 b))"
    using reads_bindD [OF reads_word [of 1 0 e], of b rest] assms le_bytes_byte [of e]
    by (simp add: SOPC_Byte_Read_def)
  then show ?thesis
    using assms(1,5) ne
    by (auto simp: SOPC_NodeId_Read_def Internal_NodeId_Read_def NodeId_Read_switch_def NodeIdEncoding_defs)
qed

theorem nodeid_read_unknown_encoding_witness:
  "SOPC_NodeId_Read demo_enc (Some nodeid_zero) (Some (demo_in [255])) 0 =
    Some (SOPC_STATUS_INVALID_PARAMETERS, Some nodeid_zero, Some (buf_advance 1 (demo_in [255])))"
  using demo_in_wf [of "[255]"]
  by (intro nodeid_read_unknown_encoding [where e = 255 and rest = "[]"])
    (simp_all, simp_all add: demo_in_def stream_rest_def buf_bytes_def)

section \<open>Diagnostic informations\<close>

text \<open>
  A diagnostic information, with inner ones nested up to the configured depth, is decoded from its
  encoding; negative indices come back as -1 and everything else is kept.
\<close>

theorem diag_roundtrip:
  assumes "diag_ok env d 0" and "enc_fits env (lvl + 2) b (enc_diag d)"
  shows "decodes_back (SOPC_DiagnosticInfo_Write env) (SOPC_DiagnosticInfo_Read env) diag_init lvl b d
    (enc_diag d) (dec_diag d)"
  by (rule diag_c.decodes_back_law [OF assms])

definition demo_diag :: SOPC_DiagnosticInfo where
  "demo_diag = DiagnosticInfo 3 (-1) 5 (-2) str_init 0x80000000
     (Some (DiagnosticInfo (-1) 2 (-1) (-1) (demo_string [65]) 0 None))"

theorem diag_roundtrip_witness:
  "decodes_back (SOPC_DiagnosticInfo_Write demo_enc) (SOPC_DiagnosticInfo_Read demo_enc) diag_init 0
    demo_out demo_diag (enc_diag demo_diag) (dec_diag demo_diag)"
  by (rule diag_roundtrip)
    (simp_all add: demo_fits demo_diag_def demo_string_simps str_init_def enc_diag_members_def Let_def)

text \<open>
  C25: whatever a buffer holds, reading a diagnostic information is memory safe, and an accepted value
  is nested at most \<open>max_nested_diag_info\<close> times: received data cannot drive the recursion deeper.
\<close>

theorem diag_decode_safe:
  assumes "buf_wf b" and "unat (buf_length b) \<le> 2 ^ 31"
  shows "decodes_safely (SOPC_DiagnosticInfo_Read env) diag_init lvl b (\<lambda>d. decoded_diag env d 0)"
  by (rule diag_c.decodes_safely_law [OF assms])

theorem diag_decode_safe_witness:
  "decodes_safely (SOPC_DiagnosticInfo_Read demo_enc) diag_init 0 (demo_in [64, 64, 64, 64])
    (\<lambda>d. decoded_diag demo_enc d 0)"
  by (rule diag_decode_safe) (use demo_in_wf [of "[64, 64, 64, 64]"] in simp_all)

section \<open>Qualified names and localized texts\<close>

text \<open>A qualified name is decoded from its encoding, with the same name.\<close>

theorem qname_roundtrip:
  assumes "qname_ok env q" and "enc_fits env (lvl + 3) b (enc_qname q)"
  shows "decodes_back (SOPC_QualifiedName_Write env) (SOPC_QualifiedName_Read env) qname_init lvl b q
      (enc_qname q) (dec_qname q) \<and>
    QN_NamespaceIndex (dec_qname q) = QN_NamespaceIndex q \<and> str_bytes (QN_Name (dec_qname q)) = str_bytes (QN_Name q)"
  using qname_c.decodes_back_law [OF assms] assms(1)
  by (simp add: dec_qname_def qname_ok_def str_bytes_dec string_ok_def)

theorem qname_roundtrip_witness:
  "decodes_back (SOPC_QualifiedName_Write demo_enc) (SOPC_QualifiedName_Read demo_enc) qname_init 0 demo_out
    \<lparr>QN_NamespaceIndex = 1, QN_Name = demo_string [78]\<rparr>
    (enc_qname \<lparr>QN_NamespaceIndex = 1, QN_Name = demo_string [78]\<rparr>)
    (dec_qname \<lparr>QN_NamespaceIndex = 1, QN_Name = demo_string [78]\<rparr>)"
  using qname_roundtrip [of demo_enc "\<lparr>QN_NamespaceIndex = 1, QN_Name = demo_string [78]\<rparr>" 0 demo_out]
  by (simp add: demo_fits qname_ok_def enc_qname_def demo_string_simps)

text \<open>
  An array of localized texts, of a length the configuration accepts, is decoded from its encoding
  element by element; an empty array is decoded to a \<open>NULL\<close> array.
\<close>

theorem ltext_array_roundtrip:
  assumes "\<forall>t\<in>set ts. ltext_ok env t" and "int (length ts) \<le> sint (max_array_length (enc_cfg env))"
    and "0 < sizeOfElt" and "length ts \<le> size_max env div sizeOfElt"
    and "enc_fits env (lvl + 3 + 1) b (le_bytes 4 (length ts) @ concat (map enc_ltext ts))"
  shows "\<exists>b1 b2 b3.
    SOPC_Write_Array env (Some b) (Some (of_nat (length ts))) (Some (Some ts))
      (Some (SOPC_LocalizedText_Write env)) lvl = Some (SOPC_STATUS_OK, Some b1) \<and>
    SOPC_Buffer_SetPosition (Some b1) (position b) = (SOPC_STATUS_OK, Some b2) \<and>
    SOPC_Read_Array env (Some b2) (Some n0) (Some None) sizeOfElt (Some (SOPC_LocalizedText_Read env))
      (\<lambda>_. ltext_init) zero lvl =
      Some (SOPC_STATUS_OK, Some (of_nat (length ts)),
        Some (if ts = [] then None else Some (map dec_ltext ts)), Some b3) \<and>
    stream_of b3 = stream_of b1"
  using assms by (intro ltext_c.array_decodes_back) simp_all

definition demo_ltext :: SOPC_LocalizedText where
  "demo_ltext = \<lparr>LT_defaultLocale = str_init, LT_defaultText = demo_string [72, 105]\<rparr>"

theorem ltext_array_roundtrip_witness:
  "\<exists>b1 b2 b3.
    SOPC_Write_Array demo_enc (Some demo_out) (Some (of_nat (length [demo_ltext, demo_ltext])))
      (Some (Some [demo_ltext, demo_ltext])) (Some (SOPC_LocalizedText_Write demo_enc)) 0 =
      Some (SOPC_STATUS_OK, Some b1) \<and>
    SOPC_Buffer_SetPosition (Some b1) (position demo_out) = (SOPC_STATUS_OK, Some b2) \<and>
    SOPC_Read_Array demo_enc (Some b2) (Some 0) (Some None) 72 (Some (SOPC_LocalizedText_Read demo_enc))
      (\<lambda>_. ltext_init) ltext_init 0 =
      Some (SOPC_STATUS_OK, Some (of_nat (length [demo_ltext, demo_ltext])),
        Some (if [demo_ltext, demo_ltext] = [] then None else Some (map dec_ltext [demo_ltext, demo_ltext])),
        Some b3) \<and>
    stream_of b3 = stream_of b1"
  by (rule ltext_array_roundtrip)
    (simp_all add: demo_fits demo_ltext_def ltext_ok_def enc_ltext_def demo_string_simps str_init_def,
     simp add: demo_enc_def)

text \<open>
  Whatever a buffer holds, reading an array of expanded node identifiers is memory safe; an
  accepted array has as many elements as its count says, at most \<open>max_array_length\<close>, all decoded.
\<close>

theorem array_decode_safe:
  assumes "buf_wf b" and "unat (buf_length b) \<le> 2 ^ 31"
  shows "\<exists>st n es b'. SOPC_Read_Array env (Some b) (Some n0) (Some None) sizeOfElt
      (Some (SOPC_ExpandedNodeId_Read env)) (\<lambda>_. expnodeid_init) zero lvl = Some (st, Some n, Some es, Some b') \<and>
    buf_read_step b b' \<and>
    (st = SOPC_STATUS_OK \<longrightarrow> 0 \<le> sint n \<and> int (length (case es of None \<Rightarrow> [] | Some l \<Rightarrow> l)) = sint n \<and>
      (0 < sint n \<longrightarrow> sint n \<le> sint (max_array_length (enc_cfg env))) \<and>
      (\<forall>l\<in>set_option es. \<forall>e\<in>set l. decoded_expnodeid env e))"
  using assms by (intro expnodeid_c.read_array_safe) simp_all

theorem array_decode_safe_witness:
  "\<exists>st n es b'. SOPC_Read_Array demo_enc (Some (demo_in [255, 255, 255, 127])) (Some 0) (Some None) 56
      (Some (SOPC_ExpandedNodeId_Read demo_enc)) (\<lambda>_. expnodeid_init) expnodeid_init 0 =
      Some (st, Some n, Some es, Some b')"
  using array_decode_safe [of "demo_in [255, 255, 255, 127]" demo_enc 0 56 expnodeid_init 0]
    demo_in_wf [of "[255, 255, 255, 127]"] by simp blast

section \<open>Floating point numbers\<close>

text \<open>
  A floating point number is decoded from its encoding as its normalised value. Normalisation
  keeps infinities, zeros and normal numbers; every NaN becomes the quiet NaN of the platform, and so
  does every subnormal number, although its comments only speak of NaN values.
\<close>

theorem float_roundtrip:
  assumes "enc_fits env (lvl + 1) b (le_bytes 4 (unat (normalize_float env v)))"
  shows "decodes_back (SOPC_Float_Write env) (SOPC_Float_Read env) ini lvl b v
      (le_bytes 4 (unat (normalize_float env v))) (normalize_float env v) \<and>
    normalize_float env v =
      (if fpclassify_float v \<in> {FP_NAN, FP_SUBNORMAL} \<and> fpclassify_float (nanf_bits env) \<noteq> FP_ZERO
       then nanf_bits env else v)"
  using float_c.decodes_back_law [OF _ assms, of ini]
  by (cases "fpclassify_float v") (simp_all add: normalize_float_def)

theorem float_roundtrip_witness:
  "decodes_back (SOPC_Float_Write demo_enc) (SOPC_Float_Read demo_enc) 0 0 demo_out 1
      (le_bytes 4 (unat (normalize_float demo_enc 1))) (normalize_float demo_enc 1) \<and>
    normalize_float demo_enc 1 = 0x7fc00000"
proof -
  have "fpclassify_float 1 = FP_SUBNORMAL" "fpclassify_float (nanf_bits demo_enc) \<noteq> FP_ZERO"
    "nanf_bits demo_enc = 0x7fc00000"
    by (simp_all add: fpclassify_float_def fp_class_of_def demo_enc_def take_bit_eq_mod drop_bit_eq_div)
  then show ?thesis
    using float_roundtrip [of demo_enc 0 demo_out 1 0, OF demo_fits] by auto
qed

section \<open>Statuses of a full buffer\<close>

text \<open>
  When not even the length of a string fits in the buffer, \<open>SOPC_String_Write\<close> answers
  \<open>SOPC_STATUS_WOULD_BLOCK\<close> as the encoder documents for a buffer without enough room, whereas
  \<open>SOPC_ByteString_Write\<close> maps the status a second time and answers \<open>SOPC_STATUS_ENCODING_ERROR\<close>. The
  buffer is unchanged in both cases.
\<close>

theorem string_write_full_status:
  assumes "lvl + 2 \<le> max_level env" and "buf_wf b" and "unat (maximum_size b) \<le> 2 ^ 31"
    and "unat (maximum_size b) < unat (position b) + 4"
  shows "SOPC_String_Write env (Some s) (Some b) lvl = Some (SOPC_STATUS_WOULD_BLOCK, Some b) \<and>
    SOPC_ByteString_Write env (Some s) (Some b) lvl = Some (SOPC_STATUS_ENCODING_ERROR, Some b)"
proof -
  have "unat (position b) + 4 < 2 ^ 32" using assms(2,3) by (auto elim!: buf_wfE)
  then have "SOPC_Buffer_Write env (Some b) (Some src) 4 = Some (SOPC_STATUS_OUT_OF_MEMORY, Some b)" for src
    using SOPC_Buffer_Write_full [OF assms(2), of 4 env src] assms(4) by simp
  then have "SOPC_Int32_Write env (Some v) (Some b) (Suc lvl) = Some (SOPC_STATUS_WOULD_BLOCK, Some b)" for v
    using assms(1) by (simp add: SOPC_Int32_Write_def write_word_def write_status_def)
  then show ?thesis
    using assms(1) by (simp add: SOPC_String_Write_def SOPC_ByteString_Write_def write_status_def)
qed

theorem string_write_full_status_witness:
  "SOPC_String_Write demo_enc (Some (demo_string [65])) (Some demo_full) 0 =
      Some (SOPC_STATUS_WOULD_BLOCK, Some demo_full) \<and>
    SOPC_ByteString_Write demo_enc (Some (demo_string [65])) (Some demo_full) 0 =
      Some (SOPC_STATUS_ENCODING_ERROR, Some demo_full)"
  by (rule string_write_full_status) (simp_all add: demo_full_wf)

end
