(* ===== verification/Dict.thy ===== *)
theory Dict
  imports S2OPC_Prelude
begin

unbundle bit_operations_syntax

text \<open>
  The hash table of \<open>src/Common/helpers/sopc_dict.c\<close>: open addressing with quadratic probing in a
  table whose size is a power of two, removal by tombstones, growing and shrinking. A key is a value
  of an arbitrary type (in the source a pointer or an integer); values are \<open>uintptr_t\<close>. Sizes and
  counters are natural numbers, the probe sequence is computed in 64 bits as in the source. The calls
  of the two free functions on a bucket are recorded in \<open>d_released\<close>.
\<close>

section \<open>The structure\<close>

record 'k SOPC_Dict =
  d_buckets :: "('k \<times> uintptr) list"
  d_size :: nat
  d_sizemask :: u64
  n_items :: nat
  n_busy :: nat
  empty_key :: 'k
  tombstone_key :: 'k
  hash_func :: "'k \<Rightarrow> u64"
  equal_func :: "'k \<Rightarrow> 'k \<Rightarrow> bool"
  d_released :: "('k \<times> uintptr) list"

definition DICT_INITIAL_SIZE :: nat where
  "DICT_INITIAL_SIZE = 16"

definition sizeof_SOPC_DictBucket :: nat where
  "sizeof_SOPC_DictBucket = 16"

definition sizeof_SOPC_Dict :: nat where
  "sizeof_SOPC_Dict = 88"

definition SOPC_DICT_HASH :: "u64 \<Rightarrow> nat \<Rightarrow> u64" where
  "SOPC_DICT_HASH hash i = hash + of_nat i div 2 + (of_nat i * of_nat i) div 2"

definition dict_index :: "('k, 'z) SOPC_Dict_scheme \<Rightarrow> u64 \<Rightarrow> nat \<Rightarrow> nat" where
  "dict_index d hash i = unat (SOPC_DICT_HASH hash i AND d_sizemask d)"

section \<open>Operations\<close>

definition set_empty_keys :: "('k \<times> uintptr) list \<Rightarrow> 'k \<Rightarrow> ('k \<times> uintptr) list" where
  "set_empty_keys buckets k = map (\<lambda>(_, v). (k, v)) buckets"

definition free_bucket :: "'k \<times> uintptr \<Rightarrow> 'k SOPC_Dict \<Rightarrow> 'k SOPC_Dict" where
  "free_bucket b d = d\<lparr>d_released := d_released d @ [b]\<rparr>"

text \<open>The loop of \<open>insert_item\<close> from probe \<open>i\<close> on; \<open>None\<close> is the failed assertion after it.\<close>

function insert_item_loop ::
  "'k SOPC_Dict \<Rightarrow> u64 \<Rightarrow> 'k \<Rightarrow> uintptr \<Rightarrow> bool \<Rightarrow> nat \<Rightarrow> (bool \<times> 'k SOPC_Dict) option" where
  "insert_item_loop d hash key val overwrite i =
     (if i < d_size d then
        (let idx = dict_index d hash i
         in if idx < length (d_buckets d) then
              (let b = d_buckets d ! idx
               in if fst b = empty_key d \<or> fst b = tombstone_key d then
                    Some (True, d\<lparr>d_buckets := (d_buckets d)[idx := (key, val)],
                                  n_items := n_items d + 1, n_busy := n_busy d + 1\<rparr>)
                  else if overwrite \<and> equal_func d key (fst b) then
                    Some (True, (free_bucket b d)\<lparr>d_buckets := (d_buckets d)[idx := (key, val)]\<rparr>)
                  else insert_item_loop d hash key val overwrite (i + 1))
            else None)
      else None)"
  by pat_completeness auto

termination
  by (relation "measure (\<lambda>(d, hash, key, val, overwrite, i). d_size d - i)") auto

declare insert_item_loop.simps [simp del]

definition insert_item ::
  "'k SOPC_Dict \<Rightarrow> u64 \<Rightarrow> 'k \<Rightarrow> uintptr \<Rightarrow> bool \<Rightarrow> (bool \<times> 'k SOPC_Dict) option" where
  "insert_item d hash key val overwrite = insert_item_loop d hash key val overwrite 0"

text \<open>
  Moving the buckets of the old table that hold an item. \<open>insert_item\<close> never returns false, so the
  restoration of the old table has no occasion to run.
\<close>

fun dict_resize_loop ::
  "('k \<times> uintptr) list \<Rightarrow> 'k SOPC_Dict \<Rightarrow> (bool \<times> 'k SOPC_Dict) option" where
  "dict_resize_loop [] d = Some (True, d)"
| "dict_resize_loop (b # bs) d =
     (if fst b \<noteq> empty_key d \<and> fst b \<noteq> tombstone_key d then do {
        (ok, d) \<leftarrow> insert_item d (hash_func d (fst b)) (fst b) (snd b) False;
        if ok then dict_resize_loop bs d else Some (False, d) }
      else dict_resize_loop bs d)"

text \<open>
  A table of zeroed memory: a zero key is the empty key when \<open>empty_key\<close> is 0, otherwise the keys are
  set to it.
\<close>

definition empty_buckets :: "'k \<Rightarrow> nat \<Rightarrow> ('k \<times> uintptr) list" where
  "empty_buckets k n = set_empty_keys (replicate n (k, 0)) k"

definition is_power_of_two :: "nat \<Rightarrow> bool" where
  "is_power_of_two n \<longleftrightarrow> n AND (n - 1) = 0"

definition dict_resize ::
  "('e) mem_env_scheme \<Rightarrow> 'k SOPC_Dict \<Rightarrow> nat \<Rightarrow> (bool \<times> 'k SOPC_Dict) option" where
  "dict_resize env d new_size =
     (if is_power_of_two new_size then
        (if mem_ok env (new_size * sizeof_SOPC_DictBucket) then do {
           (ok, d') \<leftarrow> dict_resize_loop (d_buckets d)
             (d\<lparr>n_busy := 0, n_items := 0, d_buckets := empty_buckets (empty_key d) new_size,
                d_size := new_size, d_sizemask := of_nat (new_size - 1)\<rparr>);
           Some (if ok then (True, d') else (False, d)) }
         else Some (False, d))
      else None)"

definition SOPC_Dict_Create ::
  "('e) mem_env_scheme \<Rightarrow> 'k \<Rightarrow> ('k \<Rightarrow> u64) \<Rightarrow> ('k \<Rightarrow> 'k \<Rightarrow> bool) \<Rightarrow> 'k SOPC_Dict option" where
  "SOPC_Dict_Create env k key_hash key_equal =
     (if mem_ok env sizeof_SOPC_Dict \<and> mem_ok env (DICT_INITIAL_SIZE * sizeof_SOPC_DictBucket) then
        Some \<lparr>d_buckets = empty_buckets k DICT_INITIAL_SIZE, d_size = DICT_INITIAL_SIZE,
              d_sizemask = of_nat (DICT_INITIAL_SIZE - 1), n_items = 0, n_busy = 0,
              empty_key = k, tombstone_key = k, hash_func = key_hash, equal_func = key_equal,
              d_released = []\<rparr>
      else None)"

text \<open>The buckets whose key and value \<open>SOPC_Dict_Delete\<close> frees.\<close>

definition SOPC_Dict_Delete :: "'k SOPC_Dict option \<Rightarrow> ('k \<times> uintptr) list" where
  "SOPC_Dict_Delete d =
     (case d of None \<Rightarrow> []
      | Some d \<Rightarrow> filter (\<lambda>b. fst b \<noteq> empty_key d \<and> fst b \<noteq> tombstone_key d) (d_buckets d))"

text \<open>The loop computes in \<open>size_t\<close>, which wraps; \<open>None\<close> is a loop that does not end.\<close>

definition size_mod :: nat where
  "size_mod = 2 ^ 64"

partial_function (option) minimum_dict_size_loop :: "nat \<Rightarrow> nat \<Rightarrow> nat option" where
  "minimum_dict_size_loop sz n =
     (if sz < 2 * n mod size_mod then minimum_dict_size_loop (sz * 2 mod size_mod) n else Some sz)"

definition minimum_dict_size :: "nat \<Rightarrow> nat \<Rightarrow> nat option" where
  "minimum_dict_size start_size n =
     (if is_power_of_two start_size then minimum_dict_size_loop start_size n else None)"

definition SOPC_Dict_Reserve ::
  "('e) mem_env_scheme \<Rightarrow> 'k SOPC_Dict option \<Rightarrow> nat \<Rightarrow> (bool \<times> 'k SOPC_Dict option) option" where
  "SOPC_Dict_Reserve env d n =
     (case d of None \<Rightarrow> Some (False, None)
      | Some d \<Rightarrow> do {
          sz \<leftarrow> minimum_dict_size (d_size d) n;
          (ok, d) \<leftarrow> dict_resize env d sz;
          Some (ok, Some d) })"

definition SOPC_Dict_SetTombstoneKey :: "'k SOPC_Dict \<Rightarrow> 'k \<Rightarrow> 'k SOPC_Dict option" where
  "SOPC_Dict_SetTombstoneKey d k =
     (if empty_key d \<noteq> k \<and> n_busy d = 0 then Some (d\<lparr>tombstone_key := k\<rparr>) else None)"

text \<open>
  On a power of two below \<open>2 ^ 53\<close>, the limit \<open>(size_t)(0.4 * (double) size)\<close> is two fifths of the
  size, rounded down.
\<close>

definition maybe_resize ::
  "('e) mem_env_scheme \<Rightarrow> 'k SOPC_Dict \<Rightarrow> nat \<Rightarrow> (bool \<times> 'k SOPC_Dict) option" where
  "maybe_resize env d delta =
     (let shrink_limit = 2 * d_size d div 5 in do {
        target_size \<leftarrow>
          (if 0 < delta \<and> n_busy d + delta > d_size d div 2 \<or> delta = 0 \<and> n_items d < shrink_limit
           then minimum_dict_size DICT_INITIAL_SIZE (n_items d + delta)
           else Some (d_size d));
        if d_size d = target_size then Some (True, d) else dict_resize env d target_size })"

definition SOPC_Dict_Insert ::
  "('e) mem_env_scheme \<Rightarrow> 'k SOPC_Dict option \<Rightarrow> 'k \<Rightarrow> uintptr \<Rightarrow> (bool \<times> 'k SOPC_Dict option) option" where
  "SOPC_Dict_Insert env d key val =
     (case d of None \<Rightarrow> Some (False, None)
      | Some d \<Rightarrow>
          if key = empty_key d \<or> key = tombstone_key d then Some (False, Some d)
          else do {
            (ok, d) \<leftarrow> maybe_resize env d 1;
            if \<not> ok then Some (False, Some d)
            else do {
              (ok, d) \<leftarrow> insert_item d (hash_func d key) key val True;
              Some (ok, Some d) } })"

text \<open>The index of the bucket found by \<open>get_internal\<close>; the outer \<open>option\<close> is for its accesses.\<close>

function get_loop :: "'k SOPC_Dict \<Rightarrow> u64 \<Rightarrow> 'k \<Rightarrow> nat \<Rightarrow> nat option option" where
  "get_loop d hash key i =
     (if i < d_size d then
        (let idx = dict_index d hash i
         in if idx < length (d_buckets d) then
              (let bucket_key = fst (d_buckets d ! idx)
               in if bucket_key = empty_key d then Some None
                  else if bucket_key \<noteq> tombstone_key d \<and> equal_func d key bucket_key then Some (Some idx)
                  else get_loop d hash key (i + 1))
            else None)
      else Some None)"
  by pat_completeness auto

termination
  by (relation "measure (\<lambda>(d, hash, key, i). d_size d - i)") auto

declare get_loop.simps [simp del]

definition get_internal :: "'k SOPC_Dict \<Rightarrow> 'k \<Rightarrow> nat option option" where
  "get_internal d key =
     (if key = empty_key d \<or> key = tombstone_key d then Some None
      else get_loop d (hash_func d key) key 0)"

text \<open>The result and the value stored in \<open>found\<close>, which is left alone for a \<open>NULL\<close> dictionary.\<close>

definition SOPC_Dict_Get ::
  "'k SOPC_Dict option \<Rightarrow> 'k \<Rightarrow> bool \<Rightarrow> (uintptr \<times> bool) option" where
  "SOPC_Dict_Get d key found =
     (case d of None \<Rightarrow> Some (0, found)
      | Some d \<Rightarrow> do {
          b \<leftarrow> get_internal d key;
          Some (case b of None \<Rightarrow> (0, False) | Some idx \<Rightarrow> (snd (d_buckets d ! idx), True)) })"

definition SOPC_Dict_GetKey ::
  "'k SOPC_Dict option \<Rightarrow> 'k \<Rightarrow> bool \<Rightarrow> ('k option \<times> bool) option" where
  "SOPC_Dict_GetKey d key found =
     (case d of None \<Rightarrow> Some (None, found)
      | Some d \<Rightarrow> do {
          b \<leftarrow> get_internal d key;
          Some (case b of None \<Rightarrow> (None, False) | Some idx \<Rightarrow> (Some (fst (d_buckets d ! idx)), True)) })"

definition SOPC_Dict_Remove ::
  "('e) mem_env_scheme \<Rightarrow> 'k SOPC_Dict option \<Rightarrow> 'k \<Rightarrow> 'k SOPC_Dict option" where
  "SOPC_Dict_Remove env d key = do {
     d \<leftarrow> d;
     if empty_key d \<noteq> tombstone_key d then do {
       b \<leftarrow> get_internal d key;
       (case b of None \<Rightarrow> Some d
        | Some idx \<Rightarrow>
            (let d = free_bucket (d_buckets d ! idx) d;
                 d = d\<lparr>d_buckets := (d_buckets d)[idx := (tombstone_key d, 0)], n_items := n_items d - 1\<rparr>
             in map_option snd (maybe_resize env d 0))) }
     else None }"

definition SOPC_Dict_Size :: "'k SOPC_Dict \<Rightarrow> nat" where
  "SOPC_Dict_Size d = n_items d"

definition SOPC_Dict_Capacity :: "'k SOPC_Dict \<Rightarrow> nat" where
  "SOPC_Dict_Capacity d = d_size d div 2"

text \<open>The arguments of the calls of \<open>func\<close>, in order.\<close>

definition SOPC_Dict_ForEach :: "'k SOPC_Dict \<Rightarrow> ('k \<times> uintptr) list" where
  "SOPC_Dict_ForEach d = filter (\<lambda>b. fst b \<noteq> empty_key d) (d_buckets d)"

section \<open>The probe sequence\<close>

text \<open>In a table of \<open>2 ^ m\<close> buckets the 64-bit computation is the one over the naturals.\<close>

definition probe :: "nat \<Rightarrow> nat \<Rightarrow> nat \<Rightarrow> nat" where
  "probe n h i = (h + i div 2 + i * i div 2) mod n"

lemma mod_double_half: "x mod (2 * k) div 2 = (x div 2) mod (k :: nat)"
  by (simp add: mod_mult2_eq)

lemma SOPC_DICT_HASH_mod:
  assumes "m \<le> 60" "i < 2 ^ 60"
  shows "unat (SOPC_DICT_HASH h i) mod 2 ^ m = probe (2 ^ m) (unat h) i"
proof -
  let ?j = "of_nat i :: u64"
  define M :: nat where "M = 2 ^ 63"
  have M: "2 ^ LENGTH(64) = 2 * M" by (simp add: M_def)
  have i: "unat ?j = i" using assms(2) by (simp add: unat_of_nat take_bit_nat_eq_self)
  have d63: "(2 :: nat) ^ m dvd M" unfolding M_def by (rule le_imp_power_dvd) (use assms(1) in simp)
  then have d64: "(2 :: nat) ^ m dvd 2 * M" by (rule dvd_mult)
  have add: "unat (a + b :: u64) mod 2 ^ m = (unat a + unat b) mod 2 ^ m" for a b
    unfolding unat_word_ariths M by (rule mod_mod_cancel [OF d64])
  have "unat (?j * ?j div 2) = (i * i mod (2 * M)) div 2"
    by (simp add: unat_div unat_word_ariths i M_def)
  then have sq: "unat (?j * ?j div 2) mod 2 ^ m = (i * i div 2) mod 2 ^ m"
    by (simp add: mod_double_half mod_mod_cancel [OF d63])
  have half: "unat (?j div 2) = i div 2" by (simp add: unat_div i)
  have "unat (SOPC_DICT_HASH h i) mod 2 ^ m = (unat (h + ?j div 2) mod 2 ^ m + unat (?j * ?j div 2)) mod 2 ^ m"
    unfolding SOPC_DICT_HASH_def by (subst add) (simp add: mod_add_left_eq)
  also have "\<dots> = ((unat h + i div 2) mod 2 ^ m + unat (?j * ?j div 2) mod 2 ^ m) mod 2 ^ m"
    by (simp only: add half mod_add_right_eq)
  also have "\<dots> = (unat h + i div 2 + i * i div 2) mod 2 ^ m"
    unfolding sq by (simp add: mod_add_eq)
  finally show ?thesis by (simp add: probe_def)
qed

lemma unat_and_mask: "unat (w AND of_nat (2 ^ m - 1) :: u64) = unat w mod 2 ^ m"
proof -
  have "(of_nat (2 ^ m - 1) :: u64) = mask m"
    by (simp add: mask_eq_exp_minus_1 of_nat_diff)
  then have "w AND of_nat (2 ^ m - 1) = take_bit m w" by (simp add: take_bit_eq_mask)
  then have "unat (w AND of_nat (2 ^ m - 1)) = take_bit m (unat w)"
    by (simp only: unsigned_take_bit_eq)
  then show ?thesis by (simp only: take_bit_eq_mod)
qed

text \<open>The even probes are triangular numbers, so they reach half of the table.\<close>

lemma probe_even: "probe n h (2 * k) = (h + k * (2 * k + 1)) mod n"
proof -
  have "2 * k * (2 * k) div 2 = 2 * (k * (2 * k)) div 2" by (simp only: mult.assoc)
  also have "\<dots> = k * (2 * k)" by (rule nonzero_mult_div_cancel_left) simp
  finally show ?thesis by (simp add: probe_def algebra_simps)
qed

lemma probe_even_inj:
  assumes "k < l" "l < 2 ^ m"
  shows "probe (2 ^ m) h (2 * k) \<noteq> probe (2 ^ m) h (2 * l)"
proof
  assume "probe (2 ^ m) h (2 * k) = probe (2 ^ m) h (2 * l)"
  then have "(2 :: nat) ^ m dvd (h + l * (2 * l + 1)) - (h + k * (2 * k + 1))"
    unfolding probe_even by (metis mod_eq_dvd_iff_nat assms(1) add_le_mono le_refl less_imp_le mult_le_mono)
  moreover have "(h + l * (2 * l + 1)) - (h + k * (2 * k + 1)) = (l - k) * (2 * (l + k) + 1)"
    using assms(1) by (auto simp: algebra_simps less_iff_Suc_add)
  moreover have "coprime ((2 :: nat) ^ m) (2 * (l + k) + 1)" by simp
  ultimately have "(2 :: nat) ^ m dvd l - k" by (metis coprime_dvd_mult_left_iff)
  with assms show False by (auto dest!: dvd_imp_le)
qed

lemma probe_reaches_half:
  assumes "1 \<le> m"
  shows "card (probe (2 ^ m) h ` {..<2 ^ m}) \<ge> 2 ^ m div 2"
proof -
  let ?f = "\<lambda>k. probe (2 ^ m) h (2 * k)"
  have "inj_on ?f {..<2 ^ m div 2}"
  proof (rule linorder_inj_onI)
    fix k l :: nat
    assume "k < l" "k \<in> {..<2 ^ m div 2}" "l \<in> {..<2 ^ m div 2}"
    then show "?f k \<noteq> ?f l" by (intro probe_even_inj) auto
  qed auto
  then have "card (?f ` {..<2 ^ m div 2}) = 2 ^ m div 2" by (simp add: card_image)
  moreover have "?f ` {..<2 ^ m div 2} \<subseteq> probe (2 ^ m) h ` {..<2 ^ m}"
    by (auto intro!: imageI)
  ultimately show ?thesis by (metis card_mono finite_imageI finite_lessThan)
qed

end
