(* ===== verification/Dict_Laws.thy ===== *)
theory Dict_Laws
  imports Dict
begin

text \<open>
  The laws of the hash table: the invariant of a table, what it holds as a set of entries, and what
  each operation does to both. The contract a client owes on its hash and equality functions is the
  locale \<open>dict_keys\<close>.
\<close>

section \<open>Content and invariant\<close>

definition dict_real :: "'k SOPC_Dict \<Rightarrow> 'k \<Rightarrow> bool" where
  "dict_real d k \<longleftrightarrow> k \<noteq> empty_key d \<and> k \<noteq> tombstone_key d"

definition key_at :: "'k SOPC_Dict \<Rightarrow> nat \<Rightarrow> 'k" where
  "key_at d j = fst (d_buckets d ! j)"

definition real_at :: "'k SOPC_Dict \<Rightarrow> nat set" where
  "real_at d = {j. j < length (d_buckets d) \<and> dict_real d (key_at d j)}"

definition dict_content :: "'k SOPC_Dict \<Rightarrow> ('k \<times> uintptr) set" where
  "dict_content d = set (filter (\<lambda>b. dict_real d (fst b)) (d_buckets d))"

definition dict_lookup :: "'k SOPC_Dict \<Rightarrow> 'k \<Rightarrow> uintptr option" where
  "dict_lookup d k =
     map_option snd (find (\<lambda>b. dict_real d (fst b) \<and> equal_func d k (fst b)) (d_buckets d))"

definition no_tombstones :: "'k SOPC_Dict \<Rightarrow> bool" where
  "no_tombstones d \<longleftrightarrow> (\<forall>k \<in> fst ` set (d_buckets d). k = tombstone_key d \<longrightarrow> k = empty_key d)"

definition dict_shape :: "'k SOPC_Dict \<Rightarrow> bool" where
  "dict_shape d \<longleftrightarrow>
     (\<exists>m \<in> {1..60}. d_size d = 2 ^ m) \<and> length (d_buckets d) = d_size d \<and>
     d_sizemask d = of_nat (d_size d - 1)"

definition on_path :: "'k SOPC_Dict \<Rightarrow> u64 \<Rightarrow> nat \<Rightarrow> nat \<Rightarrow> bool" where
  "on_path d h j i \<longleftrightarrow>
     i < d_size d \<and> probe (d_size d) (unat h) i = j \<and>
     (\<forall>i' < i. key_at d (probe (d_size d) (unat h) i') \<noteq> empty_key d)"

definition dict_counts :: "'k SOPC_Dict \<Rightarrow> bool" where
  "dict_counts d \<longleftrightarrow>
     n_items d = card (real_at d) \<and> n_items d \<le> n_busy d \<and> 2 * n_items d \<le> d_size d"

definition dict_keys_ok :: "('k \<Rightarrow> bool) \<Rightarrow> 'k SOPC_Dict \<Rightarrow> bool" where
  "dict_keys_ok valid d \<longleftrightarrow>
     (\<forall>j \<in> real_at d. valid (key_at d j) \<and> (\<exists>i. on_path d (hash_func d (key_at d j)) j i)) \<and>
     (\<forall>j \<in> real_at d. \<forall>j' \<in> real_at d. equal_func d (key_at d j) (key_at d j') \<longrightarrow> j = j')"

definition dict_inv :: "('k \<Rightarrow> bool) \<Rightarrow> 'k SOPC_Dict \<Rightarrow> bool" where
  "dict_inv valid d \<longleftrightarrow> dict_shape d \<and> dict_counts d \<and> dict_keys_ok valid d"

lemma dict_inv_cases:
  assumes "dict_inv valid d"
  shows "dict_shape d" "dict_counts d" "dict_keys_ok valid d"
  using assms by (auto simp: dict_inv_def)

lemma shape_pos: "dict_shape d \<Longrightarrow> 0 < d_size d"
  by (auto simp: dict_shape_def)

lemma dict_index_probe:
  assumes "dict_shape d" "i < d_size d"
  shows "dict_index d h i = probe (d_size d) (unat h) i"
proof -
  obtain m where m: "1 \<le> m" "m \<le> 60" "d_size d = 2 ^ m" using assms(1) by (auto simp: dict_shape_def)
  have "i < 2 ^ 60"
    using assms(2) power_increasing [OF m(2), of "2 :: nat"] unfolding m(3) by linarith
  then show ?thesis
    using assms(1) m(2) unfolding dict_index_def dict_shape_def m(3)
    by (metis SOPC_DICT_HASH_mod unat_and_mask)
qed

lemma probe_less: "dict_shape d \<Longrightarrow> probe (d_size d) h i < length (d_buckets d)"
  using shape_pos [of d] by (simp add: probe_def dict_shape_def)

lemma finite_real_at [simp]: "finite (real_at d)"
  by (simp add: real_at_def)

lemma free_probe:
  assumes "dict_shape d" "2 * card (real_at d) < d_size d"
  shows "\<exists>i < d_size d. probe (d_size d) h i \<notin> real_at d"
proof (rule ccontr)
  assume "\<not> ?thesis"
  then have "probe (d_size d) h ` {..<d_size d} \<subseteq> real_at d" by auto
  then have "card (probe (d_size d) h ` {..<d_size d}) \<le> card (real_at d)"
    by (rule card_mono [rotated]) simp
  moreover obtain m where m: "1 \<le> m" "d_size d = 2 ^ m" using assms(1) by (auto simp: dict_shape_def)
  moreover have "2 ^ m = 2 * (2 ^ m div 2 :: nat)" using m(1) by simp
  ultimately show False using probe_reaches_half [OF m(1), of h] assms(2) unfolding m(2) by linarith
qed

lemma dict_content_at:
  "b \<in> dict_content d \<longleftrightarrow> (\<exists>j \<in> real_at d. d_buckets d ! j = b)"
  by (auto simp: dict_content_def real_at_def key_at_def in_set_conv_nth)

section \<open>One probe loop\<close>

text \<open>Where the loop of \<open>insert_item\<close> stops, and the table it leaves.\<close>

definition ins_stop :: "'k SOPC_Dict \<Rightarrow> u64 \<Rightarrow> 'k \<Rightarrow> bool \<Rightarrow> nat \<Rightarrow> bool" where
  "ins_stop d h key overwrite i \<longleftrightarrow>
     probe (d_size d) (unat h) i \<notin> real_at d \<or>
     overwrite \<and> equal_func d key (key_at d (probe (d_size d) (unat h) i))"

definition ins_at :: "'k SOPC_Dict \<Rightarrow> nat \<Rightarrow> 'k \<Rightarrow> uintptr \<Rightarrow> 'k SOPC_Dict" where
  "ins_at d j key val =
     (if j \<in> real_at d then (free_bucket (d_buckets d ! j) d)\<lparr>d_buckets := (d_buckets d)[j := (key, val)]\<rparr>
      else d\<lparr>d_buckets := (d_buckets d)[j := (key, val)], n_items := n_items d + 1,
             n_busy := n_busy d + 1\<rparr>)"

lemma insert_item_loop_stops:
  assumes "dict_shape d" "i \<le> i0" "i0 < d_size d" "ins_stop d h key overwrite i0"
    "\<And>i'. i \<le> i' \<Longrightarrow> i' < i0 \<Longrightarrow> \<not> ins_stop d h key overwrite i'"
  shows "insert_item_loop d h key val overwrite i =
           Some (True, ins_at d (probe (d_size d) (unat h) i0) key val)"
  using assms(2,5)
proof (induction "i0 - i" arbitrary: i)
  case 0
  then have "i = i0" by simp
  then show ?case
    using assms(1,3,4) probe_less [OF assms(1)]
    by (subst insert_item_loop.simps)
      (auto simp: dict_index_probe ins_stop_def ins_at_def real_at_def dict_real_def key_at_def Let_def)
next
  case (Suc x)
  then have "i < i0" by simp
  then have "\<not> ins_stop d h key overwrite i" using Suc.prems by simp
  moreover have "insert_item_loop d h key val overwrite (i + 1) =
      Some (True, ins_at d (probe (d_size d) (unat h) i0) key val)"
    using Suc \<open>i < i0\<close> by (intro Suc.hyps) auto
  ultimately show ?case
    using assms(1,3) \<open>i < i0\<close> probe_less [OF assms(1)]
    by (subst insert_item_loop.simps)
      (auto simp: dict_index_probe ins_stop_def real_at_def dict_real_def key_at_def Let_def)
qed

lemma insert_item_stops:
  assumes "dict_shape d" "2 * card (real_at d) < d_size d"
  obtains i where "i < d_size d" "ins_stop d h key overwrite i"
    "\<And>i'. i' < i \<Longrightarrow> \<not> ins_stop d h key overwrite i'"
    "insert_item d h key val overwrite = Some (True, ins_at d (probe (d_size d) (unat h) i) key val)"
proof -
  let ?i = "LEAST i. ins_stop d h key overwrite i"
  obtain i0 where i0: "i0 < d_size d" "ins_stop d h key overwrite i0"
    using free_probe [OF assms] by (auto simp: ins_stop_def)
  have stop: "ins_stop d h key overwrite ?i" using i0(2) by (rule LeastI)
  have le: "?i < d_size d" using Least_le [of "ins_stop d h key overwrite", OF i0(2)] i0(1) by simp
  have before: "\<not> ins_stop d h key overwrite i'" if "i' < ?i" for i'
    using not_less_Least that by blast
  show thesis
    by (rule that [OF le stop before])
      (auto simp: insert_item_def intro!: insert_item_loop_stops assms le stop dest: before)
qed

lemma get_loop_absent:
  assumes "dict_shape d" "\<And>j. j \<in> real_at d \<Longrightarrow> \<not> equal_func d key (key_at d j)"
  shows "get_loop d h key i = Some None"
proof (induction "d_size d - i" arbitrary: i)
  case 0
  then show ?case by (subst get_loop.simps) simp
next
  case (Suc x)
  then have "get_loop d h key (i + 1) = Some None" by (intro Suc.hyps) simp
  then show ?case
    using assms(2) [of "probe (d_size d) (unat h) i"] probe_less [OF assms(1)]
    by (subst get_loop.simps)
      (auto simp: dict_index_probe [OF assms(1)] Let_def real_at_def dict_real_def key_at_def)
qed

lemma get_loop_found:
  assumes "dict_shape d" "on_path d h j i0" "j \<in> real_at d" "equal_func d key (key_at d j)"
    "\<And>j'. j' \<in> real_at d \<Longrightarrow> equal_func d key (key_at d j') \<Longrightarrow> j' = j"
    "i \<le> i0"
  shows "get_loop d h key i = Some (Some j)"
  using assms(6)
proof (induction "i0 - i" arbitrary: i)
  case 0
  then have "i = i0" by simp
  then show ?case
    using assms(1-4) probe_less [OF assms(1), of "unat h" i0]
    by (subst get_loop.simps)
      (auto simp: dict_index_probe on_path_def Let_def real_at_def dict_real_def key_at_def)
next
  case (Suc x)
  then have i: "i < i0" by simp
  then have "get_loop d h key (i + 1) = Some (Some j)" using Suc by (intro Suc.hyps) auto
  then show ?case
    using assms(1,2) assms(5) [of "probe (d_size d) (unat h) i"] i probe_less [OF assms(1), of "unat h" i]
    by (subst get_loop.simps)
      (auto simp: dict_index_probe on_path_def Let_def real_at_def dict_real_def key_at_def)
qed

lemma is_power_of_two_power: "is_power_of_two (2 ^ k)"
proof -
  have "(2 ^ k :: nat) AND mask k = 0" by (simp flip: take_bit_eq_mask)
  then show ?thesis by (simp add: is_power_of_two_def mask_eq_exp_minus_1)
qed

text \<open>The size computation ends for at most \<open>2 ^ 59\<close> items, with the first sufficient power of two.\<close>

lemma minimum_dict_size_loop_total:
  assumes "a \<le> 60" "2 * n \<le> 2 ^ 60"
  shows "\<exists>k. a \<le> k \<and> k \<le> 60 \<and> minimum_dict_size_loop (2 ^ a) n = Some (2 ^ k) \<and> 2 * n \<le> 2 ^ k \<and>
    (k = a \<or> 2 ^ k < 4 * n)"
  using assms(1)
proof (induction "60 - a" arbitrary: a rule: less_induct)
  case less
  have m: "2 * n mod size_mod = 2 * n" using assms(2) by (simp add: size_mod_def)
  show ?case
  proof (cases "2 ^ a < 2 * n")
    case False
    then have "minimum_dict_size_loop (2 ^ a) n = Some (2 ^ a)"
      by (subst minimum_dict_size_loop.simps) (simp add: m)
    then show ?thesis using False less.prems by (intro exI [of _ a]) simp
  next
    case True
    then have "(2 :: nat) ^ a < 2 ^ 60" using assms(2) by linarith
    then have a: "a < 60" by (rule power_less_imp_less_exp [rotated]) simp
    have "(2 :: nat) ^ Suc a \<le> 2 ^ 60" using a by (intro power_increasing) auto
    then have "2 ^ a * 2 mod size_mod = 2 ^ Suc a" by (simp add: size_mod_def)
    then have step: "minimum_dict_size_loop (2 ^ a) n = minimum_dict_size_loop (2 ^ Suc a) n"
      using True by (subst minimum_dict_size_loop.simps) (simp add: m)
    obtain k where k: "Suc a \<le> k" "k \<le> 60" "minimum_dict_size_loop (2 ^ Suc a) n = Some (2 ^ k)"
      "2 * n \<le> 2 ^ k" "k = Suc a \<or> 2 ^ k < 4 * n"
      using less.hyps [of "Suc a"] a diff_less_mono2 [OF lessI a] by (metis Suc_leI)
    have "2 ^ k < 4 * n" using k(5) True by auto
    then show ?thesis using k step by (intro exI [of _ k]) simp
  qed
qed

lemma minimum_dict_size_total:
  assumes "a \<le> 60" "2 * n \<le> 2 ^ 60"
  obtains k where "a \<le> k" "k \<le> 60" "minimum_dict_size (2 ^ a) n = Some (2 ^ k)" "2 * n \<le> 2 ^ k"
    "k = a \<or> 2 ^ k < 4 * n"
  using minimum_dict_size_loop_total [OF assms] is_power_of_two_power [of a]
  by (auto simp: minimum_dict_size_def)

text \<open>Beyond the largest power of two of \<open>size_t\<close> the doubled size wraps to 0 and the loop never ends.\<close>

definition size_power :: "nat \<Rightarrow> bool" where
  "size_power sz \<longleftrightarrow> sz = 0 \<or> (\<exists>j \<le> 63. sz = 2 ^ j)"

lemma size_power_double: "size_power sz \<Longrightarrow> size_power (sz * 2 mod size_mod)"
proof (cases "sz = 0 \<or> sz = 2 ^ 63")
  case False
  moreover assume "size_power sz"
  ultimately obtain j where j: "j < 63" "sz = 2 ^ j"
    unfolding size_power_def by (metis le_neq_implies_less)
  have "(2 :: nat) ^ Suc j \<le> 2 ^ 63" using j(1) by (intro power_increasing) auto
  then have "sz * 2 mod size_mod = 2 ^ Suc j" using j(2) by (simp add: size_mod_def)
  then show ?thesis using j(1) Suc_leI unfolding size_power_def by blast
qed (auto simp: size_mod_def size_power_def)

lemma size_power_le: "size_power sz \<Longrightarrow> sz \<le> 2 ^ 63"
  unfolding size_power_def using power_increasing [of _ 63 "2 :: nat"] by auto

lemma minimum_dict_size_loop_result:
  assumes "minimum_dict_size_loop sz n = Some r"
  shows "size_power sz \<longrightarrow> 2 * n mod size_mod \<le> r \<and> r \<le> 2 ^ 63"
proof (rule minimum_dict_size_loop.raw_induct
    [where P = "\<lambda>sz n r. size_power sz \<longrightarrow> 2 * n mod size_mod \<le> r \<and> r \<le> 2 ^ 63", OF _ assms])
  fix f sz n r
  assume IH: "\<And>sz n r. f sz n = Some r \<Longrightarrow> size_power sz \<longrightarrow> 2 * n mod size_mod \<le> r \<and> r \<le> 2 ^ 63"
    and run: "(if sz < 2 * n mod size_mod then f (sz * 2 mod size_mod) n else Some sz) = Some r"
  show "size_power sz \<longrightarrow> 2 * n mod size_mod \<le> r \<and> r \<le> 2 ^ 63"
    using IH run size_power_double size_power_le by (cases "sz < 2 * n mod size_mod") auto
qed

lemma minimum_dict_size_diverges:
  assumes "a \<le> 63" "2 ^ 62 < n" "n < 2 ^ 63"
  shows "minimum_dict_size (2 ^ a) n = None"
proof (cases "minimum_dict_size_loop (2 ^ a) n")
  case (Some r)
  then have "2 * n mod size_mod \<le> 2 ^ 63"
    using minimum_dict_size_loop_result [OF Some] assms(1) by (auto simp: size_power_def)
  moreover have "2 * n mod size_mod = 2 * n" using assms(3) by (simp add: size_mod_def)
  ultimately show ?thesis using assms(2) by simp
qed (simp add: minimum_dict_size_def)

lemma sorted_wrt_filter_guard:
  "sorted_wrt (\<lambda>a b. P a \<longrightarrow> P b \<longrightarrow> R a b) xs \<Longrightarrow> sorted_wrt R (filter P xs)"
  by (induction xs) auto

lemma distinct_singleton: "set xs = {x} \<Longrightarrow> distinct xs \<Longrightarrow> xs = [x]"
  by (cases xs) (auto simp: subset_singleton_iff)

lemma option_eq_by_Some: "(\<And>v. x = Some v \<longleftrightarrow> y = Some v) \<Longrightarrow> x = y"
  by (cases x; cases y) auto

section \<open>The contract on keys\<close>

text \<open>
  What a client promises of its hash and equality functions on the keys it uses: equality is an
  equivalence relation and equal keys have the same hash.
\<close>

locale dict_keys =
  fixes hash :: "'k \<Rightarrow> u64"
    and equal :: "'k \<Rightarrow> 'k \<Rightarrow> bool"
    and valid :: "'k \<Rightarrow> bool"
  assumes equal_refl: "valid a \<Longrightarrow> equal a a"
    and equal_sym: "valid a \<Longrightarrow> valid b \<Longrightarrow> equal a b \<Longrightarrow> equal b a"
    and equal_trans: "valid a \<Longrightarrow> valid b \<Longrightarrow> valid c \<Longrightarrow> equal a b \<Longrightarrow> equal b c \<Longrightarrow> equal a c"
    and equal_hash: "valid a \<Longrightarrow> valid b \<Longrightarrow> equal a b \<Longrightarrow> hash a = hash b"

definition dict_for ::
  "('k \<Rightarrow> u64) \<Rightarrow> ('k \<Rightarrow> 'k \<Rightarrow> bool) \<Rightarrow> ('k \<Rightarrow> bool) \<Rightarrow> 'k SOPC_Dict \<Rightarrow> bool" where
  "dict_for hash equal valid d \<longleftrightarrow> hash_func d = hash \<and> equal_func d = equal \<and> dict_inv valid d"

definition same_config :: "'k SOPC_Dict \<Rightarrow> 'k SOPC_Dict \<Rightarrow> bool" where
  "same_config d d' \<longleftrightarrow>
     empty_key d' = empty_key d \<and> tombstone_key d' = tombstone_key d \<and>
     hash_func d' = hash_func d \<and> equal_func d' = equal_func d"

lemma same_config_refl [simp]: "same_config d d"
  by (simp add: same_config_def)

lemma same_config_trans: "same_config a b \<Longrightarrow> same_config b c \<Longrightarrow> same_config a c"
  by (simp add: same_config_def)

lemma same_config_real: "same_config d d' \<Longrightarrow> dict_real d' k = dict_real d k"
  by (simp add: same_config_def dict_real_def)

text \<open>The effect of writing one bucket.\<close>

lemma ins_at_config: "same_config d (ins_at d j key val)"
  by (simp add: same_config_def ins_at_def free_bucket_def)

lemma ins_at_fields [simp]:
  "d_size (ins_at d j key val) = d_size d" "d_sizemask (ins_at d j key val) = d_sizemask d"
  "d_buckets (ins_at d j key val) = (d_buckets d)[j := (key, val)]"
  "empty_key (ins_at d j key val) = empty_key d" "tombstone_key (ins_at d j key val) = tombstone_key d"
  "hash_func (ins_at d j key val) = hash_func d" "equal_func (ins_at d j key val) = equal_func d"
  by (simp_all add: ins_at_def free_bucket_def)

lemma ins_at_counters:
  "n_items (ins_at d j key val) = (if j \<in> real_at d then n_items d else n_items d + 1)"
  "n_busy (ins_at d j key val) = (if j \<in> real_at d then n_busy d else n_busy d + 1)"
  "d_released (ins_at d j key val) =
     (if j \<in> real_at d then d_released d @ [d_buckets d ! j] else d_released d)"
  by (simp_all add: ins_at_def free_bucket_def)

lemma dict_shape_ins_at [simp]: "dict_shape (ins_at d j key val) = dict_shape d"
  by (simp add: dict_shape_def)

lemma key_at_ins_at:
  "j < length (d_buckets d) \<Longrightarrow> key_at (ins_at d j key val) k = (if k = j then key else key_at d k)"
  by (simp add: key_at_def nth_list_update)

lemma real_at_ins_at:
  assumes "j < length (d_buckets d)" "dict_real d key"
  shows "real_at (ins_at d j key val) = insert j (real_at d)"
  using assms by (auto simp: real_at_def key_at_ins_at dict_real_def split: if_splits)

lemma on_path_ins_at:
  assumes "j < length (d_buckets d)" "dict_real d key" "on_path d h j' i"
  shows "on_path (ins_at d j key val) h j' i"
  using assms by (auto simp: on_path_def key_at_ins_at dict_real_def)

lemma no_tombstones_ins_at:
  "no_tombstones d \<Longrightarrow> dict_real d key \<Longrightarrow> no_tombstones (ins_at d j key val)"
  using set_update_subset_insert [of "d_buckets d" j "(key, val)"]
  by (fastforce simp: no_tombstones_def dict_real_def)

lemma nth_ins_at:
  "j < length (d_buckets d) \<Longrightarrow> d_buckets (ins_at d j key val) ! k = (if k = j then (key, val) else d_buckets d ! k)"
  by (simp add: nth_list_update)

lemma content_ins_at:
  assumes "j < length (d_buckets d)" "dict_real d key"
  shows "dict_content (ins_at d j key val) = insert (key, val) {b. \<exists>k \<in> real_at d. k \<noteq> j \<and> d_buckets d ! k = b}"
  unfolding set_eq_iff dict_content_at real_at_ins_at [OF assms] using assms(1)
  by (auto simp: nth_list_update)

context dict_keys
begin

lemma fresh_bucket:
  assumes d: "dict_for hash equal valid d" and key: "valid key" "dict_real d key"
    and room: "2 * n_items d + 2 \<le> d_size d"
    and i: "i < d_size d" "j = probe (d_size d) (unat (hash key)) i" "j \<notin> real_at d"
    and before: "\<And>i'. i' < i \<Longrightarrow> probe (d_size d) (unat (hash key)) i' \<in> real_at d"
    and absent: "\<And>k. k \<in> real_at d \<Longrightarrow> \<not> equal key (key_at d k)"
  shows "dict_for hash equal valid (ins_at d j key val)"
    and "dict_content (ins_at d j key val) = insert (key, val) (dict_content d)"
    and "d_released (ins_at d j key val) = d_released d"
    and "n_items (ins_at d j key val) = n_items d + 1"
proof -
  have inv: "dict_shape d" "dict_counts d" "dict_keys_ok valid d" and f: "hash_func d = hash" "equal_func d = equal"
    using d by (auto simp: dict_for_def dict_inv_def)
  have j: "j < length (d_buckets d)" using probe_less [OF inv(1)] i(2) by simp
  let ?d = "ins_at d j key val"
  note real = real_at_ins_at [OF j key(2), of val]
  have counts: "dict_counts ?d"
    using inv(2) i(3) room unfolding dict_counts_def real
    by (simp add: ins_at_counters)
  have "on_path d (hash key) j i"
    using i(1,2) before by (auto simp: on_path_def real_at_def dict_real_def)
  then have path: "on_path ?d (hash key) j i" by (rule on_path_ins_at [OF j key(2)])
  have sym: "\<not> equal (key_at d k) key" if "k \<in> real_at d" for k
    using absent [OF that] that inv(3) key(1) equal_sym by (auto simp: dict_keys_ok_def)
  have "dict_keys_ok valid ?d"
    using inv(3) i(3) key path absent sym unfolding dict_keys_ok_def real
    by (auto simp: key_at_ins_at [OF j] f) (meson on_path_ins_at [OF j key(2)])
  then show "dict_for hash equal valid ?d"
    using counts inv(1) by (simp add: dict_for_def dict_inv_def f)
  show "dict_content ?d = insert (key, val) (dict_content d)"
    unfolding content_ins_at [OF j key(2)] set_eq_iff using i(3) by (auto simp: dict_content_at)
  show "d_released ?d = d_released d" "n_items ?d = n_items d + 1" using i(3) by (simp_all add: ins_at_counters)
qed

lemma overwritten_bucket:
  assumes d: "dict_for hash equal valid d" and key: "valid key" "dict_real d key"
    and j: "j \<in> real_at d" "equal key (key_at d j)"
  shows "dict_for hash equal valid (ins_at d j key val)"
    and "dict_content (ins_at d j key val) = insert (key, val) {b \<in> dict_content d. \<not> equal key (fst b)}"
    and "d_released (ins_at d j key val) = d_released d @ [d_buckets d ! j]"
    and "n_items (ins_at d j key val) = n_items d"
proof -
  have inv: "dict_shape d" "dict_counts d" "dict_keys_ok valid d" and f: "hash_func d = hash" "equal_func d = equal"
    using d by (auto simp: dict_for_def dict_inv_def)
  have len: "j < length (d_buckets d)" using j(1) by (simp add: real_at_def)
  let ?d = "ins_at d j key val"
  have real: "real_at ?d = real_at d" using real_at_ins_at [OF len key(2)] j(1) by auto
  have valid: "valid (key_at d k)" if "k \<in> real_at d" for k
    using that inv(3) by (simp add: dict_keys_ok_def)
  have only: "k = j" if "k \<in> real_at d" "equal key (key_at d k)" for k
    using that j inv(3) valid key(1) equal_sym equal_trans unfolding dict_keys_ok_def f by metis
  have h: "hash (key_at d j) = hash key" using equal_hash [OF key(1) valid [OF j(1)] j(2)] by simp
  have path: "\<exists>i. on_path ?d (hash (key_at ?d k)) k i" if k: "k \<in> real_at d" for k
  proof -
    have "hash (key_at ?d k) = hash (key_at d k)" using h by (simp add: key_at_ins_at [OF len])
    moreover obtain i where "on_path d (hash (key_at d k)) k i"
      using k inv(3) unfolding dict_keys_ok_def f by blast
    ultimately show ?thesis using on_path_ins_at [OF len key(2)] by metis
  qed
  have sym: "k = j" if "k \<in> real_at d" "equal (key_at d k) key" for k
    using that only valid key(1) equal_sym by blast
  have "dict_counts ?d" using inv(2) j(1) by (simp add: dict_counts_def real ins_at_counters)
  moreover have "valid (key_at ?d k)" if "k \<in> real_at d" for k
    using valid [OF that] key(1) by (simp add: key_at_ins_at [OF len])
  moreover have "k = k'" if "k \<in> real_at d" "k' \<in> real_at d" "equal (key_at ?d k) (key_at ?d k')" for k k'
  proof (cases "k = j \<or> k' = j")
    case True
    then show ?thesis using that only [of k'] sym [of k] by (auto simp: key_at_ins_at [OF len] split: if_splits)
  next
    case False
    then show ?thesis using that inv(3) by (simp add: key_at_ins_at [OF len] dict_keys_ok_def f)
  qed
  ultimately have "dict_counts ?d" "dict_keys_ok valid ?d"
    using path by (auto simp only: dict_keys_ok_def real f ins_at_fields)
  then show "dict_for hash equal valid ?d" using inv(1) by (simp add: dict_for_def dict_inv_def f)
  show "dict_content ?d = insert (key, val) {b \<in> dict_content d. \<not> equal key (fst b)}"
  proof -
    have "{b. \<exists>k \<in> real_at d. k \<noteq> j \<and> d_buckets d ! k = b} = {b \<in> dict_content d. \<not> equal key (fst b)}"
      unfolding dict_content_at using only j(2) by (auto simp: key_at_def) (metis fst_conv)
    then show ?thesis by (simp only: content_ins_at [OF len key(2)])
  qed
  show "d_released ?d = d_released d @ [d_buckets d ! j]" "n_items ?d = n_items d"
    using j(1) by (simp_all add: ins_at_counters)
qed

text \<open>An insertion with a free bucket in reach: a fresh entry or the entry of an equal key replaced.\<close>

lemma insert_item_fresh:
  assumes d: "dict_for hash equal valid d" and key: "valid key" "dict_real d key"
    and room: "2 * n_items d + 2 \<le> d_size d"
    and absent: "\<And>k. k \<in> real_at d \<Longrightarrow> \<not> equal key (key_at d k)"
  obtains d' where "insert_item d (hash key) key val overwrite = Some (True, d')"
    "dict_for hash equal valid d'" "dict_content d' = insert (key, val) (dict_content d)"
    "d_released d' = d_released d" "n_items d' = n_items d + 1" "same_config d d'" "d_size d' = d_size d"
    "no_tombstones d \<Longrightarrow> no_tombstones d'"
proof -
  have inv: "dict_shape d" "dict_counts d" and f: "equal_func d = equal"
    using d by (auto simp: dict_for_def dict_inv_def)
  have "2 * card (real_at d) < d_size d" using room inv(2) by (simp add: dict_counts_def)
  then obtain i where i: "i < d_size d" "ins_stop d (hash key) key overwrite i"
    "\<And>i'. i' < i \<Longrightarrow> \<not> ins_stop d (hash key) key overwrite i'"
    "insert_item d (hash key) key val overwrite =
       Some (True, ins_at d (probe (d_size d) (unat (hash key)) i) key val)"
    using insert_item_stops [OF inv(1)] by metis
  let ?j = "probe (d_size d) (unat (hash key)) i"
  have j: "?j \<notin> real_at d" using i(2) absent by (auto simp: ins_stop_def f)
  have before: "probe (d_size d) (unat (hash key)) i' \<in> real_at d" if "i' < i" for i'
    using i(3) [OF that] by (simp add: ins_stop_def)
  note fresh = fresh_bucket [OF d key room i(1) refl j before absent]
  show thesis by (rule that [OF i(4)]) (auto simp: fresh ins_at_config intro: no_tombstones_ins_at key)
qed

lemma insert_item_overwrite:
  assumes d: "dict_for hash equal valid d" and key: "valid key" "dict_real d key"
    and room: "2 * n_items d + 2 \<le> d_size d"
    and j: "j \<in> real_at d" "equal key (key_at d j)" and clean: "no_tombstones d"
  obtains d' where "insert_item d (hash key) key val True = Some (True, d')"
    "dict_for hash equal valid d'"
    "dict_content d' = insert (key, val) {b \<in> dict_content d. \<not> equal key (fst b)}"
    "d_released d' = d_released d @ [d_buckets d ! j]" "n_items d' = n_items d" "same_config d d'"
    "no_tombstones d'"
proof -
  have inv: "dict_shape d" "dict_counts d" "dict_keys_ok valid d" and f: "equal_func d = equal" "hash_func d = hash"
    using d by (auto simp: dict_for_def dict_inv_def)
  have "2 * card (real_at d) < d_size d" using room inv(2) by (simp add: dict_counts_def)
  then obtain i where i: "i < d_size d" "ins_stop d (hash key) key True i"
    "\<And>i'. i' < i \<Longrightarrow> \<not> ins_stop d (hash key) key True i'"
    "insert_item d (hash key) key val True =
       Some (True, ins_at d (probe (d_size d) (unat (hash key)) i) key val)"
    using insert_item_stops [OF inv(1)] by metis
  let ?p = "probe (d_size d) (unat (hash key))"
  have valid: "valid (key_at d k)" if "k \<in> real_at d" for k
    using that inv(3) by (simp add: dict_keys_ok_def)
  have "hash (key_at d j) = hash key" using equal_hash [OF key(1) valid [OF j(1)] j(2)] by simp
  then obtain i0 where i0: "on_path d (hash key) j i0"
    using j(1) inv(3) unfolding dict_keys_ok_def f by metis
  have "?p i \<in> real_at d"
  proof (rule ccontr)
    assume free: "?p i \<notin> real_at d"
    moreover have "key_at d (?p i) \<in> fst ` set (d_buckets d)"
      using probe_less [OF inv(1)] by (simp add: key_at_def)
    ultimately have "key_at d (?p i) = empty_key d"
      using clean probe_less [OF inv(1)] unfolding real_at_def dict_real_def no_tombstones_def by blast
    then have "\<not> i < i0" using i0 by (auto simp: on_path_def)
    moreover have "i \<noteq> i0" using free i0 j(1) by (auto simp: on_path_def)
    ultimately have "i0 < i" by simp
    then show False using i(3) [of i0] i0 j(2) by (auto simp: on_path_def ins_stop_def f)
  qed
  moreover from this have "equal key (key_at d (?p i))" using i(2) by (auto simp: ins_stop_def f)
  moreover have "?p i = j"
    using calculation j valid key(1) equal_sym equal_trans inv(3) unfolding dict_keys_ok_def f by metis
  ultimately have "insert_item d (hash key) key val True = Some (True, ins_at d j key val)"
    using i(4) by simp
  then show thesis by (rule that) (auto simp: overwritten_bucket [OF d key j] ins_at_config
    intro: no_tombstones_ins_at key clean)
qed

text \<open>Moving a list of buckets into a table.\<close>

lemma dict_resize_loop_moves:
  assumes "dict_for hash equal valid d"
    and "\<And>b. b \<in> set bs \<Longrightarrow> dict_real d (fst b) \<Longrightarrow> valid (fst b)"
    and "2 * (n_items d + length (filter (\<lambda>b. dict_real d (fst b)) bs)) \<le> d_size d"
    and "\<And>b k. b \<in> set bs \<Longrightarrow> dict_real d (fst b) \<Longrightarrow> k \<in> real_at d \<Longrightarrow> \<not> equal (fst b) (key_at d k)"
    and "sorted_wrt (\<lambda>a b. \<not> equal (fst b) (fst a)) (filter (\<lambda>b. dict_real d (fst b)) bs)"
  shows "\<exists>d'. dict_resize_loop bs d = Some (True, d') \<and> dict_for hash equal valid d' \<and>
    dict_content d' = dict_content d \<union> set (filter (\<lambda>b. dict_real d (fst b)) bs) \<and>
    d_released d' = d_released d \<and> same_config d d' \<and> d_size d' = d_size d \<and>
    n_items d' = n_items d + length (filter (\<lambda>b. dict_real d (fst b)) bs) \<and>
    (no_tombstones d \<longrightarrow> no_tombstones d')"
  using assms
proof (induction bs arbitrary: d)
  case Nil
  then show ?case by simp
next
  case (Cons b bs)
  show ?case
  proof (cases "dict_real d (fst b)")
    case False
    then show ?thesis using Cons.IH [of d] Cons.prems by (auto simp: dict_real_def)
  next
    case True
    have f: "hash_func d = hash" using Cons.prems(1) by (simp add: dict_for_def)
    obtain d1 where d1: "insert_item d (hash (fst b)) (fst b) (snd b) False = Some (True, d1)"
      "dict_for hash equal valid d1" "dict_content d1 = insert (fst b, snd b) (dict_content d)"
      "d_released d1 = d_released d" "n_items d1 = n_items d + 1" "same_config d d1" "d_size d1 = d_size d"
      "no_tombstones d \<Longrightarrow> no_tombstones d1"
      by (rule insert_item_fresh [of d "fst b" "snd b" False]) (use Cons.prems True in auto)
    have real: "dict_real d1 k = dict_real d k" for k by (rule same_config_real [OF d1(6)])
    have apart: "\<not> equal (fst c) (key_at d1 k)" if c: "c \<in> set bs" "dict_real d1 (fst c)" "k \<in> real_at d1" for c k
    proof -
      have "d_buckets d1 ! k \<in> dict_content d1" using c(3) dict_content_at by blast
      then consider "key_at d1 k = fst b" | j where "j \<in> real_at d" "d_buckets d1 ! k = d_buckets d ! j"
        unfolding d1(3) by (auto simp: key_at_def dict_content_at)
      then show ?thesis
      proof cases
        case 1
        have "\<not> equal (fst c) (fst b)" using Cons.prems(5) True c(1,2) unfolding real by (cases c) auto
        then show ?thesis using 1 by simp
      next
        case 2
        then show ?thesis using Cons.prems(4) [of c] c(1,2) by (simp add: real key_at_def)
      qed
    qed
    have "\<exists>d'. dict_resize_loop bs d1 = Some (True, d') \<and> dict_for hash equal valid d' \<and>
      dict_content d' = dict_content d1 \<union> set (filter (\<lambda>b. dict_real d1 (fst b)) bs) \<and>
      d_released d' = d_released d1 \<and> same_config d1 d' \<and> d_size d' = d_size d1 \<and>
      n_items d' = n_items d1 + length (filter (\<lambda>b. dict_real d1 (fst b)) bs) \<and>
      (no_tombstones d1 \<longrightarrow> no_tombstones d')"
      using Cons.prems True d1(2,5,7) apart by (intro Cons.IH) (auto simp: real)
    then show ?thesis
      using True d1 f by (auto simp: dict_real_def [symmetric] real intro: same_config_trans)
  qed
qed

lemma empty_table_ok:
  assumes "k \<in> {1..60}" "hash_func d = hash" "equal_func d = equal" "d_size d = 2 ^ k"
    "d_buckets d = empty_buckets (empty_key d) (2 ^ k)" "d_sizemask d = of_nat (2 ^ k - 1)"
    "n_items d = 0"
  shows "dict_for hash equal valid d" "real_at d = {}" "dict_content d = {}"
proof -
  have b: "d_buckets d = replicate (2 ^ k) (empty_key d, 0)"
    using assms(5) by (simp add: empty_buckets_def set_empty_keys_def)
  show r: "real_at d = {}" by (auto simp: real_at_def key_at_def b dict_real_def)
  then show "dict_content d = {}" by (auto simp: dict_content_at)
  have "length (d_buckets d) = d_size d" using assms(4) by (simp add: b)
  then show "dict_for hash equal valid d"
    using assms(1-4,6,7) r by (auto simp: dict_for_def dict_inv_def dict_shape_def dict_counts_def dict_keys_ok_def)
qed

lemma pairwise_apart:
  assumes "dict_for hash equal valid d"
  shows "sorted_wrt (\<lambda>a b. \<not> equal (fst b) (fst a)) (filter (\<lambda>b. dict_real d (fst b)) (d_buckets d))"
proof -
  have k: "dict_keys_ok valid d" and e: "equal_func d = equal"
    using assms by (auto simp: dict_for_def dict_inv_def)
  have "sorted_wrt (\<lambda>a b. dict_real d (fst a) \<longrightarrow> dict_real d (fst b) \<longrightarrow> \<not> equal (fst b) (fst a)) (d_buckets d)"
    unfolding sorted_wrt_iff_nth_less
  proof (intro allI impI notI)
    fix i j
    assume i: "i < j" "j < length (d_buckets d)" "dict_real d (fst (d_buckets d ! i))"
      "dict_real d (fst (d_buckets d ! j))" "equal (fst (d_buckets d ! j)) (fst (d_buckets d ! i))"
    then have "i \<in> real_at d" "j \<in> real_at d" by (simp_all add: real_at_def key_at_def)
    then have "j = i" using i(5) k unfolding dict_keys_ok_def e key_at_def by blast
    with i(1) show False by simp
  qed
  then show ?thesis by (rule sorted_wrt_filter_guard)
qed

lemma dict_resize_keeps:
  assumes d: "dict_for hash equal valid d" and k: "k \<in> {1..60}" and room: "2 * n_items d \<le> 2 ^ k"
  shows "\<exists>ok d'. dict_resize env d (2 ^ k) = Some (ok, d') \<and> dict_for hash equal valid d' \<and>
    dict_content d' = dict_content d \<and> d_released d' = d_released d \<and> same_config d d' \<and>
    n_items d' = n_items d \<and>
    (if ok then d_size d' = 2 ^ k \<and> no_tombstones d' else d' = d) \<and>
    (mem_ok env (2 ^ k * sizeof_SOPC_DictBucket) \<longrightarrow> ok)"
proof -
  define d0 where "d0 = d\<lparr>n_busy := 0, n_items := 0, d_buckets := empty_buckets (empty_key d) (2 ^ k),
                d_size := 2 ^ k, d_sizemask := of_nat (2 ^ k - 1)\<rparr>"
  have f: "hash_func d = hash" "equal_func d = equal" using d by (simp_all add: dict_for_def)
  have e: "dict_for hash equal valid d0" "real_at d0 = {}" "dict_content d0 = {}"
    using k f by (simp_all add: empty_table_ok [of k] d0_def)
  have c: "length (filter (\<lambda>b. dict_real d (fst b)) (d_buckets d)) = n_items d"
    using d by (simp add: dict_for_def dict_inv_def dict_counts_def real_at_def key_at_def length_filter_conv_card)
  have v: "valid (fst b)" if "b \<in> set (d_buckets d)" "dict_real d (fst b)" for b
    using d that by (auto simp: dict_for_def dict_inv_def dict_keys_ok_def real_at_def key_at_def in_set_conv_nth)
  have real: "dict_real d0 k = dict_real d k" for k by (simp add: dict_real_def d0_def)
  have cont: "{b \<in> set (d_buckets d). dict_real d (fst b)} = dict_content d"
    by (simp add: dict_content_def)
  have n0: "n_items d0 = 0" "d_size d0 = 2 ^ k" "d_released d0 = d_released d" "same_config d d0"
    by (simp_all add: d0_def same_config_def)
  have "\<exists>d'. dict_resize_loop (d_buckets d) d0 = Some (True, d') \<and> dict_for hash equal valid d' \<and>
    dict_content d' = dict_content d0 \<union> set (filter (\<lambda>b. dict_real d0 (fst b)) (d_buckets d)) \<and>
    d_released d' = d_released d0 \<and> same_config d0 d' \<and> d_size d' = d_size d0 \<and>
    n_items d' = n_items d0 + length (filter (\<lambda>b. dict_real d0 (fst b)) (d_buckets d)) \<and>
    (no_tombstones d0 \<longrightarrow> no_tombstones d')"
    using e(1,2) v room pairwise_apart [OF d] by (intro dict_resize_loop_moves) (auto simp: real c n0)
  then obtain d' where d': "dict_resize_loop (d_buckets d) d0 = Some (True, d')" "dict_for hash equal valid d'"
    "dict_content d' = dict_content d" "d_released d' = d_released d" "same_config d d'" "d_size d' = 2 ^ k"
    "n_items d' = n_items d" "no_tombstones d0 \<longrightarrow> no_tombstones d'"
    using same_config_trans [OF n0(4)] by (auto simp: e(3) real c n0 cont)
  have "no_tombstones d0"
    by (auto simp: no_tombstones_def empty_buckets_def set_empty_keys_def d0_def)
  then have clean: "no_tombstones d'" using d'(8) by simp
  have "dict_resize env d (2 ^ k) =
      Some (if mem_ok env (2 ^ k * sizeof_SOPC_DictBucket) then (True, d') else (False, d))"
    unfolding dict_resize_def d0_def [symmetric] d'(1) by (simp add: is_power_of_two_power)
  then show ?thesis
    using d d' clean by (cases "mem_ok env (2 ^ k * sizeof_SOPC_DictBucket)") auto
qed

lemma maybe_resize_keeps:
  assumes d: "dict_for hash equal valid d" and n: "n_items d + delta \<le> 2 ^ 59" "delta \<le> 1"
  shows "\<exists>ok d'. maybe_resize env d delta = Some (ok, d') \<and> dict_for hash equal valid d' \<and>
    dict_content d' = dict_content d \<and> d_released d' = d_released d \<and> same_config d d' \<and>
    n_items d' = n_items d \<and> (ok \<longrightarrow> 2 * (n_items d + delta) \<le> d_size d') \<and>
    (no_tombstones d \<longrightarrow> no_tombstones d') \<and> (\<not> ok \<longrightarrow> d' = d) \<and> (mem_total env \<longrightarrow> ok)"
proof -
  have counts: "n_items d \<le> n_busy d" "2 * n_items d \<le> d_size d"
    using d by (auto simp: dict_for_def dict_inv_def dict_counts_def)
  have "2 * (n_items d + delta) \<le> 2 ^ 60" using n(1) by simp
  then obtain k where k: "4 \<le> k" "k \<le> 60" "minimum_dict_size (2 ^ 4) (n_items d + delta) = Some (2 ^ k)"
    "2 * (n_items d + delta) \<le> 2 ^ k"
    using minimum_dict_size_total [of 4 "n_items d + delta"] by auto
  let ?grow = "0 < delta \<and> n_busy d + delta > d_size d div 2 \<or> delta = 0 \<and> n_items d < 2 * d_size d div 5"
  have run: "maybe_resize env d delta =
      (if ?grow \<and> d_size d \<noteq> 2 ^ k then dict_resize env d (2 ^ k) else Some (True, d))"
    using k(3) by (simp add: maybe_resize_def DICT_INITIAL_SIZE_def Let_def)
  show ?thesis
  proof (cases "?grow \<and> d_size d \<noteq> 2 ^ k")
    case False
    have "2 * (n_items d + delta) \<le> d_size d"
    proof (cases ?grow)
      case True
      then show ?thesis using False k(4) by simp
    next
      case no: False
      then show ?thesis using counts n(2) by (cases "delta = 0") auto
    qed
    then show ?thesis unfolding run using False d by auto
  next
    case True
    have "2 * n_items d \<le> 2 ^ k" using k(4) by simp
    then obtain ok d' where r: "dict_resize env d (2 ^ k) = Some (ok, d')" "dict_for hash equal valid d'"
      "dict_content d' = dict_content d" "d_released d' = d_released d" "same_config d d'"
      "n_items d' = n_items d" "if ok then d_size d' = 2 ^ k \<and> no_tombstones d' else d' = d"
      "mem_ok env (2 ^ k * sizeof_SOPC_DictBucket) \<longrightarrow> ok"
      using dict_resize_keeps [OF d, of k env] k(1,2) by auto
    have "maybe_resize env d delta = Some (ok, d')" unfolding run using True r(1) by simp
    then show ?thesis using r(2-8) k(4) by (intro exI [of _ ok] exI [of _ d']) (auto split: if_splits)
  qed
qed

lemma entries_unique:
  assumes "dict_for hash equal valid d" "valid key" "j \<in> real_at d" "equal key (key_at d j)"
  shows "{b \<in> dict_content d. equal key (fst b)} = {d_buckets d ! j}"
    and "\<And>k. k \<in> real_at d \<Longrightarrow> equal key (key_at d k) \<Longrightarrow> k = j"
proof -
  have k: "dict_keys_ok valid d" and e: "equal_func d = equal"
    using assms(1) by (auto simp: dict_for_def dict_inv_def)
  show only: "k = j" if "k \<in> real_at d" "equal key (key_at d k)" for k
    using that assms(2-4) k equal_sym equal_trans unfolding dict_keys_ok_def e by metis
  show "{b \<in> dict_content d. equal key (fst b)} = {d_buckets d ! j}"
  proof -
    have "d_buckets d ! j \<in> dict_content d" using assms(3) dict_content_at by blast
    moreover have "b = d_buckets d ! j" if b: "b \<in> dict_content d" "equal key (fst b)" for b
    proof -
      obtain k where "k \<in> real_at d" "d_buckets d ! k = b" using b(1) unfolding dict_content_at by blast
      then show ?thesis using only [of k] b(2) by (simp add: key_at_def)
    qed
    ultimately show ?thesis using assms(4) unfolding key_at_def by blast
  qed
qed

lemma SOPC_Dict_Insert_ok:
  assumes d: "dict_for hash equal valid d" and key: "valid key" "dict_real d key"
    and n: "n_items d < 2 ^ 59"
    and ex: "no_tombstones d \<or> (\<forall>b \<in> dict_content d. \<not> equal key (fst b))"
  shows "\<exists>ok d'. SOPC_Dict_Insert env (Some d) key val = Some (ok, Some d') \<and> dict_for hash equal valid d' \<and>
    same_config d d' \<and> (no_tombstones d \<longrightarrow> no_tombstones d') \<and> (mem_total env \<longrightarrow> ok) \<and>
    (if ok then dict_content d' = insert (key, val) {b \<in> dict_content d. \<not> equal key (fst b)} \<and>
       (\<exists>r. d_released d' = d_released d @ r \<and> distinct r \<and>
       set r = {b \<in> dict_content d. equal key (fst b)} \<and>
            n_items d' + length r = n_items d + 1)
     else d' = d)"
proof -
  obtain ok d1 where r: "maybe_resize env d 1 = Some (ok, d1)" "dict_for hash equal valid d1"
    "dict_content d1 = dict_content d" "d_released d1 = d_released d" "same_config d d1"
    "n_items d1 = n_items d" "ok \<longrightarrow> 2 * (n_items d + 1) \<le> d_size d1"
    "no_tombstones d \<longrightarrow> no_tombstones d1" "\<not> ok \<longrightarrow> d1 = d" "mem_total env \<longrightarrow> ok"
    using maybe_resize_keeps [OF d, of 1 env] n by auto
  have h: "hash_func d1 = hash" using r(2) by (simp add: dict_for_def)
  have k: "key \<noteq> empty_key d" "key \<noteq> tombstone_key d" using key(2) by (auto simp: dict_real_def)
  have real: "dict_real d1 key" using key(2) same_config_real [OF r(5)] by simp
  show ?thesis
  proof (cases ok)
    case False
    then show ?thesis using r d k by (intro exI [of _ False] exI [of _ d]) (simp add: SOPC_Dict_Insert_def)
  next
    case True
    then have room: "2 * n_items d1 + 2 \<le> d_size d1" using r(6,7) by simp
    show ?thesis
    proof (cases "\<exists>j \<in> real_at d1. equal key (key_at d1 j)")
      case False
      then obtain d' where d': "insert_item d1 (hash key) key val True = Some (True, d')"
        "dict_for hash equal valid d'" "dict_content d' = insert (key, val) (dict_content d1)"
        "d_released d' = d_released d1" "n_items d' = n_items d1 + 1" "same_config d1 d'"
        "no_tombstones d1 \<Longrightarrow> no_tombstones d'"
        using insert_item_fresh [OF r(2) key(1) real room] by metis
      have none: "\<not> equal key (fst b)" if "b \<in> dict_content d" for b
        using that False unfolding r(3) [symmetric] dict_content_at key_at_def by blast
      have "SOPC_Dict_Insert env (Some d) key val = Some (True, Some d')"
        using k r(1) True d'(1) h by (simp add: SOPC_Dict_Insert_def)
      then show ?thesis
        using d' r none True same_config_trans [OF r(5) d'(6)] by (intro exI [of _ True] exI [of _ d']) auto
    next
      case present: True
      then obtain j where j: "j \<in> real_at d1" "equal key (key_at d1 j)" by blast
      have clean: "no_tombstones d1"
        using ex j r(3,8) dict_content_at [of "d_buckets d1 ! j" d1] by (auto simp: key_at_def)
      obtain d' where d': "insert_item d1 (hash key) key val True = Some (True, d')"
        "dict_for hash equal valid d'"
        "dict_content d' = insert (key, val) {b \<in> dict_content d1. \<not> equal key (fst b)}"
        "d_released d' = d_released d1 @ [d_buckets d1 ! j]" "n_items d' = n_items d1" "same_config d1 d'"
        "no_tombstones d'"
        by (rule insert_item_overwrite [OF r(2) key(1) real room j clean, of val])
      have "SOPC_Dict_Insert env (Some d) key val = Some (True, Some d')"
        using k r(1) True d'(1) h by (simp add: SOPC_Dict_Insert_def)
      moreover have "{b \<in> dict_content d. equal key (fst b)} = {d_buckets d1 ! j}"
        using entries_unique [OF r(2) key(1) j] by (simp add: r(3))
      ultimately show ?thesis
        using d' r True same_config_trans [OF r(5) d'(6)] by (intro exI [of _ True] exI [of _ d']) auto
    qed
  qed
qed

text \<open>The lookup.\<close>

lemma get_internal_ok:
  assumes d: "dict_for hash equal valid d" and key: "valid key" "dict_real d key"
  shows "j \<in> real_at d \<Longrightarrow> equal key (key_at d j) \<Longrightarrow> get_internal d key = Some (Some j)"
    and "(\<And>j. j \<in> real_at d \<Longrightarrow> \<not> equal key (key_at d j)) \<Longrightarrow> get_internal d key = Some None"
proof -
  have inv: "dict_shape d" "dict_keys_ok valid d" and f: "hash_func d = hash" "equal_func d = equal"
    using d by (auto simp: dict_for_def dict_inv_def)
  have g: "get_internal d key = get_loop d (hash key) key 0"
    using key(2) by (auto simp: get_internal_def dict_real_def f)
  show "get_internal d key = Some (Some j)" if j: "j \<in> real_at d" "equal key (key_at d j)"
  proof -
    have "hash (key_at d j) = hash key"
      using equal_hash [of key "key_at d j"] key(1) j inv(2) by (auto simp: dict_keys_ok_def)
    then obtain i0 where i0: "on_path d (hash key) j i0" using j(1) inv(2) unfolding dict_keys_ok_def f by metis
    show ?thesis
      unfolding g
      by (rule get_loop_found [OF inv(1) i0 j(1), of key, unfolded f, OF j(2) entries_unique(2) [OF d key(1) j]])
        simp_all
  qed
  show "get_internal d key = Some None" if "\<And>j. j \<in> real_at d \<Longrightarrow> \<not> equal key (key_at d j)"
    unfolding g using inv(1) that by (intro get_loop_absent) (auto simp: f)
qed

lemma dict_lookup_found:
  assumes d: "dict_for hash equal valid d" and key: "valid key"
    and j: "j \<in> real_at d" "equal key (key_at d j)"
  shows "dict_lookup d key = Some (snd (d_buckets d ! j))"
proof -
  have e: "equal_func d = equal" using d by (simp add: dict_for_def)
  let ?P = "\<lambda>b. dict_real d (fst b) \<and> equal_func d key (fst b)"
  have m: "d_buckets d ! j \<in> set (d_buckets d)" "?P (d_buckets d ! j)"
    using j by (auto simp: real_at_def key_at_def e)
  then have "find ?P (d_buckets d) \<noteq> None" unfolding find_None_iff by blast
  then obtain b where b: "find ?P (d_buckets d) = Some b" by blast
  then have "b \<in> set (d_buckets d)" "?P b" by (auto simp: find_Some_iff)
  then have "b \<in> {b \<in> dict_content d. equal key (fst b)}" by (simp add: dict_content_def e)
  then have "b = d_buckets d ! j" unfolding entries_unique(1) [OF d key j] by simp
  then show ?thesis using b by (simp add: dict_lookup_def)
qed

lemma dict_lookup_absent:
  assumes "equal_func d = equal" "\<And>j. j \<in> real_at d \<Longrightarrow> \<not> equal key (key_at d j)"
  shows "dict_lookup d key = None"
  unfolding dict_lookup_def map_option_is_None find_None_iff in_set_conv_nth
  using assms by (auto simp: real_at_def key_at_def) (metis fst_conv)

lemma SOPC_Dict_Get_ok:
  assumes d: "dict_for hash equal valid d" and key: "valid key" "dict_real d key"
  shows "SOPC_Dict_Get (Some d) key found =
    Some (case dict_lookup d key of None \<Rightarrow> (0, False) | Some v \<Rightarrow> (v, True))"
proof (cases "\<exists>j \<in> real_at d. equal key (key_at d j)")
  case True
  then obtain j where j: "j \<in> real_at d" "equal key (key_at d j)" by blast
  show ?thesis
    using get_internal_ok(1) [OF d key j] dict_lookup_found [OF d key(1) j] by (simp add: SOPC_Dict_Get_def)
next
  case False
  have "equal_func d = equal" using d by (simp add: dict_for_def)
  then show ?thesis
    using get_internal_ok(2) [OF d key] dict_lookup_absent [of d key] False by (simp add: SOPC_Dict_Get_def)
qed

text \<open>The lookup in terms of the content.\<close>

lemma dict_lookup_content:
  assumes d: "dict_for hash equal valid d" and key: "valid key"
  shows "dict_lookup d key = Some v \<longleftrightarrow> (\<exists>k. (k, v) \<in> dict_content d \<and> equal key k)"
proof (cases "\<exists>j \<in> real_at d. equal key (key_at d j)")
  case True
  then obtain j where j: "j \<in> real_at d" "equal key (key_at d j)" by blast
  have "(\<exists>k. (k, v) \<in> dict_content d \<and> equal key k) \<longleftrightarrow> (\<exists>k. (k, v) \<in> {b \<in> dict_content d. equal key (fst b)})"
    by simp
  then show ?thesis
    unfolding entries_unique(1) [OF d key j] dict_lookup_found [OF d key j] by (cases "d_buckets d ! j") auto
next
  case False
  have "equal_func d = equal" using d by (simp add: dict_for_def)
  then have "dict_lookup d key = None" using False by (intro dict_lookup_absent) auto
  moreover have "\<not> equal key k" if "(k, v) \<in> dict_content d" for k
    using that False unfolding dict_content_at key_at_def by (metis fst_conv)
  ultimately show ?thesis by auto
qed

text \<open>The removal.\<close>

lemma n_items_bound: "dict_for hash equal valid d \<Longrightarrow> n_items d \<le> 2 ^ 59"
proof -
  assume d: "dict_for hash equal valid d"
  then obtain m where m: "m \<le> 60" "d_size d = 2 ^ m" "2 * n_items d \<le> d_size d"
    by (auto simp: dict_for_def dict_inv_def dict_shape_def dict_counts_def)
  have "(2 :: nat) ^ m \<le> 2 ^ 60" using m(1) by (rule power_increasing) simp
  then show ?thesis using m(2,3) by simp
qed

lemma buried_bucket:
  assumes d: "dict_for hash equal valid d" and j: "j \<in> real_at d" and t: "empty_key d \<noteq> tombstone_key d"
  defines "d' \<equiv> (free_bucket (d_buckets d ! j) d)\<lparr>d_buckets := (d_buckets d)[j := (tombstone_key d, 0)],
                   n_items := n_items d - 1\<rparr>"
  shows "dict_for hash equal valid d'" "real_at d' = real_at d - {j}"
    "\<And>k. k \<in> real_at d' \<Longrightarrow> d_buckets d' ! k = d_buckets d ! k"
proof -
  have inv: "dict_shape d" "dict_counts d" "dict_keys_ok valid d" and f: "hash_func d = hash" "equal_func d = equal"
    using d by (auto simp: dict_for_def dict_inv_def)
  have len: "j < length (d_buckets d)" using j by (simp add: real_at_def)
  have fields: "hash_func d' = hash" "equal_func d' = equal" "empty_key d' = empty_key d"
    "tombstone_key d' = tombstone_key d" "d_size d' = d_size d" "d_sizemask d' = d_sizemask d"
    "n_items d' = n_items d - 1" "n_busy d' = n_busy d" "d_buckets d' = (d_buckets d)[j := (tombstone_key d, 0)]"
    by (simp_all add: d'_def free_bucket_def f)
  have key: "key_at d' k = (if k = j then tombstone_key d else key_at d k)" for k
    using len by (simp add: fields key_at_def nth_list_update)
  show real: "real_at d' = real_at d - {j}"
    by (auto simp: real_at_def key dict_real_def fields split: if_splits)
  show bucket: "d_buckets d' ! k = d_buckets d ! k" if "k \<in> real_at d'" for k
    using that unfolding real by (simp add: fields)
  have "on_path d' h k i" if "on_path d h k i" for h k i
    using that t by (auto simp: on_path_def key fields)
  then have "Ex (on_path d' h k)" if "Ex (on_path d h k)" for h k using that by blast
  then have "dict_keys_ok valid d'"
    using inv(3) unfolding dict_keys_ok_def real f fields by (simp add: key)
  moreover have "dict_counts d'"
    using inv(2) j unfolding dict_counts_def real by (auto simp: fields)
  moreover have "dict_shape d'" using inv(1) by (simp add: dict_shape_def fields)
  ultimately show "dict_for hash equal valid d'" by (simp add: dict_for_def dict_inv_def fields)
qed

lemma SOPC_Dict_Remove_ok:
  assumes d: "dict_for hash equal valid d" and key: "valid key" "dict_real d key"
    and t: "empty_key d \<noteq> tombstone_key d"
  shows "\<exists>d' r. SOPC_Dict_Remove env (Some d) key = Some d' \<and> dict_for hash equal valid d' \<and>
    same_config d d' \<and> dict_content d' = {b \<in> dict_content d. \<not> equal key (fst b)} \<and>
    d_released d' = d_released d @ r \<and> distinct r \<and>
       set r = {b \<in> dict_content d. equal key (fst b)} \<and>
    n_items d' + length r = n_items d"
proof (cases "\<exists>j \<in> real_at d. equal key (key_at d j)")
  case False
  have "get_internal d key = Some None" using get_internal_ok(2) [OF d key] False by blast
  moreover have "\<not> equal key (fst b)" if "b \<in> dict_content d" for b
    using that False unfolding dict_content_at key_at_def by blast
  ultimately show ?thesis
    using d t by (intro exI [of _ d] exI [of _ "[]"]) (auto simp: SOPC_Dict_Remove_def)
next
  case True
  then obtain j where j: "j \<in> real_at d" "equal key (key_at d j)" by blast
  define d1 where "d1 = (free_bucket (d_buckets d ! j) d)\<lparr>d_buckets := (d_buckets d)[j := (tombstone_key d, 0)],
                   n_items := n_items d - 1\<rparr>"
  note b = buried_bucket [OF d j(1) t, folded d1_def]
  have "0 < card (real_at d)" using j(1) by (auto simp: card_gt_0_iff)
  then have pos: "0 < n_items d" using d by (simp add: dict_for_def dict_inv_def dict_counts_def)
  have fields: "d_released d1 = d_released d @ [d_buckets d ! j]" "same_config d d1" "n_items d1 = n_items d - 1"
    by (simp_all add: d1_def free_bucket_def same_config_def)
  have apart: "equal key (fst (d_buckets d ! k)) \<longleftrightarrow> k = j" if "k \<in> real_at d" for k
    using entries_unique(2) [OF d key(1) j, of k] j(2) that by (auto simp: key_at_def)
  have "dict_content d1 = {b. \<exists>k \<in> real_at d. k \<noteq> j \<and> d_buckets d ! k = b}"
    unfolding set_eq_iff dict_content_at b(2) using b(3) unfolding b(2) by auto
  also have "\<dots> = {b \<in> dict_content d. \<not> equal key (fst b)}"
    unfolding dict_content_at using apart by blast
  finally have content: "dict_content d1 = {b \<in> dict_content d. \<not> equal key (fst b)}" .
  obtain ok d' where r: "maybe_resize env d1 0 = Some (ok, d')" "dict_for hash equal valid d'"
    "dict_content d' = dict_content d1" "d_released d' = d_released d1" "same_config d1 d'" "n_items d' = n_items d1"
    using maybe_resize_keeps [OF b(1), of 0 env] n_items_bound [OF b(1)] by auto
  have "SOPC_Dict_Remove env (Some d) key = Some d'"
    using get_internal_ok(1) [OF d key j] t r(1)
    by (simp add: SOPC_Dict_Remove_def Let_def d1_def free_bucket_def)
  then show ?thesis
    using r content fields pos entries_unique(1) [OF d key(1) j] same_config_trans [OF fields(2) r(5)]
    by (intro exI [of _ d'] exI [of _ "[d_buckets d ! j]"]) auto
qed

lemma SOPC_Dict_Reserve_ok:
  assumes d: "dict_for hash equal valid d" and n: "n \<le> 2 ^ 59"
  shows "\<exists>ok d'. SOPC_Dict_Reserve env (Some d) n = Some (ok, Some d') \<and> dict_for hash equal valid d' \<and>
    dict_content d' = dict_content d \<and> d_released d' = d_released d \<and> same_config d d' \<and>
    (if ok then n \<le> SOPC_Dict_Capacity d' \<and> SOPC_Dict_Capacity d \<le> SOPC_Dict_Capacity d' \<and> no_tombstones d'
     else d' = d) \<and> (mem_total env \<longrightarrow> ok)"
proof -
  obtain m where m: "1 \<le> m" "m \<le> 60" "d_size d = 2 ^ m" "2 * n_items d \<le> 2 ^ m"
    using d by (auto simp: dict_for_def dict_inv_def dict_shape_def dict_counts_def)
  have "2 * n \<le> 2 ^ 60" using n by simp
  then obtain k where k: "m \<le> k" "k \<le> 60" "minimum_dict_size (2 ^ m) n = Some (2 ^ k)" "2 * n \<le> 2 ^ k"
    using minimum_dict_size_total [OF m(2)] by metis
  have mk: "(2 :: nat) ^ m \<le> 2 ^ k" using k(1) by (rule power_increasing) simp
  then have "2 * n_items d \<le> 2 ^ k" using m(4) by linarith
  then obtain ok d' where r: "dict_resize env d (2 ^ k) = Some (ok, d')" "dict_for hash equal valid d'"
    "dict_content d' = dict_content d" "d_released d' = d_released d" "same_config d d'"
    "if ok then d_size d' = 2 ^ k \<and> no_tombstones d' else d' = d"
    "mem_ok env (2 ^ k * sizeof_SOPC_DictBucket) \<longrightarrow> ok"
    using dict_resize_keeps [OF d, of k env] k m by auto
  have "SOPC_Dict_Reserve env (Some d) n = Some (ok, Some d')"
    using k(3) m(3) r(1) by (simp add: SOPC_Dict_Reserve_def)
  then show ?thesis
    using r(2-7) k(4) mk div_le_mono [OF mk, of 2] div_le_mono [OF k(4), of 2]
    by (intro exI [of _ ok] exI [of _ d']) (auto simp: SOPC_Dict_Capacity_def m(3) split: if_splits)
qed

text \<open>The laws on lookups.\<close>

lemma dict_lookup_None:
  assumes "dict_for hash equal valid d" "valid key"
  shows "dict_lookup d key = None \<longleftrightarrow> (\<forall>b \<in> dict_content d. \<not> equal key (fst b))"
proof
  assume "dict_lookup d key = None"
  then have "\<not> (\<exists>k. (k, v) \<in> dict_content d \<and> equal key k)" for v
    using dict_lookup_content [OF assms, of v] by simp
  then show "\<forall>b \<in> dict_content d. \<not> equal key (fst b)" by auto
next
  assume "\<forall>b \<in> dict_content d. \<not> equal key (fst b)"
  then have "dict_lookup d key \<noteq> Some v" for v
    unfolding dict_lookup_content [OF assms] by fastforce
  then show "dict_lookup d key = None" using not_Some_eq by blast
qed

lemma content_valid: "dict_for hash equal valid d \<Longrightarrow> b \<in> dict_content d \<Longrightarrow> valid (fst b)"
  by (auto simp: dict_for_def dict_inv_def dict_keys_ok_def dict_content_at key_at_def)

lemma lookup_after_insert:
  assumes d: "dict_for hash equal valid d" and d': "dict_for hash equal valid d'" and k: "valid key" "valid k"
    and c: "dict_content d' = insert (key, val) {b \<in> dict_content d. \<not> equal key (fst b)}"
  shows "dict_lookup d' k = (if equal key k then Some val else dict_lookup d k)"
proof (rule option_eq_by_Some)
  fix v
  have same: "equal key c \<longleftrightarrow> equal key k" if "equal k c" "valid c" for c
    using that k equal_sym equal_trans by metis
  have "dict_lookup d' k = Some v \<longleftrightarrow>
      v = val \<and> equal k key \<or> (\<exists>c. (c, v) \<in> dict_content d \<and> \<not> equal key c \<and> equal k c)"
    unfolding dict_lookup_content [OF d' k(2)] c by auto
  also have "\<dots> \<longleftrightarrow> (if equal key k then v = val else \<exists>c. (c, v) \<in> dict_content d \<and> equal k c)"
    using same content_valid [OF d, of "(_, v)"] equal_sym [OF k] equal_sym [OF k(2,1)] by (simp, blast)
  finally show "dict_lookup d' k = Some v \<longleftrightarrow> (if equal key k then Some val else dict_lookup d k) = Some v"
    using dict_lookup_content [OF d k(2)] by auto
qed

lemma lookup_after_remove:
  assumes d: "dict_for hash equal valid d" and d': "dict_for hash equal valid d'" and k: "valid key" "valid k"
    and c: "dict_content d' = {b \<in> dict_content d. \<not> equal key (fst b)}"
  shows "dict_lookup d' k = (if equal key k then None else dict_lookup d k)"
proof (rule option_eq_by_Some)
  fix v
  have same: "equal key c \<longleftrightarrow> equal key k" if "equal k c" "valid c" for c
    using that k equal_sym equal_trans by metis
  have "dict_lookup d' k = Some v \<longleftrightarrow> (\<exists>c. (c, v) \<in> dict_content d \<and> \<not> equal key c \<and> equal k c)"
    unfolding dict_lookup_content [OF d' k(2)] c by auto
  also have "\<dots> \<longleftrightarrow> \<not> equal key k \<and> (\<exists>c. (c, v) \<in> dict_content d \<and> equal k c)"
    using same content_valid [OF d] by fastforce
  finally show "dict_lookup d' k = Some v \<longleftrightarrow> (if equal key k then None else dict_lookup d k) = Some v"
    using dict_lookup_content [OF d k(2)] by auto
qed

lemma lookup_same_content:
  assumes "dict_for hash equal valid d" "dict_for hash equal valid d'" "valid k" "dict_content d' = dict_content d"
  shows "dict_lookup d' k = dict_lookup d k"
  by (rule option_eq_by_Some) (use assms in \<open>simp add: dict_lookup_content\<close>)

lemma released_entries:
  assumes d: "dict_for hash equal valid d" and key: "valid key"
    and r: "distinct r" "set r = {b \<in> dict_content d. equal key (fst b)}"
  shows "map snd r = (case dict_lookup d key of None \<Rightarrow> [] | Some v \<Rightarrow> [v])"
proof (cases "dict_lookup d key")
  case None
  then have "set r = {}" using r(2) dict_lookup_None [OF d key] by auto
  then show ?thesis using None by simp
next
  case (Some v)
  then obtain j where j: "j \<in> real_at d" "equal key (key_at d j)"
    using d dict_lookup_absent [of d key] by (auto simp: dict_for_def)
  have "set r = {d_buckets d ! j}" using r(2) entries_unique(1) [OF d key j] by simp
  then have "r = [d_buckets d ! j]" using r(1) by (rule distinct_singleton)
  then show ?thesis using dict_lookup_found [OF d key j] by simp
qed

lemma insert_refines:
  assumes d: "dict_for hash equal valid d" and key: "valid key" "key \<noteq> empty_key d" "key \<noteq> tombstone_key d"
    and n: "n_items d < 2 ^ 59" and ex: "no_tombstones d \<or> dict_lookup d key = None"
  shows "\<exists>ok d'. SOPC_Dict_Insert env (Some d) key val = Some (ok, Some d') \<and>
    dict_for hash equal valid d' \<and> (mem_total env \<longrightarrow> ok) \<and> (no_tombstones d \<longrightarrow> no_tombstones d') \<and>
    same_config d d' \<and>
    (if ok then
       (\<forall>k. valid k \<longrightarrow> dict_lookup d' k = (if equal key k then Some val else dict_lookup d k)) \<and>
       SOPC_Dict_Size d' = SOPC_Dict_Size d + (if dict_lookup d key = None then 1 else 0) \<and>
       map snd (d_released d') = map snd (d_released d) @ (case dict_lookup d key of None \<Rightarrow> [] | Some v \<Rightarrow> [v])
     else d' = d)"
proof -
  have real: "dict_real d key" using key(2,3) by (simp add: dict_real_def)
  have ex': "no_tombstones d \<or> (\<forall>b \<in> dict_content d. \<not> equal key (fst b))"
    using ex dict_lookup_None [OF d key(1)] by simp
  obtain ok d' where i: "SOPC_Dict_Insert env (Some d) key val = Some (ok, Some d')"
    "dict_for hash equal valid d'" "same_config d d'" "no_tombstones d \<longrightarrow> no_tombstones d'" "mem_total env \<longrightarrow> ok"
    "if ok then dict_content d' = insert (key, val) {b \<in> dict_content d. \<not> equal key (fst b)} \<and>
       (\<exists>r. d_released d' = d_released d @ r \<and> distinct r \<and> set r = {b \<in> dict_content d. equal key (fst b)} \<and>
            n_items d' + length r = n_items d + 1)
     else d' = d"
    using SOPC_Dict_Insert_ok [OF d key(1) real n ex', of env val] by blast
  show ?thesis
  proof (cases ok)
    case False
    then show ?thesis using i by (intro exI [of _ False] exI [of _ d']) simp
  next
    case True
    then obtain r where r: "d_released d' = d_released d @ r" "distinct r"
      "set r = {b \<in> dict_content d. equal key (fst b)}" "n_items d' + length r = n_items d + 1"
      and c: "dict_content d' = insert (key, val) {b \<in> dict_content d. \<not> equal key (fst b)}"
      using i(6) by auto
    note e = released_entries [OF d key(1) r(2,3)]
    have "length r = (if dict_lookup d key = None then 0 else 1)"
      using arg_cong [OF e, of length] by (auto split: option.splits)
    then show ?thesis
      using i True r(1,4) e lookup_after_insert [OF d i(2) key(1) _ c]
      by (intro exI [of _ True] exI [of _ d']) (auto simp: SOPC_Dict_Size_def)
  qed
qed

lemma insert_succeeds:
  assumes "dict_for hash equal valid d" "valid key" "key \<noteq> empty_key d" "key \<noteq> tombstone_key d"
    "n_items d < 2 ^ 59" "no_tombstones d \<or> dict_lookup d key = None" "mem_total env"
  shows "\<exists>d'. SOPC_Dict_Insert env (Some d) key val = Some (True, Some d') \<and>
    dict_for hash equal valid d' \<and> (no_tombstones d \<longrightarrow> no_tombstones d') \<and> same_config d d' \<and>
    n_items d' \<le> n_items d + 1 \<and>
    (\<forall>k. valid k \<longrightarrow> dict_lookup d' k = (if equal key k then Some val else dict_lookup d k))"
proof -
  obtain ok d' where i: "SOPC_Dict_Insert env (Some d) key val = Some (ok, Some d')"
    "dict_for hash equal valid d'" "mem_total env \<longrightarrow> ok" "no_tombstones d \<longrightarrow> no_tombstones d'" "same_config d d'"
    "if ok then
       (\<forall>k. valid k \<longrightarrow> dict_lookup d' k = (if equal key k then Some val else dict_lookup d k)) \<and>
       SOPC_Dict_Size d' = SOPC_Dict_Size d + (if dict_lookup d key = None then 1 else 0) \<and>
       map snd (d_released d') = map snd (d_released d) @ (case dict_lookup d key of None \<Rightarrow> [] | Some v \<Rightarrow> [v])
     else d' = d"
    using insert_refines [OF assms(1-6), of env val] by blast
  then have "ok" using assms(7) by simp
  then show ?thesis
    using i by (intro exI [of _ d']) (simp add: SOPC_Dict_Size_def)
qed

lemma remove_refines:
  assumes d: "dict_for hash equal valid d" and key: "valid key" "key \<noteq> empty_key d" "key \<noteq> tombstone_key d"
    and t: "empty_key d \<noteq> tombstone_key d"
  shows "\<exists>d'. SOPC_Dict_Remove env (Some d) key = Some d' \<and> dict_for hash equal valid d' \<and> same_config d d' \<and>
    (\<forall>k. valid k \<longrightarrow> dict_lookup d' k = (if equal key k then None else dict_lookup d k)) \<and>
    SOPC_Dict_Size d' = SOPC_Dict_Size d - (if dict_lookup d key = None then 0 else 1) \<and>
    map snd (d_released d') = map snd (d_released d) @ (case dict_lookup d key of None \<Rightarrow> [] | Some v \<Rightarrow> [v])"
proof -
  have real: "dict_real d key" using key(2,3) by (simp add: dict_real_def)
  obtain d' r where i: "SOPC_Dict_Remove env (Some d) key = Some d'" "dict_for hash equal valid d'" "same_config d d'"
    "dict_content d' = {b \<in> dict_content d. \<not> equal key (fst b)}" "d_released d' = d_released d @ r" "distinct r"
    "set r = {b \<in> dict_content d. equal key (fst b)}" "n_items d' + length r = n_items d"
    using SOPC_Dict_Remove_ok [OF d key(1) real t, of env] by blast
  note e = released_entries [OF d key(1) i(6,7)]
  have "length r = (if dict_lookup d key = None then 0 else 1)"
    using arg_cong [OF e, of length] by (auto split: option.splits)
  then show ?thesis
    using i e lookup_after_remove [OF d i(2) key(1) _ i(4)] by (intro exI [of _ d']) (auto simp: SOPC_Dict_Size_def)
qed

lemma SOPC_Dict_Create_ok:
  assumes "SOPC_Dict_Create env k hash equal = Some d"
  shows "dict_for hash equal valid d" "dict_content d = {}" "no_tombstones d" "n_items d = 0"
    "empty_key d = k" "tombstone_key d = k"
proof -
  have f: "hash_func d = hash" "equal_func d = equal" "d_size d = 2 ^ 4" "n_items d = 0" "empty_key d = k"
    "tombstone_key d = k" "d_buckets d = empty_buckets (empty_key d) (2 ^ 4)" "d_sizemask d = of_nat (2 ^ 4 - 1)"
    using assms by (auto simp: SOPC_Dict_Create_def DICT_INITIAL_SIZE_def split: if_splits)
  show "dict_for hash equal valid d" "dict_content d = {}" by (rule empty_table_ok [of 4]; simp add: f)+
  show "no_tombstones d" by (auto simp: no_tombstones_def f)
qed (use assms in \<open>auto simp: SOPC_Dict_Create_def split: if_splits\<close>)

end

end
