(* ===== verification/Dict_Properties.thy ===== *)
theory Dict_Properties
  imports Dict_Laws Builtin_Types
begin

text \<open>
  The hash table as its clients use it: dictionaries keyed by node identifiers
  (\<open>sopc_builtintypes.c\<close>) and by integers (\<open>state_machine.c\<close> of the client wrapper) satisfy the
  contract \<open>dict_keys\<close>, and the operations implement a finite map up to the equality of the keys.
\<close>

section \<open>Keys\<close>

text \<open>
  A key is a pointer to a node identifier. Two pointers to equal identifiers get the same answers
  from these functions, so a pointer is represented by what it points to, with \<open>None\<close> for \<open>NULL\<close>.
\<close>

definition nodeid_hash :: "SOPC_NodeId option \<Rightarrow> u64" where
  "nodeid_hash k = the (SOPC_NodeId_Hash k)"

definition nodeid_equal :: "SOPC_NodeId option \<Rightarrow> SOPC_NodeId option \<Rightarrow> bool" where
  "nodeid_equal a b = the (SOPC_NodeId_Equal False a b)"

definition SOPC_NodeId_Dict_Create :: "('e) mem_env_scheme \<Rightarrow> SOPC_NodeId option SOPC_Dict option" where
  "SOPC_NodeId_Dict_Create env = SOPC_Dict_Create env None nodeid_hash nodeid_equal"

definition nodeid_ptr_wf :: "SOPC_NodeId option \<Rightarrow> bool" where
  "nodeid_ptr_wf k \<longleftrightarrow> (\<exists>n. k = Some n \<and> nodeid_wf n)"

definition uintptr_hash :: "uintptr \<Rightarrow> u64" where
  "uintptr_hash data = SOPC_FNV1aHash (le_bytes 8 (unat data))"

definition direct_equal :: "uintptr \<Rightarrow> uintptr \<Rightarrow> bool" where
  "direct_equal a b \<longleftrightarrow> a = b"

lemma nodeid_equal_key: "nodeid_wf m \<Longrightarrow> nodeid_wf n \<Longrightarrow>
    nodeid_equal (Some m) (Some n) \<longleftrightarrow> nodeid_key m = nodeid_key n"
  by (simp add: nodeid_equal_def NodeId_Equal_key)

interpretation nodeid_keys: dict_keys nodeid_hash nodeid_equal nodeid_ptr_wf
  by unfold_locales (auto simp: nodeid_ptr_wf_def nodeid_equal_key nodeid_hash_def NodeId_Hash_key)

interpretation direct_keys: dict_keys uintptr_hash direct_equal "\<lambda>_. True"
  by unfold_locales (auto simp: direct_equal_def)

section \<open>The operations on a table\<close>

text \<open>A small table of integers used by the witnesses.\<close>

definition demo_dict :: "uintptr SOPC_Dict" where
  "demo_dict = \<lparr>d_buckets = empty_buckets 0 DICT_INITIAL_SIZE, d_size = DICT_INITIAL_SIZE,
     d_sizemask = of_nat (DICT_INITIAL_SIZE - 1), n_items = 0, n_busy = 0, empty_key = 0,
     tombstone_key = - 1, hash_func = uintptr_hash, equal_func = direct_equal, d_released = []\<rparr>"

text \<open>For evaluation: the initial size is kept for up to eight items.\<close>

lemma minimum_dict_size_initial [code]:
  "minimum_dict_size start_size n =
     (if start_size = 16 \<and> n \<le> 8 then Some 16
      else if is_power_of_two start_size then minimum_dict_size_loop start_size n else None)"
proof (cases "start_size = 16 \<and> n \<le> 8")
  case True
  then have "minimum_dict_size_loop 16 n = Some 16"
    by (subst minimum_dict_size_loop.simps) (simp add: size_mod_def)
  then show ?thesis using True is_power_of_two_power [of 4] by (simp add: minimum_dict_size_def)
qed (auto simp: minimum_dict_size_def)

lemma demo_dict_fields [simp]:
  "empty_key demo_dict = 0" "tombstone_key demo_dict = - 1" "n_items demo_dict = 0"
  by (simp_all add: demo_dict_def)

lemma demo_dict_ok:
  "dict_for uintptr_hash direct_equal (\<lambda>_. True) demo_dict" "dict_content demo_dict = {}"
  "no_tombstones demo_dict"
proof -
  show "dict_for uintptr_hash direct_equal (\<lambda>_. True) demo_dict" "dict_content demo_dict = {}"
    by (rule direct_keys.empty_table_ok [of 4]; simp add: demo_dict_def DICT_INITIAL_SIZE_def)+
  show "no_tombstones demo_dict"
    by (simp add: no_tombstones_def demo_dict_def empty_buckets_def set_empty_keys_def)
qed

lemma demo_dict_lookup [simp]: "dict_lookup demo_dict k = None"
  using direct_keys.dict_lookup_None [OF demo_dict_ok(1)] demo_dict_ok(2) by simp

text \<open>
  C17: inserting a key in a well-formed table always returns: it never runs into the assertion that no
  bucket is free. On success the table maps every key equal to the new one to the new value and all
  others as before, its size grows by one exactly when the key is new, and the entry of an equal key
  is released; on failure (out of memory only) the table is unchanged. This holds for a table without
  tombstones, or for a key that is not in the table.
\<close>

theorem dict_insert_refines:
  assumes "dict_keys hash equal valid" and "dict_for hash equal valid d" and "valid key"
    and "key \<noteq> empty_key d" and "key \<noteq> tombstone_key d" and "n_items d < 2 ^ 59"
    and "no_tombstones d \<or> dict_lookup d key = None"
  shows "\<exists>ok d'. SOPC_Dict_Insert env (Some d) key val = Some (ok, Some d') \<and>
    dict_for hash equal valid d' \<and> (mem_total env \<longrightarrow> ok) \<and>
    (if ok then
       (\<forall>k. valid k \<longrightarrow> dict_lookup d' k = (if equal key k then Some val else dict_lookup d k)) \<and>
       SOPC_Dict_Size d' = SOPC_Dict_Size d + (if dict_lookup d key = None then 1 else 0) \<and>
       map snd (d_released d') = map snd (d_released d) @ (case dict_lookup d key of None \<Rightarrow> [] | Some v \<Rightarrow> [v])
     else d' = d)"
  using dict_keys.insert_refines [OF assms, of env val] by blast

theorem dict_insert_refines_witness:
  "\<exists>ok d'. SOPC_Dict_Insert demo_mem (Some demo_dict) 17 5 = Some (ok, Some d') \<and>
    dict_for uintptr_hash direct_equal (\<lambda>_. True) d' \<and> (mem_total demo_mem \<longrightarrow> ok) \<and>
    (if ok then
       (\<forall>k. True \<longrightarrow> dict_lookup d' k = (if direct_equal 17 k then Some 5 else dict_lookup demo_dict k)) \<and>
       SOPC_Dict_Size d' = SOPC_Dict_Size demo_dict + (if dict_lookup demo_dict 17 = None then 1 else 0) \<and>
       map snd (d_released d') =
         map snd (d_released demo_dict) @ (case dict_lookup demo_dict 17 of None \<Rightarrow> [] | Some v \<Rightarrow> [v])
     else d' = demo_dict)"
  by (rule dict_insert_refines [OF direct_keys.dict_keys_axioms demo_dict_ok(1)]) (simp_all add: demo_dict_ok)

text \<open>
  C28: in a well-formed table, following the probe sequence finds exactly what a search of all buckets
  would find, within the table and in at most as many probes as there are buckets.
\<close>

theorem dict_get_correct:
  assumes "dict_keys hash equal valid" and "dict_for hash equal valid d" and "valid key"
    and "key \<noteq> empty_key d" and "key \<noteq> tombstone_key d"
  shows "SOPC_Dict_Get (Some d) key found =
    Some (case dict_lookup d key of None \<Rightarrow> (0, False) | Some v \<Rightarrow> (v, True))"
  using dict_keys.SOPC_Dict_Get_ok [OF assms(1-3)] assms(4,5) by (simp add: dict_real_def)

theorem dict_get_correct_witness:
  "SOPC_Dict_Get (Some demo_dict) 17 True =
    Some (case dict_lookup demo_dict 17 of None \<Rightarrow> (0, False) | Some v \<Rightarrow> (v, True))"
  by (rule dict_get_correct [OF direct_keys.dict_keys_axioms demo_dict_ok(1)]) simp_all

text \<open>
  C27: removing a key from a well-formed table with a tombstone key always returns; the table then has
  no key equal to it and maps all others as before, its size decreases by one exactly when the key was
  there, and only the removed entry is released, whether or not the table is shrunk on this occasion.
\<close>

theorem dict_remove_refines:
  assumes "dict_keys hash equal valid" and "dict_for hash equal valid d" and "valid key"
    and "key \<noteq> empty_key d" and "key \<noteq> tombstone_key d" and "empty_key d \<noteq> tombstone_key d"
  shows "\<exists>d'. SOPC_Dict_Remove env (Some d) key = Some d' \<and> dict_for hash equal valid d' \<and>
    (\<forall>k. valid k \<longrightarrow> dict_lookup d' k = (if equal key k then None else dict_lookup d k)) \<and>
    SOPC_Dict_Size d' = SOPC_Dict_Size d - (if dict_lookup d key = None then 0 else 1) \<and>
    map snd (d_released d') = map snd (d_released d) @ (case dict_lookup d key of None \<Rightarrow> [] | Some v \<Rightarrow> [v])"
  using dict_keys.remove_refines [OF assms, of env] by blast

theorem dict_remove_refines_witness:
  "\<exists>d'. SOPC_Dict_Remove demo_mem (Some demo_dict) 17 = Some d' \<and>
    dict_for uintptr_hash direct_equal (\<lambda>_. True) d' \<and>
    (\<forall>k. True \<longrightarrow> dict_lookup d' k = (if direct_equal 17 k then None else dict_lookup demo_dict k)) \<and>
    SOPC_Dict_Size d' = SOPC_Dict_Size demo_dict - (if dict_lookup demo_dict 17 = None then 0 else 1) \<and>
    map snd (d_released d') =
      map snd (d_released demo_dict) @ (case dict_lookup demo_dict 17 of None \<Rightarrow> [] | Some v \<Rightarrow> [v])"
  by (rule dict_remove_refines [OF direct_keys.dict_keys_axioms demo_dict_ok(1)]) simp_all

text \<open>
  C33: reserving room for up to \<open>2 ^ 59\<close> items returns; on success the capacity is at least the
  requested one and not smaller than before, and no entry is lost, changed or released; on failure the
  table is unchanged.
\<close>

theorem dict_reserve_keeps:
  assumes "dict_keys hash equal valid" and "dict_for hash equal valid d" and "n \<le> 2 ^ 59"
  shows "\<exists>ok d'. SOPC_Dict_Reserve env (Some d) n = Some (ok, Some d') \<and> dict_for hash equal valid d' \<and>
    dict_content d' = dict_content d \<and> d_released d' = d_released d \<and>
    (if ok then n \<le> SOPC_Dict_Capacity d' \<and> SOPC_Dict_Capacity d \<le> SOPC_Dict_Capacity d' else d' = d)"
  using dict_keys.SOPC_Dict_Reserve_ok [OF assms, of env] by (metis (no_types, lifting))

theorem dict_reserve_keeps_witness:
  "\<exists>ok d'. SOPC_Dict_Reserve demo_mem (Some demo_dict) 100 = Some (ok, Some d') \<and>
    dict_for uintptr_hash direct_equal (\<lambda>_. True) d' \<and>
    dict_content d' = dict_content demo_dict \<and> d_released d' = d_released demo_dict \<and>
    (if ok then 100 \<le> SOPC_Dict_Capacity d' \<and> SOPC_Dict_Capacity demo_dict \<le> SOPC_Dict_Capacity d'
     else d' = demo_dict)"
  by (rule dict_reserve_keeps [OF direct_keys.dict_keys_axioms demo_dict_ok(1)]) simp

text \<open>
  For a request of more than \<open>2 ^ 62\<close> items (and less than \<open>2 ^ 63\<close>) the size computation never
  ends: the doubled size wraps to 0 before it reaches the request.
\<close>

theorem dict_size_diverges:
  assumes "a \<le> 63" and "2 ^ 62 < n" and "n < 2 ^ 63"
  shows "minimum_dict_size (2 ^ a) n = None"
  using assms by (rule minimum_dict_size_diverges)

theorem dict_size_diverges_witness: "minimum_dict_size (2 ^ 4) (2 ^ 62 + 1) = None"
  by (rule dict_size_diverges) simp_all

text \<open>
  With tombstones, inserting a key that is already in the table can add a second entry instead of
  overwriting the first: the insertion takes the tombstone it meets before the entry. In a table of the
  client wrapper (integer keys, \<open>DICT_TOMBSTONE\<close> as tombstone) with two colliding keys 1 and 17, after
  the removal of 1 the second insertion of 17 makes the size 2, and after the removal of 17 a lookup of
  17 still finds its first value.
\<close>

theorem dict_insert_after_remove_stale:
  "do { (a, d) \<leftarrow> SOPC_Dict_Insert demo_mem (Some demo_dict) 1 10;
        (b, d) \<leftarrow> SOPC_Dict_Insert demo_mem d 17 20;
        d \<leftarrow> SOPC_Dict_Remove demo_mem d 1;
        (c, d) \<leftarrow> SOPC_Dict_Insert demo_mem (Some d) 17 30;
        n \<leftarrow> map_option SOPC_Dict_Size d;
        d \<leftarrow> SOPC_Dict_Remove demo_mem d 17;
        g \<leftarrow> SOPC_Dict_Get (Some d) 17 False;
        Some (a, b, c, n, g) } = Some (True, True, True, 2, (20, True))"
  by code_simp

section \<open>Histories\<close>

text \<open>A sequence of insertions, each of which has to succeed.\<close>

fun dict_inserts :: "('e) mem_env_scheme \<Rightarrow> 'k SOPC_Dict \<Rightarrow> ('k \<times> uintptr) list \<Rightarrow> 'k SOPC_Dict option" where
  "dict_inserts env d [] = Some d"
| "dict_inserts env d ((k, v) # kvs) = do {
     (ok, d') \<leftarrow> SOPC_Dict_Insert env (Some d) k v;
     d' \<leftarrow> d';
     if ok then dict_inserts env d' kvs else None }"

lemma nodeid_inserts:
  assumes "mem_total env" "\<forall>(n, v) \<in> set kvs. nodeid_wf n"
    "dict_for nodeid_hash nodeid_equal nodeid_ptr_wf d" "no_tombstones d" "empty_key d = None"
    "tombstone_key d = None" "n_items d + length kvs < 2 ^ 59"
  shows "\<exists>d'. dict_inserts env d (map (\<lambda>(n, v). (Some n, v)) kvs) = Some d' \<and>
    dict_for nodeid_hash nodeid_equal nodeid_ptr_wf d' \<and> empty_key d' = None \<and> tombstone_key d' = None \<and>
    (\<forall>n. nodeid_wf n \<longrightarrow> dict_lookup d' (Some n) =
       (case map_of (rev (map (\<lambda>(n, v). (nodeid_key n, v)) kvs)) (nodeid_key n) of
          None \<Rightarrow> dict_lookup d (Some n) | Some v \<Rightarrow> Some v))"
  using assms(2-)
proof (induction kvs arbitrary: d)
  case (Cons kv kvs)
  obtain n v where kv: "kv = (n, v)" by (cases kv)
  have n: "nodeid_wf n" "nodeid_ptr_wf (Some n)" using Cons.prems(1) by (auto simp: kv nodeid_ptr_wf_def)
  have room: "n_items d < 2 ^ 59" "no_tombstones d \<or> dict_lookup d (Some n) = None"
    using Cons.prems(3,6) by auto
  obtain d1 where d1: "SOPC_Dict_Insert env (Some d) (Some n) v = Some (True, Some d1)"
    "dict_for nodeid_hash nodeid_equal nodeid_ptr_wf d1" "no_tombstones d1" "same_config d d1"
    "\<forall>k. nodeid_ptr_wf k \<longrightarrow>
       dict_lookup d1 k = (if nodeid_equal (Some n) k then Some v else dict_lookup d k)"
    "n_items d1 \<le> n_items d + 1"
    using nodeid_keys.insert_succeeds [OF Cons.prems(2) n(2) _ _ room assms(1), of v] Cons.prems(3-5) by auto
  have look: "dict_lookup d1 (Some m) = (if nodeid_key n = nodeid_key m then Some v else dict_lookup d (Some m))"
    if "nodeid_wf m" for m
    using d1(5) that n(1) by (auto simp: nodeid_ptr_wf_def nodeid_equal_key)
  have "\<exists>d'. dict_inserts env d1 (map (\<lambda>(n, v). (Some n, v)) kvs) = Some d' \<and>
    dict_for nodeid_hash nodeid_equal nodeid_ptr_wf d' \<and> empty_key d' = None \<and> tombstone_key d' = None \<and>
    (\<forall>n. nodeid_wf n \<longrightarrow> dict_lookup d' (Some n) =
       (case map_of (rev (map (\<lambda>(n, v). (nodeid_key n, v)) kvs)) (nodeid_key n) of
          None \<Rightarrow> dict_lookup d1 (Some n) | Some v \<Rightarrow> Some v))"
    using Cons.prems d1 by (intro Cons.IH) (auto simp: same_config_def)
  then show ?case
    using d1(1) look by (fastforce simp: kv map_add_def split: option.splits)
qed simp

text \<open>
  C24: a dictionary of node identifiers, created empty and filled by any sequence of insertions, answers
  every lookup with the last value inserted for an equal identifier, and with \<open>found\<close> false if there
  is none (for well-formed identifiers, with memory available).
\<close>

theorem nodeid_dict_history:
  assumes "mem_total env" and "\<forall>(n, v) \<in> set kvs. nodeid_wf n" and "length kvs < 2 ^ 59" and "nodeid_wf n"
  shows "\<exists>d d'. SOPC_NodeId_Dict_Create env = Some d \<and>
    dict_inserts env d (map (\<lambda>(n, v). (Some n, v)) kvs) = Some d' \<and>
    SOPC_Dict_Get (Some d') (Some n) found =
      Some (case map_of (rev (map (\<lambda>(n, v). (nodeid_key n, v)) kvs)) (nodeid_key n) of
              None \<Rightarrow> (0, False) | Some v \<Rightarrow> (v, True))"
proof -
  obtain d where c: "SOPC_NodeId_Dict_Create env = Some d"
    using assms(1) by (simp add: SOPC_NodeId_Dict_Create_def SOPC_Dict_Create_def)
  note d = nodeid_keys.SOPC_Dict_Create_ok [OF c [unfolded SOPC_NodeId_Dict_Create_def]]
  have empty: "dict_lookup d (Some n) = None"
    using nodeid_keys.dict_lookup_None [OF d(1), of "Some n"] d(2) assms(4) by (simp add: nodeid_ptr_wf_def)
  obtain d' where d': "dict_inserts env d (map (\<lambda>(n, v). (Some n, v)) kvs) = Some d'"
    "dict_for nodeid_hash nodeid_equal nodeid_ptr_wf d'" "empty_key d' = None" "tombstone_key d' = None"
    "dict_lookup d' (Some n) = map_of (rev (map (\<lambda>(n, v). (nodeid_key n, v)) kvs)) (nodeid_key n)"
    using nodeid_inserts [OF assms(1,2) d(1,3,5,6)] assms(3,4) empty d(4) by (fastforce split: option.splits)
  have "SOPC_Dict_Get (Some d') (Some n) found =
      Some (case dict_lookup d' (Some n) of None \<Rightarrow> (0, False) | Some v \<Rightarrow> (v, True))"
    using d'(2-4) assms(4)
    by (intro nodeid_keys.SOPC_Dict_Get_ok) (auto simp: nodeid_ptr_wf_def dict_real_def)
  then show ?thesis using c d'(1,5) by auto
qed

theorem nodeid_dict_history_witness:
  "\<exists>d d'. SOPC_NodeId_Dict_Create demo_mem = Some d \<and>
    dict_inserts demo_mem d (map (\<lambda>(n, v). (Some n, v)) [(demo_string_id [65], 1), (demo_string_id [66], 2)]) = Some d' \<and>
    SOPC_Dict_Get (Some d') (Some (demo_string_id [65])) False =
      Some (case map_of (rev (map (\<lambda>(n, v). (nodeid_key n, v)) [(demo_string_id [65], 1), (demo_string_id [66], 2)]))
              (nodeid_key (demo_string_id [65])) of
              None \<Rightarrow> (0, False) | Some v \<Rightarrow> (v, True))"
  by (rule nodeid_dict_history) (simp_all add: demo_id_simps)

end
