(* ===== verification/Deque.thy ===== *)
theory Deque
  imports S2OPC_Prelude
begin

text \<open>
  The contract of a bounded double-ended queue, met by the circular queue and by the linked list: the
  operations work on a sequence of elements, refuse a value that is 0 or does not fit and report it by
  returning 0, and never access memory outside of their blocks. A client that drives such a queue by
  any history of calls sees the answers of a bounded list.
\<close>

datatype 'e deque_op = Append_op 'e | Prepend_op 'e | PopHead_op | PopLast_op

text \<open>The bounded list.\<close>

definition list_push :: "bool \<Rightarrow> nat \<Rightarrow> ('e \<Rightarrow> uintptr) \<Rightarrow> 'e \<Rightarrow> 'e list \<Rightarrow> bool" where
  "list_push avail n val e xs \<longleftrightarrow> val e \<noteq> 0 \<and> avail \<and> length xs < n"

fun list_step :: "bool \<Rightarrow> nat \<Rightarrow> ('e \<Rightarrow> uintptr) \<Rightarrow> 'e deque_op \<Rightarrow> 'e list \<Rightarrow> uintptr \<times> 'e list" where
  "list_step avail n val (Append_op e) xs = (if list_push avail n val e xs then (val e, xs @ [e]) else (0, xs))"
| "list_step avail n val (Prepend_op e) xs = (if list_push avail n val e xs then (val e, e # xs) else (0, xs))"
| "list_step avail n val PopHead_op xs = (if xs = [] then (0, []) else (val (hd xs), tl xs))"
| "list_step avail n val PopLast_op xs = (if xs = [] then (0, []) else (val (last xs), butlast xs))"

fun list_run :: "bool \<Rightarrow> nat \<Rightarrow> ('e \<Rightarrow> uintptr) \<Rightarrow> 'e deque_op list \<Rightarrow> 'e list \<Rightarrow> uintptr list \<times> 'e list" where
  "list_run avail n val [] xs = ([], xs)"
| "list_run avail n val (op # ops) xs =
     (let (r, xs) = list_step avail n val op xs; (rs, xs) = list_run avail n val ops xs in (r # rs, xs))"

text \<open>A history of calls on an implementation, with the values they return.\<close>

fun queue_run :: "('e deque_op \<Rightarrow> 'q \<Rightarrow> (uintptr \<times> 'q) option) \<Rightarrow> 'e deque_op list \<Rightarrow> 'q \<Rightarrow>
    (uintptr list \<times> 'q) option" where
  "queue_run step [] q = Some ([], q)"
| "queue_run step (op # ops) q = do {
     (r, q) \<leftarrow> step op q;
     (rs, q) \<leftarrow> queue_run step ops q;
     Some (r # rs, q) }"

locale bounded_deque =
  fixes inv :: "'q \<Rightarrow> bool"
    and elems :: "'q \<Rightarrow> 'e list"
    and cap :: "'q \<Rightarrow> nat"
    and avail :: bool
    and val :: "'e \<Rightarrow> uintptr"
    and step :: "'e deque_op \<Rightarrow> 'q \<Rightarrow> (uintptr \<times> 'q) option"
  assumes step_refines: "inv q \<Longrightarrow> \<exists>q'. step op q = Some (fst (list_step avail (cap q) val op (elems q)), q') \<and>
      inv q' \<and> cap q' = cap q \<and> elems q' = snd (list_step avail (cap q) val op (elems q))"
begin

lemma run_refines:
  assumes "inv q"
  shows "\<exists>q'. queue_run step ops q = Some (fst (list_run avail (cap q) val ops (elems q)), q') \<and>
    inv q' \<and> cap q' = cap q \<and> elems q' = snd (list_run avail (cap q) val ops (elems q))"
  using assms
proof (induction ops arbitrary: q)
  case (Cons op ops)
  obtain q1 where q1: "step op q = Some (fst (list_step avail (cap q) val op (elems q)), q1)"
    "inv q1" "cap q1 = cap q" "elems q1 = snd (list_step avail (cap q) val op (elems q))"
    using step_refines [OF Cons.prems] by blast
  obtain q2 where "queue_run step ops q1 = Some (fst (list_run avail (cap q1) val ops (elems q1)), q2)"
    "inv q2" "cap q2 = cap q1" "elems q2 = snd (list_run avail (cap q1) val ops (elems q1))"
    using Cons.IH [OF q1(2)] by blast
  with q1 show ?case by (simp add: split_beta Let_def)
qed simp

end

section \<open>Removal by identifier\<close>

text \<open>\<open>SOPC_SLinkedList_RemoveFromId\<close> on a list of identified values: the first one of that identifier.\<close>

fun requests_remove :: "u32 \<Rightarrow> (u32 \<times> 'a) list \<Rightarrow> 'a option \<times> (u32 \<times> 'a) list" where
  "requests_remove i [] = (None, [])"
| "requests_remove i ((j, x) # rs) =
     (if j = i then (Some x, rs) else (let (r, rs) = requests_remove i rs in (r, (j, x) # rs)))"

end
