(* ===== verification/Circular_Queue.thy ===== *)
theory Circular_Queue
  imports Deque
begin

text \<open>
  The circular queue of \<open>src/Common/helpers/sopc_circular_queue.c\<close> and the auto-growing queue of
  \<open>sopc_circular_queue_autogrow.c\<close> on top of it. Indices and counters are 32-bit words as in the source;
  an access to a slot outside of the array is \<open>None\<close>.
\<close>

section \<open>The structure\<close>

record SOPC_CircularQueue =
  q_slots :: "uintptr list"
  q_head :: u32
  q_length :: u32
  q_maxLength :: u32
  q_allocatedCap :: u32

record SOPC_CircularQueueIterator =
  it_queue :: "SOPC_CircularQueue option"
  it_nextOffset :: u32

definition sizeof_SOPC_CircularQueue :: nat where
  "sizeof_SOPC_CircularQueue = 24"

definition sizeof_uintptr :: nat where
  "sizeof_uintptr = 8"

definition SOPC_CircularQueue_Internal_SlotIndex :: "SOPC_CircularQueue \<Rightarrow> u32 \<Rightarrow> u32" where
  "SOPC_CircularQueue_Internal_SlotIndex queue offset =
     (let slotsToEnd = q_allocatedCap queue - q_head queue
      in if offset < slotsToEnd then q_head queue + offset else offset - slotsToEnd)"

definition slot_get :: "SOPC_CircularQueue \<Rightarrow> u32 \<Rightarrow> uintptr option" where
  "slot_get queue idx = (if unat idx < length (q_slots queue) then Some (q_slots queue ! unat idx) else None)"

definition slot_set :: "u32 \<Rightarrow> uintptr \<Rightarrow> SOPC_CircularQueue \<Rightarrow> SOPC_CircularQueue option" where
  "slot_set idx v queue =
     (if unat idx < length (q_slots queue)
      then Some (queue\<lparr>q_slots := (q_slots queue)[unat idx := v]\<rparr>) else None)"

section \<open>Operations\<close>

definition SOPC_CircularQueue_Create :: "('e) mem_env_scheme \<Rightarrow> nat \<Rightarrow> SOPC_CircularQueue option" where
  "SOPC_CircularQueue_Create env sizeMax =
     (if sizeMax = 0 \<or> sizeMax > unat (-1 :: u32) then None
      else if \<not> mem_ok env sizeof_SOPC_CircularQueue then None
      else if \<not> mem_ok env (sizeMax * sizeof_uintptr) then None
      else Some \<lparr>q_slots = replicate sizeMax 0, q_head = 0, q_length = 0, q_maxLength = of_nat sizeMax,
                 q_allocatedCap = of_nat sizeMax\<rparr>)"

definition SOPC_CircularQueue_Prepend ::
  "SOPC_CircularQueue option \<Rightarrow> uintptr \<Rightarrow> (uintptr \<times> SOPC_CircularQueue option) option" where
  "SOPC_CircularQueue_Prepend queue val =
     (case queue of None \<Rightarrow> Some (0, None)
      | Some q \<Rightarrow>
          if val = 0 \<or> q_length q \<ge> q_maxLength q then Some (0, Some q)
          else do {
            let q = q\<lparr>q_head := (if q_head q = 0 then q_allocatedCap q - 1 else q_head q - 1)\<rparr>;
            q \<leftarrow> slot_set (q_head q) val q;
            Some (val, Some (q\<lparr>q_length := q_length q + 1\<rparr>)) })"

definition SOPC_CircularQueue_Append ::
  "SOPC_CircularQueue option \<Rightarrow> uintptr \<Rightarrow> (uintptr \<times> SOPC_CircularQueue option) option" where
  "SOPC_CircularQueue_Append queue val =
     (case queue of None \<Rightarrow> Some (0, None)
      | Some q \<Rightarrow>
          if val = 0 \<or> q_length q \<ge> q_maxLength q then Some (0, Some q)
          else do {
            let idx = SOPC_CircularQueue_Internal_SlotIndex q (q_length q);
            q \<leftarrow> slot_set idx val q;
            Some (val, Some (q\<lparr>q_length := q_length q + 1\<rparr>)) })"

definition SOPC_CircularQueue_PopHead ::
  "SOPC_CircularQueue option \<Rightarrow> (uintptr \<times> SOPC_CircularQueue option) option" where
  "SOPC_CircularQueue_PopHead queue =
     (case queue of None \<Rightarrow> Some (0, None)
      | Some q \<Rightarrow>
          if q_length q = 0 then Some (0, Some q)
          else do {
            v \<leftarrow> slot_get q (q_head q);
            q \<leftarrow> slot_set (q_head q) 0 q;
            let q = q\<lparr>q_head := SOPC_CircularQueue_Internal_SlotIndex q 1\<rparr>;
            Some (v, Some (q\<lparr>q_length := q_length q - 1\<rparr>)) })"

definition SOPC_CircularQueue_PopLast ::
  "SOPC_CircularQueue option \<Rightarrow> (uintptr \<times> SOPC_CircularQueue option) option" where
  "SOPC_CircularQueue_PopLast queue =
     (case queue of None \<Rightarrow> Some (0, None)
      | Some q \<Rightarrow>
          if q_length q = 0 then Some (0, Some q)
          else do {
            let idx = SOPC_CircularQueue_Internal_SlotIndex q (q_length q - 1);
            v \<leftarrow> slot_get q idx;
            q \<leftarrow> slot_set idx 0 q;
            Some (v, Some (q\<lparr>q_length := q_length q - 1\<rparr>)) })"

definition SOPC_CircularQueue_GetHead :: "SOPC_CircularQueue option \<Rightarrow> uintptr option" where
  "SOPC_CircularQueue_GetHead queue =
     (case queue of None \<Rightarrow> Some 0
      | Some q \<Rightarrow> if q_length q = 0 then Some 0 else slot_get q (q_head q))"

definition SOPC_CircularQueue_GetLast :: "SOPC_CircularQueue option \<Rightarrow> uintptr option" where
  "SOPC_CircularQueue_GetLast queue =
     (case queue of None \<Rightarrow> Some 0
      | Some q \<Rightarrow> if q_length q = 0 then Some 0
                  else slot_get q (SOPC_CircularQueue_Internal_SlotIndex q (q_length q - 1)))"

text \<open>The arguments of the calls of \<open>pFn\<close>, in order, from offset \<open>i\<close> on.\<close>

function Apply_loop :: "SOPC_CircularQueue \<Rightarrow> nat \<Rightarrow> uintptr list option" where
  "Apply_loop q i =
     (if i < unat (q_length q) then do {
        v \<leftarrow> slot_get q (SOPC_CircularQueue_Internal_SlotIndex q (of_nat i));
        vs \<leftarrow> Apply_loop q (i + 1);
        Some (v # vs) }
      else Some [])"
  by pat_completeness auto

termination
  by (relation "measure (\<lambda>(q, i). unat (q_length q) - i)") auto

declare Apply_loop.simps [simp del]

definition SOPC_CircularQueue_Apply :: "SOPC_CircularQueue option \<Rightarrow> uintptr list option" where
  "SOPC_CircularQueue_Apply queue =
     (case queue of None \<Rightarrow> Some []
      | Some q \<Rightarrow> if q_length q = 0 then Some [] else Apply_loop q 0)"

definition SOPC_CircularQueue_GetIterator :: "SOPC_CircularQueue option \<Rightarrow> SOPC_CircularQueueIterator" where
  "SOPC_CircularQueue_GetIterator queue = \<lparr>it_queue = queue, it_nextOffset = 0\<rparr>"

definition SOPC_CircularQueue_HasNext :: "SOPC_CircularQueueIterator option \<Rightarrow> bool" where
  "SOPC_CircularQueue_HasNext it =
     (case it of None \<Rightarrow> False
      | Some it \<Rightarrow> (case it_queue it of None \<Rightarrow> False | Some q \<Rightarrow> it_nextOffset it < q_length q))"

text \<open>The value, the index stored in \<open>*pIndex\<close> (if any) and the advanced iterator.\<close>

definition SOPC_CircularQueue_NextWithIndex ::
  "SOPC_CircularQueueIterator option \<Rightarrow> u32 option \<Rightarrow>
   (uintptr \<times> u32 option \<times> SOPC_CircularQueueIterator option) option" where
  "SOPC_CircularQueue_NextWithIndex it pIndex =
     (if \<not> SOPC_CircularQueue_HasNext it then Some (0, pIndex, it)
      else do {
        i \<leftarrow> it;
        q \<leftarrow> it_queue i;
        let logicalIndex = it_nextOffset i;
        let idx = SOPC_CircularQueue_Internal_SlotIndex q logicalIndex;
        v \<leftarrow> slot_get q idx;
        Some (v, map_option (\<lambda>_. logicalIndex) pIndex, Some (i\<lparr>it_nextOffset := it_nextOffset i + 1\<rparr>)) })"

definition SOPC_CircularQueue_Next ::
  "SOPC_CircularQueueIterator option \<Rightarrow> (uintptr \<times> SOPC_CircularQueueIterator option) option" where
  "SOPC_CircularQueue_Next it = do {
     (v, _, it) \<leftarrow> SOPC_CircularQueue_NextWithIndex it None;
     Some (v, it) }"

text \<open>The shift of \<open>SOPC_CircularQueue_RemoveAt\<close>, from offset \<open>j\<close> on.\<close>

function RemoveAt_loop :: "nat \<Rightarrow> SOPC_CircularQueue \<Rightarrow> SOPC_CircularQueue option" where
  "RemoveAt_loop j q =
     (if j + 1 < unat (q_length q) then do {
        let cur = SOPC_CircularQueue_Internal_SlotIndex q (of_nat j);
        let nxt = SOPC_CircularQueue_Internal_SlotIndex q (of_nat j + 1);
        v \<leftarrow> slot_get q nxt;
        if unat cur < length (q_slots q) then
          RemoveAt_loop (j + 1) (q\<lparr>q_slots := (q_slots q)[unat cur := v]\<rparr>)
        else None }
      else Some q)"
  by pat_completeness auto

termination
  by (relation "measure (\<lambda>(j, q). unat (q_length q) - j)") auto

declare RemoveAt_loop.simps [simp del]

definition SOPC_CircularQueue_RemoveAt ::
  "SOPC_CircularQueue option \<Rightarrow> u32 \<Rightarrow> (uintptr \<times> SOPC_CircularQueue option) option" where
  "SOPC_CircularQueue_RemoveAt queue index =
     (case queue of None \<Rightarrow> Some (0, None)
      | Some q \<Rightarrow>
          if index \<ge> q_length q then Some (0, Some q)
          else do {
            v \<leftarrow> slot_get q (SOPC_CircularQueue_Internal_SlotIndex q index);
            q \<leftarrow> RemoveAt_loop (unat index) q;
            let lst = SOPC_CircularQueue_Internal_SlotIndex q (q_length q - 1);
            q \<leftarrow> slot_set lst 0 q;
            Some (v, Some (q\<lparr>q_length := q_length q - 1\<rparr>)) })"

definition SOPC_CircularQueue_Clear :: "SOPC_CircularQueue option \<Rightarrow> SOPC_CircularQueue option" where
  "SOPC_CircularQueue_Clear queue = map_option (\<lambda>q. q\<lparr>q_head := 0, q_length := 0\<rparr>) queue"

definition SOPC_CircularQueue_GetLength :: "SOPC_CircularQueue option \<Rightarrow> u32" where
  "SOPC_CircularQueue_GetLength queue = (case queue of None \<Rightarrow> 0 | Some q \<Rightarrow> q_length q)"

definition SOPC_CircularQueue_GetCapacity :: "SOPC_CircularQueue option \<Rightarrow> u32" where
  "SOPC_CircularQueue_GetCapacity queue = (case queue of None \<Rightarrow> 0 | Some q \<Rightarrow> q_maxLength q)"

text \<open>The copy into the new array: its first \<open>length\<close> slots are those of the ring, in order.\<close>

definition SOPC_CircularQueue_SetCapacity ::
  "('e) mem_env_scheme \<Rightarrow> SOPC_CircularQueue option \<Rightarrow> nat \<Rightarrow> (bool \<times> SOPC_CircularQueue option) option" where
  "SOPC_CircularQueue_SetCapacity env queue sizeMax =
     (case queue of None \<Rightarrow> Some (False, None)
      | Some q \<Rightarrow>
          if sizeMax = 0 \<or> sizeMax > unat (-1 :: u32) then Some (False, Some q)
          else if unat (q_length q) > sizeMax then Some (False, Some q)
          else
            (let newMax = of_nat sizeMax :: u32
             in if newMax > q_allocatedCap q then
                  (if \<not> mem_ok env (unat newMax * sizeof_uintptr) then Some (False, Some q)
                   else do {
                     vs \<leftarrow> Apply_loop q 0;
                     let newSlots = vs @ replicate (unat newMax - length vs) 0;
                     Some (True, Some (q\<lparr>q_slots := newSlots, q_head := 0, q_allocatedCap := newMax,
                                         q_maxLength := newMax\<rparr>)) })
                else Some (True, Some (q\<lparr>q_maxLength := newMax\<rparr>))))"

section \<open>The auto-growing queue\<close>

definition autogrow_capacity :: "u32 \<Rightarrow> u32" where
  "autogrow_capacity capacity = (if capacity > -1 div 2 then -1 else capacity * 2)"

definition SOPC_CircularQueueAutoGrow_Append ::
  "('e) mem_env_scheme \<Rightarrow> SOPC_CircularQueue option \<Rightarrow> uintptr \<Rightarrow> (uintptr \<times> SOPC_CircularQueue option) option" where
  "SOPC_CircularQueueAutoGrow_Append env queue val =
     (if queue = None \<or> val = 0 then Some (0, queue)
      else do {
        (res, queue) \<leftarrow> SOPC_CircularQueue_Append queue val;
        let len = SOPC_CircularQueue_GetLength queue;
        let capacity = SOPC_CircularQueue_GetCapacity queue;
        if res = 0 \<and> len \<ge> capacity then
          (let newCapacity = autogrow_capacity capacity
           in if newCapacity = capacity then Some (0, queue)
              else do {
                (ok, queue) \<leftarrow> SOPC_CircularQueue_SetCapacity env queue (unat newCapacity);
                if ok then SOPC_CircularQueue_Append queue val else Some (0, queue) })
        else Some (res, queue) })"

text \<open>The search of \<open>SOPC_CircularQueueAutoGrow_RemoveValue\<close>, from the iterator's offset on.\<close>

function RemoveValue_loop ::
  "SOPC_CircularQueue \<Rightarrow> uintptr \<Rightarrow> nat \<Rightarrow> (uintptr \<times> SOPC_CircularQueue option) option" where
  "RemoveValue_loop q val i =
     (if i < unat (q_length q) then do {
        v \<leftarrow> slot_get q (SOPC_CircularQueue_Internal_SlotIndex q (of_nat i));
        if v = val then SOPC_CircularQueue_RemoveAt (Some q) (of_nat i)
        else RemoveValue_loop q val (i + 1) }
      else Some (0, Some q))"
  by pat_completeness auto

termination
  by (relation "measure (\<lambda>(q, v, i). unat (q_length q) - i)") auto

declare RemoveValue_loop.simps [simp del]

definition SOPC_CircularQueueAutoGrow_RemoveValue ::
  "SOPC_CircularQueue option \<Rightarrow> uintptr \<Rightarrow> (uintptr \<times> SOPC_CircularQueue option) option" where
  "SOPC_CircularQueueAutoGrow_RemoveValue queue val =
     (case queue of None \<Rightarrow> Some (0, None)
      | Some q \<Rightarrow> if val = 0 then Some (0, Some q) else RemoveValue_loop q val 0)"

end
