(* ===== verification/Circular_Queue_Laws.thy ===== *)
theory Circular_Queue_Laws
  imports Circular_Queue
begin

text \<open>
  The circular queue as a sequence: the occupied part of the ring from the head on. Every operation is
  the one on the sequence, and the queue meets the contract \<open>bounded_deque\<close>.
\<close>

section \<open>Rings\<close>

definition ring_list :: "'a list \<Rightarrow> nat \<Rightarrow> nat \<Rightarrow> 'a list" where
  "ring_list xs h n = map (\<lambda>i. xs ! ((h + i) mod length xs)) [0..<n]"

lemma length_ring_list [simp]: "length (ring_list xs h n) = n"
  by (simp add: ring_list_def)

lemma nth_ring_list: "i < n \<Longrightarrow> ring_list xs h n ! i = xs ! ((h + i) mod length xs)"
  by (simp add: ring_list_def)

lemma ring_index_inj:
  fixes h i j L :: nat
  assumes "i < L" "j < L" "(h + i) mod L = (h + j) mod L"
  shows "i = j"
proof -
  have ge: "i = j" if "i \<le> j" "j < L" "(h + i) mod L = (h + j) mod L" for i j
  proof -
    have "L dvd (h + j) - (h + i)" using that by (metis mod_eq_dvd_iff_nat add_le_cancel_left)
    then have "L dvd j - i" by simp
    then show ?thesis using that by (auto dest: dvd_imp_le)
  qed
  show ?thesis using ge [of i j] ge [of j i] assms by (cases "i \<le> j") auto
qed

lemma ring_list_update_outside:
  assumes "n \<le> k" "k < length xs"
  shows "ring_list (xs[(h + k) mod length xs := v]) h n = ring_list xs h n"
proof (rule nth_equalityI)
  fix i
  assume "i < length (ring_list (xs[(h + k) mod length xs := v]) h n)"
  then have i: "i < n" by simp
  then have "(h + k) mod length xs \<noteq> (h + i) mod length xs"
    using ring_index_inj [of k "length xs" i h] assms by auto
  then show "ring_list (xs[(h + k) mod length xs := v]) h n ! i = ring_list xs h n ! i"
    using i by (simp add: nth_ring_list)
qed simp

lemma ring_list_update:
  assumes "j < n" "n \<le> length xs"
  shows "ring_list (xs[(h + j) mod length xs := v]) h n = (ring_list xs h n)[j := v]"
proof (rule nth_equalityI)
  fix i
  assume "i < length (ring_list (xs[(h + j) mod length xs := v]) h n)"
  then have i: "i < n" by simp
  have less: "(h + j) mod length xs < length xs" using assms by (intro mod_less_divisor) linarith
  show "ring_list (xs[(h + j) mod length xs := v]) h n ! i = (ring_list xs h n)[j := v] ! i"
  proof (cases "i = j")
    case False
    then have "(h + j) mod length xs \<noteq> (h + i) mod length xs"
      using ring_index_inj [of j "length xs" i h] assms i by auto
    then show ?thesis using False i by (simp add: nth_ring_list)
  qed (use i less in \<open>simp add: nth_ring_list\<close>)
qed simp

lemma ring_list_linear: "ring_list (ys @ zs) 0 (length ys) = ys"
  by (rule nth_equalityI) (simp_all add: nth_ring_list nth_append)

lemma ring_list_Suc: "ring_list xs h (Suc n) = ring_list xs h n @ [xs ! ((h + n) mod length xs)]"
  by (simp add: ring_list_def)

lemma ring_list_Cons: "ring_list xs h (Suc n) = xs ! (h mod length xs) # ring_list xs (Suc h) n"
  by (rule nth_equalityI) (auto simp: nth_ring_list nth_Cons split: nat.splits)

lemma ring_list_mod: "ring_list xs (h mod length xs) n = ring_list xs h n"
  by (simp add: ring_list_def mod_add_left_eq)

lemma ring_append:
  assumes "n < length xs"
  shows "ring_list (xs[(h + n) mod length xs := v]) h (Suc n) = ring_list xs h n @ [v]"
proof -
  have "(h + n) mod length xs < length xs" using assms by (intro mod_less_divisor) auto
  then show ?thesis by (simp add: ring_list_Suc ring_list_update_outside [OF le_refl assms])
qed

lemma ring_butlast:
  assumes "n < length xs"
  shows "ring_list (xs[(h + n) mod length xs := v]) h n = butlast (ring_list xs h (Suc n))"
  using assms by (simp add: ring_list_Suc ring_list_update_outside [OF le_refl])

lemma ring_list_update_head:
  assumes "n < length xs" "h < length xs"
  shows "ring_list (xs[h := v]) (Suc h) n = ring_list xs (Suc h) n"
proof (rule nth_equalityI)
  fix i
  assume "i < length (ring_list (xs[h := v]) (Suc h) n)"
  then have i: "i < n" by simp
  then have "0 < length xs" "1 + i < length xs" using assms by auto
  then have "(h + 0) mod length xs \<noteq> (h + (1 + i)) mod length xs"
    using ring_index_inj [of 0 "length xs" "1 + i" h] by fastforce
  then have "h \<noteq> (Suc h + i) mod length xs" using assms(2) by simp
  then show "ring_list (xs[h := v]) (Suc h) n ! i = ring_list xs (Suc h) n ! i"
    using i by (simp add: nth_ring_list)
qed simp

lemma ring_tl:
  assumes "n < length xs" "h < length xs"
  shows "ring_list (xs[h := v]) ((h + 1) mod length xs) n = tl (ring_list xs h (Suc n))"
  using assms ring_list_mod [of "xs[h := v]" "h + 1" n] by (simp add: ring_list_Cons ring_list_update_head)

lemma ring_prepend:
  assumes "n < length xs" "h < length xs" "(h' + 1) mod length xs = h" "h' < length xs"
  shows "ring_list (xs[h' := v]) h' (Suc n) = v # ring_list xs h n"
  using assms ring_list_mod [of "xs" "h' + 1" n] by (simp add: ring_list_Cons ring_list_update_head)

section \<open>Invariant and abstraction\<close>

definition cq_wf :: "SOPC_CircularQueue \<Rightarrow> bool" where
  "cq_wf q \<longleftrightarrow>
     length (q_slots q) = unat (q_allocatedCap q) \<and> unat (q_head q) < unat (q_allocatedCap q) \<and>
     unat (q_length q) \<le> unat (q_maxLength q) \<and> unat (q_maxLength q) \<le> unat (q_allocatedCap q)"

definition cq_list :: "SOPC_CircularQueue \<Rightarrow> uintptr list" where
  "cq_list q = ring_list (q_slots q) (unat (q_head q)) (unat (q_length q))"

lemma length_cq_list [simp]: "length (cq_list q) = unat (q_length q)"
  by (simp add: cq_list_def)

lemma slot_index:
  assumes "cq_wf q" "unat off \<le> unat (q_allocatedCap q)"
  shows "unat (SOPC_CircularQueue_Internal_SlotIndex q off) =
    (unat (q_head q) + unat off) mod length (q_slots q)"
proof -
  have wf: "length (q_slots q) = unat (q_allocatedCap q)" "unat (q_head q) < unat (q_allocatedCap q)"
    using assms(1) by (auto simp: cq_wf_def)
  have ends: "unat (q_allocatedCap q - q_head q) = unat (q_allocatedCap q) - unat (q_head q)"
    using wf(2) by (simp add: unat_sub word_le_nat_alt)
  show ?thesis
  proof (cases "off < q_allocatedCap q - q_head q")
    case True
    then have "unat (q_head q) + unat off < unat (q_allocatedCap q)"
      using ends by (simp add: word_less_nat_alt)
    moreover from this have "unat (q_head q + off) = unat (q_head q) + unat off"
      using unat_lt_u32 [of "q_allocatedCap q"] by (intro unat_add_u32) simp
    ultimately show ?thesis
      using True wf(1) by (simp add: SOPC_CircularQueue_Internal_SlotIndex_def Let_def)
  next
    case False
    then have le: "q_allocatedCap q - q_head q \<le> off" by simp
    then have "unat off \<ge> unat (q_allocatedCap q) - unat (q_head q)" using ends by (simp add: word_le_nat_alt)
    moreover have "unat (off - (q_allocatedCap q - q_head q)) = unat off - (unat (q_allocatedCap q) - unat (q_head q))"
      using le ends by (simp add: unat_sub)
    moreover have "(unat (q_head q) + unat off) mod unat (q_allocatedCap q) =
        unat (q_head q) + unat off - unat (q_allocatedCap q)"
      using calculation(1) wf(2) assms(2) by (subst mod_if) auto
    ultimately show ?thesis
      using False wf by (simp add: SOPC_CircularQueue_Internal_SlotIndex_def Let_def)
  qed
qed

section \<open>The operations on the sequence\<close>

lemma cq_wfD:
  assumes "cq_wf q"
  shows "length (q_slots q) = unat (q_allocatedCap q)" "unat (q_head q) < length (q_slots q)"
    "unat (q_length q) \<le> unat (q_maxLength q)" "unat (q_maxLength q) \<le> length (q_slots q)"
  using assms by (auto simp: cq_wf_def)

lemma slot_index_slots [simp]:
  "SOPC_CircularQueue_Internal_SlotIndex (q\<lparr>q_slots := s\<rparr>) i = SOPC_CircularQueue_Internal_SlotIndex q i"
  by (simp add: SOPC_CircularQueue_Internal_SlotIndex_def Let_def)

lemma slot_index_less:
  assumes "cq_wf q" "unat off \<le> unat (q_allocatedCap q)"
  shows "unat (SOPC_CircularQueue_Internal_SlotIndex q off) < length (q_slots q)"
  unfolding slot_index [OF assms] using cq_wfD [OF assms(1)] by (intro mod_less_divisor) simp

lemma unat_Suc_u32: "unat (w :: u32) < unat (m :: u32) \<Longrightarrow> unat (w + 1) = Suc (unat w)"
  using unat_lt_u32 [of m] by (subst unat_add_u32) simp_all

lemma unat_max_u32: "unat (-1 :: u32) = 2 ^ 32 - 1"
  by (simp add: unsigned_minus_1_eq_mask mask_eq_exp_minus_1)

lemma unat_pred_u32: "(w :: u32) \<noteq> 0 \<Longrightarrow> unat (w - 1) = unat w - 1"
  by (simp add: unat_sub word_le_nat_alt unat_gt_0 Suc_leI)

lemma SOPC_CircularQueue_Append_ok:
  assumes wf: "cq_wf q"
  shows "\<exists>q'. SOPC_CircularQueue_Append (Some q) v =
      Some (if v \<noteq> 0 \<and> unat (q_length q) < unat (q_maxLength q) then v else 0, Some q') \<and> cq_wf q' \<and>
    q_maxLength q' = q_maxLength q \<and>
    cq_list q' = (if v \<noteq> 0 \<and> unat (q_length q) < unat (q_maxLength q) then cq_list q @ [v] else cq_list q)"
proof (cases "v \<noteq> 0 \<and> unat (q_length q) < unat (q_maxLength q)")
  case False
  then show ?thesis using wf by (auto simp: SOPC_CircularQueue_Append_def word_le_nat_alt)
next
  case True
  note d = cq_wfD [OF wf]
  let ?i = "SOPC_CircularQueue_Internal_SlotIndex q (q_length q)"
  let ?q = "q\<lparr>q_slots := (q_slots q)[unat ?i := v], q_length := q_length q + 1\<rparr>"
  have le: "unat (q_length q) \<le> unat (q_allocatedCap q)" using d by simp
  have n: "unat (q_length q) < length (q_slots q)" using True d by linarith
  have len: "unat (q_length q + 1) = Suc (unat (q_length q))" using True by (blast intro: unat_Suc_u32)
  have run: "SOPC_CircularQueue_Append (Some q) v = Some (v, Some ?q)"
    using True slot_index_less [OF wf le]
    by (simp add: SOPC_CircularQueue_Append_def slot_set_def word_le_nat_alt not_le)
  have "cq_wf ?q" using d True len by (simp add: cq_wf_def)
  moreover have "cq_list ?q = cq_list q @ [v]"
    by (simp add: cq_list_def len slot_index [OF wf le] ring_append [OF n])
  ultimately show ?thesis using run True by auto
qed

lemma SOPC_CircularQueue_Prepend_ok:
  assumes wf: "cq_wf q"
  shows "\<exists>q'. SOPC_CircularQueue_Prepend (Some q) v =
      Some (if v \<noteq> 0 \<and> unat (q_length q) < unat (q_maxLength q) then v else 0, Some q') \<and> cq_wf q' \<and>
    q_maxLength q' = q_maxLength q \<and>
    cq_list q' = (if v \<noteq> 0 \<and> unat (q_length q) < unat (q_maxLength q) then v # cq_list q else cq_list q)"
proof (cases "v \<noteq> 0 \<and> unat (q_length q) < unat (q_maxLength q)")
  case False
  then show ?thesis using wf by (auto simp: SOPC_CircularQueue_Prepend_def word_le_nat_alt)
next
  case True
  note d = cq_wfD [OF wf]
  let ?h = "if q_head q = 0 then q_allocatedCap q - 1 else q_head q - 1"
  let ?q = "q\<lparr>q_head := ?h, q_slots := (q_slots q)[unat ?h := v], q_length := q_length q + 1\<rparr>"
  have cap: "q_allocatedCap q \<noteq> 0" using d by auto
  have h: "unat ?h < length (q_slots q)" "(unat ?h + 1) mod length (q_slots q) = unat (q_head q)"
    using d cap by (auto simp: unat_pred_u32 unat_gt_0)
  have len: "unat (q_length q + 1) = Suc (unat (q_length q))" using True by (blast intro: unat_Suc_u32)
  have run: "SOPC_CircularQueue_Prepend (Some q) v = Some (v, Some ?q)"
    using True h(1) by (simp add: SOPC_CircularQueue_Prepend_def slot_set_def word_le_nat_alt not_le)
  have "cq_wf ?q" using d True len h(1) by (simp add: cq_wf_def)
  moreover have "cq_list ?q = v # cq_list q"
    using True d ring_prepend [OF _ d(2) h(2,1), of "unat (q_length q)" v] by (simp add: cq_list_def len)
  ultimately show ?thesis using run True by auto
qed

lemma SOPC_CircularQueue_PopHead_ok:
  assumes wf: "cq_wf q"
  shows "\<exists>q'. SOPC_CircularQueue_PopHead (Some q) =
      Some (if cq_list q = [] then 0 else hd (cq_list q), Some q') \<and> cq_wf q' \<and>
    q_maxLength q' = q_maxLength q \<and> cq_list q' = tl (cq_list q)"
proof (cases "q_length q = 0")
  case True
  then have "cq_list q = []" by (simp add: cq_list_def ring_list_def)
  then show ?thesis using wf True by (simp add: SOPC_CircularQueue_PopHead_def)
next
  case False
  note d = cq_wfD [OF wf]
  let ?s = "(q_slots q)[unat (q_head q) := 0]"
  let ?h = "SOPC_CircularQueue_Internal_SlotIndex q 1"
  let ?q = "q\<lparr>q_slots := ?s, q_head := ?h, q_length := q_length q - 1\<rparr>"
  have len: "unat (q_length q) = Suc (unat (q_length q - 1))"
    using False by (simp add: unat_pred_u32 unat_gt_0)
  have n: "unat (q_length q - 1) < length (q_slots q)" using len d by linarith
  have cap: "unat (1 :: u32) \<le> unat (q_allocatedCap q)" using d by simp
  have same: "SOPC_CircularQueue_Internal_SlotIndex (q\<lparr>q_slots := ?s\<rparr>) 1 = ?h"
    by (rule slot_index_slots)
  have hd: "hd (cq_list q) = q_slots q ! unat (q_head q)" "cq_list q \<noteq> []"
    using d(2) by (simp_all add: cq_list_def len ring_list_Cons)
  have run: "SOPC_CircularQueue_PopHead (Some q) = Some (hd (cq_list q), Some ?q)"
    using False d(2) same by (simp add: SOPC_CircularQueue_PopHead_def slot_get_def slot_set_def hd)
  have h: "unat ?h = (unat (q_head q) + 1) mod length (q_slots q)"
    using slot_index [OF wf cap] by simp
  have "cq_wf ?q" using d len slot_index_less [OF wf cap] by (simp add: cq_wf_def)
  moreover have "cq_list ?q = tl (cq_list q)"
    using ring_tl [OF n d(2), of 0] by (simp add: cq_list_def len h)
  ultimately show ?thesis using run hd(2) by auto
qed

lemma SOPC_CircularQueue_PopLast_ok:
  assumes wf: "cq_wf q"
  shows "\<exists>q'. SOPC_CircularQueue_PopLast (Some q) =
      Some (if cq_list q = [] then 0 else last (cq_list q), Some q') \<and> cq_wf q' \<and>
    q_maxLength q' = q_maxLength q \<and> cq_list q' = butlast (cq_list q)"
proof (cases "q_length q = 0")
  case True
  then have "cq_list q = []" by (simp add: cq_list_def ring_list_def)
  then show ?thesis using wf True by (simp add: SOPC_CircularQueue_PopLast_def)
next
  case False
  note d = cq_wfD [OF wf]
  let ?i = "SOPC_CircularQueue_Internal_SlotIndex q (q_length q - 1)"
  let ?q = "q\<lparr>q_slots := (q_slots q)[unat ?i := 0], q_length := q_length q - 1\<rparr>"
  have len: "unat (q_length q) = Suc (unat (q_length q - 1))"
    using False by (simp add: unat_pred_u32 unat_gt_0)
  have n: "unat (q_length q - 1) < length (q_slots q)" using len d by linarith
  have le: "unat (q_length q - 1) \<le> unat (q_allocatedCap q)" using n d by simp
  note i = slot_index [OF wf le]
  have last: "last (cq_list q) = q_slots q ! unat ?i" "cq_list q \<noteq> []"
    by (simp_all add: cq_list_def len ring_list_Suc i)
  have run: "SOPC_CircularQueue_PopLast (Some q) = Some (last (cq_list q), Some ?q)"
    using False slot_index_less [OF wf le] by (simp add: SOPC_CircularQueue_PopLast_def slot_get_def slot_set_def last Let_def)
  have "cq_wf ?q" using d len by (simp add: cq_wf_def)
  moreover have "cq_list ?q = butlast (cq_list q)"
    using ring_butlast [OF n, of "unat (q_head q)" 0] by (simp add: cq_list_def len i)
  ultimately show ?thesis using run last(2) by auto
qed

text \<open>The four operations as one step, and the contract.\<close>

fun cq_step :: "uintptr deque_op \<Rightarrow> SOPC_CircularQueue \<Rightarrow> (uintptr \<times> SOPC_CircularQueue) option" where
  "cq_step (Append_op v) q = do { (r, q) \<leftarrow> SOPC_CircularQueue_Append (Some q) v; q \<leftarrow> q; Some (r, q) }"
| "cq_step (Prepend_op v) q = do { (r, q) \<leftarrow> SOPC_CircularQueue_Prepend (Some q) v; q \<leftarrow> q; Some (r, q) }"
| "cq_step PopHead_op q = do { (r, q) \<leftarrow> SOPC_CircularQueue_PopHead (Some q); q \<leftarrow> q; Some (r, q) }"
| "cq_step PopLast_op q = do { (r, q) \<leftarrow> SOPC_CircularQueue_PopLast (Some q); q \<leftarrow> q; Some (r, q) }"

interpretation cq: bounded_deque cq_wf cq_list "\<lambda>q. unat (q_maxLength q)" True "\<lambda>v. v" cq_step
proof
  fix q op
  assume "cq_wf q"
  note ops = SOPC_CircularQueue_Append_ok [OF this] SOPC_CircularQueue_Prepend_ok [OF this]
    SOPC_CircularQueue_PopHead_ok [OF this] SOPC_CircularQueue_PopLast_ok [OF this]
  show "\<exists>q'. cq_step op q = Some (fst (list_step True (unat (q_maxLength q)) (\<lambda>v. v) op (cq_list q)), q') \<and>
      cq_wf q' \<and> unat (q_maxLength q') = unat (q_maxLength q) \<and>
      cq_list q' = snd (list_step True (unat (q_maxLength q)) (\<lambda>v. v) op (cq_list q))"
  proof (cases op)
    case (Append_op v)
    then show ?thesis using ops(1) [of v] by (auto simp: list_push_def)
  next
    case (Prepend_op v)
    then show ?thesis using ops(2) [of v] by (auto simp: list_push_def)
  next
    case PopHead_op
    then show ?thesis using ops(3) by auto
  next
    case PopLast_op
    then show ?thesis using ops(4) by auto
  qed
qed

section \<open>Reading, removing in the middle, changing the capacity\<close>

lemma slot_get_nth:
  assumes "cq_wf q" "i < unat (q_length q)"
  shows "slot_get q (SOPC_CircularQueue_Internal_SlotIndex q (of_nat i)) = Some (cq_list q ! i)"
proof -
  have "unat (of_nat i :: u32) = i" using assms(2) unat_lt_u32 [of "q_length q"] by (intro unat_of_nat_u32) simp
  moreover have "i \<le> unat (q_allocatedCap q)" using assms cq_wfD [OF assms(1)] by simp
  ultimately show ?thesis
    using slot_index [OF assms(1), of "of_nat i"] slot_index_less [OF assms(1), of "of_nat i"] assms(2)
    by (simp add: slot_get_def cq_list_def nth_ring_list)
qed

lemma Apply_loop_list: "cq_wf q \<Longrightarrow> Apply_loop q i = Some (drop i (cq_list q))"
proof (induction "unat (q_length q) - i" arbitrary: i)
  case 0
  then show ?case by (subst Apply_loop.simps) simp
next
  case (Suc x)
  then have "Apply_loop q (i + 1) = Some (drop (i + 1) (cq_list q))" by (intro Suc.hyps) auto
  then show ?case
    using Suc.hyps(2) Suc.prems slot_get_nth [of q i]
    by (subst Apply_loop.simps) (simp add: Cons_nth_drop_Suc)
qed

lemma take_last_split: "length xs = Suc j \<Longrightarrow> take j xs @ drop (Suc j) xs @ [last xs] = xs"
  by (cases xs rule: rev_cases) auto

lemma RemoveAt_loop_shifts:
  assumes "cq_wf q" "j < unat (q_length q)"
  shows "\<exists>s. RemoveAt_loop j q = Some (q\<lparr>q_slots := s\<rparr>) \<and> cq_wf (q\<lparr>q_slots := s\<rparr>) \<and>
    cq_list (q\<lparr>q_slots := s\<rparr>) = take j (cq_list q) @ drop (Suc j) (cq_list q) @ [last (cq_list q)]"
  using assms
proof (induction "unat (q_length q) - j" arbitrary: j q)
  case (Suc x)
  note d = cq_wfD [OF Suc.prems(1)]
  show ?case
  proof (cases "j + 1 < unat (q_length q)")
    case False
    then have "length (cq_list q) = Suc j" using Suc.prems by simp
    then have "take j (cq_list q) @ drop (Suc j) (cq_list q) @ [last (cq_list q)] = cq_list q"
      by (rule take_last_split)
    then show ?thesis using False Suc.prems(1) by (subst RemoveAt_loop.simps) (auto intro!: exI [of _ "q_slots q"])
  next
    case True
    let ?c = "SOPC_CircularQueue_Internal_SlotIndex q (of_nat j)"
    let ?q = "q\<lparr>q_slots := (q_slots q)[unat ?c := cq_list q ! Suc j]\<rparr>"
    have j: "unat (of_nat j :: u32) = j"
      using Suc.prems(2) unat_lt_u32 [of "q_length q"] by (intro unat_of_nat_u32) simp
    have le: "unat (of_nat j :: u32) \<le> unat (q_allocatedCap q)" using j Suc.prems(2) d by simp
    note c = slot_index [OF Suc.prems(1) le] slot_index_less [OF Suc.prems(1) le]
    have wf: "cq_wf ?q" using Suc.prems(1) by (simp add: cq_wf_def)
    have pre: "x = unat (q_length ?q) - Suc j" using Suc.hyps(2) by simp
    have lt: "Suc j < unat (q_length ?q)" using True by simp
    have upd: "cq_list ?q = (cq_list q)[j := cq_list q ! Suc j]"
      using ring_list_update [of j "unat (q_length q)" "q_slots q" "unat (q_head q)"] Suc.prems(2) d c(1)
      by (simp add: cq_list_def j)
    obtain s where s: "RemoveAt_loop (Suc j) ?q = Some (?q\<lparr>q_slots := s\<rparr>)" "cq_wf (?q\<lparr>q_slots := s\<rparr>)"
      "cq_list (?q\<lparr>q_slots := s\<rparr>) = take (Suc j) (cq_list ?q) @ drop (Suc (Suc j)) (cq_list ?q) @ [last (cq_list ?q)]"
      using Suc.hyps(1) [OF pre wf lt] by blast
    have nxt: "slot_get q (SOPC_CircularQueue_Internal_SlotIndex q (of_nat j + 1)) = Some (cq_list q ! Suc j)"
      using slot_get_nth [OF Suc.prems(1), of "Suc j"] True by (simp add: add.commute)
    have run: "RemoveAt_loop j q = Some (q\<lparr>q_slots := s\<rparr>)"
      using True nxt c(2) s(1) by (subst RemoveAt_loop.simps) (simp add: Let_def)
    have "take (Suc j) (cq_list ?q) @ drop (Suc (Suc j)) (cq_list ?q) =
        take j (cq_list q) @ drop (Suc j) (cq_list q)"
      unfolding upd using True by (simp add: take_Suc_conv_app_nth Cons_nth_drop_Suc)
    moreover have "last (cq_list ?q) = last (cq_list q)"
    proof -
      have "cq_list q \<noteq> []" using True length_cq_list [of q] by (metis less_nat_zero_code list.size(3))
      then show ?thesis unfolding upd using True by (subst last_list_update) auto
    qed
    ultimately show ?thesis using run s(2,3) by (intro exI [of _ s]) simp
  qed
qed simp

lemma SOPC_CircularQueue_RemoveAt_ok:
  assumes wf: "cq_wf q" and i: "unat i < unat (q_length q)"
  shows "\<exists>q'. SOPC_CircularQueue_RemoveAt (Some q) i = Some (cq_list q ! unat i, Some q') \<and> cq_wf q' \<and>
    q_maxLength q' = q_maxLength q \<and> cq_list q' = take (unat i) (cq_list q) @ drop (Suc (unat i)) (cq_list q)"
proof -
  obtain s where s: "RemoveAt_loop (unat i) q = Some (q\<lparr>q_slots := s\<rparr>)" "cq_wf (q\<lparr>q_slots := s\<rparr>)"
    "cq_list (q\<lparr>q_slots := s\<rparr>) = take (unat i) (cq_list q) @ drop (Suc (unat i)) (cq_list q) @ [last (cq_list q)]"
    using RemoveAt_loop_shifts [OF assms] by blast
  have get: "slot_get q (SOPC_CircularQueue_Internal_SlotIndex q i) = Some (cq_list q ! unat i)"
    using slot_get_nth [OF assms] by simp
  obtain q' where p: "SOPC_CircularQueue_PopLast (Some (q\<lparr>q_slots := s\<rparr>)) = Some (last (cq_list q), Some q')"
    "cq_wf q'" "q_maxLength q' = q_maxLength q"
    "cq_list q' = take (unat i) (cq_list q) @ drop (Suc (unat i)) (cq_list q)"
    using SOPC_CircularQueue_PopLast_ok [OF s(2)] by (auto simp: s(3) butlast_append)
  have "q_length q \<noteq> 0" using i by auto
  then have "SOPC_CircularQueue_RemoveAt (Some q) i = Some (cq_list q ! unat i, Some q')"
    using p(1) s(1) get i
    by (auto simp: SOPC_CircularQueue_RemoveAt_def SOPC_CircularQueue_PopLast_def word_le_nat_alt Let_def
        split: bind_splits)
  then show ?thesis using p(2-4) by blast
qed

lemma SOPC_CircularQueue_SetCapacity_ok:
  assumes wf: "cq_wf q"
  shows "\<exists>ok q'. SOPC_CircularQueue_SetCapacity env (Some q) n = Some (ok, Some q') \<and> cq_wf q' \<and>
    cq_list q' = cq_list q \<and> (if ok then unat (q_maxLength q') = n else q' = q) \<and>
    (mem_total env \<longrightarrow> ok = (unat (q_length q) \<le> n \<and> 0 < n \<and> n < 2 ^ 32))"
proof -
  note d = cq_wfD [OF wf]
  consider (refused) "n = 0 \<or> n > unat (-1 :: u32) \<or> unat (q_length q) > n"
    | (grow) "0 < n" "n \<le> unat (-1 :: u32)" "unat (q_length q) \<le> n" "unat (q_allocatedCap q) < n"
    | (fits) "0 < n" "n \<le> unat (-1 :: u32)" "unat (q_length q) \<le> n" "n \<le> unat (q_allocatedCap q)"
    by (meson not_le neq0_conv)
  then show ?thesis
  proof cases
    case refused
    then show ?thesis using wf by (auto simp: SOPC_CircularQueue_SetCapacity_def unat_max_u32)
  next
    case grow
    let ?q = "q\<lparr>q_slots := cq_list q @ replicate (n - length (cq_list q)) 0, q_head := 0,
                 q_allocatedCap := of_nat n, q_maxLength := of_nat n\<rparr>"
    have n: "unat (of_nat n :: u32) = n" using grow(2) by (intro unat_of_nat_u32) (simp add: unat_max_u32)
    have run: "SOPC_CircularQueue_SetCapacity env (Some q) n =
        (if mem_ok env (n * sizeof_uintptr) then Some (True, Some ?q) else Some (False, Some q))"
      using grow n Apply_loop_list [OF wf, of 0]
      by (auto simp: SOPC_CircularQueue_SetCapacity_def word_less_nat_alt Let_def unat_max_u32)
    have "cq_wf ?q" using grow n by (simp add: cq_wf_def)
    moreover have "cq_list ?q = cq_list q"
      unfolding cq_list_def [of ?q] using ring_list_linear [of "cq_list q"] by simp
    moreover have "n < 2 ^ 32" using grow(2) by (simp add: unat_max_u32)
    ultimately show ?thesis
    proof (cases "mem_ok env (n * sizeof_uintptr)")
      case True
      then show ?thesis
        using \<open>cq_wf ?q\<close> \<open>cq_list ?q = cq_list q\<close> \<open>n < 2 ^ 32\<close> run n grow(1,3)
        by (intro exI [of _ True] exI [of _ ?q]) simp
    next
      case False
      then show ?thesis
        using run wf by (intro exI [of _ False] exI [of _ q]) (auto simp: mem_total_def)
    qed
  next
    case fits
    have n: "unat (of_nat n :: u32) = n" using fits(2) by (intro unat_of_nat_u32) (simp add: unat_max_u32)
    have "SOPC_CircularQueue_SetCapacity env (Some q) n = Some (True, Some (q\<lparr>q_maxLength := of_nat n\<rparr>))"
      using fits n by (auto simp: SOPC_CircularQueue_SetCapacity_def word_less_nat_alt Let_def unat_max_u32)
    then show ?thesis using fits n wf by (auto simp: cq_wf_def cq_list_def unat_max_u32)
  qed
qed

section \<open>The auto-growing queue\<close>

lemma SOPC_CircularQueueAutoGrow_Append_ok:
  assumes wf: "cq_wf q" and mem: "mem_total env" and v: "v \<noteq> 0"
    and room: "unat (q_length q) < unat (-1 :: u32)" and pos: "0 < unat (q_maxLength q)"
  shows "\<exists>q'. SOPC_CircularQueueAutoGrow_Append env (Some q) v = Some (v, Some q') \<and> cq_wf q' \<and>
    cq_list q' = cq_list q @ [v] \<and> 0 < unat (q_maxLength q')"
proof (cases "unat (q_length q) < unat (q_maxLength q)")
  case True
  then show ?thesis
    using SOPC_CircularQueue_Append_ok [OF wf, of v] v pos
    by (auto simp: SOPC_CircularQueueAutoGrow_Append_def)
next
  case False
  note d = cq_wfD [OF wf]
  have full: "unat (q_length q) = unat (q_maxLength q)" using False d by simp
  let ?c = "autogrow_capacity (q_maxLength q)"
  have grow: "unat (q_maxLength q) < unat ?c"
  proof (cases "q_maxLength q > -1 div 2")
    case True
    then show ?thesis using room full by (simp add: autogrow_capacity_def)
  next
    case no: False
    have "unat (q_maxLength q) \<le> unat (-1 div 2 :: u32)" using no by (simp add: word_less_nat_alt)
    then have "unat (q_maxLength q) * unat (2 :: u32) < 2 ^ 32"
      by (simp add: unat_div unat_max_u32)
    then have "unat (q_maxLength q * 2) = unat (q_maxLength q) * 2" by (subst unat_mult_u32) simp_all
    then show ?thesis using no pos by (simp add: autogrow_capacity_def)
  qed
  obtain ok q1 where s: "SOPC_CircularQueue_SetCapacity env (Some q) (unat ?c) = Some (ok, Some q1)" "cq_wf q1"
    "cq_list q1 = cq_list q" "if ok then unat (q_maxLength q1) = unat ?c else q1 = q"
    "mem_total env \<longrightarrow> ok = (unat (q_length q) \<le> unat ?c \<and> 0 < unat ?c \<and> unat ?c < 2 ^ 32)"
    using SOPC_CircularQueue_SetCapacity_ok [OF wf, of env "unat ?c"] by blast
  have ok: "ok" using s(5) mem grow full unat_lt_u32 [of ?c] by simp
  have len: "unat (q_length q1) = unat (q_length q)" using s(3) length_cq_list by metis
  obtain q' where a: "SOPC_CircularQueue_Append (Some q1) v = Some (v, Some q')" "cq_wf q'"
    "cq_list q' = cq_list q1 @ [v]" "q_maxLength q' = q_maxLength q1"
    using SOPC_CircularQueue_Append_ok [OF s(2), of v] v ok s(4) grow full len by auto
  have first: "SOPC_CircularQueue_Append (Some q) v = Some (0, Some q)"
    using False by (simp add: SOPC_CircularQueue_Append_def word_le_nat_alt not_less)
  have "?c \<noteq> q_maxLength q" using grow by auto
  then have "SOPC_CircularQueueAutoGrow_Append env (Some q) v = Some (v, Some q')"
    using v first full s(1) ok a(1)
    by (simp add: SOPC_CircularQueueAutoGrow_Append_def SOPC_CircularQueue_GetLength_def
        SOPC_CircularQueue_GetCapacity_def word_le_nat_alt Let_def)
  then show ?thesis using a s(3,4) ok grow by auto
qed

lemma RemoveValue_loop_ok:
  assumes "cq_wf q" "v \<notin> set (take i (cq_list q))"
  shows "\<exists>q'. RemoveValue_loop q v i = Some (if v \<in> set (cq_list q) then v else 0, Some q') \<and> cq_wf q' \<and>
    cq_list q' = remove1 v (cq_list q)"
  using assms(2)
proof (induction "unat (q_length q) - i" arbitrary: i)
  case 0
  then have "v \<notin> set (cq_list q)" by simp
  then show ?case using 0 assms(1) by (subst RemoveValue_loop.simps) (simp add: remove1_idem)
next
  case (Suc x)
  then have i: "i < unat (q_length q)" by simp
  show ?case
  proof (cases "cq_list q ! i = v")
    case False
    then have "v \<notin> set (take (i + 1) (cq_list q))" using Suc.prems i by (simp add: take_Suc_conv_app_nth)
    then have "\<exists>q'. RemoveValue_loop q v (i + 1) = Some (if v \<in> set (cq_list q) then v else 0, Some q') \<and> cq_wf q' \<and>
        cq_list q' = remove1 v (cq_list q)"
      using Suc.hyps by (intro Suc.hyps(1)) simp_all
    then show ?thesis using False i slot_get_nth [OF assms(1) i] by (subst RemoveValue_loop.simps) simp
  next
    case True
    have u: "unat (of_nat i :: u32) = i" using i unat_lt_u32 [of "q_length q"] by (intro unat_of_nat_u32) simp
    have "cq_list q = take i (cq_list q) @ v # drop (Suc i) (cq_list q)"
      using id_take_nth_drop [of i "cq_list q"] True i by simp
    then have r: "remove1 v (cq_list q) = take i (cq_list q) @ drop (Suc i) (cq_list q)" "v \<in> set (cq_list q)"
      using Suc.prems by (metis remove1_append remove1.simps(2), metis in_set_conv_decomp)
    show ?thesis
      using True i slot_get_nth [OF assms(1) i] SOPC_CircularQueue_RemoveAt_ok [OF assms(1), of "of_nat i"] r u
      by (subst RemoveValue_loop.simps) auto
  qed
qed

end
