(* ===== verification/SLinkedList.thy ===== *)
theory SLinkedList
  imports Deque
begin

text \<open>
  The singly linked list of \<open>src/Common/helpers/sopc_singly_linked_list.c\<close>. Its cells live in a store, a
  partial map from addresses to cells shared by all lists; allocation takes a fresh address and may
  fail, and an access to a cell that is not allocated is \<open>None\<close>. A loop over the cells is a partial
  function: on a cyclic chain it does not end.
\<close>

section \<open>The store and the structure\<close>

type_synonym addr = nat

record SOPC_SLinkedList_Elt =
  elt_id :: u32
  elt_value :: uintptr
  elt_next :: "addr option"

record elt_store =
  cells :: "addr \<Rightarrow> SOPC_SLinkedList_Elt option"
  next_addr :: addr

record SOPC_SLinkedList =
  sl_first :: "addr option"
  sl_last :: "addr option"
  sl_length :: u32
  sl_maxLength :: u32

definition sizeof_SOPC_SLinkedList :: nat where
  "sizeof_SOPC_SLinkedList = 24"

definition sizeof_SOPC_SLinkedList_Elt :: nat where
  "sizeof_SOPC_SLinkedList_Elt = 24"

definition store_init :: elt_store where
  "store_init = \<lparr>cells = (\<lambda>_. None), next_addr = 0\<rparr>"

definition elt_malloc ::
  "('e) mem_env_scheme \<Rightarrow> SOPC_SLinkedList_Elt \<Rightarrow> elt_store \<Rightarrow> addr option \<times> elt_store" where
  "elt_malloc env e h =
     (if mem_ok env sizeof_SOPC_SLinkedList_Elt
      then (Some (next_addr h), \<lparr>cells = (cells h)(next_addr h := Some e), next_addr = next_addr h + 1\<rparr>)
      else (None, h))"

definition elt_free :: "addr \<Rightarrow> elt_store \<Rightarrow> elt_store option" where
  "elt_free a h = (case cells h a of None \<Rightarrow> None | Some _ \<Rightarrow> Some (h\<lparr>cells := (cells h)(a := None)\<rparr>))"

definition set_next :: "addr \<Rightarrow> addr option \<Rightarrow> elt_store \<Rightarrow> elt_store option" where
  "set_next a p h = do {
     e \<leftarrow> cells h a;
     Some (h\<lparr>cells := (cells h)(a := Some (e\<lparr>elt_next := p\<rparr>))\<rparr>) }"

section \<open>Insertions\<close>

definition SOPC_SLinkedList_Create :: "('e) mem_env_scheme \<Rightarrow> nat \<Rightarrow> SOPC_SLinkedList option" where
  "SOPC_SLinkedList_Create env sizeMax =
     (if sizeMax \<le> unat (-1 :: u32) then
        (if mem_ok env sizeof_SOPC_SLinkedList
         then Some \<lparr>sl_first = None, sl_last = None, sl_length = 0, sl_maxLength = of_nat sizeMax\<rparr> else None)
      else None)"

text \<open>The test for room and the allocation that the three insertions share.\<close>

definition elt_create ::
  "('e) mem_env_scheme \<Rightarrow> SOPC_SLinkedList \<Rightarrow> SOPC_SLinkedList_Elt \<Rightarrow> elt_store \<Rightarrow> addr option \<times> elt_store" where
  "elt_create env l e h =
     (if sl_length l < sl_maxLength l \<or> sl_maxLength l = 0 then elt_malloc env e h else (None, h))"

definition SOPC_SLinkedList_Prepend ::
  "('e) mem_env_scheme \<Rightarrow> SOPC_SLinkedList option \<Rightarrow> u32 \<Rightarrow> uintptr \<Rightarrow> elt_store \<Rightarrow>
   uintptr \<times> SOPC_SLinkedList option \<times> elt_store" where
  "SOPC_SLinkedList_Prepend env list i v h =
     (case list of None \<Rightarrow> (0, None, h)
      | Some l \<Rightarrow>
          if v = 0 then (0, Some l, h)
          else
            (case elt_create env l \<lparr>elt_id = i, elt_value = v, elt_next = sl_first l\<rparr> h of
               (None, h) \<Rightarrow> (0, Some l, h)
             | (Some elt, h) \<Rightarrow>
                 (v, Some (l\<lparr>sl_last := (if sl_last l = None then Some elt else sl_last l),
                             sl_first := Some elt, sl_length := sl_length l + 1\<rparr>), h)))"

definition SOPC_SLinkedList_Append ::
  "('e) mem_env_scheme \<Rightarrow> SOPC_SLinkedList option \<Rightarrow> u32 \<Rightarrow> uintptr \<Rightarrow> elt_store \<Rightarrow>
   (uintptr \<times> SOPC_SLinkedList option \<times> elt_store) option" where
  "SOPC_SLinkedList_Append env list i v h =
     (case list of None \<Rightarrow> Some (0, None, h)
      | Some l \<Rightarrow>
          if v = 0 then Some (0, Some l, h)
          else
            (case elt_create env l \<lparr>elt_id = i, elt_value = v, elt_next = None\<rparr> h of
               (None, h) \<Rightarrow> Some (0, Some l, h)
             | (Some elt, h) \<Rightarrow> do {
                 (l, h) \<leftarrow>
                   (if sl_first l = None then Some (l\<lparr>sl_first := Some elt\<rparr>, h)
                    else do { p \<leftarrow> sl_last l; h \<leftarrow> set_next p (Some elt) h; Some (l, h) });
                 Some (v, Some (l\<lparr>sl_last := Some elt, sl_length := sl_length l + 1\<rparr>), h) }))"

text \<open>
  The search of \<open>SOPC_SLinkedList_SortedInsert\<close>: the last cell, from \<open>a\<close> on, whose successors up to it do
  not compare greater. \<open>pCompFn\<close> is a parameter.
\<close>

partial_function (option) sorted_search ::
  "(uintptr \<Rightarrow> uintptr \<Rightarrow> int) \<Rightarrow> uintptr \<Rightarrow> elt_store \<Rightarrow> addr \<Rightarrow> addr option" where
  "sorted_search pCompFn v h a =
     Option.bind (cells h a) (\<lambda>e.
       case elt_next e of
         None \<Rightarrow> Some a
       | Some n \<Rightarrow> Option.bind (cells h n) (\<lambda>en.
           if pCompFn v (elt_value en) \<ge> 0 then sorted_search pCompFn v h n else Some a))"

definition SOPC_SLinkedList_SortedInsert ::
  "('e) mem_env_scheme \<Rightarrow> SOPC_SLinkedList option \<Rightarrow> u32 \<Rightarrow> uintptr \<Rightarrow> (uintptr \<Rightarrow> uintptr \<Rightarrow> int) \<Rightarrow> elt_store \<Rightarrow>
   (uintptr \<times> SOPC_SLinkedList option \<times> elt_store) option" where
  "SOPC_SLinkedList_SortedInsert env list i v pCompFn h =
     (case list of None \<Rightarrow> Some (0, None, h)
      | Some l \<Rightarrow>
          (case elt_create env l \<lparr>elt_id = i, elt_value = v, elt_next = None\<rparr> h of
             (None, h) \<Rightarrow> Some (0, Some l, h)
           | (Some newElt, h) \<Rightarrow>
               (case sl_first l of
                  None \<Rightarrow>
                    if sl_last l = None \<and> sl_length l = 0 then
                      Some (v, Some (l\<lparr>sl_first := Some newElt, sl_last := Some newElt,
                                       sl_length := sl_length l + 1\<rparr>), h)
                    else None
                | Some f \<Rightarrow> do {
                    ef \<leftarrow> cells h f;
                    if pCompFn v (elt_value ef) < 0 then do {
                      h \<leftarrow> set_next newElt (Some f) h;
                      Some (v, Some (l\<lparr>sl_length := sl_length l + 1, sl_first := Some newElt\<rparr>), h) }
                    else do {
                      elt \<leftarrow> sorted_search pCompFn v h f;
                      e \<leftarrow> cells h elt;
                      (case elt_next e of
                         Some nextElt \<Rightarrow> do {
                           h \<leftarrow> set_next newElt (Some nextElt) h;
                           h \<leftarrow> set_next elt (Some newElt) h;
                           Some (v, Some (l\<lparr>sl_length := sl_length l + 1\<rparr>), h) }
                       | None \<Rightarrow>
                           if sl_last l = Some elt then do {
                             h \<leftarrow> set_next elt (Some newElt) h;
                             Some (v, Some (l\<lparr>sl_length := sl_length l + 1, sl_last := Some newElt\<rparr>), h) }
                           else None) } })))"

section \<open>Removals\<close>

definition SOPC_SLinkedList_PopHead ::
  "SOPC_SLinkedList option \<Rightarrow> elt_store \<Rightarrow> (uintptr \<times> SOPC_SLinkedList option \<times> elt_store) option" where
  "SOPC_SLinkedList_PopHead list h =
     (case list of None \<Rightarrow> Some (0, None, h)
      | Some l \<Rightarrow>
          (case sl_first l of None \<Rightarrow> Some (0, Some l, h)
           | Some f \<Rightarrow> do {
               e \<leftarrow> cells h f;
               h \<leftarrow> elt_free f h;
               let l = l\<lparr>sl_length := sl_length l - 1, sl_first := elt_next e\<rparr>;
               let l = (if sl_first l = None then l\<lparr>sl_last := None\<rparr> else l);
               Some (elt_value e, Some l, h) }))"

text \<open>
  \<open>SOPC_SLinkedList_RemoveFromElt\<close> with the test as a function of the address and the content of a cell:
  the three tests compare the addresses, the identifiers and the values.
\<close>

partial_function (option) remove_search ::
  "(addr \<Rightarrow> SOPC_SLinkedList_Elt \<Rightarrow> bool) \<Rightarrow> elt_store \<Rightarrow> addr \<Rightarrow> addr option" where
  "remove_search isElementFct h a =
     Option.bind (cells h a) (\<lambda>e.
       case elt_next e of
         None \<Rightarrow> Some a
       | Some n \<Rightarrow> Option.bind (cells h n) (\<lambda>en.
           if isElementFct n en then Some a else remove_search isElementFct h n))"

definition SOPC_SLinkedList_RemoveFromElt ::
  "SOPC_SLinkedList \<Rightarrow> (addr \<Rightarrow> SOPC_SLinkedList_Elt \<Rightarrow> bool) \<Rightarrow> elt_store \<Rightarrow>
   (uintptr \<times> SOPC_SLinkedList \<times> elt_store) option" where
  "SOPC_SLinkedList_RemoveFromElt l isElementFct h =
     (case sl_first l of None \<Rightarrow> Some (0, l, h)
      | Some f \<Rightarrow> do {
          ef \<leftarrow> cells h f;
          if isElementFct f ef then do {
            h \<leftarrow> elt_free f h;
            let l = l\<lparr>sl_length := sl_length l - 1, sl_first := elt_next ef\<rparr>;
            let l = (if sl_first l = None then l\<lparr>sl_last := None\<rparr> else l);
            Some (elt_value ef, l, h) }
          else do {
            elt \<leftarrow> remove_search isElementFct h f;
            e \<leftarrow> cells h elt;
            (case elt_next e of
               None \<Rightarrow> Some (0, l, h)
             | Some n \<Rightarrow> do {
                 en \<leftarrow> cells h n;
                 let l = l\<lparr>sl_length := sl_length l - 1\<rparr>;
                 let l = (if Some n = sl_last l then l\<lparr>sl_last := Some elt\<rparr> else l);
                 h \<leftarrow> elt_free n h;
                 h \<leftarrow> set_next elt (elt_next en) h;
                 Some (elt_value en, l, h) }) } })"

definition SOPC_SLinkedList_PopLast ::
  "SOPC_SLinkedList option \<Rightarrow> elt_store \<Rightarrow> (uintptr \<times> SOPC_SLinkedList option \<times> elt_store) option" where
  "SOPC_SLinkedList_PopLast list h =
     (case list of None \<Rightarrow> Some (0, None, h)
      | Some l \<Rightarrow>
          (case sl_last l of None \<Rightarrow> Some (0, Some l, h)
           | Some p \<Rightarrow> do {
               (r, l, h) \<leftarrow> SOPC_SLinkedList_RemoveFromElt l (\<lambda>a e. a = p) h;
               Some (r, Some l, h) }))"

definition SOPC_SLinkedList_RemoveFromId ::
  "SOPC_SLinkedList option \<Rightarrow> u32 \<Rightarrow> elt_store \<Rightarrow> (uintptr \<times> SOPC_SLinkedList option \<times> elt_store) option" where
  "SOPC_SLinkedList_RemoveFromId list i h =
     (case list of None \<Rightarrow> Some (0, None, h)
      | Some l \<Rightarrow> do {
          (r, l, h) \<leftarrow> SOPC_SLinkedList_RemoveFromElt l (\<lambda>a e. elt_id e = i) h;
          Some (r, Some l, h) })"

definition SOPC_SLinkedList_RemoveFromValuePtr ::
  "SOPC_SLinkedList option \<Rightarrow> uintptr \<Rightarrow> elt_store \<Rightarrow> (uintptr \<times> SOPC_SLinkedList option \<times> elt_store) option" where
  "SOPC_SLinkedList_RemoveFromValuePtr list v h =
     (case list of None \<Rightarrow> Some (0, None, h)
      | Some l \<Rightarrow>
          if v = 0 then Some (0, Some l, h)
          else do {
            (r, l, h) \<leftarrow> SOPC_SLinkedList_RemoveFromElt l (\<lambda>a e. elt_value e = v) h;
            Some (r, Some l, h) })"

partial_function (option) clear_loop :: "addr option \<Rightarrow> elt_store \<Rightarrow> elt_store option" where
  "clear_loop p h =
     (case p of None \<Rightarrow> Some h
      | Some a \<Rightarrow> Option.bind (cells h a) (\<lambda>e. Option.bind (elt_free a h) (\<lambda>h. clear_loop (elt_next e) h)))"

definition SOPC_SLinkedList_Clear ::
  "SOPC_SLinkedList option \<Rightarrow> elt_store \<Rightarrow> (SOPC_SLinkedList option \<times> elt_store) option" where
  "SOPC_SLinkedList_Clear list h =
     (case list of None \<Rightarrow> Some (None, h)
      | Some l \<Rightarrow> do {
          h \<leftarrow> clear_loop (sl_first l) h;
          Some (Some (l\<lparr>sl_first := None, sl_last := None, sl_length := 0\<rparr>), h) })"

definition SOPC_SLinkedList_Delete :: "SOPC_SLinkedList option \<Rightarrow> elt_store \<Rightarrow> elt_store option" where
  "SOPC_SLinkedList_Delete list h = map_option snd (SOPC_SLinkedList_Clear list h)"

section \<open>Reading\<close>

definition SOPC_SLinkedList_GetHead :: "SOPC_SLinkedList option \<Rightarrow> elt_store \<Rightarrow> uintptr option" where
  "SOPC_SLinkedList_GetHead list h =
     (case list of None \<Rightarrow> Some 0
      | Some l \<Rightarrow> (case sl_first l of None \<Rightarrow> Some 0 | Some f \<Rightarrow> map_option elt_value (cells h f)))"

definition SOPC_SLinkedList_GetLast :: "SOPC_SLinkedList option \<Rightarrow> elt_store \<Rightarrow> uintptr option" where
  "SOPC_SLinkedList_GetLast list h =
     (case list of None \<Rightarrow> Some 0
      | Some l \<Rightarrow> (case sl_last l of None \<Rightarrow> Some 0 | Some p \<Rightarrow> map_option elt_value (cells h p)))"

partial_function (option) find_loop :: "u32 \<Rightarrow> elt_store \<Rightarrow> addr option \<Rightarrow> addr option option" where
  "find_loop i h p =
     (case p of None \<Rightarrow> Some None
      | Some a \<Rightarrow> Option.bind (cells h a) (\<lambda>e.
          if elt_id e \<noteq> i then find_loop i h (elt_next e) else Some (Some a)))"

definition SOPC_SLinkedList_InternalFind ::
  "SOPC_SLinkedList option \<Rightarrow> u32 \<Rightarrow> elt_store \<Rightarrow> addr option option" where
  "SOPC_SLinkedList_InternalFind list i h =
     (case list of None \<Rightarrow> Some None | Some l \<Rightarrow> find_loop i h (sl_first l))"

definition SOPC_SLinkedList_FindFromId :: "SOPC_SLinkedList option \<Rightarrow> u32 \<Rightarrow> elt_store \<Rightarrow> uintptr option" where
  "SOPC_SLinkedList_FindFromId list i h = do {
     p \<leftarrow> SOPC_SLinkedList_InternalFind list i h;
     (case p of None \<Rightarrow> Some 0 | Some a \<Rightarrow> map_option elt_value (cells h a)) }"

text \<open>The arguments of the calls of \<open>pFn\<close>, in order.\<close>

partial_function (option) apply_loop :: "elt_store \<Rightarrow> addr option \<Rightarrow> (u32 \<times> uintptr) list option" where
  "apply_loop h p =
     (case p of None \<Rightarrow> Some []
      | Some a \<Rightarrow> Option.bind (cells h a) (\<lambda>e.
          Option.bind (apply_loop h (elt_next e)) (\<lambda>r. Some ((elt_id e, elt_value e) # r))))"

definition SOPC_SLinkedList_Apply :: "SOPC_SLinkedList option \<Rightarrow> elt_store \<Rightarrow> (u32 \<times> uintptr) list option" where
  "SOPC_SLinkedList_Apply list h = (case list of None \<Rightarrow> Some [] | Some l \<Rightarrow> apply_loop h (sl_first l))"

type_synonym SOPC_SLinkedListIterator = "addr option"

definition SOPC_SLinkedList_GetIterator :: "SOPC_SLinkedList option \<Rightarrow> SOPC_SLinkedListIterator" where
  "SOPC_SLinkedList_GetIterator list = (case list of None \<Rightarrow> None | Some l \<Rightarrow> sl_first l)"

definition SOPC_SLinkedList_NextWithId ::
  "SOPC_SLinkedListIterator option \<Rightarrow> u32 option \<Rightarrow> elt_store \<Rightarrow>
   (uintptr \<times> u32 option \<times> SOPC_SLinkedListIterator option) option" where
  "SOPC_SLinkedList_NextWithId it pId h =
     (case it of None \<Rightarrow> Some (0, pId, None)
      | Some None \<Rightarrow> Some (0, pId, it)
      | Some (Some a) \<Rightarrow> do {
          e \<leftarrow> cells h a;
          Some (elt_value e, map_option (\<lambda>_. elt_id e) pId, Some (elt_next e)) })"

definition SOPC_SLinkedList_Next ::
  "SOPC_SLinkedListIterator option \<Rightarrow> elt_store \<Rightarrow> (uintptr \<times> SOPC_SLinkedListIterator option) option" where
  "SOPC_SLinkedList_Next it h = do {
     (v, _, it) \<leftarrow> SOPC_SLinkedList_NextWithId it None h;
     Some (v, it) }"

definition SOPC_SLinkedList_HasNext :: "SOPC_SLinkedListIterator option \<Rightarrow> elt_store \<Rightarrow> bool option" where
  "SOPC_SLinkedList_HasNext it h =
     (case it of Some (Some a) \<Rightarrow> map_option (\<lambda>e. elt_value e \<noteq> 0) (cells h a) | _ \<Rightarrow> Some False)"

definition SOPC_SLinkedList_GetLength :: "SOPC_SLinkedList option \<Rightarrow> u32" where
  "SOPC_SLinkedList_GetLength list = (case list of None \<Rightarrow> 0 | Some l \<Rightarrow> sl_length l)"

definition SOPC_SLinkedList_GetCapacity :: "SOPC_SLinkedList option \<Rightarrow> u32" where
  "SOPC_SLinkedList_GetCapacity list = (case list of None \<Rightarrow> 0 | Some l \<Rightarrow> sl_maxLength l)"

definition SOPC_SLinkedList_SetCapacity :: "SOPC_SLinkedList option \<Rightarrow> nat \<Rightarrow> bool \<times> SOPC_SLinkedList option" where
  "SOPC_SLinkedList_SetCapacity list sizeMax =
     (case list of None \<Rightarrow> (False, None)
      | Some l \<Rightarrow>
          if sizeMax > 0 \<and> unat (sl_length l) > sizeMax then (False, Some l)
          else (True, Some (l\<lparr>sl_maxLength := of_nat sizeMax\<rparr>)))"

end
