(* ===== verification/SLinkedList_Laws.thy ===== *)
theory SLinkedList_Laws
  imports SLinkedList
begin

text \<open>
  The linked list as a sequence: the cells on the path from the first one, with the invariant that ties
  the length, the last pointer and the store to it. Each operation is the one on the sequence; cells of
  other lists are not touched.
\<close>

section \<open>Paths\<close>

primrec sll_path :: "(addr \<Rightarrow> SOPC_SLinkedList_Elt option) \<Rightarrow> addr option \<Rightarrow> addr list \<Rightarrow> addr option \<Rightarrow> bool" where
  "sll_path c p [] q \<longleftrightarrow> p = q"
| "sll_path c p (a # as) q \<longleftrightarrow> p = Some a \<and> (\<exists>e. c a = Some e \<and> sll_path c (elt_next e) as q)"

lemma sll_path_append:
  "sll_path c p (as @ bs) q \<longleftrightarrow> (\<exists>r. sll_path c p as r \<and> sll_path c r bs q)"
  by (induction as arbitrary: p) auto

lemma sll_path_outside [simp]: "a \<notin> set as \<Longrightarrow> sll_path (c(a := x)) p as q = sll_path c p as q"
  by (induction as arbitrary: p) auto

lemma sll_path_allocated: "sll_path c p as q \<Longrightarrow> a \<in> set as \<Longrightarrow> \<exists>e. c a = Some e"
  by (induction as arbitrary: p) auto

lemma sll_path_relink:
  assumes "sll_path c p (xs @ [a]) q" "c a = Some e" "a \<notin> set xs"
  shows "sll_path (c(a \<mapsto> e\<lparr>elt_next := r\<rparr>)) p (xs @ [a]) r"
  using assms by (auto simp: sll_path_append)

definition elt_pair :: "elt_store \<Rightarrow> addr \<Rightarrow> u32 \<times> uintptr" where
  "elt_pair h a = (elt_id (the (cells h a)), elt_value (the (cells h a)))"

definition sll_elems :: "elt_store \<Rightarrow> addr list \<Rightarrow> (u32 \<times> uintptr) list" where
  "sll_elems h as = map (elt_pair h) as"

definition store_wf :: "elt_store \<Rightarrow> bool" where
  "store_wf h \<longleftrightarrow> (\<forall>a. next_addr h \<le> a \<longrightarrow> cells h a = None)"

definition sll_rep :: "SOPC_SLinkedList \<Rightarrow> elt_store \<Rightarrow> addr list \<Rightarrow> bool" where
  "sll_rep l h as \<longleftrightarrow>
     sll_path (cells h) (sl_first l) as None \<and> distinct as \<and>
     sl_last l = (if as = [] then None else Some (last as)) \<and>
     unat (sl_length l) = length as \<and> store_wf h"

lemma sll_repE:
  assumes "sll_rep l h as"
  obtains "sll_path (cells h) (sl_first l) as None" "distinct as"
    "sl_last l = (if as = [] then None else Some (last as))" "unat (sl_length l) = length as" "store_wf h"
  using assms by (auto simp: sll_rep_def)

lemma sll_first: "sll_rep l h as \<Longrightarrow> sl_first l = (if as = [] then None else Some (hd as))"
  by (cases as) (auto simp: sll_rep_def)

lemma fresh_not_in: "store_wf h \<Longrightarrow> sll_path (cells h) p as q \<Longrightarrow> next_addr h \<notin> set as"
  using sll_path_allocated by (fastforce simp: store_wf_def)

lemma path_below: "store_wf h \<Longrightarrow> sll_path (cells h) p as q \<Longrightarrow> a \<in> set as \<Longrightarrow> a < next_addr h"
  using sll_path_allocated by (fastforce simp: store_wf_def not_le [symmetric])

lemma elt_malloc_wf: "store_wf h \<Longrightarrow> elt_malloc env e h = (p, h') \<Longrightarrow> store_wf h'"
  by (auto simp: elt_malloc_def store_wf_def split: if_splits)

lemma set_next_wf: "store_wf h \<Longrightarrow> set_next a p h = Some h' \<Longrightarrow> store_wf h'"
  by (auto simp: set_next_def store_wf_def bind_eq_Some_conv split: if_splits)

lemma elt_free_wf: "store_wf h \<Longrightarrow> elt_free a h = Some h' \<Longrightarrow> store_wf h'"
  by (auto simp: elt_free_def store_wf_def split: option.splits)

text \<open>The cells of no other list change.\<close>

definition frame :: "elt_store \<Rightarrow> elt_store \<Rightarrow> addr list \<Rightarrow> bool" where
  "frame h h' as \<longleftrightarrow> (\<forall>a. a < next_addr h \<longrightarrow> a \<notin> set as \<longrightarrow> cells h' a = cells h a)"

lemma frame_refl [simp]: "frame h h as"
  by (simp add: frame_def)

text \<open>A list whose cells are apart from those of the list that is changed stays as it is.\<close>

lemma frame_path:
  assumes "frame h h' as" "store_wf h" "sll_path (cells h) p bs q" "set as \<inter> set bs = {}"
  shows "sll_path (cells h') p bs q \<and> sll_elems h' bs = sll_elems h bs"
proof -
  have same: "cells h' b = cells h b" if "b \<in> set bs" for b
  proof -
    have "b < next_addr h" using sll_path_allocated [OF assms(3) that] assms(2)
      by (metis not_le option.distinct(1) store_wf_def)
    then show ?thesis using assms(1,4) that by (auto simp: frame_def)
  qed
  have "sll_path (cells h') p bs q"
    using assms(3) same by (induction bs arbitrary: p) auto
  moreover have "sll_elems h' bs = sll_elems h bs"
    using same by (simp add: sll_elems_def elt_pair_def)
  ultimately show ?thesis by blast
qed

section \<open>Reading\<close>

lemma apply_loop_path: "sll_path (cells h) p as None \<Longrightarrow> apply_loop h p = Some (sll_elems h as)"
proof (induction as arbitrary: p)
  case Nil
  then show ?case by (subst apply_loop.simps) (simp add: sll_elems_def)
next
  case (Cons a as)
  then obtain e where e: "p = Some a" "cells h a = Some e" "sll_path (cells h) (elt_next e) as None" by auto
  then show ?case
    using Cons.IH [OF e(3)] by (subst apply_loop.simps) (simp add: sll_elems_def elt_pair_def)
qed

lemma find_loop_path:
  "sll_path (cells h) p as None \<Longrightarrow>
    find_loop i h p = Some (find (\<lambda>a. fst (elt_pair h a) = i) as)"
proof (induction as arbitrary: p)
  case Nil
  then show ?case by (subst find_loop.simps) simp
next
  case (Cons a as)
  then obtain e where e: "p = Some a" "cells h a = Some e" "sll_path (cells h) (elt_next e) as None" by auto
  then show ?case
    using Cons.IH [OF e(3)] by (subst find_loop.simps) (simp add: elt_pair_def)
qed

lemma sorted_search_path:
  "sll_path (cells h) (Some a) (a # as) None \<Longrightarrow>
    sorted_search cmp v h a = Some (last (a # takeWhile (\<lambda>b. cmp v (snd (elt_pair h b)) \<ge> 0) as))"
proof (induction as arbitrary: a)
  case Nil
  then show ?case by (subst sorted_search.simps) auto
next
  case (Cons b as)
  then obtain e eb where e: "cells h a = Some e" "elt_next e = Some b" "cells h b = Some eb"
    "sll_path (cells h) (Some b) (b # as) None" by auto
  then show ?case
    using Cons.IH [OF e(4)] by (subst sorted_search.simps) (simp add: elt_pair_def)
qed

lemma remove_search_path:
  "sll_path (cells h) (Some a) (a # as) None \<Longrightarrow>
    remove_search t h a = Some (last (a # takeWhile (\<lambda>b. \<not> t b (the (cells h b))) as))"
proof (induction as arbitrary: a)
  case Nil
  then show ?case by (subst remove_search.simps) auto
next
  case (Cons b as)
  then obtain e eb where e: "cells h a = Some e" "elt_next e = Some b" "cells h b = Some eb"
    "sll_path (cells h) (Some b) (b # as) None" by auto
  then show ?case
    using Cons.IH [OF e(4)] by (subst remove_search.simps) simp
qed

section \<open>Inserting and removing a cell\<close>

lemma path_insert_after:
  assumes "sll_path c p (xs @ a # ys) None" "distinct (xs @ a # ys)" "n \<notin> set (xs @ a # ys)"
    "c a = Some e" "elt_next en = elt_next e"
  shows "sll_path (c(n \<mapsto> en, a \<mapsto> e\<lparr>elt_next := Some n\<rparr>)) p (xs @ a # n # ys) None"
  using assms by (auto simp: sll_path_append)

lemma path_remove_after:
  assumes "sll_path c p (xs @ a # b # ys) None" "distinct (xs @ a # b # ys)" "c a = Some e" "c b = Some eb"
  shows "sll_path (c(b := None, a \<mapsto> e\<lparr>elt_next := elt_next eb\<rparr>)) p (xs @ a # ys) None"
  using assms by (auto simp: sll_path_append)

definition sll_room :: "('e) mem_env_scheme \<Rightarrow> SOPC_SLinkedList \<Rightarrow> bool" where
  "sll_room env l \<longleftrightarrow>
     (sl_length l < sl_maxLength l \<or> sl_maxLength l = 0) \<and> mem_ok env sizeof_SOPC_SLinkedList_Elt"

lemma elt_create_room:
  "elt_create env l e h =
     (if sll_room env l
      then (Some (next_addr h), \<lparr>cells = (cells h)(next_addr h := Some e), next_addr = next_addr h + 1\<rparr>)
      else (None, h))"
  by (auto simp: elt_create_def sll_room_def elt_malloc_def)

lemma length_Suc: "unat (sl_length l) = n \<Longrightarrow> Suc n < 2 ^ 32 \<Longrightarrow> unat (sl_length l + 1) = Suc n"
  by (subst unat_add_u32) simp_all

lemma SOPC_SLinkedList_Prepend_ok:
  assumes rep: "sll_rep l h as" and v: "v \<noteq> 0" and room: "sll_room env l" and len: "Suc (length as) < 2 ^ 32"
  defines "n \<equiv> next_addr h"
  shows "\<exists>l' h'. SOPC_SLinkedList_Prepend env (Some l) i v h = (v, Some l', h') \<and> sll_rep l' h' (n # as) \<and>
    sll_elems h' (n # as) = (i, v) # sll_elems h as \<and> frame h h' as \<and> sl_maxLength l' = sl_maxLength l"
proof -
  from rep obtain r: "sll_path (cells h) (sl_first l) as None" "distinct as"
    "sl_last l = (if as = [] then None else Some (last as))" "unat (sl_length l) = length as" "store_wf h"
    by (rule sll_repE)
  have n: "n \<notin> set as" unfolding n_def by (rule fresh_not_in [OF r(5,1)])
  let ?h = "\<lparr>cells = (cells h)(n \<mapsto> \<lparr>elt_id = i, elt_value = v, elt_next = sl_first l\<rparr>), next_addr = next_addr h + 1\<rparr>"
  let ?l = "l\<lparr>sl_last := (if sl_last l = None then Some n else sl_last l), sl_first := Some n,
              sl_length := sl_length l + 1\<rparr>"
  have "SOPC_SLinkedList_Prepend env (Some l) i v h = (v, Some ?l, ?h)"
    using v room by (simp add: SOPC_SLinkedList_Prepend_def elt_create_room n_def)
  moreover have "sll_rep ?l ?h (n # as)"
    using r n len length_Suc [OF r(4)] by (auto simp: sll_rep_def store_wf_def n_def)
  moreover have "sll_elems ?h (n # as) = (i, v) # sll_elems h as"
    using n by (auto simp: sll_elems_def elt_pair_def)
  moreover have "frame h ?h as" by (auto simp: frame_def n_def)
  ultimately show ?thesis by auto
qed

lemma SOPC_SLinkedList_Append_ok:
  assumes rep: "sll_rep l h as" and v: "v \<noteq> 0" and room: "sll_room env l" and len: "Suc (length as) < 2 ^ 32"
  defines "n \<equiv> next_addr h"
  shows "\<exists>l' h'. SOPC_SLinkedList_Append env (Some l) i v h = Some (v, Some l', h') \<and> sll_rep l' h' (as @ [n]) \<and>
    sll_elems h' (as @ [n]) = sll_elems h as @ [(i, v)] \<and> frame h h' as \<and> sl_maxLength l' = sl_maxLength l"
proof -
  from rep obtain r: "sll_path (cells h) (sl_first l) as None" "distinct as"
    "sl_last l = (if as = [] then None else Some (last as))" "unat (sl_length l) = length as" "store_wf h"
    by (rule sll_repE)
  have n: "n \<notin> set as" unfolding n_def by (rule fresh_not_in [OF r(5,1)])
  let ?e = "\<lparr>elt_id = i, elt_value = v, elt_next = None\<rparr>"
  let ?l = "l\<lparr>sl_first := (if as = [] then Some n else sl_first l), sl_last := Some n, sl_length := sl_length l + 1\<rparr>"
  show ?thesis
  proof (cases as rule: rev_cases)
    case Nil
    let ?h = "\<lparr>cells = (cells h)(n \<mapsto> ?e), next_addr = next_addr h + 1\<rparr>"
    have "SOPC_SLinkedList_Append env (Some l) i v h = Some (v, Some ?l, ?h)"
      using v room r(1) Nil by (simp add: SOPC_SLinkedList_Append_def elt_create_room n_def)
    moreover have "sll_rep ?l ?h (as @ [n])"
      using r Nil length_Suc [OF r(4)] by (auto simp: sll_rep_def store_wf_def n_def)
    moreover have "frame h ?h as" by (auto simp: frame_def n_def)
    ultimately show ?thesis using Nil by (auto simp: sll_elems_def elt_pair_def)
  next
    case (snoc xs a)
    then obtain e where e: "cells h a = Some e" using sll_path_allocated [OF r(1), of a] by auto
    let ?h = "\<lparr>cells = (cells h)(n \<mapsto> ?e, a \<mapsto> e\<lparr>elt_next := Some n\<rparr>), next_addr = next_addr h + 1\<rparr>"
    have na: "n \<noteq> a" "a < next_addr h" using n snoc e r(5) by (auto simp: store_wf_def not_le [symmetric])
    have first: "sl_first l \<noteq> None" using sll_first [OF rep] snoc by auto
    have "SOPC_SLinkedList_Append env (Some l) i v h = Some (v, Some ?l, ?h)"
      using v room r(3) snoc first e na
      by (auto simp: SOPC_SLinkedList_Append_def elt_create_room n_def set_next_def)
    moreover have "elt_next e = None" using r(1) snoc e by (auto simp: sll_path_append)
    then have "sll_path (cells ?h) (sl_first l) (xs @ [a, n]) None"
      using path_insert_after [of "cells h" "sl_first l" xs a "[]" n e ?e] r(1,2) n e snoc by simp
    then have "sll_rep ?l ?h (as @ [n])"
      using r n na snoc length_Suc [OF r(4) len] by (auto simp: sll_rep_def store_wf_def n_def)
    moreover have "sll_elems ?h (as @ [n]) = sll_elems h as @ [(i, v)]"
      using n na snoc e by (auto simp: sll_elems_def elt_pair_def)
    moreover have "frame h ?h as" using snoc by (auto simp: frame_def n_def)
    ultimately show ?thesis by auto
  qed
qed

lemma insertion_refused:
  assumes "\<not> sll_room env l"
  shows "SOPC_SLinkedList_Prepend env (Some l) i v h = (0, Some l, h)"
    "SOPC_SLinkedList_Append env (Some l) i v h = Some (0, Some l, h)"
    "SOPC_SLinkedList_SortedInsert env (Some l) i v cmp h = Some (0, Some l, h)"
  using assms by (simp_all add: SOPC_SLinkedList_Prepend_def SOPC_SLinkedList_Append_def
      SOPC_SLinkedList_SortedInsert_def elt_create_room)

lemma zero_refused:
  "SOPC_SLinkedList_Prepend env (Some l) i 0 h = (0, Some l, h)"
  "SOPC_SLinkedList_Append env (Some l) i 0 h = Some (0, Some l, h)"
  by (simp_all add: SOPC_SLinkedList_Prepend_def SOPC_SLinkedList_Append_def)

lemma SOPC_SLinkedList_PopHead_ok:
  assumes rep: "sll_rep l h (a # as)"
  shows "\<exists>l' h'. SOPC_SLinkedList_PopHead (Some l) h = Some (snd (elt_pair h a), Some l', h') \<and> sll_rep l' h' as \<and>
    sll_elems h' as = sll_elems h as \<and> frame h h' (a # as) \<and> sl_maxLength l' = sl_maxLength l \<and> cells h' a = None"
proof -
  from rep obtain r: "sll_path (cells h) (sl_first l) (a # as) None" "distinct (a # as)"
    "sl_last l = (if a # as = [] then None else Some (last (a # as)))" "unat (sl_length l) = length (a # as)" "store_wf h"
    by (rule sll_repE)
  then obtain e where e: "cells h a = Some e" "sl_first l = Some a" "sll_path (cells h) (elt_next e) as None" by auto
  let ?h = "h\<lparr>cells := (cells h)(a := None)\<rparr>"
  let ?l = "l\<lparr>sl_length := sl_length l - 1, sl_first := elt_next e,
              sl_last := (if elt_next e = None then None else sl_last l)\<rparr>"
  have nonzero: "sl_length l \<noteq> 0" using r(4) by auto
  have len: "unat (sl_length l - 1) = length as"
    using r(4) nonzero by (simp add: unat_sub word_le_nat_alt unat_gt_0 Suc_leI)
  have "elt_next e = None \<longleftrightarrow> as = []" using e(3) by (cases as) auto
  then have "sll_rep ?l ?h as" using r e len by (auto simp: sll_rep_def store_wf_def)
  moreover have "SOPC_SLinkedList_PopHead (Some l) h = Some (snd (elt_pair h a), Some ?l, ?h)"
    using e by (simp add: SOPC_SLinkedList_PopHead_def elt_free_def elt_pair_def Let_def)
  moreover have "sll_elems ?h as = sll_elems h as" using r(2) by (auto simp: sll_elems_def elt_pair_def)
  moreover have "frame h ?h (a # as)" by (auto simp: frame_def)
  ultimately show ?thesis by auto
qed

text \<open>
  Removing the first cell that passes a test, on the addresses and on the elements: \<open>before\<close> are the cells
  in front of it.
\<close>

lemma SOPC_SLinkedList_RemoveFromElt_found:
  assumes rep: "sll_rep l h (xs @ b # ys)" and t: "t b (the (cells h b))"
    and before: "\<And>a. a \<in> set xs \<Longrightarrow> \<not> t a (the (cells h a))"
  shows "\<exists>l' h'. SOPC_SLinkedList_RemoveFromElt l t h = Some (snd (elt_pair h b), l', h') \<and> sll_rep l' h' (xs @ ys) \<and>
    sll_elems h' (xs @ ys) = sll_elems h (xs @ ys) \<and> frame h h' (xs @ b # ys) \<and> sl_maxLength l' = sl_maxLength l"
proof (cases xs rule: rev_cases)
  case Nil
  then have rep': "sll_rep l h (b # ys)" using rep by simp
  then obtain e where "cells h b = Some e" "sl_first l = Some b" by (auto simp: sll_rep_def)
  then have "SOPC_SLinkedList_RemoveFromElt l t h =
      map_option (\<lambda>(r, l, h). (r, the l, h)) (SOPC_SLinkedList_PopHead (Some l) h)"
    using t by (simp add: SOPC_SLinkedList_RemoveFromElt_def SOPC_SLinkedList_PopHead_def elt_free_def Let_def)
  then show ?thesis using SOPC_SLinkedList_PopHead_ok [OF rep'] Nil by auto
next
  case (snoc zs a)
  from rep obtain r: "sll_path (cells h) (sl_first l) (xs @ b # ys) None" "distinct (xs @ b # ys)"
    "sl_last l = (if xs @ b # ys = [] then None else Some (last (xs @ b # ys)))"
    "unat (sl_length l) = length (xs @ b # ys)" "store_wf h"
    by (rule sll_repE)
  obtain e eb where e: "cells h a = Some e" "elt_next e = Some b" "cells h b = Some eb"
    using r(1) snoc by (auto simp: sll_path_append)
  obtain f fs where f: "xs = f # fs" using snoc by (cases zs) auto
  obtain ef where ef: "sl_first l = Some f" "cells h f = Some ef" using r(1) f by auto
  have tf: "\<not> t f ef" using before [of f] f ef by simp
  have tw: "takeWhile (\<lambda>b. \<not> t b (the (cells h b))) (fs @ b # ys) = fs"
    using before t f by (subst takeWhile_append2) auto
  have "last (f # fs) = a" using snoc f by (metis last_snoc)
  then have search: "remove_search t h f = Some a"
    using remove_search_path [of h f "fs @ b # ys" t] r(1) f ef(1) tw by simp
  let ?h = "h\<lparr>cells := (cells h)(b := None, a \<mapsto> e\<lparr>elt_next := elt_next eb\<rparr>)\<rparr>"
  let ?l = "l\<lparr>sl_length := sl_length l - 1, sl_last := (if Some b = sl_last l then Some a else sl_last l)\<rparr>"
  have ab: "a \<noteq> b" using r(2) snoc by auto
  have nonzero: "sl_length l \<noteq> 0" using r(4) by auto
  have len: "unat (sl_length l - 1) = length (xs @ ys)"
    using r(4) nonzero by (simp add: unat_sub word_le_nat_alt unat_gt_0 Suc_leI)
  have run: "SOPC_SLinkedList_RemoveFromElt l t h = Some (snd (elt_pair h b), ?l, ?h)"
    using ef tf search e ab
    by (simp add: SOPC_SLinkedList_RemoveFromElt_def elt_free_def set_next_def Let_def elt_pair_def)
  have "Some b = sl_last l \<longleftrightarrow> ys = []" using r(2,3) by (auto dest: last_in_set)
  moreover have "sll_path (cells ?h) (sl_first l) (xs @ ys) None"
    using path_remove_after [of "cells h" "sl_first l" zs a b ys e eb] r(1,2) e snoc by simp
  moreover have "a < next_addr h" using e(1) r(5) by (auto simp: store_wf_def not_le [symmetric])
  ultimately have "sll_rep ?l ?h (xs @ ys)"
    using r snoc len by (auto simp: sll_rep_def store_wf_def)
  moreover have "sll_elems ?h (xs @ ys) = sll_elems h (xs @ ys)"
    using r(2) snoc e by (auto simp: sll_elems_def elt_pair_def)
  moreover have "frame h ?h (xs @ b # ys)" using snoc by (auto simp: frame_def)
  ultimately show ?thesis using run by auto
qed

lemma SOPC_SLinkedList_RemoveFromElt_absent:
  assumes rep: "sll_rep l h as" and absent: "\<And>a. a \<in> set as \<Longrightarrow> \<not> t a (the (cells h a))"
  shows "SOPC_SLinkedList_RemoveFromElt l t h = Some (0, l, h)"
proof (cases as)
  case Nil
  then show ?thesis using rep by (simp add: SOPC_SLinkedList_RemoveFromElt_def sll_rep_def)
next
  case (Cons f fs)
  then obtain ef where f: "sl_first l = Some f" "cells h f = Some ef" "sll_path (cells h) (Some f) (f # fs) None"
    using rep by (auto simp: sll_rep_def)
  have tw: "takeWhile (\<lambda>b. \<not> t b (the (cells h b))) fs = fs"
    using absent Cons by (intro takeWhile_eq_all_conv [THEN iffD2]) auto
  let ?z = "last (f # fs)"
  obtain e where e: "cells h ?z = Some e" "elt_next e = None"
    using f(3) by (metis (no_types, lifting) append_butlast_last_id list.distinct(1) sll_path.simps sll_path_append)
  have "remove_search t h f = Some ?z" using remove_search_path [OF f(3), of t] tw by simp
  then show ?thesis
    using f e absent [of f] Cons by (simp add: SOPC_SLinkedList_RemoveFromElt_def)
qed

text \<open>The sorted insertion: in front of the first element that compares greater.\<close>

lemma SOPC_SLinkedList_SortedInsert_ok:
  fixes cmp :: "uintptr \<Rightarrow> uintptr \<Rightarrow> int" and v :: uintptr
  assumes rep: "sll_rep l h as" and room: "sll_room env l" and len: "Suc (length as) < 2 ^ 32"
  defines "n \<equiv> next_addr h"
  defines "P \<equiv> \<lambda>b. cmp v (snd (elt_pair h b)) \<ge> 0"
  defines "bs \<equiv> takeWhile P as @ n # dropWhile P as"
  shows "\<exists>l' h'. SOPC_SLinkedList_SortedInsert env (Some l) i v cmp h = Some (v, Some l', h') \<and> sll_rep l' h' bs \<and>
    elt_pair h' n = (i, v) \<and> (\<forall>a \<in> set as. elt_pair h' a = elt_pair h a) \<and> frame h h' as \<and>
    sl_maxLength l' = sl_maxLength l"
proof -
  from rep obtain r: "sll_path (cells h) (sl_first l) as None" "distinct as"
    "sl_last l = (if as = [] then None else Some (last as))" "unat (sl_length l) = length as" "store_wf h"
    by (rule sll_repE)
  note lenS = length_Suc [OF r(4) len]
  have n: "n \<notin> set as" unfolding n_def by (rule fresh_not_in [OF r(5,1)])
  let ?e = "\<lparr>elt_id = i, elt_value = v, elt_next = None\<rparr>"
  define h1 where "h1 = \<lparr>cells = (cells h)(n \<mapsto> ?e), next_addr = next_addr h + 1\<rparr>"
  have create: "elt_create env l ?e h = (Some n, h1)" using room by (simp add: elt_create_room h1_def n_def)
  have wf1: "store_wf h1" using r(5) by (simp add: store_wf_def h1_def n_def)
  have path1: "sll_path (cells h1) (sl_first l) as None" using r(1) n by (simp add: h1_def)
  have pair1: "elt_pair h1 a = elt_pair h a" if "a \<in> set as" for a
    using that n by (auto simp: elt_pair_def h1_def)
  have twP: "takeWhile (\<lambda>b. cmp v (snd (elt_pair h1 b)) \<ge> 0) zs = takeWhile P zs" if "set zs \<subseteq> set as" for zs
    using that pair1 by (intro takeWhile_cong) (auto simp: P_def)
  show ?thesis
  proof (cases as)
    case Nil
    let ?l = "l\<lparr>sl_first := Some n, sl_last := Some n, sl_length := sl_length l + 1\<rparr>"
    have "sl_length l = 0" using r(4) Nil by (simp add: unat_eq_0)
    then have "SOPC_SLinkedList_SortedInsert env (Some l) i v cmp h = Some (v, Some ?l, h1)"
      using r(1,3) Nil create by (simp add: SOPC_SLinkedList_SortedInsert_def)
    moreover have "sll_rep ?l h1 bs" using Nil lenS wf1 by (simp add: sll_rep_def bs_def h1_def)
    ultimately show ?thesis using Nil by (auto simp: frame_def h1_def n_def elt_pair_def)
  next
    case (Cons f fs)
    have f: "sl_first l = Some f" using r(1) Cons by simp
    obtain ef where ef: "cells h1 f = Some ef" using path1 Cons by auto
    have vf: "elt_value ef = snd (elt_pair h f)" using ef pair1 [of f] Cons by (simp add: elt_pair_def)
    show ?thesis
    proof (cases "P f")
      case False
      let ?h = "h1\<lparr>cells := (cells h1)(n \<mapsto> ?e\<lparr>elt_next := Some f\<rparr>)\<rparr>"
      let ?l = "l\<lparr>sl_length := sl_length l + 1, sl_first := Some n\<rparr>"
      have bs: "bs = n # as" using False Cons by (simp add: bs_def)
      have "SOPC_SLinkedList_SortedInsert env (Some l) i v cmp h = Some (v, Some ?l, ?h)"
        using create f ef vf False by (simp add: SOPC_SLinkedList_SortedInsert_def P_def set_next_def h1_def not_le)
      moreover have "sll_rep ?l ?h bs"
        using r n lenS wf1 Cons path1 f by (auto simp: sll_rep_def bs store_wf_def h1_def)
      ultimately show ?thesis using n by (auto simp: frame_def h1_def n_def elt_pair_def)
    next
      case True
      obtain xs a where xs: "takeWhile P as = xs @ [a]"
        using True Cons by (cases "takeWhile P as" rule: rev_cases) auto
      define ys where "ys = dropWhile P as"
      have as: "as = xs @ a # ys" using takeWhile_dropWhile_id [of P as] xs by (simp add: ys_def)
      have "set fs \<subseteq> set as" using Cons by auto
      note tw = twP [OF this]
      have "last (f # takeWhile P fs) = a" using xs True Cons by (metis last_snoc takeWhile.simps(2))
      then have search: "sorted_search cmp v h1 f = Some a"
        using sorted_search_path [of h1 f fs cmp v] path1 f Cons unfolding tw by simp
      obtain e where e: "cells h1 a = Some e" "sll_path (cells h1) (elt_next e) ys None"
        using path1 as by (auto simp: sll_path_append)
      have na: "n \<noteq> a" using n as by auto
      let ?h = "h1\<lparr>cells := (cells h1)(n \<mapsto> ?e\<lparr>elt_next := elt_next e\<rparr>, a \<mapsto> e\<lparr>elt_next := Some n\<rparr>)\<rparr>"
      let ?l = "l\<lparr>sl_length := sl_length l + 1, sl_last := (if ys = [] then Some n else sl_last l)\<rparr>"
      have nxt: "elt_next e = None \<longleftrightarrow> ys = []" using e(2) by (cases ys) auto
      have last: "ys = [] \<Longrightarrow> sl_last l = Some a" using r(3) as by auto
      have same: "ys = [] \<Longrightarrow> ?e\<lparr>elt_next := elt_next e\<rparr> = ?e" using nxt by simp
      have run: "SOPC_SLinkedList_SortedInsert env (Some l) i v cmp h = Some (v, Some ?l, ?h)"
      proof (cases ys)
        case Nil
        then show ?thesis
          using create f ef vf True search e(1) na nxt last same
          by (simp add: SOPC_SLinkedList_SortedInsert_def P_def set_next_def h1_def fun_upd_twist)
      next
        case (Cons y ys')
        then have "elt_next e = Some y" using e(2) by simp
        then show ?thesis
          using create f ef vf True search e(1) na Cons
          by (simp add: SOPC_SLinkedList_SortedInsert_def P_def set_next_def h1_def)
      qed
      have bs: "bs = xs @ a # n # ys" using xs by (simp add: bs_def ys_def)
      have "sll_path (cells ?h) (sl_first l) bs None"
        using path_insert_after [of "cells h1" "sl_first l" xs a ys n e "?e\<lparr>elt_next := elt_next e\<rparr>"] path1 r(2) n e(1) as
        by (simp add: bs)
      then have "sll_rep ?l ?h bs"
        using r n lenS wf1 na path_below [OF r(5,1), of a] by (auto simp: sll_rep_def bs as store_wf_def h1_def n_def)
      moreover have "elt_pair ?h n = (i, v)" using na by (simp add: elt_pair_def)
      moreover have "\<forall>b \<in> set as. elt_pair ?h b = elt_pair h b"
        using n e(1) na by (auto simp: elt_pair_def h1_def)
      moreover have "frame h ?h as" using as by (auto simp: frame_def h1_def n_def)
      ultimately show ?thesis using run by auto
    qed
  qed
qed

text \<open>Clearing frees every cell of the list and no other.\<close>

lemma clear_loop_path:
  assumes "sll_path (cells h) p as None" "distinct as"
  shows "clear_loop p h = Some (h\<lparr>cells := (\<lambda>a. if a \<in> set as then None else cells h a)\<rparr>)"
  using assms
proof (induction as arbitrary: p h)
  case Nil
  then show ?case by (subst clear_loop.simps) simp
next
  case (Cons a as)
  then obtain e where e: "p = Some a" "cells h a = Some e" "sll_path (cells h) (elt_next e) as None" by auto
  let ?h = "h\<lparr>cells := (cells h)(a := None)\<rparr>"
  have path: "sll_path (cells ?h) (elt_next e) as None" using e(3) Cons.prems(2) by simp
  have dist: "distinct as" using Cons.prems(2) by simp
  have "clear_loop (elt_next e) ?h = Some (?h\<lparr>cells := (\<lambda>b. if b \<in> set as then None else cells ?h b)\<rparr>)"
    by (rule Cons.IH [OF path dist])
  moreover have "(\<lambda>b. if b \<in> set as then None else cells ?h b) = (\<lambda>b. if b \<in> set (a # as) then None else cells h b)"
    by auto
  ultimately show ?case using e by (subst clear_loop.simps) (simp add: elt_free_def)
qed

section \<open>The contract\<close>

text \<open>
  The queue a list implements: the pair of the list and the store. The elements are what
  \<open>SOPC_SLinkedList_Apply\<close> visits.
\<close>

definition sll_inv :: "SOPC_SLinkedList \<times> elt_store \<Rightarrow> bool" where
  "sll_inv q \<longleftrightarrow> (\<exists>as. sll_rep (fst q) (snd q) as) \<and> sl_maxLength (fst q) \<noteq> 0"

definition sll_list :: "SOPC_SLinkedList \<times> elt_store \<Rightarrow> (u32 \<times> uintptr) list" where
  "sll_list q = the (SOPC_SLinkedList_Apply (Some (fst q)) (snd q))"

lemma sll_list_rep: "sll_rep l h as \<Longrightarrow> sll_list (l, h) = sll_elems h as"
  by (auto simp: sll_list_def SOPC_SLinkedList_Apply_def sll_rep_def dest: apply_loop_path)

fun sll_step :: "('m) mem_env_scheme \<Rightarrow> (u32 \<times> uintptr) deque_op \<Rightarrow> SOPC_SLinkedList \<times> elt_store \<Rightarrow>
    (uintptr \<times> SOPC_SLinkedList \<times> elt_store) option" where
  "sll_step env (Append_op (i, v)) (l, h) = do {
     (r, l, h) \<leftarrow> SOPC_SLinkedList_Append env (Some l) i v h; l \<leftarrow> l; Some (r, l, h) }"
| "sll_step env (Prepend_op (i, v)) (l, h) = do {
     let (r, l, h) = SOPC_SLinkedList_Prepend env (Some l) i v h; l \<leftarrow> l; Some (r, l, h) }"
| "sll_step env PopHead_op (l, h) = do {
     (r, l, h) \<leftarrow> SOPC_SLinkedList_PopHead (Some l) h; l \<leftarrow> l; Some (r, l, h) }"
| "sll_step env PopLast_op (l, h) = do {
     (r, l, h) \<leftarrow> SOPC_SLinkedList_PopLast (Some l) h; l \<leftarrow> l; Some (r, l, h) }"

lemma sll_room_cap:
  assumes "sll_rep l h as" "sl_maxLength l \<noteq> 0"
  shows "sll_room env l \<longleftrightarrow> mem_ok env sizeof_SOPC_SLinkedList_Elt \<and> length as < unat (sl_maxLength l)"
  using assms by (auto simp: sll_room_def sll_rep_def word_less_nat_alt)

lemma sll_push_ok:
  assumes rep: "sll_rep l h as" and max: "sl_maxLength l \<noteq> 0" and room: "sll_room env l" and v: "v \<noteq> 0"
  shows "\<exists>l' h'. SOPC_SLinkedList_Append env (Some l) i v h = Some (v, Some l', h') \<and> sll_inv (l', h') \<and>
      sl_maxLength l' = sl_maxLength l \<and> sll_list (l', h') = sll_list (l, h) @ [(i, v)]"
    and "\<exists>l' h'. SOPC_SLinkedList_Prepend env (Some l) i v h = (v, Some l', h') \<and> sll_inv (l', h') \<and>
      sl_maxLength l' = sl_maxLength l \<and> sll_list (l', h') = (i, v) # sll_list (l, h)"
proof -
  have len: "Suc (length as) < 2 ^ 32"
    using sll_room_cap [OF rep max, of env] room unat_lt_u32 [of "sl_maxLength l"] by simp
  show "\<exists>l' h'. SOPC_SLinkedList_Append env (Some l) i v h = Some (v, Some l', h') \<and> sll_inv (l', h') \<and>
      sl_maxLength l' = sl_maxLength l \<and> sll_list (l', h') = sll_list (l, h) @ [(i, v)]"
    using SOPC_SLinkedList_Append_ok [OF rep v room len, of i] max sll_list_rep [OF rep]
    by (auto simp: sll_inv_def sll_list_rep)
  show "\<exists>l' h'. SOPC_SLinkedList_Prepend env (Some l) i v h = (v, Some l', h') \<and> sll_inv (l', h') \<and>
      sl_maxLength l' = sl_maxLength l \<and> sll_list (l', h') = (i, v) # sll_list (l, h)"
    using SOPC_SLinkedList_Prepend_ok [OF rep v room len, of i] max sll_list_rep [OF rep]
    by (auto simp: sll_inv_def sll_list_rep)
qed

lemma sll_pop_last_ok:
  assumes rep: "sll_rep l h (xs @ [b])"
  shows "\<exists>l' h'. SOPC_SLinkedList_PopLast (Some l) h = Some (snd (elt_pair h b), Some l', h') \<and> sll_rep l' h' xs \<and>
    sll_elems h' xs = sll_elems h xs \<and> sl_maxLength l' = sl_maxLength l"
proof -
  have last: "sl_last l = Some b" and d: "b \<notin> set xs" using rep by (auto simp: sll_rep_def)
  obtain l' h' where "SOPC_SLinkedList_RemoveFromElt l (\<lambda>a e. a = b) h = Some (snd (elt_pair h b), l', h')"
    "sll_rep l' h' (xs @ [])" "sll_elems h' (xs @ []) = sll_elems h (xs @ [])" "sl_maxLength l' = sl_maxLength l"
    using SOPC_SLinkedList_RemoveFromElt_found [OF rep, of "\<lambda>a e. a = b"] d by blast
  then show ?thesis using last by (simp add: SOPC_SLinkedList_PopLast_def)
qed

interpretation sll: bounded_deque sll_inv sll_list "\<lambda>q. unat (sl_maxLength (fst q))"
    "mem_ok env sizeof_SOPC_SLinkedList_Elt" snd "sll_step env" for env :: "('m) mem_env_scheme"
proof
  fix q op
  assume inv: "sll_inv q"
  obtain l h as where q: "q = (l, h)" and rep: "sll_rep l h as" and max: "sl_maxLength l \<noteq> 0"
    using inv by (cases q) (auto simp: sll_inv_def)
  note list = sll_list_rep [OF rep]
  let ?ok = "mem_ok env sizeof_SOPC_SLinkedList_Elt"
  have push: "list_push ?ok (unat (sl_maxLength l)) snd (i, v) (sll_list (l, h)) \<longleftrightarrow> v \<noteq> 0 \<and> sll_room env l" for i v
    using sll_room_cap [OF rep max, of env] by (auto simp: list_push_def list sll_elems_def)
  have keep: "sll_inv (l, h)" using inv q by simp
  show "\<exists>q'. sll_step env op q =
        Some (fst (list_step ?ok (unat (sl_maxLength (fst q))) snd op (sll_list q)), q') \<and> sll_inv q' \<and>
      unat (sl_maxLength (fst q')) = unat (sl_maxLength (fst q)) \<and>
      sll_list q' = snd (list_step ?ok (unat (sl_maxLength (fst q))) snd op (sll_list q))"
  proof (cases op)
    case (Append_op e)
    obtain i v where e: "e = (i, v)" by (cases e)
    show ?thesis
      using sll_push_ok(1) [OF rep max, of env v i] insertion_refused(2) [of env l i v h] zero_refused(2) [of env l i h] keep
      by (cases "v \<noteq> 0 \<and> sll_room env l") (auto simp: q Append_op e push)
  next
    case (Prepend_op e)
    obtain i v where e: "e = (i, v)" by (cases e)
    show ?thesis
      using sll_push_ok(2) [OF rep max, of env v i] insertion_refused(1) [of env l i v h] zero_refused(1) [of env l i h] keep
      by (cases "v \<noteq> 0 \<and> sll_room env l") (auto simp: q Prepend_op e push)
  next
    case PopHead_op
    show ?thesis
    proof (cases as)
      case Nil
      then show ?thesis
        using rep keep list by (auto simp: q PopHead_op SOPC_SLinkedList_PopHead_def sll_rep_def sll_elems_def)
    next
      case (Cons a bs)
      then show ?thesis
        using SOPC_SLinkedList_PopHead_ok [of l h a bs] rep max list
        by (auto simp: q PopHead_op sll_inv_def sll_list_rep sll_elems_def)
    qed
  next
    case PopLast_op
    show ?thesis
    proof (cases as rule: rev_cases)
      case Nil
      then show ?thesis
        using rep keep list by (auto simp: q PopLast_op SOPC_SLinkedList_PopLast_def sll_rep_def sll_elems_def)
    next
      case (snoc bs a)
      then show ?thesis
        using sll_pop_last_ok [of l h bs a] rep max list
        by (auto simp: q PopLast_op sll_inv_def sll_list_rep sll_elems_def)
    qed
  qed
qed

end
