(* ===== verification/Queue_Properties.thy ===== *)
theory Queue_Properties
  imports Circular_Queue_Laws SLinkedList_Laws
begin

text \<open>
  The properties of the circular queue, of the auto-growing queue and of the linked list that their
  clients rely on: any history of calls answers as a bounded list does, and the operations in the middle
  of the sequence are the ones on lists.
\<close>

section \<open>Creation\<close>

lemma create_cq:
  assumes "SOPC_CircularQueue_Create env n = Some q"
  shows "cq_wf q" "cq_list q = []" "unat (q_maxLength q) = n"
proof -
  have n: "0 < n" "n \<le> unat (-1 :: u32)"
    and q: "q = \<lparr>q_slots = replicate n 0, q_head = 0, q_length = 0, q_maxLength = of_nat n, q_allocatedCap = of_nat n\<rparr>"
    using assms by (auto simp: SOPC_CircularQueue_Create_def split: if_splits)
  have u: "unat (of_nat n :: u32) = n" using n(2) by (intro unat_of_nat_u32) (simp add: unat_max_u32)
  show "cq_wf q" "cq_list q = []" "unat (q_maxLength q) = n"
    using n u by (simp_all add: q cq_wf_def cq_list_def ring_list_def)
qed

lemma apply_cq: "cq_wf q \<Longrightarrow> SOPC_CircularQueue_Apply (Some q) = Some (cq_list q)"
  using Apply_loop_list [of q 0] by (auto simp: SOPC_CircularQueue_Apply_def cq_list_def ring_list_def)

lemma create_sll:
  assumes "SOPC_SLinkedList_Create env n = Some l" "0 < n"
  shows "sll_inv (l, store_init)" "sll_list (l, store_init) = []" "unat (sl_maxLength l) = n"
proof -
  have n: "n \<le> unat (-1 :: u32)"
    and l: "l = \<lparr>sl_first = None, sl_last = None, sl_length = 0, sl_maxLength = of_nat n\<rparr>"
    using assms by (auto simp: SOPC_SLinkedList_Create_def split: if_splits)
  have u: "unat (of_nat n :: u32) = n" using n by (intro unat_of_nat_u32) (simp add: unat_max_u32)
  then show max: "unat (sl_maxLength l) = n" by (simp add: l)
  have rep: "sll_rep l store_init []" by (simp add: l sll_rep_def store_wf_def store_init_def)
  have "sl_maxLength l \<noteq> 0" using max assms(2) by auto
  then show "sll_inv (l, store_init)" using rep by (auto simp: sll_inv_def)
  show "sll_list (l, store_init) = []" using sll_list_rep [OF rep] by (simp add: sll_elems_def)
qed

lemma apply_sll: "sll_inv q \<Longrightarrow> SOPC_SLinkedList_Apply (Some (fst q)) (snd q) = Some (sll_list q)"
  by (auto simp: sll_inv_def sll_list_def SOPC_SLinkedList_Apply_def sll_rep_def dest: apply_loop_path)

section \<open>Histories of calls\<close>

text \<open>
  C36: a circular queue created for \<open>n\<close> elements and driven by any history of \<open>Append\<close>, \<open>Prepend\<close>,
  \<open>PopHead\<close> and \<open>PopLast\<close> calls never accesses a slot outside of its array, returns at each call what a
  list bounded by \<open>n\<close> returns (0 for the value 0, for a full and for an empty queue), and
  \<open>SOPC_CircularQueue_Apply\<close> then visits that list in order, whatever the wrap-around of the ring.
\<close>
theorem circular_queue_history:
  assumes "SOPC_CircularQueue_Create env n = Some q"
  shows "\<exists>q'. queue_run cq_step ops q = Some (fst (list_run True n (\<lambda>v. v) ops []), q') \<and>
    SOPC_CircularQueue_Apply (Some q') = Some (snd (list_run True n (\<lambda>v. v) ops []))"
  using cq.run_refines [OF create_cq(1) [OF assms], of ops] apply_cq
  by (auto simp: create_cq(2,3) [OF assms])

definition demo_cq :: SOPC_CircularQueue where
  "demo_cq = \<lparr>q_slots = [0, 0], q_head = 0, q_length = 0, q_maxLength = 2, q_allocatedCap = 2\<rparr>"

lemma demo_cq_create: "SOPC_CircularQueue_Create demo_mem 2 = Some demo_cq"
proof -
  have "replicate 2 (0 :: uintptr) = [0, 0]" by (simp add: numeral_2_eq_2)
  then show ?thesis by (simp add: SOPC_CircularQueue_Create_def demo_mem_def demo_cq_def unat_max_u32)
qed

theorem circular_queue_history_witness:
  "\<exists>q'. queue_run cq_step [Append_op 5, Append_op 6, PopHead_op, Append_op 7, Append_op 8] demo_cq =
      Some ([5, 6, 5, 7, 0], q') \<and> SOPC_CircularQueue_Apply (Some q') = Some [6, 7]"
  using circular_queue_history [OF demo_cq_create, of "[Append_op 5, Append_op 6, PopHead_op, Append_op 7, Append_op 8]"]
  by (simp add: list_push_def)

text \<open>
  C37: a linked list created for \<open>n > 0\<close> elements in an empty store and driven by any history of insertions
  at both ends and removals at both ends never accesses a cell that is not allocated, never loops, returns
  at each call what a bounded list of (identifier, value) pairs returns, and \<open>SOPC_SLinkedList_Apply\<close> then
  visits that list in order. When the allocation of a cell fails every insertion is refused.
\<close>
theorem linked_list_history:
  assumes "SOPC_SLinkedList_Create env n = Some l" "0 < n"
  shows "\<exists>l' h'. queue_run (sll_step env) ops (l, store_init) =
      Some (fst (list_run (mem_ok env sizeof_SOPC_SLinkedList_Elt) n snd ops []), (l', h')) \<and>
    SOPC_SLinkedList_Apply (Some l') h' = Some (snd (list_run (mem_ok env sizeof_SOPC_SLinkedList_Elt) n snd ops []))"
  using sll.run_refines [OF create_sll(1) [OF assms], of env ops] apply_sll
  by (fastforce simp: create_sll(2,3) [OF assms])

theorem linked_list_history_witness:
  "\<exists>l' h'. queue_run (sll_step demo_mem) [Append_op (1, 5), Prepend_op (2, 6), PopLast_op, Append_op (3, 7), Append_op (4, 8)]
      (\<lparr>sl_first = None, sl_last = None, sl_length = 0, sl_maxLength = 2\<rparr>, store_init) =
      Some ([5, 6, 5, 7, 0], (l', h')) \<and> SOPC_SLinkedList_Apply (Some l') h' = Some [(2, 6), (3, 7)]"
proof -
  have "SOPC_SLinkedList_Create demo_mem 2 =
      Some \<lparr>sl_first = None, sl_last = None, sl_length = 0, sl_maxLength = 2\<rparr>"
    by (simp add: SOPC_SLinkedList_Create_def demo_mem_def unat_max_u32)
  from linked_list_history [OF this, of "[Append_op (1, 5), Prepend_op (2, 6), PopLast_op, Append_op (3, 7), Append_op (4, 8)]"]
  show ?thesis by (simp add: list_push_def demo_mem_def)
qed

section \<open>The circular queue in the middle\<close>

lemma demo_cq_full:
  defines "q \<equiv> \<lparr>q_slots = [7, 5, 6], q_head = 1, q_length = 3, q_maxLength = 3, q_allocatedCap = 3\<rparr>"
  shows "cq_wf q" "cq_list q = [5, 6, 7]"
  unfolding q_def by code_simp+

text \<open>
  In a queue that satisfies its invariant, \<open>SOPC_CircularQueue_RemoveAt\<close> of an index in the queue
  returns the element there and leaves the others in their order, also when the shifted part wraps around
  the end of the array; for another index it returns 0 and changes nothing.
\<close>
theorem circular_queue_remove_at:
  assumes "cq_wf q"
  shows "\<exists>q'. SOPC_CircularQueue_RemoveAt (Some q) i =
      Some (if unat i < length (cq_list q) then cq_list q ! unat i else 0, Some q') \<and> cq_wf q' \<and>
    q_maxLength q' = q_maxLength q \<and> cq_list q' = take (unat i) (cq_list q) @ drop (Suc (unat i)) (cq_list q)"
proof (cases "unat i < unat (q_length q)")
  case True
  then show ?thesis using SOPC_CircularQueue_RemoveAt_ok [OF assms True] by simp
next
  case False
  then show ?thesis using assms by (simp add: SOPC_CircularQueue_RemoveAt_def word_le_nat_alt)
qed

theorem circular_queue_remove_at_witness:
  "\<exists>q'. SOPC_CircularQueue_RemoveAt
      (Some \<lparr>q_slots = [7, 5, 6], q_head = 1, q_length = 3, q_maxLength = 3, q_allocatedCap = 3\<rparr>) 1 =
      Some (6, Some q') \<and> cq_wf q' \<and> q_maxLength q' = 3 \<and> cq_list q' = [5, 7]"
  using circular_queue_remove_at [OF demo_cq_full(1), of 1] by (simp add: demo_cq_full(2))

section \<open>The auto-growing queue\<close>

text \<open>Appends in a row, each of which must succeed.\<close>

fun autogrow_appends :: "('e) mem_env_scheme \<Rightarrow> uintptr list \<Rightarrow> SOPC_CircularQueue \<Rightarrow> SOPC_CircularQueue option" where
  "autogrow_appends env [] q = Some q"
| "autogrow_appends env (v # vs) q = do {
     (r, q) \<leftarrow> SOPC_CircularQueueAutoGrow_Append env (Some q) v;
     q \<leftarrow> q;
     if r = v then autogrow_appends env vs q else None }"

lemma autogrow_appends_ok:
  assumes "cq_wf q" "mem_total env" "0 < unat (q_maxLength q)" "0 \<notin> set vs"
    "unat (q_length q) + length vs < 2 ^ 32"
  shows "\<exists>q'. autogrow_appends env vs q = Some q' \<and> cq_wf q' \<and> cq_list q' = cq_list q @ vs"
  using assms
proof (induction vs arbitrary: q)
  case (Cons v vs)
  have room: "unat (q_length q) < unat (-1 :: u32)" and v: "v \<noteq> 0" using Cons.prems by (auto simp: unat_max_u32)
  obtain q1 where q1: "SOPC_CircularQueueAutoGrow_Append env (Some q) v = Some (v, Some q1)" "cq_wf q1"
    "cq_list q1 = cq_list q @ [v]" "0 < unat (q_maxLength q1)"
    using SOPC_CircularQueueAutoGrow_Append_ok [OF Cons.prems(1,2) v room Cons.prems(3)] by blast
  have "unat (q_length q1) = Suc (unat (q_length q))"
    using arg_cong [OF q1(3), of length] by simp
  then obtain q2 where "autogrow_appends env vs q1 = Some q2" "cq_wf q2" "cq_list q2 = cq_list q1 @ vs"
    using Cons.IH [OF q1(2) Cons.prems(2) q1(4)] Cons.prems(4,5) by auto
  then show ?case using q1 by simp
qed simp

text \<open>
  C38: with memory available, the auto-growing queue accepts every sequence of non-zero values as long as
  their number stays below \<open>UINT32_MAX\<close>, growing its array as needed: it ends with exactly these values
  behind the ones it had, and removing a value afterwards removes its first occurrence and nothing else.
\<close>
theorem autogrow_queue_keeps_all:
  assumes "SOPC_CircularQueue_Create env n = Some q" "mem_total env" "0 \<notin> set vs" "length vs < 2 ^ 32" "v \<noteq> 0"
  shows "\<exists>q1 q2. autogrow_appends env vs q = Some q1 \<and>
    SOPC_CircularQueue_Apply (Some q1) = Some vs \<and>
    SOPC_CircularQueueAutoGrow_RemoveValue (Some q1) v = Some (if v \<in> set vs then v else 0, Some q2) \<and>
    SOPC_CircularQueue_Apply (Some q2) = Some (remove1 v vs)"
proof -
  note c = create_cq [OF assms(1)]
  have pos: "0 < unat (q_maxLength q)"
    using assms(1) c(3) by (auto simp: SOPC_CircularQueue_Create_def split: if_splits)
  have len: "unat (q_length q) = 0" using c(2) length_cq_list [of q] by simp
  obtain q1 where q1: "autogrow_appends env vs q = Some q1" "cq_wf q1" "cq_list q1 = vs"
    using autogrow_appends_ok [OF c(1) assms(2) pos assms(3)] assms(4) len c(2) by auto
  then show ?thesis
    using RemoveValue_loop_ok [OF q1(2), of v 0] assms(5) apply_cq
    by (auto simp: SOPC_CircularQueueAutoGrow_RemoveValue_def)
qed

theorem autogrow_queue_keeps_all_witness:
  "\<exists>q1 q2. autogrow_appends demo_mem [5, 6, 7, 6] demo_cq = Some q1 \<and>
    SOPC_CircularQueue_Apply (Some q1) = Some [5, 6, 7, 6] \<and>
    SOPC_CircularQueueAutoGrow_RemoveValue (Some q1) 6 = Some (6, Some q2) \<and>
    SOPC_CircularQueue_Apply (Some q2) = Some [5, 7, 6]"
  using autogrow_queue_keeps_all [OF demo_cq_create demo_mem_total, of "[5, 6, 7, 6]" 6] by simp

section \<open>The linked list in the middle\<close>

lemma sll_elems_find:
  "map_option (elt_pair h) (find (\<lambda>a. fst (elt_pair h a) = i) as) = find (\<lambda>p. fst p = i) (sll_elems h as)"
  by (induction as) (auto simp: sll_elems_def)

text \<open>The list without the first pair of a given identifier.\<close>

fun remove_id :: "u32 \<Rightarrow> (u32 \<times> uintptr) list \<Rightarrow> (u32 \<times> uintptr) list" where
  "remove_id i [] = []"
| "remove_id i (p # ps) = (if fst p = i then ps else p # remove_id i ps)"

definition value_of_id :: "u32 \<Rightarrow> (u32 \<times> uintptr) list \<Rightarrow> uintptr" where
  "value_of_id i ps = (case find (\<lambda>p. fst p = i) ps of None \<Rightarrow> 0 | Some p \<Rightarrow> snd p)"

lemma remove_id_split: "i \<notin> fst ` set xs \<Longrightarrow> remove_id i (xs @ ys) = xs @ remove_id i ys"
  by (induction xs) auto

lemma find_split: "i \<notin> fst ` set xs \<Longrightarrow> find (\<lambda>p. fst p = i) (xs @ ys) = find (\<lambda>p. fst p = i) ys"
  by (induction xs) auto

lemma elem_pair_id: "a \<in> set as \<Longrightarrow> elt_id (the (cells h a)) = fst (elt_pair h a)"
  by (simp add: elt_pair_def)

lemma sll_elems_append [simp]: "sll_elems h (as @ bs) = sll_elems h as @ sll_elems h bs"
  by (simp add: sll_elems_def)

text \<open>
  For a well-formed list without bound on what identifiers it holds, \<open>SOPC_SLinkedList_FindFromId\<close>
  answers the value of the first pair with the identifier (0 if there is none), and
  \<open>SOPC_SLinkedList_RemoveFromId\<close> returns the same value and removes exactly that pair; both end, and cells
  outside of the list stay as they were.
\<close>
theorem linked_list_remove_from_id:
  assumes "sll_rep l h as"
  shows "SOPC_SLinkedList_FindFromId (Some l) i h = Some (value_of_id i (sll_list (l, h))) \<and>
    (\<exists>l' h' as'. SOPC_SLinkedList_RemoveFromId (Some l) i h = Some (value_of_id i (sll_list (l, h)), Some l', h') \<and>
      sll_rep l' h' as' \<and> sll_list (l', h') = remove_id i (sll_list (l, h)) \<and> frame h h' as)"
proof
  let ?found = "value_of_id i (sll_list (l, h))"
  note list = sll_list_rep [OF assms(1)]
  have path: "sll_path (cells h) (sl_first l) as None" using assms(1) by (simp add: sll_rep_def)
  have "map_option (elt_pair h) (find (\<lambda>a. fst (elt_pair h a) = i) as) = find (\<lambda>p. fst p = i) (sll_list (l, h))"
    unfolding list by (rule sll_elems_find)
  moreover have "\<exists>e. cells h a = Some e" if "find (\<lambda>a. fst (elt_pair h a) = i) as = Some a" for a
    using that sll_path_allocated [OF path] by (auto simp: find_Some_iff)
  ultimately show "SOPC_SLinkedList_FindFromId (Some l) i h = Some ?found"
    by (auto simp: SOPC_SLinkedList_FindFromId_def SOPC_SLinkedList_InternalFind_def find_loop_path [OF path]
        value_of_id_def elt_pair_def split: option.splits)
  let ?t = "\<lambda>a e. elt_id e = i"
  show "\<exists>l' h' as'. SOPC_SLinkedList_RemoveFromId (Some l) i h = Some (?found, Some l', h') \<and> sll_rep l' h' as' \<and>
      sll_list (l', h') = remove_id i (sll_list (l, h)) \<and> frame h h' as"
  proof (cases "\<exists>a \<in> set as. ?t a (the (cells h a))")
    case False
    then have none: "i \<notin> fst ` set (sll_list (l, h))" by (auto simp: list sll_elems_def elt_pair_def)
    have "SOPC_SLinkedList_RemoveFromElt l ?t h = Some (0, l, h)"
      using False by (intro SOPC_SLinkedList_RemoveFromElt_absent [OF assms(1)]) auto
    moreover have "?found = 0" "remove_id i (sll_list (l, h)) = sll_list (l, h)"
      using remove_id_split [OF none, of "[]"] find_split [OF none, of "[]"] by (simp_all add: value_of_id_def)
    ultimately show ?thesis
      using assms(1) by (intro exI [of _ l] exI [of _ h] exI [of _ as]) (simp add: SOPC_SLinkedList_RemoveFromId_def)
  next
    case True
    then obtain xs b ys where s: "as = xs @ b # ys" "?t b (the (cells h b))"
      "\<forall>a \<in> set xs. \<not> ?t a (the (cells h a))" by (rule split_list_first_propE [where P = "\<lambda>a. ?t a (the (cells h a))"])
    have rep: "sll_rep l h (xs @ b # ys)" using assms(1) s(1) by simp
    obtain l' h' where r: "SOPC_SLinkedList_RemoveFromElt l ?t h = Some (snd (elt_pair h b), l', h')"
      "sll_rep l' h' (xs @ ys)" "sll_elems h' (xs @ ys) = sll_elems h (xs @ ys)" "frame h h' (xs @ b # ys)"
      using SOPC_SLinkedList_RemoveFromElt_found [OF rep, of ?t] s(2,3) by blast
    have none: "i \<notin> fst ` set (sll_elems h xs)" using s(3) by (auto simp: sll_elems_def elt_pair_def)
    have id: "fst (elt_pair h b) = i" using s(2) by (simp add: elt_pair_def)
    have el: "sll_list (l, h) = sll_elems h xs @ elt_pair h b # sll_elems h ys" by (simp add: list s(1) sll_elems_def)
    have "?found = snd (elt_pair h b)" "remove_id i (sll_list (l, h)) = sll_elems h xs @ sll_elems h ys"
      using remove_id_split [OF none] find_split [OF none] id by (simp_all add: value_of_id_def el)
    then show ?thesis
      using r sll_list_rep [OF r(2)] s(1)
      by (intro exI [of _ l'] exI [of _ h'] exI [of _ "xs @ ys"]) (simp add: SOPC_SLinkedList_RemoveFromId_def)
  qed
qed

text \<open>A list of two cells used by the witnesses.\<close>

definition demo_store :: elt_store where
  "demo_store = \<lparr>cells = [0 \<mapsto> \<lparr>elt_id = 1, elt_value = 5, elt_next = Some 1\<rparr>,
     1 \<mapsto> \<lparr>elt_id = 2, elt_value = 8, elt_next = None\<rparr>], next_addr = 2\<rparr>"

definition demo_sll :: SOPC_SLinkedList where
  "demo_sll = \<lparr>sl_first = Some 0, sl_last = Some 1, sl_length = 2, sl_maxLength = 0\<rparr>"

lemma demo_sll_rep: "sll_rep demo_sll demo_store [0, 1]"
  by (simp add: sll_rep_def demo_sll_def demo_store_def store_wf_def)

lemma demo_sll_list: "sll_list (demo_sll, demo_store) = [(1, 5), (2, 8)]"
  unfolding sll_list_rep [OF demo_sll_rep] by (simp add: sll_elems_def elt_pair_def demo_store_def)

theorem linked_list_remove_from_id_witness:
  "SOPC_SLinkedList_FindFromId (Some demo_sll) 2 demo_store = Some 8 \<and>
   (\<exists>l' h' as'. SOPC_SLinkedList_RemoveFromId (Some demo_sll) 2 demo_store = Some (8, Some l', h') \<and>
      sll_rep l' h' as' \<and> sll_list (l', h') = [(1, 5)] \<and> frame demo_store h' [0, 1])"
  using linked_list_remove_from_id [OF demo_sll_rep, of 2] by (simp add: demo_sll_list value_of_id_def)

text \<open>
  A comparison function as \<open>SOPC_SLinkedList_SortedInsert\<close> expects it: a total preorder given by signs.
\<close>

definition comparator :: "(uintptr \<Rightarrow> uintptr \<Rightarrow> int) \<Rightarrow> bool" where
  "comparator cmp \<longleftrightarrow> (\<forall>a b. sgn (cmp a b) = - sgn (cmp b a)) \<and>
     (\<forall>a b c. cmp a b \<le> 0 \<longrightarrow> cmp b c \<le> 0 \<longrightarrow> cmp a c \<le> 0)"

abbreviation sorted_by :: "(uintptr \<Rightarrow> uintptr \<Rightarrow> int) \<Rightarrow> (u32 \<times> uintptr) list \<Rightarrow> bool" where
  "sorted_by cmp \<equiv> sorted_wrt (\<lambda>p q. cmp (snd p) (snd q) \<le> 0)"

definition sorted_put :: "(uintptr \<Rightarrow> uintptr \<Rightarrow> int) \<Rightarrow> u32 \<times> uintptr \<Rightarrow> (u32 \<times> uintptr) list \<Rightarrow> (u32 \<times> uintptr) list" where
  "sorted_put cmp p ps = takeWhile (\<lambda>q. cmp (snd p) (snd q) \<ge> 0) ps @ p # dropWhile (\<lambda>q. cmp (snd p) (snd q) \<ge> 0) ps"

lemma comparator_flip: "comparator cmp \<Longrightarrow> cmp a b \<ge> 0 \<longleftrightarrow> cmp b a \<le> 0"
proof -
  assume "comparator cmp"
  then have "sgn (cmp a b) = - sgn (cmp b a)" unfolding comparator_def by blast
  then show ?thesis
    by (cases "cmp a b" "0 :: int" rule: linorder_cases; cases "cmp b a" "0 :: int" rule: linorder_cases) simp_all
qed

lemma sorted_put_sorted:
  assumes cmp: "comparator cmp" and sorted: "sorted_by cmp ps"
  shows "sorted_by cmp (sorted_put cmp p ps)"
proof -
  let ?P = "\<lambda>q. cmp (snd p) (snd q) \<ge> 0"
  have tr: "cmp a c \<le> 0" if "cmp a b \<le> 0" "cmp b c \<le> 0" for a b c
    using cmp that unfolding comparator_def by blast
  have before: "cmp (snd q) (snd p) \<le> 0" if "q \<in> set (takeWhile ?P ps)" for q
    using set_takeWhileD [OF that] comparator_flip [OF cmp] by auto
  have parts: "sorted_by cmp (takeWhile ?P ps @ dropWhile ?P ps)" using sorted by simp
  have after: "cmp (snd p) (snd q) \<le> 0" if "q \<in> set (dropWhile ?P ps)" for q
  proof (cases "dropWhile ?P ps")
    case (Cons r rs)
    then have "cmp (snd p) (snd r) < 0" using hd_dropWhile [of ?P ps] by simp
    moreover have "q = r \<or> cmp (snd r) (snd q) \<le> 0"
      using parts that Cons by (auto simp: sorted_wrt_append)
    ultimately show ?thesis using tr [of "snd p" "snd r" "snd q"] by auto
  next
    case Nil
    then show ?thesis using that by (metis empty_iff list.set(1))
  qed
  show ?thesis
    using parts before after tr by (fastforce simp: sorted_put_def sorted_wrt_append)
qed

lemma takeWhile_elems:
  "takeWhile P (sll_elems h as) = sll_elems h (takeWhile (\<lambda>a. P (elt_pair h a)) as)"
  "dropWhile P (sll_elems h as) = sll_elems h (dropWhile (\<lambda>a. P (elt_pair h a)) as)"
  by (simp_all add: sll_elems_def takeWhile_map dropWhile_map comp_def)

text \<open>
  \<open>SOPC_SLinkedList_SortedInsert\<close> into a well-formed list with room returns the value and puts the pair
  in front of the first element that compares greater, behind the equal ones, leaving the others in place
  and the cells of other lists untouched; a list sorted by a total preorder stays sorted.
\<close>
theorem linked_list_sorted_insert:
  assumes "sll_rep l h as" "sll_room env l" "Suc (length as) < 2 ^ 32"
  shows "\<exists>l' h' as'. SOPC_SLinkedList_SortedInsert env (Some l) i v cmp h = Some (v, Some l', h') \<and> sll_rep l' h' as' \<and>
    sll_list (l', h') = sorted_put cmp (i, v) (sll_list (l, h)) \<and> frame h h' as \<and>
    (comparator cmp \<and> sorted_by cmp (sll_list (l, h)) \<longrightarrow> sorted_by cmp (sll_list (l', h')))"
proof -
  let ?P = "\<lambda>b. cmp v (snd (elt_pair h b)) \<ge> 0"
  let ?as = "takeWhile ?P as @ next_addr h # dropWhile ?P as"
  obtain l' h' where r: "SOPC_SLinkedList_SortedInsert env (Some l) i v cmp h = Some (v, Some l', h')"
    "sll_rep l' h' ?as" "elt_pair h' (next_addr h) = (i, v)" "\<forall>a \<in> set as. elt_pair h' a = elt_pair h a" "frame h h' as"
    using SOPC_SLinkedList_SortedInsert_ok [OF assms, of i v cmp] by blast
  have same: "sll_elems h' bs = sll_elems h bs" if "set bs \<subseteq> set as" for bs
    using r(4) that by (auto simp: sll_elems_def)
  have "sll_elems h' ?as = sll_elems h (takeWhile ?P as) @ (i, v) # sll_elems h (dropWhile ?P as)"
    using same [OF subsetI, OF conjunct1 [OF set_takeWhileD]] same [OF subsetI, OF set_dropWhileD] r(3)
    by (simp add: sll_elems_def)
  then have "sll_list (l', h') = sorted_put cmp (i, v) (sll_list (l, h))"
    by (simp add: sll_list_rep [OF r(2)] sll_list_rep [OF assms(1)] sorted_put_def takeWhile_elems)
  then show ?thesis
    using r(1,2,5) sorted_put_sorted [of cmp "sll_list (l, h)" "(i, v)"]
    by (intro exI [of _ l'] exI [of _ h'] exI [of _ ?as]) simp
qed

theorem linked_list_sorted_insert_witness:
  "\<exists>l' h' as'. SOPC_SLinkedList_SortedInsert demo_mem (Some demo_sll) 3 6 (\<lambda>a b. sgn (uint a - uint b)) demo_store =
      Some (6, Some l', h') \<and> sll_rep l' h' as' \<and> sll_list (l', h') = [(1, 5), (3, 6), (2, 8)] \<and>
    frame demo_store h' [0, 1]"
proof -
  have "sll_room demo_mem demo_sll" by (simp add: sll_room_def demo_mem_def demo_sll_def)
  from linked_list_sorted_insert [OF demo_sll_rep this, of 3 6 "\<lambda>a b. sgn (uint a - uint b)"]
  show ?thesis by (auto simp: demo_sll_list sorted_put_def)
qed

text \<open>
  \<open>SOPC_SLinkedList_Clear\<close> of a well-formed list ends, frees every cell of the list and no other, and
  leaves the list empty; in particular a list on other cells is still well-formed with the same elements.
\<close>
theorem linked_list_clear_frees:
  assumes "sll_rep l h as" "sll_rep l2 h bs" "set as \<inter> set bs = {}"
  shows "\<exists>l' h'. SOPC_SLinkedList_Clear (Some l) h = Some (Some l', h') \<and> sll_rep l' h' [] \<and>
    (\<forall>a. cells h' a = (if a \<in> set as then None else cells h a)) \<and>
    sll_rep l2 h' bs \<and> sll_list (l2, h') = sll_list (l2, h)"
proof -
  let ?h = "h\<lparr>cells := (\<lambda>a. if a \<in> set as then None else cells h a)\<rparr>"
  let ?l = "l\<lparr>sl_first := None, sl_last := None, sl_length := 0\<rparr>"
  have p: "sll_path (cells h) (sl_first l) as None" "distinct as" "store_wf h"
    "sll_path (cells h) (sl_first l2) bs None" using assms by (auto simp: sll_rep_def)
  have run: "SOPC_SLinkedList_Clear (Some l) h = Some (Some ?l, ?h)"
    using clear_loop_path [OF p(1,2)] by (simp add: SOPC_SLinkedList_Clear_def)
  have wf: "store_wf ?h" using p(3) by (simp add: store_wf_def)
  have "frame h ?h as" by (simp add: frame_def)
  from frame_path [OF this p(3,4) assms(3)] have "sll_rep l2 ?h bs" "sll_elems ?h bs = sll_elems h bs"
    using assms(2) wf by (simp_all add: sll_rep_def)
  then show ?thesis
    using run wf sll_list_rep [OF assms(2)] sll_list_rep [of l2 ?h bs]
    by (intro exI [of _ ?l] exI [of _ ?h]) (simp add: sll_rep_def)
qed

theorem linked_list_clear_frees_witness:
  "\<exists>l' h'. SOPC_SLinkedList_Clear (Some demo_sll) demo_store = Some (Some l', h') \<and> sll_rep l' h' [] \<and>
    (\<forall>a. cells h' a = (if a \<in> set [0, 1] then None else cells demo_store a))"
proof -
  have "sll_rep \<lparr>sl_first = None, sl_last = None, sl_length = 0, sl_maxLength = 0\<rparr> demo_store []"
    using demo_sll_rep by (simp add: sll_rep_def)
  from linked_list_clear_frees [OF demo_sll_rep this] show ?thesis by auto
qed

text \<open>
  \<open>SOPC_SLinkedList_SetCapacity\<close> keeps the 32 low bits of the requested capacity, which
  \<open>SOPC_SLinkedList_Create\<close> refuses to truncate: a capacity of \<open>2^32\<close> is accepted and removes the bound, and one
  of \<open>2^32 + 1\<close> is accepted and leaves a bound of one element, even below the current length.
\<close>
theorem linked_list_set_capacity_truncates:
  "SOPC_SLinkedList_Create env (2 ^ 32) = None \<and>
   SOPC_SLinkedList_SetCapacity (Some l) (2 ^ 32) = (True, Some (l\<lparr>sl_maxLength := 0\<rparr>)) \<and>
   SOPC_SLinkedList_SetCapacity (Some l) (2 ^ 32 + 1) = (True, Some (l\<lparr>sl_maxLength := 1\<rparr>))"
proof -
  have "unat (sl_length l) \<le> 2 ^ 32" using unat_lt_u32 [of "sl_length l"] by simp
  moreover have "of_nat (2 ^ 32) = (0 :: u32)" "of_nat (2 ^ 32 + 1) = (1 :: u32)" by simp_all
  ultimately show ?thesis
    unfolding SOPC_SLinkedList_Create_def SOPC_SLinkedList_SetCapacity_def unat_max_u32 by simp
qed

end
