(* ===== verification/Secure_Channel.thy ===== *)
theory Secure_Channel
  imports Codec Deque
begin

text \<open>
  The state of a secure connection as the chunk manager uses it, from
  \<open>src/ClientServer/secure_channels/sopc_secure_channels_internal_ctx.h\<close>, and the operations of
  \<open>sopc_secure_channels_internal_ctx.c\<close> on the chunks of a message in reception.

  Cryptography, the clock, the timers and the configuration tables are a parameter, the environment
  \<open>sc_env\<close>: one function per call of the crypto provider and of the key manager, which answers \<open>None\<close> when
  the call fails (a certificate is an \<open>option\<close> of that, with \<open>None\<close> for \<open>NULL\<close>). The two
  linked lists of the connection are lists here, with the operations of the linked list contract: the
  intermediate chunks (appended and removed at the head) and the requests waiting for an answer.
\<close>

section \<open>Types\<close>

datatype SOPC_Msg_Type =
    SOPC_MSG_TYPE_INVALID
  | SOPC_MSG_TYPE_HEL
  | SOPC_MSG_TYPE_ACK
  | SOPC_MSG_TYPE_ERR
  | SOPC_MSG_TYPE_RHE
  | SOPC_MSG_TYPE_SC_OPN
  | SOPC_MSG_TYPE_SC_CLO
  | SOPC_MSG_TYPE_SC_MSG

datatype SOPC_Msg_IsFinal =
    SOPC_MSG_ISFINAL_INVALID
  | SOPC_MSG_ISFINAL_INTERMEDIATE
  | SOPC_MSG_ISFINAL_FINAL
  | SOPC_MSG_ISFINAL_ABORT

datatype SOPC_SecureConnection_State =
    SECURE_CONNECTION_STATE_SC_CLOSED
  | SECURE_CONNECTION_STATE_SC_CLOSING
  | SECURE_CONNECTION_STATE_TCP_REVERSE_TOKEN
  | SECURE_CONNECTION_STATE_TCP_REVERSE_INIT
  | SECURE_CONNECTION_STATE_TCP_INIT
  | SECURE_CONNECTION_STATE_TCP_NEGOTIATE
  | SECURE_CONNECTION_STATE_SC_INIT
  | SECURE_CONNECTION_STATE_SC_CONNECTING
  | SECURE_CONNECTION_STATE_SC_CONNECTED
  | SECURE_CONNECTION_STATE_SC_CONNECTED_RENEW

datatype OpcUa_MessageSecurityMode =
    OpcUa_MessageSecurityMode_Invalid
  | OpcUa_MessageSecurityMode_None
  | OpcUa_MessageSecurityMode_Sign
  | OpcUa_MessageSecurityMode_SignAndEncrypt

record SOPC_SentRequestMsg_Context =
  timeoutExpired :: bool
  scConnectionIdx :: u32
  requestHandle :: u32
  msgType :: SOPC_Msg_Type
  timerId :: u32

record SOPC_SecureConnection_ChunkMgrCtx =
  currentChunkInputBuffer :: bufp
  currentMsgSize :: u32
  currentMsgType :: SOPC_Msg_Type
  currentMsgIsFinal :: SOPC_Msg_IsFinal
  intermediateChunksInputBuffers :: "SOPC_Buffer list option"
  hasCurrentMsgRequestId :: bool
  currentMsgRequestId :: u32
  currentMessageInputBuffer :: bufp

record SOPC_SecureConnection_TcpProperties =
  protocolVersion :: u32
  receiveBufferSize :: u32
  sendBufferSize :: u32
  receiveMaxMessageSize :: u32
  sendMaxMessageSize :: u32
  receiveMaxChunkCount :: u32
  sendMaxChunkCount :: u32

record SOPC_SecureConnection_TcpSequenceProperties =
  lastSNsent :: u32
  lastSNreceived :: u32
  sentRequestIds :: "(u32 \<times> SOPC_SentRequestMsg_Context) list"

record SOPC_SecureConnection_SecurityToken =
  secureChannelId :: u32
  tokenId :: u32
  createdAt :: i64
  lifetimeEndTimeRef :: u64
  revisedLifetime :: u32

record SOPC_SC_SecurityKeySet =
  signKey :: "byte list"
  encryptKey :: "byte list"
  initVector :: "byte list"

record SOPC_SC_SecurityKeySets =
  senderKeySet :: "SOPC_SC_SecurityKeySet option"
  receiverKeySet :: "SOPC_SC_SecurityKeySet option"

text \<open>The fields of a connection that the chunk manager reads or writes.\<close>

record SOPC_SecureConnection =
  chunksCtx :: SOPC_SecureConnection_ChunkMgrCtx
  tcpSeqProperties :: SOPC_SecureConnection_TcpSequenceProperties
  asymmSecuMaxBodySize :: u32
  symmSecuMaxBodySize :: u32
  hasExtraPaddingSize :: bool
  clientSecureChannelId :: u32
  clientNextReqId :: u32
  sc_state :: SOPC_SecureConnection_State
  secureChannelConfigIdx :: u32
  tcpMsgProperties :: SOPC_SecureConnection_TcpProperties
  precedentSecurityToken :: SOPC_SecureConnection_SecurityToken
  precedentSecuKeySets :: SOPC_SC_SecurityKeySets
  currentSecurityToken :: SOPC_SecureConnection_SecurityToken
  currentSecuKeySets :: SOPC_SC_SecurityKeySets
  serverNewSecuTokenActive :: bool
  isServerConnection :: bool
  has_privateKey :: bool

text \<open>Status codes of \<open>opcua_statuscodes.h\<close> that the chunk manager reports.\<close>

type_synonym SOPC_StatusCode = u32

definition SOPC_GoodGenericStatus :: SOPC_StatusCode where "SOPC_GoodGenericStatus = 0x00000000"
definition OpcUa_BadOutOfMemory :: SOPC_StatusCode where "OpcUa_BadOutOfMemory = 0x80030000"
definition OpcUa_BadEncodingError :: SOPC_StatusCode where "OpcUa_BadEncodingError = 0x80060000"
definition OpcUa_BadDecodingError :: SOPC_StatusCode where "OpcUa_BadDecodingError = 0x80070000"
definition OpcUa_BadSecurityChecksFailed :: SOPC_StatusCode where "OpcUa_BadSecurityChecksFailed = 0x80130000"
definition OpcUa_BadTcpMessageTypeInvalid :: SOPC_StatusCode where "OpcUa_BadTcpMessageTypeInvalid = 0x807E0000"
definition OpcUa_BadTcpSecureChannelUnknown :: SOPC_StatusCode where "OpcUa_BadTcpSecureChannelUnknown = 0x807F0000"
definition OpcUa_BadTcpMessageTooLarge :: SOPC_StatusCode where "OpcUa_BadTcpMessageTooLarge = 0x80800000"
definition OpcUa_BadTcpInternalError :: SOPC_StatusCode where "OpcUa_BadTcpInternalError = 0x80820000"
definition OpcUa_BadSecureChannelTokenUnknown :: SOPC_StatusCode where "OpcUa_BadSecureChannelTokenUnknown = 0x80870000"
definition OpcUa_BadInvalidArgument :: SOPC_StatusCode where "OpcUa_BadInvalidArgument = 0x80AB0000"
definition OpcUa_BadRequestTooLarge :: SOPC_StatusCode where "OpcUa_BadRequestTooLarge = 0x80B80000"
definition OpcUa_BadResponseTooLarge :: SOPC_StatusCode where "OpcUa_BadResponseTooLarge = 0x80B90000"

text \<open>Lengths of \<open>sopc_protocol_constants.h\<close>.\<close>

definition SOPC_TCP_UA_HEADER_LENGTH :: u32 where "SOPC_TCP_UA_HEADER_LENGTH = 8"
definition SOPC_UA_HEADER_MESSAGE_SIZE_POSITION :: u32 where "SOPC_UA_HEADER_MESSAGE_SIZE_POSITION = 4"
definition SOPC_UA_SECURE_MESSAGE_HEADER_LENGTH :: u32 where "SOPC_UA_SECURE_MESSAGE_HEADER_LENGTH = 12"
definition SOPC_UA_SYMMETRIC_SECURITY_HEADER_LENGTH :: u32 where "SOPC_UA_SYMMETRIC_SECURITY_HEADER_LENGTH = 4"
definition SOPC_UA_SECURE_MESSAGE_SEQUENCE_LENGTH :: u32 where "SOPC_UA_SECURE_MESSAGE_SEQUENCE_LENGTH = 8"
definition SOPC_UA_SYMMETRIC_SECURE_MESSAGE_HEADERS_LENGTH :: u32 where
  "SOPC_UA_SYMMETRIC_SECURE_MESSAGE_HEADERS_LENGTH =
     SOPC_UA_SECURE_MESSAGE_HEADER_LENGTH + SOPC_UA_SYMMETRIC_SECURITY_HEADER_LENGTH +
     SOPC_UA_SECURE_MESSAGE_SEQUENCE_LENGTH"
definition SOPC_UA_SYMMETRIC_SEQUENCE_HEADER_POSITION :: u32 where
  "SOPC_UA_SYMMETRIC_SEQUENCE_HEADER_POSITION =
     SOPC_UA_SECURE_MESSAGE_HEADER_LENGTH + SOPC_UA_SYMMETRIC_SECURITY_HEADER_LENGTH"

lemmas protocol_lengths = SOPC_TCP_UA_HEADER_LENGTH_def SOPC_UA_HEADER_MESSAGE_SIZE_POSITION_def
  SOPC_UA_SECURE_MESSAGE_HEADER_LENGTH_def SOPC_UA_SYMMETRIC_SECURITY_HEADER_LENGTH_def
  SOPC_UA_SECURE_MESSAGE_SEQUENCE_LENGTH_def SOPC_UA_SYMMETRIC_SECURE_MESSAGE_HEADERS_LENGTH_def
  SOPC_UA_SYMMETRIC_SEQUENCE_HEADER_POSITION_def

section \<open>The environment of a connection\<close>

record sc_env =
  sc_enc :: enc_env
  sc_config :: "bool \<Rightarrow> u32 \<Rightarrow> OpcUa_MessageSecurityMode option"
  currentTimeRef :: u64
  newTimerId :: u32
  symmLenDecryption :: "u32 \<Rightarrow> u32 option"
  symmDecrypt :: "byte list \<Rightarrow> byte list \<Rightarrow> byte list \<Rightarrow> byte list option"
  symmLenSignature :: "u32 option"
  symmVerify :: "byte list \<Rightarrow> byte list \<Rightarrow> byte list \<Rightarrow> bool"
  symmBlocks :: "(u32 \<times> u32) option"
  symmLenEncryption :: "u32 \<Rightarrow> u32 option"
  symmEncrypt :: "byte list \<Rightarrow> byte list \<Rightarrow> byte list \<Rightarrow> byte list option"
  symmSign :: "byte list \<Rightarrow> byte list \<Rightarrow> byte list option"
  asymLenDecryption :: "u32 \<Rightarrow> u32 option"
  asymDecrypt :: "byte list \<Rightarrow> byte list option"
  asymLenPeerSignature :: "u32 option"
  asymVerify :: "byte list \<Rightarrow> byte list \<Rightarrow> bool"
  asymBlocks :: "(u32 \<times> u32) option"
  asymLenOwnSignature :: "u32 option"
  asymLenEncryption :: "u32 \<Rightarrow> u32 option"
  asymEncrypt :: "byte list \<Rightarrow> byte list option"
  asymSign :: "byte list \<Rightarrow> byte list option"
  ownPublicKey :: bool
  peerPublicKey :: bool
  ownCertificateDER :: "byte list option option"
  peerThumbprint :: "byte list option option"
  reqSecuPolicyUri :: "byte list option"
  checkAsymHeader :: "SOPC_SecureConnection \<Rightarrow> (bool \<times> bool \<times> SOPC_StatusCode \<times> SOPC_SecureConnection) option"

abbreviation sc_level :: "sc_env \<Rightarrow> nat" where
  "sc_level env \<equiv> max_level (sc_enc env)"

section \<open>Chunks of a message in reception\<close>

definition sizeof_list :: nat where
  "sizeof_list = 24"

definition sizeof_list_elt :: nat where
  "sizeof_list_elt = 24"

definition SOPC_ScInternalContext_GetNbIntermediateInputChunks :: "SOPC_SecureConnection_ChunkMgrCtx \<Rightarrow> u32" where
  "SOPC_ScInternalContext_GetNbIntermediateInputChunks ctx =
     (case intermediateChunksInputBuffers ctx of None \<Rightarrow> 0 | Some bs \<Rightarrow> of_nat (length bs))"

definition SOPC_ScInternalContext_AddIntermediateInputChunk ::
  "sc_env \<Rightarrow> SOPC_SecureConnection_TcpProperties \<Rightarrow> SOPC_SecureConnection_ChunkMgrCtx \<Rightarrow> SOPC_Buffer \<Rightarrow>
   bool \<times> SOPC_SecureConnection_ChunkMgrCtx" where
  "SOPC_ScInternalContext_AddIntermediateInputChunk env tcp ctx intermediateChunk =
     (let bs = (case intermediateChunksInputBuffers ctx of
                  None \<Rightarrow> if mem_ok (sc_enc env) sizeof_list then Some [] else None
                | Some bs \<Rightarrow> Some bs)
      in case bs of None \<Rightarrow> (False, ctx)
         | Some bs \<Rightarrow>
             if (length bs < unat (receiveMaxChunkCount tcp) \<or> receiveMaxChunkCount tcp = 0) \<and>
                mem_ok (sc_enc env) sizeof_list_elt
             then (True, ctx\<lparr>intermediateChunksInputBuffers := Some (bs @ [intermediateChunk])\<rparr>)
             else (False, ctx\<lparr>intermediateChunksInputBuffers := Some bs\<rparr>))"

definition SOPC_ScInternalContext_ClearIntermediateInputChunks ::
  "SOPC_SecureConnection_ChunkMgrCtx \<Rightarrow> SOPC_SecureConnection_ChunkMgrCtx" where
  "SOPC_ScInternalContext_ClearIntermediateInputChunks ctx = ctx\<lparr>intermediateChunksInputBuffers := None\<rparr>"

definition SOPC_ScInternalContext_ClearCurrentInputChunkContext ::
  "SOPC_SecureConnection_ChunkMgrCtx \<Rightarrow> SOPC_SecureConnection_ChunkMgrCtx" where
  "SOPC_ScInternalContext_ClearCurrentInputChunkContext ctx =
     ctx\<lparr>currentChunkInputBuffer := None, currentMsgSize := 0, currentMsgType := SOPC_MSG_TYPE_INVALID,
         currentMsgIsFinal := SOPC_MSG_ISFINAL_INVALID\<rparr>"

definition SOPC_ScInternalContext_ClearInputChunksContext ::
  "SOPC_SecureConnection_ChunkMgrCtx \<Rightarrow> SOPC_SecureConnection_ChunkMgrCtx" where
  "SOPC_ScInternalContext_ClearInputChunksContext ctx =
     (let ctx = SOPC_ScInternalContext_ClearIntermediateInputChunks ctx;
          ctx = SOPC_ScInternalContext_ClearCurrentInputChunkContext ctx
      in ctx\<lparr>currentMessageInputBuffer := None, hasCurrentMsgRequestId := False, currentMsgRequestId := 0\<rparr>)"

section \<open>Results\<close>

text \<open>
  \<open>result_then r f\<close> is \<open>result = r; if (result) { result = f; }\<close> with the error status and the state that
  both parts update.
\<close>

definition result_then ::
  "(bool \<times> SOPC_StatusCode \<times> 's) option \<Rightarrow> (SOPC_StatusCode \<Rightarrow> 's \<Rightarrow> (bool \<times> SOPC_StatusCode \<times> 's) option) \<Rightarrow>
   (bool \<times> SOPC_StatusCode \<times> 's) option" where
  "result_then r f = (case r of None \<Rightarrow> None | Some (ok, err, s) \<Rightarrow> if ok then f err s else Some (False, err, s))"

lemma result_then_simps [simp]:
  "result_then None f = None"
  "result_then (Some (True, err, s)) f = f err s"
  "result_then (Some (False, err, s)) f = Some (False, err, s)"
  by (simp_all add: result_then_def)

definition set_ctx :: "SOPC_SecureConnection_ChunkMgrCtx \<Rightarrow> SOPC_SecureConnection \<Rightarrow> SOPC_SecureConnection" where
  "set_ctx ctx sc = sc\<lparr>chunksCtx := ctx\<rparr>"

definition set_chunk :: "bufp \<Rightarrow> SOPC_SecureConnection \<Rightarrow> SOPC_SecureConnection" where
  "set_chunk b sc = sc\<lparr>chunksCtx := (chunksCtx sc)\<lparr>currentChunkInputBuffer := b\<rparr>\<rparr>"

end
