(* ===== verification/Chunks_Receive.thy ===== *)
theory Chunks_Receive
  imports Secure_Channel
begin

unbundle bit_operations_syntax

text \<open>
  The receiving half of the chunk manager, \<open>src/ClientServer/secure_channels/sopc_chunks_mgr.c\<close>: the TCP
  messages are cut out of the received bytes, the security header, the sequence number and the request
  identifier of each chunk are checked, the chunk is decrypted and verified, and the chunks of a message
  are merged. A failed \<open>SOPC_ASSERT\<close> is \<open>None\<close>, as is an access outside of a block.
\<close>

section \<open>Cutting messages out of the received bytes\<close>

definition fill_buffer :: "bufp \<Rightarrow> bufp \<Rightarrow> u32 \<Rightarrow> u32 \<Rightarrow> (bool \<times> u32 \<times> bufp \<times> bufp) option" where
  "fill_buffer dst src n remaining = do {
     have_bytes \<leftarrow> SOPC_Buffer_Remaining dst;
     if have_bytes \<ge> n then Some (True, 0, dst, src)
     else do {
       (rd, dst, src) \<leftarrow> SOPC_Buffer_ReadFrom dst src (n - have_bytes);
       if rd < 0 then Some (False, remaining, dst, src)
       else do {
         have_bytes \<leftarrow> SOPC_Buffer_Remaining dst;
         Some (True, n - have_bytes, dst, src) } } }"

definition SOPC_HEL :: "byte list" where "SOPC_HEL = [72, 69, 76]"
definition SOPC_ACK :: "byte list" where "SOPC_ACK = [65, 67, 75]"
definition SOPC_ERR :: "byte list" where "SOPC_ERR = [69, 82, 82]"
definition SOPC_RHE :: "byte list" where "SOPC_RHE = [82, 72, 69]"
definition SOPC_MSG :: "byte list" where "SOPC_MSG = [77, 83, 71]"
definition SOPC_OPN :: "byte list" where "SOPC_OPN = [79, 80, 78]"
definition SOPC_CLO :: "byte list" where "SOPC_CLO = [67, 76, 79]"

definition SOPC_UA_ABORT_FINAL_CHUNK :: byte where "SOPC_UA_ABORT_FINAL_CHUNK = 65"
definition SOPC_UA_INTERMEDIATE_CHUNK :: byte where "SOPC_UA_INTERMEDIATE_CHUNK = 67"
definition SOPC_UA_FINAL_CHUNK :: byte where "SOPC_UA_FINAL_CHUNK = 70"

lemmas msg_bytes = SOPC_HEL_def SOPC_ACK_def SOPC_ERR_def SOPC_RHE_def SOPC_MSG_def SOPC_OPN_def SOPC_CLO_def
lemmas final_bytes = SOPC_UA_ABORT_FINAL_CHUNK_def SOPC_UA_INTERMEDIATE_CHUNK_def SOPC_UA_FINAL_CHUNK_def

text \<open>The three comparisons of the type, in their order; \<open>SOPC_MSG_TYPE_INVALID\<close> when none matches.\<close>

definition decode_msg_type :: "byte list \<Rightarrow> SOPC_Msg_Type" where
  "decode_msg_type t =
     (if c_memcmp t SOPC_HEL 3 = Some 0 then SOPC_MSG_TYPE_HEL
      else if c_memcmp t SOPC_ACK 3 = Some 0 then SOPC_MSG_TYPE_ACK
      else if c_memcmp t SOPC_ERR 3 = Some 0 then SOPC_MSG_TYPE_ERR
      else if c_memcmp t SOPC_RHE 3 = Some 0 then SOPC_MSG_TYPE_RHE
      else if c_memcmp t SOPC_MSG 3 = Some 0 then SOPC_MSG_TYPE_SC_MSG
      else if c_memcmp t SOPC_OPN 3 = Some 0 then SOPC_MSG_TYPE_SC_OPN
      else if c_memcmp t SOPC_CLO 3 = Some 0 then SOPC_MSG_TYPE_SC_CLO
      else SOPC_MSG_TYPE_INVALID)"

definition decode_is_final :: "byte \<Rightarrow> SOPC_Msg_IsFinal" where
  "decode_is_final c =
     (if c = SOPC_UA_INTERMEDIATE_CHUNK then SOPC_MSG_ISFINAL_INTERMEDIATE
      else if c = SOPC_UA_FINAL_CHUNK then SOPC_MSG_ISFINAL_FINAL
      else if c = SOPC_UA_ABORT_FINAL_CHUNK then SOPC_MSG_ISFINAL_ABORT
      else SOPC_MSG_ISFINAL_INVALID)"

definition read_msg_type ::
  "SOPC_StatusCode \<Rightarrow> SOPC_SecureConnection_ChunkMgrCtx \<Rightarrow>
   (bool \<times> SOPC_StatusCode \<times> SOPC_SecureConnection_ChunkMgrCtx) option" where
  "read_msg_type err ctx = do {
     (st, bytes, buf) \<leftarrow> SOPC_Buffer_Read (Some [0, 0, 0]) (currentChunkInputBuffer ctx) 3;
     t \<leftarrow> bytes;
     let ctx = ctx\<lparr>currentChunkInputBuffer := buf\<rparr>;
     if st = SOPC_STATUS_OK then
       (if decode_msg_type t \<noteq> SOPC_MSG_TYPE_INVALID
        then Some (True, err, ctx\<lparr>currentMsgType := decode_msg_type t\<rparr>)
        else Some (False, OpcUa_BadTcpMessageTypeInvalid, ctx))
     else Some (False, err, ctx) }"

definition read_is_final ::
  "SOPC_StatusCode \<Rightarrow> SOPC_SecureConnection_ChunkMgrCtx \<Rightarrow>
   (bool \<times> SOPC_StatusCode \<times> SOPC_SecureConnection_ChunkMgrCtx) option" where
  "read_is_final err ctx = do {
     (st, bytes, buf) \<leftarrow> SOPC_Buffer_Read (Some [0]) (currentChunkInputBuffer ctx) 1;
     c \<leftarrow> bytes;
     let ctx = ctx\<lparr>currentChunkInputBuffer := buf\<rparr>;
     if st = SOPC_STATUS_OK then
       (let f = decode_is_final (hd c);
            ctx = (if f \<noteq> SOPC_MSG_ISFINAL_INVALID then ctx\<lparr>currentMsgIsFinal := f\<rparr> else ctx);
            bad = (f = SOPC_MSG_ISFINAL_INVALID \<or>
                   (currentMsgType ctx \<noteq> SOPC_MSG_TYPE_SC_MSG \<and> currentMsgIsFinal ctx \<noteq> SOPC_MSG_ISFINAL_FINAL))
        in Some (\<not> bad, if bad then OpcUa_BadTcpMessageTypeInvalid else err, ctx))
     else Some (True, err, ctx) }"

definition read_msg_size ::
  "sc_env \<Rightarrow> SOPC_StatusCode \<Rightarrow> SOPC_SecureConnection_ChunkMgrCtx \<Rightarrow>
   (bool \<times> SOPC_StatusCode \<times> SOPC_SecureConnection_ChunkMgrCtx) option" where
  "read_msg_size env err ctx = do {
     (st, sz, buf) \<leftarrow> SOPC_UInt32_Read (sc_enc env) (Some (currentMsgSize ctx)) (currentChunkInputBuffer ctx) 0;
     sz \<leftarrow> sz;
     let ctx = ctx\<lparr>currentMsgSize := sz, currentChunkInputBuffer := buf\<rparr>;
     b \<leftarrow> buf;
     if st \<noteq> SOPC_STATUS_OK \<or> currentMsgSize ctx \<le> SOPC_TCP_UA_HEADER_LENGTH
     then Some (False, OpcUa_BadEncodingError, ctx)
     else if currentMsgSize ctx > maximum_size b then Some (False, OpcUa_BadTcpMessageTooLarge, ctx)
     else Some (True, err, ctx) }"

definition SC_Chunks_DecodeTcpMsgHeader ::
  "sc_env \<Rightarrow> SOPC_StatusCode \<Rightarrow> SOPC_SecureConnection_ChunkMgrCtx \<Rightarrow>
   (bool \<times> SOPC_StatusCode \<times> SOPC_SecureConnection_ChunkMgrCtx) option" where
  "SC_Chunks_DecodeTcpMsgHeader env err ctx = do {
     b \<leftarrow> currentChunkInputBuffer ctx;
     if buf_length b - position b \<ge> SOPC_TCP_UA_HEADER_LENGTH \<and> currentMsgType ctx = SOPC_MSG_TYPE_INVALID \<and>
        currentMsgIsFinal ctx = SOPC_MSG_ISFINAL_INVALID \<and> currentMsgSize ctx = 0
     then result_then (result_then (read_msg_type err ctx) read_is_final) (read_msg_size env)
     else None }"

text \<open>The error status is written in every case: the third component is whether a chunk is complete.\<close>

definition SC_Chunks_DecodeReceivedBuffer ::
  "sc_env \<Rightarrow> SOPC_SecureConnection_ChunkMgrCtx \<Rightarrow> bufp \<Rightarrow>
   (bool \<times> SOPC_StatusCode \<times> SOPC_SecureConnection_ChunkMgrCtx \<times> bufp) option" where
  "SC_Chunks_DecodeReceivedBuffer env ctx receivedBuffer = do {
     (ok, remaining, err, ctx, receivedBuffer) \<leftarrow>
       (if currentMsgSize ctx = 0 then do {
          (ok, remaining, dst, src) \<leftarrow>
            fill_buffer (currentChunkInputBuffer ctx) receivedBuffer SOPC_TCP_UA_HEADER_LENGTH 0;
          let ctx = ctx\<lparr>currentChunkInputBuffer := dst\<rparr>;
          if \<not> ok then Some (False, remaining, OpcUa_BadTcpInternalError, ctx, src)
          else if remaining > 0 then Some (False, remaining, SOPC_GoodGenericStatus, ctx, src)
          else do {
            (ok, err, ctx) \<leftarrow> SC_Chunks_DecodeTcpMsgHeader env SOPC_GoodGenericStatus ctx;
            Some (ok, remaining, err, ctx, src) } }
        else Some (True, 0, SOPC_GoodGenericStatus, ctx, receivedBuffer));
     if \<not> ok then Some (False, err, ctx, receivedBuffer)
     else if currentMsgSize ctx > 0 \<and> currentMsgType ctx \<noteq> SOPC_MSG_TYPE_INVALID \<and>
             currentMsgIsFinal ctx \<noteq> SOPC_MSG_ISFINAL_INVALID
     then do {
       (ok, remaining, dst, src) \<leftarrow>
         fill_buffer (currentChunkInputBuffer ctx) receivedBuffer (currentMsgSize ctx - SOPC_TCP_UA_HEADER_LENGTH) remaining;
       let ctx = ctx\<lparr>currentChunkInputBuffer := dst\<rparr>;
       if \<not> ok then Some (False, OpcUa_BadTcpInternalError, ctx, src)
       else Some (remaining = 0, err, ctx, src) }
     else None }"

definition SC_Chunks_CheckMultiChunkContext ::
  "SOPC_SecureConnection_ChunkMgrCtx \<Rightarrow> SOPC_SecureConnection_TcpProperties \<Rightarrow> SOPC_StatusCode \<Rightarrow> bool \<times> SOPC_StatusCode" where
  "SC_Chunks_CheckMultiChunkContext ctx tcp err =
     (if currentMsgIsFinal ctx = SOPC_MSG_ISFINAL_INTERMEDIATE \<and> receiveMaxChunkCount tcp \<noteq> 0 \<and>
         SOPC_ScInternalContext_GetNbIntermediateInputChunks ctx + 1 \<ge> receiveMaxChunkCount tcp
      then (False, OpcUa_BadTcpMessageTooLarge) else (True, err))"

section \<open>Security headers\<close>

definition SC_Chunks_IsMsgEncrypted :: "OpcUa_MessageSecurityMode \<Rightarrow> bool \<Rightarrow> bool option" where
  "SC_Chunks_IsMsgEncrypted securityMode isOPN =
     (if securityMode \<noteq> OpcUa_MessageSecurityMode_Invalid
      then Some (\<not> (securityMode = OpcUa_MessageSecurityMode_None \<or>
                    (securityMode = OpcUa_MessageSecurityMode_Sign \<and> \<not> isOPN)))
      else None)"

definition SC_Chunks_IsMsgSigned :: "OpcUa_MessageSecurityMode \<Rightarrow> bool" where
  "SC_Chunks_IsMsgSigned securityMode \<longleftrightarrow> securityMode \<noteq> OpcUa_MessageSecurityMode_None"

definition SC_Chunks_IsSecuTokenValid :: "sc_env \<Rightarrow> bool \<Rightarrow> SOPC_SecureConnection_SecurityToken \<Rightarrow> bool" where
  "SC_Chunks_IsSecuTokenValid env isServer secuToken =
     (if currentTimeRef env \<le> lifetimeEndTimeRef secuToken then True
      else if \<not> isServer then
        (let expiredMs = currentTimeRef env - lifetimeEndTimeRef secuToken
         in expiredMs \<le> ucast (revisedLifetime secuToken div 4))
      else False)"

text \<open>
  The two branches of the source differ in the activation of the new token of the server. The boolean
  besides the result tells whether the keys are those of the precedent token.
\<close>

definition SC_Chunks_CheckSymmetricSecurityHeader ::
  "sc_env \<Rightarrow> SOPC_SecureConnection \<Rightarrow> SOPC_StatusCode \<Rightarrow>
   (bool \<times> bool \<times> SOPC_StatusCode \<times> SOPC_SecureConnection) option" where
  "SC_Chunks_CheckSymmetricSecurityHeader env sc err = do {
     (st, t, buf) \<leftarrow> SOPC_UInt32_Read (sc_enc env) (Some 0) (currentChunkInputBuffer (chunksCtx sc)) 0;
     t \<leftarrow> t;
     let sc = set_chunk buf sc;
     if st = SOPC_STATUS_OK then
       (if tokenId (currentSecurityToken sc) = t then
          (let sc = (if isServerConnection sc \<and> \<not> serverNewSecuTokenActive sc
                     then sc\<lparr>serverNewSecuTokenActive := True\<rparr> else sc)
           in if SC_Chunks_IsSecuTokenValid env (isServerConnection sc) (currentSecurityToken sc)
              then Some (True, False, err, sc)
              else Some (False, False, OpcUa_BadSecureChannelTokenUnknown, sc))
        else if tokenId (precedentSecurityToken sc) = t \<and> secureChannelId (precedentSecurityToken sc) \<noteq> 0 \<and>
                tokenId (precedentSecurityToken sc) \<noteq> 0 then
          (if SC_Chunks_IsSecuTokenValid env (isServerConnection sc) (precedentSecurityToken sc)
           then Some (True, True, err, sc)
           else Some (False, True, OpcUa_BadSecureChannelTokenUnknown, sc))
        else Some (False, False, OpcUa_BadSecureChannelTokenUnknown, sc))
     else Some (False, False, OpcUa_BadSecurityChecksFailed, sc) }"

section \<open>Sequence headers\<close>

definition set_lastSNreceived :: "u32 \<Rightarrow> SOPC_SecureConnection \<Rightarrow> SOPC_SecureConnection" where
  "set_lastSNreceived n sc = sc\<lparr>tcpSeqProperties := (tcpSeqProperties sc)\<lparr>lastSNreceived := n\<rparr>\<rparr>"

definition SC_Chunks_CheckSeqNumReceived ::
  "SOPC_SecureConnection \<Rightarrow> bool \<Rightarrow> u32 \<Rightarrow> SOPC_StatusCode \<Rightarrow> bool \<times> SOPC_StatusCode \<times> SOPC_SecureConnection" where
  "SC_Chunks_CheckSeqNumReceived sc isOPN seqNumber err =
     (let last = lastSNreceived (tcpSeqProperties sc)
      in if \<not> isOPN then
           (if last + 1 \<noteq> seqNumber then
              (if last > -1 - 1024 \<and> seqNumber < 1024 then (True, err, set_lastSNreceived seqNumber sc)
               else (False, OpcUa_BadSecurityChecksFailed, sc))
            else (True, err, set_lastSNreceived (last + 1) sc))
         else (True, err, set_lastSNreceived seqNumber sc))"

definition SC_Chunks_CheckSequenceHeaderSN ::
  "sc_env \<Rightarrow> bool \<Rightarrow> SOPC_StatusCode \<Rightarrow> SOPC_SecureConnection \<Rightarrow>
   (bool \<times> SOPC_StatusCode \<times> SOPC_SecureConnection) option" where
  "SC_Chunks_CheckSequenceHeaderSN env isOPN err sc = do {
     (st, n, buf) \<leftarrow> SOPC_UInt32_Read (sc_enc env) (Some 0) (currentChunkInputBuffer (chunksCtx sc)) 0;
     n \<leftarrow> n;
     let sc = set_chunk buf sc;
     if st = SOPC_STATUS_OK then Some (SC_Chunks_CheckSeqNumReceived sc isOPN n err)
     else Some (False, OpcUa_BadSecurityChecksFailed, sc) }"

definition set_sentRequestIds ::
  "(u32 \<times> SOPC_SentRequestMsg_Context) list \<Rightarrow> SOPC_SecureConnection \<Rightarrow> SOPC_SecureConnection" where
  "set_sentRequestIds rs sc = sc\<lparr>tcpSeqProperties := (tcpSeqProperties sc)\<lparr>sentRequestIds := rs\<rparr>\<rparr>"

text \<open>
  The search of the request a client message answers. An element that cannot be allocated is not put
  back. The results besides the status are the request handle and whether the request timed out.
\<close>

definition check_expected_request ::
  "sc_env \<Rightarrow> SOPC_Msg_IsFinal \<Rightarrow> SOPC_Msg_Type \<Rightarrow> u32 \<Rightarrow> SOPC_StatusCode \<Rightarrow> SOPC_SecureConnection \<Rightarrow>
   bool \<times> u32 \<times> bool \<times> SOPC_StatusCode \<times> SOPC_SecureConnection" where
  "check_expected_request env isFinal receivedMsgType requestId err sc =
     (case requests_remove requestId (sentRequestIds (tcpSeqProperties sc)) of
        (None, rs) \<Rightarrow> (False, requestId, False, OpcUa_BadSecurityChecksFailed, sc)
      | (Some recorded, rs) \<Rightarrow>
          if msgType recorded \<noteq> receivedMsgType then
            (False, requestId, timeoutExpired recorded, OpcUa_BadSecurityChecksFailed,
             set_sentRequestIds (if mem_ok (sc_enc env) sizeof_list_elt then rs @ [(requestId, recorded)] else rs) sc)
          else if isFinal = SOPC_MSG_ISFINAL_INTERMEDIATE then
            (if mem_ok (sc_enc env) sizeof_list_elt
             then (True, requestId, timeoutExpired recorded, err, set_sentRequestIds ((requestId, recorded) # rs) sc)
             else (False, requestId, timeoutExpired recorded, err, set_sentRequestIds rs sc))
          else (True, requestHandle recorded, timeoutExpired recorded, err, set_sentRequestIds rs sc))"

definition SC_Chunks_CheckSequenceHeaderRequestId ::
  "sc_env \<Rightarrow> SOPC_Msg_IsFinal \<Rightarrow> SOPC_Msg_Type \<Rightarrow> u32 \<Rightarrow> SOPC_StatusCode \<Rightarrow> SOPC_SecureConnection \<Rightarrow>
   (bool \<times> u32 \<times> bool \<times> SOPC_StatusCode \<times> SOPC_SecureConnection) option" where
  "SC_Chunks_CheckSequenceHeaderRequestId env isFinal receivedMsgType requestIdOrHandle err sc = do {
     (st, r, buf) \<leftarrow> SOPC_UInt32_Read (sc_enc env) (Some requestIdOrHandle) (currentChunkInputBuffer (chunksCtx sc)) 0;
     r \<leftarrow> r;
     let sc = set_chunk buf sc;
     let (ok, r, expired, err, sc) =
       (if st \<noteq> SOPC_STATUS_OK then (False, r, False, OpcUa_BadSecurityChecksFailed, sc)
        else if hasCurrentMsgRequestId (chunksCtx sc) \<and> r \<noteq> currentMsgRequestId (chunksCtx sc)
        then (False, r, False, OpcUa_BadSecurityChecksFailed, sc)
        else if \<not> isServerConnection sc then check_expected_request env isFinal receivedMsgType r err sc
        else (True, r, False, err, sc));
     Some (ok, r, expired, err,
       (if ok then set_ctx ((chunksCtx sc)\<lparr>hasCurrentMsgRequestId := True, currentMsgRequestId := r\<rparr>) sc else sc)) }"

section \<open>Decryption, signature and padding\<close>

definition SC_Chunks_GetSecurityKeySets ::
  "SOPC_SecureConnection \<Rightarrow> bool \<Rightarrow> (SOPC_SC_SecurityKeySet \<times> SOPC_SC_SecurityKeySet) option" where
  "SC_Chunks_GetSecurityKeySets sc isPrevCryptoData =
     (let sets = (if isPrevCryptoData then precedentSecuKeySets sc else currentSecuKeySets sc)
      in case (senderKeySet sets, receiverKeySet sets) of
           (Some s, Some r) \<Rightarrow> Some (s, r)
         | _ \<Rightarrow> None)"

text \<open>
  The part the asymmetric and the symmetric branch share: the new buffer, the copy of the plain headers
  and the decrypted bytes behind them. \<open>decrypt\<close> answers the bytes it wrote and the length it reports.
\<close>

definition decrypt_chunk ::
  "sc_env \<Rightarrow> SOPC_SecureConnection \<Rightarrow> SOPC_Buffer \<Rightarrow> u32 \<Rightarrow> (byte list \<Rightarrow> (byte list \<times> u32) option) \<Rightarrow>
   (bool \<times> bufp) option" where
  "decrypt_chunk env sc encrypted decryptedTextLength decrypt =
     (let sequenceNumberPosition = position encrypted
      in if decryptedTextLength \<le> receiveBufferSize (tcpMsgProperties sc) then
           (case SOPC_Buffer_Create (sc_enc env) (sequenceNumberPosition + decryptedTextLength) of
              None \<Rightarrow> Some (False, None)
            | Some plain \<Rightarrow> do {
                (st, plain) \<leftarrow> SOPC_Buffer_CopyWithLength (sc_enc env) (Some plain) (Some encrypted) sequenceNumberPosition;
                if st \<noteq> SOPC_STATUS_OK then Some (False, plain)
                else do {
                  d \<leftarrow> buf_data encrypted;
                  c \<leftarrow> mem_read d (unat sequenceNumberPosition) (unat (buf_length encrypted - sequenceNumberPosition));
                  (case decrypt c of
                     None \<Rightarrow> Some (False, plain)
                   | Some (p, len) \<Rightarrow> do {
                       plain \<leftarrow> plain;
                       pd \<leftarrow> buf_data plain;
                       pd \<leftarrow> mem_write pd (unat sequenceNumberPosition) p;
                       (st, plain) \<leftarrow>
                         SOPC_Buffer_SetDataLength (Some (plain\<lparr>buf_data := Some pd\<rparr>)) (sequenceNumberPosition + len);
                       if st = SOPC_STATUS_OK then
                         (let (st, plain) = SOPC_Buffer_SetPosition plain sequenceNumberPosition
                          in if st = SOPC_STATUS_OK then Some (True, plain) else None)
                       else None }) } })
         else Some (True, None))"

definition SC_Chunks_DecryptMsg ::
  "sc_env \<Rightarrow> SOPC_SecureConnection \<Rightarrow> bool \<Rightarrow> bool \<Rightarrow> (bool \<times> SOPC_SecureConnection) option" where
  "SC_Chunks_DecryptMsg env sc isSymmetric isPrevCryptoData = do {
     b \<leftarrow> currentChunkInputBuffer (chunksCtx sc);
     let lengthToDecrypt = buf_length b - position b;
     (result, plain) \<leftarrow>
       (if \<not> isSymmetric then
          (case (if has_privateKey sc then asymLenDecryption env lengthToDecrypt else None) of
             None \<Rightarrow> Some (False, None)
           | Some n \<Rightarrow> decrypt_chunk env sc b n (\<lambda>c. map_option (\<lambda>p. (p, of_nat (length p))) (asymDecrypt env c)))
        else
          (case SC_Chunks_GetSecurityKeySets sc isPrevCryptoData of
             None \<Rightarrow> Some (False, None)
           | Some (_, receiver) \<Rightarrow>
               (case symmLenDecryption env lengthToDecrypt of
                  None \<Rightarrow> Some (False, None)
                | Some n \<Rightarrow>
                    decrypt_chunk env sc b n
                      (\<lambda>c. map_option (\<lambda>p. (p, n)) (symmDecrypt env c (encryptKey receiver) (initVector receiver))))));
     Some (result, set_chunk (if result then plain else None) sc) }"

text \<open>The position of the signature when it is correct.\<close>

definition verify_signature ::
  "SOPC_Buffer \<Rightarrow> u32 option \<Rightarrow> (byte list \<Rightarrow> byte list \<Rightarrow> bool) \<Rightarrow> u32 option option" where
  "verify_signature b signatureSize verify =
     (case signatureSize of None \<Rightarrow> Some None
      | Some n \<Rightarrow>
          if buf_length b < n then Some None
          else do {
            let signaturePosition = buf_length b - n;
            d \<leftarrow> buf_data b;
            m \<leftarrow> mem_read d 0 (unat signaturePosition);
            s \<leftarrow> mem_read d (unat signaturePosition) (unat n);
            Some (if verify m s then Some signaturePosition else None) })"

definition SC_Chunks_VerifyMsgSignature ::
  "sc_env \<Rightarrow> SOPC_SecureConnection \<Rightarrow> bool \<Rightarrow> bool \<Rightarrow> u32 option option" where
  "SC_Chunks_VerifyMsgSignature env sc isSymmetric isPrevCryptoData = do {
     b \<leftarrow> currentChunkInputBuffer (chunksCtx sc);
     if \<not> isSymmetric then
       (if sc_config env (isServerConnection sc) (secureChannelConfigIdx sc) = None \<and> \<not> isServerConnection sc
        then Some None
        else verify_signature b (asymLenPeerSignature env) (asymVerify env))
     else
       (case SC_Chunks_GetSecurityKeySets sc isPrevCryptoData of
          None \<Rightarrow> Some None
        | Some (_, receiver) \<Rightarrow>
            verify_signature b (symmLenSignature env) (\<lambda>m s. symmVerify env m (signKey receiver) s)) }"

definition last_byte :: "SOPC_Buffer \<Rightarrow> byte option" where
  "last_byte b = do {
     d \<leftarrow> buf_data b;
     x \<leftarrow> mem_read d (unat (buf_length b - 1)) 1;
     Some (hd x) }"

definition SOPC_Remove_Padding :: "SOPC_SecureConnection \<Rightarrow> (bool \<times> SOPC_SecureConnection) option" where
  "SOPC_Remove_Padding sc = do {
     b \<leftarrow> currentChunkInputBuffer (chunksCtx sc);
     (st, nbPaddingBytes, b) \<leftarrow>
       (if hasExtraPaddingSize sc then do {
          x \<leftarrow> last_byte b;
          (st, b') \<leftarrow> SOPC_Buffer_SetDataLength (Some b) (buf_length b - 1);
          b \<leftarrow> b';
          Some (st, push_bit 8 (ucast x :: u32), b) }
        else Some (SOPC_STATUS_OK, 0, b));
     if st = SOPC_STATUS_OK then do {
       x \<leftarrow> last_byte b;
       let nbPaddingBytes = nbPaddingBytes + ucast x;
       let nbPaddingBytes = nbPaddingBytes + 1;
       (st, b') \<leftarrow> SOPC_Buffer_SetDataLength (Some b) (buf_length b - nbPaddingBytes);
       Some (st = SOPC_STATUS_OK, set_chunk b' sc) }
     else Some (False, set_chunk (Some b) sc) }"

section \<open>Messages in several chunks\<close>

text \<open>The 32-bit sum of the sizes of the chunks received before.\<close>

fun chunks_size :: "SOPC_Buffer list \<Rightarrow> u32 \<Rightarrow> u32" where
  "chunks_size [] n = n"
| "chunks_size (b # bs) n = chunks_size bs (n + (buf_length b - position b))"

fun merge_chunks :: "SOPC_Buffer list \<Rightarrow> u32 \<Rightarrow> u32 \<Rightarrow> bufp \<Rightarrow> (u32 \<times> bufp) option" where
  "merge_chunks [] totalSize remaining merged = Some (remaining, merged)"
| "merge_chunks (b # bs) totalSize remaining merged = do {
     (ok, remaining, merged, src) \<leftarrow> fill_buffer merged (Some b) totalSize remaining;
     left \<leftarrow> SOPC_Buffer_Remaining src;
     if ok \<and> left = 0 then merge_chunks bs totalSize remaining merged else None }"

text \<open>The merge of the final chunk with the intermediate ones.\<close>

definition merge_final_chunk ::
  "sc_env \<Rightarrow> u32 \<Rightarrow> SOPC_StatusCode \<Rightarrow> SOPC_SecureConnection_ChunkMgrCtx \<Rightarrow>
   (bool \<times> SOPC_StatusCode \<times> SOPC_SecureConnection_ChunkMgrCtx) option" where
  "merge_final_chunk env totalSize err ctx =
     (if SOPC_ScInternalContext_GetNbIntermediateInputChunks ctx > 0 then
        (if totalSize > 0 then
           (case SOPC_Buffer_Create (sc_enc env) totalSize of
              None \<Rightarrow> Some (False, OpcUa_BadOutOfMemory, ctx)
            | Some merged \<Rightarrow> do {
                bs \<leftarrow> intermediateChunksInputBuffers ctx;
                (remaining, merged) \<leftarrow> merge_chunks bs totalSize 0 (Some merged);
                (ok, remaining, merged, src) \<leftarrow> fill_buffer merged (currentChunkInputBuffer ctx) totalSize remaining;
                left \<leftarrow> SOPC_Buffer_Remaining src;
                if ok \<and> remaining = 0 \<and> left = 0 then
                  Some (True, err, ctx\<lparr>intermediateChunksInputBuffers := Some [], currentChunkInputBuffer := None,
                                      currentMessageInputBuffer := merged\<rparr>)
                else None })
         else None)
      else Some (True, err, ctx\<lparr>currentMessageInputBuffer := currentChunkInputBuffer ctx,
                               currentChunkInputBuffer := None\<rparr>))"

definition SC_Chunks_TreatMsgMultiChunks ::
  "sc_env \<Rightarrow> SOPC_StatusCode \<Rightarrow> SOPC_SecureConnection \<Rightarrow> (bool \<times> SOPC_StatusCode \<times> SOPC_SecureConnection) option" where
  "SC_Chunks_TreatMsgMultiChunks env err sc =
     (let ctx = chunksCtx sc; tcp = tcpMsgProperties sc; isFinal = currentMsgIsFinal ctx
      in if currentMsgType ctx \<noteq> SOPC_MSG_TYPE_SC_MSG \<or> isFinal = SOPC_MSG_ISFINAL_INVALID then None
         else do {
           b \<leftarrow> currentChunkInputBuffer ctx;
           let totalSize =
             (if isFinal \<noteq> SOPC_MSG_ISFINAL_ABORT
              then chunks_size (case intermediateChunksInputBuffers ctx of None \<Rightarrow> [] | Some bs \<Rightarrow> bs) 0 +
                   (buf_length b - position b)
              else 0);
           if isFinal \<noteq> SOPC_MSG_ISFINAL_ABORT \<and> totalSize > receiveMaxMessageSize tcp
           then Some (False, OpcUa_BadTcpMessageTooLarge, sc)
           else if isFinal = SOPC_MSG_ISFINAL_INTERMEDIATE then
             (let (ok, ctx) = SOPC_ScInternalContext_AddIntermediateInputChunk env tcp ctx b
              in if ok
                 then Some (True, err, set_ctx (SOPC_ScInternalContext_ClearCurrentInputChunkContext
                                                  (ctx\<lparr>currentChunkInputBuffer := None\<rparr>)) sc)
                 else Some (False, OpcUa_BadOutOfMemory, set_ctx ctx sc))
           else do {
             let ctx = (if isFinal = SOPC_MSG_ISFINAL_ABORT
                        then SOPC_ScInternalContext_ClearIntermediateInputChunks ctx else ctx);
             (ok, err, ctx) \<leftarrow> merge_final_chunk env totalSize err ctx;
             Some (ok, err, set_ctx ctx sc) } })"

section \<open>One chunk\<close>

definition is_secure_msg :: "SOPC_Msg_Type \<Rightarrow> bool" where
  "is_secure_msg t \<longleftrightarrow> t = SOPC_MSG_TYPE_SC_OPN \<or> t = SOPC_MSG_TYPE_SC_CLO \<or> t = SOPC_MSG_TYPE_SC_MSG"

text \<open>Whether the message is expected on this side of the connection, final where it has to be.\<close>

definition payload_expected :: "SOPC_SecureConnection \<Rightarrow> bool option" where
  "payload_expected sc =
     (let final = (currentMsgIsFinal (chunksCtx sc) = SOPC_MSG_ISFINAL_FINAL)
      in case currentMsgType (chunksCtx sc) of
           SOPC_MSG_TYPE_INVALID \<Rightarrow> None
         | SOPC_MSG_TYPE_HEL \<Rightarrow> Some (isServerConnection sc \<and> final)
         | SOPC_MSG_TYPE_ACK \<Rightarrow> Some (\<not> isServerConnection sc \<and> final)
         | SOPC_MSG_TYPE_ERR \<Rightarrow> Some (\<not> isServerConnection sc \<and> final)
         | SOPC_MSG_TYPE_RHE \<Rightarrow> Some (\<not> isServerConnection sc \<and> final)
         | SOPC_MSG_TYPE_SC_OPN \<Rightarrow> Some final
         | SOPC_MSG_TYPE_SC_CLO \<Rightarrow> Some (isServerConnection sc \<and> final)
         | SOPC_MSG_TYPE_SC_MSG \<Rightarrow> Some True)"

definition check_secureChannelId ::
  "sc_env \<Rightarrow> bool \<Rightarrow> SOPC_StatusCode \<Rightarrow> SOPC_SecureConnection \<Rightarrow> (bool \<times> SOPC_StatusCode \<times> SOPC_SecureConnection) option" where
  "check_secureChannelId env isOPN err sc = do {
     (st, i, buf) \<leftarrow> SOPC_UInt32_Read (sc_enc env) (Some 0) (currentChunkInputBuffer (chunksCtx sc)) 0;
     i \<leftarrow> i;
     let sc = set_chunk buf sc;
     if st \<noteq> SOPC_STATUS_OK then Some (False, OpcUa_BadSecurityChecksFailed, sc)
     else if isOPN \<and> secureChannelId (currentSecurityToken sc) = 0 then
       (if \<not> isServerConnection sc then
          (if i \<noteq> 0 then Some (True, err, sc\<lparr>clientSecureChannelId := i\<rparr>)
           else Some (False, OpcUa_BadSecurityChecksFailed, sc))
        else if i \<noteq> 0 then Some (False, OpcUa_BadSecurityChecksFailed, sc)
        else Some (True, err, sc))
     else if secureChannelId (currentSecurityToken sc) \<noteq> i then Some (False, OpcUa_BadTcpSecureChannelUnknown, sc)
     else Some (True, err, sc) }"

text \<open>The security header: whether to decrypt, whether to verify the signature, and with which keys.\<close>

type_synonym payload_flags = "bool \<times> bool \<times> bool"

definition check_security_header ::
  "sc_env \<Rightarrow> bool \<Rightarrow> SOPC_StatusCode \<Rightarrow> SOPC_SecureConnection \<Rightarrow>
   (bool \<times> SOPC_StatusCode \<times> payload_flags \<times> SOPC_SecureConnection) option" where
  "check_security_header env isOPN err sc =
     (if isOPN then do {
        (ok, isSecurityActive, err, sc) \<leftarrow> checkAsymHeader env sc;
        Some (ok, err, (ok \<and> isSecurityActive, ok \<and> isSecurityActive, False), sc) }
      else
        (case sc_config env (isServerConnection sc) (secureChannelConfigIdx sc) of
           None \<Rightarrow> Some (False, OpcUa_BadSecurityChecksFailed, (False, False, False), sc)
         | Some mode \<Rightarrow> do {
             (ok, isPrev, err, sc) \<leftarrow> SC_Chunks_CheckSymmetricSecurityHeader env sc err;
             if ok then do {
               toDecrypt \<leftarrow> SC_Chunks_IsMsgEncrypted mode isOPN;
               Some (True, err, (toDecrypt, SC_Chunks_IsMsgSigned mode, isPrev), sc) }
             else Some (False, err, (False, False, isPrev), sc) }))"

definition decrypt_payload ::
  "sc_env \<Rightarrow> bool \<Rightarrow> SOPC_StatusCode \<Rightarrow> payload_flags \<times> SOPC_SecureConnection \<Rightarrow>
   (bool \<times> SOPC_StatusCode \<times> payload_flags \<times> SOPC_SecureConnection) option" where
  "decrypt_payload env isOPN err s = (case s of ((toDecrypt, toCheck, isPrev), sc) \<Rightarrow>
     if toDecrypt then do {
       (ok, sc) \<leftarrow> SC_Chunks_DecryptMsg env sc (\<not> isOPN) isPrev;
       Some (ok, if ok then err else OpcUa_BadSecurityChecksFailed, (toDecrypt, toCheck, isPrev), sc) }
     else Some (True, err, s))"

definition verify_payload ::
  "sc_env \<Rightarrow> bool \<Rightarrow> SOPC_StatusCode \<Rightarrow> payload_flags \<times> SOPC_SecureConnection \<Rightarrow>
   (bool \<times> SOPC_StatusCode \<times> payload_flags \<times> SOPC_SecureConnection) option" where
  "verify_payload env isOPN err s = (case s of ((toDecrypt, toCheck, isPrev), sc) \<Rightarrow>
     if toCheck then do {
       p \<leftarrow> SC_Chunks_VerifyMsgSignature env sc (\<not> isOPN) isPrev;
       (case p of
          None \<Rightarrow> Some (False, OpcUa_BadSecurityChecksFailed, s)
        | Some signaturePosition \<Rightarrow> do {
            (st, b) \<leftarrow> SOPC_Buffer_SetDataLength (currentChunkInputBuffer (chunksCtx sc)) signaturePosition;
            if st = SOPC_STATUS_OK then Some (True, err, ((toDecrypt, toCheck, isPrev), set_chunk b sc)) else None }) }
     else Some (True, err, s))"

text \<open>The sequence header; the request identifier or handle and the expiration of the request are outputs.\<close>

definition check_sequence_header ::
  "sc_env \<Rightarrow> bool \<Rightarrow> u32 \<Rightarrow> SOPC_StatusCode \<Rightarrow> payload_flags \<times> SOPC_SecureConnection \<Rightarrow>
   (bool \<times> SOPC_StatusCode \<times> u32 \<times> bool \<times> payload_flags \<times> SOPC_SecureConnection) option" where
  "check_sequence_header env isOPN rid err s = (case s of (fl, sc) \<Rightarrow> do {
     (ok, err, sc) \<leftarrow> SC_Chunks_CheckSequenceHeaderSN env isOPN err sc;
     if ok then do {
       (ok, rid, expired, err, sc) \<leftarrow>
         SC_Chunks_CheckSequenceHeaderRequestId env (currentMsgIsFinal (chunksCtx sc)) (currentMsgType (chunksCtx sc)) rid err sc;
       Some (ok, err, rid, expired, fl, sc) }
     else Some (False, err, rid, False, fl, sc) })"

definition remove_padding_payload ::
  "SOPC_StatusCode \<Rightarrow> u32 \<times> bool \<times> payload_flags \<times> SOPC_SecureConnection \<Rightarrow>
   (bool \<times> SOPC_StatusCode \<times> u32 \<times> bool \<times> payload_flags \<times> SOPC_SecureConnection) option" where
  "remove_padding_payload err s = (case s of (rid, expired, (toDecrypt, toCheck, isPrev), sc) \<Rightarrow>
     if toDecrypt then do {
       (ok, sc) \<leftarrow> SOPC_Remove_Padding sc;
       Some (ok, if ok then err else OpcUa_BadDecodingError, rid, expired, (toDecrypt, toCheck, isPrev), sc) }
     else Some (True, err, s))"

definition complete_payload ::
  "sc_env \<Rightarrow> SOPC_StatusCode \<Rightarrow> u32 \<times> bool \<times> payload_flags \<times> SOPC_SecureConnection \<Rightarrow>
   (bool \<times> SOPC_StatusCode \<times> u32 \<times> bool \<times> payload_flags \<times> SOPC_SecureConnection) option" where
  "complete_payload env err s = (case s of (rid, expired, fl, sc) \<Rightarrow>
     if currentMsgType (chunksCtx sc) = SOPC_MSG_TYPE_SC_MSG then do {
       (ok, err, sc) \<leftarrow> SC_Chunks_TreatMsgMultiChunks env err sc;
       Some (ok, err, rid, expired, fl, sc) }
     else Some (True, err, rid, expired, fl,
       set_ctx ((chunksCtx sc)\<lparr>currentMessageInputBuffer := currentChunkInputBuffer (chunksCtx sc),
                                currentChunkInputBuffer := None\<rparr>) sc))"

definition secure_payload ::
  "sc_env \<Rightarrow> u32 \<Rightarrow> SOPC_StatusCode \<Rightarrow> SOPC_SecureConnection \<Rightarrow>
   (bool \<times> SOPC_StatusCode \<times> u32 \<times> bool \<times> payload_flags \<times> SOPC_SecureConnection) option" where
  "secure_payload env rid err sc =
     (let isOPN = (currentMsgType (chunksCtx sc) = SOPC_MSG_TYPE_SC_OPN)
      in do {
        (ok, err, sc) \<leftarrow> check_secureChannelId env isOPN err sc;
        if \<not> ok then Some (False, err, rid, False, (False, False, False), sc)
        else do {
          (ok, err, s) \<leftarrow>
            result_then (result_then (check_security_header env isOPN err sc) (decrypt_payload env isOPN)) (verify_payload env isOPN);
          if \<not> ok then Some (False, err, rid, False, s)
          else result_then (check_sequence_header env isOPN rid err s) remove_padding_payload } })"

definition SC_Chunks_TreatTcpPayload ::
  "sc_env \<Rightarrow> u32 \<Rightarrow> SOPC_StatusCode \<Rightarrow> SOPC_SecureConnection \<Rightarrow>
   (bool \<times> SOPC_StatusCode \<times> u32 \<times> bool \<times> payload_flags \<times> SOPC_SecureConnection) option" where
  "SC_Chunks_TreatTcpPayload env rid err sc = do {
     ok \<leftarrow> payload_expected sc;
     if \<not> ok then Some (False, OpcUa_BadTcpMessageTypeInvalid, rid, False, (False, False, False), sc)
     else
       result_then
         (if is_secure_msg (currentMsgType (chunksCtx sc)) then secure_payload env rid err sc
          else Some (True, err, rid, False, (False, False, False), sc))
         (complete_payload env) }"

section \<open>The received bytes\<close>

datatype SOPC_SecureChannels_InternalEvent =
    INT_SC_RCV_HEL
  | INT_SC_RCV_ACK
  | INT_SC_RCV_ERR
  | INT_SC_RCV_RHE
  | INT_SC_RCV_OPN
  | INT_SC_RCV_CLO
  | INT_SC_RCV_MSG_CHUNKS
  | INT_SC_RCV_MSG_CHUNK_ABORT
  | INT_SC_RCV_FAILURE

record SOPC_LooperEvent =
  le_event :: SOPC_SecureChannels_InternalEvent
  le_eltId :: u32
  le_params :: bufp
  le_auxParam :: u32

definition sizeof_LooperEvent :: nat where
  "sizeof_LooperEvent = 32"

definition SC_Chunks_MsgTypeToRcvEvent ::
  "SOPC_Msg_Type \<Rightarrow> SOPC_Msg_IsFinal \<Rightarrow> SOPC_SecureChannels_InternalEvent option" where
  "SC_Chunks_MsgTypeToRcvEvent t isFinal =
     (case t of
        SOPC_MSG_TYPE_HEL \<Rightarrow> Some INT_SC_RCV_HEL
      | SOPC_MSG_TYPE_ACK \<Rightarrow> Some INT_SC_RCV_ACK
      | SOPC_MSG_TYPE_ERR \<Rightarrow> Some INT_SC_RCV_ERR
      | SOPC_MSG_TYPE_RHE \<Rightarrow> Some INT_SC_RCV_RHE
      | SOPC_MSG_TYPE_SC_OPN \<Rightarrow> Some INT_SC_RCV_OPN
      | SOPC_MSG_TYPE_SC_CLO \<Rightarrow> Some INT_SC_RCV_CLO
      | SOPC_MSG_TYPE_SC_MSG \<Rightarrow>
          Some (if isFinal = SOPC_MSG_ISFINAL_ABORT then INT_SC_RCV_MSG_CHUNK_ABORT else INT_SC_RCV_MSG_CHUNKS)
      | SOPC_MSG_TYPE_INVALID \<Rightarrow> None)"

text \<open>
  What happens to a complete chunk: a complete message becomes an event, unless its request has expired.
  The result is whether to go on.
\<close>

definition deliver_message ::
  "sc_env \<Rightarrow> u32 \<Rightarrow> u32 \<Rightarrow> bool \<Rightarrow> SOPC_StatusCode \<Rightarrow> SOPC_SecureConnection \<Rightarrow> SOPC_LooperEvent list \<Rightarrow>
   (bool \<times> SOPC_StatusCode \<times> SOPC_SecureConnection \<times> SOPC_LooperEvent list) option" where
  "deliver_message env scIdx rid expired err sc evs =
     (let ctx = chunksCtx sc; clr = set_ctx (SOPC_ScInternalContext_ClearInputChunksContext ctx) sc
      in if currentChunkInputBuffer ctx \<noteq> None then None
         else case currentMessageInputBuffer ctx of
           None \<Rightarrow> Some (True, err, sc, evs)
         | Some m \<Rightarrow>
             if \<not> expired then do {
               scEvent \<leftarrow> SC_Chunks_MsgTypeToRcvEvent (currentMsgType ctx) (currentMsgIsFinal ctx);
               if mem_ok (sc_enc env) sizeof_LooperEvent then
                 (if mem_ok (sc_enc env) sizeof_list_elt
                  then Some (True, err, clr,
                    evs @ [\<lparr>le_event = scEvent, le_eltId = scIdx, le_params = Some m, le_auxParam = rid\<rparr>])
                  else Some (False, OpcUa_BadOutOfMemory, clr, evs))
               else Some (False, err, clr, evs) }
             else Some (True, err, clr, evs))"

text \<open>
  The loop of \<open>SC_Chunks_TreatReceivedBuffer\<close>; it ends on an error, when there are not enough bytes for a
  chunk, and when the received bytes are used up.
\<close>

partial_function (option) receive_loop ::
  "sc_env \<Rightarrow> u32 \<Rightarrow> u32 \<Rightarrow> SOPC_StatusCode \<Rightarrow> SOPC_SecureConnection \<Rightarrow> SOPC_LooperEvent list \<Rightarrow> SOPC_Buffer \<Rightarrow>
   (bool \<times> SOPC_StatusCode \<times> SOPC_SecureConnection \<times> SOPC_LooperEvent list \<times> SOPC_Buffer) option" where
  "receive_loop env scIdx rid err sc evs rb =
     (if buf_length rb - position rb = 0 then Some (True, err, sc, evs, rb)
      else case (case currentChunkInputBuffer (chunksCtx sc) of
                   None \<Rightarrow> SOPC_Buffer_Create (sc_enc env) (receiveBufferSize (tcpMsgProperties sc))
                 | Some b \<Rightarrow> Some b) of
        None \<Rightarrow> Some (False, OpcUa_BadOutOfMemory, sc, evs, rb)
      | Some b \<Rightarrow>
          Option.bind (SC_Chunks_DecodeReceivedBuffer env ((chunksCtx sc)\<lparr>currentChunkInputBuffer := Some b\<rparr>) (Some rb))
            (\<lambda>(complete, err, ctx, rb). Option.bind rb (\<lambda>rb.
               if \<not> complete then Some (err = SOPC_GoodGenericStatus, err, set_ctx ctx sc, evs, rb)
               else
                 (let (ok, err) = SC_Chunks_CheckMultiChunkContext ctx (tcpMsgProperties sc) err
                  in if \<not> ok then Some (False, err, set_ctx ctx sc, evs, rb)
                     else Option.bind (SC_Chunks_TreatTcpPayload env rid err (set_ctx ctx sc))
                       (\<lambda>(ok, err, rid, expired, fl, sc).
                          if \<not> ok then Some (False, err, sc, evs, rb)
                          else Option.bind (deliver_message env scIdx rid expired err sc evs)
                            (\<lambda>(ok, err, sc, evs).
                               if ok then receive_loop env scIdx rid err sc evs rb
                               else Some (False, err, sc, evs, rb)))))))"

text \<open>
  \<open>SOPC_SecureChannels_EnqueueInternalEventAsNext\<close> puts an event in front of the waiting ones; the events
  of the received messages are taken from the end of their list and put one after the other in front.
\<close>

definition enqueue_as_next :: "SOPC_LooperEvent list \<Rightarrow> SOPC_LooperEvent list \<Rightarrow> SOPC_LooperEvent list" where
  "enqueue_as_next evs queue = fold (\<lambda>e q. e # q) (rev evs) queue"

definition SC_Chunks_TreatReceivedBuffer ::
  "sc_env \<Rightarrow> u32 \<Rightarrow> SOPC_SecureConnection \<Rightarrow> SOPC_Buffer \<Rightarrow> SOPC_LooperEvent list \<Rightarrow>
   (SOPC_SecureConnection \<times> SOPC_LooperEvent list) option" where
  "SC_Chunks_TreatReceivedBuffer env scIdx sc rb queue =
     (if position rb \<noteq> 0 then None
      else do {
        (result, err, sc, evs, _) \<leftarrow>
          (if mem_ok (sc_enc env) sizeof_list then receive_loop env scIdx 0 SOPC_GoodGenericStatus sc [] rb
           else Some (False, OpcUa_BadOutOfMemory, sc, [], rb));
        if result then Some (sc, enqueue_as_next evs queue)
        else Some (set_ctx (SOPC_ScInternalContext_ClearInputChunksContext (chunksCtx sc)) sc,
          enqueue_as_next [\<lparr>le_event = INT_SC_RCV_FAILURE, le_eltId = scIdx, le_params = None, le_auxParam = err\<rparr>] queue) })"

definition SOPC_ChunksMgr_OnSocketEvent ::
  "sc_env \<Rightarrow> u32 \<Rightarrow> SOPC_SecureConnection \<Rightarrow> bufp \<Rightarrow> SOPC_LooperEvent list \<Rightarrow>
   (SOPC_SecureConnection \<times> SOPC_LooperEvent list) option" where
  "SOPC_ChunksMgr_OnSocketEvent env scIdx sc buffer queue =
     (if buffer = None \<or> sc_state sc = SECURE_CONNECTION_STATE_SC_CLOSED \<or> sc_state sc = SECURE_CONNECTION_STATE_SC_CLOSING
      then Some (sc, queue)
      else
        (let (st, b) = SOPC_Buffer_SetPosition buffer 0
         in if st \<noteq> SOPC_STATUS_OK
            then Some (sc, enqueue_as_next [\<lparr>le_event = INT_SC_RCV_FAILURE, le_eltId = scIdx, le_params = None,
                                             le_auxParam = OpcUa_BadInvalidArgument\<rparr>] queue)
            else do { b \<leftarrow> b; SC_Chunks_TreatReceivedBuffer env scIdx sc b queue }))"

end
