(* ===== verification/Chunks_Laws.thy ===== *)
theory Chunks_Laws
  imports Chunks_Receive
begin

text \<open>
  Cutting the received bytes into chunks: the effect of \<open>fill_buffer\<close>, the invariant of the chunk in
  reception, and the proof that the cut does not depend on how the bytes arrive.
\<close>

section \<open>Appending to a buffer\<close>

definition unread :: "SOPC_Buffer \<Rightarrow> byte list" where
  "unread b = stream_rest (stream_of b)"

definition buf_append :: "byte list \<Rightarrow> SOPC_Buffer \<Rightarrow> SOPC_Buffer" where
  "buf_append bs b =
     b\<lparr>buf_data := map_option (\<lambda>d. take (unat (buf_length b)) d @ bs @ drop (unat (buf_length b) + length bs) d) (buf_data b),
       buf_length := buf_length b + of_nat (length bs)\<rparr>"

abbreviation room :: "SOPC_Buffer \<Rightarrow> nat" where
  "room b \<equiv> unat (current_size b) - unat (buf_length b)"

lemma length_unread: "buf_wf b \<Longrightarrow> length (unread b) = unat (buf_length b) - unat (position b)"
  by (simp add: unread_def stream_rest_of)

lemma unat_remaining: "buf_wf b \<Longrightarrow> unat (buf_length b - position b) = length (unread b)"
  by (simp add: length_unread buf_wf_def u32_le_iff unat_sub_if' split: option.splits)

lemma remaining_0: "buf_wf b \<Longrightarrow> buf_length b - position b = 0 \<longleftrightarrow> unread b = []"
  using unat_remaining [of b] by (metis length_0_conv unat_eq_zero)

lemma unat_room: "buf_wf b \<Longrightarrow> unat (current_size b - buf_length b) = room b"
  by (simp add: buf_wf_def u32_le_iff unat_sub_if' split: option.splits)

lemma unread_advance: "buf_wf b \<Longrightarrow> n \<le> length (unread b) \<Longrightarrow> unread (buf_advance n b) = drop n (unread b)"
  unfolding unread_def
  by (rule stream_rest_advance) (auto simp: stream_rest_of buf_wf_def u32_le_iff split: option.splits)

lemma wf_advance: "buf_wf b \<Longrightarrow> n \<le> length (unread b) \<Longrightarrow> buf_wf (buf_advance n b)"
  by (rule buf_wf_advance) (auto simp: length_unread buf_wf_def u32_le_iff split: option.splits)

lemma unat_append_length:
  "buf_wf b \<Longrightarrow> length bs \<le> room b \<Longrightarrow> unat (buf_length b + of_nat (length bs)) = unat (buf_length b) + length bs"
  using unat_lt_u32 [of "current_size b"]
  by (subst unat_add_u32) (auto simp: unat_of_nat_u32 buf_wf_def u32_le_iff split: option.splits)

lemma buf_append_fields [simp]:
  "position (buf_append bs b) = position b" "current_size (buf_append bs b) = current_size b"
  "maximum_size (buf_append bs b) = maximum_size b" "initial_size (buf_append bs b) = initial_size b"
  by (simp_all add: buf_append_def)

lemma buf_append_Nil [simp]: "buf_append [] b = b"
  by (cases "buf_data b") (simp_all add: buf_append_def)

lemma wf_append:
  assumes "buf_wf b" "length bs \<le> room b"
  shows "buf_wf (buf_append bs b)" "unat (buf_length (buf_append bs b)) = unat (buf_length b) + length bs"
    "room (buf_append bs b) = room b - length bs" "unread (buf_append bs b) = unread b @ bs"
proof -
  from assms(1) obtain d where d: "buf_data b = Some d" "length d = unat (current_size b)"
    "unat (position b) \<le> unat (buf_length b)" "unat (buf_length b) \<le> unat (current_size b)"
    "unat (current_size b) \<le> unat (maximum_size b)" "initial_size b = 0 \<longrightarrow> current_size b = maximum_size b"
    by (rule buf_wfE)
  note len = unat_append_length [OF assms]
  show u: "unat (buf_length (buf_append bs b)) = unat (buf_length b) + length bs"
    using len by (simp add: buf_append_def)
  show "buf_wf (buf_append bs b)"
    using d len assms(2) by (auto simp: buf_wf_def buf_append_def u32_le_iff)
  show "room (buf_append bs b) = room b - length bs" using u by simp
  have "take (unat (buf_length b) + length bs) (take (unat (buf_length b)) d @ bs @ drop (unat (buf_length b) + length bs) d)
      = take (unat (buf_length b)) d @ bs"
    using d by simp
  then show "unread (buf_append bs b) = unread b @ bs"
    using d len by (simp add: unread_def stream_rest_def buf_bytes_def buf_append_def)
qed

lemma buf_append_append:
  assumes "buf_wf b" "length xs + length ys \<le> room b"
  shows "buf_append ys (buf_append xs b) = buf_append (xs @ ys) b"
proof -
  from assms(1) obtain d where d: "buf_data b = Some d" "length d = unat (current_size b)"
    "unat (buf_length b) \<le> unat (current_size b)" by (rule buf_wfE)
  have "length xs \<le> room b" using assms(2) by simp
  note len = unat_append_length [OF assms(1) this]
  show ?thesis using d len by (simp add: buf_append_def ac_simps)
qed

section \<open>Filling a buffer\<close>

lemma ReadFrom_ok:
  assumes wf: "buf_wf dst" "buf_wf src" and n: "unat n \<le> room dst"
  defines "k \<equiv> min (unat n) (length (unread src))"
  shows "SOPC_Buffer_ReadFrom (Some dst) (Some src) n =
    Some (int k, Some (buf_append (take k (unread src)) dst), Some (buf_advance k src))"
proof -
  from wf(1) obtain d where d: "buf_data dst = Some d" "length d = unat (current_size dst)"
    "unat (buf_length dst) \<le> unat (current_size dst)" by (rule buf_wfE)
  from wf(2) obtain s where s: "buf_data src = Some s" "length s = unat (current_size src)"
    "unat (position src) \<le> unat (buf_length src)" "unat (buf_length src) \<le> unat (current_size src)"
    by (rule buf_wfE)
  define m where "m = (if buf_length src - position src < n then buf_length src - position src else n)"
  have m: "unat m = k"
    using unat_remaining [OF wf(2)] by (auto simp: m_def k_def u32_less_iff min_def)
  have fit: "\<not> current_size dst - buf_length dst < n" using n unat_room [OF wf(1)] by (simp add: u32_less_iff)
  have k: "k \<le> length (unread src)" "k \<le> room dst" using n by (auto simp: k_def)
  have rd: "mem_read s (unat (position src)) k = Some (take k (unread src))"
    using s k(1) length_unread [OF wf(2)]
    by (simp add: mem_read_def unread_def stream_rest_def buf_bytes_def drop_take min_absorb1)
  have wr: "mem_write d (unat (buf_length dst)) (take k (unread src)) =
      Some (take (unat (buf_length dst)) d @ take k (unread src) @ drop (unat (buf_length dst) + k) d)"
    using d k by (simp add: mem_write_def min_absorb2)
  have w: "m = of_nat k" using m by (rule word_of_unat)
  have "SOPC_Buffer_ReadFrom (Some dst) (Some src) n =
      Some (uint m, Some (dst\<lparr>buf_data := Some (take (unat (buf_length dst)) d @ take k (unread src) @
              drop (unat (buf_length dst) + k) d), buf_length := buf_length dst + m\<rparr>),
            Some (src\<lparr>position := position src + m\<rparr>))"
    using fit d(1) s(1) rd wr m by (simp add: SOPC_Buffer_ReadFrom_def m_def [symmetric])
  then show ?thesis
    using d(1) k(1) unfolding w
    by (simp add: buf_append_def buf_advance_def min_absorb2 uint_nat m [unfolded w])
qed

lemma ReadFrom_no_room:
  assumes "buf_wf dst" "room dst < unat n"
  shows "SOPC_Buffer_ReadFrom (Some dst) (Some src) n = Some (-1, Some dst, Some src)"
  using assms unat_room [OF assms(1)] by (simp add: SOPC_Buffer_ReadFrom_def u32_less_iff)

text \<open>
  Filling up to \<open>n\<close> unread bytes: refused without room for them all, otherwise the available ones of the
  missing bytes are moved.
\<close>

lemma fill_buffer_spec:
  fixes n :: u32
  assumes wf: "buf_wf dst" "buf_wf src"
  defines "missing \<equiv> unat n - length (unread dst)"
  defines "k \<equiv> min missing (length (unread src))"
  shows "fill_buffer (Some dst) (Some src) n rem0 =
    (if missing \<le> room dst
     then Some (True, of_nat (missing - k), Some (buf_append (take k (unread src)) dst), Some (buf_advance k src))
     else Some (False, rem0, Some dst, Some src))"
proof (cases "missing = 0")
  case True
  then have "unat n \<le> length (unread dst)" by (simp add: missing_def)
  then have "buf_length dst - position dst \<ge> n" using unat_remaining [OF wf(1)] by (simp add: u32_le_iff)
  then show ?thesis using True by (simp add: fill_buffer_def SOPC_Buffer_Remaining_def k_def)
next
  case False
  then have less: "length (unread dst) < unat n" by (simp add: missing_def)
  let ?h = "buf_length dst - position dst"
  have h: "unat ?h = length (unread dst)" by (rule unat_remaining [OF wf(1)])
  have not: "\<not> n \<le> ?h" using less h by (simp add: u32_le_iff)
  have m: "unat (n - ?h) = missing" using not h by (simp add: u32_le_iff unat_sub_if' missing_def)
  show ?thesis
  proof (cases "missing \<le> room dst")
    case True
    note rd = ReadFrom_ok [OF wf, of "n - ?h", unfolded m, OF True, folded k_def]
    let ?d = "buf_append (take k (unread src)) dst"
    have len: "length (take k (unread src)) = k" by (simp add: k_def)
    have kr: "length (take k (unread src)) \<le> room dst" using True len by (simp add: k_def)
    have rest: "unat (buf_length ?d - position ?d) = length (unread dst) + k"
      using unat_remaining [OF wf_append(1) [OF wf(1) kr]] wf_append(4) [OF wf(1) kr] len by simp
    define u where "u = buf_length ?d - position ?d"
    have "length (unread dst) + k \<le> unat n" using less by (simp add: missing_def k_def)
    then have "unat (n - u) = missing - k"
      using rest unfolding u_def [symmetric] by (simp add: unat_sub_if' missing_def k_def)
    then have left: "n - (buf_length ?d - position ?d) = of_nat (missing - k)"
      unfolding u_def by (rule word_of_unat)
    show ?thesis
      using True not rd left by (simp add: fill_buffer_def SOPC_Buffer_Remaining_def)
  next
    case no: False
    then show ?thesis
      using not ReadFrom_no_room [OF wf(1), of "n - ?h" src] m
      by (simp add: fill_buffer_def SOPC_Buffer_Remaining_def)
  qed
qed

section \<open>Reading the headers\<close>

lemma Buffer_Read_ok:
  assumes "buf_wf b" "n \<le> length (unread b)" "length dst = n" "n < 2 ^ 32"
  shows "SOPC_Buffer_Read (Some dst) (Some b) (of_nat n) =
    Some (SOPC_STATUS_OK, Some (take n (unread b)), Some (buf_advance n b))"
proof -
  have n: "unat (of_nat n :: u32) = n" using assms(4) by (rule unat_of_nat_u32)
  have "unat (position b) + n \<le> unat (buf_length b)"
    using assms(1,2) by (auto simp: length_unread buf_wf_def u32_le_iff split: option.splits)
  then show ?thesis
    using SOPC_Buffer_Read_ok [OF assms(1), of "of_nat n" dst] n assms(3) by (simp add: unread_def)
qed

definition u32_of :: "byte list \<Rightarrow> u32" where
  "u32_of bs = of_nat (le_nat (take 4 bs))"

lemma UInt32_Read_ok:
  assumes "buf_wf b" "4 \<le> length (unread b)" "0 < max_level env"
  shows "SOPC_UInt32_Read env (Some v) (Some b) 0 =
    Some (SOPC_STATUS_OK, Some (u32_of (unread b)), Some (buf_advance 4 b))"
  using Buffer_Read_ok [OF assms(1,2), of "le_bytes 4 (unat v)"] assms(3)
  by (simp add: SOPC_UInt32_Read_def read_word_def u32_of_def)

lemma UInt32_Read_short:
  assumes "buf_wf b" "length (unread b) < 4" "0 < max_level env" "unat (buf_length b) \<le> 2 ^ 31"
  shows "\<exists>st v'. SOPC_UInt32_Read env (Some v) (Some b) 0 = Some (st, Some v', Some b) \<and> st \<noteq> SOPC_STATUS_OK"
proof -
  have "unat (position b) \<le> unat (buf_length b)" using assms(1) by (auto elim: buf_wfE)
  then have "unat (position b) + unat (4 :: u32) < 2 ^ 32" "unat (buf_length b) < unat (position b) + unat (4 :: u32)"
    using assms(2,4) length_unread [OF assms(1)] by simp_all
  from SOPC_Buffer_Read_short [OF assms(1) this, of "Some (le_bytes 4 (unat v))"]
  show ?thesis using assms(3) by (simp add: SOPC_UInt32_Read_def read_word_def read_status_def)
qed

text \<open>What the first eight bytes of a message say.\<close>

definition header_result ::
  "SOPC_StatusCode \<Rightarrow> byte list \<Rightarrow> SOPC_Buffer \<Rightarrow> SOPC_SecureConnection_ChunkMgrCtx \<Rightarrow>
   bool \<times> SOPC_StatusCode \<times> SOPC_SecureConnection_ChunkMgrCtx" where
  "header_result err h b ctx =
     (let t = decode_msg_type (take 3 h); f = decode_is_final (h ! 3); sz = u32_of (drop 4 h)
      in if t = SOPC_MSG_TYPE_INVALID
         then (False, OpcUa_BadTcpMessageTypeInvalid, ctx\<lparr>currentChunkInputBuffer := Some (buf_advance 3 b)\<rparr>)
         else if f = SOPC_MSG_ISFINAL_INVALID \<or> (t \<noteq> SOPC_MSG_TYPE_SC_MSG \<and> f \<noteq> SOPC_MSG_ISFINAL_FINAL)
         then (False, OpcUa_BadTcpMessageTypeInvalid,
           ctx\<lparr>currentMsgType := t, currentMsgIsFinal := f, currentChunkInputBuffer := Some (buf_advance 4 b)\<rparr>)
         else
           (let ctx = ctx\<lparr>currentMsgType := t, currentMsgIsFinal := f, currentMsgSize := sz,
                          currentChunkInputBuffer := Some (buf_advance 8 b)\<rparr>
            in if sz \<le> 8 then (False, OpcUa_BadEncodingError, ctx)
               else if sz > maximum_size b then (False, OpcUa_BadTcpMessageTooLarge, ctx)
               else (True, err, ctx)))"

definition ctx_fresh :: "SOPC_SecureConnection_ChunkMgrCtx \<Rightarrow> bool" where
  "ctx_fresh ctx \<longleftrightarrow> currentMsgSize ctx = 0 \<and> currentMsgType ctx = SOPC_MSG_TYPE_INVALID \<and>
     currentMsgIsFinal ctx = SOPC_MSG_ISFINAL_INVALID"

lemma DecodeTcpMsgHeader_spec:
  assumes b: "currentChunkInputBuffer ctx = Some b" "buf_wf b" "8 \<le> length (unread b)"
    and fresh: "ctx_fresh ctx" and lvl: "0 < sc_level env"
  shows "SC_Chunks_DecodeTcpMsgHeader env err ctx = Some (header_result err (unread b) b ctx)"
proof -
  let ?u = "unread b"
  have "SOPC_TCP_UA_HEADER_LENGTH \<le> buf_length b - position b"
    using b(3) unat_remaining [OF b(2)] by (simp add: u32_le_iff SOPC_TCP_UA_HEADER_LENGTH_def)
  note start = this fresh [unfolded ctx_fresh_def]
  have r3: "SOPC_Buffer_Read (Some [0, 0, 0]) (Some b) 3 = Some (SOPC_STATUS_OK, Some (take 3 ?u), Some (buf_advance 3 b))"
    using Buffer_Read_ok [OF b(2), of 3 "[0, 0, 0]"] b(3) by simp
  have w3: "buf_wf (buf_advance 3 b)" "unread (buf_advance 3 b) = drop 3 ?u"
    using wf_advance [OF b(2), of 3] unread_advance [OF b(2), of 3] b(3) by simp_all
  have r1: "SOPC_Buffer_Read (Some [0]) (Some (buf_advance 3 b)) 1 =
      Some (SOPC_STATUS_OK, Some (take 1 (drop 3 ?u)), Some (buf_advance 4 b))"
    using Buffer_Read_ok [OF w3(1), of 1 "[0]"] w3(2) b(3) by (simp add: buf_advance_advance)
  have hd: "hd (take 1 (drop 3 ?u)) = ?u ! 3" using b(3) by (simp add: hd_drop_conv_nth)
  have w4: "buf_wf (buf_advance 4 b)" "unread (buf_advance 4 b) = drop 4 ?u"
    using wf_advance [OF b(2), of 4] unread_advance [OF b(2), of 4] b(3) by simp_all
  have r4: "SOPC_UInt32_Read (sc_enc env) (Some v) (Some (buf_advance 4 b)) 0 =
      Some (SOPC_STATUS_OK, Some (u32_of (drop 4 ?u)), Some (buf_advance 8 b))" for v
    using UInt32_Read_ok [OF w4(1) _ lvl] w4(2) b(3) by (simp add: buf_advance_advance)
  show ?thesis
    unfolding SC_Chunks_DecodeTcpMsgHeader_def header_result_def
    using b(1) start r3 r1 r4 hd
    by (auto simp: read_msg_type_def read_is_final_def read_msg_size_def Let_def protocol_lengths)
qed

section \<open>The chunk in reception\<close>

text \<open>
  Between two received packets: either no buffer, or a buffer with less than a header, or a decoded
  header and less than the rest of the chunk.
\<close>

definition partial_chunk :: "u32 \<Rightarrow> SOPC_SecureConnection_ChunkMgrCtx \<Rightarrow> SOPC_Buffer \<Rightarrow> bool" where
  "partial_chunk R ctx b \<longleftrightarrow> buf_wf b \<and> current_size b = R \<and> maximum_size b = R \<and>
     (if currentMsgSize ctx = 0 then ctx_fresh ctx \<and> position b = 0 \<and> length (unread b) < 8
      else currentMsgType ctx \<noteq> SOPC_MSG_TYPE_INVALID \<and> currentMsgIsFinal ctx \<noteq> SOPC_MSG_ISFINAL_INVALID \<and>
        8 < unat (currentMsgSize ctx) \<and> unat (currentMsgSize ctx) \<le> unat R \<and> position b = 8 \<and>
        length (unread b) < unat (currentMsgSize ctx) - 8)"

definition chunk_inv :: "u32 \<Rightarrow> SOPC_SecureConnection_ChunkMgrCtx \<Rightarrow> bool" where
  "chunk_inv R ctx \<longleftrightarrow> currentMessageInputBuffer ctx = None \<and>
     (case currentChunkInputBuffer ctx of None \<Rightarrow> ctx_fresh ctx | Some b \<Rightarrow> partial_chunk R ctx b)"

text \<open>The decoding as a function of the bytes: the result, the context and how many bytes were used.\<close>

definition decode_payload ::
  "SOPC_SecureConnection_ChunkMgrCtx \<Rightarrow> SOPC_Buffer \<Rightarrow> byte list \<Rightarrow>
   bool \<times> SOPC_StatusCode \<times> SOPC_SecureConnection_ChunkMgrCtx \<times> nat" where
  "decode_payload ctx b u =
     (let missing = unat (currentMsgSize ctx) - 8 - length (unread b); k = min missing (length u)
      in (k = missing, SOPC_GoodGenericStatus, ctx\<lparr>currentChunkInputBuffer := Some (buf_append (take k u) b)\<rparr>, k))"

definition decode_bytes ::
  "SOPC_SecureConnection_ChunkMgrCtx \<Rightarrow> SOPC_Buffer \<Rightarrow> byte list \<Rightarrow>
   bool \<times> SOPC_StatusCode \<times> SOPC_SecureConnection_ChunkMgrCtx \<times> nat" where
  "decode_bytes ctx b u =
     (if currentMsgSize ctx \<noteq> 0 then decode_payload ctx b u
      else
        (let k = min (8 - length (unread b)) (length u);
             b = buf_append (take k u) b; ctx = ctx\<lparr>currentChunkInputBuffer := Some b\<rparr>
         in if length (unread b) < 8 then (False, SOPC_GoodGenericStatus, ctx, k)
            else case header_result SOPC_GoodGenericStatus (unread b) b ctx of
              (ok, err, ctx) \<Rightarrow>
                if \<not> ok then (False, err, ctx, k)
                else case decode_payload ctx (buf_advance 8 b) (drop k u) of
                  (c, err, ctx, k2) \<Rightarrow> (c, err, ctx, k + k2)))"

lemma buf_append_room_payload:
  assumes "partial_chunk R ctx b" "currentMsgSize ctx \<noteq> 0"
  shows "unat (currentMsgSize ctx) - 8 - length (unread b) \<le> room b"
proof -
  have b: "buf_wf b" "current_size b = R" "position b = 8" "unat (currentMsgSize ctx) \<le> unat R"
    using assms by (auto simp: partial_chunk_def)
  have "unat (position b) \<le> unat (buf_length b)" using b(1) by (auto elim: buf_wfE)
  then have "unat (buf_length b) = length (unread b) + 8" using length_unread [OF b(1)] b(3) by simp
  then show ?thesis using b by simp
qed

lemma fill_payload:
  assumes b: "buf_wf b" "unat (currentMsgSize ctx) - 8 - length (unread b) \<le> room b" "8 < unat (currentMsgSize ctx)"
    and rb: "buf_wf rb"
  shows "(\<exists>rem. fill_buffer (Some b) (Some rb) (currentMsgSize ctx - SOPC_TCP_UA_HEADER_LENGTH) r0 =
      Some (True, rem, currentChunkInputBuffer (fst (snd (snd (decode_payload ctx b (unread rb))))),
        Some (buf_advance (snd (snd (snd (decode_payload ctx b (unread rb))))) rb)) \<and>
      (rem = 0 \<longleftrightarrow> fst (decode_payload ctx b (unread rb))))"
proof -
  let ?n = "currentMsgSize ctx - SOPC_TCP_UA_HEADER_LENGTH"
  have n: "unat ?n = unat (currentMsgSize ctx) - 8"
    using b(3) by (simp add: SOPC_TCP_UA_HEADER_LENGTH_def unat_sub_if')
  define m where "m = unat (currentMsgSize ctx) - 8 - length (unread b)"
  define k where "k = min m (length (unread rb))"
  have "m - k < 2 ^ 32" using unat_lt_u32 [of "currentMsgSize ctx"] by (simp add: m_def)
  then have "(of_nat (m - k) :: u32) = 0 \<longleftrightarrow> m = k"
    using unat_of_nat_u32 [of "m - k"] by (auto simp: k_def)
  moreover have "decode_payload ctx b (unread rb) = (k = m, SOPC_GoodGenericStatus,
      ctx\<lparr>currentChunkInputBuffer := Some (buf_append (take k (unread rb)) b)\<rparr>, k)"
    unfolding decode_payload_def Let_def m_def k_def ..
  moreover have "m \<le> room b" using b(2) by (simp add: m_def)
  ultimately show ?thesis
    using fill_buffer_spec [OF b(1) rb, of ?n r0, unfolded n, folded m_def, folded k_def] by auto
qed

lemma header_result_ok:
  assumes "header_result err h b ctx = (True, err', ctx')"
  shows "err' = err" "currentMsgType ctx' \<noteq> SOPC_MSG_TYPE_INVALID" "currentMsgIsFinal ctx' \<noteq> SOPC_MSG_ISFINAL_INVALID"
    "8 < unat (currentMsgSize ctx')" "unat (currentMsgSize ctx') \<le> unat (maximum_size b)"
    "currentChunkInputBuffer ctx' = Some (buf_advance 8 b)"
  using assms by (auto simp: header_result_def Let_def u32_le_iff u32_less_iff split: if_splits)

lemma decode_payload_used: "decode_payload ctx b u = (c, err, ctx', k) \<Longrightarrow> k \<le> length u"
  by (auto simp: decode_payload_def Let_def)

lemma decode_bytes_used: "decode_bytes ctx b u = (c, err, ctx', k) \<Longrightarrow> k \<le> length u"
  by (auto simp: decode_bytes_def Let_def split: if_splits prod.splits dest!: decode_payload_used)

text \<open>The header buffer after the missing bytes of the header were appended.\<close>

lemma fresh_append:
  assumes p: "partial_chunk R ctx b" "currentMsgSize ctx = 0" and R: "8 \<le> unat R" and bs: "length (unread b) + length bs \<le> 8"
  shows "buf_wf (buf_append bs b)" "unread (buf_append bs b) = unread b @ bs" "length bs \<le> room b"
    "position (buf_append bs b) = 0" "room (buf_append bs b) = unat R - length (unread b) - length bs"
proof -
  have b: "buf_wf b" "current_size b = R" "position b = 0" using p by (auto simp: partial_chunk_def)
  have len: "unat (buf_length b) = length (unread b)" using length_unread [OF b(1)] b(3) by simp
  then show r: "length bs \<le> room b" using b(2) R bs by simp
  note w = wf_append [OF b(1) r]
  show "buf_wf (buf_append bs b)" "unread (buf_append bs b) = unread b @ bs" by (fact w)+
  show "position (buf_append bs b) = 0" using b(3) by simp
  show "room (buf_append bs b) = unat R - length (unread b) - length bs" using w(3) len b(2) by simp
qed

lemma fill_header:
  assumes p: "partial_chunk R ctx b" "currentMsgSize ctx = 0" and R: "8 \<le> unat R" and rb: "buf_wf rb"
  defines "k \<equiv> min (8 - length (unread b)) (length (unread rb))"
  shows "\<exists>rem. fill_buffer (Some b) (Some rb) SOPC_TCP_UA_HEADER_LENGTH 0 =
      Some (True, rem, Some (buf_append (take k (unread rb)) b), Some (buf_advance k rb)) \<and>
      (rem > 0 \<longleftrightarrow> length (unread b) + k < 8)"
proof -
  have b: "buf_wf b" "length (unread b) < 8" using p by (auto simp: partial_chunk_def)
  define m where "m = 8 - length (unread b)"
  have mr: "m \<le> room b"
    using fresh_append(3) [OF p R, of "replicate m 0"] b(2) by (simp add: m_def)
  have "m - k < 2 ^ 32" by (simp add: m_def)
  then have "unat (of_nat (m - k) :: u32) = m - k" by (rule unat_of_nat_u32)
  then have "(of_nat (m - k) :: u32) > 0 \<longleftrightarrow> k < m" by (metis unat_gt_0 word_gt_0 zero_less_diff)
  moreover have "k < m \<longleftrightarrow> length (unread b) + k < 8" using b(2) by (auto simp: m_def)
  ultimately show ?thesis
    using fill_buffer_spec [OF b(1) rb, of SOPC_TCP_UA_HEADER_LENGTH 0] mr
    by (simp add: SOPC_TCP_UA_HEADER_LENGTH_def m_def k_def)
qed

lemma decode_payload_simps:
  "currentMsgType (fst (snd (snd (decode_payload ctx b u)))) = currentMsgType ctx"
  "fst (snd (decode_payload ctx b u)) = SOPC_GoodGenericStatus"
  by (simp_all add: decode_payload_def Let_def)

lemma decode_payload_chunk:
  "ctx\<lparr>currentChunkInputBuffer := currentChunkInputBuffer (fst (snd (snd (decode_payload ctx b u))))\<rparr> =
    fst (snd (snd (decode_payload ctx b u)))"
  by (simp add: decode_payload_def Let_def)

lemma DecodeReceivedBuffer_bytes:
  assumes b: "currentChunkInputBuffer ctx = Some b" "partial_chunk R ctx b" and R: "8 \<le> unat R"
    and rb: "buf_wf rb" and lvl: "0 < sc_level env"
    and d: "decode_bytes ctx b (unread rb) = (c, err, ctx', k)"
  shows "SC_Chunks_DecodeReceivedBuffer env ctx (Some rb) = Some (c, err, ctx', Some (buf_advance k rb))"
proof (cases "currentMsgSize ctx = 0")
  case False
  have wf: "buf_wf b" "8 < unat (currentMsgSize ctx)" using b(2) False by (auto simp: partial_chunk_def)
  have dp: "decode_payload ctx b (unread rb) = (c, err, ctx', k)" using d False by (simp add: decode_bytes_def)
  obtain rem where f: "fill_buffer (Some b) (Some rb) (currentMsgSize ctx - SOPC_TCP_UA_HEADER_LENGTH) 0 =
      Some (True, rem, currentChunkInputBuffer ctx', Some (buf_advance k rb))" "rem = 0 \<longleftrightarrow> c"
    using fill_payload [OF wf(1) buf_append_room_payload [OF b(2) False] wf(2) rb, of 0] dp by auto
  have e: "err = SOPC_GoodGenericStatus" "ctx\<lparr>currentChunkInputBuffer := currentChunkInputBuffer ctx'\<rparr> = ctx'"
    using decode_payload_simps(2) [of ctx b "unread rb"] decode_payload_chunk [of ctx b "unread rb"] dp by simp_all
  have "currentMsgSize ctx > 0" using False by (simp add: word_gt_0)
  then show ?thesis
    using False b f e by (simp add: SC_Chunks_DecodeReceivedBuffer_def partial_chunk_def)
next
  case True
  define k1 where "k1 = min (8 - length (unread b)) (length (unread rb))"
  define b1 where "b1 = buf_append (take k1 (unread rb)) b"
  let ?ctx1 = "ctx\<lparr>currentChunkInputBuffer := Some b1\<rparr>"
  have wfb: "buf_wf b" "length (unread b) < 8" "ctx_fresh ctx" "maximum_size b = R"
    using b(2) True by (auto simp: partial_chunk_def)
  have k1: "length (take k1 (unread rb)) = k1" "k1 \<le> length (unread rb)" "length (unread b) + k1 \<le> 8"
    using wfb(2) by (auto simp: k1_def)
  note fa = fresh_append [OF b(2) True R, of "take k1 (unread rb)", folded b1_def, unfolded k1(1), OF k1(3)]
  obtain rem where f: "fill_buffer (Some b) (Some rb) SOPC_TCP_UA_HEADER_LENGTH 0 =
      Some (True, rem, Some b1, Some (buf_advance k1 rb))" "rem > 0 \<longleftrightarrow> length (unread b) + k1 < 8"
    using fill_header [OF b(2) True R rb, folded k1_def, folded b1_def] by blast
  have u1: "length (unread b1) = length (unread b) + k1" using fa(2) k1(1) by simp
  have d': "(if length (unread b1) < 8 then (False, SOPC_GoodGenericStatus, ?ctx1, k1)
     else case header_result SOPC_GoodGenericStatus (unread b1) b1 ?ctx1 of
       (ok, err, ctx) \<Rightarrow>
         if \<not> ok then (False, err, ctx, k1)
         else case decode_payload ctx (buf_advance 8 b1) (drop k1 (unread rb)) of
           (c, err, ctx, k2) \<Rightarrow> (c, err, ctx, k1 + k2)) = (c, err, ctx', k)"
    using d True unfolding decode_bytes_def Let_def k1_def b1_def by simp
  show ?thesis
  proof (cases "length (unread b1) < 8")
    case short: True
    then show ?thesis
      using d' f u1 True b(1) by (auto simp: SC_Chunks_DecodeReceivedBuffer_def)
  next
    case False
    then have full: "length (unread b1) = 8" using u1 k1(3) by simp
    obtain ok e ctx2 where h: "header_result SOPC_GoodGenericStatus (unread b1) b1 ?ctx1 = (ok, e, ctx2)"
      by (metis prod_cases3)
    have dec: "SC_Chunks_DecodeTcpMsgHeader env SOPC_GoodGenericStatus ?ctx1 = Some (ok, e, ctx2)"
      using DecodeTcpMsgHeader_spec [of ?ctx1 b1 env SOPC_GoodGenericStatus] fa(1) full wfb(3) lvl h
      by (simp add: ctx_fresh_def)
    show ?thesis
    proof (cases ok)
      case False
      then show ?thesis
        using d' f u1 full True b(1) dec h by (auto simp: SC_Chunks_DecodeReceivedBuffer_def)
    next
      case okT: True
      note ho = header_result_ok [OF h [unfolded eqTrueI [OF okT]]]
      let ?b2 = "buf_advance 8 b1" and ?rb = "buf_advance k1 rb"
      have w2: "buf_wf ?b2" "unread ?b2 = []"
        using wf_advance [OF fa(1), of 8] unread_advance [OF fa(1), of 8] full by simp_all
      have wrb: "buf_wf ?rb" "unread ?rb = drop k1 (unread rb)"
        using wf_advance [OF rb k1(2)] unread_advance [OF rb k1(2)] by simp_all
      have "unat (buf_length b1) = 8" using length_unread [OF fa(1)] fa(4) full by simp
      then have r2: "unat (currentMsgSize ctx2) - 8 - length (unread ?b2) \<le> room ?b2"
        using ho(5) wfb(4) b(2) by (simp add: b1_def partial_chunk_def)
      obtain c2 e2 ctx3 k2 where dp: "decode_payload ctx2 ?b2 (drop k1 (unread rb)) = (c2, e2, ctx3, k2)"
        by (metis prod_cases4)
      obtain rem2 where f2: "fill_buffer (Some ?b2) (Some ?rb) (currentMsgSize ctx2 - SOPC_TCP_UA_HEADER_LENGTH) rem =
          Some (True, rem2, currentChunkInputBuffer ctx3, Some (buf_advance k2 ?rb))" "rem2 = 0 \<longleftrightarrow> c2"
        using fill_payload [OF w2(1) r2 ho(4) wrb(1), of rem] dp wrb(2) by auto
      have e: "e2 = SOPC_GoodGenericStatus" "ctx2\<lparr>currentChunkInputBuffer := currentChunkInputBuffer ctx3\<rparr> = ctx3"
        using decode_payload_simps(2) [of ctx2 ?b2 "drop k1 (unread rb)"]
          decode_payload_chunk [of ctx2 ?b2 "drop k1 (unread rb)"] dp by simp_all
      have "currentMsgSize ctx2 > 0" using ho(4) by (simp add: u32_less_iff)
      then show ?thesis
        using d' f u1 full True b(1) dec h okT ho(1,2,3,6) f2 e dp
        by (auto simp: SC_Chunks_DecodeReceivedBuffer_def buf_advance_advance)
    qed
  qed
qed

section \<open>The cut does not depend on the packets\<close>

definition shift_used ::
  "nat \<Rightarrow> bool \<times> SOPC_StatusCode \<times> SOPC_SecureConnection_ChunkMgrCtx \<times> nat \<Rightarrow>
   bool \<times> SOPC_StatusCode \<times> SOPC_SecureConnection_ChunkMgrCtx \<times> nat" where
  "shift_used n r = (case r of (c, err, ctx, k) \<Rightarrow> (c, err, ctx, n + k))"

lemma decode_payload_more:
  assumes b: "buf_wf b" "unat (currentMsgSize ctx) - 8 - length (unread b) \<le> room b"
    and d: "decode_payload ctx b u = (False, err, ctx', k)"
  shows "k = length u" "ctx' = ctx\<lparr>currentChunkInputBuffer := Some (buf_append u b)\<rparr>"
    "length (unread b) + length u < unat (currentMsgSize ctx) - 8" "length u \<le> room b"
    "decode_payload ctx b (u @ v) = shift_used (length u) (decode_payload ctx' (buf_append u b) v)"
proof -
  define m where "m = unat (currentMsgSize ctx) - 8 - length (unread b)"
  have lt: "length u < m" using d by (auto simp: decode_payload_def Let_def m_def min_def split: if_splits)
  then show "k = length u" "ctx' = ctx\<lparr>currentChunkInputBuffer := Some (buf_append u b)\<rparr>"
    using d by (auto simp: decode_payload_def Let_def m_def)
  show "length (unread b) + length u < unat (currentMsgSize ctx) - 8" using lt by (simp add: m_def)
  show r: "length u \<le> room b" using lt b(2) by (simp add: m_def)
  define j where "j = min (m - length u) (length v)"
  have jv: "length (take j v) = j" by (simp add: j_def)
  have app: "buf_append (u @ take j v) b = buf_append (take j v) (buf_append u b)"
    using buf_append_append [OF b(1), of u "take j v"] lt b(2) jv by (simp add: j_def m_def)
  have mm: "min m (length (u @ v)) = length u + j" using lt unfolding j_def length_append by arith
  have tk: "take (length u + j) (u @ v) = u @ take j v" by simp
  have m2: "unat (currentMsgSize ctx') - 8 - length (unread (buf_append u b)) = m - length u"
    using wf_append(4) [OF b(1) r] \<open>ctx' = _\<close> by (simp add: m_def)
  have "decode_payload ctx b (u @ v) = (length u + j = m, SOPC_GoodGenericStatus,
      ctx\<lparr>currentChunkInputBuffer := Some (buf_append (u @ take j v) b)\<rparr>, length u + j)"
    unfolding decode_payload_def Let_def m_def [symmetric] mm tk ..
  moreover have "decode_payload ctx' (buf_append u b) v = (j = m - length u, SOPC_GoodGenericStatus,
      ctx\<lparr>currentChunkInputBuffer := Some (buf_append (take j v) (buf_append u b))\<rparr>, j)"
    unfolding decode_payload_def Let_def m2 j_def [symmetric] using \<open>ctx' = _\<close> by simp
  moreover have "(length u + j = m) = (j = m - length u)" using lt by auto
  ultimately show "decode_payload ctx b (u @ v) = shift_used (length u) (decode_payload ctx' (buf_append u b) v)"
    using app by (simp add: shift_used_def)
qed

lemma decode_payload_done:
  assumes "decode_payload ctx b u = (True, err, ctx', k)"
  shows "decode_payload ctx b (u @ v) = (True, err, ctx', k)" "k = unat (currentMsgSize ctx) - 8 - length (unread b)"
    "k \<le> length u" "ctx' = ctx\<lparr>currentChunkInputBuffer := Some (buf_append (take k u) b)\<rparr>" "err = SOPC_GoodGenericStatus"
  using assms by (auto simp: decode_payload_def Let_def min_def split: if_splits)

lemma header_result_not_good: "header_result err h b ctx = (False, err', ctx') \<Longrightarrow> err' \<noteq> SOPC_GoodGenericStatus"
  by (auto simp: header_result_def Let_def SOPC_GoodGenericStatus_def OpcUa_BadTcpMessageTypeInvalid_def
      OpcUa_BadEncodingError_def OpcUa_BadTcpMessageTooLarge_def split: if_splits)

lemma header_result_other:
  assumes "header_result err h b ctx = (ok, err', ctx')"
  shows "currentMessageInputBuffer ctx' = currentMessageInputBuffer ctx"
    "intermediateChunksInputBuffers ctx' = intermediateChunksInputBuffers ctx"
    "hasCurrentMsgRequestId ctx' = hasCurrentMsgRequestId ctx" "currentMsgRequestId ctx' = currentMsgRequestId ctx"
  using assms by (auto simp: header_result_def Let_def split: if_splits)

definition same_message :: "SOPC_SecureConnection_ChunkMgrCtx \<Rightarrow> SOPC_SecureConnection_ChunkMgrCtx \<Rightarrow> bool" where
  "same_message ctx ctx' \<longleftrightarrow> currentMessageInputBuffer ctx' = currentMessageInputBuffer ctx \<and>
     intermediateChunksInputBuffers ctx' = intermediateChunksInputBuffers ctx \<and>
     hasCurrentMsgRequestId ctx' = hasCurrentMsgRequestId ctx \<and> currentMsgRequestId ctx' = currentMsgRequestId ctx"

text \<open>A decoded header leaves a chunk that waits for its payload.\<close>

lemma header_payload_room:
  assumes "buf_wf b1" "length (unread b1) = 8" "position b1 = 0" "current_size b1 = R" "maximum_size b1 = R"
    and h: "header_result err (unread b1) b1 ctx = (True, err', ctx2)"
  shows "buf_wf (buf_advance 8 b1)" "unread (buf_advance 8 b1) = []" "position (buf_advance 8 b1) = 8"
    "unat (currentMsgSize ctx2) - 8 - length (unread (buf_advance 8 b1)) \<le> room (buf_advance 8 b1)"
proof -
  show "buf_wf (buf_advance 8 b1)" using assms(1,2) by (simp add: wf_advance)
  show u: "unread (buf_advance 8 b1) = []" using assms(1,2) by (simp add: unread_advance)
  show "position (buf_advance 8 b1) = 8" using assms(3) by (simp add: buf_advance_def)
  have "unat (buf_length b1) = 8" using length_unread [OF assms(1)] assms(2,3) by simp
  then show "unat (currentMsgSize ctx2) - 8 - length (unread (buf_advance 8 b1)) \<le> room (buf_advance 8 b1)"
    using header_result_ok(5) [OF h] u assms(4,5) by simp
qed

lemma decode_bytes_more:
  assumes p: "partial_chunk R ctx b" and R: "8 \<le> unat R"
    and d: "decode_bytes ctx b u = (False, SOPC_GoodGenericStatus, ctx', k)"
  shows "k = length u \<and> same_message ctx ctx' \<and>
    (\<exists>b'. currentChunkInputBuffer ctx' = Some b' \<and> partial_chunk R ctx' b' \<and>
      (\<forall>v. decode_bytes ctx b (u @ v) = shift_used (length u) (decode_bytes ctx' b' v)))"
proof (cases "currentMsgSize ctx = 0")
  case False
  have wf: "buf_wf b" using p by (simp add: partial_chunk_def)
  have dp: "decode_payload ctx b u = (False, SOPC_GoodGenericStatus, ctx', k)"
    using d False by (simp add: decode_bytes_def)
  note m = decode_payload_more [OF wf buf_append_room_payload [OF p False] dp]
  have "partial_chunk R ctx' (buf_append u b)"
    using p False m(2,3) wf_append [OF wf m(4)] by (simp add: partial_chunk_def)
  moreover have "currentMsgSize ctx' \<noteq> 0" using m(2) False by simp
  ultimately show ?thesis using m False by (auto simp: decode_bytes_def same_message_def)
next
  case True
  have pb: "buf_wf b" "length (unread b) < 8" "ctx_fresh ctx" "position b = 0" "current_size b = R" "maximum_size b = R"
    using p True by (auto simp: partial_chunk_def)
  define k1 where "k1 = min (8 - length (unread b)) (length u)"
  define b1 where "b1 = buf_append (take k1 u) b"
  let ?ctx1 = "ctx\<lparr>currentChunkInputBuffer := Some b1\<rparr>"
  have k1: "length (take k1 u) = k1" "length (unread b) + k1 \<le> 8" using pb(2) by (auto simp: k1_def)
  note fa = fresh_append [OF p True R, of "take k1 u", folded b1_def, unfolded k1(1), OF k1(2)]
  have fields: "current_size b1 = R" "maximum_size b1 = R" using pb by (simp_all add: b1_def)
  have d': "(if length (unread b1) < 8 then (False, SOPC_GoodGenericStatus, ?ctx1, k1)
     else case header_result SOPC_GoodGenericStatus (unread b1) b1 ?ctx1 of
       (ok, err, ctx) \<Rightarrow>
         if \<not> ok then (False, err, ctx, k1)
         else shift_used k1 (decode_payload ctx (buf_advance 8 b1) (drop k1 u))) =
      (False, SOPC_GoodGenericStatus, ctx', k)"
    using d True unfolding decode_bytes_def Let_def k1_def b1_def shift_used_def by simp
  show ?thesis
  proof (cases "length (unread b1) < 8")
    case short: True
    then have lu: "k1 = length u" "length (unread b) + length u < 8" using fa(2) k1 by (auto simp: k1_def)
    have ctx': "ctx' = ?ctx1" "k = length u" using d' short lu(1) by auto
    have p': "partial_chunk R ctx' b1"
      using pb True fa(1,4) short fields by (simp add: partial_chunk_def ctx' ctx_fresh_def)
    have "decode_bytes ctx b (u @ v) = shift_used (length u) (decode_bytes ctx' b1 v)" for v
    proof -
      define j where "j = min (8 - length (unread b1)) (length v)"
      have ub1: "length (unread b1) = length (unread b) + length u" using fa(2) lu by simp
      have mm: "min (8 - length (unread b)) (length (u @ v)) = length u + j"
        using ub1 lu(2) unfolding j_def length_append by arith
      have tk: "take (length u + j) (u @ v) = u @ take j v" "drop (length u + j) (u @ v) = drop j v" by simp_all
      have "length u + length (take j v) \<le> room b"
        using fresh_append(3) [OF p True R, of "u @ take j v"] lu(2) ub1 by (simp add: j_def)
      then have app: "buf_append (u @ take j v) b = buf_append (take j v) b1"
        using buf_append_append [OF pb(1), of u "take j v"] lu(1) by (simp add: b1_def)
      have z: "currentMsgSize ctx' = 0" using True ctx' by simp
      show ?thesis
        unfolding decode_bytes_def Let_def mm tk app j_def [symmetric]
        using True z ctx' by (auto simp: shift_used_def split: prod.splits)
    qed
    then show ?thesis using ctx' p' by (auto simp: same_message_def)
  next
    case False
    then have full: "length (unread b1) = 8" "k1 = 8 - length (unread b)" "k1 \<le> length u" using fa(2) k1 by (auto simp: k1_def)
    obtain ok e ctx2 where h: "header_result SOPC_GoodGenericStatus (unread b1) b1 ?ctx1 = (ok, e, ctx2)"
      by (metis prod_cases3)
    have ok: "ok" using d' False h header_result_not_good [of SOPC_GoodGenericStatus "unread b1" b1 ?ctx1]
      by (cases ok) auto
    note h' = h [unfolded eqTrueI [OF ok]]
    note ho = header_result_ok [OF h'] and hr = header_payload_room [OF fa(1) full(1) fa(4) fields h']
    have dp0: "shift_used k1 (decode_payload ctx2 (buf_advance 8 b1) (drop k1 u)) = (False, SOPC_GoodGenericStatus, ctx', k)"
      using d' False h' by simp
    then obtain k2 where dp: "decode_payload ctx2 (buf_advance 8 b1) (drop k1 u) = (False, SOPC_GoodGenericStatus, ctx', k2)"
      "k = k1 + k2" by (auto simp: shift_used_def split: prod.splits)
    note m = decode_payload_more [OF hr(1) hr(4) dp(1)]
    let ?b' = "buf_append (drop k1 u) (buf_advance 8 b1)"
    have kk: "k = length u" using m(1) dp(2) full(3) by simp
    have nz: "currentMsgSize ctx2 \<noteq> 0" using ho(4) by auto
    have p': "partial_chunk R ctx' ?b'"
      using m(2,3) wf_append [OF hr(1) m(4)] ho hr fields nz by (simp add: partial_chunk_def)
    have sm: "same_message ctx ctx'"
      using m(2) header_result_other [OF h'] by (simp add: same_message_def)
    have "decode_bytes ctx b (u @ v) = shift_used (length u) (decode_bytes ctx' ?b' v)" for v
    proof -
      have mm: "min (8 - length (unread b)) (length (u @ v)) = k1" using full(2,3) by simp
      have tk: "take k1 (u @ v) = take k1 u" "drop k1 (u @ v) = drop k1 u @ v" using full(3) by simp_all
      have "decode_bytes ctx b (u @ v) = shift_used k1 (decode_payload ctx2 (buf_advance 8 b1) (drop k1 u @ v))"
        using True full(1) h' unfolding decode_bytes_def Let_def mm tk b1_def [symmetric] shift_used_def by simp
      also have "\<dots> = shift_used k1 (shift_used (length (drop k1 u)) (decode_payload ctx' ?b' v))"
        by (simp only: m(5))
      also have "\<dots> = shift_used (length u) (decode_bytes ctx' ?b' v)"
        using full(3) nz m(2) by (auto simp: shift_used_def decode_bytes_def split: prod.splits)
      finally show ?thesis .
    qed
    then show ?thesis using kk p' sm m(2) by auto
  qed
qed

text \<open>A complete chunk: its header is decoded and its buffer holds the whole payload.\<close>

definition complete_chunk :: "u32 \<Rightarrow> SOPC_SecureConnection_ChunkMgrCtx \<Rightarrow> SOPC_Buffer \<Rightarrow> bool" where
  "complete_chunk R ctx b \<longleftrightarrow> buf_wf b \<and> current_size b = R \<and> maximum_size b = R \<and> position b = 8 \<and>
     currentMsgType ctx \<noteq> SOPC_MSG_TYPE_INVALID \<and> currentMsgIsFinal ctx \<noteq> SOPC_MSG_ISFINAL_INVALID \<and>
     0 < length (unread b) \<and> length (unread b) = unat (currentMsgSize ctx) - 8"

lemma decode_bytes_done:
  assumes p: "partial_chunk R ctx b" and R: "8 \<le> unat R"
    and d: "decode_bytes ctx b u = (True, err, ctx', k)"
  shows "0 < k \<and> k \<le> length u \<and> err = SOPC_GoodGenericStatus \<and> same_message ctx ctx' \<and>
    (\<exists>b'. currentChunkInputBuffer ctx' = Some b' \<and> complete_chunk R ctx' b') \<and>
    (\<forall>v. decode_bytes ctx b (u @ v) = (True, err, ctx', k))"
proof (cases "currentMsgSize ctx = 0")
  case False
  have wf: "buf_wf b" using p by (simp add: partial_chunk_def)
  have dp: "decode_payload ctx b u = (True, err, ctx', k)" using d False by (simp add: decode_bytes_def)
  note m = decode_payload_done [OF dp]
  have len: "length (take k u) = k" using m(3) by simp
  have r: "length (take k u) \<le> room b" using buf_append_room_payload [OF p False] m(2) len by simp
  have pos: "0 < k" "length (unread b) < unat (currentMsgSize ctx) - 8" using p False m(2) by (auto simp: partial_chunk_def)
  have "complete_chunk R ctx' (buf_append (take k u) b)"
    using p False m(2,4) wf_append [OF wf r] len pos by (simp add: partial_chunk_def complete_chunk_def)
  then show ?thesis using m False pos by (auto simp: decode_bytes_def same_message_def)
next
  case True
  have pb: "buf_wf b" "length (unread b) < 8" "ctx_fresh ctx" "position b = 0" "current_size b = R" "maximum_size b = R"
    using p True by (auto simp: partial_chunk_def)
  define k1 where "k1 = min (8 - length (unread b)) (length u)"
  define b1 where "b1 = buf_append (take k1 u) b"
  let ?ctx1 = "ctx\<lparr>currentChunkInputBuffer := Some b1\<rparr>"
  have k1: "length (take k1 u) = k1" "length (unread b) + k1 \<le> 8" using pb(2) by (auto simp: k1_def)
  note fa = fresh_append [OF p True R, of "take k1 u", folded b1_def, unfolded k1(1), OF k1(2)]
  have fields: "current_size b1 = R" "maximum_size b1 = R" using pb by (simp_all add: b1_def)
  have d': "(if length (unread b1) < 8 then (False, SOPC_GoodGenericStatus, ?ctx1, k1)
     else case header_result SOPC_GoodGenericStatus (unread b1) b1 ?ctx1 of
       (ok, err, ctx) \<Rightarrow>
         if \<not> ok then (False, err, ctx, k1)
         else shift_used k1 (decode_payload ctx (buf_advance 8 b1) (drop k1 u))) = (True, err, ctx', k)"
    using d True unfolding decode_bytes_def Let_def k1_def b1_def shift_used_def by simp
  have "\<not> length (unread b1) < 8" using d' by auto
  then have full: "length (unread b1) = 8" "k1 = 8 - length (unread b)" "k1 \<le> length u" using fa(2) k1 by (auto simp: k1_def)
  obtain ok e ctx2 where h: "header_result SOPC_GoodGenericStatus (unread b1) b1 ?ctx1 = (ok, e, ctx2)"
    by (metis prod_cases3)
  have ok: "ok" using d' full h by (auto split: if_splits)
  note h' = h [unfolded eqTrueI [OF ok]]
  note ho = header_result_ok [OF h'] and hr = header_payload_room [OF fa(1) full(1) fa(4) fields h']
  have "shift_used k1 (decode_payload ctx2 (buf_advance 8 b1) (drop k1 u)) = (True, err, ctx', k)"
    using d' full h' by simp
  then obtain k2 where dp: "decode_payload ctx2 (buf_advance 8 b1) (drop k1 u) = (True, err, ctx', k2)"
    "k = k1 + k2" by (auto simp: shift_used_def split: prod.splits)
  note m = decode_payload_done [OF dp(1)]
  let ?bs = "take k2 (drop k1 u)"
  have len: "length ?bs = k2" using m(3) by simp
  have r: "length ?bs \<le> room (buf_advance 8 b1)" using hr(4) m(2) unfolding len by simp
  have pos: "0 < k2" using m(2) ho(4) hr(2) by simp
  have "complete_chunk R ctx' (buf_append ?bs (buf_advance 8 b1))"
    using m(2,4) wf_append [OF hr(1) r] hr ho fields len pos by (simp add: complete_chunk_def)
  moreover have "same_message ctx ctx'"
    using m(4) header_result_other [OF h'] by (simp add: same_message_def)
  moreover have "decode_bytes ctx b (u @ v) = (True, err, ctx', k)" for v
  proof -
    have mm: "min (8 - length (unread b)) (length (u @ v)) = k1" using full(2,3) by simp
    have tk: "take k1 (u @ v) = take k1 u" "drop k1 (u @ v) = drop k1 u @ v" using full(3) by simp_all
    have "decode_bytes ctx b (u @ v) = shift_used k1 (decode_payload ctx2 (buf_advance 8 b1) (drop k1 u @ v))"
      using True full(1) h' unfolding decode_bytes_def Let_def mm tk b1_def [symmetric] shift_used_def by simp
    then show ?thesis using m(1) dp(2) by (simp add: shift_used_def)
  qed
  ultimately show ?thesis using pos dp(2) full(3) m(3,4,5) by auto
qed

end
