(* ===== verification/Chunks_Merge.thy ===== *)
theory Chunks_Merge
  imports Chunks_Laws
begin

text \<open>
  The merge of the chunks of a message: the merged buffer holds the bodies of the chunks one after the
  other, and the 32-bit sum of their sizes is exact below the limit on the size of a message.
\<close>

section \<open>Sizes\<close>

definition bodies :: "SOPC_Buffer list \<Rightarrow> byte list" where
  "bodies bs = concat (map unread bs)"

lemma bodies_simps [simp]:
  "bodies [] = []" "bodies (b # bs) = unread b @ bodies bs" "bodies (bs @ cs) = bodies bs @ bodies cs"
  by (simp_all add: bodies_def)

lemma unread_le_size: "buf_wf b \<Longrightarrow> length (unread b) \<le> unat (current_size b)"
  by (auto simp: length_unread elim!: buf_wfE)

lemma remaining_of_nat: "buf_wf b \<Longrightarrow> buf_length b - position b = of_nat (length (unread b))"
  by (rule word_of_unat) (rule unat_remaining)

lemma chunks_size_bodies:
  "\<forall>b \<in> set bs. buf_wf b \<Longrightarrow> chunks_size bs n = n + of_nat (length (bodies bs))"
  by (induction bs arbitrary: n) (simp_all add: remaining_of_nat)

lemma unat_sub_of_nat: "k \<le> unat n \<Longrightarrow> unat (n - of_nat k :: u32) = unat n - k"
  using unat_lt_u32 [of n] by (subst unat_sub) (simp_all add: u32_le_iff unat_of_nat_u32)

section \<open>The merge\<close>

lemma Create_ok: "mem_total env \<Longrightarrow> n \<noteq> 0 \<Longrightarrow> \<exists>b. SOPC_Buffer_Create env n = Some b"
  by (simp add: SOPC_Buffer_Create_def SOPC_Buffer_Init_def SOPC_Calloc_def mem_total_def word_neq_0_conv)

lemma Create_spec:
  assumes "SOPC_Buffer_Create env n = Some b"
  shows "buf_wf b" "unread b = []" "position b = 0" "buf_length b = 0" "current_size b = n" "maximum_size b = n" "n \<noteq> 0"
proof -
  have b: "b = \<lparr>initial_size = n, current_size = n, maximum_size = n, position = 0, buf_length = 0,
      buf_data = Some (replicate (unat n) 0)\<rparr>" "n \<noteq> 0"
    using assms
    by (auto simp: SOPC_Buffer_Create_def SOPC_Buffer_Init_def SOPC_Calloc_def zero_buffer_def
        split: if_splits option.splits prod.splits SOPC_ReturnStatus.splits)
  then show "buf_wf b" "position b = 0" "buf_length b = 0" "current_size b = n" "maximum_size b = n" "n \<noteq> 0"
    by (simp_all add: buf_wf_def)
  show "unread b = []" using b by (simp add: unread_def stream_rest_def buf_bytes_def)
qed

text \<open>One source buffer that fits is moved completely.\<close>

lemma fill_all:
  assumes wf: "buf_wf dst" "buf_wf src" and fit: "length (unread dst) + length (unread src) \<le> unat n"
    and room: "unat n - length (unread dst) \<le> room dst"
  shows "fill_buffer (Some dst) (Some src) n r =
    Some (True, n - of_nat (length (unread dst) + length (unread src)), Some (buf_append (unread src) dst),
      Some (buf_advance (length (unread src)) src))"
proof -
  define m where "m = unat n - length (unread dst)"
  have k: "min m (length (unread src)) = length (unread src)" using fit by (simp add: m_def)
  have "unat (n - of_nat (length (unread dst) + length (unread src))) = m - length (unread src)"
    using unat_sub_of_nat [OF fit] by (simp add: m_def)
  then have "n - of_nat (length (unread dst) + length (unread src)) = of_nat (m - length (unread src))"
    by (rule word_of_unat)
  then show ?thesis
    using fill_buffer_spec [OF wf, of n r] room k by (simp add: m_def)
qed

lemma unread_all: "buf_wf b \<Longrightarrow> unread (buf_advance (length (unread b)) b) = []"
  by (simp add: unread_advance)

lemma remaining_all:
  assumes "buf_wf b"
  shows "buf_length (buf_advance (length (unread b)) b) - position (buf_advance (length (unread b)) b) = 0"
  using remaining_0 [OF wf_advance [OF assms order_refl]] unread_all [OF assms] by simp

lemma merge_chunks_spec:
  assumes "\<forall>b \<in> set bs. buf_wf b" "buf_wf m"
    and "length (unread m) + length (bodies bs) \<le> unat n" "unat n - length (unread m) \<le> room m"
  shows "\<exists>r. merge_chunks bs n r0 (Some m) = Some (r, Some (buf_append (bodies bs) m))"
  using assms
proof (induction bs arbitrary: r0 m)
  case Nil
  then show ?case by simp
next
  case (Cons b bs)
  let ?m = "buf_append (unread b) m"
  have b: "buf_wf b" and fit: "length (unread m) + length (unread b) \<le> unat n" using Cons.prems by auto
  have r: "length (unread b) \<le> room m" using fit Cons.prems(4) by simp
  note w = wf_append [OF Cons.prems(2) r]
  have "length (unread ?m) + length (bodies bs) \<le> unat n" "unat n - length (unread ?m) \<le> room ?m"
    using Cons.prems(3,4) w fit by simp_all
  then obtain r' where r': "merge_chunks bs n (n - of_nat (length (unread m) + length (unread b))) (Some ?m) =
      Some (r', Some (buf_append (bodies bs) ?m))"
    using Cons.IH w(1) Cons.prems(1) by (metis list.set_intros(2))
  have "buf_append (bodies bs) ?m = buf_append (bodies (b # bs)) m"
    using buf_append_append [OF Cons.prems(2), of "unread b" "bodies bs"] Cons.prems(3,4) by simp
  then show ?case
    using fill_all [OF Cons.prems(2) b fit Cons.prems(4)] remaining_all [OF b] r'
    by (simp add: SOPC_Buffer_Remaining_def)
qed

text \<open>The whole merge: a message of the bodies of all chunks.\<close>

lemma merge_final_chunk_spec:
  assumes bs: "intermediateChunksInputBuffers ctx = Some bs" "bs \<noteq> []" "\<forall>b \<in> set bs. buf_wf b" "length bs < 2 ^ 32"
    and b: "currentChunkInputBuffer ctx = Some b" "buf_wf b"
    and n: "unat n = length (bodies (bs @ [b]))" "n \<noteq> 0"
  shows "merge_final_chunk env n err ctx =
    (case SOPC_Buffer_Create (sc_enc env) n of
       None \<Rightarrow> Some (False, OpcUa_BadOutOfMemory, ctx)
     | Some m \<Rightarrow> Some (True, err, ctx\<lparr>intermediateChunksInputBuffers := Some [], currentChunkInputBuffer := None,
         currentMessageInputBuffer := Some (buf_append (bodies (bs @ [b])) m)\<rparr>))"
proof -
  have nb: "SOPC_ScInternalContext_GetNbIntermediateInputChunks ctx > 0"
    using bs unat_of_nat_u32 [of "length bs"]
    by (simp add: SOPC_ScInternalContext_GetNbIntermediateInputChunks_def u32_less_iff)
  have pos: "n > 0" using n(2) by (simp add: word_gt_0)
  show ?thesis
  proof (cases "SOPC_Buffer_Create (sc_enc env) n")
    case None
    then show ?thesis using nb pos by (simp add: merge_final_chunk_def)
  next
    case (Some m)
    note m = Create_spec [OF Some]
    have len: "length (bodies bs) + length (unread b) = unat n" using n(1) by simp
    obtain r where r: "merge_chunks bs n 0 (Some m) = Some (r, Some (buf_append (bodies bs) m))"
      using merge_chunks_spec [OF bs(3) m(1), of n 0] len m by auto
    have rm: "length (bodies bs) \<le> room m" using len m by simp
    let ?m = "buf_append (bodies bs) m"
    note w = wf_append [OF m(1) rm]
    have "length (unread ?m) + length (unread b) \<le> unat n" "unat n - length (unread ?m) \<le> room ?m"
      using w m len by simp_all
    note f = fill_all [OF w(1) b(2) this, of r]
    have z: "n - of_nat (length (unread ?m) + length (unread b)) = 0"
      using w(4) m(2) len by (metis append_Nil add_0 diff_self word_of_unat)
    have "buf_append (unread b) ?m = buf_append (bodies (bs @ [b])) m"
      using buf_append_append [OF m(1), of "bodies bs" "unread b"] m len by simp
    then show ?thesis
      using nb pos Some bs(1) b(1) r f z remaining_all [OF b(2)]
      by (simp add: merge_final_chunk_def SOPC_Buffer_Remaining_def)
  qed
qed

end
