(* ===== verification/Chunks_Payload.thy ===== *)
theory Chunks_Payload
  imports Chunks_Merge
begin

text \<open>
  The treatment of one complete chunk: every stage returns, keeps the data of the message in reception and
  leaves a well-formed chunk buffer, with two exceptions that the code answers with an assertion: a plain text
  announced longer than the receive buffer (\<open>oversized_plain\<close>) and a signature accepted over a part of the
  headers (\<open>short_signature\<close>). What the code relies on of the cryptographic provider is the predicate
  \<open>crypto_laws\<close>.
\<close>

section \<open>What the chunk manager relies on\<close>

text \<open>
  A symmetric decryption keeps the length and an asymmetric one writes at most the announced length. The check
  of the asymmetric security header advances in the chunk and changes nothing else. Nothing is assumed of what
  a signature covers, and nothing relates the announced length of an asymmetric plain text, which is rounded up
  to whole blocks, to the length of the encrypted one.
\<close>

definition crypto_laws :: "sc_env \<Rightarrow> bool" where
  "crypto_laws env \<longleftrightarrow>
     (\<forall>n m. symmLenDecryption env n = Some m \<longrightarrow> m = n) \<and>
     (\<forall>c k iv p. symmDecrypt env c k iv = Some p \<longrightarrow> length p = length c) \<and>
     (\<forall>c p n. length c < 2 ^ 32 \<and> asymDecrypt env c = Some p \<and> asymLenDecryption env (of_nat (length c)) = Some n \<longrightarrow>
        length p \<le> unat n) \<and>
     (\<forall>sc b. currentChunkInputBuffer (chunksCtx sc) = Some b \<and> buf_wf b \<longrightarrow>
        (\<exists>ok active err n. checkAsymHeader env sc = Some (ok, active, err, set_chunk (Some (buf_advance n b)) sc) \<and>
           n \<le> length (unread b)))"

lemma crypto_lawsD:
  assumes "crypto_laws env"
  shows "symmLenDecryption env n = Some m \<Longrightarrow> m = n" "symmDecrypt env c k iv = Some p \<Longrightarrow> length p = length c"
    "length c < 2 ^ 32 \<Longrightarrow> asymDecrypt env c = Some p \<Longrightarrow> asymLenDecryption env (of_nat (length c)) = Some l \<Longrightarrow> length p \<le> unat l"
  using assms unfolding crypto_laws_def by blast+

lemma checkAsymHeader_law:
  assumes "crypto_laws env" "currentChunkInputBuffer (chunksCtx sc) = Some b" "buf_wf b"
  obtains ok active err n where "checkAsymHeader env sc = Some (ok, active, err, set_chunk (Some (buf_advance n b)) sc)"
    "n \<le> length (unread b)"
  using assms unfolding crypto_laws_def by blast

section \<open>Stages\<close>

text \<open>What no stage changes, and the chunk a successful stage leaves.\<close>

definition rx_same :: "SOPC_SecureConnection \<Rightarrow> SOPC_SecureConnection \<Rightarrow> bool" where
  "rx_same sc sc' \<longleftrightarrow> tcpMsgProperties sc' = tcpMsgProperties sc \<and> isServerConnection sc' = isServerConnection sc \<and>
     currentMsgType (chunksCtx sc') = currentMsgType (chunksCtx sc) \<and>
     currentMsgIsFinal (chunksCtx sc') = currentMsgIsFinal (chunksCtx sc) \<and>
     intermediateChunksInputBuffers (chunksCtx sc') = intermediateChunksInputBuffers (chunksCtx sc) \<and>
     currentMessageInputBuffer (chunksCtx sc') = currentMessageInputBuffer (chunksCtx sc)"

lemma rx_same_refl [simp]: "rx_same sc sc"
  by (simp add: rx_same_def)

lemma rx_same_trans: "rx_same a b \<Longrightarrow> rx_same b c \<Longrightarrow> rx_same a c"
  by (simp add: rx_same_def)

lemma rx_same_updates [simp]:
  "rx_same sc (set_chunk b sc') \<longleftrightarrow> rx_same sc sc'"
  "rx_same sc (set_lastSNreceived n sc') \<longleftrightarrow> rx_same sc sc'"
  "rx_same sc (set_sentRequestIds rs sc') \<longleftrightarrow> rx_same sc sc'"
  "rx_same sc (sc'\<lparr>serverNewSecuTokenActive := x\<rparr>) \<longleftrightarrow> rx_same sc sc'"
  "rx_same sc (sc'\<lparr>clientSecureChannelId := i\<rparr>) \<longleftrightarrow> rx_same sc sc'"
  "rx_same sc (set_ctx ((chunksCtx sc')\<lparr>hasCurrentMsgRequestId := x, currentMsgRequestId := i\<rparr>) sc') \<longleftrightarrow> rx_same sc sc'"
  by (simp_all add: rx_same_def set_chunk_def set_lastSNreceived_def set_sentRequestIds_def set_ctx_def)

definition chunk_buf :: "nat \<Rightarrow> (nat \<Rightarrow> byte list \<Rightarrow> bool) \<Rightarrow> SOPC_SecureConnection \<Rightarrow> bool" where
  "chunk_buf k Q sc \<longleftrightarrow> (\<exists>b. currentChunkInputBuffer (chunksCtx sc) = Some b \<and> buf_wf b \<and> unat (current_size b) \<le> k \<and>
     Q (unat (position b)) (buf_bytes b))"

lemma chunk_bufE:
  assumes "chunk_buf k Q sc"
  obtains b where "currentChunkInputBuffer (chunksCtx sc) = Some b" "buf_wf b" "unat (current_size b) \<le> k"
    "Q (unat (position b)) (buf_bytes b)"
  using assms by (auto simp: chunk_buf_def)

lemma chunk_buf_updates [simp]:
  "chunk_buf k Q (set_chunk (Some b) sc) \<longleftrightarrow> buf_wf b \<and> unat (current_size b) \<le> k \<and> Q (unat (position b)) (buf_bytes b)"
  "chunk_buf k Q (set_lastSNreceived n sc) \<longleftrightarrow> chunk_buf k Q sc"
  "chunk_buf k Q (set_sentRequestIds rs sc) \<longleftrightarrow> chunk_buf k Q sc"
  "chunk_buf k Q (sc\<lparr>serverNewSecuTokenActive := x\<rparr>) \<longleftrightarrow> chunk_buf k Q sc"
  "chunk_buf k Q (sc\<lparr>clientSecureChannelId := i\<rparr>) \<longleftrightarrow> chunk_buf k Q sc"
  "chunk_buf k Q (set_ctx ((chunksCtx sc)\<lparr>hasCurrentMsgRequestId := x, currentMsgRequestId := i\<rparr>) sc) \<longleftrightarrow> chunk_buf k Q sc"
  by (simp_all add: chunk_buf_def set_chunk_def set_lastSNreceived_def set_sentRequestIds_def set_ctx_def)

lemma chunk_buf_mono: "chunk_buf k Q sc \<Longrightarrow> k \<le> k' \<Longrightarrow> (\<And>p h. Q p h \<Longrightarrow> Q' p h) \<Longrightarrow> chunk_buf k' Q' sc"
  by (auto simp: chunk_buf_def)

text \<open>A stage returns, and its result and state are related to the connection it started with.\<close>

definition stage :: "(bool \<Rightarrow> 's \<Rightarrow> bool) \<Rightarrow> (bool \<times> SOPC_StatusCode \<times> 's) option \<Rightarrow> bool" where
  "stage P r \<longleftrightarrow> (\<exists>ok err s. r = Some (ok, err, s) \<and> P ok s)"

lemma stage_Some [simp]: "stage P (Some (ok, err, s)) \<longleftrightarrow> P ok s"
  by (simp add: stage_def)

lemma stage_then:
  assumes "stage P r" "\<And>err s. P True s \<Longrightarrow> stage Q (f err s)" "\<And>s. P False s \<Longrightarrow> Q False s"
  shows "stage Q (result_then r f)"
  using assms by (auto simp: stage_def) (metis (full_types) result_then_simps(2,3))

lemma stage_mono: "stage P r \<Longrightarrow> (\<And>ok s. P ok s \<Longrightarrow> Q ok s) \<Longrightarrow> stage Q r"
  by (auto simp: stage_def)

text \<open>A successful stage keeps the message data and leaves a chunk with \<open>Q\<close>; \<open>f\<close> selects the connection.\<close>

definition keeps ::
  "('s \<Rightarrow> SOPC_SecureConnection) \<Rightarrow> nat \<Rightarrow> (nat \<Rightarrow> byte list \<Rightarrow> bool) \<Rightarrow> SOPC_SecureConnection \<Rightarrow> bool \<Rightarrow> 's \<Rightarrow> bool" where
  "keeps f k Q sc ok s \<longleftrightarrow> rx_same sc (f s) \<and> (ok \<longrightarrow> chunk_buf k Q (f s))"

section \<open>Reading a field\<close>

lemma read_u32_chunk:
  assumes "chunk_buf k Q sc" "0 < sc_level env" "k \<le> 2 ^ 31"
  obtains st w b where
    "SOPC_UInt32_Read (sc_enc env) (Some v) (currentChunkInputBuffer (chunksCtx sc)) 0 = Some (st, Some w, Some b)"
    "buf_wf b" "unat (current_size b) \<le> k"
    "st = SOPC_STATUS_OK \<longrightarrow> 4 \<le> unat (position b) \<and> Q (unat (position b) - 4) (buf_bytes b)"
proof -
  obtain b where b: "currentChunkInputBuffer (chunksCtx sc) = Some b" "buf_wf b" "unat (current_size b) \<le> k"
    "Q (unat (position b)) (buf_bytes b)" using assms(1) by (rule chunk_bufE)
  have len: "unat (position b) \<le> unat (buf_length b)" "unat (buf_length b) \<le> unat (current_size b)"
    using b(2) by (auto elim!: buf_wfE)
  show ?thesis
  proof (cases "4 \<le> length (unread b)")
    case True
    have "unat (position (buf_advance 4 b)) = unat (position b) + 4"
      using True len length_unread [OF b(2)] unat_lt_u32 [of "buf_length b"]
      by (intro unat_position_advance) simp
    then show ?thesis
      using UInt32_Read_ok [OF b(2) True assms(2), of v] b wf_advance [OF b(2) True]
      by (intro that [of SOPC_STATUS_OK "u32_of (unread b)" "buf_advance 4 b"]) (simp_all add: buf_bytes_def)
  next
    case False
    have "length (unread b) < 4" "unat (buf_length b) \<le> 2 ^ 31" using False len b(3) assms(3) by simp_all
    then obtain st w where "SOPC_UInt32_Read (sc_enc env) (Some v) (Some b) 0 = Some (st, Some w, Some b)" "st \<noteq> SOPC_STATUS_OK"
      using UInt32_Read_short [OF b(2) _ assms(2)] by blast
    then show ?thesis using b by (intro that [of st w b]) simp_all
  qed
qed

section \<open>Headers\<close>

lemma secureChannelId_stage:
  assumes c: "chunk_buf k Q sc" and lvl: "0 < sc_level env" and k: "k \<le> 2 ^ 31"
  shows "stage (keeps id k (\<lambda>p h. 4 \<le> p \<and> Q (p - 4) h) sc) (check_secureChannelId env isOPN err sc)"
proof -
  obtain st w b where r: "SOPC_UInt32_Read (sc_enc env) (Some 0) (currentChunkInputBuffer (chunksCtx sc)) 0 = Some (st, Some w, Some b)"
    "buf_wf b" "unat (current_size b) \<le> k" "st = SOPC_STATUS_OK \<longrightarrow> 4 \<le> unat (position b) \<and> Q (unat (position b) - 4) (buf_bytes b)"
    by (rule read_u32_chunk [OF c lvl k, where v = 0])
  then show ?thesis by (simp add: check_secureChannelId_def keeps_def Let_def)
qed

lemma symmetric_header_stage:
  assumes c: "chunk_buf k Q sc" and lvl: "0 < sc_level env" and k: "k \<le> 2 ^ 31"
  shows "\<exists>ok isPrev err' sc'. SC_Chunks_CheckSymmetricSecurityHeader env sc err = Some (ok, isPrev, err', sc') \<and>
    keeps id k (\<lambda>p h. 4 \<le> p \<and> Q (p - 4) h) sc ok sc'"
proof -
  obtain st w b where r: "SOPC_UInt32_Read (sc_enc env) (Some 0) (currentChunkInputBuffer (chunksCtx sc)) 0 = Some (st, Some w, Some b)"
    "buf_wf b" "unat (current_size b) \<le> k" "st = SOPC_STATUS_OK \<longrightarrow> 4 \<le> unat (position b) \<and> Q (unat (position b) - 4) (buf_bytes b)"
    by (rule read_u32_chunk [OF c lvl k, where v = 0])
  let ?sc = "set_chunk (Some b) sc"
  have k: "keeps id k (\<lambda>p h. 4 \<le> p \<and> Q (p - 4) h) sc ok ?sc"
    "keeps id k (\<lambda>p h. 4 \<le> p \<and> Q (p - 4) h) sc ok (?sc\<lparr>serverNewSecuTokenActive := True\<rparr>)"
    if "ok \<longrightarrow> st = SOPC_STATUS_OK" for ok
    using r that by (simp_all add: keeps_def)
  show ?thesis
    unfolding SC_Chunks_CheckSymmetricSecurityHeader_def Let_def r(1)
    using k by (cases "st = SOPC_STATUS_OK") (auto split: if_splits)
qed

text \<open>An accepted asymmetric header asks for the decryption and for the signature, or for none of them.\<close>

definition flags_agree :: "bool \<Rightarrow> payload_flags \<times> SOPC_SecureConnection \<Rightarrow> bool" where
  "flags_agree isOPN s \<longleftrightarrow> (case s of ((toDecrypt, toCheck, isPrev), sc) \<Rightarrow> isOPN \<longrightarrow> toCheck = toDecrypt)"

lemma security_header_stage:
  assumes c: "chunk_buf k (\<lambda>p h. p = 12) sc" and lvl: "0 < sc_level env" and k: "k \<le> 2 ^ 31" and laws: "crypto_laws env"
    and mode: "\<And>m. sc_config env (isServerConnection sc) (secureChannelConfigIdx sc) = Some m \<Longrightarrow>
      m \<noteq> OpcUa_MessageSecurityMode_Invalid"
  shows "stage (\<lambda>ok s. keeps snd k (\<lambda>p h. True) sc ok s \<and> flags_agree isOPN s) (check_security_header env isOPN err sc)"
proof (cases isOPN)
  case True
  obtain b where b: "currentChunkInputBuffer (chunksCtx sc) = Some b" "buf_wf b" "unat (current_size b) \<le> k"
    using c by (rule chunk_bufE)
  obtain ok active err' n where h: "checkAsymHeader env sc = Some (ok, active, err', set_chunk (Some (buf_advance n b)) sc)"
    "n \<le> length (unread b)"
    using laws b(1,2) by (rule checkAsymHeader_law)
  then show ?thesis
    using True b wf_advance [OF b(2) h(2)] by (simp add: check_security_header_def keeps_def flags_agree_def)
next
  case False
  obtain ok isPrev err' sc' where s: "SC_Chunks_CheckSymmetricSecurityHeader env sc err = Some (ok, isPrev, err', sc')"
    "keeps id k (\<lambda>p h. 4 \<le> p \<and> p - 4 = 12) sc ok sc'"
    using symmetric_header_stage [OF c lvl k] by blast
  have "chunk_buf k (\<lambda>p h. 4 \<le> p \<and> p - 4 = 12) sc' \<Longrightarrow> chunk_buf k (\<lambda>p h. True) sc'"
    by (erule chunk_buf_mono) auto
  then show ?thesis
    using False s mode
    by (auto simp: check_security_header_def keeps_def flags_agree_def SC_Chunks_IsMsgEncrypted_def split: option.splits)
qed

section \<open>Decryption\<close>

lemma decrypt_chunk_spec:
  assumes b: "buf_wf b" "unat (current_size b) \<le> k" and k: "k \<le> 2 ^ 30" "unat (receiveBufferSize (tcpMsgProperties sc)) \<le> k"
    and nR: "n \<le> receiveBufferSize (tcpMsgProperties sc)"
    and dec: "\<forall>c p len. length c = unat (buf_length b - position b) \<and> decrypt c = Some (p, len) \<longrightarrow>
      length p \<le> unat n \<and> unat len \<le> unat n"
  shows "(\<exists>pl. decrypt_chunk env sc b n decrypt = Some (False, pl)) \<or>
    (\<exists>b'. decrypt_chunk env sc b n decrypt = Some (True, Some b') \<and> buf_wf b' \<and> unat (current_size b') \<le> 2 * k)"
proof (cases "SOPC_Buffer_Create (sc_enc env) (position b + n)")
  case None
  then show ?thesis using nR by (simp add: decrypt_chunk_def Let_def)
next
  case (Some plain)
  obtain d where d: "buf_data b = Some d" "length d = unat (current_size b)"
    "unat (position b) \<le> unat (buf_length b)" "unat (buf_length b) \<le> unat (current_size b)"
    using b(1) by (rule buf_wfE)
  have sum: "unat (position b) + unat n \<le> 2 * k" using d b(2) k(2) nR by (simp add: u32_le_iff)
  have upn: "unat (position b + n) = unat (position b) + unat n" using sum k by (intro unat_add_u32) simp
  note pl = Create_spec [OF Some]
  have "position b \<le> current_size plain" using pl(5) upn by (simp add: u32_le_iff)
  then obtain b2 where b2: "SOPC_Buffer_CopyWithLength (sc_enc env) (Some plain) (Some b) (position b) = Some (SOPC_STATUS_OK, Some b2)"
    "buf_wf b2" "buf_bytes b2 = take (unat (position b)) (buf_bytes b)" "position b2 = position b" "buf_length b2 = position b"
    "current_size b2 = position b + n" "maximum_size b2 = position b + n"
    using SOPC_Buffer_CopyWithLength_ok [OF pl(1) b(1), of "position b" "sc_enc env"] d(3) pl(5,6) by (auto simp: u32_le_iff)
  obtain d2 where d2: "buf_data b2 = Some d2" "length d2 = unat (position b) + unat n"
    using b2(2) upn b2(6) by (auto elim!: buf_wfE)
  let ?len = "unat (buf_length b - position b)"
  have rd: "mem_read d (unat (position b)) ?len = Some (take ?len (drop (unat (position b)) d))"
    using d by (simp add: mem_read_def unat_sub_if' u32_le_iff)
  let ?c = "take ?len (drop (unat (position b)) d)"
  have lc: "length ?c = ?len" using length_mem_read [OF rd] .
  show ?thesis
  proof (cases "decrypt ?c")
    case None
    then show ?thesis using Some nR b2(1) d(1) rd by (simp add: decrypt_chunk_def Let_def)
  next
    case (Some r)
    obtain p len where r: "r = (p, len)" by (cases r)
    have pn: "length p \<le> unat n" "unat len \<le> unat n" using dec lc Some r by blast+
    define d3 where "d3 = take (unat (position b)) d2 @ p @ drop (unat (position b) + length p) d2"
    have wr: "mem_write d2 (unat (position b)) p = Some d3" and ld3: "length d3 = unat (position b) + unat n"
      using d2 pn by (simp_all add: mem_write_def d3_def)
    have ul: "unat (position b + len) = unat (position b) + unat len" using pn(2) sum k by (intro unat_add_u32) simp
    let ?b4 = "b2\<lparr>buf_data := Some d3, buf_length := position b + len\<rparr>"
    have sdl: "SOPC_Buffer_SetDataLength (Some (b2\<lparr>buf_data := Some d3\<rparr>)) (position b + len) = Some (SOPC_STATUS_OK, Some ?b4)"
      using b2(4,5,6) ul upn pn(2) by (auto simp: SOPC_Buffer_SetDataLength_def u32_le_iff u32_less_iff)
    have sp: "SOPC_Buffer_SetPosition (Some ?b4) (position b) = (SOPC_STATUS_OK, Some ?b4)"
      using ul b2(4) by (simp add: SOPC_Buffer_SetPosition_def u32_le_iff)
    have "decrypt_chunk env sc b n decrypt = Some (True, Some ?b4)"
      using \<open>SOPC_Buffer_Create _ _ = Some plain\<close> nR b2(1) d(1) rd Some r d2(1) wr sdl sp
      by (simp add: decrypt_chunk_def Let_def)
    moreover have "buf_wf ?b4"
      using b2(2,4,6) ld3 ul upn pn(2) by (auto simp: buf_wf_def u32_le_iff split: option.splits)
    ultimately show ?thesis using b2(4,6) sum upn by auto
  qed
qed

text \<open>
  The announced length of an asymmetric plain text may exceed the receive buffer: then no plain buffer is made
  and the chunk is lost.
\<close>

definition oversized_plain :: "sc_env \<Rightarrow> bool \<Rightarrow> payload_flags \<times> SOPC_SecureConnection \<Rightarrow> bool" where
  "oversized_plain env isOPN s \<longleftrightarrow> (case s of ((toDecrypt, toCheck, isPrev), sc) \<Rightarrow>
     isOPN \<and> toDecrypt \<and> has_privateKey sc \<and>
     (\<exists>b n. currentChunkInputBuffer (chunksCtx sc) = Some b \<and> asymLenDecryption env (buf_length b - position b) = Some n \<and>
        receiveBufferSize (tcpMsgProperties sc) < n))"

lemma decrypt_keeps:
  assumes b: "buf_wf b" "unat (current_size b) \<le> k" and k: "k \<le> 2 ^ 30" "k = unat (receiveBufferSize (tcpMsgProperties sc))"
    and n: "n \<le> receiveBufferSize (tcpMsgProperties sc)"
    and dec: "\<forall>c p len. length c = unat (buf_length b - position b) \<and> decrypt c = Some (p, len) \<longrightarrow>
      length p \<le> unat n \<and> unat len \<le> unat n"
  shows "\<exists>ok plain. decrypt_chunk env sc b n decrypt = Some (ok, plain) \<and>
    keeps id (2 * k) (\<lambda>p h. True) sc ok (set_chunk (if ok then plain else None) sc)"
proof -
  have "unat (receiveBufferSize (tcpMsgProperties sc)) \<le> k" using k(2) by simp
  from decrypt_chunk_spec [where decrypt = decrypt and env = env, OF b k(1) this n dec] show ?thesis
    by (auto simp: keeps_def)
qed

lemma SymDecryptMsg_stage:
  assumes c: "chunk_buf k Q sc" and k: "k \<le> 2 ^ 30" "k = unat (receiveBufferSize (tcpMsgProperties sc))" and laws: "crypto_laws env"
  shows "\<exists>ok sc'. SC_Chunks_DecryptMsg env sc True isPrev = Some (ok, sc') \<and> keeps id (2 * k) (\<lambda>p h. True) sc ok sc'"
proof -
  obtain b where b: "currentChunkInputBuffer (chunksCtx sc) = Some b" "buf_wf b" "unat (current_size b) \<le> k"
    using c by (rule chunk_bufE)
  let ?n = "buf_length b - position b"
  have none: "keeps id (2 * k) (\<lambda>p h. True) sc False (set_chunk None sc)" by (simp add: keeps_def)
  show ?thesis
  proof (cases "SC_Chunks_GetSecurityKeySets sc isPrev")
    case None
    then show ?thesis using b(1) none by (auto simp: SC_Chunks_DecryptMsg_def)
  next
    case (Some ks)
    obtain s r where ks: "ks = (s, r)" by (cases ks)
    show ?thesis
    proof (cases "symmLenDecryption env ?n")
      case None
      then show ?thesis using b(1) none Some ks by (auto simp: SC_Chunks_DecryptMsg_def)
    next
      case (Some m)
      then have m: "m = ?n" using laws by (simp add: crypto_lawsD(1))
      have nR: "?n \<le> receiveBufferSize (tcpMsgProperties sc)"
        using unat_remaining [OF b(2)] unread_le_size [OF b(2)] b(3) k(2) by (simp add: u32_le_iff)
      have "\<exists>ok plain. decrypt_chunk env sc b m (\<lambda>c. map_option (\<lambda>p. (p, m)) (symmDecrypt env c (encryptKey r) (initVector r))) =
          Some (ok, plain) \<and> keeps id (2 * k) (\<lambda>p h. True) sc ok (set_chunk (if ok then plain else None) sc)"
        unfolding m by (rule decrypt_keeps [OF b(2,3) k nR]) (auto dest: crypto_lawsD(2) [OF laws])
      then show ?thesis
        using b(1) Some \<open>SC_Chunks_GetSecurityKeySets sc isPrev = Some ks\<close> ks by (auto simp: SC_Chunks_DecryptMsg_def)
    qed
  qed
qed

lemma AsymDecryptMsg_stage:
  assumes c: "chunk_buf k Q sc" and k: "k \<le> 2 ^ 30" "k = unat (receiveBufferSize (tcpMsgProperties sc))" and laws: "crypto_laws env"
    and fits: "\<And>b n. currentChunkInputBuffer (chunksCtx sc) = Some b \<Longrightarrow> has_privateKey sc \<Longrightarrow>
      asymLenDecryption env (buf_length b - position b) = Some n \<Longrightarrow> n \<le> receiveBufferSize (tcpMsgProperties sc)"
  shows "\<exists>ok sc'. SC_Chunks_DecryptMsg env sc False isPrev = Some (ok, sc') \<and> keeps id (2 * k) (\<lambda>p h. True) sc ok sc'"
proof -
  obtain b where b: "currentChunkInputBuffer (chunksCtx sc) = Some b" "buf_wf b" "unat (current_size b) \<le> k"
    using c by (rule chunk_bufE)
  let ?n = "buf_length b - position b"
  show ?thesis
  proof (cases "if has_privateKey sc then asymLenDecryption env ?n else None")
    case None
    then show ?thesis using b(1) by (auto simp: SC_Chunks_DecryptMsg_def keeps_def)
  next
    case (Some m)
    then have al: "has_privateKey sc" "asymLenDecryption env ?n = Some m" by (simp_all split: if_splits)
    have len: "length p \<le> unat m \<and> unat len \<le> unat m"
      if c: "length c = unat ?n" and d: "map_option (\<lambda>p. (p, of_nat (length p))) (asymDecrypt env c) = Some (p, len)"
      for c p and len :: u32
    proof -
      have "of_nat (length c) = ?n" "length c < 2 ^ 32" using c word_of_unat unat_lt_u32 [of ?n] by (metis, simp)
      then have "length p \<le> unat m" "len = of_nat (length p)" using crypto_lawsD(3) [OF laws, of c p m] d al(2) by auto
      then show ?thesis using unat_lt_u32 [of m] by (simp add: unat_of_nat_u32)
    qed
    have "\<exists>ok plain. decrypt_chunk env sc b m (\<lambda>c. map_option (\<lambda>p. (p, of_nat (length p))) (asymDecrypt env c)) =
        Some (ok, plain) \<and> keeps id (2 * k) (\<lambda>p h. True) sc ok (set_chunk (if ok then plain else None) sc)"
      by (rule decrypt_keeps [OF b(2,3) k fits [OF b(1) al]]) (use len in blast)
    then show ?thesis using b(1) Some by (auto simp: SC_Chunks_DecryptMsg_def)
  qed
qed

lemma decrypt_payload_stage:
  assumes "keeps snd k Q sc True s" and "k \<le> 2 ^ 30" "k = unat (receiveBufferSize (tcpMsgProperties sc))"
    and "crypto_laws env" "\<not> oversized_plain env isOPN s"
  shows "stage (keeps snd (2 * k) (\<lambda>p h. True) sc) (decrypt_payload env isOPN err s)"
proof -
  obtain d c i sc1 where s: "s = ((d, c, i), sc1)" by (metis prod.collapse)
  have sc1: "rx_same sc sc1" "chunk_buf k Q sc1" using assms(1) s by (simp_all add: keeps_def)
  have kk: "k = unat (receiveBufferSize (tcpMsgProperties sc1))" using sc1(1) assms(3) by (simp add: rx_same_def)
  show ?thesis
  proof (cases d)
    case False
    have "chunk_buf (2 * k) (\<lambda>p h. True) sc1" using sc1(2) by (rule chunk_buf_mono) simp_all
    then show ?thesis using False s sc1(1) by (simp add: decrypt_payload_def keeps_def)
  next
    case True
    have "\<exists>ok sc'. SC_Chunks_DecryptMsg env sc1 (\<not> isOPN) i = Some (ok, sc') \<and> keeps id (2 * k) (\<lambda>p h. True) sc1 ok sc'"
    proof (cases isOPN)
      case isOPN: True
      have "n \<le> receiveBufferSize (tcpMsgProperties sc1)"
        if "currentChunkInputBuffer (chunksCtx sc1) = Some b" "has_privateKey sc1" "asymLenDecryption env (buf_length b - position b) = Some n"
        for b n
        using assms(5) that True isOPN s by (force simp: oversized_plain_def)
      then show ?thesis using AsymDecryptMsg_stage [OF sc1(2) assms(2) kk assms(4)] isOPN by simp
    next
      case False
      then show ?thesis using SymDecryptMsg_stage [OF sc1(2) assms(2) kk assms(4)] by simp
    qed
    then show ?thesis using s sc1(1) True by (auto simp: decrypt_payload_def keeps_def intro: rx_same_trans)
  qed
qed

text \<open>Without a plain buffer the verification of the signature stops on its assertion.\<close>

lemma oversized_stops:
  assumes o: "oversized_plain env isOPN s" and f: "flags_agree isOPN s"
  shows "result_then (decrypt_payload env isOPN err s) (verify_payload env isOPN) = None"
proof -
  obtain d c i sc where s: "s = ((d, c, i), sc)" by (metis prod.collapse)
  then obtain b n where h: "isOPN" "d" "c" "has_privateKey sc" "currentChunkInputBuffer (chunksCtx sc) = Some b"
    "asymLenDecryption env (buf_length b - position b) = Some n" "receiveBufferSize (tcpMsgProperties sc) < n"
    using o f by (auto simp: oversized_plain_def flags_agree_def)
  then have "\<not> n \<le> receiveBufferSize (tcpMsgProperties sc)" by simp
  with h have "SC_Chunks_DecryptMsg env sc False i = Some (True, set_chunk None sc)"
    unfolding SC_Chunks_DecryptMsg_def decrypt_chunk_def Let_def by (simp del: not_le)
  then show ?thesis
    using s h by (simp add: decrypt_payload_def verify_payload_def SC_Chunks_VerifyMsgSignature_def set_chunk_def)
qed

section \<open>Signature\<close>

lemma verify_signature_spec:
  assumes b: "buf_wf b"
  shows "\<exists>r. verify_signature b sz verify = Some r \<and>
    (\<forall>p. r = Some p \<longrightarrow> unat p \<le> unat (buf_length b))"
proof -
  obtain d where d: "buf_data b = Some d" "length d = unat (current_size b)" "unat (buf_length b) \<le> unat (current_size b)"
    using b by (rule buf_wfE)
  show ?thesis
  proof (cases sz)
    case None
    then show ?thesis by (simp add: verify_signature_def)
  next
    case (Some n)
    show ?thesis
    proof (cases "buf_length b < n")
      case True
      then show ?thesis using Some by (simp add: verify_signature_def)
    next
      case False
      define p where "p = buf_length b - n"
      have p: "unat p + unat n = unat (buf_length b)" using False by (simp add: p_def u32_less_iff unat_sub_if')
      then have "mem_read d 0 (unat p) = Some (take (unat p) (buf_bytes b))"
        using d by (simp add: mem_read_def buf_bytes_def)
      moreover obtain sg where "mem_read d (unat p) (unat n) = Some sg" using d p by (simp add: mem_read_def)
      ultimately have "verify_signature b sz verify =
          Some (if verify (take (unat p) (buf_bytes b)) sg then Some p else None)"
        using Some False d(1) by (simp add: verify_signature_def p_def)
      then show ?thesis using p by (auto split: if_splits)
    qed
  qed
qed

lemma VerifyMsgSignature_position:
  assumes b: "currentChunkInputBuffer (chunksCtx sc) = Some b" "buf_wf b"
  shows "\<exists>r. SC_Chunks_VerifyMsgSignature env sc isSym isPrev = Some r \<and> (\<forall>p. r = Some p \<longrightarrow> unat p \<le> unat (buf_length b))"
proof -
  note spec = verify_signature_spec [OF b(2)]
  show ?thesis
    using b(1) spec [of "asymLenPeerSignature env" "asymVerify env"]
      spec [of "symmLenSignature env" "\<lambda>m s. symmVerify env m (signKey k) s" for k]
    by (cases "SC_Chunks_GetSecurityKeySets sc isPrev") (auto simp: SC_Chunks_VerifyMsgSignature_def)
qed

text \<open>
  A signature that is accepted over the bytes before the sequence header: the signature covers a part of the
  headers only, and the rest of the buffer cannot be cut off behind the position already read.
\<close>

definition short_signature :: "sc_env \<Rightarrow> bool \<Rightarrow> payload_flags \<times> SOPC_SecureConnection \<Rightarrow> bool" where
  "short_signature env isOPN s \<longleftrightarrow> (case s of ((toDecrypt, toCheck, isPrev), sc) \<Rightarrow>
     toCheck \<and> (\<exists>b p. currentChunkInputBuffer (chunksCtx sc) = Some b \<and>
       SC_Chunks_VerifyMsgSignature env sc (\<not> isOPN) isPrev = Some (Some p) \<and> p < position b))"

lemma SetDataLength_cut:
  assumes "buf_wf b" "unat (position b) \<le> unat n" "unat n \<le> unat (buf_length b)"
  shows "\<exists>b'. SOPC_Buffer_SetDataLength (Some b) n = Some (SOPC_STATUS_OK, Some b') \<and> buf_wf b' \<and> position b' = position b \<and>
    buf_length b' = n \<and> current_size b' = current_size b \<and> buf_bytes b' = take (unat n) (buf_bytes b)"
proof -
  obtain d where d: "buf_data b = Some d" "length d = unat (current_size b)" "unat (buf_length b) \<le> unat (current_size b)"
    using assms(1) by (rule buf_wfE)
  show ?thesis
  proof (cases "n = buf_length b")
    case True
    then show ?thesis using assms d by (auto simp: SOPC_Buffer_SetDataLength_def u32_le_iff buf_bytes_def buf_wf_def)
  next
    case False
    then have "unat n \<noteq> unat (buf_length b)" by (metis word_of_unat)
    then have lt: "n < buf_length b" using assms(3) by (simp add: u32_less_iff)
    have e: "unat n + unat (buf_length b - n) = unat (buf_length b)" using lt by (simp add: u32_less_iff unat_sub_if')
    obtain d' where d': "mem_set d (unat n) 0 (unat (buf_length b - n)) = Some d'" "length d' = length d" "take (unat n) d' = take (unat n) d"
      using d e by (simp add: mem_set_def mem_write_def)
    have "SOPC_Buffer_SetDataLength (Some b) n = Some (SOPC_STATUS_OK, Some (b\<lparr>buf_data := Some d', buf_length := n\<rparr>))"
      using d d'(1) lt assms by (simp add: SOPC_Buffer_SetDataLength_def u32_le_iff)
    moreover have "buf_wf (b\<lparr>buf_data := Some d', buf_length := n\<rparr>)"
      using assms d d' by (auto simp: buf_wf_def u32_le_iff)
    ultimately show ?thesis using d d' assms(3) by (simp add: buf_bytes_def min_absorb1)
  qed
qed

lemma SetDataLength_short:
  assumes "n < position b"
  shows "SOPC_Buffer_SetDataLength (Some b) n = Some (SOPC_STATUS_INVALID_PARAMETERS, Some b)"
proof -
  have "\<not> position b \<le> n" using assms by simp
  then show ?thesis unfolding SOPC_Buffer_SetDataLength_def by (simp del: not_le split: option.splits)
qed

lemma short_signature_stops:
  assumes "short_signature env isOPN s"
  shows "verify_payload env isOPN err s = None"
proof -
  obtain d c i sc where s: "s = ((d, c, i), sc)" by (metis prod.collapse)
  then obtain b p where "c" "currentChunkInputBuffer (chunksCtx sc) = Some b"
    "SC_Chunks_VerifyMsgSignature env sc (\<not> isOPN) i = Some (Some p)" "p < position b"
    using assms by (auto simp: short_signature_def)
  then show ?thesis using s by (simp add: verify_payload_def SetDataLength_short)
qed

lemma verify_payload_stage:
  assumes s: "keeps snd k Q sc True s"
  shows "stage (keeps snd k (\<lambda>p h. True) sc) (verify_payload env isOPN err s) \<or>
    verify_payload env isOPN err s = None \<and> short_signature env isOPN s"
proof -
  obtain d c i sc1 where sd: "s = ((d, c, i), sc1)" by (metis prod.collapse)
  have sc1: "rx_same sc sc1" "chunk_buf k Q sc1" using s sd by (simp_all add: keeps_def)
  obtain b where b: "currentChunkInputBuffer (chunksCtx sc1) = Some b" "buf_wf b" "unat (current_size b) \<le> k"
    using sc1(2) by (rule chunk_bufE)
  obtain r where r: "SC_Chunks_VerifyMsgSignature env sc1 (\<not> isOPN) i = Some r" "\<forall>p. r = Some p \<longrightarrow> unat p \<le> unat (buf_length b)"
    using VerifyMsgSignature_position [OF b(1,2)] by blast
  have cb: "chunk_buf k (\<lambda>p h. True) sc1" using sc1(2) by (rule chunk_buf_mono) simp_all
  show ?thesis
  proof (cases "c \<and> r \<noteq> None")
    case False
    then show ?thesis using sd r(1) sc1(1) cb by (auto simp: verify_payload_def keeps_def)
  next
    case True
    then obtain p where p: "c" "r = Some p" by blast
    show ?thesis
    proof (cases "p < position b")
      case True
      then have "short_signature env isOPN s" using sd r(1) p b(1) by (simp add: short_signature_def)
      then show ?thesis using short_signature_stops by blast
    next
      case False
      then obtain b' where "SOPC_Buffer_SetDataLength (Some b) p = Some (SOPC_STATUS_OK, Some b')" "buf_wf b'" "current_size b' = current_size b"
        using SetDataLength_cut [OF b(2), of p] r(2) p(2) by (auto simp: u32_less_iff)
      then show ?thesis using sd r(1) sc1(1) p b(1,3) by (simp add: verify_payload_def keeps_def)
    qed
  qed
qed

section \<open>Decryption and signature\<close>

text \<open>The chunks on which the code stops: those that cannot be decrypted into the receive buffer or signed too early.\<close>

definition unchecked_chunk :: "sc_env \<Rightarrow> bool \<Rightarrow> payload_flags \<times> SOPC_SecureConnection \<Rightarrow> bool" where
  "unchecked_chunk env isOPN s \<longleftrightarrow> oversized_plain env isOPN s \<or>
     (\<exists>err err' s'. decrypt_payload env isOPN err s = Some (True, err', s') \<and> short_signature env isOPN s')"

lemma decrypt_verify_stage:
  fixes err :: SOPC_StatusCode
  assumes s: "keeps snd k Q sc True s" "flags_agree isOPN s" and k: "k \<le> 2 ^ 30" "k = unat (receiveBufferSize (tcpMsgProperties sc))"
    and laws: "crypto_laws env"
  defines "r \<equiv> result_then (decrypt_payload env isOPN err s) (verify_payload env isOPN)"
  shows "stage (keeps snd (2 * k) (\<lambda>p h. True) sc) r \<or> r = None \<and> unchecked_chunk env isOPN s"
proof (cases "oversized_plain env isOPN s")
  case True
  then show ?thesis using oversized_stops [OF True s(2)] by (simp add: r_def unchecked_chunk_def)
next
  case False
  obtain ok err' s' where d: "decrypt_payload env isOPN err s = Some (ok, err', s')" "keeps snd (2 * k) (\<lambda>p h. True) sc ok s'"
    using decrypt_payload_stage [OF s(1) k laws False, of err] by (auto simp: stage_def)
  show ?thesis
  proof (cases ok)
    case False
    then show ?thesis using d by (simp add: r_def keeps_def)
  next
    case True
    then have "keeps snd (2 * k) (\<lambda>p h. True) sc True s'" using d(2) by simp
    from verify_payload_stage [OF this, of env isOPN err'] show ?thesis
      using d(1) True by (auto simp: r_def unchecked_chunk_def simp del: split_paired_Ex)
  qed
qed

section \<open>Sequence header\<close>

lemma CheckSeqNumReceived_keeps:
  "\<exists>ok err' sc'. SC_Chunks_CheckSeqNumReceived sc isOPN n err = (ok, err', sc') \<and> (sc' = sc \<or> (\<exists>m. sc' = set_lastSNreceived m sc))"
  by (auto simp: SC_Chunks_CheckSeqNumReceived_def Let_def)

lemma SN_stage:
  assumes c: "chunk_buf k Q sc" and lvl: "0 < sc_level env" and k: "k \<le> 2 ^ 31"
  shows "stage (keeps id k (\<lambda>p h. 4 \<le> p) sc) (SC_Chunks_CheckSequenceHeaderSN env isOPN err sc)"
proof -
  obtain st w b where r: "SOPC_UInt32_Read (sc_enc env) (Some 0) (currentChunkInputBuffer (chunksCtx sc)) 0 = Some (st, Some w, Some b)"
    "buf_wf b" "unat (current_size b) \<le> k" "st = SOPC_STATUS_OK \<longrightarrow> 4 \<le> unat (position b) \<and> Q (unat (position b) - 4) (buf_bytes b)"
    by (rule read_u32_chunk [OF c lvl k, where v = 0])
  obtain ok err' sc' where n: "SC_Chunks_CheckSeqNumReceived (set_chunk (Some b) sc) isOPN w err = (ok, err', sc')"
    "sc' = set_chunk (Some b) sc \<or> (\<exists>m. sc' = set_lastSNreceived m (set_chunk (Some b) sc))"
    using CheckSeqNumReceived_keeps by blast
  then show ?thesis using r by (auto simp: SC_Chunks_CheckSequenceHeaderSN_def keeps_def Let_def)
qed

lemma check_expected_request_keeps:
  "\<exists>ok r e err' sc'. check_expected_request env f t i err sc = (ok, r, e, err', sc') \<and>
    (sc' = sc \<or> (\<exists>rs. sc' = set_sentRequestIds rs sc))"
  by (auto simp: check_expected_request_def split: prod.splits option.splits)

lemma set_sentRequestIds_ctx [simp]: "chunksCtx (set_sentRequestIds rs sc) = chunksCtx sc"
  by (simp add: set_sentRequestIds_def)

lemma RequestId_stage:
  assumes c: "chunk_buf k Q sc" and lvl: "0 < sc_level env" and k: "k \<le> 2 ^ 31"
  shows "\<exists>ok r e err' sc'. SC_Chunks_CheckSequenceHeaderRequestId env f t rid err sc = Some (ok, r, e, err', sc') \<and>
    keeps id k (\<lambda>p h. 4 \<le> p) sc ok sc'"
proof -
  obtain st w b where r: "SOPC_UInt32_Read (sc_enc env) (Some rid) (currentChunkInputBuffer (chunksCtx sc)) 0 = Some (st, Some w, Some b)"
    "buf_wf b" "unat (current_size b) \<le> k" "st = SOPC_STATUS_OK \<longrightarrow> 4 \<le> unat (position b) \<and> Q (unat (position b) - 4) (buf_bytes b)"
    by (rule read_u32_chunk [OF c lvl k, where v = rid])
  obtain ok r' e err' sc' where x: "check_expected_request env f t w err (set_chunk (Some b) sc) = (ok, r', e, err', sc')"
    "sc' = set_chunk (Some b) sc \<or> (\<exists>rs. sc' = set_sentRequestIds rs (set_chunk (Some b) sc))"
    using check_expected_request_keeps by blast
  then show ?thesis
    using r by (auto simp: SC_Chunks_CheckSequenceHeaderRequestId_def keeps_def Let_def)
qed

abbreviation conn :: "u32 \<times> bool \<times> payload_flags \<times> SOPC_SecureConnection \<Rightarrow> SOPC_SecureConnection" where
  "conn \<equiv> \<lambda>s. snd (snd (snd s))"

lemma sequence_header_stage:
  assumes s: "keeps snd k Q sc True s" and lvl: "0 < sc_level env" and k: "k \<le> 2 ^ 31"
  shows "stage (keeps conn k (\<lambda>p h. 4 \<le> p) sc) (check_sequence_header env isOPN rid err s)"
proof -
  obtain fl sc1 where sd: "s = (fl, sc1)" by (cases s)
  have sc1: "rx_same sc sc1" "chunk_buf k Q sc1" using s sd by (simp_all add: keeps_def)
  obtain ok err1 sc2 where sn: "SC_Chunks_CheckSequenceHeaderSN env isOPN err sc1 = Some (ok, err1, sc2)"
    "keeps id k (\<lambda>p h. 4 \<le> p) sc1 ok sc2" using SN_stage [OF sc1(2) lvl k, of isOPN err] by (auto simp: stage_def)
  show ?thesis
  proof (cases ok)
    case False
    then show ?thesis using sd sn sc1(1) by (auto simp: check_sequence_header_def keeps_def intro: rx_same_trans)
  next
    case True
    then have c2: "chunk_buf k (\<lambda>p h. 4 \<le> p) sc2" "rx_same sc sc2"
      using sn(2) sc1(1) by (auto simp: keeps_def intro: rx_same_trans)
    obtain ok r e err' sc' where "SC_Chunks_CheckSequenceHeaderRequestId env (currentMsgIsFinal (chunksCtx sc2))
        (currentMsgType (chunksCtx sc2)) rid err1 sc2 = Some (ok, r, e, err', sc')" "keeps id k (\<lambda>p h. 4 \<le> p) sc2 ok sc'"
      using RequestId_stage [OF c2(1) lvl k] by blast
    then show ?thesis using sd sn(1) True c2(2) by (auto simp: check_sequence_header_def keeps_def intro: rx_same_trans)
  qed
qed

end
