(* ===== verification/Chunks_Message.thy ===== *)
theory Chunks_Message
  imports Chunks_Payload
begin

text \<open>
  The end of the treatment of a chunk: the padding is removed and the chunk becomes a part of its message.
  The treatment stops on an assertion only for a message in several chunks whose bodies are all empty, or for a
  chunk whose decryption or signature stops (\<open>unchecked_headers\<close>).
\<close>

section \<open>Padding\<close>

lemma last_byte_spec:
  assumes "buf_wf b" "1 \<le> unat (buf_length b)"
  shows "\<exists>x. last_byte b = Some x"
proof -
  obtain d where d: "buf_data b = Some d" "length d = unat (current_size b)" "unat (buf_length b) \<le> unat (current_size b)"
    using assms(1) by (rule buf_wfE)
  have "unat (buf_length b - 1) = unat (buf_length b) - 1" using assms(2) by (simp add: unat_sub_if')
  then show ?thesis using d assms(2) by (simp add: last_byte_def mem_read_def)
qed

lemma SetDataLength_total:
  assumes "buf_wf b" "unat (current_size b) \<le> k"
  shows "\<exists>st b'. SOPC_Buffer_SetDataLength (Some b) n = Some (st, Some b') \<and> buf_wf b' \<and> unat (current_size b') \<le> k \<and>
    position b' = position b \<and> (st = SOPC_STATUS_OK \<longrightarrow> unat (position b) \<le> unat (buf_length b') \<and> buf_length b' = n)"
proof -
  obtain st b' where b': "SOPC_Buffer_SetDataLength (Some b) n = Some (st, Some b')" "buf_wf b'"
    using SetDataLength_wf [OF assms(1)] by blast
  moreover have "current_size b' = current_size b \<and> position b' = position b \<and> (st = SOPC_STATUS_OK \<longrightarrow> buf_length b' = n)"
    using b'(1) by (auto simp: SOPC_Buffer_SetDataLength_def bind_eq_Some_conv split: option.splits if_splits)
  moreover have "unat (position b') \<le> unat (buf_length b')" using b'(2) by (auto elim!: buf_wfE)
  ultimately show ?thesis using assms(2) by auto
qed

lemma Remove_Padding_stage:
  assumes c: "chunk_buf k (\<lambda>p h. 4 \<le> p) sc"
  shows "\<exists>ok sc'. SOPC_Remove_Padding sc = Some (ok, sc') \<and> keeps id k (\<lambda>p h. True) sc ok sc'"
proof -
  obtain b where b: "currentChunkInputBuffer (chunksCtx sc) = Some b" "buf_wf b" "unat (current_size b) \<le> k" "4 \<le> unat (position b)"
    using c by (rule chunk_bufE)
  have len: "4 \<le> unat (buf_length b)" using b(2,4) by (auto elim!: buf_wfE)
  have cut: "\<exists>ok sc'. (do { (st, b'') \<leftarrow> SOPC_Buffer_SetDataLength (Some b') n; Some (st = SOPC_STATUS_OK, set_chunk b'' sc) }) =
      Some (ok, sc') \<and> keeps id k (\<lambda>p h. True) sc ok sc'"
    if w: "buf_wf b'" "unat (current_size b') \<le> k" for b' n
  proof -
    obtain st b'' where "SOPC_Buffer_SetDataLength (Some b') n = Some (st, Some b'')" "buf_wf b''" "unat (current_size b'') \<le> k"
      using SetDataLength_total [OF w] by blast
    then show ?thesis by (auto simp: keeps_def)
  qed
  show ?thesis
  proof (cases "hasExtraPaddingSize sc")
    case False
    obtain y where "last_byte b = Some y" using last_byte_spec [OF b(2)] len by auto
    then show ?thesis
      using False b(1) cut [OF b(2,3), of "buf_length b - (ucast y + 1)"]
      by (simp add: SOPC_Remove_Padding_def)
  next
    case True
    obtain y where y: "last_byte b = Some y" using last_byte_spec [OF b(2)] len by auto
    obtain st b' where b': "SOPC_Buffer_SetDataLength (Some b) (buf_length b - 1) = Some (st, Some b')" "buf_wf b'"
      "unat (current_size b') \<le> k" "position b' = position b" "st = SOPC_STATUS_OK \<longrightarrow> unat (position b) \<le> unat (buf_length b')"
      using SetDataLength_total [OF b(2,3)] by blast
    show ?thesis
    proof (cases "st = SOPC_STATUS_OK")
      case False
      then show ?thesis using True b(1) y b' by (auto simp: SOPC_Remove_Padding_def keeps_def)
    next
      case ok: True
      obtain z where "last_byte b' = Some z" using last_byte_spec [OF b'(2)] b'(5) ok b(4) by auto
      then show ?thesis
        using True ok b(1) y b'(1) cut [OF b'(2,3), of "buf_length b' - (push_bit 8 (ucast y) + ucast z + 1)"]
        by (simp add: SOPC_Remove_Padding_def)
    qed
  qed
qed

lemma remove_padding_stage:
  assumes s: "keeps conn k (\<lambda>p h. 4 \<le> p) sc True s"
  shows "stage (keeps conn k (\<lambda>p h. True) sc) (remove_padding_payload err s)"
proof -
  obtain rid e d c i sc1 where sd: "s = (rid, e, (d, c, i), sc1)" by (metis prod.collapse)
  have sc1: "rx_same sc sc1" "chunk_buf k (\<lambda>p h. 4 \<le> p) sc1" using s sd by (simp_all add: keeps_def)
  obtain ok sc' where "SOPC_Remove_Padding sc1 = Some (ok, sc')" "keeps id k (\<lambda>p h. True) sc1 ok sc'"
    using Remove_Padding_stage [OF sc1(2)] by blast
  moreover have "chunk_buf k (\<lambda>p h. True) sc1" using sc1(2) by (rule chunk_buf_mono) simp_all
  ultimately show ?thesis
    using sd sc1(1) by (auto simp: remove_padding_payload_def keeps_def intro: rx_same_trans)
qed

section \<open>A secure message\<close>

text \<open>The configured security mode is never the invalid one.\<close>

definition modes_valid :: "sc_env \<Rightarrow> bool" where
  "modes_valid env \<longleftrightarrow> (\<forall>s i. sc_config env s i \<noteq> Some OpcUa_MessageSecurityMode_Invalid)"

text \<open>
  A chunk whose channel identifier and security header are accepted and on which the decryption or the signature
  stops.
\<close>

definition unchecked_headers :: "sc_env \<Rightarrow> SOPC_SecureConnection \<Rightarrow> bool" where
  "unchecked_headers env sc \<longleftrightarrow>
     (let isOPN = (currentMsgType (chunksCtx sc) = SOPC_MSG_TYPE_SC_OPN)
      in \<exists>err err1 sc1 err2 s. check_secureChannelId env isOPN err sc = Some (True, err1, sc1) \<and>
           check_security_header env isOPN err1 sc1 = Some (True, err2, s) \<and> unchecked_chunk env isOPN s)"

lemma result_then_assoc: "result_then (result_then r f) g = result_then r (\<lambda>err s. result_then (f err s) g)"
  by (cases r) (auto simp: result_then_def split: prod.splits)

lemma stage_or_then:
  assumes "stage P r" "\<And>err s. r = Some (True, err, s) \<Longrightarrow> P True s \<Longrightarrow> stage Q (f err s) \<or> f err s = None \<and> E"
    "\<And>s. P False s \<Longrightarrow> Q False s"
  shows "stage Q (result_then r f) \<or> result_then r f = None \<and> E"
proof -
  obtain ok err s where r: "r = Some (ok, err, s)" "P ok s" using assms(1) by (auto simp: stage_def)
  then show ?thesis using assms(2,3) by (cases ok) auto
qed

text \<open>The security header, the decryption and the signature, in this order.\<close>

lemma checked_chunk_stage:
  assumes c: "chunk_buf k (\<lambda>p h. p = 12) sc" and lvl: "0 < sc_level env" and k: "k \<le> 2 ^ 30" "k = unat (receiveBufferSize (tcpMsgProperties sc))"
    and laws: "crypto_laws env" and modes: "modes_valid env"
  shows "stage (keeps snd (2 * k) (\<lambda>p h. True) sc)
      (result_then (result_then (check_security_header env isOPN err sc) (decrypt_payload env isOPN)) (verify_payload env isOPN)) \<or>
    result_then (result_then (check_security_header env isOPN err sc) (decrypt_payload env isOPN)) (verify_payload env isOPN) = None \<and>
      (\<exists>err2 s. check_security_header env isOPN err sc = Some (True, err2, s) \<and> unchecked_chunk env isOPN s)"
  unfolding result_then_assoc
proof (rule stage_or_then)
  show "stage (\<lambda>ok s. keeps snd k (\<lambda>p h. True) sc ok s \<and> flags_agree isOPN s) (check_security_header env isOPN err sc)"
    using security_header_stage [OF c lvl _ laws] modes k(1) unfolding modes_valid_def by auto
next
  fix err2 s
  assume "check_security_header env isOPN err sc = Some (True, err2, s)"
    and "keeps snd k (\<lambda>p h. True) sc True s \<and> flags_agree isOPN s"
  with decrypt_verify_stage [OF _ _ k laws, of _ s isOPN err2]
  show "stage (keeps snd (2 * k) (\<lambda>p h. True) sc) (result_then (decrypt_payload env isOPN err2 s) (verify_payload env isOPN)) \<or>
      result_then (decrypt_payload env isOPN err2 s) (verify_payload env isOPN) = None \<and>
        (\<exists>err2 s. check_security_header env isOPN err sc = Some (True, err2, s) \<and> unchecked_chunk env isOPN s)"
    by blast
qed (simp add: keeps_def)

lemma secure_payload_stage:
  assumes c: "chunk_buf k (\<lambda>p h. p = 8) sc" and lvl: "0 < sc_level env" and k: "k \<le> 2 ^ 30" "k = unat (receiveBufferSize (tcpMsgProperties sc))"
    and laws: "crypto_laws env" and modes: "modes_valid env"
  shows "stage (keeps conn (2 * k) (\<lambda>p h. True) sc) (secure_payload env rid err sc) \<or>
    secure_payload env rid err sc = None \<and> unchecked_headers env sc"
proof -
  define isOPN where "isOPN = (currentMsgType (chunksCtx sc) = SOPC_MSG_TYPE_SC_OPN)"
  have k31: "k \<le> 2 ^ 31" "2 * k \<le> 2 ^ 31" using k(1) by simp_all
  note def = secure_payload_def isOPN_def [symmetric] Let_def
  obtain ok1 err1 sc1 where s1: "check_secureChannelId env isOPN err sc = Some (ok1, err1, sc1)"
    "keeps id k (\<lambda>p h. 4 \<le> p \<and> p - 4 = 8) sc ok1 sc1"
    using secureChannelId_stage [OF c lvl k31(1), of isOPN err] unfolding stage_def by blast
  show ?thesis
  proof (cases ok1)
    case False
    then show ?thesis using s1 by (simp add: secure_payload_def isOPN_def keeps_def)
  next
    case True
    note s1T = s1(1) [unfolded eqTrueI [OF True]]
    have same1: "rx_same sc sc1" and "chunk_buf k (\<lambda>p h. 4 \<le> p \<and> p - 4 = 8) sc1" using s1(2) True by (simp_all add: keeps_def)
    then have c1: "chunk_buf k (\<lambda>p h. p = 12) sc1" by (elim chunk_buf_mono) auto
    have kk: "k = unat (receiveBufferSize (tcpMsgProperties sc1))" using same1 k(2) by (simp add: rx_same_def)
    let ?r = "result_then (result_then (check_security_header env isOPN err1 sc1) (decrypt_payload env isOPN)) (verify_payload env isOPN)"
    from checked_chunk_stage [OF c1 lvl k(1) kk laws modes, of isOPN err1] consider
      (stop) err2 s where "?r = None" "check_security_header env isOPN err1 sc1 = Some (True, err2, s)" "unchecked_chunk env isOPN s"
    | (check) ok2 err2 s2 where "?r = Some (ok2, err2, s2)" "keeps snd (2 * k) (\<lambda>p h. True) sc1 ok2 s2"
      unfolding stage_def by blast
    then show ?thesis
    proof cases
      case stop
      then have "unchecked_headers env sc" using s1T unfolding unchecked_headers_def isOPN_def [symmetric] Let_def by blast
      then show ?thesis using s1T stop(1) unfolding def by simp
    next
      case (check ok2 err2 s2)
      show ?thesis
      proof (cases ok2)
        case False
        then show ?thesis using s1T check same1 unfolding def by (auto simp: keeps_def intro: rx_same_trans)
      next
        case ok2: True
        then have k2: "keeps snd (2 * k) (\<lambda>p h. True) sc1 True s2" using check(2) by simp
        have "stage (keeps conn (2 * k) (\<lambda>p h. True) sc1) (result_then (check_sequence_header env isOPN rid err2 s2) remove_padding_payload)"
          by (rule stage_then [OF sequence_header_stage [OF k2 lvl k31(2)] remove_padding_stage]) (simp_all add: keeps_def)
        then have "stage (keeps conn (2 * k) (\<lambda>p h. True) sc) (result_then (check_sequence_header env isOPN rid err2 s2) remove_padding_payload)"
          by (rule stage_mono) (auto simp: keeps_def intro: rx_same_trans [OF same1])
        then show ?thesis using s1T check(1) ok2 unfolding def by simp
      qed
    qed
  qed
qed

section \<open>Messages in several chunks\<close>

definition pending :: "SOPC_SecureConnection_ChunkMgrCtx \<Rightarrow> SOPC_Buffer list" where
  "pending ctx = (case intermediateChunksInputBuffers ctx of None \<Rightarrow> [] | Some bs \<Rightarrow> bs)"

definition tcp_limits :: "SOPC_SecureConnection_TcpProperties \<Rightarrow> bool" where
  "tcp_limits tcp \<longleftrightarrow> 8 \<le> unat (receiveBufferSize tcp) \<and> unat (receiveBufferSize tcp) \<le> 2 ^ 30 \<and>
     unat (receiveMaxMessageSize tcp) < 2 ^ 31 \<and> receiveMaxChunkCount tcp \<noteq> 0"

definition pending_ok :: "SOPC_SecureConnection_TcpProperties \<Rightarrow> SOPC_SecureConnection_ChunkMgrCtx \<Rightarrow> bool" where
  "pending_ok tcp ctx \<longleftrightarrow> (\<forall>b \<in> set (pending ctx). buf_wf b) \<and>
     length (bodies (pending ctx)) \<le> unat (receiveMaxMessageSize tcp) \<and> length (pending ctx) < unat (receiveMaxChunkCount tcp)"

lemma pending_ok_Nil: "tcp_limits tcp \<Longrightarrow> pending ctx = [] \<Longrightarrow> pending_ok tcp ctx"
  by (simp add: pending_ok_def tcp_limits_def unat_gt_0)

lemma nb_pending:
  assumes "pending_ok tcp ctx"
  shows "unat (SOPC_ScInternalContext_GetNbIntermediateInputChunks ctx) = length (pending ctx)"
proof -
  have "length (pending ctx) < 2 ^ 32" using assms unat_lt_u32 [of "receiveMaxChunkCount tcp"] by (simp add: pending_ok_def)
  then show ?thesis
    by (simp add: SOPC_ScInternalContext_GetNbIntermediateInputChunks_def pending_def unat_of_nat_u32 split: option.splits)
qed

lemma total_size:
  assumes p: "pending_ok tcp ctx" and lim: "tcp_limits tcp" and b: "buf_wf b" "unat (current_size b) \<le> 2 ^ 31"
  shows "unat (chunks_size (case intermediateChunksInputBuffers ctx of None \<Rightarrow> [] | Some bs \<Rightarrow> bs) 0 + (buf_length b - position b)) =
    length (bodies (pending ctx @ [b]))"
proof -
  have "length (bodies (pending ctx @ [b])) < 2 ^ 32"
    using p lim unread_le_size [OF b(1)] b(2) by (simp add: pending_ok_def tcp_limits_def)
  moreover have "chunks_size (case intermediateChunksInputBuffers ctx of None \<Rightarrow> [] | Some bs \<Rightarrow> bs) 0 + (buf_length b - position b) =
      of_nat (length (bodies (pending ctx @ [b])))"
    using p b(1) by (simp add: pending_def [symmetric] pending_ok_def chunks_size_bodies remaining_of_nat)
  ultimately show ?thesis by (metis unat_of_nat_u32)
qed

text \<open>What the treatment of a \<open>MSG\<close> chunk does with the message in reception.\<close>

lemma TreatMsgMultiChunks_spec:
  fixes sc :: SOPC_SecureConnection and b :: SOPC_Buffer
  defines "ctx \<equiv> chunksCtx sc"
  defines "tcp \<equiv> tcpMsgProperties sc"
  defines "all \<equiv> pending ctx @ [b]"
  assumes m: "currentMsgType ctx = SOPC_MSG_TYPE_SC_MSG" "currentMsgIsFinal ctx \<noteq> SOPC_MSG_ISFINAL_INVALID"
    and b: "currentChunkInputBuffer ctx = Some b" "buf_wf b" "unat (current_size b) \<le> 2 ^ 31"
    and p: "pending_ok tcp ctx" and lim: "tcp_limits tcp"
  shows "SC_Chunks_TreatMsgMultiChunks env err sc =
    (if currentMsgIsFinal ctx \<noteq> SOPC_MSG_ISFINAL_ABORT \<and> unat (receiveMaxMessageSize tcp) < length (bodies all)
     then Some (False, OpcUa_BadTcpMessageTooLarge, sc)
     else if currentMsgIsFinal ctx = SOPC_MSG_ISFINAL_INTERMEDIATE then
       (if (intermediateChunksInputBuffers ctx \<noteq> None \<or> mem_ok (sc_enc env) sizeof_list) \<and> mem_ok (sc_enc env) sizeof_list_elt
        then Some (True, err, set_ctx (SOPC_ScInternalContext_ClearCurrentInputChunkContext
               (ctx\<lparr>intermediateChunksInputBuffers := Some all, currentChunkInputBuffer := None\<rparr>)) sc)
        else Some (False, OpcUa_BadOutOfMemory, set_ctx (ctx\<lparr>intermediateChunksInputBuffers :=
               if intermediateChunksInputBuffers ctx \<noteq> None \<or> mem_ok (sc_enc env) sizeof_list then Some (pending ctx) else None\<rparr>) sc))
     else if currentMsgIsFinal ctx = SOPC_MSG_ISFINAL_ABORT
     then Some (True, err, set_ctx (ctx\<lparr>intermediateChunksInputBuffers := None, currentMessageInputBuffer := Some b, currentChunkInputBuffer := None\<rparr>) sc)
     else if pending ctx = []
     then Some (True, err, set_ctx (ctx\<lparr>currentMessageInputBuffer := Some b, currentChunkInputBuffer := None\<rparr>) sc)
     else if bodies all = [] then None
     else case SOPC_Buffer_Create (sc_enc env) (of_nat (length (bodies all))) of
       None \<Rightarrow> Some (False, OpcUa_BadOutOfMemory, sc)
     | Some mb \<Rightarrow> Some (True, err, set_ctx (ctx\<lparr>intermediateChunksInputBuffers := Some [], currentChunkInputBuffer := None,
         currentMessageInputBuffer := Some (buf_append (bodies all) mb)\<rparr>) sc))"
proof -
  define n where "n = chunks_size (case intermediateChunksInputBuffers ctx of None \<Rightarrow> [] | Some bs \<Rightarrow> bs) 0 + (buf_length b - position b)"
  have un: "unat n = length (bodies all)" unfolding n_def all_def by (rule total_size [OF p lim b(2,3)])
  have gt: "n > receiveMaxMessageSize tcp \<longleftrightarrow> unat (receiveMaxMessageSize tcp) < length (bodies all)" by (simp add: u32_less_iff un)
  have nz: "n = 0 \<longleftrightarrow> bodies all = []" using un by (metis length_0_conv unat_eq_zero)
  have nn: "of_nat (length (bodies all)) = n" using un word_of_unat by metis
  have room: "length (pending ctx) < unat (receiveMaxChunkCount tcp)" using p by (simp add: pending_ok_def)
  have nb: "SOPC_ScInternalContext_GetNbIntermediateInputChunks ctx > 0 \<longleftrightarrow> pending ctx \<noteq> []"
    using nb_pending [OF p] by (simp add: u32_less_iff)
  have sc: "set_ctx ctx sc = sc" by (simp add: set_ctx_def ctx_def)
  have noop: "ctx\<lparr>intermediateChunksInputBuffers := None\<rparr> = ctx" if "intermediateChunksInputBuffers ctx = None"
    using that by (cases ctx) simp
  consider (I) "currentMsgIsFinal ctx = SOPC_MSG_ISFINAL_INTERMEDIATE" | (F) "currentMsgIsFinal ctx = SOPC_MSG_ISFINAL_FINAL"
    | (A) "currentMsgIsFinal ctx = SOPC_MSG_ISFINAL_ABORT" using m(2) by (cases "currentMsgIsFinal ctx") auto
  then show ?thesis
  proof cases
    case I
    then show ?thesis
      unfolding SC_Chunks_TreatMsgMultiChunks_def ctx_def [symmetric] tcp_def [symmetric] Let_def
      using m b(1) gt room
      by (auto simp: noop n_def [symmetric] SOPC_ScInternalContext_AddIntermediateInputChunk_def all_def pending_def Let_def
          split: option.splits)
  next
    case A
    then show ?thesis
      unfolding SC_Chunks_TreatMsgMultiChunks_def ctx_def [symmetric] tcp_def [symmetric] Let_def
      using m b(1)
      by (simp add: SOPC_ScInternalContext_ClearIntermediateInputChunks_def merge_final_chunk_def
          SOPC_ScInternalContext_GetNbIntermediateInputChunks_def)
  next
    case F
    have merged: "merge_final_chunk env n err ctx =
      (if pending ctx = []
       then Some (True, err, ctx\<lparr>currentMessageInputBuffer := Some b, currentChunkInputBuffer := None\<rparr>)
       else if bodies all = [] then None
       else case SOPC_Buffer_Create (sc_enc env) n of
         None \<Rightarrow> Some (False, OpcUa_BadOutOfMemory, ctx)
       | Some mb \<Rightarrow> Some (True, err, ctx\<lparr>intermediateChunksInputBuffers := Some [], currentChunkInputBuffer := None,
           currentMessageInputBuffer := Some (buf_append (bodies all) mb)\<rparr>))"
    proof (cases "pending ctx = []")
      case True
      then show ?thesis using nb b(1) by (simp add: merge_final_chunk_def)
    next
      case False
      show ?thesis
      proof (cases "bodies all = []")
        case True
        then show ?thesis using False nb nz by (simp add: merge_final_chunk_def)
      next
        case ne: False
        have bs: "intermediateChunksInputBuffers ctx = Some (pending ctx)" using False by (simp add: pending_def split: option.splits)
        have wfs: "\<forall>b \<in> set (pending ctx). buf_wf b" "length (pending ctx) < 2 ^ 32"
          using p unat_lt_u32 [of "receiveMaxChunkCount tcp"] by (simp_all add: pending_ok_def)
        have "n \<noteq> 0" using nz ne by simp
        then show ?thesis
          using merge_final_chunk_spec [OF bs False wfs b(1,2) un [unfolded all_def], of env err, folded all_def] ne False
          by simp
      qed
    qed
    show ?thesis
      unfolding SC_Chunks_TreatMsgMultiChunks_def ctx_def [symmetric] tcp_def [symmetric] Let_def
      using m b(1) F gt merged nn sc
      by (simp add: n_def [symmetric] split: option.splits)
  qed
qed

end
