(* ===== verification/Chunks_Loop.thy ===== *)
theory Chunks_Loop
  imports Chunks_Message
begin

text \<open>
  The loop over the received bytes: its invariant, its reading as a function of the bytes, and the proof
  that it always returns unless a message of several chunks has no byte at all or a chunk is one on which the
  decryption or the signature stops.
\<close>

section \<open>The invariant of a connection in reception\<close>

definition rx_inv :: "SOPC_SecureConnection \<Rightarrow> bool" where
  "rx_inv sc \<longleftrightarrow> tcp_limits (tcpMsgProperties sc) \<and>
     chunk_inv (receiveBufferSize (tcpMsgProperties sc)) (chunksCtx sc) \<and> pending_ok (tcpMsgProperties sc) (chunksCtx sc)"

text \<open>With a complete chunk, and after its treatment.\<close>

definition rx_complete :: "SOPC_SecureConnection \<Rightarrow> bool" where
  "rx_complete sc \<longleftrightarrow> tcp_limits (tcpMsgProperties sc) \<and> pending_ok (tcpMsgProperties sc) (chunksCtx sc) \<and>
     currentMessageInputBuffer (chunksCtx sc) = None \<and>
     (currentMsgIsFinal (chunksCtx sc) = SOPC_MSG_ISFINAL_INTERMEDIATE \<longrightarrow>
        length (pending (chunksCtx sc)) + 1 < unat (receiveMaxChunkCount (tcpMsgProperties sc))) \<and>
     (\<exists>b. currentChunkInputBuffer (chunksCtx sc) = Some b \<and> complete_chunk (receiveBufferSize (tcpMsgProperties sc)) (chunksCtx sc) b)"

definition rx_treated :: "SOPC_SecureConnection \<Rightarrow> bool" where
  "rx_treated sc \<longleftrightarrow> tcp_limits (tcpMsgProperties sc) \<and> pending_ok (tcpMsgProperties sc) (chunksCtx sc) \<and>
     currentChunkInputBuffer (chunksCtx sc) = None \<and>
     (case currentMessageInputBuffer (chunksCtx sc) of
        None \<Rightarrow> ctx_fresh (chunksCtx sc)
      | Some m \<Rightarrow> buf_wf m \<and> currentMsgType (chunksCtx sc) \<noteq> SOPC_MSG_TYPE_INVALID)"

lemma pending_simps [simp]:
  "pending (ctx\<lparr>intermediateChunksInputBuffers := Some bs\<rparr>) = bs"
  "pending (ctx\<lparr>intermediateChunksInputBuffers := None\<rparr>) = []"
  "pending (ctx\<lparr>currentMessageInputBuffer := m\<rparr>) = pending ctx"
  "pending (ctx\<lparr>currentChunkInputBuffer := m\<rparr>) = pending ctx"
  "pending (ctx\<lparr>currentMsgSize := n\<rparr>) = pending ctx"
  "pending (ctx\<lparr>currentMsgType := ty\<rparr>) = pending ctx"
  "pending (ctx\<lparr>currentMsgIsFinal := f\<rparr>) = pending ctx"
  by (simp_all add: pending_def)

text \<open>Only chunks without any byte of the message have been received.\<close>

definition empty_pending :: "SOPC_SecureConnection \<Rightarrow> bool" where
  "empty_pending sc \<longleftrightarrow> pending (chunksCtx sc) \<noteq> [] \<and> bodies (pending (chunksCtx sc)) = []"

lemma rx_inv_cleared:
  "tcp_limits (tcpMsgProperties sc) \<Longrightarrow> rx_inv (set_ctx (SOPC_ScInternalContext_ClearInputChunksContext ctx) sc)"
  by (simp add: rx_inv_def set_ctx_def chunk_inv_def ctx_fresh_def pending_ok_Nil pending_def
      SOPC_ScInternalContext_ClearInputChunksContext_def SOPC_ScInternalContext_ClearIntermediateInputChunks_def
      SOPC_ScInternalContext_ClearCurrentInputChunkContext_def Let_def)

section \<open>The treatment of a chunk\<close>

lemma complete_payload_safe:
  assumes s: "keeps conn k (\<lambda>p h. True) sc True s" and k: "k \<le> 2 ^ 31" and rx: "rx_complete sc"
  shows "stage (\<lambda>ok s'. tcpMsgProperties (conn s') = tcpMsgProperties sc \<and> (ok \<longrightarrow> rx_treated (conn s')))
      (complete_payload env err s) \<or>
    complete_payload env err s = None \<and> empty_pending sc"
proof -
  obtain rid e fl sc1 where sd: "s = (rid, e, fl, sc1)" by (metis prod.collapse)
  have same: "rx_same sc sc1" and c: "chunk_buf k (\<lambda>p h. True) sc1" using s sd by (simp_all add: keeps_def)
  obtain b where b: "currentChunkInputBuffer (chunksCtx sc1) = Some b" "buf_wf b" "unat (current_size b) \<le> k"
    using c by (rule chunk_bufE)
  let ?ctx = "chunksCtx sc1" and ?tcp = "tcpMsgProperties sc1"
  have ctx: "tcp_limits ?tcp" "pending_ok ?tcp ?ctx" "currentMessageInputBuffer ?ctx = None"
    "currentMsgIsFinal ?ctx = SOPC_MSG_ISFINAL_INTERMEDIATE \<longrightarrow> length (pending ?ctx) + 1 < unat (receiveMaxChunkCount ?tcp)"
    "currentMsgType ?ctx \<noteq> SOPC_MSG_TYPE_INVALID" "currentMsgIsFinal ?ctx \<noteq> SOPC_MSG_ISFINAL_INVALID"
    "tcpMsgProperties sc1 = tcpMsgProperties sc" "pending ?ctx = pending (chunksCtx sc)"
    using same rx by (auto simp: rx_same_def rx_complete_def complete_chunk_def pending_ok_def pending_def)
  show ?thesis
  proof (cases "currentMsgType ?ctx = SOPC_MSG_TYPE_SC_MSG")
    case False
    then show ?thesis
      using sd b ctx by (simp add: complete_payload_def rx_treated_def set_ctx_def pending_ok_def pending_def)
  next
    case True
    have b31: "unat (current_size b) \<le> 2 ^ 31" using b(3) k by simp
    note spec = TreatMsgMultiChunks_spec [OF True ctx(6) b(1,2) b31 ctx(2,1), of env err]
    have empty: "empty_pending sc" if "pending ?ctx \<noteq> []" "bodies (pending ?ctx @ [b]) = []"
      using that ctx(8) by (simp add: empty_pending_def)
    have nil: "pending_ok ?tcp x" if "pending x = []" for x
      using ctx(1) that by (rule pending_ok_Nil)
    have add: "pending_ok ?tcp x"
      if "pending x = pending ?ctx @ [b]" "\<not> unat (receiveMaxMessageSize ?tcp) < length (bodies (pending ?ctx @ [b]))"
        "currentMsgIsFinal ?ctx = SOPC_MSG_ISFINAL_INTERMEDIATE" for x
      using that ctx(2,4) b(2) by (auto simp: pending_ok_def)
    have mb: "buf_wf (buf_append (bodies (pending ?ctx @ [b])) m)"
      if "SOPC_Buffer_Create (sc_enc env) (of_nat (length (bodies (pending ?ctx @ [b])))) = Some m" for m
    proof -
      note cr = Create_spec [OF that]
      have "length (bodies (pending ?ctx @ [b])) < 2 ^ 32"
        using ctx(1,2) unread_le_size [OF b(2)] b31 by (simp add: pending_ok_def tcp_limits_def)
      then show ?thesis using cr by (intro wf_append(1)) (simp_all add: unat_of_nat_u32 del: bodies_simps)
    qed
    note defs = complete_payload_def sd rx_treated_def set_ctx_def ctx_fresh_def SOPC_ScInternalContext_ClearCurrentInputChunkContext_def
    note facts = True ctx(1,3,7)
    consider (large) "currentMsgIsFinal ?ctx \<noteq> SOPC_MSG_ISFINAL_ABORT" "unat (receiveMaxMessageSize ?tcp) < length (bodies (pending ?ctx @ [b]))"
      | (inter) "currentMsgIsFinal ?ctx = SOPC_MSG_ISFINAL_INTERMEDIATE" "\<not> unat (receiveMaxMessageSize ?tcp) < length (bodies (pending ?ctx @ [b]))"
      | (abort) "currentMsgIsFinal ?ctx = SOPC_MSG_ISFINAL_ABORT"
      | (final) "currentMsgIsFinal ?ctx = SOPC_MSG_ISFINAL_FINAL" "\<not> unat (receiveMaxMessageSize ?tcp) < length (bodies (pending ?ctx @ [b]))"
      using ctx(6) by (cases "currentMsgIsFinal ?ctx") auto
    then show ?thesis
    proof cases
      case large
      then show ?thesis using facts by (simp add: defs spec del: bodies_simps)
    next
      case inter
      then show ?thesis using facts add by (simp add: defs spec del: bodies_simps)
    next
      case abort
      then show ?thesis using facts nil b(2) by (simp add: defs spec)
    next
      case final
      show ?thesis
      proof (cases "pending ?ctx = []")
        case True
        then show ?thesis using final facts nil b(2) by (simp add: defs spec del: bodies_simps)
      next
        case pend: False
        then show ?thesis
          using final facts nil mb empty by (auto simp: defs spec simp del: bodies_simps split: option.splits)
      qed
    qed
  qed
qed

text \<open>An expected secure message whose headers are accepted and whose decryption or signature stops.\<close>

definition unchecked_message :: "sc_env \<Rightarrow> SOPC_SecureConnection \<Rightarrow> bool" where
  "unchecked_message env sc \<longleftrightarrow>
     payload_expected sc = Some True \<and> is_secure_msg (currentMsgType (chunksCtx sc)) \<and> unchecked_headers env sc"

lemma TreatTcpPayload_safe:
  assumes rx: "rx_complete sc" and lvl: "0 < sc_level env" and laws: "crypto_laws env" and modes: "modes_valid env"
  shows "stage (\<lambda>ok s'. tcpMsgProperties (conn s') = tcpMsgProperties sc \<and> (ok \<longrightarrow> rx_treated (conn s')))
      (SC_Chunks_TreatTcpPayload env rid err sc) \<or>
    SC_Chunks_TreatTcpPayload env rid err sc = None \<and> (empty_pending sc \<or> unchecked_message env sc)"
proof -
  define k where "k = unat (receiveBufferSize (tcpMsgProperties sc))"
  have k: "k \<le> 2 ^ 30" "2 * k \<le> 2 ^ 31" using rx by (simp_all add: rx_complete_def tcp_limits_def k_def)
  obtain b where b: "currentChunkInputBuffer (chunksCtx sc) = Some b"
    "complete_chunk (receiveBufferSize (tcpMsgProperties sc)) (chunksCtx sc) b" using rx by (auto simp: rx_complete_def)
  have c: "chunk_buf k (\<lambda>p h. p = 8) sc" using b by (simp add: chunk_buf_def complete_chunk_def k_def)
  have ty: "currentMsgType (chunksCtx sc) \<noteq> SOPC_MSG_TYPE_INVALID" using b(2) by (simp add: complete_chunk_def)
  obtain ok where ok: "payload_expected sc = Some ok"
    using ty by (cases "currentMsgType (chunksCtx sc)") (simp_all add: payload_expected_def)
  show ?thesis
  proof (cases ok)
    case False
    then show ?thesis using ok by (simp add: SC_Chunks_TreatTcpPayload_def)
  next
    case True
    let ?r = "if is_secure_msg (currentMsgType (chunksCtx sc)) then secure_payload env rid err sc
      else Some (True, err, rid, False, (False, False, False), sc)"
    have "chunk_buf (2 * k) (\<lambda>p h. True) sc" using c by (rule chunk_buf_mono) simp_all
    then have "stage (keeps conn (2 * k) (\<lambda>p h. True) sc) ?r \<or> ?r = None \<and> unchecked_message env sc"
      using secure_payload_stage [OF c lvl k(1) k_def laws modes, of rid err] ok True by (simp add: keeps_def unchecked_message_def)
    then show ?thesis
    proof
      assume "?r = None \<and> unchecked_message env sc"
      then show ?thesis using ok True by (simp add: SC_Chunks_TreatTcpPayload_def)
    next
      assume "stage (keeps conn (2 * k) (\<lambda>p h. True) sc) ?r"
      then have "stage (\<lambda>ok s'. tcpMsgProperties (conn s') = tcpMsgProperties sc \<and> (ok \<longrightarrow> rx_treated (conn s')))
          (result_then ?r (complete_payload env)) \<or>
        result_then ?r (complete_payload env) = None \<and> empty_pending sc"
        by (rule stage_or_then [OF _ complete_payload_safe [OF _ k(2) rx]]) (simp_all add: keeps_def rx_same_def)
      then show ?thesis using ok True by (auto simp: SC_Chunks_TreatTcpPayload_def)
    qed
  qed
qed

lemma deliver_safe:
  assumes "rx_treated sc"
  shows "\<exists>ok err' sc' evs'. deliver_message env scIdx rid e err sc evs = Some (ok, err', sc', evs') \<and>
    tcpMsgProperties sc' = tcpMsgProperties sc \<and> (ok \<longrightarrow> rx_inv sc')"
proof (cases "currentMessageInputBuffer (chunksCtx sc)")
  case None
  then show ?thesis
    using assms by (auto simp: deliver_message_def rx_treated_def rx_inv_def chunk_inv_def)
next
  case (Some m)
  have "currentMsgType (chunksCtx sc) \<noteq> SOPC_MSG_TYPE_INVALID" using assms Some by (simp add: rx_treated_def)
  then obtain ev where "SC_Chunks_MsgTypeToRcvEvent (currentMsgType (chunksCtx sc)) (currentMsgIsFinal (chunksCtx sc)) = Some ev"
    by (cases "currentMsgType (chunksCtx sc)") (simp_all add: SC_Chunks_MsgTypeToRcvEvent_def)
  then show ?thesis
    using assms Some rx_inv_cleared [of sc "chunksCtx sc"]
    by (auto simp: deliver_message_def rx_treated_def Let_def set_ctx_def)
qed

section \<open>The loop as a function of the bytes\<close>

definition chunk_buffer :: "sc_env \<Rightarrow> SOPC_SecureConnection \<Rightarrow> bufp" where
  "chunk_buffer env sc =
     (case currentChunkInputBuffer (chunksCtx sc) of
        None \<Rightarrow> SOPC_Buffer_Create (sc_enc env) (receiveBufferSize (tcpMsgProperties sc))
      | Some b \<Rightarrow> Some b)"

text \<open>The connection with the next complete chunk of the bytes.\<close>

definition next_chunk :: "sc_env \<Rightarrow> SOPC_SecureConnection \<Rightarrow> byte list \<Rightarrow> SOPC_SecureConnection \<Rightarrow> bool" where
  "next_chunk env sc u sc' \<longleftrightarrow> (\<exists>b err ctx k. chunk_buffer env sc = Some b \<and>
     decode_bytes ((chunksCtx sc)\<lparr>currentChunkInputBuffer := Some b\<rparr>) b u = (True, err, ctx, k) \<and> sc' = set_ctx ctx sc)"

text \<open>The two reasons to stop: a message without any byte, and an unchecked chunk.\<close>

definition stopping :: "sc_env \<Rightarrow> SOPC_SecureConnection \<Rightarrow> byte list \<Rightarrow> bool" where
  "stopping env sc u \<longleftrightarrow> empty_pending sc \<or> (\<exists>sc'. next_chunk env sc u sc' \<and> unchecked_message env sc')"

text \<open>One turn: \<open>Inl\<close> is the end of the loop, \<open>Inr\<close> the next turn with the number of bytes used.\<close>

definition chunk_step ::
  "sc_env \<Rightarrow> u32 \<Rightarrow> u32 \<Rightarrow> SOPC_SecureConnection \<Rightarrow> SOPC_LooperEvent list \<Rightarrow> byte list \<Rightarrow>
   ((bool \<times> SOPC_StatusCode \<times> SOPC_SecureConnection \<times> SOPC_LooperEvent list) +
    (u32 \<times> SOPC_StatusCode \<times> SOPC_SecureConnection \<times> SOPC_LooperEvent list \<times> nat)) option" where
  "chunk_step env scIdx rid sc evs u =
     (case chunk_buffer env sc of
        None \<Rightarrow> Some (Inl (False, OpcUa_BadOutOfMemory, sc, evs))
      | Some b \<Rightarrow>
          (case decode_bytes ((chunksCtx sc)\<lparr>currentChunkInputBuffer := Some b\<rparr>) b u of
             (complete, err, ctx, k) \<Rightarrow>
               if \<not> complete then Some (Inl (err = SOPC_GoodGenericStatus, err, set_ctx ctx sc, evs))
               else
                 (case SC_Chunks_CheckMultiChunkContext ctx (tcpMsgProperties sc) err of
                    (ok, err) \<Rightarrow>
                      if \<not> ok then Some (Inl (False, err, set_ctx ctx sc, evs))
                      else do {
                        (ok, err, rid, expired, fl, sc) \<leftarrow> SC_Chunks_TreatTcpPayload env rid err (set_ctx ctx sc);
                        if \<not> ok then Some (Inl (False, err, sc, evs))
                        else do {
                          (ok, err, sc, evs) \<leftarrow> deliver_message env scIdx rid expired err sc evs;
                          Some (if ok then Inr (rid, err, sc, evs, k) else Inl (False, err, sc, evs)) } })))"

function recv_bytes ::
  "sc_env \<Rightarrow> u32 \<Rightarrow> u32 \<Rightarrow> SOPC_StatusCode \<Rightarrow> SOPC_SecureConnection \<Rightarrow> SOPC_LooperEvent list \<Rightarrow> byte list \<Rightarrow>
   (bool \<times> SOPC_StatusCode \<times> SOPC_SecureConnection \<times> SOPC_LooperEvent list) option" where
  "recv_bytes env scIdx rid err sc evs u =
     (if u = [] then Some (True, err, sc, evs)
      else case chunk_step env scIdx rid sc evs u of
        None \<Rightarrow> None
      | Some (Inl r) \<Rightarrow> Some r
      | Some (Inr (rid, err, sc, evs, k)) \<Rightarrow> if k = 0 then None else recv_bytes env scIdx rid err sc evs (drop k u))"
  by pat_completeness auto
termination
  by (relation "measure (\<lambda>(env, scIdx, rid, err, sc, evs, u). length u)") auto

declare recv_bytes.simps [simp del]

lemma chunk_buffer_partial:
  assumes "rx_inv sc" "chunk_buffer env sc = Some b"
  shows "partial_chunk (receiveBufferSize (tcpMsgProperties sc)) ((chunksCtx sc)\<lparr>currentChunkInputBuffer := Some b\<rparr>) b"
proof (cases "currentChunkInputBuffer (chunksCtx sc)")
  case None
  then have cr: "SOPC_Buffer_Create (sc_enc env) (receiveBufferSize (tcpMsgProperties sc)) = Some b"
    using assms(2) by (simp add: chunk_buffer_def)
  show ?thesis
    using assms(1) None Create_spec [OF cr] by (simp add: partial_chunk_def rx_inv_def chunk_inv_def ctx_fresh_def)
next
  case (Some b')
  then show ?thesis
    using assms by (auto simp: chunk_buffer_def partial_chunk_def rx_inv_def chunk_inv_def ctx_fresh_def)
qed

text \<open>A complete chunk within the limit on the number of chunks is ready for its treatment.\<close>

lemma rx_complete_decoded:
  assumes inv: "rx_inv sc" and b: "chunk_buffer env sc = Some b"
    and d: "decode_bytes ((chunksCtx sc)\<lparr>currentChunkInputBuffer := Some b\<rparr>) b u = (True, err, ctx, k)"
    and m: "SC_Chunks_CheckMultiChunkContext ctx (tcpMsgProperties sc) err = (True, err')"
  shows "rx_complete (set_ctx ctx sc)" "0 < k" "k \<le> length u" "pending ctx = pending (chunksCtx sc)"
proof -
  let ?R = "receiveBufferSize (tcpMsgProperties sc)" and ?ctx0 = "(chunksCtx sc)\<lparr>currentChunkInputBuffer := Some b\<rparr>"
  have lim: "tcp_limits (tcpMsgProperties sc)" "pending_ok (tcpMsgProperties sc) (chunksCtx sc)"
    "currentMessageInputBuffer (chunksCtx sc) = None" using inv by (simp_all add: rx_inv_def chunk_inv_def)
  have R: "8 \<le> unat ?R" using lim(1) by (simp add: tcp_limits_def)
  obtain b' where dn: "0 < k" "k \<le> length u" "same_message ?ctx0 ctx" "currentChunkInputBuffer ctx = Some b'" "complete_chunk ?R ctx b'"
    using decode_bytes_done [OF chunk_buffer_partial [OF inv b] R d] by blast
  then show "0 < k" "k \<le> length u" by simp_all
  show pe: "pending ctx = pending (chunksCtx sc)" using dn(3) by (simp add: same_message_def pending_def)
  then have po: "pending_ok (tcpMsgProperties sc) ctx" using lim(2) by (simp add: pending_ok_def)
  have "length (pending ctx) + 1 < unat (receiveMaxChunkCount (tcpMsgProperties sc))"
    if "currentMsgIsFinal ctx = SOPC_MSG_ISFINAL_INTERMEDIATE"
  proof -
    let ?n = "SOPC_ScInternalContext_GetNbIntermediateInputChunks ctx"
    have "\<not> ?n + 1 \<ge> receiveMaxChunkCount (tcpMsgProperties sc)"
      using m that lim(1) by (auto simp: SC_Chunks_CheckMultiChunkContext_def tcp_limits_def split: if_splits)
    moreover have "unat (?n + 1) = length (pending ctx) + 1"
      using nb_pending [OF po] po unat_lt_u32 [of "receiveMaxChunkCount (tcpMsgProperties sc)"]
      by (subst unat_add_u32) (simp_all add: pending_ok_def)
    ultimately show ?thesis by (simp add: u32_le_iff)
  qed
  then show "rx_complete (set_ctx ctx sc)"
    using lim(1,3) po dn(3,4,5) by (auto simp: rx_complete_def set_ctx_def same_message_def)
qed

lemma chunk_step_spec:
  assumes inv: "rx_inv sc" and lvl: "0 < sc_level env" and laws: "crypto_laws env" and modes: "modes_valid env" and u: "u \<noteq> []"
  obtains (stop) "chunk_step env scIdx rid sc evs u = None" "stopping env sc u"
  | (ends) ok err sc' evs' where "chunk_step env scIdx rid sc evs u = Some (Inl (ok, err, sc', evs'))"
      "tcpMsgProperties sc' = tcpMsgProperties sc" "ok \<longrightarrow> rx_inv sc'"
  | (next_turn) rid' err sc' evs' k where "chunk_step env scIdx rid sc evs u = Some (Inr (rid', err, sc', evs', k))"
      "0 < k" "k \<le> length u" "tcpMsgProperties sc' = tcpMsgProperties sc" "rx_inv sc'"
proof (cases "chunk_buffer env sc")
  case None
  then show thesis by (intro ends [of False OpcUa_BadOutOfMemory sc evs]) (simp_all add: chunk_step_def)
next
  case (Some b)
  note b = Some
  let ?R = "receiveBufferSize (tcpMsgProperties sc)" and ?ctx0 = "(chunksCtx sc)\<lparr>currentChunkInputBuffer := Some b\<rparr>"
  have lim: "tcp_limits (tcpMsgProperties sc)" using inv by (simp add: rx_inv_def)
  have R: "8 \<le> unat ?R" using lim by (simp add: tcp_limits_def)
  obtain c err ctx k where d: "decode_bytes ?ctx0 b u = (c, err, ctx, k)" by (metis prod_cases4)
  show thesis
  proof (cases c)
    case False
    have "rx_inv (set_ctx ctx sc)" if "err = SOPC_GoodGenericStatus"
    proof -
      obtain b' where "same_message ?ctx0 ctx" "currentChunkInputBuffer ctx = Some b'" "partial_chunk ?R ctx b'"
        using decode_bytes_more [OF chunk_buffer_partial [OF inv b] R, of u ctx k] d False \<open>err = _\<close> by auto
      then show ?thesis using inv by (simp add: rx_inv_def set_ctx_def chunk_inv_def same_message_def pending_ok_def pending_def)
    qed
    then show thesis using b d False by (intro ends [of "err = SOPC_GoodGenericStatus" err "set_ctx ctx sc" evs]) (simp_all add: chunk_step_def set_ctx_def)
  next
    case True
    note dT = d [unfolded eqTrueI [OF True]]
    obtain okm err1 where m: "SC_Chunks_CheckMultiChunkContext ctx (tcpMsgProperties sc) err = (okm, err1)" by (metis prod.collapse)
    show thesis
    proof (cases okm)
      case False
      then show thesis using b d True m by (intro ends [of False err1 "set_ctx ctx sc" evs]) (simp_all add: chunk_step_def set_ctx_def)
    next
      case okm: True
      note rc = rx_complete_decoded [OF inv b dT m [unfolded eqTrueI [OF okm]]]
      note step = chunk_step_def [of env scIdx rid sc evs u] b d True m okm
      from TreatTcpPayload_safe [OF rc(1) lvl laws modes, of rid err1] show thesis
      proof
        assume p: "SC_Chunks_TreatTcpPayload env rid err1 (set_ctx ctx sc) = None \<and>
          (empty_pending (set_ctx ctx sc) \<or> unchecked_message env (set_ctx ctx sc))"
        have "empty_pending (set_ctx ctx sc) \<longleftrightarrow> empty_pending sc" using rc(4) by (simp add: empty_pending_def set_ctx_def)
        moreover have "next_chunk env sc u (set_ctx ctx sc)" using b dT unfolding next_chunk_def by blast
        ultimately have "stopping env sc u" using p unfolding stopping_def by blast
        then show thesis using p by (intro stop) (simp_all add: step)
      next
        assume "stage (\<lambda>ok s'. tcpMsgProperties (conn s') = tcpMsgProperties (set_ctx ctx sc) \<and> (ok \<longrightarrow> rx_treated (conn s')))
          (SC_Chunks_TreatTcpPayload env rid err1 (set_ctx ctx sc))"
        then obtain ok2 err2 rid2 e2 fl2 sc2 where p: "SC_Chunks_TreatTcpPayload env rid err1 (set_ctx ctx sc) =
            Some (ok2, err2, rid2, e2, fl2, sc2)" "tcpMsgProperties sc2 = tcpMsgProperties sc" "ok2 \<longrightarrow> rx_treated sc2"
          by (auto simp: stage_def set_ctx_def)
        show thesis
        proof (cases ok2)
          case False
          then show thesis using p by (intro ends [of False err2 sc2 evs]) (simp_all add: step)
        next
          case ok2: True
          obtain ok3 err3 sc3 evs3 where dl: "deliver_message env scIdx rid2 e2 err2 sc2 evs = Some (ok3, err3, sc3, evs3)"
            "tcpMsgProperties sc3 = tcpMsgProperties sc2" "ok3 \<longrightarrow> rx_inv sc3"
            using deliver_safe p(3) ok2 by blast
          show thesis
          proof (cases ok3)
            case True
            then show thesis using p ok2 dl rc by (intro next_turn [of rid2 err3 sc3 evs3 k]) (simp_all add: step)
          next
            case False
            then show thesis using p ok2 dl by (intro ends [of False err3 sc3 evs3]) (simp_all add: step)
          qed
        qed
      qed
    qed
  qed
qed

abbreviation loop_result ::
  "bool \<times> SOPC_StatusCode \<times> SOPC_SecureConnection \<times> SOPC_LooperEvent list \<times> SOPC_Buffer \<Rightarrow>
   bool \<times> SOPC_StatusCode \<times> SOPC_SecureConnection \<times> SOPC_LooperEvent list" where
  "loop_result r \<equiv> case r of (ok, err, sc, evs, rb) \<Rightarrow> (ok, err, sc, evs)"

text \<open>The loop on a buffer is the loop on its unread bytes.\<close>

lemma receive_loop_step:
  assumes inv: "rx_inv sc" and lvl: "0 < sc_level env" and rb: "buf_wf rb" "unread rb \<noteq> []"
  shows "map_option loop_result (receive_loop env scIdx rid err sc evs rb) =
    (case chunk_step env scIdx rid sc evs (unread rb) of
       None \<Rightarrow> None
     | Some (Inl r) \<Rightarrow> Some r
     | Some (Inr (rid, err, sc, evs, k)) \<Rightarrow> map_option loop_result (receive_loop env scIdx rid err sc evs (buf_advance k rb)))"
proof (cases "chunk_buffer env sc")
  case None
  then show ?thesis
    using rb remaining_0 [OF rb(1)] unfolding receive_loop.simps [of env scIdx rid err sc evs rb] chunk_buffer_def [symmetric]
    by (simp add: chunk_step_def)
next
  case (Some b)
  note b = Some
  let ?ctx0 = "(chunksCtx sc)\<lparr>currentChunkInputBuffer := Some b\<rparr>"
  have R: "8 \<le> unat (receiveBufferSize (tcpMsgProperties sc))" using inv by (simp add: rx_inv_def tcp_limits_def)
  obtain c err1 ctx k where d: "decode_bytes ?ctx0 b (unread rb) = (c, err1, ctx, k)" by (metis prod_cases4)
  have dr: "SC_Chunks_DecodeReceivedBuffer env ?ctx0 (Some rb) = Some (c, err1, ctx, Some (buf_advance k rb))"
    by (rule DecodeReceivedBuffer_bytes [OF _ chunk_buffer_partial [OF inv b] R rb(1) lvl d]) simp
  show ?thesis
    using rb remaining_0 [OF rb(1)]
    unfolding receive_loop.simps [of env scIdx rid err sc evs rb] chunk_buffer_def [symmetric]
    by (auto simp: chunk_step_def b d dr split: prod.splits bind_splits)
qed

lemma receive_loop_bytes:
  assumes "rx_inv sc" "0 < sc_level env" "crypto_laws env" "modes_valid env" "buf_wf rb"
  shows "map_option loop_result (receive_loop env scIdx rid err sc evs rb) = recv_bytes env scIdx rid err sc evs (unread rb)"
  using assms(1,5)
proof (induction "length (unread rb)" arbitrary: rid err sc evs rb rule: less_induct)
  case less
  show ?case
  proof (cases "unread rb = []")
    case True
    then show ?thesis
      using remaining_0 [OF less.prems(2)] by (simp add: receive_loop.simps [of env scIdx rid err sc evs rb] recv_bytes.simps)
  next
    case False
    note step = receive_loop_step [OF less.prems(1) assms(2) less.prems(2) False]
    note rec = recv_bytes.simps [of env scIdx rid err sc evs "unread rb"]
    from less.prems(1) assms(2-4) False show ?thesis
    proof (cases rule: chunk_step_spec [where scIdx = scIdx and rid = rid and evs = evs])
      case (next_turn rid' err' sc' evs' k)
      have "unread (buf_advance k rb) = drop k (unread rb)" "buf_wf (buf_advance k rb)"
        using next_turn(3) less.prems(2) by (simp_all add: unread_advance wf_advance)
      moreover from this have "map_option loop_result (receive_loop env scIdx rid' err' sc' evs' (buf_advance k rb)) =
          recv_bytes env scIdx rid' err' sc' evs' (drop k (unread rb))"
        using less.hyps [of "buf_advance k rb" sc' rid' err' evs'] next_turn False by simp
      ultimately show ?thesis using step rec next_turn(1,2) False by simp
    qed (use step rec False in simp_all)
  qed
qed

section \<open>Bytes that arrive in several packets\<close>

lemma decode_bytes_error:
  assumes p: "partial_chunk R ctx b" and R: "8 \<le> unat R"
    and d: "decode_bytes ctx b u = (False, err, ctx', k)" and e: "err \<noteq> SOPC_GoodGenericStatus"
  shows "decode_bytes ctx b (u @ v) = (False, err, ctx', k)"
proof -
  have z: "currentMsgSize ctx = 0"
    using d e by (auto simp: decode_bytes_def decode_payload_def Let_def split: if_splits)
  define k1 where "k1 = min (8 - length (unread b)) (length u)"
  define b1 where "b1 = buf_append (take k1 u) b"
  let ?h = "header_result SOPC_GoodGenericStatus (unread b1) b1 (ctx\<lparr>currentChunkInputBuffer := Some b1\<rparr>)"
  have "length (unread b) < 8" using p z by (simp add: partial_chunk_def)
  then have k1: "length (take k1 u) = k1" "length (unread b) + k1 \<le> 8" by (auto simp: k1_def)
  note fa = fresh_append [OF p z R, of "take k1 u", folded b1_def, unfolded k1(1), OF k1(2)]
  have full: "\<not> length (unread b1) < 8" and h: "?h = (False, err, ctx')" "k = k1"
    using d e z unfolding decode_bytes_def Let_def k1_def [symmetric] b1_def [symmetric]
    by (auto simp: decode_payload_def Let_def split: if_splits prod.splits)
  have k1u: "k1 = 8 - length (unread b)" "k1 \<le> length u" using full fa(2) k1 by (auto simp: k1_def)
  have mm: "min (8 - length (unread b)) (length (u @ v)) = k1" and tk: "take k1 (u @ v) = take k1 u" using k1u by simp_all
  show ?thesis
    using z full h unfolding decode_bytes_def Let_def mm tk b1_def [symmetric] by simp
qed

text \<open>The bytes behind a complete chunk play no role for it, and those of the chunk are enough.\<close>

lemma decode_bytes_exact:
  assumes p: "partial_chunk R ctx b" and R: "8 \<le> unat R" and d: "decode_bytes ctx b u = (True, err, ctx', k)"
  shows "decode_bytes ctx b (take k u @ v) = (True, err, ctx', k)"
proof -
  have k: "0 < k" "k \<le> length u" using decode_bytes_done [OF p R d] by simp_all
  obtain c e x j where q: "decode_bytes ctx b (take k u) = (c, e, x, j)" by (metis prod_cases4)
  have "decode_bytes ctx b (take k u) = (True, err, ctx', k)"
  proof (cases c)
    case True
    then have qT: "decode_bytes ctx b (take k u) = (True, e, x, j)" using q by simp
    have "decode_bytes ctx b (take k u @ drop k u) = (True, e, x, j)" using decode_bytes_done [OF p R qT] by blast
    then show ?thesis using d q True by simp
  next
    case False
    show ?thesis
    proof (cases "e = SOPC_GoodGenericStatus")
      case good: True
      have qF: "decode_bytes ctx b (take k u) = (False, SOPC_GoodGenericStatus, x, j)" using q False good by simp
      obtain b' where m: "partial_chunk R x b'" "decode_bytes ctx b (take k u @ drop k u) = shift_used (length (take k u)) (decode_bytes x b' (drop k u))"
        using decode_bytes_more [OF p R qF] by blast
      obtain c2 e2 x2 j2 where q2: "decode_bytes x b' (drop k u) = (c2, e2, x2, j2)" by (metis prod_cases4)
      have "(True, err, ctx', k) = (c2, e2, x2, k + j2)" using m(2) q2 d k(2) by (simp add: shift_used_def)
      then have "decode_bytes x b' (drop k u) = (True, e2, x2, 0)" using q2 by simp
      then show ?thesis using decode_bytes_done [OF m(1) R] by blast
    next
      case bad: False
      have qF: "decode_bytes ctx b (take k u) = (False, e, x, j)" using q False by simp
      have "decode_bytes ctx b (take k u @ drop k u) = (False, e, x, j)" by (rule decode_bytes_error [OF p R qF bad])
      then show ?thesis using d by simp
    qed
  qed
  then show ?thesis using decode_bytes_done [OF p R] by blast
qed

lemma chunk_step_local:
  assumes inv: "rx_inv sc" and s: "chunk_step env scIdx rid sc evs u = Some (Inr (rid', err, sc', evs', k))"
  shows "chunk_step env scIdx rid sc evs (take k u @ v) = Some (Inr (rid', err, sc', evs', k))" "0 < k" "k \<le> length u"
proof -
  obtain b where b: "chunk_buffer env sc = Some b" using s by (auto simp: chunk_step_def split: option.splits)
  let ?ctx0 = "(chunksCtx sc)\<lparr>currentChunkInputBuffer := Some b\<rparr>"
  have R: "8 \<le> unat (receiveBufferSize (tcpMsgProperties sc))" using inv by (simp add: rx_inv_def tcp_limits_def)
  obtain c e ctx j where d: "decode_bytes ?ctx0 b u = (c, e, ctx, j)" by (metis prod_cases4)
  have cj: "c" "j = k" using s b d by (auto simp: chunk_step_def bind_eq_Some_conv split: prod.splits if_splits)
  have dT: "decode_bytes ?ctx0 b u = (True, e, ctx, k)" using d cj by simp
  note p = chunk_buffer_partial [OF inv b]
  have d2: "decode_bytes ?ctx0 b (take k u @ v) = (True, e, ctx, k)" by (rule decode_bytes_exact [OF p R dT])
  have "chunk_step env scIdx rid sc evs (take k u @ v) = chunk_step env scIdx rid sc evs u"
    unfolding chunk_step_def b option.case dT d2 prod.case ..
  then show "chunk_step env scIdx rid sc evs (take k u @ v) = Some (Inr (rid', err, sc', evs', k))" using s by simp
  show "0 < k" "k \<le> length u" using decode_bytes_done [OF p R dT] by simp_all
qed

definition shift_step ::
  "nat \<Rightarrow> ('a + ('b \<times> 'c \<times> 'd \<times> 'e \<times> nat)) option \<Rightarrow> ('a + ('b \<times> 'c \<times> 'd \<times> 'e \<times> nat)) option" where
  "shift_step n r = map_option (map_sum id (\<lambda>(rid, err, sc, evs, k). (rid, err, sc, evs, n + k))) r"

text \<open>A turn that waits for more bytes is continued by the next bytes.\<close>

lemma chunk_step_more:
  assumes inv: "rx_inv sc" and s: "chunk_step env scIdx rid sc evs u = Some (Inl (True, err, sc', evs'))"
  shows "evs' = evs" "chunk_step env scIdx rid sc evs (u @ v) = shift_step (length u) (chunk_step env scIdx rid sc' evs v)"
proof -
  obtain b where b: "chunk_buffer env sc = Some b" using s by (auto simp: chunk_step_def split: option.splits)
  let ?ctx0 = "(chunksCtx sc)\<lparr>currentChunkInputBuffer := Some b\<rparr>"
  have R: "8 \<le> unat (receiveBufferSize (tcpMsgProperties sc))" using inv by (simp add: rx_inv_def tcp_limits_def)
  obtain c e ctx j where d: "decode_bytes ?ctx0 b u = (c, e, ctx, j)" by (metis prod_cases4)
  have cj: "\<not> c" "e = SOPC_GoodGenericStatus" "sc' = set_ctx ctx sc" "evs' = evs"
    using s b d by (auto simp: chunk_step_def bind_eq_Some_conv split: prod.splits if_splits)
  then show "evs' = evs" by simp
  have dF: "decode_bytes ?ctx0 b u = (False, SOPC_GoodGenericStatus, ctx, j)" using d cj by simp
  note p = chunk_buffer_partial [OF inv b]
  obtain b' where m: "currentChunkInputBuffer ctx = Some b'" "decode_bytes ?ctx0 b (u @ v) = shift_used (length u) (decode_bytes ctx b' v)"
    using decode_bytes_more [OF p R dF] by blast
  have b': "chunk_buffer env sc' = Some b'" "(chunksCtx sc')\<lparr>currentChunkInputBuffer := Some b'\<rparr> = ctx" "tcpMsgProperties sc' = tcpMsgProperties sc"
    "set_ctx x sc' = set_ctx x sc" for x
    using cj(3) m(1) by (simp_all add: chunk_buffer_def set_ctx_def)
  obtain c2 e2 x2 j2 where q2: "decode_bytes ctx b' v = (c2, e2, x2, j2)" by (metis prod_cases4)
  show "chunk_step env scIdx rid sc evs (u @ v) = shift_step (length u) (chunk_step env scIdx rid sc' evs v)"
    unfolding chunk_step_def b b' option.case m(2) q2 shift_used_def prod.case
    by (auto simp: shift_step_def split: prod.splits bind_splits)
qed

end
