(* ===== verification/Chunks_Packets.thy ===== *)
theory Chunks_Packets
  imports Chunks_Loop
begin

text \<open>
  What the loop does with bytes that arrive in several packets, and that the request identifier left over
  from an earlier chunk of the same packet only reaches the events that do not use it.
\<close>

section \<open>Two packets\<close>

lemma recv_append:
  assumes "rx_inv sc" "0 < sc_level env" "crypto_laws env" "modes_valid env"
    and "recv_bytes env scIdx rid err sc evs u = Some (True, err1, sc1, evs1)"
  shows "\<exists>rid1. \<forall>v. recv_bytes env scIdx rid err sc evs (u @ v) = recv_bytes env scIdx rid1 err1 sc1 evs1 v"
  using assms(1,5)
proof (induction "length u" arbitrary: rid err sc evs u rule: less_induct)
  case less
  show ?case
  proof (cases "u = []")
    case True
    then show ?thesis using less.prems(2) by (auto simp: recv_bytes.simps [of env scIdx rid err sc evs "[]"])
  next
    case False
    note rec = recv_bytes.simps [of env scIdx rid err sc evs u]
    from less.prems(1) assms(2-4) False show ?thesis
    proof (cases rule: chunk_step_spec [where scIdx = scIdx and rid = rid and evs = evs])
      case stop
      then show ?thesis using less.prems(2) rec False by simp
    next
      case (ends ok err' sc' evs')
      then have e: "ok" "err' = err1" "sc' = sc1" "evs' = evs1" using less.prems(2) rec False by simp_all
      have s: "chunk_step env scIdx rid sc evs u = Some (Inl (True, err1, sc1, evs1))" using ends(1) e by simp
      note m = chunk_step_more [OF less.prems(1) s]
      have "recv_bytes env scIdx rid err sc evs (u @ v) = recv_bytes env scIdx rid err1 sc1 evs1 v" for v
      proof (cases "v = []")
        case True
        then show ?thesis using less.prems(2) by (simp add: recv_bytes.simps [of env scIdx rid err1 sc1 evs1 "[]"])
      next
        case v: False
        show ?thesis
        proof (cases "chunk_step env scIdx rid sc1 evs v")
          case None
          then show ?thesis
            using v False m by (simp add: shift_step_def recv_bytes.simps [of env scIdx rid err sc evs] recv_bytes.simps [of env scIdx rid err1 sc1 evs v])
        next
          case (Some r)
          have kk: "0 < k" if "r = Inr (a, b, c, d, k)" for a b c d k
            using chunk_step_local(2) [of sc1 env scIdx rid evs v] ends(3) e Some that by blast
          show ?thesis
            using v False m Some kk
            by (auto simp: shift_step_def recv_bytes.simps [of env scIdx rid err sc evs] recv_bytes.simps [of env scIdx rid err1 sc1 evs v]
                split: sum.splits)
        qed
      qed
      then show ?thesis by blast
    next
      case (next_turn rid' err' sc' evs' k)
      have r: "recv_bytes env scIdx rid err sc evs u = recv_bytes env scIdx rid' err' sc' evs' (drop k u)"
        using rec next_turn(1,2) False by simp
      then obtain rid1 where i: "\<And>v. recv_bytes env scIdx rid' err' sc' evs' (drop k u @ v) = recv_bytes env scIdx rid1 err1 sc1 evs1 v"
        using less.hyps [of "drop k u" sc' rid' err' evs'] next_turn(2,5) less.prems(2) False by auto
      have "recv_bytes env scIdx rid err sc evs (u @ v) = recv_bytes env scIdx rid1 err1 sc1 evs1 v" for v
      proof -
        have "chunk_step env scIdx rid sc evs (take k u @ (drop k u @ v)) = Some (Inr (rid', err', sc', evs', k))"
          by (rule chunk_step_local(1) [OF less.prems(1) next_turn(1)])
        then have "chunk_step env scIdx rid sc evs (u @ v) = Some (Inr (rid', err', sc', evs', k))"
          by (simp flip: append_assoc)
        then show ?thesis
          using i [of v] next_turn(2,3) False by (simp add: recv_bytes.simps [of env scIdx rid err sc evs "u @ v"])
      qed
      then show ?thesis by blast
    qed
  qed
qed

text \<open>
  The loop returns. It stops on an assertion only behind bytes that it has received without an error, and
  either these left chunks of a message without any byte or the next chunk is an unchecked one.
\<close>

lemma recv_bytes_total:
  assumes "rx_inv sc" "0 < sc_level env" "crypto_laws env" "modes_valid env"
  shows "(\<exists>ok err' sc' evs'. recv_bytes env scIdx rid err sc evs u = Some (ok, err', sc', evs') \<and>
      tcpMsgProperties sc' = tcpMsgProperties sc \<and> (ok \<longrightarrow> rx_inv sc')) \<or>
    recv_bytes env scIdx rid err sc evs u = None \<and>
      (\<exists>v w err' sc' evs'. u = v @ w \<and> recv_bytes env scIdx rid err sc evs v = Some (True, err', sc', evs') \<and> stopping env sc' w)"
  using assms(1)
proof (induction "length u" arbitrary: rid err sc evs u rule: less_induct)
  case less
  show ?case
  proof (cases "u = []")
    case True
    then show ?thesis using less.prems by (auto simp: recv_bytes.simps [of env scIdx rid err sc evs "[]"])
  next
    case False
    note rec = recv_bytes.simps [of env scIdx rid err sc evs]
    from less.prems(1) assms(2-4) False show ?thesis
    proof (cases rule: chunk_step_spec [where scIdx = scIdx and rid = rid and evs = evs])
      case stop
      have "recv_bytes env scIdx rid err sc evs [] = Some (True, err, sc, evs)" by (simp add: rec)
      moreover have "recv_bytes env scIdx rid err sc evs u = None" using stop(1) False by (simp add: rec [of u])
      ultimately show ?thesis using stop(2) append_Nil [of u] by metis
    next
      case (ends ok err' sc' evs')
      then show ?thesis using False by (auto simp: rec [of u])
    next
      case (next_turn rid' err' sc' evs' k)
      have r: "recv_bytes env scIdx rid err sc evs (take k u @ v) = recv_bytes env scIdx rid' err' sc' evs' v" for v
        using chunk_step_local(1) [OF less.prems(1) next_turn(1), of v] next_turn(2,3) False by (simp add: rec)
      have eq: "recv_bytes env scIdx rid err sc evs u = recv_bytes env scIdx rid' err' sc' evs' (drop k u)"
        using r [of "drop k u"] by simp
      have "length (drop k u) < length u" using next_turn(2) False by simp
      from less.hyps [OF this next_turn(5), of rid' err' evs'] show ?thesis
        unfolding eq
      proof (elim disjE conjE exE)
        fix v w err'' sc'' evs''
        assume "recv_bytes env scIdx rid' err' sc' evs' (drop k u) = None" "drop k u = v @ w"
          "recv_bytes env scIdx rid' err' sc' evs' v = Some (True, err'', sc'', evs'')" "stopping env sc'' w"
        moreover from this have "u = (take k u @ v) @ w" by (metis append_assoc append_take_drop_id)
        ultimately show "(\<exists>ok err'' sc'' evs''. recv_bytes env scIdx rid' err' sc' evs' (drop k u) = Some (ok, err'', sc'', evs'') \<and>
            tcpMsgProperties sc'' = tcpMsgProperties sc \<and> (ok \<longrightarrow> rx_inv sc'')) \<or>
          recv_bytes env scIdx rid' err' sc' evs' (drop k u) = None \<and>
            (\<exists>v w err'' sc'' evs''. u = v @ w \<and> recv_bytes env scIdx rid err sc evs v = Some (True, err'', sc'', evs'') \<and> stopping env sc'' w)"
          using r by metis
      qed (use next_turn(4) in auto)
    qed
  qed
qed

section \<open>The request identifier of an earlier chunk\<close>

lemma UInt32_Read_cases:
  obtains (stops) "\<And>v. SOPC_UInt32_Read env (Some v) buf l = None"
  | (fails) st b where "\<And>v. SOPC_UInt32_Read env (Some v) buf l = Some (st, Some v, b)" "st \<noteq> SOPC_STATUS_OK"
  | (reads) w b where "\<And>v. SOPC_UInt32_Read env (Some v) buf l = Some (SOPC_STATUS_OK, Some w, b)"
proof -
  have vv: "of_nat (le_nat (le_bytes 4 (unat v))) = v" for v :: u32 using le_word_roundtrip [of 4 v] by simp
  note defs = SOPC_UInt32_Read_def enc_guard_def read_word_def read_status_def SOPC_Buffer_Read_def vv
  show thesis
  proof (cases "buf = None \<or> l \<ge> max_level env")
    case True
    then show thesis by (cases buf) (auto simp: defs intro!: fails)
  next
    case False
    then obtain b where b: "buf = Some b" "\<not> l \<ge> max_level env" by auto
    show thesis
    proof (cases "buf_data b")
      case None
      then show thesis using b by (intro fails [of SOPC_STATUS_ENCODING_ERROR "Some b"]) (simp_all add: defs)
    next
      case (Some d)
      show thesis
      proof (cases "position b + 4 \<le> buf_length b")
        case False
        then show thesis using b Some by (intro fails [of SOPC_STATUS_ENCODING_ERROR "Some b"]) (simp_all add: defs)
      next
        case True
        show thesis
        proof (cases "mem_read d (unat (position b)) 4")
          case None
          then show thesis using b Some True by (intro stops) (simp add: defs)
        next
          case (Some s)
          have "mem_write (le_bytes 4 n) 0 s = Some s" for n using length_mem_read [OF Some] by (simp add: mem_write_def)
          then show thesis
            using b \<open>buf_data b = Some d\<close> True Some
            by (intro reads [of "of_nat (le_nat s)" "Some (b\<lparr>position := position b + 4\<rparr>)"]) (simp add: defs)
        qed
      qed
    qed
  qed
qed

text \<open>Only the identifier of a failed stage may differ.\<close>

definition erase_rid ::
  "(bool \<times> SOPC_StatusCode \<times> u32 \<times> 's) option \<Rightarrow> (bool \<times> SOPC_StatusCode \<times> u32 \<times> 's) option" where
  "erase_rid r = map_option (\<lambda>(ok, err, rid, s). (ok, err, if ok then rid else 0, s)) r"

lemma erase_then:
  assumes "erase_rid r = erase_rid r'"
  shows "erase_rid (result_then r f) = erase_rid (result_then r' f)"
proof (cases r)
  case None
  then have "r' = None" using assms by (simp add: erase_rid_def)
  then show ?thesis using None by simp
next
  case (Some x)
  obtain ok err rid s where x: "x = (ok, err, rid, s)" by (metis prod_cases4)
  then obtain rid' where r': "r' = Some (ok, err, rid', s)" "ok \<longrightarrow> rid' = rid"
    using assms Some by (cases r') (auto simp: erase_rid_def split: if_splits)
  show ?thesis using Some x r' by (cases ok) (simp_all add: erase_rid_def)
qed

lemma erase_simps [simp]: "erase_rid None = None" "erase_rid (Some (False, err, rid, s)) = Some (False, err, 0, s)"
  "erase_rid (Some (True, err, rid, s)) = Some (True, err, rid, s)"
  by (simp_all add: erase_rid_def)

lemma RequestId_rid:
  "map_option (\<lambda>(ok, r, e, err, sc). (ok, if ok then r else 0, e, err, sc)) (SC_Chunks_CheckSequenceHeaderRequestId env f t rid err sc) =
   map_option (\<lambda>(ok, r, e, err, sc). (ok, if ok then r else 0, e, err, sc)) (SC_Chunks_CheckSequenceHeaderRequestId env f t rid' err sc)"
  unfolding SC_Chunks_CheckSequenceHeaderRequestId_def
  by (cases rule: UInt32_Read_cases [of "sc_enc env" "currentChunkInputBuffer (chunksCtx sc)" 0]) simp_all

lemma sequence_header_rid:
  "erase_rid (check_sequence_header env isOPN rid err s) = erase_rid (check_sequence_header env isOPN rid' err s)"
proof -
  obtain d c i sc where s: "s = ((d, c, i), sc)" by (metis prod.collapse)
  show ?thesis
  proof (cases "SC_Chunks_CheckSequenceHeaderSN env isOPN err sc")
    case None
    then show ?thesis by (simp add: check_sequence_header_def s)
  next
    case (Some r)
    obtain ok err1 sc1 where r: "r = (ok, err1, sc1)" by (metis prod_cases3)
    show ?thesis
      using RequestId_rid [of env "currentMsgIsFinal (chunksCtx sc1)" "currentMsgType (chunksCtx sc1)" rid err1 sc1 rid']
      by (auto simp: check_sequence_header_def s Some r erase_rid_def split: bind_splits)
  qed
qed

lemma secure_payload_rid: "erase_rid (secure_payload env rid err sc) = erase_rid (secure_payload env rid' err sc)"
  unfolding secure_payload_def Let_def
  by (auto split: bind_splits intro!: erase_then sequence_header_rid)

text \<open>
  The events of the four messages without a request identifier carry the identifier of an earlier chunk of
  the same packet, which nobody reads: \<open>event_view\<close> hides it.
\<close>

definition event_view :: "SOPC_LooperEvent \<Rightarrow> SOPC_LooperEvent" where
  "event_view e =
     (if le_event e \<in> {INT_SC_RCV_HEL, INT_SC_RCV_ACK, INT_SC_RCV_ERR, INT_SC_RCV_RHE} then e\<lparr>le_auxParam := 0\<rparr> else e)"

abbreviation same_events :: "SOPC_LooperEvent list \<Rightarrow> SOPC_LooperEvent list \<Rightarrow> bool" where
  "same_events es es' \<equiv> map event_view es = map event_view es'"

definition view4 ::
  "bool \<times> SOPC_StatusCode \<times> SOPC_SecureConnection \<times> SOPC_LooperEvent list \<Rightarrow>
   bool \<times> SOPC_StatusCode \<times> SOPC_SecureConnection \<times> SOPC_LooperEvent list" where
  "view4 r = (case r of (ok, err, sc, evs) \<Rightarrow> (ok, err, sc, map event_view evs))"

lemma deliver_view:
  assumes evs: "same_events evs evs'" and rid: "rid = rid' \<or> \<not> is_secure_msg (currentMsgType (chunksCtx sc))"
  shows "map_option view4 (deliver_message env scIdx rid e err sc evs) = map_option view4 (deliver_message env scIdx rid' e err sc evs')"
proof -
  have "event_view \<lparr>le_event = ev, le_eltId = scIdx, le_params = m, le_auxParam = rid\<rparr> =
      event_view \<lparr>le_event = ev, le_eltId = scIdx, le_params = m, le_auxParam = rid'\<rparr>"
    if "SC_Chunks_MsgTypeToRcvEvent (currentMsgType (chunksCtx sc)) f = Some ev" for ev f m
    using rid that
    by (cases "currentMsgType (chunksCtx sc)") (auto simp: event_view_def SC_Chunks_MsgTypeToRcvEvent_def is_secure_msg_def)
  then show ?thesis
    using evs by (auto simp: deliver_message_def view4_def Let_def split: option.splits bind_splits)
qed

text \<open>The treatment of a message without request identifier passes the old one on.\<close>

lemma payload_not_secure:
  assumes "\<not> is_secure_msg (currentMsgType (chunksCtx sc))"
  shows "\<exists>ok err' sc'. (\<forall>rid. SC_Chunks_TreatTcpPayload env rid err sc = Some (ok, err', rid, False, (False, False, False), sc')) \<and>
      currentMsgType (chunksCtx sc') = currentMsgType (chunksCtx sc) \<or>
    (\<forall>rid. SC_Chunks_TreatTcpPayload env rid err sc = None)"
proof (cases "payload_expected sc")
  case None
  then show ?thesis by (simp add: SC_Chunks_TreatTcpPayload_def)
next
  case (Some ok)
  then show ?thesis
    using assms
    by (cases ok) (auto simp: SC_Chunks_TreatTcpPayload_def complete_payload_def is_secure_msg_def set_ctx_def)
qed

definition step_view ::
  "((bool \<times> SOPC_StatusCode \<times> SOPC_SecureConnection \<times> SOPC_LooperEvent list) +
    (u32 \<times> SOPC_StatusCode \<times> SOPC_SecureConnection \<times> SOPC_LooperEvent list \<times> nat)) option \<Rightarrow>
   ((bool \<times> SOPC_StatusCode \<times> SOPC_SecureConnection \<times> SOPC_LooperEvent list) +
    (SOPC_StatusCode \<times> SOPC_SecureConnection \<times> SOPC_LooperEvent list \<times> nat)) option" where
  "step_view r = map_option (map_sum view4 (\<lambda>(rid, err, sc, evs, k). (err, sc, map event_view evs, k))) r"

lemma treat_view:
  assumes evs: "same_events evs evs'"
  shows "step_view (do {
      (ok, err, rid, expired, fl, sc) \<leftarrow> SC_Chunks_TreatTcpPayload env rid err sc;
      if \<not> ok then Some (Inl (False, err, sc, evs))
      else do {
        (ok, err, sc, evs) \<leftarrow> deliver_message env scIdx rid expired err sc evs;
        Some (if ok then Inr (rid, err, sc, evs, k) else Inl (False, err, sc, evs)) } }) =
    step_view (do {
      (ok, err, rid, expired, fl, sc) \<leftarrow> SC_Chunks_TreatTcpPayload env rid' err sc;
      if \<not> ok then Some (Inl (False, err, sc, evs'))
      else do {
        (ok, err, sc, evs) \<leftarrow> deliver_message env scIdx rid expired err sc evs';
        Some (if ok then Inr (rid, err, sc, evs, k) else Inl (False, err, sc, evs)) } })"
proof -
  have fin: "step_view (do { (ok, err, sc, evs) \<leftarrow> deliver_message env scIdx r e er s evs;
        Some (if ok then Inr (r, err, sc, evs, k) else Inl (False, err, sc, evs)) }) =
      step_view (do { (ok, err, sc, evs) \<leftarrow> deliver_message env scIdx r' e er s evs';
        Some (if ok then Inr (r', err, sc, evs, k) else Inl (False, err, sc, evs)) })"
    if "r = r' \<or> \<not> is_secure_msg (currentMsgType (chunksCtx s))" for r r' e er s
    using deliver_view [OF evs that, of env scIdx e er]
    by (cases "deliver_message env scIdx r e er s evs"; cases "deliver_message env scIdx r' e er s evs'")
      (auto simp: step_view_def view4_def split: prod.splits)
  show ?thesis
  proof (cases "is_secure_msg (currentMsgType (chunksCtx sc))")
    case False
    then consider (None) "\<forall>rid. SC_Chunks_TreatTcpPayload env rid err sc = None"
      | (Some) ok err' sc' where "\<forall>rid. SC_Chunks_TreatTcpPayload env rid err sc = Some (ok, err', rid, False, (False, False, False), sc')"
          "currentMsgType (chunksCtx sc') = currentMsgType (chunksCtx sc)"
      using payload_not_secure [OF False] by blast
    then show ?thesis
    proof cases
      case None
      then show ?thesis by simp
    next
      case Some
      then show ?thesis using fin [of rid rid' sc' False err'] False evs by (cases ok) (simp_all add: step_view_def view4_def)
    qed
  next
    case True
    have "erase_rid (SC_Chunks_TreatTcpPayload env rid err sc) = erase_rid (SC_Chunks_TreatTcpPayload env rid' err sc)"
      using True erase_then [OF secure_payload_rid [of env rid err sc rid'], of "complete_payload env"]
      by (cases "payload_expected sc") (auto simp: SC_Chunks_TreatTcpPayload_def)
    then show ?thesis
      using fin evs
      by (cases "SC_Chunks_TreatTcpPayload env rid err sc"; cases "SC_Chunks_TreatTcpPayload env rid' err sc")
        (auto simp: erase_rid_def step_view_def view4_def split: if_splits)
  qed
qed

lemma step_view_Inl [simp]: "step_view (Some (Inl (ok, err, sc, evs))) = Some (Inl (ok, err, sc, map event_view evs))"
  by (simp add: step_view_def view4_def)

lemma chunk_step_view:
  assumes "same_events evs evs'"
  shows "step_view (chunk_step env scIdx rid sc evs u) = step_view (chunk_step env scIdx rid' sc evs' u)"
  unfolding chunk_step_def using assms
  by (cases "chunk_buffer env sc") (auto split: prod.splits intro!: treat_view)

lemma recv_view:
  assumes "same_events evs evs'"
  shows "map_option view4 (recv_bytes env scIdx rid err sc evs u) = map_option view4 (recv_bytes env scIdx rid' err sc evs' u)"
  using assms
proof (induction "length u" arbitrary: rid rid' err sc evs evs' u rule: less_induct)
  case less
  note rec = recv_bytes.simps [of env scIdx rid err sc evs u] recv_bytes.simps [of env scIdx rid' err sc evs' u]
  note step = chunk_step_view [OF less.prems, of env scIdx rid sc u rid']
  show ?case
  proof (cases "u = []")
    case True
    then show ?thesis using less.prems rec by (simp add: view4_def)
  next
    case False
    have smaller: "length (drop k u) < length u" if "k \<noteq> 0" for k using that False by simp
    show ?thesis
      using step False
      by (cases "chunk_step env scIdx rid sc evs u"; cases "chunk_step env scIdx rid' sc evs' u")
        (auto simp: rec step_view_def view4_def intro!: less.hyps [OF smaller] split: sum.splits)
  qed
qed

section \<open>The events of earlier messages\<close>

definition add_events ::
  "SOPC_LooperEvent list \<Rightarrow> bool \<times> SOPC_StatusCode \<times> SOPC_SecureConnection \<times> SOPC_LooperEvent list \<Rightarrow>
   bool \<times> SOPC_StatusCode \<times> SOPC_SecureConnection \<times> SOPC_LooperEvent list" where
  "add_events p r = (case r of (ok, err, sc, evs) \<Rightarrow> (ok, err, sc, p @ evs))"

lemma deliver_prefix:
  "deliver_message env scIdx rid e err sc (p @ evs) = map_option (add_events p) (deliver_message env scIdx rid e err sc evs)"
  by (auto simp: deliver_message_def add_events_def Let_def split: option.splits bind_splits)

lemma chunk_step_prefix:
  "chunk_step env scIdx rid sc (p @ evs) u =
     map_option (map_sum (add_events p) (\<lambda>(rid, err, sc, evs, k). (rid, err, sc, p @ evs, k))) (chunk_step env scIdx rid sc evs u)"
  by (auto simp: chunk_step_def deliver_prefix add_events_def split: option.splits prod.splits bind_splits)

lemma recv_prefix:
  "recv_bytes env scIdx rid err sc (p @ evs) u = map_option (add_events p) (recv_bytes env scIdx rid err sc evs u)"
proof (induction env scIdx rid err sc evs u rule: recv_bytes.induct)
  case (1 env scIdx rid err sc evs u)
  then show ?case
    by (cases "chunk_step env scIdx rid sc evs u")
      (auto simp: recv_bytes.simps [of env scIdx rid err sc _ u] chunk_step_prefix add_events_def split: sum.splits)
qed

end
