(* ===== verification/Chunks_Send.thy ===== *)
theory Chunks_Send
  imports Chunks_Receive Encoder_Types
begin

unbundle bit_operations_syntax

text \<open>
  The sending half of the chunk manager, \<open>src/ClientServer/secure_channels/sopc_chunks_mgr.c\<close>: the headers
  of a chunk, the maximal body size, padding, signature and encryption, and the cut of a message into
  chunks. The buffers handed to the socket layer are collected in a list; a failed \<open>SOPC_ASSERT\<close>, an access
  outside of a block and a division by zero are \<open>None\<close>.
\<close>

section \<open>Headers\<close>

text \<open>\<open>if (SOPC_STATUS_OK != status) { result = false; *errorStatus = bad; }\<close> after a write.\<close>

definition written ::
  "(SOPC_ReturnStatus \<times> bufp) option \<Rightarrow> SOPC_StatusCode \<Rightarrow> SOPC_StatusCode \<Rightarrow> (bool \<times> SOPC_StatusCode \<times> bufp) option" where
  "written r bad err = do {
     (st, b) \<leftarrow> r;
     Some (st = SOPC_STATUS_OK, if st = SOPC_STATUS_OK then err else bad, b) }"

fun msg_type_bytes :: "SOPC_Msg_Type \<Rightarrow> byte list option" where
  "msg_type_bytes SOPC_MSG_TYPE_HEL = Some SOPC_HEL"
| "msg_type_bytes SOPC_MSG_TYPE_ACK = Some SOPC_ACK"
| "msg_type_bytes SOPC_MSG_TYPE_ERR = Some SOPC_ERR"
| "msg_type_bytes SOPC_MSG_TYPE_RHE = Some SOPC_RHE"
| "msg_type_bytes SOPC_MSG_TYPE_SC_OPN = Some SOPC_OPN"
| "msg_type_bytes SOPC_MSG_TYPE_SC_CLO = Some SOPC_CLO"
| "msg_type_bytes SOPC_MSG_TYPE_SC_MSG = Some SOPC_MSG"
| "msg_type_bytes SOPC_MSG_TYPE_INVALID = None"

definition write_message_size :: "sc_env \<Rightarrow> SOPC_StatusCode \<Rightarrow> bufp \<Rightarrow> (bool \<times> SOPC_StatusCode \<times> bufp) option" where
  "write_message_size env err buffer = do {
     b \<leftarrow> buffer;
     let messageSize = (if buf_length b \<ge> SOPC_TCP_UA_HEADER_LENGTH then buf_length b else SOPC_TCP_UA_HEADER_LENGTH);
     written (SOPC_UInt32_Write (sc_enc env) (Some messageSize) buffer 0) OpcUa_BadEncodingError err }"

definition SC_Chunks_EncodeTcpMsgHeader ::
  "sc_env \<Rightarrow> SOPC_Msg_Type \<Rightarrow> byte \<Rightarrow> SOPC_StatusCode \<Rightarrow> bufp \<Rightarrow> (bool \<times> SOPC_StatusCode \<times> bufp) option" where
  "SC_Chunks_EncodeTcpMsgHeader env sendMsgType isFinalChar err buffer = do {
     b \<leftarrow> buffer;
     msgTypeBytes \<leftarrow> msg_type_bytes sendMsgType;
     if sendMsgType = SOPC_MSG_TYPE_SC_MSG \<or> isFinalChar = SOPC_UA_FINAL_CHUNK then
       result_then
         (result_then (written (SOPC_Buffer_Write (sc_enc env) (Some b) (Some msgTypeBytes) 3) OpcUa_BadEncodingError err)
           (\<lambda>err b. written (SOPC_Buffer_Write (sc_enc env) b (Some [isFinalChar]) 1) OpcUa_BadEncodingError err))
         (write_message_size env)
     else Some (False, OpcUa_BadEncodingError, Some b) }"

definition SC_Chunks_EncodeScMessageHeaderAdditionalField ::
  "sc_env \<Rightarrow> SOPC_SecureConnection \<Rightarrow> SOPC_StatusCode \<Rightarrow> bufp \<Rightarrow> (bool \<times> SOPC_StatusCode \<times> bufp) option" where
  "SC_Chunks_EncodeScMessageHeaderAdditionalField env sc err buffer =
     written (SOPC_UInt32_Write (sc_enc env) (Some (secureChannelId (currentSecurityToken sc))) buffer 0)
       OpcUa_BadEncodingError err"

text \<open>The sender certificate of the asymmetric security header: null when the message is not signed.\<close>

definition write_sender_certificate ::
  "sc_env \<Rightarrow> bool \<Rightarrow> SOPC_StatusCode \<Rightarrow> bufp \<Rightarrow> (bool \<times> SOPC_StatusCode \<times> i32 \<times> bufp) option" where
  "write_sender_certificate env toSign err buffer =
     (case (case ownCertificateDER env of
              None \<Rightarrow> Some str_init
            | Some None \<Rightarrow> None
            | Some (Some der) \<Rightarrow>
                if length der \<le> 2147483647
                then Some (str_init\<lparr>Str_Length := of_nat (length der), Str_Data := Some der\<rparr>) else None) of
        None \<Rightarrow> Some (False, OpcUa_BadTcpInternalError, 0, buffer)
      | Some bsSenderCert \<Rightarrow>
          (let certSize = (if ownCertificateDER env = None then 0 else Str_Length bsSenderCert)
           in if toSign then
                (if 0 < sint (Str_Length bsSenderCert) then do {
                   (ok, err, b) \<leftarrow> written (SOPC_ByteString_Write (sc_enc env) (Some bsSenderCert) buffer 0) OpcUa_BadTcpInternalError err;
                   Some (ok, err, certSize, b) }
                 else Some (False, OpcUa_BadTcpInternalError, certSize, buffer))
              else do {
                (ok, err, b) \<leftarrow> written (SOPC_Int32_Write (sc_enc env) (Some (-1)) buffer 0) OpcUa_BadTcpInternalError err;
                Some (ok, err, certSize, b) }))"

definition write_receiver_thumbprint ::
  "sc_env \<Rightarrow> bool \<Rightarrow> SOPC_StatusCode \<Rightarrow> bufp \<Rightarrow> (bool \<times> SOPC_StatusCode \<times> bufp) option" where
  "write_receiver_thumbprint env toEncrypt err buffer =
     (if \<not> toEncrypt then written (SOPC_Int32_Write (sc_enc env) (Some (-1)) buffer 0) OpcUa_BadTcpInternalError err
      else case peerThumbprint env of
        None \<Rightarrow> None
      | Some None \<Rightarrow> Some (False, OpcUa_BadTcpInternalError, buffer)
      | Some (Some tp) \<Rightarrow>
          if length tp \<le> 2147483647 then
            written (SOPC_ByteString_Write (sc_enc env)
                      (Some (str_init\<lparr>Str_Length := of_nat (length tp), Str_Data := Some tp\<rparr>)) buffer 0)
              OpcUa_BadTcpInternalError err
          else Some (False, OpcUa_BadTcpInternalError, buffer))"

definition SC_Chunks_EncodeAsymSecurityHeader ::
  "sc_env \<Rightarrow> OpcUa_MessageSecurityMode \<Rightarrow> SOPC_StatusCode \<Rightarrow> bufp \<Rightarrow>
   (bool \<times> SOPC_StatusCode \<times> i32 \<times> i32 \<times> bufp) option" where
  "SC_Chunks_EncodeAsymSecurityHeader env mode err buffer = do {
     _ \<leftarrow> reqSecuPolicyUri env;
     toEncrypt \<leftarrow> SC_Chunks_IsMsgEncrypted mode True;
     let toSign = SC_Chunks_IsMsgSigned mode;
     (st, strSecuPolicy) \<leftarrow> SOPC_String_CopyFromCString (sc_enc env) (Some str_init) (reqSecuPolicyUri env);
     strSecuPolicy \<leftarrow> strSecuPolicy;
     if st \<noteq> SOPC_STATUS_OK \<or> sint (Str_Length strSecuPolicy) \<le> 0
     then Some (False, OpcUa_BadTcpInternalError, 0, 0, buffer)
     else do {
       (ok, err, buffer) \<leftarrow> written (SOPC_String_Write (sc_enc env) (Some strSecuPolicy) buffer 0) OpcUa_BadTcpInternalError err;
       if \<not> ok then Some (False, err, Str_Length strSecuPolicy, 0, buffer)
       else do {
         (ok, err, certSize, buffer) \<leftarrow> write_sender_certificate env toSign err buffer;
         if \<not> ok then Some (False, err, Str_Length strSecuPolicy, certSize, buffer)
         else do {
           (ok, err, buffer) \<leftarrow> write_receiver_thumbprint env toEncrypt err buffer;
           Some (ok, err, Str_Length strSecuPolicy, certSize, buffer) } } } }"

section \<open>Sizes\<close>

definition SC_Chunks_Is_ExtraPaddingSizePresent :: "u32 \<Rightarrow> bool" where
  "SC_Chunks_Is_ExtraPaddingSizePresent plainTextBlockSize \<longleftrightarrow> plainTextBlockSize > 256"

text \<open>The maximal body size of a chunk and whether there is an extra padding size.\<close>

definition SC_Chunks_ComputeMaxBodySize ::
  "u32 \<Rightarrow> u32 \<Rightarrow> bool \<Rightarrow> u32 \<Rightarrow> u32 \<Rightarrow> bool \<Rightarrow> u32 \<Rightarrow> (u32 \<times> bool) option" where
  "SC_Chunks_ComputeMaxBodySize nonEncryptedHeadersSize chunkSize toEncrypt cipherBlockSize plainBlockSize toSign signatureSize =
     (let cipherBlockSize = (if toEncrypt then cipherBlockSize else 1);
          plainBlockSize = (if toEncrypt then plainBlockSize else 1);
          hasExtra = (toEncrypt \<and> SC_Chunks_Is_ExtraPaddingSizePresent plainBlockSize);
          paddingSizeFields = (if toEncrypt then (if hasExtra then 2 else 1) else 0);
          signatureSize = (if toSign then signatureSize else 0);
          result = plainBlockSize * ((chunkSize - nonEncryptedHeadersSize) div cipherBlockSize) -
                   SOPC_UA_SECURE_MESSAGE_SEQUENCE_LENGTH - signatureSize - paddingSizeFields
      in if cipherBlockSize \<ge> plainBlockSize \<and> cipherBlockSize \<noteq> 0 \<and>
            chunkSize \<ge> nonEncryptedHeadersSize + SOPC_UA_SECURE_MESSAGE_SEQUENCE_LENGTH + result + signatureSize + paddingSizeFields
         then Some (result, hasExtra) else None)"

text \<open>The result, whether to encrypt, whether to sign, the size of the signature and of the two blocks.\<close>

definition SC_Chunks_GetSendingCryptoSizes ::
  "sc_env \<Rightarrow> OpcUa_MessageSecurityMode \<Rightarrow> bool \<Rightarrow> bool \<times> bool \<times> bool \<times> u32 \<times> u32 \<times> u32" where
  "SC_Chunks_GetSendingCryptoSizes env mode isSymmetricAlgo =
     (if mode = OpcUa_MessageSecurityMode_None then (True, False, False, 0, 0, 0)
      else if \<not> isSymmetricAlgo then
        (if \<not> ownPublicKey env \<or> \<not> peerPublicKey env then (False, True, True, 0, 0, 0)
         else case asymBlocks env of
           None \<Rightarrow> (False, True, True, 0, 0, 0)
         | Some (c, p) \<Rightarrow>
             (case asymLenOwnSignature env of
                None \<Rightarrow> (False, True, True, 0, c, p)
              | Some n \<Rightarrow> (True, True, True, n, c, p)))
      else if mode = OpcUa_MessageSecurityMode_SignAndEncrypt then
        (case symmBlocks env of
           None \<Rightarrow> (False, True, False, 0, 0, 0)
         | Some (c, p) \<Rightarrow>
             (case symmLenSignature env of
                None \<Rightarrow> (False, True, True, 0, c, p)
              | Some n \<Rightarrow> (True, True, True, n, c, p)))
      else
        (case symmLenSignature env of
           None \<Rightarrow> (False, False, True, 0, 0, 0)
         | Some n \<Rightarrow> (True, False, True, n, 0, 0)))"

text \<open>The flag of the extra padding is an output of the maximal size, kept when the sizes are not known.\<close>

definition SC_Chunks_GetSendingMaxBodySize ::
  "sc_env \<Rightarrow> OpcUa_MessageSecurityMode \<Rightarrow> u32 \<Rightarrow> u32 \<Rightarrow> bool \<Rightarrow> bool \<Rightarrow> (u32 \<times> bool) option" where
  "SC_Chunks_GetSendingMaxBodySize env mode chunkSize nonEncryptedHeadersSize isSymmetric hasExtra =
     (case SC_Chunks_GetSendingCryptoSizes env mode isSymmetric of
        (ok, toEncrypt, toSign, sigSize, c, p) \<Rightarrow>
          if ok then SC_Chunks_ComputeMaxBodySize nonEncryptedHeadersSize chunkSize toEncrypt c p toSign sigSize
          else Some (0, hasExtra))"

definition SC_Chunks_GetPaddingSize :: "u32 \<Rightarrow> u32 \<Rightarrow> u32 \<Rightarrow> u16 option" where
  "SC_Chunks_GetPaddingSize bytesToEncrypt plainBlockSize signatureSize =
     (if plainBlockSize = 0 then None
      else
        (let paddingSizeFields = (if SC_Chunks_Is_ExtraPaddingSizePresent plainBlockSize then 2 else 1);
             missing = (bytesToEncrypt + signatureSize + paddingSizeFields) mod plainBlockSize;
             lresult = (if missing \<noteq> 0 then plainBlockSize - missing else 0)
         in Some (if lresult \<le> 65535 then ucast lresult else 0)))"

section \<open>Padding\<close>

definition write_padding ::
  "sc_env \<Rightarrow> u16 \<Rightarrow> u32 \<Rightarrow> bufp \<Rightarrow> (bool \<times> bool \<times> bufp) option" where
  "write_padding env realPaddingLength plainTextBlockSize buffer =
     (let lsb = ucast (0x00FF AND realPaddingLength) :: byte;
          msb = ucast (drop_bit 8 (0xFF00 AND realPaddingLength)) :: byte
      in do {
        (st, b) \<leftarrow> SOPC_Buffer_Write (sc_enc env) buffer (Some [lsb]) 1;
        if st \<noteq> SOPC_STATUS_OK then Some (False, False, b)
        else case SOPC_Malloc (sc_enc env) (unat realPaddingLength) of
          None \<Rightarrow> Some (False, False, b)
        | Some paddingBytes \<Rightarrow> do {
            paddingBytes \<leftarrow> mem_set paddingBytes 0 lsb (unat realPaddingLength);
            (st, b) \<leftarrow> SOPC_Buffer_Write (sc_enc env) b (Some paddingBytes) (ucast realPaddingLength);
            if st \<noteq> SOPC_STATUS_OK then Some (False, False, b)
            else if SC_Chunks_Is_ExtraPaddingSizePresent plainTextBlockSize then do {
              (st, b) \<leftarrow> SOPC_Buffer_Write (sc_enc env) b (Some [msb]) 1;
              Some (st = SOPC_STATUS_OK, True, b) }
            else Some (True, False, b) } })"

text \<open>Outputs: signature size, padding length, extra padding.\<close>

definition SOPC_Chunks_EncodePadding ::
  "sc_env \<Rightarrow> OpcUa_MessageSecurityMode \<Rightarrow> bool \<Rightarrow> u32 \<Rightarrow> SOPC_StatusCode \<Rightarrow> bufp \<Rightarrow>
   (bool \<times> SOPC_StatusCode \<times> u32 \<times> u16 \<times> bool \<times> bufp) option" where
  "SOPC_Chunks_EncodePadding env mode isSymmetricAlgo sequenceNumberPosition err buffer =
     (case SC_Chunks_GetSendingCryptoSizes env mode isSymmetricAlgo of
        (ok, toEncrypt, toSign, signatureSize, c, plainTextBlockSize) \<Rightarrow>
          if ok \<and> toEncrypt then do {
            b \<leftarrow> buffer;
            realPaddingLength \<leftarrow>
              SC_Chunks_GetPaddingSize (buf_length b - sequenceNumberPosition) plainTextBlockSize signatureSize;
            (ok, extra, b) \<leftarrow> write_padding env realPaddingLength plainTextBlockSize buffer;
            Some (ok, if ok then err else OpcUa_BadTcpInternalError, signatureSize, realPaddingLength, extra, b) }
          else Some (False, OpcUa_BadTcpInternalError, signatureSize, 0, False, buffer))"

text \<open>Outputs: signature size, presence of a padding, padding length, extra padding.\<close>

definition SOPC_Chunks_GetSignatureSize_EncodePadding ::
  "sc_env \<Rightarrow> OpcUa_MessageSecurityMode \<Rightarrow> bool \<Rightarrow> bool \<Rightarrow> bool \<Rightarrow> u32 \<Rightarrow> SOPC_StatusCode \<Rightarrow> bufp \<Rightarrow>
   (bool \<times> SOPC_StatusCode \<times> (u32 \<times> bool \<times> u16 \<times> bool) \<times> bufp) option" where
  "SOPC_Chunks_GetSignatureSize_EncodePadding env mode isSymmetricAlgo toEncrypt toSign sequenceNumberPosition err buffer =
     (if toEncrypt then do {
        (ok, err, signatureSize, realPaddingLength, extra, b) \<leftarrow>
          SOPC_Chunks_EncodePadding env mode isSymmetricAlgo sequenceNumberPosition err buffer;
        Some (ok, err, (signatureSize, True, realPaddingLength, extra), b) }
      else if toSign then
        (case SC_Chunks_GetSendingCryptoSizes env mode isSymmetricAlgo of
           (ok, _, _, signatureSize, _, _) \<Rightarrow>
             Some (ok, if ok then err else OpcUa_BadTcpInternalError, (signatureSize, False, 0, False), buffer))
      else Some (True, err, (0, False, 0, False), buffer))"

text \<open>Computed in \<open>int32_t\<close>; the differences of the source are those of the integers.\<close>

definition SC_Chunks_CheckMaxSenderCertificateSize ::
  "SOPC_SecureConnection \<Rightarrow> i32 \<Rightarrow> u32 \<Rightarrow> i32 \<Rightarrow> u32 \<times> bool \<times> u16 \<times> bool \<Rightarrow> SOPC_StatusCode \<Rightarrow> bool \<times> SOPC_StatusCode" where
  "SC_Chunks_CheckMaxSenderCertificateSize sc senderCertificateSize messageChunkSize securityPolicyUriLength p err =
     (case p of (asymmetricSignatureSize, hasPadding, realPaddingLength, hasExtraPadding) \<Rightarrow>
        (let maxSize = (if messageChunkSize \<le> 2147483647
                        then uint messageChunkSize - uint SOPC_UA_SECURE_MESSAGE_HEADER_LENGTH - 4 -
                             sint securityPolicyUriLength - 4 - 4 - 20 - 8
                        else 0);
             maxSize = (if messageChunkSize \<le> 2147483647 \<and> hasPadding
                        then maxSize - 1 - uint realPaddingLength - (if hasExtraPadding then 1 else 0) else maxSize);
             ok = (messageChunkSize \<le> 2147483647 \<and> asymmetricSignatureSize \<le> 2147483647);
             maxSize = (if ok then maxSize - uint asymmetricSignatureSize else maxSize);
             ok = (ok \<and> sint senderCertificateSize \<le> maxSize)
         in (ok, if ok then err
                 else if isServerConnection sc then OpcUa_BadResponseTooLarge else OpcUa_BadRequestTooLarge)))"

section \<open>Signature and encryption\<close>

definition SC_Chunks_GetEncryptedDataLength :: "sc_env \<Rightarrow> SOPC_SecureConnection \<Rightarrow> u32 \<Rightarrow> bool \<Rightarrow> u32 option" where
  "SC_Chunks_GetEncryptedDataLength env sc plainDataLength isSymmetricAlgo =
     (if \<not> isSymmetricAlgo then (if peerPublicKey env then asymLenEncryption env plainDataLength else None)
      else if senderKeySet (currentSecuKeySets sc) = None \<or> receiverKeySet (currentSecuKeySets sc) = None then None
      else symmLenEncryption env plainDataLength)"

definition SC_Chunks_EncodeSignatureNoError ::
  "sc_env \<Rightarrow> SOPC_SecureConnection \<Rightarrow> bool \<Rightarrow> bool \<Rightarrow> u32 \<Rightarrow> bufp \<Rightarrow> (bool \<times> bufp) option" where
  "SC_Chunks_EncodeSignatureNoError env sc symmetricAlgo isPrevCryptoData signatureSize buffer =
     (case (if symmetricAlgo then
              map_option (\<lambda>(s, r) m. symmSign env m (signKey s)) (SC_Chunks_GetSecurityKeySets sc isPrevCryptoData)
            else if has_privateKey sc then Some (asymSign env) else None) of
        None \<Rightarrow> Some (False, buffer)
      | Some sign \<Rightarrow>
          (case SOPC_ByteString_InitializeFixedSize (sc_enc env) (Some str_init) signatureSize of
             (st, signedData) \<Rightarrow>
               if st \<noteq> SOPC_STATUS_OK then Some (False, buffer)
               else do {
                 signedData \<leftarrow> signedData;
                 if sint (Str_Length signedData) \<le> 0 then Some (False, buffer)
                 else do {
                   b \<leftarrow> buffer;
                   d \<leftarrow> buf_data b;
                   m \<leftarrow> mem_read d 0 (unat (buf_length b));
                   (case sign m of
                      None \<Rightarrow> Some (False, buffer)
                    | Some s \<Rightarrow> do {
                        blk \<leftarrow> Str_Data signedData;
                        blk \<leftarrow> mem_write blk 0 s;
                        (st, b) \<leftarrow> SOPC_Buffer_Write (sc_enc env) buffer (Some blk) (Str_Length signedData);
                        Some (st = SOPC_STATUS_OK, b) }) } }))"

definition SC_Chunks_EncodeSignature ::
  "sc_env \<Rightarrow> SOPC_SecureConnection \<Rightarrow> bool \<Rightarrow> bool \<Rightarrow> u32 \<Rightarrow> SOPC_StatusCode \<Rightarrow> bufp \<Rightarrow>
   (bool \<times> SOPC_StatusCode \<times> bufp) option" where
  "SC_Chunks_EncodeSignature env sc symmetricAlgo isPrevCryptoData signatureSize err buffer = do {
     (ok, b) \<leftarrow> SC_Chunks_EncodeSignatureNoError env sc symmetricAlgo isPrevCryptoData signatureSize buffer;
     Some (ok, if ok then err else OpcUa_BadEncodingError, b) }"

text \<open>
  The part the two branches of \<open>SC_Chunks_EncryptMsg\<close> share. The asymmetric branch leaves the error status
  when the buffer is too small, the symmetric one sets it.
\<close>

definition encrypt_chunk ::
  "SOPC_Buffer \<Rightarrow> (byte list \<Rightarrow> byte list option) \<Rightarrow> u32 \<Rightarrow> u32 \<Rightarrow> SOPC_StatusCode \<Rightarrow> SOPC_StatusCode \<Rightarrow> SOPC_Buffer \<Rightarrow>
   (bool \<times> SOPC_StatusCode \<times> bufp) option" where
  "encrypt_chunk nonEncryptedBuffer encrypt sequenceNumberPosition encryptedDataLength too_small err encryptedBuffer =
     (let fits = (maximum_size encryptedBuffer \<ge> sequenceNumberPosition + encryptedDataLength);
          err = (if fits then err else too_small)
      in case buf_data encryptedBuffer of
           None \<Rightarrow> Some (False, OpcUa_BadTcpInternalError, Some encryptedBuffer)
         | Some ed \<Rightarrow> do {
             nd \<leftarrow> buf_data nonEncryptedBuffer;
             h \<leftarrow> mem_read nd 0 (unat sequenceNumberPosition);
             ed \<leftarrow> mem_write ed 0 h;
             (st, b) \<leftarrow> SOPC_Buffer_SetDataLength (Some (encryptedBuffer\<lparr>buf_data := Some ed\<rparr>))
               (sequenceNumberPosition + encryptedDataLength);
             if st \<noteq> SOPC_STATUS_OK then Some (False, OpcUa_BadTcpInternalError, b)
             else if \<not> fits then Some (False, err, b)
             else do {
               m \<leftarrow> mem_read nd (unat sequenceNumberPosition) (unat (buf_length nonEncryptedBuffer - sequenceNumberPosition));
               (case encrypt m of
                  None \<Rightarrow> Some (False, OpcUa_BadEncodingError, b)
                | Some c \<Rightarrow> do {
                    eb \<leftarrow> b;
                    ed \<leftarrow> buf_data eb;
                    ed \<leftarrow> mem_write ed (unat sequenceNumberPosition) c;
                    Some (True, err, Some (eb\<lparr>buf_data := Some ed\<rparr>)) }) } })"

definition SC_Chunks_EncryptMsg ::
  "sc_env \<Rightarrow> SOPC_SecureConnection \<Rightarrow> SOPC_Buffer \<Rightarrow> bool \<Rightarrow> bool \<Rightarrow> u32 \<Rightarrow> u32 \<Rightarrow> SOPC_StatusCode \<Rightarrow> SOPC_Buffer \<Rightarrow>
   (bool \<times> SOPC_StatusCode \<times> bufp) option" where
  "SC_Chunks_EncryptMsg env sc nonEncryptedBuffer symmetricAlgo isPrevCryptoData sequenceNumberPosition
     encryptedDataLength err encryptedBuffer =
     (if \<not> symmetricAlgo then
        (if sc_config env (isServerConnection sc) (secureChannelConfigIdx sc) = None then None
         else if \<not> peerPublicKey env then Some (False, OpcUa_BadTcpInternalError, Some encryptedBuffer)
         else encrypt_chunk nonEncryptedBuffer (asymEncrypt env) sequenceNumberPosition encryptedDataLength err err encryptedBuffer)
      else
        (case SC_Chunks_GetSecurityKeySets sc isPrevCryptoData of
           None \<Rightarrow> Some (False, OpcUa_BadTcpInternalError, Some encryptedBuffer)
         | Some (s, _) \<Rightarrow>
             encrypt_chunk nonEncryptedBuffer (\<lambda>m. symmEncrypt env m (encryptKey s) (initVector s))
               sequenceNumberPosition encryptedDataLength OpcUa_BadTcpInternalError err encryptedBuffer))"

definition SC_Chunks_Encrypt ::
  "sc_env \<Rightarrow> SOPC_SecureConnection \<Rightarrow> bool \<Rightarrow> bool \<Rightarrow> u32 \<Rightarrow> u32 \<Rightarrow> SOPC_StatusCode \<Rightarrow> bufp \<Rightarrow>
   (bool \<times> SOPC_StatusCode \<times> bufp) option" where
  "SC_Chunks_Encrypt env sc symmetricAlgo isPrevCryptoData sequenceNumberPosition encryptedDataLength err buffer =
     (case (if sendBufferSize (tcpMsgProperties sc) \<ge> sequenceNumberPosition + encryptedDataLength
            then SOPC_Buffer_Create (sc_enc env) (sequenceNumberPosition + encryptedDataLength) else None) of
        None \<Rightarrow> Some (False, OpcUa_BadOutOfMemory, None)
      | Some encryptedBuffer \<Rightarrow> do {
          b \<leftarrow> buffer;
          (ok, err, out) \<leftarrow> SC_Chunks_EncryptMsg env sc b symmetricAlgo isPrevCryptoData sequenceNumberPosition
            encryptedDataLength err encryptedBuffer;
          Some (ok, err, if ok then out else None) })"

section \<open>Size, sequence number and request identifier\<close>

text \<open>The length of the encrypted data is an output, 0 without encryption.\<close>

definition SC_Chunks_EncodeMessageSize ::
  "sc_env \<Rightarrow> SOPC_SecureConnection \<Rightarrow> bool \<Rightarrow> bool \<Rightarrow> u32 \<Rightarrow> u32 \<Rightarrow> SOPC_StatusCode \<Rightarrow> bufp \<Rightarrow>
   (bool \<times> SOPC_StatusCode \<times> u32 \<times> bufp) option" where
  "SC_Chunks_EncodeMessageSize env sc symmetricAlgo toEncrypt sequenceNumberPosition signatureSize err buffer = do {
     b \<leftarrow> buffer;
     case (if toEncrypt
           then SC_Chunks_GetEncryptedDataLength env sc (buf_length b - sequenceNumberPosition + signatureSize) symmetricAlgo
           else Some 0) of
       None \<Rightarrow> Some (False, OpcUa_BadTcpInternalError, 0, buffer)
     | Some encryptedDataLength \<Rightarrow> do {
         let messageSize = (if toEncrypt then sequenceNumberPosition + encryptedDataLength else buf_length b + signatureSize);
         (ok, err, b) \<leftarrow> written (SOPC_UInt32_Write (sc_enc env) (Some messageSize) buffer 0) OpcUa_BadTcpInternalError err;
         Some (ok, err, encryptedDataLength, b) } }"

definition set_lastSNsent :: "u32 \<Rightarrow> SOPC_SecureConnection \<Rightarrow> SOPC_SecureConnection" where
  "set_lastSNsent n sc = sc\<lparr>tcpSeqProperties := (tcpSeqProperties sc)\<lparr>lastSNsent := n\<rparr>\<rparr>"

definition next_SNsent :: "u32 \<Rightarrow> u32" where
  "next_SNsent n = (if n > -1 - 1024 then 1 else n + 1)"

definition SC_Chunks_EncodeSequenceNumber ::
  "sc_env \<Rightarrow> u32 \<Rightarrow> SOPC_StatusCode \<Rightarrow> SOPC_SecureConnection \<Rightarrow> bufp \<Rightarrow>
   (bool \<times> SOPC_StatusCode \<times> SOPC_SecureConnection \<times> bufp) option" where
  "SC_Chunks_EncodeSequenceNumber env sequenceNumberPosition err sc buffer =
     (case SOPC_Buffer_SetPosition buffer sequenceNumberPosition of
        (st, b) \<Rightarrow>
          if st = SOPC_STATUS_OK then do {
            let n = next_SNsent (lastSNsent (tcpSeqProperties sc));
            let sc = set_lastSNsent n sc;
            (ok, err, b) \<leftarrow> written (SOPC_UInt32_Write (sc_enc env) (Some n) b 0) OpcUa_BadTcpInternalError err;
            Some (ok, err, sc, b) }
          else Some (False, OpcUa_BadTcpInternalError, sc, b))"

definition SC_Chunks_EncodeRequestId ::
  "sc_env \<Rightarrow> bool \<Rightarrow> u32 \<Rightarrow> SOPC_StatusCode \<Rightarrow> SOPC_SecureConnection \<Rightarrow> bufp \<Rightarrow>
   (bool \<times> SOPC_StatusCode \<times> u32 \<times> SOPC_SecureConnection \<times> bufp) option" where
  "SC_Chunks_EncodeRequestId env isFinalChunk requestIdOrHandle err sc buffer = do {
     let reqId = (if isServerConnection sc then requestIdOrHandle
                  else if clientNextReqId sc = 0 then 1 else clientNextReqId sc);
     let sc = (if isServerConnection sc then sc
               else sc\<lparr>clientNextReqId := (if isFinalChunk then (reqId + 1) mod -1 else reqId)\<rparr>);
     (ok, err, b) \<leftarrow> written (SOPC_UInt32_Write (sc_enc env) (Some reqId) buffer 0) OpcUa_BadTcpInternalError err;
     Some (ok, err, if ok then reqId else 0, sc, b) }"

definition sizeof_SentRequestMsg_Context :: nat where
  "sizeof_SentRequestMsg_Context = 20"

text \<open>A request that waits for an answer is recorded; \<open>newTimerId\<close> is 0 when no timer can be created.\<close>

definition SC_Chunks_CreateClientSentRequestContext ::
  "sc_env \<Rightarrow> u32 \<Rightarrow> u32 \<Rightarrow> SOPC_Msg_Type \<Rightarrow> u32 \<Rightarrow> SOPC_StatusCode \<Rightarrow> SOPC_SecureConnection \<Rightarrow>
   (bool \<times> SOPC_StatusCode \<times> SOPC_SecureConnection) option" where
  "SC_Chunks_CreateClientSentRequestContext env scIdx requestIdOrHandle sendMsgType reqId err sc =
     (if sendMsgType = SOPC_MSG_TYPE_SC_OPN \<or> sendMsgType = SOPC_MSG_TYPE_SC_MSG then
        (if mem_ok (sc_enc env) sizeof_SentRequestMsg_Context \<and> newTimerId env \<noteq> 0 \<and> mem_ok (sc_enc env) sizeof_list_elt
         then Some (True, err,
           set_sentRequestIds (sentRequestIds (tcpSeqProperties sc) @
             [(reqId, \<lparr>timeoutExpired = False, scConnectionIdx = scIdx, requestHandle = requestIdOrHandle,
                       msgType = sendMsgType, timerId = newTimerId env\<rparr>)]) sc)
         else Some (False, OpcUa_BadTcpInternalError, sc))
      else if sendMsgType = SOPC_MSG_TYPE_SC_CLO then Some (True, err, sc)
      else None)"

section \<open>One chunk\<close>

definition SC_Chunks_TreatSendBufferTCPonly ::
  "sc_env \<Rightarrow> SOPC_Msg_Type \<Rightarrow> SOPC_StatusCode \<Rightarrow> SOPC_Buffer \<Rightarrow> (bool \<times> SOPC_StatusCode \<times> bufp) option" where
  "SC_Chunks_TreatSendBufferTCPonly env sendMsgType err inputBuffer =
     (if sendMsgType \<in> {SOPC_MSG_TYPE_HEL, SOPC_MSG_TYPE_ACK, SOPC_MSG_TYPE_ERR, SOPC_MSG_TYPE_RHE} then
        (case SOPC_Buffer_SetPosition (Some inputBuffer) 0 of
           (st, b) \<Rightarrow>
             if st = SOPC_STATUS_OK then do {
               (ok, err, b) \<leftarrow> SC_Chunks_EncodeTcpMsgHeader env sendMsgType SOPC_UA_FINAL_CHUNK err b;
               Some (ok, err, if ok then b else None) }
             else None)
      else None)"

text \<open>
  The common end of the two kinds of secure messages: the message size, the sequence number, the request
  identifier, the signature and the encryption. The results are the request identifier, the connection,
  the chunk that can be used again and the chunk to send.
\<close>

definition protect_chunk ::
  "sc_env \<Rightarrow> bool \<Rightarrow> bool \<Rightarrow> bool \<Rightarrow> bool \<Rightarrow> u32 \<Rightarrow> u32 \<Rightarrow> bool \<Rightarrow> u32 \<Rightarrow> SOPC_StatusCode \<Rightarrow> SOPC_SecureConnection \<Rightarrow> bufp \<Rightarrow>
   (bool \<times> SOPC_StatusCode \<times> u32 \<times> SOPC_SecureConnection \<times> bufp \<times> bufp) option" where
  "protect_chunk env symmetricAlgo isPrevCryptoData toEncrypt toSign sequenceNumberPosition signatureSize isFinalChunk
     requestIdOrHandle err sc buffer =
     (case SOPC_Buffer_SetPosition buffer SOPC_UA_HEADER_MESSAGE_SIZE_POSITION of
        (st, b) \<Rightarrow>
          if st \<noteq> SOPC_STATUS_OK then None
          else do {
            (ok, err, encryptedDataLength, b) \<leftarrow>
              SC_Chunks_EncodeMessageSize env sc symmetricAlgo toEncrypt sequenceNumberPosition signatureSize err b;
            if \<not> ok then Some (False, err, 0, sc, b, None)
            else do {
              (ok, err, sc, b) \<leftarrow> SC_Chunks_EncodeSequenceNumber env sequenceNumberPosition err sc b;
              if \<not> ok then Some (False, err, 0, sc, b, None)
              else do {
                (ok, err, reqId, sc, b) \<leftarrow> SC_Chunks_EncodeRequestId env isFinalChunk requestIdOrHandle err sc b;
                if \<not> ok then Some (False, err, 0, sc, b, None)
                else do {
                  nb \<leftarrow> b;
                  let (st, b) = SOPC_Buffer_SetPosition b (buf_length nb);
                  if st \<noteq> SOPC_STATUS_OK then None
                  else do {
                    (ok, err, b) \<leftarrow>
                      (if toSign then SC_Chunks_EncodeSignature env sc symmetricAlgo isPrevCryptoData signatureSize err b
                       else Some (True, err, b));
                    if \<not> ok then Some (False, err, reqId, sc, b, None)
                    else if toEncrypt then do {
                      (ok, err, out) \<leftarrow>
                        SC_Chunks_Encrypt env sc symmetricAlgo isPrevCryptoData sequenceNumberPosition encryptedDataLength err b;
                      Some (ok, err, reqId, sc, b, out) }
                    else Some (True, err, reqId, sc, None, b) } } } } })"

text \<open>The maximal body sizes are computed by the first \<open>OPN\<close>; the size of this one is checked against them.\<close>

definition check_opn_body_size ::
  "sc_env \<Rightarrow> OpcUa_MessageSecurityMode \<Rightarrow> u32 \<Rightarrow> u32 \<Rightarrow> SOPC_StatusCode \<Rightarrow> SOPC_SecureConnection \<Rightarrow>
   (bool \<times> SOPC_StatusCode \<times> SOPC_SecureConnection) option" where
  "check_opn_body_size env mode sequenceNumberPosition bodySize err sc = do {
     sc \<leftarrow>
       (if asymmSecuMaxBodySize sc = 0 \<and> symmSecuMaxBodySize sc = 0 then do {
          (asymm, extra) \<leftarrow> SC_Chunks_GetSendingMaxBodySize env mode (sendBufferSize (tcpMsgProperties sc))
            sequenceNumberPosition False (hasExtraPaddingSize sc);
          (symm, extra) \<leftarrow> SC_Chunks_GetSendingMaxBodySize env mode (sendBufferSize (tcpMsgProperties sc))
            (SOPC_UA_SECURE_MESSAGE_HEADER_LENGTH + SOPC_UA_SYMMETRIC_SECURITY_HEADER_LENGTH) True extra;
          Some (sc\<lparr>asymmSecuMaxBodySize := asymm, symmSecuMaxBodySize := symm, hasExtraPaddingSize := extra\<rparr>) }
        else Some sc);
     if asymmSecuMaxBodySize sc = 0 \<or> symmSecuMaxBodySize sc = 0 then Some (False, OpcUa_BadTcpInternalError, sc)
     else if bodySize > asymmSecuMaxBodySize sc
     then Some (False, if isServerConnection sc then OpcUa_BadResponseTooLarge else OpcUa_BadRequestTooLarge, sc)
     else Some (True, err, sc) }"

text \<open>Space for the sequence header, then the body.\<close>

definition copy_opn_body ::
  "sc_env \<Rightarrow> SOPC_Buffer \<Rightarrow> SOPC_StatusCode \<Rightarrow> bufp \<Rightarrow> (bool \<times> SOPC_StatusCode \<times> bufp) option" where
  "copy_opn_body env inputBuffer err buffer = do {
     b \<leftarrow> buffer;
     let seqEnd = position b + SOPC_UA_SECURE_MESSAGE_SEQUENCE_LENGTH;
     if buf_length b < seqEnd then
       result_then
         (written (and_then (SOPC_Buffer_SetDataLength buffer seqEnd) (\<lambda>b. Some (SOPC_Buffer_SetPosition b seqEnd)))
           OpcUa_BadTcpInternalError err)
         (\<lambda>err b. written (SOPC_Buffer_Write (sc_enc env) b (buf_data inputBuffer) (buf_length inputBuffer))
           OpcUa_BadTcpInternalError err)
     else None }"

definition SC_Chunks_TreatSendBufferOPN ::
  "sc_env \<Rightarrow> u32 \<Rightarrow> u32 \<Rightarrow> SOPC_StatusCode \<Rightarrow> SOPC_SecureConnection \<Rightarrow> SOPC_Buffer \<Rightarrow>
   (bool \<times> SOPC_StatusCode \<times> SOPC_SecureConnection \<times> bufp) option" where
  "SC_Chunks_TreatSendBufferOPN env scIdx requestIdOrHandle err sc inputBuffer = do {
     mode \<leftarrow> sc_config env (isServerConnection sc) (secureChannelConfigIdx sc);
     toEncrypt \<leftarrow> SC_Chunks_IsMsgEncrypted mode True;
     let toSign = SC_Chunks_IsMsgSigned mode;
     if sendBufferSize (tcpMsgProperties sc) = 0 then None
     else do {
       (ok, err, b) \<leftarrow>
         result_then
           (SC_Chunks_EncodeTcpMsgHeader env SOPC_MSG_TYPE_SC_OPN SOPC_UA_FINAL_CHUNK err
             (SOPC_Buffer_Create (sc_enc env) (sendBufferSize (tcpMsgProperties sc))))
           (SC_Chunks_EncodeScMessageHeaderAdditionalField env sc);
       if \<not> ok then Some (False, err, sc, None)
       else do {
         (ok, err, securityPolicyLength, senderCertificateSize, b) \<leftarrow> SC_Chunks_EncodeAsymSecurityHeader env mode err b;
         if \<not> ok then Some (False, err, sc, None)
         else do {
           nb \<leftarrow> b;
           let sequenceNumberPosition = position nb;
           (ok, err, sc) \<leftarrow> check_opn_body_size env mode sequenceNumberPosition (buf_length inputBuffer) err sc;
           if \<not> ok then Some (False, err, sc, None)
           else do {
             (ok, err, b) \<leftarrow> copy_opn_body env inputBuffer err b;
             if \<not> ok then Some (False, err, sc, None)
             else do {
               (ok, err, p, b) \<leftarrow> SOPC_Chunks_GetSignatureSize_EncodePadding env mode False toEncrypt toSign
                 sequenceNumberPosition err b;
               if \<not> ok then Some (False, err, sc, None)
               else do {
                 nb \<leftarrow> b;
                 let (ok, err) = SC_Chunks_CheckMaxSenderCertificateSize sc senderCertificateSize (maximum_size nb)
                   securityPolicyLength p err;
                 if \<not> ok then Some (False, err, sc, None)
                 else do {
                   (ok, err, reqId, sc, _, out) \<leftarrow> protect_chunk env False False toEncrypt toSign sequenceNumberPosition (fst p)
                     True requestIdOrHandle err sc b;
                   if \<not> ok then Some (False, err, sc, None)
                   else if isServerConnection sc then Some (True, err, sc, out)
                   else do {
                     (ok, err, sc) \<leftarrow> SC_Chunks_CreateClientSentRequestContext env scIdx requestIdOrHandle
                       SOPC_MSG_TYPE_SC_OPN reqId err sc;
                     Some (ok, err, sc, if ok then out else None) } } } } } } } } }"

text \<open>The token a symmetric message is sent with; a server waits for the first use of the new one.\<close>

definition sending_token :: "SOPC_SecureConnection \<Rightarrow> (u32 \<times> bool) option" where
  "sending_token sc =
     (if isServerConnection sc \<and> \<not> serverNewSecuTokenActive sc then
        (if tokenId (precedentSecurityToken sc) \<noteq> 0 \<and> secureChannelId (precedentSecurityToken sc) \<noteq> 0
         then Some (tokenId (precedentSecurityToken sc), True) else None)
      else Some (tokenId (currentSecurityToken sc), False))"

text \<open>The token identifier, then to the end of the body.\<close>

definition write_token_id :: "sc_env \<Rightarrow> u32 \<Rightarrow> SOPC_StatusCode \<Rightarrow> bufp \<Rightarrow> (bool \<times> SOPC_StatusCode \<times> bufp) option" where
  "write_token_id env t err buffer =
     result_then (written (SOPC_UInt32_Write (sc_enc env) (Some t) buffer 0) OpcUa_BadTcpInternalError err)
       (\<lambda>err b. do {
          nb \<leftarrow> b;
          written (Some (SOPC_Buffer_SetPosition b (buf_length nb))) OpcUa_BadTcpInternalError err })"

definition SC_Chunks_TreatSendBufferMSGCLO ::
  "sc_env \<Rightarrow> u32 \<Rightarrow> u32 \<Rightarrow> SOPC_Msg_Type \<Rightarrow> byte \<Rightarrow> SOPC_StatusCode \<Rightarrow> SOPC_SecureConnection \<Rightarrow> SOPC_Buffer \<Rightarrow>
   (bool \<times> SOPC_StatusCode \<times> SOPC_SecureConnection \<times> bufp \<times> bufp) option" where
  "SC_Chunks_TreatSendBufferMSGCLO env scIdx requestIdOrHandle sendMsgType isFinalChar err sc inputChunkBuffer = do {
     mode \<leftarrow> sc_config env (isServerConnection sc) (secureChannelConfigIdx sc);
     toEncrypt \<leftarrow> SC_Chunks_IsMsgEncrypted mode False;
     let toSign = SC_Chunks_IsMsgSigned mode;
     let (st, b) = SOPC_Buffer_SetPosition (Some inputChunkBuffer) 0;
     if st \<noteq> SOPC_STATUS_OK then None
     else do {
       (ok, err, b) \<leftarrow>
         result_then (SC_Chunks_EncodeTcpMsgHeader env sendMsgType isFinalChar err b)
           (SC_Chunks_EncodeScMessageHeaderAdditionalField env sc);
       if \<not> ok then Some (False, err, sc, b, None)
       else if symmSecuMaxBodySize sc = 0 then None
       else do {
         nb \<leftarrow> b;
         if buf_length nb - SOPC_UA_SYMMETRIC_SECURE_MESSAGE_HEADERS_LENGTH > symmSecuMaxBodySize sc
         then Some (False, if isServerConnection sc then OpcUa_BadResponseTooLarge else OpcUa_BadRequestTooLarge, sc, b, None)
         else do {
           (t, isPrevCryptoData) \<leftarrow> sending_token sc;
           (ok, err, b) \<leftarrow> write_token_id env t err b;
           if \<not> ok then Some (False, err, sc, b, None)
           else do {
             (ok, err, p, b) \<leftarrow> SOPC_Chunks_GetSignatureSize_EncodePadding env mode True toEncrypt toSign
               SOPC_UA_SYMMETRIC_SEQUENCE_HEADER_POSITION err b;
             if \<not> ok then Some (False, err, sc, b, None)
             else do {
               (ok, err, reqId, sc, b, out) \<leftarrow> protect_chunk env True isPrevCryptoData toEncrypt toSign
                 SOPC_UA_SYMMETRIC_SEQUENCE_HEADER_POSITION (fst p) (isFinalChar \<noteq> SOPC_UA_INTERMEDIATE_CHUNK)
                 requestIdOrHandle err sc b;
               if ok \<and> \<not> isServerConnection sc \<and> isFinalChar = SOPC_UA_FINAL_CHUNK then do {
                 (ok, err, sc) \<leftarrow>
                   SC_Chunks_CreateClientSentRequestContext env scIdx requestIdOrHandle sendMsgType reqId err sc;
                 Some (ok, err, sc, b, if ok then out else None) }
               else Some (ok, err, sc, b, if ok then out else None) } } } } } }"

section \<open>Messages\<close>

definition SC_Chunks_ComputeNbChunksToSend ::
  "SOPC_SecureConnection \<Rightarrow> SOPC_Msg_Type \<Rightarrow> u32 \<Rightarrow> SOPC_StatusCode \<Rightarrow> (bool \<times> SOPC_StatusCode \<times> u32) option" where
  "SC_Chunks_ComputeNbChunksToSend sc sendMsgType msgBodyLength err =
     (let tcp = tcpMsgProperties sc; maxBody = symmSecuMaxBodySize sc;
          refused = Some (False, if isServerConnection sc then OpcUa_BadResponseTooLarge else OpcUa_BadRequestTooLarge, 0)
      in if sendMsgType \<noteq> SOPC_MSG_TYPE_SC_MSG \<and> sendMsgType \<noteq> SOPC_MSG_TYPE_SC_CLO then None
         else if sendMaxMessageSize tcp = 0 \<or> msgBodyLength \<le> sendMaxMessageSize tcp then
           (if msgBodyLength \<le> maxBody then Some (True, err, 1)
            else if sendMsgType = SOPC_MSG_TYPE_SC_MSG then
              (if maxBody = 0 then None
               else
                 (let requestedNbChunks = msgBodyLength div maxBody + (if msgBodyLength mod maxBody \<noteq> 0 then 1 else 0)
                  in if sendMaxChunkCount tcp = 0 \<or> requestedNbChunks \<le> sendMaxChunkCount tcp
                     then Some (True, err, requestedNbChunks) else refused))
            else refused)
         else refused)"

text \<open>The reasons of an abort message, as C strings.\<close>

definition c_string :: "string \<Rightarrow> byte list" where
  "c_string s = map of_char s @ [0]"

definition not_enough_reason :: "byte list" where
  "not_enough_reason = c_string ''Not enough bytes available in chunk(s) to send the message.''"

definition next_chunk_reason :: "byte list" where
  "next_chunk_reason = c_string ''Internal error when allocating next chunk buffer''"

text \<open>The results are the error status and the reason, the rest of the message and the next chunk.\<close>

definition SC_Chunks_NextOutputChunkBuffer ::
  "sc_env \<Rightarrow> SOPC_SecureConnection \<Rightarrow> SOPC_StatusCode \<Rightarrow> byte list \<Rightarrow> SOPC_Buffer \<Rightarrow> bufp \<Rightarrow>
   (bool \<times> SOPC_StatusCode \<times> byte list \<times> SOPC_Buffer \<times> bufp) option" where
  "SC_Chunks_NextOutputChunkBuffer env sc err reason msgBuffer nextChunkBuffer = do {
     let remainingBytes = buf_length msgBuffer - position msgBuffer;
     let nextChunkBodySize = (if remainingBytes < symmSecuMaxBodySize sc then remainingBytes else symmSecuMaxBodySize sc);
     nextChunk \<leftarrow>
       (case nextChunkBuffer of
          None \<Rightarrow> Some (SOPC_Buffer_Create (sc_enc env) (sendBufferSize (tcpMsgProperties sc)))
        | Some b \<Rightarrow>
            if SOPC_UA_SYMMETRIC_SECURE_MESSAGE_HEADERS_LENGTH + nextChunkBodySize \<le> maximum_size b
            then SOPC_Buffer_Reset (Some b) else None);
     if nextChunk = None then Some (False, OpcUa_BadOutOfMemory, next_chunk_reason, msgBuffer, None)
     else do {
       (st, b) \<leftarrow> SOPC_Buffer_SetDataLength nextChunk SOPC_UA_SYMMETRIC_SECURE_MESSAGE_HEADERS_LENGTH;
       if st \<noteq> SOPC_STATUS_OK then None
       else do {
         let (st, b) = SOPC_Buffer_SetPosition b SOPC_UA_SYMMETRIC_SECURE_MESSAGE_HEADERS_LENGTH;
         if st \<noteq> SOPC_STATUS_OK then None
         else do {
           (ok, remaining, b, src) \<leftarrow> fill_buffer b (Some msgBuffer) nextChunkBodySize 0;
           msgBuffer \<leftarrow> src;
           if ok \<and> remaining = 0 then
             (let (st, b) = SOPC_Buffer_SetPosition b 0
              in if st = SOPC_STATUS_OK then Some (True, err, reason, msgBuffer, b) else None)
           else None } } } }"

text \<open>The status codes \<open>SOPC_StatusCode_ToTcpErrorCode\<close> returns unchanged, in the order of the source.\<close>

definition tcp_error_codes :: "SOPC_StatusCode list" where
  "tcp_error_codes = [0x807D0000, 0x807E0000, 0x807F0000, 0x80800000, 0x800A0000, 0x80810000, 0x80820000, 0x80830000,
     0x80130000, 0x80840000, 0x80850000, 0x80860000, 0x80870000, 0x801A0000, 0x80140000, 0x80150000, 0x80180000,
     0x80190000, 0x801B0000, 0x801C0000, 0x801D0000, 0x801E0000]"

definition OpcUa_BadTcpNotEnoughResources :: SOPC_StatusCode where "OpcUa_BadTcpNotEnoughResources = 0x80810000"

definition SOPC_StatusCode_ToTcpErrorCode :: "SOPC_StatusCode \<Rightarrow> SOPC_StatusCode" where
  "SOPC_StatusCode_ToTcpErrorCode status =
     (if List.member tcp_error_codes status then status
      else if status = OpcUa_BadOutOfMemory then OpcUa_BadTcpNotEnoughResources
      else if status = OpcUa_BadRequestTooLarge \<or> status = OpcUa_BadResponseTooLarge then OpcUa_BadTcpMessageTooLarge
      else OpcUa_BadTcpInternalError)"

definition SC_Chunks_EncodeAbortMsg :: "sc_env \<Rightarrow> SOPC_StatusCode \<Rightarrow> byte list \<Rightarrow> bufp \<Rightarrow> (bool \<times> bufp) option" where
  "SC_Chunks_EncodeAbortMsg env err reason inputMsgBuffer = do {
     b \<leftarrow> SOPC_Buffer_Reset inputMsgBuffer;
     (st, b) \<leftarrow>
       and_then
         (and_then
           (and_then (SOPC_Buffer_SetDataLength b SOPC_UA_SYMMETRIC_SECURE_MESSAGE_HEADERS_LENGTH)
             (\<lambda>b. Some (SOPC_Buffer_SetPosition b SOPC_UA_SYMMETRIC_SECURE_MESSAGE_HEADERS_LENGTH)))
           (\<lambda>b. SOPC_UInt32_Write (sc_enc env) (Some (SOPC_StatusCode_ToTcpErrorCode err)) b 0))
         (\<lambda>b. do {
            (_, tempString) \<leftarrow> SOPC_String_AttachFromCstring (Some str_init) (Some reason);
            SOPC_String_Write (sc_enc env) tempString b 0 });
     Some (st = SOPC_STATUS_OK, b) }"

definition SC_Chunks_IsNextChunkIntermediateOrFinal :: "u32 \<Rightarrow> u32 \<Rightarrow> byte" where
  "SC_Chunks_IsNextChunkIntermediateOrFinal nb_chunks_required nb_chunks_sent =
     (if nb_chunks_required > nb_chunks_sent + 1 then SOPC_UA_INTERMEDIATE_CHUNK else SOPC_UA_FINAL_CHUNK)"

text \<open>
  The loop over the chunks, on the number of chunks left. The buffers given to the socket layer are
  appended to \<open>sent\<close>. \<open>msgBuffer\<close> is \<open>None\<close> when the message itself is the only chunk.
\<close>

fun send_chunks ::
  "sc_env \<Rightarrow> u32 \<Rightarrow> u32 \<Rightarrow> SOPC_Msg_Type \<Rightarrow> u32 \<Rightarrow> nat \<Rightarrow> u32 \<Rightarrow> SOPC_StatusCode \<Rightarrow> byte list \<Rightarrow> SOPC_SecureConnection \<Rightarrow>
   bufp \<Rightarrow> bufp \<Rightarrow> SOPC_Buffer list \<Rightarrow>
   (bool \<times> SOPC_StatusCode \<times> byte list \<times> SOPC_SecureConnection \<times> bufp \<times> SOPC_Buffer list) option" where
  "send_chunks env scIdx rid sendMsgType nb_chunks 0 nb_chunks_sent err reason sc msgBuffer chunk sent =
     Some (True, err, reason, sc, msgBuffer, sent)"
| "send_chunks env scIdx rid sendMsgType nb_chunks (Suc n) nb_chunks_sent err reason sc msgBuffer chunk sent = do {
     ch \<leftarrow> chunk;
     (ok, err, sc, chunk, out) \<leftarrow> SC_Chunks_TreatSendBufferMSGCLO env scIdx rid sendMsgType
       (SC_Chunks_IsNextChunkIntermediateOrFinal nb_chunks nb_chunks_sent) err sc ch;
     if \<not> ok then Some (False, err, reason, sc, msgBuffer, sent)
     else do {
       out \<leftarrow> out;
       if n = 0 then Some (True, err, reason, sc, msgBuffer, sent @ [out])
       else do {
         m \<leftarrow> msgBuffer;
         (ok, err, reason, m, chunk) \<leftarrow> SC_Chunks_NextOutputChunkBuffer env sc err reason m chunk;
         if ok then send_chunks env scIdx rid sendMsgType nb_chunks n (nb_chunks_sent + 1) err reason sc (Some m) chunk (sent @ [out])
         else Some (False, err, reason, sc, Some m, sent @ [out]) } } }"

text \<open>An abort message after a failure; the result is whether it was sent.\<close>

definition send_abort ::
  "sc_env \<Rightarrow> u32 \<Rightarrow> u32 \<Rightarrow> SOPC_Msg_Type \<Rightarrow> SOPC_StatusCode \<Rightarrow> byte list \<Rightarrow> SOPC_SecureConnection \<Rightarrow> bufp \<Rightarrow> SOPC_Buffer list \<Rightarrow>
   (bool \<times> SOPC_StatusCode \<times> SOPC_SecureConnection \<times> SOPC_Buffer list) option" where
  "send_abort env scIdx rid sendMsgType err reason sc msgBuffer sent = do {
     (ok, b) \<leftarrow> SC_Chunks_EncodeAbortMsg env err reason msgBuffer;
     if \<not> ok then Some (False, err, sc, sent)
     else do {
       b \<leftarrow> b;
       (ok, err, sc, _, out) \<leftarrow>
         SC_Chunks_TreatSendBufferMSGCLO env scIdx rid sendMsgType SOPC_UA_ABORT_FINAL_CHUNK err sc b;
       if ok then do { out \<leftarrow> out; Some (True, err, sc, sent @ [out]) }
       else Some (False, err, sc, sent) } }"

definition send_symmetric_message ::
  "sc_env \<Rightarrow> u32 \<Rightarrow> u32 \<Rightarrow> SOPC_Msg_Type \<Rightarrow> SOPC_StatusCode \<Rightarrow> SOPC_SecureConnection \<Rightarrow> SOPC_Buffer \<Rightarrow>
   (bool \<times> bool \<times> SOPC_StatusCode \<times> SOPC_SecureConnection \<times> SOPC_Buffer list) option" where
  "send_symmetric_message env scIdx rid sendMsgType err sc inputMsgBuffer =
     (case SOPC_Buffer_SetPosition (Some inputMsgBuffer) SOPC_UA_SYMMETRIC_SECURE_MESSAGE_HEADERS_LENGTH of
        (st, b) \<Rightarrow>
          if st \<noteq> SOPC_STATUS_OK then None
          else do {
            m \<leftarrow> b;
            (ok, err, nb_chunks) \<leftarrow> SC_Chunks_ComputeNbChunksToSend sc sendMsgType (buf_length m - position m) err;
            (ok, err, reason, sc, msgBuffer, sent) \<leftarrow>
              (if \<not> ok then Some (False, err, not_enough_reason, sc, Some m, [])
               else if nb_chunks = 1 then do {
                 let (st, b) = SOPC_Buffer_SetPosition (Some m) 0;
                 if st = SOPC_STATUS_OK
                 then send_chunks env scIdx rid sendMsgType nb_chunks (unat nb_chunks) 0 err not_enough_reason sc None b []
                 else None }
               else if nb_chunks > 0 then do {
                 (ok, err, reason, m, chunk) \<leftarrow> SC_Chunks_NextOutputChunkBuffer env sc err not_enough_reason m None;
                 if ok then send_chunks env scIdx rid sendMsgType nb_chunks (unat nb_chunks) 0 err reason sc (Some m) chunk []
                 else Some (False, err, reason, sc, Some m, []) }
               else None);
            if ok then Some (True, True, err, sc, sent)
            else do {
              (aborted, err', sc, sent) \<leftarrow> send_abort env scIdx rid sendMsgType err reason sc msgBuffer sent;
              Some (False, aborted, err', sc, sent) } })"

text \<open>
  Besides the result: whether an abort message was sent, the error status, the connection and the buffers
  given to the socket layer.
\<close>

definition SC_Chunks_TreatSendMessageBuffer ::
  "sc_env \<Rightarrow> u32 \<Rightarrow> u32 \<Rightarrow> SOPC_Msg_Type \<Rightarrow> bool \<Rightarrow> bool \<Rightarrow> SOPC_StatusCode \<Rightarrow> SOPC_SecureConnection \<Rightarrow> SOPC_Buffer \<Rightarrow>
   (bool \<times> bool \<times> SOPC_StatusCode \<times> SOPC_SecureConnection \<times> SOPC_Buffer list) option" where
  "SC_Chunks_TreatSendMessageBuffer env scIdx rid sendMsgType isTcpUaOnly isOPN err sc inputMsgBuffer =
     (case SOPC_Buffer_SetPosition (Some inputMsgBuffer) 0 of
        (st, b) \<Rightarrow>
          if st \<noteq> SOPC_STATUS_OK then None
          else do {
            m \<leftarrow> b;
            if isTcpUaOnly then do {
              (ok, err, out) \<leftarrow> SC_Chunks_TreatSendBufferTCPonly env sendMsgType err m;
              Some (ok, False, err, sc, case out of None \<Rightarrow> [] | Some x \<Rightarrow> [x]) }
            else if isOPN then
              (if sendMsgType = SOPC_MSG_TYPE_SC_OPN then do {
                 (ok, err, sc, out) \<leftarrow> SC_Chunks_TreatSendBufferOPN env scIdx rid err sc m;
                 Some (ok, False, err, sc, case out of None \<Rightarrow> [] | Some x \<Rightarrow> [x]) }
               else None)
            else if sendMsgType = SOPC_MSG_TYPE_SC_MSG \<or> sendMsgType = SOPC_MSG_TYPE_SC_CLO
            then send_symmetric_message env scIdx rid sendMsgType err sc m
            else None })"

section \<open>Events\<close>

datatype SOPC_SendEvent =
    INT_SC_SND_HEL
  | INT_SC_SND_ACK
  | INT_SC_SND_ERR
  | INT_SC_SND_RHE
  | INT_SC_SND_OPN
  | INT_SC_SND_CLO
  | INT_SC_SND_MSG_CHUNKS

datatype SOPC_SendFailure =
    INT_SC_SENT_ABORT_FAILURE u32 uintptr SOPC_StatusCode
  | INT_SC_SND_FATAL_FAILURE u32 uintptr SOPC_StatusCode

text \<open>The message type, whether it is a plain TCP message, and whether the socket closes after it.\<close>

fun send_event :: "SOPC_SendEvent \<Rightarrow> SOPC_Msg_Type \<times> bool \<times> bool" where
  "send_event INT_SC_SND_HEL = (SOPC_MSG_TYPE_HEL, True, False)"
| "send_event INT_SC_SND_ACK = (SOPC_MSG_TYPE_ACK, True, False)"
| "send_event INT_SC_SND_ERR = (SOPC_MSG_TYPE_ERR, True, True)"
| "send_event INT_SC_SND_RHE = (SOPC_MSG_TYPE_RHE, True, False)"
| "send_event INT_SC_SND_OPN = (SOPC_MSG_TYPE_SC_OPN, False, False)"
| "send_event INT_SC_SND_CLO = (SOPC_MSG_TYPE_SC_CLO, False, True)"
| "send_event INT_SC_SND_MSG_CHUNKS = (SOPC_MSG_TYPE_SC_MSG, False, False)"

definition SOPC_ChunksMgr_Dispatcher ::
  "sc_env \<Rightarrow> SOPC_SendEvent \<Rightarrow> u32 \<Rightarrow> bufp \<Rightarrow> uintptr \<Rightarrow> SOPC_SecureConnection \<Rightarrow>
   (SOPC_SecureConnection \<times> SOPC_Buffer list \<times> SOPC_SendFailure list) option" where
  "SOPC_ChunksMgr_Dispatcher env event eltId buffer auxParam sc =
     (if sc_state sc = SECURE_CONNECTION_STATE_SC_CLOSED \<or> sc_state sc = SECURE_CONNECTION_STATE_SC_CLOSING
      then Some (sc, [], [])
      else case send_event event of
        (sendMsgType, isSendTcpOnly, socketWillClose) \<Rightarrow> do {
          (ok, aborted, err, sc, sent) \<leftarrow>
            (case buffer of
               None \<Rightarrow> Some (False, False, OpcUa_BadInvalidArgument, sc, [])
             | Some b \<Rightarrow>
                 if auxParam > 0xFFFFFFFF then Some (False, False, OpcUa_BadInvalidArgument, sc, [])
                 else SC_Chunks_TreatSendMessageBuffer env eltId (ucast auxParam) sendMsgType isSendTcpOnly
                   (event = INT_SC_SND_OPN) SOPC_GoodGenericStatus sc b);
          Some (sc, sent,
            if ok \<or> socketWillClose then []
            else if aborted then [INT_SC_SENT_ABORT_FAILURE eltId auxParam err]
            else [INT_SC_SND_FATAL_FAILURE eltId auxParam err]) })"

end
