(* ===== verification/Chunks_Plain.thy ===== *)
theory Chunks_Plain
  imports Chunks_Packets Chunks_Send
begin

text \<open>
  A message without security, from its chunks as bytes to the event of its reception.
\<close>

section \<open>The bytes of a chunk\<close>

definition sc_chunk :: "byte \<Rightarrow> u32 \<Rightarrow> u32 \<Rightarrow> u32 \<Rightarrow> u32 \<Rightarrow> byte list \<Rightarrow> byte list" where
  "sc_chunk fin cid tok sn rid body =
     SOPC_MSG @ [fin] @ le_bytes 4 (24 + length body) @ le_bytes 4 (unat cid) @ le_bytes 4 (unat tok) @
     le_bytes 4 (unat sn) @ le_bytes 4 (unat rid) @ body"

lemma length_sc_chunk [simp]: "length (sc_chunk fin cid tok sn rid body) = 24 + length body"
  by (simp add: sc_chunk_def SOPC_MSG_def)

lemma sc_chunk_not_Nil [simp]: "sc_chunk fin cid tok sn rid body \<noteq> []"
  by (simp add: sc_chunk_def)

lemma u32_of_le_bytes [simp]: "u32_of (le_bytes 4 (unat x) @ r) = x"
  by (simp add: u32_of_def le_word_roundtrip)

lemma u32_of_length: "n < 2 ^ 32 \<Longrightarrow> u32_of (le_bytes 4 n @ r) = of_nat n"
  using u32_of_le_bytes [of "of_nat n" r] by (simp add: unat_of_nat_u32)

lemma take_drop_chunk:
  "take 8 (sc_chunk fin cid tok sn rid body @ v) = SOPC_MSG @ [fin] @ le_bytes 4 (24 + length body)"
  "take (16 + length body) (drop 8 (sc_chunk fin cid tok sn rid body @ v)) =
    le_bytes 4 (unat cid) @ le_bytes 4 (unat tok) @ le_bytes 4 (unat sn) @ le_bytes 4 (unat rid) @ body"
  by (simp_all add: sc_chunk_def SOPC_MSG_def)

text \<open>Between two chunks, the context holds the chunks of the message so far and its request identifier.\<close>

definition waiting_ctx :: "SOPC_Buffer list option \<Rightarrow> bool \<Rightarrow> u32 \<Rightarrow> SOPC_SecureConnection_ChunkMgrCtx" where
  "waiting_ctx bs has r =
     \<lparr>currentChunkInputBuffer = None, currentMsgSize = 0, currentMsgType = SOPC_MSG_TYPE_INVALID,
      currentMsgIsFinal = SOPC_MSG_ISFINAL_INVALID, intermediateChunksInputBuffers = bs, hasCurrentMsgRequestId = has,
      currentMsgRequestId = r, currentMessageInputBuffer = None\<rparr>"

lemma decode_MSG: "decode_msg_type SOPC_MSG = SOPC_MSG_TYPE_SC_MSG"
  by code_simp

lemma append_bytes:
  assumes "buf_wf b" "length bs \<le> room b"
  shows "buf_bytes (buf_append bs b) = buf_bytes b @ bs"
proof -
  from assms(1) obtain d where "buf_data b = Some d" "length d = unat (current_size b)" "unat (buf_length b) \<le> unat (current_size b)"
    by (rule buf_wfE)
  then show ?thesis using wf_append(2) [OF assms] by (simp add: buf_bytes_def) (simp add: buf_append_def)
qed

lemma decode_chunk:
  assumes b: "SOPC_Buffer_Create e R = Some b" and len: "24 + length body \<le> unat R"
    and fin: "decode_is_final fin \<noteq> SOPC_MSG_ISFINAL_INVALID"
  shows "\<exists>b'. decode_bytes ((waiting_ctx bs has r)\<lparr>currentChunkInputBuffer := Some b\<rparr>) b (sc_chunk fin cid tok sn rid body @ v) =
      (True, SOPC_GoodGenericStatus,
        (waiting_ctx bs has r)\<lparr>currentMsgType := SOPC_MSG_TYPE_SC_MSG, currentMsgIsFinal := decode_is_final fin,
          currentMsgSize := of_nat (24 + length body), currentChunkInputBuffer := Some b'\<rparr>, 24 + length body) \<and>
    buf_wf b' \<and> current_size b' = R \<and>
    unread b' = le_bytes 4 (unat cid) @ le_bytes 4 (unat tok) @ le_bytes 4 (unat sn) @ le_bytes 4 (unat rid) @ body \<and>
    position b' = 8 \<and> buf_bytes b' = sc_chunk fin cid tok sn rid body"
proof -
  note c = Create_spec [OF b]
  let ?u = "sc_chunk fin cid tok sn rid body @ v"
  define h where "h = SOPC_MSG @ [fin] @ le_bytes 4 (24 + length body)"
  have n: "unat (of_nat (24 + length body) :: u32) = 24 + length body"
    using len unat_lt_u32 [of R] by (intro unat_of_nat_u32) simp
  have hl: "length h = 8" by (simp add: h_def SOPC_MSG_def)
  let ?b1 = "buf_append h b" and ?b2 = "buf_advance 8 (buf_append h b)"
  let ?rest = "le_bytes 4 (unat cid) @ le_bytes 4 (unat tok) @ le_bytes 4 (unat sn) @ le_bytes 4 (unat rid) @ body"
  have room: "length h \<le> room b" using c hl len by simp
  note b1 = wf_append [OF c(1) room]
  have u1: "unread ?b1 = h" using b1(4) c(2) by simp
  have b2: "buf_wf ?b2" "unread ?b2 = []" using b1(1) u1 hl by (simp_all add: wf_advance unread_advance)
  have "room ?b2 = unat R - 8" using b1(3) c hl by (simp add: buf_advance_def)
  then have room2: "length ?rest \<le> room ?b2" using len by simp
  note b3 = wf_append [OF b2(1) room2]
  have "buf_bytes ?b1 = h" using append_bytes [OF c(1) room] c(4) by (simp add: buf_bytes_def split: option.splits)
  then have bytes: "buf_bytes (buf_append ?rest ?b2) = sc_chunk fin cid tok sn rid body"
    using append_bytes [OF b2(1) room2] by (simp add: h_def sc_chunk_def buf_bytes_def buf_advance_def)
  have pos: "position (buf_append ?rest ?b2) = 8" using c(3) by (simp add: buf_append_def buf_advance_def)
  have t: "decode_msg_type (take 3 h) = SOPC_MSG_TYPE_SC_MSG" "h ! 3 = fin"
    using decode_MSG by (simp_all add: h_def SOPC_MSG_def)
  have sz: "u32_of (drop 4 h) = of_nat (24 + length body)"
    using len unat_lt_u32 [of R] u32_of_length [of "24 + length body" "[]"] by (simp add: h_def SOPC_MSG_def)
  have big: "\<not> of_nat (24 + length body) \<le> (8 :: u32)" "\<not> of_nat (24 + length body) > R"
    using n len by (simp_all add: u32_le_iff u32_less_iff)
  show ?thesis
    using bytes pos c u1 b1 b2 b3 t sz big n fin hl take_drop_chunk [where fin = fin and cid = cid and tok = tok and sn = sn and rid = rid and body = body and v = v, folded h_def]
    by (intro exI [of _ "buf_append ?rest ?b2"])
      (simp add: decode_bytes_def waiting_ctx_def header_result_def decode_payload_def Let_def buf_advance_def)
qed

section \<open>The treatment of a chunk without security\<close>

definition activate_token :: "SOPC_SecureConnection \<Rightarrow> SOPC_SecureConnection" where
  "activate_token sc = (if isServerConnection sc \<and> \<not> serverNewSecuTokenActive sc then sc\<lparr>serverNewSecuTokenActive := True\<rparr> else sc)"

lemma activate_token_fields [simp]:
  "chunksCtx (activate_token sc) = chunksCtx sc" "tcpSeqProperties (activate_token sc) = tcpSeqProperties sc"
  "isServerConnection (activate_token sc) = isServerConnection sc" "currentSecurityToken (activate_token sc) = currentSecurityToken sc"
  "secureChannelConfigIdx (activate_token sc) = secureChannelConfigIdx sc" "tcpMsgProperties (activate_token sc) = tcpMsgProperties sc"
  "activate_token (set_chunk b sc) = set_chunk b (activate_token sc)"
  by (simp_all add: activate_token_def set_chunk_def)

text \<open>The number that follows the last one is accepted, the first one after the wrap included.\<close>

lemma next_SN_accepted:
  assumes "lastSNreceived (tcpSeqProperties sc) = n"
  shows "SC_Chunks_CheckSeqNumReceived sc False (next_SNsent n) err = (True, err, set_lastSNreceived (next_SNsent n) sc)"
  using assms by (auto simp: SC_Chunks_CheckSeqNumReceived_def next_SNsent_def Let_def)

text \<open>A server that expects messages without security, with its current token, after sequence number \<open>n\<close>.\<close>

definition plain_receiver :: "sc_env \<Rightarrow> SOPC_SecureConnection \<Rightarrow> u32 \<Rightarrow> u32 \<Rightarrow> u32 \<Rightarrow> bool" where
  "plain_receiver env sc cid tok n \<longleftrightarrow>
     isServerConnection sc \<and> sc_config env True (secureChannelConfigIdx sc) = Some OpcUa_MessageSecurityMode_None \<and>
     secureChannelId (currentSecurityToken sc) = cid \<and> tokenId (currentSecurityToken sc) = tok \<and>
     SC_Chunks_IsSecuTokenValid env True (currentSecurityToken sc) \<and> lastSNreceived (tcpSeqProperties sc) = n"

lemma set_chunk_simps [simp]:
  "currentChunkInputBuffer (chunksCtx (set_chunk b sc)) = b" "set_chunk b (set_chunk b' sc) = set_chunk b sc"
  "isServerConnection (set_chunk b sc) = isServerConnection sc" "secureChannelConfigIdx (set_chunk b sc) = secureChannelConfigIdx sc"
  "currentSecurityToken (set_chunk b sc) = currentSecurityToken sc" "tcpSeqProperties (set_chunk b sc) = tcpSeqProperties sc"
  "tcpMsgProperties (set_chunk b sc) = tcpMsgProperties sc"
  "set_lastSNreceived n (set_chunk b sc) = set_chunk b (set_lastSNreceived n sc)"
  by (simp_all add: set_chunk_def set_lastSNreceived_def)

lemma read_u32_at:
  assumes "currentChunkInputBuffer (chunksCtx sc) = Some b" "buf_wf b" "unread b = le_bytes 4 (unat x) @ r" "0 < sc_level env"
  shows "SOPC_UInt32_Read (sc_enc env) (Some v) (currentChunkInputBuffer (chunksCtx sc)) 0 =
      Some (SOPC_STATUS_OK, Some x, Some (buf_advance 4 b))"
    "buf_wf (buf_advance 4 b)" "unread (buf_advance 4 b) = r"
  using assms UInt32_Read_ok [of b "sc_enc env" v] by (simp_all add: wf_advance unread_advance)

lemma secure_payload_plain:
  assumes rx: "plain_receiver env sc cid tok n" and lvl: "0 < sc_level env"
    and ctx: "chunksCtx sc = ctx" "currentMsgType ctx = SOPC_MSG_TYPE_SC_MSG" "hasCurrentMsgRequestId ctx \<longrightarrow> currentMsgRequestId ctx = rid"
    and b: "currentChunkInputBuffer ctx = Some b" "buf_wf b"
      "unread b = le_bytes 4 (unat cid) @ le_bytes 4 (unat tok) @ le_bytes 4 (unat (next_SNsent n)) @ le_bytes 4 (unat rid) @ body"
  shows "\<exists>b'. secure_payload env rid0 err sc = Some (True, err, rid, False, (False, False, False),
      set_ctx (ctx\<lparr>currentChunkInputBuffer := Some b', hasCurrentMsgRequestId := True, currentMsgRequestId := rid\<rparr>)
        (set_lastSNreceived (next_SNsent n) (activate_token sc))) \<and>
    buf_wf b' \<and> unread b' = body \<and> current_size b' = current_size b"
proof -
  note rx = rx [unfolded plain_receiver_def]
  have cb: "currentChunkInputBuffer (chunksCtx sc) = Some b" using b(1) ctx(1) by simp
  let ?sc1 = "set_chunk (Some (buf_advance 4 b)) sc"
  note r1 = read_u32_at [OF cb b(2,3) lvl]
  have s1: "check_secureChannelId env False err sc = Some (True, err, ?sc1)"
    using r1(1) rx by (simp add: check_secureChannelId_def)
  let ?b2 = "buf_advance 4 (buf_advance 4 b)" and ?b3 = "buf_advance 4 (buf_advance 4 (buf_advance 4 b))"
  let ?b4 = "buf_advance 4 (buf_advance 4 (buf_advance 4 (buf_advance 4 b)))"
  let ?sc2 = "set_chunk (Some ?b2) (activate_token sc)"
  have cb1: "currentChunkInputBuffer (chunksCtx ?sc1) = Some (buf_advance 4 b)" by simp
  note r2 = read_u32_at [OF cb1 r1(2,3) lvl]
  have "SC_Chunks_CheckSymmetricSecurityHeader env ?sc1 err = Some (True, False, err, ?sc2)"
    using r2(1) rx unfolding SC_Chunks_CheckSymmetricSecurityHeader_def
    by (simp add: activate_token_def [symmetric] set_chunk_def) (simp add: activate_token_def)
  then have s2: "check_security_header env False err ?sc1 = Some (True, err, (False, False, False), ?sc2)"
    using rx by (simp add: check_security_header_def SC_Chunks_IsMsgEncrypted_def SC_Chunks_IsMsgSigned_def)
  have cb2: "currentChunkInputBuffer (chunksCtx ?sc2) = Some ?b2" by simp
  note r3 = read_u32_at [OF cb2 r2(2,3) lvl]
  let ?sc3 = "set_chunk (Some ?b3) (set_lastSNreceived (next_SNsent n) (activate_token sc))"
  have s3: "SC_Chunks_CheckSequenceHeaderSN env False err ?sc2 = Some (True, err, ?sc3)"
    using r3(1) next_SN_accepted [of "set_chunk (Some ?b3) (activate_token sc)" n err] rx
    by (simp add: SC_Chunks_CheckSequenceHeaderSN_def)
  have cb3: "currentChunkInputBuffer (chunksCtx ?sc3) = Some ?b3" by simp
  note r4 = read_u32_at [OF cb3 r3(2,3) lvl]
  have s4: "SC_Chunks_CheckSequenceHeaderRequestId env (currentMsgIsFinal ctx) (currentMsgType ctx) rid0 err ?sc3 =
      Some (True, rid, False, err, set_ctx (ctx\<lparr>currentChunkInputBuffer := Some ?b4, hasCurrentMsgRequestId := True, currentMsgRequestId := rid\<rparr>)
        (set_lastSNreceived (next_SNsent n) (activate_token sc)))"
    using r4(1) rx ctx by (auto simp: SC_Chunks_CheckSequenceHeaderRequestId_def set_chunk_def set_ctx_def set_lastSNreceived_def Let_def)
  have "secure_payload env rid0 err sc = Some (True, err, rid, False, (False, False, False),
      set_ctx (ctx\<lparr>currentChunkInputBuffer := Some ?b4, hasCurrentMsgRequestId := True, currentMsgRequestId := rid\<rparr>)
        (set_lastSNreceived (next_SNsent n) (activate_token sc)))"
    using ctx s1 s2 s3 s4
    by (simp add: secure_payload_def decrypt_payload_def verify_payload_def check_sequence_header_def remove_padding_payload_def
        set_chunk_def set_lastSNreceived_def)
  then show ?thesis using r4 by (auto simp: buf_advance_def)
qed

section \<open>One chunk of a message\<close>

definition received :: "u32 \<Rightarrow> SOPC_SecureConnection_ChunkMgrCtx \<Rightarrow> SOPC_SecureConnection \<Rightarrow> SOPC_SecureConnection" where
  "received n ctx sc = set_ctx ctx (set_lastSNreceived (next_SNsent n) (activate_token sc))"

lemma received_fields [simp]:
  "chunksCtx (received n ctx sc) = ctx" "tcpMsgProperties (received n ctx sc) = tcpMsgProperties sc"
  "set_ctx ctx' (received n ctx sc) = received n ctx' sc"
  by (simp_all add: received_def set_ctx_def set_lastSNreceived_def)

lemma received_receiver: "plain_receiver env sc cid tok n \<Longrightarrow> plain_receiver env (received n ctx sc) cid tok (next_SNsent n)"
  by (simp add: plain_receiver_def received_def set_ctx_def set_lastSNreceived_def)

text \<open>What a connection needs to receive one more chunk of a message.\<close>

definition chunk_expected :: "sc_env \<Rightarrow> SOPC_SecureConnection \<Rightarrow> SOPC_Buffer list option \<Rightarrow> bool \<Rightarrow> u32 \<Rightarrow> bool" where
  "chunk_expected env sc bs has rid \<longleftrightarrow>
     0 < sc_level env \<and> mem_total (sc_enc env) \<and> tcp_limits (tcpMsgProperties sc) \<and>
     pending_ok (tcpMsgProperties sc) (chunksCtx sc) \<and> chunksCtx sc = waiting_ctx bs has (if has then rid else 0)"

lemma chunk_step_plain:
  assumes rx: "plain_receiver env sc cid tok n" and ex: "chunk_expected env sc bs has rid"
    and len: "24 + length body \<le> unat (receiveBufferSize (tcpMsgProperties sc))"
    and fin: "decode_is_final fin = f" "f \<noteq> SOPC_MSG_ISFINAL_INVALID"
    and count: "f = SOPC_MSG_ISFINAL_INTERMEDIATE \<longrightarrow> length (pending (chunksCtx sc)) + 1 < unat (receiveMaxChunkCount (tcpMsgProperties sc))"
  shows "\<exists>b. chunk_step env scIdx rid0 sc evs (sc_chunk fin cid tok (next_SNsent n) rid body @ v) =
      do {
        (ok, err, sc) \<leftarrow> SC_Chunks_TreatMsgMultiChunks env SOPC_GoodGenericStatus
          (received n ((waiting_ctx bs True rid)\<lparr>currentMsgType := SOPC_MSG_TYPE_SC_MSG, currentMsgIsFinal := f,
             currentMsgSize := of_nat (24 + length body), currentChunkInputBuffer := Some b\<rparr>) sc);
        if \<not> ok then Some (Inl (False, err, sc, evs))
        else do {
          (ok, err, sc, evs) \<leftarrow> deliver_message env scIdx rid False err sc evs;
          Some (if ok then Inr (rid, err, sc, evs, 24 + length body) else Inl (False, err, sc, evs)) } } \<and>
    buf_wf b \<and> unread b = body \<and> current_size b = receiveBufferSize (tcpMsgProperties sc)"
proof -
  let ?tcp = "tcpMsgProperties sc"
  let ?h = "\<lambda>c has b. c\<lparr>currentMsgType := SOPC_MSG_TYPE_SC_MSG, currentMsgIsFinal := f,
    currentMsgSize := of_nat (24 + length body), currentChunkInputBuffer := Some b\<rparr> :: SOPC_SecureConnection_ChunkMgrCtx"
  define r where "r = (if has then rid else 0)"
  have ctx: "chunksCtx sc = waiting_ctx bs has r" using ex by (simp add: chunk_expected_def r_def)
  have "receiveBufferSize ?tcp \<noteq> 0" using len by auto
  then obtain b0 where b0: "SOPC_Buffer_Create (sc_enc env) (receiveBufferSize ?tcp) = Some b0"
    using Create_ok [of "sc_enc env" "receiveBufferSize ?tcp"] ex by (auto simp: chunk_expected_def)
  have cb: "chunk_buffer env sc = Some b0" using b0 ctx by (simp add: chunk_buffer_def waiting_ctx_def)
  obtain b1 where b1: "decode_bytes ((chunksCtx sc)\<lparr>currentChunkInputBuffer := Some b0\<rparr>) b0 (sc_chunk fin cid tok (next_SNsent n) rid body @ v) =
      (True, SOPC_GoodGenericStatus, ?h (waiting_ctx bs has r) has b1, 24 + length body)"
    "buf_wf b1" "current_size b1 = receiveBufferSize ?tcp"
    "unread b1 = le_bytes 4 (unat cid) @ le_bytes 4 (unat tok) @ le_bytes 4 (unat (next_SNsent n)) @ le_bytes 4 (unat rid) @ body"
    using decode_chunk [OF b0 len, of fin bs has r cid tok "next_SNsent n" rid v] fin ctx by auto
  let ?sc1 = "set_ctx (?h (waiting_ctx bs has r) has b1) sc"
  have "SC_Chunks_CheckMultiChunkContext (?h (waiting_ctx bs has r) has b1) ?tcp SOPC_GoodGenericStatus = (True, SOPC_GoodGenericStatus)"
    if "f = SOPC_MSG_ISFINAL_INTERMEDIATE"
  proof -
    let ?n = "SOPC_ScInternalContext_GetNbIntermediateInputChunks (waiting_ctx bs has r)"
    have "pending_ok ?tcp (waiting_ctx bs has r)" using ex unfolding chunk_expected_def ctx by blast
    note nb = nb_pending [OF this]
    have "length (pending (waiting_ctx bs has r)) + 1 < unat (receiveMaxChunkCount ?tcp)" using count that ctx by simp
    then have "unat (?n + 1) < unat (receiveMaxChunkCount ?tcp)"
      using nb unat_lt_u32 [of "receiveMaxChunkCount ?tcp"] by (subst unat_add_u32) simp_all
    then show ?thesis
      by (simp add: SC_Chunks_CheckMultiChunkContext_def u32_le_iff SOPC_ScInternalContext_GetNbIntermediateInputChunks_def not_le [symmetric])
  qed
  then have m: "SC_Chunks_CheckMultiChunkContext (?h (waiting_ctx bs has r) has b1) ?tcp SOPC_GoodGenericStatus = (True, SOPC_GoodGenericStatus)"
    by (cases "f = SOPC_MSG_ISFINAL_INTERMEDIATE") (simp_all add: SC_Chunks_CheckMultiChunkContext_def)
  have rx1: "plain_receiver env ?sc1 cid tok n" using rx by (simp add: plain_receiver_def set_ctx_def)
  have c1: "chunksCtx ?sc1 = ?h (waiting_ctx bs has r) has b1" by (simp add: set_ctx_def)
  have eq: "set_ctx ((?h (waiting_ctx bs has r) has b1)\<lparr>currentChunkInputBuffer := Some x, hasCurrentMsgRequestId := True, currentMsgRequestId := rid\<rparr>)
      (set_lastSNreceived (next_SNsent n) (activate_token ?sc1)) = received n (?h (waiting_ctx bs True rid) True x) sc" for x
    by (simp add: received_def set_ctx_def set_lastSNreceived_def activate_token_def waiting_ctx_def)
  have h1: "0 < sc_level env" "hasCurrentMsgRequestId (?h (waiting_ctx bs has r) has b1) \<longrightarrow> currentMsgRequestId (?h (waiting_ctx bs has r) has b1) = rid"
    "currentMsgType (?h (waiting_ctx bs has r) has b1) = SOPC_MSG_TYPE_SC_MSG" "currentChunkInputBuffer (?h (waiting_ctx bs has r) has b1) = Some b1"
    using ex by (simp_all add: chunk_expected_def waiting_ctx_def r_def)
  obtain b2 where b2: "secure_payload env rid0 SOPC_GoodGenericStatus ?sc1 = Some (True, SOPC_GoodGenericStatus, rid, False, (False, False, False),
      received n (?h (waiting_ctx bs True rid) True b2) sc)" "buf_wf b2" "unread b2 = body" "current_size b2 = current_size b1"
    using secure_payload_plain [OF rx1 h1(1) c1 h1(3,2,4) b1(2,4), of rid0 SOPC_GoodGenericStatus] unfolding eq by blast
  have "SC_Chunks_TreatTcpPayload env rid0 SOPC_GoodGenericStatus ?sc1 =
      complete_payload env SOPC_GoodGenericStatus (rid, False, (False, False, False), received n (?h (waiting_ctx bs True rid) True b2) sc)"
    using b2(1) c1 by (simp add: SC_Chunks_TreatTcpPayload_def payload_expected_def is_secure_msg_def)
  then show ?thesis
    using b2(2-4) b1(3) cb b1(1) m
    by (intro exI [of _ b2]) (auto simp: chunk_step_def complete_payload_def split: bind_splits)
qed

lemma pending_waiting [simp]: "pending (waiting_ctx bs has r) = (case bs of None \<Rightarrow> [] | Some bs \<Rightarrow> bs)"
  by (simp add: pending_def waiting_ctx_def)

text \<open>An intermediate chunk is added to the message in reception.\<close>

lemma chunk_step_intermediate:
  assumes rx: "plain_receiver env sc cid tok n" and ex: "chunk_expected env sc bs has rid"
    and len: "24 + length body \<le> unat (receiveBufferSize (tcpMsgProperties sc))"
    and count: "length (pending (chunksCtx sc)) + 1 < unat (receiveMaxChunkCount (tcpMsgProperties sc))"
    and tot: "length (bodies (pending (chunksCtx sc))) + length body \<le> unat (receiveMaxMessageSize (tcpMsgProperties sc))"
  shows "\<exists>b sc'. chunk_step env scIdx rid0 sc evs (sc_chunk SOPC_UA_INTERMEDIATE_CHUNK cid tok (next_SNsent n) rid body @ v) =
      Some (Inr (rid, SOPC_GoodGenericStatus, sc', evs, 24 + length body)) \<and>
    plain_receiver env sc' cid tok (next_SNsent n) \<and> chunk_expected env sc' (Some (pending (chunksCtx sc) @ [b])) True rid \<and>
    unread b = body \<and> tcpMsgProperties sc' = tcpMsgProperties sc"
proof -
  let ?tcp = "tcpMsgProperties sc" and ?bs = "pending (chunksCtx sc)"
  have f: "decode_is_final SOPC_UA_INTERMEDIATE_CHUNK = SOPC_MSG_ISFINAL_INTERMEDIATE" by (simp add: decode_is_final_def)
  have lim: "tcp_limits ?tcp" and po: "pending_ok ?tcp (chunksCtx sc)" and mem: "mem_total (sc_enc env)"
    using ex unfolding chunk_expected_def by blast+
  from chunk_step_plain [OF rx ex len f, of scIdx rid0 evs v] count obtain b where
    b: "buf_wf b" "unread b = body" "current_size b = receiveBufferSize ?tcp" and
    step: "chunk_step env scIdx rid0 sc evs (sc_chunk SOPC_UA_INTERMEDIATE_CHUNK cid tok (next_SNsent n) rid body @ v) =
      do {
        (ok, err, sc) \<leftarrow> SC_Chunks_TreatMsgMultiChunks env SOPC_GoodGenericStatus
          (received n ((waiting_ctx bs True rid)\<lparr>currentMsgType := SOPC_MSG_TYPE_SC_MSG, currentMsgIsFinal := SOPC_MSG_ISFINAL_INTERMEDIATE,
             currentMsgSize := of_nat (24 + length body), currentChunkInputBuffer := Some b\<rparr>) sc);
        if \<not> ok then Some (Inl (False, err, sc, evs))
        else do {
          (ok, err, sc, evs) \<leftarrow> deliver_message env scIdx rid False err sc evs;
          Some (if ok then Inr (rid, err, sc, evs, 24 + length body) else Inl (False, err, sc, evs)) } }"
    by auto
  let ?ctx = "(waiting_ctx bs True rid)\<lparr>currentMsgType := SOPC_MSG_TYPE_SC_MSG, currentMsgIsFinal := SOPC_MSG_ISFINAL_INTERMEDIATE,
    currentMsgSize := of_nat (24 + length body), currentChunkInputBuffer := Some b\<rparr>"
  have pe: "pending ?ctx = ?bs" using ex by (simp add: chunk_expected_def)
  have po': "pending_ok (tcpMsgProperties (received n ?ctx sc)) (chunksCtx (received n ?ctx sc))"
    using po pe by (simp add: pending_ok_def)
  have small: "unat (current_size b) \<le> 2 ^ 31" using b(3) lim by (simp add: tcp_limits_def)
  let ?sc' = "received n (waiting_ctx (Some (?bs @ [b])) True rid) sc"
  have "SC_Chunks_TreatMsgMultiChunks env SOPC_GoodGenericStatus (received n ?ctx sc) = Some (True, SOPC_GoodGenericStatus, ?sc')"
    using TreatMsgMultiChunks_spec [where sc = "received n ?ctx sc" and b = b, of env SOPC_GoodGenericStatus] po' lim b small mem tot pe
    by (simp add: mem_total_def bodies_def SOPC_ScInternalContext_ClearCurrentInputChunkContext_def) (simp add: waiting_ctx_def)
  moreover have "deliver_message env scIdx rid False SOPC_GoodGenericStatus ?sc' evs = Some (True, SOPC_GoodGenericStatus, ?sc', evs)"
    by (simp add: deliver_message_def waiting_ctx_def)
  moreover have "chunk_expected env ?sc' (Some (?bs @ [b])) True rid"
    using ex po b(1,2) count tot by (simp add: chunk_expected_def pending_ok_def bodies_def)
  ultimately show ?thesis using step b(2) received_receiver [OF rx] by auto
qed

text \<open>The final chunk delivers the bodies of all chunks, one after the other.\<close>

lemma chunk_step_final:
  assumes rx: "plain_receiver env sc cid tok n" and ex: "chunk_expected env sc bs has rid"
    and len: "24 + length body \<le> unat (receiveBufferSize (tcpMsgProperties sc))"
    and tot: "length (bodies (pending (chunksCtx sc))) + length body \<le> unat (receiveMaxMessageSize (tcpMsgProperties sc))"
    and ne: "pending (chunksCtx sc) = [] \<or> bodies (pending (chunksCtx sc)) @ body \<noteq> []"
  shows "\<exists>m sc'. chunk_step env scIdx rid0 sc evs (sc_chunk SOPC_UA_FINAL_CHUNK cid tok (next_SNsent n) rid body @ v) =
      Some (Inr (rid, SOPC_GoodGenericStatus, sc',
        evs @ [\<lparr>le_event = INT_SC_RCV_MSG_CHUNKS, le_eltId = scIdx, le_params = Some m, le_auxParam = rid\<rparr>], 24 + length body)) \<and>
    plain_receiver env sc' cid tok (next_SNsent n) \<and> chunk_expected env sc' None False 0 \<and>
    buf_wf m \<and> unread m = bodies (pending (chunksCtx sc)) @ body \<and> tcpMsgProperties sc' = tcpMsgProperties sc"
proof -
  let ?tcp = "tcpMsgProperties sc" and ?bs = "pending (chunksCtx sc)"
  have f: "decode_is_final SOPC_UA_FINAL_CHUNK = SOPC_MSG_ISFINAL_FINAL" by (simp add: decode_is_final_def SOPC_UA_FINAL_CHUNK_def SOPC_UA_INTERMEDIATE_CHUNK_def)
  have lim: "tcp_limits ?tcp" and po: "pending_ok ?tcp (chunksCtx sc)" and mem: "mem_total (sc_enc env)"
    using ex unfolding chunk_expected_def by blast+
  let ?ctx = "\<lambda>b. (waiting_ctx bs True rid)\<lparr>currentMsgType := SOPC_MSG_TYPE_SC_MSG, currentMsgIsFinal := SOPC_MSG_ISFINAL_FINAL,
    currentMsgSize := of_nat (24 + length body), currentChunkInputBuffer := Some b\<rparr>"
  from chunk_step_plain [OF rx ex len f, of scIdx rid0 evs v] obtain b where
    b: "buf_wf b" "unread b = body" "current_size b = receiveBufferSize ?tcp" and
    step: "chunk_step env scIdx rid0 sc evs (sc_chunk SOPC_UA_FINAL_CHUNK cid tok (next_SNsent n) rid body @ v) =
      do {
        (ok, err, sc) \<leftarrow> SC_Chunks_TreatMsgMultiChunks env SOPC_GoodGenericStatus (received n (?ctx b) sc);
        if \<not> ok then Some (Inl (False, err, sc, evs))
        else do {
          (ok, err, sc, evs) \<leftarrow> deliver_message env scIdx rid False err sc evs;
          Some (if ok then Inr (rid, err, sc, evs, 24 + length body) else Inl (False, err, sc, evs)) } }"
    by auto
  have pe: "pending (?ctx b) = ?bs" using ex by (simp add: chunk_expected_def)
  have po': "pending_ok (tcpMsgProperties (received n (?ctx b) sc)) (chunksCtx (received n (?ctx b) sc))"
    using po pe by (simp add: pending_ok_def)
  have small: "unat (current_size b) \<le> 2 ^ 31" using b(3) lim by (simp add: tcp_limits_def)
  note spec = TreatMsgMultiChunks_spec [where sc = "received n (?ctx b) sc" and b = b, of env SOPC_GoodGenericStatus]
  have all: "bodies (?bs @ [b]) = bodies ?bs @ body" using b(2) by (simp add: bodies_def)
  have "\<exists>m bs'. SC_Chunks_TreatMsgMultiChunks env SOPC_GoodGenericStatus (received n (?ctx b) sc) = Some (True, SOPC_GoodGenericStatus,
      received n ((?ctx b)\<lparr>intermediateChunksInputBuffers := bs', currentChunkInputBuffer := None, currentMessageInputBuffer := Some m\<rparr>) sc) \<and>
      buf_wf m \<and> unread m = bodies ?bs @ body"
  proof (cases "?bs = []")
    case True
    then have "SC_Chunks_TreatMsgMultiChunks env SOPC_GoodGenericStatus (received n (?ctx b) sc) =
      Some (True, SOPC_GoodGenericStatus, received n ((?ctx b)\<lparr>currentMessageInputBuffer := Some b, currentChunkInputBuffer := None\<rparr>) sc)"
      using spec po' lim b small tot pe all by simp
    then show ?thesis using b True by (intro exI [of _ b] exI [of _ bs]) (simp add: waiting_ctx_def bodies_def)
  next
    case False
    let ?n = "of_nat (length (bodies ?bs @ body)) :: u32"
    have un: "unat ?n = length (bodies ?bs @ body)"
      using tot unat_lt_u32 [of "receiveMaxMessageSize ?tcp"] by (intro unat_of_nat_u32) simp
    then have "?n \<noteq> 0" using ne False by auto
    then obtain mb where mb: "SOPC_Buffer_Create (sc_enc env) ?n = Some mb" using Create_ok mem by blast
    note c = Create_spec [OF mb]
    have "length (bodies ?bs @ body) \<le> room mb" using c un by simp
    note w = wf_append [OF c(1) this]
    show ?thesis
      using spec po' lim b small tot pe all False mb w c(2) ne
      by (intro exI [of _ "buf_append (bodies ?bs @ body) mb"] exI [of _ "Some []"]) (simp add: waiting_ctx_def)
  qed
  then obtain m bs' where m: "SC_Chunks_TreatMsgMultiChunks env SOPC_GoodGenericStatus (received n (?ctx b) sc) = Some (True, SOPC_GoodGenericStatus,
      received n ((?ctx b)\<lparr>intermediateChunksInputBuffers := bs', currentChunkInputBuffer := None, currentMessageInputBuffer := Some m\<rparr>) sc)"
      "buf_wf m" "unread m = bodies ?bs @ body" by blast
  let ?sc' = "received n (waiting_ctx None False 0) sc"
  have d: "deliver_message env scIdx rid False SOPC_GoodGenericStatus
      (received n ((?ctx b)\<lparr>intermediateChunksInputBuffers := bs', currentChunkInputBuffer := None, currentMessageInputBuffer := Some m\<rparr>) sc) evs =
      Some (True, SOPC_GoodGenericStatus, ?sc', evs @ [\<lparr>le_event = INT_SC_RCV_MSG_CHUNKS, le_eltId = scIdx, le_params = Some m, le_auxParam = rid\<rparr>])"
    using mem by (simp add: deliver_message_def waiting_ctx_def SC_Chunks_MsgTypeToRcvEvent_def mem_total_def Let_def
        SOPC_ScInternalContext_ClearInputChunksContext_def SOPC_ScInternalContext_ClearIntermediateInputChunks_def
        SOPC_ScInternalContext_ClearCurrentInputChunkContext_def)
  have "chunk_expected env ?sc' None False 0" using ex lim by (simp add: chunk_expected_def pending_ok_Nil)
  then show ?thesis using step m d received_receiver [OF rx] by auto
qed

text \<open>A final chunk behind chunks without any byte, itself without any, stops on the assertion.\<close>

lemma chunk_step_final_empty:
  assumes rx: "plain_receiver env sc cid tok n" and ex: "chunk_expected env sc bs has rid"
    and len: "24 \<le> unat (receiveBufferSize (tcpMsgProperties sc))"
    and empty: "pending (chunksCtx sc) \<noteq> []" "bodies (pending (chunksCtx sc)) = []"
  shows "chunk_step env scIdx rid0 sc evs (sc_chunk SOPC_UA_FINAL_CHUNK cid tok (next_SNsent n) rid [] @ v) = None"
proof -
  let ?tcp = "tcpMsgProperties sc" and ?bs = "pending (chunksCtx sc)"
  have f: "decode_is_final SOPC_UA_FINAL_CHUNK = SOPC_MSG_ISFINAL_FINAL" by (simp add: decode_is_final_def SOPC_UA_FINAL_CHUNK_def SOPC_UA_INTERMEDIATE_CHUNK_def)
  have lim: "tcp_limits ?tcp" and po: "pending_ok ?tcp (chunksCtx sc)" using ex unfolding chunk_expected_def by blast+
  have len': "24 + length ([] :: byte list) \<le> unat (receiveBufferSize ?tcp)" using len by simp
  let ?ctx = "\<lambda>b. (waiting_ctx bs True rid)\<lparr>currentMsgType := SOPC_MSG_TYPE_SC_MSG, currentMsgIsFinal := SOPC_MSG_ISFINAL_FINAL,
    currentMsgSize := of_nat (24 + length ([] :: byte list)), currentChunkInputBuffer := Some b\<rparr>"
  from chunk_step_plain [OF rx ex len' f, of scIdx rid0 evs v] obtain b where
    b: "buf_wf b" "unread b = []" "current_size b = receiveBufferSize ?tcp" and
    step: "chunk_step env scIdx rid0 sc evs (sc_chunk SOPC_UA_FINAL_CHUNK cid tok (next_SNsent n) rid [] @ v) =
      do {
        (ok, err, sc) \<leftarrow> SC_Chunks_TreatMsgMultiChunks env SOPC_GoodGenericStatus (received n (?ctx b) sc);
        if \<not> ok then Some (Inl (False, err, sc, evs))
        else do {
          (ok, err, sc, evs) \<leftarrow> deliver_message env scIdx rid False err sc evs;
          Some (if ok then Inr (rid, err, sc, evs, 24 + length ([] :: byte list)) else Inl (False, err, sc, evs)) } }"
    by auto
  have pe: "pending (?ctx b) = ?bs" using ex by (simp add: chunk_expected_def)
  have po': "pending_ok (tcpMsgProperties (received n (?ctx b) sc)) (chunksCtx (received n (?ctx b) sc))"
    using po pe by (simp add: pending_ok_def)
  have small: "unat (current_size b) \<le> 2 ^ 31" using b(3) lim by (simp add: tcp_limits_def)
  have "bodies (?bs @ [b]) = []" using b(2) empty(2) by (simp add: bodies_def)
  then have "SC_Chunks_TreatMsgMultiChunks env SOPC_GoodGenericStatus (received n (?ctx b) sc) = None"
    using TreatMsgMultiChunks_spec [where sc = "received n (?ctx b) sc" and b = b, of env SOPC_GoodGenericStatus] po' lim b small pe empty(1)
    by simp
  then show ?thesis using step by simp
qed

section \<open>A whole message\<close>

text \<open>The chunks of a message whose bodies are \<open>xs\<close>: consecutive sequence numbers, the last one is final.\<close>

fun chunk_stream :: "u32 \<Rightarrow> u32 \<Rightarrow> u32 \<Rightarrow> u32 \<Rightarrow> byte list list \<Rightarrow> byte list list" where
  "chunk_stream cid tok n rid [] = []"
| "chunk_stream cid tok n rid (x # xs) =
     sc_chunk (if xs = [] then SOPC_UA_FINAL_CHUNK else SOPC_UA_INTERMEDIATE_CHUNK) cid tok (next_SNsent n) rid x #
     chunk_stream cid tok (next_SNsent n) rid xs"

lemma recv_stream:
  assumes "plain_receiver env sc cid tok n" "chunk_expected env sc bs has rid" "xs \<noteq> []"
    "\<forall>x \<in> set xs. 24 + length x \<le> unat (receiveBufferSize (tcpMsgProperties sc))"
    "length (pending (chunksCtx sc)) + length xs \<le> unat (receiveMaxChunkCount (tcpMsgProperties sc))"
    "length (bodies (pending (chunksCtx sc))) + length (concat xs) \<le> unat (receiveMaxMessageSize (tcpMsgProperties sc))"
    "pending (chunksCtx sc) = [] \<and> length xs = 1 \<or> bodies (pending (chunksCtx sc)) @ concat xs \<noteq> []"
  shows "\<exists>m sc'. recv_bytes env scIdx rid0 err sc evs (concat (chunk_stream cid tok n rid xs) @ v) =
      recv_bytes env scIdx rid SOPC_GoodGenericStatus sc'
        (evs @ [\<lparr>le_event = INT_SC_RCV_MSG_CHUNKS, le_eltId = scIdx, le_params = Some m, le_auxParam = rid\<rparr>]) v \<and>
    plain_receiver env sc' cid tok ((next_SNsent ^^ length xs) n) \<and> chunk_expected env sc' None False 0 \<and>
    buf_wf m \<and> unread m = bodies (pending (chunksCtx sc)) @ concat xs \<and> tcpMsgProperties sc' = tcpMsgProperties sc"
  using assms
proof (induction xs arbitrary: n bs has sc rid0 err)
  case Nil
  then show ?case by simp
next
  case (Cons x xs)
  note rx = Cons.prems(1) and ex = Cons.prems(2)
  have len: "24 + length x \<le> unat (receiveBufferSize (tcpMsgProperties sc))" using Cons.prems(4) by simp
  have rec: "recv_bytes env scIdx rid0 err sc evs u = recv_bytes env scIdx rid' err' sc' evs' (drop k u)"
    if "chunk_step env scIdx rid0 sc evs u = Some (Inr (rid', err', sc', evs', k))" "k > 0" "u \<noteq> []" for u rid' err' sc' evs' k
    using that by (simp add: recv_bytes.simps [of env scIdx rid0 err sc evs u])
  show ?case
  proof (cases "xs = []")
    case True
    let ?u = "sc_chunk SOPC_UA_FINAL_CHUNK cid tok (next_SNsent n) rid x @ v"
    have tot: "length (bodies (pending (chunksCtx sc))) + length x \<le> unat (receiveMaxMessageSize (tcpMsgProperties sc))"
      and ne: "pending (chunksCtx sc) = [] \<or> bodies (pending (chunksCtx sc)) @ x \<noteq> []" using Cons.prems(6,7) True by auto
    from chunk_step_final [OF rx ex len tot ne, of scIdx rid0 evs v] obtain m sc' where
      s: "chunk_step env scIdx rid0 sc evs ?u = Some (Inr (rid, SOPC_GoodGenericStatus, sc',
          evs @ [\<lparr>le_event = INT_SC_RCV_MSG_CHUNKS, le_eltId = scIdx, le_params = Some m, le_auxParam = rid\<rparr>], 24 + length x))"
      and p: "plain_receiver env sc' cid tok (next_SNsent n)" "chunk_expected env sc' None False 0"
        "buf_wf m" "unread m = bodies (pending (chunksCtx sc)) @ x" "tcpMsgProperties sc' = tcpMsgProperties sc" by blast
    have "?u \<noteq> []" by simp
    then show ?thesis using rec [OF s] True p by (intro exI [of _ m] exI [of _ sc']) simp
  next
    case False
    let ?w = "concat (chunk_stream cid tok (next_SNsent n) rid xs) @ v"
    let ?u = "sc_chunk SOPC_UA_INTERMEDIATE_CHUNK cid tok (next_SNsent n) rid x @ ?w"
    have "0 < length xs" using False by simp
    then have count: "length (pending (chunksCtx sc)) + 1 < unat (receiveMaxChunkCount (tcpMsgProperties sc))"
      and tot: "length (bodies (pending (chunksCtx sc))) + length x \<le> unat (receiveMaxMessageSize (tcpMsgProperties sc))"
      using Cons.prems(5,6) by (simp_all del: length_greater_0_conv)
    from chunk_step_intermediate [OF rx ex len count tot, of scIdx rid0 evs ?w] obtain b sc1 where
      s: "chunk_step env scIdx rid0 sc evs ?u = Some (Inr (rid, SOPC_GoodGenericStatus, sc1, evs, 24 + length x))"
      and p: "plain_receiver env sc1 cid tok (next_SNsent n)" "chunk_expected env sc1 (Some (pending (chunksCtx sc) @ [b])) True rid"
        "unread b = x" "tcpMsgProperties sc1 = tcpMsgProperties sc" by blast
    have pe: "pending (chunksCtx sc1) = pending (chunksCtx sc) @ [b]" using p(2) by (simp add: chunk_expected_def)
    have bo: "bodies (pending (chunksCtx sc1)) = bodies (pending (chunksCtx sc)) @ x" using pe p(3) by (simp add: bodies_def)
    have "?u \<noteq> []" by simp
    then have r: "recv_bytes env scIdx rid0 err sc evs ?u = recv_bytes env scIdx rid SOPC_GoodGenericStatus sc1 evs ?w"
      using rec [OF s] by simp
    have "\<forall>x \<in> set xs. 24 + length x \<le> unat (receiveBufferSize (tcpMsgProperties sc1))"
      "length (pending (chunksCtx sc1)) + length xs \<le> unat (receiveMaxChunkCount (tcpMsgProperties sc1))"
      "length (bodies (pending (chunksCtx sc1))) + length (concat xs) \<le> unat (receiveMaxMessageSize (tcpMsgProperties sc1))"
      "pending (chunksCtx sc1) = [] \<and> length xs = 1 \<or> bodies (pending (chunksCtx sc1)) @ concat xs \<noteq> []"
      using Cons.prems(4-7) p(4) pe bo False by auto
    from Cons.IH [OF p(1,2) False this, of rid SOPC_GoodGenericStatus] show ?thesis
      using r False bo p(4) by (simp add: funpow_swap1)
  qed
qed

end
