(* ===== verification/Chunks_Output.thy ===== *)
theory Chunks_Output
  imports Chunks_Plain
begin

text \<open>
  Sending without security: the bytes of each chunk that is handed to the socket layer, and the cut of a
  message into chunks.
\<close>

section \<open>Writing at a position\<close>

definition buf_at :: "SOPC_Buffer \<Rightarrow> byte list \<Rightarrow> nat \<Rightarrow> bool" where
  "buf_at b bs p \<longleftrightarrow> buf_wf b \<and> buf_bytes b = bs \<and> unat (position b) = p"

lemma buf_atD:
  assumes "buf_at b bs p"
  shows "buf_wf b" "buf_bytes b = bs" "unat (position b) = p" "unat (buf_length b) = length bs" "p \<le> length bs"
    "length bs \<le> unat (maximum_size b)" "length bs < 2 ^ 32"
  using assms length_buf_bytes [of b] unat_lt_u32 [of "buf_length b"] by (auto simp: buf_at_def elim!: buf_wfE)

definition poke :: "byte list \<Rightarrow> nat \<Rightarrow> byte list \<Rightarrow> byte list" where
  "poke bs p xs = take p bs @ xs @ drop (p + length xs) bs"

lemma at_write:
  assumes b: "buf_at b bs p" and fit: "p + length xs \<le> length bs" "unat c = length xs" and mem: "mem_total env"
  shows "\<exists>b'. SOPC_Buffer_Write env (Some b) (Some xs) c = Some (SOPC_STATUS_OK, Some b') \<and> buf_at b' (poke bs p xs) (p + length xs)"
proof -
  note d = buf_atD [OF b]
  have "unat (position b) + unat c \<le> unat (maximum_size b)" using d fit by simp
  then obtain b' where w: "SOPC_Buffer_Write env (Some b) (Some xs) c = Some (SOPC_STATUS_OK, Some b')" "buf_wf b'"
    "stream_of b' = stream_put (take (unat c) xs) (stream_of b)"
    using SOPC_Buffer_Write_ok [OF d(1) mem, of c xs] fit(2) by auto
  have "s_bytes (stream_of b') = poke bs p xs" "s_pos (stream_of b') = p + length xs"
    unfolding w(3) using fit(2) d by (simp_all add: stream_put_def poke_def)
  then show ?thesis using w(1,2) by (simp add: buf_at_def)
qed

lemma at_u32:
  assumes b: "buf_at b bs p" and fit: "p + 4 \<le> length bs" and mem: "mem_total env" "0 < max_level env"
  shows "\<exists>b'. SOPC_UInt32_Write env (Some v) (Some b) 0 = Some (SOPC_STATUS_OK, Some b') \<and> buf_at b' (poke bs p (le_bytes 4 (unat v))) (p + 4)"
  using at_write [OF b, of "le_bytes 4 (unat v)" 4 env] fit mem
  by (auto simp: SOPC_UInt32_Write_def enc_guard_def write_word_def on_error_def)

lemma at_position:
  assumes b: "buf_at b bs p" and q: "unat q \<le> length bs"
  shows "\<exists>b'. SOPC_Buffer_SetPosition (Some b) q = (SOPC_STATUS_OK, Some b') \<and> buf_at b' bs (unat q)"
proof -
  note d = buf_atD [OF b]
  have "q \<le> buf_length b" using q d by (simp add: u32_le_iff)
  then show ?thesis
    using d by (auto simp: SOPC_Buffer_SetPosition_def buf_at_def buf_wf_def buf_bytes_def split: option.splits)
qed

lemma length_poke [simp]: "p + length xs \<le> length bs \<Longrightarrow> length (poke bs p xs) = length bs"
  by (simp add: poke_def)

section \<open>The headers of a chunk\<close>

lemma EncodeTcpMsgHeader_ok:
  assumes b: "buf_at b bs 0" and len: "8 \<le> length bs" and mem: "mem_total (sc_enc env)" "0 < sc_level env"
  shows "\<exists>b'. SC_Chunks_EncodeTcpMsgHeader env SOPC_MSG_TYPE_SC_MSG fin err (Some b) = Some (True, err, Some b') \<and>
    buf_at b' (poke bs 0 (SOPC_MSG @ [fin] @ le_bytes 4 (length bs))) 8"
proof -
  have s3: "length SOPC_MSG = 3" by (simp add: SOPC_MSG_def)
  obtain b1 where b1: "SOPC_Buffer_Write (sc_enc env) (Some b) (Some SOPC_MSG) 3 = Some (SOPC_STATUS_OK, Some b1)"
    "buf_at b1 (poke bs 0 SOPC_MSG) 3"
    using at_write [OF b _ _ mem(1), of SOPC_MSG 3] len s3 by auto
  obtain b2 where b2: "SOPC_Buffer_Write (sc_enc env) (Some b1) (Some [fin]) 1 = Some (SOPC_STATUS_OK, Some b2)"
    "buf_at b2 (poke (poke bs 0 SOPC_MSG) 3 [fin]) 4"
    using at_write [OF b1(2) _ _ mem(1), of "[fin]" 1] len s3 by auto
  have len2: "unat (buf_length b2) = length bs" using buf_atD(4) [OF b2(2)] len s3 by simp
  then have sz: "(if buf_length b2 \<ge> SOPC_TCP_UA_HEADER_LENGTH then buf_length b2 else SOPC_TCP_UA_HEADER_LENGTH) = buf_length b2"
    using len by (simp add: u32_le_iff SOPC_TCP_UA_HEADER_LENGTH_def)
  obtain b3 where b3: "SOPC_UInt32_Write (sc_enc env) (Some (buf_length b2)) (Some b2) 0 = Some (SOPC_STATUS_OK, Some b3)"
    "buf_at b3 (poke (poke (poke bs 0 SOPC_MSG) 3 [fin]) 4 (le_bytes 4 (unat (buf_length b2)))) (4 + 4)"
    using at_u32 [OF b2(2) _ mem, of "buf_length b2"] len s3 by auto
  have "poke (poke (poke bs 0 SOPC_MSG) 3 [fin]) 4 (le_bytes 4 (length bs)) = poke bs 0 (SOPC_MSG @ [fin] @ le_bytes 4 (length bs))"
    using s3 len by (simp add: poke_def SOPC_MSG_def)
  then show ?thesis
    using b1(1) b2(1) b3 len2 sz
    by (simp add: SC_Chunks_EncodeTcpMsgHeader_def written_def write_message_size_def Let_def)
qed

section \<open>Sequence number and request identifier\<close>

definition request_id :: "SOPC_SecureConnection \<Rightarrow> u32 \<Rightarrow> u32" where
  "request_id sc h = (if isServerConnection sc then h else if clientNextReqId sc = 0 then 1 else clientNextReqId sc)"

definition numbered :: "bool \<Rightarrow> u32 \<Rightarrow> SOPC_SecureConnection \<Rightarrow> SOPC_SecureConnection" where
  "numbered final h sc =
     (let sc' = set_lastSNsent (next_SNsent (lastSNsent (tcpSeqProperties sc))) sc
      in if isServerConnection sc then sc'
         else sc'\<lparr>clientNextReqId := (if final then (request_id sc h + 1) mod -1 else request_id sc h)\<rparr>)"

lemma numbered_fields [simp]:
  "isServerConnection (numbered final h sc) = isServerConnection sc" "tcpMsgProperties (numbered final h sc) = tcpMsgProperties sc"
  "currentSecurityToken (numbered final h sc) = currentSecurityToken sc" "symmSecuMaxBodySize (numbered final h sc) = symmSecuMaxBodySize sc"
  "secureChannelConfigIdx (numbered final h sc) = secureChannelConfigIdx sc"
  "serverNewSecuTokenActive (numbered final h sc) = serverNewSecuTokenActive sc"
  "precedentSecurityToken (numbered final h sc) = precedentSecurityToken sc"
  "lastSNsent (tcpSeqProperties (numbered final h sc)) = next_SNsent (lastSNsent (tcpSeqProperties sc))"
  "sentRequestIds (tcpSeqProperties (numbered final h sc)) = sentRequestIds (tcpSeqProperties sc)"
  by (simp_all add: numbered_def set_lastSNsent_def Let_def)

lemma request_id_numbered [simp]: "request_id (numbered False h sc) h = request_id sc h"
  by (simp add: numbered_def request_id_def set_lastSNsent_def Let_def)

lemma protect_chunk_plain:
  assumes b: "buf_at b bs p" and len: "24 \<le> length bs" and mem: "mem_total (sc_enc env)" "0 < sc_level env"
  shows "\<exists>out. protect_chunk env True prev False False SOPC_UA_SYMMETRIC_SEQUENCE_HEADER_POSITION 0 final h err sc (Some b) =
      Some (True, err, request_id sc h, numbered final h sc, None, Some out) \<and>
    buf_at out (poke (poke bs 4 (le_bytes 4 (length bs))) 16
      (le_bytes 4 (unat (next_SNsent (lastSNsent (tcpSeqProperties sc)))) @ le_bytes 4 (unat (request_id sc h)))) (length bs)"
proof -
  let ?sn = "next_SNsent (lastSNsent (tcpSeqProperties sc))" and ?rid = "request_id sc h"
  obtain b1 where b1: "SOPC_Buffer_SetPosition (Some b) SOPC_UA_HEADER_MESSAGE_SIZE_POSITION = (SOPC_STATUS_OK, Some b1)" "buf_at b1 bs 4"
    using at_position [OF b, of SOPC_UA_HEADER_MESSAGE_SIZE_POSITION] len by (auto simp: protocol_lengths)
  have bl: "unat (buf_length b1) = length bs" using buf_atD [OF b1(2)] by simp
  obtain b2 where b2: "SOPC_UInt32_Write (sc_enc env) (Some (buf_length b1)) (Some b1) 0 = Some (SOPC_STATUS_OK, Some b2)"
    "buf_at b2 (poke bs 4 (le_bytes 4 (length bs))) (4 + 4)"
    using at_u32 [OF b1(2) _ mem, of "buf_length b1"] len bl by auto
  have e1: "SC_Chunks_EncodeMessageSize env sc True False SOPC_UA_SYMMETRIC_SEQUENCE_HEADER_POSITION 0 err (Some b1) = Some (True, err, 0, Some b2)"
    using b2(1) by (simp add: SC_Chunks_EncodeMessageSize_def written_def)
  have sp: "unat SOPC_UA_SYMMETRIC_SEQUENCE_HEADER_POSITION = 16" by (simp add: protocol_lengths)
  obtain b3 where b3: "SOPC_Buffer_SetPosition (Some b2) SOPC_UA_SYMMETRIC_SEQUENCE_HEADER_POSITION = (SOPC_STATUS_OK, Some b3)"
    "buf_at b3 (poke bs 4 (le_bytes 4 (length bs))) 16"
    using at_position [OF b2(2), of SOPC_UA_SYMMETRIC_SEQUENCE_HEADER_POSITION] len sp by auto
  obtain b4 where b4: "SOPC_UInt32_Write (sc_enc env) (Some ?sn) (Some b3) 0 = Some (SOPC_STATUS_OK, Some b4)"
    "buf_at b4 (poke (poke bs 4 (le_bytes 4 (length bs))) 16 (le_bytes 4 (unat ?sn))) (16 + 4)"
    using at_u32 [OF b3(2) _ mem, of ?sn] len by auto
  let ?sc1 = "set_lastSNsent ?sn sc"
  have e2: "SC_Chunks_EncodeSequenceNumber env SOPC_UA_SYMMETRIC_SEQUENCE_HEADER_POSITION err sc (Some b2) = Some (True, err, ?sc1, Some b4)"
    using b3(1) b4(1) by (simp add: SC_Chunks_EncodeSequenceNumber_def written_def Let_def)
  obtain b5 where b5: "SOPC_UInt32_Write (sc_enc env) (Some ?rid) (Some b4) 0 = Some (SOPC_STATUS_OK, Some b5)"
    "buf_at b5 (poke (poke (poke bs 4 (le_bytes 4 (length bs))) 16 (le_bytes 4 (unat ?sn))) 20 (le_bytes 4 (unat ?rid))) (20 + 4)"
    using at_u32 [OF b4(2) _ mem, of ?rid] len by auto
  have e3: "SC_Chunks_EncodeRequestId env final h err ?sc1 (Some b4) = Some (True, err, ?rid, numbered final h sc, Some b5)"
    using b5(1)
    by (simp add: SC_Chunks_EncodeRequestId_def written_def Let_def numbered_def request_id_def set_lastSNsent_def split: if_splits)
  define w where "w = poke (poke bs 4 (le_bytes 4 (length bs))) 16 (le_bytes 4 (unat ?sn) @ le_bytes 4 (unat ?rid))"
  have w: "poke (poke (poke bs 4 (le_bytes 4 (length bs))) 16 (le_bytes 4 (unat ?sn))) 20 (le_bytes 4 (unat ?rid)) = w"
    using len by (simp add: poke_def w_def)
  have lw: "length w = length bs" using len by (simp add: w_def)
  obtain b6 where b6: "SOPC_Buffer_SetPosition (Some b5) (buf_length b5) = (SOPC_STATUS_OK, Some b6)" "buf_at b6 w (length bs)"
    using at_position [OF b5(2), of "buf_length b5"] buf_atD(4) [OF b5(2)] w lw by auto
  show ?thesis
    using b1(1) e1 e2 e3 b6 unfolding w_def [symmetric] by (simp add: protect_chunk_def)
qed

section \<open>One chunk\<close>

definition request_recorded :: "sc_env \<Rightarrow> u32 \<Rightarrow> u32 \<Rightarrow> SOPC_SecureConnection \<Rightarrow> SOPC_SecureConnection" where
  "request_recorded env scIdx h sc =
     (if isServerConnection sc then numbered True h sc
      else set_sentRequestIds (sentRequestIds (tcpSeqProperties sc) @
             [(request_id sc h, \<lparr>timeoutExpired = False, scConnectionIdx = scIdx, requestHandle = h,
                msgType = SOPC_MSG_TYPE_SC_MSG, timerId = newTimerId env\<rparr>)]) (numbered True h sc))"

text \<open>A sender that uses its current token and no security.\<close>

definition plain_sender :: "sc_env \<Rightarrow> SOPC_SecureConnection \<Rightarrow> u32 \<Rightarrow> u32 \<Rightarrow> u32 \<Rightarrow> bool" where
  "plain_sender env sc cid tok n \<longleftrightarrow>
     sc_config env (isServerConnection sc) (secureChannelConfigIdx sc) = Some OpcUa_MessageSecurityMode_None \<and>
     secureChannelId (currentSecurityToken sc) = cid \<and> tokenId (currentSecurityToken sc) = tok \<and>
     \<not> (isServerConnection sc \<and> \<not> serverNewSecuTokenActive sc) \<and>
     lastSNsent (tcpSeqProperties sc) = n \<and> symmSecuMaxBodySize sc \<noteq> 0 \<and>
     mem_total (sc_enc env) \<and> 0 < sc_level env \<and> newTimerId env \<noteq> 0"

lemma TreatSendBuffer_plain:
  assumes tx: "plain_sender env sc cid tok n" and b: "buf_at b bs p" and len: "24 \<le> length bs"
    and body: "length bs - 24 \<le> unat (symmSecuMaxBodySize sc)"
    and fin: "fin = SOPC_UA_INTERMEDIATE_CHUNK \<or> fin = SOPC_UA_FINAL_CHUNK"
  shows "\<exists>out. SC_Chunks_TreatSendBufferMSGCLO env scIdx h SOPC_MSG_TYPE_SC_MSG fin err sc b =
      Some (True, err, if fin = SOPC_UA_FINAL_CHUNK then request_recorded env scIdx h sc else numbered False h sc, None, Some out) \<and>
    buf_wf out \<and> buf_bytes out = sc_chunk fin cid tok (next_SNsent n) (request_id sc h) (drop 24 bs)"
proof -
  note tx = tx [unfolded plain_sender_def]
  then have mem: "mem_total (sc_enc env)" "0 < sc_level env" by auto
  obtain b0 where b0: "SOPC_Buffer_SetPosition (Some b) 0 = (SOPC_STATUS_OK, Some b0)" "buf_at b0 bs 0"
    using at_position [OF b, of 0] by auto
  let ?h = "SOPC_MSG @ [fin] @ le_bytes 4 (length bs)"
  have hl: "length ?h = 8" by (simp add: SOPC_MSG_def)
  obtain b1 where b1: "SC_Chunks_EncodeTcpMsgHeader env SOPC_MSG_TYPE_SC_MSG fin err (Some b0) = Some (True, err, Some b1)"
    "buf_at b1 (poke bs 0 ?h) 8" using EncodeTcpMsgHeader_ok [OF b0(2) _ mem, of fin err] len by auto
  have l1: "length (poke bs 0 ?h) = length bs" using len hl by simp
  obtain b2 where b2: "SOPC_UInt32_Write (sc_enc env) (Some cid) (Some b1) 0 = Some (SOPC_STATUS_OK, Some b2)"
    "buf_at b2 (poke (poke bs 0 ?h) 8 (le_bytes 4 (unat cid))) (8 + 4)"
    using at_u32 [OF b1(2) _ mem, of cid] len l1 by auto
  have l2: "length (poke (poke bs 0 ?h) 8 (le_bytes 4 (unat cid))) = length bs" using l1 len by simp
  obtain b3 where b3: "SOPC_UInt32_Write (sc_enc env) (Some tok) (Some b2) 0 = Some (SOPC_STATUS_OK, Some b3)"
    "buf_at b3 (poke (poke (poke bs 0 ?h) 8 (le_bytes 4 (unat cid))) 12 (le_bytes 4 (unat tok))) (12 + 4)"
    using at_u32 [OF b2(2) _ mem, of tok] len l2 by auto
  define w where "w = poke (poke (poke bs 0 ?h) 8 (le_bytes 4 (unat cid))) 12 (le_bytes 4 (unat tok))"
  have lw: "length w = length bs" unfolding w_def using l2 len by simp
  obtain b4 where b4: "SOPC_Buffer_SetPosition (Some b3) (buf_length b3) = (SOPC_STATUS_OK, Some b4)" "buf_at b4 w (length bs)"
    using at_position [OF b3(2), of "buf_length b3"] buf_atD(4) [OF b3(2)] lw unfolding w_def by auto
  have small: "\<not> buf_length b2 - SOPC_UA_SYMMETRIC_SECURE_MESSAGE_HEADERS_LENGTH > symmSecuMaxBodySize sc"
  proof -
    have "unat (buf_length b2) = length bs" using buf_atD(4) [OF b2(2)] l2 by simp
    then have "unat (buf_length b2 - 24) = length bs - 24" using len by (simp add: unat_sub u32_le_iff)
    then show ?thesis using body by (simp add: u32_less_iff protocol_lengths)
  qed
  obtain out where out: "protect_chunk env True False False False SOPC_UA_SYMMETRIC_SEQUENCE_HEADER_POSITION 0
      (fin \<noteq> SOPC_UA_INTERMEDIATE_CHUNK) h err sc (Some b4) =
      Some (True, err, request_id sc h, numbered (fin \<noteq> SOPC_UA_INTERMEDIATE_CHUNK) h sc, None, Some out)"
    "buf_at out (poke (poke w 4 (le_bytes 4 (length w))) 16
      (le_bytes 4 (unat (next_SNsent n)) @ le_bytes 4 (unat (request_id sc h)))) (length w)"
    using protect_chunk_plain [OF b4(2) _ mem, of False "fin \<noteq> SOPC_UA_INTERMEDIATE_CHUNK" h err sc] lw len tx by auto
  have bytes: "poke (poke w 4 (le_bytes 4 (length w))) 16 (le_bytes 4 (unat (next_SNsent n)) @ le_bytes 4 (unat (request_id sc h))) =
      sc_chunk fin cid tok (next_SNsent n) (request_id sc h) (drop 24 bs)"
    using len lw by (simp add: poke_def w_def sc_chunk_def SOPC_MSG_def)
  have ne: "SOPC_UA_FINAL_CHUNK \<noteq> SOPC_UA_INTERMEDIATE_CHUNK" by (simp add: SOPC_UA_FINAL_CHUNK_def SOPC_UA_INTERMEDIATE_CHUNK_def)
  have modes: "SC_Chunks_IsMsgEncrypted OpcUa_MessageSecurityMode_None False = Some False" "\<not> SC_Chunks_IsMsgSigned OpcUa_MessageSecurityMode_None"
    by (simp_all add: SC_Chunks_IsMsgEncrypted_def SC_Chunks_IsMsgSigned_def)
  have "SC_Chunks_TreatSendBufferMSGCLO env scIdx h SOPC_MSG_TYPE_SC_MSG fin err sc b =
      Some (True, err, if fin = SOPC_UA_FINAL_CHUNK then request_recorded env scIdx h sc else numbered False h sc, None, Some out)"
    using tx b0(1) b1(1) b2(1) b3(1) b4(1) small out(1) fin ne modes
    by (auto simp: SC_Chunks_TreatSendBufferMSGCLO_def SC_Chunks_EncodeScMessageHeaderAdditionalField_def written_def sending_token_def
        write_token_id_def SOPC_Chunks_GetSignatureSize_EncodePadding_def SC_Chunks_CreateClientSentRequestContext_def
        request_recorded_def mem_total_def)
  then show ?thesis using out(2) bytes by (auto simp: buf_at_def)
qed

section \<open>The next chunk of a message\<close>

lemma unread_at: "buf_at b bs p \<Longrightarrow> unread b = drop p bs"
  by (simp add: buf_at_def unread_def stream_rest_def)

lemma buf_at_append:
  assumes b: "buf_at b bs (length bs)" and room: "length xs \<le> room b"
  shows "buf_at (buf_append xs b) (bs @ xs) (length bs)"
proof -
  note w = wf_append [OF buf_atD(1) [OF b] room]
  obtain d where d: "buf_data b = Some d" "length d = unat (current_size b)" "unat (buf_length b) \<le> unat (current_size b)"
    using buf_atD(1) [OF b] by (rule buf_wfE)
  have "take (unat (buf_length b)) d = bs" using b d by (simp add: buf_at_def buf_bytes_def)
  then have "buf_bytes (buf_append xs b) = bs @ xs"
    using w(2) d room buf_atD(4) [OF b] by (simp add: buf_bytes_def buf_append_def)
  then show ?thesis using w(1) b by (simp add: buf_at_def)
qed

lemma NextOutputChunk_plain:
  assumes mem: "mem_total (sc_enc env)" and m: "buf_wf m" "unread m = u"
    and room: "24 + unat (symmSecuMaxBodySize sc) \<le> unat (sendBufferSize (tcpMsgProperties sc))"
  defines "k \<equiv> min (length u) (unat (symmSecuMaxBodySize sc))"
  shows "\<exists>m' c bs. SC_Chunks_NextOutputChunkBuffer env sc err reason m None = Some (True, err, reason, m', Some c) \<and>
    buf_at c bs 0 \<and> length bs = 24 + k \<and> drop 24 bs = take k u \<and> buf_wf m' \<and> unread m' = drop k u"
proof -
  let ?R = "sendBufferSize (tcpMsgProperties sc)"
  have "?R \<noteq> 0" using room by auto
  then obtain b0 where b0: "SOPC_Buffer_Create (sc_enc env) ?R = Some b0" using Create_ok mem by blast
  note c0 = Create_spec [OF b0]
  obtain d where d: "buf_data b0 = Some d" "length d = unat ?R" using c0(1,5) by (auto elim!: buf_wfE)
  let ?b1 = "b0\<lparr>buf_length := 24\<rparr>" and ?b2 = "b0\<lparr>buf_length := 24, position := 24\<rparr>"
  have s1: "SOPC_Buffer_SetDataLength (Some b0) SOPC_UA_SYMMETRIC_SECURE_MESSAGE_HEADERS_LENGTH = Some (SOPC_STATUS_OK, Some ?b1)"
    using c0 d room by (cases b0) (simp add: SOPC_Buffer_SetDataLength_def protocol_lengths u32_le_iff)
  have s2: "SOPC_Buffer_SetPosition (Some ?b1) SOPC_UA_SYMMETRIC_SECURE_MESSAGE_HEADERS_LENGTH = (SOPC_STATUS_OK, Some ?b2)"
    using d by (simp add: SOPC_Buffer_SetPosition_def protocol_lengths)
  have a2: "buf_at ?b2 (take 24 d) (length (take 24 d))"
    using c0 d room by (auto simp: buf_at_def buf_wf_def buf_bytes_def u32_le_iff)
  have l24: "length (take 24 d) = 24" using d room by simp
  let ?n = "if buf_length m - position m < symmSecuMaxBodySize sc then buf_length m - position m else symmSecuMaxBodySize sc"
  have un: "unat ?n = k" using unat_remaining [OF m(1)] m(2) by (simp add: k_def u32_less_iff min_def)
  have u2: "unread ?b2 = []" using unread_at [OF a2] l24 by simp
  have room2: "k \<le> room ?b2" using room c0 by (simp add: k_def)
  have f: "fill_buffer (Some ?b2) (Some m) ?n 0 = Some (True, 0, Some (buf_append (take k u) ?b2), Some (buf_advance k m))"
    using fill_buffer_spec [OF buf_atD(1) [OF a2] m(1), of ?n 0] u2 un room2 m(2) by (simp add: k_def)
  have "length (take k u) \<le> room ?b2" using room2 by simp
  note a3 = buf_at_append [OF a2 this]
  obtain c where c: "SOPC_Buffer_SetPosition (Some (buf_append (take k u) ?b2)) 0 = (SOPC_STATUS_OK, Some c)" "buf_at c (take 24 d @ take k u) 0"
    using at_position [OF a3, of 0] by auto
  have "SC_Chunks_NextOutputChunkBuffer env sc err reason m None = Some (True, err, reason, buf_advance k m, Some c)"
    using b0 s1 s2 f c(1) by (simp add: SC_Chunks_NextOutputChunkBuffer_def Let_def)
  moreover have "buf_wf (buf_advance k m)" "unread (buf_advance k m) = drop k u"
    using m by (simp_all add: wf_advance unread_advance k_def)
  moreover have "length (take 24 d @ take k u) = 24 + k" "drop 24 (take 24 d @ take k u) = take k u" using l24 by (simp_all add: k_def)
  ultimately show ?thesis using c(2) by blast
qed

section \<open>The cut of a message\<close>

function cut_body :: "nat \<Rightarrow> byte list \<Rightarrow> byte list list" where
  "cut_body k u = (if u = [] \<or> k = 0 then [] else take k u # cut_body k (drop k u))"
  by pat_completeness auto
termination
  by (relation "measure (\<lambda>(k, u). length u)") auto

declare cut_body.simps [simp del]

lemma concat_cut_body: "k \<noteq> 0 \<Longrightarrow> concat (cut_body k u) = u"
  by (induction k u rule: cut_body.induct) (simp add: cut_body.simps)

lemma cut_body_size: "x \<in> set (cut_body k u) \<Longrightarrow> length x \<le> k"
proof (induction k u rule: cut_body.induct)
  case (1 k u)
  then show ?case by (auto simp: cut_body.simps [of k u] split: if_splits)
qed

lemma length_cut_body: "k \<noteq> 0 \<Longrightarrow> length (cut_body k u) = length u div k + (if length u mod k \<noteq> 0 then 1 else 0)"
proof (induction k u rule: cut_body.induct)
  case (1 k u)
  show ?case
  proof (cases "length u < k")
    case True
    then show ?thesis using 1(2) by (cases "u = []") (simp_all add: cut_body.simps [of k])
  next
    case False
    then have "length u div k = Suc ((length u - k) div k)" "length u mod k = (length u - k) mod k"
      using 1(2) by (simp_all add: div_if mod_if [of "length u"])
    moreover have "u \<noteq> []" using False 1(2) by auto
    ultimately show ?thesis using 1 by (simp add: cut_body.simps [of k u])
  qed
qed

section \<open>Sending a message\<close>

lemma plain_sender_numbered: "plain_sender env sc cid tok n \<Longrightarrow> plain_sender env (numbered False h sc) cid tok (next_SNsent n)"
  by (simp add: plain_sender_def)

definition sent_message :: "sc_env \<Rightarrow> u32 \<Rightarrow> u32 \<Rightarrow> nat \<Rightarrow> SOPC_SecureConnection \<Rightarrow> SOPC_SecureConnection" where
  "sent_message env scIdx h n sc = request_recorded env scIdx h ((numbered False h ^^ n) sc)"

lemma send_chunks_plain:
  assumes "plain_sender env sc cid tok n" "buf_at c bs p" "24 \<le> length bs" "length bs - 24 \<le> unat (symmSecuMaxBodySize sc)"
    "u = [] \<or> (\<exists>m. msgBuffer = Some m \<and> buf_wf m \<and> unread m = u)"
    "24 + unat (symmSecuMaxBodySize sc) \<le> unat (sendBufferSize (tcpMsgProperties sc)) \<or> u = []"
    "unat nb = unat k + Suc (length (cut_body (unat (symmSecuMaxBodySize sc)) u))"
  shows "\<exists>msgBuffer' outs. send_chunks env scIdx h SOPC_MSG_TYPE_SC_MSG nb (Suc (length (cut_body (unat (symmSecuMaxBodySize sc)) u)))
      k err reason sc msgBuffer (Some c) sent =
      Some (True, err, reason, sent_message env scIdx h (length (cut_body (unat (symmSecuMaxBodySize sc)) u)) sc, msgBuffer', sent @ outs) \<and>
    map buf_bytes outs = chunk_stream cid tok n (request_id sc h) (drop 24 bs # cut_body (unat (symmSecuMaxBodySize sc)) u) \<and>
    (\<forall>b \<in> set outs. buf_wf b)"
  using assms
proof (induction "length u" arbitrary: u sc n c bs p msgBuffer k sent rule: less_induct)
  case less
  define K where "K = unat (symmSecuMaxBodySize sc)"
  have K0: "K \<noteq> 0" using less.prems(1) by (simp add: plain_sender_def K_def unat_eq_zero)
  have ne: "SOPC_UA_INTERMEDIATE_CHUNK \<noteq> SOPC_UA_FINAL_CHUNK" by (simp add: SOPC_UA_FINAL_CHUNK_def SOPC_UA_INTERMEDIATE_CHUNK_def)
  let ?n = "length (cut_body K u)"
  have kb: "unat nb = unat k + Suc ?n" using less.prems(7) by (simp add: K_def)
  have k1: "unat (k + 1) = unat k + 1" using kb unat_lt_u32 [of nb] by (subst unat_add_u32) simp_all
  define fin where "fin = SC_Chunks_IsNextChunkIntermediateOrFinal nb k"
  have fin: "fin = (if ?n = 0 then SOPC_UA_FINAL_CHUNK else SOPC_UA_INTERMEDIATE_CHUNK)"
    using kb k1 by (simp add: fin_def SC_Chunks_IsNextChunkIntermediateOrFinal_def u32_less_iff)
  obtain out where out: "SC_Chunks_TreatSendBufferMSGCLO env scIdx h SOPC_MSG_TYPE_SC_MSG fin err sc c =
      Some (True, err, if fin = SOPC_UA_FINAL_CHUNK then request_recorded env scIdx h sc else numbered False h sc, None, Some out)"
    "buf_wf out" "buf_bytes out = sc_chunk fin cid tok (next_SNsent n) (request_id sc h) (drop 24 bs)"
    using TreatSendBuffer_plain [OF less.prems(1-4), of fin scIdx h err] fin by (cases "?n = 0") auto
  show ?case
  proof (cases "u = []")
    case True
    then have "cut_body K u = []" by (simp add: cut_body.simps)
    then show ?thesis
      using out fin True by (auto simp: K_def [symmetric] fin_def [symmetric] sent_message_def intro: exI [of _ "[out]"])
  next
    case False
    then obtain m where m: "msgBuffer = Some m" "buf_wf m" "unread m = u" using less.prems(5) by blast
    have cutu: "cut_body K u = take K u # cut_body K (drop K u)" using False K0 by (simp add: cut_body.simps [of K u])
    then have fi: "fin = SOPC_UA_INTERMEDIATE_CHUNK" "fin \<noteq> SOPC_UA_FINAL_CHUNK" using fin ne by simp_all
    let ?sc = "numbered False h sc" and ?u = "drop K u"
    have room: "24 + unat (symmSecuMaxBodySize ?sc) \<le> unat (sendBufferSize (tcpMsgProperties ?sc))" using less.prems(6) False by simp
    obtain m' c' bs' where nx: "SC_Chunks_NextOutputChunkBuffer env ?sc err reason m None = Some (True, err, reason, m', Some c')"
      "buf_at c' bs' 0" "length bs' = 24 + min (length u) K" "drop 24 bs' = take K u" "buf_wf m'" "unread m' = ?u"
      using NextOutputChunk_plain [OF _ m(2,3) room, of env err reason] less.prems(1)
      by (auto simp: plain_sender_def K_def [symmetric] min_def split: if_splits)
    have lt: "length ?u < length u" using False K0 by simp
    have q: "24 \<le> length bs'" "length bs' - 24 \<le> unat (symmSecuMaxBodySize ?sc)"
      "?u = [] \<or> (\<exists>m. Some m' = Some m \<and> buf_wf m \<and> unread m = ?u)"
      "24 + unat (symmSecuMaxBodySize ?sc) \<le> unat (sendBufferSize (tcpMsgProperties ?sc)) \<or> ?u = []"
      "unat nb = unat (k + 1) + Suc (length (cut_body (unat (symmSecuMaxBodySize ?sc)) ?u))"
      using nx(3,5,6) room kb k1 cutu by (simp_all add: K_def)
    note ih = less.hyps [OF lt plain_sender_numbered [OF less.prems(1), of h] nx(2) q, where sent = "sent @ [out]"]
    obtain msgBuffer' outs where r: "send_chunks env scIdx h SOPC_MSG_TYPE_SC_MSG nb (Suc (length (cut_body K ?u)))
        (k + 1) err reason ?sc (Some m') (Some c') (sent @ [out]) =
        Some (True, err, reason, sent_message env scIdx h (length (cut_body K ?u)) ?sc, msgBuffer', (sent @ [out]) @ outs)"
      "map buf_bytes outs = chunk_stream cid tok (next_SNsent n) (request_id ?sc h) (drop 24 bs' # cut_body K ?u)"
      "\<forall>b \<in> set outs. buf_wf b"
      using ih [unfolded numbered_fields, folded K_def] by blast
    have "send_chunks env scIdx h SOPC_MSG_TYPE_SC_MSG nb (Suc ?n) k err reason sc msgBuffer (Some c) sent =
        Some (True, err, reason, sent_message env scIdx h ?n sc, msgBuffer', sent @ out # outs)"
      using out(1) fi nx(1) r(1) m(1) cutu by (simp add: fin_def [symmetric] sent_message_def funpow_swap1)
    moreover have "map buf_bytes (out # outs) = chunk_stream cid tok n (request_id sc h) (drop 24 bs # cut_body K u)"
      using out(3) r(2) nx(4) fi cutu by simp
    ultimately show ?thesis using out(2) r(3) unfolding K_def [symmetric] by (intro exI [of _ msgBuffer'] exI [of _ "out # outs"]) simp
  qed
qed

text \<open>The bodies of the chunks of a message.\<close>

definition message_bodies :: "SOPC_SecureConnection \<Rightarrow> byte list \<Rightarrow> byte list list" where
  "message_bodies sc body =
     (let k = unat (symmSecuMaxBodySize sc) in if length body \<le> k then [body] else cut_body k body)"

lemma message_bodies_props:
  assumes "symmSecuMaxBodySize sc \<noteq> 0"
  shows "concat (message_bodies sc body) = body" "message_bodies sc body \<noteq> []"
    "x \<in> set (message_bodies sc body) \<Longrightarrow> length x \<le> unat (symmSecuMaxBodySize sc)"
proof -
  have k: "unat (symmSecuMaxBodySize sc) \<noteq> 0" using assms by (simp add: unat_eq_zero)
  then show c: "concat (message_bodies sc body) = body" by (simp add: message_bodies_def Let_def concat_cut_body)
  show "message_bodies sc body \<noteq> []"
  proof (cases "body = []")
    case True
    then show ?thesis by (simp add: message_bodies_def)
  next
    case False
    then show ?thesis using c by auto
  qed
  show "length x \<le> unat (symmSecuMaxBodySize sc)" if "x \<in> set (message_bodies sc body)"
    using that cut_body_size by (auto simp: message_bodies_def Let_def split: if_splits)
qed

text \<open>The limits the peer announced on the size of a message and on the number of its chunks.\<close>

definition within_limits :: "SOPC_SecureConnection \<Rightarrow> byte list \<Rightarrow> bool" where
  "within_limits sc body \<longleftrightarrow>
     (sendMaxMessageSize (tcpMsgProperties sc) = 0 \<or> length body \<le> unat (sendMaxMessageSize (tcpMsgProperties sc))) \<and>
     (length (message_bodies sc body) = 1 \<or> sendMaxChunkCount (tcpMsgProperties sc) = 0 \<or>
      length (message_bodies sc body) \<le> unat (sendMaxChunkCount (tcpMsgProperties sc)))"

text \<open>The number of chunks is the number of pieces, computed in 32 bits.\<close>

lemma ComputeNbChunks_exact:
  assumes K: "symmSecuMaxBodySize sc \<noteq> 0" and l: "unat l = length body" and w: "within_limits sc body"
  shows "\<exists>nb. SC_Chunks_ComputeNbChunksToSend sc SOPC_MSG_TYPE_SC_MSG l err = Some (True, err, nb) \<and>
    unat nb = length (message_bodies sc body)"
proof (cases "length body \<le> unat (symmSecuMaxBodySize sc)")
  case True
  then have "l \<le> symmSecuMaxBodySize sc" using l by (simp add: u32_le_iff)
  then show ?thesis
    using w l True by (auto simp: SC_Chunks_ComputeNbChunksToSend_def within_limits_def message_bodies_def Let_def u32_le_iff)
next
  case False
  let ?K = "symmSecuMaxBodySize sc"
  let ?nb = "l div ?K + (if l mod ?K \<noteq> 0 then 1 else 0)"
  have k: "unat ?K \<noteq> 0" using K by (simp add: unat_eq_zero)
  have big: "\<not> l \<le> ?K" using False l by (simp add: u32_le_iff)
  have m: "message_bodies sc body = cut_body (unat ?K) body" using False by (simp add: message_bodies_def)
  have z: "l mod ?K = 0 \<longleftrightarrow> length body mod unat ?K = 0" by (simp add: l [symmetric] flip: unat_mod unat_eq_zero)
  have nb: "unat ?nb = length (message_bodies sc body)"
  proof (cases "l mod ?K = 0")
    case True
    then show ?thesis using z k l by (simp add: m length_cut_body unat_div)
  next
    case False
    have "unat ?K \<noteq> 1" using False z by auto
    then have "2 \<le> unat ?K" using k by simp
    then have "unat l div unat ?K \<le> unat l div 2" by (rule div_le_mono2 [rotated]) simp
    then have "unat (l div ?K + 1) = unat l div unat ?K + 1"
      using unat_lt_u32 [of l] by (subst unat_add_u32) (simp_all add: unat_div)
    then show ?thesis using False z k l by (simp add: m length_cut_body)
  qed
  have "sendMaxChunkCount (tcpMsgProperties sc) = 0 \<or> ?nb \<le> sendMaxChunkCount (tcpMsgProperties sc)"
    using w nb unat_gt_0 [of "sendMaxChunkCount (tcpMsgProperties sc)"] by (auto simp: within_limits_def u32_le_iff)
  then have "SC_Chunks_ComputeNbChunksToSend sc SOPC_MSG_TYPE_SC_MSG l err = Some (True, err, ?nb)"
    using w l big K by (auto simp: SC_Chunks_ComputeNbChunksToSend_def within_limits_def Let_def u32_le_iff)
  then show ?thesis using nb by blast
qed

lemma TreatSendMessage_plain:
  assumes tx: "plain_sender env sc cid tok n" and b: "buf_at b bs p" "24 \<le> length bs" and w: "within_limits sc (drop 24 bs)"
    and room: "24 + unat (symmSecuMaxBodySize sc) \<le> unat (sendBufferSize (tcpMsgProperties sc))"
  shows "\<exists>outs. SC_Chunks_TreatSendMessageBuffer env scIdx h SOPC_MSG_TYPE_SC_MSG False False err sc b =
      Some (True, True, err, sent_message env scIdx h (length (message_bodies sc (drop 24 bs)) - 1) sc, outs) \<and>
    map buf_bytes outs = chunk_stream cid tok n (request_id sc h) (message_bodies sc (drop 24 bs)) \<and>
    (\<forall>b \<in> set outs. buf_wf b)"
proof -
  let ?K = "unat (symmSecuMaxBodySize sc)" and ?body = "drop 24 bs"
  have K0: "symmSecuMaxBodySize sc \<noteq> 0" and mem: "mem_total (sc_enc env)" using tx by (auto simp: plain_sender_def)
  have k: "?K \<noteq> 0" using K0 by (simp add: unat_eq_zero)
  have h24: "unat SOPC_UA_SYMMETRIC_SECURE_MESSAGE_HEADERS_LENGTH = 24" by (simp add: protocol_lengths)
  obtain b0 where b0: "SOPC_Buffer_SetPosition (Some b) 0 = (SOPC_STATUS_OK, Some b0)" "buf_at b0 bs 0"
    using at_position [OF b(1), of 0] by auto
  obtain m where m: "SOPC_Buffer_SetPosition (Some b0) SOPC_UA_SYMMETRIC_SECURE_MESSAGE_HEADERS_LENGTH = (SOPC_STATUS_OK, Some m)" "buf_at m bs 24"
    using at_position [OF b0(2), of SOPC_UA_SYMMETRIC_SECURE_MESSAGE_HEADERS_LENGTH] b(2) h24 by auto
  note um = unread_at [OF m(2)] and wm = buf_atD(1) [OF m(2)]
  have l: "unat (buf_length m - position m) = length ?body" using unat_remaining [OF wm] um by simp
  obtain nb where nb: "SC_Chunks_ComputeNbChunksToSend sc SOPC_MSG_TYPE_SC_MSG (buf_length m - position m) err = Some (True, err, nb)"
    "unat nb = length (message_bodies sc ?body)" using ComputeNbChunks_exact [OF K0 l w] by blast
  have whole: "SC_Chunks_TreatSendMessageBuffer env scIdx h SOPC_MSG_TYPE_SC_MSG False False err sc b =
      Some (True, True, err, sc', outs)"
    if "(if nb = 1 then do {
           let (st, b) = SOPC_Buffer_SetPosition (Some m) 0;
           if st = SOPC_STATUS_OK
           then send_chunks env scIdx h SOPC_MSG_TYPE_SC_MSG nb (unat nb) 0 err not_enough_reason sc None b []
           else None }
         else if nb > 0 then do {
           (ok, err, reason, m, chunk) \<leftarrow> SC_Chunks_NextOutputChunkBuffer env sc err not_enough_reason m None;
           if ok then send_chunks env scIdx h SOPC_MSG_TYPE_SC_MSG nb (unat nb) 0 err reason sc (Some m) chunk []
           else Some (False, err, reason, sc, Some m, []) }
         else None) = Some (True, err, reason, sc', mb, outs)" for reason sc' mb outs
    using b0(1) m(1) nb(1) that by (simp add: SC_Chunks_TreatSendMessageBuffer_def send_symmetric_message_def Let_def)
  show ?thesis
  proof (cases "length ?body \<le> ?K")
    case True
    then have one: "message_bodies sc ?body = [?body]" by (simp add: message_bodies_def)
    then have nb1: "nb = 1" using nb(2) by (simp add: word_unat_eq_iff)
    obtain c where c: "SOPC_Buffer_SetPosition (Some m) 0 = (SOPC_STATUS_OK, Some c)" "buf_at c bs 0"
      using at_position [OF m(2), of 0] by auto
    have "cut_body ?K [] = []" by (simp add: cut_body.simps)
    then obtain mb outs where s: "send_chunks env scIdx h SOPC_MSG_TYPE_SC_MSG nb 1 0 err not_enough_reason sc None (Some c) [] =
        Some (True, err, not_enough_reason, sent_message env scIdx h 0 sc, mb, outs)"
      "map buf_bytes outs = chunk_stream cid tok n (request_id sc h) [?body]" "\<forall>b \<in> set outs. buf_wf b"
      using send_chunks_plain [OF tx c(2) b(2), where u = "[]" and k = 0 and nb = nb and msgBuffer = None and sent = "[]"
          and scIdx = scIdx and h = h and err = err and reason = not_enough_reason] True nb1
      by (fastforce simp del: send_chunks.simps)
    then show ?thesis using whole [of not_enough_reason _ mb outs] nb1 c(1) one by (simp del: send_chunks.simps)
  next
    case False
    then have many: "message_bodies sc ?body = take ?K ?body # cut_body ?K (drop ?K ?body)"
      using k cut_body.simps [of ?K ?body] by (auto simp: message_bodies_def Let_def)
    obtain m' c bs' where nx: "SC_Chunks_NextOutputChunkBuffer env sc err not_enough_reason m None =
        Some (True, err, not_enough_reason, m', Some c)"
      "buf_at c bs' 0" "length bs' = 24 + ?K" "drop 24 bs' = take ?K ?body" "buf_wf m'" "unread m' = drop ?K ?body"
      using NextOutputChunk_plain [OF mem wm um room, of err not_enough_reason] False by (auto simp: min_def)
    have more: "cut_body ?K (drop ?K ?body) \<noteq> []" using False k concat_cut_body [of ?K "drop ?K ?body"] by auto
    have nbn: "unat nb = Suc (length (cut_body ?K (drop ?K ?body)))" using nb(2) many by simp
    have q: "24 \<le> length bs'" "length bs' - 24 \<le> ?K"
      "drop ?K ?body = [] \<or> (\<exists>x. Some m' = Some x \<and> buf_wf x \<and> unread x = drop ?K ?body)"
      "24 + ?K \<le> unat (sendBufferSize (tcpMsgProperties sc)) \<or> drop ?K ?body = []"
      "unat nb = unat (0 :: u32) + Suc (length (cut_body ?K (drop ?K ?body)))" using nx(3,5,6) room nbn by auto
    from send_chunks_plain [OF tx nx(2) q, where sent = "[]" and scIdx = scIdx and h = h and err = err and reason = not_enough_reason]
    obtain mb outs where s: "send_chunks env scIdx h SOPC_MSG_TYPE_SC_MSG nb (unat nb) 0 err not_enough_reason sc (Some m') (Some c) [] =
        Some (True, err, not_enough_reason, sent_message env scIdx h (length (cut_body ?K (drop ?K ?body))) sc, mb, outs)"
      "map buf_bytes outs = chunk_stream cid tok n (request_id sc h) (message_bodies sc ?body)" "\<forall>b \<in> set outs. buf_wf b"
      unfolding many nx(4) nbn [symmetric] append_Nil by blast
    have "nb \<noteq> 1" "nb > 0" using nbn more by (auto simp: u32_less_iff)
    then show ?thesis using whole [of not_enough_reason _ mb outs] s nx(1) many by (simp del: send_chunks.simps)
  qed
qed

end
