(* ===== verification/Chunks_Properties.thy ===== *)
theory Chunks_Properties
  imports Chunks_Output
begin

text \<open>
  The properties of the reception of chunks: the treatment of a packet is memory safe and returns, messages
  cut across packets are put together again, and one of the assertions that received bytes can reach.
\<close>

section \<open>The treatment of a packet\<close>

abbreviation failure_event :: "u32 \<Rightarrow> SOPC_StatusCode \<Rightarrow> SOPC_LooperEvent" where
  "failure_event scIdx err \<equiv> \<lparr>le_event = INT_SC_RCV_FAILURE, le_eltId = scIdx, le_params = None, le_auxParam = err\<rparr>"

abbreviation clear_chunks :: "SOPC_SecureConnection \<Rightarrow> SOPC_SecureConnection" where
  "clear_chunks sc \<equiv> set_ctx (SOPC_ScInternalContext_ClearInputChunksContext (chunksCtx sc)) sc"

definition packet_result ::
  "u32 \<Rightarrow> SOPC_LooperEvent list \<Rightarrow> bool \<times> SOPC_StatusCode \<times> SOPC_SecureConnection \<times> SOPC_LooperEvent list \<Rightarrow>
   SOPC_SecureConnection \<times> SOPC_LooperEvent list" where
  "packet_result scIdx queue r =
     (case r of (ok, err, sc, evs) \<Rightarrow> if ok then (sc, evs @ queue) else (clear_chunks sc, failure_event scIdx err # queue))"

lemma enqueue_as_next_append: "enqueue_as_next evs queue = evs @ queue"
  unfolding enqueue_as_next_def by (induction evs arbitrary: queue rule: rev_induct) simp_all

lemma TreatReceivedBuffer_bytes:
  assumes "rx_inv sc" "0 < sc_level env" "crypto_laws env" "modes_valid env" "buf_wf rb" "position rb = 0"
  shows "SC_Chunks_TreatReceivedBuffer env scIdx sc rb queue =
    map_option (packet_result scIdx queue)
      (if mem_ok (sc_enc env) sizeof_list then recv_bytes env scIdx 0 SOPC_GoodGenericStatus sc [] (unread rb)
       else Some (False, OpcUa_BadOutOfMemory, sc, []))"
proof (cases "mem_ok (sc_enc env) sizeof_list")
  case True
  then show ?thesis
    using assms(6) receive_loop_bytes [OF assms(1-5), of scIdx 0 SOPC_GoodGenericStatus "[]", symmetric]
    by (cases "receive_loop env scIdx 0 SOPC_GoodGenericStatus sc [] rb")
      (auto simp: SC_Chunks_TreatReceivedBuffer_def packet_result_def enqueue_as_next_append
        split: prod.splits)
next
  case False
  then show ?thesis
    using assms(6) by (simp add: SC_Chunks_TreatReceivedBuffer_def packet_result_def enqueue_as_next_append)
qed

lemma recv_err: "u \<noteq> [] \<Longrightarrow> recv_bytes env scIdx rid err sc evs u = recv_bytes env scIdx rid err' sc evs u"
  by (simp add: recv_bytes.simps [of env scIdx rid _ sc evs u])

section \<open>Events of a successful reception\<close>

definition failed :: "SOPC_LooperEvent list \<Rightarrow> bool" where
  "failed evs \<longleftrightarrow> INT_SC_RCV_FAILURE \<in> le_event ` set evs"

lemma failed_simps [simp]:
  "\<not> failed []" "failed (e # evs) \<longleftrightarrow> le_event e = INT_SC_RCV_FAILURE \<or> failed evs"
  "failed (evs @ evs') \<longleftrightarrow> failed evs \<or> failed evs'"
  by (auto simp: failed_def)

lemma deliver_not_failed:
  "deliver_message env scIdx rid e err sc evs = Some (ok, err', sc', evs') \<Longrightarrow> \<not> failed evs \<Longrightarrow> \<not> failed evs'"
  by (auto simp: deliver_message_def SC_Chunks_MsgTypeToRcvEvent_def Let_def bind_eq_Some_conv
      split: if_splits option.splits SOPC_Msg_Type.splits)

lemma chunk_step_not_failed:
  "chunk_step env scIdx rid sc evs u = Some (Inr (rid', err', sc', evs', k)) \<Longrightarrow> \<not> failed evs \<Longrightarrow> \<not> failed evs'"
  "chunk_step env scIdx rid sc evs u = Some (Inl (ok, err', sc', evs')) \<Longrightarrow> \<not> failed evs \<Longrightarrow> \<not> failed evs'"
  by (auto simp: chunk_step_def bind_eq_Some_conv dest: deliver_not_failed split: if_splits option.splits prod.splits)

lemma recv_not_failed:
  "recv_bytes env scIdx rid err sc evs u = Some (ok, err', sc', evs') \<Longrightarrow> \<not> failed evs \<Longrightarrow> \<not> failed evs'"
proof (induction env scIdx rid err sc evs u rule: recv_bytes.induct)
  case (1 env scIdx rid err sc evs u)
  note rec = 1(2) [unfolded recv_bytes.simps [of env scIdx rid err sc evs u]]
  show ?case
  proof (cases "u = []")
    case True
    then show ?thesis using rec 1(3) by simp
  next
    case False
    then obtain r where r: "chunk_step env scIdx rid sc evs u = Some r" using rec by (auto split: option.splits)
    show ?thesis
    proof (cases r)
      case (Inl x)
      then show ?thesis using rec r False 1(3) chunk_step_not_failed(2) by (cases x) (auto split: if_splits)
    next
      case (Inr x)
      then obtain a b c d k where s: "r = Inr (a, b, c, d, k)" by (metis prod_cases5)
      then have k: "k \<noteq> 0" "recv_bytes env scIdx a b c d (drop k u) = Some (ok, err', sc', evs')"
        using rec r False by (simp_all split: if_splits)
      show ?thesis
        using 1(1) [OF False r s refl refl refl refl k(1) k(2)] chunk_step_not_failed(1) 1(3) r s by blast
    qed
  qed
qed

section \<open>A connection without security\<close>

definition plain_enc :: enc_env where
  "plain_enc = \<lparr>mem_ok = (\<lambda>_. True), mem_fill = (\<lambda>_. 170), enc_cfg = SOPC_Common_GetDefaultEncodingConstants,
     nanf_bits = 0x7fc00000, nan_bits = 0x7ff8000000000000, size_max = 18446744073709551615\<rparr>"

definition plain_env :: sc_env where
  "plain_env = \<lparr>sc_enc = plain_enc, sc_config = (\<lambda>_ _. Some OpcUa_MessageSecurityMode_None), currentTimeRef = 5, newTimerId = 1,
     symmLenDecryption = Some, symmDecrypt = (\<lambda>c k iv. Some c), symmLenSignature = Some 4,
     symmVerify = (\<lambda>m k s. s = k), symmBlocks = Some (1, 1), symmLenEncryption = Some,
     symmEncrypt = (\<lambda>p k iv. Some p), symmSign = (\<lambda>m k. Some k),
     asymLenDecryption = Some, asymDecrypt = Some, asymLenPeerSignature = Some 0, asymVerify = (\<lambda>m s. False),
     asymBlocks = Some (1, 1), asymLenOwnSignature = Some 0, asymLenEncryption = Some, asymEncrypt = Some,
     asymSign = (\<lambda>m. Some []), ownPublicKey = True, peerPublicKey = True, ownCertificateDER = None, peerThumbprint = None,
     reqSecuPolicyUri = Some [78, 0], checkAsymHeader = (\<lambda>sc. Some (True, False, 0, sc))\<rparr>"

definition plain_ctx :: SOPC_SecureConnection_ChunkMgrCtx where
  "plain_ctx = \<lparr>currentChunkInputBuffer = None, currentMsgSize = 0, currentMsgType = SOPC_MSG_TYPE_INVALID,
     currentMsgIsFinal = SOPC_MSG_ISFINAL_INVALID, intermediateChunksInputBuffers = None, hasCurrentMsgRequestId = False,
     currentMsgRequestId = 0, currentMessageInputBuffer = None\<rparr>"

definition plain_tcp :: SOPC_SecureConnection_TcpProperties where
  "plain_tcp = \<lparr>protocolVersion = 0, receiveBufferSize = 40, sendBufferSize = 40, receiveMaxMessageSize = 100,
     sendMaxMessageSize = 100, receiveMaxChunkCount = 4, sendMaxChunkCount = 4\<rparr>"

definition plain_token :: SOPC_SecureConnection_SecurityToken where
  "plain_token = \<lparr>secureChannelId = 7, tokenId = 3, createdAt = 0, lifetimeEndTimeRef = 1000, revisedLifetime = 1000\<rparr>"

definition plain_keys :: SOPC_SC_SecurityKeySets where
  "plain_keys = \<lparr>senderKeySet = None, receiverKeySet = None\<rparr>"

text \<open>The server side of a connection on which messages up to sequence number 10 have been received.\<close>

definition plain_server :: SOPC_SecureConnection where
  "plain_server = \<lparr>chunksCtx = plain_ctx,
     tcpSeqProperties = \<lparr>lastSNsent = 10, lastSNreceived = 10, sentRequestIds = []\<rparr>,
     asymmSecuMaxBodySize = 16, symmSecuMaxBodySize = 16, hasExtraPaddingSize = False, clientSecureChannelId = 0,
     clientNextReqId = 0, sc_state = SECURE_CONNECTION_STATE_SC_CONNECTED, secureChannelConfigIdx = 1,
     tcpMsgProperties = plain_tcp, precedentSecurityToken = plain_token, precedentSecuKeySets = plain_keys,
     currentSecurityToken = plain_token, currentSecuKeySets = plain_keys, serverNewSecuTokenActive = True,
     isServerConnection = True, has_privateKey = False\<rparr>"

lemmas plain_defs = plain_env_def plain_enc_def plain_ctx_def plain_tcp_def plain_token_def plain_keys_def plain_server_def

definition packet :: "byte list \<Rightarrow> SOPC_Buffer" where
  "packet bs = \<lparr>initial_size = of_nat (length bs), current_size = of_nat (length bs), maximum_size = of_nat (length bs),
     position = 0, buf_length = of_nat (length bs), buf_data = Some bs\<rparr>"

text \<open>A chunk of a message: final or intermediate, with its sequence number, of request 9.\<close>

definition plain_chunk :: "byte \<Rightarrow> byte \<Rightarrow> byte list \<Rightarrow> byte list" where
  "plain_chunk fin sn body =
     [77, 83, 71, fin, of_nat (24 + length body), 0, 0, 0, 7, 0, 0, 0, 3, 0, 0, 0, sn, 0, 0, 0, 9, 0, 0, 0] @ body"

lemma plain_fields [simp]:
  "sc_enc plain_env = plain_enc" "mem_total plain_enc" "mem_ok plain_enc n" "chunksCtx plain_server = plain_ctx"
  "tcpMsgProperties plain_server = plain_tcp" "receiveBufferSize plain_tcp = 40"
  "currentChunkInputBuffer plain_ctx = None" "currentMsgSize plain_ctx = 0"
  by (simp_all add: plain_defs mem_total_def)

lemma plain_laws: "crypto_laws plain_env"
proof -
  have "\<exists>ok active err n. checkAsymHeader plain_env sc = Some (ok, active, err, set_chunk (Some (buf_advance n b)) sc) \<and>
      n \<le> length (unread b)"
    if "currentChunkInputBuffer (chunksCtx sc) = Some b" for sc b
  proof -
    have "set_chunk (Some (buf_advance 0 b)) sc = sc"
      using that by (cases sc; cases "chunksCtx sc") (simp add: set_chunk_def buf_advance_def)
    then show ?thesis by (intro exI [of _ True] exI [of _ False] exI [of _ 0]) (simp add: plain_env_def)
  qed
  then show ?thesis by (auto simp: crypto_laws_def) (auto simp: plain_env_def unat_of_nat_u32 split: if_splits)
qed

lemma plain_env_ok: "0 < sc_level plain_env" "crypto_laws plain_env" "modes_valid plain_env" "mem_ok (sc_enc plain_env) n"
  by (simp_all add: plain_laws) (simp_all add: plain_env_def plain_enc_def SOPC_Common_GetDefaultEncodingConstants_def modes_valid_def)

lemma plain_server_inv: "rx_inv plain_server"
  by (simp add: rx_inv_def tcp_limits_def chunk_inv_def ctx_fresh_def pending_ok_def pending_def bodies_def plain_defs)

lemma packet_ok: "length bs < 2 ^ 32 \<Longrightarrow> buf_wf (packet bs)" "position (packet bs) = 0"
  "length bs < 2 ^ 32 \<Longrightarrow> unread (packet bs) = bs"
  by (simp_all add: packet_def buf_wf_def unread_def stream_of_def stream_rest_def buf_bytes_def unat_of_nat_u32)

text \<open>The first bytes of a header wait for the others.\<close>

lemma plain_start:
  "\<exists>sc. recv_bytes plain_env 1 0 SOPC_GoodGenericStatus plain_server [] [77, 83, 71] = Some (True, SOPC_GoodGenericStatus, sc, [])"
proof -
  obtain b where b: "SOPC_Buffer_Create plain_enc 40 = Some b" using Create_ok [of plain_enc 40] by auto
  have "chunk_step plain_env 1 0 plain_server [] [77, 83, 71] =
      Some (Inl (True, SOPC_GoodGenericStatus, set_ctx (plain_ctx\<lparr>currentChunkInputBuffer := Some (buf_append [77, 83, 71] b)\<rparr>) plain_server, []))"
    using Create_spec [OF b] b wf_append [of b "[77, 83, 71]"] by (simp add: chunk_step_def chunk_buffer_def decode_bytes_def)
  then show ?thesis by (simp add: recv_bytes.simps [of plain_env 1 0 _ plain_server])
qed

section \<open>Properties\<close>

lemma prefix_packet:
  assumes "buf_wf rb" "position rb = 0" "unread rb = v @ w"
  shows "buf_wf (rb\<lparr>buf_length := of_nat (length v)\<rparr>)" "unread (rb\<lparr>buf_length := of_nat (length v)\<rparr>) = v"
    "of_nat (length v) \<le> buf_length rb"
proof -
  from assms(1) obtain d where d: "buf_data rb = Some d" "length d = unat (current_size rb)"
    "unat (buf_length rb) \<le> unat (current_size rb)" by (rule buf_wfE)
  have len: "unat (buf_length rb) = length v + length w" using length_unread [OF assms(1)] assms(2,3) by simp
  then have n: "unat (of_nat (length v) :: u32) = length v"
    using unat_lt_u32 [of "buf_length rb"] by (intro unat_of_nat_u32) simp
  show "of_nat (length v) \<le> buf_length rb" using n len by (simp add: u32_le_iff)
  then show "buf_wf (rb\<lparr>buf_length := of_nat (length v)\<rparr>)" 
    using assms(1,2) order_trans by (fastforce simp: buf_wf_def split: option.splits)
  have "take (length v + length w) d = v @ w"
    using assms(2,3) d len by (simp add: unread_def stream_of_def stream_rest_def buf_bytes_def)
  then have "take (length v) (take (length v + length w) d) = v" by simp
  then have "take (length v) d = v" by (simp only: take_take) simp
  then show "unread (rb\<lparr>buf_length := of_nat (length v)\<rparr>) = v"
    using d(1) n assms(2) by (simp add: unread_def stream_of_def stream_rest_def buf_bytes_def)
qed

text \<open>The connection behind the decoding of a packet that completes a chunk.\<close>

definition decoded_chunk :: "sc_env \<Rightarrow> SOPC_SecureConnection \<Rightarrow> SOPC_Buffer \<Rightarrow> SOPC_SecureConnection \<Rightarrow> bool" where
  "decoded_chunk env sc rb sc' \<longleftrightarrow> (\<exists>b err ctx rb'. chunk_buffer env sc = Some b \<and>
     SC_Chunks_DecodeReceivedBuffer env ((chunksCtx sc)\<lparr>currentChunkInputBuffer := Some b\<rparr>) (Some rb) = Some (True, err, ctx, rb') \<and>
     sc' = set_ctx ctx sc)"

lemma next_chunk_decoded:
  assumes n: "next_chunk env sc (unread rb) sc'" and inv: "rx_inv sc" and rb: "buf_wf rb" and lvl: "0 < sc_level env"
  shows "decoded_chunk env sc rb sc'"
proof -
  obtain b err ctx k where b: "chunk_buffer env sc = Some b" "sc' = set_ctx ctx sc"
    "decode_bytes ((chunksCtx sc)\<lparr>currentChunkInputBuffer := Some b\<rparr>) b (unread rb) = (True, err, ctx, k)"
    using n unfolding next_chunk_def by blast
  have R: "8 \<le> unat (receiveBufferSize (tcpMsgProperties sc))" using inv by (simp add: rx_inv_def tcp_limits_def)
  have "SC_Chunks_DecodeReceivedBuffer env ((chunksCtx sc)\<lparr>currentChunkInputBuffer := Some b\<rparr>) (Some rb) =
      Some (True, err, ctx, Some (buf_advance k rb))"
    by (rule DecodeReceivedBuffer_bytes [OF _ chunk_buffer_partial [OF inv b(1)] R rb lvl b(3)]) simp
  then show ?thesis using b(1,2) unfolding decoded_chunk_def by blast
qed

lemma suffix_packet:
  assumes "buf_wf rb" "position rb = 0" "unread rb = v @ w"
  shows "buf_wf (rb\<lparr>position := of_nat (length v)\<rparr>)" "unread (rb\<lparr>position := of_nat (length v)\<rparr>) = w"
proof -
  have e: "rb\<lparr>position := of_nat (length v)\<rparr> = buf_advance (length v) rb" using assms(2) by (simp add: buf_advance_def)
  have l: "length v \<le> length (unread rb)" using assms(3) by simp
  show "buf_wf (rb\<lparr>position := of_nat (length v)\<rparr>)" unfolding e using assms(1) l by (rule wf_advance)
  show "unread (rb\<lparr>position := of_nat (length v)\<rparr>) = w" unfolding e using assms(3) unread_advance [OF assms(1) l] by simp
qed

text \<open>
  C22: whatever bytes a packet holds, and whatever the packets before it left behind, their treatment returns
  with a state in which the next packet can be received, unchanged limits and events in front of the waiting
  ones. It stops on an assertion (\<open>None\<close>) in two cases only, both after some first part of the packet that is
  received on its own: this part leaves intermediate chunks without any byte of the message, or the bytes behind it
  complete a chunk with accepted headers whose plain text is announced longer than the receive buffer or whose
  signature is accepted over a part of these headers (\<open>unchecked_message\<close>). Of the cryptographic functions only
  the lengths of decrypted texts are assumed (\<open>crypto_laws\<close>). The invariant \<open>rx_inv\<close> of the connection holds limits: a
  receive buffer of 8 to \<open>2 ^ 30\<close> bytes, messages below \<open>2 ^ 31\<close> bytes and a number of chunks that is not 0; the configured
  security mode is a valid one.
\<close>

theorem received_packet_safe:
  assumes "rx_inv sc" "0 < sc_level env" "crypto_laws env" "modes_valid env" "buf_wf rb" "position rb = 0"
  shows "(\<exists>sc' evs. SC_Chunks_TreatReceivedBuffer env scIdx sc rb queue = Some (sc', evs @ queue) \<and>
      rx_inv sc' \<and> tcpMsgProperties sc' = tcpMsgProperties sc) \<or>
    SC_Chunks_TreatReceivedBuffer env scIdx sc rb queue = None \<and>
      (\<exists>n sc' evs. n \<le> buf_length rb \<and>
        SC_Chunks_TreatReceivedBuffer env scIdx sc (rb\<lparr>buf_length := n\<rparr>) queue = Some (sc', evs @ queue) \<and>
        (empty_pending sc' \<or> (\<exists>sc''. decoded_chunk env sc' (rb\<lparr>position := n\<rparr>) sc'' \<and> unchecked_message env sc'')))"
proof -
  note treat = TreatReceivedBuffer_bytes [OF assms(1-4), where scIdx = scIdx and queue = queue]
  have lim: "tcp_limits (tcpMsgProperties sc)" using assms(1) by (simp add: rx_inv_def)
  have same: "tcpMsgProperties (clear_chunks s) = tcpMsgProperties s" for s by (simp add: set_ctx_def)
  show ?thesis
  proof (cases "mem_ok (sc_enc env) sizeof_list")
    case False
    then show ?thesis
      using treat [OF assms(5,6)] rx_inv_cleared [OF lim] same by (auto simp: packet_result_def)
  next
    case mem: True
    from recv_bytes_total [OF assms(1-4), of scIdx 0 SOPC_GoodGenericStatus "[]" "unread rb"] show ?thesis
    proof (elim disjE conjE exE)
      fix ok err' sc' evs'
      assume r: "recv_bytes env scIdx 0 SOPC_GoodGenericStatus sc [] (unread rb) = Some (ok, err', sc', evs')"
        and t: "tcpMsgProperties sc' = tcpMsgProperties sc" and i: "ok \<longrightarrow> rx_inv sc'"
      show ?thesis
        using treat [OF assms(5,6)] mem r t i rx_inv_cleared [of sc'] lim same [of sc']
        by (cases ok) (auto simp: packet_result_def)
    next
      fix v w err' sc' evs'
      assume r: "recv_bytes env scIdx 0 SOPC_GoodGenericStatus sc [] (unread rb) = None" and vw: "unread rb = v @ w"
        and v: "recv_bytes env scIdx 0 SOPC_GoodGenericStatus sc [] v = Some (True, err', sc', evs')" "stopping env sc' w"
      note pp = prefix_packet [OF assms(5,6) vw] and sp = suffix_packet [OF assms(5,6) vw]
      have inv': "rx_inv sc'" using recv_bytes_total [OF assms(1-4), of scIdx 0 SOPC_GoodGenericStatus "[]" v] v(1) by auto
      have "empty_pending sc' \<or> (\<exists>sc''. decoded_chunk env sc' (rb\<lparr>position := of_nat (length v)\<rparr>) sc'' \<and> unchecked_message env sc'')"
        using v(2) next_chunk_decoded [OF _ inv' sp(1) assms(2)] unfolding stopping_def sp(2) by blast
      moreover have "SC_Chunks_TreatReceivedBuffer env scIdx sc rb queue = None"
        "SC_Chunks_TreatReceivedBuffer env scIdx sc (rb\<lparr>buf_length := of_nat (length v)\<rparr>) queue = Some (sc', evs' @ queue)"
        using treat [OF assms(5,6)] treat [OF pp(1)] assms(6) mem r v(1) pp(2) by (simp_all add: packet_result_def)
      ultimately show ?thesis using pp(3) by blast
    qed
  qed
qed

theorem received_packet_safe_witness:
  "(\<exists>sc' evs. SC_Chunks_TreatReceivedBuffer plain_env 1 plain_server (packet [77, 83, 71]) [] = Some (sc', evs @ []) \<and>
      rx_inv sc' \<and> tcpMsgProperties sc' = tcpMsgProperties plain_server) \<or>
    SC_Chunks_TreatReceivedBuffer plain_env 1 plain_server (packet [77, 83, 71]) [] = None \<and>
      (\<exists>n sc' evs. n \<le> buf_length (packet [77, 83, 71]) \<and>
        SC_Chunks_TreatReceivedBuffer plain_env 1 plain_server ((packet [77, 83, 71])\<lparr>buf_length := n\<rparr>) [] = Some (sc', evs @ []) \<and>
        (empty_pending sc' \<or> (\<exists>sc''. decoded_chunk plain_env sc' ((packet [77, 83, 71])\<lparr>position := n\<rparr>) sc'' \<and> unchecked_message plain_env sc'')))"
  by (rule received_packet_safe [OF plain_server_inv plain_env_ok(1-3)]) (simp_all add: packet_ok)

lemma recv_packet_view:
  "map_option view4 (recv_bytes env scIdx rid err sc [] u) = map_option view4 (recv_bytes env scIdx rid' err sc [] u)"
  by (rule recv_view) simp

lemma packet_result_err: "packet_result scIdx q (True, err, sc, evs) = packet_result scIdx q (True, err', sc, evs)"
  by (simp add: packet_result_def)

text \<open>
  C21: the result of a reception does not depend on how the network cuts the bytes. Provided that the treatment of a
  first packet returned without a failure event, the bytes of both packets in one packet lead to the state that
  the second packet leads to after the first, with the events of both packets in order (the unused request
  identifiers of the messages without one aside). There is one exception: when the second part fails, only
  the failure is reported, and the messages received before it in the same packet are dropped. A treatment that stops
  on an assertion (\<open>None\<close>) behind the first packet also stops for the one packet. Of the cryptographic functions only
  the lengths of decrypted texts are assumed (\<open>crypto_laws\<close>), and of the connection the invariant \<open>rx_inv\<close> with its limits.
\<close>

theorem packets_cut_anywhere:
  assumes inv: "rx_inv sc" and env: "0 < sc_level env" "crypto_laws env" "modes_valid env"
    and p1: "buf_wf p1" "position p1 = 0" and p2: "buf_wf p2" "position p2 = 0"
    and p: "buf_wf p" "position p = 0" "unread p = unread p1 @ unread p2"
    and first: "SC_Chunks_TreatReceivedBuffer env scIdx sc p1 [] = Some (sc1, q1)" "\<not> failed q1"
  shows "case SC_Chunks_TreatReceivedBuffer env scIdx sc1 p2 [] of
      None \<Rightarrow> SC_Chunks_TreatReceivedBuffer env scIdx sc p [] = None
    | Some (sc2, q2) \<Rightarrow> \<exists>q. SC_Chunks_TreatReceivedBuffer env scIdx sc p [] = Some (sc2, q) \<and>
        (if failed q2 then q = q2 else same_events q (q1 @ q2))"
proof -
  let ?good = SOPC_GoodGenericStatus
  note treat = TreatReceivedBuffer_bytes [OF _ env, where scIdx = scIdx and queue = "[]"]
  have mem: "mem_ok (sc_enc env) sizeof_list"
    using treat [OF inv p1] first by (auto simp: packet_result_def split: if_splits)
  obtain ok err1 sc' evs1 where r: "recv_bytes env scIdx 0 ?good sc [] (unread p1) = Some (ok, err1, sc', evs1)"
    "packet_result scIdx [] (ok, err1, sc', evs1) = (sc1, q1)"
    using treat [OF inv p1] first(1) mem
    by (cases "recv_bytes env scIdx 0 ?good sc [] (unread p1)") auto
  then have r1: "recv_bytes env scIdx 0 ?good sc [] (unread p1) = Some (True, err1, sc1, q1)"
    using first(2) by (cases ok) (auto simp: packet_result_def)
  have inv1: "rx_inv sc1" using recv_bytes_total [OF inv env, of scIdx 0 ?good "[]" "unread p1"] r1 by auto
  obtain rid1 where "\<And>v. recv_bytes env scIdx 0 ?good sc [] (unread p1 @ v) = recv_bytes env scIdx rid1 err1 sc1 q1 v"
    using recv_append [OF inv env r1] by blast
  then have both: "recv_bytes env scIdx 0 ?good sc [] (unread p) = map_option (add_events q1) (recv_bytes env scIdx rid1 err1 sc1 [] (unread p2))"
    using recv_prefix [of env scIdx rid1 err1 sc1 q1 "[]" "unread p2"] p(3) by simp
  note whole = treat [OF inv p(1,2)] and second = treat [OF inv1 p2]
  show ?thesis
  proof (cases "unread p2 = []")
    case True
    then show ?thesis
      using whole second both mem by (simp add: recv_bytes.simps [where u = "[]"] add_events_def packet_result_def)
  next
    case False
    have v: "map_option view4 (recv_bytes env scIdx rid1 err1 sc1 [] (unread p2)) = map_option view4 (recv_bytes env scIdx 0 ?good sc1 [] (unread p2))"
      using recv_packet_view recv_err [OF False] by metis
    show ?thesis
    proof (cases "recv_bytes env scIdx 0 ?good sc1 [] (unread p2)")
      case None
      then show ?thesis using v whole second both mem by simp
    next
      case (Some r2)
      obtain ok2 err2 sc2 evs2 where r2: "r2 = (ok2, err2, sc2, evs2)" by (metis prod_cases4)
      then obtain evs2' where r2': "recv_bytes env scIdx rid1 err1 sc1 [] (unread p2) = Some (ok2, err2, sc2, evs2')" "same_events evs2' evs2"
        using v Some by (auto simp: view4_def)
      have "\<not> failed evs2" using recv_not_failed [OF Some [unfolded r2]] by simp
      then show ?thesis
        using whole second both mem Some r2 r2' by (cases ok2) (auto simp: packet_result_def add_events_def)
    qed
  qed
qed

theorem packets_cut_anywhere_witness:
  "\<exists>sc1. SC_Chunks_TreatReceivedBuffer plain_env 1 plain_server (packet [77, 83, 71]) [] = Some (sc1, []) \<and>
    (case SC_Chunks_TreatReceivedBuffer plain_env 1 sc1 (packet [70, 25, 0, 0, 0]) [] of
      None \<Rightarrow> SC_Chunks_TreatReceivedBuffer plain_env 1 plain_server (packet [77, 83, 71, 70, 25, 0, 0, 0]) [] = None
    | Some (sc2, q2) \<Rightarrow>
        \<exists>q. SC_Chunks_TreatReceivedBuffer plain_env 1 plain_server (packet [77, 83, 71, 70, 25, 0, 0, 0]) [] = Some (sc2, q) \<and>
          (if failed q2 then q = q2 else same_events q ([] @ q2)))"
proof -
  obtain sc1 where "recv_bytes plain_env 1 0 SOPC_GoodGenericStatus plain_server [] [77, 83, 71] = Some (True, SOPC_GoodGenericStatus, sc1, [])"
    using plain_start by blast
  then have f: "SC_Chunks_TreatReceivedBuffer plain_env 1 plain_server (packet [77, 83, 71]) [] = Some (sc1, [])"
    using TreatReceivedBuffer_bytes [OF plain_server_inv plain_env_ok(1-3), of "packet [77, 83, 71]" 1 "[]"]
    by (simp add: packet_ok plain_env_ok packet_result_def)
  have "\<not> failed []" by simp
  from packets_cut_anywhere [OF plain_server_inv plain_env_ok(1-3) _ _ _ _ _ _ _ f this,
      of "packet [70, 25, 0, 0, 0]" "packet [77, 83, 71, 70, 25, 0, 0, 0]"] f
  show ?thesis by (auto simp: packet_ok)
qed

section \<open>From the sender to the receiver\<close>

text \<open>
  A client and a server whose connection has no security, between two messages: same channel and token, same
  sequence number, and the limits of the sender are those the receiver announced.
\<close>

definition plain_link :: "sc_env \<Rightarrow> SOPC_SecureConnection \<Rightarrow> sc_env \<Rightarrow> SOPC_SecureConnection \<Rightarrow> bool" where
  "plain_link cenv csc senv ssc \<longleftrightarrow>
     plain_sender cenv csc (secureChannelId (currentSecurityToken ssc)) (tokenId (currentSecurityToken ssc)) (lastSNreceived (tcpSeqProperties ssc)) \<and>
     plain_receiver senv ssc (secureChannelId (currentSecurityToken ssc)) (tokenId (currentSecurityToken ssc)) (lastSNreceived (tcpSeqProperties ssc)) \<and>
     chunk_expected senv ssc None False 0 \<and>
     24 + unat (symmSecuMaxBodySize csc) \<le> unat (sendBufferSize (tcpMsgProperties csc)) \<and>
     unat (sendBufferSize (tcpMsgProperties csc)) \<le> unat (receiveBufferSize (tcpMsgProperties ssc)) \<and>
     sendMaxMessageSize (tcpMsgProperties csc) = receiveMaxMessageSize (tcpMsgProperties ssc) \<and> sendMaxMessageSize (tcpMsgProperties csc) \<noteq> 0 \<and>
     sendMaxChunkCount (tcpMsgProperties csc) = receiveMaxChunkCount (tcpMsgProperties ssc)"

lemma numbered_pow:
  "plain_sender env sc cid tok n \<Longrightarrow> plain_sender env ((numbered False h ^^ k) sc) cid tok ((next_SNsent ^^ k) n)"
  "tcpMsgProperties ((numbered False h ^^ k) sc) = tcpMsgProperties sc"
  "symmSecuMaxBodySize ((numbered False h ^^ k) sc) = symmSecuMaxBodySize sc"
  by (induction k) (simp_all add: plain_sender_numbered)

lemma sent_message_sender:
  assumes "plain_sender env sc cid tok n"
  shows "plain_sender env (sent_message env scIdx h k sc) cid tok ((next_SNsent ^^ Suc k) n)"
    "tcpMsgProperties (sent_message env scIdx h k sc) = tcpMsgProperties sc"
    "symmSecuMaxBodySize (sent_message env scIdx h k sc) = symmSecuMaxBodySize sc"
  using numbered_pow(1) [OF assms, of k h] numbered_pow(2,3) [of k h sc]
  by (auto simp: sent_message_def request_recorded_def set_sentRequestIds_def plain_sender_def)

lemma chunk_expected_inv: "chunk_expected env sc None False 0 \<Longrightarrow> rx_inv sc"
  by (auto simp: chunk_expected_def rx_inv_def chunk_inv_def ctx_fresh_def waiting_ctx_def)

lemma receiver_parts: "plain_receiver env sc cid tok n \<Longrightarrow>
    secureChannelId (currentSecurityToken sc) = cid \<and> tokenId (currentSecurityToken sc) = tok \<and> lastSNreceived (tcpSeqProperties sc) = n"
  by (simp add: plain_receiver_def)

text \<open>
  C20: on a channel with security mode None on both sides, whose limits agree (\<open>plain_link\<close>: the limits of the
  client on the size and the number of chunks of a message are those of the server, the limit on the size is not 0, and
  a chunk of the client fits the buffer of the server), a message of any length within the limits, given by the client to the chunk
  manager, is cut into chunks whose bytes, received by the server in one packet, make exactly one event: the body
  of the message under the request identifier of the client, whatever the number of chunks. The connection is then
  ready for the next message, the sequence numbers of both sides in step (their wrap-around included). Signed and
  encrypted channels are not covered.
\<close>

theorem message_delivered:
  assumes link: "plain_link cenv csc senv ssc" and laws: "crypto_laws senv" "modes_valid senv"
    and msg: "buf_at b bs p" "24 \<le> length bs" "within_limits csc (drop 24 bs)"
  shows "\<exists>csc' outs. SC_Chunks_TreatSendMessageBuffer cenv ci h SOPC_MSG_TYPE_SC_MSG False False err csc b = Some (True, True, err, csc', outs) \<and>
    (\<forall>rb. buf_wf rb \<and> position rb = 0 \<and> unread rb = concat (map buf_bytes outs) \<longrightarrow>
      (\<exists>ssc' m. SC_Chunks_TreatReceivedBuffer senv si ssc rb queue =
          Some (ssc', \<lparr>le_event = INT_SC_RCV_MSG_CHUNKS, le_eltId = si, le_params = Some m, le_auxParam = request_id csc h\<rparr> # queue) \<and>
        buf_wf m \<and> unread m = drop 24 bs \<and> plain_link cenv csc' senv ssc'))"
proof -
  let ?cid = "secureChannelId (currentSecurityToken ssc)" and ?tok = "tokenId (currentSecurityToken ssc)"
    and ?n = "lastSNreceived (tcpSeqProperties ssc)" and ?xs = "message_bodies csc (drop 24 bs)" and ?rid = "request_id csc h"
  note l = link [unfolded plain_link_def]
  have tx: "plain_sender cenv csc ?cid ?tok ?n" and rx: "plain_receiver senv ssc ?cid ?tok ?n" and ex: "chunk_expected senv ssc None False 0"
    using l by blast+
  have K0: "symmSecuMaxBodySize csc \<noteq> 0" using tx by (simp add: plain_sender_def)
  note pieces = message_bodies_props [OF K0, where body = "drop 24 bs"]
  obtain outs where s: "SC_Chunks_TreatSendMessageBuffer cenv ci h SOPC_MSG_TYPE_SC_MSG False False err csc b =
      Some (True, True, err, sent_message cenv ci h (length ?xs - 1) csc, outs)"
    "map buf_bytes outs = chunk_stream ?cid ?tok ?n ?rid ?xs"
    using TreatSendMessage_plain [OF tx msg] l by blast
  have tx': "plain_sender cenv (sent_message cenv ci h (length ?xs - 1) csc) ?cid ?tok ((next_SNsent ^^ length ?xs) ?n)"
    using sent_message_sender(1) [OF tx, of ci h "length ?xs - 1"] pieces(2) by (cases ?xs) simp_all
  have lim: "tcp_limits (tcpMsgProperties ssc)" "chunksCtx ssc = waiting_ctx None False 0" using ex by (simp_all add: chunk_expected_def)
  have ex': "chunk_expected senv ssc None False ?rid" using ex unfolding chunk_expected_def by auto
  have sizes: "\<forall>x \<in> set ?xs. 24 + length x \<le> unat (receiveBufferSize (tcpMsgProperties ssc))"
    using pieces(3) l by fastforce
  have "0 < unat (receiveMaxChunkCount (tcpMsgProperties ssc))" using lim(1) by (simp add: tcp_limits_def unat_gt_0)
  then have count: "length (pending (chunksCtx ssc)) + length ?xs \<le> unat (receiveMaxChunkCount (tcpMsgProperties ssc))"
    using msg(3) l lim(2) by (auto simp: within_limits_def)
  have tot: "length (bodies (pending (chunksCtx ssc))) + length (concat ?xs) \<le> unat (receiveMaxMessageSize (tcpMsgProperties ssc))"
    using msg(3) l lim(2) pieces(1) by (auto simp: within_limits_def bodies_def)
  have ne: "pending (chunksCtx ssc) = [] \<and> length ?xs = 1 \<or> bodies (pending (chunksCtx ssc)) @ concat ?xs \<noteq> []"
    unfolding pieces(1) using lim(2) by (cases "drop 24 bs = []") (simp_all add: message_bodies_def bodies_def)
  have "\<exists>ssc' m. SC_Chunks_TreatReceivedBuffer senv si ssc rb queue =
          Some (ssc', \<lparr>le_event = INT_SC_RCV_MSG_CHUNKS, le_eltId = si, le_params = Some m, le_auxParam = ?rid\<rparr> # queue) \<and>
        buf_wf m \<and> unread m = drop 24 bs \<and> plain_link cenv (sent_message cenv ci h (length ?xs - 1) csc) senv ssc'"
    if rb: "buf_wf rb" "position rb = 0" "unread rb = concat (map buf_bytes outs)" for rb
  proof -
    obtain m ssc' where r: "recv_bytes senv si 0 SOPC_GoodGenericStatus ssc [] (concat (chunk_stream ?cid ?tok ?n ?rid ?xs) @ []) =
        recv_bytes senv si ?rid SOPC_GoodGenericStatus ssc'
          ([] @ [\<lparr>le_event = INT_SC_RCV_MSG_CHUNKS, le_eltId = si, le_params = Some m, le_auxParam = ?rid\<rparr>]) []"
      and p: "plain_receiver senv ssc' ?cid ?tok ((next_SNsent ^^ length ?xs) ?n)" "chunk_expected senv ssc' None False 0"
        "buf_wf m" "unread m = bodies (pending (chunksCtx ssc)) @ concat ?xs" "tcpMsgProperties ssc' = tcpMsgProperties ssc"
      using recv_stream [OF rx ex' pieces(2) sizes count tot ne, of si 0 SOPC_GoodGenericStatus "[]" "[]"] by blast
    have "recv_bytes senv si 0 SOPC_GoodGenericStatus ssc [] (unread rb) = Some (True, SOPC_GoodGenericStatus, ssc',
        [\<lparr>le_event = INT_SC_RCV_MSG_CHUNKS, le_eltId = si, le_params = Some m, le_auxParam = ?rid\<rparr>])"
      using r rb(3) s(2) by (simp add: recv_bytes.simps [where u = "[]"])
    then have "SC_Chunks_TreatReceivedBuffer senv si ssc rb queue =
        Some (ssc', \<lparr>le_event = INT_SC_RCV_MSG_CHUNKS, le_eltId = si, le_params = Some m, le_auxParam = ?rid\<rparr> # queue)"
      using TreatReceivedBuffer_bytes [OF chunk_expected_inv [OF ex] _ laws rb(1,2), of si queue] ex
      by (simp add: packet_result_def chunk_expected_def mem_total_def)
    moreover have "plain_link cenv (sent_message cenv ci h (length ?xs - 1) csc) senv ssc'"
      using l p tx' receiver_parts [OF p(1)] sent_message_sender(2,3) [OF tx, of ci h "length ?xs - 1"] unfolding plain_link_def by auto
    ultimately show ?thesis using p(3,4) pieces(1) lim(2) by (auto simp: bodies_def)
  qed
  then show ?thesis using s(1) by blast
qed

definition plain_client :: SOPC_SecureConnection where
  "plain_client = plain_server\<lparr>isServerConnection := False, clientNextReqId := 9\<rparr>"

lemma plain_link_example: "plain_link plain_env plain_client plain_env plain_server"
  by (simp add: plain_link_def plain_sender_def plain_receiver_def chunk_expected_def pending_ok_def bodies_def tcp_limits_def plain_client_def
      plain_defs mem_total_def SC_Chunks_IsSecuTokenValid_def SOPC_Common_GetDefaultEncodingConstants_def) (simp add: waiting_ctx_def pending_def)

lemma packet_at: "length bs < 2 ^ 32 \<Longrightarrow> buf_at (packet bs) bs 0"
  using packet_ok [of bs] by (simp add: buf_at_def packet_def buf_bytes_def unat_of_nat_u32)

theorem message_delivered_witness:
  "\<exists>csc' outs. SC_Chunks_TreatSendMessageBuffer plain_env 1 5 SOPC_MSG_TYPE_SC_MSG False False 0 plain_client
      (packet (replicate 24 0 @ replicate 20 7)) = Some (True, True, 0, csc', outs) \<and>
    (\<forall>rb. buf_wf rb \<and> position rb = 0 \<and> unread rb = concat (map buf_bytes outs) \<longrightarrow>
      (\<exists>ssc' m. SC_Chunks_TreatReceivedBuffer plain_env 1 plain_server rb [] =
          Some (ssc', \<lparr>le_event = INT_SC_RCV_MSG_CHUNKS, le_eltId = 1, le_params = Some m, le_auxParam = request_id plain_client 5\<rparr> # []) \<and>
        buf_wf m \<and> unread m = drop 24 (replicate 24 0 @ replicate 20 7) \<and> plain_link plain_env csc' plain_env ssc'))"
proof (rule message_delivered [OF plain_link_example plain_env_ok(2,3) packet_at])
  show "within_limits plain_client (drop 24 (replicate 24 0 @ replicate 20 7))"
    by (simp add: within_limits_def message_bodies_def Let_def plain_client_def plain_defs length_cut_body)
qed simp_all

section \<open>The assertion on an empty message\<close>

text \<open>
  C23: a peer that sends a message in two chunks without any byte in them, each one correct, makes the receiver
  stop on the assertion that the size of the message is not 0. No security is involved in the connection.
\<close>

theorem empty_message_asserts:
  assumes rx: "plain_receiver env sc cid tok n" and ex: "chunk_expected env sc None False 0"
    and laws: "crypto_laws env" "modes_valid env"
    and lim: "24 \<le> unat (receiveBufferSize (tcpMsgProperties sc))" "2 \<le> unat (receiveMaxChunkCount (tcpMsgProperties sc))"
    and rb: "buf_wf rb" "position rb = 0" "unread rb = concat (chunk_stream cid tok n rid [[], []])"
  shows "SC_Chunks_TreatReceivedBuffer env scIdx sc rb queue = None"
proof -
  let ?v = "sc_chunk SOPC_UA_FINAL_CHUNK cid tok (next_SNsent (next_SNsent n)) rid []"
  let ?u = "sc_chunk SOPC_UA_INTERMEDIATE_CHUNK cid tok (next_SNsent n) rid [] @ ?v"
  have ctx: "chunksCtx sc = waiting_ctx None False 0" and ex': "chunk_expected env sc None False rid" using ex unfolding chunk_expected_def by auto
  have h: "24 + length ([] :: byte list) \<le> unat (receiveBufferSize (tcpMsgProperties sc))"
    "length (pending (chunksCtx sc)) + 1 < unat (receiveMaxChunkCount (tcpMsgProperties sc))"
    "length (bodies (pending (chunksCtx sc))) + length ([] :: byte list) \<le> unat (receiveMaxMessageSize (tcpMsgProperties sc))"
    using lim ctx by (simp_all add: bodies_def)
  from chunk_step_intermediate [OF rx ex' h, of scIdx 0 "[]" ?v] obtain b sc1 where
    s: "chunk_step env scIdx 0 sc [] ?u = Some (Inr (rid, SOPC_GoodGenericStatus, sc1, [], 24 + length ([] :: byte list)))"
    and p: "plain_receiver env sc1 cid tok (next_SNsent n)" "chunk_expected env sc1 (Some (pending (chunksCtx sc) @ [b])) True rid"
      "unread b = []" "tcpMsgProperties sc1 = tcpMsgProperties sc" by blast
  have pe: "pending (chunksCtx sc1) = [b]" using p(2) ctx by (simp add: chunk_expected_def)
  have "chunk_step env scIdx rid sc1 [] (?v @ []) = None"
    by (rule chunk_step_final_empty [OF p(1,2)]) (use pe p(3,4) lim in \<open>simp_all add: bodies_def\<close>)
  moreover have "?v \<noteq> []" "?u \<noteq> []" by simp_all
  ultimately have "recv_bytes env scIdx rid SOPC_GoodGenericStatus sc1 [] ?v = None"
    by (simp add: recv_bytes.simps [of env scIdx rid SOPC_GoodGenericStatus sc1 "[]" ?v])
  then have "recv_bytes env scIdx 0 SOPC_GoodGenericStatus sc [] ?u = None"
    using s \<open>?u \<noteq> []\<close> by (simp add: recv_bytes.simps [of env scIdx 0 SOPC_GoodGenericStatus sc "[]" ?u])
  then show ?thesis
    using TreatReceivedBuffer_bytes [OF chunk_expected_inv [OF ex] _ laws rb(1,2), of scIdx queue] ex rb(3)
    by (simp add: chunk_expected_def mem_total_def)
qed

theorem empty_message_asserts_witness:
  "SC_Chunks_TreatReceivedBuffer plain_env 1 plain_server (packet (concat (chunk_stream 7 3 10 9 [[], []]))) [] = None"
proof (rule empty_message_asserts [where rid = 9, OF _ _ plain_env_ok(2,3)])
  show "plain_receiver plain_env plain_server 7 3 10"
    by (simp add: plain_receiver_def plain_defs SC_Chunks_IsSecuTokenValid_def)
  show "chunk_expected plain_env plain_server None False 0" using plain_link_example by (simp add: plain_link_def)
qed (simp_all add: packet_ok, simp_all add: plain_defs)

end
