(* ===== verification/Chunks_Signature.thy ===== *)
theory Chunks_Signature
  imports Chunks_Properties
begin

text \<open>
  The signature of a received chunk: when the length of an asymmetric plain text fits the receive buffer, and what
  a signature over a part of the headers does to a receiver.
\<close>

section \<open>The announced length of an asymmetric plain text\<close>

text \<open>
  The computation of the provider for a given key: the number of encrypted messages, rounded up, times the length of a
  plain one. \<open>lens\<close> is the answer of \<open>SOPC_CryptoProvider_AsymmetricGetLength_Msgs\<close> for the key, whose lengths are not 0.
\<close>

definition SOPC_CryptoProvider_AsymmetricGetLength_Decryption :: "(u32 \<times> u32) option \<Rightarrow> u32 \<Rightarrow> u32 option" where
  "SOPC_CryptoProvider_AsymmetricGetLength_Decryption lens lengthIn =
     (if lengthIn = 0 then Some 0
      else case lens of
        None \<Rightarrow> None
      | Some (lenCiph, lenPlain) \<Rightarrow>
          let nMsgs = lengthIn div lenCiph;
              nMsgs = (if lengthIn mod lenCiph > 0 then nMsgs + 1 else nMsgs)
          in Some (nMsgs * lenPlain))"

lemma rounded_up_fits:
  fixes n c p R :: nat
  assumes "n \<le> R" "8192 \<le> R" "p + 42 \<le> c" "c \<le> 512"
  shows "(n div c + (if 0 < n mod c then 1 else 0)) * p \<le> R"
proof -
  define q where "q = n div c + (if 0 < n mod c then 1 else 0)"
  have "q * c \<le> n + c"
    using div_mult_mod_eq [of n c] by (cases "n mod c = 0") (simp_all add: q_def algebra_simps)
  moreover have "q * p + q * 42 \<le> q * c" using mult_le_mono2 [OF assms(3), of q] by (simp add: algebra_simps)
  moreover have "q * p \<le> q * 512" using assms(3,4) by (intro mult_le_mono2) simp
  ultimately have "q * p \<le> R" using assms(1,2,4) by (cases "q \<le> 12") linarith+
  then show ?thesis by (simp only: q_def)
qed

text \<open>
  No chunk is oversized when the lengths of the key are those of an RSA key of at most 4096 bits with a padding of at
  least 42 bytes, and the receive buffer has the least size of the protocol.
\<close>

lemma rsa_plain_fits:
  assumes len: "asymLenDecryption env = SOPC_CryptoProvider_AsymmetricGetLength_Decryption (Some (c, p))"
    and key: "unat p + 42 \<le> unat c" "unat c \<le> 512" and R: "8192 \<le> unat (receiveBufferSize (tcpMsgProperties (snd s)))"
    and b: "chunk_buf (unat (receiveBufferSize (tcpMsgProperties (snd s)))) Q (snd s)"
  shows "\<not> oversized_plain env isOPN s"
proof
  assume "oversized_plain env isOPN s"
  then obtain b n where b': "currentChunkInputBuffer (chunksCtx (snd s)) = Some b" "asymLenDecryption env (buf_length b - position b) = Some n"
    "receiveBufferSize (tcpMsgProperties (snd s)) < n" by (auto simp: oversized_plain_def split: prod.splits)
  let ?n = "buf_length b - position b" and ?R = "unat (receiveBufferSize (tcpMsgProperties (snd s)))"
  have "unat ?n \<le> ?R" using b b'(1) unat_remaining unread_le_size by (fastforce elim: chunk_bufE)
  then have fits: "(unat ?n div unat c + (if 0 < unat ?n mod unat c then 1 else 0)) * unat p \<le> ?R"
    using R key by (rule rounded_up_fits)
  define q where "q = (if ?n mod c > 0 then ?n div c + 1 else ?n div c)"
  have "unat ?n div unat c \<le> unat ?n div 2" using key(1) by (intro div_le_mono2) simp_all
  then have "unat (?n div c) < 2 ^ 32 - 1" using unat_lt_u32 [of ?n] by (simp add: unat_div_distrib)
  then have q: "unat q = unat ?n div unat c + (if 0 < unat ?n mod unat c then 1 else 0)"
    by (simp add: q_def u32_less_iff unat_div_distrib unat_mod_distrib unat_add_u32)
  have "unat (q * p) = unat q * unat p"
    using fits unat_lt_u32 [of "receiveBufferSize (tcpMsgProperties (snd s))"] unfolding q [symmetric] by (simp add: unat_mult_lem [THEN iffD1])
  moreover have "n = 0 \<or> n = q * p"
    using b'(2) unfolding len by (auto simp: SOPC_CryptoProvider_AsymmetricGetLength_Decryption_def q_def Let_def split: if_splits)
  ultimately show False using b'(3) fits q by (auto simp: u32_less_iff)
qed

section \<open>A signature over a part of the headers\<close>

text \<open>A connection in mode Sign with its current token and keys; \<open>sz\<close> is the size of a signature.\<close>

definition signing_receiver :: "sc_env \<Rightarrow> SOPC_SecureConnection \<Rightarrow> u32 \<Rightarrow> u32 \<Rightarrow> byte list \<Rightarrow> u32 \<Rightarrow> bool" where
  "signing_receiver env sc cid tok key sz \<longleftrightarrow>
     sc_config env (isServerConnection sc) (secureChannelConfigIdx sc) = Some OpcUa_MessageSecurityMode_Sign \<and>
     secureChannelId (currentSecurityToken sc) = cid \<and> tokenId (currentSecurityToken sc) = tok \<and>
     SC_Chunks_IsSecuTokenValid env (isServerConnection sc) (currentSecurityToken sc) \<and>
     map_option (\<lambda>(s, r). signKey r) (SC_Chunks_GetSecurityKeySets sc False) = Some key \<and> symmLenSignature env = Some sz"

lemma set_chunk_keys [simp]:
  "SC_Chunks_GetSecurityKeySets (set_chunk b sc) i = SC_Chunks_GetSecurityKeySets sc i"
  "SC_Chunks_GetSecurityKeySets (activate_token sc) i = SC_Chunks_GetSecurityKeySets sc i"
  "SC_Chunks_GetSecurityKeySets (set_ctx ctx sc) i = SC_Chunks_GetSecurityKeySets sc i"
  by (simp_all add: SC_Chunks_GetSecurityKeySets_def set_chunk_def activate_token_def set_ctx_def)

text \<open>An accepted signature of the first bytes of a buffer.\<close>

lemma verify_signature_accepts:
  assumes b: "buf_wf b" and n: "unat n \<le> length (buf_bytes b)"
    and v: "verify (take (length (buf_bytes b) - unat n) (buf_bytes b)) (drop (length (buf_bytes b) - unat n) (buf_bytes b))"
  shows "verify_signature b (Some n) verify = Some (Some (buf_length b - n))"
proof -
  obtain d where d: "buf_data b = Some d" "length d = unat (current_size b)" "unat (buf_length b) \<le> unat (current_size b)"
    using b by (rule buf_wfE)
  note len = length_buf_bytes [OF b]
  have p: "unat (buf_length b - n) + unat n = unat (buf_length b)" "\<not> buf_length b < n"
    using n len by (simp_all add: u32_less_iff u32_le_iff unat_sub_if')
  have "mem_read d 0 (unat (buf_length b - n)) = Some (take (unat (buf_length b - n)) (buf_bytes b))"
    "mem_read d (unat (buf_length b - n)) (unat n) = Some (drop (unat (buf_length b - n)) (buf_bytes b))"
    using d p by (simp_all add: mem_read_def buf_bytes_def take_drop add.commute)
  moreover have "length (buf_bytes b) - unat n = unat (buf_length b - n)" using p(1) len by simp
  ultimately show ?thesis using v p(2) d(1) by (simp add: verify_signature_def)
qed

text \<open>The headers of such a chunk are accepted and its signature is checked.\<close>

lemma signed_headers:
  assumes rx: "signing_receiver env sc cid tok key sz" and lvl: "0 < sc_level env"
    and b: "currentChunkInputBuffer (chunksCtx sc) = Some b" "buf_wf b" "unread b = le_bytes 4 (unat cid) @ le_bytes 4 (unat tok) @ r"
  defines "sc1 \<equiv> set_chunk (Some (buf_advance 4 b)) sc"
  defines "sc2 \<equiv> set_chunk (Some (buf_advance 4 (buf_advance 4 b))) (activate_token sc)"
  shows "check_secureChannelId env False err sc = Some (True, err, sc1)"
    "check_security_header env False err sc1 = Some (True, err, (False, True, False), sc2)"
    "buf_wf (buf_advance 4 (buf_advance 4 b))"
proof -
  note rx = rx [unfolded signing_receiver_def]
  note r1 = read_u32_at [OF b lvl]
  show "check_secureChannelId env False err sc = Some (True, err, sc1)"
    using r1(1) rx by (simp add: check_secureChannelId_def sc1_def)
  have cb1: "currentChunkInputBuffer (chunksCtx sc1) = Some (buf_advance 4 b)" by (simp add: sc1_def)
  note r2 = read_u32_at [OF cb1 r1(2,3) lvl]
  show "buf_wf (buf_advance 4 (buf_advance 4 b))" by (rule r2(2))
  have "SC_Chunks_CheckSymmetricSecurityHeader env sc1 err = Some (True, False, err, sc2)"
    using r2(1) rx unfolding SC_Chunks_CheckSymmetricSecurityHeader_def sc1_def sc2_def
    by (simp add: activate_token_def [symmetric] set_chunk_def) (simp add: activate_token_def)
  then show "check_security_header env False err sc1 = Some (True, err, (False, True, False), sc2)"
    using rx by (simp add: check_security_header_def SC_Chunks_IsMsgEncrypted_def SC_Chunks_IsMsgSigned_def sc1_def)
qed

lemma short_signature_payload:
  assumes rx: "signing_receiver env sc cid tok key sz" and lvl: "0 < sc_level env"
    and ty: "currentMsgType (chunksCtx sc) = SOPC_MSG_TYPE_SC_MSG"
    and b: "currentChunkInputBuffer (chunksCtx sc) = Some b" "buf_wf b" "unread b = le_bytes 4 (unat cid) @ le_bytes 4 (unat tok) @ r"
      "position b = 8" "buf_bytes b = u"
    and sz: "unat sz \<le> length u" "length u < 16 + unat sz"
    and sg: "symmVerify env (take (length u - unat sz) u) key (drop (length u - unat sz) u)"
  shows "unchecked_message env sc" "SC_Chunks_TreatTcpPayload env rid err sc = None"
proof -
  let ?b2 = "buf_advance 4 (buf_advance 4 b)" and ?sc2 = "set_chunk (Some (buf_advance 4 (buf_advance 4 b))) (activate_token sc)"
  note h = signed_headers [OF rx lvl b(1-3)]
  have b2: "buf_bytes ?b2 = u" "position ?b2 = 16" "buf_length ?b2 = buf_length b"
    using b(4,5) by (simp_all add: buf_bytes_def buf_advance_def)
  have len: "length u = unat (buf_length b)" using length_buf_bytes [OF b(2)] b(5) by simp
  have "unat (buf_length b - sz) + unat sz = unat (buf_length b)" using sz(1) len by (simp add: unat_sub_if' u32_le_iff)
  then have p: "buf_length b - sz < position ?b2" using sz(2) len b2(2) by (simp add: u32_less_iff)
  have "verify_signature ?b2 (Some sz) (\<lambda>m s. symmVerify env m key s) = Some (Some (buf_length b - sz))"
    using verify_signature_accepts [OF h(3), of sz "\<lambda>m s. symmVerify env m key s"] b2 sz(1) sg by simp
  then have "short_signature env False ((False, True, False), ?sc2)"
    using rx p by (auto simp: short_signature_def SC_Chunks_VerifyMsgSignature_def signing_receiver_def)
  then have v: "verify_payload env False e ((False, True, False), ?sc2) = None" "unchecked_chunk env False ((False, True, False), ?sc2)" for e
    using short_signature_stops by (auto simp: unchecked_chunk_def decrypt_payload_def)
  have ex: "payload_expected sc = Some True" "is_secure_msg SOPC_MSG_TYPE_SC_MSG" using ty by (simp_all add: payload_expected_def is_secure_msg_def)
  have opn: "(currentMsgType (chunksCtx sc) = SOPC_MSG_TYPE_SC_OPN) = False" using ty by simp
  have "unchecked_headers env sc"
    unfolding unchecked_headers_def Let_def opn by (intro exI conjI) (rule h(1) [of err], rule h(2), rule v(2))
  then show "unchecked_message env sc" using ty ex by (simp add: unchecked_message_def)
  show "SC_Chunks_TreatTcpPayload env rid err sc = None"
    using h(1,2) [of err] v(1) [of err] ty ex by (simp add: SC_Chunks_TreatTcpPayload_def secure_payload_def decrypt_payload_def)
qed

text \<open>
  C34: a connection in mode Sign, with memory available and no message in reception, that receives a chunk of a message with its channel and token identifiers, shorter than
  the headers and a signature together, whose last bytes are an accepted signature of the bytes before them, stops on
  the assertion behind the verification of the signature. Such a signature covers a part of the headers only, and the
  provider does not refuse it.
\<close>

theorem short_signature_asserts:
  assumes rx: "signing_receiver env sc cid tok key sz" and ex: "chunk_expected env sc None False 0"
    and laws: "crypto_laws env" "modes_valid env"
    and u: "u = sc_chunk SOPC_UA_FINAL_CHUNK cid tok sn rid body" "length u \<le> unat (receiveBufferSize (tcpMsgProperties sc))"
    and sz: "unat sz \<le> length u" "length u < 16 + unat sz"
    and sg: "symmVerify env (take (length u - unat sz) u) key (drop (length u - unat sz) u)"
    and rb: "buf_wf rb" "position rb = 0" "unread rb = u"
  shows "SC_Chunks_TreatReceivedBuffer env scIdx sc rb queue = None"
proof -
  let ?tcp = "tcpMsgProperties sc"
  have ctx: "chunksCtx sc = waiting_ctx None False 0" and lvl: "0 < sc_level env" and mem: "mem_total (sc_enc env)"
    using ex by (simp_all add: chunk_expected_def)
  have f: "decode_is_final SOPC_UA_FINAL_CHUNK = SOPC_MSG_ISFINAL_FINAL"
    by (simp add: decode_is_final_def SOPC_UA_FINAL_CHUNK_def SOPC_UA_INTERMEDIATE_CHUNK_def)
  have len: "24 + length body \<le> unat (receiveBufferSize ?tcp)" using u by simp
  then have "receiveBufferSize ?tcp \<noteq> 0" by auto
  then obtain b0 where b0: "SOPC_Buffer_Create (sc_enc env) (receiveBufferSize ?tcp) = Some b0"
    using Create_ok [of "sc_enc env" "receiveBufferSize ?tcp"] mem by auto
  have cb: "chunk_buffer env sc = Some b0" using b0 ctx by (simp add: chunk_buffer_def waiting_ctx_def)
  let ?ctx = "\<lambda>b. (waiting_ctx None False 0)\<lparr>currentMsgType := SOPC_MSG_TYPE_SC_MSG, currentMsgIsFinal := SOPC_MSG_ISFINAL_FINAL,
    currentMsgSize := of_nat (24 + length body), currentChunkInputBuffer := Some b\<rparr>"
  obtain b where b: "decode_bytes ((chunksCtx sc)\<lparr>currentChunkInputBuffer := Some b0\<rparr>) b0 (u @ []) =
      (True, SOPC_GoodGenericStatus, ?ctx b, 24 + length body)"
    "buf_wf b" "unread b = le_bytes 4 (unat cid) @ le_bytes 4 (unat tok) @ le_bytes 4 (unat sn) @ le_bytes 4 (unat rid) @ body"
    "position b = 8" "buf_bytes b = u"
    using decode_chunk [OF b0 len, of SOPC_UA_FINAL_CHUNK None False 0 cid tok sn rid "[]"] f ctx u(1) by auto
  let ?sc = "set_ctx (?ctx b) sc"
  have rx1: "signing_receiver env ?sc cid tok key sz" using rx by (simp add: signing_receiver_def) (simp add: set_ctx_def)
  have "SC_Chunks_TreatTcpPayload env 0 SOPC_GoodGenericStatus ?sc = None"
    by (rule short_signature_payload(2) [OF rx1 lvl _ _ b(2,3,4,5) sz sg]) (simp_all add: set_ctx_def)
  moreover have "SC_Chunks_CheckMultiChunkContext (?ctx b) ?tcp SOPC_GoodGenericStatus = (True, SOPC_GoodGenericStatus)"
    by (simp add: SC_Chunks_CheckMultiChunkContext_def)
  ultimately have "chunk_step env scIdx 0 sc [] u = None" using cb b(1) by (simp add: chunk_step_def)
  moreover have "u \<noteq> []" using u(1) by simp
  ultimately have "recv_bytes env scIdx 0 SOPC_GoodGenericStatus sc [] u = None"
    by (simp add: recv_bytes.simps [of env scIdx 0 SOPC_GoodGenericStatus sc "[]" u])
  then show ?thesis
    using TreatReceivedBuffer_bytes [OF chunk_expected_inv [OF ex] lvl laws rb(1,2), of scIdx queue] rb(3) mem
    by (simp add: mem_total_def)
qed

text \<open>A server in mode Sign whose signatures have 16 bytes, one of them a checksum.\<close>

definition sign_keys :: SOPC_SC_SecurityKeySets where
  "sign_keys = (let k = \<lparr>signKey = [1], encryptKey = [], initVector = []\<rparr> in \<lparr>senderKeySet = Some k, receiverKeySet = Some k\<rparr>)"

definition sign_env :: sc_env where
  "sign_env = plain_env\<lparr>sc_config := (\<lambda>_ _. Some OpcUa_MessageSecurityMode_Sign), symmLenSignature := Some 16,
     symmVerify := (\<lambda>m k s. k = [1] \<and> length s = 16 \<and> s ! 8 = sum_list m)\<rparr>"

definition sign_server :: SOPC_SecureConnection where
  "sign_server = plain_server\<lparr>currentSecuKeySets := sign_keys\<rparr>"

lemma sign_env_ok: "crypto_laws sign_env" "modes_valid sign_env"
proof -
  show "crypto_laws sign_env" using plain_laws by (simp add: crypto_laws_def sign_env_def)
  show "modes_valid sign_env" by (simp add: modes_valid_def sign_env_def)
qed

lemma sign_server_expected: "chunk_expected sign_env sign_server None False 0"
  using plain_link_example by (simp add: plain_link_def chunk_expected_def sign_env_def sign_server_def)

theorem short_signature_asserts_witness:
  "SC_Chunks_TreatReceivedBuffer sign_env 1 sign_server (packet (sc_chunk SOPC_UA_FINAL_CHUNK 7 3 69 9 [])) [] = None"
proof (rule short_signature_asserts [where cid = 7 and tok = 3 and key = "[1]" and sz = 16 and sn = 69 and rid = 9 and body = "[]",
    OF _ sign_server_expected sign_env_ok refl])
  show "signing_receiver sign_env sign_server 7 3 [1] 16"
    by (simp add: signing_receiver_def sign_env_def sign_server_def sign_keys_def SC_Chunks_GetSecurityKeySets_def plain_defs
        SC_Chunks_IsSecuTokenValid_def Let_def)
  let ?u = "sc_chunk SOPC_UA_FINAL_CHUNK 7 3 69 9 []"
  have u: "?u = [77, 83, 71, 70, 24, 0, 0, 0, 7, 0, 0, 0, 3, 0, 0, 0, 69, 0, 0, 0, 9, 0, 0, 0]" by code_simp
  show "symmVerify sign_env (take (length ?u - unat (16 :: u32)) ?u) [1] (drop (length ?u - unat (16 :: u32)) ?u)"
    unfolding u by (simp add: sign_env_def)
qed (simp_all add: packet_ok sign_server_def)

end
