(* ===== verification/Event_Timer.thy ===== *)
theory Event_Timer
  imports SLinkedList
begin

text \<open>
  The event timers of \<open>src/Common/helpers/sopc_event_timer_manager.c\<close> and the time references of
  \<open>src/Common/helpers_platform_dep/sopc_time_reference.c\<close>.

  The state holds the list of active timers, sorted by end time, the identifiers that were released and the
  greatest identifier given so far. The two linked lists are lists here, with the operations of the linked
  list contract; a timer is found by its identifier, which is unique in the list. The clock is an argument
  (\<open>SOPC_TimeReference_GetCurrent\<close>), the event with its handler is the type parameter, and the events posted
  by an evaluation are its result. The state is that of an initialised manager: its flags and its thread, and with
  them \<open>SOPC_EventTimer_PreClear\<close> and \<open>SOPC_EventTimer_Clear\<close>, are left out.
\<close>

section \<open>Time references\<close>

definition SOPC_TimeReference_AddMilliseconds :: "u64 \<Rightarrow> u64 \<Rightarrow> u64" where
  "SOPC_TimeReference_AddMilliseconds timeRef ms = (if 0xFFFFFFFFFFFFFFFF - timeRef > ms then timeRef + ms else 0xFFFFFFFFFFFFFFFF)"

definition SOPC_TimeReference_Compare :: "u64 \<Rightarrow> u64 \<Rightarrow> int" where
  "SOPC_TimeReference_Compare left right = (if left < right then -1 else if left > right then 1 else 0)"

lemma TimeReference_Compare_ge [simp]: "0 \<le> SOPC_TimeReference_Compare a b \<longleftrightarrow> b \<le> a"
  by (auto simp: SOPC_TimeReference_Compare_def not_less)

lemma u64_max: "(x :: u64) \<le> 0xFFFFFFFFFFFFFFFF"
  using unsigned_less [of x, where 'a = nat] by (simp add: word_le_nat_alt)

lemma AddMilliseconds_mono: "t \<le> SOPC_TimeReference_AddMilliseconds t ms"
proof (cases "0xFFFFFFFFFFFFFFFF - t > ms")
  case True
  have "unat (0xFFFFFFFFFFFFFFFF - t) = 0xFFFFFFFFFFFFFFFF - unat t"
    by (subst unat_sub) (simp_all add: u64_max)
  then have "unat t + unat ms < 2 ^ 64" using True by (simp add: word_less_nat_alt)
  then show ?thesis
    using True by (simp add: SOPC_TimeReference_AddMilliseconds_def word_le_nat_alt unat_word_ariths)
qed (simp add: SOPC_TimeReference_AddMilliseconds_def u64_max)

section \<open>Timers\<close>

definition SOPC_TIMER_RESOLUTION_MS :: nat where
  "SOPC_TIMER_RESOLUTION_MS = 50"

record 'e SOPC_EventTimer =
  et_id :: u32
  et_event :: 'e
  endTime :: u64
  isPeriodicTimer :: bool
  periodMs :: u64

record 'e event_timers =
  timers :: "(u32 \<times> 'e SOPC_EventTimer) list"
  timerIdsFreed :: "u32 list"
  timerIdMax :: u32

definition sizeof_EventTimer :: nat where
  "sizeof_EventTimer = 64"

definition sizeof_Event :: nat where
  "sizeof_Event = 40"

definition SOPC_Internal_GetFreshTimerId_WithoutLock :: "'e event_timers \<Rightarrow> u32 \<times> 'e event_timers" where
  "SOPC_Internal_GetFreshTimerId_WithoutLock s =
     (case timerIdsFreed s of
        [] \<Rightarrow> if timerIdMax s < 0xFFFFFFFF then (timerIdMax s + 1, s\<lparr>timerIdMax := timerIdMax s + 1\<rparr>) else (0, s)
      | i # is \<Rightarrow> (i, s\<lparr>timerIdsFreed := is\<rparr>))"

text \<open>\<open>SOPC_SLinkedList_SortedInsert\<close> with \<open>SOPC_Internal_SLinkedList_EventTimerCompare\<close>.\<close>

definition timer_insert ::
  "u32 \<Rightarrow> 'e SOPC_EventTimer \<Rightarrow> (u32 \<times> 'e SOPC_EventTimer) list \<Rightarrow> (u32 \<times> 'e SOPC_EventTimer) list" where
  "timer_insert i t ts =
     takeWhile (\<lambda>(_, u). SOPC_TimeReference_Compare (endTime t) (endTime u) \<ge> 0) ts @ (i, t) #
     dropWhile (\<lambda>(_, u). SOPC_TimeReference_Compare (endTime t) (endTime u) \<ge> 0) ts"

text \<open>A released identifier is lost when the cell for it cannot be allocated.\<close>

definition release_timer_id :: "('m) mem_env_scheme \<Rightarrow> u32 \<Rightarrow> 'e event_timers \<Rightarrow> 'e event_timers" where
  "release_timer_id env i s =
     (if mem_ok env sizeof_SOPC_SLinkedList_Elt then s\<lparr>timerIdsFreed := timerIdsFreed s @ [i]\<rparr> else s)"

definition SOPC_Internal_EventTimer_Free_WithoutLock ::
  "('m) mem_env_scheme \<Rightarrow> 'e SOPC_EventTimer \<Rightarrow> 'e event_timers \<Rightarrow> 'e event_timers" where
  "SOPC_Internal_EventTimer_Free_WithoutLock env t s = release_timer_id env (et_id t) s"

definition SOPC_Internal_EventTimer_Cancel_WithoutLock ::
  "('m) mem_env_scheme \<Rightarrow> u32 \<Rightarrow> 'e event_timers \<Rightarrow> 'e event_timers" where
  "SOPC_Internal_EventTimer_Cancel_WithoutLock env timerId s =
     (case requests_remove timerId (timers s) of
        (None, _) \<Rightarrow> s
      | (Some t, ts) \<Rightarrow> SOPC_Internal_EventTimer_Free_WithoutLock env t (s\<lparr>timers := ts\<rparr>))"

definition SOPC_EventTimer_Cancel :: "('m) mem_env_scheme \<Rightarrow> u32 \<Rightarrow> 'e event_timers \<Rightarrow> 'e event_timers" where
  "SOPC_EventTimer_Cancel env timerId s =
     (if timerId = 0 then s else SOPC_Internal_EventTimer_Cancel_WithoutLock env timerId s)"

definition SOPC_InternalEventTimer_Create ::
  "('m) mem_env_scheme \<Rightarrow> u64 \<Rightarrow> 'e \<Rightarrow> u64 \<Rightarrow> bool \<Rightarrow> 'e event_timers \<Rightarrow> u32 \<times> 'e event_timers" where
  "SOPC_InternalEventTimer_Create env now event msDelay isPeriodic s =
     (if msDelay = 0 then (0, s)
      else if isPeriodic \<and> unat msDelay < 2 * SOPC_TIMER_RESOLUTION_MS then (0, s)
      else if \<not> mem_ok env sizeof_EventTimer then (0, s)
      else
        (let (result, s) = SOPC_Internal_GetFreshTimerId_WithoutLock s;
             t = \<lparr>et_id = result, et_event = event, endTime = SOPC_TimeReference_AddMilliseconds now msDelay,
                  isPeriodicTimer = isPeriodic, periodMs = msDelay\<rparr>
         in if result = 0 then (0, s)
            else if mem_ok env sizeof_SOPC_SLinkedList_Elt
            then (result, s\<lparr>timers := timer_insert result t (timers s)\<rparr>)
            else (0, release_timer_id env result s)))"

definition SOPC_EventTimer_Create ::
  "('m) mem_env_scheme \<Rightarrow> u64 \<Rightarrow> 'e \<Rightarrow> u64 \<Rightarrow> 'e event_timers \<Rightarrow> u32 \<times> 'e event_timers" where
  "SOPC_EventTimer_Create env now event msDelay s = SOPC_InternalEventTimer_Create env now event msDelay False s"

definition SOPC_EventTimer_CreatePeriodic ::
  "('m) mem_env_scheme \<Rightarrow> u64 \<Rightarrow> 'e \<Rightarrow> u64 \<Rightarrow> 'e event_timers \<Rightarrow> u32 \<times> 'e event_timers" where
  "SOPC_EventTimer_CreatePeriodic env now event msPeriod s =
     SOPC_InternalEventTimer_Create env now event msPeriod True s"

text \<open>A write to the timer that the list holds under an identifier.\<close>

definition timer_update ::
  "u32 \<Rightarrow> 'e SOPC_EventTimer \<Rightarrow> (u32 \<times> 'e SOPC_EventTimer) list \<Rightarrow> (u32 \<times> 'e SOPC_EventTimer) list" where
  "timer_update i t ts = map (\<lambda>(j, u). if j = i then (j, t) else (j, u)) ts"

definition SOPC_EventTimer_ModifyPeriodic :: "u32 \<Rightarrow> u64 \<Rightarrow> 'e event_timers \<Rightarrow> bool \<times> 'e event_timers" where
  "SOPC_EventTimer_ModifyPeriodic timerId msPeriod s =
     (if timerId = 0 \<or> msPeriod = 0 then (False, s)
      else case map_of (timers s) timerId of
        None \<Rightarrow> (False, s)
      | Some t \<Rightarrow>
          if isPeriodicTimer t then
            (if unat msPeriod < 2 * SOPC_TIMER_RESOLUTION_MS then (False, s)
             else (True, s\<lparr>timers := timer_update timerId (t\<lparr>periodMs := msPeriod\<rparr>) (timers s)\<rparr>))
          else (False, s))"

section \<open>Evaluation\<close>

text \<open>The missed events of a periodic timer: their number, at most \<open>limit\<close>, and the next end time.\<close>

fun missed_events :: "nat \<Rightarrow> u64 \<Rightarrow> u64 \<Rightarrow> u64 \<Rightarrow> nat \<times> u64" where
  "missed_events 0 now end period = (0, end)"
| "missed_events (Suc limit) now end period =
     (if SOPC_TimeReference_Compare now end \<ge> 0
      then (let (n, e) = missed_events limit now (SOPC_TimeReference_AddMilliseconds end period) period in (Suc n, e))
      else (0, end))"

definition SOPC_InternalEventTimer_RestartPeriodicTimer_WithoutLock ::
  "('m) mem_env_scheme \<Rightarrow> 'e SOPC_EventTimer \<Rightarrow> 'e event_timers \<Rightarrow> 'e event_timers" where
  "SOPC_InternalEventTimer_RestartPeriodicTimer_WithoutLock env t s =
     (if mem_ok env sizeof_SOPC_SLinkedList_Elt then s\<lparr>timers := timer_insert (et_id t) t (timers s)\<rparr>
      else SOPC_Internal_EventTimer_Free_WithoutLock env t s)"

text \<open>
  The first loop, on the timers that the iterator has not delivered yet: it stops at the first timer in the
  future. The result holds the timers to restart, the state and the posted events.
\<close>

fun expire_timers ::
  "('m) mem_env_scheme \<Rightarrow> u64 \<Rightarrow> (u32 \<times> 'e SOPC_EventTimer) list \<Rightarrow> 'e SOPC_EventTimer list \<Rightarrow> 'e event_timers \<Rightarrow>
   'e list \<Rightarrow> ('e SOPC_EventTimer list \<times> 'e event_timers \<times> 'e list) option" where
  "expire_timers env now [] restart s posted = Some (restart, s, posted)"
| "expire_timers env now ((i, t) # it) restart s posted =
     (if SOPC_TimeReference_Compare now (endTime t) < 0 then Some (restart, s, posted)
      else if isPeriodicTimer t \<and> \<not> mem_ok env sizeof_SOPC_SLinkedList_Elt
      then expire_timers env now it restart s posted
      else if \<not> (mem_ok env sizeof_Event \<and> mem_ok env sizeof_SOPC_SLinkedList_Elt) then None
      else if isPeriodicTimer t then
        (if periodMs t = 0 then None
         else
           (let (n, e) = missed_events SOPC_TIMER_RESOLUTION_MS now
                  (SOPC_TimeReference_AddMilliseconds (endTime t) (periodMs t)) (periodMs t);
                u = t\<lparr>endTime := e\<rparr>
            in expire_timers env now it (restart @ [u]) (s\<lparr>timers := timer_update i u (timers s)\<rparr>)
                 (posted @ replicate (Suc n) (et_event t))))
      else expire_timers env now it restart (SOPC_Internal_EventTimer_Cancel_WithoutLock env (et_id t) s)
             (posted @ [et_event t]))"

text \<open>The restarted timers leave the list before any of them is inserted again.\<close>

fun unlink_timers :: "'e SOPC_EventTimer list \<Rightarrow> 'e event_timers \<Rightarrow> 'e event_timers option" where
  "unlink_timers [] s = Some s"
| "unlink_timers (t # ts) s =
     (case requests_remove (et_id t) (timers s) of
        (None, _) \<Rightarrow> None
      | (Some _, rest) \<Rightarrow> unlink_timers ts (s\<lparr>timers := rest\<rparr>))"

definition SOPC_EventTimer_CyclicTimersEvaluation ::
  "('m) mem_env_scheme \<Rightarrow> u64 \<Rightarrow> 'e event_timers \<Rightarrow> ('e list \<times> 'e event_timers) option" where
  "SOPC_EventTimer_CyclicTimersEvaluation env now s = do {
     (restart, s, posted) \<leftarrow> expire_timers env now (timers s) [] s [];
     s \<leftarrow> unlink_timers restart s;
     Some (posted, fold (SOPC_InternalEventTimer_RestartPeriodicTimer_WithoutLock env) restart s) }"

definition SOPC_EventTimer_Initialize :: "'e event_timers" where
  "SOPC_EventTimer_Initialize = \<lparr>timers = [], timerIdsFreed = [], timerIdMax = 0\<rparr>"

end
