(* ===== verification/SC_World.thy ===== *)
theory SC_World
  imports Chunks_Send Event_Timer
begin

text \<open>
  The state the secure channels layer shares between its parts (\<open>sopc_secure_channels_internal_ctx.h\<close> and
  \<open>.c\<close>): the array of connections, the array of listeners, the tables of secure channel configurations
  (\<open>sopc_toolkit_config.c\<close>), the timers, and the events that wait to be treated or were given to the layers
  above and below.

  A connection extends the record of the chunk manager by the fields only the state manager uses; a pointer
  field is an \<open>option\<close>. \<open>hasSentRequestIds\<close> is \<open>sentRequestIds != NULL\<close>. A crypto provider is represented by
  the URI of its security policy, a certificate by its content. Events that are posted and cannot be
  allocated are lost, as in the source, which ignores the status. The queue of internal events is the part of
  the queue of the looper that was filled by \<open>SOPC_SecureChannels_EnqueueInternalEventAsNext\<close>: its head is
  treated next.
\<close>

section \<open>Configuration constants\<close>

definition SOPC_MAX_SECURE_CONNECTIONS :: u32 where "SOPC_MAX_SECURE_CONNECTIONS = 21"
definition SOPC_MAX_SECURE_CONNECTIONS_PLUS_BUFFERED :: u32 where
  "SOPC_MAX_SECURE_CONNECTIONS_PLUS_BUFFERED = 5 * SOPC_MAX_SECURE_CONNECTIONS div 4"
definition SOPC_MAX_SOCKETS_CONNECTIONS :: nat where "SOPC_MAX_SOCKETS_CONNECTIONS = 50"
definition SOPC_MAX_ENDPOINT_DESCRIPTION_CONFIGURATIONS :: u32 where
  "SOPC_MAX_ENDPOINT_DESCRIPTION_CONFIGURATIONS = 10"
definition SOPC_MAX_REVERSE_CLIENT_CONNECTIONS :: nat where "SOPC_MAX_REVERSE_CLIENT_CONNECTIONS = 5"
definition SOPC_MINIMUM_SECURE_CONNECTION_LIFETIME :: u32 where "SOPC_MINIMUM_SECURE_CONNECTION_LIFETIME = 1000"
definition SOPC_SC_CONNECTION_TIMEOUT_MS :: u64 where "SOPC_SC_CONNECTION_TIMEOUT_MS = 10000"
definition SOPC_REVERSE_CONNECTION_RETRY_DELAY_MS :: u64 where "SOPC_REVERSE_CONNECTION_RETRY_DELAY_MS = 1000"

definition SOPC_REVERSE_CONNECTION_RECEIVE_RHE_DELAY_MS :: u64 where
  "SOPC_REVERSE_CONNECTION_RECEIVE_RHE_DELAY_MS = 1000"

definition SOPC_PROTOCOL_VERSION :: u32 where "SOPC_PROTOCOL_VERSION = 0"
definition SOPC_TCP_UA_MIN_BUFFER_SIZE :: u32 where "SOPC_TCP_UA_MIN_BUFFER_SIZE = 8192"
definition SOPC_TCP_UA_MAX_URL_AND_REASON_LENGTH :: u32 where "SOPC_TCP_UA_MAX_URL_AND_REASON_LENGTH = 4096"
definition SOPC_TCP_UA_ACK_MSG_LENGTH :: u32 where "SOPC_TCP_UA_ACK_MSG_LENGTH = 28"
definition SOPC_TCP_UA_HEL_MIN_MSG_LENGTH :: u32 where "SOPC_TCP_UA_HEL_MIN_MSG_LENGTH = 32"
definition SOPC_TCP_UA_ERR_MIN_MSG_LENGTH :: u32 where "SOPC_TCP_UA_ERR_MIN_MSG_LENGTH = 16"
definition SOPC_TCP_UA_RHE_MIN_MSG_LENGTH :: u32 where "SOPC_TCP_UA_RHE_MIN_MSG_LENGTH = 16"

definition SOPC_SECURITY_MODE_NONE_MASK :: u16 where "SOPC_SECURITY_MODE_NONE_MASK = 1"
definition SOPC_SECURITY_MODE_SIGN_MASK :: u16 where "SOPC_SECURITY_MODE_SIGN_MASK = 2"
definition SOPC_SECURITY_MODE_SIGNANDENCRYPT_MASK :: u16 where "SOPC_SECURITY_MODE_SIGNANDENCRYPT_MASK = 4"

definition SOPC_IS_VALID_EP_CONFIGURATION :: "u32 \<Rightarrow> bool" where
  "SOPC_IS_VALID_EP_CONFIGURATION x \<longleftrightarrow> x > 0 \<and> x \<le> 2 * SOPC_MAX_ENDPOINT_DESCRIPTION_CONFIGURATIONS"
definition SOPC_IS_VALID_CLASSIC_EP_CONFIGURATION :: "u32 \<Rightarrow> bool" where
  "SOPC_IS_VALID_CLASSIC_EP_CONFIGURATION x \<longleftrightarrow> x > 0 \<and> x \<le> SOPC_MAX_ENDPOINT_DESCRIPTION_CONFIGURATIONS"
definition SOPC_IS_VALID_REVERSE_EP_CONFIGURATION :: "u32 \<Rightarrow> bool" where
  "SOPC_IS_VALID_REVERSE_EP_CONFIGURATION x \<longleftrightarrow>
     x > SOPC_MAX_ENDPOINT_DESCRIPTION_CONFIGURATIONS \<and> x \<le> 2 * SOPC_MAX_ENDPOINT_DESCRIPTION_CONFIGURATIONS"

lemmas ep_config_defs = SOPC_IS_VALID_EP_CONFIGURATION_def SOPC_IS_VALID_CLASSIC_EP_CONFIGURATION_def
  SOPC_IS_VALID_REVERSE_EP_CONFIGURATION_def SOPC_MAX_ENDPOINT_DESCRIPTION_CONFIGURATIONS_def

lemma MAX_SC [simp]: "SOPC_MAX_SECURE_CONNECTIONS_PLUS_BUFFERED = 26"
  by (simp add: SOPC_MAX_SECURE_CONNECTIONS_PLUS_BUFFERED_def SOPC_MAX_SECURE_CONNECTIONS_def)

text \<open>Further status codes of \<open>opcua_statuscodes.h\<close>.\<close>

definition OpcUa_BadInternalError :: SOPC_StatusCode where "OpcUa_BadInternalError = 0x80020000"
definition OpcUa_BadResourceUnavailable :: SOPC_StatusCode where "OpcUa_BadResourceUnavailable = 0x80040000"
definition OpcUa_BadTimeout :: SOPC_StatusCode where "OpcUa_BadTimeout = 0x800A0000"
definition OpcUa_BadSecureChannelIdInvalid :: SOPC_StatusCode where "OpcUa_BadSecureChannelIdInvalid = 0x80220000"
definition OpcUa_BadNonceInvalid :: SOPC_StatusCode where "OpcUa_BadNonceInvalid = 0x80240000"
definition OpcUa_BadSessionNotActivated :: SOPC_StatusCode where "OpcUa_BadSessionNotActivated = 0x80270000"
definition OpcUa_BadNoValidCertificates :: SOPC_StatusCode where "OpcUa_BadNoValidCertificates = 0x80590000"
definition OpcUa_BadSecurityModeRejected :: SOPC_StatusCode where "OpcUa_BadSecurityModeRejected = 0x80540000"
definition OpcUa_BadTypeMismatch :: SOPC_StatusCode where "OpcUa_BadTypeMismatch = 0x80740000"
definition OpcUa_BadTcpEndpointUrlInvalid :: SOPC_StatusCode where "OpcUa_BadTcpEndpointUrlInvalid = 0x80830000"
definition OpcUa_BadSecureChannelClosed :: SOPC_StatusCode where "OpcUa_BadSecureChannelClosed = 0x80860000"
definition OpcUa_BadConnectionClosed :: SOPC_StatusCode where "OpcUa_BadConnectionClosed = 0x80AE0000"
definition OpcUa_BadInvalidState :: SOPC_StatusCode where "OpcUa_BadInvalidState = 0x80AF0000"
definition OpcUa_BadProtocolVersionUnsupported :: SOPC_StatusCode where
  "OpcUa_BadProtocolVersionUnsupported = 0x80BE0000"
definition OpcUa_BadRequestNotAllowed :: SOPC_StatusCode where "OpcUa_BadRequestNotAllowed = 0x80E40000"

section \<open>Configurations\<close>

text \<open>A key and certificate pair, by what \<open>SOPC_KeyCertPair_GetKeyCopy\<close> and \<open>_GetCertCopy\<close> answer.\<close>

record SOPC_KeyCertPair =
  keyCopy_ok :: bool
  certCopy :: "byte list option"
  certSerialized :: "byte list option"

record SOPC_SecureChannel_Config =
  isClientSc :: bool
  clientKeyCertPair :: "SOPC_KeyCertPair option"
  clientPKI :: "nat option"
  serverUri :: "byte list option"
  cfg_url :: "byte list option"
  cfg_secureChannelId :: u32
  peerAppCert :: "SOPC_KeyCertPair option"
  cfg_reqSecuPolicyUri :: "byte list"
  requestedLifetime :: u32
  msgSecurityMode :: OpcUa_MessageSecurityMode
  clientPeerInfo :: "byte list option"
  clientAuditInfo :: "byte list option"
  internalProtocolData :: u32

record SOPC_Endpoint_Config =
  endpointURL :: "byte list"
  serverKeyCertPair :: "SOPC_KeyCertPair option"
  serverPKI :: "nat option"
  ApplicationUri :: SOPC_String
  noListening :: bool
  nbClientsToConnect :: u16
  clientsToConnect :: "byte list list"

section \<open>Connections and listeners\<close>

record SOPC_SecureConnection_TcpAsymmSecu =
  asym_securityPolicyUri :: "byte list option"
  validSecurityModes :: u16
  isSecureModeActive :: bool
  asym_clientCertificate :: "byte list option"

record sc_connection = SOPC_SecureConnection +
  hasSentRequestIds :: bool
  serverAsymmSecuInfo :: SOPC_SecureConnection_TcpAsymmSecu
  isReverseConnection :: bool
  serverReverseConnIdx :: u16
  clientReverseEpConfigIdx :: u32
  socketIndex :: u32
  connectionTimeoutTimerId :: u32
  cryptoProvider :: "byte list option"
  clientNonce :: "byte list option"
  secuTokenRenewTimerId :: u32
  peerInfo :: "byte list option"
  altClientAuditInfo :: "byte list option"
  serverEndpointConfigIdx :: u32
  serverCertificate :: "byte list option"
  clientCertificate :: "byte list option"

definition ctx_zero :: SOPC_SecureConnection_ChunkMgrCtx where
  "ctx_zero = \<lparr>currentChunkInputBuffer = None, currentMsgSize = 0, currentMsgType = SOPC_MSG_TYPE_INVALID,
     currentMsgIsFinal = SOPC_MSG_ISFINAL_INVALID, intermediateChunksInputBuffers = None,
     hasCurrentMsgRequestId = False, currentMsgRequestId = 0, currentMessageInputBuffer = None\<rparr>"

definition tcp_zero :: SOPC_SecureConnection_TcpProperties where
  "tcp_zero = \<lparr>protocolVersion = 0, receiveBufferSize = 0, sendBufferSize = 0, receiveMaxMessageSize = 0,
     sendMaxMessageSize = 0, receiveMaxChunkCount = 0, sendMaxChunkCount = 0\<rparr>"

definition token_zero :: SOPC_SecureConnection_SecurityToken where
  "token_zero = \<lparr>secureChannelId = 0, tokenId = 0, createdAt = 0, lifetimeEndTimeRef = 0, revisedLifetime = 0\<rparr>"

definition keysets_zero :: SOPC_SC_SecurityKeySets where
  "keysets_zero = \<lparr>senderKeySet = None, receiverKeySet = None\<rparr>"

definition asym_zero :: SOPC_SecureConnection_TcpAsymmSecu where
  "asym_zero = \<lparr>asym_securityPolicyUri = None, validSecurityModes = 0, isSecureModeActive = False,
     asym_clientCertificate = None\<rparr>"

text \<open>A connection whose bytes are all 0.\<close>

definition sc_zero :: sc_connection where
  "sc_zero = \<lparr>chunksCtx = ctx_zero,
     tcpSeqProperties = \<lparr>lastSNsent = 0, lastSNreceived = 0, sentRequestIds = []\<rparr>,
     asymmSecuMaxBodySize = 0, symmSecuMaxBodySize = 0, hasExtraPaddingSize = False, clientSecureChannelId = 0,
     clientNextReqId = 0, sc_state = SECURE_CONNECTION_STATE_SC_CLOSED, secureChannelConfigIdx = 0,
     tcpMsgProperties = tcp_zero, precedentSecurityToken = token_zero, precedentSecuKeySets = keysets_zero,
     currentSecurityToken = token_zero, currentSecuKeySets = keysets_zero, serverNewSecuTokenActive = False,
     isServerConnection = False, has_privateKey = False,
     hasSentRequestIds = False, serverAsymmSecuInfo = asym_zero, isReverseConnection = False,
     serverReverseConnIdx = 0, clientReverseEpConfigIdx = 0, socketIndex = 0, connectionTimeoutTimerId = 0,
     cryptoProvider = None, clientNonce = None, secuTokenRenewTimerId = 0, peerInfo = None,
     altClientAuditInfo = None, serverEndpointConfigIdx = 0, serverCertificate = None, clientCertificate = None\<rparr>"

datatype SOPC_SecureListener_State =
    SECURE_LISTENER_STATE_CLOSED
  | SECURE_LISTENER_STATE_OPENING
  | SECURE_LISTENER_STATE_OPENED
  | SECURE_LISTENER_STATE_INACTIVE

text \<open>
  The arrays \<open>connectionIdxArray\<close> and \<open>isUsedConnectionIdxArray\<close> of a listener have
  \<open>SOPC_MAX_SOCKETS_CONNECTIONS\<close> elements, \<open>reverseConnRetryTimerIds\<close> has \<open>SOPC_MAX_REVERSE_CLIENT_CONNECTIONS\<close>.
\<close>

record SOPC_SecureListener =
  sl_state :: SOPC_SecureListener_State
  reverseEnpoint :: bool
  sl_serverEndpointConfigIdx :: u32
  sl_socketIndex :: u32
  connectionIdxArray :: "u32 list"
  isUsedConnectionIdxArray :: "bool list"
  lastConnectionIdxArrayIdx :: nat
  reverseConnRetryTimerIds :: "u32 list"

definition listener_zero :: SOPC_SecureListener where
  "listener_zero = \<lparr>sl_state = SECURE_LISTENER_STATE_CLOSED, reverseEnpoint = False, sl_serverEndpointConfigIdx = 0,
     sl_socketIndex = 0, connectionIdxArray = replicate SOPC_MAX_SOCKETS_CONNECTIONS 0,
     isUsedConnectionIdxArray = replicate SOPC_MAX_SOCKETS_CONNECTIONS False, lastConnectionIdxArrayIdx = 0,
     reverseConnRetryTimerIds = replicate SOPC_MAX_REVERSE_CLIENT_CONNECTIONS 0\<rparr>"

section \<open>Events\<close>

datatype SOPC_SecureChannels_TimerEvent =
    TIMER_SC_CONNECTION_TIMEOUT u32
  | TIMER_SC_SERVER_REVERSE_CONN_RETRY u32 uintptr
  | TIMER_SC_CLIENT_OPN_RENEW u32
  | TIMER_SC_REQUEST_TIMEOUT u32 uintptr uintptr
  | TIMER_SC_RHE_RECEPTION_TIMEOUT u32

text \<open>The internal events; those of the chunk manager are the ones of its own theories.\<close>

datatype sc_internal_event =
    INT_EP_SC_CREATE u32 "byte list option" uintptr
  | INT_EP_SC_CLOSE u32 uintptr
  | INT_EP_SC_REVERSE_CONNECT u32 uintptr
  | INT_SC_RCV_RHE_TRANSITION u32
  | INT_EP_SC_CREATED u32 uintptr
  | INT_EP_SC_RHE_DECODED u32 "byte list option" "byte list option"
  | INT_EP_SC_DISCONNECTED u32 uintptr
  | INT_REVERSE_EP_REQ_CONNECTION u32 uintptr
  | INT_SC_RCV SOPC_LooperEvent
  | INT_SC_FAILURE SOPC_SendFailure
  | INT_SC_SND SOPC_SendEvent u32 bufp uintptr
  | INT_SC_CLOSE u32 "byte list" SOPC_StatusCode

datatype SOPC_SecureChannels_OutputEvent =
    EP_CONNECTED u32 u32 u32
  | EP_CLOSED u32 SOPC_ReturnStatus
  | EP_REVERSE_CLOSED u32 SOPC_ReturnStatus
  | SC_CONNECTED u32 u32
  | SC_REVERSE_CONNECTED u32 u32 u16
  | SC_CONNECTION_TIMEOUT u32
  | SC_DISCONNECTED u32 u32 SOPC_StatusCode
  | SC_SERVICE_RCV_MSG u32 bufp uintptr
  | SC_SND_FAILURE u32 uintptr SOPC_StatusCode
  | SC_REQUEST_TIMEOUT u32 u32

datatype SOPC_Sockets_InputEvent =
    SOCKET_CREATE_LISTENER u32 "byte list option"
  | SOCKET_ACCEPTED_CONNECTION u32 u32
  | SOCKET_CREATE_CONNECTION u32 "byte list option"
  | SOCKET_CLOSE u32 u32
  | SOCKET_CLOSE_LISTENER u32 u32

section \<open>Messages\<close>

text \<open>
  The content of the messages that open a secure channel. Their encoding is generated from the schema of the
  types and is a parameter of the model, below.
\<close>

record OpcUa_RequestHeader =
  reqh_RequestHandle :: u32
  reqh_Timestamp :: i64
  reqh_TimeoutHint :: u32

record OpcUa_ResponseHeader =
  resph_Timestamp :: i64
  resph_RequestHandle :: u32
  resph_ServiceResult :: SOPC_StatusCode

datatype OpcUa_SecurityTokenRequestType =
    OpcUa_SecurityTokenRequestType_Issue
  | OpcUa_SecurityTokenRequestType_Renew

record OpcUa_OpenSecureChannelRequest =
  ClientProtocolVersion :: u32
  RequestType :: OpcUa_SecurityTokenRequestType
  SecurityMode :: OpcUa_MessageSecurityMode
  ClientNonce :: "byte list"
  RequestedLifetime :: u32

record OpcUa_OpenSecureChannelResponse =
  ServerProtocolVersion :: u32
  ChannelId :: u32
  TokenId :: u32
  CreatedAt :: i64
  RevisedLifetime :: u32
  ServerNonce :: "byte list"

datatype sc_message_type =
    OpenSecureChannelRequest_type
  | OpenSecureChannelResponse_type
  | CloseSecureChannelRequest_type
  | Other_type

section \<open>The environment\<close>

text \<open>
  Besides the environment of the chunk manager: the configuration of the endpoints, the clock, the
  cryptographic functions (by security policy; \<open>None\<close> for a failure), the \<open>n\<close>-th random value, and the
  codec of the messages. \<open>deriveKeySets\<close> takes whether the server derives, the nonces of the client and of the server, and
  gives the key sets of the client and of the server.
\<close>

record scm_env = sc_env +
  epConfigs :: "u32 \<Rightarrow> SOPC_Endpoint_Config option"
  reverseEpConfigs :: "u32 \<Rightarrow> byte list option"
  currentTimeUTC :: i64
  cryptoProviderCreate_ok :: "byte list \<Rightarrow> bool"
  deriveGetLengths :: "byte list \<Rightarrow> (u32 \<times> u32 \<times> u32) option"
  secureChannelNonceLength :: "byte list \<Rightarrow> u32 option"
  generateNonce :: "byte list \<Rightarrow> nat \<Rightarrow> byte list option"
  generateRandomID :: "nat \<Rightarrow> u32 option"
  deriveKeySets :: "bool \<Rightarrow> byte list \<Rightarrow> byte list \<Rightarrow> byte list \<Rightarrow>
    (SOPC_SC_SecurityKeySet \<times> SOPC_SC_SecurityKeySet) option"
  certificateToDER :: "byte list \<Rightarrow> byte list option"
  certificateValidate :: "byte list option \<Rightarrow> nat \<Rightarrow> bool \<Rightarrow> byte list option \<Rightarrow> bool"
  certHolderFromBytes :: "byte list \<Rightarrow> SOPC_KeyCertPair option"
  encodeOpenRequest :: "OpcUa_RequestHeader \<Rightarrow> OpcUa_OpenSecureChannelRequest \<Rightarrow> SOPC_Buffer \<Rightarrow>
    SOPC_ReturnStatus \<times> SOPC_Buffer"
  encodeOpenResponse :: "OpcUa_ResponseHeader \<Rightarrow> OpcUa_OpenSecureChannelResponse \<Rightarrow> SOPC_Buffer \<Rightarrow>
    SOPC_ReturnStatus \<times> SOPC_Buffer"
  encodeCloseRequest :: "OpcUa_RequestHeader \<Rightarrow> SOPC_Buffer \<Rightarrow> SOPC_ReturnStatus \<times> SOPC_Buffer"
  readMessageType :: "SOPC_Buffer \<Rightarrow> sc_message_type option \<times> SOPC_Buffer"
  decodeRequestHeader :: "SOPC_Buffer \<Rightarrow> OpcUa_RequestHeader option \<times> SOPC_Buffer"
  decodeResponseHeader :: "SOPC_Buffer \<Rightarrow> OpcUa_ResponseHeader option \<times> SOPC_Buffer"
  decodeOpenRequest :: "SOPC_Buffer \<Rightarrow> OpcUa_OpenSecureChannelRequest option \<times> SOPC_Buffer"
  decodeOpenResponse :: "SOPC_Buffer \<Rightarrow> OpcUa_OpenSecureChannelResponse option \<times> SOPC_Buffer"

section \<open>The state\<close>

record sc_world =
  secureConnectionsArray :: "u32 \<Rightarrow> sc_connection"
  lastSecureConnectionArrayIdx :: u32
  secureListenersArray :: "u32 \<Rightarrow> SOPC_SecureListener"
  initDone :: bool
  serverConfigLocked :: bool
  serverConfigUsedCounter :: byte
  isServerConfigurationLocked :: bool
  scConfigs :: "u32 \<Rightarrow> SOPC_SecureChannel_Config option"
  serverScConfigs :: "u32 \<Rightarrow> SOPC_SecureChannel_Config option"
  serverScLastConfigIdx :: u32
  sc_timers :: "SOPC_SecureChannels_TimerEvent event_timers"
  random_calls :: nat
  internalEvents :: "sc_internal_event list"
  servicesEvents :: "SOPC_SecureChannels_OutputEvent list"
  socketsEvents :: "SOPC_Sockets_InputEvent list"

definition sc_update :: "u32 \<Rightarrow> (sc_connection \<Rightarrow> sc_connection) \<Rightarrow> sc_world \<Rightarrow> sc_world" where
  "sc_update i f w =
     w\<lparr>secureConnectionsArray := (secureConnectionsArray w)(i := f (secureConnectionsArray w i))\<rparr>"

definition SC_GetConnection :: "u32 \<Rightarrow> sc_world \<Rightarrow> sc_connection option" where
  "SC_GetConnection connectionIdx w =
     (if connectionIdx > 0 \<and> connectionIdx \<le> SOPC_MAX_SECURE_CONNECTIONS_PLUS_BUFFERED
      then Some (secureConnectionsArray w connectionIdx) else None)"

definition SC_OwnCertificate :: "sc_connection \<Rightarrow> byte list option" where
  "SC_OwnCertificate conn = (if isServerConnection conn then serverCertificate conn else clientCertificate conn)"

definition SC_PeerCertificate :: "sc_connection \<Rightarrow> byte list option" where
  "SC_PeerCertificate conn = (if isServerConnection conn then clientCertificate conn else serverCertificate conn)"

text \<open>The array of listeners has \<open>2 * SOPC_MAX_ENDPOINT_DESCRIPTION_CONFIGURATIONS + 1\<close> elements.\<close>

definition listener_at :: "u32 \<Rightarrow> sc_world \<Rightarrow> SOPC_SecureListener option" where
  "listener_at i w =
     (if i \<le> 2 * SOPC_MAX_ENDPOINT_DESCRIPTION_CONFIGURATIONS then Some (secureListenersArray w i) else None)"

definition sc_initial :: "bool \<Rightarrow> bool \<Rightarrow> (u32 \<Rightarrow> SOPC_SecureChannel_Config option) \<Rightarrow> sc_world" where
  "sc_initial init locked cfgs = \<lparr>secureConnectionsArray = (\<lambda>_. sc_zero), lastSecureConnectionArrayIdx = 0,
     secureListenersArray = (\<lambda>_. listener_zero), initDone = init, serverConfigLocked = locked,
     serverConfigUsedCounter = 0, isServerConfigurationLocked = False, scConfigs = cfgs,
     serverScConfigs = (\<lambda>_. None), serverScLastConfigIdx = 0, sc_timers = SOPC_EventTimer_Initialize,
     random_calls = 0, internalEvents = [], servicesEvents = [], socketsEvents = []\<rparr>"

subsection \<open>Events\<close>

definition post_ok :: "scm_env \<Rightarrow> bool" where
  "post_ok env \<longleftrightarrow> mem_ok (sc_enc env) sizeof_Event \<and> mem_ok (sc_enc env) sizeof_list_elt"

definition SOPC_SecureChannels_EnqueueInternalEventAsNext :: "scm_env \<Rightarrow> sc_internal_event \<Rightarrow> sc_world \<Rightarrow> sc_world" where
  "SOPC_SecureChannels_EnqueueInternalEventAsNext env e w =
     (if post_ok env then w\<lparr>internalEvents := e # internalEvents w\<rparr> else w)"

definition post_services :: "scm_env \<Rightarrow> SOPC_SecureChannels_OutputEvent \<Rightarrow> sc_world \<Rightarrow> sc_world" where
  "post_services env e w = (if post_ok env then w\<lparr>servicesEvents := servicesEvents w @ [e]\<rparr> else w)"

definition SOPC_Sockets_EnqueueEvent :: "scm_env \<Rightarrow> SOPC_Sockets_InputEvent \<Rightarrow> sc_world \<Rightarrow> sc_world" where
  "SOPC_Sockets_EnqueueEvent env e w = (if post_ok env then w\<lparr>socketsEvents := socketsEvents w @ [e]\<rparr> else w)"

definition timer_create :: "scm_env \<Rightarrow> SOPC_SecureChannels_TimerEvent \<Rightarrow> u64 \<Rightarrow> sc_world \<Rightarrow> u32 \<times> sc_world" where
  "timer_create env e ms w =
     (let (i, ts) = SOPC_EventTimer_Create (sc_enc env) (currentTimeRef env) e ms (sc_timers w)
      in (i, w\<lparr>sc_timers := ts\<rparr>))"

definition timer_cancel :: "scm_env \<Rightarrow> u32 \<Rightarrow> sc_world \<Rightarrow> sc_world" where
  "timer_cancel env i w = w\<lparr>sc_timers := SOPC_EventTimer_Cancel (sc_enc env) i (sc_timers w)\<rparr>"

subsection \<open>Configuration tables\<close>

definition SOPC_ToolkitClient_GetSecureChannelConfig :: "u32 \<Rightarrow> sc_world \<Rightarrow> SOPC_SecureChannel_Config option" where
  "SOPC_ToolkitClient_GetSecureChannelConfig scConfigIdx w =
     (if scConfigIdx > 0 \<and> scConfigIdx \<le> SOPC_MAX_SECURE_CONNECTIONS_PLUS_BUFFERED \<and> initDone w
      then scConfigs w scConfigIdx else None)"

definition SOPC_ToolkitClient_GetReverseEndpointURL :: "scm_env \<Rightarrow> u32 \<Rightarrow> sc_world \<Rightarrow> byte list option" where
  "SOPC_ToolkitClient_GetReverseEndpointURL env i w =
     (if SOPC_IS_VALID_REVERSE_EP_CONFIGURATION i \<and> initDone w
      then reverseEpConfigs env (i - SOPC_MAX_ENDPOINT_DESCRIPTION_CONFIGURATIONS) else None)"

text \<open>The search of a free index, from the last one used, once around the table; 0 for no index.\<close>

partial_function (option) find_free :: "(u32 \<Rightarrow> bool) \<Rightarrow> u32 \<Rightarrow> u32 \<Rightarrow> (bool \<times> u32) option" where
  "find_free free start idx =
     (let (result, idx) =
            (if idx < SOPC_MAX_SECURE_CONNECTIONS_PLUS_BUFFERED then (free (idx + 1), idx + 1) else (False, 0))
      in if idx \<noteq> start \<and> \<not> result then find_free free start idx else Some (result, idx))"

definition SOPC_ToolkitServer_AddSecureChannelConfig ::
  "SOPC_SecureChannel_Config \<Rightarrow> sc_world \<Rightarrow> (u32 \<times> sc_world) option" where
  "SOPC_ToolkitServer_AddSecureChannelConfig scConfig w =
     (if initDone w then do {
        (found, i) \<leftarrow> find_free (\<lambda>i. serverScConfigs w i = None) (serverScLastConfigIdx w) (serverScLastConfigIdx w);
        Some (if found
              then (SOPC_MAX_SECURE_CONNECTIONS_PLUS_BUFFERED + i,
                    w\<lparr>serverScLastConfigIdx := i, serverScConfigs := (serverScConfigs w)(i \<mapsto> scConfig)\<rparr>)
              else (0, w)) }
      else Some (0, w))"

definition SOPC_ToolkitServer_TranslateSecureChannelConfigIdxOffset :: "u32 \<Rightarrow> u32" where
  "SOPC_ToolkitServer_TranslateSecureChannelConfigIdxOffset i =
     (if i > SOPC_MAX_SECURE_CONNECTIONS_PLUS_BUFFERED \<and> i \<le> 2 * SOPC_MAX_SECURE_CONNECTIONS_PLUS_BUFFERED
      then i - SOPC_MAX_SECURE_CONNECTIONS_PLUS_BUFFERED else 0)"

definition SOPC_ToolkitServer_GetSecureChannelConfig :: "u32 \<Rightarrow> sc_world \<Rightarrow> SOPC_SecureChannel_Config option" where
  "SOPC_ToolkitServer_GetSecureChannelConfig serverScConfigIdx w =
     (let i = SOPC_ToolkitServer_TranslateSecureChannelConfigIdxOffset serverScConfigIdx
      in if i \<noteq> 0 \<and> initDone w \<and> serverConfigLocked w then serverScConfigs w i else None)"

definition SOPC_ToolkitServer_RemoveSecureChannelConfig :: "u32 \<Rightarrow> sc_world \<Rightarrow> bool \<times> sc_world" where
  "SOPC_ToolkitServer_RemoveSecureChannelConfig serverScConfigIdx w =
     (let i = SOPC_ToolkitServer_TranslateSecureChannelConfigIdxOffset serverScConfigIdx
      in if i \<noteq> 0 \<and> initDone w \<and> serverConfigLocked w \<and> serverScConfigs w i \<noteq> None
         then (True, w\<lparr>serverScConfigs := (serverScConfigs w)(i := None)\<rparr>) else (False, w))"

text \<open>The array of endpoint configurations is read without a check of the index.\<close>

definition SOPC_ToolkitServer_GetEndpointConfig :: "scm_env \<Rightarrow> u32 \<Rightarrow> sc_world \<Rightarrow> SOPC_Endpoint_Config option option" where
  "SOPC_ToolkitServer_GetEndpointConfig env i w =
     (if initDone w \<and> serverConfigLocked w then
        (if i \<le> SOPC_MAX_ENDPOINT_DESCRIPTION_CONFIGURATIONS then Some (epConfigs env i) else None)
      else Some None)"

text \<open>Writing back a configuration the source changes through its pointer.\<close>

definition client_config_update ::
  "u32 \<Rightarrow> (SOPC_SecureChannel_Config \<Rightarrow> SOPC_SecureChannel_Config) \<Rightarrow> sc_world \<Rightarrow> sc_world" where
  "client_config_update i f w = w\<lparr>scConfigs := (scConfigs w)(i := map_option f (scConfigs w i))\<rparr>"

definition server_config_update ::
  "u32 \<Rightarrow> (SOPC_SecureChannel_Config \<Rightarrow> SOPC_SecureChannel_Config) \<Rightarrow> sc_world \<Rightarrow> sc_world" where
  "server_config_update i f w =
     (let j = SOPC_ToolkitServer_TranslateSecureChannelConfigIdxOffset i
      in w\<lparr>serverScConfigs := (serverScConfigs w)(j := map_option f (serverScConfigs w j))\<rparr>)"

end
