(* ===== verification/SC_Close.thy ===== *)
theory SC_Close
  imports SC_World
begin

text \<open>
  Creation and closure of secure connections, from
  \<open>src/ClientServer/secure_channels/sopc_secure_connection_state_mgr.c\<close>.

  The functions take the index of the connection they work on and the state; \<open>None\<close> is a failed assertion or
  an access outside of an array. The audit events are left out: they read the connection and go to the
  application.
\<close>

section \<open>C strings\<close>

definition SOPC_strdup :: "enc_env \<Rightarrow> byte list option \<Rightarrow> byte list option option" where
  "SOPC_strdup env s =
     (case s of None \<Rightarrow> Some None
      | Some c \<Rightarrow> do {
          len \<leftarrow> c_strlen c;
          Some (if mem_ok env (1 + len) then Some (take len c @ [0]) else None) })"

definition SOPC_String_GetCString :: "enc_env \<Rightarrow> SOPC_String \<Rightarrow> byte list option option" where
  "SOPC_String_GetCString env string =
     (let (data, len) = (if Str_Data string = None \<or> sint (Str_Length string) \<le> 0 then ([0], 0)
                         else (the (Str_Data string), nat (sint (Str_Length string))))
      in if mem_ok env (len + 1) then map_option Some (mem_read data 0 (len + 1)) else Some None)"

section \<open>Creation\<close>

definition tcp_initial :: "SOPC_Common_EncodingConstants \<Rightarrow> SOPC_SecureConnection_TcpProperties" where
  "tcp_initial cfg = \<lparr>protocolVersion = SOPC_PROTOCOL_VERSION, receiveBufferSize = buffer_size cfg,
     sendBufferSize = buffer_size cfg, receiveMaxMessageSize = receive_max_msg_size cfg,
     sendMaxMessageSize = send_max_msg_size cfg, receiveMaxChunkCount = receive_max_nb_chunks cfg,
     sendMaxChunkCount = send_max_nb_chunks cfg\<rparr>"

text \<open>The peer information ends with a character that serves the audit only.\<close>

definition trim_peerInfo :: "byte list option \<Rightarrow> byte list option option" where
  "trim_peerInfo info =
     (case info of None \<Rightarrow> Some None
      | Some c \<Rightarrow> do {
          len \<leftarrow> c_strlen c;
          Some (Some (if len > 0 then c[len - 1 := 0] else c)) })"

definition SC_InitNewConnection :: "scm_env \<Rightarrow> byte list option \<Rightarrow> sc_world \<Rightarrow> (bool \<times> u32 \<times> sc_world) option" where
  "SC_InitNewConnection env peer w = do {
     (found, idx) \<leftarrow> find_free (\<lambda>i. sc_state (secureConnectionsArray w i) = SECURE_CONNECTION_STATE_SC_CLOSED)
       (lastSecureConnectionArrayIdx w) (lastSecureConnectionArrayIdx w);
     if found then do {
       copy \<leftarrow> SOPC_strdup (sc_enc env) peer;
       info \<leftarrow> trim_peerInfo copy;
       let created = mem_ok (sc_enc env) sizeof_list;
       let w = sc_update idx (\<lambda>c. c\<lparr>tcpMsgProperties := tcp_initial (enc_cfg (sc_enc env)),
                 tcpSeqProperties := (tcpSeqProperties c)\<lparr>sentRequestIds := []\<rparr>, hasSentRequestIds := created,
                 peerInfo := info, altClientAuditInfo := peer, sc_state := SECURE_CONNECTION_STATE_TCP_INIT\<rparr>) w;
       Some (if created then (True, idx, w\<lparr>lastSecureConnectionArrayIdx := idx\<rparr>) else (False, 0, w)) }
     else Some (False, 0, w) }"

section \<open>Timers\<close>

text \<open>The identifier 0 stands for a timer that could not be created.\<close>

definition SC_StartConnectionEstablishTimer :: "scm_env \<Rightarrow> u32 \<Rightarrow> sc_world \<Rightarrow> (SOPC_ReturnStatus \<times> sc_world) option" where
  "SC_StartConnectionEstablishTimer env idx w =
     (if idx > 0 \<and> idx \<le> SOPC_MAX_SECURE_CONNECTIONS_PLUS_BUFFERED then
        (let (i, w) = timer_create env (TIMER_SC_CONNECTION_TIMEOUT idx) SOPC_SC_CONNECTION_TIMEOUT_MS w
         in Some (if i = 0 then SOPC_STATUS_NOK else SOPC_STATUS_OK,
                  sc_update idx (\<lambda>c. c\<lparr>connectionTimeoutTimerId := i\<rparr>) w))
      else None)"

definition SC_Server_StartReverseConnRetryTimer :: "scm_env \<Rightarrow> u32 \<Rightarrow> u16 \<Rightarrow> sc_world \<Rightarrow> sc_world option" where
  "SC_Server_StartReverseConnRetryTimer env ep reverseConnIdx w =
     (if SOPC_IS_VALID_CLASSIC_EP_CONFIGURATION ep \<and> unat reverseConnIdx < SOPC_MAX_REVERSE_CLIENT_CONNECTIONS then
        (let (i, w) = timer_create env (TIMER_SC_SERVER_REVERSE_CONN_RETRY ep (ucast reverseConnIdx))
                        SOPC_REVERSE_CONNECTION_RETRY_DELAY_MS w;
             l = secureListenersArray w ep
         in Some (w\<lparr>secureListenersArray := (secureListenersArray w)(ep :=
              l\<lparr>reverseConnRetryTimerIds := (reverseConnRetryTimerIds l)[unat reverseConnIdx := i]\<rparr>)\<rparr>))
      else None)"

definition SC_Client_StartOPNrenewTimer :: "scm_env \<Rightarrow> u32 \<Rightarrow> u32 \<Rightarrow> sc_world \<Rightarrow> (SOPC_ReturnStatus \<times> sc_world) option" where
  "SC_Client_StartOPNrenewTimer env idx timeoutMs w =
     (if idx > 0 \<and> idx \<le> SOPC_MAX_SECURE_CONNECTIONS_PLUS_BUFFERED then
        (let (i, w) = timer_create env (TIMER_SC_CLIENT_OPN_RENEW idx) (ucast timeoutMs) w
         in Some (if i = 0 then SOPC_STATUS_NOK else SOPC_STATUS_OK,
                  sc_update idx (\<lambda>c. c\<lparr>secuTokenRenewTimerId := i\<rparr>) w))
      else None)"

section \<open>Closure\<close>

definition SC_Client_ClearPendingRequest :: "scm_env \<Rightarrow> u32 \<times> SOPC_SentRequestMsg_Context \<Rightarrow> sc_world \<Rightarrow> sc_world" where
  "SC_Client_ClearPendingRequest env req w =
     (let msgCtx = snd req; w = timer_cancel env (timerId msgCtx) w
      in if msgType msgCtx = SOPC_MSG_TYPE_SC_MSG
         then post_services env (SC_SND_FAILURE (scConnectionIdx msgCtx) (ucast (requestHandle msgCtx))
                OpcUa_BadSecureChannelClosed) w
         else w)"

definition sc_is_connected :: "SOPC_SecureConnection_State \<Rightarrow> bool" where
  "sc_is_connected st \<longleftrightarrow>
     st = SECURE_CONNECTION_STATE_SC_CONNECTED \<or> st = SECURE_CONNECTION_STATE_SC_CONNECTED_RENEW"

definition sc_is_closed :: "SOPC_SecureConnection_State \<Rightarrow> bool" where
  "sc_is_closed st \<longleftrightarrow> st = SECURE_CONNECTION_STATE_SC_CLOSED \<or> st = SECURE_CONNECTION_STATE_SC_CLOSING"

text \<open>
  Every block the connection owns is freed and its bytes are set to 0. A connection that was established
  waits in the state closing for the acknowledgement of the services layer.
\<close>

definition SC_CloseConnection :: "scm_env \<Rightarrow> u32 \<Rightarrow> bool \<Rightarrow> sc_world \<Rightarrow> (bool \<times> sc_world) option" where
  "SC_CloseConnection env idx socketFailure w =
     (if idx > 0 \<and> idx \<le> SOPC_MAX_SECURE_CONNECTIONS_PLUS_BUFFERED then
        (let sc = secureConnectionsArray w idx; prevState = sc_state sc
         in if prevState \<noteq> SECURE_CONNECTION_STATE_SC_CLOSED then
              (if hasSentRequestIds sc then
                 (let w = fold (SC_Client_ClearPendingRequest env) (sentRequestIds (tcpSeqProperties sc)) w;
                      w = (if socketFailure then w else SOPC_Sockets_EnqueueEvent env (SOCKET_CLOSE (socketIndex sc) idx) w)
                  in Some (True, sc_update idx (\<lambda>_. sc_zero\<lparr>sc_state :=
                       (if sc_is_connected prevState then SECURE_CONNECTION_STATE_SC_CLOSING
                        else SECURE_CONNECTION_STATE_SC_CLOSED)\<rparr>) w))
               else None)
            else Some (False, w))
      else Some (False, w))"

definition SC_Server_SendErrorMsgAndClose ::
  "scm_env \<Rightarrow> u32 \<Rightarrow> SOPC_StatusCode \<Rightarrow> byte list \<Rightarrow> sc_world \<Rightarrow> (bool \<times> sc_world) option" where
  "SC_Server_SendErrorMsgAndClose env idx errorStatus reason w =
     (case SOPC_Buffer_Create (sc_enc env) (SOPC_TCP_UA_ERR_MIN_MSG_LENGTH + SOPC_TCP_UA_MAX_URL_AND_REASON_LENGTH) of
        None \<Rightarrow> Some (False, w)
      | Some b \<Rightarrow> do {
          (status, b) \<leftarrow>
            and_then
              (and_then
                (and_then (SOPC_Buffer_SetDataLength (Some b) SOPC_TCP_UA_HEADER_LENGTH)
                  (\<lambda>b. Some (SOPC_Buffer_SetPosition b SOPC_TCP_UA_HEADER_LENGTH)))
                (\<lambda>b. SOPC_UInt32_Write (sc_enc env) (Some (SOPC_StatusCode_ToTcpErrorCode errorStatus)) b 0))
              (\<lambda>b. do {
                 (status, tempString) \<leftarrow> SOPC_String_AttachFromCstring (Some str_init) (Some reason);
                 if status = SOPC_STATUS_OK then SOPC_String_Write (sc_enc env) tempString b 0
                 else Some (status, b) });
          if status = SOPC_STATUS_OK then
            (let w = SOPC_SecureChannels_EnqueueInternalEventAsNext env (INT_SC_CLOSE idx reason errorStatus) w;
                 w = SOPC_SecureChannels_EnqueueInternalEventAsNext env (INT_SC_SND INT_SC_SND_ERR idx b 0) w
             in Some (True, w))
          else Some (False, w) })"

definition SC_Client_SendCloseSecureChannelRequestAndClose ::
  "scm_env \<Rightarrow> u32 \<Rightarrow> SOPC_StatusCode \<Rightarrow> byte list \<Rightarrow> sc_world \<Rightarrow> sc_world option" where
  "SC_Client_SendCloseSecureChannelRequestAndClose env idx errorStatus reason w = do {
     let sc = secureConnectionsArray w idx;
     (result, w) \<leftarrow>
       (case SOPC_Buffer_Create (sc_enc env) (sendBufferSize (tcpMsgProperties sc)) of
          None \<Rightarrow> Some (False, w)
        | Some b \<Rightarrow> do {
            (status, b) \<leftarrow>
              and_then
                (and_then (SOPC_Buffer_SetDataLength (Some b) SOPC_UA_SYMMETRIC_SECURE_MESSAGE_HEADERS_LENGTH)
                  (\<lambda>b. Some (SOPC_Buffer_SetPosition b SOPC_UA_SYMMETRIC_SECURE_MESSAGE_HEADERS_LENGTH)))
                (\<lambda>b. do {
                   b \<leftarrow> b;
                   let (status, b) = encodeCloseRequest env
                     \<lparr>reqh_RequestHandle = idx, reqh_Timestamp = currentTimeUTC env, reqh_TimeoutHint = 0\<rparr> b;
                   Some (status, Some b) });
            if status = SOPC_STATUS_OK then
              (let w = SOPC_SecureChannels_EnqueueInternalEventAsNext env (INT_SC_CLOSE idx reason errorStatus) w;
                   w = SOPC_SecureChannels_EnqueueInternalEventAsNext env (INT_SC_SND INT_SC_SND_CLO idx b 0) w
               in Some (True, w))
            else Some (False, w) });
     if \<not> result then do {
       (closed, w) \<leftarrow> SC_CloseConnection env idx False w;
       Some (if closed then post_services env (SC_DISCONNECTED idx 0 OpcUa_BadSecureChannelClosed) w else w) }
     else Some w }"

text \<open>The numeric value of a state, which the source compares.\<close>

fun sc_state_value :: "SOPC_SecureConnection_State \<Rightarrow> nat" where
  "sc_state_value SECURE_CONNECTION_STATE_SC_CLOSED = 0"
| "sc_state_value SECURE_CONNECTION_STATE_SC_CLOSING = 1"
| "sc_state_value SECURE_CONNECTION_STATE_TCP_REVERSE_TOKEN = 2"
| "sc_state_value SECURE_CONNECTION_STATE_TCP_REVERSE_INIT = 3"
| "sc_state_value SECURE_CONNECTION_STATE_TCP_INIT = 4"
| "sc_state_value SECURE_CONNECTION_STATE_TCP_NEGOTIATE = 5"
| "sc_state_value SECURE_CONNECTION_STATE_SC_INIT = 6"
| "sc_state_value SECURE_CONNECTION_STATE_SC_CONNECTING = 7"
| "sc_state_value SECURE_CONNECTION_STATE_SC_CONNECTED = 8"
| "sc_state_value SECURE_CONNECTION_STATE_SC_CONNECTED_RENEW = 9"

definition close_client_connection ::
  "scm_env \<Rightarrow> sc_connection \<Rightarrow> u32 \<Rightarrow> bool \<Rightarrow> bool \<Rightarrow> SOPC_StatusCode \<Rightarrow> byte list \<Rightarrow> sc_world \<Rightarrow> sc_world option" where
  "close_client_connection env sc idx immediateClose socketFailure errorStatus reason w =
     (if sc_is_connected (sc_state sc) then do {
        let w = timer_cancel env (secuTokenRenewTimerId sc) w;
        if \<not> immediateClose then SC_Client_SendCloseSecureChannelRequestAndClose env idx errorStatus reason w
        else do {
          (closed, w) \<leftarrow> SC_CloseConnection env idx socketFailure w;
          Some (if closed then post_services env (SC_DISCONNECTED idx 0 errorStatus) w else w) } }
      else if \<not> sc_is_closed (sc_state sc) then do {
        (closed, w) \<leftarrow> SC_CloseConnection env idx socketFailure w;
        Some (if closed then post_services env (SC_CONNECTION_TIMEOUT (secureChannelConfigIdx sc)) w else w) }
      else Some w)"

definition retry_reverse_connection :: "scm_env \<Rightarrow> sc_connection \<Rightarrow> sc_world \<Rightarrow> sc_world option" where
  "retry_reverse_connection env sc w =
     (if isReverseConnection sc \<and> \<not> sc_is_connected (sc_state sc) then
        (if unat (serverReverseConnIdx sc) < SOPC_MAX_REVERSE_CLIENT_CONNECTIONS then do {
           l \<leftarrow> listener_at (serverEndpointConfigIdx sc) w;
           if sl_state l \<noteq> SECURE_LISTENER_STATE_CLOSED
           then SC_Server_StartReverseConnRetryTimer env (serverEndpointConfigIdx sc) (serverReverseConnIdx sc) w
           else Some w }
         else None)
      else Some w)"

definition close_server_connection ::
  "scm_env \<Rightarrow> sc_connection \<Rightarrow> u32 \<Rightarrow> bool \<Rightarrow> bool \<Rightarrow> SOPC_StatusCode \<Rightarrow> byte list \<Rightarrow> sc_world \<Rightarrow> sc_world option" where
  "close_server_connection env sc idx immediateClose socketFailure errorStatus reason w =
     (if \<not> sc_is_closed (sc_state sc) then do {
        (immediateClose, w) \<leftarrow>
          (if \<not> immediateClose then do {
             (result, w) \<leftarrow>
               (if sc_state_value (sc_state sc) \<ge> sc_state_value SECURE_CONNECTION_STATE_TCP_INIT
                then SC_Server_SendErrorMsgAndClose env idx errorStatus
                  (if errorStatus = OpcUa_BadSecurityChecksFailed then c_string [] else reason) w
                else Some (False, w));
             Some (\<not> result, w) }
           else Some (True, w));
        if immediateClose then do {
          w \<leftarrow> retry_reverse_connection env sc w;
          (closed, w) \<leftarrow> SC_CloseConnection env idx socketFailure w;
          Some (if closed then
                  (let w = (if sc_is_connected (sc_state sc)
                            then post_services env (SC_DISCONNECTED idx (secureChannelConfigIdx sc)
                                   OpcUa_BadSecureChannelClosed) w else w)
                   in SOPC_SecureChannels_EnqueueInternalEventAsNext env
                        (INT_EP_SC_DISCONNECTED (serverEndpointConfigIdx sc) (ucast idx)) w)
                else w) }
        else Some w }
      else Some w)"

definition SC_CloseSecureConnection ::
  "scm_env \<Rightarrow> sc_connection option \<Rightarrow> u32 \<Rightarrow> bool \<Rightarrow> bool \<Rightarrow> SOPC_StatusCode \<Rightarrow> byte list \<Rightarrow> bool \<Rightarrow> sc_world \<Rightarrow>
   sc_world option" where
  "SC_CloseSecureConnection env scConnection idx immediateClose socketFailure errorStatus reason has_reqHeader w =
     (if socketFailure \<and> \<not> immediateClose then None
      else do {
        sc \<leftarrow> scConnection;
        let w = (if \<not> sc_is_connected (sc_state sc)
                 then sc_update idx (\<lambda>c. c\<lparr>connectionTimeoutTimerId := 0\<rparr>)
                        (timer_cancel env (connectionTimeoutTimerId sc) w)
                 else w);
        if \<not> isServerConnection sc then
          (if has_reqHeader then None
           else close_client_connection env sc idx immediateClose socketFailure errorStatus reason w)
        else close_server_connection env sc idx immediateClose socketFailure errorStatus reason w })"

end
