(* ===== verification/SC_Negotiate.thy ===== *)
theory SC_Negotiate
  imports SC_Close
begin

text \<open>
  The messages exchanged before a secure channel is opened, from \<open>sopc_secure_connection_state_mgr.c\<close>: error
  message, hello, acknowledge and reverse hello, with the negotiation of the limits of the connection.
\<close>

section \<open>Error message\<close>

text \<open>The status code and the reason, when both are decoded; \<open>status\<close> is the return status.\<close>

definition SC_ClientTransition_ReceivedErrorMsg ::
  "scm_env \<Rightarrow> SOPC_Buffer \<Rightarrow> SOPC_StatusCode \<Rightarrow> (SOPC_ReturnStatus \<times> SOPC_StatusCode \<times> byte list option) option" where
  "SC_ClientTransition_ReceivedErrorMsg env errBuffer errorStatus = do {
     (status, code, b) \<leftarrow> SOPC_UInt32_Read (sc_enc env) (Some errorStatus) (Some errBuffer) 0;
     code \<leftarrow> code;
     if status = SOPC_STATUS_OK then do {
       (status, reason, b) \<leftarrow> SOPC_String_ReadWithLimitedLength (sc_enc env) (Some str_init)
         SOPC_TCP_UA_MAX_URL_AND_REASON_LENGTH b 0;
       reason \<leftarrow> reason;
       if status = SOPC_STATUS_OK then do {
         result \<leftarrow> SOPC_String_GetCString (sc_enc env) reason;
         Some (case result of
                 Some c \<Rightarrow> (SOPC_STATUS_OK, code, Some c)
               | None \<Rightarrow> if mem_ok (sc_enc env) 1 then (SOPC_STATUS_OK, code, Some [0])
                         else (SOPC_STATUS_OUT_OF_MEMORY, code, None)) }
       else Some (status, code, None) }
     else Some (status, code, None) }"

section \<open>Limits of a connection\<close>

text \<open>
  \<open>read_u32\<close> reads into the temporary value. The size of a buffer is reduced to what the peer announces, not
  below the minimum of the protocol; in an acknowledge message the peer shall not announce more than it was
  offered. A limit of 0 is no limit.
\<close>

definition read_u32 :: "scm_env \<Rightarrow> bufp \<Rightarrow> u32 \<Rightarrow> (SOPC_ReturnStatus \<times> u32 \<times> bufp) option" where
  "read_u32 env b tempValue = do {
     (status, v, b) \<leftarrow> SOPC_UInt32_Read (sc_enc env) (Some tempValue) b 0;
     v \<leftarrow> v;
     Some (status, v, b) }"

definition adapt_hello_size :: "u32 \<Rightarrow> u32 \<Rightarrow> u32 option" where
  "adapt_hello_size own peer =
     (if own > peer then (if peer \<ge> SOPC_TCP_UA_MIN_BUFFER_SIZE then Some peer else None) else Some own)"

definition adapt_ack_size :: "u32 \<Rightarrow> u32 \<Rightarrow> u32 option" where
  "adapt_ack_size own peer =
     (if own > peer then (if peer \<ge> SOPC_TCP_UA_MIN_BUFFER_SIZE then Some peer else None)
      else if own < peer then None else Some own)"

definition adapt_limit :: "u32 \<Rightarrow> u32 \<Rightarrow> u32" where
  "adapt_limit own peer = (if peer \<noteq> 0 \<and> (own > peer \<or> own = 0) then peer else own)"

section \<open>Client: hello\<close>

definition write_u32s :: "scm_env \<Rightarrow> u32 list \<Rightarrow> (SOPC_ReturnStatus \<times> bufp) option \<Rightarrow> (SOPC_ReturnStatus \<times> bufp) option" where
  "write_u32s env vs r = foldl (\<lambda>r v. and_then r (\<lambda>b. SOPC_UInt32_Write (sc_enc env) (Some v) b 0)) r vs"

definition reserve_header :: "SOPC_Buffer \<Rightarrow> u32 \<Rightarrow> (SOPC_ReturnStatus \<times> bufp) option" where
  "reserve_header b n =
     and_then (SOPC_Buffer_SetDataLength (Some b) n) (\<lambda>b. Some (SOPC_Buffer_SetPosition b n))"

definition SC_ClientTransition_TcpInit_To_TcpNegotiate :: "scm_env \<Rightarrow> u32 \<Rightarrow> sc_world \<Rightarrow> (bool \<times> sc_world) option" where
  "SC_ClientTransition_TcpInit_To_TcpNegotiate env idx w = do {
     let sc = secureConnectionsArray w idx;
     let p = tcpMsgProperties sc;
     if sc_state sc = SECURE_CONNECTION_STATE_TCP_INIT then
       (case (SOPC_Buffer_Create (sc_enc env) (SOPC_TCP_UA_HEL_MIN_MSG_LENGTH + SOPC_TCP_UA_MAX_URL_AND_REASON_LENGTH),
              SOPC_ToolkitClient_GetSecureChannelConfig (secureChannelConfigIdx sc) w) of
          (Some b, Some scConfig) \<Rightarrow> do {
            (status, b) \<leftarrow>
              and_then
                (write_u32s env [protocolVersion p, receiveBufferSize p, sendBufferSize p, receiveMaxMessageSize p,
                   receiveMaxChunkCount p] (reserve_header b SOPC_TCP_UA_HEADER_LENGTH))
                (\<lambda>b. do {
                   (status, tmpString) \<leftarrow> SOPC_String_CopyFromCString (sc_enc env) (Some str_init) (cfg_url scConfig);
                   if status = SOPC_STATUS_OK then SOPC_String_Write (sc_enc env) tmpString b 0
                   else Some (status, b) });
            if status = SOPC_STATUS_OK then
              (let w = sc_update idx (\<lambda>c. c\<lparr>sc_state := SECURE_CONNECTION_STATE_TCP_NEGOTIATE\<rparr>) w
               in Some (True, SOPC_SecureChannels_EnqueueInternalEventAsNext env (INT_SC_SND INT_SC_SND_HEL idx b 0) w))
            else Some (False, w) }
        | _ \<Rightarrow> Some (False, w))
     else None }"

section \<open>Server: hello received, acknowledge sent\<close>

text \<open>The limits after the numbers of a hello message, and the error status.\<close>

definition hello_properties ::
  "scm_env \<Rightarrow> bufp \<Rightarrow> SOPC_SecureConnection_TcpProperties \<Rightarrow>
   (bool \<times> SOPC_StatusCode \<times> SOPC_SecureConnection_TcpProperties \<times> bufp) option" where
  "hello_properties env b p = do {
     (status, v, b) \<leftarrow> read_u32 env b 0;
     if status \<noteq> SOPC_STATUS_OK then Some (False, OpcUa_BadDecodingError, p, b)
     else do {
     let p = (if protocolVersion p > v then p\<lparr>protocolVersion := v\<rparr> else p);
     (status, v, b) \<leftarrow> read_u32 env b v;
     if status \<noteq> SOPC_STATUS_OK then Some (False, OpcUa_BadDecodingError, p, b)
     else case adapt_hello_size (sendBufferSize p) v of
       None \<Rightarrow> Some (False, OpcUa_BadInvalidArgument, p, b)
     | Some n \<Rightarrow> do {
     let p = p\<lparr>sendBufferSize := n\<rparr>;
     (status, v, b) \<leftarrow> read_u32 env b v;
     if status \<noteq> SOPC_STATUS_OK then Some (False, OpcUa_BadDecodingError, p, b)
     else case adapt_hello_size (receiveBufferSize p) v of
       None \<Rightarrow> Some (False, OpcUa_BadInvalidArgument, p, b)
     | Some n \<Rightarrow> do {
     let p = p\<lparr>receiveBufferSize := n\<rparr>;
     (status, v, b) \<leftarrow> read_u32 env b v;
     if status \<noteq> SOPC_STATUS_OK then Some (False, OpcUa_BadDecodingError, p, b)
     else do {
     let p = p\<lparr>sendMaxMessageSize := adapt_limit (sendMaxMessageSize p) v\<rparr>;
     (status, v, b) \<leftarrow> read_u32 env b v;
     if status \<noteq> SOPC_STATUS_OK then Some (False, OpcUa_BadDecodingError, p, b)
     else Some (True, SOPC_GoodGenericStatus, p\<lparr>sendMaxChunkCount := adapt_limit (sendMaxChunkCount p) v\<rparr>, b) } } } } }"

text \<open>The URL of the endpoint is compared with the configured one, for a warning only.\<close>

definition check_hello_url :: "scm_env \<Rightarrow> SOPC_Endpoint_Config \<Rightarrow> bufp \<Rightarrow> (bool \<times> SOPC_StatusCode) option" where
  "check_hello_url env epConfig b = do {
     (status, url, b) \<leftarrow> SOPC_String_ReadWithLimitedLength (sc_enc env) (Some str_init)
       SOPC_TCP_UA_MAX_URL_AND_REASON_LENGTH b 0;
     if status = SOPC_STATUS_OK then do {
       (status, epUrl) \<leftarrow> SOPC_String_AttachFromCstring (Some str_init) (Some (endpointURL epConfig));
       (status, _) \<leftarrow> (if status = SOPC_STATUS_OK then SOPC_String_Compare epUrl url True (Some 0)
                        else Some (status, None));
       Some (if status = SOPC_STATUS_OK then (True, SOPC_GoodGenericStatus) else (False, OpcUa_BadTcpInternalError)) }
     else Some (False, if status = SOPC_STATUS_WOULD_BLOCK then OpcUa_BadTcpEndpointUrlInvalid
                       else OpcUa_BadDecodingError) }"

definition SC_ServerTransition_TcpInit_To_TcpNegotiate ::
  "scm_env \<Rightarrow> u32 \<Rightarrow> SOPC_Buffer \<Rightarrow> SOPC_StatusCode \<Rightarrow> sc_world \<Rightarrow> (bool \<times> SOPC_StatusCode \<times> sc_world) option" where
  "SC_ServerTransition_TcpInit_To_TcpNegotiate env idx helloMsgBuffer errorStatus w = do {
     let sc = secureConnectionsArray w idx;
     if sc_state sc = SECURE_CONNECTION_STATE_TCP_INIT \<and> isServerConnection sc then do {
       epConfig \<leftarrow> SOPC_ToolkitServer_GetEndpointConfig env (serverEndpointConfigIdx sc) w;
       case epConfig of
         None \<Rightarrow> Some (False, OpcUa_BadInternalError, w)
       | Some epConfig \<Rightarrow> do {
           (result, err, p, b) \<leftarrow> hello_properties env (Some helloMsgBuffer) (tcpMsgProperties sc);
           let w = sc_update idx (\<lambda>c. c\<lparr>tcpMsgProperties := p\<rparr>) w;
           if \<not> result then Some (False, err, w)
           else do {
             (result, err) \<leftarrow> check_hello_url env epConfig b;
             if \<not> result then Some (False, err, w)
             else Some (True, errorStatus, sc_update idx (\<lambda>c. c\<lparr>sc_state := SECURE_CONNECTION_STATE_TCP_NEGOTIATE\<rparr>) w) } } }
     else None }"

definition SC_ServerTransition_TcpNegotiate_To_ScInit ::
  "scm_env \<Rightarrow> u32 \<Rightarrow> SOPC_Buffer \<Rightarrow> SOPC_StatusCode \<Rightarrow> sc_world \<Rightarrow> (bool \<times> SOPC_StatusCode \<times> sc_world) option" where
  "SC_ServerTransition_TcpNegotiate_To_ScInit env idx helloMsgBuffer errorStatus w = do {
     let sc = secureConnectionsArray w idx;
     let p = tcpMsgProperties sc;
     if sc_state sc = SECURE_CONNECTION_STATE_TCP_NEGOTIATE \<and> isServerConnection sc then
       (case SOPC_Buffer_Create (sc_enc env) SOPC_TCP_UA_ACK_MSG_LENGTH of
          None \<Rightarrow> Some (False, OpcUa_BadEncodingError, w)
        | Some ack \<Rightarrow> do {
            (status, ack) \<leftarrow>
              (case SOPC_Buffer_SetPosition (Some helloMsgBuffer) 0 of
                 (status, hel) \<Rightarrow> if status = SOPC_STATUS_OK
                   then SOPC_Buffer_CopyWithLength (sc_enc env) (Some ack) hel SOPC_TCP_UA_HEADER_LENGTH
                   else Some (status, Some ack));
            if status \<noteq> SOPC_STATUS_OK then Some (False, OpcUa_BadEncodingError, w)
            else do {
              (status, ack) \<leftarrow>
                write_u32s env [protocolVersion p, receiveBufferSize p, sendBufferSize p, receiveMaxMessageSize p,
                    receiveMaxChunkCount p]
                  (and_then (Some (SOPC_Buffer_SetPosition ack SOPC_TCP_UA_HEADER_LENGTH))
                    (\<lambda>b. SOPC_Buffer_SetDataLength b SOPC_TCP_UA_HEADER_LENGTH));
              if status = SOPC_STATUS_OK then
                (let w = sc_update idx (\<lambda>c. c\<lparr>sc_state := SECURE_CONNECTION_STATE_SC_INIT\<rparr>) w
                 in Some (True, SOPC_GoodGenericStatus,
                      SOPC_SecureChannels_EnqueueInternalEventAsNext env (INT_SC_SND INT_SC_SND_ACK idx ack 0) w))
              else Some (False, OpcUa_BadEncodingError, w) } })
     else None }"

section \<open>Client: acknowledge received\<close>

definition ack_properties ::
  "scm_env \<Rightarrow> bufp \<Rightarrow> SOPC_SecureConnection_TcpProperties \<Rightarrow>
   (bool \<times> SOPC_SecureConnection_TcpProperties) option" where
  "ack_properties env b p = do {
     (status, v, b) \<leftarrow> read_u32 env b 0;
     if status \<noteq> SOPC_STATUS_OK then Some (False, p)
     else do {
     let p = (if protocolVersion p > v then p\<lparr>protocolVersion := v\<rparr> else p);
     (status, v, b) \<leftarrow> read_u32 env b v;
     if status \<noteq> SOPC_STATUS_OK then Some (False, p)
     else case adapt_ack_size (sendBufferSize p) v of
       None \<Rightarrow> Some (False, p)
     | Some n \<Rightarrow> do {
     let p = p\<lparr>sendBufferSize := n\<rparr>;
     (status, v, b) \<leftarrow> read_u32 env b v;
     if status \<noteq> SOPC_STATUS_OK then Some (False, p)
     else case adapt_ack_size (receiveBufferSize p) v of
       None \<Rightarrow> Some (False, p)
     | Some n \<Rightarrow> do {
     let p = p\<lparr>receiveBufferSize := n\<rparr>;
     (status, v, b) \<leftarrow> read_u32 env b v;
     if status \<noteq> SOPC_STATUS_OK then Some (False, p)
     else do {
     let p = p\<lparr>sendMaxMessageSize := adapt_limit (sendMaxMessageSize p) v\<rparr>;
     (status, v, b) \<leftarrow> read_u32 env b v;
     if status \<noteq> SOPC_STATUS_OK then Some (False, p)
     else Some (True, p\<lparr>sendMaxChunkCount := adapt_limit (sendMaxChunkCount p) v\<rparr>) } } } } }"

definition SC_ClientTransition_TcpNegotiate_To_ScInit ::
  "scm_env \<Rightarrow> u32 \<Rightarrow> SOPC_Buffer \<Rightarrow> sc_world \<Rightarrow> (bool \<times> sc_world) option" where
  "SC_ClientTransition_TcpNegotiate_To_ScInit env idx ackMsgBuffer w = do {
     let sc = secureConnectionsArray w idx;
     if sc_state sc = SECURE_CONNECTION_STATE_TCP_NEGOTIATE \<and> \<not> isServerConnection sc then do {
       (result, p) \<leftarrow> ack_properties env (Some ackMsgBuffer) (tcpMsgProperties sc);
       let w = sc_update idx (\<lambda>c. c\<lparr>tcpMsgProperties := p\<rparr>) w;
       Some (result, if result then sc_update idx (\<lambda>c. c\<lparr>sc_state := SECURE_CONNECTION_STATE_SC_INIT\<rparr>) w else w) }
     else None }"

section \<open>Reverse hello\<close>

text \<open>The result is true whatever the decoding gives; the two strings are \<open>NULL\<close> when it fails.\<close>

definition SC_ClientPrepareTransition_TcpReverseInit_To_TcpInit ::
  "scm_env \<Rightarrow> SOPC_Buffer \<Rightarrow> (bool \<times> byte list option \<times> byte list option) option" where
  "SC_ClientPrepareTransition_TcpReverseInit_To_TcpInit env rheMsgBuffer = do {
     (status, uri, b) \<leftarrow> SOPC_String_Read (sc_enc env) (Some str_init) (Some rheMsgBuffer) 0;
     uri \<leftarrow> uri;
     (status, url) \<leftarrow>
       (if status = SOPC_STATUS_OK then do {
          (status, url, b) \<leftarrow> SOPC_String_Read (sc_enc env) (Some str_init) b 0;
          url \<leftarrow> url;
          Some (status, url) }
        else Some (status, str_init));
     if status = SOPC_STATUS_OK then do {
       serverURI \<leftarrow> SOPC_String_GetCString (sc_enc env) uri;
       serverURL \<leftarrow> SOPC_String_GetCString (sc_enc env) url;
       Some (True, serverURI, serverURL) }
     else Some (True, None, None) }"

definition SC_ServerTransition_TcpReverseInit_To_TcpInit :: "scm_env \<Rightarrow> u32 \<Rightarrow> sc_world \<Rightarrow> (bool \<times> sc_world) option" where
  "SC_ServerTransition_TcpReverseInit_To_TcpInit env idx w = do {
     let sc = secureConnectionsArray w idx;
     epConfig \<leftarrow> SOPC_ToolkitServer_GetEndpointConfig env (serverEndpointConfigIdx sc) w;
     epConfig \<leftarrow> epConfig;
     if sc_state sc = SECURE_CONNECTION_STATE_TCP_REVERSE_INIT then do {
       let serverUriLen = Str_Length (ApplicationUri epConfig);
       serverEndpointUrlLen \<leftarrow> c_strlen (endpointURL epConfig);
       case (if sint serverUriLen < 4096 \<and> serverEndpointUrlLen < 4096
             then SOPC_Buffer_Create (sc_enc env)
               (SOPC_TCP_UA_RHE_MIN_MSG_LENGTH + serverUriLen + of_nat serverEndpointUrlLen)
             else None) of
         None \<Rightarrow> Some (False, w)
       | Some b \<Rightarrow> do {
           (status, b) \<leftarrow>
             and_then
               (and_then (reserve_header b SOPC_TCP_UA_HEADER_LENGTH)
                 (\<lambda>b. SOPC_String_Write (sc_enc env) (Some (ApplicationUri epConfig)) b 0))
               (\<lambda>b. do {
                  (status, urlOrURI) \<leftarrow> SOPC_String_AttachFromCstring (Some str_init) (Some (endpointURL epConfig));
                  if status = SOPC_STATUS_OK then SOPC_String_Write (sc_enc env) urlOrURI b 0
                  else Some (status, b) });
           if status = SOPC_STATUS_OK then
             (let w = sc_update idx (\<lambda>c. c\<lparr>sc_state := SECURE_CONNECTION_STATE_TCP_INIT\<rparr>) w
              in Some (True, SOPC_SecureChannels_EnqueueInternalEventAsNext env (INT_SC_SND INT_SC_SND_RHE idx b 0) w))
           else Some (False, w) } }
     else None }"

end
