(* ===== verification/SC_Open.thy ===== *)
theory SC_Open
  imports SC_Negotiate
begin

text \<open>
  Opening and renewing a secure channel, from \<open>sopc_secure_connection_state_mgr.c\<close>: the request and response
  on both sides, the derivation of the symmetric keys and the choice of fresh identifiers.

  The sizes \<open>sizeof_\<dots>\<close> of allocated structures only serve as arguments of the allocation.
\<close>

section \<open>Symmetric keys\<close>

definition sizeof_KeySet :: nat where "sizeof_KeySet = 24"
definition sizeof_ScConfig :: nat where "sizeof_ScConfig = 96"

definition SOPC_GoodStatusOppositeMask :: u32 where "SOPC_GoodStatusOppositeMask = 0xC0000000"

definition fresh_keyset :: "u32 \<Rightarrow> u32 \<Rightarrow> u32 \<Rightarrow> SOPC_SC_SecurityKeySet" where
  "fresh_keyset encryptLen signLen ivLen =
     \<lparr>signKey = replicate (unat signLen) 0, encryptKey = replicate (unat encryptLen) 0,
      initVector = replicate (unat ivLen) 0\<rparr>"

text \<open>The result, the key sets and the error status; the nonces shall have the length of the policy.\<close>

definition SC_DeriveSymmetricKeySets ::
  "scm_env \<Rightarrow> bool \<Rightarrow> byte list \<Rightarrow> byte list \<Rightarrow> byte list \<Rightarrow> SOPC_StatusCode \<Rightarrow>
   bool \<times> SOPC_SC_SecurityKeySets \<times> SOPC_StatusCode" where
  "SC_DeriveSymmetricKeySets env isServer provider cNonce sNonce errorStatus =
     (case deriveGetLengths env provider of
        None \<Rightarrow> (False, keysets_zero, OpcUa_BadTcpInternalError)
      | Some (encryptLen, signLen, ivLen) \<Rightarrow>
          if \<not> mem_ok (sc_enc env) sizeof_KeySet then (False, keysets_zero, OpcUa_BadOutOfMemory)
          else
            (let fresh = \<lparr>senderKeySet = Some (fresh_keyset encryptLen signLen ivLen),
                          receiverKeySet = Some (fresh_keyset encryptLen signLen ivLen)\<rparr>
             in case secureChannelNonceLength env provider of
               None \<Rightarrow> (False, fresh, OpcUa_BadTcpInternalError)
             | Some n \<Rightarrow>
                 if of_nat (length sNonce) \<noteq> n \<or> of_nat (length cNonce) \<noteq> n then (False, fresh, OpcUa_BadNonceInvalid)
                 else case deriveKeySets env isServer provider cNonce sNonce of
                   None \<Rightarrow> (False, fresh, OpcUa_BadTcpInternalError)
                 | Some (clientKs, serverKs) \<Rightarrow>
                     (True,
                      if \<not> isServer then \<lparr>senderKeySet = Some clientKs, receiverKeySet = Some serverKs\<rparr>
                      else \<lparr>senderKeySet = Some serverKs, receiverKeySet = Some clientKs\<rparr>,
                      errorStatus)))"

text \<open>
  \<open>SOPC_CryptoProvider_GenerateSecureChannelNonce\<close> followed by the copy of the nonce into a message: the nonce
  when it could be generated, and the bytes to send when it could be copied.
\<close>

definition draw_nonce :: "scm_env \<Rightarrow> byte list option \<Rightarrow> sc_world \<Rightarrow> byte list option \<times> sc_world" where
  "draw_nonce env provider w =
     (case provider of None \<Rightarrow> (None, w)
      | Some uri \<Rightarrow> (generateNonce env uri (random_calls w), w\<lparr>random_calls := random_calls w + 1\<rparr>))"

definition nonce_bytes :: "scm_env \<Rightarrow> byte list \<Rightarrow> byte list option" where
  "nonce_bytes env nonce =
     (if length nonce \<le> 2147483647 \<and> mem_ok (sc_enc env) (length nonce) then Some nonce else None)"

definition at_least_minimum :: "u32 \<Rightarrow> u32" where
  "at_least_minimum lifetime =
     (if lifetime < SOPC_MINIMUM_SECURE_CONNECTION_LIFETIME then SOPC_MINIMUM_SECURE_CONNECTION_LIFETIME else lifetime)"

section \<open>Client\<close>

definition SC_ClientTransitionHelper_SendOPN :: "scm_env \<Rightarrow> u32 \<Rightarrow> bool \<Rightarrow> sc_world \<Rightarrow> (bool \<times> sc_world) option" where
  "SC_ClientTransitionHelper_SendOPN env idx isRenewal w = do {
     let sc = secureConnectionsArray w idx;
     config \<leftarrow> SOPC_ToolkitClient_GetSecureChannelConfig (secureChannelConfigIdx sc) w;
     (result, provider) \<leftarrow>
       (if \<not> isRenewal then
          (if cryptoProvider sc \<noteq> None then None
           else if cryptoProviderCreate_ok env (cfg_reqSecuPolicyUri config)
           then Some (True, Some (cfg_reqSecuPolicyUri config)) else Some (False, None))
        else Some (True, cryptoProvider sc));
     let w = sc_update idx (\<lambda>c. c\<lparr>cryptoProvider := provider\<rparr>) w;
     if \<not> result then Some (False, w)
     else case SOPC_Buffer_Create (sc_enc env) (sendBufferSize (tcpMsgProperties sc)) of
       None \<Rightarrow> Some (False, w)
     | Some b \<Rightarrow> do {
         let (nonce, w) = (if msgSecurityMode config \<noteq> OpcUa_MessageSecurityMode_None
                           then draw_nonce env provider w else (None, w));
         let w = (case nonce of None \<Rightarrow> w | Some n \<Rightarrow> sc_update idx (\<lambda>c. c\<lparr>clientNonce := Some n\<rparr>) w);
         let bytes = Option.bind nonce (nonce_bytes env);
         let result = (msgSecurityMode config = OpcUa_MessageSecurityMode_None \<or> bytes \<noteq> None);
         let (status, b) = encodeOpenRequest env
           \<lparr>reqh_RequestHandle = idx, reqh_Timestamp = currentTimeUTC env, reqh_TimeoutHint = 0\<rparr>
           \<lparr>ClientProtocolVersion = protocolVersion (tcpMsgProperties sc),
            RequestType = (if isRenewal then OpcUa_SecurityTokenRequestType_Renew
                           else OpcUa_SecurityTokenRequestType_Issue),
            SecurityMode = msgSecurityMode config, ClientNonce = (case bytes of None \<Rightarrow> [] | Some n \<Rightarrow> n),
            RequestedLifetime = at_least_minimum (requestedLifetime config)\<rparr> b;
         if result \<and> status = SOPC_STATUS_OK
         then Some (True, SOPC_SecureChannels_EnqueueInternalEventAsNext env (INT_SC_SND INT_SC_SND_OPN idx (Some b) 0) w)
         else Some (False, w) } }"

definition SC_ClientTransition_ScInit_To_ScConnecting :: "scm_env \<Rightarrow> u32 \<Rightarrow> sc_world \<Rightarrow> (bool \<times> sc_world) option" where
  "SC_ClientTransition_ScInit_To_ScConnecting env idx w =
     (if sc_state (secureConnectionsArray w idx) = SECURE_CONNECTION_STATE_SC_INIT then do {
        (result, w) \<leftarrow> SC_ClientTransitionHelper_SendOPN env idx False w;
        Some (result, if result then sc_update idx (\<lambda>c. c\<lparr>sc_state := SECURE_CONNECTION_STATE_SC_CONNECTING\<rparr>) w else w) }
      else None)"

definition SC_ClientTransition_ScConnected_To_ScConnectedRenew ::
  "scm_env \<Rightarrow> u32 \<Rightarrow> sc_world \<Rightarrow> (bool \<times> sc_world) option" where
  "SC_ClientTransition_ScConnected_To_ScConnectedRenew env idx w =
     (if sc_state (secureConnectionsArray w idx) = SECURE_CONNECTION_STATE_SC_CONNECTED then do {
        (result, w) \<leftarrow> SC_ClientTransitionHelper_SendOPN env idx True w;
        Some (result,
          if result then sc_update idx (\<lambda>c. c\<lparr>sc_state := SECURE_CONNECTION_STATE_SC_CONNECTED_RENEW\<rparr>) w else w) }
      else None)"

text \<open>The checks on the content of an open response.\<close>

definition check_open_response ::
  "sc_connection \<Rightarrow> bool \<Rightarrow> OpcUa_OpenSecureChannelResponse \<Rightarrow> SOPC_StatusCode \<Rightarrow> bool \<times> SOPC_StatusCode" where
  "check_open_response sc isOPNrenew opnResp errorStatus =
     (let (result, err) =
            (if protocolVersion (tcpMsgProperties sc) \<noteq> ServerProtocolVersion opnResp
             then (False, OpcUa_BadProtocolVersionUnsupported) else (True, errorStatus))
      in if \<not> isOPNrenew then
           (if ChannelId opnResp = 0 \<or> clientSecureChannelId sc \<noteq> ChannelId opnResp \<or> TokenId opnResp = 0
            then (False, OpcUa_BadSecureChannelIdInvalid) else (result, err))
         else
           (if ChannelId opnResp \<noteq> secureChannelId (currentSecurityToken sc) \<or> TokenId opnResp = 0 \<or>
               TokenId opnResp = tokenId (currentSecurityToken sc)
            then (False, OpcUa_BadSecureChannelIdInvalid) else (result, err)))"

text \<open>
  The keys of an open response: \<open>None\<close> when an assertion fails; the secret of the client is forgotten, whatever
  the result is, unless there is no security.
\<close>

definition open_response_keys ::
  "scm_env \<Rightarrow> sc_connection \<Rightarrow> OpcUa_MessageSecurityMode \<Rightarrow> OpcUa_OpenSecureChannelResponse \<Rightarrow> SOPC_StatusCode \<Rightarrow>
   (bool \<times> SOPC_SC_SecurityKeySets \<times> SOPC_StatusCode \<times> byte list option) option" where
  "open_response_keys env sc mode opnResp errorStatus =
     (if mode = OpcUa_MessageSecurityMode_None then Some (True, keysets_zero, errorStatus, clientNonce sc)
      else do {
        cNonce \<leftarrow> clientNonce sc;
        if ServerNonce opnResp = [] then Some (False, keysets_zero, OpcUa_BadNonceInvalid, None)
        else if mem_ok (sc_enc env) (length (ServerNonce opnResp)) then do {
          provider \<leftarrow> cryptoProvider sc;
          let (result, keys, err) = SC_DeriveSymmetricKeySets env False provider cNonce (ServerNonce opnResp) errorStatus;
          Some (result, if result then keys else keysets_zero, err, None) }
        else Some (False, keysets_zero, OpcUa_BadNonceInvalid, None) })"

text \<open>The token and the keys of an accepted response replace the current ones, which a renewal keeps as precedent.\<close>

definition accept_open_response ::
  "scm_env \<Rightarrow> bool \<Rightarrow> OpcUa_OpenSecureChannelResponse \<Rightarrow> SOPC_SC_SecurityKeySets \<Rightarrow> sc_connection \<Rightarrow> sc_connection" where
  "accept_open_response env isOPNrenew opnResp keys sc =
     (let sc = (if isOPNrenew then sc\<lparr>precedentSecuKeySets := currentSecuKeySets sc,
                                     precedentSecurityToken := currentSecurityToken sc\<rparr> else sc)
      in sc\<lparr>currentSecuKeySets := keys,
            currentSecurityToken := \<lparr>secureChannelId = ChannelId opnResp, tokenId = TokenId opnResp,
              createdAt = CreatedAt opnResp,
              lifetimeEndTimeRef = SOPC_TimeReference_AddMilliseconds (currentTimeRef env) (ucast (RevisedLifetime opnResp)),
              revisedLifetime = RevisedLifetime opnResp\<rparr>\<rparr>)"

definition SC_ClientTransitionHelper_ReceiveOPN ::
  "scm_env \<Rightarrow> u32 \<Rightarrow> SOPC_SecureChannel_Config \<Rightarrow> SOPC_Buffer \<Rightarrow> bool \<Rightarrow> SOPC_StatusCode \<Rightarrow> sc_world \<Rightarrow>
   (bool \<times> SOPC_StatusCode \<times> sc_world) option" where
  "SC_ClientTransitionHelper_ReceiveOPN env idx scConfig opnRespBuffer isOPNrenew errorStatus w =
     (case decodeResponseHeader env opnRespBuffer of
        (None, _) \<Rightarrow> Some (False, OpcUa_BadDecodingError, w)
      | (Some respHeader, b) \<Rightarrow>
          if resph_RequestHandle respHeader \<noteq> idx then Some (False, OpcUa_BadSecurityChecksFailed, w)
          else if and (resph_ServiceResult respHeader) SOPC_GoodStatusOppositeMask \<noteq> 0
          then Some (False, resph_ServiceResult respHeader, w)
          else case decodeOpenResponse env b of
            (None, _) \<Rightarrow> Some (False, OpcUa_BadDecodingError, w)
          | (Some opnResp, _) \<Rightarrow> do {
              let (result, err) = check_open_response (secureConnectionsArray w idx) isOPNrenew opnResp errorStatus;
              let w = (if isOPNrenew then w else sc_update idx (\<lambda>c. c\<lparr>clientSecureChannelId := 0\<rparr>) w);
              if \<not> result then Some (False, err, w)
              else do {
                (result, keys, err, nonce) \<leftarrow>
                  open_response_keys env (secureConnectionsArray w idx) (msgSecurityMode scConfig) opnResp err;
                let w = sc_update idx (\<lambda>c. c\<lparr>clientNonce := nonce\<rparr>) w;
                if \<not> result then Some (False, err, w)
                else do {
                  let w = (if isOPNrenew then w
                           else client_config_update (secureChannelConfigIdx (secureConnectionsArray w idx))
                                  (\<lambda>c. c\<lparr>cfg_secureChannelId := ChannelId opnResp\<rparr>) w);
                  let w = sc_update idx (accept_open_response env isOPNrenew opnResp keys) w;
                  (status, w) \<leftarrow> SC_Client_StartOPNrenewTimer env idx (RevisedLifetime opnResp * 3 div 4) w;
                  Some (if status = SOPC_STATUS_NOK then (False, OpcUa_BadResourceUnavailable, w)
                        else (True, err, w)) } } })"

definition SC_ClientTransition_ScConnecting_To_ScConnected ::
  "scm_env \<Rightarrow> u32 \<Rightarrow> SOPC_Buffer \<Rightarrow> SOPC_StatusCode \<Rightarrow> sc_world \<Rightarrow> (bool \<times> SOPC_StatusCode \<times> sc_world) option" where
  "SC_ClientTransition_ScConnecting_To_ScConnected env idx opnRespBuffer errorStatus w = do {
     let sc = secureConnectionsArray w idx;
     if sc_state sc = SECURE_CONNECTION_STATE_SC_CONNECTING \<and> \<not> isServerConnection sc then do {
       scConfig \<leftarrow> SOPC_ToolkitClient_GetSecureChannelConfig (secureChannelConfigIdx sc) w;
       (result, err, w) \<leftarrow> SC_ClientTransitionHelper_ReceiveOPN env idx scConfig opnRespBuffer False errorStatus w;
       Some (result, err,
         if result then sc_update idx (\<lambda>c. c\<lparr>sc_state := SECURE_CONNECTION_STATE_SC_CONNECTED\<rparr>)
           (client_config_update (secureChannelConfigIdx sc)
              (\<lambda>c. c\<lparr>internalProtocolData := sendMaxMessageSize (tcpMsgProperties sc)\<rparr>) w)
         else w) }
     else None }"

definition SC_ClientTransition_ScConnectedRenew_To_ScConnected ::
  "scm_env \<Rightarrow> u32 \<Rightarrow> SOPC_Buffer \<Rightarrow> SOPC_StatusCode \<Rightarrow> sc_world \<Rightarrow> (bool \<times> SOPC_StatusCode \<times> sc_world) option" where
  "SC_ClientTransition_ScConnectedRenew_To_ScConnected env idx opnRespBuffer errorStatus w = do {
     let sc = secureConnectionsArray w idx;
     if sc_state sc = SECURE_CONNECTION_STATE_SC_CONNECTED_RENEW \<and> \<not> isServerConnection sc then do {
       scConfig \<leftarrow> SOPC_ToolkitClient_GetSecureChannelConfig (secureChannelConfigIdx sc) w;
       (result, err, w) \<leftarrow> SC_ClientTransitionHelper_ReceiveOPN env idx scConfig opnRespBuffer True errorStatus w;
       Some (result, err,
         if result then sc_update idx (\<lambda>c. c\<lparr>sc_state := SECURE_CONNECTION_STATE_SC_CONNECTED\<rparr>) w else w) }
     else None }"

end
