(* ===== verification/SC_Open_Server.thy ===== *)
theory SC_Open_Server
  imports SC_Open
begin

text \<open>
  The server side of opening and renewing a secure channel, from \<open>sopc_secure_connection_state_mgr.c\<close>.
\<close>

section \<open>Open request\<close>

definition get_certificate_der :: "scm_env \<Rightarrow> byte list option \<Rightarrow> bool \<times> byte list option" where
  "get_certificate_der env cert =
     (case cert of None \<Rightarrow> (True, None)
      | Some c \<Rightarrow>
          (case certificateToDER env c of None \<Rightarrow> (False, None)
           | Some der \<Rightarrow> if mem_ok (sc_enc env) sizeof_SOPC_Buffer then (True, Some der) else (False, None)))"

definition valid_security_requested :: "u16 \<Rightarrow> OpcUa_MessageSecurityMode \<Rightarrow> bool" where
  "valid_security_requested modes mode =
     (case mode of
        OpcUa_MessageSecurityMode_None \<Rightarrow> and modes SOPC_SECURITY_MODE_NONE_MASK \<noteq> 0
      | OpcUa_MessageSecurityMode_Sign \<Rightarrow> and modes SOPC_SECURITY_MODE_SIGN_MASK \<noteq> 0
      | OpcUa_MessageSecurityMode_SignAndEncrypt \<Rightarrow> and modes SOPC_SECURITY_MODE_SIGNANDENCRYPT_MASK \<noteq> 0
      | OpcUa_MessageSecurityMode_Invalid \<Rightarrow> False)"

text \<open>The checks on an open request in their order: the result, the detailed and the TCP error status.\<close>

definition check_open_request ::
  "sc_connection \<Rightarrow> OpcUa_OpenSecureChannelRequest \<Rightarrow> SOPC_StatusCode \<Rightarrow> SOPC_StatusCode \<Rightarrow>
   bool \<times> SOPC_StatusCode \<times> SOPC_StatusCode" where
  "check_open_request sc opnReq detailed tcpErr =
     (let (result, detailed, tcpErr) =
            (if protocolVersion (tcpMsgProperties sc) \<noteq> ClientProtocolVersion opnReq
             then (False, OpcUa_BadProtocolVersionUnsupported, OpcUa_BadTcpInternalError)
             else (True, detailed, tcpErr));
          (result, tcpErr) =
            (if result \<and> RequestType opnReq \<noteq> OpcUa_SecurityTokenRequestType_Issue
             then (False, OpcUa_BadTcpSecureChannelUnknown) else (result, tcpErr))
      in if \<not> valid_security_requested (validSecurityModes (serverAsymmSecuInfo sc)) (SecurityMode opnReq)
         then (False, OpcUa_BadSecurityModeRejected, OpcUa_BadSecurityChecksFailed)
         else if \<not> isSecureModeActive (serverAsymmSecuInfo sc) \<and> SecurityMode opnReq \<noteq> OpcUa_MessageSecurityMode_None
         then (False, OpcUa_BadNoValidCertificates, OpcUa_BadSecurityChecksFailed)
         else (result, detailed, tcpErr))"

text \<open>The nonce of the client, which security requires and no security ignores.\<close>

definition take_client_nonce ::
  "scm_env \<Rightarrow> OpcUa_OpenSecureChannelRequest \<Rightarrow> byte list option \<Rightarrow> SOPC_StatusCode \<Rightarrow> SOPC_StatusCode \<Rightarrow>
   bool \<times> byte list option \<times> SOPC_StatusCode" where
  "take_client_nonce env opnReq nonce allocErr err =
     (if SecurityMode opnReq = OpcUa_MessageSecurityMode_None then (True, nonce, err)
      else if ClientNonce opnReq \<noteq> [] then
        (if mem_ok (sc_enc env) (length (ClientNonce opnReq)) then (True, Some (ClientNonce opnReq), err)
         else (False, None, allocErr))
      else (False, nonce, OpcUa_BadNonceInvalid))"

text \<open>The configuration recorded for the new channel; 0 when it could not be added.\<close>

definition add_channel_config ::
  "scm_env \<Rightarrow> sc_connection \<Rightarrow> SOPC_Endpoint_Config \<Rightarrow> OpcUa_OpenSecureChannelRequest \<Rightarrow> SOPC_KeyCertPair option \<Rightarrow>
   sc_world \<Rightarrow> (u32 \<times> sc_world) option" where
  "add_channel_config env sc epConfig opnReq certHolder w = do {
     uri \<leftarrow> asym_securityPolicyUri (serverAsymmSecuInfo sc);
     peer \<leftarrow> SOPC_strdup (sc_enc env) (peerInfo sc);
     audit \<leftarrow> SOPC_strdup (sc_enc env) (altClientAuditInfo sc);
     SOPC_ToolkitServer_AddSecureChannelConfig
       \<lparr>isClientSc = False, clientKeyCertPair = None, clientPKI = None, serverUri = None,
        cfg_url = Some (endpointURL epConfig), cfg_secureChannelId = 0, peerAppCert = certHolder,
        cfg_reqSecuPolicyUri = uri, requestedLifetime = at_least_minimum (RequestedLifetime opnReq),
        msgSecurityMode = SecurityMode opnReq, clientPeerInfo = peer, clientAuditInfo = audit,
        internalProtocolData = sendMaxMessageSize (tcpMsgProperties sc)\<rparr> w }"

text \<open>The part that follows the decoding of both structures.\<close>

definition treat_open_request ::
  "scm_env \<Rightarrow> u32 \<Rightarrow> SOPC_Endpoint_Config \<Rightarrow> OpcUa_OpenSecureChannelRequest \<Rightarrow> SOPC_StatusCode \<Rightarrow> SOPC_StatusCode \<Rightarrow>
   sc_world \<Rightarrow> (bool \<times> SOPC_StatusCode \<times> SOPC_StatusCode \<times> sc_world) option" where
  "treat_open_request env idx epConfig opnReq detailed tcpErr w = do {
     let sc = secureConnectionsArray w idx;
     let (result, detailed, tcpErr) = check_open_request sc opnReq detailed tcpErr;
     let (result, nonce, tcpErr) =
       (if result then take_client_nonce env opnReq (clientNonce sc) OpcUa_BadTcpInternalError tcpErr
        else (False, clientNonce sc, tcpErr));
     let w = sc_update idx (\<lambda>c. c\<lparr>clientNonce := nonce\<rparr>) w;
     let (der_ok, der) = get_certificate_der env (asym_clientCertificate (serverAsymmSecuInfo sc));
     if \<not> mem_ok (sc_enc env) sizeof_ScConfig \<or> \<not> der_ok then Some (False, detailed, OpcUa_BadTcpInternalError, w)
     else if \<not> result then Some (False, detailed, tcpErr, w)
     else case (case der of None \<Rightarrow> Some None | Some bytes \<Rightarrow> map_option Some (certHolderFromBytes env bytes)) of
       None \<Rightarrow> Some (False, detailed, tcpErr, w)
     | Some certHolder \<Rightarrow> do {
         (cfg, w) \<leftarrow> add_channel_config env sc epConfig opnReq certHolder w;
         Some (if cfg > 0
               then (True, detailed, tcpErr, sc_update idx (\<lambda>c. c\<lparr>secureChannelConfigIdx := cfg,
                       clientCertificate := asym_clientCertificate (serverAsymmSecuInfo sc)\<rparr>) w)
               else (False, detailed, tcpErr, w)) } }"

text \<open>The result, the request handle, whether a request header was decoded, and the two error statuses.\<close>

definition SC_ServerTransition_ScInit_To_ScConnecting ::
  "scm_env \<Rightarrow> u32 \<Rightarrow> SOPC_Buffer \<Rightarrow> u32 \<Rightarrow> SOPC_StatusCode \<Rightarrow> sc_world \<Rightarrow>
   (bool \<times> u32 \<times> bool \<times> SOPC_StatusCode \<times> SOPC_StatusCode \<times> sc_world) option" where
  "SC_ServerTransition_ScInit_To_ScConnecting env idx opnReqMsgBuffer reqHandle tcpErr w = do {
     let sc = secureConnectionsArray w idx;
     if sc_state sc = SECURE_CONNECTION_STATE_SC_INIT \<and> isServerConnection sc \<and>
        asym_securityPolicyUri (serverAsymmSecuInfo sc) \<noteq> None \<and> validSecurityModes (serverAsymmSecuInfo sc) \<noteq> 0
     then do {
       epConfig \<leftarrow> SOPC_ToolkitServer_GetEndpointConfig env (serverEndpointConfigIdx sc) w;
       epConfig \<leftarrow> epConfig;
       (result, reqHandle, hasHeader, detailed, tcpErr, w) \<leftarrow>
         (case decodeRequestHeader env opnReqMsgBuffer of
            (None, _) \<Rightarrow> Some (False, reqHandle, False, SOPC_GoodGenericStatus, tcpErr, w)
          | (Some h, b) \<Rightarrow>
              (case decodeOpenRequest env b of
                 (None, _) \<Rightarrow> Some (False, reqh_RequestHandle h, True, SOPC_GoodGenericStatus, tcpErr, w)
               | (Some opnReq, _) \<Rightarrow> do {
                   (result, detailed, tcpErr, w) \<leftarrow>
                     treat_open_request env idx epConfig opnReq SOPC_GoodGenericStatus tcpErr w;
                   Some (result, reqh_RequestHandle h, True, detailed, tcpErr, w) }));
       let w = (if result then sc_update idx (\<lambda>c. c\<lparr>sc_state := SECURE_CONNECTION_STATE_SC_CONNECTING\<rparr>) w else w);
       let detailed = (if \<not> result \<and> detailed = SOPC_GoodGenericStatus then tcpErr else detailed);
       Some (result, reqHandle, hasHeader, detailed, tcpErr, sc_update idx (\<lambda>c. c\<lparr>serverAsymmSecuInfo := asym_zero\<rparr>) w) }
     else None }"

section \<open>Fresh identifiers\<close>

text \<open>\<open>SOPC_CryptoProvider_GenerateRandomID\<close>: the result is not written when it fails.\<close>

definition random_id :: "scm_env \<Rightarrow> u32 \<Rightarrow> nat \<Rightarrow> bool \<times> u32 \<times> nat" where
  "random_id env old n = (case generateRandomID env n of None \<Rightarrow> (False, old, n + 1) | Some v \<Rightarrow> (True, v, n + 1))"

text \<open>The connections a listener refers to, and those of them that are open; \<open>None\<close> outside of the array.\<close>

definition listener_indexes :: "SOPC_SecureListener \<Rightarrow> u32 list" where
  "listener_indexes l =
     map fst (filter snd (zip (connectionIdxArray l) (isUsedConnectionIdxArray l)))"

definition open_tokens :: "SOPC_SecureListener \<Rightarrow> sc_world \<Rightarrow> SOPC_SecureConnection_SecurityToken list option" where
  "open_tokens l w =
     (if \<forall>i \<in> set (listener_indexes l). i \<le> SOPC_MAX_SECURE_CONNECTIONS_PLUS_BUFFERED
      then Some (map currentSecurityToken (filter (\<lambda>c. \<not> sc_is_closed (sc_state c))
             (map (secureConnectionsArray w) (listener_indexes l))))
      else None)"

text \<open>The attempts: the identifiers found so far (0 for none), the values drawn last, the number of draws.\<close>

fun fresh_ids ::
  "scm_env \<Rightarrow> SOPC_SecureConnection_SecurityToken list \<Rightarrow> nat \<Rightarrow> u32 \<Rightarrow> u32 \<Rightarrow> u32 \<Rightarrow> u32 \<Rightarrow> nat \<Rightarrow> u32 \<times> u32 \<times> nat" where
  "fresh_ids env used 0 scId tokId newScId newTokId n = (scId, tokId, n)"
| "fresh_ids env used (Suc attempts) scId tokId newScId newTokId n =
     (if scId \<noteq> 0 \<and> tokId \<noteq> 0 then (scId, tokId, n)
      else
        (let (ok, newScId, n) = (if scId = 0 then random_id env newScId n else (True, newScId, n));
             (ok, newTokId, n) = (if tokId = 0 then random_id env newTokId n else (ok, newTokId, n))
         in if ok \<and> newScId \<noteq> 0 \<and> newTokId \<noteq> 0
            then fresh_ids env used attempts
              (if newScId \<notin> secureChannelId ` set used then newScId else scId)
              (if newTokId \<notin> tokenId ` set used then newTokId else tokId) newScId newTokId n
            else fresh_ids env used attempts scId tokId newScId newTokId n))"

definition SC_Server_GenerateFreshSecureChannelAndTokenId ::
  "scm_env \<Rightarrow> u32 \<Rightarrow> sc_world \<Rightarrow> ((u32 \<times> u32) option \<times> sc_world) option" where
  "SC_Server_GenerateFreshSecureChannelAndTokenId env idx w =
     (if isServerConnection (secureConnectionsArray w idx) then do {
        l \<leftarrow> listener_at (serverEndpointConfigIdx (secureConnectionsArray w idx)) w;
        if sl_state l = SECURE_LISTENER_STATE_OPENED \<or> sl_state l = SECURE_LISTENER_STATE_INACTIVE then do {
          used \<leftarrow> open_tokens l w;
          let (scId, tokId, n) = fresh_ids env used 5 0 0 0 0 (random_calls w);
          Some (if scId \<noteq> 0 \<and> tokId \<noteq> 0 then Some (scId, tokId) else None, w\<lparr>random_calls := n\<rparr>) }
        else Some (None, w) }
      else None)"

fun fresh_token ::
  "scm_env \<Rightarrow> SOPC_SecureConnection_SecurityToken list \<Rightarrow> nat \<Rightarrow> u32 \<Rightarrow> nat \<Rightarrow> u32 \<times> nat" where
  "fresh_token env used 0 newTokId n = (0, n)"
| "fresh_token env used (Suc attempts) newTokId n =
     (let (ok, newTokId, n) = random_id env newTokId n
      in if ok \<and> newTokId \<noteq> 0 \<and> newTokId \<notin> tokenId ` set used then (newTokId, n)
         else fresh_token env used attempts newTokId n)"

definition SC_Server_GenerateFreshTokenId :: "scm_env \<Rightarrow> u32 \<Rightarrow> sc_world \<Rightarrow> (u32 \<times> sc_world) option" where
  "SC_Server_GenerateFreshTokenId env idx w =
     (if isServerConnection (secureConnectionsArray w idx) then do {
        l \<leftarrow> listener_at (serverEndpointConfigIdx (secureConnectionsArray w idx)) w;
        if sl_state l = SECURE_LISTENER_STATE_OPENED \<or> sl_state l = SECURE_LISTENER_STATE_INACTIVE then do {
          used \<leftarrow> open_tokens l w;
          let (tokId, n) = fresh_token env used 5 0 (random_calls w);
          Some (tokId, w\<lparr>random_calls := n\<rparr>) }
        else Some (0, w) }
      else None)"

section \<open>Open response\<close>

text \<open>
  The nonce of the server and the keys derived with it: the result, the key sets, the bytes to send and the
  error status. \<open>None\<close> when the nonce of the client or the crypto provider is missing.
\<close>

definition server_keys ::
  "scm_env \<Rightarrow> u32 \<Rightarrow> SOPC_StatusCode \<Rightarrow> sc_world \<Rightarrow>
   (bool \<times> SOPC_SC_SecurityKeySets option \<times> byte list \<times> SOPC_StatusCode \<times> sc_world) option" where
  "server_keys env idx err w = do {
     let sc = secureConnectionsArray w idx;
     cNonce \<leftarrow> clientNonce sc;
     let (nonce, w) = draw_nonce env (cryptoProvider sc) w;
     case nonce of
       None \<Rightarrow> Some (False, None, [], OpcUa_BadTcpInternalError, w)
     | Some sNonce \<Rightarrow> do {
         provider \<leftarrow> cryptoProvider sc;
         let (result, keys, err) = SC_DeriveSymmetricKeySets env True provider cNonce sNonce err;
         if \<not> result then Some (False, Some keys, [], err, w)
         else if length sNonce \<le> 2147483647 then
           (if mem_ok (sc_enc env) (length sNonce) then Some (True, Some keys, sNonce, err, w)
            else Some (False, Some keys, [], OpcUa_BadOutOfMemory, w))
         else Some (False, Some keys, [], OpcUa_BadTcpInternalError, w) } }"

definition encode_open_response ::
  "scm_env \<Rightarrow> u32 \<Rightarrow> u32 \<Rightarrow> SOPC_SecureConnection_SecurityToken \<Rightarrow> byte list \<Rightarrow> SOPC_Buffer \<Rightarrow>
   SOPC_ReturnStatus \<times> SOPC_Buffer" where
  "encode_open_response env version reqHandle token sNonce b =
     encodeOpenResponse env
       \<lparr>resph_Timestamp = currentTimeUTC env, resph_RequestHandle = reqHandle,
        resph_ServiceResult = SOPC_GoodGenericStatus\<rparr>
       \<lparr>ServerProtocolVersion = version, ChannelId = secureChannelId token, TokenId = tokenId token,
        CreatedAt = createdAt token, RevisedLifetime = revisedLifetime token, ServerNonce = sNonce\<rparr> b"

definition new_token :: "scm_env \<Rightarrow> u32 \<Rightarrow> u32 \<Rightarrow> u32 \<Rightarrow> SOPC_SecureConnection_SecurityToken" where
  "new_token env scId tokId lifetime =
     \<lparr>secureChannelId = scId, tokenId = tokId, createdAt = currentTimeUTC env,
      lifetimeEndTimeRef = SOPC_TimeReference_AddMilliseconds (currentTimeRef env) (ucast lifetime),
      revisedLifetime = lifetime\<rparr>"

text \<open>
  The keys of a new channel go to the connection; a nonce of the client with a wrong length is reported as a
  failed security check.
\<close>

definition new_channel_keys ::
  "scm_env \<Rightarrow> u32 \<Rightarrow> OpcUa_MessageSecurityMode \<Rightarrow> SOPC_StatusCode \<Rightarrow> sc_world \<Rightarrow>
   (bool \<times> byte list \<times> SOPC_StatusCode \<times> SOPC_StatusCode \<times> sc_world) option" where
  "new_channel_keys env idx mode tcpErr w =
     (if mode = OpcUa_MessageSecurityMode_None then Some (True, [], SOPC_GoodGenericStatus, tcpErr, w)
      else do {
        (result, keys, sNonce, err, w) \<leftarrow> server_keys env idx tcpErr w;
        let w = (case keys of None \<Rightarrow> w | Some ks \<Rightarrow> sc_update idx (\<lambda>c. c\<lparr>currentSecuKeySets := ks\<rparr>) w);
        let w = sc_update idx (\<lambda>c. c\<lparr>clientNonce := None\<rparr>) w;
        Some (if \<not> result \<and> err = OpcUa_BadNonceInvalid
              then (False, sNonce, OpcUa_BadNonceInvalid, OpcUa_BadSecurityChecksFailed, w)
              else (result, sNonce, SOPC_GoodGenericStatus, err, w)) })"

definition SC_ServerTransition_ScConnecting_To_ScConnected ::
  "scm_env \<Rightarrow> u32 \<Rightarrow> u32 \<Rightarrow> u32 \<Rightarrow> SOPC_StatusCode \<Rightarrow> sc_world \<Rightarrow>
   (bool \<times> SOPC_StatusCode \<times> SOPC_StatusCode \<times> sc_world) option" where
  "SC_ServerTransition_ScConnecting_To_ScConnected env idx requestId reqHandle tcpErr w = do {
     let sc = secureConnectionsArray w idx;
     if sc_state sc = SECURE_CONNECTION_STATE_SC_CONNECTING \<and> isServerConnection sc \<and> cryptoProvider sc \<noteq> None then do {
       scConfig \<leftarrow> SOPC_ToolkitServer_GetSecureChannelConfig (secureChannelConfigIdx sc) w;
       (result, b, detailed, tcpErr, w) \<leftarrow>
         (case SOPC_Buffer_Create (sc_enc env) (sendBufferSize (tcpMsgProperties sc)) of
            None \<Rightarrow> Some (False, None, SOPC_GoodGenericStatus, OpcUa_BadOutOfMemory, w)
          | Some b \<Rightarrow> do {
              (ids, w) \<leftarrow> SC_Server_GenerateFreshSecureChannelAndTokenId env idx w;
              let t = currentSecurityToken sc;
              let token = (case ids of
                 None \<Rightarrow> new_token env (secureChannelId t) (tokenId t) (requestedLifetime scConfig)
               | Some (scId, tokId) \<Rightarrow> new_token env scId tokId (requestedLifetime scConfig));
              let w = sc_update idx (\<lambda>c. c\<lparr>currentSecurityToken := token, serverNewSecuTokenActive := True\<rparr>) w;
              if ids = None
              then Some (False, None, SOPC_GoodGenericStatus,
                if tcpErr = SOPC_GoodGenericStatus then OpcUa_BadTcpInternalError else tcpErr, w)
              else do {
                let w = server_config_update (secureChannelConfigIdx sc)
                          (\<lambda>c. c\<lparr>cfg_secureChannelId := secureChannelId token\<rparr>) w;
                (result, sNonce, detailed, tcpErr, w) \<leftarrow> new_channel_keys env idx (msgSecurityMode scConfig) tcpErr w;
                if \<not> result then Some (False, None, detailed, tcpErr, w)
                else (let (status, b) = encode_open_response env (protocolVersion (tcpMsgProperties sc)) reqHandle token sNonce b
                      in Some (if status = SOPC_STATUS_OK then (True, Some b, detailed, tcpErr, w)
                               else (False, None, detailed, OpcUa_BadEncodingError, w))) } });
       if result then
         (let w = sc_update idx (\<lambda>c. c\<lparr>sc_state := SECURE_CONNECTION_STATE_SC_CONNECTED\<rparr>) w
          in Some (True, detailed, tcpErr,
               SOPC_SecureChannels_EnqueueInternalEventAsNext env (INT_SC_SND INT_SC_SND_OPN idx b (ucast requestId)) w))
       else Some (False, if detailed = SOPC_GoodGenericStatus then tcpErr else detailed, tcpErr, w) }
     else None }"

section \<open>Renewal\<close>

definition check_renew_request ::
  "sc_connection \<Rightarrow> SOPC_SecureChannel_Config \<Rightarrow> OpcUa_OpenSecureChannelRequest \<Rightarrow> SOPC_StatusCode \<Rightarrow> bool \<times> SOPC_StatusCode" where
  "check_renew_request sc scConfig opnReq err =
     (if protocolVersion (tcpMsgProperties sc) \<noteq> ClientProtocolVersion opnReq
      then (False, OpcUa_BadProtocolVersionUnsupported)
      else if RequestType opnReq \<noteq> OpcUa_SecurityTokenRequestType_Renew then (False, OpcUa_BadSecurityChecksFailed)
      else if SecurityMode opnReq \<noteq> msgSecurityMode scConfig then (False, OpcUa_BadSecurityModeRejected)
      else (True, err))"

text \<open>The result, the request handle and the lifetime, whether a header was decoded, and the error status.\<close>

definition SC_ServerTransition_ScConnected_To_ScConnectedRenew ::
  "scm_env \<Rightarrow> u32 \<Rightarrow> SOPC_Buffer \<Rightarrow> SOPC_StatusCode \<Rightarrow> sc_world \<Rightarrow>
   (bool \<times> u32 \<times> u32 \<times> bool \<times> SOPC_StatusCode \<times> sc_world) option" where
  "SC_ServerTransition_ScConnected_To_ScConnectedRenew env idx opnReqMsgBuffer err w = do {
     let sc = secureConnectionsArray w idx;
     if sc_state sc = SECURE_CONNECTION_STATE_SC_CONNECTED \<and> isServerConnection sc then do {
       scConfig \<leftarrow> SOPC_ToolkitServer_GetSecureChannelConfig (secureChannelConfigIdx sc) w;
       case decodeRequestHeader env opnReqMsgBuffer of
         (None, _) \<Rightarrow> Some (False, 0, 0, False, err, w)
       | (Some h, b) \<Rightarrow>
           (case decodeOpenRequest env b of
              (None, _) \<Rightarrow> Some (False, reqh_RequestHandle h, 0, True, err, w)
            | (Some opnReq, _) \<Rightarrow> do {
                let (result, err) = check_renew_request sc scConfig opnReq err;
                if \<not> result then Some (False, reqh_RequestHandle h, 0, True, err, w)
                else do {
                  let lifetime = at_least_minimum (RequestedLifetime opnReq);
                  if msgSecurityMode scConfig = OpcUa_MessageSecurityMode_Invalid then None
                  else do {
                    let (result, nonce, err) = take_client_nonce env opnReq (clientNonce sc) OpcUa_BadNonceInvalid err;
                    let w = sc_update idx (\<lambda>c. c\<lparr>clientNonce := nonce\<rparr>) w;
                    Some (result, reqh_RequestHandle h, lifetime, True, err,
                      if result then sc_update idx (\<lambda>c. c\<lparr>sc_state := SECURE_CONNECTION_STATE_SC_CONNECTED_RENEW\<rparr>) w
                      else w) } } }) }
     else None }"

definition renew_token ::
  "SOPC_SecureConnection_SecurityToken \<Rightarrow> SOPC_SC_SecurityKeySets \<Rightarrow> sc_connection \<Rightarrow> sc_connection" where
  "renew_token token keys sc =
     sc\<lparr>sc_state := SECURE_CONNECTION_STATE_SC_CONNECTED, precedentSecurityToken := currentSecurityToken sc,
        precedentSecuKeySets := currentSecuKeySets sc, currentSecurityToken := token, currentSecuKeySets := keys,
        serverNewSecuTokenActive := False\<rparr>"

definition renew_keys ::
  "scm_env \<Rightarrow> u32 \<Rightarrow> OpcUa_MessageSecurityMode \<Rightarrow> SOPC_StatusCode \<Rightarrow> sc_world \<Rightarrow>
   (bool \<times> SOPC_SC_SecurityKeySets \<times> byte list \<times> SOPC_StatusCode \<times> sc_world) option" where
  "renew_keys env idx mode err w =
     (if mode = OpcUa_MessageSecurityMode_None then Some (True, keysets_zero, [], err, w)
      else do {
        (result, keys, sNonce, err, w) \<leftarrow> server_keys env idx err w;
        Some (result, case keys of None \<Rightarrow> keysets_zero | Some ks \<Rightarrow> ks, sNonce, err,
          sc_update idx (\<lambda>c. c\<lparr>clientNonce := None\<rparr>) w) })"

definition SC_ServerTransition_ScConnectedRenew_To_ScConnected ::
  "scm_env \<Rightarrow> u32 \<Rightarrow> u32 \<Rightarrow> u32 \<Rightarrow> u32 \<Rightarrow> SOPC_StatusCode \<Rightarrow> sc_world \<Rightarrow> (bool \<times> SOPC_StatusCode \<times> sc_world) option" where
  "SC_ServerTransition_ScConnectedRenew_To_ScConnected env idx requestId reqHandle lifetime err w = do {
     let sc = secureConnectionsArray w idx;
     if sc_state sc = SECURE_CONNECTION_STATE_SC_CONNECTED_RENEW \<and> isServerConnection sc then do {
       scConfig \<leftarrow> SOPC_ToolkitServer_GetSecureChannelConfig (secureChannelConfigIdx sc) w;
       case SOPC_Buffer_Create (sc_enc env) (sendBufferSize (tcpMsgProperties sc)) of
         None \<Rightarrow> Some (False, OpcUa_BadOutOfMemory, w)
       | Some b \<Rightarrow> do {
           (tokId, w) \<leftarrow> SC_Server_GenerateFreshTokenId env idx w;
           if tokId = 0 then Some (False, err, w)
           else do {
             let token = new_token env (secureChannelId (currentSecurityToken sc)) tokId lifetime;
             (result, keys, sNonce, err, w) \<leftarrow> renew_keys env idx (msgSecurityMode scConfig) err w;
             if \<not> result then Some (False, err, w)
             else (let (status, b) = encode_open_response env (protocolVersion (tcpMsgProperties sc)) reqHandle token sNonce b
                   in Some (if status = SOPC_STATUS_OK
                        then (True, err, SOPC_SecureChannels_EnqueueInternalEventAsNext env
                                (INT_SC_SND INT_SC_SND_OPN idx (Some b) (ucast requestId))
                                (sc_update idx (renew_token token keys) w))
                        else (False, OpcUa_BadEncodingError, w))) } } }
     else None }"

section \<open>Reception of an open message\<close>

text \<open>The type of the message is the expected one; the rest of the message follows.\<close>

definition SC_ReadAndCheckOpcUaMessageType :: "scm_env \<Rightarrow> sc_message_type \<Rightarrow> SOPC_Buffer \<Rightarrow> bool \<times> SOPC_Buffer" where
  "SC_ReadAndCheckOpcUaMessageType env expected msgBuffer =
     (case readMessageType env msgBuffer of (t, b) \<Rightarrow> (t = Some expected, b))"

definition ensure_error :: "SOPC_StatusCode \<Rightarrow> SOPC_StatusCode" where
  "ensure_error err = (if err = SOPC_GoodGenericStatus then OpcUa_BadTcpInternalError else err)"

definition close_with :: "scm_env \<Rightarrow> u32 \<Rightarrow> SOPC_StatusCode \<Rightarrow> string \<Rightarrow> bool \<Rightarrow> sc_world \<Rightarrow> sc_world option" where
  "close_with env idx err reason has_reqHeader w =
     SC_CloseSecureConnection env (SC_GetConnection idx w) idx False False err (c_string reason) has_reqHeader w"

definition stop_connection_timer :: "scm_env \<Rightarrow> u32 \<Rightarrow> sc_world \<Rightarrow> sc_world" where
  "stop_connection_timer env idx w =
     sc_update idx (\<lambda>c. c\<lparr>connectionTimeoutTimerId := 0\<rparr>)
       (timer_cancel env (connectionTimeoutTimerId (secureConnectionsArray w idx)) w)"

definition onClientSideOpen :: "scm_env \<Rightarrow> u32 \<Rightarrow> SOPC_Buffer \<Rightarrow> sc_world \<Rightarrow> sc_world option" where
  "onClientSideOpen env idx msg w = do {
     let sc = secureConnectionsArray w idx;
     if isServerConnection sc then None
     else if sc_state sc \<noteq> SECURE_CONNECTION_STATE_SC_CONNECTING \<and> sc_state sc \<noteq> SECURE_CONNECTION_STATE_SC_CONNECTED_RENEW
     then close_with env idx OpcUa_BadSecurityChecksFailed ''Invalid state to receive an OPN request'' False w
     else case SC_ReadAndCheckOpcUaMessageType env OpenSecureChannelResponse_type msg of
       (False, _) \<Rightarrow> close_with env idx OpcUa_BadRequestNotAllowed
         ''Unexpected OpenSecureChannel request received by client'' False w
     | (True, msg) \<Rightarrow>
         if sc_state sc = SECURE_CONNECTION_STATE_SC_CONNECTING then do {
           (result, err, w) \<leftarrow> SC_ClientTransition_ScConnecting_To_ScConnected env idx msg SOPC_GoodGenericStatus w;
           if \<not> result then close_with env idx (ensure_error err)
             ''Failure during OpenSecureChannel response treatment'' False w
           else (let w = stop_connection_timer env idx w; sc = secureConnectionsArray w idx
                 in Some (post_services env
                      (if isReverseConnection sc
                       then SC_REVERSE_CONNECTED idx (secureChannelConfigIdx sc) (serverReverseConnIdx sc)
                       else SC_CONNECTED idx (secureChannelConfigIdx sc)) w)) }
         else do {
           (result, err, w) \<leftarrow> SC_ClientTransition_ScConnectedRenew_To_ScConnected env idx msg SOPC_GoodGenericStatus w;
           if \<not> result then close_with env idx (ensure_error err)
             ''Failure during OpenSecureChannel RENEW response treatment'' False w
           else Some w } }"

definition server_new_channel :: "scm_env \<Rightarrow> u32 \<Rightarrow> SOPC_Buffer \<Rightarrow> u32 \<Rightarrow> sc_world \<Rightarrow> sc_world option" where
  "server_new_channel env idx msg requestId w = do {
     (result, reqHandle, hasHeader, detailed, tcpErr, w) \<leftarrow>
       SC_ServerTransition_ScInit_To_ScConnecting env idx msg 0 SOPC_GoodGenericStatus w;
     (result, detailed, tcpErr, w) \<leftarrow>
       (if result then SC_ServerTransition_ScConnecting_To_ScConnected env idx requestId reqHandle tcpErr w
        else Some (False, detailed, tcpErr, w));
     if \<not> result then close_with env idx (ensure_error tcpErr)
       ''Failure during new OpenSecureChannel request treatment'' hasHeader w
     else
       (let w = stop_connection_timer env idx w; sc = secureConnectionsArray w idx;
            w = post_services env (EP_CONNECTED (serverEndpointConfigIdx sc) (secureChannelConfigIdx sc) idx) w
        in Some (if isReverseConnection sc
                 then SOPC_SecureChannels_EnqueueInternalEventAsNext env
                        (INT_EP_SC_REVERSE_CONNECT (serverEndpointConfigIdx sc) (ucast (serverReverseConnIdx sc))) w
                 else w)) }"

definition server_renew_channel :: "scm_env \<Rightarrow> u32 \<Rightarrow> SOPC_Buffer \<Rightarrow> u32 \<Rightarrow> sc_world \<Rightarrow> sc_world option" where
  "server_renew_channel env idx msg requestId w = do {
     (result, reqHandle, lifetime, hasHeader, err, w) \<leftarrow>
       SC_ServerTransition_ScConnected_To_ScConnectedRenew env idx msg SOPC_GoodGenericStatus w;
     (result, err, w) \<leftarrow>
       (if result then SC_ServerTransition_ScConnectedRenew_To_ScConnected env idx requestId reqHandle lifetime err w
        else Some (False, err, w));
     if \<not> result then close_with env idx (ensure_error err)
       ''Failure during renew OpenSecureChannel request treatment'' hasHeader w
     else Some w }"

definition onServerSideOpen :: "scm_env \<Rightarrow> u32 \<Rightarrow> SOPC_Buffer \<Rightarrow> u32 \<Rightarrow> sc_world \<Rightarrow> sc_world option" where
  "onServerSideOpen env idx msg requestId w = do {
     let sc = secureConnectionsArray w idx;
     if \<not> isServerConnection sc then None
     else if sc_state sc \<noteq> SECURE_CONNECTION_STATE_SC_INIT \<and> sc_state sc \<noteq> SECURE_CONNECTION_STATE_SC_CONNECTED
     then close_with env idx OpcUa_BadSecurityChecksFailed ''Invalid state to receive an OPN request'' False w
     else case SC_ReadAndCheckOpcUaMessageType env OpenSecureChannelRequest_type msg of
       (False, _) \<Rightarrow> close_with env idx OpcUa_BadSecurityChecksFailed
         ''TCP UA OPN message content is not the one expected (wrong type: request/response or message type)'' False w
     | (True, msg) \<Rightarrow>
         if sc_state sc = SECURE_CONNECTION_STATE_SC_INIT then server_new_channel env idx msg requestId w
         else server_renew_channel env idx msg requestId w }"

end
