(* ===== verification/SC_State_Mgr.thy ===== *)
theory SC_State_Mgr
  imports SC_Open_Server
begin

text \<open>
  The event handlers of the secure connection state manager, from
  \<open>sopc_secure_connection_state_mgr.c\<close>: the events of the other parts of the layer, of the sockets, of the timers
  and of the services.
\<close>

section \<open>Events received\<close>

datatype SOPC_Sockets_OutputEvent =
    SOCKET_LISTENER_OPENED u32 uintptr
  | SOCKET_LISTENER_CONNECTION u32 "byte list option" uintptr
  | SOCKET_LISTENER_FAILURE u32
  | SOCKET_CREATED u32 uintptr
  | SOCKET_CONNECTION u32 uintptr
  | SOCKET_FAILURE u32 uintptr
  | SOCKET_RCV_BYTES u32 bufp

datatype SOPC_SecureChannels_InputEvent =
    EP_OPEN u32
  | EP_CLOSE u32
  | REVERSE_EP_OPEN u32
  | REVERSE_EP_CLOSE u32
  | SC_CONNECT u32
  | SC_REVERSE_CONNECT u32 uintptr
  | SC_DISCONNECT u32 uintptr
  | SC_SERVICE_SND_MSG u32 bufp uintptr
  | SC_SERVICE_SND_ERR u32 uintptr uintptr
  | SC_DISCONNECTED_ACK u32 uintptr
  | SCS_REEVALUATE_SCS bool bool
  | SE_TO_SCS_SERVER_CONFIGURED bool

definition UINT32_MAX :: uintptr where "UINT32_MAX = 0xFFFFFFFF"

section \<open>New connections\<close>

definition sc_init_key_and_certs :: "scm_env \<Rightarrow> u32 \<Rightarrow> sc_world \<Rightarrow> (bool \<times> sc_world) option" where
  "sc_init_key_and_certs env idx w = do {
     let sc = secureConnectionsArray w idx;
     (keyCertPair, peer) \<leftarrow>
       (if isServerConnection sc then do {
          epConfig \<leftarrow> SOPC_ToolkitServer_GetEndpointConfig env (serverEndpointConfigIdx sc) w;
          epConfig \<leftarrow> epConfig;
          Some (serverKeyCertPair epConfig, None) }
        else do {
          scConfig \<leftarrow> SOPC_ToolkitClient_GetSecureChannelConfig (secureChannelConfigIdx sc) w;
          Some (clientKeyCertPair scConfig, peerAppCert scConfig) });
     case keyCertPair of
       None \<Rightarrow> Some (True, w)
     | Some pair \<Rightarrow>
         (let ok = keyCopy_ok pair \<and> certCopy pair \<noteq> None \<and> (\<forall>p. peer = Some p \<longrightarrow> certCopy p \<noteq> None);
              own = (if ok then certCopy pair else None)
          in Some (ok, sc_update idx (\<lambda>c.
               (let c = (if isServerConnection c then c\<lparr>serverCertificate := own\<rparr> else c\<lparr>clientCertificate := own\<rparr>);
                    c = c\<lparr>has_privateKey := ok\<rparr>
                in case peer of None \<Rightarrow> c | Some p \<Rightarrow> c\<lparr>serverCertificate := (if ok then certCopy p else None)\<rparr>)) w)) }"

definition initServerSC ::
  "scm_env \<Rightarrow> u32 \<Rightarrow> u32 \<Rightarrow> bool \<Rightarrow> u16 \<Rightarrow> byte list option \<Rightarrow> sc_world \<Rightarrow> (bool \<times> u32 \<times> sc_world) option" where
  "initServerSC env sockIdx ep reverseConn reverseConnIdx peer w = do {
     (result, idx, w) \<leftarrow> SC_InitNewConnection env peer w;
     if \<not> result then Some (False, idx, w)
     else if SC_GetConnection idx w = None then None
     else do {
       let w = sc_update idx (\<lambda>c. c\<lparr>isReverseConnection := reverseConn, serverReverseConnIdx := reverseConnIdx,
                 socketIndex := sockIdx, serverEndpointConfigIdx := ep, isServerConnection := True\<rparr>) w;
       (result, w) \<leftarrow> sc_init_key_and_certs env idx w;
       (result, w) \<leftarrow>
         (if result then do {
            (status, w) \<leftarrow> SC_StartConnectionEstablishTimer env idx w;
            Some (status = SOPC_STATUS_OK, w) }
          else Some (False, w));
       if \<not> result then do {
         (_, w) \<leftarrow> SC_CloseConnection env idx True w;
         Some (False, idx, w) }
       else Some (True, idx, w) } }"

section \<open>Internal events\<close>

definition on_ep_sc_create :: "scm_env \<Rightarrow> u32 \<Rightarrow> byte list option \<Rightarrow> uintptr \<Rightarrow> sc_world \<Rightarrow> sc_world option" where
  "on_ep_sc_create env ep peer auxParam w =
     (if auxParam \<le> UINT32_MAX then do {
        (result, idx, w) \<leftarrow> initServerSC env (ucast auxParam) ep False 0 peer w;
        Some (if result
              then SOPC_SecureChannels_EnqueueInternalEventAsNext env (INT_EP_SC_CREATED ep (ucast idx))
                     (SOPC_Sockets_EnqueueEvent env (SOCKET_ACCEPTED_CONNECTION (ucast auxParam) idx) w)
              else SOPC_Sockets_EnqueueEvent env (SOCKET_CLOSE (ucast auxParam) 0) w) }
      else None)"

text \<open>\<open>epConfig->clientsToConnect[auxParam].clientEndpointURL\<close>, inside of the array.\<close>

definition client_to_connect :: "SOPC_Endpoint_Config \<Rightarrow> uintptr \<Rightarrow> byte list option" where
  "client_to_connect epConfig i =
     (if unat i < length (clientsToConnect epConfig) then Some (clientsToConnect epConfig ! unat i) else None)"

definition on_ep_sc_reverse_connect :: "scm_env \<Rightarrow> u32 \<Rightarrow> uintptr \<Rightarrow> sc_world \<Rightarrow> sc_world option" where
  "on_ep_sc_reverse_connect env ep auxParam w =
     (if auxParam \<le> 255 then do {
        epConfig \<leftarrow> SOPC_ToolkitServer_GetEndpointConfig env ep w;
        case epConfig of
          None \<Rightarrow> Some w
        | Some epConfig \<Rightarrow> do {
            l \<leftarrow> listener_at ep w;
            if sl_state l \<noteq> SECURE_LISTENER_STATE_CLOSED \<and> ucast (nbClientsToConnect epConfig) > auxParam then do {
              url \<leftarrow> client_to_connect epConfig auxParam;
              peer \<leftarrow> SOPC_strdup (sc_enc env) (Some url);
              (result, idx, w) \<leftarrow> initServerSC env 0 ep True (ucast auxParam) peer w;
              if result then do {
                u \<leftarrow> SOPC_strdup (sc_enc env) (Some url);
                Some (SOPC_Sockets_EnqueueEvent env (SOCKET_CREATE_CONNECTION idx u)
                  (sc_update idx (\<lambda>c. c\<lparr>sc_state := SECURE_CONNECTION_STATE_TCP_REVERSE_INIT\<rparr>) w)) }
              else Some w }
            else Some w } }
      else None)"

definition on_rcv_hel :: "scm_env \<Rightarrow> u32 \<Rightarrow> bufp \<Rightarrow> sc_world \<Rightarrow> sc_world option" where
  "on_rcv_hel env idx buffer w =
     (case SC_GetConnection idx w of
        None \<Rightarrow> Some w
      | Some sc \<Rightarrow>
          if sc_state sc \<noteq> SECURE_CONNECTION_STATE_TCP_INIT \<or> \<not> isServerConnection sc
          then close_with env idx OpcUa_BadTcpMessageTypeInvalid ''Hello message received not expected'' False w
          else do {
            b \<leftarrow> buffer;
            (ok, err, w) \<leftarrow> SC_ServerTransition_TcpInit_To_TcpNegotiate env idx b SOPC_GoodGenericStatus w;
            (ok, err, w) \<leftarrow> (if ok then SC_ServerTransition_TcpNegotiate_To_ScInit env idx b err w
                              else Some (False, err, w));
            if ok then Some w else close_with env idx err ''Error on HELLO message treatment'' False w })"

definition on_rcv_rhe :: "scm_env \<Rightarrow> u32 \<Rightarrow> bufp \<Rightarrow> sc_world \<Rightarrow> sc_world option" where
  "on_rcv_rhe env idx buffer w =
     (case SC_GetConnection idx w of
        None \<Rightarrow> Some w
      | Some sc \<Rightarrow>
          if sc_state sc \<noteq> SECURE_CONNECTION_STATE_TCP_REVERSE_TOKEN \<or> isServerConnection sc
          then close_with env idx OpcUa_BadTcpMessageTypeInvalid ''ReverseHello message received not expected'' False w
          else do {
            b \<leftarrow> buffer;
            (ok, serverURI, serverURL) \<leftarrow> SC_ClientPrepareTransition_TcpReverseInit_To_TcpInit env b;
            if \<not> ok then close_with env idx SOPC_GoodGenericStatus ''Error on ReverseHello message treatment'' False w
            else Some (SOPC_SecureChannels_EnqueueInternalEventAsNext env
                         (INT_EP_SC_RHE_DECODED idx serverURI serverURL) w) })"

definition on_rcv_rhe_transition :: "scm_env \<Rightarrow> u32 \<Rightarrow> sc_world \<Rightarrow> sc_world option" where
  "on_rcv_rhe_transition env idx w =
     (case SC_GetConnection idx w of
        None \<Rightarrow> Some w
      | Some sc \<Rightarrow>
          if sc_state sc \<noteq> SECURE_CONNECTION_STATE_TCP_REVERSE_INIT \<or> isServerConnection sc
          then close_with env idx OpcUa_BadTcpMessageTypeInvalid ''ReverseHello message received not expected'' False w
          else do {
            (ok, w) \<leftarrow> SC_ClientTransition_TcpInit_To_TcpNegotiate env idx
              (sc_update idx (\<lambda>c. c\<lparr>sc_state := SECURE_CONNECTION_STATE_TCP_INIT\<rparr>) w);
            if ok then Some w
            else close_with env idx 0 ''SecureConnection: closed on INT_SC_RCV_RHE_TRANSITION'' False w })"

definition on_rcv_ack :: "scm_env \<Rightarrow> u32 \<Rightarrow> bufp \<Rightarrow> sc_world \<Rightarrow> sc_world option" where
  "on_rcv_ack env idx buffer w =
     (case SC_GetConnection idx w of
        None \<Rightarrow> Some w
      | Some sc \<Rightarrow>
          if sc_state sc \<noteq> SECURE_CONNECTION_STATE_TCP_NEGOTIATE \<or> isServerConnection sc
          then close_with env idx OpcUa_BadTcpMessageTypeInvalid ''Unexpected Hello message received'' False w
          else do {
            b \<leftarrow> buffer;
            (ok, w) \<leftarrow> SC_ClientTransition_TcpNegotiate_To_ScInit env idx b w;
            (ok, w) \<leftarrow> (if ok then SC_ClientTransition_ScInit_To_ScConnecting env idx w else Some (False, w));
            if ok then Some w
            else close_with env idx OpcUa_BadInvalidArgument ''Invalid Hello message received'' False w })"

definition on_rcv_opn :: "scm_env \<Rightarrow> u32 \<Rightarrow> bufp \<Rightarrow> u32 \<Rightarrow> sc_world \<Rightarrow> sc_world option" where
  "on_rcv_opn env idx buffer requestId w =
     (case SC_GetConnection idx w of
        None \<Rightarrow> Some w
      | Some sc \<Rightarrow> do {
          b \<leftarrow> buffer;
          if isServerConnection sc then onServerSideOpen env idx b requestId w else onClientSideOpen env idx b w })"

definition on_rcv_clo :: "scm_env \<Rightarrow> u32 \<Rightarrow> bufp \<Rightarrow> sc_world \<Rightarrow> sc_world option" where
  "on_rcv_clo env idx buffer w =
     (case SC_GetConnection idx w of
        None \<Rightarrow> Some w
      | Some sc \<Rightarrow>
          if sc_is_connected (sc_state sc) \<and> isServerConnection sc then do {
            b \<leftarrow> buffer;
            case SC_ReadAndCheckOpcUaMessageType env CloseSecureChannelRequest_type b of
              (True, b) \<Rightarrow> SC_CloseSecureConnection env (SC_GetConnection idx w) idx True False
                OpcUa_BadSecureChannelClosed (c_string ''CLO request message received'')
                (fst (decodeRequestHeader env b) \<noteq> None) w
            | (False, _) \<Rightarrow> close_with env idx OpcUa_BadSecurityChecksFailed ''Invalid CLO request message'' False w }
          else close_with env idx OpcUa_BadSecurityChecksFailed
            ''Failure when encoding a message to send on the secure connection'' False w)"

definition on_rcv_msg_chunks :: "scm_env \<Rightarrow> u32 \<Rightarrow> bufp \<Rightarrow> u32 \<Rightarrow> sc_world \<Rightarrow> sc_world option" where
  "on_rcv_msg_chunks env idx buffer auxParam w =
     (case SC_GetConnection idx w of
        None \<Rightarrow> Some w
      | Some sc \<Rightarrow>
          if sc_is_connected (sc_state sc) then
            (if buffer = None then None
             else Some (post_services env
                    (SC_SERVICE_RCV_MSG idx buffer (if isServerConnection sc then ucast auxParam else 0)) w))
          else close_with env idx OpcUa_BadSecurityChecksFailed
            ''SecureConnection: received an OpcUa message on not established secure connection'' False w)"

definition on_rcv_msg_chunk_abort :: "scm_env \<Rightarrow> u32 \<Rightarrow> bufp \<Rightarrow> u32 \<Rightarrow> sc_world \<Rightarrow> sc_world option" where
  "on_rcv_msg_chunk_abort env idx buffer auxParam w = do {
     (status, err, errorReason) \<leftarrow>
       (case (SC_GetConnection idx w, buffer) of
          (Some _, Some b) \<Rightarrow> SC_ClientTransition_ReceivedErrorMsg env b SOPC_GoodGenericStatus
        | _ \<Rightarrow> Some (SOPC_STATUS_NOK, SOPC_GoodGenericStatus, None));
     if status = SOPC_STATUS_OK then
       (if errorReason = None then None
        else if isServerConnection (secureConnectionsArray w idx) then Some w
        else Some (post_services env (SC_SND_FAILURE idx (ucast auxParam) err) w))
     else close_with env idx OpcUa_BadDecodingError ''Invalid abort message received'' False w }"

definition on_rcv_err :: "scm_env \<Rightarrow> u32 \<Rightarrow> bufp \<Rightarrow> sc_world \<Rightarrow> sc_world option" where
  "on_rcv_err env idx buffer w = do {
     (status, err, errorReason) \<leftarrow>
       (case buffer of
          Some b \<Rightarrow> SC_ClientTransition_ReceivedErrorMsg env b SOPC_GoodGenericStatus
        | None \<Rightarrow> Some (SOPC_STATUS_NOK, SOPC_GoodGenericStatus, None));
     if status = SOPC_STATUS_OK then do {
       reason \<leftarrow> errorReason;
       SC_CloseSecureConnection env (SC_GetConnection idx w) idx True False err reason False w }
     else SC_CloseSecureConnection env (SC_GetConnection idx w) idx True False OpcUa_BadSecureChannelClosed
            (c_string ''ERR message received'') False w }"

definition on_rcv :: "scm_env \<Rightarrow> SOPC_LooperEvent \<Rightarrow> sc_world \<Rightarrow> sc_world option" where
  "on_rcv env e w =
     (let idx = le_eltId e; b = le_params e; aux = le_auxParam e
      in case le_event e of
           INT_SC_RCV_HEL \<Rightarrow> on_rcv_hel env idx b w
         | INT_SC_RCV_ACK \<Rightarrow> on_rcv_ack env idx b w
         | INT_SC_RCV_ERR \<Rightarrow> on_rcv_err env idx b w
         | INT_SC_RCV_RHE \<Rightarrow> on_rcv_rhe env idx b w
         | INT_SC_RCV_OPN \<Rightarrow> on_rcv_opn env idx b aux w
         | INT_SC_RCV_CLO \<Rightarrow> on_rcv_clo env idx b w
         | INT_SC_RCV_MSG_CHUNKS \<Rightarrow> on_rcv_msg_chunks env idx b aux w
         | INT_SC_RCV_MSG_CHUNK_ABORT \<Rightarrow> on_rcv_msg_chunk_abort env idx b aux w
         | INT_SC_RCV_FAILURE \<Rightarrow>
             if SC_GetConnection idx w = None then Some w
             else close_with env idx aux ''Failure when receiving a message on the secure connection'' False w)"

definition on_snd_failure :: "scm_env \<Rightarrow> SOPC_SendFailure \<Rightarrow> sc_world \<Rightarrow> sc_world option" where
  "on_snd_failure env f w =
     (case f of
        INT_SC_SENT_ABORT_FAILURE idx params err \<Rightarrow> Some (post_services env (SC_SND_FAILURE idx params err) w)
      | INT_SC_SND_FATAL_FAILURE idx params err \<Rightarrow>
          (let w = post_services env (SC_SND_FAILURE idx params err) w
           in if SC_GetConnection idx w = None then Some w
              else close_with env idx err ''Failure when encoding a message to send on the secure connection'' False w))"

text \<open>The events of the listener and of the chunk manager are filtered before.\<close>

definition SOPC_SecureConnectionStateMgr_OnInternalEvent :: "scm_env \<Rightarrow> sc_internal_event \<Rightarrow> sc_world \<Rightarrow> sc_world option" where
  "SOPC_SecureConnectionStateMgr_OnInternalEvent env event w =
     (case event of
        INT_EP_SC_CREATE ep peer aux \<Rightarrow> on_ep_sc_create env ep peer aux w
      | INT_EP_SC_REVERSE_CONNECT ep aux \<Rightarrow> on_ep_sc_reverse_connect env ep aux w
      | INT_SC_RCV_RHE_TRANSITION idx \<Rightarrow> on_rcv_rhe_transition env idx w
      | INT_SC_RCV e \<Rightarrow> on_rcv env e w
      | INT_SC_FAILURE f \<Rightarrow> on_snd_failure env f w
      | INT_EP_SC_CLOSE idx _ \<Rightarrow>
          if SC_GetConnection idx w = None then Some w
          else close_with env idx OpcUa_BadSecureChannelClosed ''Endpoint secure connection closed'' False w
      | INT_SC_CLOSE idx reason err \<Rightarrow>
          if SC_GetConnection idx w = None then Some w
          else SC_CloseSecureConnection env (SC_GetConnection idx w) idx True False err reason False w
      | _ \<Rightarrow> None)"

section \<open>Events of the sockets\<close>

text \<open>A socket is expected by a client in the state init and by a server in the state reverse init.\<close>

definition socket_expected :: "sc_connection option \<Rightarrow> bool" where
  "socket_expected sc =
     (case sc of None \<Rightarrow> False
      | Some sc \<Rightarrow>
          sc_state sc = SECURE_CONNECTION_STATE_TCP_INIT \<and> \<not> isServerConnection sc \<or>
          sc_state sc = SECURE_CONNECTION_STATE_TCP_REVERSE_INIT \<and> isServerConnection sc)"

definition SOPC_SecureConnectionStateMgr_OnSocketEvent ::
  "scm_env \<Rightarrow> SOPC_Sockets_OutputEvent \<Rightarrow> sc_world \<Rightarrow> sc_world option" where
  "SOPC_SecureConnectionStateMgr_OnSocketEvent env event w =
     (case event of
        SOCKET_CREATED idx aux \<Rightarrow>
          if aux > UINT32_MAX then None
          else if \<not> socket_expected (SC_GetConnection idx w)
          then Some (SOPC_Sockets_EnqueueEvent env (SOCKET_CLOSE (ucast aux) idx) w)
          else
            (let w = sc_update idx (\<lambda>c. c\<lparr>socketIndex := ucast aux\<rparr>) w; sc = secureConnectionsArray w idx
             in Some (if isServerConnection sc
                      then SOPC_SecureChannels_EnqueueInternalEventAsNext env
                             (INT_EP_SC_CREATED (serverEndpointConfigIdx sc) (ucast idx)) w
                      else w))
      | SOCKET_CONNECTION idx aux \<Rightarrow>
          if aux > UINT32_MAX then None
          else if \<not> socket_expected (SC_GetConnection idx w)
          then Some (SOPC_Sockets_EnqueueEvent env (SOCKET_CLOSE (ucast aux) idx) w)
          else do {
            (ok, w) \<leftarrow> (if isServerConnection (secureConnectionsArray w idx)
                        then SC_ServerTransition_TcpReverseInit_To_TcpInit env idx w
                        else SC_ClientTransition_TcpInit_To_TcpNegotiate env idx w);
            if ok then Some w else close_with env idx 0 ''SecureConnection: closed on SOCKET_CONNECTION'' False w }
      | SOCKET_FAILURE idx _ \<Rightarrow>
          if SC_GetConnection idx w = None then Some w
          else SC_CloseSecureConnection env (SC_GetConnection idx w) idx True True 0
                 (c_string ''SecureConnection: disconnected (SOCKET_FAILURE event)'') False w
      | _ \<Rightarrow> None)"

section \<open>Events of the timers\<close>

text \<open>The first request with an identifier.\<close>

fun requests_update :: "u32 \<Rightarrow> ('a \<Rightarrow> 'a) \<Rightarrow> (u32 \<times> 'a) list \<Rightarrow> (u32 \<times> 'a) list" where
  "requests_update i f [] = []"
| "requests_update i f ((j, x) # rs) = (if j = i then (j, f x) # rs else (j, x) # requests_update i f rs)"

definition on_connection_timeout :: "scm_env \<Rightarrow> u32 \<Rightarrow> sc_world \<Rightarrow> sc_world option" where
  "on_connection_timeout env idx w =
     (case SC_GetConnection idx w of
        None \<Rightarrow> Some w
      | Some sc \<Rightarrow>
          (let w = sc_update idx (\<lambda>c. c\<lparr>connectionTimeoutTimerId := 0\<rparr>) w;
               w = (if \<not> isServerConnection sc \<and> isReverseConnection sc \<and>
                       sc_state sc = SECURE_CONNECTION_STATE_TCP_REVERSE_INIT
                    then SOPC_SecureChannels_EnqueueInternalEventAsNext env
                           (INT_EP_SC_DISCONNECTED (clientReverseEpConfigIdx sc) (ucast idx)) w
                    else w)
           in if \<not> sc_is_connected (sc_state sc)
              then close_with env idx OpcUa_BadTimeout
                     ''SecureConnection: disconnected (TIMER_SC_CONNECTION_TIMEOUT event)'' False w
              else Some w))"

definition on_request_timeout :: "scm_env \<Rightarrow> u32 \<Rightarrow> uintptr \<Rightarrow> sc_world \<Rightarrow> sc_world option" where
  "on_request_timeout env idx auxParam w =
     (if auxParam > UINT32_MAX then None
      else case SC_GetConnection idx w of
        None \<Rightarrow> Some w
      | Some sc \<Rightarrow>
          if sc_is_closed (sc_state sc) then Some w
          else case map_of (sentRequestIds (tcpSeqProperties sc)) (ucast auxParam) of
            None \<Rightarrow> Some w
          | Some msgCtx \<Rightarrow>
              (let w = (if msgType msgCtx = SOPC_MSG_TYPE_SC_MSG
                        then post_services env (SC_REQUEST_TIMEOUT idx (requestHandle msgCtx)) w else w)
               in Some (sc_update idx (\<lambda>c. c\<lparr>tcpSeqProperties := (tcpSeqProperties c)\<lparr>sentRequestIds :=
                    requests_update (ucast auxParam) (\<lambda>m. m\<lparr>timeoutExpired := True\<rparr>)
                      (sentRequestIds (tcpSeqProperties c))\<rparr>\<rparr>) w)))"

definition SOPC_SecureConnectionStateMgr_OnTimerEvent ::
  "scm_env \<Rightarrow> SOPC_SecureChannels_TimerEvent \<Rightarrow> sc_world \<Rightarrow> sc_world option" where
  "SOPC_SecureConnectionStateMgr_OnTimerEvent env event w =
     (case event of
        TIMER_SC_CONNECTION_TIMEOUT idx \<Rightarrow> on_connection_timeout env idx w
      | TIMER_SC_SERVER_REVERSE_CONN_RETRY ep params \<Rightarrow>
          if SOPC_IS_VALID_CLASSIC_EP_CONFIGURATION ep \<and> unat params < SOPC_MAX_REVERSE_CLIENT_CONNECTIONS then
            (let l = secureListenersArray w ep;
                 w = w\<lparr>secureListenersArray := (secureListenersArray w)(ep :=
                       l\<lparr>reverseConnRetryTimerIds := (reverseConnRetryTimerIds l)[unat params := 0]\<rparr>)\<rparr>
             in Some (SOPC_SecureChannels_EnqueueInternalEventAsNext env (INT_EP_SC_REVERSE_CONNECT ep params) w))
          else None
      | TIMER_SC_CLIENT_OPN_RENEW idx \<Rightarrow>
          (case SC_GetConnection idx w of
             None \<Rightarrow> Some w
           | Some sc \<Rightarrow> do {
               let w = sc_update idx (\<lambda>c. c\<lparr>secuTokenRenewTimerId := 0\<rparr>) w;
               if sc_state sc = SECURE_CONNECTION_STATE_SC_CONNECTED \<and> \<not> isServerConnection sc then do {
                 (ok, w) \<leftarrow> SC_ClientTransition_ScConnected_To_ScConnectedRenew env idx w;
                 if ok then Some w
                 else close_with env idx OpcUa_BadTcpInternalError ''Open secure channel forced renew failed'' False w }
               else Some w })
      | TIMER_SC_REQUEST_TIMEOUT idx _ aux \<Rightarrow> on_request_timeout env idx aux w
      | TIMER_SC_RHE_RECEPTION_TIMEOUT _ \<Rightarrow> None)"

section \<open>Re-evaluation of the certificates\<close>

definition SOPC_Internal_Sc_RevalidatePeerCert :: "scm_env \<Rightarrow> u32 \<Rightarrow> bool \<Rightarrow> sc_world \<Rightarrow> sc_world option" where
  "SOPC_Internal_Sc_RevalidatePeerCert env idx isServer w = do {
     let conn = secureConnectionsArray w idx;
     pki \<leftarrow>
       (if isServer then do {
          epConfig \<leftarrow> SOPC_ToolkitServer_GetEndpointConfig env (serverEndpointConfigIdx conn) w;
          Some (Option.bind epConfig serverPKI) }
        else Some (Option.bind (SOPC_ToolkitClient_GetSecureChannelConfig (secureChannelConfigIdx conn) w) clientPKI));
     case pki of
       None \<Rightarrow> Some w
     | Some p \<Rightarrow>
         if certificateValidate env (cryptoProvider conn) p isServer (SC_PeerCertificate conn) then Some w
         else close_with env idx OpcUa_BadSecurityChecksFailed
                ''Certificate is not valid anymore after PKI trust list update'' False w }"

definition SOPC_Internal_Sc_CheckOwnCertChange :: "scm_env \<Rightarrow> u32 \<Rightarrow> bool \<Rightarrow> sc_world \<Rightarrow> sc_world option" where
  "SOPC_Internal_Sc_CheckOwnCertChange env idx isServer w = do {
     let conn = secureConnectionsArray w idx;
     pair \<leftarrow>
       (if isServer then do {
          epConfig \<leftarrow> SOPC_ToolkitServer_GetEndpointConfig env (serverEndpointConfigIdx conn) w;
          Some (Option.bind epConfig serverKeyCertPair) }
        else Some (Option.bind (SOPC_ToolkitClient_GetSecureChannelConfig (secureChannelConfigIdx conn) w)
               clientKeyCertPair));
     case pair of
       None \<Rightarrow> Some w
     | Some p \<Rightarrow>
         (let der = Option.bind (SC_OwnCertificate conn) (certificateToDER env)
          in if der \<noteq> None \<and> certSerialized p = der then Some w
             else close_with env idx OpcUa_BadSecurityChecksFailed
                    ''Certificate is not valid anymore after application (key /) certificate update'' False w) }"

definition SOPC_Internal_SC_ReEvaluate :: "scm_env \<Rightarrow> bool \<Rightarrow> bool \<Rightarrow> u32 \<Rightarrow> sc_world \<Rightarrow> sc_world option" where
  "SOPC_Internal_SC_ReEvaluate env isServer isOwnCert idx w =
     (let conn = secureConnectionsArray w idx
      in if isServer \<noteq> isServerConnection conn then Some w
         else if \<not> sc_is_connected (sc_state conn) then Some w
         else if isOwnCert then SOPC_Internal_Sc_CheckOwnCertChange env idx isServer w
         else SOPC_Internal_Sc_RevalidatePeerCert env idx isServer w)"

text \<open>The loop of \<open>SC_ApplyToAllSCs\<close>: the indexes from 1 below the maximum.\<close>

fun apply_to_scs :: "(u32 \<Rightarrow> sc_world \<Rightarrow> sc_world option) \<Rightarrow> u32 list \<Rightarrow> sc_world \<Rightarrow> sc_world option" where
  "apply_to_scs f [] w = Some w"
| "apply_to_scs f (i # is) w =
     (if SC_GetConnection i w = None then None else do { w \<leftarrow> f i w; apply_to_scs f is w })"

definition SC_ApplyToAllSCs :: "(u32 \<Rightarrow> sc_world \<Rightarrow> sc_world option) \<Rightarrow> sc_world \<Rightarrow> sc_world option" where
  "SC_ApplyToAllSCs f w = apply_to_scs f (map of_nat [1..<unat SOPC_MAX_SECURE_CONNECTIONS_PLUS_BUFFERED]) w"

section \<open>Events of the services\<close>

definition SC_DISCONNECT_status_code_to_reason :: "SOPC_StatusCode \<Rightarrow> string" where
  "SC_DISCONNECT_status_code_to_reason err =
     (if err = OpcUa_BadSecureChannelClosed then ''Closing secure channel on application request''
      else if err = OpcUa_BadSessionNotActivated
      then ''Closing secure channel due to maximum reached (last attempt or oldest without session)''
      else if err = OpcUa_BadTypeMismatch then ''Closing secure channel on reception of unexpected OPC UA message type''
      else if err = OpcUa_BadDecodingError
      then ''Closing secure channel on reception of unknown or invalid OPC UA message type''
      else ''Unexpected SecureChannel disconnection event reason'')"

definition SC_ClientTransition_Connected_To_Disconnected :: "scm_env \<Rightarrow> u32 \<Rightarrow> sc_world \<Rightarrow> sc_world option" where
  "SC_ClientTransition_Connected_To_Disconnected env idx w =
     (if sc_is_connected (sc_state (secureConnectionsArray w idx))
      then SC_Client_SendCloseSecureChannelRequestAndClose env idx OpcUa_BadSecureChannelClosed
             (c_string ''Secure channel requested to be closed by client'') w
      else None)"

text \<open>
  \<open>SC_CONNECT\<close> and \<open>SC_REVERSE_CONNECT\<close>, with the index of the reverse endpoint for the latter. An unknown
  configuration closes the connection \<open>NULL\<close>.
\<close>

definition on_sc_connect :: "scm_env \<Rightarrow> u32 \<Rightarrow> u32 option \<Rightarrow> sc_world \<Rightarrow> sc_world option" where
  "on_sc_connect env scCfgIdx reverse w =
     (case SOPC_ToolkitClient_GetSecureChannelConfig scCfgIdx w of
        None \<Rightarrow> SC_CloseSecureConnection env None 0 True True OpcUa_BadResourceUnavailable (c_string []) False w
      | Some scConfig \<Rightarrow> do {
          (result, idx, w) \<leftarrow> SC_InitNewConnection env None w;
          if \<not> result then Some (post_services env (SC_CONNECTION_TIMEOUT scCfgIdx) w)
          else if SC_GetConnection idx w = None then None
          else do {
            (result, w) \<leftarrow> sc_init_key_and_certs env idx (sc_update idx (\<lambda>c. c\<lparr>secureChannelConfigIdx := scCfgIdx\<rparr>) w);
            if \<not> result
            then SC_CloseSecureConnection env (SC_GetConnection idx w) idx True True OpcUa_BadResourceUnavailable
                   (c_string ''Failed to initialize keys and certificates for connection'') False w
            else do {
              (status, w) \<leftarrow> SC_StartConnectionEstablishTimer env idx w;
              if status \<noteq> SOPC_STATUS_OK
              then SC_CloseSecureConnection env (SC_GetConnection idx w) idx True True OpcUa_BadResourceUnavailable
                     (c_string ''Failed to create a timer for connection establishment timeout'') False w
              else case reverse of
                None \<Rightarrow> do {
                  url \<leftarrow> SOPC_strdup (sc_enc env) (cfg_url scConfig);
                  Some (SOPC_Sockets_EnqueueEvent env (SOCKET_CREATE_CONNECTION idx url) w) }
              | Some reverseEp \<Rightarrow>
                  Some (SOPC_SecureChannels_EnqueueInternalEventAsNext env (INT_REVERSE_EP_REQ_CONNECTION reverseEp (ucast idx))
                    (sc_update idx (\<lambda>c. c\<lparr>isReverseConnection := True, clientReverseEpConfigIdx := reverseEp,
                       sc_state := SECURE_CONNECTION_STATE_TCP_REVERSE_INIT\<rparr>) w)) } } })"

definition on_sc_disconnect :: "scm_env \<Rightarrow> u32 \<Rightarrow> SOPC_StatusCode \<Rightarrow> sc_world \<Rightarrow> sc_world option" where
  "on_sc_disconnect env idx err w =
     (case SC_GetConnection idx w of
        None \<Rightarrow> Some w
      | Some sc \<Rightarrow>
          if sc_is_connected (sc_state sc) then
            (if isServerConnection sc
             then close_with env idx OpcUa_BadSecureChannelClosed (SC_DISCONNECT_status_code_to_reason err) False w
             else SC_ClientTransition_Connected_To_Disconnected env idx w)
          else close_with env idx OpcUa_BadTcpInternalError
                 ''Invalid secure connection state or error when sending a close secure channel request'' False w)"

definition on_service_snd_msg :: "scm_env \<Rightarrow> u32 \<Rightarrow> bufp \<Rightarrow> uintptr \<Rightarrow> sc_world \<Rightarrow> sc_world" where
  "on_service_snd_msg env idx buffer aux w =
     (case SC_GetConnection idx w of
        None \<Rightarrow> post_services env (SC_SND_FAILURE idx aux OpcUa_BadSecureChannelIdInvalid) w
      | Some sc \<Rightarrow>
          if \<not> sc_is_connected (sc_state sc)
          then post_services env (SC_SND_FAILURE idx aux OpcUa_BadSecureChannelClosed) w
          else SOPC_SecureChannels_EnqueueInternalEventAsNext env (INT_SC_SND INT_SC_SND_MSG_CHUNKS idx buffer aux) w)"

definition on_disconnected_ack :: "u32 \<Rightarrow> u32 \<Rightarrow> sc_world \<Rightarrow> sc_world" where
  "on_disconnected_ack idx scCfgIdx w =
     (let w = (if scCfgIdx \<noteq> 0 then snd (SOPC_ToolkitServer_RemoveSecureChannelConfig scCfgIdx w) else w)
      in case SC_GetConnection idx w of
           None \<Rightarrow> w
         | Some sc \<Rightarrow>
             if sc_state sc = SECURE_CONNECTION_STATE_SC_CLOSING
             then sc_update idx (\<lambda>c. c\<lparr>sc_state := SECURE_CONNECTION_STATE_SC_CLOSED\<rparr>) w else w)"

definition SOPC_SecureConnectionStateMgr_Dispatcher ::
  "scm_env \<Rightarrow> SOPC_SecureChannels_InputEvent \<Rightarrow> sc_world \<Rightarrow> sc_world option" where
  "SOPC_SecureConnectionStateMgr_Dispatcher env event w =
     (case event of
        SC_CONNECT scCfgIdx \<Rightarrow> on_sc_connect env scCfgIdx None w
      | SC_REVERSE_CONNECT reverseEp params \<Rightarrow> on_sc_connect env (ucast params) (Some reverseEp) w
      | SC_DISCONNECT idx params \<Rightarrow> on_sc_disconnect env idx (ucast params) w
      | SC_SERVICE_SND_MSG idx buffer aux \<Rightarrow> Some (on_service_snd_msg env idx buffer aux w)
      | SC_SERVICE_SND_ERR idx params _ \<Rightarrow>
          (case SC_GetConnection idx w of
             None \<Rightarrow> Some w
           | Some sc \<Rightarrow>
               if sc_is_connected (sc_state sc)
               then close_with env idx (ucast params) ''Error requested by services layer'' False w else Some w)
      | SC_DISCONNECTED_ACK idx params \<Rightarrow> Some (on_disconnected_ack idx (ucast params) w)
      | SCS_REEVALUATE_SCS isServer isOwnCert \<Rightarrow>
          SC_ApplyToAllSCs (SOPC_Internal_SC_ReEvaluate env isServer isOwnCert) w
      | _ \<Rightarrow> None)"

end
