(* ===== verification/SC_Listener.thy ===== *)
theory SC_Listener
  imports SC_State_Mgr
begin

text \<open>
  The listener state manager, from \<open>src/ClientServer/secure_channels/sopc_secure_listener_state_mgr.c\<close>: the
  endpoints a server listens on, the reverse endpoints a client listens on, and the connections each of them
  refers to. An event \<open>SOCKET_CLOSE\<close> has the socket and the \<open>auxParam\<close>, the only ones the sockets layer reads.
\<close>

section \<open>Listeners\<close>

definition listener_update :: "u32 \<Rightarrow> (SOPC_SecureListener \<Rightarrow> SOPC_SecureListener) \<Rightarrow> sc_world \<Rightarrow> sc_world" where
  "listener_update ep f w =
     w\<lparr>secureListenersArray := (secureListenersArray w)(ep := f (secureListenersArray w ep))\<rparr>"

definition SOPC_SecureListenerStateMgr_OpeningListener :: "u32 \<Rightarrow> bool \<Rightarrow> sc_world \<Rightarrow> bool \<times> sc_world" where
  "SOPC_SecureListenerStateMgr_OpeningListener ep reverseEndpoint w =
     (if SOPC_IS_VALID_EP_CONFIGURATION ep \<and> sl_state (secureListenersArray w ep) = SECURE_LISTENER_STATE_CLOSED
      then (True, listener_update ep (\<lambda>l. l\<lparr>reverseEnpoint := reverseEndpoint,
              sl_state := SECURE_LISTENER_STATE_OPENING, sl_serverEndpointConfigIdx := ep, sl_socketIndex := 0\<rparr>) w)
      else (False, w))"

definition SOPC_SecureListenerStateMgr_NoListener :: "u32 \<Rightarrow> sc_world \<Rightarrow> bool \<times> sc_world" where
  "SOPC_SecureListenerStateMgr_NoListener ep w =
     (if SOPC_IS_VALID_CLASSIC_EP_CONFIGURATION ep \<and> sl_state (secureListenersArray w ep) = SECURE_LISTENER_STATE_CLOSED
      then (True, listener_update ep (\<lambda>l. l\<lparr>sl_state := SECURE_LISTENER_STATE_INACTIVE,
              sl_serverEndpointConfigIdx := ep, sl_socketIndex := 0\<rparr>) w)
      else (False, w))"

text \<open>
  The loops on the connections of a listener: one event for each of them, enqueued as next. The arrays are
  cleared with the listener afterwards.
\<close>

definition enqueue_all :: "scm_env \<Rightarrow> (u32 \<Rightarrow> sc_internal_event) \<Rightarrow> u32 list \<Rightarrow> sc_world \<Rightarrow> sc_world" where
  "enqueue_all env ev is w = fold (\<lambda>i. SOPC_SecureChannels_EnqueueInternalEventAsNext env (ev i)) is w"

text \<open>The retry timers are read from an array of \<open>SOPC_MAX_REVERSE_CLIENT_CONNECTIONS\<close> identifiers.\<close>

definition cancel_retry_timers :: "scm_env \<Rightarrow> SOPC_Endpoint_Config \<Rightarrow> SOPC_SecureListener \<Rightarrow> sc_world \<Rightarrow> sc_world option" where
  "cancel_retry_timers env epConfig l w =
     (if unat (nbClientsToConnect epConfig) \<le> SOPC_MAX_REVERSE_CLIENT_CONNECTIONS
      then Some (fold (timer_cancel env) (take (unat (nbClientsToConnect epConfig)) (reverseConnRetryTimerIds l)) w)
      else None)"

definition SOPC_SecureListenerStateMgr_CloseEpListener ::
  "scm_env \<Rightarrow> SOPC_Endpoint_Config \<Rightarrow> u32 \<Rightarrow> bool \<Rightarrow> sc_world \<Rightarrow> (bool \<times> sc_world) option" where
  "SOPC_SecureListenerStateMgr_CloseEpListener env epConfig ep socketFailure w =
     (if SOPC_IS_VALID_CLASSIC_EP_CONFIGURATION ep then
        (let l = secureListenersArray w ep
         in case sl_state l of
              SECURE_LISTENER_STATE_CLOSED \<Rightarrow> Some (True, w)
            | SECURE_LISTENER_STATE_OPENING \<Rightarrow> Some (True, listener_update ep (\<lambda>_. listener_zero) w)
            | _ \<Rightarrow> do {
                w \<leftarrow> cancel_retry_timers env epConfig l w;
                let w = enqueue_all env (\<lambda>i. INT_EP_SC_CLOSE i (ucast ep)) (listener_indexes l) w;
                let w = (if sl_state l = SECURE_LISTENER_STATE_OPENED \<and> \<not> socketFailure
                         then SOPC_Sockets_EnqueueEvent env (SOCKET_CLOSE_LISTENER (sl_socketIndex l) ep) w else w);
                Some (True, listener_update ep (\<lambda>_. listener_zero) w) })
      else Some (False, w))"

definition SOPC_SecureListenerStateMgr_CloseReverseEpListener ::
  "scm_env \<Rightarrow> u32 \<Rightarrow> bool \<Rightarrow> sc_world \<Rightarrow> bool \<times> sc_world" where
  "SOPC_SecureListenerStateMgr_CloseReverseEpListener env ep socketFailure w =
     (if SOPC_IS_VALID_REVERSE_EP_CONFIGURATION ep then
        (let l = secureListenersArray w ep;
             w = (if sl_state l = SECURE_LISTENER_STATE_OPENED \<or> sl_state l = SECURE_LISTENER_STATE_OPENING then
                    (let w = enqueue_all env (\<lambda>i. INT_SC_CLOSE i
                               (c_string ''Reverse endpoint closing: close waiting SC connections'')
                               OpcUa_BadConnectionClosed) (listener_indexes l) w
                     in if sl_state l = SECURE_LISTENER_STATE_OPENED \<and> \<not> socketFailure
                        then SOPC_Sockets_EnqueueEvent env (SOCKET_CLOSE_LISTENER (sl_socketIndex l) ep) w else w)
                  else w)
         in (True, listener_update ep (\<lambda>_. listener_zero) w))
      else (False, w))"

definition SOPC_SecureListenerStateMgr_GetListener :: "u32 \<Rightarrow> sc_world \<Rightarrow> SOPC_SecureListener option" where
  "SOPC_SecureListenerStateMgr_GetListener ep w =
     (if SOPC_IS_VALID_EP_CONFIGURATION ep then Some (secureListenersArray w ep) else None)"

section \<open>Connections of a listener\<close>

text \<open>The search of a free slot, from the one after the last used; it stops before coming back to the latter.\<close>

partial_function (option) free_slot :: "bool list \<Rightarrow> nat \<Rightarrow> nat \<Rightarrow> (bool \<times> nat) option" where
  "free_slot used last_idx idx =
     (let result = \<not> used ! idx; next_idx = (idx + 1) mod SOPC_MAX_SOCKETS_CONNECTIONS
      in if next_idx \<noteq> last_idx \<and> \<not> result then free_slot used last_idx next_idx else Some (result, idx))"

definition SOPC_SecureListenerStateMgr_AddConnection ::
  "SOPC_SecureListener \<Rightarrow> u32 \<Rightarrow> (bool \<times> SOPC_SecureListener) option" where
  "SOPC_SecureListenerStateMgr_AddConnection l newConnectionIndex = do {
     (result, idx) \<leftarrow> free_slot (isUsedConnectionIdxArray l) (lastConnectionIdxArrayIdx l)
       ((lastConnectionIdxArrayIdx l + 1) mod SOPC_MAX_SOCKETS_CONNECTIONS);
     Some (result,
       if result then l\<lparr>connectionIdxArray := (connectionIdxArray l)[idx := newConnectionIndex],
         isUsedConnectionIdxArray := (isUsedConnectionIdxArray l)[idx := True], lastConnectionIdxArrayIdx := idx\<rparr>
       else l) }"

text \<open>The first slot that refers to the connection is freed.\<close>

fun slot_of :: "u32 \<Rightarrow> u32 list \<Rightarrow> bool list \<Rightarrow> nat option" where
  "slot_of c (i # is) (u # us) = (if u \<and> i = c then Some 0 else map_option Suc (slot_of c is us))"
| "slot_of c _ _ = None"

definition SOPC_SecureListenerStateMgr_RemoveConnection :: "u32 \<Rightarrow> SOPC_SecureListener \<Rightarrow> SOPC_SecureListener" where
  "SOPC_SecureListenerStateMgr_RemoveConnection connectionIndex l =
     (case slot_of connectionIndex (connectionIdxArray l) (isUsedConnectionIdxArray l) of
        None \<Rightarrow> l
      | Some k \<Rightarrow> l\<lparr>isUsedConnectionIdxArray := (isUsedConnectionIdxArray l)[k := False],
                     connectionIdxArray := (connectionIdxArray l)[k := 0]\<rparr>)"

text \<open>A waiting connection of a client fits the server that announces itself; \<open>None\<close> reads outside of a string.\<close>

definition SOPC_SecureListenerStateMgr_IsSecureConnectionCompatible ::
  "u32 \<Rightarrow> byte list option \<Rightarrow> byte list option \<Rightarrow> sc_world \<Rightarrow> bool option" where
  "SOPC_SecureListenerStateMgr_IsSecureConnectionCompatible scIdx serverURL serverURI w =
     (case SC_GetConnection scIdx w of
        None \<Rightarrow> Some False
      | Some sc \<Rightarrow>
          if sc_state sc \<noteq> SECURE_CONNECTION_STATE_TCP_REVERSE_INIT then Some False
          else case serverURL of
            None \<Rightarrow> Some True
          | Some announced \<Rightarrow>
              (case SOPC_ToolkitClient_GetSecureChannelConfig (secureChannelConfigIdx sc) w of
                 None \<Rightarrow> Some False
               | Some scConfig \<Rightarrow>
                   (case cfg_url scConfig of
                      None \<Rightarrow> Some False
                    | Some configured \<Rightarrow> do {
                        c \<leftarrow> c_strcmp configured announced;
                        if c \<noteq> 0 then Some False
                        else case (serverUri scConfig, serverURI) of
                            (None, _) \<Rightarrow> Some True
                          | (Some _, None) \<Rightarrow> Some False
                          | (Some uri, Some announcedUri) \<Rightarrow> map_option (\<lambda>c. c = 0) (c_strcmp uri announcedUri) })))"

fun first_compatible :: "(u32 \<Rightarrow> bool option) \<Rightarrow> u32 list \<Rightarrow> u32 option option" where
  "first_compatible compatible [] = Some None"
| "first_compatible compatible (i # is) = do {
     ok \<leftarrow> compatible i;
     if ok then Some (Some i) else first_compatible compatible is }"

definition SOPC_SecureListenerStateMgr_GetFirstConnectionCompatible ::
  "SOPC_SecureListener \<Rightarrow> byte list option \<Rightarrow> byte list option \<Rightarrow> sc_world \<Rightarrow> u32 option option" where
  "SOPC_SecureListenerStateMgr_GetFirstConnectionCompatible l serverURL serverURI w =
     (if reverseEnpoint l
      then first_compatible (\<lambda>i. SOPC_SecureListenerStateMgr_IsSecureConnectionCompatible i serverURL serverURI w)
             (listener_indexes l)
      else None)"

text \<open>The contents of the two connections are exchanged, but for the socket of the token.\<close>

definition SOPC_SecureListenerStateMgr_SwitchWaitingConnectionWithToken :: "u32 \<Rightarrow> u32 \<Rightarrow> sc_world \<Rightarrow> sc_world option" where
  "SOPC_SecureListenerStateMgr_SwitchWaitingConnectionWithToken waitingIdx tokenIdx w = do {
     waitingSc \<leftarrow> SC_GetConnection waitingIdx w;
     tokenSc \<leftarrow> SC_GetConnection tokenIdx w;
     if sc_state waitingSc = SECURE_CONNECTION_STATE_TCP_REVERSE_INIT \<and>
        sc_state tokenSc = SECURE_CONNECTION_STATE_TCP_REVERSE_TOKEN
     then Some (sc_update tokenIdx (\<lambda>_. waitingSc\<lparr>socketIndex := socketIndex tokenSc\<rparr>)
                 (sc_update waitingIdx (\<lambda>_. tokenSc) w))
     else None }"

definition SOPC_SecureListenerStateMgr_SC_Token_ReverseHelloTimer ::
  "scm_env \<Rightarrow> u32 \<Rightarrow> u64 \<Rightarrow> sc_world \<Rightarrow> (SOPC_ReturnStatus \<times> sc_world) option" where
  "SOPC_SecureListenerStateMgr_SC_Token_ReverseHelloTimer env idx timeoutMs w =
     (if idx > 0 \<and> idx \<le> SOPC_MAX_SECURE_CONNECTIONS_PLUS_BUFFERED then
        (let (i, w) = timer_create env (TIMER_SC_RHE_RECEPTION_TIMEOUT idx) timeoutMs w
         in Some (if i = 0 then SOPC_STATUS_NOK else SOPC_STATUS_OK,
                  sc_update idx (\<lambda>c. c\<lparr>connectionTimeoutTimerId := i\<rparr>) w))
      else None)"

section \<open>Internal events\<close>

text \<open>A connection is added to a listener in one of the states given, otherwise it is told to close.\<close>

definition add_to_listener ::
  "scm_env \<Rightarrow> u32 \<Rightarrow> u32 \<Rightarrow> (SOPC_SecureListener \<Rightarrow> bool) \<Rightarrow> sc_internal_event \<Rightarrow> sc_internal_event \<Rightarrow>
   sc_world \<Rightarrow> sc_world option" where
  "add_to_listener env ep idx accepts refused full w =
     (case SOPC_SecureListenerStateMgr_GetListener ep w of
        None \<Rightarrow> Some (SOPC_SecureChannels_EnqueueInternalEventAsNext env refused w)
      | Some l \<Rightarrow>
          if \<not> accepts l then Some (SOPC_SecureChannels_EnqueueInternalEventAsNext env refused w)
          else do {
            (result, l) \<leftarrow> SOPC_SecureListenerStateMgr_AddConnection l idx;
            Some (if result then listener_update ep (\<lambda>_. l) w
                  else SOPC_SecureChannels_EnqueueInternalEventAsNext env full w) })"

definition accepts_connections :: "SOPC_SecureListener \<Rightarrow> bool" where
  "accepts_connections l \<longleftrightarrow>
     sl_state l = SECURE_LISTENER_STATE_OPENED \<or> sl_state l = SECURE_LISTENER_STATE_INACTIVE"

definition accepts_waiting :: "SOPC_SecureListener \<Rightarrow> bool" where
  "accepts_waiting l \<longleftrightarrow>
     sl_state l = SECURE_LISTENER_STATE_OPENING \<or> sl_state l = SECURE_LISTENER_STATE_OPENED"

text \<open>A reverse hello was decoded on the connection \<open>idx\<close>, which holds the place of the socket.\<close>

definition on_rhe_decoded :: "scm_env \<Rightarrow> u32 \<Rightarrow> byte list option \<Rightarrow> byte list option \<Rightarrow> sc_world \<Rightarrow> sc_world option" where
  "on_rhe_decoded env idx serverURI serverURL w =
     (case SC_GetConnection idx w of
        None \<Rightarrow> Some w
      | Some sc \<Rightarrow>
          if isReverseConnection sc \<and> sc_state sc = SECURE_CONNECTION_STATE_TCP_REVERSE_TOKEN \<and>
             SOPC_IS_VALID_REVERSE_EP_CONFIGURATION (clientReverseEpConfigIdx sc)
          then do {
            let ep = clientReverseEpConfigIdx sc;
            let w = stop_connection_timer env idx w;
            let l = secureListenersArray w ep;
            if sl_state l \<noteq> SECURE_LISTENER_STATE_OPENED then Some w
            else do {
              waiting \<leftarrow>
                (if serverURL \<noteq> None \<and> serverURI \<noteq> None
                 then SOPC_SecureListenerStateMgr_GetFirstConnectionCompatible l serverURL serverURI w else Some None);
              case waiting of
                None \<Rightarrow> Some (SOPC_Sockets_EnqueueEvent env (SOCKET_CLOSE (socketIndex sc) 0) w)
              | Some waitingIdx \<Rightarrow> do {
                  w \<leftarrow> SOPC_SecureListenerStateMgr_SwitchWaitingConnectionWithToken waitingIdx idx w;
                  (_, w) \<leftarrow> SC_CloseConnection env waitingIdx True w;
                  let w = listener_update ep (SOPC_SecureListenerStateMgr_RemoveConnection waitingIdx) w;
                  let w = listener_update ep (SOPC_SecureListenerStateMgr_RemoveConnection idx) w;
                  Some (SOPC_SecureChannels_EnqueueInternalEventAsNext env (INT_SC_RCV_RHE_TRANSITION idx) w) } } }
          else Some w)"

definition SOPC_SecureListenerStateMgr_OnInternalEvent :: "scm_env \<Rightarrow> sc_internal_event \<Rightarrow> sc_world \<Rightarrow> sc_world option" where
  "SOPC_SecureListenerStateMgr_OnInternalEvent env event w =
     (case event of
        INT_EP_SC_CREATED ep aux \<Rightarrow>
          if aux > UINT32_MAX then None
          else add_to_listener env ep (ucast aux) accepts_connections
                 (INT_EP_SC_CLOSE (ucast aux) (ucast ep)) (INT_EP_SC_CLOSE (ucast aux) (ucast ep)) w
      | INT_EP_SC_RHE_DECODED idx serverURI serverURL \<Rightarrow> on_rhe_decoded env idx serverURI serverURL w
      | INT_EP_SC_DISCONNECTED ep aux \<Rightarrow>
          if aux > UINT32_MAX then None
          else (case SOPC_SecureListenerStateMgr_GetListener ep w of
             None \<Rightarrow> Some w
           | Some l \<Rightarrow> Some (if accepts_connections l
                 then listener_update ep (SOPC_SecureListenerStateMgr_RemoveConnection (ucast aux)) w else w))
      | INT_REVERSE_EP_REQ_CONNECTION ep aux \<Rightarrow>
          if aux > UINT32_MAX then None
          else (let refused = INT_SC_CLOSE (ucast aux)
                      (c_string ''Reverse endpoint in incorrect state or invalid parameters'') OpcUa_BadInvalidState
                in if SC_GetConnection (ucast aux) w = None
                   then Some (SOPC_SecureChannels_EnqueueInternalEventAsNext env refused w)
                   else add_to_listener env ep (ucast aux) accepts_waiting refused
                     (INT_SC_CLOSE (ucast aux)
                       (c_string ''Reverse endpoint connection slots full or invalid parameters'') OpcUa_BadOutOfMemory) w)
      | _ \<Rightarrow> None)"

section \<open>Events of the sockets\<close>

text \<open>
  A server connects to a client that waits for it: a connection takes the place of the socket until the
  reverse hello is received.
\<close>

definition new_token_connection :: "scm_env \<Rightarrow> u32 \<Rightarrow> u32 \<Rightarrow> sc_world \<Rightarrow> (bool \<times> u32 \<times> sc_world) option" where
  "new_token_connection env ep sockIdx w = do {
     (result, idx, w) \<leftarrow> SC_InitNewConnection env None w;
     if \<not> result then Some (False, 0, w)
     else do {
       (added, l) \<leftarrow> SOPC_SecureListenerStateMgr_AddConnection (secureListenersArray w ep) idx;
       if \<not> added then Some (False, idx, w)
       else do {
         let w = listener_update ep (\<lambda>_. l) w;
         _ \<leftarrow> SC_GetConnection idx w;
         let w = sc_update idx (\<lambda>c. c\<lparr>isReverseConnection := True, clientReverseEpConfigIdx := ep,
                   socketIndex := sockIdx, sc_state := SECURE_CONNECTION_STATE_TCP_REVERSE_TOKEN\<rparr>) w;
         (status, w) \<leftarrow> SOPC_SecureListenerStateMgr_SC_Token_ReverseHelloTimer env idx
           SOPC_REVERSE_CONNECTION_RECEIVE_RHE_DELAY_MS w;
         Some (status = SOPC_STATUS_OK, idx, w) } } }"

definition on_reverse_socket :: "scm_env \<Rightarrow> u32 \<Rightarrow> u32 \<Rightarrow> sc_world \<Rightarrow> sc_world option" where
  "on_reverse_socket env ep sockIdx w = do {
     waiting \<leftarrow> SOPC_SecureListenerStateMgr_GetFirstConnectionCompatible (secureListenersArray w ep) None None w;
     (result, idx, w) \<leftarrow> (if waiting \<noteq> None then new_token_connection env ep sockIdx w else Some (False, 0, w));
     if result then Some (SOPC_Sockets_EnqueueEvent env (SOCKET_ACCEPTED_CONNECTION sockIdx idx) w)
     else if idx \<noteq> 0 then do {
       (closed, w) \<leftarrow> SC_CloseConnection env idx False w;
       if closed then Some w else None }
     else Some (SOPC_Sockets_EnqueueEvent env (SOCKET_CLOSE sockIdx 0) w) }"

definition SOPC_SecureListenerStateMgr_OnSocketEvent ::
  "scm_env \<Rightarrow> SOPC_Sockets_OutputEvent \<Rightarrow> sc_world \<Rightarrow> sc_world option" where
  "SOPC_SecureListenerStateMgr_OnSocketEvent env event w =
     (case event of
        SOCKET_LISTENER_OPENED ep aux \<Rightarrow>
          if aux > UINT32_MAX then None
          else Some (case SOPC_SecureListenerStateMgr_GetListener ep w of
             Some l \<Rightarrow>
               if sl_state l = SECURE_LISTENER_STATE_OPENING
               then listener_update ep (\<lambda>l. l\<lparr>sl_state := SECURE_LISTENER_STATE_OPENED, sl_socketIndex := ucast aux\<rparr>) w
               else SOPC_Sockets_EnqueueEvent env (SOCKET_CLOSE_LISTENER (ucast aux) ep) w
           | None \<Rightarrow> SOPC_Sockets_EnqueueEvent env (SOCKET_CLOSE_LISTENER (ucast aux) ep) w)
      | SOCKET_LISTENER_CONNECTION ep peer aux \<Rightarrow>
          if aux > UINT32_MAX then None
          else (case SOPC_SecureListenerStateMgr_GetListener ep w of
             None \<Rightarrow> Some (SOPC_Sockets_EnqueueEvent env (SOCKET_CLOSE (ucast aux) 0) w)
           | Some l \<Rightarrow>
               if sl_state l \<noteq> SECURE_LISTENER_STATE_OPENED
               then Some (SOPC_Sockets_EnqueueEvent env (SOCKET_CLOSE (ucast aux) 0) w)
               else if reverseEnpoint l then on_reverse_socket env ep (ucast aux) w
               else Some (SOPC_SecureChannels_EnqueueInternalEventAsNext env (INT_EP_SC_CREATE ep peer aux) w))
      | SOCKET_LISTENER_FAILURE ep \<Rightarrow>
          (case SOPC_SecureListenerStateMgr_GetListener ep w of
             None \<Rightarrow> Some w
           | Some l \<Rightarrow>
               if reverseEnpoint l
               then Some (post_services env (EP_REVERSE_CLOSED ep SOPC_STATUS_CLOSED)
                      (snd (SOPC_SecureListenerStateMgr_CloseReverseEpListener env ep True w)))
               else do {
                 epConfig \<leftarrow> SOPC_ToolkitServer_GetEndpointConfig env ep w;
                 w \<leftarrow> (case epConfig of None \<Rightarrow> Some w
                        | Some c \<Rightarrow> map_option snd (SOPC_SecureListenerStateMgr_CloseEpListener env c ep True w));
                 Some (post_services env (EP_CLOSED ep SOPC_STATUS_CLOSED) w) })
      | _ \<Rightarrow> None)"

section \<open>Events of the services\<close>

definition on_ep_open :: "scm_env \<Rightarrow> u32 \<Rightarrow> sc_world \<Rightarrow> sc_world option" where
  "on_ep_open env ep w = do {
     epConfig \<leftarrow> SOPC_ToolkitServer_GetEndpointConfig env ep w;
     case epConfig of
       None \<Rightarrow> Some w
     | Some c \<Rightarrow> do {
         (result, w) \<leftarrow>
           (if \<not> noListening c then do {
              let (result, w) = SOPC_SecureListenerStateMgr_OpeningListener ep False w;
              if result then do {
                url \<leftarrow> SOPC_strdup (sc_enc env) (Some (endpointURL c));
                Some (True, SOPC_Sockets_EnqueueEvent env (SOCKET_CREATE_LISTENER ep url) w) }
              else Some (False, w) }
            else if nbClientsToConnect c > 0 then Some (SOPC_SecureListenerStateMgr_NoListener ep w)
            else None);
         Some (if result
               then fold (\<lambda>k. SOPC_SecureChannels_EnqueueInternalEventAsNext env (INT_EP_SC_REVERSE_CONNECT ep (of_nat k)))
                      [0..<unat (nbClientsToConnect c)] w
               else w) } }"

definition SOPC_SecureListenerStateMgr_Dispatcher ::
  "scm_env \<Rightarrow> SOPC_SecureChannels_InputEvent \<Rightarrow> sc_world \<Rightarrow> sc_world option" where
  "SOPC_SecureListenerStateMgr_Dispatcher env event w =
     (case event of
        EP_OPEN ep \<Rightarrow> on_ep_open env ep w
      | EP_CLOSE ep \<Rightarrow> do {
          epConfig \<leftarrow> SOPC_ToolkitServer_GetEndpointConfig env ep w;
          (result, w) \<leftarrow> (case epConfig of None \<Rightarrow> Some (True, w)
                           | Some c \<Rightarrow> SOPC_SecureListenerStateMgr_CloseEpListener env c ep False w);
          Some (post_services env (EP_CLOSED ep (if result then SOPC_STATUS_OK else SOPC_STATUS_INVALID_PARAMETERS)) w) }
      | REVERSE_EP_OPEN ep \<Rightarrow>
          (case SOPC_ToolkitClient_GetReverseEndpointURL env ep w of
             None \<Rightarrow> Some w
           | Some url \<Rightarrow>
               (let (result, w) = SOPC_SecureListenerStateMgr_OpeningListener ep True w
                in if result then do {
                     copy \<leftarrow> SOPC_strdup (sc_enc env) (Some url);
                     Some (SOPC_Sockets_EnqueueEvent env (SOCKET_CREATE_LISTENER ep copy) w) }
                   else Some w))
      | REVERSE_EP_CLOSE ep \<Rightarrow>
          (let (result, w) = SOPC_SecureListenerStateMgr_CloseReverseEpListener env ep False w
           in Some (post_services env
                (EP_REVERSE_CLOSED ep (if result then SOPC_STATUS_OK else SOPC_STATUS_INVALID_PARAMETERS)) w))
      | _ \<Rightarrow> None)"

section \<open>Events of the timers\<close>

definition SOPC_SecureListenerStateMgr_OnTimerEvent ::
  "scm_env \<Rightarrow> SOPC_SecureChannels_TimerEvent \<Rightarrow> sc_world \<Rightarrow> sc_world option" where
  "SOPC_SecureListenerStateMgr_OnTimerEvent env event w =
     (case event of
        TIMER_SC_RHE_RECEPTION_TIMEOUT idx \<Rightarrow>
          (case SC_GetConnection idx w of
             None \<Rightarrow> Some w
           | Some sc \<Rightarrow>
               if sc_state sc = SECURE_CONNECTION_STATE_TCP_REVERSE_TOKEN then do {
                 _ \<leftarrow> SOPC_SecureListenerStateMgr_GetListener (clientReverseEpConfigIdx sc) w;
                 let w = listener_update (clientReverseEpConfigIdx sc)
                           (SOPC_SecureListenerStateMgr_RemoveConnection idx) w;
                 (closed, w) \<leftarrow> SC_CloseConnection env idx False w;
                 if closed then Some w else None }
               else Some w)
      | _ \<Rightarrow> None)"

end
