(* ===== verification/SC_Api.thy ===== *)
theory SC_Api
  imports SC_Listener
begin

text \<open>
  The dispatch of the events of the secure channels layer to its three managers, from
  \<open>src/ClientServer/secure_channels/sopc_secure_channels_api.c\<close>, and the steps of the layer as a relation.
\<close>

section \<open>Dispatch\<close>

definition SOPC_ToolkitServer_UsingLockedConfig :: "bool \<Rightarrow> sc_world \<Rightarrow> SOPC_ReturnStatus \<times> sc_world" where
  "SOPC_ToolkitServer_UsingLockedConfig activate w =
     (if initDone w \<and> serverConfigLocked w then
        (if activate then (SOPC_STATUS_OK, w\<lparr>serverConfigUsedCounter := serverConfigUsedCounter w + 1\<rparr>)
         else if serverConfigUsedCounter w > 0
         then (SOPC_STATUS_OK, w\<lparr>serverConfigUsedCounter := serverConfigUsedCounter w - 1\<rparr>)
         else (SOPC_STATUS_INVALID_STATE, w))
      else (SOPC_STATUS_INVALID_STATE, w))"

definition SOPC_SecureChannels_OnTimerEvent ::
  "scm_env \<Rightarrow> SOPC_SecureChannels_TimerEvent \<Rightarrow> sc_world \<Rightarrow> sc_world option" where
  "SOPC_SecureChannels_OnTimerEvent env event w =
     (case event of
        TIMER_SC_RHE_RECEPTION_TIMEOUT _ \<Rightarrow> SOPC_SecureListenerStateMgr_OnTimerEvent env event w
      | _ \<Rightarrow> SOPC_SecureConnectionStateMgr_OnTimerEvent env event w)"

definition on_server_configured :: "bool \<Rightarrow> sc_world \<Rightarrow> sc_world" where
  "on_server_configured active w =
     (if isServerConfigurationLocked w = active then w
      else case SOPC_ToolkitServer_UsingLockedConfig active w of
        (status, w) \<Rightarrow> if status = SOPC_STATUS_OK then w\<lparr>isServerConfigurationLocked := active\<rparr> else w)"

definition SOPC_SecureChannels_OnInputEvent ::
  "scm_env \<Rightarrow> SOPC_SecureChannels_InputEvent \<Rightarrow> sc_world \<Rightarrow> sc_world option" where
  "SOPC_SecureChannels_OnInputEvent env event w =
     (case event of
        SE_TO_SCS_SERVER_CONFIGURED active \<Rightarrow> Some (on_server_configured active w)
      | EP_OPEN _ \<Rightarrow> if isServerConfigurationLocked w then SOPC_SecureListenerStateMgr_Dispatcher env event w else Some w
      | EP_CLOSE _ \<Rightarrow> if isServerConfigurationLocked w then SOPC_SecureListenerStateMgr_Dispatcher env event w else Some w
      | REVERSE_EP_OPEN _ \<Rightarrow> SOPC_SecureListenerStateMgr_Dispatcher env event w
      | REVERSE_EP_CLOSE _ \<Rightarrow> SOPC_SecureListenerStateMgr_Dispatcher env event w
      | _ \<Rightarrow> SOPC_SecureConnectionStateMgr_Dispatcher env event w)"

section \<open>The chunk manager on the state of the layer\<close>

text \<open>
  The chunk manager works on its part of a connection. Its theories leave open what the check of an asymmetric
  security header writes to the other fields (\<open>serverAsymmSecuInfo\<close>, \<open>cryptoProvider\<close>) and what becomes of the timers
  of the requests, so a step may change them in any way,
  the fields on an open connection only: the events of a closed one are dropped.
\<close>

definition chunks_env :: "scm_env \<Rightarrow> sc_env" where
  "chunks_env env = sc_env.truncate env"

definition chunks_part :: "sc_connection \<Rightarrow> SOPC_SecureConnection" where
  "chunks_part c = SOPC_SecureConnection.truncate c"

definition with_chunks_part ::
  "SOPC_SecureConnection \<Rightarrow> byte list option \<Rightarrow> SOPC_SecureConnection_TcpAsymmSecu \<Rightarrow> sc_connection \<Rightarrow> sc_connection" where
  "with_chunks_part p provider asymInfo c =
     (SOPC_SecureConnection.extend p (SOPC_SecureConnection.more c))\<lparr>cryptoProvider := provider, serverAsymmSecuInfo := asymInfo\<rparr>"

definition post_sent :: "scm_env \<Rightarrow> SOPC_SendFailure list \<Rightarrow> sc_world \<Rightarrow> sc_world" where
  "post_sent env fs w = fold (\<lambda>f. SOPC_SecureChannels_EnqueueInternalEventAsNext env (INT_SC_FAILURE f)) fs w"

section \<open>Steps of the layer\<close>

datatype layer_event =
    Internal_Event sc_internal_event
  | Socket_Event SOPC_Sockets_OutputEvent
  | Timer_Event SOPC_SecureChannels_TimerEvent
  | Input_Event SOPC_SecureChannels_InputEvent

fun for_listener :: "sc_internal_event \<Rightarrow> bool" where
  "for_listener (INT_EP_SC_CREATED _ _) = True"
| "for_listener (INT_EP_SC_RHE_DECODED _ _ _) = True"
| "for_listener (INT_EP_SC_DISCONNECTED _ _) = True"
| "for_listener (INT_REVERSE_EP_REQ_CONNECTION _ _) = True"
| "for_listener _ = False"

fun for_chunks :: "sc_internal_event \<Rightarrow> bool" where
  "for_chunks (INT_SC_SND _ _ _ _) = True"
| "for_chunks _ = False"

fun listener_socket_event :: "SOPC_Sockets_OutputEvent \<Rightarrow> bool" where
  "listener_socket_event (SOCKET_LISTENER_OPENED _ _) = True"
| "listener_socket_event (SOCKET_LISTENER_CONNECTION _ _ _) = True"
| "listener_socket_event (SOCKET_LISTENER_FAILURE _) = True"
| "listener_socket_event _ = False"

fun chunks_socket_event :: "SOPC_Sockets_OutputEvent \<Rightarrow> bool" where
  "chunks_socket_event (SOCKET_RCV_BYTES _ _) = True"
| "chunks_socket_event _ = False"

text \<open>
  One event is treated at a time. The relation takes any event in any state: what holds along its steps holds
  for every order in which the queue of the looper, the sockets, the timers and the services deliver them.
\<close>

inductive layer_step :: "scm_env \<Rightarrow> layer_event \<Rightarrow> sc_world \<Rightarrow> sc_world \<Rightarrow> bool" for env where
  connection_internal:
    "\<not> for_listener e \<Longrightarrow> \<not> for_chunks e \<Longrightarrow> SOPC_SecureConnectionStateMgr_OnInternalEvent env e w = Some w' \<Longrightarrow>
     layer_step env (Internal_Event e) w w'"
| listener_internal:
    "for_listener e \<Longrightarrow> SOPC_SecureListenerStateMgr_OnInternalEvent env e w = Some w' \<Longrightarrow>
     layer_step env (Internal_Event e) w w'"
| chunks_internal:
    "SC_GetConnection idx w = Some c \<Longrightarrow>
     SOPC_ChunksMgr_Dispatcher (chunks_env env) e idx b aux (chunks_part c) = Some (p, sent, failures) \<Longrightarrow>
     (sc_is_closed (sc_state c) \<longrightarrow> provider = cryptoProvider c \<and> asymInfo = serverAsymmSecuInfo c) \<Longrightarrow>
     w' = post_sent env failures (sc_update idx (with_chunks_part p provider asymInfo) (w\<lparr>sc_timers := ts\<rparr>)) \<Longrightarrow>
     layer_step env (Internal_Event (INT_SC_SND e idx b aux)) w w'"
| chunks_internal_unknown:
    "SC_GetConnection idx w = None \<Longrightarrow> layer_step env (Internal_Event (INT_SC_SND e idx b aux)) w w"
| connection_socket:
    "\<not> listener_socket_event e \<Longrightarrow> \<not> chunks_socket_event e \<Longrightarrow>
     SOPC_SecureConnectionStateMgr_OnSocketEvent env e w = Some w' \<Longrightarrow> layer_step env (Socket_Event e) w w'"
| listener_socket:
    "listener_socket_event e \<Longrightarrow> SOPC_SecureListenerStateMgr_OnSocketEvent env e w = Some w' \<Longrightarrow>
     layer_step env (Socket_Event e) w w'"
| chunks_socket:
    "SC_GetConnection idx w = Some c \<Longrightarrow>
     SOPC_ChunksMgr_OnSocketEvent (chunks_env env) idx (chunks_part c) b [] = Some (p, evs) \<Longrightarrow>
     (sc_is_closed (sc_state c) \<longrightarrow> provider = cryptoProvider c \<and> asymInfo = serverAsymmSecuInfo c) \<Longrightarrow>
     w' = sc_update idx (with_chunks_part p provider asymInfo)
            (w\<lparr>sc_timers := ts, internalEvents := map INT_SC_RCV evs @ internalEvents w\<rparr>) \<Longrightarrow>
     layer_step env (Socket_Event (SOCKET_RCV_BYTES idx b)) w w'"
| chunks_socket_unknown:
    "SC_GetConnection idx w = None \<Longrightarrow> layer_step env (Socket_Event (SOCKET_RCV_BYTES idx b)) w w"
| timer:
    "SOPC_SecureChannels_OnTimerEvent env e w = Some w' \<Longrightarrow> layer_step env (Timer_Event e) w w'"
| input:
    "SOPC_SecureChannels_OnInputEvent env e w = Some w' \<Longrightarrow> layer_step env (Input_Event e) w w'"

text \<open>
  The states the layer can be in. The clock, the memory and the results of the cryptographic functions may
  change from step to step; the encoding configuration is set once.
\<close>

inductive layer_reachable :: "(scm_env \<Rightarrow> bool) \<Rightarrow> sc_world \<Rightarrow> bool" for allowed where
  layer_initial: "layer_reachable allowed (sc_initial init locked cfgs)"
| layer_next: "layer_reachable allowed w \<Longrightarrow> allowed env \<Longrightarrow> layer_step env e w w' \<Longrightarrow> layer_reachable allowed w'"

end
