(* ===== verification/SC_Frame.thy ===== *)
theory SC_Frame
  imports SC_Api
begin

text \<open>
  What the operations of the secure channels layer do to the array of connections: rules for partial results,
  frame lemmas, and one specification lemma per operation.
\<close>

section \<open>Partial results\<close>

text \<open>Every result of a partial operation satisfies a predicate; a failed assertion has no result.\<close>

definition ensures :: "'a option \<Rightarrow> ('a \<Rightarrow> bool) \<Rightarrow> bool" where
  "ensures r Q \<longleftrightarrow> (\<forall>x. r = Some x \<longrightarrow> Q x)"

named_theorems ensures_simps and frame_simps and frame_dests

lemma ensures_Some [ensures_simps]: "ensures (Some x) Q = Q x"
  by (simp add: ensures_def)

lemma ensures_None [ensures_simps]: "ensures None Q"
  by (simp add: ensures_def)

lemma ensures_bind [ensures_simps]: "ensures (Option.bind r f) Q = ensures r (\<lambda>x. ensures (f x) Q)"
  by (cases r) (simp_all add: ensures_def)

lemma ensures_if [ensures_simps]:
  "ensures (if b then r else s) Q = ((b \<longrightarrow> ensures r Q) \<and> (\<not> b \<longrightarrow> ensures s Q))"
  by simp

lemma ensures_option [ensures_simps]:
  "ensures (case v of None \<Rightarrow> r | Some x \<Rightarrow> f x) Q = ((v = None \<longrightarrow> ensures r Q) \<and> (\<forall>x. v = Some x \<longrightarrow> ensures (f x) Q))"
  by (cases v) simp_all

lemma ensures_prod [ensures_simps]:
  "ensures (case p of (a, b) \<Rightarrow> f a b) Q = (\<forall>a b. p = (a, b) \<longrightarrow> ensures (f a b) Q)"
  by (cases p) simp

lemma ensures_map_option [ensures_simps]: "ensures (map_option f r) Q = ensures r (\<lambda>x. Q (f x))"
  by (cases r) (simp_all add: ensures_def)

text \<open>
  The same as introduction rules, which keep the structure of the goal: \<open>ensures_any\<close> forgets what a step answers,
  \<open>ensures_spec\<close> uses its specification.
\<close>

lemma ensures_any: "(\<And>x. ensures (f x) Q) \<Longrightarrow> ensures (Option.bind r f) Q"
  by (cases r) (simp_all add: ensures_def)

lemma ensures_known: "(\<And>x. r = Some x \<Longrightarrow> ensures (f x) Q) \<Longrightarrow> ensures (Option.bind r f) Q"
  by (cases r) (simp_all add: ensures_def)

lemma ensures_spec: "ensures r P \<Longrightarrow> (\<And>x. P x \<Longrightarrow> ensures (f x) Q) \<Longrightarrow> ensures (Option.bind r f) Q"
  by (cases r) (simp_all add: ensures_def)

lemma ensures_ifI: "(b \<Longrightarrow> ensures r Q) \<Longrightarrow> (\<not> b \<Longrightarrow> ensures s Q) \<Longrightarrow> ensures (if b then r else s) Q"
  by simp

lemma ensures_optionI:
  "(v = None \<Longrightarrow> ensures r Q) \<Longrightarrow> (\<And>x. v = Some x \<Longrightarrow> ensures (f x) Q) \<Longrightarrow>
   ensures (case v of None \<Rightarrow> r | Some x \<Rightarrow> f x) Q"
  by (cases v) simp_all

lemma ensures_prodI: "(\<And>a b. p = (a, b) \<Longrightarrow> ensures (f a b) Q) \<Longrightarrow> ensures (case p of (a, b) \<Rightarrow> f a b) Q"
  by (cases p) simp

lemma ensures_SomeI: "Q x \<Longrightarrow> ensures (Some x) Q"
  by (simp add: ensures_def)

lemmas ensures_intros = ensures_None ensures_SomeI ensures_ifI ensures_optionI ensures_prodI

lemma ensures_mono: "ensures r P \<Longrightarrow> (\<And>x. P x \<Longrightarrow> Q x) \<Longrightarrow> ensures r Q"
  by (simp add: ensures_def)

lemma ensuresD: "ensures r Q \<Longrightarrow> r = Some x \<Longrightarrow> Q x"
  by (simp add: ensures_def)

lemma ensures_true: "ensures r (\<lambda>_. True)"
  by (simp add: ensures_def)

section \<open>Operations that keep the connections\<close>

abbreviation conns :: "sc_world \<Rightarrow> u32 \<Rightarrow> sc_connection" where
  "conns \<equiv> secureConnectionsArray"

lemma conns_update [frame_simps]: "conns (sc_update i f w) = (conns w)(i := f (conns w i))"
  by (simp add: sc_update_def)

lemma conns_enqueue [frame_simps]: "conns (SOPC_SecureChannels_EnqueueInternalEventAsNext env e w) = conns w"
  by (simp add: SOPC_SecureChannels_EnqueueInternalEventAsNext_def)

lemma conns_post [frame_simps]: "conns (post_services env e w) = conns w"
  by (simp add: post_services_def)

lemma conns_sockets [frame_simps]: "conns (SOPC_Sockets_EnqueueEvent env e w) = conns w"
  by (simp add: SOPC_Sockets_EnqueueEvent_def)

lemma conns_timer_create: "conns (snd (timer_create env e ms w)) = conns w"
  by (simp add: timer_create_def split_beta)

lemma timer_create_conns [frame_dests]: "timer_create env e ms w = (i, w') \<Longrightarrow> conns w' = conns w"
  using conns_timer_create [of env e ms w] by simp

lemma conns_timer_cancel [frame_simps]: "conns (timer_cancel env i w) = conns w"
  by (simp add: timer_cancel_def)

lemma conns_client_config [frame_simps]: "conns (client_config_update i f w) = conns w"
  by (simp add: client_config_update_def)

lemma conns_server_config [frame_simps]: "conns (server_config_update i f w) = conns w"
  by (simp add: server_config_update_def Let_def)

lemma conns_listener [frame_simps]: "conns (listener_update ep f w) = conns w"
  by (simp add: listener_update_def)

lemma conns_stop_timer [frame_simps]:
  "conns (stop_connection_timer env idx w) = (conns w)(idx := (conns w idx)\<lparr>connectionTimeoutTimerId := 0\<rparr>)"
  by (simp add: stop_connection_timer_def frame_simps)

lemma conns_fold:
  assumes "\<And>x w. conns (f x w) = conns w"
  shows "conns (fold f xs w) = conns w"
  by (induction xs arbitrary: w) (simp_all add: assms)

lemma conns_pending [frame_simps]: "conns (SC_Client_ClearPendingRequest env req w) = conns w"
  by (simp add: SC_Client_ClearPendingRequest_def Let_def frame_simps)

lemma conns_fold_pending [frame_simps]: "conns (fold (SC_Client_ClearPendingRequest env) xs w) = conns w"
  by (rule conns_fold) (rule conns_pending)

lemma conns_fold_cancel [frame_simps]: "conns (fold (timer_cancel env) xs w) = conns w"
  by (rule conns_fold) (rule conns_timer_cancel)

lemma conns_fold_enqueue [frame_simps]:
  "conns (fold (\<lambda>x. SOPC_SecureChannels_EnqueueInternalEventAsNext env (g x)) xs w) = conns w"
  by (rule conns_fold) (rule conns_enqueue)

lemma conns_post_sent [frame_simps]: "conns (post_sent env fs w) = conns w"
  by (simp add: post_sent_def frame_simps)

lemma conns_enqueue_all [frame_simps]: "conns (enqueue_all env ev is w) = conns w"
  by (simp add: enqueue_all_def frame_simps)

lemma GetConnection_Some: "SC_GetConnection i w = Some c \<longleftrightarrow> i > 0 \<and> i \<le> 26 \<and> c = conns w i"
  by (auto simp: SC_GetConnection_def)

section \<open>Closure\<close>

text \<open>A closed connection: all bytes 0, but for the state of one that waits for its acknowledgement.\<close>

definition closed_of :: "sc_connection \<Rightarrow> sc_connection" where
  "closed_of c = sc_zero\<lparr>sc_state := (if sc_is_connected (sc_state c) then SECURE_CONNECTION_STATE_SC_CLOSING
     else SECURE_CONNECTION_STATE_SC_CLOSED)\<rparr>"

lemma CloseConnection_spec:
  "ensures (SC_CloseConnection env idx socketFailure w) (\<lambda>(closed, w').
     (closed \<longleftrightarrow> idx > 0 \<and> idx \<le> 26 \<and> sc_state (conns w idx) \<noteq> SECURE_CONNECTION_STATE_SC_CLOSED) \<and>
     conns w' = (if closed then (conns w)(idx := closed_of (conns w idx)) else conns w))"
  unfolding SC_CloseConnection_def by (auto simp: ensures_simps Let_def frame_simps closed_of_def)

text \<open>The connection at an index is replaced, the others are kept.\<close>

definition conn_step :: "u32 \<Rightarrow> (sc_connection \<Rightarrow> sc_connection \<Rightarrow> bool) \<Rightarrow> sc_world \<Rightarrow> sc_world \<Rightarrow> bool" where
  "conn_step idx R w w' \<longleftrightarrow> (\<exists>c'. conns w' = (conns w)(idx := c') \<and> R (conns w idx) c')"

lemma conn_stepI: "conns w' = (conns w)(idx := c') \<Longrightarrow> R (conns w idx) c' \<Longrightarrow> conn_step idx R w w'"
  by (auto simp: conn_step_def)

lemma conn_step_same: "conns w' = conns w \<Longrightarrow> R (conns w idx) (conns w idx) \<Longrightarrow> conn_step idx R w w'"
  by (rule conn_stepI [where c' = "conns w idx"]) simp_all

lemma conn_step_mono: "conn_step idx R w w' \<Longrightarrow> (\<And>c'. R (conns w idx) c' \<Longrightarrow> S (conns w idx) c') \<Longrightarrow> conn_step idx S w w'"
  by (auto simp: conn_step_def)

lemma conn_step_at: "conn_step idx R w w' \<Longrightarrow> R (conns w idx) (conns w' idx)"
  by (auto simp: conn_step_def)

lemma conn_step_other: "conn_step idx R w w' \<Longrightarrow> j \<noteq> idx \<Longrightarrow> conns w' j = conns w j"
  by (auto simp: conn_step_def)

lemma conn_step_trans:
  assumes "conn_step idx R w w'" and "conn_step idx S w' w''"
    and "\<And>c c' c''. R c c' \<Longrightarrow> S c' c'' \<Longrightarrow> T c c''"
  shows "conn_step idx T w w''"
proof -
  from assms(1) obtain c' where 1: "conns w' = (conns w)(idx := c')" "R (conns w idx) c'" by (auto simp: conn_step_def)
  from assms(2) obtain c'' where 2: "conns w'' = (conns w')(idx := c'')" "S (conns w' idx) c''" by (auto simp: conn_step_def)
  show ?thesis
    by (rule conn_stepI [where c' = c'']) (use 1 2 assms(3) [of "conns w idx" c' c''] in simp_all)
qed

definition timer_stopped :: "sc_connection \<Rightarrow> sc_connection \<Rightarrow> bool" where
  "timer_stopped c c' \<longleftrightarrow> c' = c \<or> c' = c\<lparr>connectionTimeoutTimerId := 0\<rparr>"

text \<open>
  An attempt to close a connection: it is closed at once, which is certain when \<open>certainly\<close> says so, or its timer
  at most is stopped, when the closure waits for a last message.
\<close>

definition maybe_closed :: "(sc_connection \<Rightarrow> bool) \<Rightarrow> sc_connection \<Rightarrow> sc_connection \<Rightarrow> bool" where
  "maybe_closed certainly c c' \<longleftrightarrow>
     (if sc_is_closed (sc_state c) then timer_stopped c c'
      else c' = closed_of c \<or> timer_stopped c c' \<and> \<not> certainly c)"

lemma closed_of_timer [simp]: "closed_of (c\<lparr>connectionTimeoutTimerId := i\<rparr>) = closed_of c"
  by (simp add: closed_of_def)

lemma is_closed_simps [simp]:
  "sc_is_closed SECURE_CONNECTION_STATE_SC_CLOSED" "sc_is_closed SECURE_CONNECTION_STATE_SC_CLOSING"
  "sc_is_connected st \<Longrightarrow> \<not> sc_is_closed st"
  by (auto simp: sc_is_closed_def sc_is_connected_def)

lemma conns_SendErrorMsgAndClose:
  "ensures (SC_Server_SendErrorMsgAndClose env idx err reason w) (\<lambda>(ok, w'). conns w' = conns w)"
  unfolding SC_Server_SendErrorMsgAndClose_def Let_def
  by (intro ensures_intros ensures_any) (simp_all add: frame_simps)

lemma SendCloseRequestAndClose_spec:
  assumes "sc_is_connected (sc_state (conns w idx))"
  shows "ensures (SC_Client_SendCloseSecureChannelRequestAndClose env idx err reason w)
    (conn_step idx (maybe_closed (\<lambda>_. False)) w)"
proof -
  let ?Q = "conn_step idx (maybe_closed (\<lambda>_. False)) w"
  have either: "?Q w'" if "conns w' = conns w \<or> conns w' = (conns w)(idx := closed_of (conns w idx))" for w'
    using that
  proof
    assume "conns w' = conns w"
    then show ?thesis by (rule conn_step_same) (simp add: maybe_closed_def timer_stopped_def)
  next
    assume "conns w' = (conns w)(idx := closed_of (conns w idx))"
    then show ?thesis by (rule conn_stepI) (use assms in \<open>simp add: maybe_closed_def\<close>)
  qed
  show ?thesis
    unfolding SC_Client_SendCloseSecureChannelRequestAndClose_def Let_def
    apply (rule ensures_spec [where P = "\<lambda>(ok, w'). conns w' = conns w"])
    subgoal by (intro ensures_intros ensures_any) (simp_all add: frame_simps)
    apply (intro ensures_intros)
     apply (rule ensures_spec [OF CloseConnection_spec])
     apply (intro ensures_intros)
    by (auto simp: frame_simps intro!: either)
qed

lemma close_client_spec:
  assumes "sc_state sc = sc_state (conns w idx)" "idx > 0" "idx \<le> 26"
  shows "ensures (close_client_connection env sc idx immediateClose socketFailure err reason w)
    (conn_step idx (maybe_closed (\<lambda>c. immediateClose \<or> \<not> sc_is_connected (sc_state c))) w)"
proof -
  let ?Q = "conn_step idx (maybe_closed (\<lambda>c. immediateClose \<or> \<not> sc_is_connected (sc_state c))) w"
  have close: "ensures (SC_CloseConnection env idx socketFailure w1) (\<lambda>(closed, w').
      \<not> sc_is_closed (sc_state (conns w idx)) \<longrightarrow> ?Q w' \<and> (\<forall>e. ?Q (post_services env e w')))"
    if "conns w1 = conns w" for w1
    by (rule ensures_mono [OF CloseConnection_spec])
      (use assms that in \<open>auto simp: frame_simps sc_is_closed_def maybe_closed_def
         intro!: conn_stepI [where c' = "closed_of (conns w idx)"]\<close>)
  show ?thesis
    unfolding close_client_connection_def Let_def
    apply (intro ensures_intros)
    subgoal
      by (rule ensures_mono [OF SendCloseRequestAndClose_spec])
        (auto simp: assms(1) [symmetric] frame_simps conn_step_def maybe_closed_def)
    subgoal
      by (rule ensures_spec [OF close])
        (auto simp: assms(1) [symmetric] frame_simps ensures_simps)
    subgoal by (rule ensures_spec [OF close]) (auto simp: assms(1) [symmetric] frame_simps ensures_simps)
    subgoal by (rule conn_step_same) (simp_all add: maybe_closed_def timer_stopped_def assms(1) [symmetric])
    done
qed

lemma conns_retry [frame_dests]:
  "SC_Server_StartReverseConnRetryTimer env ep i w = Some w' \<Longrightarrow> conns w' = conns w"
  by (auto simp: SC_Server_StartReverseConnRetryTimer_def Let_def split_beta frame_simps conns_timer_create split: if_splits)

lemma retry_spec: "ensures (retry_reverse_connection env sc w) (\<lambda>w'. conns w' = conns w)"
  unfolding retry_reverse_connection_def
  by (intro ensures_intros ensures_any) (auto simp: ensures_def conns_retry)

lemma close_server_spec:
  assumes "sc_state sc = sc_state (conns w idx)" "idx > 0" "idx \<le> 26"
  shows "ensures (close_server_connection env sc idx immediateClose socketFailure err reason w)
    (conn_step idx (maybe_closed (\<lambda>c. immediateClose)) w)"
proof -
  let ?Q = "conn_step idx (maybe_closed (\<lambda>c. immediateClose)) w"
  have close: "ensures (SC_CloseConnection env idx socketFailure w1) (\<lambda>(closed, w'). closed \<and>
      conns w' = (conns w)(idx := closed_of (conns w idx)))"
    if "conns w1 = conns w" "\<not> sc_is_closed (sc_state sc)" for w1
    by (rule ensures_mono [OF CloseConnection_spec]) (use assms that in \<open>auto simp: sc_is_closed_def\<close>)
  have either: "conn_step idx (maybe_closed (\<lambda>c. i)) w w'"
    if "conns w' = conns w \<and> (\<not> i \<or> sc_is_closed (sc_state sc)) \<or>
      conns w' = (conns w)(idx := closed_of (conns w idx)) \<and> \<not> sc_is_closed (sc_state sc)" for w' i
    using that assms(1) unfolding conn_step_def maybe_closed_def timer_stopped_def
    by (metis fun_upd_triv)
  show ?thesis
    unfolding close_server_connection_def Let_def
    apply (intro ensures_intros)
     apply (rule ensures_spec [where P = "\<lambda>(imm, w'). conns w' = conns w \<and> (immediateClose \<longrightarrow> imm)"])
    subgoal
      apply (intro ensures_intros)
       apply (rule ensures_spec [where P = "\<lambda>(ok, w'). conns w' = conns w"])
      subgoal by (intro ensures_intros conns_SendErrorMsgAndClose) simp
      by (auto simp: ensures_simps)
     apply (intro ensures_intros)
      apply (rule ensures_spec [OF retry_spec])
      apply (rule ensures_spec [OF close])
        apply (auto simp: frame_simps ensures_simps intro!: either)
    done
qed

lemma maybe_closed_stopped:
  assumes "timer_stopped c c1" "maybe_closed P c1 c'" "P c1 = Q c"
  shows "maybe_closed Q c c'"
proof -
  have "sc_state c1 = sc_state c" "closed_of c1 = closed_of c" "timer_stopped c1 c' \<Longrightarrow> timer_stopped c c'"
    using assms(1) by (auto simp: timer_stopped_def)
  with assms(2,3) show ?thesis unfolding maybe_closed_def by metis
qed

lemma conn_step_after_stop:
  assumes "conns w1 = (conns w)(idx := c1)" "timer_stopped (conns w idx) c1"
    and "conn_step idx (maybe_closed P) w1 w'" "P c1 = Q (conns w idx)"
  shows "conn_step idx (maybe_closed Q) w w'"
proof -
  from assms(3) obtain c' where c': "conns w' = (conns w1)(idx := c')" "maybe_closed P c1 c'"
    by (auto simp: conn_step_def assms(1))
  then have "conns w' = (conns w)(idx := c')" by (simp add: assms(1))
  then show ?thesis by (rule conn_stepI) (rule maybe_closed_stopped [where P = P and Q = Q, OF assms(2) c'(2) assms(4)])
qed

lemma CloseSecureConnection_spec:
  "ensures (SC_CloseSecureConnection env (SC_GetConnection idx w) idx immediateClose socketFailure err reason h w)
     (conn_step idx (maybe_closed (\<lambda>c. immediateClose \<or> \<not> isServerConnection c \<and> \<not> sc_is_connected (sc_state c))) w)"
proof -
  define w1 where "w1 = (if \<not> sc_is_connected (sc_state (conns w idx))
    then sc_update idx (\<lambda>c. c\<lparr>connectionTimeoutTimerId := 0\<rparr>)
           (timer_cancel env (connectionTimeoutTimerId (conns w idx)) w) else w)"
  obtain c1 where c1: "conns w1 = (conns w)(idx := c1)" "timer_stopped (conns w idx) c1"
    by (cases "sc_is_connected (sc_state (conns w idx))")
      (auto simp: w1_def frame_simps timer_stopped_def intro: that [of "conns w idx"])
  have same: "sc_state (conns w1 idx) = sc_state (conns w idx)" "isServerConnection c1 = isServerConnection (conns w idx)"
    "sc_state c1 = sc_state (conns w idx)"
    using c1 by (auto simp: timer_stopped_def)
  show ?thesis
    unfolding SC_CloseSecureConnection_def Let_def
    apply (intro ensures_intros)
    apply (rule ensures_known)
    apply (simp only: GetConnection_Some)
    apply (elim conjE)
    apply hypsubst
    apply (fold w1_def)
    apply (intro ensures_intros)
    subgoal
      by (rule ensures_mono [OF close_client_spec]) (auto simp: same intro: conn_step_after_stop [OF c1])
    subgoal
      by (rule ensures_mono [OF close_server_spec]) (auto simp: same intro: conn_step_after_stop [OF c1])
    done
qed

end
