(* ===== verification/SC_Slots.thy ===== *)
theory SC_Slots
  imports SC_Frame
begin

text \<open>
  The search of a free slot in the tables of connections and of configurations: it ends, and it finds a slot
  exactly when there is one.
\<close>

section \<open>The search\<close>

lemma find_free_step:
  assumes "unat idx \<le> 26"
  shows "find_free free start idx =
    (let n = (unat idx + 1) mod 27; found = (n \<noteq> 0 \<and> free (of_nat n))
     in if of_nat n \<noteq> start \<and> \<not> found then find_free free start (of_nat n) else Some (found, of_nat n))"
proof (cases "unat idx = 26")
  case True
  then have "idx = 26" by (intro unsigned_word_eqI [where 'a = nat]) simp
  then show ?thesis by (subst find_free.simps) (simp add: Let_def)
next
  case False
  with assms have lt: "unat idx < 26" by simp
  then have "idx < 26" by (simp add: word_less_nat_alt)
  moreover have "of_nat (unat idx + 1) = idx + 1" by simp
  moreover have "(unat idx + 1) mod 27 = unat idx + 1" using lt by simp
  ultimately show ?thesis by (subst find_free.simps) (simp add: Let_def add.commute [of _ "1 :: u32"])
qed

lemma find_free_result:
  assumes "unat idx \<le> 26" "unat start \<le> 26" "(unat idx + d) mod 27 = unat start" "0 < d" "d \<le> 27"
  shows "\<exists>found i. find_free free start idx = Some (found, i) \<and> (found \<longrightarrow> i > 0 \<and> i \<le> 26 \<and> free i) \<and>
    (\<not> found \<longrightarrow> (\<forall>k \<in> {1..d}. (unat idx + k) mod 27 \<noteq> 0 \<longrightarrow> \<not> free (of_nat ((unat idx + k) mod 27))))"
  using assms
proof (induction d arbitrary: idx)
  case 0
  then show ?case by simp
next
  case (Suc d)
  define n where "n = (unat idx + 1) mod 27"
  have n: "n \<le> 26" "unat (of_nat n :: u32) = n"
    unfolding n_def by (auto simp: unat_of_nat take_bit_nat_def)
  have le: "(of_nat n :: u32) \<le> 26" using n by (simp add: word_le_nat_alt)
  have shift: "(n + k) mod 27 = (unat idx + Suc k) mod 27" for k
    unfolding n_def by (simp add: mod_simps)
  define found where "found = (n \<noteq> 0 \<and> free (of_nat n))"
  have step: "find_free free start idx =
      (if of_nat n \<noteq> start \<and> \<not> found then find_free free start (of_nat n) else Some (found, of_nat n))"
    using find_free_step [OF Suc.prems(1), of free start] by (simp add: Let_def n_def found_def)
  have eq_start: "of_nat n = start \<longleftrightarrow> n = unat start" using n(2) by auto
  have first: "(\<forall>k \<in> {1..Suc d}. P k) \<longleftrightarrow> P 1 \<and> (\<forall>k \<in> {1..d}. P (Suc k))" for P
    by (auto simp: Ball_def) (metis One_nat_def Suc_le_mono Suc_pred le_eq_less_or_eq not_gr_zero not_less_eq_eq)
  show ?case
  proof (cases "of_nat n \<noteq> start \<and> \<not> found")
    case True
    have "d \<noteq> 0" using True Suc.prems(3) eq_start by (cases d) (auto simp: n_def)
    then obtain f i where r: "find_free free start (of_nat n) = Some (f, i)" "f \<longrightarrow> i > 0 \<and> i \<le> 26 \<and> free i"
        "\<not> f \<longrightarrow> (\<forall>k \<in> {1..d}. (n + k) mod 27 \<noteq> 0 \<longrightarrow> \<not> free (of_nat ((n + k) mod 27)))"
      using Suc.IH [of "of_nat n"] Suc.prems n shift [of d] by auto
    then show ?thesis
      using True step first shift unfolding found_def n_def [symmetric] by (auto simp: n_def)
  next
    case False
    then have res: "find_free free start idx = Some (found, of_nat n)" using step by auto
    show ?thesis
    proof (cases found)
      case True
      then have "(of_nat n :: u32) > 0" using n by (auto simp: found_def word_greater_zero_iff)
      then show ?thesis using True res le by (auto simp: found_def)
    next
      case f: False
      then have start: "n = unat start" using False eq_start by simp
      then have "(n + d) mod 27 = n" using Suc.prems(3) shift [of d] by simp
      then have "d = 0" using Suc.prems(5) n(1) by (cases "n + d < 27") (auto simp: mod_if split: if_splits)
      then show ?thesis using f res by (auto simp: found_def n_def)
    qed
  qed
qed

theorem find_free_total:
  assumes "unat start \<le> 26"
  obtains (found) i where "find_free free start start = Some (True, i)" "i > 0" "i \<le> 26" "free i"
    | (full) i where "find_free free start start = Some (False, i)" "\<And>j. 0 < j \<Longrightarrow> j \<le> 26 \<Longrightarrow> \<not> free j"
proof -
  from find_free_result [of start start 27 free] assms obtain f i where
    r: "find_free free start start = Some (f, i)" "f \<longrightarrow> i > 0 \<and> i \<le> 26 \<and> free i"
      "\<not> f \<longrightarrow> (\<forall>k \<in> {1..27}. (unat start + k) mod 27 \<noteq> 0 \<longrightarrow> \<not> free (of_nat ((unat start + k) mod 27)))"
    by auto
  show thesis
  proof (cases f)
    case True
    then show ?thesis using r that(1) by auto
  next
    case False
    have "\<not> free j" if "0 < j" "j \<le> 26" for j
    proof -
      have j: "0 < unat j" "unat j \<le> 26" using that by (auto simp: word_le_nat_alt unat_gt_0)
      define k where "k = (if unat start < unat j then unat j - unat start else unat j + 27 - unat start)"
      have k: "k \<in> {1..27}" "(unat start + k) mod 27 = unat j"
        using j assms by (auto simp: k_def)
      have "of_nat (unat j) = j" by simp
      with r(3) False j k show ?thesis by (metis less_numeral_extra(3))
    qed
    then show ?thesis using r False that(2) by auto
  qed
qed

text \<open>A slot that is found is free, wherever the search starts.\<close>

lemma find_free_sound:
  assumes "find_free free start idx = Some (found, i)" "found"
  shows "free i \<and> i > 0 \<and> i \<le> 26"
proof -
  let ?P = "\<lambda>free start idx r. fst r \<longrightarrow> free (snd r) \<and> snd r > (0 :: u32) \<and> snd r \<le> 26"
  have "?P free start idx (found, i)"
  proof (rule find_free.raw_induct [where P = ?P, OF _ assms(1)])
    fix ff free start idx r
    assume IH: "\<And>free start idx r. ff free start idx = Some r \<Longrightarrow> ?P free start idx r"
      and run: "(let (result, idx) = if idx < SOPC_MAX_SECURE_CONNECTIONS_PLUS_BUFFERED then (free (idx + 1), idx + 1) else (False, 0)
        in if idx \<noteq> start \<and> \<not> result then ff free start idx else Some (result, idx)) = Some r"
    have "idx + 1 > 0 \<and> idx + 1 \<le> 26" if "idx < 26"
      using that by (auto simp: word_less_nat_alt word_le_nat_alt unat_word_ariths)
    then show "?P free start idx r" 
      using run IH [of free start "idx + 1" r] IH [of free start 0 r]
      by (auto simp: Let_def split: if_splits)
  qed
  with assms show ?thesis by fastforce
qed

section \<open>New connections\<close>

text \<open>The slot of a closed connection is taken; its bytes are all 0, as the invariant below says.\<close>

definition initialised :: "SOPC_Common_EncodingConstants \<Rightarrow> sc_connection \<Rightarrow> sc_connection \<Rightarrow> bool" where
  "initialised cfg c c' \<longleftrightarrow>
     sc_state c = SECURE_CONNECTION_STATE_SC_CLOSED \<and>
     (\<exists>created info peer. c' = c\<lparr>tcpMsgProperties := tcp_initial cfg,
        tcpSeqProperties := (tcpSeqProperties c)\<lparr>sentRequestIds := []\<rparr>, hasSentRequestIds := created,
        peerInfo := info, altClientAuditInfo := peer, sc_state := SECURE_CONNECTION_STATE_TCP_INIT\<rparr>)"

lemma InitNewConnection_spec:
  "ensures (SC_InitNewConnection env peer w) (\<lambda>(ok, i, w').
     (ok \<longrightarrow> i > 0 \<and> i \<le> 26 \<and> conn_step i (initialised (enc_cfg (sc_enc env))) w w') \<and>
     (\<not> ok \<longrightarrow> i = 0 \<and> (conns w' = conns w \<or> (\<exists>j. conn_step j (initialised (enc_cfg (sc_enc env))) w w'))))"
proof -
  have init: "conn_step j (initialised (enc_cfg (sc_enc env))) w
      (sc_update j (\<lambda>c. c\<lparr>tcpMsgProperties := tcp_initial (enc_cfg (sc_enc env)),
        tcpSeqProperties := (tcpSeqProperties c)\<lparr>sentRequestIds := []\<rparr>, hasSentRequestIds := created,
        peerInfo := info, altClientAuditInfo := peer, sc_state := SECURE_CONNECTION_STATE_TCP_INIT\<rparr>) w)"
    if "sc_state (conns w j) = SECURE_CONNECTION_STATE_SC_CLOSED" for j created info
    by (rule conn_stepI) (use that in \<open>auto simp: frame_simps initialised_def\<close>)
  show ?thesis
    unfolding SC_InitNewConnection_def Let_def
    apply (rule ensures_known)
    apply (intro ensures_intros ensures_any)
    subgoal for r found idx copy info
      using find_free_sound [of "\<lambda>i. sc_state (conns w i) = SECURE_CONNECTION_STATE_SC_CLOSED"
          "lastSecureConnectionArrayIdx w" "lastSecureConnectionArrayIdx w" found idx]
        init [where j = idx and created = "mem_ok (sc_enc env) sizeof_list" and info = info]
      by (auto simp: conn_step_def)
    by auto
qed

end
