(* ===== verification/SC_Transitions.thy ===== *)
theory SC_Transitions
  imports SC_Slots
begin

text \<open>
  The transitions of a secure connection before it is closed: which state each operation leads to, that it
  only narrows the limits negotiated for the connection, keeps the role of the connection, and never replaces a valid
  security token by an invalid one.
\<close>

section \<open>How a connection advances\<close>

definition narrowed_size :: "u32 \<Rightarrow> u32 \<Rightarrow> bool" where
  "narrowed_size old new \<longleftrightarrow> new = old \<or> new < old \<and> SOPC_TCP_UA_MIN_BUFFER_SIZE \<le> new"

definition narrowed_limit :: "u32 \<Rightarrow> u32 \<Rightarrow> bool" where
  "narrowed_limit old new \<longleftrightarrow> new = old \<or> new \<noteq> 0 \<and> (old = 0 \<or> new < old)"

definition narrowed :: "SOPC_SecureConnection_TcpProperties \<Rightarrow> SOPC_SecureConnection_TcpProperties \<Rightarrow> bool" where
  "narrowed p p' \<longleftrightarrow>
     narrowed_size (sendBufferSize p) (sendBufferSize p') \<and> narrowed_size (receiveBufferSize p) (receiveBufferSize p') \<and>
     narrowed_limit (sendMaxMessageSize p) (sendMaxMessageSize p') \<and>
     narrowed_limit (sendMaxChunkCount p) (sendMaxChunkCount p') \<and>
     receiveMaxMessageSize p' = receiveMaxMessageSize p \<and> receiveMaxChunkCount p' = receiveMaxChunkCount p \<and>
     protocolVersion p' \<le> protocolVersion p"

definition valid_token :: "SOPC_SecureConnection_SecurityToken \<Rightarrow> bool" where
  "valid_token t \<longleftrightarrow> secureChannelId t \<noteq> 0 \<and> tokenId t \<noteq> 0"

definition advances :: "SOPC_SecureConnection_State \<Rightarrow> sc_connection \<Rightarrow> sc_connection \<Rightarrow> bool" where
  "advances st c c' \<longleftrightarrow>
     sc_state c' = st \<and> isServerConnection c' = isServerConnection c \<and>
     narrowed (tcpMsgProperties c) (tcpMsgProperties c') \<and>
     (valid_token (currentSecurityToken c) \<longrightarrow> valid_token (currentSecurityToken c'))"

definition opened :: "SOPC_SecureConnection_State \<Rightarrow> sc_connection \<Rightarrow> sc_connection \<Rightarrow> bool" where
  "opened st c c' \<longleftrightarrow> advances st c c' \<and> valid_token (currentSecurityToken c')"

lemma narrowed_size_trans: "narrowed_size a b \<Longrightarrow> narrowed_size b c \<Longrightarrow> narrowed_size a c"
  by (auto simp: narrowed_size_def)

lemma narrowed_limit_trans: "narrowed_limit a b \<Longrightarrow> narrowed_limit b c \<Longrightarrow> narrowed_limit a c"
  by (auto simp: narrowed_limit_def)

lemma narrowed_value_refl [simp]: "narrowed_size n n" "narrowed_limit n n"
  by (simp_all add: narrowed_size_def narrowed_limit_def)

lemma narrowed_refl [simp]: "narrowed p p"
  by (simp add: narrowed_def)

lemma narrowed_trans: "narrowed a b \<Longrightarrow> narrowed b c \<Longrightarrow> narrowed a c"
  unfolding narrowed_def using narrowed_size_trans narrowed_limit_trans by (metis order_trans)

lemma advances_trans: "advances st c c' \<Longrightarrow> advances st' c' c'' \<Longrightarrow> advances st' c c''"
  unfolding advances_def using narrowed_trans by metis

lemma opened_trans: "advances st c c' \<Longrightarrow> opened st' c' c'' \<Longrightarrow> opened st' c c''"
  unfolding opened_def using advances_trans by metis

lemma advances_refl: "sc_state c = st \<Longrightarrow> advances st c c"
  by (simp add: advances_def)

lemma conn_step_iff:
  "conn_step idx R w w' \<longleftrightarrow> (\<forall>j. j \<noteq> idx \<longrightarrow> conns w' j = conns w j) \<and> R (conns w idx) (conns w' idx)"
proof
  assume r: "(\<forall>j. j \<noteq> idx \<longrightarrow> conns w' j = conns w j) \<and> R (conns w idx) (conns w' idx)"
  then have "conns w' = (conns w)(idx := conns w' idx)" by auto
  then show "conn_step idx R w w'" by (rule conn_stepI) (use r in simp)
qed (auto simp: conn_step_def)

lemmas advance_simps = conn_step_iff frame_simps advances_def

section \<open>Negotiation of the limits\<close>

lemma adapt_limit_narrowed: "narrowed_limit own (adapt_limit own peer)"
  by (auto simp: narrowed_limit_def adapt_limit_def)

lemma adapt_hello_narrowed: "adapt_hello_size own peer = Some n \<Longrightarrow> narrowed_size own n"
  by (auto simp: narrowed_size_def adapt_hello_size_def split: if_splits)

lemma adapt_ack_narrowed: "adapt_ack_size own peer = Some n \<Longrightarrow> narrowed_size own n"
  by (auto simp: narrowed_size_def adapt_ack_size_def split: if_splits)

lemmas narrow_step = adapt_limit_narrowed adapt_hello_narrowed adapt_ack_narrowed

lemma hello_properties_narrowed: "ensures (hello_properties env b p) (\<lambda>(ok, err, p', b'). narrowed p p')"
  unfolding hello_properties_def Let_def
  by (intro ensures_intros ensures_any) (auto simp: narrowed_def narrow_step)

lemma ack_properties_narrowed: "ensures (ack_properties env b p) (\<lambda>(ok, p'). narrowed p p')"
  unfolding ack_properties_def Let_def
  by (intro ensures_intros ensures_any) (auto simp: narrowed_def narrow_step)

lemma client_hello_spec:
  "ensures (SC_ClientTransition_TcpInit_To_TcpNegotiate env idx w) (\<lambda>(ok, w').
     sc_state (conns w idx) = SECURE_CONNECTION_STATE_TCP_INIT \<and>
     (if ok then conn_step idx (advances SECURE_CONNECTION_STATE_TCP_NEGOTIATE) w w' else conns w' = conns w))"
  unfolding SC_ClientTransition_TcpInit_To_TcpNegotiate_def Let_def
  by (intro ensures_intros ensures_any) (auto simp: advance_simps)

lemma server_hello_spec:
  "ensures (SC_ServerTransition_TcpInit_To_TcpNegotiate env idx b err w) (\<lambda>(ok, err', w').
     sc_state (conns w idx) = SECURE_CONNECTION_STATE_TCP_INIT \<and> isServerConnection (conns w idx) \<and>
     conn_step idx (advances (if ok then SECURE_CONNECTION_STATE_TCP_NEGOTIATE
                              else SECURE_CONNECTION_STATE_TCP_INIT)) w w')"
  unfolding SC_ServerTransition_TcpInit_To_TcpNegotiate_def Let_def
  by (rule ensures_intros ensures_spec [OF hello_properties_narrowed] ensures_any | (auto simp: advance_simps; fail))+

lemma server_ack_spec:
  "ensures (SC_ServerTransition_TcpNegotiate_To_ScInit env idx b err w) (\<lambda>(ok, err', w').
     sc_state (conns w idx) = SECURE_CONNECTION_STATE_TCP_NEGOTIATE \<and> isServerConnection (conns w idx) \<and>
     (if ok then conn_step idx (advances SECURE_CONNECTION_STATE_SC_INIT) w w' else conns w' = conns w))"
  unfolding SC_ServerTransition_TcpNegotiate_To_ScInit_def Let_def
  by (intro ensures_intros ensures_any) (auto simp: advance_simps)

lemma client_ack_spec:
  "ensures (SC_ClientTransition_TcpNegotiate_To_ScInit env idx b w) (\<lambda>(ok, w').
     sc_state (conns w idx) = SECURE_CONNECTION_STATE_TCP_NEGOTIATE \<and> \<not> isServerConnection (conns w idx) \<and>
     conn_step idx (advances (if ok then SECURE_CONNECTION_STATE_SC_INIT
                              else SECURE_CONNECTION_STATE_TCP_NEGOTIATE)) w w')"
  unfolding SC_ClientTransition_TcpNegotiate_To_ScInit_def Let_def
  by (rule ensures_intros ensures_spec [OF ack_properties_narrowed] | (auto simp: advance_simps; fail))+

lemma server_reverse_hello_spec:
  "ensures (SC_ServerTransition_TcpReverseInit_To_TcpInit env idx w) (\<lambda>(ok, w').
     sc_state (conns w idx) = SECURE_CONNECTION_STATE_TCP_REVERSE_INIT \<and>
     (if ok then conn_step idx (advances SECURE_CONNECTION_STATE_TCP_INIT) w w' else conns w' = conns w))"
  unfolding SC_ServerTransition_TcpReverseInit_To_TcpInit_def Let_def
  by (intro ensures_intros ensures_any) (auto simp: advance_simps)

section \<open>Opening on the client side\<close>

lemma draw_nonce_conns [frame_dests]: "draw_nonce env provider w = (nonce, w') \<Longrightarrow> conns w' = conns w"
  by (auto simp: draw_nonce_def split: option.splits)

lemma SendOPN_spec:
  "ensures (SC_ClientTransitionHelper_SendOPN env idx isRenewal w) (\<lambda>(ok, w').
     conn_step idx (advances (sc_state (conns w idx))) w w')"
  unfolding SC_ClientTransitionHelper_SendOPN_def Let_def
  by (intro ensures_intros ensures_any)
    (auto dest!: frame_dests simp: advance_simps split: if_splits option.splits)

lemma client_connecting_spec:
  "ensures (SC_ClientTransition_ScInit_To_ScConnecting env idx w) (\<lambda>(ok, w').
     sc_state (conns w idx) = SECURE_CONNECTION_STATE_SC_INIT \<and>
     conn_step idx (advances (if ok then SECURE_CONNECTION_STATE_SC_CONNECTING
                              else SECURE_CONNECTION_STATE_SC_INIT)) w w')"
  unfolding SC_ClientTransition_ScInit_To_ScConnecting_def
  by (rule ensures_intros ensures_spec [OF SendOPN_spec] | (auto simp: advance_simps; fail))+

lemma client_renew_spec:
  "ensures (SC_ClientTransition_ScConnected_To_ScConnectedRenew env idx w) (\<lambda>(ok, w').
     sc_state (conns w idx) = SECURE_CONNECTION_STATE_SC_CONNECTED \<and>
     conn_step idx (advances (if ok then SECURE_CONNECTION_STATE_SC_CONNECTED_RENEW
                              else SECURE_CONNECTION_STATE_SC_CONNECTED)) w w')"
  unfolding SC_ClientTransition_ScConnected_To_ScConnectedRenew_def
  by (rule ensures_intros ensures_spec [OF SendOPN_spec] | (auto simp: advance_simps; fail))+

lemma renew_timer_spec:
  "ensures (SC_Client_StartOPNrenewTimer env idx ms w) (\<lambda>(status, w').
     conn_step idx (\<lambda>c c'. \<exists>i. c' = c\<lparr>secuTokenRenewTimerId := i\<rparr>) w w')"
  unfolding SC_Client_StartOPNrenewTimer_def Let_def
  by (intro ensures_intros) (auto dest!: frame_dests simp: advance_simps)

lemma establish_timer_spec:
  "ensures (SC_StartConnectionEstablishTimer env idx w) (\<lambda>(status, w').
     conn_step idx (\<lambda>c c'. \<exists>i. c' = c\<lparr>connectionTimeoutTimerId := i\<rparr>) w w')"
  unfolding SC_StartConnectionEstablishTimer_def Let_def
  by (intro ensures_intros) (auto dest!: frame_dests simp: advance_simps)

text \<open>An accepted response has a channel and a token identifier.\<close>

lemma check_open_response_token:
  assumes "check_open_response c renew resp err = (True, err')"
  shows "TokenId resp \<noteq> 0" "\<not> renew \<Longrightarrow> ChannelId resp \<noteq> 0"
    "renew \<Longrightarrow> ChannelId resp = secureChannelId (currentSecurityToken c)"
  using assms by (auto simp: check_open_response_def Let_def split: if_splits)

lemma accept_open_response_core [simp]:
  "sc_state (accept_open_response env renew resp keys c) = sc_state c"
  "isServerConnection (accept_open_response env renew resp keys c) = isServerConnection c"
  "tcpMsgProperties (accept_open_response env renew resp keys c) = tcpMsgProperties c"
  "secureChannelId (currentSecurityToken (accept_open_response env renew resp keys c)) = ChannelId resp"
  "tokenId (currentSecurityToken (accept_open_response env renew resp keys c)) = TokenId resp"
  by (simp_all add: accept_open_response_def Let_def)

lemma accepted_step:
  assumes "conn_step idx (\<lambda>c c'. \<exists>i. c' = c\<lparr>secuTokenRenewTimerId := i\<rparr>)
      (sc_update idx (accept_open_response env renew resp keys) w2) w'"
    and "check_open_response (conns w idx) renew resp err = (True, e)"
    and "conn_step idx (advances (sc_state (conns w idx))) w w2"
    and "renew \<longrightarrow> valid_token (currentSecurityToken (conns w idx))"
  shows "conn_step idx (opened (sc_state (conns w idx))) w w'"
  using check_open_response_token [OF assms(2)] assms(1,3,4)
  by (cases renew) (auto simp: advance_simps opened_def valid_token_def)

lemma conn_step_opened: "conn_step idx (opened st) w w' \<Longrightarrow> conn_step idx (advances st) w w'"
  by (erule conn_step_mono) (simp add: opened_def)

lemma ReceiveOPN_spec:
  assumes "renew \<longrightarrow> valid_token (currentSecurityToken (conns w idx))"
  shows "ensures (SC_ClientTransitionHelper_ReceiveOPN env idx cfg b renew err w) (\<lambda>(ok, err', w').
     conn_step idx ((if ok then opened else advances) (sc_state (conns w idx))) w w')"
  unfolding SC_ClientTransitionHelper_ReceiveOPN_def Let_def
  apply (intro ensures_intros)
      apply (auto simp: advance_simps) [4]
   apply (auto simp: advance_simps) [1]
  apply (rule ensures_any)
  apply (intro ensures_intros)
   apply (auto simp: advance_simps) [1]
  apply (rule ensures_spec [OF renew_timer_spec])
  apply (intro ensures_intros)
  apply (simp only: prod.case if_split not_not)
  apply (drule accepted_step)
     apply (simp; fail)
    apply (auto simp: advance_simps) [1]
   apply (rule assms)
  apply (auto dest: conn_step_opened)
  done

lemma client_connected_spec:
  "ensures (SC_ClientTransition_ScConnecting_To_ScConnected env idx b err w) (\<lambda>(ok, err', w').
     sc_state (conns w idx) = SECURE_CONNECTION_STATE_SC_CONNECTING \<and> \<not> isServerConnection (conns w idx) \<and>
     conn_step idx (if ok then opened SECURE_CONNECTION_STATE_SC_CONNECTED
                    else advances SECURE_CONNECTION_STATE_SC_CONNECTING) w w')"
  unfolding SC_ClientTransition_ScConnecting_To_ScConnected_def Let_def
  by (rule ensures_intros ensures_spec [OF ReceiveOPN_spec] ensures_any |
      (auto simp: advance_simps opened_def split: if_splits; fail))+

lemma client_renewed_spec:
  assumes "valid_token (currentSecurityToken (conns w idx))"
  shows "ensures (SC_ClientTransition_ScConnectedRenew_To_ScConnected env idx b err w) (\<lambda>(ok, err', w').
     sc_state (conns w idx) = SECURE_CONNECTION_STATE_SC_CONNECTED_RENEW \<and> \<not> isServerConnection (conns w idx) \<and>
     conn_step idx (if ok then opened SECURE_CONNECTION_STATE_SC_CONNECTED
                    else advances SECURE_CONNECTION_STATE_SC_CONNECTED_RENEW) w w')"
  unfolding SC_ClientTransition_ScConnectedRenew_To_ScConnected_def Let_def
  by (rule ensures_intros ensures_spec [OF ReceiveOPN_spec] ensures_any assms |
      (auto simp: advance_simps opened_def assms split: if_splits; fail))+

section \<open>Opening on the server side\<close>

lemma add_channel_config_conns:
  "ensures (add_channel_config env sc ep req cert w) (\<lambda>(cfg, w'). conns w' = conns w)"
  unfolding add_channel_config_def SOPC_ToolkitServer_AddSecureChannelConfig_def
  by (intro ensures_intros ensures_any) auto

lemma treat_open_request_spec:
  "ensures (treat_open_request env idx ep req detailed err w) (\<lambda>(ok, detailed', err', w').
     conn_step idx (advances (sc_state (conns w idx))) w w')"
  unfolding treat_open_request_def Let_def
  by (rule ensures_intros ensures_spec [OF add_channel_config_conns] |
      (auto simp: advance_simps split: if_splits; fail))+

lemma server_connecting_spec:
  "ensures (SC_ServerTransition_ScInit_To_ScConnecting env idx b h err w) (\<lambda>(ok, h', hh, detailed, err', w').
     sc_state (conns w idx) = SECURE_CONNECTION_STATE_SC_INIT \<and> isServerConnection (conns w idx) \<and>
     conn_step idx (advances (if ok then SECURE_CONNECTION_STATE_SC_CONNECTING
                              else SECURE_CONNECTION_STATE_SC_INIT)) w w')"
  unfolding SC_ServerTransition_ScInit_To_ScConnecting_def Let_def
  apply (intro ensures_intros)
  apply (rule ensures_any)
  apply (rule ensures_any)
  apply (rule ensures_spec [where P = "\<lambda>(ok, h', hh, detailed, err', w').
     conn_step idx (advances (sc_state (conns w idx))) w w'"])
  subgoal
    by (rule ensures_intros ensures_spec [OF treat_open_request_spec] | (auto simp: advance_simps split: if_splits; fail))+
  by (intro ensures_intros) (auto simp: advance_simps split: if_splits)

text \<open>The identifiers the server draws are not 0 and are not in use on the listener.\<close>

lemma fresh_ids_fresh:
  assumes "fresh_ids env used n scId tokId newSc newTok k = (s, t, m)"
    and "scId = 0 \<or> scId \<notin> secureChannelId ` set used" "tokId = 0 \<or> tokId \<notin> tokenId ` set used"
  shows "(s = 0 \<or> s \<notin> secureChannelId ` set used) \<and> (t = 0 \<or> t \<notin> tokenId ` set used)"
  using assms
proof (induction n arbitrary: scId tokId newSc newTok k)
  case 0
  then show ?case by simp
next
  case (Suc n)
  show ?case
  proof (cases "scId \<noteq> 0 \<and> tokId \<noteq> 0")
    case True
    then show ?thesis using Suc.prems by simp
  next
    case False
    then obtain a b a' b' k' where
      "fresh_ids env used n a b a' b' k' = (s, t, m)" "a = 0 \<or> a \<notin> secureChannelId ` set used"
      "b = 0 \<or> b \<notin> tokenId ` set used"
      using Suc.prems by (auto simp: Let_def split_beta split: if_splits)
    then show ?thesis by (rule Suc.IH)
  qed
qed

lemma fresh_token_fresh:
  "fresh_token env used n newTok k = (t, m) \<Longrightarrow> t = 0 \<or> t \<notin> tokenId ` set used"
  by (induction n arbitrary: newTok k) (auto simp: Let_def split_beta split: if_splits)

lemma GenerateFreshIds_spec:
  "ensures (SC_Server_GenerateFreshSecureChannelAndTokenId env idx w) (\<lambda>(ids, w'). conns w' = conns w \<and>
     (\<forall>s t. ids = Some (s, t) \<longrightarrow> s \<noteq> 0 \<and> t \<noteq> 0))"
  unfolding SC_Server_GenerateFreshSecureChannelAndTokenId_def Let_def
  by (intro ensures_intros ensures_any) auto

lemma GenerateFreshToken_spec:
  "ensures (SC_Server_GenerateFreshTokenId env idx w) (\<lambda>(t, w'). conns w' = conns w)"
  unfolding SC_Server_GenerateFreshTokenId_def Let_def
  by (intro ensures_intros ensures_any) auto

lemma server_keys_conns: "ensures (server_keys env idx err w) (\<lambda>(ok, keys, n, err', w'). conns w' = conns w)"
  unfolding server_keys_def Let_def
  by (intro ensures_intros ensures_any) (auto dest!: frame_dests)

lemma new_channel_keys_spec:
  "ensures (new_channel_keys env idx mode err w) (\<lambda>(ok, n, d, err', w').
     conn_step idx (\<lambda>c c'. advances (sc_state c) c c' \<and> currentSecurityToken c' = currentSecurityToken c) w w')"
  unfolding new_channel_keys_def Let_def
  by (rule ensures_intros ensures_spec [OF server_keys_conns] |
      (auto simp: advance_simps split: if_splits option.splits; fail))+

lemma renew_keys_spec:
  "ensures (renew_keys env idx mode err w) (\<lambda>(ok, keys, n, err', w').
     conn_step idx (\<lambda>c c'. c' = c \<or> c' = c\<lparr>clientNonce := None\<rparr>) w w')"
  unfolding renew_keys_def Let_def
  by (rule ensures_intros ensures_spec [OF server_keys_conns] |
      (auto simp: advance_simps split: if_splits option.splits; fail))+

lemma new_token_ids [simp]:
  "secureChannelId (new_token env s t n) = s" "tokenId (new_token env s t n) = t"
  by (simp_all add: new_token_def)

lemma valid_new_token: "valid_token (new_token env s t n) \<longleftrightarrow> s \<noteq> 0 \<and> t \<noteq> 0"
  by (simp add: valid_token_def)

lemma server_connected_spec:
  "ensures (SC_ServerTransition_ScConnecting_To_ScConnected env idx req h err w) (\<lambda>(ok, detailed, err', w').
     sc_state (conns w idx) = SECURE_CONNECTION_STATE_SC_CONNECTING \<and> isServerConnection (conns w idx) \<and>
     conn_step idx (if ok then opened SECURE_CONNECTION_STATE_SC_CONNECTED
                    else advances SECURE_CONNECTION_STATE_SC_CONNECTING) w w')"
  unfolding SC_ServerTransition_ScConnecting_To_ScConnected_def Let_def
  apply (intro ensures_intros)
  apply (rule ensures_any)
  apply (rule ensures_spec [where P = "\<lambda>(ok, b, detailed, err', w').
     conn_step idx ((if ok then opened else advances) SECURE_CONNECTION_STATE_SC_CONNECTING) w w'"])
  subgoal
    by (rule ensures_intros ensures_spec [OF GenerateFreshIds_spec] ensures_spec [OF new_channel_keys_spec] |
        (auto simp: advance_simps opened_def valid_new_token valid_token_def split: if_splits option.splits prod.splits; fail))+
  by (intro ensures_intros) (auto simp: advance_simps opened_def split: if_splits)

lemma server_renew_spec:
  "ensures (SC_ServerTransition_ScConnected_To_ScConnectedRenew env idx b err w) (\<lambda>(ok, h, n, hh, err', w').
     sc_state (conns w idx) = SECURE_CONNECTION_STATE_SC_CONNECTED \<and> isServerConnection (conns w idx) \<and>
     conn_step idx (advances (if ok then SECURE_CONNECTION_STATE_SC_CONNECTED_RENEW
                              else SECURE_CONNECTION_STATE_SC_CONNECTED)) w w')"
  unfolding SC_ServerTransition_ScConnected_To_ScConnectedRenew_def Let_def
  by (intro ensures_intros ensures_any) (auto simp: advance_simps)

lemma server_renewed_spec:
  "ensures (SC_ServerTransition_ScConnectedRenew_To_ScConnected env idx req h n err w) (\<lambda>(ok, err', w').
     sc_state (conns w idx) = SECURE_CONNECTION_STATE_SC_CONNECTED_RENEW \<and> isServerConnection (conns w idx) \<and>
     conn_step idx (advances (if ok then SECURE_CONNECTION_STATE_SC_CONNECTED
                              else SECURE_CONNECTION_STATE_SC_CONNECTED_RENEW)) w w')"
  unfolding SC_ServerTransition_ScConnectedRenew_To_ScConnected_def Let_def
  by (rule ensures_intros ensures_spec [OF GenerateFreshToken_spec] ensures_spec [OF renew_keys_spec] ensures_any |
      (auto simp: advance_simps renew_token_def valid_new_token valid_token_def; fail))+

end
