(* ===== verification/SC_Automaton.thy ===== *)
theory SC_Automaton
  imports SC_Transitions
begin

text \<open>
  The automaton of a secure connection and the invariant of the table of connections, for the handlers of the
  secure connection state manager and of the listener state manager.
\<close>

section \<open>The automaton\<close>

text \<open>
  The states a connection can be in after an event, by its role (\<open>True\<close> for the server side) and its state.
  The server answers an open request in the event that brings it, so it goes from the hello exchange to
  connected at once; it stays in a state in between only while an error message is sent before it closes.
\<close>

fun sc_edges :: "bool \<Rightarrow> SOPC_SecureConnection_State \<Rightarrow> SOPC_SecureConnection_State list" where
  "sc_edges server SECURE_CONNECTION_STATE_SC_CLOSED =
     [SECURE_CONNECTION_STATE_TCP_INIT, SECURE_CONNECTION_STATE_TCP_REVERSE_INIT, SECURE_CONNECTION_STATE_TCP_REVERSE_TOKEN]"
| "sc_edges server SECURE_CONNECTION_STATE_SC_CLOSING = [SECURE_CONNECTION_STATE_SC_CLOSED]"
| "sc_edges server SECURE_CONNECTION_STATE_TCP_REVERSE_TOKEN =
     [SECURE_CONNECTION_STATE_TCP_REVERSE_INIT, SECURE_CONNECTION_STATE_SC_CLOSED]"
| "sc_edges server SECURE_CONNECTION_STATE_TCP_REVERSE_INIT =
     [if server then SECURE_CONNECTION_STATE_TCP_INIT else SECURE_CONNECTION_STATE_TCP_NEGOTIATE,
      SECURE_CONNECTION_STATE_SC_CLOSED]"
| "sc_edges server SECURE_CONNECTION_STATE_TCP_INIT =
     SECURE_CONNECTION_STATE_TCP_NEGOTIATE # SECURE_CONNECTION_STATE_SC_CLOSED #
     (if server then [SECURE_CONNECTION_STATE_SC_INIT] else [])"
| "sc_edges server SECURE_CONNECTION_STATE_TCP_NEGOTIATE =
     SECURE_CONNECTION_STATE_SC_CLOSED # (if server then [] else [SECURE_CONNECTION_STATE_SC_CONNECTING])"
| "sc_edges server SECURE_CONNECTION_STATE_SC_INIT =
     SECURE_CONNECTION_STATE_SC_CLOSED #
     (if server then [SECURE_CONNECTION_STATE_SC_CONNECTING, SECURE_CONNECTION_STATE_SC_CONNECTED] else [])"
| "sc_edges server SECURE_CONNECTION_STATE_SC_CONNECTING =
     SECURE_CONNECTION_STATE_SC_CLOSED # (if server then [] else [SECURE_CONNECTION_STATE_SC_CONNECTED])"
| "sc_edges server SECURE_CONNECTION_STATE_SC_CONNECTED =
     [SECURE_CONNECTION_STATE_SC_CONNECTED_RENEW, SECURE_CONNECTION_STATE_SC_CLOSING]"
| "sc_edges server SECURE_CONNECTION_STATE_SC_CONNECTED_RENEW =
     SECURE_CONNECTION_STATE_SC_CLOSING # (if server then [] else [SECURE_CONNECTION_STATE_SC_CONNECTED])"

text \<open>
  A closed connection holds nothing. The limits of an open one are narrowed from the configured ones, and an established one
  has a valid token.
\<close>

definition holds_nothing :: "sc_connection \<Rightarrow> bool" where
  "holds_nothing c \<longleftrightarrow> c = sc_zero\<lparr>sc_state := sc_state c\<rparr>"

definition conn_ok :: "SOPC_Common_EncodingConstants \<Rightarrow> sc_connection \<Rightarrow> bool" where
  "conn_ok cfg c \<longleftrightarrow>
     (if sc_is_closed (sc_state c) then holds_nothing c
      else narrowed (tcp_initial cfg) (tcpMsgProperties c)) \<and>
     (sc_is_connected (sc_state c) \<longrightarrow> valid_token (currentSecurityToken c))"

definition world_ok :: "SOPC_Common_EncodingConstants \<Rightarrow> sc_world \<Rightarrow> bool" where
  "world_ok cfg w \<longleftrightarrow> (\<forall>i. conn_ok cfg (conns w i))"

text \<open>One event, seen from a connection; \<open>opn\<close> tells whether the event is an open message for it.\<close>

definition evolves :: "bool \<Rightarrow> SOPC_Common_EncodingConstants \<Rightarrow> sc_connection \<Rightarrow> sc_connection \<Rightarrow> bool" where
  "evolves opn cfg c c' \<longleftrightarrow>
     (sc_state c' = sc_state c \<or> sc_state c' \<in> set (sc_edges (isServerConnection c) (sc_state c))) \<and>
     (isServerConnection c' = isServerConnection c \<or> sc_is_closed (sc_state c) \<or> sc_is_closed (sc_state c') \<or>
      sc_state c = SECURE_CONNECTION_STATE_TCP_REVERSE_TOKEN) \<and>
     conn_ok cfg c' \<and> (sc_is_connected (sc_state c') \<longrightarrow> sc_is_connected (sc_state c) \<or> opn)"

definition all_evolve :: "(u32 \<Rightarrow> bool) \<Rightarrow> SOPC_Common_EncodingConstants \<Rightarrow> sc_world \<Rightarrow> sc_world \<Rightarrow> bool" where
  "all_evolve opn cfg w w' \<longleftrightarrow> (\<forall>i. evolves (opn i) cfg (conns w i) (conns w' i))"

lemma holds_nothingE: "holds_nothing c \<Longrightarrow> (\<And>st. c = sc_zero\<lparr>sc_state := st\<rparr> \<Longrightarrow> P) \<Longrightarrow> P"
  by (auto simp: holds_nothing_def)

lemma holds_nothing_zero [simp]: "holds_nothing (sc_zero\<lparr>sc_state := st\<rparr>)"
  by (simp add: holds_nothing_def)

lemma holds_nothing_timers:
  "holds_nothing c \<Longrightarrow> holds_nothing (c\<lparr>connectionTimeoutTimerId := 0\<rparr>)"
  "holds_nothing c \<Longrightarrow> holds_nothing (c\<lparr>secuTokenRenewTimerId := 0\<rparr>)"
  "holds_nothing c \<Longrightarrow> holds_nothing (c\<lparr>sc_state := st\<rparr>)"
  by (erule holds_nothingE, simp add: holds_nothing_def sc_zero_def)+

lemma all_evolve_world_ok: "all_evolve opn cfg w w' \<Longrightarrow> world_ok cfg w'"
  by (auto simp: all_evolve_def world_ok_def evolves_def)

lemma evolves_refl [simp]: "conn_ok cfg c \<Longrightarrow> evolves opn cfg c c"
  by (simp add: evolves_def)

lemma evolve_step:
  assumes "world_ok cfg w" "conn_step idx R w w'" "\<And>c'. R (conns w idx) c' \<Longrightarrow> evolves (opn idx) cfg (conns w idx) c'"
  shows "all_evolve opn cfg w w'"
  unfolding all_evolve_def
proof
  fix i
  show "evolves (opn i) cfg (conns w i) (conns w' i)"
  proof (cases "i = idx")
    case True
    then show ?thesis using assms(3) conn_step_at [OF assms(2)] by simp
  next
    case False
    then show ?thesis using conn_step_other [OF assms(2)] assms(1) by (simp add: world_ok_def)
  qed
qed

lemma evolve_same: "world_ok cfg w \<Longrightarrow> conns w' = conns w \<Longrightarrow> all_evolve opn cfg w w'"
  by (simp add: all_evolve_def world_ok_def)

lemma closing_edge:
  assumes "\<not> sc_is_closed (sc_state c)" "sc_is_connected (sc_state c1) \<longleftrightarrow> sc_is_connected (sc_state c)"
  shows "evolves opn cfg c (closed_of c1)"
  using assms by (cases "sc_state c")
    (auto simp: evolves_def closed_of_def conn_ok_def sc_is_closed_def sc_is_connected_def)

lemma evolve_maybe_closed:
  assumes "conn_ok cfg c" "maybe_closed P c c'"
  shows "evolves opn cfg c c'"
proof (cases "timer_stopped c c'")
  case True
  have "conn_ok cfg c'"
    using assms(1) True by (auto simp: conn_ok_def timer_stopped_def holds_nothing_timers)
  then show ?thesis using True by (auto simp: evolves_def timer_stopped_def)
next
  case False
  then have "\<not> sc_is_closed (sc_state c)" "c' = closed_of c" using assms(2) by (auto simp: maybe_closed_def split: if_splits)
  then show ?thesis using closing_edge [of c c] by simp
qed

lemma evolve_advances:
  assumes "conn_ok cfg c" "\<not> sc_is_closed (sc_state c)" "advances st c c'" "\<not> sc_is_closed st"
    and "st = sc_state c \<or> st \<in> set (sc_edges (isServerConnection c) (sc_state c))"
    and "sc_is_connected st \<longrightarrow> sc_is_connected (sc_state c)"
  shows "evolves opn cfg c c'"
  using assms narrowed_trans by (auto simp: evolves_def advances_def conn_ok_def)

lemma evolve_opened:
  assumes "conn_ok cfg c" "\<not> sc_is_closed (sc_state c)" "opened st c c'" "\<not> sc_is_closed st"
    and "st = sc_state c \<or> st \<in> set (sc_edges (isServerConnection c) (sc_state c))"
    and "sc_is_connected st \<longrightarrow> sc_is_connected (sc_state c) \<or> opn"
  shows "evolves opn cfg c c'"
  using assms narrowed_trans by (auto simp: evolves_def opened_def advances_def conn_ok_def)

text \<open>A connection that advanced and is then closed, at once or after a last message.\<close>

lemma evolve_then_closed:
  assumes "conn_ok cfg c" "\<not> sc_is_closed (sc_state c)" "advances st c c1" "maybe_closed P c1 c'"
    and "\<not> sc_is_closed st" "sc_is_connected st \<longleftrightarrow> sc_is_connected (sc_state c)"
    and "\<not> P c1 \<Longrightarrow> st = sc_state c \<or> st \<in> set (sc_edges (isServerConnection c) (sc_state c))"
  shows "evolves opn cfg c c'"
proof (cases "timer_stopped c1 c' \<and> \<not> P c1")
  case True
  then have "advances st c1 c'" using assms(3) by (auto simp: timer_stopped_def advances_def)
  then have "advances st c c'" using advances_trans assms(3) by blast
  then show ?thesis using True assms by (intro evolve_advances) auto
next
  case False
  then have "c' = closed_of c1" using assms(3-5) by (auto simp: maybe_closed_def advances_def split: if_splits)
  then show ?thesis using assms by (auto simp: advances_def intro!: closing_edge)
qed

section \<open>Closure in a handler\<close>

lemma close_evolves:
  assumes "world_ok cfg w"
  shows "ensures (SC_CloseSecureConnection env (SC_GetConnection idx w) idx im sf err reason h w) (all_evolve opn cfg w)"
  by (rule ensures_mono [OF CloseSecureConnection_spec])
    (erule evolve_step [OF assms], rule evolve_maybe_closed, use assms in \<open>auto simp: world_ok_def\<close>)

lemma close_with_evolves: "world_ok cfg w \<Longrightarrow> ensures (close_with env idx err reason h w) (all_evolve opn cfg w)"
  unfolding close_with_def by (rule close_evolves)

lemma advance_close_evolves:
  assumes "world_ok cfg w" "conn_step idx (advances st) w w1" "\<not> sc_is_closed (sc_state (conns w idx))"
    and "\<not> sc_is_closed st" "sc_is_connected st \<longleftrightarrow> sc_is_connected (sc_state (conns w idx))"
    and "isServerConnection (conns w idx) \<or> sc_is_connected st \<Longrightarrow>
      st = sc_state (conns w idx) \<or> st \<in> set (sc_edges (isServerConnection (conns w idx)) (sc_state (conns w idx)))"
  shows "ensures (close_with env idx err reason h w1) (all_evolve opn cfg w)"
  unfolding close_with_def
proof (rule ensures_mono [OF CloseSecureConnection_spec])
  fix w2
  assume "conn_step idx (maybe_closed (\<lambda>c. False \<or> \<not> isServerConnection c \<and> \<not> sc_is_connected (sc_state c))) w1 w2"
  with assms(2) have "conn_step idx (\<lambda>c c'. \<exists>c1. advances st c c1 \<and>
      maybe_closed (\<lambda>c. \<not> isServerConnection c \<and> \<not> sc_is_connected (sc_state c)) c1 c') w w2"
    by (rule conn_step_trans) auto
  then show "all_evolve opn cfg w w2"
    by (rule evolve_step [OF assms(1)])
      (use assms in \<open>auto simp: world_ok_def advances_def intro!: evolve_then_closed [where st = st]\<close>)
qed

end
