(* ===== verification/SC_Handlers.thy ===== *)
theory SC_Handlers
  imports SC_Automaton
begin

text \<open>Every handler of the state managers moves each connection along the automaton and keeps the invariant.\<close>

section \<open>Rules for the end of a handler\<close>

lemma advance_evolves:
  assumes "world_ok cfg w" "conn_step idx (advances st) w w'" "\<not> sc_is_closed (sc_state (conns w idx))"
    and "\<not> sc_is_closed st"
    and "st = sc_state (conns w idx) \<or> st \<in> set (sc_edges (isServerConnection (conns w idx)) (sc_state (conns w idx)))"
    and "sc_is_connected st \<longrightarrow> sc_is_connected (sc_state (conns w idx))"
  shows "all_evolve opn cfg w w'"
  by (rule evolve_step [OF assms(1,2)])
    (use assms in \<open>auto simp: world_ok_def intro!: evolve_advances [where st = st]\<close>)

lemma open_evolves:
  assumes "world_ok cfg w" "conn_step idx (opened st) w w'" "\<not> sc_is_closed (sc_state (conns w idx))"
    and "\<not> sc_is_closed st"
    and "st = sc_state (conns w idx) \<or> st \<in> set (sc_edges (isServerConnection (conns w idx)) (sc_state (conns w idx)))"
    and "sc_is_connected st \<longrightarrow> sc_is_connected (sc_state (conns w idx)) \<or> opn idx"
  shows "all_evolve opn cfg w w'"
  by (rule evolve_step [OF assms(1,2)])
    (use assms in \<open>auto simp: world_ok_def intro!: evolve_opened [where st = st]\<close>)

lemma state_simps [simp]:
  "\<not> sc_is_closed SECURE_CONNECTION_STATE_TCP_REVERSE_TOKEN" "\<not> sc_is_closed SECURE_CONNECTION_STATE_TCP_REVERSE_INIT"
  "\<not> sc_is_closed SECURE_CONNECTION_STATE_TCP_INIT" "\<not> sc_is_closed SECURE_CONNECTION_STATE_TCP_NEGOTIATE"
  "\<not> sc_is_closed SECURE_CONNECTION_STATE_SC_INIT" "\<not> sc_is_closed SECURE_CONNECTION_STATE_SC_CONNECTING"
  "\<not> sc_is_closed SECURE_CONNECTION_STATE_SC_CONNECTED" "\<not> sc_is_closed SECURE_CONNECTION_STATE_SC_CONNECTED_RENEW"
  "\<not> sc_is_connected SECURE_CONNECTION_STATE_SC_CLOSED" "\<not> sc_is_connected SECURE_CONNECTION_STATE_SC_CLOSING"
  "\<not> sc_is_connected SECURE_CONNECTION_STATE_TCP_REVERSE_TOKEN"
  "\<not> sc_is_connected SECURE_CONNECTION_STATE_TCP_REVERSE_INIT"
  "\<not> sc_is_connected SECURE_CONNECTION_STATE_TCP_INIT" "\<not> sc_is_connected SECURE_CONNECTION_STATE_TCP_NEGOTIATE"
  "\<not> sc_is_connected SECURE_CONNECTION_STATE_SC_INIT" "\<not> sc_is_connected SECURE_CONNECTION_STATE_SC_CONNECTING"
  "sc_is_connected SECURE_CONNECTION_STATE_SC_CONNECTED" "sc_is_connected SECURE_CONNECTION_STATE_SC_CONNECTED_RENEW"
  by (simp_all add: sc_is_closed_def sc_is_connected_def)

abbreviation sc_cfg :: "scm_env \<Rightarrow> SOPC_Common_EncodingConstants" where
  "sc_cfg env \<equiv> enc_cfg (sc_enc env)"

section \<open>New connections\<close>

text \<open>A slot that was closed is taken by a connection in its first state.\<close>

definition created :: "SOPC_Common_EncodingConstants \<Rightarrow> SOPC_SecureConnection_State \<Rightarrow> sc_connection \<Rightarrow> sc_connection \<Rightarrow> bool" where
  "created cfg st c c' \<longleftrightarrow>
     sc_state c = SECURE_CONNECTION_STATE_SC_CLOSED \<and> sc_state c' = st \<and> tcpMsgProperties c' = tcp_initial cfg"

lemma initialised_created: "initialised cfg c c' \<Longrightarrow> created cfg SECURE_CONNECTION_STATE_TCP_INIT c c'"
  by (auto simp: initialised_def created_def)

lemma created_evolves:
  assumes "world_ok cfg w" "conn_step idx (created cfg st) w w'"
    and "st \<in> {SECURE_CONNECTION_STATE_TCP_INIT, SECURE_CONNECTION_STATE_TCP_REVERSE_INIT, SECURE_CONNECTION_STATE_TCP_REVERSE_TOKEN}"
  shows "all_evolve opn cfg w w'"
  by (rule evolve_step [OF assms(1,2)]) (use assms(3) in \<open>auto simp: created_def evolves_def conn_ok_def\<close>)

lemma created_closed_evolves:
  assumes "world_ok cfg w" "conn_step idx (created cfg st) w w1" "conns w' = (conns w1)(idx := closed_of (conns w1 idx))"
    and "\<not> sc_is_connected st"
  shows "all_evolve opn cfg w w'"
proof -
  have "conn_step idx (\<lambda>c c'. c' = sc_zero\<lparr>sc_state := SECURE_CONNECTION_STATE_SC_CLOSED\<rparr> \<and>
      sc_state c = SECURE_CONNECTION_STATE_SC_CLOSED) w w'"
    using assms by (auto simp: conn_step_iff created_def closed_of_def)
  then show ?thesis
    by (rule evolve_step [OF assms(1)]) (auto simp: evolves_def conn_ok_def)
qed

lemma InitNewConnection_evolves:
  assumes "world_ok (sc_cfg env) w"
  shows "ensures (SC_InitNewConnection env peer w) (\<lambda>(ok, i, w').
     if ok then i > 0 \<and> i \<le> 26 \<and> conn_step i (created (sc_cfg env) SECURE_CONNECTION_STATE_TCP_INIT) w w'
     else all_evolve opn (sc_cfg env) w w')"
proof (rule ensures_mono [OF InitNewConnection_spec])
  fix r
  assume r: "case r of (ok, i, w') \<Rightarrow>
      (ok \<longrightarrow> i > 0 \<and> i \<le> 26 \<and> conn_step i (initialised (sc_cfg env)) w w') \<and>
      (\<not> ok \<longrightarrow> i = 0 \<and> (conns w' = conns w \<or> (\<exists>j. conn_step j (initialised (sc_cfg env)) w w')))"
  have "conn_step j (created (sc_cfg env) SECURE_CONNECTION_STATE_TCP_INIT) w w'"
    if "conn_step j (initialised (sc_cfg env)) w w'" for j w'
    using that by (rule conn_step_mono) (rule initialised_created)
  then show "case r of (ok, i, w') \<Rightarrow>
     if ok then i > 0 \<and> i \<le> 26 \<and> conn_step i (created (sc_cfg env) SECURE_CONNECTION_STATE_TCP_INIT) w w'
     else all_evolve opn (sc_cfg env) w w'"
    using r assms by (auto intro: evolve_same created_evolves)
qed

definition kept :: "sc_connection \<Rightarrow> sc_connection \<Rightarrow> bool" where
  "kept c c' \<longleftrightarrow> sc_state c' = sc_state c \<and> tcpMsgProperties c' = tcpMsgProperties c"

lemma init_key_and_certs_spec:
  "ensures (sc_init_key_and_certs env idx w) (\<lambda>(ok, w'). conn_step idx kept w w')"
  unfolding sc_init_key_and_certs_def Let_def
  by (intro ensures_intros ensures_any) (auto simp: conn_step_iff frame_simps kept_def split: option.splits)

lemma created_kept: "conn_step i (created cfg st) w w1 \<Longrightarrow> conn_step i kept w1 w2 \<Longrightarrow> conn_step i (created cfg st) w w2"
  by (erule (1) conn_step_trans) (auto simp: created_def kept_def)

lemma establish_timer_kept:
  "ensures (SC_StartConnectionEstablishTimer env idx w) (\<lambda>(status, w'). conn_step idx kept w w')"
  by (rule ensures_mono [OF establish_timer_spec]) (auto simp: kept_def elim!: conn_step_mono)

lemma initServerSC_spec:
  assumes "world_ok (sc_cfg env) w"
  shows "ensures (initServerSC env sock ep rv ri peer w) (\<lambda>(ok, i, w').
     if ok then conn_step i (created (sc_cfg env) SECURE_CONNECTION_STATE_TCP_INIT) w w'
     else all_evolve opn (sc_cfg env) w w')"
proof -
  let ?cfg = "sc_cfg env" and ?st = "SECURE_CONNECTION_STATE_TCP_INIT"
  have prepared: "conn_step i (created ?cfg ?st) w (sc_update i (\<lambda>c. c\<lparr>isReverseConnection := rv, serverReverseConnIdx := ri,
      socketIndex := sock, serverEndpointConfigIdx := ep, isServerConnection := True\<rparr>) w1)"
    if "conn_step i (created ?cfg ?st) w w1" for i w1
    using that by (rule created_kept) (auto simp: conn_step_iff frame_simps kept_def)
  show ?thesis
    unfolding initServerSC_def Let_def
    apply (rule ensures_spec [OF InitNewConnection_evolves [OF assms]])
    apply (intro ensures_intros)
     apply (simp; fail)
    apply (rule ensures_spec [OF init_key_and_certs_spec])
    apply (intro ensures_intros)
    subgoal for r ok r2 i w1 r3 ok2 w2
      apply (rule ensures_spec [where P = "\<lambda>(ok, w'). conn_step i (created ?cfg ?st) w w'"])
      subgoal
        by (rule ensures_intros ensures_spec [OF establish_timer_kept] | (auto dest: prepared intro: created_kept; fail))+
      apply (intro ensures_intros)
       apply (rule ensures_spec [OF CloseConnection_spec])
       apply (auto simp: ensures_simps conn_step_iff created_def intro!: created_closed_evolves [OF assms, where st = ?st and idx = i])
      done
    done
qed

lemma created_next:
  assumes "conn_step i (created cfg st) w w1"
  shows "conn_step i (created cfg st') w (sc_update i (\<lambda>c. c\<lparr>sc_state := st'\<rparr>) w1)"
  using assms by (auto simp: conn_step_iff frame_simps created_def)

lemma evolve_strip:
  "all_evolve opn cfg w (SOPC_Sockets_EnqueueEvent env e1 w') = all_evolve opn cfg w w'"
  "all_evolve opn cfg w (SOPC_SecureChannels_EnqueueInternalEventAsNext env e2 w') = all_evolve opn cfg w w'"
  "all_evolve opn cfg w (post_services env e3 w') = all_evolve opn cfg w w'"
  "all_evolve opn cfg w (listener_update ep f w') = all_evolve opn cfg w w'"
  by (simp_all add: all_evolve_def frame_simps)

lemma evolve_source: "conns w1 = conns w \<Longrightarrow> all_evolve opn cfg w1 = all_evolve opn cfg w"
  by (simp add: all_evolve_def fun_eq_iff)

lemma evolve_frame: "all_evolve opn cfg w w1 \<Longrightarrow> conns w' = conns w1 \<Longrightarrow> all_evolve opn cfg w w'"
  by (simp add: all_evolve_def)

section \<open>Internal events\<close>

lemma on_ep_sc_create_evolves:
  assumes ok: "world_ok (sc_cfg env) w"
  shows "ensures (on_ep_sc_create env ep peer aux w) (all_evolve opn (sc_cfg env) w)"
  unfolding on_ep_sc_create_def
  by (rule ensures_intros ensures_spec [OF initServerSC_spec [OF ok]] |
      (auto simp: frame_simps intro: evolve_frame created_evolves [OF ok] evolve_same [OF ok] split: if_splits; fail))+

lemma on_ep_sc_reverse_connect_evolves:
  assumes ok: "world_ok (sc_cfg env) w"
  shows "ensures (on_ep_sc_reverse_connect env ep aux w) (all_evolve opn (sc_cfg env) w)"
  unfolding on_ep_sc_reverse_connect_def
  by (rule ensures_intros ensures_spec [OF initServerSC_spec [OF ok, where opn = opn]] ensures_any |
      (auto simp: evolve_strip evolve_same [OF ok] intro!: created_evolves [OF ok created_next] split: if_splits; fail))+

lemma on_rcv_hel_evolves:
  assumes ok: "world_ok cfg w"
  shows "ensures (on_rcv_hel env idx b w) (all_evolve opn cfg w)"
  unfolding on_rcv_hel_def
  apply (intro ensures_intros close_with_evolves ok)
   apply (rule evolve_same [OF ok refl])
  apply (rule ensures_any)
  apply (rule ensures_spec [OF server_hello_spec])
  apply (intro ensures_intros)
  subgoal for c m r ok1 r2 err w1
    apply (rule ensures_spec [where P = "\<lambda>(ok, err, w').
      conn_step idx (advances (if ok then SECURE_CONNECTION_STATE_SC_INIT
        else if ok1 then SECURE_CONNECTION_STATE_TCP_NEGOTIATE else SECURE_CONNECTION_STATE_TCP_INIT)) w w'"])
    subgoal
      apply (intro ensures_intros)
       apply (rule ensures_mono [OF server_ack_spec])
       apply (auto intro: conn_step_trans advances_trans simp: conn_step_iff split: if_splits)
      done
    apply (intro ensures_intros)
     apply (auto intro!: advance_evolves [OF ok] split: if_splits) [1]
    apply (rule advance_close_evolves [OF ok])
        apply (auto split: if_splits)
    done
  done

lemma on_rcv_rhe_evolves:
  assumes ok: "world_ok cfg w"
  shows "ensures (on_rcv_rhe env idx b w) (all_evolve opn cfg w)"
  unfolding on_rcv_rhe_def
  by (rule ensures_intros close_with_evolves [OF ok] ensures_any | (auto simp: frame_simps intro!: evolve_same [OF ok]; fail))+

lemma on_rcv_rhe_transition_evolves:
  assumes ok: "world_ok cfg w"
  shows "ensures (on_rcv_rhe_transition env idx w) (all_evolve opn cfg w)"
  unfolding on_rcv_rhe_transition_def
  apply (intro ensures_intros close_with_evolves ok)
   apply (rule evolve_same [OF ok refl])
  apply (rule ensures_spec [OF client_hello_spec])
  apply (intro ensures_intros)
  subgoal
    by (rule advance_evolves [OF ok, of idx SECURE_CONNECTION_STATE_TCP_NEGOTIATE])
      (auto simp: advance_simps GetConnection_Some)
  subgoal
    by (rule advance_close_evolves [OF ok, of idx SECURE_CONNECTION_STATE_TCP_INIT])
      (auto simp: advance_simps GetConnection_Some)
  done

lemma on_rcv_ack_evolves:
  assumes ok: "world_ok cfg w"
  shows "ensures (on_rcv_ack env idx b w) (all_evolve opn cfg w)"
  unfolding on_rcv_ack_def
  apply (intro ensures_intros close_with_evolves ok)
   apply (rule evolve_same [OF ok refl])
  apply (rule ensures_any)
  apply (rule ensures_spec [OF client_ack_spec])
  apply (intro ensures_intros)
  subgoal for c m r ok1 w1
    apply (rule ensures_spec [where P = "\<lambda>(ok, w').
      conn_step idx (advances (if ok then SECURE_CONNECTION_STATE_SC_CONNECTING
        else if ok1 then SECURE_CONNECTION_STATE_SC_INIT else SECURE_CONNECTION_STATE_TCP_NEGOTIATE)) w w'"])
    subgoal
      apply (intro ensures_intros)
       apply (rule ensures_mono [OF client_connecting_spec])
       apply (auto intro: conn_step_trans advances_trans simp: conn_step_iff split: if_splits)
      done
    apply (intro ensures_intros)
     apply (auto intro!: advance_evolves [OF ok] split: if_splits) [1]
    apply (rule advance_close_evolves [OF ok])
        apply (auto split: if_splits)
    done
  done

text \<open>An open message, which alone establishes a connection.\<close>

lemma opened_timer:
  "conn_step idx (opened st) w w1 \<Longrightarrow> conn_step idx (opened st) w (stop_connection_timer env idx w1)"
  by (auto simp: conn_step_iff frame_simps opened_def advances_def)

lemma onClientSideOpen_evolves:
  assumes ok: "world_ok cfg w" and opn: "opn idx"
  shows "ensures (onClientSideOpen env idx b w) (all_evolve opn cfg w)"
proof -
  have valid: "valid_token (currentSecurityToken (conns w idx))"
    if "sc_is_connected (sc_state (conns w idx))"
    using ok that by (simp add: world_ok_def conn_ok_def)
  show ?thesis
    unfolding onClientSideOpen_def Let_def
    apply (intro ensures_intros close_with_evolves [OF ok])
    apply (simp only: bool.split_sel_asm bool.case_eq_if)
    apply (intro ensures_intros close_with_evolves [OF ok])
    subgoal
      apply (rule ensures_spec [OF client_connected_spec])
      apply (intro ensures_intros)
      subgoal by (rule advance_close_evolves [OF ok]) auto
      subgoal
        by (auto simp: evolve_strip opn intro!: open_evolves [OF ok opened_timer])
      done
    subgoal
      apply (rule ensures_spec [OF client_renewed_spec])
       apply (rule valid; simp)
      apply (intro ensures_intros)
      subgoal by (rule advance_close_evolves [OF ok]) auto
      subgoal by (auto intro!: open_evolves [OF ok])
      done
    done
qed

lemma server_new_channel_evolves:
  assumes ok: "world_ok cfg w" and opn: "opn idx"
  shows "ensures (server_new_channel env idx b req w) (all_evolve opn cfg w)"
  unfolding server_new_channel_def Let_def
  apply (rule ensures_spec [OF server_connecting_spec])
  apply (intro ensures_intros)
  subgoal for r ok1 r2 h r3 hh r4 d r5 e w1
    apply (rule ensures_spec [where P = "\<lambda>(ok, d, e, w').
      if ok then conn_step idx (opened SECURE_CONNECTION_STATE_SC_CONNECTED) w w'
      else conn_step idx (advances (if ok1 then SECURE_CONNECTION_STATE_SC_CONNECTING else SECURE_CONNECTION_STATE_SC_INIT)) w w'"])
    subgoal
      apply (intro ensures_intros)
       apply (rule ensures_mono [OF server_connected_spec])
       apply (auto intro: conn_step_trans advances_trans opened_trans simp: conn_step_iff split: if_splits)
      done
    apply (intro ensures_intros)
    subgoal by (rule advance_close_evolves [OF ok]) (auto split: if_splits)
    subgoal
      by (auto simp: evolve_strip opn intro!: open_evolves [OF ok opened_timer])
    done
  done

lemma server_renew_channel_evolves:
  assumes ok: "world_ok cfg w"
  shows "ensures (server_renew_channel env idx b req w) (all_evolve opn cfg w)"
  unfolding server_renew_channel_def Let_def
  apply (rule ensures_spec [OF server_renew_spec])
  apply (intro ensures_intros)
  subgoal for r ok1 r2 h r3 n r4 hh r5 e w1
    apply (rule ensures_spec [where P = "\<lambda>(ok, e, w').
      conn_step idx (advances (if ok then SECURE_CONNECTION_STATE_SC_CONNECTED
        else if ok1 then SECURE_CONNECTION_STATE_SC_CONNECTED_RENEW else SECURE_CONNECTION_STATE_SC_CONNECTED)) w w'"])
    subgoal
      apply (intro ensures_intros)
       apply (rule ensures_mono [OF server_renewed_spec])
       apply (auto intro: conn_step_trans advances_trans simp: conn_step_iff split: if_splits)
      done
    apply (intro ensures_intros)
    subgoal by (rule advance_close_evolves [OF ok]) (auto split: if_splits)
    subgoal by (auto intro!: advance_evolves [OF ok] split: if_splits)
    done
  done

lemma onServerSideOpen_evolves:
  assumes ok: "world_ok cfg w" and opn: "opn idx"
  shows "ensures (onServerSideOpen env idx b req w) (all_evolve opn cfg w)"
  unfolding onServerSideOpen_def Let_def
  apply (intro ensures_intros close_with_evolves [OF ok])
  apply (simp only: bool.case_eq_if)
  apply (intro ensures_intros close_with_evolves [OF ok] server_new_channel_evolves [where opn = opn, OF ok opn]
      server_renew_channel_evolves [OF ok])
  done

lemma on_rcv_opn_evolves:
  assumes ok: "world_ok cfg w" and opn: "opn idx"
  shows "ensures (on_rcv_opn env idx b req w) (all_evolve opn cfg w)"
  unfolding on_rcv_opn_def
  by (intro ensures_intros ensures_any onServerSideOpen_evolves onClientSideOpen_evolves assms evolve_same [OF ok] refl)

lemma on_rcv_clo_evolves:
  assumes ok: "world_ok cfg w"
  shows "ensures (on_rcv_clo env idx b w) (all_evolve opn cfg w)"
  unfolding on_rcv_clo_def
  apply (intro ensures_intros close_with_evolves [OF ok] evolve_same [OF ok refl])
  apply (rule ensures_any)
  apply (intro ensures_intros)
  apply (simp (no_asm) only: bool.case_eq_if)
  apply (intro ensures_intros close_with_evolves [OF ok] close_evolves [OF ok])
  done

lemma on_rcv_msg_chunks_evolves:
  assumes ok: "world_ok cfg w"
  shows "ensures (on_rcv_msg_chunks env idx b aux w) (all_evolve opn cfg w)"
  unfolding on_rcv_msg_chunks_def
  by (intro ensures_intros close_with_evolves [OF ok] evolve_same [OF ok]) (simp_all add: frame_simps)

lemma on_rcv_msg_chunk_abort_evolves:
  assumes ok: "world_ok cfg w"
  shows "ensures (on_rcv_msg_chunk_abort env idx b aux w) (all_evolve opn cfg w)"
  unfolding on_rcv_msg_chunk_abort_def
  by (intro ensures_intros ensures_any close_with_evolves [OF ok] evolve_same [OF ok]) (simp_all add: frame_simps)

lemma on_rcv_err_evolves:
  assumes ok: "world_ok cfg w"
  shows "ensures (on_rcv_err env idx b w) (all_evolve opn cfg w)"
  unfolding on_rcv_err_def
  by (intro ensures_intros ensures_any close_evolves [OF ok])

lemma on_rcv_evolves:
  assumes ok: "world_ok cfg w" and opn: "le_event e = INT_SC_RCV_OPN \<Longrightarrow> opn (le_eltId e)"
  shows "ensures (on_rcv env e w) (all_evolve opn cfg w)"
  unfolding on_rcv_def Let_def
  using opn
  by (cases "le_event e")
    (auto simp: ensures_if intro: on_rcv_hel_evolves [OF ok] on_rcv_ack_evolves [OF ok] on_rcv_err_evolves [OF ok]
      on_rcv_rhe_evolves [OF ok] on_rcv_opn_evolves [OF ok] on_rcv_clo_evolves [OF ok] on_rcv_msg_chunks_evolves [OF ok]
      on_rcv_msg_chunk_abort_evolves [OF ok] close_with_evolves [OF ok] ensures_SomeI evolve_same [OF ok])

lemma on_snd_failure_evolves:
  assumes ok: "world_ok cfg w"
  shows "ensures (on_snd_failure env f w) (all_evolve opn cfg w)"
proof -
  have "world_ok cfg (post_services env e w)" for e using ok by (simp add: world_ok_def frame_simps)
  then have "ensures (close_with env idx err r h (post_services env e w)) (all_evolve opn cfg w)" for idx err r h e
    using close_with_evolves [of cfg "post_services env e w" env idx err r h opn]
      evolve_source [of "post_services env e w" w opn cfg]
    by (simp add: frame_simps)
  then show ?thesis
    unfolding on_snd_failure_def Let_def
    by (cases f) (auto simp: ensures_if ensures_Some evolve_strip evolve_same [OF ok])
qed

text \<open>The connections for which an internal event is an open message.\<close>

fun opens :: "sc_internal_event \<Rightarrow> u32 \<Rightarrow> bool" where
  "opens (INT_SC_RCV e) i \<longleftrightarrow> le_event e = INT_SC_RCV_OPN \<and> le_eltId e = i"
| "opens _ i \<longleftrightarrow> False"

lemma connection_internal_evolves:
  assumes ok: "world_ok (sc_cfg env) w" and opn: "\<And>i. opens e i \<Longrightarrow> opn i"
  shows "ensures (SOPC_SecureConnectionStateMgr_OnInternalEvent env e w) (all_evolve opn (sc_cfg env) w)"
  unfolding SOPC_SecureConnectionStateMgr_OnInternalEvent_def
  using opn
  by (cases e)
    (auto simp: ensures_if intro: on_ep_sc_create_evolves [OF ok] on_ep_sc_reverse_connect_evolves [OF ok]
      on_rcv_rhe_transition_evolves [OF ok] on_rcv_evolves [OF ok] on_snd_failure_evolves [OF ok]
      close_with_evolves [OF ok] close_evolves [OF ok] ensures_SomeI ensures_None evolve_same [OF ok])

section \<open>Events of the sockets and of the timers\<close>

lemma connection_socket_evolves:
  assumes ok: "world_ok cfg w"
  shows "ensures (SOPC_SecureConnectionStateMgr_OnSocketEvent env e w) (all_evolve opn cfg w)"
proof -
  have created: "all_evolve opn cfg w (sc_update idx (\<lambda>c. c\<lparr>socketIndex := s\<rparr>) w)"
    if "socket_expected (SC_GetConnection idx w)" for idx s
    by (rule advance_evolves [OF ok, of idx "sc_state (conns w idx)"])
      (use that in \<open>auto simp: advance_simps socket_expected_def GetConnection_Some split: option.splits\<close>)
  have connection: "ensures (do {
      (ok, w) \<leftarrow> (if isServerConnection (conns w idx) then SC_ServerTransition_TcpReverseInit_To_TcpInit env idx w
                  else SC_ClientTransition_TcpInit_To_TcpNegotiate env idx w);
      if ok then Some w else close_with env idx 0 r False w }) (all_evolve opn cfg w)" for idx r
    apply (rule ensures_spec [where P = "\<lambda>(ok, w'). if ok then all_evolve opn cfg w w' else conns w' = conns w"])
    subgoal
      apply (intro ensures_intros)
      subgoal by (rule ensures_mono [OF server_reverse_hello_spec]) (auto intro!: advance_evolves [OF ok])
      subgoal by (rule ensures_mono [OF client_hello_spec]) (auto intro!: advance_evolves [OF ok])
      done
    apply (intro ensures_intros)
     apply (simp; fail)
    subgoal for r ok1 w1
      using close_with_evolves [of cfg w1 env idx 0 _ False opn] ok evolve_source [of w1 w opn cfg]
      by (simp add: world_ok_def)
    done
  have socket: "ensures (SC_ServerTransition_TcpReverseInit_To_TcpInit env idx w \<bind> (\<lambda>(ok, w).
        if ok then Some w else close_with env idx 0 r False w)) (all_evolve opn cfg w)"
      if "isServerConnection (conns w idx)" for idx r
    using connection [of idx r] that by simp
  have socket': "ensures (SC_ClientTransition_TcpInit_To_TcpNegotiate env idx w \<bind> (\<lambda>(ok, w).
        if ok then Some w else close_with env idx 0 r False w)) (all_evolve opn cfg w)"
      if "\<not> isServerConnection (conns w idx)" for idx r
    using connection [of idx r] that by simp
  show ?thesis
    unfolding SOPC_SecureConnectionStateMgr_OnSocketEvent_def Let_def
    by (cases e) (auto simp: ensures_if ensures_Some ensures_None evolve_strip evolve_same [OF ok] created
        intro!: socket socket' close_evolves [OF ok])
qed

lemma on_connection_timeout_evolves:
  assumes ok: "world_ok cfg w"
  shows "ensures (on_connection_timeout env idx w) (all_evolve opn cfg w)"
proof -
  let ?w = "sc_update idx (\<lambda>c. c\<lparr>connectionTimeoutTimerId := 0\<rparr>) w"
  have stopped: "conn_step idx (maybe_closed (\<lambda>_. False)) w w1" if "conns w1 = conns ?w" for w1
    using that by (auto simp: conn_step_iff frame_simps maybe_closed_def timer_stopped_def)
  have evolve: "all_evolve opn cfg w w1" if "conns w1 = conns ?w" for w1
    by (rule evolve_step [OF ok stopped [OF that]])
      (use ok in \<open>auto simp: world_ok_def intro!: evolve_maybe_closed\<close>)
  have close: "ensures (close_with env idx err r h w1) (all_evolve opn cfg w)" if "conns w1 = conns ?w" for w1 err r h
    unfolding close_with_def
  proof (rule ensures_mono [OF CloseSecureConnection_spec])
    fix w2
    assume step: "conn_step idx (maybe_closed (\<lambda>c. False \<or> \<not> isServerConnection c \<and> \<not> sc_is_connected (sc_state c))) w1 w2"
    have "conn_step idx (maybe_closed (\<lambda>c. False \<or> \<not> isServerConnection c \<and> \<not> sc_is_connected (sc_state c))) w w2"
      by (rule conn_step_after_stop [where ?c1.0 = "(conns w idx)\<lparr>connectionTimeoutTimerId := 0\<rparr>", OF _ _ step])
        (simp_all add: that frame_simps timer_stopped_def)
    then show "all_evolve opn cfg w w2"
      by (rule evolve_step [OF ok]) (rule evolve_maybe_closed, use ok in \<open>auto simp: world_ok_def\<close>)
  qed
  show ?thesis
    unfolding on_connection_timeout_def Let_def
    by (intro ensures_intros close evolve evolve_same [OF ok refl]) (simp_all add: frame_simps)
qed

lemma on_request_timeout_evolves:
  assumes ok: "world_ok cfg w"
  shows "ensures (on_request_timeout env idx aux w) (all_evolve opn cfg w)"
  unfolding on_request_timeout_def Let_def
  apply (intro ensures_intros evolve_same [OF ok refl])
  apply (rule advance_evolves [OF ok, of idx "sc_state (conns w idx)"])
      apply (auto simp: advance_simps GetConnection_Some)
  done

lemma renew_timer_evolves:
  assumes ok: "world_ok cfg w"
  shows "ensures (SOPC_SecureConnectionStateMgr_OnTimerEvent env (TIMER_SC_CLIENT_OPN_RENEW idx) w) (all_evolve opn cfg w)"
proof -
  let ?w = "sc_update idx (\<lambda>c. c\<lparr>secuTokenRenewTimerId := 0\<rparr>) w"
  have evolve: "all_evolve opn cfg w ?w"
  proof (rule evolve_step [OF ok, where idx = idx and R = "\<lambda>c c'. c' = c\<lparr>secuTokenRenewTimerId := 0\<rparr>"])
    show "conn_step idx (\<lambda>c c'. c' = c\<lparr>secuTokenRenewTimerId := 0\<rparr>) w ?w" by (simp add: conn_step_iff frame_simps)
    show "evolves (opn idx) cfg (conns w idx) c'" if "c' = (conns w idx)\<lparr>secuTokenRenewTimerId := 0\<rparr>" for c'
      using ok that by (auto simp: evolves_def world_ok_def conn_ok_def holds_nothing_timers)
  qed
  have renew: "conn_step idx (advances st) w w'" if "conn_step idx (advances st) ?w w'" for st w'
    using that by (auto simp: advance_simps)
  show ?thesis
    unfolding SOPC_SecureConnectionStateMgr_OnTimerEvent_def Let_def
    apply simp
    apply (intro ensures_intros evolve_same [OF ok refl] evolve)
    apply (rule ensures_spec [OF client_renew_spec])
    apply (intro ensures_intros)
    subgoal by (rule advance_evolves [OF ok, of idx SECURE_CONNECTION_STATE_SC_CONNECTED_RENEW])
        (auto simp: frame_simps intro: renew)
    subgoal by (rule advance_close_evolves [OF ok, of idx SECURE_CONNECTION_STATE_SC_CONNECTED])
        (auto simp: frame_simps intro: renew)
    done
qed

lemma connection_timer_evolves:
  assumes ok: "world_ok cfg w"
  shows "ensures (SOPC_SecureConnectionStateMgr_OnTimerEvent env e w) (all_evolve opn cfg w)"
proof (cases e)
  case (TIMER_SC_SERVER_REVERSE_CONN_RETRY ep params)
  then show ?thesis
    by (auto simp: SOPC_SecureConnectionStateMgr_OnTimerEvent_def Let_def ensures_simps evolve_strip intro!: evolve_same [OF ok])
next
  case (TIMER_SC_CLIENT_OPN_RENEW idx)
  then show ?thesis using renew_timer_evolves [OF ok] by simp
qed (auto simp: SOPC_SecureConnectionStateMgr_OnTimerEvent_def ensures_None
       intro: on_connection_timeout_evolves [OF ok] on_request_timeout_evolves [OF ok])

section \<open>Events of the services\<close>

lemma close_with_spec:
  "ensures (close_with env idx err reason h w)
     (conn_step idx (maybe_closed (\<lambda>c. \<not> isServerConnection c \<and> \<not> sc_is_connected (sc_state c))) w)"
  unfolding close_with_def using CloseSecureConnection_spec [of env idx w False] by simp

lemma reevaluate_spec:
  "ensures (SOPC_Internal_SC_ReEvaluate env isServer isOwn idx w)
     (conn_step idx (\<lambda>c c'. c' = c \<or> maybe_closed (\<lambda>c. \<not> isServerConnection c \<and> \<not> sc_is_connected (sc_state c)) c c') w)"
proof -
  have same: "conn_step idx (\<lambda>c c'. c' = c \<or> R c c') w w" for R by (rule conn_step_same) simp_all
  have close: "ensures (close_with env idx err reason h w)
      (conn_step idx (\<lambda>c c'. c' = c \<or> maybe_closed (\<lambda>c. \<not> isServerConnection c \<and> \<not> sc_is_connected (sc_state c)) c c') w)"
    for err reason h
    by (rule ensures_mono [OF close_with_spec]) (erule conn_step_mono, simp)
  show ?thesis
    unfolding SOPC_Internal_SC_ReEvaluate_def SOPC_Internal_Sc_CheckOwnCertChange_def
      SOPC_Internal_Sc_RevalidatePeerCert_def Let_def
    by (intro ensures_intros ensures_any same close)
qed

lemma apply_to_scs_spec:
  assumes "\<And>i w. ensures (f i w) (conn_step i R w)" "\<And>c. R c c" "distinct is"
  shows "ensures (apply_to_scs f is w) (\<lambda>w'. \<forall>i. if i \<in> set is then R (conns w i) (conns w' i) else conns w' i = conns w i)"
  using assms(3)
proof (induction "is" arbitrary: w)
  case Nil
  then show ?case by (simp add: ensures_Some)
next
  case (Cons j js)
  show ?case
    unfolding apply_to_scs.simps
    apply (intro ensures_intros)
    apply (rule ensures_spec [OF assms(1)])
    apply (rule ensures_mono [OF Cons.IH])
    using Cons.prems by (auto simp: conn_step_iff split: if_splits) metis+
qed

lemma reevaluate_all_evolves:
  assumes ok: "world_ok cfg w"
  shows "ensures (SC_ApplyToAllSCs (SOPC_Internal_SC_ReEvaluate env isServer isOwn) w) (all_evolve opn cfg w)"
proof -
  have d: "distinct (map (of_nat :: nat \<Rightarrow> u32) [1..<26])"
    by (simp add: upt_rec)
  have "ensures (SC_ApplyToAllSCs (SOPC_Internal_SC_ReEvaluate env isServer isOwn) w) (\<lambda>w'. \<forall>i.
      conns w' i = conns w i \<or>
      maybe_closed (\<lambda>c. \<not> isServerConnection c \<and> \<not> sc_is_connected (sc_state c)) (conns w i) (conns w' i))"
    unfolding SC_ApplyToAllSCs_def
    by (rule ensures_mono [OF apply_to_scs_spec [OF reevaluate_spec]]) (use d in \<open>auto split: if_splits\<close>)
  then show ?thesis
    by (rule ensures_mono)
      (use ok in \<open>simp add: all_evolve_def world_ok_def; metis evolves_refl evolve_maybe_closed\<close>)
qed

lemma on_sc_connect_evolves:
  assumes ok: "world_ok (sc_cfg env) w"
  shows "ensures (on_sc_connect env scCfg reverse w) (all_evolve opn (sc_cfg env) w)"
proof -
  let ?st = "SECURE_CONNECTION_STATE_TCP_INIT"
  have closed: "ensures (SC_CloseSecureConnection env (SC_GetConnection i w1) i True True err reason False w1)
      (all_evolve opn (sc_cfg env) w)"
    if "conn_step i (created (sc_cfg env) ?st) w w1" for i w1 err reason
  proof (rule ensures_mono [OF CloseSecureConnection_spec])
    fix w2
    assume step: "conn_step i (maybe_closed (\<lambda>c. True \<or> \<not> isServerConnection c \<and> \<not> sc_is_connected (sc_state c))) w1 w2"
    have "sc_state (conns w1 i) = ?st" using that by (auto simp: conn_step_iff created_def)
    with step have "conns w2 = (conns w1)(i := closed_of (conns w1 i))"
      by (auto simp: conn_step_def maybe_closed_def)
    then show "all_evolve opn (sc_cfg env) w w2" using created_closed_evolves [OF ok that] by simp
  qed
  have config: "conn_step i (created (sc_cfg env) ?st) w (sc_update i (\<lambda>c. c\<lparr>secureChannelConfigIdx := k\<rparr>) w1)"
    if "conn_step i (created (sc_cfg env) ?st) w w1" for i w1 k
    using that by (rule created_kept) (auto simp: conn_step_iff frame_simps kept_def)
  have rv: "all_evolve opn (sc_cfg env) w (sc_update i (\<lambda>c. c\<lparr>isReverseConnection := True, clientReverseEpConfigIdx := ep,
      sc_state := SECURE_CONNECTION_STATE_TCP_REVERSE_INIT\<rparr>) w1)"
    if "conn_step i (created (sc_cfg env) ?st) w w1" for i w1 ep
    by (rule created_evolves [OF ok, of i SECURE_CONNECTION_STATE_TCP_REVERSE_INIT])
      (use that in \<open>auto simp: conn_step_iff frame_simps created_def\<close>)
  have keys: "ensures (sc_init_key_and_certs env i (sc_update i (\<lambda>c. c\<lparr>secureChannelConfigIdx := k\<rparr>) w1))
      (\<lambda>(ok, w2). conn_step i (created (sc_cfg env) ?st) w w2)"
    if "conn_step i (created (sc_cfg env) ?st) w w1" for i w1 k
    by (rule ensures_mono [OF init_key_and_certs_spec]) (auto intro: created_kept [OF config [OF that]])
  have timer: "ensures (SC_StartConnectionEstablishTimer env i w1)
      (\<lambda>(status, w2). conn_step i (created (sc_cfg env) ?st) w w2)"
    if "conn_step i (created (sc_cfg env) ?st) w w1" for i w1
    by (rule ensures_mono [OF establish_timer_kept]) (auto intro: created_kept [OF that])
  show ?thesis
    unfolding on_sc_connect_def
    apply (intro ensures_intros)
     apply (simp add: SC_CloseSecureConnection_def ensures_simps; fail)
    apply (rule ensures_spec [OF InitNewConnection_evolves [OF ok, where opn = opn]])
    apply (intro ensures_intros)
     apply (simp add: evolve_strip; fail)
    apply (rule ensures_spec [OF keys])
     apply (simp; fail)
    apply (intro ensures_intros closed)
     apply (simp; fail)
    apply (rule ensures_spec [OF timer])
     apply (simp; fail)
    apply (intro ensures_intros ensures_any closed)
      apply (simp; fail)
     apply (simp add: evolve_strip created_evolves [OF ok]; fail)
    apply (simp add: evolve_strip rv; fail)
    done
qed

lemma on_sc_disconnect_evolves:
  assumes ok: "world_ok cfg w"
  shows "ensures (on_sc_disconnect env idx err w) (all_evolve opn cfg w)"
proof -
  have "ensures (SC_ClientTransition_Connected_To_Disconnected env idx w) (all_evolve opn cfg w)"
    unfolding SC_ClientTransition_Connected_To_Disconnected_def
    apply (intro ensures_intros)
    apply (rule ensures_mono [OF SendCloseRequestAndClose_spec])
     apply (simp; fail)
    by (erule evolve_step [OF ok], rule evolve_maybe_closed, use ok in \<open>auto simp: world_ok_def\<close>)
  then show ?thesis
    unfolding on_sc_disconnect_def
    by (intro ensures_intros close_with_evolves [OF ok] evolve_same [OF ok refl])
qed

lemma on_disconnected_ack_evolves:
  assumes ok: "world_ok cfg w"
  shows "all_evolve opn cfg w (on_disconnected_ack idx i w)"
proof -
  let ?w = "if i \<noteq> 0 then snd (SOPC_ToolkitServer_RemoveSecureChannelConfig i w) else w"
  have same: "conns ?w = conns w"
    by (simp add: SOPC_ToolkitServer_RemoveSecureChannelConfig_def Let_def)
  show ?thesis
  proof (cases "SC_GetConnection idx ?w")
    case None
    then show ?thesis using same ok by (simp add: on_disconnected_ack_def Let_def evolve_same)
  next
    case (Some c)
    then have c: "c = conns w idx" using same by (auto simp: GetConnection_Some)
    let ?R = "\<lambda>c c'. if sc_state c = SECURE_CONNECTION_STATE_SC_CLOSING
      then c' = c\<lparr>sc_state := SECURE_CONNECTION_STATE_SC_CLOSED\<rparr> else c' = c"
    have "conn_step idx ?R w (on_disconnected_ack idx i w)"
      using Some c same by (auto simp: on_disconnected_ack_def Let_def conn_step_iff frame_simps)
    then show ?thesis
      by (rule evolve_step [OF ok])
        (use ok in \<open>auto simp: world_ok_def evolves_def conn_ok_def holds_nothing_timers split: if_splits\<close>)
  qed
qed

lemma connection_input_evolves:
  assumes ok: "world_ok (sc_cfg env) w"
  shows "ensures (SOPC_SecureConnectionStateMgr_Dispatcher env e w) (all_evolve opn (sc_cfg env) w)"
  unfolding SOPC_SecureConnectionStateMgr_Dispatcher_def
  by (cases e)
    (auto simp: ensures_simps on_service_snd_msg_def evolve_strip evolve_same [OF ok] split: option.splits
      intro!: on_sc_connect_evolves [OF ok] on_sc_disconnect_evolves [OF ok] on_disconnected_ack_evolves [OF ok]
        reevaluate_all_evolves [OF ok] close_with_evolves [OF ok])

end
