(* ===== verification/SC_Chunks_Frame.thy ===== *)
theory SC_Chunks_Frame
  imports SC_Frame
begin

text \<open>
  The chunk manager does not change the state of a connection, its role, its limits or its current token,
  whatever bytes it receives and whatever it sends, if the check of an asymmetric security header does not.
\<close>

definition chunk_core ::
  "SOPC_SecureConnection \<Rightarrow>
   SOPC_SecureConnection_State \<times> bool \<times> SOPC_SecureConnection_TcpProperties \<times> SOPC_SecureConnection_SecurityToken" where
  "chunk_core c = (sc_state c, isServerConnection c, tcpMsgProperties c, currentSecurityToken c)"

definition asym_header_keeps :: "sc_env \<Rightarrow> bool" where
  "asym_header_keeps env \<longleftrightarrow>
     (\<forall>c. ensures (checkAsymHeader env c) (\<lambda>(ok, active, err, c'). chunk_core c' = chunk_core c))"

lemma core_setters [simp]:
  "chunk_core (set_ctx ctx c) = chunk_core c" "chunk_core (set_chunk b c) = chunk_core c"
  "chunk_core (set_lastSNreceived n c) = chunk_core c" "chunk_core (set_sentRequestIds rs c) = chunk_core c"
  "chunk_core (set_lastSNsent n c) = chunk_core c"
  "chunk_core (c\<lparr>serverNewSecuTokenActive := a\<rparr>) = chunk_core c" "chunk_core (c\<lparr>clientSecureChannelId := i\<rparr>) = chunk_core c"
  "chunk_core (c\<lparr>clientNextReqId := i\<rparr>) = chunk_core c"
  "chunk_core (c\<lparr>asymmSecuMaxBodySize := x, symmSecuMaxBodySize := y, hasExtraPaddingSize := e\<rparr>) = chunk_core c"
  by (simp_all add: chunk_core_def set_ctx_def set_chunk_def set_lastSNreceived_def set_sentRequestIds_def set_lastSNsent_def)

lemma ensures_result_then:
  assumes "ensures r (\<lambda>(ok, err, s). P s)" "\<And>err s. P s \<Longrightarrow> ensures (f err s) (\<lambda>(ok, err, s). P s)"
  shows "ensures (result_then r f) (\<lambda>(ok, err, s). P s)"
  using assms by (cases r) (auto simp: ensures_def result_then_def split: if_splits)

section \<open>Reception\<close>

lemma sym_header_core:
  "ensures (SC_Chunks_CheckSymmetricSecurityHeader env c err) (\<lambda>(ok, prev, err', c'). chunk_core c' = chunk_core c)"
  unfolding SC_Chunks_CheckSymmetricSecurityHeader_def Let_def
  by (intro ensures_intros ensures_any) auto

lemma sequence_number_core:
  "ensures (SC_Chunks_CheckSequenceHeaderSN env isOPN err c) (\<lambda>(ok, err', c'). chunk_core c' = chunk_core c)"
  unfolding SC_Chunks_CheckSequenceHeaderSN_def SC_Chunks_CheckSeqNumReceived_def Let_def
  by (intro ensures_intros ensures_any) auto

lemma expected_request_core:
  "check_expected_request env f t r err c = (ok, r', ex, err', c') \<Longrightarrow> chunk_core c' = chunk_core c"
  by (auto simp: check_expected_request_def split: prod.splits option.splits if_splits)

lemma request_id_core:
  "ensures (SC_Chunks_CheckSequenceHeaderRequestId env f t r err c) (\<lambda>(ok, r', ex, err', c'). chunk_core c' = chunk_core c)"
  unfolding SC_Chunks_CheckSequenceHeaderRequestId_def Let_def
  by (intro ensures_intros ensures_any) (auto dest!: expected_request_core split: if_splits)

lemma decrypt_core: "ensures (SC_Chunks_DecryptMsg env c symmetric prev) (\<lambda>(ok, c'). chunk_core c' = chunk_core c)"
  unfolding SC_Chunks_DecryptMsg_def Let_def by (intro ensures_intros ensures_any) auto

lemma padding_core: "ensures (SOPC_Remove_Padding c) (\<lambda>(ok, c'). chunk_core c' = chunk_core c)"
  unfolding SOPC_Remove_Padding_def Let_def by (intro ensures_intros ensures_any) auto

lemma multi_chunks_core:
  "ensures (SC_Chunks_TreatMsgMultiChunks env err c) (\<lambda>(ok, err', c'). chunk_core c' = chunk_core c)"
  unfolding SC_Chunks_TreatMsgMultiChunks_def Let_def by (intro ensures_intros ensures_any) auto

lemma channel_id_core: "ensures (check_secureChannelId env isOPN err c) (\<lambda>(ok, err', c'). chunk_core c' = chunk_core c)"
  unfolding check_secureChannelId_def Let_def by (intro ensures_intros ensures_any) auto

lemma security_header_core:
  assumes "asym_header_keeps env"
  shows "ensures (check_security_header env isOPN err c) (\<lambda>(ok, err', s). chunk_core (snd s) = chunk_core c)"
  unfolding check_security_header_def
  by (rule ensures_intros ensures_spec [OF assms [unfolded asym_header_keeps_def, rule_format]]
      ensures_spec [OF sym_header_core] ensures_any | (auto; fail))+

lemma decrypt_payload_core:
  "ensures (decrypt_payload env isOPN err s) (\<lambda>(ok, err', s'). chunk_core (snd s') = chunk_core (snd s))"
  unfolding decrypt_payload_def by (rule ensures_intros ensures_spec [OF decrypt_core] | (auto; fail))+

lemma verify_payload_core:
  "ensures (verify_payload env isOPN err s) (\<lambda>(ok, err', s'). chunk_core (snd s') = chunk_core (snd s))"
  unfolding verify_payload_def by (intro ensures_intros ensures_any) auto

lemma sequence_header_core:
  "ensures (check_sequence_header env isOPN rid err s)
     (\<lambda>(ok, err', s'). chunk_core (snd (snd (snd s'))) = chunk_core (snd s))"
  unfolding check_sequence_header_def
  by (rule ensures_intros ensures_spec [OF sequence_number_core] ensures_spec [OF request_id_core] | (auto; fail))+

lemma remove_padding_core:
  "ensures (remove_padding_payload err s) (\<lambda>(ok, err', s'). chunk_core (snd (snd (snd s'))) = chunk_core (snd (snd (snd s))))"
  unfolding remove_padding_payload_def by (rule ensures_intros ensures_spec [OF padding_core] | (auto; fail))+

lemma complete_payload_core:
  "ensures (complete_payload env err s) (\<lambda>(ok, err', s'). chunk_core (snd (snd (snd s'))) = chunk_core (snd (snd (snd s))))"
  unfolding complete_payload_def by (rule ensures_intros ensures_spec [OF multi_chunks_core] | (auto; fail))+

lemma secure_payload_core:
  assumes "asym_header_keeps env"
  shows "ensures (secure_payload env rid err c) (\<lambda>(ok, err', s'). chunk_core (snd (snd (snd s'))) = chunk_core c)"
proof -
  have checks: "ensures (result_then (result_then (check_security_header env isOPN err c1) (decrypt_payload env isOPN))
      (verify_payload env isOPN)) (\<lambda>(ok, err, s). chunk_core (snd s) = chunk_core c)"
    if "chunk_core c1 = chunk_core c" for isOPN err c1
    by (intro ensures_result_then)
      (use that in \<open>auto intro!: ensures_mono [OF security_header_core [OF assms]]
        ensures_mono [OF decrypt_payload_core] ensures_mono [OF verify_payload_core]\<close>)
  have seq: "ensures (result_then (check_sequence_header env isOPN rid err s) remove_padding_payload)
      (\<lambda>(ok, err', s'). chunk_core (snd (snd (snd s'))) = chunk_core c)"
    if "chunk_core (snd s) = chunk_core c" for isOPN err s
    by (intro ensures_result_then)
      (use that in \<open>auto intro!: ensures_mono [OF sequence_header_core] ensures_mono [OF remove_padding_core]\<close>)
  show ?thesis
    unfolding secure_payload_def Let_def
    apply (rule ensures_spec [OF channel_id_core])
    apply (intro ensures_intros)
     apply (simp; fail)
    apply (rule ensures_spec [OF checks])
     apply (simp; fail)
    apply (intro ensures_intros)
     apply (auto; fail)
    apply (rule seq)
    apply auto
    done
qed

lemma payload_core:
  assumes "asym_header_keeps env"
  shows "ensures (SC_Chunks_TreatTcpPayload env rid err c) (\<lambda>(ok, err', rid', ex, fl, c'). chunk_core c' = chunk_core c)"
proof -
  have "ensures (SC_Chunks_TreatTcpPayload env rid err c) (\<lambda>(ok, err', s'). chunk_core (snd (snd (snd s'))) = chunk_core c)"
    unfolding SC_Chunks_TreatTcpPayload_def
    apply (rule ensures_any)
    apply (intro ensures_intros)
     apply (simp; fail)
    apply (rule ensures_result_then)
     apply (intro ensures_intros secure_payload_core [OF assms])
     apply (simp; fail)
    apply (rule ensures_mono [OF complete_payload_core])
    apply auto
    done
  then show ?thesis by (rule ensures_mono) auto
qed

lemma deliver_core:
  "ensures (deliver_message env i rid ex err c evs) (\<lambda>(ok, err', c', evs'). chunk_core c' = chunk_core c)"
  unfolding deliver_message_def Let_def by (intro ensures_intros ensures_any) auto

lemma receive_loop_core:
  assumes keeps: "asym_header_keeps env"
  shows "ensures (receive_loop env i rid err c evs rb) (\<lambda>(ok, err', c', evs', rb'). chunk_core c' = chunk_core c)"
proof -
  let ?P = "\<lambda>env i rid err c evs rb r. asym_header_keeps env \<longrightarrow> chunk_core (fst (snd (snd r))) = chunk_core c"
  have "?P env i rid err c evs rb r" if run: "receive_loop env i rid err c evs rb = Some r" for r
  proof (rule receive_loop.raw_induct [where P = ?P, OF _ run], goal_cases)
    case (1 ff env i rid err c evs rb r)
    show ?case
    proof
      assume keeps: "asym_header_keeps env"
      have rec: "ensures (ff env i rid err c1 evs rb) (\<lambda>r. chunk_core (fst (snd (snd r))) = chunk_core c)"
        if "chunk_core c1 = chunk_core c" for rid err c1 evs rb
        using 1(1) [of env i rid err c1 evs rb] keeps that by (auto simp: ensures_def)
      have "ensures (if buf_length rb - position rb = 0 then Some (True, err, c, evs, rb)
        else case (case currentChunkInputBuffer (chunksCtx c) of
                     None \<Rightarrow> SOPC_Buffer_Create (sc_enc env) (receiveBufferSize (tcpMsgProperties c))
                   | Some b \<Rightarrow> Some b) of
          None \<Rightarrow> Some (False, OpcUa_BadOutOfMemory, c, evs, rb)
        | Some b \<Rightarrow>
            Option.bind (SC_Chunks_DecodeReceivedBuffer env ((chunksCtx c)\<lparr>currentChunkInputBuffer := Some b\<rparr>) (Some rb))
            (\<lambda>(complete, err, ctx, rb). Option.bind rb (\<lambda>rb.
               if \<not> complete then Some (err = SOPC_GoodGenericStatus, err, set_ctx ctx c, evs, rb)
               else
                 (let (ok, err) = SC_Chunks_CheckMultiChunkContext ctx (tcpMsgProperties c) err
                  in if \<not> ok then Some (False, err, set_ctx ctx c, evs, rb)
                     else Option.bind (SC_Chunks_TreatTcpPayload env rid err (set_ctx ctx c))
                       (\<lambda>(ok, err, rid, expired, fl, c).
                          if \<not> ok then Some (False, err, c, evs, rb)
                          else Option.bind (deliver_message env i rid expired err c evs)
                            (\<lambda>(ok, err, c, evs).
                               if ok then ff env i rid err c evs rb
                               else Some (False, err, c, evs, rb)))))))
        (\<lambda>r. chunk_core (fst (snd (snd r))) = chunk_core c)"
        unfolding Let_def
        by (rule ensures_intros ensures_spec [OF payload_core [OF keeps]] ensures_spec [OF deliver_core] ensures_any rec |
            (auto; fail))+
      then show "chunk_core (fst (snd (snd r))) = chunk_core c" using 1(2) by (rule ensuresD)
    qed
  qed
  then show ?thesis using keeps by (auto simp: ensures_def)
qed

lemma chunks_receive_core:
  assumes "asym_header_keeps env"
  shows "ensures (SOPC_ChunksMgr_OnSocketEvent env i c b q) (\<lambda>(c', q'). chunk_core c' = chunk_core c \<and>
    (sc_is_closed (sc_state c) \<longrightarrow> c' = c))"
proof -
  have "ensures (SC_Chunks_TreatReceivedBuffer env i c rb q) (\<lambda>(c', q'). chunk_core c' = chunk_core c)" for rb
    unfolding SC_Chunks_TreatReceivedBuffer_def
    apply (intro ensures_intros)
    apply (rule ensures_spec [where P = "\<lambda>(ok, err', c', evs', rb'). chunk_core c' = chunk_core c"])
     apply (intro ensures_intros receive_loop_core [OF assms])
     apply (simp; fail)
    apply (intro ensures_intros)
     apply auto
    done
  then show ?thesis
    unfolding SOPC_ChunksMgr_OnSocketEvent_def Let_def
    by (intro ensures_intros ensures_any) (auto simp: sc_is_closed_def intro: ensures_mono)
qed

section \<open>Sending\<close>

lemma encode_sequence_core:
  "ensures (SC_Chunks_EncodeSequenceNumber env p err c b) (\<lambda>(ok, err', c', b'). chunk_core c' = chunk_core c)"
  unfolding SC_Chunks_EncodeSequenceNumber_def Let_def by (intro ensures_intros ensures_any) auto

lemma encode_request_core:
  "ensures (SC_Chunks_EncodeRequestId env f r err c b) (\<lambda>(ok, err', r', c', b'). chunk_core c' = chunk_core c)"
  unfolding SC_Chunks_EncodeRequestId_def Let_def by (intro ensures_intros ensures_any) auto

lemma request_context_core:
  "ensures (SC_Chunks_CreateClientSentRequestContext env i r t q err c) (\<lambda>(ok, err', c'). chunk_core c' = chunk_core c)"
  unfolding SC_Chunks_CreateClientSentRequestContext_def by (intro ensures_intros) auto

lemma protect_core:
  "ensures (protect_chunk env s p te ts n m f r err c b) (\<lambda>(ok, err', q, c', b', out). chunk_core c' = chunk_core c)"
  unfolding protect_chunk_def Let_def
  by (rule ensures_intros ensures_spec [OF encode_sequence_core] ensures_spec [OF encode_request_core] ensures_any |
      (auto; fail))+

lemma opn_size_core: "ensures (check_opn_body_size env m p n err c) (\<lambda>(ok, err', c'). chunk_core c' = chunk_core c)"
  unfolding check_opn_body_size_def
  apply (rule ensures_spec [where P = "\<lambda>c'. chunk_core c' = chunk_core c"])
  subgoal by (intro ensures_intros ensures_any) simp_all
  by (intro ensures_intros) auto

lemma send_opn_core:
  "ensures (SC_Chunks_TreatSendBufferOPN env i r err c b) (\<lambda>(ok, err', c', out). chunk_core c' = chunk_core c)"
  unfolding SC_Chunks_TreatSendBufferOPN_def Let_def
  by (rule ensures_intros ensures_spec [OF opn_size_core] ensures_spec [OF protect_core]
      ensures_spec [OF request_context_core] ensures_any | (auto; fail))+

lemma send_msg_core:
  "ensures (SC_Chunks_TreatSendBufferMSGCLO env i r t f err c b) (\<lambda>(ok, err', c', b', out). chunk_core c' = chunk_core c)"
  unfolding SC_Chunks_TreatSendBufferMSGCLO_def Let_def
  by (rule ensures_intros ensures_spec [OF protect_core] ensures_spec [OF request_context_core] ensures_any | (auto; fail))+

lemma send_chunks_core:
  "ensures (send_chunks env i r t nb n k err reason c m ch sent) (\<lambda>(ok, err', reason', c', m', sent'). chunk_core c' = chunk_core c)"
proof (induction n arbitrary: k err reason c m ch sent)
  case 0
  then show ?case by (simp add: ensures_Some)
next
  case (Suc n)
  show ?case
    unfolding send_chunks.simps
    by (rule ensures_intros ensures_spec [OF send_msg_core] ensures_any ensures_mono [OF Suc.IH] | (auto; fail))+
qed

lemma send_abort_core:
  "ensures (send_abort env i r t err reason c m sent) (\<lambda>(ok, err', c', sent'). chunk_core c' = chunk_core c)"
  unfolding send_abort_def by (rule ensures_intros ensures_spec [OF send_msg_core] ensures_any | (auto; fail))+

lemma send_symmetric_core:
  "ensures (send_symmetric_message env i r t err c b) (\<lambda>(ok, ab, err', c', sent). chunk_core c' = chunk_core c)"
  unfolding send_symmetric_message_def Let_def
  apply (intro ensures_intros)
  apply (rule ensures_any, rule ensures_any)
  apply (intro ensures_intros)
  apply (rule ensures_spec [where P = "\<lambda>(ok, err', reason', c', m', sent'). chunk_core c' = chunk_core c"])
  subgoal by (rule ensures_intros send_chunks_core ensures_any | (auto; fail))+
  by (rule ensures_intros ensures_spec [OF send_abort_core] | (auto; fail))+

lemma chunks_send_core:
  "ensures (SOPC_ChunksMgr_Dispatcher env e i b aux c) (\<lambda>(c', sent, fs). chunk_core c' = chunk_core c \<and>
     (sc_is_closed (sc_state c) \<longrightarrow> c' = c))"
proof -
  have "ensures (SC_Chunks_TreatSendMessageBuffer env i r t tcp opn err c m) (\<lambda>(ok, ab, err', c', sent). chunk_core c' = chunk_core c)"
    for r t tcp opn err m
    unfolding SC_Chunks_TreatSendMessageBuffer_def
    by (rule ensures_intros ensures_spec [OF send_opn_core] ensures_any send_symmetric_core | (auto; fail))+
  note send = this
  show ?thesis
    unfolding SOPC_ChunksMgr_Dispatcher_def
    apply (intro ensures_intros)
     apply (simp; fail)
    apply (rule ensures_spec [where P = "\<lambda>(ok, ab, err', c', sent). chunk_core c' = chunk_core c"])
    subgoal by (intro ensures_intros send) auto
    by (auto simp: ensures_simps sc_is_closed_def)
qed

end
