(* ===== verification/SC_Layer.thy ===== *)
theory SC_Layer
  imports SC_Handlers SC_Chunks_Frame
begin

text \<open>
  The handlers of the listener state manager and the steps of the chunk manager, and with them every step of
  the secure channels layer.
\<close>

section \<open>Listeners\<close>

lemma close_ep_conns: "ensures (SOPC_SecureListenerStateMgr_CloseEpListener env c ep sf w) (\<lambda>(ok, w'). conns w' = conns w)"
  unfolding SOPC_SecureListenerStateMgr_CloseEpListener_def cancel_retry_timers_def Let_def
  by (cases "sl_state (secureListenersArray w ep)") (auto simp: ensures_simps frame_simps)

lemma close_reverse_ep_conns [frame_simps]:
  "conns (snd (SOPC_SecureListenerStateMgr_CloseReverseEpListener env ep sf w)) = conns w"
  by (simp add: SOPC_SecureListenerStateMgr_CloseReverseEpListener_def Let_def frame_simps)

lemma add_to_listener_conns: "ensures (add_to_listener env ep idx acc r f w) (\<lambda>w'. conns w' = conns w)"
  unfolding add_to_listener_def by (intro ensures_intros ensures_any) (simp_all add: frame_simps)

lemma first_compatible_ok: "first_compatible f is = Some (Some i) \<Longrightarrow> f i = Some True"
  by (induction "is") (auto simp: bind_eq_Some_conv split: if_splits)

lemma waiting_state:
  assumes "SOPC_SecureListenerStateMgr_GetFirstConnectionCompatible l url uri w = Some (Some i)"
  shows "sc_state (conns w i) = SECURE_CONNECTION_STATE_TCP_REVERSE_INIT" "i > 0" "i \<le> 26"
  using assms first_compatible_ok
  by (auto simp: SOPC_SecureListenerStateMgr_GetFirstConnectionCompatible_def
      SOPC_SecureListenerStateMgr_IsSecureConnectionCompatible_def GetConnection_Some
      split: if_splits option.splits dest!: first_compatible_ok)

text \<open>
  The connection that waited moves to the slot of the socket, and its own slot is closed.
\<close>

lemma switch_evolves:
  assumes ok: "world_ok cfg w"
    and token: "sc_state (conns w idx) = SECURE_CONNECTION_STATE_TCP_REVERSE_TOKEN"
    and w1: "conns w1 = (conns w)(idx := (conns w idx)\<lparr>connectionTimeoutTimerId := 0\<rparr>)"
    and switch: "SOPC_SecureListenerStateMgr_SwitchWaitingConnectionWithToken wt idx w1 = Some w2"
    and close: "SC_CloseConnection env wt True w2 = Some (cl, w3)"
  shows "all_evolve opn cfg w w3"
proof -
  have wt: "wt \<noteq> idx" "sc_state (conns w wt) = SECURE_CONNECTION_STATE_TCP_REVERSE_INIT" "wt > 0" "wt \<le> 26"
    and w2: "conns w2 = (conns w1)(wt := conns w1 idx, idx := (conns w1 wt)\<lparr>socketIndex := socketIndex (conns w1 idx)\<rparr>)"
    using switch token
    by (auto simp: SOPC_SecureListenerStateMgr_SwitchWaitingConnectionWithToken_def bind_eq_Some_conv GetConnection_Some
        w1 frame_simps split: if_splits)
  from close have "conns w3 = (conns w2)(wt := closed_of (conns w2 wt))"
    using ensuresD [OF CloseConnection_spec close] wt w2 w1 token by (auto split: if_splits)
  then have w3: "conns w3 wt = sc_zero\<lparr>sc_state := SECURE_CONNECTION_STATE_SC_CLOSED\<rparr>"
      "conns w3 idx = (conns w wt)\<lparr>socketIndex := socketIndex (conns w idx)\<rparr>"
      "i \<noteq> wt \<Longrightarrow> i \<noteq> idx \<Longrightarrow> conns w3 i = conns w i" for i
    using wt w1 w2 token by (auto simp: closed_of_def)
  show ?thesis
    unfolding all_evolve_def
  proof
    fix i
    have "conn_ok cfg (conns w i)" "conn_ok cfg (conns w wt)" using ok by (simp_all add: world_ok_def)
    then show "evolves (opn i) cfg (conns w i) (conns w3 i)"
      using w3 wt token by (cases "i = wt"; cases "i = idx") (auto simp: evolves_def conn_ok_def)
  qed
qed

lemma on_rhe_decoded_evolves:
  assumes ok: "world_ok cfg w"
  shows "ensures (on_rhe_decoded env idx uri url w) (all_evolve opn cfg w)"
proof -
  have stop: "all_evolve opn cfg w w1" if "conns w1 = conns (stop_connection_timer env idx w)" for w1
  proof -
    have "conn_step idx timer_stopped w w1" using that by (simp add: conn_step_iff frame_simps timer_stopped_def)
    then show ?thesis
      by (rule evolve_step [OF ok])
        (use ok in \<open>auto simp: world_ok_def maybe_closed_def intro!: evolve_maybe_closed [where P = "\<lambda>_. False"]\<close>)
  qed
  show ?thesis
    unfolding on_rhe_decoded_def Let_def
    apply (intro ensures_intros evolve_same [OF ok refl])
     apply (rule stop, simp)
    apply (rule ensures_any)
    apply (intro ensures_intros)
     apply (simp add: evolve_strip, rule stop, simp)
    apply (rule ensures_known)
    apply (rule ensures_known)
    apply (intro ensures_intros)
    apply (simp only: evolve_strip)
    apply (rule switch_evolves [OF ok, where idx = idx])
       apply (auto simp: GetConnection_Some frame_simps)
    done
qed

lemma listener_internal_evolves:
  assumes ok: "world_ok cfg w"
  shows "ensures (SOPC_SecureListenerStateMgr_OnInternalEvent env e w) (all_evolve opn cfg w)"
proof -
  have add: "ensures (add_to_listener env ep idx acc r f w) (all_evolve opn cfg w)" for ep idx acc r f
    by (rule ensures_mono [OF add_to_listener_conns]) (rule evolve_same [OF ok])
  show ?thesis
    unfolding SOPC_SecureListenerStateMgr_OnInternalEvent_def Let_def
    by (cases e) (auto simp: ensures_simps evolve_strip evolve_same [OF ok] add intro: on_rhe_decoded_evolves [OF ok])
qed

lemma new_token_connection_spec:
  assumes ok: "world_ok (sc_cfg env) w"
  shows "ensures (new_token_connection env ep sock w) (\<lambda>(res, i, w').
    if i = 0 then \<not> res \<and> all_evolve opn (sc_cfg env) w w'
    else \<exists>st. conn_step i (created (sc_cfg env) st) w w' \<and> \<not> sc_is_connected st \<and> 
      (res \<longrightarrow> st = SECURE_CONNECTION_STATE_TCP_REVERSE_TOKEN))"
proof -
  have token: "conn_step i (created (sc_cfg env) SECURE_CONNECTION_STATE_TCP_REVERSE_TOKEN) w
      (sc_update i (\<lambda>c. c\<lparr>isReverseConnection := True, clientReverseEpConfigIdx := ep, socketIndex := sock,
        sc_state := SECURE_CONNECTION_STATE_TCP_REVERSE_TOKEN\<rparr>) w1)"
    if "conn_step i (created (sc_cfg env) SECURE_CONNECTION_STATE_TCP_INIT) w w1" for i w1
    using that by (auto simp: conn_step_iff frame_simps created_def)
  have timer: "ensures (SOPC_SecureListenerStateMgr_SC_Token_ReverseHelloTimer env i ms w1) (\<lambda>(status, w').
      conn_step i (created (sc_cfg env) SECURE_CONNECTION_STATE_TCP_REVERSE_TOKEN) w w')"
    if "conn_step i (created (sc_cfg env) SECURE_CONNECTION_STATE_TCP_REVERSE_TOKEN) w w1" for i w1 ms
    unfolding SOPC_SecureListenerStateMgr_SC_Token_ReverseHelloTimer_def Let_def
    by (intro ensures_intros)
      (use that in \<open>auto dest!: frame_dests simp: frame_simps conn_step_iff created_def\<close>)
  have listener: "conn_step i R w (listener_update ep f w1) = conn_step i R w w1" for i R f w1
    by (simp add: conn_step_iff frame_simps)
  show ?thesis
    unfolding new_token_connection_def Let_def
    apply (rule ensures_spec [OF InitNewConnection_evolves [OF ok, where opn = opn]])
    apply (intro ensures_intros)
     apply (simp; fail)
    apply (rule ensures_any)
    apply (intro ensures_intros)
     apply (auto intro!: exI [of _ SECURE_CONNECTION_STATE_TCP_INIT]; fail) [1]
    apply (rule ensures_any)
    apply (rule ensures_spec [OF timer [OF token]])
     apply (simp add: listener; fail)
    apply (auto simp: ensures_simps)
    done
qed

lemma on_reverse_socket_evolves:
  assumes ok: "world_ok (sc_cfg env) w"
  shows "ensures (on_reverse_socket env ep sock w) (all_evolve opn (sc_cfg env) w)"
  unfolding on_reverse_socket_def
  apply (rule ensures_any)
  apply (rule ensures_spec [where P = "\<lambda>(res, i, w').
    if i = 0 then \<not> res \<and> all_evolve opn (sc_cfg env) w w'
    else \<exists>st. conn_step i (created (sc_cfg env) st) w w' \<and> \<not> sc_is_connected st \<and>
      (res \<longrightarrow> st = SECURE_CONNECTION_STATE_TCP_REVERSE_TOKEN)"])
  subgoal by (intro ensures_intros new_token_connection_spec [OF ok]) (simp add: evolve_same [OF ok])
  apply (intro ensures_intros)
    apply (auto simp: evolve_strip intro!: created_evolves [OF ok] split: if_splits) [1]
   apply (rule ensures_spec [OF CloseConnection_spec])
   apply (intro ensures_intros)
   apply (auto intro: created_closed_evolves [OF ok]) [1]
  apply (auto simp: evolve_strip split: if_splits)
  done

lemma listener_socket_evolves:
  assumes ok: "world_ok (sc_cfg env) w"
  shows "ensures (SOPC_SecureListenerStateMgr_OnSocketEvent env e w) (all_evolve opn (sc_cfg env) w)"
proof -
  have close: "ensures (SOPC_SecureListenerStateMgr_CloseEpListener env c ep sf w)
      (\<lambda>x. all_evolve opn (sc_cfg env) w (snd x))" for c ep sf
    by (rule ensures_mono [OF close_ep_conns]) (auto intro: evolve_same [OF ok])
  show ?thesis
    unfolding SOPC_SecureListenerStateMgr_OnSocketEvent_def
    by (cases e) (auto simp: ensures_simps evolve_strip evolve_same [OF ok] frame_simps split: option.splits
        intro!: on_reverse_socket_evolves [OF ok] ensures_mono [OF ensures_true] close)
qed

lemma listener_input_evolves:
  assumes ok: "world_ok cfg w"
  shows "ensures (SOPC_SecureListenerStateMgr_Dispatcher env e w) (all_evolve opn cfg w)"
proof -
  have op: "SOPC_SecureListenerStateMgr_OpeningListener ep r w = (res, w') \<Longrightarrow> conns w' = conns w"
    and none: "SOPC_SecureListenerStateMgr_NoListener ep w = (res, w') \<Longrightarrow> conns w' = conns w" for ep r res w'
    by (auto simp: SOPC_SecureListenerStateMgr_OpeningListener_def SOPC_SecureListenerStateMgr_NoListener_def frame_simps
        split: if_splits)
  have closing: "SOPC_SecureListenerStateMgr_CloseReverseEpListener env ep sf w = (res, w') \<Longrightarrow> conns w' = conns w"
    for ep sf res w'
    using close_reverse_ep_conns [of env ep sf w] by simp
  have ep_open: "ensures (on_ep_open env ep w) (\<lambda>w'. conns w' = conns w)" for ep
    unfolding on_ep_open_def Let_def
    apply (rule ensures_any)
    apply (intro ensures_intros)
     apply (rule refl)
    apply (rule ensures_spec [where P = "\<lambda>(ok, w'). conns w' = conns w"])
    subgoal by (rule ensures_intros ensures_any | (auto dest!: op none simp: frame_simps; fail))+
    by (auto simp: ensures_simps frame_simps)
  have close: "ensures (do {
      (result, w) \<leftarrow> (case epConfig of None \<Rightarrow> Some (True, w)
                       | Some c \<Rightarrow> SOPC_SecureListenerStateMgr_CloseEpListener env c ep False w);
      Some (post_services env (EP_CLOSED ep (if result then SOPC_STATUS_OK else SOPC_STATUS_INVALID_PARAMETERS)) w) })
      (all_evolve opn cfg w)" for ep epConfig
    apply (rule ensures_spec [where P = "\<lambda>(ok, w'). conns w' = conns w"])
    subgoal by (intro ensures_intros close_ep_conns) simp
    by (auto simp: ensures_simps evolve_strip intro!: evolve_same [OF ok])
  show ?thesis
  proof (cases e)
    case (EP_OPEN ep)
    then show ?thesis
      by (auto simp: SOPC_SecureListenerStateMgr_Dispatcher_def intro!: ensures_mono [OF ep_open] evolve_same [OF ok])
  next
    case (EP_CLOSE ep)
    then show ?thesis
      by (auto simp: SOPC_SecureListenerStateMgr_Dispatcher_def intro!: ensures_any close)
  next
    case (REVERSE_EP_OPEN ep)
    show ?thesis
      unfolding REVERSE_EP_OPEN SOPC_SecureListenerStateMgr_Dispatcher_def Let_def SOPC_SecureChannels_InputEvent.case
      by (intro ensures_intros ensures_any) (auto dest!: op simp: evolve_strip intro!: evolve_same [OF ok])
  next
    case (REVERSE_EP_CLOSE ep)
    show ?thesis
      unfolding REVERSE_EP_CLOSE SOPC_SecureListenerStateMgr_Dispatcher_def Let_def SOPC_SecureChannels_InputEvent.case
      by (intro ensures_intros) (auto dest!: closing simp: evolve_strip intro!: evolve_same [OF ok])
  qed (auto simp: SOPC_SecureListenerStateMgr_Dispatcher_def ensures_None)
qed

lemma listener_timer_evolves:
  assumes ok: "world_ok cfg w"
  shows "ensures (SOPC_SecureListenerStateMgr_OnTimerEvent env e w) (all_evolve opn cfg w)"
proof (cases e)
  case (TIMER_SC_RHE_RECEPTION_TIMEOUT idx)
  show ?thesis
    unfolding TIMER_SC_RHE_RECEPTION_TIMEOUT SOPC_SecureListenerStateMgr_OnTimerEvent_def Let_def
      SOPC_SecureChannels_TimerEvent.case
    apply (intro ensures_intros evolve_same [OF ok refl])
    apply (rule ensures_any)
    apply (rule ensures_spec [OF CloseConnection_spec])
    apply (intro ensures_intros)
    apply (rule evolve_step [OF ok, where idx = idx and R = "maybe_closed (\<lambda>_. True)"])
    subgoal by (auto simp: conn_step_iff frame_simps maybe_closed_def GetConnection_Some)
    subgoal by (rule evolve_maybe_closed) (use ok in \<open>auto simp: world_ok_def\<close>)
    done
qed (simp_all add: SOPC_SecureListenerStateMgr_OnTimerEvent_def ensures_None)

lemma layer_timer_evolves:
  assumes ok: "world_ok cfg w"
  shows "ensures (SOPC_SecureChannels_OnTimerEvent env e w) (all_evolve opn cfg w)"
  unfolding SOPC_SecureChannels_OnTimerEvent_def
  by (cases e) (simp_all add: connection_timer_evolves [OF ok] listener_timer_evolves [OF ok])

lemma layer_input_evolves:
  assumes ok: "world_ok (sc_cfg env) w"
  shows "ensures (SOPC_SecureChannels_OnInputEvent env e w) (all_evolve opn (sc_cfg env) w)"
proof -
  have "conns (on_server_configured active w) = conns w" for active
    by (auto simp: on_server_configured_def SOPC_ToolkitServer_UsingLockedConfig_def)
  then have "all_evolve opn (sc_cfg env) w (on_server_configured active w)" for active
    by (rule evolve_same [OF ok])
  then show ?thesis
    unfolding SOPC_SecureChannels_OnInputEvent_def
    by (cases e) (simp_all add: ensures_simps connection_input_evolves [OF ok] listener_input_evolves [OF ok] evolve_same [OF ok])
qed

section \<open>Steps of the chunk manager\<close>

lemma chunks_part_fields:
  "chunk_core (chunks_part c) = (sc_state c, isServerConnection c, tcpMsgProperties c, currentSecurityToken c)"
  by (simp add: chunk_core_def chunks_part_def SOPC_SecureConnection.defs)

lemma with_chunks_part_fields:
  "(sc_state (with_chunks_part p pr a c), isServerConnection (with_chunks_part p pr a c),
    tcpMsgProperties (with_chunks_part p pr a c), currentSecurityToken (with_chunks_part p pr a c)) = chunk_core p"
  by (simp add: chunk_core_def with_chunks_part_def SOPC_SecureConnection.defs)

lemma with_chunks_part_same: "with_chunks_part (chunks_part c) (cryptoProvider c) (serverAsymmSecuInfo c) c = c"
  by (cases c) (simp add: with_chunks_part_def chunks_part_def SOPC_SecureConnection.defs)

lemma chunks_part_state [simp]: "sc_state (chunks_part c) = sc_state c"
  by (simp add: chunks_part_def SOPC_SecureConnection.defs)

lemma chunks_evolve:
  assumes ok: "world_ok cfg w"
    and p: "chunk_core p = chunk_core (chunks_part (conns w idx))" "sc_is_closed (sc_state (conns w idx)) \<longrightarrow> p = chunks_part (conns w idx)"
    and closed: "sc_is_closed (sc_state (conns w idx)) \<longrightarrow> pr = cryptoProvider (conns w idx) \<and> a = serverAsymmSecuInfo (conns w idx)"
    and w': "conns w' = conns (sc_update idx (with_chunks_part p pr a) w)"
  shows "all_evolve opn cfg w w'"
proof (cases "sc_is_closed (sc_state (conns w idx))")
  case True
  then have "with_chunks_part p pr a (conns w idx) = conns w idx"
    using p(2) closed with_chunks_part_same [of "conns w idx"] by simp
  then have "conns w' = conns w" using w' by (simp add: frame_simps)
  then show ?thesis by (rule evolve_same [OF ok])
next
  case False
  have "conn_step idx (advances (sc_state (conns w idx))) w w'"
    using w' p(1) with_chunks_part_fields [of p pr a "conns w idx"] chunks_part_fields [of "conns w idx"]
    by (auto simp: advance_simps)
  then show ?thesis by (rule advance_evolves [OF ok]) (use False in auto)
qed

section \<open>Every step\<close>

fun open_message :: "layer_event \<Rightarrow> u32 \<Rightarrow> bool" where
  "open_message (Internal_Event e) i = opens e i"
| "open_message _ i = False"

theorem layer_step_evolves:
  assumes "layer_step env e w w'" and ok: "world_ok (sc_cfg env) w" and keeps: "asym_header_keeps (chunks_env env)"
  shows "all_evolve (open_message e) (sc_cfg env) w w'"
  using assms(1)
proof cases
  case (connection_internal e)
  then show ?thesis using ensuresD [OF connection_internal_evolves [OF ok, of e "open_message (Internal_Event e)"]] by simp
next
  case (listener_internal e)
  then show ?thesis using ensuresD [OF listener_internal_evolves [OF ok]] by simp
next
  case (chunks_internal idx c e b aux p sent fs provider asymInfo ts)
  then have c: "c = conns w idx" by (simp add: GetConnection_Some)
  show ?thesis
  proof (rule chunks_evolve [OF ok])
    show "chunk_core p = chunk_core (chunks_part (conns w idx))"
      "sc_is_closed (sc_state (conns w idx)) \<longrightarrow> p = chunks_part (conns w idx)"
      using ensuresD [OF chunks_send_core] chunks_internal c by fastforce+
    show "sc_is_closed (sc_state (conns w idx)) \<longrightarrow>
        provider = cryptoProvider (conns w idx) \<and> asymInfo = serverAsymmSecuInfo (conns w idx)"
      using chunks_internal c by simp
    show "conns w' = conns (sc_update idx (with_chunks_part p provider asymInfo) w)"
      using chunks_internal by (simp add: frame_simps)
  qed
next
  case (connection_socket e)
  then show ?thesis using ensuresD [OF connection_socket_evolves [OF ok]] by simp
next
  case (listener_socket e)
  then show ?thesis using ensuresD [OF listener_socket_evolves [OF ok]] by simp
next
  case (chunks_socket idx c b p evs provider asymInfo ts)
  then have c: "c = conns w idx" by (simp add: GetConnection_Some)
  show ?thesis
  proof (rule chunks_evolve [OF ok])
    show "chunk_core p = chunk_core (chunks_part (conns w idx))"
      "sc_is_closed (sc_state (conns w idx)) \<longrightarrow> p = chunks_part (conns w idx)"
      using ensuresD [OF chunks_receive_core [OF keeps]] chunks_socket c by fastforce+
    show "sc_is_closed (sc_state (conns w idx)) \<longrightarrow>
        provider = cryptoProvider (conns w idx) \<and> asymInfo = serverAsymmSecuInfo (conns w idx)"
      using chunks_socket c by simp
    show "conns w' = conns (sc_update idx (with_chunks_part p provider asymInfo) w)"
      using chunks_socket by (simp add: frame_simps)
  qed
next
  case (timer e)
  then show ?thesis using ensuresD [OF layer_timer_evolves [OF ok]] by simp
next
  case (input e)
  then show ?thesis using ensuresD [OF layer_input_evolves [OF ok]] by simp
qed (simp_all add: evolve_same [OF ok])

lemma world_ok_initial: "world_ok cfg (sc_initial init locked cfgs)"
proof -
  have "sc_zero = sc_zero\<lparr>sc_state := sc_state sc_zero\<rparr>" by simp
  then have "holds_nothing sc_zero" unfolding holds_nothing_def .
  then show ?thesis by (simp add: world_ok_def sc_initial_def conn_ok_def sc_zero_def [THEN arg_cong [where f = sc_state]])
qed

definition layer_env :: "SOPC_Common_EncodingConstants \<Rightarrow> scm_env \<Rightarrow> bool" where
  "layer_env cfg env \<longleftrightarrow> enc_cfg (sc_enc env) = cfg \<and> asym_header_keeps (chunks_env env)"

lemma reachable_world_ok: "layer_reachable (layer_env cfg) w \<Longrightarrow> world_ok cfg w"
proof (induction rule: layer_reachable.induct)
  case (layer_initial init locked cfgs)
  show ?case by (rule world_ok_initial)
next
  case (layer_next w env e w')
  then have "all_evolve (open_message e) cfg w w'" using layer_step_evolves [of env e w w'] by (simp add: layer_env_def)
  then show ?case by (rule all_evolve_world_ok)
qed

end
