(* ===== verification/SC_Agreement.thy ===== *)
theory SC_Agreement
  imports SC_Transitions Chunks_Plain Encoder_Laws
begin

text \<open>
  The hello exchange from end to end: what the client writes in its hello message, what the server makes of it
  and answers, and what the client makes of the answer.
\<close>

section \<open>Messages as bytes\<close>

definition u32s_bytes :: "u32 list \<Rightarrow> byte list" where
  "u32s_bytes vs = concat (map (\<lambda>v. le_bytes 4 (unat v)) vs)"

lemma u32s_bytes_simps [simp]: "u32s_bytes [] = []" "u32s_bytes (v # vs) = le_bytes 4 (unat v) @ u32s_bytes vs"
  by (simp_all add: u32s_bytes_def)

lemma length_u32s_bytes [simp]: "length (u32s_bytes vs) = 4 * length vs"
  by (induction vs) simp_all

lemma write_u32s_then:
  "write_u32s env vs r = and_then r (\<lambda>b. write_u32s env vs (Some (SOPC_STATUS_OK, b)))"
proof (induction vs arbitrary: r)
  case Nil
  show ?case by (cases r) (auto simp: write_u32s_def and_then_def)
next
  case (Cons v vs)
  have step: "write_u32s env (v # vs) r = write_u32s env vs (and_then r (\<lambda>b. SOPC_UInt32_Write (sc_enc env) (Some v) b 0))" for r
    by (simp add: write_u32s_def)
  show ?case
  proof (cases r)
    case None
    then show ?thesis unfolding step by (subst Cons.IH) (simp add: and_then_def)
  next
    case (Some x)
    then obtain st b where r: "r = Some (st, b)" by (cases x) simp
    show ?thesis
    proof (cases "st = SOPC_STATUS_OK")
      case True
      then show ?thesis using r by (simp add: and_then_def)
    next
      case False
      then show ?thesis unfolding step r by (subst Cons.IH) (simp add: and_then_def)
    qed
  qed
qed

lemma writes_u32s:
  assumes "mem_total (sc_enc env)" "0 < max_level (sc_enc env)"
  shows "writes (\<lambda>b. write_u32s env vs (Some (SOPC_STATUS_OK, b))) (u32s_bytes vs)"
proof (induction vs)
  case Nil
  show ?case by (intro writesI) (auto elim!: buf_wfE simp: write_u32s_def)
next
  case (Cons v vs)
  have w: "writes (\<lambda>b. SOPC_UInt32_Write (sc_enc env) (Some v) b 0) (le_bytes 4 (unat v))"
    using assms by (intro uint32_c.write_law) simp_all
  have "(\<lambda>b. write_u32s env (v # vs) (Some (SOPC_STATUS_OK, b))) =
      (\<lambda>b. and_then (SOPC_UInt32_Write (sc_enc env) (Some v) b 0) (\<lambda>b. write_u32s env vs (Some (SOPC_STATUS_OK, b))))"
    by (rule ext) (subst write_u32s_then [symmetric], simp add: write_u32s_def and_then_def)
  then show ?case using writes_seq [OF w Cons.IH] by simp
qed

text \<open>A new buffer whose first bytes are left for the header.\<close>

lemma reserve_header_new:
  assumes "SOPC_Buffer_Create env n = Some b" "k \<le> n"
  shows "\<exists>b'. reserve_header b k = Some (SOPC_STATUS_OK, Some b') \<and> buf_wf b' \<and> position b' = k \<and> buf_length b' = k \<and>
    maximum_size b' = n"
proof -
  have "b = \<lparr>initial_size = n, current_size = n, maximum_size = n, position = 0, buf_length = 0,
      buf_data = Some (replicate (unat n) 0)\<rparr>"
    using assms(1) by (auto simp: SOPC_Buffer_Create_def SOPC_Buffer_Init_def SOPC_Calloc_def zero_buffer_def
        split: if_splits option.splits prod.splits SOPC_ReturnStatus.splits)
  then show ?thesis
    using assms(2) by (simp add: reserve_header_def SOPC_Buffer_SetDataLength_def SOPC_Buffer_SetPosition_def
        buf_wf_def u32_le_iff)
qed

text \<open>Writing behind a reserved header: what follows the header is what was written.\<close>

lemma writes_behind:
  assumes "writes W bs" "buf_wf b" "position b = buf_length b" "unat (maximum_size b) \<le> 2 ^ 31"
    "unat (position b) + length bs \<le> unat (maximum_size b)"
  shows "\<exists>b'. W (Some b) = Some (SOPC_STATUS_OK, Some b') \<and> buf_wf b' \<and> maximum_size b' = maximum_size b \<and>
    drop (unat (position b)) (buf_bytes b') = bs \<and> unat (buf_length b') = unat (position b) + length bs"
proof -
  from writes_ok [OF assms(1,2,4,5)] obtain b' where b': "W (Some b) = Some (SOPC_STATUS_OK, Some b')" "buf_wf b'"
    "stream_of b' = stream_put bs (stream_of b)" "maximum_size b' = maximum_size b" by metis
  have l: "length (buf_bytes b) = unat (position b)" using length_buf_bytes [OF assms(2)] assms(3) by simp
  have "buf_bytes b' = s_bytes (stream_put bs (stream_of b))" using arg_cong [OF b'(3), of s_bytes] by (simp add: stream_of_def)
  then have "buf_bytes b' = buf_bytes b @ bs" using l by (simp add: stream_put_def stream_of_def)
  then show ?thesis using b' l length_buf_bytes [OF b'(2)] by simp
qed

text \<open>A message as the chunk manager hands it over: the header is filled in, the position is behind it.\<close>

definition handed_over :: "SOPC_Buffer \<Rightarrow> SOPC_Buffer \<Rightarrow> bool" where
  "handed_over sent r \<longleftrightarrow> buf_wf r \<and> unat (buf_length r) \<le> 2 ^ 31 \<and> position r = 8 \<and>
     length (buf_bytes r) = length (buf_bytes sent) \<and> drop 8 (buf_bytes r) = drop 8 (buf_bytes sent)"

lemma handed_over_unread: "handed_over sent r \<Longrightarrow> unread r = drop 8 (buf_bytes sent)"
  by (simp add: handed_over_def unread_def stream_rest_def stream_of_def)

section \<open>The numbers of the messages\<close>

lemma read_u32_ok:
  assumes "buf_wf b" "unread b = le_bytes 4 (unat v) @ rest" "0 < max_level (sc_enc env)"
  shows "read_u32 env (Some b) t = Some (SOPC_STATUS_OK, v, Some (buf_advance 4 b))"
    "buf_wf (buf_advance 4 b)" "unread (buf_advance 4 b) = rest"
  using UInt32_Read_ok [OF assms(1) _ assms(3), of t] assms(2) stream_rest_split [OF assms(1), of "le_bytes 4 (unat v)" rest]
  by (simp_all add: read_u32_def unread_def)

definition hello_limits ::
  "SOPC_SecureConnection_TcpProperties \<Rightarrow> SOPC_SecureConnection_TcpProperties \<Rightarrow> u32 \<Rightarrow> u32 \<Rightarrow>
   SOPC_SecureConnection_TcpProperties" where
  "hello_limits peer p sendSize receiveSize =
     p\<lparr>protocolVersion := min (protocolVersion p) (protocolVersion peer), sendBufferSize := sendSize,
       receiveBufferSize := receiveSize,
       sendMaxMessageSize := adapt_limit (sendMaxMessageSize p) (receiveMaxMessageSize peer),
       sendMaxChunkCount := adapt_limit (sendMaxChunkCount p) (receiveMaxChunkCount peer)\<rparr>"

definition limits_bytes :: "SOPC_SecureConnection_TcpProperties \<Rightarrow> byte list" where
  "limits_bytes p = u32s_bytes [protocolVersion p, receiveBufferSize p, sendBufferSize p, receiveMaxMessageSize p,
     receiveMaxChunkCount p]"

lemma hello_properties_value:
  assumes "buf_wf b" "unread b = limits_bytes peer @ rest" "0 < max_level (sc_enc env)"
    and "adapt_hello_size (sendBufferSize p) (receiveBufferSize peer) = Some n"
    and "adapt_hello_size (receiveBufferSize p) (sendBufferSize peer) = Some m"
  shows "\<exists>b'. hello_properties env (Some b) p = Some (True, SOPC_GoodGenericStatus, hello_limits peer p n m, Some b') \<and>
    buf_wf b' \<and> buf_length b' = buf_length b \<and> unread b' = rest"
proof -
  have u: "unread b = le_bytes 4 (unat (protocolVersion peer)) @ le_bytes 4 (unat (receiveBufferSize peer)) @
      le_bytes 4 (unat (sendBufferSize peer)) @ le_bytes 4 (unat (receiveMaxMessageSize peer)) @
      le_bytes 4 (unat (receiveMaxChunkCount peer)) @ rest"
    using assms(2) by (simp add: limits_bytes_def)
  note r1 = read_u32_ok [OF assms(1) u assms(3)]
  note r2 = read_u32_ok [OF r1(2,3) assms(3)]
  note r3 = read_u32_ok [OF r2(2,3) assms(3)]
  note r4 = read_u32_ok [OF r3(2,3) assms(3)]
  note r5 = read_u32_ok [OF r4(2,3) assms(3)]
  show ?thesis
    using r5(2,3) assms(4,5)
    by (intro exI [of _ "buf_advance 4 (buf_advance 4 (buf_advance 4 (buf_advance 4 (buf_advance 4 b))))"])
      (auto simp: hello_properties_def Let_def r1(1) r2(1) r3(1) r4(1) r5(1) hello_limits_def min_def not_less)
qed

lemma ack_properties_value:
  assumes "buf_wf b" "unread b = limits_bytes peer @ rest" "0 < max_level (sc_enc env)"
    and "adapt_ack_size (sendBufferSize p) (receiveBufferSize peer) = Some n"
    and "adapt_ack_size (receiveBufferSize p) (sendBufferSize peer) = Some m"
  shows "ack_properties env (Some b) p = Some (True, hello_limits peer p n m)"
proof -
  have u: "unread b = le_bytes 4 (unat (protocolVersion peer)) @ le_bytes 4 (unat (receiveBufferSize peer)) @
      le_bytes 4 (unat (sendBufferSize peer)) @ le_bytes 4 (unat (receiveMaxMessageSize peer)) @
      le_bytes 4 (unat (receiveMaxChunkCount peer)) @ rest"
    using assms(2) by (simp add: limits_bytes_def)
  note r1 = read_u32_ok [OF assms(1) u assms(3)]
  note r2 = read_u32_ok [OF r1(2,3) assms(3)]
  note r3 = read_u32_ok [OF r2(2,3) assms(3)]
  note r4 = read_u32_ok [OF r3(2,3) assms(3)]
  note r5 = read_u32_ok [OF r4(2,3) assms(3)]
  show ?thesis
    using assms(4,5) by (auto simp: ack_properties_def Let_def r1(1) r2(1) r3(1) r4(1) r5(1) hello_limits_def min_def not_less)
qed

section \<open>The address of the endpoint\<close>

lemma c_strlen_Some: "c_strlen c = Some n \<Longrightarrow> n < length c"
  by (induction c arbitrary: n) (auto split: if_splits)

lemma sint_of_nat_i32: "n \<le> 2147483647 \<Longrightarrow> sint (of_nat n :: i32) = int n"
  using unat_of_nat_u32 [of n] by (simp add: sint_uint uint_nat signed_take_bit_int_eq_self)

lemma CopyFromCString_ok:
  assumes "mem_total env" "c_strlen c = Some n" "n \<le> 2147483647"
  shows "\<exists>s. SOPC_String_CopyFromCString env (Some str_init) (Some c) = Some (SOPC_STATUS_OK, Some s) \<and>
    bytestring_wf s \<and> sint (Str_Length s) = int n"
proof (cases "n = 0")
  case True
  then show ?thesis using assms by (simp add: SOPC_String_CopyFromCString_def str_init_def bytestring_wf_def)
next
  case False
  obtain blk where blk: "SOPC_Malloc env (n + 1) = Some blk" "length blk = n + 1"
    using SOPC_Malloc_total [OF assms(1)] by metis
  have "mem_read c 0 (n + 1) = Some (take (n + 1) c)" using c_strlen_Some [OF assms(2)] by (simp add: mem_read_def)
  moreover have "mem_write blk 0 (take (n + 1) c) = Some (take (n + 1) c)"
    using c_strlen_Some [OF assms(2)] blk(2) by (simp add: mem_write_def)
  moreover have "sint (of_nat n :: i32) = int n" using assms(3) by (rule sint_of_nat_i32)
  ultimately show ?thesis
    using assms blk False c_strlen_Some [OF assms(2)]
    by (simp add: SOPC_String_CopyFromCString_def str_init_def bytestring_wf_def)
qed

lemma strncmp_ignore_case_ok:
  "n \<le> length xs \<Longrightarrow> n \<le> length ys \<Longrightarrow> \<exists>c. strncmp_ignore_case_loop xs ys n = Some c"
  by (induction xs ys n rule: strncmp_ignore_case_loop.induct) (auto simp: Let_def)

lemma check_hello_url_ok:
  assumes env: "mem_total (sc_enc env)" "2 \<le> max_level (sc_enc env)"
    and b: "buf_wf b" "unat (buf_length b) \<le> 2 ^ 31" "unread b = enc_string s @ rest"
    and s: "string_ok (sc_enc env) s" "sint (Str_Length s) \<le> 4096"
    and url: "c_strlen (endpointURL ep) = Some m" "m \<le> 2147483647"
  shows "check_hello_url env ep (Some b) = Some (True, SOPC_GoodGenericStatus)"
proof -
  let ?r = "dec_bytes [0] s" and ?e = "str_init\<lparr>Str_Length := of_nat m, Str_Data := Some (endpointURL ep), Str_DoNotClear := True\<rparr>"
  have rest: "stream_rest (stream_of b) = enc_string s @ rest" using b(3) by (simp add: unread_def)
  have len: "SOPC_Int32_Read (sc_enc env) (Some 0) (Some b) (Suc 0) =
      Some (SOPC_STATUS_OK, Some (string_length_field s), Some (buf_advance 4 b))"
    using string_read_length(1) [OF env(1) _ b(1,2) rest, of 0 0] env(2) by simp
  have field: "sint (string_length_field s) \<le> 4096" using s(2) by (simp add: string_length_field_def)
  have "SOPC_String_Read (sc_enc env) (Some str_init) (Some b) 0 =
      Some (SOPC_STATUS_OK, Some ?r, Some (buf_advance (length (enc_string s)) b))"
    using readsD [OF string_reads [OF env(1) s(1), of 0 str_init] b(1,2) rest] env(2) by simp
  moreover have "SOPC_String_ReadWithLimitedLength (sc_enc env) (Some str_init) SOPC_TCP_UA_MAX_URL_AND_REASON_LENGTH (Some b) 0 =
      SOPC_String_Read (sc_enc env) (Some str_init) (Some b) 0"
    using len field by (simp add: SOPC_String_Read_def SOPC_String_ReadWithLimitedLength_def SOPC_TCP_UA_MAX_URL_AND_REASON_LENGTH_def)
  moreover have "\<exists>c. SOPC_String_Compare (Some ?e) (Some ?r) True (Some 0) = Some (SOPC_STATUS_OK, c)"
  proof (cases "0 < sint (Str_Length s) \<and> of_nat m = Str_Length s")
    case True
    have "sint (of_nat m :: i32) = int m" using url(2) by (rule sint_of_nat_i32)
    then have "nat (sint (Str_Length s)) = m" using True by (metis nat_int)
    moreover have "m \<le> length (str_bytes s)" using s(1) calculation by (simp add: string_ok_def length_str_bytes)
    ultimately show ?thesis
      using True strncmp_ignore_case_ok [of m "endpointURL ep" "str_bytes s @ [0]"] c_strlen_Some [OF url(1)]
      by (auto simp: SOPC_String_Compare_def SOPC_strncmp_ignore_case_def dec_bytes_def)
  next
    case False
    then show ?thesis by (auto simp: SOPC_String_Compare_def dec_bytes_def str_init_def)
  qed
  ultimately show ?thesis
    using url by (auto simp: check_hello_url_def SOPC_String_AttachFromCstring_def str_init_def)
qed

section \<open>The exchange\<close>

lemma post_ok_total: "mem_total (sc_enc env) \<Longrightarrow> post_ok env"
  by (simp add: post_ok_def mem_total_def)

lemma client_hello_sent:
  assumes env: "mem_total (sc_enc env)" "2 \<le> max_level (sc_enc env)"
    and sc: "sc_state (conns w i) = SECURE_CONNECTION_STATE_TCP_INIT"
    and cfg: "SOPC_ToolkitClient_GetSecureChannelConfig (secureChannelConfigIdx (conns w i)) w = Some cfg"
      "cfg_url cfg = Some url" "c_strlen url = Some n" "n \<le> 4096"
  shows "\<exists>hel s. SC_ClientTransition_TcpInit_To_TcpNegotiate env i w = Some (True,
      (sc_update i (\<lambda>c. c\<lparr>sc_state := SECURE_CONNECTION_STATE_TCP_NEGOTIATE\<rparr>) w)
        \<lparr>internalEvents := INT_SC_SND INT_SC_SND_HEL i (Some hel) 0 # internalEvents w\<rparr>) \<and>
    drop 8 (buf_bytes hel) = limits_bytes (tcpMsgProperties (conns w i)) @ enc_string s \<and> 28 \<le> length (buf_bytes hel) \<and>
    bytestring_wf s \<and> sint (Str_Length s) = int n"
proof -
  let ?p = "tcpMsgProperties (conns w i)"
  let ?vs = "[protocolVersion ?p, receiveBufferSize ?p, sendBufferSize ?p, receiveMaxMessageSize ?p, receiveMaxChunkCount ?p]"
  obtain b where b: "SOPC_Buffer_Create (sc_enc env) (SOPC_TCP_UA_HEL_MIN_MSG_LENGTH + SOPC_TCP_UA_MAX_URL_AND_REASON_LENGTH) = Some b"
    using Create_ok [OF env(1), of 4128] by (auto simp: SOPC_TCP_UA_HEL_MIN_MSG_LENGTH_def SOPC_TCP_UA_MAX_URL_AND_REASON_LENGTH_def)
  then obtain b1 where b1: "reserve_header b SOPC_TCP_UA_HEADER_LENGTH = Some (SOPC_STATUS_OK, Some b1)" "buf_wf b1"
      "position b1 = 8" "buf_length b1 = 8" "maximum_size b1 = 4128"
    using reserve_header_new [OF b, of 8]
    by (auto simp: SOPC_TCP_UA_HEADER_LENGTH_def SOPC_TCP_UA_HEL_MIN_MSG_LENGTH_def SOPC_TCP_UA_MAX_URL_AND_REASON_LENGTH_def)
  obtain s where s: "SOPC_String_CopyFromCString (sc_enc env) (Some str_init) (Some url) = Some (SOPC_STATUS_OK, Some s)"
      "bytestring_wf s" "sint (Str_Length s) = int n"
    using CopyFromCString_ok [OF env(1) cfg(3)] cfg(4) by auto
  have w: "writes (\<lambda>b. and_then (write_u32s env ?vs (Some (SOPC_STATUS_OK, b))) (\<lambda>b. SOPC_String_Write (sc_enc env) (Some s) b 0))
      (limits_bytes ?p @ enc_string s)"
    unfolding limits_bytes_def using env s(2)
    by (intro writes_seq writes_u32s string_writes) simp_all
  have "length (enc_string s) \<le> 4 + n"
    using s(2,3) by (simp add: enc_string_def length_str_bytes)
  then have "unat (position b1) + length (limits_bytes ?p @ enc_string s) \<le> unat (maximum_size b1)"
    using b1 cfg(4) by (simp add: limits_bytes_def)
  from writes_behind [OF w b1(2) _ _ this] b1 obtain hel where
    hel: "and_then (write_u32s env ?vs (Some (SOPC_STATUS_OK, Some b1))) (\<lambda>b. SOPC_String_Write (sc_enc env) (Some s) b 0) =
      Some (SOPC_STATUS_OK, Some hel)" "drop 8 (buf_bytes hel) = limits_bytes ?p @ enc_string s" "buf_wf hel"
      "unat (buf_length hel) = 8 + length (limits_bytes ?p @ enc_string s)"
    by auto
  have "28 \<le> length (buf_bytes hel)" using hel(3,4) by (simp add: length_buf_bytes limits_bytes_def)
  moreover have "SC_ClientTransition_TcpInit_To_TcpNegotiate env i w = Some (True,
      (sc_update i (\<lambda>c. c\<lparr>sc_state := SECURE_CONNECTION_STATE_TCP_NEGOTIATE\<rparr>) w)
        \<lparr>internalEvents := INT_SC_SND INT_SC_SND_HEL i (Some hel) 0 # internalEvents w\<rparr>)"
    unfolding SC_ClientTransition_TcpInit_To_TcpNegotiate_def Let_def
    using sc cfg b b1(1) s(1) hel(1) post_ok_total [OF env(1)]
    by (simp add: SOPC_SecureChannels_EnqueueInternalEventAsNext_def sc_update_def)
  ultimately show ?thesis using hel(2) s(2,3) by blast
qed

lemma server_hello_accepted:
  assumes env: "mem_total (sc_enc env)" "2 \<le> max_level (sc_enc env)"
    and hel: "handed_over hel helr" "drop 8 (buf_bytes hel) = limits_bytes peer @ enc_string s"
    and s: "string_ok (sc_enc env) s" "sint (Str_Length s) \<le> 4096"
    and sc: "sc_state (conns w i) = SECURE_CONNECTION_STATE_TCP_INIT" "isServerConnection (conns w i)"
    and ep: "SOPC_ToolkitServer_GetEndpointConfig env (serverEndpointConfigIdx (conns w i)) w = Some (Some ep)"
      "c_strlen (endpointURL ep) = Some m" "m \<le> 2147483647"
    and sizes: "adapt_hello_size (sendBufferSize (tcpMsgProperties (conns w i))) (receiveBufferSize peer) = Some ns"
      "adapt_hello_size (receiveBufferSize (tcpMsgProperties (conns w i))) (sendBufferSize peer) = Some nr"
  shows "SC_ServerTransition_TcpInit_To_TcpNegotiate env i helr err w = Some (True, err,
    sc_update i (\<lambda>c. c\<lparr>sc_state := SECURE_CONNECTION_STATE_TCP_NEGOTIATE\<rparr>)
      (sc_update i (\<lambda>c. c\<lparr>tcpMsgProperties := hello_limits peer (tcpMsgProperties (conns w i)) ns nr\<rparr>) w))"
proof -
  have r: "buf_wf helr" "unat (buf_length helr) \<le> 2 ^ 31" "unread helr = limits_bytes peer @ enc_string s"
    using hel handed_over_unread [OF hel(1)] by (auto simp: handed_over_def)
  from hello_properties_value [OF r(1,3) _ sizes, of env] env(2) obtain b' where
    b': "hello_properties env (Some helr) (tcpMsgProperties (conns w i)) =
      Some (True, SOPC_GoodGenericStatus, hello_limits peer (tcpMsgProperties (conns w i)) ns nr, Some b')"
      "buf_wf b'" "buf_length b' = buf_length helr" "unread b' = enc_string s"
    by auto
  have "check_hello_url env ep (Some b') = Some (True, SOPC_GoodGenericStatus)"
    using check_hello_url_ok [OF env b'(2) _ _ s ep(2,3), where rest = "[]"] b' r(2) by simp
  then show ?thesis
    unfolding SC_ServerTransition_TcpInit_To_TcpNegotiate_def Let_def using sc ep(1) b'(1) by simp
qed

lemma server_ack_sent:
  assumes env: "mem_total (sc_enc env)" "2 \<le> max_level (sc_enc env)"
    and hel: "handed_over hel helr" "28 \<le> length (buf_bytes hel)"
    and sc: "sc_state (conns w i) = SECURE_CONNECTION_STATE_TCP_NEGOTIATE" "isServerConnection (conns w i)"
  shows "\<exists>ack. SC_ServerTransition_TcpNegotiate_To_ScInit env i helr err w = Some (True, SOPC_GoodGenericStatus,
      (sc_update i (\<lambda>c. c\<lparr>sc_state := SECURE_CONNECTION_STATE_SC_INIT\<rparr>) w)
        \<lparr>internalEvents := INT_SC_SND INT_SC_SND_ACK i (Some ack) 0 # internalEvents w\<rparr>) \<and>
    drop 8 (buf_bytes ack) = limits_bytes (tcpMsgProperties (conns w i))"
proof -
  let ?p = "tcpMsgProperties (conns w i)"
  let ?vs = "[protocolVersion ?p, receiveBufferSize ?p, sendBufferSize ?p, receiveMaxMessageSize ?p, receiveMaxChunkCount ?p]"
  obtain b where b: "SOPC_Buffer_Create (sc_enc env) SOPC_TCP_UA_ACK_MSG_LENGTH = Some b"
    using Create_ok [OF env(1), of 28] by (auto simp: SOPC_TCP_UA_ACK_MSG_LENGTH_def)
  note c = Create_spec [OF b]
  have r: "buf_wf helr" "8 \<le> buf_length helr"
    using hel length_buf_bytes [of helr] by (auto simp: handed_over_def u32_le_iff)
  let ?h = "helr\<lparr>position := 0\<rparr>"
  have h: "SOPC_Buffer_SetPosition (Some helr) 0 = (SOPC_STATUS_OK, Some ?h)" "buf_wf ?h"
    using r(1) by (auto simp: SOPC_Buffer_SetPosition_def buf_wf_def split: option.splits)
  obtain b1 where b1: "SOPC_Buffer_CopyWithLength (sc_enc env) (Some b) (Some ?h) 8 = Some (SOPC_STATUS_OK, Some b1)"
      "buf_wf b1" "position b1 = 0" "maximum_size b1 = 28" "buf_length b1 = 8"
    using SOPC_Buffer_CopyWithLength_ok [OF c(1) h(2), of 8 "sc_enc env"] c r(2)
    by (auto simp: SOPC_TCP_UA_ACK_MSG_LENGTH_def)
  let ?b2 = "b1\<lparr>position := 8\<rparr>"
  have b2: "and_then (Some (SOPC_Buffer_SetPosition (Some b1) 8)) (\<lambda>b. SOPC_Buffer_SetDataLength b 8) =
      Some (SOPC_STATUS_OK, Some ?b2)" "buf_wf ?b2"
    using b1(2,5) by (auto simp: SOPC_Buffer_SetPosition_def SOPC_Buffer_SetDataLength_def buf_wf_def u32_le_iff split: option.splits)
  obtain ack where ack: "write_u32s env ?vs (Some (SOPC_STATUS_OK, Some ?b2)) = Some (SOPC_STATUS_OK, Some ack)"
      "drop 8 (buf_bytes ack) = limits_bytes ?p"
    using writes_behind [OF writes_u32s [OF env(1), of ?vs] b2(2)] env(2) b1(4,5) by (auto simp: limits_bytes_def)
  have "SC_ServerTransition_TcpNegotiate_To_ScInit env i helr err w = Some (True, SOPC_GoodGenericStatus,
      (sc_update i (\<lambda>c. c\<lparr>sc_state := SECURE_CONNECTION_STATE_SC_INIT\<rparr>) w)
        \<lparr>internalEvents := INT_SC_SND INT_SC_SND_ACK i (Some ack) 0 # internalEvents w\<rparr>)"
    unfolding SC_ServerTransition_TcpNegotiate_To_ScInit_def Let_def
    using sc b h(1) b1(1) b2(1) ack(1) post_ok_total [OF env(1)]
    by (simp add: SOPC_TCP_UA_HEADER_LENGTH_def SOPC_SecureChannels_EnqueueInternalEventAsNext_def sc_update_def)
  then show ?thesis using ack(2) by blast
qed

lemma client_ack_accepted:
  assumes "0 < max_level (sc_enc env)" "handed_over ack ackr" "drop 8 (buf_bytes ack) = limits_bytes peer"
    and "sc_state (conns w i) = SECURE_CONNECTION_STATE_TCP_NEGOTIATE" "\<not> isServerConnection (conns w i)"
    and "adapt_ack_size (sendBufferSize (tcpMsgProperties (conns w i))) (receiveBufferSize peer) = Some ns"
      "adapt_ack_size (receiveBufferSize (tcpMsgProperties (conns w i))) (sendBufferSize peer) = Some nr"
  shows "\<exists>w'. SC_ClientTransition_TcpNegotiate_To_ScInit env i ackr w = Some (True, w') \<and>
    tcpMsgProperties (conns w' i) = hello_limits peer (tcpMsgProperties (conns w i)) ns nr"
proof -
  have "buf_wf ackr" "unread ackr = limits_bytes peer @ []"
    using assms(2,3) handed_over_unread [OF assms(2)] by (auto simp: handed_over_def)
  then have "ack_properties env (Some ackr) (tcpMsgProperties (conns w i)) =
      Some (True, hello_limits peer (tcpMsgProperties (conns w i)) ns nr)"
    using assms(1,6,7) by (intro ack_properties_value)
  then show ?thesis using assms(4,5) by (simp add: SC_ClientTransition_TcpNegotiate_To_ScInit_def Let_def frame_simps)
qed

text \<open>Neither side is allowed to send what the other does not accept; a limit of 0 is no limit.\<close>

definition within_limit :: "u32 \<Rightarrow> u32 \<Rightarrow> bool" where
  "within_limit n m \<longleftrightarrow> m = 0 \<or> n \<noteq> 0 \<and> n \<le> m"

definition limits_agree :: "SOPC_SecureConnection_TcpProperties \<Rightarrow> SOPC_SecureConnection_TcpProperties \<Rightarrow> bool" where
  "limits_agree c s \<longleftrightarrow>
     protocolVersion c = protocolVersion s \<and>
     sendBufferSize c = receiveBufferSize s \<and> sendBufferSize s = receiveBufferSize c \<and>
     within_limit (sendMaxMessageSize c) (receiveMaxMessageSize s) \<and> within_limit (sendMaxMessageSize s) (receiveMaxMessageSize c) \<and>
     within_limit (sendMaxChunkCount c) (receiveMaxChunkCount s) \<and> within_limit (sendMaxChunkCount s) (receiveMaxChunkCount c)"

lemma adapt_limit_within: "within_limit (adapt_limit own peer) peer"
  by (auto simp: within_limit_def adapt_limit_def)

lemma adapt_hello_min:
  "SOPC_TCP_UA_MIN_BUFFER_SIZE \<le> own \<Longrightarrow> SOPC_TCP_UA_MIN_BUFFER_SIZE \<le> peer \<Longrightarrow> adapt_hello_size own peer = Some (min own peer)"
  by (auto simp: adapt_hello_size_def min_def)

lemma adapt_ack_min:
  "SOPC_TCP_UA_MIN_BUFFER_SIZE \<le> own \<Longrightarrow> SOPC_TCP_UA_MIN_BUFFER_SIZE \<le> peer \<Longrightarrow> adapt_ack_size own (min peer own) = Some (min peer own)"
  by (auto simp: adapt_ack_size_def min_def)

lemma hello_limits_agree:
  assumes "s' = hello_limits c s (min (sendBufferSize s) (receiveBufferSize c)) (min (receiveBufferSize s) (sendBufferSize c))"
    and "c' = hello_limits s' c (receiveBufferSize s') (sendBufferSize s')"
  shows "limits_agree c' s'"
  using assms by (simp add: limits_agree_def hello_limits_def adapt_limit_within min.commute min.left_commute)

text \<open>Both messages at the server, and the answer at the client.\<close>

lemma server_negotiates:
  assumes env: "mem_total (sc_enc env)" "2 \<le> max_level (sc_enc env)"
    and hel: "handed_over hel helr" "drop 8 (buf_bytes hel) = limits_bytes c @ enc_string str" "28 \<le> length (buf_bytes hel)"
    and str: "string_ok (sc_enc env) str" "sint (Str_Length str) \<le> 4096"
    and server: "sc_state (conns ws j) = SECURE_CONNECTION_STATE_TCP_INIT" "isServerConnection (conns ws j)"
      "SOPC_ToolkitServer_GetEndpointConfig env (serverEndpointConfigIdx (conns ws j)) ws = Some (Some ep)"
      "c_strlen (endpointURL ep) = Some m" "m \<le> 2147483647"
    and s: "s = tcpMsgProperties (conns ws j)"
      "s' = hello_limits c s (min (sendBufferSize s) (receiveBufferSize c)) (min (receiveBufferSize s) (sendBufferSize c))"
    and sz: "\<And>p. p \<in> {c, s} \<Longrightarrow> SOPC_TCP_UA_MIN_BUFFER_SIZE \<le> sendBufferSize p \<and> SOPC_TCP_UA_MIN_BUFFER_SIZE \<le> receiveBufferSize p"
  shows "\<exists>ws1 ack ws2. SC_ServerTransition_TcpInit_To_TcpNegotiate env j helr err ws = Some (True, err, ws1) \<and>
    SC_ServerTransition_TcpNegotiate_To_ScInit env j helr err ws1 = Some (True, SOPC_GoodGenericStatus, ws2) \<and>
    internalEvents ws2 = INT_SC_SND INT_SC_SND_ACK j (Some ack) 0 # internalEvents ws \<and>
    drop 8 (buf_bytes ack) = limits_bytes s' \<and> tcpMsgProperties (conns ws2 j) = s'"
proof -
  define ws1 where "ws1 = sc_update j (\<lambda>c. c\<lparr>sc_state := SECURE_CONNECTION_STATE_TCP_NEGOTIATE\<rparr>)
      (sc_update j (\<lambda>c. c\<lparr>tcpMsgProperties := s'\<rparr>) ws)"
  have ws1: "sc_state (conns ws1 j) = SECURE_CONNECTION_STATE_TCP_NEGOTIATE" "isServerConnection (conns ws1 j)"
      "tcpMsgProperties (conns ws1 j) = s'" "internalEvents ws1 = internalEvents ws"
    using server(2) by (simp_all add: ws1_def frame_simps) (simp_all add: sc_update_def)
  have "SC_ServerTransition_TcpInit_To_TcpNegotiate env j helr err ws = Some (True, err, ws1)"
    unfolding ws1_def s(2) s(1)
    by (rule server_hello_accepted [OF env hel(1,2) str server]) (use sz in \<open>auto simp: s(1) [symmetric] adapt_hello_min\<close>)
  moreover obtain ack where "SC_ServerTransition_TcpNegotiate_To_ScInit env j helr err ws1 = Some (True, SOPC_GoodGenericStatus,
      (sc_update j (\<lambda>c. c\<lparr>sc_state := SECURE_CONNECTION_STATE_SC_INIT\<rparr>) ws1)
        \<lparr>internalEvents := INT_SC_SND INT_SC_SND_ACK j (Some ack) 0 # internalEvents ws\<rparr>)" "drop 8 (buf_bytes ack) = limits_bytes s'"
    using server_ack_sent [OF env hel(1,3) ws1(1,2)] ws1(3,4) by auto
  moreover have "tcpMsgProperties (conns ((sc_update j (\<lambda>c. c\<lparr>sc_state := SECURE_CONNECTION_STATE_SC_INIT\<rparr>) ws1)
        \<lparr>internalEvents := INT_SC_SND INT_SC_SND_ACK j (Some ack) 0 # internalEvents ws\<rparr>) j) = s'"
    using ws1(3) by (simp add: frame_simps)
  ultimately show ?thesis by (metis (no_types, lifting) sc_world.select_convs(13) sc_world.surjective sc_world.update_convs(13))
qed

lemma client_agrees:
  assumes "0 < max_level (sc_enc env)" "handed_over ack ackr" "drop 8 (buf_bytes ack) = limits_bytes s'"
    and "sc_state (conns w i) = SECURE_CONNECTION_STATE_TCP_NEGOTIATE" "\<not> isServerConnection (conns w i)" "c = tcpMsgProperties (conns w i)"
    and s': "s' = hello_limits c s (min (sendBufferSize s) (receiveBufferSize c)) (min (receiveBufferSize s) (sendBufferSize c))"
    and sz: "\<And>p. p \<in> {c, s} \<Longrightarrow> SOPC_TCP_UA_MIN_BUFFER_SIZE \<le> sendBufferSize p \<and> SOPC_TCP_UA_MIN_BUFFER_SIZE \<le> receiveBufferSize p"
  shows "\<exists>w'. SC_ClientTransition_TcpNegotiate_To_ScInit env i ackr w = Some (True, w') \<and>
    limits_agree (tcpMsgProperties (conns w' i)) s'"
proof -
  have "\<exists>w'. SC_ClientTransition_TcpNegotiate_To_ScInit env i ackr w = Some (True, w') \<and>
      tcpMsgProperties (conns w' i) = hello_limits s' (tcpMsgProperties (conns w i)) (receiveBufferSize s') (sendBufferSize s')"
    by (rule client_ack_accepted [OF assms(1-5)])
      (use sz assms(6) in \<open>auto simp: s' adapt_ack_min hello_limits_def\<close>)
  then show ?thesis using hello_limits_agree [OF s' refl] assms(6) by metis
qed

end
