(* ===== verification/SC_Typed.thy ===== *)
theory SC_Typed
  imports SC_Slots
begin

text \<open>
  The arrays and indexes of the layer: every listener keeps arrays of the declared sizes and an index inside of
  them, and the indexes from which the tables of connections and configurations are searched stay inside of the tables.
  Every step of the layer keeps this, so that no access of these arrays is out of bounds and every search ends.
\<close>

section \<open>Declared sizes\<close>

definition listener_typed :: "SOPC_SecureListener \<Rightarrow> bool" where
  "listener_typed l \<longleftrightarrow>
     length (connectionIdxArray l) = SOPC_MAX_SOCKETS_CONNECTIONS \<and>
     length (isUsedConnectionIdxArray l) = SOPC_MAX_SOCKETS_CONNECTIONS \<and>
     lastConnectionIdxArrayIdx l < SOPC_MAX_SOCKETS_CONNECTIONS \<and>
     length (reverseConnRetryTimerIds l) = SOPC_MAX_REVERSE_CLIENT_CONNECTIONS"

definition world_typed :: "sc_world \<Rightarrow> bool" where
  "world_typed w \<longleftrightarrow>
     (\<forall>i. listener_typed (secureListenersArray w i)) \<and>
     lastSecureConnectionArrayIdx w \<le> SOPC_MAX_SECURE_CONNECTIONS_PLUS_BUFFERED \<and>
     serverScLastConfigIdx w \<le> SOPC_MAX_SECURE_CONNECTIONS_PLUS_BUFFERED"

named_theorems typed_simps and typed_dests and typed_rules

lemma listener_typed_zero [simp]: "listener_typed listener_zero"
  by (simp add: listener_typed_def listener_zero_def SOPC_MAX_SOCKETS_CONNECTIONS_def)

lemma world_typed_initial: "world_typed (sc_initial init locked cfgs)"
  by (simp add: world_typed_def sc_initial_def)

lemma world_typed_listener: "world_typed w \<Longrightarrow> listener_typed (secureListenersArray w i)"
  by (simp add: world_typed_def)

lemma typed_primitives [typed_simps]:
  "world_typed (sc_update i f w) = world_typed w"
  "world_typed (SOPC_SecureChannels_EnqueueInternalEventAsNext env e w) = world_typed w"
  "world_typed (post_services env o1 w) = world_typed w"
  "world_typed (SOPC_Sockets_EnqueueEvent env s w) = world_typed w"
  "world_typed (timer_cancel env t w) = world_typed w"
  "world_typed (client_config_update i g w) = world_typed w"
  "world_typed (server_config_update i g w) = world_typed w"
  "world_typed (w\<lparr>sc_timers := ts\<rparr>) = world_typed w"
  "world_typed (w\<lparr>random_calls := n\<rparr>) = world_typed w"
  "world_typed (w\<lparr>internalEvents := es\<rparr>) = world_typed w"
  "world_typed (w\<lparr>secureConnectionsArray := a\<rparr>) = world_typed w"
  by (simp_all add: world_typed_def sc_update_def SOPC_SecureChannels_EnqueueInternalEventAsNext_def post_services_def
      SOPC_Sockets_EnqueueEvent_def timer_cancel_def client_config_update_def server_config_update_def Let_def)

lemma typed_stop_timer [typed_simps]: "world_typed (stop_connection_timer env idx w) = world_typed w"
  by (simp add: stop_connection_timer_def typed_simps)

lemma typed_timer_create [typed_dests]: "timer_create env e ms w = (i, w') \<Longrightarrow> world_typed w' = world_typed w"
  by (auto simp: timer_create_def typed_simps split: prod.splits)

lemma typed_draw_nonce [typed_dests]: "draw_nonce env provider w = (nonce, w') \<Longrightarrow> world_typed w' = world_typed w"
  by (auto simp: draw_nonce_def typed_simps split: option.splits)

lemma typed_fold:
  assumes "\<And>x w. world_typed (f x w) = world_typed w"
  shows "world_typed (fold f xs w) = world_typed w"
  using assms by (induction xs arbitrary: w) simp_all

lemma typed_pending: "world_typed (SC_Client_ClearPendingRequest env req w) = world_typed w"
  by (simp add: SC_Client_ClearPendingRequest_def Let_def typed_simps)

lemmas typed_folds [typed_simps] = typed_fold [of "SC_Client_ClearPendingRequest env" for env, OF typed_pending]
  typed_fold [of "timer_cancel env" for env, OF typed_primitives(5)]
  typed_fold [of "\<lambda>x. SOPC_SecureChannels_EnqueueInternalEventAsNext env (f x)" for env f, OF typed_primitives(2)]

lemma typed_listener_update:
  "world_typed w \<Longrightarrow> (\<And>l. listener_typed l \<Longrightarrow> listener_typed (f l)) \<Longrightarrow> world_typed (listener_update ep f w)"
  by (simp add: world_typed_def listener_update_def)

lemma ensures_bindI: "ensures r (\<lambda>x. ensures (f x) Q) \<Longrightarrow> ensures (Option.bind r f) Q"
  by (simp add: ensures_bind)

lemma ensures_boolI:
  "(b \<Longrightarrow> ensures r Q) \<Longrightarrow> (\<not> b \<Longrightarrow> ensures s Q) \<Longrightarrow> ensures (case b of True \<Rightarrow> r | False \<Rightarrow> s) Q"
  by (cases b) simp_all

lemma ensures_mapI: "ensures r (\<lambda>x. Q (f x)) \<Longrightarrow> ensures (map_option f r) Q"
  by (simp add: ensures_map_option)

lemmas typed_intros = ensures_intros ensures_bindI ensures_boolI ensures_mapI

lemma ensures_allI: "(\<And>x. Q x) \<Longrightarrow> ensures r Q"
  by (simp add: ensures_def)

section \<open>Closure and timers\<close>

lemma retry_timer_typed:
  "world_typed w \<Longrightarrow> ensures (SC_Server_StartReverseConnRetryTimer env ep idx w) world_typed"
  unfolding SC_Server_StartReverseConnRetryTimer_def Let_def
  by (intro ensures_intros) (auto simp: world_typed_def listener_typed_def timer_create_def split: prod.splits)

lemma CloseConnection_typed: "world_typed w \<Longrightarrow> ensures (SC_CloseConnection env idx sf w) (\<lambda>(ok, w'). world_typed w')"
  unfolding SC_CloseConnection_def Let_def
  by (intro ensures_intros) (auto simp: typed_simps)

lemma SendErrorMsgAndClose_typed:
  "world_typed w \<Longrightarrow> ensures (SC_Server_SendErrorMsgAndClose env idx err reason w) (\<lambda>(ok, w'). world_typed w')"
  unfolding SC_Server_SendErrorMsgAndClose_def Let_def
  by (intro ensures_intros ensures_any) (auto simp: typed_simps)

lemma SendCloseRequest_typed:
  "world_typed w \<Longrightarrow> ensures (SC_Client_SendCloseSecureChannelRequestAndClose env idx err reason w) world_typed"
  unfolding SC_Client_SendCloseSecureChannelRequestAndClose_def Let_def
  apply (rule ensures_spec [where P = "\<lambda>(ok, w'). world_typed w'"])
   apply (intro ensures_intros ensures_any; simp add: typed_simps)
  apply (rule ensures_prodI ensures_ifI ensures_spec [OF CloseConnection_typed] ensures_SomeI | (auto simp: typed_simps; fail))+
  done

lemma CloseSecureConnection_typed:
  "world_typed w \<Longrightarrow> ensures (SC_CloseSecureConnection env sc idx im sf err reason h w) world_typed"
  unfolding SC_CloseSecureConnection_def close_client_connection_def close_server_connection_def retry_reverse_connection_def Let_def
  by (rule ensures_intros ensures_bindI ensures_mono [OF CloseConnection_typed] ensures_mono [OF SendCloseRequest_typed]
      ensures_mono [OF SendErrorMsgAndClose_typed] ensures_mono [OF retry_timer_typed] | (auto simp: typed_simps; fail)
      | rule ensures_allI)+

lemma close_with_typed: "world_typed w \<Longrightarrow> ensures (close_with env idx err reason h w) world_typed"
  unfolding close_with_def by (rule CloseSecureConnection_typed)

section \<open>Creation\<close>

lemma InitNewConnection_typed: "world_typed w \<Longrightarrow> ensures (SC_InitNewConnection env peer w) (\<lambda>(ok, idx, w'). world_typed w')"
  unfolding SC_InitNewConnection_def Let_def
  by (rule ensures_known)
    (rule ensures_intros ensures_any | (auto simp: world_typed_def sc_update_def dest!: find_free_sound; fail))+

lemma AddSecureChannelConfig_typed:
  "world_typed w \<Longrightarrow> ensures (SOPC_ToolkitServer_AddSecureChannelConfig cfg w) (\<lambda>(i, w'). world_typed w')"
  unfolding SOPC_ToolkitServer_AddSecureChannelConfig_def
  by (rule ensures_intros | rule ensures_known | (auto simp: world_typed_def dest!: find_free_sound; fail))+

section \<open>Transitions\<close>

text \<open>
  The operations are grouped by the operations they call. The rules of a group, which apply to a call whatever has
  to hold after it, are the hints of the next groups.
\<close>

lemmas closure_rules [typed_rules] = close_with_typed [THEN ensures_mono] CloseSecureConnection_typed [THEN ensures_mono]
  SendCloseRequest_typed [THEN ensures_mono] CloseConnection_typed [THEN ensures_mono]
  InitNewConnection_typed [THEN ensures_mono] AddSecureChannelConfig_typed [THEN ensures_mono]

lemma steps_typed:
  assumes "world_typed w"
  shows
    "ensures (SC_StartConnectionEstablishTimer env idx w) (\<lambda>(a, w'). world_typed w')"
    "ensures (SC_Client_StartOPNrenewTimer env idx ms w) (\<lambda>(a, w'). world_typed w')"
    "ensures (SC_ClientTransition_TcpInit_To_TcpNegotiate env idx w) (\<lambda>(a, w'). world_typed w')"
    "ensures (SC_ServerTransition_TcpInit_To_TcpNegotiate env idx b err w) (\<lambda>(a, b, w'). world_typed w')"
    "ensures (SC_ServerTransition_TcpNegotiate_To_ScInit env idx b err w) (\<lambda>(a, b, w'). world_typed w')"
    "ensures (SC_ClientTransition_TcpNegotiate_To_ScInit env idx b w) (\<lambda>(a, w'). world_typed w')"
    "ensures (SC_ServerTransition_TcpReverseInit_To_TcpInit env idx w) (\<lambda>(a, w'). world_typed w')"
    "ensures (SC_ClientTransitionHelper_SendOPN env idx renew w) (\<lambda>(a, w'). world_typed w')"
    "ensures (SC_Server_GenerateFreshSecureChannelAndTokenId env idx w) (\<lambda>(a, w'). world_typed w')"
    "ensures (SC_Server_GenerateFreshTokenId env idx w) (\<lambda>(a, w'). world_typed w')"
    "ensures (server_keys env idx err w) (\<lambda>(a, b, c, d, w'). world_typed w')"
    "ensures (SC_ServerTransition_ScConnected_To_ScConnectedRenew env idx b err w) (\<lambda>(a, b, c, d, e, w'). world_typed w')"
    "ensures (sc_init_key_and_certs env idx w) (\<lambda>(a, w'). world_typed w')"
  unfolding SC_StartConnectionEstablishTimer_def SC_Client_StartOPNrenewTimer_def
    SC_ClientTransition_TcpInit_To_TcpNegotiate_def SC_ServerTransition_TcpInit_To_TcpNegotiate_def
    SC_ServerTransition_TcpNegotiate_To_ScInit_def SC_ClientTransition_TcpNegotiate_To_ScInit_def
    SC_ServerTransition_TcpReverseInit_To_TcpInit_def SC_ClientTransitionHelper_SendOPN_def
    SC_Server_GenerateFreshSecureChannelAndTokenId_def SC_Server_GenerateFreshTokenId_def server_keys_def
    SC_ServerTransition_ScConnected_To_ScConnectedRenew_def sc_init_key_and_certs_def Let_def
  using assms
  by - (rule typed_intros typed_rules | (auto simp: typed_simps split: option.splits if_splits dest!: typed_dests; fail)
      | rule ensures_allI)+

lemmas steps_typed_rules [typed_rules] = steps_typed [THEN ensures_mono]

lemma openings_typed:
  assumes "world_typed w"
  shows
    "ensures (SC_ClientTransition_ScInit_To_ScConnecting env idx w) (\<lambda>(a, w'). world_typed w')"
    "ensures (SC_ClientTransition_ScConnected_To_ScConnectedRenew env idx w) (\<lambda>(a, w'). world_typed w')"
    "ensures (SC_ClientTransitionHelper_ReceiveOPN env idx cfg b renew err w) (\<lambda>(a, b, w'). world_typed w')"
    "ensures (treat_open_request env idx epc req detailed err w) (\<lambda>(a, b, c, w'). world_typed w')"
    "ensures (new_channel_keys env idx mode err w) (\<lambda>(a, b, c, d, w'). world_typed w')"
    "ensures (renew_keys env idx mode err w) (\<lambda>(a, b, c, d, w'). world_typed w')"
    "ensures (initServerSC env sock ep rv ri peer w) (\<lambda>(a, b, w'). world_typed w')"
  unfolding SC_ClientTransition_ScInit_To_ScConnecting_def SC_ClientTransition_ScConnected_To_ScConnectedRenew_def
    SC_ClientTransitionHelper_ReceiveOPN_def treat_open_request_def new_channel_keys_def renew_keys_def initServerSC_def
    add_channel_config_def Let_def
  using assms
  by - (rule typed_intros typed_rules | (auto simp: typed_simps split: option.splits if_splits dest!: typed_dests; fail)
      | rule ensures_allI)+

lemmas openings_typed_rules [typed_rules] = openings_typed [THEN ensures_mono]

lemma channels_typed:
  assumes "world_typed w"
  shows
    "ensures (SC_ClientTransition_ScConnecting_To_ScConnected env idx b err w) (\<lambda>(a, b, w'). world_typed w')"
    "ensures (SC_ClientTransition_ScConnectedRenew_To_ScConnected env idx b err w) (\<lambda>(a, b, w'). world_typed w')"
    "ensures (SC_ServerTransition_ScInit_To_ScConnecting env idx b h err w) (\<lambda>(a, b, c, d, e, w'). world_typed w')"
    "ensures (SC_ServerTransition_ScConnecting_To_ScConnected env idx r h err w) (\<lambda>(a, b, c, w'). world_typed w')"
    "ensures (SC_ServerTransition_ScConnectedRenew_To_ScConnected env idx r h l err w) (\<lambda>(a, b, w'). world_typed w')"
  unfolding SC_ClientTransition_ScConnecting_To_ScConnected_def SC_ClientTransition_ScConnectedRenew_To_ScConnected_def
    SC_ServerTransition_ScInit_To_ScConnecting_def SC_ServerTransition_ScConnecting_To_ScConnected_def
    SC_ServerTransition_ScConnectedRenew_To_ScConnected_def Let_def
  using assms
  by - (rule typed_intros typed_rules | (auto simp: typed_simps split: option.splits if_splits dest!: typed_dests; fail)
      | rule ensures_allI)+

lemmas channels_typed_rules [typed_rules] = channels_typed [THEN ensures_mono]

section \<open>Events of the connections\<close>

lemma opens_typed:
  assumes "world_typed w"
  shows
    "ensures (onClientSideOpen env idx b w) world_typed"
    "ensures (onServerSideOpen env idx b r w) world_typed"
  unfolding onClientSideOpen_def onServerSideOpen_def server_new_channel_def server_renew_channel_def Let_def
  using assms
  by - (rule typed_intros typed_rules | (auto simp: typed_simps split: option.splits if_splits dest!: typed_dests; fail)
      | rule ensures_allI)+

lemmas opens_typed_rules [typed_rules] = opens_typed [THEN ensures_mono]

lemma handlers_typed:
  assumes "world_typed w"
  shows
    "ensures (on_ep_sc_create env ep peer aux w) world_typed"
    "ensures (on_ep_sc_reverse_connect env ep aux w) world_typed"
    "ensures (on_rcv_hel env idx bp w) world_typed"
    "ensures (on_rcv_rhe env idx bp w) world_typed"
    "ensures (on_rcv_rhe_transition env idx w) world_typed"
    "ensures (on_rcv_ack env idx bp w) world_typed"
    "ensures (on_rcv_opn env idx bp r w) world_typed"
    "ensures (on_rcv_clo env idx bp w) world_typed"
    "ensures (on_rcv_msg_chunks env idx bp r w) world_typed"
    "ensures (on_rcv_msg_chunk_abort env idx bp r w) world_typed"
    "ensures (on_rcv_err env idx bp w) world_typed"
    "ensures (on_connection_timeout env idx w) world_typed"
    "ensures (on_request_timeout env idx aux w) world_typed"
    "ensures (on_sc_connect env i reverse w) world_typed"
    "ensures (on_sc_disconnect env idx err w) world_typed"
    "ensures (SOPC_Internal_SC_ReEvaluate env s own idx w) world_typed"
  unfolding on_ep_sc_create_def on_ep_sc_reverse_connect_def on_rcv_hel_def on_rcv_rhe_def on_rcv_rhe_transition_def
    on_rcv_ack_def on_rcv_opn_def on_rcv_clo_def on_rcv_msg_chunks_def on_rcv_msg_chunk_abort_def on_rcv_err_def
    on_connection_timeout_def on_request_timeout_def on_sc_connect_def on_sc_disconnect_def SOPC_Internal_SC_ReEvaluate_def
    SC_ClientTransition_Connected_To_Disconnected_def SOPC_Internal_Sc_CheckOwnCertChange_def
    SOPC_Internal_Sc_RevalidatePeerCert_def Let_def
  using assms
  by - (rule typed_intros typed_rules | (auto simp: typed_simps split: option.splits if_splits dest!: typed_dests; fail)
      | rule ensures_allI)+

lemmas handlers_typed_rules [typed_rules] = handlers_typed [THEN ensures_mono]

lemma on_snd_failure_typed: "world_typed w \<Longrightarrow> ensures (on_snd_failure env f w) world_typed"
  by (cases f) (simp_all add: on_snd_failure_def Let_def ensures_simps typed_simps close_with_typed)

lemma on_rcv_typed: "world_typed w \<Longrightarrow> ensures (on_rcv env e w) world_typed"
  by (cases "le_event e") (simp_all add: on_rcv_def Let_def ensures_simps handlers_typed close_with_typed)

lemma connection_internal_typed:
  "world_typed w \<Longrightarrow> ensures (SOPC_SecureConnectionStateMgr_OnInternalEvent env e w) world_typed"
  by (cases e) (simp_all add: SOPC_SecureConnectionStateMgr_OnInternalEvent_def ensures_simps handlers_typed on_rcv_typed on_snd_failure_typed close_with_typed
      CloseSecureConnection_typed)

lemma connection_socket_typed:
  assumes "world_typed w"
  shows "ensures (SOPC_SecureConnectionStateMgr_OnSocketEvent env e w) world_typed"
proof -
  have "ensures (do {
      (ok, w) \<leftarrow> (if s then SC_ServerTransition_TcpReverseInit_To_TcpInit env idx w
                  else SC_ClientTransition_TcpInit_To_TcpNegotiate env idx w);
      if ok then Some w else close_with env idx err reason h w }) world_typed" for s idx err reason h
    using assms by - (rule typed_intros typed_rules | (auto; fail))+
  then show ?thesis
    using assms by (cases e) (simp_all add: SOPC_SecureConnectionStateMgr_OnSocketEvent_def Let_def ensures_None ensures_Some
        ensures_if typed_simps CloseSecureConnection_typed)
qed

lemma connection_timer_typed:
  assumes typed: "world_typed w"
  shows "ensures (SOPC_SecureConnectionStateMgr_OnTimerEvent env e w) world_typed"
proof (cases e)
  case (TIMER_SC_CLIENT_OPN_RENEW idx)
  show ?thesis
    unfolding TIMER_SC_CLIENT_OPN_RENEW SOPC_SecureConnectionStateMgr_OnTimerEvent_def SOPC_SecureChannels_TimerEvent.case Let_def
    using typed by - (rule typed_intros typed_rules | (auto simp: typed_simps; fail))+
next
  case (TIMER_SC_SERVER_REVERSE_CONN_RETRY ep params)
  then show ?thesis
    using typed by (simp add: SOPC_SecureConnectionStateMgr_OnTimerEvent_def Let_def ensures_simps typed_simps)
      (simp add: world_typed_def listener_typed_def)
qed (use typed in \<open>simp_all add: SOPC_SecureConnectionStateMgr_OnTimerEvent_def ensures_simps handlers_typed\<close>)

lemma apply_to_scs_typed:
  "(\<And>i w. world_typed w \<Longrightarrow> ensures (f i w) world_typed) \<Longrightarrow> world_typed w \<Longrightarrow> ensures (apply_to_scs f is w) world_typed"
  by (induction "is" arbitrary: w) (auto simp: ensures_Some ensures_None intro: ensures_spec)

lemma on_disconnected_ack_typed: "world_typed w \<Longrightarrow> world_typed (on_disconnected_ack idx cfg w)"
  by (auto simp: on_disconnected_ack_def SOPC_ToolkitServer_RemoveSecureChannelConfig_def Let_def world_typed_def sc_update_def
      split: option.splits)

lemma connection_input_typed:
  "world_typed w \<Longrightarrow> ensures (SOPC_SecureConnectionStateMgr_Dispatcher env e w) world_typed"
  by (cases e) (simp_all add: SOPC_SecureConnectionStateMgr_Dispatcher_def ensures_simps handlers_typed
      on_service_snd_msg_def typed_simps close_with_typed on_disconnected_ack_typed SC_ApplyToAllSCs_def
      apply_to_scs_typed split: option.splits)

section \<open>Connections of a listener\<close>

text \<open>The search of a free slot stays inside of the array.\<close>

lemma free_slot_sound:
  assumes run: "free_slot used last_idx idx = Some (found, k)" and idx: "idx < SOPC_MAX_SOCKETS_CONNECTIONS"
  shows "k < SOPC_MAX_SOCKETS_CONNECTIONS \<and> found = (\<not> used ! k)"
proof -
  have "idx < 50 \<longrightarrow> k < 50 \<and> found = (\<not> used ! k)"
    by (rule free_slot.raw_induct [where P = "\<lambda>used last_idx idx (found, k). idx < 50 \<longrightarrow> k < 50 \<and> found = (\<not> used ! k)",
          OF _ run, simplified prod.case])
      (fastforce simp: Let_def SOPC_MAX_SOCKETS_CONNECTIONS_def split: if_splits)
  then show ?thesis using idx by (simp add: SOPC_MAX_SOCKETS_CONNECTIONS_def)
qed

lemma AddConnection_typed:
  assumes "listener_typed l"
  shows "ensures (SOPC_SecureListenerStateMgr_AddConnection l idx) (\<lambda>(ok, l'). listener_typed l')"
  unfolding SOPC_SecureListenerStateMgr_AddConnection_def
  by (rule ensures_known)
    (use assms in \<open>auto simp: ensures_simps listener_typed_def SOPC_MAX_SOCKETS_CONNECTIONS_def dest!: free_slot_sound\<close>)

lemma RemoveConnection_typed: "listener_typed l \<Longrightarrow> listener_typed (SOPC_SecureListenerStateMgr_RemoveConnection idx l)"
  by (auto simp: SOPC_SecureListenerStateMgr_RemoveConnection_def listener_typed_def split: option.splits)

lemma remove_from_listener_typed:
  "world_typed w \<Longrightarrow> world_typed (listener_update ep (SOPC_SecureListenerStateMgr_RemoveConnection idx) w)"
  by (rule typed_listener_update [OF _ RemoveConnection_typed])

lemma put_listener_typed: "world_typed w \<Longrightarrow> listener_typed l \<Longrightarrow> world_typed (listener_update ep (\<lambda>_. l) w)"
  by (rule typed_listener_update)

lemmas listener_typed_rules = remove_from_listener_typed put_listener_typed typed_listener_update

lemma GetListener_typed:
  "SOPC_SecureListenerStateMgr_GetListener ep w = Some l \<Longrightarrow> world_typed w \<Longrightarrow> listener_typed l"
  by (auto simp: SOPC_SecureListenerStateMgr_GetListener_def world_typed_listener split: if_splits)

lemma add_to_listener_typed: "world_typed w \<Longrightarrow> ensures (add_to_listener env ep idx acc r f w) world_typed"
  unfolding add_to_listener_def
  by (rule ensures_intros ensures_spec [OF AddConnection_typed]
      | (auto simp: typed_simps intro: listener_typed_rules GetListener_typed; fail))+

lemma opening_listener_typed:
  "SOPC_SecureListenerStateMgr_OpeningListener ep r w = (res, w') \<Longrightarrow> world_typed w \<Longrightarrow> world_typed w'"
  "SOPC_SecureListenerStateMgr_NoListener ep w = (res, w') \<Longrightarrow> world_typed w \<Longrightarrow> world_typed w'"
  by (auto simp: SOPC_SecureListenerStateMgr_OpeningListener_def SOPC_SecureListenerStateMgr_NoListener_def listener_typed_def
      split: if_splits intro!: listener_typed_rules)

lemma close_ep_typed:
  assumes "world_typed w"
  shows "ensures (SOPC_SecureListenerStateMgr_CloseEpListener env c ep sf w) (\<lambda>(ok, w'). world_typed w')"
  unfolding SOPC_SecureListenerStateMgr_CloseEpListener_def cancel_retry_timers_def enqueue_all_def Let_def
  using assms by (cases "sl_state (secureListenersArray w ep)") (auto simp: ensures_simps typed_simps intro!: listener_typed_rules)

lemma close_reverse_ep_typed:
  "SOPC_SecureListenerStateMgr_CloseReverseEpListener env ep sf w = (res, w') \<Longrightarrow> world_typed w \<Longrightarrow> world_typed w'"
  by (auto simp: SOPC_SecureListenerStateMgr_CloseReverseEpListener_def enqueue_all_def Let_def typed_simps
      split: if_splits intro!: listener_typed_rules)

lemma switch_typed:
  "SOPC_SecureListenerStateMgr_SwitchWaitingConnectionWithToken i j w = Some w' \<Longrightarrow> world_typed w' = world_typed w"
  by (auto simp: SOPC_SecureListenerStateMgr_SwitchWaitingConnectionWithToken_def bind_eq_Some_conv typed_simps split: if_splits)

section \<open>Events of the listeners\<close>

lemma on_rhe_decoded_typed: "world_typed w \<Longrightarrow> ensures (on_rhe_decoded env idx uri url w) world_typed"
  unfolding on_rhe_decoded_def Let_def
  apply (rule ensures_intros | (simp add: typed_simps; fail))+
  apply (rule ensures_any)
  apply (rule ensures_intros | (simp add: typed_simps; fail))+
  apply (rule ensures_known)
  apply (rule ensures_spec [OF CloseConnection_typed])
   apply (simp add: switch_typed typed_simps; fail)
  apply (auto simp: ensures_simps typed_simps intro!: remove_from_listener_typed)
  done

lemma listener_internal_typed:
  "world_typed w \<Longrightarrow> ensures (SOPC_SecureListenerStateMgr_OnInternalEvent env e w) world_typed"
  by (cases e) (auto simp: SOPC_SecureListenerStateMgr_OnInternalEvent_def Let_def ensures_simps typed_simps add_to_listener_typed
      on_rhe_decoded_typed remove_from_listener_typed)

lemma new_token_typed:
  "world_typed w \<Longrightarrow> ensures (new_token_connection env ep sock w) (\<lambda>(ok, i, w'). world_typed w')"
  unfolding new_token_connection_def SOPC_SecureListenerStateMgr_SC_Token_ReverseHelloTimer_def Let_def
  by (rule typed_intros typed_rules ensures_mono [OF AddConnection_typed]
      | (auto simp: typed_simps world_typed_listener dest!: typed_dests intro!: put_listener_typed; fail) | rule ensures_allI)+

lemma on_reverse_socket_typed: "world_typed w \<Longrightarrow> ensures (on_reverse_socket env ep sock w) world_typed"
  unfolding on_reverse_socket_def
  apply (rule ensures_any)
  apply (rule ensures_spec [where P = "\<lambda>(ok, i, w'). world_typed w'"])
   apply (rule ensures_intros new_token_typed | (simp; fail))+
  apply (rule typed_intros typed_rules | (auto simp: typed_simps; fail))+
  done

lemma listener_socket_typed:
  assumes "world_typed w"
  shows "ensures (SOPC_SecureListenerStateMgr_OnSocketEvent env e w) world_typed"
proof -
  have close: "ensures (SOPC_SecureListenerStateMgr_CloseEpListener env c ep sf w) (\<lambda>x. world_typed (snd x))" for c ep sf
    by (rule ensures_mono [OF close_ep_typed [OF assms]]) auto
  have reverse: "world_typed (snd (SOPC_SecureListenerStateMgr_CloseReverseEpListener env ep sf w))" for ep sf
    using close_reverse_ep_typed [OF prod.collapse [symmetric] assms] .
  show ?thesis
    unfolding SOPC_SecureListenerStateMgr_OnSocketEvent_def
    using assms by (cases e) (auto simp: ensures_simps typed_simps listener_typed_def on_reverse_socket_typed close reverse
        split: option.splits intro!: typed_listener_update ensures_allI)
qed

lemma on_ep_open_typed: "world_typed w \<Longrightarrow> ensures (on_ep_open env ep w) world_typed"
  unfolding on_ep_open_def Let_def
  apply (rule ensures_any)
  apply (intro ensures_intros, simp)
  apply (rule ensures_spec [where P = "\<lambda>(ok, w'). world_typed w'"])
   apply (rule ensures_intros ensures_any | (auto dest: opening_listener_typed simp: typed_simps; fail))+
  done

lemma listener_input_typed:
  assumes typed: "world_typed w"
  shows "ensures (SOPC_SecureListenerStateMgr_Dispatcher env e w) world_typed"
proof (cases e)
  case (EP_OPEN ep)
  then show ?thesis by (simp add: SOPC_SecureListenerStateMgr_Dispatcher_def on_ep_open_typed typed)
next
  case (EP_CLOSE ep)
  show ?thesis
    unfolding EP_CLOSE SOPC_SecureListenerStateMgr_Dispatcher_def SOPC_SecureChannels_InputEvent.case
    by (rule ensures_any typed_intros ensures_mono [OF close_ep_typed] | (use typed in \<open>auto simp: typed_simps; fail\<close>))+
next
  case (REVERSE_EP_OPEN ep)
  show ?thesis
    unfolding REVERSE_EP_OPEN SOPC_SecureListenerStateMgr_Dispatcher_def Let_def SOPC_SecureChannels_InputEvent.case
    using typed by (intro ensures_intros ensures_any) (auto dest: opening_listener_typed simp: typed_simps)
next
  case (REVERSE_EP_CLOSE ep)
  show ?thesis
    unfolding REVERSE_EP_CLOSE SOPC_SecureListenerStateMgr_Dispatcher_def Let_def SOPC_SecureChannels_InputEvent.case
    using typed by (intro ensures_intros) (auto dest: close_reverse_ep_typed simp: typed_simps)
qed (simp_all add: SOPC_SecureListenerStateMgr_Dispatcher_def ensures_None)

lemma listener_timer_typed:
  assumes typed: "world_typed w"
  shows "ensures (SOPC_SecureListenerStateMgr_OnTimerEvent env e w) world_typed"
proof (cases e)
  case (TIMER_SC_RHE_RECEPTION_TIMEOUT idx)
  show ?thesis
    unfolding TIMER_SC_RHE_RECEPTION_TIMEOUT SOPC_SecureListenerStateMgr_OnTimerEvent_def Let_def
      SOPC_SecureChannels_TimerEvent.case
    by (rule ensures_intros ensures_spec [OF CloseConnection_typed] ensures_any
        | (use typed in \<open>auto intro: remove_from_listener_typed; fail\<close>))+
qed (simp_all add: SOPC_SecureListenerStateMgr_OnTimerEvent_def ensures_None)

section \<open>Every step\<close>

lemma layer_timer_typed: "world_typed w \<Longrightarrow> ensures (SOPC_SecureChannels_OnTimerEvent env e w) world_typed"
  unfolding SOPC_SecureChannels_OnTimerEvent_def
  by (cases e) (simp_all add: connection_timer_typed listener_timer_typed)

lemma layer_input_typed: "world_typed w \<Longrightarrow> ensures (SOPC_SecureChannels_OnInputEvent env e w) world_typed"
  by (cases e) (simp_all add: SOPC_SecureChannels_OnInputEvent_def ensures_simps connection_input_typed listener_input_typed
      on_server_configured_def SOPC_ToolkitServer_UsingLockedConfig_def world_typed_def split: prod.splits)

lemma layer_step_typed: "layer_step env e w w' \<Longrightarrow> world_typed w \<Longrightarrow> world_typed w'"
proof (induction rule: layer_step.induct)
  case (chunks_internal idx w c e b aux p sent failures provider asymInfo w' ts)
  then show ?case by (simp add: post_sent_def typed_simps)
next
  case (chunks_socket idx w c b p evs provider asymInfo w' ts)
  then show ?case by (simp add: typed_simps)
qed (auto dest: ensuresD [OF connection_internal_typed] ensuresD [OF listener_internal_typed]
    ensuresD [OF connection_socket_typed] ensuresD [OF listener_socket_typed] ensuresD [OF layer_timer_typed]
    ensuresD [OF layer_input_typed])

lemma reachable_world_typed: "layer_reachable allowed w \<Longrightarrow> world_typed w"
  by (induction rule: layer_reachable.induct) (auto simp: world_typed_initial intro: layer_step_typed)

end
