(* ===== verification/SC_Listener_Laws.thy ===== *)
theory SC_Listener_Laws
  imports SC_Typed "HOL-Library.Multiset"
begin

text \<open>
  The connections of a listener as a bag of indexes: the search of a free slot ends, adding a connection adds its
  index to the bag, removing it removes one occurrence.
\<close>

section \<open>The search of a free slot\<close>

lemma free_slot_result:
  assumes "idx < 50" "(idx + d) mod 50 = last_idx" "0 < d" "d \<le> 50"
  shows "\<exists>found k. free_slot used last_idx idx = Some (found, k) \<and>
    (if found then \<exists>j < d. k = (idx + j) mod 50 \<and> \<not> used ! k else \<forall>j < d. used ! ((idx + j) mod 50))"
  using assms
proof (induction d arbitrary: idx)
  case 0
  then show ?case by simp
next
  case (Suc d)
  have step: "free_slot used last_idx idx =
      (if (idx + 1) mod 50 \<noteq> last_idx \<and> used ! idx then free_slot used last_idx ((idx + 1) mod 50) else Some (\<not> used ! idx, idx))"
    by (subst free_slot.simps) (simp add: Let_def SOPC_MAX_SOCKETS_CONNECTIONS_def)
  show ?case
  proof (cases "used ! idx")
    case False
    then show ?thesis using step Suc.prems by (auto intro!: exI [of _ 0])
  next
    case used: True
    have all: "(\<forall>j < Suc d. used ! ((idx + j) mod 50)) \<longleftrightarrow> (\<forall>j < d. used ! ((idx + 1 + j) mod 50))"
      using used Suc.prems(1) by (simp add: All_less_Suc2)
    show ?thesis
    proof (cases "(idx + 1) mod 50 = last_idx")
      case True
      have "(last_idx + d) mod 50 = last_idx" using True Suc.prems(2) by (auto simp: mod_simps)
      moreover have "last_idx < 50" using True by auto
      ultimately have "d = 0" using Suc.prems(4) by (cases "last_idx + d < 50") (auto simp: mod_if split: if_splits)
      then show ?thesis using True step used Suc.prems by auto
    next
      case False
      then have "0 < d" using Suc.prems by (cases d) auto
      have shift: "((idx + 1) mod 50 + j) mod 50 = (idx + Suc j) mod 50" for j by (simp add: mod_simps)
      obtain found k where r: "free_slot used last_idx ((idx + 1) mod 50) = Some (found, k)"
          "if found then \<exists>j < d. k = (idx + Suc j) mod 50 \<and> \<not> used ! k else \<forall>j < d. used ! ((idx + Suc j) mod 50)"
        using Suc.IH [of "(idx + 1) mod 50"] Suc.prems \<open>0 < d\<close> unfolding shift by auto
      have "free_slot used last_idx idx = Some (found, k)" using step used False r(1) by simp
      moreover have "if found then \<exists>j < Suc d. k = (idx + j) mod 50 \<and> \<not> used ! k else \<forall>j < Suc d. used ! ((idx + j) mod 50)"
        using r(2) all by (cases found) (auto intro: Suc_mono)
      ultimately show ?thesis by blast
    qed
  qed
qed

lemma free_slot_total:
  assumes "last_idx < 50"
  shows "\<exists>found k. free_slot used last_idx ((last_idx + 1) mod 50) = Some (found, k) \<and>
    (if found then k < 50 \<and> k \<noteq> last_idx \<and> \<not> used ! k else \<forall>k < 50. k \<noteq> last_idx \<longrightarrow> used ! k)"
proof -
  have other: "(last_idx + 1 + j) mod 50 \<noteq> last_idx" if "j < 49" for j
    using assms that by (cases "last_idx + 1 + j < 50") (auto simp: mod_if)
  have all: "\<exists>j < 49. k = (last_idx + 1 + j) mod 50" if "k < 50" "k \<noteq> last_idx" for k
  proof (cases "last_idx < k")
    case True
    then show ?thesis using that by (intro exI [of _ "k - last_idx - 1"]) auto
  next
    case False
    then show ?thesis using that assms by (intro exI [of _ "k + 49 - last_idx"]) auto
  qed
  have shift: "((last_idx + 1) mod 50 + j) mod 50 = (last_idx + 1 + j) mod 50" for j by (rule mod_add_left_eq)
  obtain found k where r: "free_slot used last_idx ((last_idx + 1) mod 50) = Some (found, k)"
      "if found then \<exists>j < 49. k = (last_idx + 1 + j) mod 50 \<and> \<not> used ! k
       else \<forall>j < 49. used ! ((last_idx + 1 + j) mod 50)"
    using free_slot_result [of "(last_idx + 1) mod 50" 49 last_idx used] assms unfolding shift by auto
  have "if found then k < 50 \<and> k \<noteq> last_idx \<and> \<not> used ! k else \<forall>k < 50. k \<noteq> last_idx \<longrightarrow> used ! k"
  proof (cases found)
    case True
    then obtain j where "j < 49" "k = (last_idx + 1 + j) mod 50" "\<not> used ! k" using r(2) by auto
    with True other show ?thesis by simp
  next
    case False
    with r(2) all show ?thesis by (metis (full_types))
  qed
  with r(1) show ?thesis by blast
qed

section \<open>The slots as a bag\<close>

lemma indexes_take_slot:
  "length cs = length us \<Longrightarrow> k < length us \<Longrightarrow> \<not> us ! k \<Longrightarrow>
   mset (map fst (filter snd (zip (cs[k := c]) (us[k := True])))) = add_mset c (mset (map fst (filter snd (zip cs us))))"
proof (induction cs us arbitrary: k rule: list_induct2')
  case (4 c' cs u us)
  then show ?case by (cases k) auto
qed auto

lemma slot_of_range: "slot_of c cs us = Some k \<Longrightarrow> k < length us \<and> k < length cs \<and> us ! k \<and> cs ! k = c"
  by (induction c cs us arbitrary: k rule: slot_of.induct) (auto split: if_splits)

lemma indexes_free_slot:
  "slot_of c cs us = Some k \<Longrightarrow>
   mset (map fst (filter snd (zip (cs[k := x]) (us[k := False])))) = mset (map fst (filter snd (zip cs us))) - {#c#}"
proof (induction c cs us arbitrary: k rule: slot_of.induct)
  case (1 c i "is" u us)
  show ?case
  proof (cases "u \<and> i = c")
    case True
    then show ?thesis using "1.prems" by simp
  next
    case False
    then obtain k' where k': "slot_of c is us = Some k'" "k = Suc k'" using "1.prems" by auto
    have "c \<in># mset (map fst (filter snd (zip is us)))"
      using slot_of_range [OF k'(1)] by (force simp: set_zip image_iff)
    then show ?thesis using "1.IH" [OF False k'(1)] k'(2) False by (auto simp: diff_single_trivial)
  qed
qed auto

lemma slot_of_None: "slot_of c cs us = None \<Longrightarrow> c \<notin> set (map fst (filter snd (zip cs us)))"
  by (induction c cs us rule: slot_of.induct) (auto split: if_splits)

section \<open>Adding and removing connections\<close>

definition listener_bag :: "SOPC_SecureListener \<Rightarrow> u32 multiset" where
  "listener_bag l = mset (listener_indexes l)"

lemma AddConnection_bag:
  assumes "listener_typed l"
  shows "\<exists>ok l'. SOPC_SecureListenerStateMgr_AddConnection l c = Some (ok, l') \<and>
    (ok \<longleftrightarrow> (\<exists>k < 50. k \<noteq> lastConnectionIdxArrayIdx l \<and> \<not> isUsedConnectionIdxArray l ! k)) \<and>
    listener_bag l' = (if ok then add_mset c (listener_bag l) else listener_bag l)"
proof -
  have len: "length (connectionIdxArray l) = 50" "length (isUsedConnectionIdxArray l) = 50" "lastConnectionIdxArrayIdx l < 50"
    using assms by (auto simp: listener_typed_def SOPC_MAX_SOCKETS_CONNECTIONS_def)
  from free_slot_total [OF len(3), of "isUsedConnectionIdxArray l"] obtain found k where
    r: "free_slot (isUsedConnectionIdxArray l) (lastConnectionIdxArrayIdx l) ((lastConnectionIdxArrayIdx l + 1) mod 50) = Some (found, k)"
      "if found then k < 50 \<and> k \<noteq> lastConnectionIdxArrayIdx l \<and> \<not> isUsedConnectionIdxArray l ! k
       else \<forall>k < 50. k \<noteq> lastConnectionIdxArrayIdx l \<longrightarrow> isUsedConnectionIdxArray l ! k"
    by blast
  then have "SOPC_SecureListenerStateMgr_AddConnection l c = Some (found,
      if found then l\<lparr>connectionIdxArray := (connectionIdxArray l)[k := c],
         isUsedConnectionIdxArray := (isUsedConnectionIdxArray l)[k := True], lastConnectionIdxArrayIdx := k\<rparr> else l)"
    by (simp add: SOPC_SecureListenerStateMgr_AddConnection_def SOPC_MAX_SOCKETS_CONNECTIONS_def)
  then show ?thesis
    using r(2) len indexes_take_slot [of "connectionIdxArray l" "isUsedConnectionIdxArray l" k c]
    by (cases found) (auto simp: listener_bag_def listener_indexes_def)
qed

lemma RemoveConnection_bag: "listener_bag (SOPC_SecureListenerStateMgr_RemoveConnection c l) = listener_bag l - {#c#}"
proof (cases "slot_of c (connectionIdxArray l) (isUsedConnectionIdxArray l)")
  case None
  then show ?thesis
    using slot_of_None [OF None]
    by (simp add: SOPC_SecureListenerStateMgr_RemoveConnection_def listener_bag_def listener_indexes_def diff_single_trivial)
next
  case (Some k)
  then show ?thesis
    using indexes_free_slot [OF Some, of 0]
    by (simp add: SOPC_SecureListenerStateMgr_RemoveConnection_def listener_bag_def listener_indexes_def)
qed

end
