(* ===== verification/Event_Timer_Laws.thy ===== *)
theory Event_Timer_Laws
  imports Event_Timer
begin

text \<open>
  The invariant of the event timers and the exact effect of an evaluation: which events are posted, in which
  order, and which timers remain.
\<close>

section \<open>Invariant\<close>

definition timer_times :: "(u32 \<times> 'e SOPC_EventTimer) list \<Rightarrow> u64 list" where
  "timer_times ts = map (\<lambda>(_, t). endTime t) ts"

definition timer_ids :: "'e event_timers \<Rightarrow> u32 list" where
  "timer_ids s = map fst (timers s) @ timerIdsFreed s"

definition timer_ok :: "u32 \<times> 'e SOPC_EventTimer \<Rightarrow> bool" where
  "timer_ok = (\<lambda>(i, t). et_id t = i \<and> (isPeriodicTimer t \<longrightarrow> 2 * SOPC_TIMER_RESOLUTION_MS \<le> unat (periodMs t)))"

definition timers_wf :: "'e event_timers \<Rightarrow> bool" where
  "timers_wf s \<longleftrightarrow> sorted (timer_times (timers s)) \<and> distinct (timer_ids s) \<and>
     (\<forall>p \<in> set (timers s). timer_ok p) \<and> (\<forall>i \<in> set (timer_ids s). 0 < i \<and> i \<le> timerIdMax s)"

lemma timers_wfD:
  assumes "timers_wf s"
  shows "sorted (timer_times (timers s))" "distinct (map fst (timers s))" "distinct (timerIdsFreed s)"
    "set (map fst (timers s)) \<inter> set (timerIdsFreed s) = {}" "\<And>p. p \<in> set (timers s) \<Longrightarrow> timer_ok p"
    "\<And>i. i \<in> set (timer_ids s) \<Longrightarrow> 0 < i \<and> i \<le> timerIdMax s"
  using assms by (auto simp: timers_wf_def timer_ids_def)

lemma timers_wf_Initialize: "timers_wf SOPC_EventTimer_Initialize"
  by (simp add: timers_wf_def SOPC_EventTimer_Initialize_def timer_times_def timer_ids_def)

section \<open>Lists of timers\<close>

lemma timer_insert_cut:
  obtains pre post where "ts = pre @ post" "timer_insert i t ts = pre @ (i, t) # post"
    "\<forall>(_, u) \<in> set pre. endTime u \<le> endTime t" "post \<noteq> [] \<Longrightarrow> endTime t < endTime (snd (hd post))"
proof -
  let ?P = "\<lambda>(_, u). SOPC_TimeReference_Compare (endTime t) (endTime u) \<ge> 0"
  have "dropWhile ?P ts \<noteq> [] \<Longrightarrow> \<not> ?P (hd (dropWhile ?P ts))" by (rule hd_dropWhile)
  then have "dropWhile ?P ts \<noteq> [] \<Longrightarrow> endTime t < endTime (snd (hd (dropWhile ?P ts)))"
    by (auto simp: split_beta not_le)
  moreover have "\<forall>(_, u) \<in> set (takeWhile ?P ts). endTime u \<le> endTime t"
    by (auto dest: set_takeWhileD)
  ultimately show ?thesis
    using that [of "takeWhile ?P ts" "dropWhile ?P ts"] by (simp add: timer_insert_def)
qed

lemma set_timer_insert [simp]: "set (timer_insert i t ts) = insert (i, t) (set ts)"
  by (rule timer_insert_cut [of ts i t]) auto

lemma distinct_fst_timer_insert:
  "distinct (map fst (timer_insert i t ts)) \<longleftrightarrow> i \<notin> fst ` set ts \<and> distinct (map fst ts)"
  by (rule timer_insert_cut [of ts i t]) auto

lemma sorted_timer_insert:
  assumes "sorted (timer_times ts)"
  shows "sorted (timer_times (timer_insert i t ts))"
proof (rule timer_insert_cut [of ts i t])
  fix pre post
  assume r: "ts = pre @ post" "timer_insert i t ts = pre @ (i, t) # post"
    "\<forall>(_, u) \<in> set pre. endTime u \<le> endTime t" "post \<noteq> [] \<Longrightarrow> endTime t < endTime (snd (hd post))"
  have "\<forall>x \<in> set (timer_times post). endTime t \<le> x"
    using r(1,4) assms by (cases post) (fastforce simp: timer_times_def sorted_append)+
  then show ?thesis using r assms by (fastforce simp: timer_times_def sorted_append)
qed

lemma requests_remove_absent: "i \<notin> fst ` set ts \<Longrightarrow> requests_remove i ts = (None, ts)"
  by (induction i ts rule: requests_remove.induct) auto

lemma requests_remove_middle:
  "i \<notin> fst ` set pre \<Longrightarrow> requests_remove i (pre @ (i, t) # post) = (Some t, pre @ post)"
  by (induction pre) (auto split: prod.splits)

lemma requests_remove_cases:
  obtains "i \<notin> fst ` set ts" "requests_remove i ts = (None, ts)"
  | pre t post where "ts = pre @ (i, t) # post" "i \<notin> fst ` set pre" "requests_remove i ts = (Some t, pre @ post)"
proof (cases "i \<in> fst ` set ts")
  case True
  then have "\<exists>y \<in> set ts. fst y = i" by auto
  then obtain pre y post where "ts = pre @ y # post" "fst y = i" "\<forall>z \<in> set pre. fst z \<noteq> i"
    by (rule split_list_first_propE)
  then have r: "ts = pre @ (i, snd y) # post" "i \<notin> fst ` set pre" by (cases y; auto)+
  show ?thesis by (rule that(2) [OF r]) (simp add: r(1) requests_remove_middle [OF r(2)])
qed (auto simp: requests_remove_absent that(1))

lemma timer_update_middle:
  "i \<notin> fst ` set pre \<Longrightarrow> i \<notin> fst ` set post \<Longrightarrow>
    timer_update i u (pre @ (i, t) # post) = pre @ (i, u) # post"
  by (force simp: timer_update_def intro: map_idI)

section \<open>Creation and cancellation\<close>

lemma Create_wf:
  assumes "timers_wf s" "SOPC_InternalEventTimer_Create env now ev ms per s = (i, s')"
  shows "timers_wf s' \<and> (i \<noteq> 0 \<longrightarrow> i \<notin> fst ` set (timers s) \<and>
    timers s' = timer_insert i \<lparr>et_id = i, et_event = ev, endTime = SOPC_TimeReference_AddMilliseconds now ms,
      isPeriodicTimer = per, periodMs = ms\<rparr> (timers s)) \<and> (i = 0 \<longrightarrow> timers s' = timers s)"
proof (cases "ms = 0 \<or> per \<and> unat ms < 2 * SOPC_TIMER_RESOLUTION_MS \<or> \<not> mem_ok env sizeof_EventTimer")
  case True
  then show ?thesis using assms by (auto simp: SOPC_InternalEventTimer_Create_def split: if_splits)
next
  case False
  obtain r s1 where f: "SOPC_Internal_GetFreshTimerId_WithoutLock s = (r, s1)" by fastforce
  have s1: "timers s1 = timers s" using f
    by (auto simp: SOPC_Internal_GetFreshTimerId_WithoutLock_def split: list.splits if_splits)
  have wf1: "timers_wf s1 \<and> (r \<noteq> 0 \<longrightarrow> r \<notin> set (timer_ids s1) \<and> r \<le> timerIdMax s1)"
  proof (cases "timerIdsFreed s")
    case Nil
    have b: "i \<le> timerIdMax s" if "i \<in> fst ` set (timers s)" for i
      using that timers_wfD(6) [OF assms(1), of i] by (auto simp: timer_ids_def)
    show ?thesis
    proof (cases "timerIdMax s < 0xFFFFFFFF")
      case True
      then have lt: "timerIdMax s < timerIdMax s + 1"
        by (simp add: word_less_nat_alt unat_word_ariths)
      then show ?thesis using f True Nil assms(1) b
        by (fastforce simp: SOPC_Internal_GetFreshTimerId_WithoutLock_def timers_wf_def timer_ids_def
            intro: order_trans [OF _ less_imp_le])
    qed (use f Nil assms(1) in \<open>auto simp: SOPC_Internal_GetFreshTimerId_WithoutLock_def\<close>)
  next
    case (Cons j js)
    then have "s1 = s\<lparr>timerIdsFreed := js\<rparr>" "r = j"
      using f by (simp_all add: SOPC_Internal_GetFreshTimerId_WithoutLock_def)
    then show ?thesis using assms(1) Cons unfolding timers_wf_def timer_ids_def by simp
  qed
  show ?thesis
  proof (cases "r = 0")
    case True
    then show ?thesis using assms(2) False f s1 wf1 by (auto simp: SOPC_InternalEventTimer_Create_def)
  next
    case r: False
    let ?t = "\<lparr>et_id = r, et_event = ev, endTime = SOPC_TimeReference_AddMilliseconds now ms,
      isPeriodicTimer = per, periodMs = ms\<rparr>"
    have fresh: "r \<notin> fst ` set (timers s)" "r \<notin> set (timerIdsFreed s1)" using wf1 r s1 by (auto simp: timer_ids_def)
    have pos: "0 < r" using r by (simp add: word_greater_zero_iff)
    have "timers_wf (s1\<lparr>timers := timer_insert r ?t (timers s1)\<rparr>)"
      using wf1 r fresh pos False s1
      by (auto simp: timers_wf_def timer_ids_def distinct_fst_timer_insert sorted_timer_insert timer_ok_def)
    moreover have "timers_wf (s1\<lparr>timerIdsFreed := timerIdsFreed s1 @ [r]\<rparr>)"
      using wf1 r fresh pos s1 by (auto simp: timers_wf_def timer_ids_def)
    ultimately show ?thesis
      using assms(2) False f r s1 wf1 fresh
      by (auto simp: SOPC_InternalEventTimer_Create_def release_timer_id_def split: if_splits)
  qed
qed

lemma Cancel_middle:
  assumes "i \<notin> fst ` set pre" "timers s = pre @ (i, t) # post"
  shows "timers (SOPC_Internal_EventTimer_Cancel_WithoutLock env i s) = pre @ post"
  using assms
  by (simp add: SOPC_Internal_EventTimer_Cancel_WithoutLock_def SOPC_Internal_EventTimer_Free_WithoutLock_def
      release_timer_id_def requests_remove_middle)

lemma Cancel_wf:
  assumes "timers_wf s"
  shows "timers_wf (SOPC_Internal_EventTimer_Cancel_WithoutLock env i s) \<and>
    timers (SOPC_Internal_EventTimer_Cancel_WithoutLock env i s) = filter (\<lambda>(j, _). j \<noteq> i) (timers s)"
proof (cases rule: requests_remove_cases [of i "timers s"])
  case 1
  then have "filter (\<lambda>(j, _). j \<noteq> i) (timers s) = timers s" by (force intro: filter_True)
  then show ?thesis using assms 1 by (simp add: SOPC_Internal_EventTimer_Cancel_WithoutLock_def)
next
  case (2 pre t post)
  have d: "i \<notin> fst ` set post" "et_id t = i"
    using timers_wfD(2,5) [OF assms] 2(1) by (auto simp: timer_ok_def)
  have "filter (\<lambda>(j, _). j \<noteq> i) pre = pre" "filter (\<lambda>(j, _). j \<noteq> i) post = post"
    using 2(2) d(1) by (force intro: filter_True)+
  moreover have "timers_wf (SOPC_Internal_EventTimer_Cancel_WithoutLock env i s)"
    using assms 2 d
    by (auto simp: SOPC_Internal_EventTimer_Cancel_WithoutLock_def SOPC_Internal_EventTimer_Free_WithoutLock_def
        release_timer_id_def timers_wf_def timer_ids_def timer_times_def sorted_append)
  ultimately show ?thesis using 2 by (simp add: Cancel_middle)
qed

section \<open>Evaluation\<close>

definition timer_due :: "u64 \<Rightarrow> u32 \<times> 'e SOPC_EventTimer \<Rightarrow> bool" where
  "timer_due now = (\<lambda>(_, t). endTime t \<le> now)"

text \<open>A periodic timer after its evaluation, and the events a due timer posts.\<close>

definition timer_missed :: "u64 \<Rightarrow> 'e SOPC_EventTimer \<Rightarrow> nat \<times> u64" where
  "timer_missed now t = missed_events SOPC_TIMER_RESOLUTION_MS now
     (SOPC_TimeReference_AddMilliseconds (endTime t) (periodMs t)) (periodMs t)"

definition timer_advance :: "u64 \<Rightarrow> u32 \<times> 'e SOPC_EventTimer \<Rightarrow> u32 \<times> 'e SOPC_EventTimer" where
  "timer_advance now = (\<lambda>(i, t). (i, t\<lparr>endTime := snd (timer_missed now t)\<rparr>))"

definition timer_posts :: "u64 \<Rightarrow> u32 \<times> 'e SOPC_EventTimer \<Rightarrow> 'e list" where
  "timer_posts now =
     (\<lambda>(_, t). replicate (if isPeriodicTimer t then Suc (fst (timer_missed now t)) else 1) (et_event t))"

definition periodic :: "u32 \<times> 'e SOPC_EventTimer \<Rightarrow> bool" where
  "periodic = (\<lambda>(_, t). isPeriodicTimer t)"

lemma missed_events_mono: "end \<le> snd (missed_events limit now end period)"
proof (induction limit arbitrary: "end")
  case (Suc limit)
  show ?case
    using order_trans [OF AddMilliseconds_mono Suc.IH [of "SOPC_TimeReference_AddMilliseconds end period"]]
    by (simp add: split_beta Let_def)
qed simp

lemma timer_advance_simps [simp]:
  "fst (timer_advance now p) = fst p" "periodic (timer_advance now p) = periodic p"
  "timer_ok (timer_advance now p) = timer_ok p" "fst \<circ> timer_advance now = fst"
  by (auto simp: timer_advance_def periodic_def timer_ok_def split: prod.splits)

lemma image_fst_advance [simp]: "fst ` timer_advance now ` A = fst ` A"
  by (simp add: image_comp)

lemma expire_timers_due:
  assumes mem: "mem_total env"
    and ts: "timers s = pre @ due @ rest" "distinct (map fst (pre @ due @ rest))"
    and ok: "\<forall>p \<in> set due. timer_ok p \<and> timer_due now p" "\<forall>p \<in> set (take 1 rest). \<not> timer_due now p"
  shows "expire_timers env now (due @ rest) restart s posted =
    Some (restart @ map (snd \<circ> timer_advance now) (filter periodic due),
      s\<lparr>timers := pre @ map (timer_advance now) (filter periodic due) @ rest,
        timerIdsFreed := timerIdsFreed s @ map fst (filter (Not \<circ> periodic) due)\<rparr>,
      posted @ concat (map (timer_posts now) due))"
  using ts ok(1)
proof (induction due arbitrary: pre restart s posted)
  case Nil
  then show ?case using ok(2)
    by (cases rest) (auto simp: timer_due_def SOPC_TimeReference_Compare_def not_le)
next
  case (Cons p due)
  obtain i t where p: "p = (i, t)" by fastforce
  have i: "et_id t = i" "endTime t \<le> now" "isPeriodicTimer t \<Longrightarrow> periodMs t \<noteq> 0"
    using Cons.prems(3) p by (auto simp: timer_ok_def timer_due_def SOPC_TIMER_RESOLUTION_MS_def)
  have out: "i \<notin> fst ` set pre" "i \<notin> fst ` set (due @ rest)" using Cons.prems(2) p by auto
  have cmp: "\<not> SOPC_TimeReference_Compare now (endTime t) < 0"
    using i(2) by (auto simp: SOPC_TimeReference_Compare_def)
  have fin: "distinct (map fst (pre @ due @ rest))" "distinct (map fst ((pre @ [timer_advance now p]) @ due @ rest))"
    "\<forall>p \<in> set due. timer_ok p \<and> timer_due now p"
    using Cons.prems(2,3) p by auto
  show ?case
  proof (cases "isPeriodicTimer t")
    case True
    obtain n e where m: "missed_events SOPC_TIMER_RESOLUTION_MS now
      (SOPC_TimeReference_AddMilliseconds (endTime t) (periodMs t)) (periodMs t) = (n, e)" by fastforce
    let ?u = "t\<lparr>endTime := e\<rparr>" let ?s = "s\<lparr>timers := timer_update i ?u (timers s)\<rparr>"
    have adv: "timer_advance now p = (i, ?u)" "timer_posts now p = replicate (Suc n) (et_event t)"
      using m True by (simp_all add: p timer_advance_def timer_posts_def timer_missed_def)
    have "timers ?s = (pre @ [timer_advance now p]) @ due @ rest"
      using Cons.prems(1) p out adv timer_update_middle [OF out, of ?u t] by simp
    note ih = Cons.IH [OF this fin(2,3), of "restart @ [?u]" "posted @ replicate (Suc n) (et_event t)"]
    have "periodic p" using True by (simp add: p periodic_def)
    then show ?thesis using ih cmp True mem i m adv by (simp add: p Let_def)
  next
    case False
    let ?s = "SOPC_Internal_EventTimer_Cancel_WithoutLock env i s"
    have "?s = s\<lparr>timers := pre @ due @ rest, timerIdsFreed := timerIdsFreed s @ [i]\<rparr>"
      using Cons.prems(1) out(1) mem i(1) p
      by (simp add: SOPC_Internal_EventTimer_Cancel_WithoutLock_def SOPC_Internal_EventTimer_Free_WithoutLock_def
          release_timer_id_def requests_remove_middle)
    moreover from this have "timers ?s = pre @ due @ rest" by simp
    note ih = Cons.IH [OF this fin(1,3), of restart "posted @ [et_event t]"]
    moreover have "\<not> periodic p" "timer_posts now p = [et_event t]"
      using False by (simp_all add: p periodic_def timer_posts_def)
    ultimately show ?thesis using ih cmp False mem i by (simp add: p)
  qed
qed

lemma unlink_timers_prefix:
  "distinct (map fst (ps @ rest)) \<Longrightarrow> \<forall>p \<in> set ps. et_id (snd p) = fst p \<Longrightarrow> timers s = ps @ rest \<Longrightarrow>
    unlink_timers (map snd ps) s = Some (s\<lparr>timers := rest\<rparr>)"
  by (induction ps arbitrary: s) auto

lemma restart_timers:
  assumes "mem_total env" "\<forall>p \<in> set ps. et_id (snd p) = fst p"
  shows "fold (SOPC_InternalEventTimer_RestartPeriodicTimer_WithoutLock env) (map snd ps) s =
    s\<lparr>timers := fold (\<lambda>(i, t). timer_insert i t) ps (timers s)\<rparr>"
  using assms(2)
  by (induction ps arbitrary: s)
    (use assms(1) in \<open>auto simp: SOPC_InternalEventTimer_RestartPeriodicTimer_WithoutLock_def\<close>)

lemma fold_timer_insert:
  "set (fold (\<lambda>(i, t). timer_insert i t) ps ts) = set ps \<union> set ts"
  "sorted (timer_times ts) \<Longrightarrow> sorted (timer_times (fold (\<lambda>(i, t). timer_insert i t) ps ts))"
  "distinct (map fst (ps @ ts)) \<Longrightarrow> distinct (map fst (fold (\<lambda>(i, t). timer_insert i t) ps ts))"
  by (induction ps arbitrary: ts) (auto simp: sorted_timer_insert distinct_fst_timer_insert)

text \<open>
  The timers due now form a prefix of the sorted list: they are evaluated in the order of their end times.
\<close>

lemma due_prefix:
  assumes "sorted (timer_times ts)"
  shows "filter (timer_due now) ts = takeWhile (timer_due now) ts \<and>
    filter (\<lambda>p. \<not> timer_due now p) ts = dropWhile (timer_due now) ts"
  using assms
proof (induction ts)
  case (Cons p ts)
  show ?case
  proof (cases "timer_due now p")
    case False
    have "\<forall>q \<in> set ts. \<not> timer_due now q"
    proof
      fix q assume "q \<in> set ts"
      then have "endTime (snd p) \<le> endTime (snd q)" using Cons.prems by (auto simp: timer_times_def split_beta)
      then show "\<not> timer_due now q" using False by (auto simp: timer_due_def split_beta)
    qed
    then show ?thesis using False by (auto simp: filter_empty_conv intro: filter_True)
  qed (use Cons in \<open>auto simp: timer_times_def\<close>)
qed simp

lemma evaluation_exact:
  fixes now :: u64
  assumes "mem_total env" "timers_wf s"
  defines "due \<equiv> filter (timer_due now) (timers s)"
  defines "rest \<equiv> filter (\<lambda>p. \<not> timer_due now p) (timers s)"
  defines "again \<equiv> map (timer_advance now) (filter periodic due)"
  shows "SOPC_EventTimer_CyclicTimersEvaluation env now s =
    Some (concat (map (timer_posts now) due),
      s\<lparr>timers := fold (\<lambda>(i, t). timer_insert i t) again rest,
        timerIdsFreed := timerIdsFreed s @ map fst (filter (Not \<circ> periodic) due)\<rparr>)"
proof -
  note wf = timers_wfD [OF assms(2)]
  have cutp: "timers s = due @ rest"
    by (simp add: due_def rest_def due_prefix [OF wf(1)])
  have "\<forall>p \<in> set (take 1 rest). \<not> timer_due now p" unfolding rest_def by (auto dest: in_set_takeD)
  moreover have due: "\<forall>p \<in> set due. timer_ok p \<and> timer_due now p" using wf(5) by (auto simp: due_def)
  ultimately have ex: "expire_timers env now (timers s) [] s [] =
    Some (map snd again, s\<lparr>timers := again @ rest,
      timerIdsFreed := timerIdsFreed s @ map fst (filter (Not \<circ> periodic) due)\<rparr>, concat (map (timer_posts now) due))"
    using expire_timers_due [OF assms(1), of s "[]" due rest now "[]" "[]"] cutp wf(2) by (simp add: again_def)
  have ids: "\<forall>p \<in> set again. et_id (snd p) = fst p"
    using due by (force simp: again_def timer_advance_def timer_ok_def)
  have "distinct (map fst (again @ rest))"
    using wf(2) unfolding cutp again_def by (auto simp: distinct_map_filter)
  from unlink_timers_prefix [OF this ids] ex show ?thesis
    by (simp add: SOPC_EventTimer_CyclicTimersEvaluation_def restart_timers [OF assms(1) ids])
qed

lemma evaluation_wf:
  assumes "mem_total env" "timers_wf s" "SOPC_EventTimer_CyclicTimersEvaluation env now s = Some (posted, s')"
  shows "timers_wf s'"
proof -
  let ?due = "filter (timer_due now) (timers s)" let ?rest = "filter (\<lambda>p. \<not> timer_due now p) (timers s)"
  let ?again = "map (timer_advance now) (filter periodic ?due)"
  let ?ts = "fold (\<lambda>(i, t). timer_insert i t) ?again ?rest"
  note wf = timers_wfD [OF assms(2)]
  have cutp: "timers s = ?due @ ?rest" by (simp add: due_prefix [OF wf(1)])
  have s': "s' = s\<lparr>timers := ?ts, timerIdsFreed := timerIdsFreed s @ map fst (filter (Not \<circ> periodic) ?due)\<rparr>"
    using evaluation_exact [OF assms(1,2), of now] assms(3) by simp
  have d: "distinct (map fst ?due)" "distinct (map fst ?rest)" "fst ` set ?due \<inter> fst ` set ?rest = {}"
    using wf(2) [unfolded arg_cong [OF cutp, of "map fst"] map_append distinct_append] unfolding set_map by blast+
  have sorted: "sorted (timer_times ?ts)"
    using wf(1) cutp by (intro fold_timer_insert(2)) (metis map_append sorted_append timer_times_def)
  have dist: "distinct (map fst ?ts)"
    using d distinct_map_filter [OF d(1), of periodic] by (intro fold_timer_insert(3)) auto
  have ids: "fst ` set ?ts = fst ` set (filter periodic ?due) \<union> fst ` set ?rest"
    by (simp add: fold_timer_insert(1) image_Un)
  have apart: "fst ` set (filter periodic ?due) \<inter> fst ` set (filter (Not \<circ> periodic) ?due) = {}"
    using d(1) by (auto simp: distinct_map inj_on_def) (metis (full_types))
  have sub: "fst ` set (filter P ?due) \<subseteq> fst ` set (timers s)" "fst ` set ?rest \<subseteq> fst ` set (timers s)" for P
    by auto
  have "fst ` set ?rest \<inter> fst ` set (filter (Not \<circ> periodic) ?due) = {}" using d(3) by auto
  then have x: "fst ` set ?ts \<inter> fst ` set (filter (Not \<circ> periodic) ?due) = {}"
    unfolding ids using apart by (simp only: Int_Un_distrib2 Un_empty_left)
  have sub': "fst ` set ?ts \<subseteq> fst ` set (timers s)" unfolding ids using sub(1) [of periodic] sub(2) by (rule Un_least)
  then have y: "fst ` set ?ts \<inter> set (timerIdsFreed s) = {}"
    "set (timerIdsFreed s) \<inter> fst ` set (filter (Not \<circ> periodic) ?due) = {}"
    using wf(4) [unfolded set_map] sub(1) [of "Not \<circ> periodic"]
    by (metis (no_types, lifting) disjoint_iff subsetD)+
  have "distinct (map fst ?ts @ timerIdsFreed s @ map fst (filter (Not \<circ> periodic) ?due))"
    unfolding distinct_append set_append set_map
    using dist wf(3) x y distinct_map_filter [OF d(1)] by (simp only: Int_Un_distrib Un_empty)
  then have "distinct (timer_ids s')" by (simp add: s' timer_ids_def)
  moreover have "set (timer_ids s') \<subseteq> set (timer_ids s)"
    using sub' sub(1) [of "Not \<circ> periodic"] by (simp add: s' timer_ids_def subset_iff)
  moreover have "\<forall>p \<in> set ?ts. timer_ok p"
    using wf(5) by (auto simp: fold_timer_insert(1))
  ultimately show ?thesis using sorted wf(6) by (auto simp: timers_wf_def s')
qed

section \<open>Histories\<close>

datatype 'e timer_op =
    Create_timer u64 'e u64
  | Create_periodic u64 'e u64
  | Modify_timer u32 u64
  | Cancel_timer u32
  | Evaluate_timers u64

fun timer_step :: "('m) mem_env_scheme \<Rightarrow> 'e timer_op \<Rightarrow> 'e event_timers \<Rightarrow> 'e event_timers option" where
  "timer_step env (Create_timer now ev ms) s = Some (snd (SOPC_EventTimer_Create env now ev ms s))"
| "timer_step env (Create_periodic now ev ms) s = Some (snd (SOPC_EventTimer_CreatePeriodic env now ev ms s))"
| "timer_step env (Modify_timer i ms) s = Some (snd (SOPC_EventTimer_ModifyPeriodic i ms s))"
| "timer_step env (Cancel_timer i) s = Some (SOPC_EventTimer_Cancel env i s)"
| "timer_step env (Evaluate_timers now) s = map_option snd (SOPC_EventTimer_CyclicTimersEvaluation env now s)"

fun timer_run :: "('m) mem_env_scheme \<Rightarrow> 'e timer_op list \<Rightarrow> 'e event_timers \<Rightarrow> 'e event_timers option" where
  "timer_run env [] s = Some s"
| "timer_run env (op # ops) s = do { s \<leftarrow> timer_step env op s; timer_run env ops s }"

lemma Modify_wf:
  assumes "timers_wf s"
  shows "timers_wf (snd (SOPC_EventTimer_ModifyPeriodic i ms s))"
proof (cases "map_of (timers s) i")
  case (Some t)
  then obtain pre post where cutp: "timers s = pre @ (i, t) # post" by (metis map_of_SomeD split_list)
  have out: "i \<notin> fst ` set pre" "i \<notin> fst ` set post" using timers_wfD(2) [OF assms] cutp by auto
  show ?thesis
    using assms Some timer_update_middle [OF out, of "t\<lparr>periodMs := ms\<rparr>" t] cutp
    by (auto simp: SOPC_EventTimer_ModifyPeriodic_def timers_wf_def timer_ids_def timer_times_def timer_ok_def)
qed (use assms in \<open>simp add: SOPC_EventTimer_ModifyPeriodic_def\<close>)

lemma timer_step_wf:
  assumes "mem_total env" "timers_wf s"
  shows "\<exists>s'. timer_step env op s = Some s' \<and> timers_wf s'"
proof (cases op)
  case (Create_timer now ev ms)
  then show ?thesis using Create_wf [OF assms(2) prod.collapse [symmetric], of env now ev ms False] by (simp add: SOPC_EventTimer_Create_def)
next
  case (Create_periodic now ev ms)
  then show ?thesis
    using Create_wf [OF assms(2) prod.collapse [symmetric], of env now ev ms True] by (simp add: SOPC_EventTimer_CreatePeriodic_def)
next
  case (Modify_timer i ms)
  then show ?thesis using Modify_wf [OF assms(2)] by simp
next
  case (Cancel_timer i)
  then show ?thesis using Cancel_wf [OF assms(2), of env i] assms(2) by (simp add: SOPC_EventTimer_Cancel_def)
next
  case (Evaluate_timers now)
  then show ?thesis using evaluation_exact [OF assms, of now] evaluation_wf [OF assms, of now] by simp
qed

lemma timer_run_wf:
  "mem_total env \<Longrightarrow> timers_wf s \<Longrightarrow> \<exists>s'. timer_run env ops s = Some s' \<and> timers_wf s'"
proof (induction ops arbitrary: s)
  case (Cons op ops)
  then obtain s1 where "timer_step env op s = Some s1" "timers_wf s1" using timer_step_wf by blast
  then show ?case using Cons by simp
qed simp

lemmas timer_eval_defs = SOPC_EventTimer_Create_def SOPC_EventTimer_CreatePeriodic_def
  SOPC_InternalEventTimer_Create_def SOPC_Internal_GetFreshTimerId_WithoutLock_def SOPC_EventTimer_Initialize_def
  SOPC_TIMER_RESOLUTION_MS_def SOPC_TimeReference_AddMilliseconds_def SOPC_TimeReference_Compare_def timer_insert_def
  SOPC_EventTimer_Cancel_def SOPC_Internal_EventTimer_Cancel_WithoutLock_def
  SOPC_Internal_EventTimer_Free_WithoutLock_def release_timer_id_def

text \<open>
  C39: under any history of creations, modifications, cancellations and evaluations the list of timers stays
  sorted by end time and no identifier is in use twice; a timer created then gets an identifier that no
  active timer has, and is added with its end time and event. Memory is assumed available.
\<close>
theorem event_timers_history:
  assumes "mem_total env"
  shows "\<exists>s. timer_run env ops SOPC_EventTimer_Initialize = Some s \<and> sorted (timer_times (timers s)) \<and>
    distinct (map fst (timers s)) \<and>
    (\<forall>now ev ms i s'. SOPC_EventTimer_Create env now ev ms s = (i, s') \<and> i \<noteq> 0 \<longrightarrow>
      i \<notin> fst ` set (timers s) \<and>
      set (timers s') = insert (i, \<lparr>et_id = i, et_event = ev, endTime = SOPC_TimeReference_AddMilliseconds now ms,
        isPeriodicTimer = False, periodMs = ms\<rparr>) (set (timers s)))"
proof -
  obtain s where s: "timer_run env ops SOPC_EventTimer_Initialize = Some s" "timers_wf s"
    using timer_run_wf [OF assms timers_wf_Initialize] by blast
  have "\<forall>now ev ms i s'. SOPC_EventTimer_Create env now ev ms s = (i, s') \<and> i \<noteq> 0 \<longrightarrow>
      i \<notin> fst ` set (timers s) \<and>
      set (timers s') = insert (i, \<lparr>et_id = i, et_event = ev, endTime = SOPC_TimeReference_AddMilliseconds now ms,
        isPeriodicTimer = False, periodMs = ms\<rparr>) (set (timers s))"
  proof (intro allI impI)
    fix now ev ms i s'
    assume "SOPC_EventTimer_Create env now ev ms s = (i, s') \<and> i \<noteq> 0"
    then show "i \<notin> fst ` set (timers s) \<and>
        set (timers s') = insert (i, \<lparr>et_id = i, et_event = ev, endTime = SOPC_TimeReference_AddMilliseconds now ms,
          isPeriodicTimer = False, periodMs = ms\<rparr>) (set (timers s))"
      using Create_wf [OF s(2), of env now ev ms False i s'] by (simp add: SOPC_EventTimer_Create_def)
  qed
  then show ?thesis using s timers_wfD(1,2) [OF s(2)] by blast
qed

theorem event_timers_history_witness:
  "mem_total demo_mem \<and>
   (\<exists>s. timer_run demo_mem [Create_timer 0 ''a'' 100, Create_periodic 0 ''b'' 200, Cancel_timer 1, Create_timer 5 ''c'' 10]
      SOPC_EventTimer_Initialize = Some s \<and> map fst (timers s) = [1, 2])"
proof -
  let ?ops = "[Create_timer 0 ''a'' 100, Create_periodic 0 ''b'' 200, Cancel_timer 1, Create_timer 5 ''c'' 10]"
  obtain s where "timer_run demo_mem ?ops SOPC_EventTimer_Initialize = Some s" "distinct (map fst (timers s))"
    using event_timers_history [OF demo_mem_total, of ?ops] by blast
  moreover have "map_option (map fst \<circ> timers) (timer_run demo_mem ?ops SOPC_EventTimer_Initialize) = Some [1, 2]"
    by (simp add: timer_eval_defs)
  ultimately show ?thesis by simp
qed

text \<open>
  C40: an evaluation with memory available returns; it posts the events of the due timers and of no other, in
  the order of their end times, a periodic timer also the events it missed; the one-shot timers that were due
  are gone, the other timers that are not due are untouched, and the due periodic ones have moved to a later
  end time.
\<close>
theorem event_timers_evaluation:
  assumes "mem_total env" "timer_run env ops SOPC_EventTimer_Initialize = Some s"
  shows "\<exists>s'. SOPC_EventTimer_CyclicTimersEvaluation env now s =
      Some (concat (map (timer_posts now) (filter (timer_due now) (timers s))), s') \<and>
    set (timers s') = {p \<in> set (timers s). \<not> timer_due now p} \<union>
      timer_advance now ` {p \<in> set (timers s). timer_due now p \<and> periodic p} \<and>
    (\<forall>p \<in> set (timers s). endTime (snd p) \<le> endTime (snd (timer_advance now p)))"
proof -
  have "timers_wf s" using timer_run_wf [OF assms(1) timers_wf_Initialize, of ops] assms(2) by simp
  moreover have "\<forall>p \<in> set (timers s). endTime (snd p) \<le> endTime (snd (timer_advance now p))"
    using order_trans [OF AddMilliseconds_mono missed_events_mono]
    by (simp add: timer_advance_def timer_missed_def split_beta)
  ultimately show ?thesis
    using evaluation_exact [OF assms(1), of s now] by (simp add: fold_timer_insert(1) Un_commute)
qed

theorem event_timers_evaluation_witness:
  "\<exists>s'. SOPC_EventTimer_CyclicTimersEvaluation demo_mem 250 (the (timer_run demo_mem
      [Create_timer 0 ''late'' 300, Create_periodic 0 ''tick'' 100] SOPC_EventTimer_Initialize)) =
    Some ([''tick'', ''tick''], s') \<and> fst ` set (timers s') = {1, 2}"
proof -
  let ?ops = "[Create_timer 0 ''late'' 300, Create_periodic 0 ''tick'' 100]"
  let ?s = "\<lparr>timers = [(2, \<lparr>et_id = 2, et_event = ''tick'', endTime = 100, isPeriodicTimer = True, periodMs = 100\<rparr>),
      (1, \<lparr>et_id = 1, et_event = ''late'', endTime = 300, isPeriodicTimer = False, periodMs = 300\<rparr>)],
      timerIdsFreed = [], timerIdMax = 2\<rparr>"
  have s: "timer_run demo_mem ?ops SOPC_EventTimer_Initialize = Some ?s" by (simp add: timer_eval_defs)
  have "missed_events 50 250 200 100 = (1, 300)"
    using missed_events.simps(2) [of 49 250 200 100] missed_events.simps(2) [of 48 250 300 100] by (simp add: timer_eval_defs)
  then have p: "timer_posts 250 (2, \<lparr>et_id = 2, et_event = ''tick'', endTime = 100, isPeriodicTimer = True, periodMs = 100\<rparr>) =
      [''tick'', ''tick'']"
    by (simp add: timer_posts_def timer_missed_def timer_eval_defs)
  have sets: "{p \<in> set (timers ?s). \<not> timer_due 250 p} = {(1, \<lparr>et_id = 1, et_event = ''late'', endTime = 300, isPeriodicTimer = False, periodMs = 300\<rparr>)}"
    "{p \<in> set (timers ?s). timer_due 250 p \<and> periodic p} = {(2, \<lparr>et_id = 2, et_event = ''tick'', endTime = 100, isPeriodicTimer = True, periodMs = 100\<rparr>)}"
    by (auto simp: timer_due_def periodic_def)
  obtain s' where "SOPC_EventTimer_CyclicTimersEvaluation demo_mem 250 ?s = Some ([''tick'', ''tick''], s')"
    "set (timers s') = {p \<in> set (timers ?s). \<not> timer_due 250 p} \<union>
      timer_advance 250 ` {p \<in> set (timers ?s). timer_due 250 p \<and> periodic p}"
    using event_timers_evaluation [OF demo_mem_total s, of 250] p by (auto simp: timer_due_def)
  moreover from this(2) have "fst ` set (timers s') = {1, 2}"
    unfolding sets by (simp add: image_Un insert_commute)
  ultimately show ?thesis unfolding s option.sel by blast
qed

end
