(* ===== verification/SC_Properties.thy ===== *)
theory SC_Properties
  imports SC_Layer SC_Agreement SC_Listener_Laws Chunks_Properties Event_Timer_Laws
begin

text \<open>
  Properties of the secure channels layer: the automaton and the invariant of its connections for every order
  of events.
\<close>

section \<open>A concrete layer\<close>

text \<open>A layer without security whose codec of the open messages refuses everything.\<close>

definition plain_config :: SOPC_SecureChannel_Config where
  "plain_config = \<lparr>isClientSc = True, clientKeyCertPair = None, clientPKI = None, serverUri = None,
     cfg_url = Some [111, 0], cfg_secureChannelId = 0, peerAppCert = None, cfg_reqSecuPolicyUri = [78, 0],
     requestedLifetime = 60000, msgSecurityMode = OpcUa_MessageSecurityMode_None, clientPeerInfo = None,
     clientAuditInfo = None, internalProtocolData = 0\<rparr>"

definition plain_layer :: scm_env where
  "plain_layer = sc_env.extend (plain_env\<lparr>checkAsymHeader := (\<lambda>_. None)\<rparr>) \<lparr>epConfigs = (\<lambda>_. None), reverseEpConfigs = (\<lambda>_. None), currentTimeUTC = 0,
     cryptoProviderCreate_ok = (\<lambda>_. True), deriveGetLengths = (\<lambda>_. None), secureChannelNonceLength = (\<lambda>_. Some 0),
     generateNonce = (\<lambda>_ _. None), generateRandomID = (\<lambda>n. Some (of_nat n)), deriveKeySets = (\<lambda>_ _ _ _. None),
     certificateToDER = Some, certificateValidate = (\<lambda>_ _ _ _. True), certHolderFromBytes = (\<lambda>_. None),
     encodeOpenRequest = (\<lambda>_ _ b. (SOPC_STATUS_NOK, b)), encodeOpenResponse = (\<lambda>_ _ b. (SOPC_STATUS_NOK, b)),
     encodeCloseRequest = (\<lambda>_ b. (SOPC_STATUS_NOK, b)), readMessageType = (\<lambda>b. (None, b)),
     decodeRequestHeader = (\<lambda>b. (None, b)), decodeResponseHeader = (\<lambda>b. (None, b)),
     decodeOpenRequest = (\<lambda>b. (None, b)), decodeOpenResponse = (\<lambda>b. (None, b))\<rparr>"

definition plain_start :: sc_world where
  "plain_start = sc_initial True False (\<lambda>i. if i = 1 then Some plain_config else None)"

definition plain_connecting :: sc_world where
  "plain_connecting = the (SOPC_SecureChannels_OnInputEvent plain_layer (SC_CONNECT 1) plain_start)"

lemma plain_layer_enc [simp]: "sc_enc plain_layer = plain_enc" "mem_ok plain_enc n"
  "enc_cfg plain_enc = SOPC_Common_GetDefaultEncodingConstants" "currentTimeRef plain_layer = 5"
  by (simp_all add: plain_layer_def sc_env.defs plain_env_def plain_enc_def)

lemma plain_layer_env: "layer_env SOPC_Common_GetDefaultEncodingConstants plain_layer"
  by (simp add: layer_env_def asym_header_keeps_def chunks_env_def plain_layer_def sc_env.defs ensures_None)

lemma plain_find: "find_free (\<lambda>i. True) 0 0 = Some (True, 1)"
  by (subst find_free.simps) simp

lemma plain_strdup: "SOPC_strdup plain_enc (Some [111, 0]) = Some (Some [111, 0])"
  by (simp add: SOPC_strdup_def)

lemma plain_timer:
  "SOPC_EventTimer_Create plain_enc 5 e SOPC_SC_CONNECTION_TIMEOUT_MS SOPC_EventTimer_Initialize =
     (1, \<lparr>timers = [(1, \<lparr>et_id = 1, et_event = e, endTime = 10005, isPeriodicTimer = False, periodMs = 10000\<rparr>)],
          timerIdsFreed = [], timerIdMax = 1\<rparr>)"
  by (simp add: SOPC_EventTimer_Create_def SOPC_InternalEventTimer_Create_def SOPC_SC_CONNECTION_TIMEOUT_MS_def
      SOPC_Internal_GetFreshTimerId_WithoutLock_def SOPC_EventTimer_Initialize_def timer_insert_def
      SOPC_TimeReference_AddMilliseconds_def)

lemmas plain_connect_defs = SOPC_SecureChannels_OnInputEvent_def SOPC_SecureConnectionStateMgr_Dispatcher_def
  on_sc_connect_def SOPC_ToolkitClient_GetSecureChannelConfig_def plain_start_def sc_initial_def SC_InitNewConnection_def
  sc_zero_def plain_find SOPC_strdup_def [of _ None] trim_peerInfo_def sc_update_def SC_GetConnection_def sc_init_key_and_certs_def
  plain_config_def SC_StartConnectionEstablishTimer_def timer_create_def plain_timer plain_strdup
  SOPC_Sockets_EnqueueEvent_def post_ok_def

lemma plain_connect:
  "SOPC_SecureChannels_OnInputEvent plain_layer (SC_CONNECT 1) plain_start = Some plain_connecting"
  "sc_state (secureConnectionsArray plain_connecting 1) = SECURE_CONNECTION_STATE_TCP_INIT"
  by (simp_all add: plain_connecting_def plain_connect_defs)

lemma plain_step: "layer_step plain_layer (Input_Event (SC_CONNECT 1)) plain_start plain_connecting"
  using plain_connect(1) by (rule layer_step.input)

lemma plain_start_reachable: "layer_reachable allowed plain_start"
  unfolding plain_start_def by (rule layer_initial)

lemma plain_connecting_reachable: "layer_reachable (layer_env SOPC_Common_GetDefaultEncodingConstants) plain_connecting"
  using plain_start_reachable plain_layer_env plain_step by (rule layer_next)

section \<open>The automaton\<close>

text \<open>
  C2: In whatever order the looper delivers the events of the sockets, the services, the timers and the managers to
  each other, one event takes every connection along an edge of the automaton of its role or leaves it in its
  state: from closed to the hello exchange, then to the open exchange, to connected, to the renewal, and back
  to closed. Only an open message received for this connection makes it connected, and the role of a connection
  that is open does not change, but when a reverse connection that waits is given to a client.
\<close>

theorem secure_channel_automaton:
  fixes i :: u32
  assumes "layer_reachable (layer_env cfg) w" "layer_env cfg env" "layer_step env e w w'"
  defines "c \<equiv> secureConnectionsArray w i" and "c' \<equiv> secureConnectionsArray w' i"
  shows "(sc_state c' = sc_state c \<or> sc_state c' \<in> set (sc_edges (isServerConnection c) (sc_state c))) \<and>
    (sc_is_connected (sc_state c') \<longrightarrow> sc_is_connected (sc_state c) \<or> open_message e i) \<and>
    (isServerConnection c' = isServerConnection c \<or> sc_is_closed (sc_state c) \<or> sc_is_closed (sc_state c') \<or>
      sc_state c = SECURE_CONNECTION_STATE_TCP_REVERSE_TOKEN)"
proof -
  have "enc_cfg (sc_enc env) = cfg" "asym_header_keeps (chunks_env env)" using assms(2) by (auto simp: layer_env_def)
  then have "all_evolve (open_message e) cfg w w'"
    using layer_step_evolves [OF assms(3)] reachable_world_ok [OF assms(1)] by simp
  then show ?thesis unfolding c_def c'_def by (auto simp: all_evolve_def evolves_def)
qed

theorem secure_channel_automaton_witness:
  "layer_reachable (layer_env SOPC_Common_GetDefaultEncodingConstants) plain_start \<and>
   layer_env SOPC_Common_GetDefaultEncodingConstants plain_layer \<and>
   layer_step plain_layer (Input_Event (SC_CONNECT 1)) plain_start plain_connecting \<and>
   sc_state (secureConnectionsArray plain_connecting 1) \<noteq> sc_state (secureConnectionsArray plain_start 1) \<and>
   sc_state (secureConnectionsArray plain_connecting 1) \<in>
     set (sc_edges (isServerConnection (secureConnectionsArray plain_start 1)) (sc_state (secureConnectionsArray plain_start 1)))"
proof -
  have "sc_state (secureConnectionsArray plain_connecting 1) \<noteq> sc_state (secureConnectionsArray plain_start 1)"
    using plain_connect(2) by (simp add: plain_start_def sc_initial_def sc_zero_def)
  then show ?thesis
    using secure_channel_automaton [OF plain_start_reachable plain_layer_env plain_step, where i = 1]
      plain_start_reachable plain_layer_env plain_step by blast
qed

lemma narrowed_bounds:
  "narrowed_size old new \<Longrightarrow> new \<le> old \<and> (new \<noteq> old \<longrightarrow> 8192 \<le> new)"
  "narrowed_limit old new \<Longrightarrow> old \<noteq> 0 \<longrightarrow> new \<noteq> 0 \<and> new \<le> old"
  by (auto simp: narrowed_size_def narrowed_limit_def SOPC_TCP_UA_MIN_BUFFER_SIZE_def)

text \<open>
  C3: In every state the layer can reach, a connection that is closed or closing holds nothing: all its bytes but the
  state are 0, so no key, no certificate, no request and no timer of the previous use is left. The buffers of an
  open connection are not larger than configured and, unless they have the configured size, not smaller than the
  8192 bytes of the protocol; the limits on the messages and chunks it sends are at most the configured ones (0
  is no limit), those on what it receives are the configured ones. A connected one has non-null identifiers of
  its channel and its token.
\<close>

theorem secure_channels_invariant:
  fixes i :: u32
  assumes "layer_reachable (layer_env cfg) w"
  defines "c \<equiv> secureConnectionsArray w i"
  defines "p \<equiv> tcpMsgProperties c"
  shows "(sc_is_closed (sc_state c) \<longrightarrow> holds_nothing c) \<and>
    (\<not> sc_is_closed (sc_state c) \<longrightarrow>
      (\<forall>n \<in> {sendBufferSize p, receiveBufferSize p}. n \<le> buffer_size cfg \<and> (n \<noteq> buffer_size cfg \<longrightarrow> 8192 \<le> n)) \<and>
      (send_max_msg_size cfg \<noteq> 0 \<longrightarrow> sendMaxMessageSize p \<noteq> 0 \<and> sendMaxMessageSize p \<le> send_max_msg_size cfg) \<and>
      (send_max_nb_chunks cfg \<noteq> 0 \<longrightarrow> sendMaxChunkCount p \<noteq> 0 \<and> sendMaxChunkCount p \<le> send_max_nb_chunks cfg) \<and>
      receiveMaxMessageSize p = receive_max_msg_size cfg \<and> receiveMaxChunkCount p = receive_max_nb_chunks cfg) \<and>
    (sc_is_connected (sc_state c) \<longrightarrow>
      secureChannelId (currentSecurityToken c) \<noteq> 0 \<and> tokenId (currentSecurityToken c) \<noteq> 0)"
proof -
  have ok: "conn_ok cfg c" using reachable_world_ok [OF assms(1)] unfolding c_def world_ok_def by blast
  have n: "narrowed (tcp_initial cfg) p" if "\<not> sc_is_closed (sc_state c)" using ok that unfolding p_def conn_ok_def by simp
  have "(\<forall>n \<in> {sendBufferSize p, receiveBufferSize p}. n \<le> buffer_size cfg \<and> (n \<noteq> buffer_size cfg \<longrightarrow> 8192 \<le> n)) \<and>
      (send_max_msg_size cfg \<noteq> 0 \<longrightarrow> sendMaxMessageSize p \<noteq> 0 \<and> sendMaxMessageSize p \<le> send_max_msg_size cfg) \<and>
      (send_max_nb_chunks cfg \<noteq> 0 \<longrightarrow> sendMaxChunkCount p \<noteq> 0 \<and> sendMaxChunkCount p \<le> send_max_nb_chunks cfg) \<and>
      receiveMaxMessageSize p = receive_max_msg_size cfg \<and> receiveMaxChunkCount p = receive_max_nb_chunks cfg"
    if "\<not> sc_is_closed (sc_state c)"
    using n [OF that] by (auto simp: narrowed_def tcp_initial_def dest!: narrowed_bounds)
  then show ?thesis using ok by (simp add: conn_ok_def valid_token_def)
qed

theorem secure_channels_invariant_witness:
  "layer_reachable (layer_env SOPC_Common_GetDefaultEncodingConstants) plain_connecting \<and>
   \<not> sc_is_closed (sc_state (secureConnectionsArray plain_connecting 1)) \<and>
   receiveBufferSize (tcpMsgProperties (secureConnectionsArray plain_connecting 1)) \<le>
     buffer_size SOPC_Common_GetDefaultEncodingConstants"
  using secure_channels_invariant [OF plain_connecting_reachable, where i = 1] plain_connecting_reachable plain_connect(2)
  by (simp add: sc_is_closed_def)

section \<open>The hello exchange\<close>

text \<open>
  C13: The hello exchange succeeds and ends in agreement. A client and a server whose buffers have at least the size of the
  protocol, with an endpoint address of at most 4096 characters, memory and valid configurations: the client sends a
  hello message; the server that receives it accepts it and sends an acknowledge message; the client that receives this
  accepts it. After that each side sends with the buffer size the other receives with, and the limits on the messages and the chunks that
  one side sends are within those the other side accepts, whatever limits both had before.
\<close>

theorem limits_negotiated:
  assumes envs: "mem_total (sc_enc envc)" "2 \<le> max_level (sc_enc envc)" "mem_total (sc_enc envs)" "2 \<le> max_level (sc_enc envs)"
    and client: "sc_state (secureConnectionsArray wc i) = SECURE_CONNECTION_STATE_TCP_INIT"
      "\<not> isServerConnection (secureConnectionsArray wc i)"
      "SOPC_ToolkitClient_GetSecureChannelConfig (secureChannelConfigIdx (secureConnectionsArray wc i)) wc = Some cfg"
      "cfg_url cfg = Some url" "c_strlen url = Some n" "n \<le> 4096" "int n \<le> sint (max_string_length (enc_cfg (sc_enc envs)))"
    and server: "sc_state (secureConnectionsArray ws j) = SECURE_CONNECTION_STATE_TCP_INIT"
      "isServerConnection (secureConnectionsArray ws j)"
      "SOPC_ToolkitServer_GetEndpointConfig envs (serverEndpointConfigIdx (secureConnectionsArray ws j)) ws = Some (Some ep)"
      "c_strlen (endpointURL ep) = Some m" "m \<le> 2147483647"
    and sizes: "\<forall>p \<in> {tcpMsgProperties (secureConnectionsArray wc i), tcpMsgProperties (secureConnectionsArray ws j)}.
      SOPC_TCP_UA_MIN_BUFFER_SIZE \<le> sendBufferSize p \<and> SOPC_TCP_UA_MIN_BUFFER_SIZE \<le> receiveBufferSize p"
  shows "\<exists>hel wc1. SC_ClientTransition_TcpInit_To_TcpNegotiate envc i wc = Some (True, wc1) \<and>
    internalEvents wc1 = INT_SC_SND INT_SC_SND_HEL i (Some hel) 0 # internalEvents wc \<and>
    (\<forall>helr. handed_over hel helr \<longrightarrow>
      (\<exists>ws1 ack ws2. SC_ServerTransition_TcpInit_To_TcpNegotiate envs j helr err ws = Some (True, err, ws1) \<and>
        SC_ServerTransition_TcpNegotiate_To_ScInit envs j helr err ws1 = Some (True, SOPC_GoodGenericStatus, ws2) \<and>
        internalEvents ws2 = INT_SC_SND INT_SC_SND_ACK j (Some ack) 0 # internalEvents ws \<and>
        (\<forall>ackr. handed_over ack ackr \<longrightarrow>
          (\<exists>wc2. SC_ClientTransition_TcpNegotiate_To_ScInit envc i ackr wc1 = Some (True, wc2) \<and>
            limits_agree (tcpMsgProperties (secureConnectionsArray wc2 i)) (tcpMsgProperties (secureConnectionsArray ws2 j))))))"
proof -
  define c where "c = tcpMsgProperties (conns wc i)"
  define s where "s = tcpMsgProperties (conns ws j)"
  define s' where "s' = hello_limits c s (min (sendBufferSize s) (receiveBufferSize c)) (min (receiveBufferSize s) (sendBufferSize c))"
  have sz: "SOPC_TCP_UA_MIN_BUFFER_SIZE \<le> sendBufferSize p \<and> SOPC_TCP_UA_MIN_BUFFER_SIZE \<le> receiveBufferSize p" if "p \<in> {c, s}" for p
    using sizes that by (auto simp: c_def s_def)
  obtain hel str wc1 where hel: "SC_ClientTransition_TcpInit_To_TcpNegotiate envc i wc = Some (True, wc1)"
      "internalEvents wc1 = INT_SC_SND INT_SC_SND_HEL i (Some hel) 0 # internalEvents wc"
      "conns wc1 i = (conns wc i)\<lparr>sc_state := SECURE_CONNECTION_STATE_TCP_NEGOTIATE\<rparr>"
      "drop 8 (buf_bytes hel) = limits_bytes c @ enc_string str" "28 \<le> length (buf_bytes hel)"
      "bytestring_wf str" "sint (Str_Length str) = int n"
    unfolding c_def using client_hello_sent [OF envs(1,2) client(1,3-6)] by (auto simp: frame_simps)
  have str: "string_ok (sc_enc envs) str" "sint (Str_Length str) \<le> 4096"
    using hel(6,7) client(6,7) by (simp_all add: string_ok_def)
  have agrees: "\<exists>wc2. SC_ClientTransition_TcpNegotiate_To_ScInit envc i ackr wc1 = Some (True, wc2) \<and>
      limits_agree (tcpMsgProperties (conns wc2 i)) s'" if "handed_over ack ackr" "drop 8 (buf_bytes ack) = limits_bytes s'" for ack ackr
    by (rule client_agrees [OF _ that _ _ _ s'_def sz]) (use envs(2) client(2) hel(3) in \<open>simp_all add: c_def\<close>)
  show ?thesis
    using hel(1,2) server_negotiates [OF envs(3,4) _ hel(4,5) str server s_def s'_def sz, of _ err] agrees by metis
qed

text \<open>A server with a connection that waits for a hello message.\<close>

definition plain_endpoint :: SOPC_Endpoint_Config where
  "plain_endpoint = \<lparr>endpointURL = [111, 0], serverKeyCertPair = None, serverPKI = None, ApplicationUri = str_init,
     noListening = False, nbClientsToConnect = 0, clientsToConnect = []\<rparr>"

definition plain_server_layer :: scm_env where
  "plain_server_layer = plain_layer\<lparr>epConfigs := (\<lambda>i. if i = 1 then Some plain_endpoint else None)\<rparr>"

definition plain_serving :: sc_world where
  "plain_serving = sc_update 1 (\<lambda>c. c\<lparr>sc_state := SECURE_CONNECTION_STATE_TCP_INIT, isServerConnection := True,
       serverEndpointConfigIdx := 1, tcpMsgProperties := tcp_initial SOPC_Common_GetDefaultEncodingConstants\<rparr>)
     (sc_initial True True (\<lambda>_. None))"

lemma plain_server_layer_enc [simp]: "sc_enc plain_server_layer = plain_enc"
  by (simp add: plain_server_layer_def)

lemma plain_level: "2 \<le> max_level plain_enc" "max_string_length SOPC_Common_GetDefaultEncodingConstants = 65535"
  by (simp_all add: plain_enc_def SOPC_Common_GetDefaultEncodingConstants_def)

lemma plain_connecting_client:
  "\<not> isServerConnection (secureConnectionsArray plain_connecting 1)"
  "secureChannelConfigIdx (secureConnectionsArray plain_connecting 1) = 1"
  "tcpMsgProperties (secureConnectionsArray plain_connecting 1) = tcp_initial SOPC_Common_GetDefaultEncodingConstants"
  "SOPC_ToolkitClient_GetSecureChannelConfig 1 plain_connecting = Some plain_config"
  by (simp_all add: plain_connecting_def plain_connect_defs)

theorem limits_negotiated_witness:
  "\<exists>hel wc1. SC_ClientTransition_TcpInit_To_TcpNegotiate plain_layer 1 plain_connecting = Some (True, wc1) \<and>
    internalEvents wc1 = INT_SC_SND INT_SC_SND_HEL 1 (Some hel) 0 # internalEvents plain_connecting \<and>
    (\<forall>helr. handed_over hel helr \<longrightarrow>
      (\<exists>ws1 ack ws2. SC_ServerTransition_TcpInit_To_TcpNegotiate plain_server_layer 1 helr 0 plain_serving = Some (True, 0, ws1) \<and>
        SC_ServerTransition_TcpNegotiate_To_ScInit plain_server_layer 1 helr 0 ws1 = Some (True, SOPC_GoodGenericStatus, ws2) \<and>
        internalEvents ws2 = INT_SC_SND INT_SC_SND_ACK 1 (Some ack) 0 # internalEvents plain_serving \<and>
        (\<forall>ackr. handed_over ack ackr \<longrightarrow>
          (\<exists>wc2. SC_ClientTransition_TcpNegotiate_To_ScInit plain_layer 1 ackr wc1 = Some (True, wc2) \<and>
            limits_agree (tcpMsgProperties (secureConnectionsArray wc2 1)) (tcpMsgProperties (secureConnectionsArray ws2 1))))))"
proof -
  have "SOPC_ToolkitServer_GetEndpointConfig plain_server_layer
      (serverEndpointConfigIdx (secureConnectionsArray plain_serving 1)) plain_serving = Some (Some plain_endpoint)"
    by (simp add: SOPC_ToolkitServer_GetEndpointConfig_def plain_serving_def sc_update_def sc_initial_def plain_server_layer_def
        SOPC_MAX_ENDPOINT_DESCRIPTION_CONFIGURATIONS_def)
  then show ?thesis
    by (intro limits_negotiated [where cfg = plain_config and url = "[111, 0]" and n = 1 and ep = plain_endpoint and m = 1])
      (use plain_level plain_connect(2) in \<open>simp_all add: plain_connecting_client mem_total_def plain_config_def plain_endpoint_def
         plain_serving_def sc_update_def sc_initial_def tcp_initial_def SOPC_TCP_UA_MIN_BUFFER_SIZE_def
         SOPC_Common_GetDefaultEncodingConstants_def\<close>)
qed

section \<open>Tables of the layer\<close>

text \<open>
  C14: In every state the layer can reach, whatever the events and whatever the clock, the memory and the cryptographic
  functions answered, every listener has the arrays of the declared sizes with its last index inside of them, and the
  indexes from which the tables of connections and of server configurations are searched stay inside of the tables.
\<close>

theorem secure_channels_typed:
  fixes ep :: u32
  assumes "layer_reachable allowed w"
  defines "l \<equiv> secureListenersArray w ep"
  shows "length (connectionIdxArray l) = SOPC_MAX_SOCKETS_CONNECTIONS \<and>
    length (isUsedConnectionIdxArray l) = SOPC_MAX_SOCKETS_CONNECTIONS \<and>
    lastConnectionIdxArrayIdx l < SOPC_MAX_SOCKETS_CONNECTIONS \<and>
    length (reverseConnRetryTimerIds l) = SOPC_MAX_REVERSE_CLIENT_CONNECTIONS \<and>
    lastSecureConnectionArrayIdx w \<le> SOPC_MAX_SECURE_CONNECTIONS_PLUS_BUFFERED \<and>
    serverScLastConfigIdx w \<le> SOPC_MAX_SECURE_CONNECTIONS_PLUS_BUFFERED"
  using reachable_world_typed [OF assms(1)] unfolding l_def world_typed_def listener_typed_def by blast

theorem secure_channels_typed_witness:
  "layer_reachable (layer_env SOPC_Common_GetDefaultEncodingConstants) plain_connecting \<and>
   length (connectionIdxArray (secureListenersArray plain_connecting 1)) = SOPC_MAX_SOCKETS_CONNECTIONS"
  using secure_channels_typed [OF plain_connecting_reachable, where ep = 1] plain_connecting_reachable by simp

lemma c_strlen_copy: "c_strlen c = Some n \<Longrightarrow> c_strlen (take n c @ [0]) = Some n"
  by (induction c arbitrary: n) (auto split: if_splits)

text \<open>
  C15: In every state the layer can reach the search of a slot for a new connection ends, from wherever the last one was
  found. With enough memory a connection is created exactly when one of the 26 slots is closed; it takes such a slot, the
  slot is then in the state of a connection without hello, and no other slot changes. Without a closed slot nothing changes.
\<close>

theorem new_connection_slot:
  assumes "layer_reachable allowed w" and "mem_total (sc_enc env)"
    and "peer = None \<or> (\<exists>p n. peer = Some p \<and> c_strlen p = Some n)"
  defines "closed \<equiv> (\<lambda>i. 0 < i \<and> i \<le> SOPC_MAX_SECURE_CONNECTIONS_PLUS_BUFFERED \<and>
    sc_state (secureConnectionsArray w i) = SECURE_CONNECTION_STATE_SC_CLOSED)"
  shows "\<exists>ok i w'. SC_InitNewConnection env peer w = Some (ok, i, w') \<and> (ok \<longleftrightarrow> (\<exists>j. closed j)) \<and>
    (if ok then closed i \<and> sc_state (secureConnectionsArray w' i) = SECURE_CONNECTION_STATE_TCP_INIT \<and>
       (\<forall>j. j \<noteq> i \<longrightarrow> secureConnectionsArray w' j = secureConnectionsArray w j)
     else w' = w)"
proof -
  have "unat (lastSecureConnectionArrayIdx w) \<le> 26"
    using reachable_world_typed [OF assms(1)] by (simp add: world_typed_def word_le_nat_alt)
  then show ?thesis
  proof (cases rule: find_free_total [where free = "\<lambda>i. sc_state (conns w i) = SECURE_CONNECTION_STATE_SC_CLOSED"])
    case (found i)
    obtain info where "do { copy \<leftarrow> SOPC_strdup (sc_enc env) peer; trim_peerInfo copy } = Some info"
      using assms(2,3) by (auto simp: SOPC_strdup_def trim_peerInfo_def mem_total_def c_strlen_copy)
    then show ?thesis
      using found assms(2) unfolding closed_def
      by (auto simp: SC_InitNewConnection_def mem_total_def sc_update_def bind_eq_Some_conv intro!: exI [of _ i])
  next
    case (full i)
    then show ?thesis unfolding closed_def by (auto simp: SC_InitNewConnection_def)
  qed
qed

theorem new_connection_slot_witness:
  "\<exists>ok i w'. SC_InitNewConnection plain_layer None plain_connecting = Some (ok, i, w') \<and>
    (ok \<longleftrightarrow> (\<exists>j. 0 < j \<and> j \<le> SOPC_MAX_SECURE_CONNECTIONS_PLUS_BUFFERED \<and>
      sc_state (secureConnectionsArray plain_connecting j) = SECURE_CONNECTION_STATE_SC_CLOSED))"
  using new_connection_slot [OF plain_connecting_reachable, of plain_layer None] by (auto simp: mem_total_def)

text \<open>
  C16: In every state the layer can reach, the two arrays of a listener behave as a bag of the connections that belong to it.
  Adding a connection ends; it is refused exactly when all the slots but the one used last are taken, and otherwise adds
  one occurrence to the bag. Removing a connection takes one occurrence of it out of the bag, and nothing else.
\<close>

theorem listener_connections_bag:
  fixes ep :: u32
  assumes "layer_reachable allowed w"
  defines "l \<equiv> secureListenersArray w ep"
  shows "(\<exists>ok l'. SOPC_SecureListenerStateMgr_AddConnection l c = Some (ok, l') \<and>
      (ok \<longleftrightarrow> (\<exists>k < 50. k \<noteq> lastConnectionIdxArrayIdx l \<and> \<not> isUsedConnectionIdxArray l ! k)) \<and>
      listener_bag l' = (if ok then add_mset c (listener_bag l) else listener_bag l)) \<and>
    listener_bag (SOPC_SecureListenerStateMgr_RemoveConnection c l) = listener_bag l - {#c#}"
  using AddConnection_bag [of l c] RemoveConnection_bag [of c l]
    world_typed_listener [OF reachable_world_typed [OF assms(1)], of ep] unfolding l_def by blast

theorem listener_connections_bag_witness:
  "\<exists>l'. SOPC_SecureListenerStateMgr_AddConnection (secureListenersArray plain_start 1) 7 = Some (True, l') \<and>
    listener_bag l' = {#7#}"
proof -
  have l: "secureListenersArray plain_start 1 = listener_zero" by (simp add: plain_start_def sc_initial_def)
  have "\<exists>k < 50. k \<noteq> lastConnectionIdxArrayIdx listener_zero \<and> \<not> isUsedConnectionIdxArray listener_zero ! k"
    by (intro exI [of _ 1]) (simp add: listener_zero_def SOPC_MAX_SOCKETS_CONNECTIONS_def)
  moreover have "listener_bag listener_zero = {#}"
    by (simp add: listener_bag_def listener_indexes_def listener_zero_def SOPC_MAX_SOCKETS_CONNECTIONS_def filter_empty_conv
        set_zip)
  ultimately show ?thesis
    using listener_connections_bag [OF plain_start_reachable, where ep = 1 and c = 7] unfolding l by auto
qed

end
