(* ===== verification/Async_Queue.thy ===== *)
theory Async_Queue
  imports SLinkedList
begin

text \<open>
  The asynchronous queue of \<open>src/Common/helpers/sopc_async_queue.c\<close>: a linked list shared by threads, with a mutex
  and a condition variable. The code between taking and releasing the mutex is a function of the queue and the cells of its
  list; a call of an operation is a program of a thread, with the steps that take the mutex, wait and signal in between.
  Taking an initialised mutex succeeds once it is free: the branches of the code for an error of \<open>SOPC_Mutex_Lock\<close>, which
  leave the queue as it is, are not steps of the model.
\<close>

section \<open>The queue\<close>

definition SOPC_MAX_NB_ELEMENTS_ASYNC_QUEUE :: u32 where "SOPC_MAX_NB_ELEMENTS_ASYNC_QUEUE = 5000"
definition SOPC_MAX_NB_ELEMENTS_ASYNC_QUEUE_WARNING_ONLY :: bool where "SOPC_MAX_NB_ELEMENTS_ASYNC_QUEUE_WARNING_ONLY = True"

definition sizeof_SOPC_AsyncQueue :: nat where "sizeof_SOPC_AsyncQueue = 128"

record SOPC_AsyncQueue =
  queueList :: "SOPC_SLinkedList option"
  maxListLengthForWarning :: u32
  waitingThreads :: u32

text \<open>The results of \<open>SOPC_Condition_Init\<close> and \<open>SOPC_Mutex_Initialization\<close>, calls of the platform, are arguments.\<close>

definition SOPC_AsyncQueue_Init ::
  "('e) mem_env_scheme \<Rightarrow> SOPC_ReturnStatus \<Rightarrow> SOPC_ReturnStatus \<Rightarrow> SOPC_ReturnStatus \<times> SOPC_AsyncQueue option" where
  "SOPC_AsyncQueue_Init env condInit mutexInit =
     (if \<not> mem_ok env sizeof_SOPC_AsyncQueue then (SOPC_STATUS_INVALID_PARAMETERS, None)
      else
        (let n = (if SOPC_MAX_NB_ELEMENTS_ASYNC_QUEUE_WARNING_ONLY then 0 else unat SOPC_MAX_NB_ELEMENTS_ASYNC_QUEUE)
         in case SOPC_SLinkedList_Create env n of
              None \<Rightarrow> (SOPC_STATUS_NOK, None)
            | Some l \<Rightarrow>
                if condInit \<noteq> SOPC_STATUS_OK then (condInit, None)
                else if mutexInit \<noteq> SOPC_STATUS_OK then (mutexInit, None)
                else (SOPC_STATUS_OK, Some \<lparr>queueList = Some l,
                       maxListLengthForWarning = SOPC_MAX_NB_ELEMENTS_ASYNC_QUEUE, waitingThreads = 0\<rparr>)))"

section \<open>Critical sections\<close>

type_synonym aq_memory = "SOPC_AsyncQueue \<times> elt_store"

text \<open>
  \<open>SOPC_AsyncQueue_BlockingEnqueueFirstOrLast\<close> with the mutex taken, up to the test of the waiting threads. The
  trace of a long queue goes to the log only.
\<close>

definition enqueue_locked ::
  "('e) mem_env_scheme \<Rightarrow> uintptr \<Rightarrow> bool \<Rightarrow> aq_memory \<Rightarrow> (SOPC_ReturnStatus \<times> bool \<times> aq_memory) option" where
  "enqueue_locked env element firstOut m = do {
     let (q, h) = m;
     (enqueuedElt, l, h) \<leftarrow>
       (if \<not> firstOut then SOPC_SLinkedList_Append env (queueList q) 0 element h
        else Some (SOPC_SLinkedList_Prepend env (queueList q) 0 element h));
     let q = q\<lparr>queueList := l\<rparr>;
     if element = enqueuedElt then Some (SOPC_STATUS_OK, waitingThreads q > 0, q, h)
     else Some (SOPC_STATUS_NOK, False, q, h) }"

definition pop_locked :: "aq_memory \<Rightarrow> (uintptr \<times> aq_memory) option" where
  "pop_locked m = do {
     let (q, h) = m;
     (element, l, h) \<leftarrow> SOPC_SLinkedList_PopHead (queueList q) h;
     Some (element, q\<lparr>queueList := l\<rparr>, h) }"

definition SOPC_AsyncQueue_GetSize :: "aq_memory \<Rightarrow> u32" where
  "SOPC_AsyncQueue_GetSize m = SOPC_SLinkedList_GetLength (queueList (fst m))"

text \<open>The whole call, for a caller that takes the mutex without waiting.\<close>

definition SOPC_AsyncQueue_BlockingEnqueueFirstOrLast ::
  "('e) mem_env_scheme \<Rightarrow> uintptr \<Rightarrow> bool \<Rightarrow> aq_memory \<Rightarrow> (SOPC_ReturnStatus \<times> aq_memory) option" where
  "SOPC_AsyncQueue_BlockingEnqueueFirstOrLast env element firstOut m =
     (if element = 0 then Some (SOPC_STATUS_INVALID_PARAMETERS, m)
      else do {
        (status, signal, m) \<leftarrow> enqueue_locked env element firstOut m;
        Some (status, m) })"

section \<open>Threads\<close>

datatype aq_call = Enqueue uintptr bool | Dequeue bool | GetSize

datatype aq_result = Enqueued SOPC_ReturnStatus | Dequeued SOPC_ReturnStatus uintptr | Measured u32

text \<open>
  Where a thread is: outside of the operations with the result of its last call; about to take the mutex; behind it; about to
  signal after an insertion; in the loop of a blocking removal, which it enters after it was counted in
  \<open>waitingThreads\<close>; asleep in \<open>SOPC_Mutex_UnlockAndWaitCond\<close>; woken up and about to take the mutex again; about to
  release the mutex.
\<close>

datatype aq_pc =
    Outside "aq_result option"
  | Entering aq_call
  | Inside aq_call
  | Signalling
  | Waiting
  | Sleeping
  | Woken
  | Leaving aq_result

text \<open>The next statement of a thread that has the mutex. \<open>None\<close> is an access outside of the cells.\<close>

fun locked_step :: "('e) mem_env_scheme \<Rightarrow> aq_pc \<Rightarrow> aq_memory \<Rightarrow> (aq_pc \<times> aq_memory) option" where
  "locked_step env (Inside (Enqueue element firstOut)) m = do {
     (status, signal, m) \<leftarrow> enqueue_locked env element firstOut m;
     Some (if signal then Signalling else Leaving (Enqueued status), m) }"
| "locked_step env (Inside (Dequeue isBlocking)) m = do {
     (element, q, h) \<leftarrow> pop_locked m;
     Some (if element \<noteq> 0 then (Leaving (Dequeued SOPC_STATUS_OK element), q, h)
           else if \<not> isBlocking then (Leaving (Dequeued SOPC_STATUS_WOULD_BLOCK 0), q, h)
           else (Waiting, q\<lparr>waitingThreads := waitingThreads q + 1\<rparr>, h)) }"
| "locked_step env (Inside GetSize) m = Some (Leaving (Measured (SOPC_AsyncQueue_GetSize m)), m)"
| "locked_step env Waiting m = do {
     (element, q, h) \<leftarrow> pop_locked m;
     Some (if element = 0 then (Sleeping, q, h)
           else (Leaving (Dequeued SOPC_STATUS_OK element), q\<lparr>waitingThreads := waitingThreads q - 1\<rparr>, h)) }"
| "locked_step env Signalling m = Some (Leaving (Enqueued SOPC_STATUS_OK), m)"
| "locked_step env _ m = None"

record aq_system =
  memory :: aq_memory
  owner :: "nat option"
  pc :: "nat \<Rightarrow> aq_pc"

text \<open>\<open>SOPC_Condition_SignalAll\<close>.\<close>

definition wake_all :: "(nat \<Rightarrow> aq_pc) \<Rightarrow> nat \<Rightarrow> aq_pc" where
  "wake_all ps t = (if ps t = Sleeping then Woken else ps t)"

text \<open>
  A step of the thread \<open>t\<close>. Waiting releases the mutex and falls asleep at once, and a sleeping thread may wake
  up without a signal, as the condition variables of the platforms allow.
\<close>

inductive aq_step :: "('e) mem_env_scheme \<Rightarrow> nat \<Rightarrow> aq_system \<Rightarrow> aq_system \<Rightarrow> bool" for env t where
  call: "pc s t = Outside r \<Longrightarrow> aq_step env t s (s\<lparr>pc := (pc s)(t := Entering c)\<rparr>)"
| refuse: "pc s t = Entering (Enqueue 0 firstOut) \<Longrightarrow>
    aq_step env t s (s\<lparr>pc := (pc s)(t := Outside (Some (Enqueued SOPC_STATUS_INVALID_PARAMETERS)))\<rparr>)"
| lock: "pc s t = Entering c \<Longrightarrow> (\<And>firstOut. c \<noteq> Enqueue 0 firstOut) \<Longrightarrow> owner s = None \<Longrightarrow>
    aq_step env t s (s\<lparr>owner := Some t, pc := (pc s)(t := Inside c)\<rparr>)"
| run: "owner s = Some t \<Longrightarrow> locked_step env (pc s t) (memory s) = Some (p, m) \<Longrightarrow>
    aq_step env t s \<lparr>memory = m, owner = (if p = Sleeping then None else Some t),
      pc = ((if pc s t = Signalling then wake_all (pc s) else pc s)(t := p))\<rparr>"
| unlock: "pc s t = Leaving r \<Longrightarrow> owner s = Some t \<Longrightarrow>
    aq_step env t s (s\<lparr>owner := None, pc := (pc s)(t := Outside (Some r))\<rparr>)"
| wake: "pc s t = Sleeping \<Longrightarrow> aq_step env t s (s\<lparr>pc := (pc s)(t := Woken)\<rparr>)"
| relock: "pc s t = Woken \<Longrightarrow> owner s = None \<Longrightarrow>
    aq_step env t s (s\<lparr>owner := Some t, pc := (pc s)(t := Waiting)\<rparr>)"

inductive_cases aq_stepE: "aq_step env t s s'"

definition aq_start :: "SOPC_AsyncQueue \<Rightarrow> aq_system" where
  "aq_start q = \<lparr>memory = (q, store_init), owner = None, pc = (\<lambda>_. Outside None)\<rparr>"

section \<open>Release\<close>

text \<open>The elements that \<open>SOPC_AsyncQueue_Free\<close> frees, in their order, and the cells left.\<close>

definition SOPC_AsyncQueue_Free :: "aq_memory \<Rightarrow> (uintptr list \<times> elt_store) option" where
  "SOPC_AsyncQueue_Free m = do {
     let (q, h) = m;
     case queueList q of
       None \<Rightarrow> Some ([], h)
     | Some l \<Rightarrow> do {
         elts \<leftarrow> SOPC_SLinkedList_Apply (Some l) h;
         h \<leftarrow> SOPC_SLinkedList_Delete (Some l) h;
         Some (map snd elts, h) } }"

end
