(* ===== verification/Async_Queue_Laws.thy ===== *)
theory Async_Queue_Laws
  imports Async_Queue SLinkedList_Laws
begin

text \<open>
  The asynchronous queue for any number of threads and any interleaving of their steps: the mutex protects the list, the
  calls take effect one after the other in the order of their critical sections, a thread sleeps only while the queue is
  empty, and the threads are blocked only when all of them wait for an element of an empty queue.
\<close>

section \<open>The list of elements\<close>

definition aq_rep :: "aq_memory \<Rightarrow> uintptr list \<Rightarrow> bool" where
  "aq_rep m vs \<longleftrightarrow> (\<exists>l as. queueList (fst m) = Some l \<and> sll_rep l (snd m) as \<and>
     vs = map snd (sll_elems (snd m) as) \<and> 0 \<notin> set vs)"

definition aq_list :: "aq_memory \<Rightarrow> uintptr list" where
  "aq_list m = map snd (the (SOPC_SLinkedList_Apply (queueList (fst m)) (snd m)))"

lemma aq_rep_list: "aq_rep m vs \<Longrightarrow> aq_list m = vs"
  using sll_list_rep by (fastforce simp: aq_rep_def aq_list_def sll_list_def)

lemma aq_rep_update [simp]: "aq_rep (q\<lparr>waitingThreads := k\<rparr>, h) vs = aq_rep (q, h) vs"
  by (simp add: aq_rep_def)

lemma enqueue_locked_ok:
  assumes "aq_rep m vs" "element \<noteq> 0" "Suc (length vs) < 2 ^ 32"
  shows "\<exists>m'. waitingThreads (fst m') = waitingThreads (fst m) \<and>
    (enqueue_locked env element firstOut m = Some (SOPC_STATUS_OK, waitingThreads (fst m) > 0, m') \<and>
       aq_rep m' (if firstOut then element # vs else vs @ [element]) \<or>
     enqueue_locked env element firstOut m = Some (SOPC_STATUS_NOK, False, m') \<and> aq_rep m' vs)"
proof -
  obtain q h l as where m: "m = (q, h)" "queueList q = Some l" and rep: "sll_rep l h as"
    and vs: "vs = map snd (sll_elems h as)" "0 \<notin> set vs"
    using assms(1) by (cases m) (auto simp: aq_rep_def)
  have len: "Suc (length as) < 2 ^ 32" using assms(3) vs by (simp add: sll_elems_def)
  show ?thesis
  proof (cases "sll_room env l")
    case True
    note ok = SOPC_SLinkedList_Append_ok [OF rep assms(2) True len, of 0] SOPC_SLinkedList_Prepend_ok [OF rep assms(2) True len, of 0]
    show ?thesis
    proof (cases firstOut)
      case True
      obtain l' h' where "SOPC_SLinkedList_Prepend env (Some l) 0 element h = (element, Some l', h')"
        "sll_rep l' h' (next_addr h # as)" "sll_elems h' (next_addr h # as) = (0, element) # sll_elems h as"
        using ok(2) by blast
      then show ?thesis
        using m vs assms(2) True by (intro exI [of _ "(q\<lparr>queueList := Some l'\<rparr>, h')"])
          (auto simp: enqueue_locked_def aq_rep_def intro!: exI [of _ "next_addr h # as"])
    next
      case False
      obtain l' h' where "SOPC_SLinkedList_Append env (Some l) 0 element h = Some (element, Some l', h')"
        "sll_rep l' h' (as @ [next_addr h])" "sll_elems h' (as @ [next_addr h]) = sll_elems h as @ [(0, element)]"
        using ok(1) by blast
      then show ?thesis
        using m vs assms(2) False by (intro exI [of _ "(q\<lparr>queueList := Some l'\<rparr>, h')"])
          (auto simp: enqueue_locked_def aq_rep_def intro!: exI [of _ "as @ [next_addr h]"])
    qed
  next
    case False
    then show ?thesis
      using m insertion_refused(1,2) [OF False, of 0 element h] assms(1,2)
      by (intro exI [of _ "(q, h)"]) (auto simp: enqueue_locked_def)
  qed
qed

lemma pop_locked_ok:
  assumes "aq_rep m vs"
  shows "\<exists>m'. pop_locked m = Some (if vs = [] then 0 else hd vs, m') \<and> aq_rep m' (tl vs) \<and>
    waitingThreads (fst m') = waitingThreads (fst m)"
proof -
  obtain q h l as where m: "m = (q, h)" "queueList q = Some l" and rep: "sll_rep l h as"
    and vs: "vs = map snd (sll_elems h as)" "0 \<notin> set vs"
    using assms by (cases m) (auto simp: aq_rep_def)
  show ?thesis
  proof (cases as)
    case Nil
    then have "SOPC_SLinkedList_PopHead (Some l) h = Some (0, Some l, h)"
      using rep by (auto simp: SOPC_SLinkedList_PopHead_def sll_rep_def)
    then show ?thesis
      using m vs assms Nil by (intro exI [of _ "(q, h)"]) (auto simp: pop_locked_def sll_elems_def)
  next
    case (Cons a bs)
    then obtain l' h' where "SOPC_SLinkedList_PopHead (Some l) h = Some (snd (elt_pair h a), Some l', h')"
      "sll_rep l' h' bs" "sll_elems h' bs = sll_elems h bs"
      using SOPC_SLinkedList_PopHead_ok rep by blast
    then show ?thesis
      using m vs Cons by (intro exI [of _ "(q\<lparr>queueList := Some l'\<rparr>, h')"])
        (auto simp: pop_locked_def sll_elems_def aq_rep_def)
  qed
qed

section \<open>The order of the calls\<close>

text \<open>What a step adds to the history: an insertion that succeeds, at the end or in front, and a removal.\<close>

datatype aq_effect = Put uintptr bool | Got uintptr

fun effect_of :: "aq_pc \<Rightarrow> aq_pc \<Rightarrow> aq_effect list" where
  "effect_of (Inside (Enqueue v firstOut)) Signalling = [Put v firstOut]"
| "effect_of (Inside (Enqueue v firstOut)) (Leaving (Enqueued st)) = (if st = SOPC_STATUS_OK then [Put v firstOut] else [])"
| "effect_of (Inside (Dequeue b)) (Leaving (Dequeued st v)) = (if st = SOPC_STATUS_OK then [Got v] else [])"
| "effect_of Waiting (Leaving (Dequeued st v)) = (if st = SOPC_STATUS_OK then [Got v] else [])"
| "effect_of _ _ = []"

fun replay :: "aq_effect list \<Rightarrow> uintptr list \<Rightarrow> uintptr list option" where
  "replay [] vs = Some vs"
| "replay (Put v firstOut # es) vs = replay es (if firstOut then v # vs else vs @ [v])"
| "replay (Got v # es) vs = (case vs of [] \<Rightarrow> None | u # us \<Rightarrow> if u = v then replay es us else None)"

lemma replay_append: "replay (es @ fs) vs = Option.bind (replay es vs) (replay fs)"
  by (induction es vs rule: replay.induct) (auto split: list.splits)

text \<open>
  The states that \<open>n\<close> threads reach from a queue just created, with the history. The count of the elements has 32
  bits: a step is taken with less than \<open>2 ^ 32 - 1\<close> elements, that is less than 96 GiB of cells.
\<close>

inductive aq_reachable :: "nat \<Rightarrow> aq_effect list \<Rightarrow> aq_system \<Rightarrow> bool" for n where
  aq_initial: "SOPC_AsyncQueue_Init (env :: mem_env) SOPC_STATUS_OK SOPC_STATUS_OK = (SOPC_STATUS_OK, Some q) \<Longrightarrow>
    aq_reachable n [] (aq_start q)"
| aq_next: "aq_reachable n es s \<Longrightarrow> t < n \<Longrightarrow> aq_step (env :: mem_env) t s s' \<Longrightarrow> Suc (length (aq_list (memory s))) < 2 ^ 32 \<Longrightarrow>
    aq_reachable n (es @ effect_of (pc s t) (pc s' t)) s'"

section \<open>Invariant\<close>

fun holds :: "aq_pc \<Rightarrow> bool" where
  "holds (Inside c) = True"
| "holds Signalling = True"
| "holds Waiting = True"
| "holds (Leaving r) = True"
| "holds _ = False"

fun counted :: "aq_pc \<Rightarrow> bool" where
  "counted Waiting = True"
| "counted Sleeping = True"
| "counted Woken = True"
| "counted _ = False"

definition aq_inv :: "nat \<Rightarrow> uintptr list \<Rightarrow> aq_system \<Rightarrow> bool" where
  "aq_inv n vs s \<longleftrightarrow>
     aq_rep (memory s) vs \<and>
     (\<forall>t. holds (pc s t) \<longleftrightarrow> owner s = Some t) \<and>
     waitingThreads (fst (memory s)) = of_nat (card {t. counted (pc s t)}) \<and>
     (\<forall>t \<ge> n. pc s t = Outside None) \<and>
     (\<forall>t. pc s t = Sleeping \<longrightarrow> vs = [] \<or> (\<exists>u. pc s u = Signalling)) \<and>
     (\<forall>t firstOut. pc s t \<noteq> Inside (Enqueue 0 firstOut))"

lemma counted_threads:
  fixes ps :: "nat \<Rightarrow> aq_pc"
  assumes "\<forall>t \<ge> n. ps t = Outside None"
  shows "{t. counted (ps t)} \<subseteq> {..<n}" "finite {t. counted (ps t)}"
proof -
  show "{t. counted (ps t)} \<subseteq> {..<n}"
  proof
    fix t assume "t \<in> {t. counted (ps t)}"
    then show "t \<in> {..<n}" using assms by (cases "n \<le> t") auto
  qed
  then show "finite {t. counted (ps t)}" by (rule finite_subset) simp
qed

lemma card_counted_update:
  assumes "finite {t. counted (ps t)}"
  shows "card {u. counted ((ps(t := p)) u)} =
    (if counted p = counted (ps t) then card {u. counted (ps u)}
     else if counted p then Suc (card {u. counted (ps u)}) else card {u. counted (ps u)} - 1)"
proof -
  have "{u. counted ((ps(t := p)) u)} =
      (if counted p then insert t {u. counted (ps u)} else {u. counted (ps u)} - {t})" by auto
  then show ?thesis using assms by (auto simp: insert_absorb card_insert_if)
qed

lemma wake_all_simps [simp]:
  "counted (wake_all ps t) = counted (ps t)" "holds (wake_all ps t) = holds (ps t)" "wake_all ps t \<noteq> Sleeping"
  "wake_all ps t = Inside c \<longleftrightarrow> ps t = Inside c" "wake_all ps t = Outside r \<longleftrightarrow> ps t = Outside r"
  by (simp_all add: wake_all_def)

section \<open>Steps\<close>

text \<open>A step that keeps the memory and does not touch the threads counted, asleep or about to signal.\<close>

lemma aq_inv_move:
  assumes inv: "aq_inv n vs s" and t: "t < n" and q: "memory s' = memory s" "pc s' = (pc s)(t := p)"
    and own: "owner s' = (if holds p then Some t else if holds (pc s t) then None else owner s)"
      "holds p \<Longrightarrow> owner s = None" and p: "counted p = counted (pc s t)" "p \<noteq> Sleeping"
    and sig: "pc s t \<noteq> Signalling" and put: "\<And>f. p \<noteq> Inside (Enqueue 0 f)"
  shows "aq_inv n vs s'"
proof -
  have i: "aq_rep (memory s) vs" "waitingThreads (fst (memory s)) = of_nat (card {t. counted (pc s t)})"
      "\<forall>t \<ge> n. pc s t = Outside None" "\<forall>t. pc s t = Sleeping \<longrightarrow> vs = [] \<or> (\<exists>u. pc s u = Signalling)"
      "\<forall>u f. pc s u \<noteq> Inside (Enqueue 0 f)"
      "\<And>u. holds (pc s u) \<longleftrightarrow> owner s = Some u"
    using inv by (auto simp: aq_inv_def)
  have holder: "holds (((pc s)(t := p)) u) \<longleftrightarrow> owner s' = Some u" for u
    using i(6) [of u] i(6) [of t] own by auto
  have "card {u. counted (((pc s)(t := p)) u)} = card {u. counted (pc s u)}"
    using card_counted_update [OF counted_threads(2) [OF i(3)], of t p] p(1) by simp
  then show ?thesis
    using i(1-5) t holder p(2) sig put unfolding aq_inv_def q by (auto split: if_splits) metis
qed

text \<open>A step behind the mutex.\<close>

lemma aq_inv_locked:
  assumes inv: "aq_inv n vs s" and t: "t < n" "owner s = Some t"
    and s': "owner s' = (if p = Sleeping then None else Some t)" "pc s' = ps(t := p)" "aq_rep (memory s') vs'"
    and ps: "ps = pc s \<or> ps = wake_all (pc s)" and p: "holds p \<or> p = Sleeping" "\<And>c. p \<noteq> Inside c"
    and count: "waitingThreads (fst (memory s')) = of_nat (card {u. counted (((pc s)(t := p)) u)})"
    and asleep: "\<And>u. u \<noteq> t \<Longrightarrow> ps u = Sleeping \<Longrightarrow> vs' = [] \<or> p = Signalling" "p = Sleeping \<Longrightarrow> vs' = []"
  shows "aq_inv n vs' s'"
  unfolding aq_inv_def
proof (intro conjI allI impI)
  have i: "\<And>u. holds (pc s u) \<longleftrightarrow> owner s = Some u" "\<And>u. n \<le> u \<Longrightarrow> pc s u = Outside None"
      "\<And>u f. pc s u \<noteq> Inside (Enqueue 0 f)"
    using inv by (auto simp: aq_inv_def)
  have same: "holds (ps u) = holds (pc s u)" "counted (ps u) = counted (pc s u)" "ps u = Outside None \<longleftrightarrow> pc s u = Outside None"
      "ps u = Inside c \<longleftrightarrow> pc s u = Inside c" for u c
    using ps by auto
  show "aq_rep (memory s') vs'" by (rule s')
  show "holds (pc s' u) = (owner s' = Some u)" for u using i(1) [of u] t(2) same(1) [of u] p(1) s' by auto
  have "{u. counted ((ps(t := p)) u)} = {u. counted (((pc s)(t := p)) u)}" using same(2) by auto
  then show "waitingThreads (fst (memory s')) = of_nat (card {t. counted (pc s' t)})" using count s' by simp
  show "pc s' u = Outside None" if "n \<le> u" for u using i(2) [OF that] same(3) [of u] t(1) that s' by auto
  show "vs' = [] \<or> (\<exists>u. pc s' u = Signalling)" if "pc s' u = Sleeping" for u
  proof (cases "u = t")
    case True
    then show ?thesis using asleep(2) that s' by simp
  next
    case False
    then show ?thesis using asleep(1) [of u] that s' by (auto intro: exI [of _ t])
  qed
  show "pc s' u \<noteq> Inside (Enqueue 0 f)" for u f
    using p(2) s' same(4) [of u] i(3) [of u f] by (auto split: if_splits)
qed

lemma aq_inv_run:
  assumes inv: "aq_inv n vs s" and t: "t < n" "owner s = Some t" and n: "n < 2 ^ 32" and len: "Suc (length vs) < 2 ^ 32"
    and step: "locked_step env (pc s t) (memory s) = Some (p, m)"
    and s': "memory s' = m" "owner s' = (if p = Sleeping then None else Some t)"
      "pc s' = (if pc s t = Signalling then wake_all (pc s) else pc s)(t := p)"
  shows "\<exists>vs'. aq_inv n vs' s' \<and> replay (effect_of (pc s t) p) vs = Some vs'"
proof -
  let ?k = "card {t. counted (pc s t)}"
  have i: "aq_rep (memory s) vs" "\<And>u. holds (pc s u) \<longleftrightarrow> owner s = Some u"
      "waitingThreads (fst (memory s)) = of_nat ?k" "\<forall>t \<ge> n. pc s t = Outside None"
      "\<And>t. pc s t = Sleeping \<Longrightarrow> vs = [] \<or> (\<exists>u. pc s u = Signalling)"
      "\<And>u f. pc s u \<noteq> Inside (Enqueue 0 f)"
    using inv by (auto simp: aq_inv_def)
  note fin = counted_threads [OF i(4)]
  have k: "?k \<le> n" using card_mono [OF _ fin(1)] by simp
  have asleep: "vs = []" if "pc s u = Sleeping" "pc s t \<noteq> Signalling" for u
    using i(5) [OF that(1)] i(2) that(2) t(2) by (metis holds.simps(2) option.inject)
  have none: "?k \<noteq> 0" if "pc s u = Sleeping" for u using fin(2) that by (auto intro!: exI [of _ u])
  note upd = card_counted_update [OF fin(2), of t]
  have ps: "pc s' = (pc s)(t := p)" if "pc s t \<noteq> Signalling" using that s'(3) by simp
  obtain m' where m': "pop_locked (memory s) = Some (if vs = [] then 0 else hd vs, m')" "aq_rep m' (tl vs)"
      "waitingThreads (fst m') = of_nat ?k"
    using pop_locked_ok [OF i(1)] i(3) by auto
  have hd: "vs \<noteq> [] \<Longrightarrow> hd vs \<noteq> 0" using i(1) by (cases vs) (auto simp: aq_rep_def)
  show ?thesis
  proof (cases "pc s t")
    case (Inside c)
    then have not: "pc s t \<noteq> Signalling" "\<not> counted (pc s t)" by simp_all
    show ?thesis
    proof (cases c)
      case (Enqueue v f)
      then have v: "v \<noteq> 0" using Inside i(6) [of t] by auto
      have pos: "waitingThreads (fst (memory s)) > 0 \<longleftrightarrow> ?k \<noteq> 0"
        using i(3) unat_of_nat_u32 [of ?k] k n by (simp add: word_greater_zero_iff word_unat_eq_iff del: unat_of_nat)
      define vs' where "vs' = (if f then v # vs else vs @ [v])"
      consider (added) m1 where "p = (if ?k \<noteq> 0 then Signalling else Leaving (Enqueued SOPC_STATUS_OK))" "m = m1"
          "aq_rep m1 vs'" "waitingThreads (fst m1) = of_nat ?k"
        | (full) m1 where "p = Leaving (Enqueued SOPC_STATUS_NOK)" "m = m1" "aq_rep m1 vs" "waitingThreads (fst m1) = of_nat ?k"
      proof -
        obtain m1 where m1: "waitingThreads (fst m1) = waitingThreads (fst (memory s))"
            "enqueue_locked env v f (memory s) = Some (SOPC_STATUS_OK, waitingThreads (fst (memory s)) > 0, m1) \<and> aq_rep m1 vs' \<or>
             enqueue_locked env v f (memory s) = Some (SOPC_STATUS_NOK, False, m1) \<and> aq_rep m1 vs"
          using enqueue_locked_ok [OF i(1) v len, of env f] unfolding vs'_def by blast
        from m1(2) show ?thesis
          by (elim disjE conjE) (use m1(1) step i(3) pos Inside Enqueue in \<open>auto intro: that\<close>)
      qed
      then show ?thesis
      proof cases
        case added
        have "aq_inv n vs' s'"
          by (rule aq_inv_locked [OF inv t s'(2) ps [OF not(1)]])
            (use added s'(1) upd [of p] not none in \<open>auto split: if_splits\<close>)
        then show ?thesis using added Inside Enqueue by (auto simp: vs'_def)
      next
        case full
        have "aq_inv n vs s'"
          by (rule aq_inv_locked [OF inv t s'(2) ps [OF not(1)]])
            (use full s'(1) upd [of p] not asleep in \<open>auto split: if_splits\<close>)
        then show ?thesis using full Inside Enqueue by auto
      qed
    next
      case (Dequeue b)
      have p: "(p, m) = (if vs \<noteq> [] then (Leaving (Dequeued SOPC_STATUS_OK (hd vs)), m')
          else if \<not> b then (Leaving (Dequeued SOPC_STATUS_WOULD_BLOCK 0), m')
          else (Waiting, (fst m')\<lparr>waitingThreads := waitingThreads (fst m') + 1\<rparr>, snd m'))"
        using step Inside Dequeue m' hd by (auto split: if_splits prod.splits)
      have "aq_inv n (tl vs) s'"
        by (rule aq_inv_locked [OF inv t s'(2) ps [OF not(1)]])
          (use p m'(2,3) s'(1) upd [of p] not asleep in \<open>auto split: if_splits\<close>)
      then show ?thesis using p Inside Dequeue by (cases vs; cases b) auto
    next
      case GetSize
      then have p: "m = memory s" "p = Leaving (Measured (SOPC_AsyncQueue_GetSize (memory s)))" using step Inside by auto
      have "aq_inv n vs s'"
        by (rule aq_inv_locked [OF inv t s'(2) ps [OF not(1)]])
          (use p i(1,3) s'(1) upd [of p] not asleep in \<open>auto split: if_splits\<close>)
      then show ?thesis using p Inside GetSize by auto
    qed
  next
    case Signalling
    then have p: "m = memory s" "p = Leaving (Enqueued SOPC_STATUS_OK)" "pc s' = (wake_all (pc s))(t := p)"
      using step s'(3) by auto
    have "aq_inv n vs s'"
      by (rule aq_inv_locked [OF inv t s'(2) p(3)]) (use p i(1,3) s'(1) upd [of p] Signalling in auto)
    then show ?thesis using p Signalling by auto
  next
    case Waiting
    then have pos: "0 < ?k" "pc s t \<noteq> Signalling" using fin(2) by (auto simp: card_gt_0_iff intro!: exI [of _ t])
    have p: "(p, m) = (if vs = [] then (Sleeping, m')
        else (Leaving (Dequeued SOPC_STATUS_OK (hd vs)), (fst m')\<lparr>waitingThreads := waitingThreads (fst m') - 1\<rparr>, snd m'))"
      using step Waiting m' hd by (auto split: if_splits prod.splits)
    have "aq_inv n (tl vs) s'"
      by (rule aq_inv_locked [OF inv t s'(2) ps [OF pos(2)]])
        (use p m'(2,3) s'(1) upd [of p] pos Waiting asleep in \<open>auto split: if_splits simp: of_nat_diff\<close>)
    then show ?thesis using p Waiting by (cases vs) auto
  qed (use step in auto)
qed

lemma aq_step_inv:
  assumes inv: "aq_inv n vs s" and t: "t < n" "n < 2 ^ 32" and len: "Suc (length vs) < 2 ^ 32" and step: "aq_step env t s s'"
  shows "\<exists>vs'. aq_inv n vs' s' \<and> replay (effect_of (pc s t) (pc s' t)) vs = Some vs'"
proof -
  from step show ?thesis
  proof cases
    case (call r c)
    have "aq_inv n vs s'" by (rule aq_inv_move [OF inv t(1), where p = "pc s' t"]) (use call in simp_all)
    then show ?thesis using call by auto
  next
    case (refuse f)
    have "aq_inv n vs s'" by (rule aq_inv_move [OF inv t(1), where p = "pc s' t"]) (use refuse in simp_all)
    then show ?thesis using refuse by auto
  next
    case (lock c)
    have "aq_inv n vs s'" by (rule aq_inv_move [OF inv t(1), where p = "pc s' t"]) (use lock in simp_all)
    then show ?thesis using lock by auto
  next
    case (run p m)
    then show ?thesis
      using aq_inv_run [OF inv t(1) run(2) t(2) len run(3), of s'] by simp
  next
    case (unlock r)
    have "aq_inv n vs s'" by (rule aq_inv_move [OF inv t(1), where p = "pc s' t"]) (use unlock in simp_all)
    then show ?thesis using unlock by auto
  next
    case wake
    have "aq_inv n vs s'" by (rule aq_inv_move [OF inv t(1), where p = "pc s' t"]) (use wake in simp_all)
    then show ?thesis using wake by auto
  next
    case relock
    have "aq_inv n vs s'" by (rule aq_inv_move [OF inv t(1), where p = "pc s' t"]) (use relock in simp_all)
    then show ?thesis using relock by auto
  qed
qed

lemma aq_start_inv:
  assumes "SOPC_AsyncQueue_Init env c m = (SOPC_STATUS_OK, Some q)"
  shows "aq_inv n [] (aq_start q)"
proof -
  obtain l where "queueList q = Some l" "sl_first l = None" "sl_last l = None" "sl_length l = 0" "waitingThreads q = 0"
    using assms by (auto simp: SOPC_AsyncQueue_Init_def Let_def SOPC_SLinkedList_Create_def split: if_splits option.splits)
  then show ?thesis
    by (auto simp: aq_inv_def aq_start_def aq_rep_def sll_rep_def sll_elems_def store_wf_def store_init_def intro!: exI [of _ "[]"])
qed

theorem aq_reachable_inv:
  assumes "aq_reachable n es s" "n < 2 ^ 32"
  shows "aq_inv n (aq_list (memory s)) s \<and> replay es [] = Some (aq_list (memory s))"
  using assms(1)
proof (induction rule: aq_reachable.induct)
  case (aq_initial env q)
  have "aq_inv n [] (aq_start q)" by (rule aq_start_inv [OF aq_initial])
  moreover from this have "aq_list (memory (aq_start q)) = []" unfolding aq_inv_def by (intro aq_rep_list) simp
  ultimately show ?case by simp
next
  case (aq_next es s t env s')
  then obtain vs' where "aq_inv n vs' s'" "replay (effect_of (pc s t) (pc s' t)) (aq_list (memory s)) = Some vs'"
    using aq_step_inv [of n "aq_list (memory s)" s t env s'] assms(2) by auto
  moreover from this(1) have "aq_list (memory s') = vs'" unfolding aq_inv_def by (intro aq_rep_list) simp
  ultimately show ?case using aq_next.IH by (simp add: replay_append)
qed

lemma locked_step_total:
  assumes "aq_rep m vs" "holds p" "\<And>r. p \<noteq> Leaving r" "\<And>f. p \<noteq> Inside (Enqueue 0 f)" "Suc (length vs) < 2 ^ 32"
  shows "\<exists>p' m'. locked_step env p m = Some (p', m')"
proof -
  obtain x q h where pop: "pop_locked m = Some (x, q, h)" using pop_locked_ok [OF assms(1)] by (metis prod.collapse)
  show ?thesis
  proof (cases p)
    case (Inside c)
    then show ?thesis
    proof (cases c)
      case (Enqueue v f)
      then have "v \<noteq> 0" using Inside assms(4) [of f] by auto
      then show ?thesis
        using Inside Enqueue enqueue_locked_ok [OF assms(1) _ assms(5), of v env f] by fastforce
    qed (use Inside pop in auto)
  qed (use assms pop in auto)
qed

text \<open>Some thread can go on, unless all of them are outside or asleep, and then the queue is empty.\<close>

lemma aq_progress:
  assumes inv: "aq_inv n vs s" and len: "Suc (length vs) < 2 ^ 32" and busy: "\<And>r. pc s u \<noteq> Outside r"
  shows "(\<exists>t s'. t < n \<and> pc s t \<noteq> Sleeping \<and> (\<forall>r. pc s t \<noteq> Outside r) \<and> aq_step env t s s') \<or>
    vs = [] \<and> (\<forall>t. pc s t = Sleeping \<or> (\<exists>r. pc s t = Outside r))"
proof -
  have i: "aq_rep (memory s) vs" "\<And>t. holds (pc s t) \<longleftrightarrow> owner s = Some t" "\<And>t. n \<le> t \<Longrightarrow> pc s t = Outside None"
      "\<And>t. pc s t = Sleeping \<Longrightarrow> vs = [] \<or> (\<exists>u. pc s u = Signalling)" "\<And>t f. pc s t \<noteq> Inside (Enqueue 0 f)"
    using inv by (auto simp: aq_inv_def)
  show ?thesis
  proof (cases "owner s")
    case (Some t)
    then have h: "holds (pc s t)" using i(2) by blast
    then have t: "t < n" "pc s t \<noteq> Sleeping" "\<forall>r. pc s t \<noteq> Outside r" using i(3) [of t] by (cases "n \<le> t"; auto)+
    have "\<exists>s'. aq_step env t s s'"
    proof (cases "\<exists>r. pc s t = Leaving r")
      case True
      then show ?thesis using Some by (auto intro: aq_step.unlock)
    next
      case False
      then show ?thesis
        using locked_step_total [OF i(1) h _ i(5) len, of env] Some by (blast intro: aq_step.run)
    qed
    then show ?thesis using t by blast
  next
    case None
    have free: "\<not> holds (pc s t)" for t using i(2) None by simp
    show ?thesis
    proof (cases "\<exists>t. pc s t \<noteq> Sleeping \<and> (\<forall>r. pc s t \<noteq> Outside r)")
      case True
      then obtain t where t: "pc s t \<noteq> Sleeping" "\<forall>r. pc s t \<noteq> Outside r" by blast
      then have "t < n" using i(3) [of t] by (cases "n \<le> t") auto
      moreover have "\<exists>s'. aq_step env t s s'"
      proof (cases "pc s t")
        case (Entering c)
        then show ?thesis
          using None by (cases "\<exists>f. c = Enqueue 0 f") (blast intro: aq_step.refuse aq_step.lock)+
      next
        case Woken
        then show ?thesis using None by (blast intro: aq_step.relock)
      qed (use t free [of t] in auto)
      ultimately show ?thesis using t by blast
    next
      case False
      have "pc s u = Sleeping" using False busy by blast
      then have "vs = []" using i(4) free by (metis holds.simps(2))
      then show ?thesis using False by blast
    qed
  qed
qed

end
