(* ===== verification/Event_Handler.thy ===== *)
theory Event_Handler
  imports Async_Queue_Laws
begin

text \<open>
  The event loop of \<open>src/Common/helpers/sopc_event_handler.c\<close>: events are allocated by the threads that post them and
  put at the end or in front of the asynchronous queue of the looper; the thread of the looper takes them out, calls the
  handler and frees them. Posting and taking out are single steps, in the order of their critical sections.
\<close>

section \<open>Events\<close>

record Event =
  ev_handler :: nat
  ev_code :: i32
  ev_id :: u32
  ev_params :: uintptr
  ev_auxParam :: uintptr

definition POISON_PILL :: uintptr where "POISON_PILL = 1"

text \<open>The queue and its cells, the allocated events, the events given to their handlers so far, and whether the loop runs.\<close>

record looper_state =
  lo_memory :: aq_memory
  lo_events :: "uintptr \<Rightarrow> Event option"
  lo_handled :: "Event list"
  lo_running :: bool

text \<open>
  \<open>post\<close>, with the result of its allocation as an argument. \<open>handler\<close> is the number of the handler, if the
  pointer is not null.
\<close>

definition post ::
  "('e) mem_env_scheme \<Rightarrow> uintptr option \<Rightarrow> nat option \<Rightarrow> i32 \<Rightarrow> u32 \<Rightarrow> uintptr \<Rightarrow> uintptr \<Rightarrow> bool \<Rightarrow>
   looper_state \<Rightarrow> (SOPC_ReturnStatus \<times> looper_state) option" where
  "post env ev handler event eltId params auxParam asNext s =
     (case handler of
        None \<Rightarrow> Some (SOPC_STATUS_INVALID_PARAMETERS, s)
      | Some hn \<Rightarrow>
          (case ev of
             None \<Rightarrow> Some (SOPC_STATUS_OUT_OF_MEMORY, s)
           | Some p \<Rightarrow> do {
               let es = (lo_events s)(p \<mapsto> \<lparr>ev_handler = hn, ev_code = event, ev_id = eltId, ev_params = params,
                           ev_auxParam = auxParam\<rparr>);
               (status, m) \<leftarrow> SOPC_AsyncQueue_BlockingEnqueueFirstOrLast env p asNext (lo_memory s);
               Some (status, s\<lparr>lo_memory := m, lo_events := (if status \<noteq> SOPC_STATUS_OK then es(p := None) else es)\<rparr>) }))"

definition SOPC_EventHandler_Post ::
  "('e) mem_env_scheme \<Rightarrow> uintptr option \<Rightarrow> nat option \<Rightarrow> i32 \<Rightarrow> u32 \<Rightarrow> uintptr \<Rightarrow> uintptr \<Rightarrow>
   looper_state \<Rightarrow> (SOPC_ReturnStatus \<times> looper_state) option" where
  "SOPC_EventHandler_Post env ev handler event eltId params auxParam s =
     post env ev handler event eltId params auxParam False s"

definition SOPC_EventHandler_PostAsNext ::
  "('e) mem_env_scheme \<Rightarrow> uintptr option \<Rightarrow> nat option \<Rightarrow> i32 \<Rightarrow> u32 \<Rightarrow> uintptr \<Rightarrow> uintptr \<Rightarrow>
   looper_state \<Rightarrow> (SOPC_ReturnStatus \<times> looper_state) option" where
  "SOPC_EventHandler_PostAsNext env ev handler event eltId params auxParam s =
     post env ev handler event eltId params auxParam True s"

text \<open>
  One turn of the loop with an element in the queue; without one the thread waits and the state stays. The memory of
  the event is read before the callback and freed after it; what the callback posts are steps of its own.
\<close>

definition looper_loop :: "looper_state \<Rightarrow> looper_state option" where
  "looper_loop s =
     (if \<not> lo_running s then Some s
      else do {
        (item, m) \<leftarrow> pop_locked (lo_memory s);
        if item = 0 then Some s
        else if item = POISON_PILL then Some (s\<lparr>lo_memory := m, lo_running := False\<rparr>)
        else do {
          ev \<leftarrow> lo_events s item;
          Some (s\<lparr>lo_memory := m, lo_events := (lo_events s)(item := None), lo_handled := lo_handled s @ [ev]\<rparr>) } })"

text \<open>The first half of \<open>SOPC_Looper_Delete\<close>: the order to stop, whose insertion is asserted.\<close>

definition looper_stop :: "('e) mem_env_scheme \<Rightarrow> looper_state \<Rightarrow> looper_state option" where
  "looper_stop env s = do {
     (status, m) \<leftarrow> SOPC_AsyncQueue_BlockingEnqueueFirstOrLast env POISON_PILL False (lo_memory s);
     if status = SOPC_STATUS_OK then Some (s\<lparr>lo_memory := m\<rparr>) else None }"

definition SOPC_EventHandler_Get_QueueSize :: "nat option \<Rightarrow> looper_state \<Rightarrow> u32" where
  "SOPC_EventHandler_Get_QueueSize handler s =
     (if handler = None then 0 else SOPC_AsyncQueue_GetSize (lo_memory s))"

section \<open>Specification\<close>

text \<open>A queue of events and of orders to stop, and the events handled.\<close>

datatype looper_item = Item_Event Event | Item_Stop

record looper_spec =
  sp_pending :: "looper_item list"
  sp_handled :: "Event list"
  sp_running :: bool

definition spec_add :: "looper_item \<Rightarrow> bool \<Rightarrow> looper_spec \<Rightarrow> looper_spec" where
  "spec_add x asNext a = a\<lparr>sp_pending := (if asNext then x # sp_pending a else sp_pending a @ [x])\<rparr>"

fun spec_take :: "looper_spec \<Rightarrow> looper_spec" where
  "spec_take a =
     (if \<not> sp_running a then a
      else case sp_pending a of
        [] \<Rightarrow> a
      | Item_Stop # xs \<Rightarrow> a\<lparr>sp_pending := xs, sp_running := False\<rparr>
      | Item_Event e # xs \<Rightarrow> a\<lparr>sp_pending := xs, sp_handled := sp_handled a @ [e]\<rparr>)"

definition item_of :: "(uintptr \<Rightarrow> Event option) \<Rightarrow> uintptr \<Rightarrow> looper_item" where
  "item_of es p = (if p = POISON_PILL then Item_Stop else Item_Event (the (es p)))"

definition looper_abs :: "looper_state \<Rightarrow> looper_spec" where
  "looper_abs s = \<lparr>sp_pending = map (item_of (lo_events s)) (aq_list (lo_memory s)), sp_handled = lo_handled s,
     sp_running = lo_running s\<rparr>"

text \<open>The events in the queue are allocated, each of them is there once, and no other event is allocated.\<close>

definition looper_inv :: "looper_state \<Rightarrow> bool" where
  "looper_inv s \<longleftrightarrow>
     (\<exists>vs. aq_rep (lo_memory s) vs \<and> distinct (filter (\<lambda>v. v \<noteq> POISON_PILL) vs) \<and>
       dom (lo_events s) = set vs - {POISON_PILL})"

section \<open>Refinement\<close>

lemma looper_inv_list:
  assumes "looper_inv s"
  shows "aq_rep (lo_memory s) (aq_list (lo_memory s))" "distinct (filter (\<lambda>v. v \<noteq> POISON_PILL) (aq_list (lo_memory s)))"
    "dom (lo_events s) = set (aq_list (lo_memory s)) - {POISON_PILL}" "0 \<notin> set (aq_list (lo_memory s))"
  using assms by (auto simp: looper_inv_def aq_rep_list) (auto simp: aq_rep_def)

lemma item_of_other: "q \<notin> set vs \<Longrightarrow> map (item_of (es(q := x))) vs = map (item_of es) vs"
  by (auto simp: item_of_def)

lemma enqueue_call_ok:
  assumes "aq_rep m vs" "p \<noteq> 0" "Suc (length vs) < 2 ^ 32"
  obtains m' where "SOPC_AsyncQueue_BlockingEnqueueFirstOrLast env p f m = Some (SOPC_STATUS_OK, m')"
      "aq_rep m' (if f then p # vs else vs @ [p])"
    | m' where "SOPC_AsyncQueue_BlockingEnqueueFirstOrLast env p f m = Some (SOPC_STATUS_NOK, m')" "aq_rep m' vs"
proof -
  obtain m' where "enqueue_locked env p f m = Some (SOPC_STATUS_OK, waitingThreads (fst m) > 0, m') \<and>
       aq_rep m' (if f then p # vs else vs @ [p]) \<or>
     enqueue_locked env p f m = Some (SOPC_STATUS_NOK, False, m') \<and> aq_rep m' vs"
    using enqueue_locked_ok [OF assms, of env f] by blast
  then show thesis
  proof (elim disjE conjE)
    assume "enqueue_locked env p f m = Some (SOPC_STATUS_OK, waitingThreads (fst m) > 0, m')"
      "aq_rep m' (if f then p # vs else vs @ [p])"
    then show thesis using that(1) assms(2) by (simp add: SOPC_AsyncQueue_BlockingEnqueueFirstOrLast_def)
  next
    assume "enqueue_locked env p f m = Some (SOPC_STATUS_NOK, False, m')" "aq_rep m' vs"
    then show thesis using that(2) assms(2) by (simp add: SOPC_AsyncQueue_BlockingEnqueueFirstOrLast_def)
  qed
qed

lemma post_refines:
  assumes inv: "looper_inv s" and len: "Suc (length (aq_list (lo_memory s))) < 2 ^ 32"
    and fresh: "\<And>p. ev = Some p \<Longrightarrow> p \<noteq> 0 \<and> p \<noteq> POISON_PILL \<and> lo_events s p = None"
  shows "\<exists>status s'. post env ev handler event eltId params aux asNext s = Some (status, s') \<and> looper_inv s' \<and>
    looper_abs s' = (if status = SOPC_STATUS_OK
      then spec_add (Item_Event \<lparr>ev_handler = the handler, ev_code = event, ev_id = eltId, ev_params = params,
             ev_auxParam = aux\<rparr>) asNext (looper_abs s)
      else looper_abs s)"
proof (cases "handler = None \<or> ev = None")
  case True
  then show ?thesis using inv by (auto simp: post_def split: option.splits)
next
  case False
  then obtain hn p where h: "handler = Some hn" "ev = Some p" by auto
  note p = fresh [OF h(2)]
  let ?vs = "aq_list (lo_memory s)"
  let ?e = "\<lparr>ev_handler = hn, ev_code = event, ev_id = eltId, ev_params = params, ev_auxParam = aux\<rparr>"
  note i = looper_inv_list [OF inv]
  have notin: "p \<notin> set ?vs" using i(3) p by (metis DiffI domIff singletonD)
  show ?thesis
  proof (cases rule: enqueue_call_ok [OF i(1), of p env asNext])
    case (3 m')
    let ?s = "s\<lparr>lo_memory := m', lo_events := (lo_events s)(p \<mapsto> ?e)\<rparr>"
    have "looper_inv ?s"
      unfolding looper_inv_def
      by (rule exI [of _ "if asNext then p # ?vs else ?vs @ [p]"], cases asNext) (use 3(2) i(2,3) notin p in auto)
    moreover have "looper_abs ?s = spec_add (Item_Event ?e) asNext (looper_abs s)"
      using p by (simp add: looper_abs_def spec_add_def aq_rep_list [OF 3(2)] item_of_other [OF notin])
        (simp add: item_of_def)
    ultimately show ?thesis using h 3(1) by (simp add: post_def)
  next
    case (4 m')
    let ?s = "s\<lparr>lo_memory := m', lo_events := (lo_events s)(p := None)\<rparr>"
    have same: "(lo_events s)(p := None) = lo_events s" using p by auto
    have "looper_inv ?s" unfolding looper_inv_def using 4(2) i(2,3) same by auto
    moreover have "looper_abs ?s = looper_abs s" by (simp add: looper_abs_def aq_rep_list [OF 4(2)] same)
    ultimately show ?thesis using h 4(1) by (simp add: post_def)
  qed (use p len in simp_all)
qed

lemma looper_loop_refines:
  assumes inv: "looper_inv s"
  shows "\<exists>s'. looper_loop s = Some s' \<and> looper_inv s' \<and> looper_abs s' = spec_take (looper_abs s)"
proof (cases "lo_running s")
  case False
  then show ?thesis using inv by (simp add: looper_loop_def looper_abs_def)
next
  case True
  note i = looper_inv_list [OF inv]
  obtain m' where m': "pop_locked (lo_memory s) = Some (if aq_list (lo_memory s) = [] then 0 else hd (aq_list (lo_memory s)), m')"
      "aq_rep m' (tl (aq_list (lo_memory s)))"
    using pop_locked_ok [OF i(1)] by blast
  show ?thesis
  proof (cases "aq_list (lo_memory s)")
    case Nil
    then show ?thesis using True inv m' by (simp add: looper_loop_def looper_abs_def)
  next
    case (Cons p vs)
    have pop: "pop_locked (lo_memory s) = Some (p, m')" "aq_rep m' vs" using m' Cons by simp_all
    show ?thesis
    proof (cases "p = POISON_PILL")
      case pill: True
      have "looper_inv (s\<lparr>lo_memory := m', lo_running := False\<rparr>)"
        unfolding looper_inv_def using pop(2) i(2,3) Cons pill by (auto intro!: exI [of _ vs])
      moreover have "looper_loop s = Some (s\<lparr>lo_memory := m', lo_running := False\<rparr>)"
        using True pop(1) pill by (simp add: looper_loop_def POISON_PILL_def)
      ultimately show ?thesis
        using True pill Cons by (simp add: looper_abs_def aq_rep_list [OF pop(2)] item_of_def)
    next
      case False
      then have p: "p \<notin> set vs" "p \<noteq> 0" using i(2,4) Cons by auto
      obtain e where e: "lo_events s p = Some e" using i(3) False Cons by (metis DiffI domD list.set_intros(1) singletonD)
      let ?s = "s\<lparr>lo_memory := m', lo_events := (lo_events s)(p := None), lo_handled := lo_handled s @ [e]\<rparr>"
      have "looper_inv ?s"
        unfolding looper_inv_def using pop(2) i(2,3) Cons False p by (auto intro!: exI [of _ vs])
      moreover have "looper_loop s = Some ?s" using True pop(1) False p e by (simp add: looper_loop_def)
      ultimately show ?thesis
        using True False Cons e by (simp add: looper_abs_def aq_rep_list [OF pop(2)] item_of_other [OF p(1)]) (simp add: item_of_def)
    qed
  qed
qed

lemma looper_stop_refines:
  assumes inv: "looper_inv s" and len: "Suc (length (aq_list (lo_memory s))) < 2 ^ 32" and run: "looper_stop env s = Some s'"
  shows "looper_inv s' \<and> looper_abs s' = spec_add Item_Stop False (looper_abs s)"
proof -
  note i = looper_inv_list [OF inv]
  show ?thesis
  proof (cases rule: enqueue_call_ok [OF i(1), of POISON_PILL env False])
    case (3 m')
    then have s': "s' = s\<lparr>lo_memory := m'\<rparr>" using run by (simp add: looper_stop_def)
    have "looper_inv s'"
      unfolding looper_inv_def s' using 3(2) i(2,3) by (intro exI [of _ "aq_list (lo_memory s) @ [POISON_PILL]"]) auto
    then show ?thesis using 3(2) by (simp add: s' looper_abs_def spec_add_def aq_rep_list item_of_def)
  next
    case (4 m')
    then show ?thesis using run by (simp add: looper_stop_def)
  qed (use len in \<open>simp_all add: POISON_PILL_def\<close>)
qed

end
