(* ===== verification/Event_Properties.thy ===== *)
theory Event_Properties
  imports Event_Handler
begin

text \<open>
  Properties of the asynchronous queue, for any number of threads and any interleaving, and of the event loop on top of it.
\<close>

section \<open>A concrete run\<close>

definition demo_queue :: SOPC_AsyncQueue where
  "demo_queue = \<lparr>queueList = Some \<lparr>sl_first = None, sl_last = None, sl_length = 0, sl_maxLength = 0\<rparr>,
     maxListLengthForWarning = 5000, waitingThreads = 0\<rparr>"

definition demo_called :: aq_system where
  "demo_called = (aq_start demo_queue)\<lparr>pc := (\<lambda>_. Outside None)(0 := Entering (Enqueue 5 False))\<rparr>"

definition demo_locked :: aq_system where
  "demo_locked = demo_called\<lparr>owner := Some 0, pc := (\<lambda>_. Outside None)(0 := Inside (Enqueue 5 False))\<rparr>"

definition demo_enqueued :: aq_system where
  "demo_enqueued = \<lparr>memory = (demo_queue\<lparr>queueList := Some \<lparr>sl_first = Some 0, sl_last = Some 0, sl_length = 1, sl_maxLength = 0\<rparr>\<rparr>,
       \<lparr>cells = [0 \<mapsto> \<lparr>elt_id = 0, elt_value = 5, elt_next = None\<rparr>], next_addr = 1\<rparr>),
     owner = Some 0, pc = (\<lambda>_. Outside None)(0 := Leaving (Enqueued SOPC_STATUS_OK))\<rparr>"

lemma demo_init: "SOPC_AsyncQueue_Init demo_mem SOPC_STATUS_OK SOPC_STATUS_OK = (SOPC_STATUS_OK, Some demo_queue)"
  by (simp add: SOPC_AsyncQueue_Init_def demo_mem_def demo_queue_def SOPC_SLinkedList_Create_def Let_def
      SOPC_MAX_NB_ELEMENTS_ASYNC_QUEUE_def SOPC_MAX_NB_ELEMENTS_ASYNC_QUEUE_WARNING_ONLY_def)

lemma demo_enqueue:
  "locked_step demo_mem (Inside (Enqueue 5 False)) (demo_queue, store_init) =
     Some (Leaving (Enqueued SOPC_STATUS_OK), memory demo_enqueued)"
  by (simp add: enqueue_locked_def demo_queue_def SOPC_SLinkedList_Append_def elt_create_def elt_malloc_def demo_mem_def
      store_init_def demo_enqueued_def)

lemma demo_empty: "aq_list (memory (aq_start demo_queue)) = []"
proof -
  have "apply_loop store_init None = Some []" by (subst apply_loop.simps) simp
  then show ?thesis by (simp add: aq_list_def aq_start_def demo_queue_def SOPC_SLinkedList_Apply_def)
qed

lemma demo_reachable: "aq_reachable 1 [] demo_called" "aq_reachable 1 [Put 5 False] demo_enqueued"
proof -
  have start: "aq_reachable 1 [] (aq_start demo_queue)" by (rule aq_initial [OF demo_init])
  have "aq_step demo_mem 0 (aq_start demo_queue) demo_called"
    unfolding demo_called_def
    using aq_step.call [where t = 0 and s = "aq_start demo_queue" and r = None and env = demo_mem and c = "Enqueue 5 False"]
    by (simp add: aq_start_def)
  then show called: "aq_reachable 1 [] demo_called"
    using aq_next [OF start] demo_empty by (fastforce simp: aq_start_def)
  have "aq_step demo_mem 0 demo_called demo_locked"
    unfolding demo_locked_def using aq_step.lock [where t = 0 and s = demo_called and c = "Enqueue 5 False"]
    by (simp add: demo_called_def aq_start_def)
  moreover have "memory demo_called = memory (aq_start demo_queue)" by (simp add: demo_called_def)
  ultimately have locked: "aq_reachable 1 [] demo_locked"
    using aq_next [OF called, of 0 demo_mem demo_locked] demo_empty by (simp add: demo_called_def demo_locked_def)
  have "aq_step demo_mem 0 demo_locked demo_enqueued"
    using aq_step.run [where t = 0 and s = demo_locked and env = demo_mem] demo_enqueue
    by (simp add: demo_locked_def demo_called_def aq_start_def) (simp add: demo_enqueued_def)
  moreover have "memory demo_locked = memory (aq_start demo_queue)" by (simp add: demo_called_def demo_locked_def)
  ultimately show "aq_reachable 1 [Put 5 False] demo_enqueued"
    using aq_next [OF locked, of 0 demo_mem demo_enqueued] demo_empty by (simp add: demo_locked_def demo_enqueued_def)
qed

section \<open>The asynchronous queue\<close>

text \<open>
  C4: Whatever the number of threads and the interleaving of their steps, the calls on an asynchronous queue take effect one
  after the other: the elements in the queue are those that the insertions and removals so far leave in a list, in the
  order in which they took the mutex, with insertions at the end or in front, and every removal got the first element.
\<close>

theorem async_queue_order:
  assumes "aq_reachable n es s" "n < 2 ^ 32"
  shows "replay es [] = Some (aq_list (memory s))"
  using aq_reachable_inv [OF assms] by simp

theorem async_queue_order_witness:
  "aq_reachable 1 [Put 5 False] demo_enqueued \<and> aq_list (memory demo_enqueued) = [5]"
  using async_queue_order [OF demo_reachable(2)] demo_reachable(2) by simp

text \<open>
  C5: No wake-up is lost. In every state that threads reach, at most one of them is behind the mutex, the counter of the waiting
  threads is exact, and a thread sleeps on the condition variable only while the queue is empty or while the thread
  that just filled it is about to signal.
\<close>

theorem async_queue_no_lost_wakeup:
  assumes "aq_reachable n es s" "n < 2 ^ 32"
  shows "(\<forall>t u. holds (pc s t) \<and> holds (pc s u) \<longrightarrow> t = u) \<and>
    unat (waitingThreads (fst (memory s))) = card {t. counted (pc s t)} \<and>
    (\<forall>t. pc s t = Sleeping \<longrightarrow> aq_list (memory s) = [] \<or> (\<exists>u. pc s u = Signalling))"
proof -
  have inv: "aq_inv n (aq_list (memory s)) s" using aq_reachable_inv [OF assms] by simp
  then have idle: "\<forall>t \<ge> n. pc s t = Outside None" by (simp add: aq_inv_def)
  then have "card {t. counted (pc s t)} < 2 ^ 32"
    using card_mono [OF _ counted_threads(1) [OF idle]] assms(2) by simp
  then show ?thesis using inv unat_of_nat_u32 by (auto simp: aq_inv_def)
qed

theorem async_queue_no_lost_wakeup_witness:
  "aq_reachable 1 [Put 5 False] demo_enqueued \<and> unat (waitingThreads (fst (memory demo_enqueued))) = card {t. counted (pc demo_enqueued t)}"
  using async_queue_no_lost_wakeup [OF demo_reachable(2)] demo_reachable(2) by simp

text \<open>
  C6: The threads are never blocked by the queue itself. In every state in which some thread is in a call, another step of a thread
  that is not asleep is possible, unless all the threads are outside of the queue or asleep, and then the queue is
  empty: they wait for an element that nobody has put there.
\<close>

theorem async_queue_progress:
  assumes "aq_reachable n es s" "n < 2 ^ 32" "Suc (length (aq_list (memory s))) < 2 ^ 32" "\<forall>r. pc s u \<noteq> Outside r"
  shows "(\<exists>t s'. t < n \<and> pc s t \<noteq> Sleeping \<and> (\<forall>r. pc s t \<noteq> Outside r) \<and> aq_step env t s s') \<or>
    aq_list (memory s) = [] \<and> (\<forall>t. pc s t = Sleeping \<or> (\<exists>r. pc s t = Outside r))"
  using aq_progress [of n "aq_list (memory s)" s u env] aq_reachable_inv [OF assms(1,2)] assms(3,4) by blast

theorem async_queue_progress_witness:
  "\<exists>t s'. t < 1 \<and> pc demo_called t \<noteq> Sleeping \<and> aq_step demo_mem t demo_called s'"
proof -
  have "aq_list (memory demo_called) = []" using demo_empty by (simp add: demo_called_def)
  then show ?thesis
    using async_queue_progress [OF demo_reachable(1), of 0 demo_mem] by (auto simp: demo_called_def split: if_splits)
qed

section \<open>The event loop\<close>

text \<open>The states of a looper with the queue of the specification, for any order of posts, turns of the loop and orders to stop.\<close>

inductive looper_reachable :: "looper_state \<Rightarrow> looper_spec \<Rightarrow> bool" where
  looper_start: "SOPC_AsyncQueue_Init (env :: mem_env) SOPC_STATUS_OK SOPC_STATUS_OK = (SOPC_STATUS_OK, Some q) \<Longrightarrow>
    looper_reachable \<lparr>lo_memory = (q, store_init), lo_events = (\<lambda>_. None), lo_handled = [], lo_running = True\<rparr>
      \<lparr>sp_pending = [], sp_handled = [], sp_running = True\<rparr>"
| looper_post: "looper_reachable s a \<Longrightarrow> Suc (length (aq_list (lo_memory s))) < 2 ^ 32 \<Longrightarrow>
    (\<And>p. ev = Some p \<Longrightarrow> p \<noteq> 0 \<and> p \<noteq> POISON_PILL \<and> lo_events s p = None) \<Longrightarrow>
    post (env :: mem_env) ev handler event eltId params aux asNext s = Some (status, s') \<Longrightarrow>
    looper_reachable s' (if status = SOPC_STATUS_OK
      then spec_add (Item_Event \<lparr>ev_handler = the handler, ev_code = event, ev_id = eltId, ev_params = params,
             ev_auxParam = aux\<rparr>) asNext a
      else a)"
| looper_turn: "looper_reachable s a \<Longrightarrow> looper_loop s = Some s' \<Longrightarrow> looper_reachable s' (spec_take a)"
| looper_stopped: "looper_reachable s a \<Longrightarrow> Suc (length (aq_list (lo_memory s))) < 2 ^ 32 \<Longrightarrow>
    looper_stop (env :: mem_env) s = Some s' \<Longrightarrow> looper_reachable s' (spec_add Item_Stop False a)"

lemma looper_reachable_inv: "looper_reachable s a \<Longrightarrow> looper_inv s \<and> looper_abs s = a"
proof (induction rule: looper_reachable.induct)
  case (looper_start env q)
  have "aq_rep (q, store_init) []" using aq_start_inv [OF looper_start, of 0] by (simp add: aq_inv_def aq_start_def)
  then show ?case by (auto simp: looper_inv_def looper_abs_def dest: aq_rep_list)
next
  case (looper_post s a ev env handler event eltId params aux asNext status s')
  then show ?case
    using post_refines [of s ev env handler event eltId params aux asNext] by auto
next
  case (looper_turn s a s')
  then show ?case using looper_loop_refines [of s] by auto
next
  case (looper_stopped s a env s')
  then show ?case using looper_stop_refines [of s env s'] by auto
qed

text \<open>
  C7: For any order of posts from the threads, turns of the loop and orders to stop, the looper behaves as a queue of events: an
  event that was accepted is handed to its handler exactly once, in the order of the posts, those posted as next before
  the others that wait, and none after an order to stop was taken. A post that fails leaves no trace. Neither a post nor a turn
  accesses freed memory, and the events that are allocated are exactly those that wait.
\<close>

theorem looper_refines_queue:
  assumes "looper_reachable s a"
  shows "sp_handled a = lo_handled s \<and> sp_running a = lo_running s \<and>
    sp_pending a = map (item_of (lo_events s)) (aq_list (lo_memory s)) \<and>
    dom (lo_events s) = set (aq_list (lo_memory s)) - {POISON_PILL} \<and> (\<exists>s'. looper_loop s = Some s')"
  using looper_reachable_inv [OF assms] looper_inv_list(3) [of s] looper_loop_refines [of s] by (auto simp: looper_abs_def)

definition demo_looper :: looper_state where
  "demo_looper = \<lparr>lo_memory = (demo_queue, store_init), lo_events = (\<lambda>_. None), lo_handled = [], lo_running = True\<rparr>"

definition demo_event :: Event where
  "demo_event = \<lparr>ev_handler = 0, ev_code = 7, ev_id = 3, ev_params = 0, ev_auxParam = 0\<rparr>"

theorem looper_refines_queue_witness:
  "\<exists>s1 s2 a. post demo_mem (Some 16) (Some 0) 7 3 0 0 False demo_looper = Some (SOPC_STATUS_OK, s1) \<and>
     looper_loop s1 = Some s2 \<and> looper_reachable s2 a \<and> lo_handled s2 = [demo_event]"
proof -
  have start: "looper_reachable demo_looper \<lparr>sp_pending = [], sp_handled = [], sp_running = True\<rparr>"
    unfolding demo_looper_def by (rule looper_start [OF demo_init])
  have len: "Suc (length (aq_list (lo_memory demo_looper))) < 2 ^ 32"
    using demo_empty by (simp add: demo_looper_def aq_start_def)
  have new: "\<And>p. Some 16 = Some p \<Longrightarrow> p \<noteq> 0 \<and> p \<noteq> POISON_PILL \<and> lo_events demo_looper p = None"
    by (auto simp: POISON_PILL_def demo_looper_def)
  have room: "enqueue_locked demo_mem 16 False (demo_queue, store_init) \<noteq> Some (SOPC_STATUS_NOK, False, m)" for m
    by (simp add: enqueue_locked_def demo_queue_def SOPC_SLinkedList_Append_def elt_create_def elt_malloc_def demo_mem_def
        store_init_def)
  obtain st s1 where p: "post demo_mem (Some 16) (Some 0) 7 3 0 0 False demo_looper = Some (st, s1)"
    using post_refines [of demo_looper "Some 16" demo_mem "Some 0" 7 3 0 0 False] looper_reachable_inv [OF start] len new by blast
  have "aq_rep (demo_queue, store_init) []" using aq_start_inv [OF demo_init, of 0] by (simp add: aq_inv_def aq_start_def)
  then have "st = SOPC_STATUS_OK"
    using p enqueue_locked_ok [of "(demo_queue, store_init)" "[]" 16 demo_mem False] room
    by (auto simp: post_def demo_looper_def SOPC_AsyncQueue_BlockingEnqueueFirstOrLast_def)
  then have one: "looper_reachable s1 (spec_add (Item_Event demo_event) False \<lparr>sp_pending = [], sp_handled = [], sp_running = True\<rparr>)"
    using looper_post [OF start len new p] by (simp add: demo_event_def)
  obtain s2 where s2: "looper_loop s1 = Some s2" using looper_refines_queue [OF one] by blast
  note two = looper_turn [OF one s2]
  have "lo_handled s2 = [demo_event]" using looper_refines_queue [OF two] by (simp add: spec_add_def)
  then show ?thesis using p \<open>st = SOPC_STATUS_OK\<close> s2 two by blast
qed

end
