(* ===== verification/Variant_Types.thy ===== *)
theory Variant_Types
  imports Encoder_Types
begin

unbundle bit_operations_syntax

text \<open>
  The values an OPC UA variant holds, of \<open>src/Common/opcua_types/sopc_builtintypes.h\<close>, and the entries
  of the encoding table of \<open>sopc_encoder.c\<close> for the built-in types that contain no variant. Variants
  and data values are mutually recursive, as in the source; so is the type of the elements of an array.

  Extension objects are the type parameter \<open>'x\<close>. Their writer, their reader and their initial value
  are the members of a record \<open>ext_ops\<close> that every function of the theory takes.
\<close>

section \<open>Built-in types\<close>

text \<open>The last constructor is a number of the six-bit field of an encoding byte that names no type.\<close>

datatype SOPC_BuiltinId =
    SOPC_Null_Id | SOPC_Boolean_Id | SOPC_SByte_Id | SOPC_Byte_Id | SOPC_Int16_Id | SOPC_UInt16_Id
  | SOPC_Int32_Id | SOPC_UInt32_Id | SOPC_Int64_Id | SOPC_UInt64_Id | SOPC_Float_Id | SOPC_Double_Id
  | SOPC_String_Id | SOPC_DateTime_Id | SOPC_Guid_Id | SOPC_ByteString_Id | SOPC_XmlElement_Id
  | SOPC_NodeId_Id | SOPC_ExpandedNodeId_Id | SOPC_StatusCode_Id | SOPC_QualifiedName_Id
  | SOPC_LocalizedText_Id | SOPC_ExtensionObject_Id | SOPC_DataValue_Id | SOPC_Variant_Id
  | SOPC_DiagnosticInfo_Id | SOPC_Unknown_Id byte

definition builtin_ids :: "SOPC_BuiltinId list" where
  "builtin_ids =
     [SOPC_Null_Id, SOPC_Boolean_Id, SOPC_SByte_Id, SOPC_Byte_Id, SOPC_Int16_Id, SOPC_UInt16_Id,
      SOPC_Int32_Id, SOPC_UInt32_Id, SOPC_Int64_Id, SOPC_UInt64_Id, SOPC_Float_Id, SOPC_Double_Id,
      SOPC_String_Id, SOPC_DateTime_Id, SOPC_Guid_Id, SOPC_ByteString_Id, SOPC_XmlElement_Id,
      SOPC_NodeId_Id, SOPC_ExpandedNodeId_Id, SOPC_StatusCode_Id, SOPC_QualifiedName_Id,
      SOPC_LocalizedText_Id, SOPC_ExtensionObject_Id, SOPC_DataValue_Id, SOPC_Variant_Id,
      SOPC_DiagnosticInfo_Id]"

definition builtin_of_byte :: "byte \<Rightarrow> SOPC_BuiltinId" where
  "builtin_of_byte e = (if unat e < length builtin_ids then builtin_ids ! unat e else SOPC_Unknown_Id e)"

definition byte_of_builtin :: "SOPC_BuiltinId \<Rightarrow> byte" where
  "byte_of_builtin tid =
     (case tid of
        SOPC_Null_Id \<Rightarrow> 0 | SOPC_Boolean_Id \<Rightarrow> 1 | SOPC_SByte_Id \<Rightarrow> 2 | SOPC_Byte_Id \<Rightarrow> 3
      | SOPC_Int16_Id \<Rightarrow> 4 | SOPC_UInt16_Id \<Rightarrow> 5 | SOPC_Int32_Id \<Rightarrow> 6 | SOPC_UInt32_Id \<Rightarrow> 7
      | SOPC_Int64_Id \<Rightarrow> 8 | SOPC_UInt64_Id \<Rightarrow> 9 | SOPC_Float_Id \<Rightarrow> 10 | SOPC_Double_Id \<Rightarrow> 11
      | SOPC_String_Id \<Rightarrow> 12 | SOPC_DateTime_Id \<Rightarrow> 13 | SOPC_Guid_Id \<Rightarrow> 14 | SOPC_ByteString_Id \<Rightarrow> 15
      | SOPC_XmlElement_Id \<Rightarrow> 16 | SOPC_NodeId_Id \<Rightarrow> 17 | SOPC_ExpandedNodeId_Id \<Rightarrow> 18
      | SOPC_StatusCode_Id \<Rightarrow> 19 | SOPC_QualifiedName_Id \<Rightarrow> 20 | SOPC_LocalizedText_Id \<Rightarrow> 21
      | SOPC_ExtensionObject_Id \<Rightarrow> 22 | SOPC_DataValue_Id \<Rightarrow> 23 | SOPC_Variant_Id \<Rightarrow> 24
      | SOPC_DiagnosticInfo_Id \<Rightarrow> 25 | SOPC_Unknown_Id e \<Rightarrow> e)"

text \<open>The guard \<open>builtInTypeId <= 0 || builtInTypeId > SOPC_BUILTINID_MAX\<close>.\<close>

definition no_builtin :: "SOPC_BuiltinId \<Rightarrow> bool" where
  "no_builtin tid = (case tid of SOPC_Null_Id \<Rightarrow> True | SOPC_Unknown_Id _ \<Rightarrow> True | _ \<Rightarrow> False)"

text \<open>The column \<open>size\<close> of \<open>SOPC_BuiltInType_HandlingTable\<close>, with 64-bit pointers.\<close>

definition builtin_size :: "SOPC_BuiltinId \<Rightarrow> nat" where
  "builtin_size tid =
     (case tid of
        SOPC_Null_Id \<Rightarrow> 0 | SOPC_Boolean_Id \<Rightarrow> 1 | SOPC_SByte_Id \<Rightarrow> 1 | SOPC_Byte_Id \<Rightarrow> 1
      | SOPC_Int16_Id \<Rightarrow> 2 | SOPC_UInt16_Id \<Rightarrow> 2 | SOPC_Int32_Id \<Rightarrow> 4 | SOPC_UInt32_Id \<Rightarrow> 4
      | SOPC_Int64_Id \<Rightarrow> 8 | SOPC_UInt64_Id \<Rightarrow> 8 | SOPC_Float_Id \<Rightarrow> 4 | SOPC_Double_Id \<Rightarrow> 8
      | SOPC_String_Id \<Rightarrow> 16 | SOPC_DateTime_Id \<Rightarrow> 8 | SOPC_Guid_Id \<Rightarrow> 16 | SOPC_ByteString_Id \<Rightarrow> 16
      | SOPC_XmlElement_Id \<Rightarrow> 16 | SOPC_NodeId_Id \<Rightarrow> 24 | SOPC_ExpandedNodeId_Id \<Rightarrow> 48
      | SOPC_StatusCode_Id \<Rightarrow> 4 | SOPC_QualifiedName_Id \<Rightarrow> 24 | SOPC_LocalizedText_Id \<Rightarrow> 40
      | SOPC_ExtensionObject_Id \<Rightarrow> 72 | SOPC_DataValue_Id \<Rightarrow> 72 | SOPC_Variant_Id \<Rightarrow> 40
      | SOPC_DiagnosticInfo_Id \<Rightarrow> sizeof_SOPC_DiagnosticInfo | SOPC_Unknown_Id _ \<Rightarrow> 0)"

text \<open>
  0 when the elements of an array are encoded one by one, otherwise the size of an element: both
  representations are little endian.
\<close>

definition getBuiltinOptimizableSize :: "SOPC_BuiltinId \<Rightarrow> nat" where
  "getBuiltinOptimizableSize tid =
     (if no_builtin tid then 0
      else if tid \<in> {SOPC_Byte_Id, SOPC_SByte_Id, SOPC_Boolean_Id, SOPC_UInt16_Id, SOPC_Int16_Id,
                    SOPC_Int32_Id, SOPC_UInt32_Id, SOPC_Int64_Id, SOPC_UInt64_Id, SOPC_DateTime_Id,
                    SOPC_StatusCode_Id, SOPC_Float_Id, SOPC_Double_Id}
      then builtin_size tid else 0)"

section \<open>Values\<close>

text \<open>The values of the types that contain no variant, by the member of the union that holds them.\<close>

datatype 'x SOPC_Plain =
    Boolean_v byte | SByte_v byte | Byte_v byte | Int16_v i16 | UInt16_v u16 | Int32_v i32 | UInt32_v u32
  | Int64_v i64 | UInt64_v u64 | Float_v u32 | Double_v u64 | String_v SOPC_String | DateTime_v i64
  | Guid_v SOPC_Guid | ByteString_v SOPC_ByteString | XmlElement_v SOPC_XmlElement | NodeId_v SOPC_NodeId
  | ExpandedNodeId_v SOPC_ExpandedNodeId | StatusCode_v u32 | QualifiedName_v SOPC_QualifiedName
  | LocalizedText_v SOPC_LocalizedText | ExtensionObject_v 'x | DiagnosticInfo_v SOPC_DiagnosticInfo

datatype SOPC_VariantArrayType =
    SOPC_VariantArrayType_SingleValue | SOPC_VariantArrayType_Array | SOPC_VariantArrayType_Matrix

text \<open>
  The union of a variant, by the member written last; \<open>Value_Zero\<close> is the memory \<open>SOPC_Variant_Initialize\<close>
  zeroes, whose pointers are null and whose lengths are 0. An array of values is a pointer to its elements.
\<close>

datatype 'x SOPC_BuiltinValue =
    Plain_v "'x SOPC_Plain" | DataValue_v "'x SOPC_DataValue" | Variant_v "'x SOPC_Variant"
and 'x SOPC_VariantValue =
    Value_Zero
  | Value_Single "'x SOPC_BuiltinValue"
  | Value_Array i32 "'x SOPC_BuiltinValue list option"
  | Value_Matrix i32 "i32 list option" "'x SOPC_BuiltinValue list option"
and 'x SOPC_Variant =
    Variant (V_DoNotClear: bool) (V_BuiltInTypeId: SOPC_BuiltinId) (V_ArrayType: SOPC_VariantArrayType)
      (V_Value: "'x SOPC_VariantValue")
and 'x SOPC_DataValue =
    DataValue (DV_Value: "'x SOPC_Variant") (DV_Status: u32) (DV_SourceTimestamp: i64)
      (DV_ServerTimestamp: i64) (DV_SourcePicoSeconds: u16) (DV_ServerPicoSeconds: u16)

definition variant_init :: "'x SOPC_Variant" where
  "variant_init = Variant False SOPC_Null_Id SOPC_VariantArrayType_SingleValue Value_Zero"

definition datavalue_init :: "'x SOPC_DataValue" where
  "datavalue_init = DataValue variant_init 0 0 0 0 0"

text \<open>The accesses to the union; \<open>None\<close> is reading a member over a value of another member.\<close>

fun value_Array :: "'x SOPC_VariantValue \<Rightarrow> (i32 \<times> 'x SOPC_BuiltinValue list option) option" where
  "value_Array Value_Zero = Some (0, None)"
| "value_Array (Value_Array n es) = Some (n, es)"
| "value_Array _ = None"

fun value_Matrix ::
  "'x SOPC_VariantValue \<Rightarrow> (i32 \<times> i32 list option \<times> 'x SOPC_BuiltinValue list option) option" where
  "value_Matrix Value_Zero = Some (0, None, None)"
| "value_Matrix (Value_Matrix n ds es) = Some (n, ds, es)"
| "value_Matrix _ = None"

text \<open>The elements of an array behind a pointer that may be null.\<close>

definition elements :: "'a list option \<Rightarrow> 'a list" where
  "elements p = (case p of None \<Rightarrow> [] | Some xs \<Rightarrow> xs)"

lemma elements_simps [simp]: "elements None = []" "elements (Some xs) = xs"
  by (simp_all add: elements_def)

section \<open>Extension objects\<close>

record 'x ext_ops =
  ext_write :: "enc_env \<Rightarrow> 'x writer"
  ext_read :: "enc_env \<Rightarrow> 'x reader"
  ext_init :: 'x

section \<open>Initial values and memory images\<close>

text \<open>The column \<open>initialize\<close> of \<open>SOPC_BuiltInType_HandlingTable\<close>, on zeroed memory.\<close>

definition plain_init :: "'x ext_ops \<Rightarrow> SOPC_BuiltinId \<Rightarrow> 'x SOPC_Plain" where
  "plain_init X tid =
     (case tid of
        SOPC_SByte_Id \<Rightarrow> SByte_v 0 | SOPC_Byte_Id \<Rightarrow> Byte_v 0 | SOPC_Int16_Id \<Rightarrow> Int16_v 0
      | SOPC_UInt16_Id \<Rightarrow> UInt16_v 0 | SOPC_Int32_Id \<Rightarrow> Int32_v 0 | SOPC_UInt32_Id \<Rightarrow> UInt32_v 0
      | SOPC_Int64_Id \<Rightarrow> Int64_v 0 | SOPC_UInt64_Id \<Rightarrow> UInt64_v 0 | SOPC_Float_Id \<Rightarrow> Float_v 0
      | SOPC_Double_Id \<Rightarrow> Double_v 0 | SOPC_String_Id \<Rightarrow> String_v str_init | SOPC_DateTime_Id \<Rightarrow> DateTime_v 0
      | SOPC_Guid_Id \<Rightarrow> Guid_v guid_zero | SOPC_ByteString_Id \<Rightarrow> ByteString_v str_init
      | SOPC_XmlElement_Id \<Rightarrow> XmlElement_v str_init | SOPC_NodeId_Id \<Rightarrow> NodeId_v nodeid_zero
      | SOPC_ExpandedNodeId_Id \<Rightarrow> ExpandedNodeId_v expnodeid_init | SOPC_StatusCode_Id \<Rightarrow> StatusCode_v 0
      | SOPC_QualifiedName_Id \<Rightarrow> QualifiedName_v qname_init
      | SOPC_LocalizedText_Id \<Rightarrow> LocalizedText_v ltext_init
      | SOPC_ExtensionObject_Id \<Rightarrow> ExtensionObject_v (ext_init X)
      | SOPC_DiagnosticInfo_Id \<Rightarrow> DiagnosticInfo_v diag_init
      | _ \<Rightarrow> Boolean_v 0)"

text \<open>The values that are members of the union itself and not behind a pointer, in zeroed memory.\<close>

definition plain_zero :: "'x ext_ops \<Rightarrow> SOPC_BuiltinId \<Rightarrow> 'x SOPC_Plain" where
  "plain_zero X tid =
     (let zero = \<lparr>Str_Length = 0, Str_DoNotClear = False, Str_Data = None\<rparr>
      in case tid of
           SOPC_String_Id \<Rightarrow> String_v zero
         | SOPC_ByteString_Id \<Rightarrow> ByteString_v zero
         | SOPC_XmlElement_Id \<Rightarrow> XmlElement_v zero
         | _ \<Rightarrow> plain_init X tid)"

definition behind_pointer :: "SOPC_BuiltinId \<Rightarrow> bool" where
  "behind_pointer tid \<longleftrightarrow>
     tid \<in> {SOPC_Guid_Id, SOPC_NodeId_Id, SOPC_ExpandedNodeId_Id, SOPC_QualifiedName_Id,
            SOPC_LocalizedText_Id, SOPC_ExtensionObject_Id, SOPC_DataValue_Id, SOPC_DiagnosticInfo_Id}"

text \<open>The pointer to the value of a variant that is not an array.\<close>

definition value_Single ::
  "'x ext_ops \<Rightarrow> SOPC_BuiltinId \<Rightarrow> 'x SOPC_VariantValue \<Rightarrow> 'x SOPC_BuiltinValue option option" where
  "value_Single X tid val =
     (case val of
        Value_Zero \<Rightarrow> Some (if behind_pointer tid then None else Some (Plain_v (plain_zero X tid)))
      | Value_Single v \<Rightarrow> Some (Some v)
      | _ \<Rightarrow> None)"

text \<open>The memory of an element of an array that is copied as it is, and the element of a memory.\<close>

definition plain_memory :: "'x SOPC_Plain \<Rightarrow> byte list option" where
  "plain_memory v =
     (case v of
        Boolean_v x \<Rightarrow> Some (le_bytes 1 (unat x)) | SByte_v x \<Rightarrow> Some (le_bytes 1 (unat x))
      | Byte_v x \<Rightarrow> Some (le_bytes 1 (unat x)) | Int16_v x \<Rightarrow> Some (le_bytes 2 (unat x))
      | UInt16_v x \<Rightarrow> Some (le_bytes 2 (unat x)) | Int32_v x \<Rightarrow> Some (le_bytes 4 (unat x))
      | UInt32_v x \<Rightarrow> Some (le_bytes 4 (unat x)) | Int64_v x \<Rightarrow> Some (le_bytes 8 (unat x))
      | UInt64_v x \<Rightarrow> Some (le_bytes 8 (unat x)) | Float_v x \<Rightarrow> Some (le_bytes 4 (unat x))
      | Double_v x \<Rightarrow> Some (le_bytes 8 (unat x)) | DateTime_v x \<Rightarrow> Some (le_bytes 8 (unat x))
      | StatusCode_v x \<Rightarrow> Some (le_bytes 4 (unat x)) | _ \<Rightarrow> None)"

definition plain_of_memory :: "SOPC_BuiltinId \<Rightarrow> byte list \<Rightarrow> 'x SOPC_Plain" where
  "plain_of_memory tid bs =
     (let n = le_nat bs
      in case tid of
           SOPC_SByte_Id \<Rightarrow> SByte_v (of_nat n) | SOPC_Byte_Id \<Rightarrow> Byte_v (of_nat n)
         | SOPC_Int16_Id \<Rightarrow> Int16_v (of_nat n) | SOPC_UInt16_Id \<Rightarrow> UInt16_v (of_nat n)
         | SOPC_Int32_Id \<Rightarrow> Int32_v (of_nat n) | SOPC_UInt32_Id \<Rightarrow> UInt32_v (of_nat n)
         | SOPC_Int64_Id \<Rightarrow> Int64_v (of_nat n) | SOPC_UInt64_Id \<Rightarrow> UInt64_v (of_nat n)
         | SOPC_Float_Id \<Rightarrow> Float_v (of_nat n) | SOPC_Double_Id \<Rightarrow> Double_v (of_nat n)
         | SOPC_DateTime_Id \<Rightarrow> DateTime_v (of_nat n) | SOPC_StatusCode_Id \<Rightarrow> StatusCode_v (of_nat n)
         | _ \<Rightarrow> Boolean_v (of_nat n))"

fun array_memory :: "'x SOPC_BuiltinValue list \<Rightarrow> byte list option" where
  "array_memory [] = Some []"
| "array_memory (Plain_v v # es) = do { x \<leftarrow> plain_memory v; xs \<leftarrow> array_memory es; Some (x @ xs) }"
| "array_memory (_ # es) = None"

primrec array_of_memory :: "SOPC_BuiltinId \<Rightarrow> nat \<Rightarrow> byte list \<Rightarrow> 'x SOPC_BuiltinValue list" where
  "array_of_memory tid 0 bs = []"
| "array_of_memory tid (Suc n) bs =
     Plain_v (plain_of_memory tid (take (builtin_size tid) bs)) #
       array_of_memory tid n (drop (builtin_size tid) bs)"

section \<open>The encoding table\<close>

text \<open>A writer or a reader of one type, on the values of the union.\<close>

definition on_value :: "('v \<Rightarrow> 'a option) \<Rightarrow> 'a writer \<Rightarrow> 'v writer" where
  "on_value get W p b lvl =
     (case p of None \<Rightarrow> W None b lvl | Some v \<Rightarrow> do { x \<leftarrow> get v; W (Some x) b lvl })"

definition into_value :: "('v \<Rightarrow> 'a option) \<Rightarrow> ('a \<Rightarrow> 'v) \<Rightarrow> 'a reader \<Rightarrow> 'v reader" where
  "into_value get put R p b lvl =
     (case p of
        None \<Rightarrow> do { (st, _, b) \<leftarrow> R None b lvl; Some (st, None, b) }
      | Some v \<Rightarrow> do {
          x \<leftarrow> get v;
          (st, q, b) \<leftarrow> R (Some x) b lvl;
          y \<leftarrow> q;
          Some (st, Some (put y), b) })"

definition plain_write :: "'x ext_ops \<Rightarrow> enc_env \<Rightarrow> SOPC_BuiltinId \<Rightarrow> 'x SOPC_Plain writer" where
  "plain_write X env tid =
     (case tid of
        SOPC_Boolean_Id \<Rightarrow> on_value (\<lambda>v. case v of Boolean_v x \<Rightarrow> Some x | _ \<Rightarrow> None) (SOPC_Boolean_Write env)
      | SOPC_SByte_Id \<Rightarrow> on_value (\<lambda>v. case v of SByte_v x \<Rightarrow> Some x | _ \<Rightarrow> None) (SOPC_SByte_Write env)
      | SOPC_Byte_Id \<Rightarrow> on_value (\<lambda>v. case v of Byte_v x \<Rightarrow> Some x | _ \<Rightarrow> None) (SOPC_Byte_Write env)
      | SOPC_Int16_Id \<Rightarrow> on_value (\<lambda>v. case v of Int16_v x \<Rightarrow> Some x | _ \<Rightarrow> None) (SOPC_Int16_Write env)
      | SOPC_UInt16_Id \<Rightarrow> on_value (\<lambda>v. case v of UInt16_v x \<Rightarrow> Some x | _ \<Rightarrow> None) (SOPC_UInt16_Write env)
      | SOPC_Int32_Id \<Rightarrow> on_value (\<lambda>v. case v of Int32_v x \<Rightarrow> Some x | _ \<Rightarrow> None) (SOPC_Int32_Write env)
      | SOPC_UInt32_Id \<Rightarrow> on_value (\<lambda>v. case v of UInt32_v x \<Rightarrow> Some x | _ \<Rightarrow> None) (SOPC_UInt32_Write env)
      | SOPC_Int64_Id \<Rightarrow> on_value (\<lambda>v. case v of Int64_v x \<Rightarrow> Some x | _ \<Rightarrow> None) (SOPC_Int64_Write env)
      | SOPC_UInt64_Id \<Rightarrow> on_value (\<lambda>v. case v of UInt64_v x \<Rightarrow> Some x | _ \<Rightarrow> None) (SOPC_UInt64_Write env)
      | SOPC_Float_Id \<Rightarrow> on_value (\<lambda>v. case v of Float_v x \<Rightarrow> Some x | _ \<Rightarrow> None) (SOPC_Float_Write env)
      | SOPC_Double_Id \<Rightarrow> on_value (\<lambda>v. case v of Double_v x \<Rightarrow> Some x | _ \<Rightarrow> None) (SOPC_Double_Write env)
      | SOPC_String_Id \<Rightarrow> on_value (\<lambda>v. case v of String_v x \<Rightarrow> Some x | _ \<Rightarrow> None) (SOPC_String_Write env)
      | SOPC_DateTime_Id \<Rightarrow> on_value (\<lambda>v. case v of DateTime_v x \<Rightarrow> Some x | _ \<Rightarrow> None) (SOPC_DateTime_Write env)
      | SOPC_Guid_Id \<Rightarrow> on_value (\<lambda>v. case v of Guid_v x \<Rightarrow> Some x | _ \<Rightarrow> None) (SOPC_Guid_Write env)
      | SOPC_ByteString_Id \<Rightarrow>
          on_value (\<lambda>v. case v of ByteString_v x \<Rightarrow> Some x | _ \<Rightarrow> None) (SOPC_ByteString_Write env)
      | SOPC_XmlElement_Id \<Rightarrow>
          on_value (\<lambda>v. case v of XmlElement_v x \<Rightarrow> Some x | _ \<Rightarrow> None) (SOPC_XmlElement_Write env)
      | SOPC_NodeId_Id \<Rightarrow> on_value (\<lambda>v. case v of NodeId_v x \<Rightarrow> Some x | _ \<Rightarrow> None) (SOPC_NodeId_Write env)
      | SOPC_ExpandedNodeId_Id \<Rightarrow>
          on_value (\<lambda>v. case v of ExpandedNodeId_v x \<Rightarrow> Some x | _ \<Rightarrow> None) (SOPC_ExpandedNodeId_Write env)
      | SOPC_StatusCode_Id \<Rightarrow>
          on_value (\<lambda>v. case v of StatusCode_v x \<Rightarrow> Some x | _ \<Rightarrow> None) (SOPC_StatusCode_Write env)
      | SOPC_QualifiedName_Id \<Rightarrow>
          on_value (\<lambda>v. case v of QualifiedName_v x \<Rightarrow> Some x | _ \<Rightarrow> None) (SOPC_QualifiedName_Write env)
      | SOPC_LocalizedText_Id \<Rightarrow>
          on_value (\<lambda>v. case v of LocalizedText_v x \<Rightarrow> Some x | _ \<Rightarrow> None) (SOPC_LocalizedText_Write env)
      | SOPC_ExtensionObject_Id \<Rightarrow>
          on_value (\<lambda>v. case v of ExtensionObject_v x \<Rightarrow> Some x | _ \<Rightarrow> None) (ext_write X env)
      | SOPC_DiagnosticInfo_Id \<Rightarrow>
          on_value (\<lambda>v. case v of DiagnosticInfo_v x \<Rightarrow> Some x | _ \<Rightarrow> None) (SOPC_DiagnosticInfo_Write env)
      | _ \<Rightarrow> (\<lambda>_ _ _. None))"

definition plain_read :: "'x ext_ops \<Rightarrow> enc_env \<Rightarrow> SOPC_BuiltinId \<Rightarrow> 'x SOPC_Plain reader" where
  "plain_read X env tid =
     (case tid of
        SOPC_Boolean_Id \<Rightarrow>
          into_value (\<lambda>v. case v of Boolean_v x \<Rightarrow> Some x | _ \<Rightarrow> None) Boolean_v (SOPC_Boolean_Read env)
      | SOPC_SByte_Id \<Rightarrow> into_value (\<lambda>v. case v of SByte_v x \<Rightarrow> Some x | _ \<Rightarrow> None) SByte_v (SOPC_SByte_Read env)
      | SOPC_Byte_Id \<Rightarrow> into_value (\<lambda>v. case v of Byte_v x \<Rightarrow> Some x | _ \<Rightarrow> None) Byte_v (SOPC_Byte_Read env)
      | SOPC_Int16_Id \<Rightarrow> into_value (\<lambda>v. case v of Int16_v x \<Rightarrow> Some x | _ \<Rightarrow> None) Int16_v (SOPC_Int16_Read env)
      | SOPC_UInt16_Id \<Rightarrow>
          into_value (\<lambda>v. case v of UInt16_v x \<Rightarrow> Some x | _ \<Rightarrow> None) UInt16_v (SOPC_UInt16_Read env)
      | SOPC_Int32_Id \<Rightarrow> into_value (\<lambda>v. case v of Int32_v x \<Rightarrow> Some x | _ \<Rightarrow> None) Int32_v (SOPC_Int32_Read env)
      | SOPC_UInt32_Id \<Rightarrow>
          into_value (\<lambda>v. case v of UInt32_v x \<Rightarrow> Some x | _ \<Rightarrow> None) UInt32_v (SOPC_UInt32_Read env)
      | SOPC_Int64_Id \<Rightarrow> into_value (\<lambda>v. case v of Int64_v x \<Rightarrow> Some x | _ \<Rightarrow> None) Int64_v (SOPC_Int64_Read env)
      | SOPC_UInt64_Id \<Rightarrow>
          into_value (\<lambda>v. case v of UInt64_v x \<Rightarrow> Some x | _ \<Rightarrow> None) UInt64_v (SOPC_UInt64_Read env)
      | SOPC_Float_Id \<Rightarrow> into_value (\<lambda>v. case v of Float_v x \<Rightarrow> Some x | _ \<Rightarrow> None) Float_v (SOPC_Float_Read env)
      | SOPC_Double_Id \<Rightarrow>
          into_value (\<lambda>v. case v of Double_v x \<Rightarrow> Some x | _ \<Rightarrow> None) Double_v (SOPC_Double_Read env)
      | SOPC_String_Id \<Rightarrow>
          into_value (\<lambda>v. case v of String_v x \<Rightarrow> Some x | _ \<Rightarrow> None) String_v (SOPC_String_Read env)
      | SOPC_DateTime_Id \<Rightarrow>
          into_value (\<lambda>v. case v of DateTime_v x \<Rightarrow> Some x | _ \<Rightarrow> None) DateTime_v (SOPC_DateTime_Read env)
      | SOPC_Guid_Id \<Rightarrow> into_value (\<lambda>v. case v of Guid_v x \<Rightarrow> Some x | _ \<Rightarrow> None) Guid_v (SOPC_Guid_Read env)
      | SOPC_ByteString_Id \<Rightarrow>
          into_value (\<lambda>v. case v of ByteString_v x \<Rightarrow> Some x | _ \<Rightarrow> None) ByteString_v (SOPC_ByteString_Read env)
      | SOPC_XmlElement_Id \<Rightarrow>
          into_value (\<lambda>v. case v of XmlElement_v x \<Rightarrow> Some x | _ \<Rightarrow> None) XmlElement_v (SOPC_XmlElement_Read env)
      | SOPC_NodeId_Id \<Rightarrow>
          into_value (\<lambda>v. case v of NodeId_v x \<Rightarrow> Some x | _ \<Rightarrow> None) NodeId_v (SOPC_NodeId_Read env)
      | SOPC_ExpandedNodeId_Id \<Rightarrow>
          into_value (\<lambda>v. case v of ExpandedNodeId_v x \<Rightarrow> Some x | _ \<Rightarrow> None) ExpandedNodeId_v
            (SOPC_ExpandedNodeId_Read env)
      | SOPC_StatusCode_Id \<Rightarrow>
          into_value (\<lambda>v. case v of StatusCode_v x \<Rightarrow> Some x | _ \<Rightarrow> None) StatusCode_v (SOPC_StatusCode_Read env)
      | SOPC_QualifiedName_Id \<Rightarrow>
          into_value (\<lambda>v. case v of QualifiedName_v x \<Rightarrow> Some x | _ \<Rightarrow> None) QualifiedName_v
            (SOPC_QualifiedName_Read env)
      | SOPC_LocalizedText_Id \<Rightarrow>
          into_value (\<lambda>v. case v of LocalizedText_v x \<Rightarrow> Some x | _ \<Rightarrow> None) LocalizedText_v
            (SOPC_LocalizedText_Read env)
      | SOPC_ExtensionObject_Id \<Rightarrow>
          into_value (\<lambda>v. case v of ExtensionObject_v x \<Rightarrow> Some x | _ \<Rightarrow> None) ExtensionObject_v (ext_read X env)
      | SOPC_DiagnosticInfo_Id \<Rightarrow>
          into_value (\<lambda>v. case v of DiagnosticInfo_v x \<Rightarrow> Some x | _ \<Rightarrow> None) DiagnosticInfo_v
            (SOPC_DiagnosticInfo_Read env)
      | _ \<Rightarrow> (\<lambda>_ _ _. None))"

end
