(* ===== verification/Variant.thy ===== *)
theory Variant
  imports Variant_Types
begin

unbundle bit_operations_syntax

text \<open>
  The writers and readers of variants and data values of \<open>src/Common/opcua_types/sopc_encoder.c\<close>. They
  call each other, directly and through the encoding table; every cycle of calls goes through a guard
  on the structure level and increments it, which is why they terminate.
\<close>

section \<open>Congruence rules of the control structures\<close>

lemma enc_guard_cong [fundef_cong]:
  "env = env' \<Longrightarrow> bad = bad' \<Longrightarrow> lvl = lvl' \<Longrightarrow> s = s' \<Longrightarrow>
    (\<not> bad' \<Longrightarrow> lvl' < max_level env' \<Longrightarrow> body = body') \<Longrightarrow>
    enc_guard env bad lvl s body = enc_guard env' bad' lvl' s' body'"
  by (simp add: enc_guard_def)

lemma and_then_cong [fundef_cong]:
  "r = r' \<Longrightarrow> (\<And>s. r' = Some (SOPC_STATUS_OK, s) \<Longrightarrow> f s = f' s) \<Longrightarrow> and_then r f = and_then r' f'"
  by (auto simp: and_then_def split: option.splits)

lemma and_when_cong [fundef_cong]:
  "r = r' \<Longrightarrow> c = c' \<Longrightarrow> (\<And>s. c' \<Longrightarrow> r' = Some (SOPC_STATUS_OK, s) \<Longrightarrow> f s = f' s) \<Longrightarrow>
    and_when r c f = and_when r' c' f'"
  by (auto simp: and_when_def and_then_def split: option.splits)

lemma on_error_cong [fundef_cong]:
  "r = r' \<Longrightarrow> (\<And>st s. st \<noteq> SOPC_STATUS_OK \<Longrightarrow> h st s = h' st s) \<Longrightarrow> on_error r h = on_error r' h'"
  by (auto simp: on_error_def split: option.splits)

lemma Write_Array_loop_cong:
  "(\<And>e b. W (Some e) b lvl = W' (Some e) b lvl) \<Longrightarrow>
    Write_Array_loop W es n b lvl = Write_Array_loop W' es n b lvl"
  by (induction n arbitrary: es b) (auto simp: and_then_def split: list.splits option.splits)

lemma Read_Array_loop_cong:
  "(\<And>p b. R p b lvl = R' p b lvl) \<Longrightarrow> Read_Array_loop R init es b lvl = Read_Array_loop R' init es b lvl"
  by (induction es arbitrary: b) (simp_all cong: if_cong prod.case_cong)

text \<open>The elements of an array are written and read one structure level deeper.\<close>

definition SOPC_Write_Array_with ::
  "enc_env \<Rightarrow> bufp \<Rightarrow> i32 \<Rightarrow> 'a list option \<Rightarrow> 'a writer \<Rightarrow> nat \<Rightarrow> (SOPC_ReturnStatus \<times> bufp) option" where
  "SOPC_Write_Array_with env b n es encodeFct lvl =
     SOPC_Write_Array env b (Some n) (Some es) (Some encodeFct) lvl"

definition SOPC_Read_Array_with ::
  "enc_env \<Rightarrow> bufp \<Rightarrow> i32 \<Rightarrow> 'a list option \<Rightarrow> nat \<Rightarrow> 'a reader \<Rightarrow> 'a \<Rightarrow> nat \<Rightarrow>
   (SOPC_ReturnStatus \<times> i32 option \<times> 'a list option option \<times> bufp) option" where
  "SOPC_Read_Array_with env b n es sizeOfElt decodeFct ini lvl =
     SOPC_Read_Array env b (Some n) (Some es) sizeOfElt (Some decodeFct) (\<lambda>_. ini) ini lvl"

lemma SOPC_Write_Array_with_cong [fundef_cong]:
  assumes "env = env'" "b = b'" "n = n'" "es = es'" "lvl = lvl'"
    "\<And>p c. lvl' < max_level env' \<Longrightarrow> W p c (lvl' + 1) = W' p c (lvl' + 1)"
  shows "SOPC_Write_Array_with env b n es W lvl = SOPC_Write_Array_with env' b' n' es' W' lvl'"
  using Write_Array_loop_cong [of W "lvl' + 1" W'] assms
  by (cases "lvl' < max_level env'") (simp_all add: SOPC_Write_Array_with_def SOPC_Write_Array_def enc_guard_def)

lemma SOPC_Read_Array_with_cong [fundef_cong]:
  assumes "env = env'" "b = b'" "n = n'" "es = es'" "sz = sz'" "ini = ini'" "lvl = lvl'"
    "\<And>p c. lvl' < max_level env' \<Longrightarrow> R p c (lvl' + 1) = R' p c (lvl' + 1)"
  shows "SOPC_Read_Array_with env b n es sz R ini lvl = SOPC_Read_Array_with env' b' n' es' sz' R' ini' lvl'"
  using Read_Array_loop_cong [of R "lvl' + 1" R'] assms
  by (cases "lvl' < max_level env'") (simp_all add: SOPC_Read_Array_with_def SOPC_Read_Array_def enc_guard_def Let_def cong: if_cong prod.case_cong)

section \<open>Encoding bytes\<close>

definition SOPC_VariantArrayValueFlag :: byte where "SOPC_VariantArrayValueFlag = 128"
definition SOPC_VariantArrayDimensionsFlag :: byte where "SOPC_VariantArrayDimensionsFlag = 64"

definition GetVariantEncodingMask :: "'x SOPC_Variant \<Rightarrow> byte" where
  "GetVariantEncodingMask v =
     (let e = byte_of_builtin (V_BuiltInTypeId v);
          e = (if V_ArrayType v = SOPC_VariantArrayType_Matrix
               then e OR SOPC_VariantArrayValueFlag OR SOPC_VariantArrayDimensionsFlag else e);
          e = (if V_ArrayType v = SOPC_VariantArrayType_Array then e OR SOPC_VariantArrayValueFlag else e)
      in e)"

definition SOPC_DataValue_NotNullValue :: byte where "SOPC_DataValue_NotNullValue = 0x01"
definition SOPC_DataValue_NotGoodStatusCode :: byte where "SOPC_DataValue_NotGoodStatusCode = 0x02"
definition SOPC_DataValue_NotMinSourceDate :: byte where "SOPC_DataValue_NotMinSourceDate = 0x04"
definition SOPC_DataValue_NotMinServerDate :: byte where "SOPC_DataValue_NotMinServerDate = 0x08"
definition SOPC_DataValue_NotZeroSourcePico :: byte where "SOPC_DataValue_NotZeroSourcePico = 0x10"
definition SOPC_DataValue_NotZeroServerPico :: byte where "SOPC_DataValue_NotZeroServerPico = 0x20"

definition GetDataValueEncodingMask :: "'x SOPC_DataValue \<Rightarrow> byte" where
  "GetDataValueEncodingMask d =
     (let m = 0;
          m = (if \<not> no_builtin (V_BuiltInTypeId (DV_Value d)) then m OR SOPC_DataValue_NotNullValue else m);
          m = (if DV_Status d \<noteq> 0 then m OR SOPC_DataValue_NotGoodStatusCode else m);
          m = (if 0 < sint (DV_SourceTimestamp d) then m OR SOPC_DataValue_NotMinSourceDate else m);
          m = (if 0 < DV_SourcePicoSeconds d then m OR SOPC_DataValue_NotZeroSourcePico else m);
          m = (if 0 < sint (DV_ServerTimestamp d) then m OR SOPC_DataValue_NotMinServerDate else m);
          m = (if 0 < DV_ServerPicoSeconds d then m OR SOPC_DataValue_NotZeroServerPico else m)
      in m)"

section \<open>Dimensions of a matrix\<close>

text \<open>
  The product of the dimensions, as the writer computes it: \<open>True\<close> with it after a dimension that is
  not positive or a product above \<open>INT32_MAX\<close>. It stays far below \<open>INT64_MAX\<close>.
\<close>

primrec Matrix_Length :: "nat \<Rightarrow> i32 list \<Rightarrow> int \<Rightarrow> (bool \<times> int) option" where
  "Matrix_Length 0 ds len = Some (False, len)"
| "Matrix_Length (Suc n) ds len =
     (case ds of [] \<Rightarrow> None
      | d # ds \<Rightarrow> if 0 < sint d \<and> len * sint d \<le> 2 ^ 31 - 1 then Matrix_Length n ds (len * sint d)
                  else Some (True, len))"

text \<open>The loop that writes them goes on after a failure; its status is the last one.\<close>

primrec Write_Dimensions ::
  "enc_env \<Rightarrow> nat \<Rightarrow> i32 list \<Rightarrow> SOPC_ReturnStatus \<Rightarrow> bufp \<Rightarrow> nat \<Rightarrow> (SOPC_ReturnStatus \<times> bufp) option" where
  "Write_Dimensions env 0 ds st b lvl = Some (st, b)"
| "Write_Dimensions env (Suc n) ds st b lvl =
     (case ds of [] \<Rightarrow> None
      | d # ds \<Rightarrow> do { (st, b) \<leftarrow> SOPC_Int32_Write env (Some d) b lvl; Write_Dimensions env n ds st b lvl })"

text \<open>The loop that reads them and checks their product against the length of the array.\<close>

primrec Read_Dimensions ::
  "enc_env \<Rightarrow> i32 \<Rightarrow> nat \<Rightarrow> int \<Rightarrow> bufp \<Rightarrow> nat \<Rightarrow> (SOPC_ReturnStatus \<times> i32 list \<times> int \<times> bufp) option" where
  "Read_Dimensions env arrayLength 0 len b lvl = Some (SOPC_STATUS_OK, [], len, b)"
| "Read_Dimensions env arrayLength (Suc n) len b lvl = do {
     (st, d, b) \<leftarrow> SOPC_Int32_Read env (Some 0) b lvl;
     d \<leftarrow> d;
     if st = SOPC_STATUS_OK \<and> 0 < sint d then
       (if len * sint d > sint arrayLength then Some (SOPC_STATUS_ENCODING_ERROR, [d], len * sint d, b)
        else do {
          (st, ds, len, b) \<leftarrow> Read_Dimensions env arrayLength n (len * sint d) b lvl;
          Some (st, d # ds, len, b) })
     else Some (SOPC_STATUS_ENCODING_ERROR, [d], len, b) }"

section \<open>Writers\<close>

text \<open>The pointer to a value, as the function of its type takes it.\<close>

fun as_Plain :: "'x SOPC_BuiltinValue option \<Rightarrow> 'x SOPC_Plain option option" where
  "as_Plain None = Some None"
| "as_Plain (Some (Plain_v v)) = Some (Some v)"
| "as_Plain _ = None"

fun as_DataValue :: "'x SOPC_BuiltinValue option \<Rightarrow> 'x SOPC_DataValue option option" where
  "as_DataValue None = Some None"
| "as_DataValue (Some (DataValue_v d)) = Some (Some d)"
| "as_DataValue _ = None"

fun as_Variant :: "'x SOPC_BuiltinValue option \<Rightarrow> 'x SOPC_Variant option option" where
  "as_Variant None = Some None"
| "as_Variant (Some (Variant_v v)) = Some (Some v)"
| "as_Variant _ = None"

text \<open>The measure of the recursion: the structure levels left, then the place in a cycle of calls at the same level.\<close>

definition levels_left :: "enc_env \<Rightarrow> nat \<Rightarrow> nat \<Rightarrow> nat" where
  "levels_left env lvl rank = 2 * (max_level env - lvl) + rank"

text \<open>
  \<open>builtin_encode\<close> is the column \<open>encode\<close> of \<open>SOPC_BuiltInType_EncodingTable\<close>. The number of bytes of an
  array that is copied as it is is computed on 64 bits and converted to 32 bits.
\<close>

function (sequential) builtin_encode :: "'x ext_ops \<Rightarrow> enc_env \<Rightarrow> SOPC_BuiltinId \<Rightarrow> 'x SOPC_BuiltinValue writer"
and WriteVariantNonArrayBuiltInType ::
  "'x ext_ops \<Rightarrow> enc_env \<Rightarrow> bufp \<Rightarrow> SOPC_BuiltinId \<Rightarrow> 'x SOPC_VariantValue \<Rightarrow> nat \<Rightarrow>
   (SOPC_ReturnStatus \<times> bufp) option"
and WriteVariantArrayBuiltInType ::
  "'x ext_ops \<Rightarrow> enc_env \<Rightarrow> bufp \<Rightarrow> SOPC_BuiltinId \<Rightarrow> 'x SOPC_BuiltinValue list option \<Rightarrow> i32 \<Rightarrow> nat \<Rightarrow>
   (SOPC_ReturnStatus \<times> bufp) option"
and SOPC_Variant_Write_Internal :: "'x ext_ops \<Rightarrow> enc_env \<Rightarrow> 'x SOPC_Variant writer"
and SOPC_DataValue_Write_Internal :: "'x ext_ops \<Rightarrow> enc_env \<Rightarrow> 'x SOPC_DataValue writer"
where
  "builtin_encode X env tid p b lvl =
     (if tid = SOPC_DataValue_Id then do { d \<leftarrow> as_DataValue p; SOPC_DataValue_Write_Internal X env d b lvl }
      else if tid = SOPC_Variant_Id then do {
        v \<leftarrow> as_Variant p;
        if lvl \<ge> max_level env then Some (SOPC_STATUS_INVALID_STATE, b)
        else SOPC_Variant_Write_Internal X env v b lvl }
      else do { v \<leftarrow> as_Plain p; plain_write X env tid v b lvl })"
| "WriteVariantNonArrayBuiltInType X env b tid val lvl =
     (if lvl \<ge> max_level env then Some (SOPC_STATUS_INVALID_STATE, b)
        else if tid = SOPC_Null_Id then Some (SOPC_STATUS_OK, b)
        else if no_builtin tid \<or> tid = SOPC_Variant_Id then Some (SOPC_STATUS_INVALID_PARAMETERS, b)
        else do {
          p \<leftarrow> value_Single X tid val;
          if tid = SOPC_DataValue_Id then do {
            d \<leftarrow> as_DataValue p;
            SOPC_DataValue_Write_Internal X env d b lvl }
          else do { v \<leftarrow> as_Plain p; plain_write X env tid v b lvl } })"
| "WriteVariantArrayBuiltInType X env b tid arr len lvl =
     (if lvl \<ge> max_level env then Some (SOPC_STATUS_INVALID_STATE, b)
        else if no_builtin tid then Some (SOPC_STATUS_INVALID_PARAMETERS, b)
        else if 0 < getBuiltinOptimizableSize tid then
          (if b = None \<or> 0 < sint len \<and> arr = None then Some (SOPC_STATUS_INVALID_PARAMETERS, b)
           else
             and_when (SOPC_Int32_Write env (Some len) b (lvl + 1)) (0 < sint len)
               (\<lambda>b. do {
                  es \<leftarrow> arr;
                  mem \<leftarrow> array_memory es;
                  SOPC_Buffer_Write env b (Some mem) (of_nat (unat len * getBuiltinOptimizableSize tid)) }))
        else SOPC_Write_Array_with env b len arr (builtin_encode X env tid) lvl)"
| "SOPC_Variant_Write_Internal X env variant b lvl =
     enc_guard env (variant = None) lvl b
       (do {
          v \<leftarrow> variant;
          and_then (SOPC_Byte_Write env (Some (GetVariantEncodingMask v)) b (lvl + 1))
            (\<lambda>b. if V_ArrayType v = SOPC_VariantArrayType_SingleValue then
                    WriteVariantNonArrayBuiltInType X env b (V_BuiltInTypeId v) (V_Value v) (lvl + 1)
                  else if V_ArrayType v = SOPC_VariantArrayType_Array then do {
                    (n, es) \<leftarrow> value_Array (V_Value v);
                    let n = (if n = -1 then 0 else n)
                    in if sint n < 0 then Some (SOPC_STATUS_ENCODING_ERROR, b)
                       else WriteVariantArrayBuiltInType X env b (V_BuiltInTypeId v) es n (lvl + 1) }
                  else do {
                    (n, ds, es) \<leftarrow> value_Matrix (V_Value v);
                    (err, len) \<leftarrow> Matrix_Length (nat (sint n)) (elements ds)
                      (if n = 0 then 0 else 1);
                    if err then Some (SOPC_STATUS_ENCODING_ERROR, b)
                    else
                      and_then
                        (and_then
                          (WriteVariantArrayBuiltInType X env b (V_BuiltInTypeId v) es (of_int len) (lvl + 1))
                          (\<lambda>b. SOPC_Int32_Write env (Some n) b (lvl + 1)))
                        (\<lambda>b. Write_Dimensions env (nat (sint n)) (elements ds)
                               SOPC_STATUS_OK b (lvl + 1)) }) })"
| "SOPC_DataValue_Write_Internal X env dataValue b lvl =
     enc_guard env (dataValue = None) lvl b
       (do {
          d \<leftarrow> dataValue;
          let m = GetDataValueEncodingMask d
          in and_when
              (and_when
               (and_when
                (and_when
                 (and_when
                  (and_when (SOPC_Byte_Write env (Some m) b (lvl + 1))
                    (m AND SOPC_DataValue_NotNullValue \<noteq> 0)
                    (\<lambda>b. SOPC_Variant_Write_Internal X env (Some (DV_Value d)) b (lvl + 1)))
                  (m AND SOPC_DataValue_NotGoodStatusCode \<noteq> 0)
                  (\<lambda>b. SOPC_StatusCode_Write env (Some (DV_Status d)) b (lvl + 1)))
                 (m AND SOPC_DataValue_NotMinSourceDate \<noteq> 0)
                 (\<lambda>b. SOPC_DateTime_Write env (Some (DV_SourceTimestamp d)) b (lvl + 1)))
                (m AND SOPC_DataValue_NotZeroSourcePico \<noteq> 0)
                (\<lambda>b. SOPC_UInt16_Write env (Some (DV_SourcePicoSeconds d)) b (lvl + 1)))
               (m AND SOPC_DataValue_NotMinServerDate \<noteq> 0)
               (\<lambda>b. SOPC_DateTime_Write env (Some (DV_ServerTimestamp d)) b (lvl + 1)))
              (m AND SOPC_DataValue_NotZeroServerPico \<noteq> 0)
              (\<lambda>b. SOPC_UInt16_Write env (Some (DV_ServerPicoSeconds d)) b (lvl + 1)) })"
  by pat_completeness auto

termination
  by (relation "measure (case_sum
      (case_sum (\<lambda>(X, env, tid, p, b, lvl). levels_left env lvl 1)
                (\<lambda>(X, env, b, tid, val, lvl). levels_left env lvl 1))
      (case_sum (\<lambda>(X, env, b, tid, arr, len, lvl). levels_left env lvl 1)
        (case_sum (\<lambda>(X, env, v, b, lvl). levels_left env lvl 0)
                  (\<lambda>(X, env, d, b, lvl). levels_left env lvl 0))))")
    (auto simp: levels_left_def)

declare builtin_encode.simps [simp del] WriteVariantNonArrayBuiltInType.simps [simp del]
  WriteVariantArrayBuiltInType.simps [simp del] SOPC_Variant_Write_Internal.simps [simp del]
  SOPC_DataValue_Write_Internal.simps [simp del]

definition SOPC_Variant_Write :: "'x ext_ops \<Rightarrow> enc_env \<Rightarrow> 'x SOPC_Variant writer" where
  "SOPC_Variant_Write X env variant b lvl =
     enc_guard env False lvl b (SOPC_Variant_Write_Internal X env variant b lvl)"

definition SOPC_DataValue_Write :: "'x ext_ops \<Rightarrow> enc_env \<Rightarrow> 'x SOPC_DataValue writer" where
  "SOPC_DataValue_Write X env dataValue b lvl = SOPC_DataValue_Write_Internal X env dataValue b lvl"

section \<open>Clearing\<close>

text \<open>
  The elements of an array, and what is behind a pointer, are cleared in blocks that are freed right
  after. A string is initialised again, which is not zeroed memory.
\<close>

definition SOPC_Variant_Clear :: "'x SOPC_Variant \<Rightarrow> 'x SOPC_Variant option" where
  "SOPC_Variant_Clear v =
     (let tid = V_BuiltInTypeId v; val = V_Value v;
          cleared = Variant False SOPC_Null_Id SOPC_VariantArrayType_SingleValue
      in if V_DoNotClear v then Some (cleared Value_Zero)
         else if no_builtin tid \<and> tid \<noteq> SOPC_Null_Id then Some v
         else if tid = SOPC_Null_Id then Some (cleared val)
         else case V_ArrayType v of
           SOPC_VariantArrayType_SingleValue \<Rightarrow>
             Some (cleared
               (if tid = SOPC_String_Id then Value_Single (Plain_v (String_v str_init))
                else if tid = SOPC_ByteString_Id then Value_Single (Plain_v (ByteString_v str_init))
                else if tid = SOPC_XmlElement_Id then Value_Single (Plain_v (XmlElement_v str_init))
                else if tid = SOPC_Variant_Id then val
                else Value_Zero))
         | SOPC_VariantArrayType_Array \<Rightarrow> do {
             (n, es) \<leftarrow> value_Array val;
             Some (cleared (if 0 \<le> sint n then Value_Zero else val)) }
         | SOPC_VariantArrayType_Matrix \<Rightarrow> do {
             (n, ds, es) \<leftarrow> value_Matrix val;
             (err, len) \<leftarrow> (case ds of
                 None \<Rightarrow> Some (False, if n = 0 then 0 else 1)
               | Some ds \<Rightarrow> Matrix_Length (nat (sint n)) ds (if n = 0 then 0 else 1));
             Some (cleared (if err then Value_Matrix n None es else Value_Zero)) })"

section \<open>Readers\<close>

definition put_DV_Value :: "'x SOPC_Variant \<Rightarrow> 'x SOPC_DataValue \<Rightarrow> 'x SOPC_DataValue" where
  "put_DV_Value v d = (case d of DataValue a s t1 t2 p1 p2 \<Rightarrow> DataValue v s t1 t2 p1 p2)"

definition put_DV_Status :: "u32 \<Rightarrow> 'x SOPC_DataValue \<Rightarrow> 'x SOPC_DataValue" where
  "put_DV_Status v d = (case d of DataValue a s t1 t2 p1 p2 \<Rightarrow> DataValue a v t1 t2 p1 p2)"

definition put_DV_SourceTimestamp :: "i64 \<Rightarrow> 'x SOPC_DataValue \<Rightarrow> 'x SOPC_DataValue" where
  "put_DV_SourceTimestamp v d = (case d of DataValue a s t1 t2 p1 p2 \<Rightarrow> DataValue a s v t2 p1 p2)"

definition put_DV_ServerTimestamp :: "i64 \<Rightarrow> 'x SOPC_DataValue \<Rightarrow> 'x SOPC_DataValue" where
  "put_DV_ServerTimestamp v d = (case d of DataValue a s t1 t2 p1 p2 \<Rightarrow> DataValue a s t1 v p1 p2)"

definition put_DV_SourcePicoSeconds :: "u16 \<Rightarrow> 'x SOPC_DataValue \<Rightarrow> 'x SOPC_DataValue" where
  "put_DV_SourcePicoSeconds v d = (case d of DataValue a s t1 t2 p1 p2 \<Rightarrow> DataValue a s t1 t2 v p2)"

definition put_DV_ServerPicoSeconds :: "u16 \<Rightarrow> 'x SOPC_DataValue \<Rightarrow> 'x SOPC_DataValue" where
  "put_DV_ServerPicoSeconds v d = (case d of DataValue a s t1 t2 p1 p2 \<Rightarrow> DataValue a s t1 t2 p1 v)"

text \<open>Writing the type of a variant over its type.\<close>

definition put_V_BuiltInTypeId :: "SOPC_BuiltinId \<Rightarrow> 'x SOPC_Variant \<Rightarrow> 'x SOPC_Variant" where
  "put_V_BuiltInTypeId t v = Variant (V_DoNotClear v) t (V_ArrayType v) (V_Value v)"

text \<open>A member that is read when its flag is set, and gets a default value otherwise.\<close>

definition read_or ::
  "(SOPC_ReturnStatus \<times> 'd option \<times> bufp) option \<Rightarrow> bool \<Rightarrow>
   ('d option \<times> bufp \<Rightarrow> (SOPC_ReturnStatus \<times> 'd option \<times> bufp) option) \<Rightarrow> ('d \<Rightarrow> 'd) \<Rightarrow>
   (SOPC_ReturnStatus \<times> 'd option \<times> bufp) option" where
  "read_or r c R dflt = do {
     (st, p, b) \<leftarrow> r;
     if st = SOPC_STATUS_OK \<and> c then R (p, b) else Some (st, map_option dflt p, b) }"

lemma read_or_cong [fundef_cong]:
  "r = r' \<Longrightarrow> c = c' \<Longrightarrow> dflt = dflt' \<Longrightarrow> (\<And>x. c' \<Longrightarrow> R x = R' x) \<Longrightarrow> read_or r c R dflt = read_or r' c' R' dflt'"
  by (auto simp: read_or_def intro!: Option.bind_cong)

lemma on_field_cong [fundef_cong]:
  "get = get' \<Longrightarrow> put = put' \<Longrightarrow> x = x' \<Longrightarrow> (\<And>p b. R p b = R' p b) \<Longrightarrow>
    on_field get put R x = on_field get' put' R' x'"
  by (simp add: on_field_def split_def)

text \<open>
  What a failed read leaves of an initialised variant: its type is null and the first four bytes of its union are
  cleared. The other bytes are zero then: values behind pointers have been freed and their pointers
  reset, arrays too, and the members of the union itself are unchanged by a failed read, except for
  the length of a string, in its first bytes.
\<close>

definition Variant_Read_Failed ::
  "SOPC_VariantArrayType \<Rightarrow> 'x SOPC_Variant \<Rightarrow> 'x SOPC_Variant" where
  "Variant_Read_Failed at v = Variant (V_DoNotClear v) SOPC_Null_Id at Value_Zero"

text \<open>The same for a matrix, which \<open>SOPC_Variant_Clear\<close> clears before, unless its type is unknown.\<close>

definition Matrix_Read_Failed :: "SOPC_BuiltinId \<Rightarrow> 'x SOPC_Variant \<Rightarrow> 'x SOPC_Variant" where
  "Matrix_Read_Failed tid v =
     (if \<not> V_DoNotClear v \<and> no_builtin tid \<and> tid \<noteq> SOPC_Null_Id
      then Variant_Read_Failed SOPC_VariantArrayType_Matrix v
      else Variant False SOPC_Null_Id SOPC_VariantArrayType_SingleValue Value_Zero)"

text \<open>
  The rest of a matrix, after the elements \<open>es\<close> of its array have been read with the status \<open>st\<close>. The
  allocation in the failure branch is for a dimension that \<open>SOPC_Variant_Clear\<close> frees again; when it
  fails the status becomes \<open>SOPC_STATUS_OUT_OF_MEMORY\<close>.
\<close>

definition Read_Matrix_Dimensions ::
  "enc_env \<Rightarrow> SOPC_ReturnStatus \<Rightarrow> i32 \<Rightarrow> 'x SOPC_BuiltinValue list option \<Rightarrow> bufp \<Rightarrow> nat \<Rightarrow>
   (SOPC_ReturnStatus \<times> 'x SOPC_VariantValue \<times> bufp) option" where
  "Read_Matrix_Dimensions env st arrayLength es b lvl = do {
     (st, n, ds, matrixLength, b) \<leftarrow>
       (if st \<noteq> SOPC_STATUS_OK then Some (st, 0, None, 1, b)
        else if sint arrayLength < 0 then Some (SOPC_STATUS_ENCODING_ERROR, 0, None, 1, b)
        else do {
          (st, n, b) \<leftarrow> SOPC_Int32_Read env (Some 0) b lvl;
          n \<leftarrow> n;
          if st \<noteq> SOPC_STATUS_OK then Some (st, n, None, 1, b)
          else if sint n < 0 \<or> sint n > sint (max_array_length (enc_cfg env)) \<or> unat n > size_max env div 4
          then Some (SOPC_STATUS_OUT_OF_MEMORY, n, None, 1, b)
          else if mem_ok env (4 * unat n) then do {
            (st, ds, len, b) \<leftarrow> Read_Dimensions env arrayLength (unat n) (if n = 0 then 0 else 1) b lvl;
            Some (st, n, if st = SOPC_STATUS_OK then Some ds else None, len, b) }
          else Some (SOPC_STATUS_NOK, n, None, if n = 0 then 0 else 1, b) });
     let st = (if st = SOPC_STATUS_OK \<and> matrixLength \<noteq> sint arrayLength then SOPC_STATUS_ENCODING_ERROR else st)
     in if st = SOPC_STATUS_OK then Some (st, Value_Matrix n ds es, b)
        else Some (if 0 < sint arrayLength \<and> \<not> mem_ok env 4 then SOPC_STATUS_OUT_OF_MEMORY else st,
                   Value_Zero, b) }"

text \<open>An array that is copied from the buffer as it is.\<close>

definition Read_Raw_Array ::
  "enc_env \<Rightarrow> bufp \<Rightarrow> SOPC_BuiltinId \<Rightarrow> 'x SOPC_BuiltinValue list option \<Rightarrow> i32 \<Rightarrow> nat \<Rightarrow>
   (SOPC_ReturnStatus \<times> i32 \<times> 'x SOPC_BuiltinValue list option \<times> bufp) option" where
  "Read_Raw_Array env b tid arr n lvl =
     (if b = None \<or> arr \<noteq> None then Some (SOPC_STATUS_INVALID_PARAMETERS, n, arr, b)
      else do {
        let sz = getBuiltinOptimizableSize tid;
        (st, n, b) \<leftarrow> SOPC_Int32_Read env (Some n) b (lvl + 1);
        n \<leftarrow> n;
        let k = (if sint n < 0 then 0 else n);
        if st \<noteq> SOPC_STATUS_OK then Some (st, n, arr, b)
        else if sint k > sint (max_array_length (enc_cfg env)) then Some (SOPC_STATUS_OUT_OF_MEMORY, k, arr, b)
        else if 0 < sint k \<and> unat k \<le> (2 ^ 32 - 1) div sz then
          (if mem_ok env (unat k * sz) then do {
             (st, mem, b) \<leftarrow>
               SOPC_Buffer_Read (Some (replicate (unat k * sz) 0)) b (of_nat (unat k * sz));
             mem \<leftarrow> mem;
             if st \<noteq> SOPC_STATUS_OK then Some (SOPC_STATUS_ENCODING_ERROR, 0, None, b)
             else Some (st, k, Some (array_of_memory tid (unat k) mem), b) }
           else Some (SOPC_STATUS_OUT_OF_MEMORY, 0, None, b))
        else if 0 < sint k then Some (SOPC_STATUS_OUT_OF_MEMORY, k, arr, b)
        else Some (SOPC_STATUS_OK, k, arr, b) })"

text \<open>The column \<open>initialize\<close> of \<open>SOPC_BuiltInType_HandlingTable\<close>, for every type.\<close>

definition builtin_init :: "'x ext_ops \<Rightarrow> SOPC_BuiltinId \<Rightarrow> 'x SOPC_BuiltinValue" where
  "builtin_init X tid =
     (if tid = SOPC_DataValue_Id then DataValue_v datavalue_init
      else if tid = SOPC_Variant_Id then Variant_v variant_init
      else Plain_v (plain_init X tid))"

text \<open>
  \<open>builtin_decode\<close> is the column \<open>decode\<close> of \<open>SOPC_BuiltInType_EncodingTable\<close>. A value behind a pointer is
  read in a block allocated and initialised for it, which is freed if the read fails.
\<close>

function (sequential) builtin_decode :: "'x ext_ops \<Rightarrow> enc_env \<Rightarrow> SOPC_BuiltinId \<Rightarrow> 'x SOPC_BuiltinValue reader"
and ReadVariantNonArrayBuiltInType ::
  "'x ext_ops \<Rightarrow> enc_env \<Rightarrow> bufp \<Rightarrow> SOPC_BuiltinId \<Rightarrow> 'x SOPC_VariantValue \<Rightarrow> nat \<Rightarrow>
   (SOPC_ReturnStatus \<times> 'x SOPC_VariantValue \<times> bufp) option"
and ReadVariantArrayBuiltInType ::
  "'x ext_ops \<Rightarrow> enc_env \<Rightarrow> bufp \<Rightarrow> SOPC_BuiltinId \<Rightarrow> 'x SOPC_BuiltinValue list option \<Rightarrow> i32 \<Rightarrow> nat \<Rightarrow>
   (SOPC_ReturnStatus \<times> i32 \<times> 'x SOPC_BuiltinValue list option \<times> bufp) option"
and SOPC_Variant_Read_Internal :: "'x ext_ops \<Rightarrow> enc_env \<Rightarrow> 'x SOPC_Variant reader"
and SOPC_DataValue_Read_Internal :: "'x ext_ops \<Rightarrow> enc_env \<Rightarrow> 'x SOPC_DataValue reader"
where
  "builtin_decode X env tid p b lvl =
     (if tid = SOPC_DataValue_Id then do {
        d \<leftarrow> as_DataValue p;
        (st, d, b) \<leftarrow> SOPC_DataValue_Read_Internal X env d b lvl;
        Some (st, map_option DataValue_v d, b) }
      else if tid = SOPC_Variant_Id then do {
        v \<leftarrow> as_Variant p;
        (st, v, b) \<leftarrow> SOPC_Variant_Read_Internal X env v b lvl;
        Some (st, map_option Variant_v v, b) }
      else do {
        v \<leftarrow> as_Plain p;
        (st, v, b) \<leftarrow> plain_read X env tid v b lvl;
        Some (st, map_option Plain_v v, b) })"
| "ReadVariantNonArrayBuiltInType X env b tid val lvl =
     (if lvl \<ge> max_level env then Some (SOPC_STATUS_INVALID_STATE, val, b)
      else if tid = SOPC_Null_Id then Some (SOPC_STATUS_OK, val, b)
      else if no_builtin tid then Some (SOPC_STATUS_NOK, val, b)
      else if tid = SOPC_Variant_Id then Some (SOPC_STATUS_ENCODING_ERROR, val, b)
      else if behind_pointer tid then
        (if \<not> mem_ok env (builtin_size tid) then Some (SOPC_STATUS_NOK, Value_Zero, b)
         else if tid = SOPC_DataValue_Id then do {
           (st, d, b) \<leftarrow> SOPC_DataValue_Read_Internal X env (Some datavalue_init) b lvl;
           d \<leftarrow> d;
           Some (st, if st = SOPC_STATUS_OK then Value_Single (DataValue_v d) else Value_Zero, b) }
         else do {
           (st, v, b) \<leftarrow> plain_read X env tid (Some (plain_init X tid)) b lvl;
           v \<leftarrow> v;
           Some (st, if st = SOPC_STATUS_OK then Value_Single (Plain_v v) else Value_Zero, b) })
      else do {
        p \<leftarrow> value_Single X tid val;
        v \<leftarrow> as_Plain p;
        (st, v, b) \<leftarrow> plain_read X env tid v b lvl;
        v \<leftarrow> v;
        Some (st, Value_Single (Plain_v v), b) })"
| "ReadVariantArrayBuiltInType X env b tid arr n lvl =
     (if lvl \<ge> max_level env then Some (SOPC_STATUS_INVALID_STATE, n, arr, b)
      else if no_builtin tid then Some (SOPC_STATUS_INVALID_PARAMETERS, n, arr, b)
      else if 0 < getBuiltinOptimizableSize tid then Read_Raw_Array env b tid arr n lvl
      else do {
        (st, n, arr, b) \<leftarrow>
          SOPC_Read_Array_with env b n arr (builtin_size tid) (builtin_decode X env tid) (builtin_init X tid) lvl;
        n \<leftarrow> n;
        arr \<leftarrow> arr;
        Some (st, n, arr, b) })"
| "SOPC_Variant_Read_Internal X env variant b lvl =
     enc_guard env (variant = None) lvl (variant, b)
       (do {
          v \<leftarrow> variant;
          (st, e, b) \<leftarrow> SOPC_Byte_Read env (Some 0) b (lvl + 1);
          e \<leftarrow> e;
          let tid = builtin_of_byte (0x3F AND e);
          if st \<noteq> SOPC_STATUS_OK then Some (st, Some (Variant_Read_Failed (V_ArrayType v) v), b)
          else if e AND SOPC_VariantArrayValueFlag \<noteq> 0 then
            (if e AND SOPC_VariantArrayDimensionsFlag \<noteq> 0 then do {
               (_, _, es) \<leftarrow> value_Matrix (V_Value v);
               (st, n, es, b) \<leftarrow> ReadVariantArrayBuiltInType X env b tid es 0 (lvl + 1);
               (st, val, b) \<leftarrow> Read_Matrix_Dimensions env st n es b (lvl + 1);
               Some (st,
                 Some (if st = SOPC_STATUS_OK then Variant (V_DoNotClear v) tid SOPC_VariantArrayType_Matrix val
                       else Matrix_Read_Failed tid v), b) }
             else do {
               (_, es) \<leftarrow> value_Array (V_Value v);
               (st, n, es, b) \<leftarrow> ReadVariantArrayBuiltInType X env b tid es 0 (lvl + 1);
               Some (st,
                 Some (if st = SOPC_STATUS_OK
                       then Variant (V_DoNotClear v) tid SOPC_VariantArrayType_Array (Value_Array n es)
                       else Variant_Read_Failed SOPC_VariantArrayType_Array v), b) })
          else if e AND SOPC_VariantArrayDimensionsFlag \<noteq> 0 then
            Some (SOPC_STATUS_INVALID_PARAMETERS, Some (Variant_Read_Failed (V_ArrayType v) v), b)
          else do {
            (st, val, b) \<leftarrow> ReadVariantNonArrayBuiltInType X env b tid (V_Value v) (lvl + 1);
            Some (st,
              Some (if st = SOPC_STATUS_OK
                    then Variant (V_DoNotClear v) tid SOPC_VariantArrayType_SingleValue val
                    else Variant_Read_Failed SOPC_VariantArrayType_SingleValue v), b) } })"
| "SOPC_DataValue_Read_Internal X env dataValue b lvl =
     enc_guard env (dataValue = None) lvl (dataValue, b)
       (do {
          (st, m, b) \<leftarrow> SOPC_Byte_Read env (Some 0) b (lvl + 1);
          m \<leftarrow> m;
          (st, d, b) \<leftarrow>
            read_or
             (read_or
              (read_or
               (read_or
                (read_or
                 (read_or (Some (st, dataValue, b))
                   (m AND SOPC_DataValue_NotNullValue \<noteq> 0)
                   (on_field DV_Value put_DV_Value
                      (\<lambda>p b. SOPC_Variant_Read_Internal X env p b (lvl + 1)))
                   (\<lambda>d. put_DV_Value (put_V_BuiltInTypeId SOPC_Null_Id (DV_Value d)) d))
                 (m AND SOPC_DataValue_NotGoodStatusCode \<noteq> 0)
                 (on_field DV_Status put_DV_Status (\<lambda>p b. SOPC_StatusCode_Read env p b (lvl + 1)))
                 (put_DV_Status 0))
                (m AND SOPC_DataValue_NotMinSourceDate \<noteq> 0)
                (on_field DV_SourceTimestamp put_DV_SourceTimestamp
                   (\<lambda>p b. SOPC_DateTime_Read env p b (lvl + 1)))
                (put_DV_SourceTimestamp 0))
               (m AND SOPC_DataValue_NotZeroSourcePico \<noteq> 0)
               (on_field DV_SourcePicoSeconds put_DV_SourcePicoSeconds
                  (\<lambda>p b. SOPC_UInt16_Read env p b (lvl + 1)))
               (put_DV_SourcePicoSeconds 0))
              (m AND SOPC_DataValue_NotMinServerDate \<noteq> 0)
              (on_field DV_ServerTimestamp put_DV_ServerTimestamp
                 (\<lambda>p b. SOPC_DateTime_Read env p b (lvl + 1)))
              (put_DV_ServerTimestamp 0))
             (m AND SOPC_DataValue_NotZeroServerPico \<noteq> 0)
             (on_field DV_ServerPicoSeconds put_DV_ServerPicoSeconds
                (\<lambda>p b. SOPC_UInt16_Read env p b (lvl + 1)))
             (put_DV_ServerPicoSeconds 0);
          d \<leftarrow> d;
          if st = SOPC_STATUS_OK then Some (st, Some d, b)
          else do {
            v \<leftarrow> SOPC_Variant_Clear (DV_Value d);
            Some (st, Some (DataValue v 0 0 0 0 (DV_ServerPicoSeconds d)), b) } })"
  by pat_completeness auto

termination
  by (relation "measure (case_sum
      (case_sum (\<lambda>(X, env, tid, p, b, lvl). levels_left env lvl 1)
                (\<lambda>(X, env, b, tid, val, lvl). levels_left env lvl 1))
      (case_sum (\<lambda>(X, env, b, tid, arr, len, lvl). levels_left env lvl 1)
        (case_sum (\<lambda>(X, env, v, b, lvl). levels_left env lvl 0)
                  (\<lambda>(X, env, d, b, lvl). levels_left env lvl 0))))")
    (auto simp: levels_left_def)

declare builtin_decode.simps [simp del] ReadVariantNonArrayBuiltInType.simps [simp del]
  ReadVariantArrayBuiltInType.simps [simp del] SOPC_Variant_Read_Internal.simps [simp del]
  SOPC_DataValue_Read_Internal.simps [simp del]

definition SOPC_Variant_Read :: "'x ext_ops \<Rightarrow> enc_env \<Rightarrow> 'x SOPC_Variant reader" where
  "SOPC_Variant_Read X env variant b lvl = SOPC_Variant_Read_Internal X env variant b lvl"

definition SOPC_DataValue_Read :: "'x ext_ops \<Rightarrow> enc_env \<Rightarrow> 'x SOPC_DataValue reader" where
  "SOPC_DataValue_Read X env dataValue b lvl = SOPC_DataValue_Read_Internal X env dataValue b lvl"

end
