(* ===== verification/Variant_Plain_Laws.thy ===== *)
theory Variant_Plain_Laws
  imports Variant_Types Struct_Laws
begin

text \<open>
  The entries of the encoding table for the built-in types that contain no variant satisfy the contract
  \<open>codec_upto\<close>, whatever the type: their encoding, the values that can be decoded, what they are decoded
  to. The contract of extension objects is a hypothesis, \<open>ext_codec\<close>.
\<close>

section \<open>Contracts\<close>

text \<open>
  An array that is copied as it is does not fit in a full buffer with the status
  \<open>SOPC_STATUS_OUT_OF_MEMORY\<close>, which the other writers map.
\<close>

abbreviation variant_statuses :: "SOPC_ReturnStatus set" where
  "variant_statuses \<equiv> {SOPC_STATUS_WOULD_BLOCK, SOPC_STATUS_ENCODING_ERROR, SOPC_STATUS_OUT_OF_MEMORY}"

lemma full_variant_statuses: "full_statuses \<subseteq> variant_statuses"
  by blast

record 'x ext_spec =
  x_enc :: "enc_env \<Rightarrow> 'x \<Rightarrow> byte list"
  x_ok :: "enc_env \<Rightarrow> 'x \<Rightarrow> bool"
  x_dec :: "enc_env \<Rightarrow> 'x \<Rightarrow> 'x"
  x_good :: "enc_env \<Rightarrow> 'x \<Rightarrow> bool"
  x_depth :: nat

definition ext_codec :: "'x ext_ops \<Rightarrow> 'x ext_spec \<Rightarrow> bool" where
  "ext_codec X S \<longleftrightarrow>
     codec_upto (ext_write X) (ext_read X) (x_enc S) (x_ok S) (ext_init X) (x_dec S) (x_good S) (x_depth S)
       variant_statuses"

lemma codec_upto_mono:
  assumes "codec_upto W R enc ok ini dec good depth errs" "errs \<subseteq> errs'"
  shows "codec_upto W R enc ok ini dec good depth errs'"
proof -
  note C = codec_upto.axioms [OF assms(1)]
  have "codec_core W R enc ok ini dec depth errs'"
  proof (rule codec_core.intro)
    show "0 < depth" by (rule codec_core.depth_pos [OF C(1)])
    show "full_statuses \<subseteq> errs'" using codec_core.errs_full [OF C(1)] assms(2) by (rule subset_trans)
  qed (rule writes_upto_mono [OF codec_core.write_law [OF C(1)] assms(2)] codec_core.read_law [OF C(1)];
      assumption)+
  then show ?thesis using C(2) by (rule codec_upto.intro)
qed

text \<open>The contract of a type, carried to the union.\<close>

lemma codec_value:
  assumes "codec_upto W R enc ok ini dec good depth errs"
    and get: "\<And>x. get (put x) = Some x"
    and ok: "\<And>env v. ok' env v \<Longrightarrow> \<exists>x. get v = Some x \<and> ok env x \<and> enc' env v = enc env x \<and> dec' env v = put (dec env x)"
    and good: "\<And>env x. good env x \<Longrightarrow> good' env (put x)"
    and ini: "ini' = put ini"
  shows "codec_upto (\<lambda>env. on_value get (W env)) (\<lambda>env. into_value get put (R env)) enc' ok' ini' dec' good' depth errs"
proof -
  note C = codec_upto.axioms [OF assms(1)]
  have "codec_core (\<lambda>env. on_value get (W env)) (\<lambda>env. into_value get put (R env)) enc' ok' ini' dec' depth errs"
  proof (rule codec_core.intro)
    fix env v lvl
    assume env: "mem_total env" and v: "ok' env v" and lvl: "lvl + depth \<le> max_level env"
    obtain x where x: "get v = Some x" "ok env x" "enc' env v = enc env x" "dec' env v = put (dec env x)"
      using ok [OF v] by blast
    show "writes_upto errs (\<lambda>b. on_value get (W env) (Some v) b lvl) (enc' env v)"
      using codec_core.write_law [OF C(1) env x(2) lvl] x by (simp add: on_value_def)
    show "reads (\<lambda>(p, b). into_value get put (R env) p b lvl) ini' (dec' env v) (enc' env v)"
      using codec_core.read_law [OF C(1) env x(2) lvl] get x(3,4) ini by (simp add: reads_def into_value_def)
  qed (rule codec_core.depth_pos [OF C(1)], rule codec_core.errs_full [OF C(1)])
  moreover have "decoder (\<lambda>env. into_value get put (R env)) ini' good'"
  proof (rule decoder.intro, unfold safe_read_def, intro allI impI)
    fix env lvl b
    assume b: "buf_wf b" "unat (buf_length b) \<le> 2 ^ 31"
    obtain st x b' where "R env (Some ini) (Some b) lvl = Some (st, Some x, Some b')" "buf_read_step b b'"
      "st = SOPC_STATUS_OK \<Longrightarrow> good env x"
      using safe_readE [OF decoder.read_safe [OF C(2)] b] by metis
    with get ini good show "\<exists>st s' b'. (\<lambda>(p, b). into_value get put (R env) p b lvl) (Some ini', Some b) =
        Some (st, Some s', Some b') \<and> buf_read_step b b' \<and> (st = SOPC_STATUS_OK \<longrightarrow> good' env s')"
      by (auto simp: into_value_def)
  qed
  ultimately show ?thesis by (rule codec_upto.intro)
qed

section \<open>Encodings of the plain types\<close>

definition plain_tid :: "'x SOPC_Plain \<Rightarrow> SOPC_BuiltinId" where
  "plain_tid v =
     (case v of
        Boolean_v _ \<Rightarrow> SOPC_Boolean_Id | SByte_v _ \<Rightarrow> SOPC_SByte_Id | Byte_v _ \<Rightarrow> SOPC_Byte_Id
      | Int16_v _ \<Rightarrow> SOPC_Int16_Id | UInt16_v _ \<Rightarrow> SOPC_UInt16_Id | Int32_v _ \<Rightarrow> SOPC_Int32_Id
      | UInt32_v _ \<Rightarrow> SOPC_UInt32_Id | Int64_v _ \<Rightarrow> SOPC_Int64_Id | UInt64_v _ \<Rightarrow> SOPC_UInt64_Id
      | Float_v _ \<Rightarrow> SOPC_Float_Id | Double_v _ \<Rightarrow> SOPC_Double_Id | String_v _ \<Rightarrow> SOPC_String_Id
      | DateTime_v _ \<Rightarrow> SOPC_DateTime_Id | Guid_v _ \<Rightarrow> SOPC_Guid_Id | ByteString_v _ \<Rightarrow> SOPC_ByteString_Id
      | XmlElement_v _ \<Rightarrow> SOPC_XmlElement_Id | NodeId_v _ \<Rightarrow> SOPC_NodeId_Id
      | ExpandedNodeId_v _ \<Rightarrow> SOPC_ExpandedNodeId_Id | StatusCode_v _ \<Rightarrow> SOPC_StatusCode_Id
      | QualifiedName_v _ \<Rightarrow> SOPC_QualifiedName_Id | LocalizedText_v _ \<Rightarrow> SOPC_LocalizedText_Id
      | ExtensionObject_v _ \<Rightarrow> SOPC_ExtensionObject_Id | DiagnosticInfo_v _ \<Rightarrow> SOPC_DiagnosticInfo_Id)"

definition enc_plain :: "'x ext_spec \<Rightarrow> enc_env \<Rightarrow> 'x SOPC_Plain \<Rightarrow> byte list" where
  "enc_plain S env v =
     (case v of
        Boolean_v x \<Rightarrow> le_bytes 1 (unat (if x = 0 then x else 1)) | SByte_v x \<Rightarrow> le_bytes 1 (unat x)
      | Byte_v x \<Rightarrow> le_bytes 1 (unat x) | Int16_v x \<Rightarrow> le_bytes 2 (unat x) | UInt16_v x \<Rightarrow> le_bytes 2 (unat x)
      | Int32_v x \<Rightarrow> le_bytes 4 (unat x) | UInt32_v x \<Rightarrow> le_bytes 4 (unat x) | Int64_v x \<Rightarrow> le_bytes 8 (unat x)
      | UInt64_v x \<Rightarrow> le_bytes 8 (unat x) | Float_v x \<Rightarrow> le_bytes 4 (unat (normalize_float env x))
      | Double_v x \<Rightarrow> le_bytes 8 (unat (normalize_double env x)) | String_v x \<Rightarrow> enc_string x
      | DateTime_v x \<Rightarrow> le_bytes 8 (unat x) | Guid_v x \<Rightarrow> guid_mem x | ByteString_v x \<Rightarrow> enc_string x
      | XmlElement_v x \<Rightarrow> enc_string x | NodeId_v x \<Rightarrow> enc_nodeid x | ExpandedNodeId_v x \<Rightarrow> enc_expnodeid x
      | StatusCode_v x \<Rightarrow> le_bytes 4 (unat x) | QualifiedName_v x \<Rightarrow> enc_qname x
      | LocalizedText_v x \<Rightarrow> enc_ltext x | ExtensionObject_v x \<Rightarrow> x_enc S env x
      | DiagnosticInfo_v x \<Rightarrow> enc_diag x)"

definition plain_ok :: "'x ext_spec \<Rightarrow> enc_env \<Rightarrow> 'x SOPC_Plain \<Rightarrow> bool" where
  "plain_ok S env v =
     (case v of
        String_v x \<Rightarrow> string_ok env x | Guid_v x \<Rightarrow> guid_wf x | ByteString_v x \<Rightarrow> string_ok env x
      | XmlElement_v x \<Rightarrow> string_ok env x | NodeId_v x \<Rightarrow> nodeid_ok env x
      | ExpandedNodeId_v x \<Rightarrow> expnodeid_ok env x | QualifiedName_v x \<Rightarrow> qname_ok env x
      | LocalizedText_v x \<Rightarrow> ltext_ok env x | ExtensionObject_v x \<Rightarrow> x_ok S env x
      | DiagnosticInfo_v x \<Rightarrow> diag_ok env x 0 | _ \<Rightarrow> True)"

definition dec_plain :: "'x ext_spec \<Rightarrow> enc_env \<Rightarrow> 'x SOPC_Plain \<Rightarrow> 'x SOPC_Plain" where
  "dec_plain S env v =
     (case v of
        Boolean_v x \<Rightarrow> Boolean_v (if x = 0 then 0 else 1) | Float_v x \<Rightarrow> Float_v (normalize_float env x)
      | Double_v x \<Rightarrow> Double_v (normalize_double env x) | String_v x \<Rightarrow> String_v (dec_bytes [0] x)
      | ByteString_v x \<Rightarrow> ByteString_v (dec_bytes [] x) | XmlElement_v x \<Rightarrow> XmlElement_v (dec_bytes [] x)
      | NodeId_v x \<Rightarrow> NodeId_v (dec_nodeid x) | ExpandedNodeId_v x \<Rightarrow> ExpandedNodeId_v (dec_expnodeid x)
      | QualifiedName_v x \<Rightarrow> QualifiedName_v (dec_qname x)
      | LocalizedText_v x \<Rightarrow> LocalizedText_v (dec_ltext x)
      | ExtensionObject_v x \<Rightarrow> ExtensionObject_v (x_dec S env x)
      | DiagnosticInfo_v x \<Rightarrow> DiagnosticInfo_v (dec_diag x) | _ \<Rightarrow> v)"

definition plain_good :: "'x ext_spec \<Rightarrow> enc_env \<Rightarrow> 'x SOPC_Plain \<Rightarrow> bool" where
  "plain_good S env v =
     (case v of
        Boolean_v x \<Rightarrow> x = 0 \<or> x = 1 | Float_v x \<Rightarrow> normalize_float env x = x
      | Double_v x \<Rightarrow> normalize_double env x = x | String_v x \<Rightarrow> decoded_bytes 1 env x | Guid_v x \<Rightarrow> guid_wf x
      | ByteString_v x \<Rightarrow> decoded_bytes 0 env x | XmlElement_v x \<Rightarrow> decoded_bytes 0 env x
      | NodeId_v x \<Rightarrow> decoded_nodeid env x | ExpandedNodeId_v x \<Rightarrow> decoded_expnodeid env x
      | QualifiedName_v x \<Rightarrow> decoded_bytes 1 env (QN_Name x) | LocalizedText_v x \<Rightarrow> decoded_ltext env x
      | ExtensionObject_v x \<Rightarrow> x_good S env x | DiagnosticInfo_v x \<Rightarrow> decoded_diag env x 0 | _ \<Rightarrow> True)"

text \<open>The structure levels a type needs.\<close>

definition plain_depth :: "'x ext_spec \<Rightarrow> SOPC_BuiltinId \<Rightarrow> nat" where
  "plain_depth S tid =
     (case tid of
        SOPC_Boolean_Id \<Rightarrow> 2 | SOPC_String_Id \<Rightarrow> 2 | SOPC_DateTime_Id \<Rightarrow> 2 | SOPC_Guid_Id \<Rightarrow> 2
      | SOPC_ByteString_Id \<Rightarrow> 2 | SOPC_XmlElement_Id \<Rightarrow> 2 | SOPC_DiagnosticInfo_Id \<Rightarrow> 2
      | SOPC_NodeId_Id \<Rightarrow> 3 | SOPC_ExpandedNodeId_Id \<Rightarrow> 3 | SOPC_QualifiedName_Id \<Rightarrow> 3
      | SOPC_LocalizedText_Id \<Rightarrow> 3 | SOPC_ExtensionObject_Id \<Rightarrow> x_depth S | _ \<Rightarrow> 1)"

lemmas plain_defs = enc_plain_def plain_ok_def dec_plain_def plain_good_def plain_tid_def

text \<open>Strings in zeroed memory.\<close>

lemma string_start_codec:
  assumes "string_start s"
  shows "codec_upto SOPC_String_Write SOPC_String_Read (\<lambda>_. enc_string) string_ok s (\<lambda>_. dec_bytes [0])
      (decoded_bytes 1) 2 full_statuses"
    and "codec_upto SOPC_ByteString_Write SOPC_ByteString_Read (\<lambda>_. enc_string) string_ok s (\<lambda>_. dec_bytes [])
      (decoded_bytes 0) 2 full_statuses"
    and "codec_upto SOPC_XmlElement_Write SOPC_XmlElement_Read (\<lambda>_. enc_string) string_ok s (\<lambda>_. dec_bytes [])
      (decoded_bytes 0) 2 full_statuses"
  by unfold_locales
    (use assms string_safe bytestring_safe in \<open>simp_all add: string_writes string_reads bytestring_reads string_ok_def
       SOPC_XmlElement_Write_def SOPC_XmlElement_Read_def\<close>)

text \<open>The contracts of the types, with the statuses of variants.\<close>

lemmas plain_codecs =
  boolean_c.codec_upto_axioms sbyte_c.codec_upto_axioms byte_c.codec_upto_axioms
  int16_c.codec_upto_axioms uint16_c.codec_upto_axioms int32_c.codec_upto_axioms uint32_c.codec_upto_axioms
  int64_c.codec_upto_axioms uint64_c.codec_upto_axioms float_c.codec_upto_axioms double_c.codec_upto_axioms
  datetime_c.codec_upto_axioms guid_c.codec_upto_axioms nodeid_c.codec_upto_axioms
  expnodeid_c.codec_upto_axioms status_c.codec_upto_axioms qname_c.codec_upto_axioms
  ltext_c.codec_upto_axioms diag_c.codec_upto_axioms

lemmas plain_codecs_upto = plain_codecs [THEN codec_upto_mono, OF full_variant_statuses]
  string_start_codec [THEN codec_upto_mono, OF _ full_variant_statuses]

definition plain_type :: "SOPC_BuiltinId \<Rightarrow> bool" where
  "plain_type tid \<longleftrightarrow> \<not> no_builtin tid \<and> tid \<noteq> SOPC_DataValue_Id \<and> tid \<noteq> SOPC_Variant_Id"

abbreviation plain_contract ::
  "'x ext_ops \<Rightarrow> 'x ext_spec \<Rightarrow> SOPC_BuiltinId \<Rightarrow> 'x SOPC_Plain \<Rightarrow> bool" where
  "plain_contract X S tid ini \<equiv>
     codec_upto (\<lambda>env. plain_write X env tid) (\<lambda>env. plain_read X env tid) (enc_plain S)
       (\<lambda>env v. plain_ok S env v \<and> plain_tid v = tid) ini (dec_plain S)
       (\<lambda>env v. plain_good S env v \<and> plain_tid v = tid) (plain_depth S tid) variant_statuses"

lemmas plain_table = plain_write_def plain_read_def plain_depth_def SOPC_BuiltinId.case

lemma string_types_codec:
  assumes "string_start s"
  shows "plain_contract X S SOPC_String_Id (String_v s)" "plain_contract X S SOPC_ByteString_Id (ByteString_v s)"
    "plain_contract X S SOPC_XmlElement_Id (XmlElement_v s)"
  unfolding plain_table
  by (rule codec_value [OF string_start_codec(1) [OF assms, THEN codec_upto_mono, OF full_variant_statuses]]
      codec_value [OF string_start_codec(2) [OF assms, THEN codec_upto_mono, OF full_variant_statuses]]
      codec_value [OF string_start_codec(3) [OF assms, THEN codec_upto_mono, OF full_variant_statuses]];
      auto simp: plain_defs split: SOPC_Plain.splits)+

lemma ext_type_codec:
  assumes "ext_codec X S"
  shows "plain_contract X S SOPC_ExtensionObject_Id (ExtensionObject_v (ext_init X))"
  unfolding plain_table
  by (rule codec_value [OF assms [unfolded ext_codec_def]]) (auto simp: plain_defs split: SOPC_Plain.splits)

lemma plain_codec:
  assumes X: "ext_codec X S" and tid: "plain_type tid" and ini: "ini = plain_init X tid \<or> ini = plain_zero X tid"
  shows "plain_contract X S tid ini"
proof (cases "tid \<in> {SOPC_String_Id, SOPC_ByteString_Id, SOPC_XmlElement_Id, SOPC_ExtensionObject_Id}")
  case True
  have "string_start str_init" "string_start \<lparr>Str_Length = 0, Str_DoNotClear = False, Str_Data = None\<rparr>"
    by (simp_all add: string_start_def str_init_def)
  with True ini show ?thesis
    by (auto simp: plain_init_def plain_zero_def intro!: string_types_codec ext_type_codec [OF X])
next
  case False
  then have "ini = plain_init X tid" using ini by (cases tid) (auto simp: plain_zero_def)
  then show ?thesis
    using False tid
    by (cases tid, simp_all add: plain_type_def no_builtin_def, simp_all only: plain_table)
      (rule codec_value, rule plain_codecs_upto,
       (auto simp: plain_defs plain_init_def split: SOPC_Plain.splits) [4])+
qed

end
