(* ===== verification/Variant_Array_Laws.thy ===== *)
theory Variant_Array_Laws
  imports Variant Variant_Plain_Laws
begin

unbundle bit_operations_syntax

text \<open>
  The laws of the parts of a variant that are not recursive: the arrays that are copied as they are, and
  the dimensions of a matrix.
\<close>

section \<open>Lengths\<close>

text \<open>A length that fits in an \<open>int32_t\<close>.\<close>

lemma length_i32:
  assumes "n < 2 ^ 31"
  shows "unat (of_nat n :: i32) = n" "sint (of_nat n :: i32) = int n"
proof -
  show un: "unat (of_nat n :: i32) = n" using assms by (intro unat_of_nat_u32) simp
  then show "sint (of_nat n :: i32) = int n"
    using assms by (simp add: sint_uint uint_nat signed_take_bit_int_eq_self)
qed

lemma sint_nonneg_unat: "0 \<le> sint (w :: i32) \<Longrightarrow> int (unat w) = sint w"
  using sint_less [of w] by (simp add: uint_sint take_bit_int_eq_self)

lemma int32_writes:
  assumes "mem_total env" "lvl < max_level env"
  shows "writes_upto variant_statuses (\<lambda>b. SOPC_Int32_Write env (Some n) b lvl) (le_bytes 4 (unat n))"
  using writes_upto_mono [OF int32_c.write_law full_variant_statuses] assms by simp

lemma int32_read:
  assumes "mem_total env" "lvl < max_level env" "buf_wf b" "unat (buf_length b) \<le> 2 ^ 31"
    "stream_rest (stream_of b) = le_bytes 4 (unat n) @ rest"
  shows "SOPC_Int32_Read env (Some n0) (Some b) lvl = Some (SOPC_STATUS_OK, Some n, Some (buf_advance 4 b))"
  using reads_bindD [OF int32_c.read_law assms(3-5)] assms(1,2) by simp

section \<open>Memory images\<close>

definition raw_type :: "SOPC_BuiltinId \<Rightarrow> bool" where
  "raw_type tid \<longleftrightarrow> 0 < getBuiltinOptimizableSize tid"

lemma raw_type_size: "raw_type tid \<Longrightarrow> getBuiltinOptimizableSize tid = builtin_size tid \<and> 0 < builtin_size tid \<and> builtin_size tid \<le> 8"
  by (cases tid) (auto simp: raw_type_def getBuiltinOptimizableSize_def builtin_size_def no_builtin_def)

lemma raw_type_plain: "raw_type tid \<Longrightarrow> plain_type tid"
  by (cases tid) (auto simp: raw_type_def getBuiltinOptimizableSize_def builtin_size_def no_builtin_def plain_type_def)

lemma byte_mod [simp]: "word_of_nat (unat (x :: byte) mod 256) = x"
proof -
  have "unat x < 256" using unsigned_less [of x] by simp
  then show ?thesis by simp
qed

lemma plain_memory_roundtrip:
  assumes "raw_type (plain_tid v)"
  obtains m where "plain_memory v = Some m" "length m = builtin_size (plain_tid v)"
    "plain_of_memory (plain_tid v) m = v"
  using assms that
  by (cases v) (auto simp: raw_type_def getBuiltinOptimizableSize_def plain_tid_def no_builtin_def
      plain_memory_def plain_of_memory_def builtin_size_def le_word_roundtrip)

lemma plain_of_memory_tid: "raw_type tid \<Longrightarrow> plain_tid (plain_of_memory tid m) = tid"
  by (cases tid) (auto simp: raw_type_def getBuiltinOptimizableSize_def plain_tid_def no_builtin_def
      plain_of_memory_def Let_def)

definition plain_of_type :: "SOPC_BuiltinId \<Rightarrow> 'x SOPC_BuiltinValue \<Rightarrow> bool" where
  "plain_of_type tid x \<longleftrightarrow> (\<exists>v. x = Plain_v v \<and> plain_tid v = tid)"

lemma array_memory_roundtrip:
  assumes "raw_type tid" "\<forall>x\<in>set xs. plain_of_type tid x"
  obtains m where "array_memory xs = Some m" "length m = length xs * builtin_size tid"
    "array_of_memory tid (length xs) m = xs"
  using assms(2)
proof (induction xs arbitrary: thesis)
  case Nil
  then show ?case by simp
next
  case (Cons x xs)
  obtain v where v: "x = Plain_v v" "plain_tid v = tid" using Cons.prems by (auto simp: plain_of_type_def)
  obtain m where m: "array_memory xs = Some m" "length m = length xs * builtin_size tid"
    "array_of_memory tid (length xs) m = xs"
    using Cons.IH Cons.prems by auto
  obtain k where k: "plain_memory v = Some k" "length k = builtin_size tid" "plain_of_memory tid k = v"
    using plain_memory_roundtrip [of v] assms(1) v by metis
  show ?case by (rule Cons.prems(1) [of "k @ m"]) (use v m k in simp_all)
qed

lemma length_array_of_memory [simp]: "length (array_of_memory tid n m) = n"
  by (induction n arbitrary: m) simp_all

lemma array_of_memory_types:
  "raw_type tid \<Longrightarrow> x \<in> set (array_of_memory tid n m) \<Longrightarrow> plain_of_type tid x"
  by (induction n arbitrary: m) (auto simp: plain_of_type_def plain_of_memory_tid)

section \<open>Arrays copied as they are\<close>

lemma writes_memory:
  assumes "mem_total env" "unat n = length bs" "length bs < 2 ^ 31"
  shows "writes_upto variant_statuses (\<lambda>b. SOPC_Buffer_Write env b (Some bs) n) bs"
proof (rule writes_uptoI)
  fix b
  assume "buf_wf b" "unat (position b) + length bs \<le> unat (maximum_size b)"
  then show "\<exists>b'. SOPC_Buffer_Write env (Some b) (Some bs) n = Some (SOPC_STATUS_OK, Some b') \<and> buf_wf b' \<and>
      stream_of b' = stream_put bs (stream_of b)"
    using SOPC_Buffer_Write_ok [of b env n bs] assms by auto
next
  fix b
  assume b: "buf_wf b" "unat (maximum_size b) \<le> 2 ^ 31" "unat (maximum_size b) < unat (position b) + length bs"
  then have "unat (position b) + unat n < 2 ^ 32" using assms(2,3) by (auto elim!: buf_wfE)
  then show "\<exists>st b'. SOPC_Buffer_Write env (Some b) (Some bs) n = Some (st, Some b') \<and>
      st \<in> variant_statuses - {SOPC_STATUS_OK} \<and> buf_wf b' \<and> maximum_size b' = maximum_size b"
    using SOPC_Buffer_Write_full [of b n env bs] assms(2) b by simp
qed

lemma raw_array_writes:
  assumes env: "mem_total env" and lvl: "lvl + 1 < max_level env" and tid: "raw_type tid"
    and xs: "\<forall>x\<in>set xs. plain_of_type tid x" and small: "length xs * builtin_size tid < 2 ^ 31"
    and arr: "elements arr = xs"
  shows "writes_upto variant_statuses
    (\<lambda>b. WriteVariantArrayBuiltInType X env b tid arr (of_nat (length xs)) lvl)
    (le_bytes 4 (length xs) @ elements (array_memory xs))"
proof -
  obtain m where m: "array_memory xs = Some m" "length m = length xs * builtin_size tid"
    using array_memory_roundtrip [OF tid xs] by metis
  note sz = raw_type_size [OF tid]
  have len: "length xs < 2 ^ 31" using small sz by (metis le_less_trans mult_le_mono2 nat_mult_1_right Suc_leI One_nat_def)
  have n: "\<not> no_builtin tid" using raw_type_plain [OF tid] by (simp add: plain_type_def)
  have eq: "WriteVariantArrayBuiltInType X env (Some b) tid arr (of_nat (length xs)) lvl =
      and_when (SOPC_Int32_Write env (Some (of_nat (length xs))) (Some b) (lvl + 1)) (xs \<noteq> [])
        (\<lambda>b. SOPC_Buffer_Write env b (Some m) (of_nat (length xs * builtin_size tid)))" for b
    using n tid sz lvl arr m(1) length_i32 [OF len]
    by (cases arr) (auto simp: WriteVariantArrayBuiltInType.simps raw_type_def and_when_def intro!: and_then_cong)
  have int: "writes_upto variant_statuses (\<lambda>b. SOPC_Int32_Write env (Some (of_nat (length xs))) b (lvl + 1))
      (le_bytes 4 (length xs))"
    using int32_writes [OF env lvl, of "of_nat (length xs)"] length_i32 [OF len] by simp
  have mem: "writes_upto variant_statuses (\<lambda>b. SOPC_Buffer_Write env b (Some m) (of_nat (length xs * builtin_size tid))) m"
    using writes_memory [OF env, of "of_nat (length xs * builtin_size tid)" m] m(2) small
      unat_of_nat_u32 [of "length xs * builtin_size tid"] by simp
  have "m = (if xs \<noteq> [] then m else [])" using m by auto
  then show ?thesis
    using writes_when [OF int mem, of "xs \<noteq> []"] m(1)
      writes_cong [where V = "\<lambda>b. WriteVariantArrayBuiltInType X env b tid arr (of_nat (length xs)) lvl"
        and W = "\<lambda>b. and_when (SOPC_Int32_Write env (Some (of_nat (length xs))) b (lvl + 1)) (xs \<noteq> [])
          (\<lambda>b. SOPC_Buffer_Write env b (Some m) (of_nat (length xs * builtin_size tid)))", OF eq]
    by simp
qed

lemma raw_array_reads:
  assumes env: "mem_total env" and lvl: "lvl + 1 < max_level env" and tid: "raw_type tid"
    and xs: "\<forall>x\<in>set xs. plain_of_type tid x" and small: "length xs * builtin_size tid < 2 ^ 31"
    and len: "int (length xs) \<le> sint (max_array_length (enc_cfg env))"
    and b: "buf_wf b" "unat (buf_length b) \<le> 2 ^ 31"
    and rest: "stream_rest (stream_of b) = (le_bytes 4 (length xs) @ elements (array_memory xs)) @ rest"
  shows "ReadVariantArrayBuiltInType X env (Some b) tid None n0 lvl =
    Some (SOPC_STATUS_OK, of_nat (length xs), if xs = [] then None else Some xs,
      Some (buf_advance (4 + length (elements (array_memory xs))) b))"
proof -
  obtain m where m: "array_memory xs = Some m" "length m = length xs * builtin_size tid"
    "array_of_memory tid (length xs) m = xs"
    using array_memory_roundtrip [OF tid xs] by metis
  note sz = raw_type_size [OF tid]
  have l31: "length xs < 2 ^ 31" using len sint_less [of "max_array_length (enc_cfg env)"] by simp
  note un = length_i32 [OF l31]
  have n: "\<not> no_builtin tid" using raw_type_plain [OF tid] by (simp add: plain_type_def)
  have rest': "stream_rest (stream_of b) = le_bytes 4 (unat (of_nat (length xs) :: i32)) @ m @ rest"
    using rest m(1) un by simp
  note int = int32_read [OF env lvl b rest', of n0]
  note split = stream_rest_split [OF b(1) rest']
  have cnt: "unat (of_nat (length xs * builtin_size tid) :: u32) = length m"
    using small m(2) by (subst unat_of_nat_u32) simp_all
  have mem: "SOPC_Buffer_Read (Some (replicate (length xs * builtin_size tid) 0)) (Some (buf_advance 4 b))
      (of_nat (length xs * builtin_size tid)) =
      Some (SOPC_STATUS_OK, Some m, Some (buf_advance (length m) (buf_advance 4 b)))"
    using reads_block [of "buf_advance 4 b" m rest] split cnt m(2) by simp
  have "length xs \<le> (2 ^ 32 - 1) div builtin_size tid"
    using small sz by (subst less_eq_div_iff_mult_less_eq) auto
  then show ?thesis
    using n tid sz lvl int mem un env len m
    by (auto simp: ReadVariantArrayBuiltInType.simps Read_Raw_Array_def raw_type_def buf_advance_advance)
qed

text \<open>
  The number of bytes is bounded when \<open>max_array_length\<close> is: the position of the buffer plus this number
  does not wrap around.
\<close>

definition raw_bounded :: "enc_env \<Rightarrow> bool" where
  "raw_bounded env \<longleftrightarrow> 8 * sint (max_array_length (enc_cfg env)) < 2 ^ 31"

definition array_read_ok ::
  "enc_env \<Rightarrow> ('a \<Rightarrow> bool) \<Rightarrow> i32 \<Rightarrow> 'a list option \<Rightarrow> bool" where
  "array_read_ok env Q n es \<longleftrightarrow>
     0 \<le> sint n \<and> int (length (elements es)) = sint n \<and>
     (0 < sint n \<longrightarrow> sint n \<le> sint (max_array_length (enc_cfg env))) \<and> (\<forall>e\<in>set (elements es). Q e)"

lemma raw_array_safe:
  assumes tid: "raw_type tid" and bound: "raw_bounded env" and b: "buf_wf b" "unat (buf_length b) \<le> 2 ^ 31"
  shows "\<exists>st n es b'. ReadVariantArrayBuiltInType X env (Some b) tid None n0 lvl = Some (st, n, es, Some b') \<and>
    buf_read_step b b' \<and> (st = SOPC_STATUS_OK \<longrightarrow> array_read_ok env (plain_of_type tid) n es)"
proof -
  note sz = raw_type_size [OF tid]
  have n: "\<not> no_builtin tid" using raw_type_plain [OF tid] by (simp add: plain_type_def)
  obtain st k b1 where 1: "SOPC_Int32_Read env (Some n0) (Some b) (lvl + 1) = Some (st, Some k, Some b1)"
    "buf_read_step b b1" "buf_wf b1" "unat (buf_length b1) \<le> 2 ^ 31"
    using safe_readE [OF int32_c.read_safe b] by metis
  define m where "m = (if sint k < 0 then 0 else k)"
  have m0: "0 \<le> sint m" by (simp add: m_def)
  have um: "0 < sint m \<Longrightarrow> int (unat m) = sint m" using sint_pos_unat [of m] by linarith
  let ?c = "unat m * builtin_size tid"
  show ?thesis
  proof (cases "lvl < max_level env \<and> st = SOPC_STATUS_OK \<and> 0 < sint m \<and>
      sint m \<le> sint (max_array_length (enc_cfg env)) \<and> unat m \<le> (2 ^ 32 - 1) div builtin_size tid \<and> mem_ok env ?c")
    case True
    have "0 < sint m" "sint m \<le> sint (max_array_length (enc_cfg env))" using True by simp_all
    then have "int (unat m) < 268435456" using um bound by (simp add: raw_bounded_def)
    then have "unat m < 268435456" by linarith
    moreover have "?c \<le> unat m * 8" using sz by simp
    ultimately have "?c < 2147483648" by linarith
    then have c: "?c < 2 ^ 31" by simp
    then have uc: "unat (of_nat ?c :: u32) = ?c" by (intro unat_of_nat_u32) simp
    obtain st2 d b2 where 2: "SOPC_Buffer_Read (Some (replicate ?c 0)) (Some b1) (of_nat ?c) =
        Some (st2, Some d, Some b2)" "buf_read_step b1 b2"
      using safe_block [OF 1(3,4), of "of_nat ?c" "replicate ?c 0"] c uc by (metis length_replicate order_refl)
    have "ReadVariantArrayBuiltInType X env (Some b) tid None n0 lvl =
        (if st2 \<noteq> SOPC_STATUS_OK then Some (SOPC_STATUS_ENCODING_ERROR, 0, None, Some b2)
         else Some (st2, m, Some (array_of_memory tid (unat m) d), Some b2))"
      using True n tid sz 1(1) 2(1)
      by (simp add: ReadVariantArrayBuiltInType.simps Read_Raw_Array_def raw_type_def m_def [symmetric] del: replicate.simps)
    then show ?thesis
      using buf_read_step_trans [OF 1(2) 2(2)] True um
      by (auto simp: array_read_ok_def intro: array_of_memory_types [OF tid])
  next
    case False
    then have "\<exists>st n. ReadVariantArrayBuiltInType X env (Some b) tid None n0 lvl = Some (st, n, None, Some b1) \<and>
        (st = SOPC_STATUS_OK \<longrightarrow> sint n = 0)" if "lvl < max_level env"
      using that n tid sz 1(1) m0
      by (cases "st = SOPC_STATUS_OK"; cases "sint k < 0")
        (auto simp: ReadVariantArrayBuiltInType.simps Read_Raw_Array_def raw_type_def m_def Let_def)
    moreover have "ReadVariantArrayBuiltInType X env (Some b) tid None n0 lvl =
        Some (SOPC_STATUS_INVALID_STATE, n0, None, Some b)" if "\<not> lvl < max_level env"
      using that by (simp add: ReadVariantArrayBuiltInType.simps)
    ultimately show ?thesis
      using 1(2) buf_read_step_refl [OF b(1)] by (cases "lvl < max_level env") (fastforce simp: array_read_ok_def)+
  qed
qed

section \<open>Dimensions\<close>

definition dims_product :: "i32 list \<Rightarrow> int" where
  "dims_product ds = prod_list (map sint ds)"

definition dims_length :: "i32 list \<Rightarrow> int" where
  "dims_length ds = (if ds = [] then 0 else dims_product ds)"

abbreviation dims_positive :: "i32 list \<Rightarrow> bool" where
  "dims_positive ds \<equiv> \<forall>d\<in>set ds. 0 < sint d"

lemma dims_product_simps [simp]: "dims_product [] = 1" "dims_product (d # ds) = sint d * dims_product ds"
  by (simp_all add: dims_product_def)

lemma dims_product_pos: "dims_positive ds \<Longrightarrow> 1 \<le> dims_product ds"
proof (induction ds)
  case (Cons d ds)
  then have "1 * 1 \<le> sint d * dims_product ds" by (intro mult_mono) simp_all
  then show ?case by simp
qed simp

definition enc_dims :: "i32 list \<Rightarrow> byte list" where
  "enc_dims ds = concat (map (\<lambda>d. le_bytes 4 (unat d)) ds)"

lemma length_enc_dims [simp]: "length (enc_dims ds) = 4 * length ds"
  by (induction ds) (simp_all add: enc_dims_def)

lemma enc_dims_simps [simp]: "enc_dims [] = []" "enc_dims (d # ds) = le_bytes 4 (unat d) @ enc_dims ds"
  by (simp_all add: enc_dims_def)

lemma dims_step:
  assumes "dims_positive (d # ds)" "0 < len" "len * dims_product (d # ds) \<le> bound"
  shows "len * sint d \<le> bound"
proof -
  have "len * sint d * 1 \<le> len * sint d * dims_product ds"
    using dims_product_pos assms by (intro mult_left_mono) simp_all
  with assms(3) show ?thesis by (simp add: mult.assoc)
qed

lemma writes_skip: "writes_upto errs (\<lambda>b. Some (SOPC_STATUS_OK, b)) []"
  by (intro writes_uptoI) (auto elim!: buf_wfE simp: not_less)

lemma Matrix_Length_law:
  assumes "dims_positive ds" "0 < len" "len * dims_product ds \<le> 2 ^ 31 - 1"
  shows "Matrix_Length (length ds) ds len = Some (False, len * dims_product ds)"
  using assms
proof (induction ds arbitrary: len)
  case (Cons d ds)
  then show ?case using dims_step [OF Cons.prems] by (simp add: mult.assoc)
qed simp

text \<open>The loop that writes the dimensions fails at the last one if it fails at all: nothing fits any more.\<close>

lemma int32_write_full:
  assumes "lvl < max_level env" "buf_wf b" "unat (maximum_size b) \<le> 2 ^ 31" "unat (maximum_size b) < unat (position b) + 4"
  shows "SOPC_Int32_Write env (Some v) (Some b) lvl = Some (SOPC_STATUS_WOULD_BLOCK, Some b)"
proof -
  have "unat (position b) + 4 < 2 ^ 32" using assms(2,3) by (auto elim!: buf_wfE)
  then have "SOPC_Buffer_Write env (Some b) (Some src) 4 = Some (SOPC_STATUS_OUT_OF_MEMORY, Some b)" for src
    using SOPC_Buffer_Write_full [OF assms(2), of 4 env src] assms(4) by simp
  then show ?thesis using assms(1) by (simp add: SOPC_Int32_Write_def write_word_def write_status_def)
qed

lemma Write_Dimensions_full:
  assumes env: "mem_total env" and lvl: "lvl < max_level env"
  shows "ds \<noteq> [] \<Longrightarrow> buf_wf b \<Longrightarrow> unat (maximum_size b) \<le> 2 ^ 31 \<Longrightarrow>
    unat (maximum_size b) < unat (position b) + 4 * length ds \<Longrightarrow>
    \<exists>b'. Write_Dimensions env (length ds) ds st (Some b) lvl = Some (SOPC_STATUS_WOULD_BLOCK, Some b') \<and>
      buf_wf b' \<and> maximum_size b' = maximum_size b"
proof (induction ds arbitrary: b st)
  case (Cons d ds)
  show ?case
  proof (cases "unat (position b) + 4 \<le> unat (maximum_size b)")
    case True
    then obtain b1 where b1: "SOPC_Int32_Write env (Some d) (Some b) lvl = Some (SOPC_STATUS_OK, Some b1)" "buf_wf b1"
      "maximum_size b1 = maximum_size b" "unat (position b1) = unat (position b) + 4"
      using writes_ok [OF int32_writes [OF env lvl, of d] Cons.prems(2,3)] by auto
    moreover have "ds \<noteq> []" using True Cons.prems(4) by auto
    ultimately show ?thesis using Cons.IH [of b1] Cons.prems by simp
  next
    case False
    then have "SOPC_Int32_Write env (Some d) (Some b) lvl = Some (SOPC_STATUS_WOULD_BLOCK, Some b)"
      using int32_write_full [OF lvl Cons.prems(2,3)] by simp
    moreover have "unat (maximum_size b) < unat (position b) + 4 * length ds" if "ds \<noteq> []"
      using that False by (cases ds) simp_all
    ultimately show ?thesis using Cons.IH [of b] Cons.prems by (cases "ds = []") simp_all
  qed
qed simp

lemma Write_Dimensions_writes:
  assumes env: "mem_total env" and lvl: "lvl < max_level env"
  shows "writes_upto variant_statuses (\<lambda>b. Write_Dimensions env (length ds) ds SOPC_STATUS_OK b lvl) (enc_dims ds)"
proof (rule writes_uptoI)
  fix b assume "buf_wf b" "unat (maximum_size b) \<le> 2 ^ 31" "unat (position b) + length (enc_dims ds) \<le> unat (maximum_size b)"
  then show "\<exists>b'. Write_Dimensions env (length ds) ds SOPC_STATUS_OK (Some b) lvl = Some (SOPC_STATUS_OK, Some b') \<and>
      buf_wf b' \<and> stream_of b' = stream_put (enc_dims ds) (stream_of b)"
  proof (induction ds arbitrary: b)
    case Nil
    then show ?case using writes_ok [OF writes_skip, of b] by auto
  next
    case (Cons d ds)
    then obtain b1 where b1: "SOPC_Int32_Write env (Some d) (Some b) lvl = Some (SOPC_STATUS_OK, Some b1)" "buf_wf b1"
      "stream_of b1 = stream_put (le_bytes 4 (unat d)) (stream_of b)"
      "maximum_size b1 = maximum_size b" "unat (position b1) = unat (position b) + 4"
      using writes_ok [OF int32_writes [OF env lvl, of d] Cons.prems(1,2)] by auto
    have "unat (position b) \<le> length (buf_bytes b)"
      using Cons.prems(1) by (simp add: length_buf_bytes) (auto elim!: buf_wfE)
    with b1 Cons.IH [of b1] Cons.prems show ?case by (auto simp: stream_put_append)
  qed
next
  fix b assume "buf_wf b" "unat (maximum_size b) \<le> 2 ^ 31" "unat (maximum_size b) < unat (position b) + length (enc_dims ds)"
  moreover from this have "ds \<noteq> []" by (auto elim!: buf_wfE)
  ultimately show "\<exists>st b'. Write_Dimensions env (length ds) ds SOPC_STATUS_OK (Some b) lvl = Some (st, Some b') \<and>
      st \<in> variant_statuses - {SOPC_STATUS_OK} \<and> buf_wf b' \<and> maximum_size b' = maximum_size b"
    using Write_Dimensions_full [OF env lvl, of ds b SOPC_STATUS_OK] by auto
qed

lemma Read_Dimensions_law:
  assumes env: "mem_total env" and lvl: "lvl < max_level env"
  shows "dims_positive ds \<Longrightarrow> 0 < len \<Longrightarrow> len * dims_product ds \<le> sint al \<Longrightarrow> buf_wf b \<Longrightarrow> unat (buf_length b) \<le> 2 ^ 31 \<Longrightarrow>
    stream_rest (stream_of b) = enc_dims ds @ rest \<Longrightarrow>
    Read_Dimensions env al (length ds) len (Some b) lvl =
      Some (SOPC_STATUS_OK, ds, len * dims_product ds, Some (buf_advance (4 * length ds) b))"
proof (induction ds arbitrary: b len)
  case (Cons d ds)
  then have r: "stream_rest (stream_of b) = le_bytes 4 (unat d) @ enc_dims ds @ rest" by simp
  have "Read_Dimensions env al (length ds) (len * sint d) (Some (buf_advance 4 b)) lvl =
      Some (SOPC_STATUS_OK, ds, len * sint d * dims_product ds, Some (buf_advance (4 * length ds) (buf_advance 4 b)))"
    using Cons.IH [of "len * sint d" "buf_advance 4 b"] Cons.prems stream_rest_split [OF Cons.prems(4) r]
    by (simp add: mult.assoc)
  then show ?case
    using int32_read [OF env lvl Cons.prems(4,5) r, of 0] Cons.prems dims_step [OF Cons.prems(1-3)]
    by (simp add: buf_advance_advance mult.assoc)
qed simp

lemma Read_Dimensions_safe:
  assumes "buf_wf b" "unat (buf_length b) \<le> 2 ^ 31"
  shows "\<exists>st ds len' b'. Read_Dimensions env al n len (Some b) lvl = Some (st, ds, len', Some b') \<and>
    buf_read_step b b' \<and>
    (st = SOPC_STATUS_OK \<longrightarrow> length ds = n \<and> dims_positive ds \<and> len' = len * dims_product ds)"
  using assms
proof (induction n arbitrary: b len)
  case 0
  then show ?case by (simp add: buf_read_step_refl)
next
  case (Suc n)
  obtain st d b1 where 1: "SOPC_Int32_Read env (Some 0) (Some b) lvl = Some (st, Some d, Some b1)"
    "buf_read_step b b1" "buf_wf b1" "unat (buf_length b1) \<le> 2 ^ 31"
    using safe_readE [OF int32_c.read_safe Suc.prems] by metis
  obtain st2 ds len' b2 where 2: "Read_Dimensions env al n (len * sint d) (Some b1) lvl = Some (st2, ds, len', Some b2)"
    "buf_read_step b1 b2" "st2 = SOPC_STATUS_OK \<longrightarrow> length ds = n \<and> dims_positive ds \<and> len' = len * sint d * dims_product ds"
    using Suc.IH [OF 1(3,4), of "len * sint d"] by blast
  show ?case using 1(1,2) 2 buf_read_step_trans [OF 1(2) 2(2)] by (auto simp: mult.assoc)
qed

text \<open>The dimensions of a matrix whose array has been read.\<close>

definition dims_ok :: "enc_env \<Rightarrow> i32 list \<Rightarrow> int \<Rightarrow> bool" where
  "dims_ok env ds len \<longleftrightarrow>
     dims_positive ds \<and> dims_length ds = len \<and> int (length ds) \<le> sint (max_array_length (enc_cfg env)) \<and>
     length ds \<le> size_max env div 4"

lemma Read_Matrix_Dimensions_law:
  assumes env: "mem_total env" and lvl: "lvl < max_level env" and ds: "dims_ok env ds (sint al)" "0 \<le> sint al"
    and b: "buf_wf b" "unat (buf_length b) \<le> 2 ^ 31"
    and rest: "stream_rest (stream_of b) = (le_bytes 4 (length ds) @ enc_dims ds) @ rest"
  shows "Read_Matrix_Dimensions env SOPC_STATUS_OK al es (Some b) lvl =
    Some (SOPC_STATUS_OK, Value_Matrix (of_nat (length ds)) (Some ds) es, Some (buf_advance (4 + 4 * length ds) b))"
proof -
  have d: "dims_positive ds" "dims_length ds = sint al" "int (length ds) \<le> sint (max_array_length (enc_cfg env))"
    "length ds \<le> size_max env div 4"
    using ds(1) by (simp_all add: dims_ok_def)
  have l31: "length ds < 2 ^ 31" using d(3) sint_less [of "max_array_length (enc_cfg env)"] by simp
  note un = length_i32 [OF l31]
  have rest': "stream_rest (stream_of b) = le_bytes 4 (unat (of_nat (length ds) :: i32)) @ enc_dims ds @ rest"
    using rest un by simp
  note split = stream_rest_split [OF b(1) rest']
  have n0: "(of_nat (length ds) :: i32) = 0 \<longleftrightarrow> ds = []"
    using un(1) unat_eq_zero [of "of_nat (length ds) :: i32"] by simp
  have "Read_Dimensions env al (length ds) (if ds = [] then 0 else 1) (Some (buf_advance 4 b)) lvl =
      Some (SOPC_STATUS_OK, ds, dims_length ds, Some (buf_advance (4 * length ds) (buf_advance 4 b)))"
    using Read_Dimensions_law [OF env lvl d(1), of 1 al "buf_advance 4 b" rest] split b(2) d(2)
    by (cases "ds = []") (simp_all add: dims_length_def)
  then show ?thesis
    using int32_read [OF env lvl b rest', of 0] d un n0 env ds(2)
    by (simp add: Read_Matrix_Dimensions_def buf_advance_advance)
qed

lemma Read_Matrix_Dimensions_safe:
  assumes b: "buf_wf b" "unat (buf_length b) \<le> 2 ^ 31"
  shows "\<exists>st val b'. Read_Matrix_Dimensions env st0 al es (Some b) lvl = Some (st, val, Some b') \<and>
    buf_read_step b b' \<and>
    (st = SOPC_STATUS_OK \<longrightarrow> st0 = SOPC_STATUS_OK \<and>
      (\<exists>n ds. val = Value_Matrix n (Some ds) es \<and> int (length ds) = sint n \<and> dims_ok env ds (sint al)))"
proof (cases "st0 = SOPC_STATUS_OK \<and> 0 \<le> sint al")
  case False
  then show ?thesis
    using buf_read_step_refl [OF b(1)] by (auto simp: Read_Matrix_Dimensions_def Let_def)
next
  case True
  obtain st n b1 where 1: "SOPC_Int32_Read env (Some 0) (Some b) lvl = Some (st, Some n, Some b1)"
    "buf_read_step b b1" "buf_wf b1" "unat (buf_length b1) \<le> 2 ^ 31"
    using safe_readE [OF int32_c.read_safe b] by metis
  obtain st2 ds len b2 where 2: "Read_Dimensions env al (unat n) (if n = 0 then 0 else 1) (Some b1) lvl =
      Some (st2, ds, len, Some b2)" "buf_read_step b1 b2"
    "st2 = SOPC_STATUS_OK \<Longrightarrow> length ds = unat n \<and> dims_positive ds \<and> len = (if n = 0 then 0 else 1) * dims_product ds"
    using Read_Dimensions_safe [OF 1(3,4), of env al "unat n" "if n = 0 then 0 else 1" lvl] by blast
  show ?thesis
  proof (cases "st = SOPC_STATUS_OK \<and> 0 \<le> sint n \<and> sint n \<le> sint (max_array_length (enc_cfg env)) \<and>
      unat n \<le> size_max env div 4 \<and> mem_ok env (4 * unat n)")
    case False
    then show ?thesis
      using True 1 by (auto simp: Read_Matrix_Dimensions_def Let_def)
  next
    case ok: True
    have un: "int (unat n) = sint n"
      using ok by (intro sint_nonneg_unat) simp
    have "dims_ok env ds (sint al)" if "st2 = SOPC_STATUS_OK" "len = sint al"
    proof -
      have "length ds = unat n" "dims_positive ds" "len = (if n = 0 then 0 else 1) * dims_product ds"
        using 2(3) that by simp_all
      moreover from this have "n = 0 \<longleftrightarrow> ds = []" by (metis length_0_conv unat_eq_zero)
      ultimately show ?thesis using ok un that by (auto simp: dims_ok_def dims_length_def)
    qed
    moreover have "Read_Matrix_Dimensions env st0 al es (Some b) lvl =
        (if st2 = SOPC_STATUS_OK \<and> len = sint al then Some (SOPC_STATUS_OK, Value_Matrix n (Some ds) es, Some b2)
         else Some (if 0 < sint al \<and> \<not> mem_ok env 4 then SOPC_STATUS_OUT_OF_MEMORY
                    else if st2 = SOPC_STATUS_OK then SOPC_STATUS_ENCODING_ERROR else st2, Value_Zero, Some b2))"
      using True ok 1(1) 2(1) by (simp add: Read_Matrix_Dimensions_def Let_def)
    ultimately show ?thesis
      using True 2(3) un buf_read_step_trans [OF 1(2) 2(2)] by auto
  qed
qed

end
