(* ===== verification/Variant_Laws.thy ===== *)
theory Variant_Laws
  imports Variant_Array_Laws
begin

unbundle bit_operations_syntax

text \<open>
  The encoding of variants and data values as functions on values, the values that can be decoded under
  the configured limits, what they are decoded to, and the number of structure levels they need; and
  the proof that the writers and readers implement it.
\<close>

section \<open>Specification\<close>

text \<open>The recursion through the elements of an array.\<close>

lemma size_elements [termination_simp]:
  "x \<in> set (elements es) \<Longrightarrow> size x < Suc (size_option (size_list size) es)"
  using size_list_estimation' [of x "elements es" "size x" size] by (cases es) simp_all

lemma elements_cong [fundef_cong]:
  "es = es' \<Longrightarrow> (\<And>x. x \<in> set (elements es') \<Longrightarrow> f x = g x) \<Longrightarrow> map f (elements es) = map g (elements es')"
  by simp

fun enc_builtin :: "'x ext_spec \<Rightarrow> enc_env \<Rightarrow> 'x SOPC_BuiltinValue \<Rightarrow> byte list"
and enc_value :: "'x ext_spec \<Rightarrow> enc_env \<Rightarrow> SOPC_BuiltinId \<Rightarrow> 'x SOPC_VariantValue \<Rightarrow> byte list"
and enc_variant :: "'x ext_spec \<Rightarrow> enc_env \<Rightarrow> 'x SOPC_Variant \<Rightarrow> byte list"
and enc_datavalue :: "'x ext_spec \<Rightarrow> enc_env \<Rightarrow> 'x SOPC_DataValue \<Rightarrow> byte list" where
  "enc_builtin S env (Plain_v v) = enc_plain S env v"
| "enc_builtin S env (DataValue_v d) = enc_datavalue S env d"
| "enc_builtin S env (Variant_v v) = enc_variant S env v"
| "enc_value S env tid Value_Zero = []"
| "enc_value S env tid (Value_Single x) = enc_builtin S env x"
| "enc_value S env tid (Value_Array n es) =
     le_bytes 4 (length (elements es)) @
     (if raw_type tid then elements (array_memory (elements es)) else concat (map (enc_builtin S env) (elements es)))"
| "enc_value S env tid (Value_Matrix n ds es) =
     (le_bytes 4 (length (elements es)) @
      (if raw_type tid then elements (array_memory (elements es)) else concat (map (enc_builtin S env) (elements es)))) @
     le_bytes 4 (length (elements ds)) @ enc_dims (elements ds)"
| "enc_variant S env (Variant dnc tid arrayType val) =
     le_bytes 1 (unat (GetVariantEncodingMask (Variant dnc tid arrayType val))) @
     (if tid = SOPC_Null_Id then [] else enc_value S env tid val)"
| "enc_datavalue S env (DataValue v s t1 t2 p1 p2) =
     (((((le_bytes 1 (unat (GetDataValueEncodingMask (DataValue v s t1 t2 p1 p2))) @
          (if \<not> no_builtin (V_BuiltInTypeId v) then enc_variant S env v else [])) @
         (if s \<noteq> 0 then le_bytes 4 (unat s) else [])) @
        (if 0 < sint t1 then le_bytes 8 (unat t1) else [])) @
       (if 0 < p1 then le_bytes 2 (unat p1) else [])) @
      (if 0 < sint t2 then le_bytes 8 (unat t2) else [])) @
     (if 0 < p2 then le_bytes 2 (unat p2) else [])"

text \<open>The values that are decoded from their encoding.\<close>

definition array_ok :: "enc_env \<Rightarrow> SOPC_BuiltinId \<Rightarrow> nat \<Rightarrow> bool" where
  "array_ok env tid n \<longleftrightarrow>
     \<not> no_builtin tid \<and> int n \<le> sint (max_array_length (enc_cfg env)) \<and> n \<le> size_max env div builtin_size tid \<and>
     (raw_type tid \<longrightarrow> n * builtin_size tid < 2 ^ 31)"

fun builtin_ok :: "'x ext_spec \<Rightarrow> enc_env \<Rightarrow> SOPC_BuiltinId \<Rightarrow> 'x SOPC_BuiltinValue \<Rightarrow> bool"
and value_ok :: "'x ext_spec \<Rightarrow> enc_env \<Rightarrow> SOPC_BuiltinId \<Rightarrow> SOPC_VariantArrayType \<Rightarrow> 'x SOPC_VariantValue \<Rightarrow> bool"
and variant_ok :: "'x ext_spec \<Rightarrow> enc_env \<Rightarrow> 'x SOPC_Variant \<Rightarrow> bool"
and datavalue_ok :: "'x ext_spec \<Rightarrow> enc_env \<Rightarrow> 'x SOPC_DataValue \<Rightarrow> bool" where
  "builtin_ok S env tid (Plain_v v) \<longleftrightarrow> plain_type tid \<and> plain_ok S env v \<and> plain_tid v = tid"
| "builtin_ok S env tid (DataValue_v d) \<longleftrightarrow> tid = SOPC_DataValue_Id \<and> datavalue_ok S env d"
| "builtin_ok S env tid (Variant_v v) \<longleftrightarrow> tid = SOPC_Variant_Id \<and> variant_ok S env v"
| "value_ok S env tid arrayType Value_Zero \<longleftrightarrow> False"
| "value_ok S env tid arrayType (Value_Single x) \<longleftrightarrow>
     arrayType = SOPC_VariantArrayType_SingleValue \<and> tid \<noteq> SOPC_Variant_Id \<and> builtin_ok S env tid x"
| "value_ok S env tid arrayType (Value_Array n es) \<longleftrightarrow>
     arrayType = SOPC_VariantArrayType_Array \<and> array_ok env tid (length (elements es)) \<and>
     (n = of_nat (length (elements es)) \<or> n = -1 \<and> elements es = []) \<and>
     (\<forall>x\<in>set (elements es). builtin_ok S env tid x)"
| "value_ok S env tid arrayType (Value_Matrix n ds es) \<longleftrightarrow>
     arrayType = SOPC_VariantArrayType_Matrix \<and> array_ok env tid (length (elements es)) \<and>
     n = of_nat (length (elements ds)) \<and> dims_ok env (elements ds) (int (length (elements es))) \<and>
     (\<forall>x\<in>set (elements es). builtin_ok S env tid x)"
| "variant_ok S env (Variant dnc tid arrayType val) \<longleftrightarrow>
     tid = SOPC_Null_Id \<and> arrayType = SOPC_VariantArrayType_SingleValue \<or>
     \<not> no_builtin tid \<and> value_ok S env tid arrayType val"
| "datavalue_ok S env (DataValue v s t1 t2 p1 p2) \<longleftrightarrow> no_builtin (V_BuiltInTypeId v) \<or> variant_ok S env v"

text \<open>
  What they are decoded to: the elements of an array that is copied are not normalised, an empty array
  has no elements to point to, dates before the epoch of OPC UA are lost.
\<close>

definition some_elements :: "'a list \<Rightarrow> 'a list option" where
  "some_elements xs = (if xs = [] then None else Some xs)"

fun dec_builtin :: "'x ext_spec \<Rightarrow> enc_env \<Rightarrow> 'x SOPC_BuiltinValue \<Rightarrow> 'x SOPC_BuiltinValue"
and dec_value :: "'x ext_spec \<Rightarrow> enc_env \<Rightarrow> SOPC_BuiltinId \<Rightarrow> 'x SOPC_VariantValue \<Rightarrow> 'x SOPC_VariantValue"
and dec_variant :: "'x ext_spec \<Rightarrow> enc_env \<Rightarrow> 'x SOPC_Variant \<Rightarrow> 'x SOPC_Variant"
and dec_datavalue :: "'x ext_spec \<Rightarrow> enc_env \<Rightarrow> 'x SOPC_DataValue \<Rightarrow> 'x SOPC_DataValue" where
  "dec_builtin S env (Plain_v v) = Plain_v (dec_plain S env v)"
| "dec_builtin S env (DataValue_v d) = DataValue_v (dec_datavalue S env d)"
| "dec_builtin S env (Variant_v v) = Variant_v (dec_variant S env v)"
| "dec_value S env tid Value_Zero = Value_Zero"
| "dec_value S env tid (Value_Single x) = Value_Single (dec_builtin S env x)"
| "dec_value S env tid (Value_Array n es) =
     Value_Array (of_nat (length (elements es)))
       (some_elements (if raw_type tid then elements es else map (dec_builtin S env) (elements es)))"
| "dec_value S env tid (Value_Matrix n ds es) =
     Value_Matrix n (Some (elements ds))
       (some_elements (if raw_type tid then elements es else map (dec_builtin S env) (elements es)))"
| "dec_variant S env (Variant dnc tid arrayType val) =
     Variant False tid arrayType (if tid = SOPC_Null_Id then Value_Zero else dec_value S env tid val)"
| "dec_datavalue S env (DataValue v s t1 t2 p1 p2) =
     DataValue (if no_builtin (V_BuiltInTypeId v) then variant_init else dec_variant S env v) s
       (if 0 < sint t1 then t1 else 0) (if 0 < sint t2 then t2 else 0) p1 p2"

text \<open>The structure levels that are needed.\<close>

fun need_builtin :: "'x ext_spec \<Rightarrow> 'x SOPC_BuiltinValue \<Rightarrow> nat"
and need_value :: "'x ext_spec \<Rightarrow> 'x SOPC_VariantValue \<Rightarrow> nat"
and need_variant :: "'x ext_spec \<Rightarrow> 'x SOPC_Variant \<Rightarrow> nat"
and need_datavalue :: "'x ext_spec \<Rightarrow> 'x SOPC_DataValue \<Rightarrow> nat" where
  "need_builtin S (Plain_v v) = plain_depth S (plain_tid v)"
| "need_builtin S (DataValue_v d) = need_datavalue S d"
| "need_builtin S (Variant_v v) = need_variant S v"
| "need_value S Value_Zero = 1"
| "need_value S (Value_Single x) = need_builtin S x"
| "need_value S (Value_Array n es) = 1 + foldr max (map (need_builtin S) (elements es)) 1"
| "need_value S (Value_Matrix n ds es) = 1 + foldr max (map (need_builtin S) (elements es)) 1"
| "need_variant S (Variant dnc tid arrayType val) = 1 + (if tid = SOPC_Null_Id then 1 else need_value S val)"
| "need_datavalue S (DataValue v s t1 t2 p1 p2) =
     1 + max 2 (if no_builtin (V_BuiltInTypeId v) then 0 else need_variant S v)"

section \<open>Encoding bytes\<close>

definition known_type :: "SOPC_BuiltinId \<Rightarrow> bool" where
  "known_type tid \<longleftrightarrow> tid = SOPC_Null_Id \<or> \<not> no_builtin tid"

lemma no_builtin_null [simp]: "no_builtin SOPC_Null_Id"
  by (simp add: no_builtin_def)

lemma variant_mask:
  assumes "known_type tid"
  shows "builtin_of_byte (0x3F AND GetVariantEncodingMask (Variant dnc tid arrayType val)) = tid"
    "GetVariantEncodingMask (Variant dnc tid arrayType val) AND SOPC_VariantArrayValueFlag \<noteq> 0 \<longleftrightarrow>
      arrayType \<noteq> SOPC_VariantArrayType_SingleValue"
    "GetVariantEncodingMask (Variant dnc tid arrayType val) AND SOPC_VariantArrayDimensionsFlag \<noteq> 0 \<longleftrightarrow>
      arrayType = SOPC_VariantArrayType_Matrix"
  using assms
  by (cases tid; cases arrayType; simp add: known_type_def no_builtin_def GetVariantEncodingMask_def
      byte_of_builtin_def builtin_of_byte_def builtin_ids_def SOPC_VariantArrayValueFlag_def
      SOPC_VariantArrayDimensionsFlag_def)+

lemmas DataValue_flag_defs =
  SOPC_DataValue_NotNullValue_def SOPC_DataValue_NotGoodStatusCode_def SOPC_DataValue_NotMinSourceDate_def
  SOPC_DataValue_NotMinServerDate_def SOPC_DataValue_NotZeroSourcePico_def SOPC_DataValue_NotZeroServerPico_def

lemma datavalue_mask:
  "GetDataValueEncodingMask d AND SOPC_DataValue_NotNullValue \<noteq> 0 \<longleftrightarrow> \<not> no_builtin (V_BuiltInTypeId (DV_Value d))"
  "GetDataValueEncodingMask d AND SOPC_DataValue_NotGoodStatusCode \<noteq> 0 \<longleftrightarrow> DV_Status d \<noteq> 0"
  "GetDataValueEncodingMask d AND SOPC_DataValue_NotMinSourceDate \<noteq> 0 \<longleftrightarrow> 0 < sint (DV_SourceTimestamp d)"
  "GetDataValueEncodingMask d AND SOPC_DataValue_NotZeroSourcePico \<noteq> 0 \<longleftrightarrow> 0 < DV_SourcePicoSeconds d"
  "GetDataValueEncodingMask d AND SOPC_DataValue_NotMinServerDate \<noteq> 0 \<longleftrightarrow> 0 < sint (DV_ServerTimestamp d)"
  "GetDataValueEncodingMask d AND SOPC_DataValue_NotZeroServerPico \<noteq> 0 \<longleftrightarrow> 0 < DV_ServerPicoSeconds d"
  by (simp_all add: GetDataValueEncodingMask_def DataValue_flag_defs Let_def bit.conj_disj_distrib2)

section \<open>Arrays\<close>

text \<open>The law of one value: it is written, and read back, wherever there are enough structure levels.\<close>

definition builtin_law ::
  "'x ext_ops \<Rightarrow> 'x ext_spec \<Rightarrow> enc_env \<Rightarrow> SOPC_BuiltinId \<Rightarrow> 'x SOPC_BuiltinValue \<Rightarrow> bool" where
  "builtin_law X S env tid x \<longleftrightarrow>
     (\<forall>lvl. lvl + need_builtin S x \<le> max_level env \<longrightarrow>
        writes_upto variant_statuses (\<lambda>b. builtin_encode X env tid (Some x) b lvl) (enc_builtin S env x) \<and>
        reads (\<lambda>(p, b). builtin_decode X env tid p b lvl) (builtin_init X tid) (dec_builtin S env x)
          (enc_builtin S env x))"

abbreviation levels :: "'x ext_spec \<Rightarrow> 'x SOPC_BuiltinValue list \<Rightarrow> nat" where
  "levels S xs \<equiv> foldr max (map (need_builtin S) xs) 1"

lemma levels_pos: "0 < levels S xs"
  by (induction xs) auto

lemma levels_le: "x \<in> set xs \<Longrightarrow> need_builtin S x \<le> levels S xs"
  by (induction xs) auto

lemma elements_codec:
  assumes "\<forall>x\<in>set xs. builtin_law X S env tid x"
  shows "codec_core (\<lambda>e. builtin_encode X e tid) (\<lambda>e. builtin_decode X e tid) (enc_builtin S)
    (\<lambda>e x. e = env \<and> x \<in> set xs) (builtin_init X tid) (dec_builtin S) (levels S xs) variant_statuses"
proof
  fix e x lvl
  assume x: "e = env \<and> x \<in> set xs" and lvl: "lvl + levels S xs \<le> max_level e"
  have "lvl + need_builtin S x \<le> max_level env" using levels_le [of x xs S] x lvl by simp
  with assms x show "writes_upto variant_statuses (\<lambda>b. builtin_encode X e tid (Some x) b lvl) (enc_builtin S e x)"
    "reads (\<lambda>(p, b). builtin_decode X e tid p b lvl) (builtin_init X tid) (dec_builtin S e x) (enc_builtin S e x)"
    by (auto simp: builtin_law_def)
qed (use levels_pos in auto)

definition enc_elements :: "'x ext_spec \<Rightarrow> enc_env \<Rightarrow> SOPC_BuiltinId \<Rightarrow> 'x SOPC_BuiltinValue list \<Rightarrow> byte list" where
  "enc_elements S env tid xs =
     (if raw_type tid then elements (array_memory xs) else concat (map (enc_builtin S env) xs))"

definition dec_elements ::
  "'x ext_spec \<Rightarrow> enc_env \<Rightarrow> SOPC_BuiltinId \<Rightarrow> 'x SOPC_BuiltinValue list \<Rightarrow> 'x SOPC_BuiltinValue list" where
  "dec_elements S env tid xs = (if raw_type tid then xs else map (dec_builtin S env) xs)"

lemma builtin_ok_raw: "raw_type tid \<Longrightarrow> builtin_ok S env tid x \<Longrightarrow> plain_of_type tid x"
  by (cases x) (auto simp: plain_of_type_def dest: raw_type_plain simp: plain_type_def)

lemma array_writes:
  assumes env: "mem_total env" and lvl: "lvl + 1 + levels S xs \<le> max_level env"
    and ok: "array_ok env tid (length xs)" and xs: "\<forall>x\<in>set xs. builtin_ok S env tid x"
    and law: "\<forall>x\<in>set xs. builtin_law X S env tid x" and arr: "elements arr = xs"
  shows "writes_upto variant_statuses
    (\<lambda>b. WriteVariantArrayBuiltInType X env b tid arr (of_nat (length xs)) lvl)
    (le_bytes 4 (length xs) @ enc_elements S env tid xs)"
proof (cases "raw_type tid")
  case True
  then have "\<forall>x\<in>set xs. plain_of_type tid x" using xs builtin_ok_raw by blast
  with True show ?thesis
    using raw_array_writes [OF env _ True _ _ arr, of lvl X] ok lvl levels_pos [of S xs]
    by (simp add: enc_elements_def array_ok_def)
next
  case False
  have len: "length xs < 2 ^ 31" using ok sint_less [of "max_array_length (enc_cfg env)"] by (simp add: array_ok_def)
  have l: "lvl < max_level env" using lvl by linarith
  have w: "writes_upto variant_statuses
      (\<lambda>b. SOPC_Write_Array env b (Some (of_nat (length xs))) (Some (Some xs)) (Some (builtin_encode X env tid)) lvl)
      (le_bytes 4 (length xs) @ concat (map (enc_builtin S env) xs))"
    using codec_core.write_array_law [OF elements_codec [OF law] env _ _ len, of lvl] lvl by simp
  have eq: "WriteVariantArrayBuiltInType X env b tid arr (of_nat (length xs)) lvl =
      SOPC_Write_Array env b (Some (of_nat (length xs))) (Some (Some xs)) (Some (builtin_encode X env tid)) lvl" for b
  proof (cases arr)
    case None
    then have "xs = []" using arr by simp
    with None l ok False show ?thesis
      by (simp add: WriteVariantArrayBuiltInType.simps raw_type_def array_ok_def SOPC_Write_Array_with_def
          SOPC_Write_Array_def and_when_def enc_guard_def)
  next
    case (Some ys)
    with l ok False arr show ?thesis
      by (simp add: WriteVariantArrayBuiltInType.simps raw_type_def array_ok_def SOPC_Write_Array_with_def)
  qed
  show ?thesis using w False by (simp add: eq enc_elements_def)
qed

lemma builtin_size_pos: "\<not> no_builtin tid \<Longrightarrow> 0 < builtin_size tid"
  by (cases tid) (simp_all add: no_builtin_def builtin_size_def sizeof_SOPC_DiagnosticInfo_def)

lemma array_reads:
  assumes env: "mem_total env" and lvl: "lvl + 1 + levels S xs \<le> max_level env"
    and ok: "array_ok env tid (length xs)" and xs: "\<forall>x\<in>set xs. builtin_ok S env tid x"
    and law: "\<forall>x\<in>set xs. builtin_law X S env tid x"
    and b: "buf_wf b" "unat (buf_length b) \<le> 2 ^ 31"
    and rest: "stream_rest (stream_of b) = (le_bytes 4 (length xs) @ enc_elements S env tid xs) @ rest"
  shows "ReadVariantArrayBuiltInType X env (Some b) tid None n0 lvl =
    Some (SOPC_STATUS_OK, of_nat (length xs), some_elements (dec_elements S env tid xs),
      Some (buf_advance (4 + length (enc_elements S env tid xs)) b))"
proof (cases "raw_type tid")
  case True
  then have "\<forall>x\<in>set xs. plain_of_type tid x" using xs builtin_ok_raw by blast
  with True show ?thesis
    using raw_array_reads [OF env _ True _ _ _ b, of lvl xs rest X n0] ok lvl levels_pos [of S xs] rest
    by (auto simp: enc_elements_def array_ok_def dec_elements_def some_elements_def)
next
  case False
  have l: "lvl < max_level env" using lvl by linarith
  have "SOPC_Read_Array env (Some b) (Some n0) (Some None) (builtin_size tid) (Some (builtin_decode X env tid))
      (\<lambda>_. builtin_init X tid) (builtin_init X tid) lvl =
      Some (SOPC_STATUS_OK, Some (of_nat (length xs)), Some (if xs = [] then None else Some (map (dec_builtin S env) xs)),
        Some (buf_advance (4 + length (concat (map (enc_builtin S env) xs))) b))"
    by (rule codec_core.read_array_law [OF elements_codec [OF law] env])
      (use lvl ok b rest False builtin_size_pos in \<open>simp_all add: array_ok_def enc_elements_def\<close>)
  with False l ok show ?thesis
    by (simp add: ReadVariantArrayBuiltInType.simps SOPC_Read_Array_with_def raw_type_def array_ok_def
        enc_elements_def dec_elements_def some_elements_def)
qed

section \<open>Variants\<close>

definition variant_law :: "'x ext_ops \<Rightarrow> 'x ext_spec \<Rightarrow> enc_env \<Rightarrow> 'x SOPC_Variant \<Rightarrow> bool" where
  "variant_law X S env v \<longleftrightarrow>
     (\<forall>lvl. lvl + need_variant S v \<le> max_level env \<longrightarrow>
        writes_upto variant_statuses (\<lambda>b. SOPC_Variant_Write_Internal X env (Some v) b lvl) (enc_variant S env v) \<and>
        reads (\<lambda>(p, b). SOPC_Variant_Read_Internal X env p b lvl) variant_init (dec_variant S env v)
          (enc_variant S env v))"

text \<open>The elements a value of the union is made of.\<close>

fun value_elements :: "'x SOPC_VariantValue \<Rightarrow> 'x SOPC_BuiltinValue list" where
  "value_elements Value_Zero = []"
| "value_elements (Value_Single x) = [x]"
| "value_elements (Value_Array n es) = elements es"
| "value_elements (Value_Matrix n ds es) = elements es"

lemma byte_writes:
  assumes "mem_total env" "lvl < max_level env"
  shows "writes_upto variant_statuses (\<lambda>b. SOPC_Byte_Write env (Some e) b lvl) (le_bytes 1 (unat e))"
  using writes_upto_mono [OF byte_c.write_law full_variant_statuses] assms by simp

lemma plain_law:
  assumes "ext_codec X S" "mem_total env" "plain_type tid" "plain_ok S env v" "plain_tid v = tid"
  shows "builtin_law X S env tid (Plain_v v)"
proof -
  have tid: "tid \<noteq> SOPC_DataValue_Id" "tid \<noteq> SOPC_Variant_Id" using assms(3) by (simp_all add: plain_type_def)
  note C = codec_upto.axioms(1) [OF plain_codec [OF assms(1,3) disjI1 [OF refl]]]
  show ?thesis
    unfolding builtin_law_def
  proof (intro allI impI conjI)
    fix lvl assume "lvl + need_builtin S (Plain_v v) \<le> max_level env"
    then have lvl: "lvl + plain_depth S tid \<le> max_level env" using assms(5) by simp
    show "writes_upto variant_statuses (\<lambda>b. builtin_encode X env tid (Some (Plain_v v)) b lvl) (enc_builtin S env (Plain_v v))"
      using codec_core.write_law [OF C assms(2) _ lvl, of v] assms tid by (simp add: builtin_encode.simps)
    show "reads (\<lambda>(p, b). builtin_decode X env tid p b lvl) (builtin_init X tid) (dec_builtin S env (Plain_v v))
        (enc_builtin S env (Plain_v v))"
      using codec_core.read_law [OF C assms(2) _ lvl, of v] assms tid
      by (simp add: builtin_decode.simps reads_def builtin_init_def)
  qed
qed

text \<open>A value that is not an array, written as an element of an array is.\<close>

lemma single_write:
  assumes "lvl < max_level env" "\<not> no_builtin tid" "tid \<noteq> SOPC_Variant_Id"
  shows "WriteVariantNonArrayBuiltInType X env b tid (Value_Single x) lvl = builtin_encode X env tid (Some x) b lvl"
  using assms by (auto simp: WriteVariantNonArrayBuiltInType.simps builtin_encode.simps value_Single_def no_builtin_def)

lemma single_read:
  assumes X: "ext_codec X S" and env: "mem_total env" and lvl: "lvl + need_builtin S x \<le> max_level env" "lvl < max_level env"
    and x: "builtin_ok S env tid x" "tid \<noteq> SOPC_Variant_Id" and law: "builtin_law X S env tid x"
    and b: "buf_wf b" "unat (buf_length b) \<le> 2 ^ 31" "stream_rest (stream_of b) = enc_builtin S env x @ rest"
  shows "ReadVariantNonArrayBuiltInType X env (Some b) tid Value_Zero lvl =
    Some (SOPC_STATUS_OK, Value_Single (dec_builtin S env x), Some (buf_advance (length (enc_builtin S env x)) b))"
proof (cases x)
  case (Plain_v v)
  then have v: "plain_type tid" "plain_ok S env v" "plain_tid v = tid" using x(1) by simp_all
  have R: "plain_read X env tid (Some ini) (Some b) lvl =
      Some (SOPC_STATUS_OK, Some (dec_plain S env v), Some (buf_advance (length (enc_plain S env v)) b))"
    if "ini = plain_init X tid \<or> ini = plain_zero X tid" for ini
    using reads_bindD [OF codec_core.read_law [OF codec_upto.axioms(1) [OF plain_codec [OF X v(1) that]] env] b(1,2)]
      v lvl b(3) Plain_v by simp
  show ?thesis
    using v R lvl(2) env Plain_v
    by (auto simp: ReadVariantNonArrayBuiltInType.simps plain_type_def value_Single_def no_builtin_def)
next
  case (DataValue_v d)
  then have tid: "tid = SOPC_DataValue_Id" using x(1) by simp
  have "builtin_decode X env tid (Some (builtin_init X tid)) (Some b) lvl =
      Some (SOPC_STATUS_OK, Some (dec_builtin S env x), Some (buf_advance (length (enc_builtin S env x)) b))"
    using law lvl(1) reads_bindD [OF _ b, of "\<lambda>p b. builtin_decode X env tid p b lvl"] by (simp add: builtin_law_def)
  then show ?thesis
    using tid lvl(2) env DataValue_v
    by (auto simp: builtin_decode.simps builtin_init_def ReadVariantNonArrayBuiltInType.simps no_builtin_def
        behind_pointer_def bind_eq_Some_conv)
next
  case (Variant_v v)
  then show ?thesis using x by simp
qed

lemma need_builtin_pos:
  assumes "ext_codec X S"
  shows "0 < need_builtin S x"
proof (cases x)
  case (Plain_v v)
  have "0 < x_depth S" using codec_core.depth_pos [OF codec_upto.axioms(1)] assms by (auto simp: ext_codec_def)
  then show ?thesis using Plain_v by (cases v) (simp_all add: plain_tid_def plain_depth_def)
next
  case (DataValue_v d)
  then show ?thesis by (cases d) simp
next
  case (Variant_v v)
  then show ?thesis by (cases v) simp
qed

lemma need_value_pos: "ext_codec X S \<Longrightarrow> 0 < need_value S val"
  by (cases val) (simp_all add: need_builtin_pos)

text \<open>What follows the encoding byte, at the next structure level.\<close>

definition write_content :: "'x ext_ops \<Rightarrow> enc_env \<Rightarrow> 'x SOPC_Variant \<Rightarrow> nat \<Rightarrow> bufp \<Rightarrow> (SOPC_ReturnStatus \<times> bufp) option" where
  "write_content X env v lvl b =
     (if V_ArrayType v = SOPC_VariantArrayType_SingleValue then
        WriteVariantNonArrayBuiltInType X env b (V_BuiltInTypeId v) (V_Value v) lvl
      else if V_ArrayType v = SOPC_VariantArrayType_Array then do {
        (n, es) \<leftarrow> value_Array (V_Value v);
        let n = (if n = -1 then 0 else n)
        in if sint n < 0 then Some (SOPC_STATUS_ENCODING_ERROR, b)
           else WriteVariantArrayBuiltInType X env b (V_BuiltInTypeId v) es n lvl }
      else do {
        (n, ds, es) \<leftarrow> value_Matrix (V_Value v);
        (err, len) \<leftarrow> Matrix_Length (nat (sint n)) (elements ds) (if n = 0 then 0 else 1);
        if err then Some (SOPC_STATUS_ENCODING_ERROR, b)
        else
          and_then
            (and_then (WriteVariantArrayBuiltInType X env b (V_BuiltInTypeId v) es (of_int len) lvl)
              (\<lambda>b. SOPC_Int32_Write env (Some n) b lvl))
            (\<lambda>b. Write_Dimensions env (nat (sint n)) (elements ds) SOPC_STATUS_OK b lvl) })"

lemma Variant_Write_content:
  "SOPC_Variant_Write_Internal X env (Some v) b lvl =
    enc_guard env False lvl b
      (and_then (SOPC_Byte_Write env (Some (GetVariantEncodingMask v)) b (lvl + 1)) (write_content X env v (lvl + 1)))"
  by (simp only: SOPC_Variant_Write_Internal.simps write_content_def [abs_def] Option.bind_lunit option.simps)

lemma matrix_length:
  assumes "dims_ok env ds (int len)" "int len \<le> sint (max_array_length (enc_cfg env))"
  shows "length ds < 2 ^ 31" "(of_nat (length ds) :: i32) = 0 \<longleftrightarrow> ds = []"
    "Matrix_Length (length ds) ds (if ds = [] then 0 else 1) = Some (False, int len)"
proof -
  have d: "dims_positive ds" "dims_length ds = int len" "int (length ds) \<le> sint (max_array_length (enc_cfg env))"
    using assms(1) by (simp_all add: dims_ok_def)
  show l: "length ds < 2 ^ 31" using d(3) sint_less [of "max_array_length (enc_cfg env)"] by simp
  show "(of_nat (length ds) :: i32) = 0 \<longleftrightarrow> ds = []"
    using length_i32(1) [OF l] unat_eq_zero [of "of_nat (length ds) :: i32"] by simp
  have "int len \<le> 2 ^ 31 - 1" using assms(2) sint_less [of "max_array_length (enc_cfg env)"] by simp
  then show "Matrix_Length (length ds) ds (if ds = [] then 0 else 1) = Some (False, int len)"
    using Matrix_Length_law [OF d(1), of 1] d(2) by (cases "ds = []") (simp_all add: dims_length_def)
qed

lemma content_writes:
  assumes X: "ext_codec X S" and env: "mem_total env" and ok: "value_ok S env tid arrayType val" "\<not> no_builtin tid"
    and law: "\<forall>x\<in>set (value_elements val). builtin_law X S env tid x" and lvl: "lvl + need_value S val \<le> max_level env"
  shows "writes_upto variant_statuses (write_content X env (Variant dnc tid arrayType val) lvl) (enc_value S env tid val)"
proof (cases val)
  case Value_Zero
  then show ?thesis using ok by simp
next
  case (Value_Single x)
  then have x: "lvl + need_builtin S x \<le> max_level env" "tid \<noteq> SOPC_Variant_Id"
    "arrayType = SOPC_VariantArrayType_SingleValue" "builtin_law X S env tid x"
    using lvl ok law by simp_all
  have "lvl < max_level env" using x(1) need_builtin_pos [OF X, of x] by simp
  then have "write_content X env (Variant dnc tid arrayType val) lvl = (\<lambda>b. builtin_encode X env tid (Some x) b lvl)"
    using x(3) Value_Single by (simp add: write_content_def fun_eq_iff single_write [OF _ ok(2) x(2)])
  then show ?thesis using x(1,4) Value_Single by (simp add: builtin_law_def)
next
  case (Value_Array n es)
  then have a: "arrayType = SOPC_VariantArrayType_Array" "array_ok env tid (length (elements es))"
    "n = of_nat (length (elements es)) \<or> n = -1 \<and> elements es = []" "\<forall>x\<in>set (elements es). builtin_ok S env tid x"
    using ok by simp_all
  have "length (elements es) < 2 ^ 31"
    using a(2) sint_less [of "max_array_length (enc_cfg env)"] by (simp add: array_ok_def)
  note un = length_i32 [OF this]
  then have "(if n = -1 then 0 else n) = of_nat (length (elements es))" using a(3) by auto
  then have "write_content X env (Variant dnc tid arrayType val) lvl =
      (\<lambda>b. WriteVariantArrayBuiltInType X env b tid es (of_nat (length (elements es))) lvl)"
    using a(1) un Value_Array by (simp add: write_content_def fun_eq_iff)
  then show ?thesis
    using array_writes [OF env _ a(2,4) _ refl, of lvl X] law lvl Value_Array by (simp add: enc_elements_def)
next
  case (Value_Matrix n ds es)
  then have a: "arrayType = SOPC_VariantArrayType_Matrix" "array_ok env tid (length (elements es))"
    "n = of_nat (length (elements ds))" "dims_ok env (elements ds) (int (length (elements es)))"
    "\<forall>x\<in>set (elements es). builtin_ok S env tid x"
    using ok by simp_all
  have "int (length (elements es)) \<le> sint (max_array_length (enc_cfg env))" using a(2) by (simp add: array_ok_def)
  note m = matrix_length [OF a(4) this]
  note un = length_i32 [OF m(1)]
  have l: "lvl < max_level env" using lvl Value_Matrix by simp
  have "write_content X env (Variant dnc tid arrayType val) lvl =
      (\<lambda>b. and_then
        (and_then (WriteVariantArrayBuiltInType X env b tid es (of_nat (length (elements es))) lvl)
          (\<lambda>b. SOPC_Int32_Write env (Some n) b lvl))
        (\<lambda>b. Write_Dimensions env (length (elements ds)) (elements ds) SOPC_STATUS_OK b lvl))"
    using a(1,3) un m(2,3) Value_Matrix by (simp add: write_content_def fun_eq_iff)
  moreover have "writes_upto variant_statuses \<dots>
      (((le_bytes 4 (length (elements es)) @ enc_elements S env tid (elements es)) @ le_bytes 4 (unat n)) @
        enc_dims (elements ds))"
    by (intro writes_seq array_writes [OF env _ a(2,5) _ refl] int32_writes Write_Dimensions_writes)
      (use env l lvl law Value_Matrix in simp_all)
  ultimately show ?thesis
    using Value_Matrix a(3) un by (simp add: enc_elements_def)
qed

text \<open>The same for the reader, from an initialised variant.\<close>

definition read_content ::
  "'x ext_ops \<Rightarrow> enc_env \<Rightarrow> byte \<Rightarrow> nat \<Rightarrow> bufp \<Rightarrow> (SOPC_ReturnStatus \<times> 'x SOPC_Variant option \<times> bufp) option" where
  "read_content X env e lvl b =
     (let tid = builtin_of_byte (0x3F AND e) in
      if e AND SOPC_VariantArrayValueFlag \<noteq> 0 then
        (if e AND SOPC_VariantArrayDimensionsFlag \<noteq> 0 then do {
           (st, n, es, b) \<leftarrow> ReadVariantArrayBuiltInType X env b tid None 0 lvl;
           (st, val, b) \<leftarrow> Read_Matrix_Dimensions env st n es b lvl;
           Some (st,
             Some (if st = SOPC_STATUS_OK then Variant False tid SOPC_VariantArrayType_Matrix val
                   else Matrix_Read_Failed tid variant_init), b) }
         else do {
           (st, n, es, b) \<leftarrow> ReadVariantArrayBuiltInType X env b tid None 0 lvl;
           Some (st,
             Some (if st = SOPC_STATUS_OK
                   then Variant False tid SOPC_VariantArrayType_Array (Value_Array n es)
                   else Variant_Read_Failed SOPC_VariantArrayType_Array variant_init), b) })
      else if e AND SOPC_VariantArrayDimensionsFlag \<noteq> 0 then
        Some (SOPC_STATUS_INVALID_PARAMETERS, Some (Variant_Read_Failed SOPC_VariantArrayType_SingleValue variant_init), b)
      else do {
        (st, val, b) \<leftarrow> ReadVariantNonArrayBuiltInType X env b tid Value_Zero lvl;
        Some (st,
          Some (if st = SOPC_STATUS_OK
                then Variant False tid SOPC_VariantArrayType_SingleValue val
                else Variant_Read_Failed SOPC_VariantArrayType_SingleValue variant_init), b) })"

lemma variant_init_sel [simp]:
  "V_DoNotClear variant_init = False" "V_BuiltInTypeId variant_init = SOPC_Null_Id"
  "V_ArrayType variant_init = SOPC_VariantArrayType_SingleValue" "V_Value variant_init = Value_Zero"
  by (simp_all add: variant_init_def)

lemma Variant_Read_content:
  assumes "SOPC_Byte_Read env (Some 0) (Some b) (lvl + 1) = Some (st, Some e, b')" "lvl < max_level env"
  shows "SOPC_Variant_Read_Internal X env (Some variant_init) (Some b) lvl =
    (if st \<noteq> SOPC_STATUS_OK
     then Some (st, Some (Variant_Read_Failed SOPC_VariantArrayType_SingleValue variant_init), b')
     else read_content X env e (lvl + 1) b')"
  using assms
  by (simp add: SOPC_Variant_Read_Internal.simps read_content_def Let_def cong: if_cong)

lemma content_reads:
  assumes X: "ext_codec X S" and env: "mem_total env" and ok: "value_ok S env tid arrayType val" "\<not> no_builtin tid"
    and law: "\<forall>x\<in>set (value_elements val). builtin_law X S env tid x" and lvl: "lvl + need_value S val \<le> max_level env"
    and b: "buf_wf b" "unat (buf_length b) \<le> 2 ^ 31" "stream_rest (stream_of b) = enc_value S env tid val @ rest"
  shows "read_content X env (GetVariantEncodingMask (Variant dnc tid arrayType val)) lvl (Some b) =
    Some (SOPC_STATUS_OK, Some (Variant False tid arrayType (dec_value S env tid val)),
      Some (buf_advance (length (enc_value S env tid val)) b))"
proof -
  have known: "known_type tid" using ok(2) by (simp add: known_type_def)
  note mask = variant_mask [OF known, of dnc arrayType val]
  show ?thesis
  proof (cases val)
    case Value_Zero
    then show ?thesis using ok by simp
  next
    case (Value_Single x)
    then have x: "lvl + need_builtin S x \<le> max_level env" "tid \<noteq> SOPC_Variant_Id" "builtin_ok S env tid x"
      "arrayType = SOPC_VariantArrayType_SingleValue" "builtin_law X S env tid x"
      "stream_rest (stream_of b) = enc_builtin S env x @ rest"
      using lvl ok law b(3) by simp_all
    have l: "lvl < max_level env" using x(1) need_builtin_pos [OF X, of x] by simp
    show ?thesis
      using single_read [OF X env x(1) l x(3,2,5) b(1,2) x(6)] x(4) mask Value_Single
      by (simp add: read_content_def Let_def)
  next
    case (Value_Array n es)
    then have a: "arrayType = SOPC_VariantArrayType_Array" "array_ok env tid (length (elements es))"
      "\<forall>x\<in>set (elements es). builtin_ok S env tid x" "\<forall>x\<in>set (elements es). builtin_law X S env tid x"
      "lvl + 1 + levels S (elements es) \<le> max_level env"
      "stream_rest (stream_of b) = (le_bytes 4 (length (elements es)) @ enc_elements S env tid (elements es)) @ rest"
      using lvl ok law b(3) by (simp_all add: enc_elements_def)
    show ?thesis
      using array_reads [OF env a(5,2,3,4) b(1,2) a(6), of 0] a(1) mask Value_Array
      by (simp add: read_content_def Let_def dec_elements_def enc_elements_def)
  next
    case (Value_Matrix n ds es)
    let ?xs = "elements es" and ?ds = "elements ds"
    have a: "arrayType = SOPC_VariantArrayType_Matrix" "array_ok env tid (length ?xs)"
      "n = of_nat (length ?ds)" "dims_ok env ?ds (int (length ?xs))"
      "\<forall>x\<in>set ?xs. builtin_ok S env tid x" "\<forall>x\<in>set ?xs. builtin_law X S env tid x"
      "lvl + 1 + levels S ?xs \<le> max_level env"
      "stream_rest (stream_of b) = (le_bytes 4 (length ?xs) @ enc_elements S env tid ?xs) @
        (le_bytes 4 (length ?ds) @ enc_dims ?ds) @ rest"
      using lvl ok law b(3) Value_Matrix by (simp_all add: enc_elements_def)
    have l31: "length ?xs < 2 ^ 31"
      using a(2) sint_less [of "max_array_length (enc_cfg env)"] by (simp add: array_ok_def)
    have d: "dims_ok env ?ds (sint (of_nat (length ?xs) :: i32))" "0 \<le> sint (of_nat (length ?xs) :: i32)"
      using a(4) length_i32 [OF l31] by simp_all
    let ?k = "4 + length (enc_elements S env tid ?xs)"
    note split = stream_rest_split [OF b(1) a(8)]
    have "Read_Matrix_Dimensions env SOPC_STATUS_OK (of_nat (length ?xs)) (some_elements (dec_elements S env tid ?xs))
        (Some (buf_advance ?k b)) lvl =
        Some (SOPC_STATUS_OK, Value_Matrix (of_nat (length ?ds)) (Some ?ds) (some_elements (dec_elements S env tid ?xs)),
          Some (buf_advance (4 + 4 * length ?ds) (buf_advance ?k b)))"
      using Read_Matrix_Dimensions_law [OF env _ d, of lvl "buf_advance ?k b" rest] split b(2) a(7) by simp
    then show ?thesis
      using array_reads [OF env a(7,2,5,6) b(1,2) a(8), of 0] a(1,3) mask Value_Matrix
      by (simp add: read_content_def Let_def dec_elements_def enc_elements_def buf_advance_advance ac_simps)
  qed
qed

lemma value_ok_elements:
  "value_ok S env tid arrayType val \<Longrightarrow> x \<in> set (value_elements val) \<Longrightarrow> builtin_ok S env tid x"
  by (cases val) auto

text \<open>An encoding byte, then the content.\<close>

lemma variant_parts:
  assumes env: "mem_total env" and l: "lvl < max_level env" "lvl + 1 < max_level env"
    and w: "writes_upto variant_statuses (write_content X env v (lvl + 1)) bs"
    and r: "\<And>b rest. buf_wf b \<Longrightarrow> unat (buf_length b) \<le> 2 ^ 31 \<Longrightarrow> stream_rest (stream_of b) = bs @ rest \<Longrightarrow>
      read_content X env (GetVariantEncodingMask v) (lvl + 1) (Some b) =
        Some (SOPC_STATUS_OK, Some v', Some (buf_advance (length bs) b))"
  shows "writes_upto variant_statuses (\<lambda>b. SOPC_Variant_Write_Internal X env (Some v) b lvl)
      (le_bytes 1 (unat (GetVariantEncodingMask v)) @ bs) \<and>
    reads (\<lambda>(p, b). SOPC_Variant_Read_Internal X env p b lvl) variant_init v'
      (le_bytes 1 (unat (GetVariantEncodingMask v)) @ bs)"
proof
  show "writes_upto variant_statuses (\<lambda>b. SOPC_Variant_Write_Internal X env (Some v) b lvl)
      (le_bytes 1 (unat (GetVariantEncodingMask v)) @ bs)"
    unfolding Variant_Write_content
    by (rule writes_guard [OF l(1)]) (use writes_seq [OF byte_writes [OF env l(2)] w] in simp_all)
  show "reads (\<lambda>(p, b). SOPC_Variant_Read_Internal X env p b lvl) variant_init v'
      (le_bytes 1 (unat (GetVariantEncodingMask v)) @ bs)"
    unfolding reads_def
  proof (intro allI impI)
    fix b rest
    assume b: "buf_wf b" "unat (buf_length b) \<le> 2 ^ 31"
      "stream_rest (stream_of b) = (le_bytes 1 (unat (GetVariantEncodingMask v)) @ bs) @ rest"
    then have s: "stream_rest (stream_of b) = le_bytes 1 (unat (GetVariantEncodingMask v)) @ bs @ rest" by simp
    have "SOPC_Byte_Read env (Some 0) (Some b) (lvl + 1) =
        Some (SOPC_STATUS_OK, Some (GetVariantEncodingMask v), Some (buf_advance 1 b))"
      using reads_bindD [OF byte_c.read_law b(1,2) s] env l(2) by simp
    note Variant_Read_content [OF this l(1), of X]
    with r [of "buf_advance 1 b" rest] stream_rest_split [OF b(1) s] b(2)
    show "(\<lambda>(p, b). SOPC_Variant_Read_Internal X env p b lvl) (Some variant_init, Some b) =
        Some (SOPC_STATUS_OK, Some v', Some (buf_advance (length (le_bytes 1 (unat (GetVariantEncodingMask v)) @ bs)) b))"
      by (simp add: buf_advance_advance)
  qed
qed

lemma variant_laws:
  assumes X: "ext_codec X S" and env: "mem_total env" and ok: "variant_ok S env v"
    and law: "\<And>x tid. x \<in> set (value_elements (V_Value v)) \<Longrightarrow> builtin_ok S env tid x \<Longrightarrow> builtin_law X S env tid x"
  shows "variant_law X S env v"
proof -
  obtain dnc tid arrayType val where v: "v = Variant dnc tid arrayType val" by (cases v)
  show ?thesis
    unfolding variant_law_def
  proof (intro allI impI)
    fix lvl assume lvl: "lvl + need_variant S v \<le> max_level env"
    let ?e = "GetVariantEncodingMask v"
    have l: "lvl < max_level env" "lvl + 1 < max_level env"
      using lvl v need_value_pos [OF X, of val] by (simp_all split: if_splits)
    consider (null) "tid = SOPC_Null_Id" "arrayType = SOPC_VariantArrayType_SingleValue"
      | (content) "\<not> no_builtin tid" "value_ok S env tid arrayType val" "tid \<noteq> SOPC_Null_Id"
        "\<forall>x\<in>set (value_elements val). builtin_law X S env tid x" "lvl + 1 + need_value S val \<le> max_level env"
      using ok v law lvl value_ok_elements [of S env tid arrayType val] by (cases "tid = SOPC_Null_Id") auto
    then show "writes_upto variant_statuses (\<lambda>b. SOPC_Variant_Write_Internal X env (Some v) b lvl) (enc_variant S env v) \<and>
      reads (\<lambda>(p, b). SOPC_Variant_Read_Internal X env p b lvl) variant_init (dec_variant S env v) (enc_variant S env v)"
    proof cases
      case null
      have w: "writes_upto variant_statuses (write_content X env v (lvl + 1)) []"
        using null l(2) v by (subst writes_cong [OF _, of _ "\<lambda>b. Some (SOPC_STATUS_OK, b)"])
          (simp_all add: write_content_def WriteVariantNonArrayBuiltInType.simps writes_skip)
      have r: "read_content X env ?e (lvl + 1) b = Some (SOPC_STATUS_OK, Some (dec_variant S env v), b)" for b
        using null l(2) v variant_mask [of tid dnc arrayType val]
        by (simp add: read_content_def Let_def known_type_def ReadVariantNonArrayBuiltInType.simps)
      show ?thesis
        using variant_parts [OF env l w, of "dec_variant S env v"] r v null by simp
    next
      case content
      have w: "writes_upto variant_statuses (write_content X env v (lvl + 1)) (enc_value S env tid val)"
        using content_writes [OF X env content(2,1,4,5)] v by simp
      show ?thesis
        using variant_parts [OF env l w, of "dec_variant S env v"]
          content_reads [OF X env content(2,1,4,5), of _ _ dnc] v content(3) by simp
    qed
  qed
qed

section \<open>Data values\<close>

definition datavalue_law :: "'x ext_ops \<Rightarrow> 'x ext_spec \<Rightarrow> enc_env \<Rightarrow> 'x SOPC_DataValue \<Rightarrow> bool" where
  "datavalue_law X S env d \<longleftrightarrow>
     (\<forall>lvl. lvl + need_datavalue S d \<le> max_level env \<longrightarrow>
        writes_upto variant_statuses (\<lambda>b. SOPC_DataValue_Write_Internal X env (Some d) b lvl) (enc_datavalue S env d) \<and>
        reads (\<lambda>(p, b). SOPC_DataValue_Read_Internal X env p b lvl) datavalue_init (dec_datavalue S env d)
          (enc_datavalue S env d))"

lemmas put_DV_defs =
  put_DV_Value_def put_DV_Status_def put_DV_SourceTimestamp_def put_DV_ServerTimestamp_def
  put_DV_SourcePicoSeconds_def put_DV_ServerPicoSeconds_def

lemma reads_read_or:
  assumes A: "reads (\<lambda>(p, b). A p b) s s1 xs" and R: "c \<Longrightarrow> reads R s1 s2 ys" and dflt: "\<not> c \<Longrightarrow> s2 = dflt s1"
  shows "reads (\<lambda>(p, b). read_or (A p b) c R dflt) s s2 (xs @ (if c then ys else []))"
  unfolding reads_def
proof (intro allI impI)
  fix b rest
  assume b: "buf_wf b" "unat (buf_length b) \<le> 2 ^ 31" "stream_rest (stream_of b) = (xs @ (if c then ys else [])) @ rest"
  then have r: "stream_rest (stream_of b) = xs @ (if c then ys else []) @ rest" by simp
  have "A (Some s) (Some b) = Some (SOPC_STATUS_OK, Some s1, Some (buf_advance (length xs) b))"
    by (rule reads_bindD [OF A b(1,2) r])
  moreover have "R (Some s1, Some (buf_advance (length xs) b)) =
      Some (SOPC_STATUS_OK, Some s2, Some (buf_advance (length ys) (buf_advance (length xs) b)))" if c
    using readsD [OF R [OF that], of "buf_advance (length xs) b" rest] stream_rest_split [OF b(1) r] b(2) that by simp
  ultimately show "(\<lambda>(p, b). read_or (A p b) c R dflt) (Some s, Some b) =
      Some (SOPC_STATUS_OK, Some s2, Some (buf_advance (length (xs @ (if c then ys else []))) b))"
    using dflt by (cases c) (simp_all add: read_or_def buf_advance_advance)
qed

lemma reads_member_or:
  assumes "reads (\<lambda>(p, b). A p b) s s1 xs" "c \<Longrightarrow> reads (\<lambda>(p, b). R p b) (get s1) w ys"
    "s2 = (if c then put w s1 else dflt s1)"
  shows "reads (\<lambda>(p, b). read_or (A p b) c (on_field get put R) dflt) s s2 (xs @ (if c then ys else []))"
  using assms by (intro reads_read_or) (simp_all add: reads_field)

lemma reads_finish:
  assumes "reads (\<lambda>(p, b). A p b) s s' bs"
  shows "reads (\<lambda>(p, b). do { (st, d, b) \<leftarrow> A p b; d \<leftarrow> d;
    if st = SOPC_STATUS_OK then Some (st, Some d, b) else F st d b }) s s' bs"
  using assms by (simp add: reads_def)

lemma put_V_init: "put_V_BuiltInTypeId SOPC_Null_Id variant_init = variant_init"
  by (simp add: put_V_BuiltInTypeId_def variant_init_def)

lemma reads_cong_bytes: "reads A s s' bs \<Longrightarrow> bs = bs' \<Longrightarrow> reads A s s' bs'"
  by simp

lemma datavalue_writes:
  assumes X: "ext_codec X S" and env: "mem_total env" and lvl: "lvl + need_datavalue S d \<le> max_level env"
    and law: "\<not> no_builtin (V_BuiltInTypeId (DV_Value d)) \<Longrightarrow> variant_law X S env (DV_Value d)"
  shows "writes_upto variant_statuses (\<lambda>b. SOPC_DataValue_Write_Internal X env (Some d) b lvl) (enc_datavalue S env d)"
proof -
  obtain v s t1 t2 p1 p2 where d: "d = DataValue v s t1 t2 p1 p2" by (cases d)
  have l: "lvl + 3 \<le> max_level env" using lvl d by simp
  note up = writes_upto_mono [OF _ full_variant_statuses]
  have "writes_upto variant_statuses (\<lambda>b. SOPC_Variant_Write_Internal X env (Some v) b (lvl + 1)) (enc_variant S env v)"
    if "\<not> no_builtin (V_BuiltInTypeId v)"
    using law that lvl d by (simp add: variant_law_def)
  then show ?thesis
    unfolding SOPC_DataValue_Write_Internal.simps Option.bind_lunit Let_def datavalue_mask d enc_datavalue.simps
      SOPC_DataValue.sel
    by (intro writes_guard writes_when byte_writes up [OF status_c.write_law] up [OF datetime_c.write_law]
        up [OF uint16_c.write_law])
      (use env l in simp_all)
qed

lemma datavalue_reads:
  assumes X: "ext_codec X S" and env: "mem_total env" and lvl: "lvl + need_datavalue S d \<le> max_level env"
    and law: "\<not> no_builtin (V_BuiltInTypeId (DV_Value d)) \<Longrightarrow> variant_law X S env (DV_Value d)"
  shows "reads (\<lambda>(p, b). SOPC_DataValue_Read_Internal X env p b lvl) datavalue_init (dec_datavalue S env d)
    (enc_datavalue S env d)"
proof -
  obtain v s t1 t2 p1 p2 where d: "d = DataValue v s t1 t2 p1 p2" by (cases d)
  have l: "lvl + 3 \<le> max_level env" using lvl d by simp
  have law': "\<not> no_builtin (V_BuiltInTypeId v) \<Longrightarrow>
      reads (\<lambda>(p, b). SOPC_Variant_Read_Internal X env p b (lvl + 1)) (DV_Value datavalue_init) (dec_variant S env v)
        (enc_variant S env v)"
    using law lvl d by (simp add: variant_law_def datavalue_init_def)
  show ?thesis
    unfolding SOPC_DataValue_Read_Internal.simps d enc_datavalue.simps append_assoc
    by (rule reads_guard reads_flags reads_finish | use env l in \<open>simp; fail\<close>)+
      (unfold datavalue_mask SOPC_DataValue.sel append_assoc [symmetric],
       rule reads_cong_bytes [where bs = "((((([] @ (if \<not> no_builtin (V_BuiltInTypeId v) then enc_variant S env v else [])) @
           (if s \<noteq> 0 then le_bytes 4 (unat s) else [])) @ (if 0 < sint t1 then le_bytes 8 (unat t1) else [])) @
           (if 0 < p1 then le_bytes 2 (unat p1) else [])) @ (if 0 < sint t2 then le_bytes 8 (unat t2) else [])) @
           (if 0 < p2 then le_bytes 2 (unat p2) else [])"],
       (rule reads_member_or reads_skip2 law' status_c.read_law datetime_c.read_law uint16_c.read_law refl |
        (use env l in \<open>simp; fail\<close>) | (auto simp: put_DV_defs datavalue_init_def put_V_init word_gt_0; fail))+)
qed

section \<open>Every value\<close>

lemma datavalue_builtin_law: "datavalue_law X S env d \<Longrightarrow> builtin_law X S env SOPC_DataValue_Id (DataValue_v d)"
  by (simp add: builtin_law_def datavalue_law_def builtin_encode.simps builtin_decode.simps builtin_init_def reads_def)

lemma variant_builtin_law:
  assumes "variant_law X S env v"
  shows "builtin_law X S env SOPC_Variant_Id (Variant_v v)"
  unfolding builtin_law_def
proof (intro allI impI)
  fix lvl assume lvl: "lvl + need_builtin S (Variant_v v) \<le> max_level env"
  then have "lvl < max_level env" by (cases v) simp
  with assms lvl show "writes_upto variant_statuses (\<lambda>b. builtin_encode X env SOPC_Variant_Id (Some (Variant_v v)) b lvl)
      (enc_builtin S env (Variant_v v)) \<and>
    reads (\<lambda>(p, b). builtin_decode X env SOPC_Variant_Id p b lvl) (builtin_init X SOPC_Variant_Id)
      (dec_builtin S env (Variant_v v)) (enc_builtin S env (Variant_v v))"
    by (simp add: variant_law_def builtin_encode.simps builtin_decode.simps builtin_init_def reads_def)
qed

lemma value_laws:
  assumes X: "ext_codec X S" and env: "mem_total env"
  shows "(\<forall>tid. builtin_ok S env tid x \<longrightarrow> builtin_law X S env tid x)"
    and "(\<forall>y\<in>set (value_elements val). \<forall>tid. builtin_ok S env tid y \<longrightarrow> builtin_law X S env tid y)"
    and "variant_ok S env v \<longrightarrow> variant_law X S env v"
    and "datavalue_ok S env d \<longrightarrow> datavalue_law X S env d"
proof (induction x and val and v and d
    rule: SOPC_BuiltinValue.induct SOPC_VariantValue.induct SOPC_Variant.induct SOPC_DataValue.induct)
  case (Plain_v v)
  then show ?case using plain_law [OF X env] by auto
next
  case (DataValue_v d)
  then show ?case using datavalue_builtin_law by auto
next
  case (Variant_v v)
  then show ?case using variant_builtin_law by auto
next
  case (Value_Array n es)
  then show ?case by (cases es) auto
next
  case (Value_Matrix n ds es)
  then show ?case by (cases es) auto
next
  case (Variant dnc tid arrayType val)
  then show ?case using variant_laws [OF X env, of "Variant dnc tid arrayType val"] by auto
next
  case (DataValue v s t1 t2 p1 p2)
  then show ?case
    using datavalue_writes [OF X env, of _ "DataValue v s t1 t2 p1 p2"]
      datavalue_reads [OF X env, of _ "DataValue v s t1 t2 p1 p2"]
    by (auto simp: datavalue_law_def)
qed auto

end
