(* ===== verification/Variant_Safe.thy ===== *)
theory Variant_Safe
  imports Variant_Laws
begin

unbundle bit_operations_syntax

text \<open>
  Decoding a variant or a data value from an arbitrary buffer: no access outside of a block, and what is
  known of an accepted value. The recursion of the readers is bounded by the structure level, so the
  proof is by induction on the levels left.
\<close>

section \<open>Decoded values\<close>

fun builtin_good :: "'x ext_spec \<Rightarrow> enc_env \<Rightarrow> SOPC_BuiltinId \<Rightarrow> 'x SOPC_BuiltinValue \<Rightarrow> bool"
and value_good :: "'x ext_spec \<Rightarrow> enc_env \<Rightarrow> SOPC_BuiltinId \<Rightarrow> SOPC_VariantArrayType \<Rightarrow> 'x SOPC_VariantValue \<Rightarrow> bool"
and variant_good :: "'x ext_spec \<Rightarrow> enc_env \<Rightarrow> 'x SOPC_Variant \<Rightarrow> bool"
and datavalue_good :: "'x ext_spec \<Rightarrow> enc_env \<Rightarrow> 'x SOPC_DataValue \<Rightarrow> bool" where
  "builtin_good S env tid (Plain_v v) \<longleftrightarrow> plain_good S env v \<and> plain_tid v = tid"
| "builtin_good S env tid (DataValue_v d) \<longleftrightarrow> tid = SOPC_DataValue_Id \<and> datavalue_good S env d"
| "builtin_good S env tid (Variant_v v) \<longleftrightarrow> tid = SOPC_Variant_Id \<and> variant_good S env v"
| "value_good S env tid arrayType Value_Zero \<longleftrightarrow>
     tid = SOPC_Null_Id \<and> arrayType = SOPC_VariantArrayType_SingleValue"
| "value_good S env tid arrayType (Value_Single x) \<longleftrightarrow>
     arrayType = SOPC_VariantArrayType_SingleValue \<and> tid \<noteq> SOPC_Variant_Id \<and> builtin_good S env tid x"
| "value_good S env tid arrayType (Value_Array n es) \<longleftrightarrow>
     arrayType = SOPC_VariantArrayType_Array \<and> \<not> no_builtin tid \<and> array_read_ok env (\<lambda>_. True) n es \<and>
     (\<forall>x\<in>set (elements es). if raw_type tid then plain_of_type tid x else builtin_good S env tid x)"
| "value_good S env tid arrayType (Value_Matrix n ds es) \<longleftrightarrow>
     arrayType = SOPC_VariantArrayType_Matrix \<and> \<not> no_builtin tid \<and>
     int (length (elements es)) \<le> max 0 (sint (max_array_length (enc_cfg env))) \<and>
     (\<forall>x\<in>set (elements es). if raw_type tid then plain_of_type tid x else builtin_good S env tid x) \<and>
     ds \<noteq> None \<and> int (length (elements ds)) = sint n \<and> dims_ok env (elements ds) (int (length (elements es)))"
| "variant_good S env (Variant dnc tid arrayType val) \<longleftrightarrow> \<not> dnc \<and> value_good S env tid arrayType val"
| "datavalue_good S env (DataValue v s t1 t2 p1 p2) \<longleftrightarrow> variant_good S env v"

lemma variant_good_init [simp]: "variant_good S env variant_init"
  by (simp add: variant_init_def)

text \<open>A variant that \<open>SOPC_Variant_Clear\<close> can clear.\<close>

definition clearable :: "'x SOPC_Variant \<Rightarrow> bool" where
  "clearable v \<longleftrightarrow> SOPC_Variant_Clear v \<noteq> None"

lemma clearable_null: "V_BuiltInTypeId v = SOPC_Null_Id \<Longrightarrow> clearable v"
  by (simp add: clearable_def SOPC_Variant_Clear_def Let_def)

lemma Matrix_Length_total: "length ds = n \<Longrightarrow> Matrix_Length n ds len \<noteq> None"
  by (induction n arbitrary: ds len) (auto split: list.splits)

lemma clearable_good:
  assumes "variant_good S env v"
  shows "clearable v"
proof (cases v)
  case (Variant dnc tid arrayType val)
  show ?thesis
  proof (cases val)
    case (Value_Matrix n ds es)
    then obtain d where d: "ds = Some d" "length d = nat (sint n)" "arrayType = SOPC_VariantArrayType_Matrix"
      using assms Variant by auto
    then obtain err len where "Matrix_Length (nat (sint n)) d (if n = 0 then 0 else 1) = Some (err, len)"
      using Matrix_Length_total [of d "nat (sint n)" "if n = 0 then 0 else 1"] by auto
    then show ?thesis
      using d Value_Matrix Variant by (simp add: clearable_def SOPC_Variant_Clear_def Let_def del: Matrix_Length.simps)
  qed (use assms Variant in \<open>auto simp: clearable_def SOPC_Variant_Clear_def Let_def\<close>)
qed

section \<open>Reads that fail\<close>

text \<open>A safe read, with what is known of the value left by a failure.\<close>

definition safe_read_or ::
  "('a option \<times> bufp \<Rightarrow> (SOPC_ReturnStatus \<times> 'a option \<times> bufp) option) \<Rightarrow> 'a \<Rightarrow> ('a \<Rightarrow> bool) \<Rightarrow> ('a \<Rightarrow> bool) \<Rightarrow> bool"
  where
  "safe_read_or A s Q F \<longleftrightarrow>
     (\<forall>b. buf_wf b \<longrightarrow> unat (buf_length b) \<le> 2 ^ 31 \<longrightarrow>
       (\<exists>st s' b'. A (Some s, Some b) = Some (st, Some s', Some b') \<and> buf_read_step b b' \<and>
          (if st = SOPC_STATUS_OK then Q s' else F s')))"

lemma safe_read_orI:
  assumes "\<And>b. buf_wf b \<Longrightarrow> unat (buf_length b) \<le> 2 ^ 31 \<Longrightarrow>
    \<exists>st s' b'. A (Some s, Some b) = Some (st, Some s', Some b') \<and> buf_read_step b b' \<and>
      (if st = SOPC_STATUS_OK then Q s' else F s')"
  shows "safe_read_or A s Q F"
  using assms by (simp add: safe_read_or_def)

lemma safe_read_orE:
  assumes "safe_read_or (\<lambda>(p, b). A p b) s Q F" "buf_wf b" "unat (buf_length b) \<le> 2 ^ 31"
  obtains st s' b' where "A (Some s) (Some b) = Some (st, Some s', Some b')" "buf_read_step b b'"
    "buf_wf b'" "unat (buf_length b') \<le> 2 ^ 31" "if st = SOPC_STATUS_OK then Q s' else F s'"
proof -
  obtain st s' b' where "A (Some s) (Some b) = Some (st, Some s', Some b')" "buf_read_step b b'"
    "if st = SOPC_STATUS_OK then Q s' else F s'"
    using assms unfolding safe_read_or_def by fastforce
  with that buf_read_step_wf [of b b'] assms(3) show thesis by metis
qed

lemma safe_read_weak: "safe_read_or A s Q F \<Longrightarrow> safe_read A s Q"
  unfolding safe_read_or_def safe_read_def by metis

lemma safe_field_or:
  assumes "safe_read (\<lambda>(p, b). R p b) (get s) Q" "\<And>w. Q w \<Longrightarrow> Q' (put w s)" "\<And>w. F (put w s)"
  shows "safe_read_or (on_field get put R) s Q' F"
proof (rule safe_read_orI)
  fix b assume "buf_wf b" "unat (buf_length b) \<le> 2 ^ 31"
  then obtain st w b' where "R (Some (get s)) (Some b) = Some (st, Some w, Some b')" "buf_read_step b b'"
    "st = SOPC_STATUS_OK \<Longrightarrow> Q w"
    using safe_readE [OF assms(1)] by metis
  with assms(2,3) show "\<exists>st s' b'. on_field get put R (Some s, Some b) = Some (st, Some s', Some b') \<and>
      buf_read_step b b' \<and> (if st = SOPC_STATUS_OK then Q' s' else F s')"
    by (auto simp: on_field_def)
qed

lemma safe_read_or_next:
  assumes A: "safe_read_or (\<lambda>(p, b). A p b) s Q F"
    and R: "\<And>s1. Q s1 \<Longrightarrow> c \<Longrightarrow> safe_read_or R s1 Q' F'"
    and dflt: "\<And>s1. Q s1 \<Longrightarrow> \<not> c \<Longrightarrow> Q' (dflt s1)" and F: "\<And>s1. F s1 \<Longrightarrow> F' (dflt s1)"
  shows "safe_read_or (\<lambda>(p, b). read_or (A p b) c R dflt) s Q' F'"
proof (rule safe_read_orI)
  fix b assume b: "buf_wf b" "unat (buf_length b) \<le> 2 ^ 31"
  obtain st s1 b1 where 1: "A (Some s) (Some b) = Some (st, Some s1, Some b1)" "buf_read_step b b1" "buf_wf b1"
    "unat (buf_length b1) \<le> 2 ^ 31" "if st = SOPC_STATUS_OK then Q s1 else F s1"
    using safe_read_orE [OF A b] by metis
  show "\<exists>st s' b'. (\<lambda>(p, b). read_or (A p b) c R dflt) (Some s, Some b) = Some (st, Some s', Some b') \<and>
      buf_read_step b b' \<and> (if st = SOPC_STATUS_OK then Q' s' else F' s')"
  proof (cases "st = SOPC_STATUS_OK \<and> c")
    case True
    then obtain st2 s2 b2 where "R (Some s1, Some b1) = Some (st2, Some s2, Some b2)" "buf_read_step b1 b2"
      "if st2 = SOPC_STATUS_OK then Q' s2 else F' s2"
      using R [of s1] 1(3-5) unfolding safe_read_or_def by fastforce
    with True 1 buf_read_step_trans [OF 1(2)] show ?thesis by (auto simp: read_or_def)
  next
    case False
    with 1 dflt F show ?thesis by (auto simp: read_or_def)
  qed
qed

section \<open>One structure level\<close>

definition variant_safe :: "'x ext_ops \<Rightarrow> 'x ext_spec \<Rightarrow> enc_env \<Rightarrow> nat \<Rightarrow> bool" where
  "variant_safe X S env lvl \<longleftrightarrow>
     safe_read_or (\<lambda>(p, b). SOPC_Variant_Read_Internal X env p b lvl) variant_init (variant_good S env)
       (\<lambda>v. V_BuiltInTypeId v = SOPC_Null_Id)"

definition datavalue_safe :: "'x ext_ops \<Rightarrow> 'x ext_spec \<Rightarrow> enc_env \<Rightarrow> nat \<Rightarrow> bool" where
  "datavalue_safe X S env lvl \<longleftrightarrow>
     safe_read (\<lambda>(p, b). SOPC_DataValue_Read_Internal X env p b lvl) datavalue_init (datavalue_good S env)"

lemma plain_safe:
  assumes "ext_codec X S" "plain_type tid" "ini = plain_init X tid \<or> ini = plain_zero X tid"
    and b: "buf_wf b" "unat (buf_length b) \<le> 2 ^ 31"
  obtains st v b' where "plain_read X env tid (Some ini) (Some b) lvl = Some (st, Some v, Some b')" "buf_read_step b b'"
    "st = SOPC_STATUS_OK \<Longrightarrow> plain_good S env v \<and> plain_tid v = tid"
  using safe_readE [OF decoder.read_safe [OF codec_upto.axioms(2) [OF plain_codec [OF assms(1-3)]]] b] by metis

lemma plain_builtin_safe:
  assumes X: "ext_codec X S" and tid: "plain_type tid"
  shows "safe_read (\<lambda>(p, b). builtin_decode X env tid p b lvl) (builtin_init X tid) (builtin_good S env tid)"
  unfolding safe_read_def
proof (intro allI impI)
  fix b assume b: "buf_wf b" "unat (buf_length b) \<le> 2 ^ 31"
  obtain st v b' where "plain_read X env tid (Some (plain_init X tid)) (Some b) lvl = Some (st, Some v, Some b')"
    "buf_read_step b b'" "st = SOPC_STATUS_OK \<Longrightarrow> plain_good S env v \<and> plain_tid v = tid"
    using plain_safe [OF X tid disjI1 [OF refl] b] by metis
  with tid show "\<exists>st s' b'. (\<lambda>(p, b). builtin_decode X env tid p b lvl) (Some (builtin_init X tid), Some b) =
      Some (st, Some s', Some b') \<and> buf_read_step b b' \<and> (st = SOPC_STATUS_OK \<longrightarrow> builtin_good S env tid s')"
    by (simp add: builtin_decode.simps builtin_init_def plain_type_def)
qed

lemma builtin_safe:
  assumes X: "ext_codec X S" and VD: "variant_safe X S env lvl" "datavalue_safe X S env lvl" and tid: "\<not> no_builtin tid"
  shows "safe_read (\<lambda>(p, b). builtin_decode X env tid p b lvl) (builtin_init X tid) (builtin_good S env tid)"
  unfolding safe_read_def
proof (intro allI impI)
  fix b assume b: "buf_wf b" "unat (buf_length b) \<le> 2 ^ 31"
  consider (dv) "tid = SOPC_DataValue_Id" | (var) "tid = SOPC_Variant_Id" | (plain) "plain_type tid"
    using tid by (auto simp: plain_type_def)
  then show "\<exists>st s' b'. (\<lambda>(p, b). builtin_decode X env tid p b lvl) (Some (builtin_init X tid), Some b) =
      Some (st, Some s', Some b') \<and> buf_read_step b b' \<and> (st = SOPC_STATUS_OK \<longrightarrow> builtin_good S env tid s')"
  proof cases
    case dv
    obtain st d b' where "SOPC_DataValue_Read_Internal X env (Some datavalue_init) (Some b) lvl = Some (st, Some d, Some b')"
      "buf_read_step b b'" "st = SOPC_STATUS_OK \<Longrightarrow> datavalue_good S env d"
      using safe_readE [OF VD(2) [unfolded datavalue_safe_def] b] by metis
    with dv show ?thesis by (simp add: builtin_decode.simps builtin_init_def)
  next
    case var
    obtain st v b' where "SOPC_Variant_Read_Internal X env (Some variant_init) (Some b) lvl = Some (st, Some v, Some b')"
      "buf_read_step b b'" "st = SOPC_STATUS_OK \<Longrightarrow> variant_good S env v"
      using safe_read_orE [OF VD(1) [unfolded variant_safe_def] b] by metis
    with var show ?thesis by (simp add: builtin_decode.simps builtin_init_def)
  next
    case plain
    then show ?thesis using plain_builtin_safe [OF X plain, of env lvl] b unfolding safe_read_def by blast
  qed
qed

text \<open>
  An array whose elements are decoded safely at the next structure level. The contract \<open>decoder\<close> is
  instantiated with a reader that only decodes at that level and in this environment.
\<close>

definition at_level :: "enc_env \<Rightarrow> nat \<Rightarrow> (enc_env \<Rightarrow> 'a reader) \<Rightarrow> enc_env \<Rightarrow> 'a reader" where
  "at_level env lvl R e p b l = (if e = env \<and> l = lvl then R e p b l else Some (SOPC_STATUS_INVALID_STATE, p, b))"

lemma at_level_decoder:
  assumes "safe_read (\<lambda>(p, b). R env p b lvl) ini Q"
  shows "decoder (at_level env lvl R) ini (\<lambda>e x. e = env \<longrightarrow> Q x)"
proof
  fix e l
  show "safe_read (\<lambda>(p, b). at_level env lvl R e p b l) ini (\<lambda>x. e = env \<longrightarrow> Q x)"
    using assms by (cases "e = env \<and> l = lvl")
      (auto simp: at_level_def safe_read_def buf_read_step_refl)
qed

lemma read_array_at_level:
  assumes R: "safe_read (\<lambda>(p, b). R env p b (lvl + 1)) ini Q" and b: "buf_wf b" "unat (buf_length b) \<le> 2 ^ 31"
  shows "\<exists>st n es b'. SOPC_Read_Array env (Some b) (Some n0) (Some None) sizeOfElt (Some (R env)) (\<lambda>_. ini) ini lvl =
      Some (st, Some n, Some es, Some b') \<and> buf_read_step b b' \<and> (st = SOPC_STATUS_OK \<longrightarrow> array_read_ok env Q n es)"
proof -
  from decoder.read_array_safe [OF at_level_decoder [where R = R and env = env and lvl = "lvl + 1", OF R] b, where init = "\<lambda>_. ini" and zero = ini, OF refl, of env n0 sizeOfElt lvl]
  obtain st n es b' where "SOPC_Read_Array env (Some b) (Some n0) (Some None) sizeOfElt (Some (at_level env (lvl + 1) R env)) (\<lambda>_. ini) ini lvl =
      Some (st, Some n, Some es, Some b')" "buf_read_step b b'" "st = SOPC_STATUS_OK \<longrightarrow> array_read_ok env Q n es"
    unfolding array_read_ok_def elements_def by (auto split: option.splits)
  moreover have "SOPC_Read_Array_with env (Some b) n0 None sizeOfElt (R env) ini lvl =
      SOPC_Read_Array_with env (Some b) n0 None sizeOfElt (at_level env (lvl + 1) R env) ini lvl"
    by (rule SOPC_Read_Array_with_cong) (simp_all add: at_level_def)
  ultimately show ?thesis unfolding SOPC_Read_Array_with_def by metis
qed

definition element_good :: "'x ext_spec \<Rightarrow> enc_env \<Rightarrow> SOPC_BuiltinId \<Rightarrow> 'x SOPC_BuiltinValue \<Rightarrow> bool" where
  "element_good S env tid x = (if raw_type tid then plain_of_type tid x else builtin_good S env tid x)"

lemma array_safe:
  assumes X: "ext_codec X S" and VD: "variant_safe X S env (lvl + 1)" "datavalue_safe X S env (lvl + 1)"
    and bound: "raw_bounded env" and b: "buf_wf b" "unat (buf_length b) \<le> 2 ^ 31"
  shows "\<exists>st n es b'. ReadVariantArrayBuiltInType X env (Some b) tid None n0 lvl = Some (st, n, es, Some b') \<and>
    buf_read_step b b' \<and> (st = SOPC_STATUS_OK \<longrightarrow> \<not> no_builtin tid \<and> array_read_ok env (element_good S env tid) n es)"
proof (cases "max_level env \<le> lvl \<or> no_builtin tid")
  case True
  then show ?thesis
    using buf_read_step_refl [OF b(1)] by (auto simp: ReadVariantArrayBuiltInType.simps)
next
  case False
  show ?thesis
  proof (cases "raw_type tid")
    case True
    then have "element_good S env tid = plain_of_type tid" by (simp add: element_good_def fun_eq_iff)
    with raw_array_safe [OF True bound b, of X n0 lvl] False show ?thesis by simp
  next
    case nraw: False
    have "safe_read (\<lambda>(p, b). builtin_decode X env tid p b (lvl + 1)) (builtin_init X tid) (builtin_good S env tid)"
      by (rule builtin_safe [OF X VD]) (use False in simp)
    from read_array_at_level [where R = "\<lambda>e. builtin_decode X e tid", OF this b, of n0 "builtin_size tid"] False nraw show ?thesis
      by (auto simp: ReadVariantArrayBuiltInType.simps raw_type_def SOPC_Read_Array_with_def element_good_def fun_eq_iff
          array_read_ok_def)
  qed
qed

lemma single_safe:
  assumes X: "ext_codec X S" and D: "datavalue_safe X S env lvl" and b: "buf_wf b" "unat (buf_length b) \<le> 2 ^ 31"
  shows "\<exists>st val b'. ReadVariantNonArrayBuiltInType X env (Some b) tid Value_Zero lvl = Some (st, val, Some b') \<and>
    buf_read_step b b' \<and> (st = SOPC_STATUS_OK \<longrightarrow> value_good S env tid SOPC_VariantArrayType_SingleValue val)"
proof -
  consider (none) "max_level env \<le> lvl \<or> no_builtin tid \<or> tid = SOPC_Variant_Id"
    | (dv) "lvl < max_level env" "tid = SOPC_DataValue_Id" | (plain) "lvl < max_level env" "plain_type tid"
    unfolding plain_type_def by linarith
  then show ?thesis
  proof cases
    case none
    then show ?thesis using buf_read_step_refl [OF b(1)] by (auto simp: ReadVariantNonArrayBuiltInType.simps)
  next
    case dv
    obtain st d b' where "SOPC_DataValue_Read_Internal X env (Some datavalue_init) (Some b) lvl = Some (st, Some d, Some b')"
      "buf_read_step b b'" "st = SOPC_STATUS_OK \<Longrightarrow> datavalue_good S env d"
      using safe_readE [OF D [unfolded datavalue_safe_def] b] by metis
    with dv buf_read_step_refl [OF b(1)] show ?thesis
      by (auto simp: ReadVariantNonArrayBuiltInType.simps no_builtin_def behind_pointer_def)
  next
    case plain
    have p: "\<exists>st v b'. plain_read X env tid (Some ini) (Some b) lvl = Some (st, Some v, Some b') \<and> buf_read_step b b' \<and>
        (st = SOPC_STATUS_OK \<longrightarrow> plain_good S env v \<and> plain_tid v = tid)"
      if "ini = plain_init X tid \<or> ini = plain_zero X tid" for ini
      using plain_safe [OF X plain(2) that b] by metis
    show ?thesis
      using plain p [of "plain_init X tid"] p [of "plain_zero X tid"] buf_read_step_refl [OF b(1)]
      by (auto simp: ReadVariantNonArrayBuiltInType.simps plain_type_def value_Single_def)
  qed
qed

lemma content_safe:
  assumes X: "ext_codec X S" and D: "datavalue_safe X S env lvl"
    and VD: "variant_safe X S env (lvl + 1)" "datavalue_safe X S env (lvl + 1)"
    and bound: "raw_bounded env" and b: "buf_wf b" "unat (buf_length b) \<le> 2 ^ 31"
  shows "\<exists>st v b'. read_content X env e lvl (Some b) = Some (st, Some v, Some b') \<and> buf_read_step b b' \<and>
    (if st = SOPC_STATUS_OK then variant_good S env v else V_BuiltInTypeId v = SOPC_Null_Id)"
proof -
  let ?tid = "builtin_of_byte (0x3F AND e)"
  obtain st val b1 where 1: "ReadVariantNonArrayBuiltInType X env (Some b) ?tid Value_Zero lvl = Some (st, val, Some b1)"
    "buf_read_step b b1" "st = SOPC_STATUS_OK \<Longrightarrow> value_good S env ?tid SOPC_VariantArrayType_SingleValue val"
    using single_safe [OF X D b, of ?tid] by blast
  obtain st2 n es b2 where 2: "ReadVariantArrayBuiltInType X env (Some b) ?tid None 0 lvl = Some (st2, n, es, Some b2)"
    "buf_read_step b b2" "st2 = SOPC_STATUS_OK \<Longrightarrow> \<not> no_builtin ?tid \<and> array_read_ok env (element_good S env ?tid) n es"
    using array_safe [OF X VD bound b, of ?tid 0] by blast
  have b2: "buf_wf b2" "unat (buf_length b2) \<le> 2 ^ 31" using buf_read_step_wf [OF 2(2)] b(2) by simp_all
  obtain st3 val3 b3 where 3: "Read_Matrix_Dimensions env st2 n es (Some b2) lvl = Some (st3, val3, Some b3)"
    "buf_read_step b2 b3" "st3 = SOPC_STATUS_OK \<Longrightarrow> st2 = SOPC_STATUS_OK \<and>
      (\<exists>k ds. val3 = Value_Matrix k (Some ds) es \<and> int (length ds) = sint k \<and> dims_ok env ds (sint n))"
    using Read_Matrix_Dimensions_safe [OF b2, of env st2 n es lvl] by blast
  have arr: "variant_good S env (Variant False ?tid SOPC_VariantArrayType_Array (Value_Array n es))"
    if "st2 = SOPC_STATUS_OK"
    using 2(3) [OF that] by (auto simp: array_read_ok_def element_good_def)
  have mat: "variant_good S env (Variant False ?tid SOPC_VariantArrayType_Matrix val3)" if "st3 = SOPC_STATUS_OK"
    using 2(3) 3(3) [OF that] by (auto simp: array_read_ok_def element_good_def)
  have fail: "V_BuiltInTypeId (Variant_Read_Failed t v) = SOPC_Null_Id"
    "V_BuiltInTypeId (Matrix_Read_Failed tid v) = SOPC_Null_Id" for t tid and v :: "'a SOPC_Variant"
    by (simp_all add: Variant_Read_Failed_def Matrix_Read_Failed_def)
  show ?thesis
    using 1 2(1,2) 3(1) arr mat buf_read_step_trans [OF 2(2) 3(2)] buf_read_step_refl [OF b(1)]
    by (auto simp: read_content_def Let_def fail)
qed

lemma variant_safe_step:
  assumes X: "ext_codec X S" and bound: "raw_bounded env"
    and VD: "\<And>l. lvl < max_level env \<Longrightarrow> lvl < l \<Longrightarrow> variant_safe X S env l \<and> datavalue_safe X S env l"
  shows "variant_safe X S env lvl"
  unfolding variant_safe_def
proof (rule safe_read_orI)
  fix b assume b: "buf_wf b" "unat (buf_length b) \<le> 2 ^ 31"
  show "\<exists>st v b'. (\<lambda>(p, b). SOPC_Variant_Read_Internal X env p b lvl) (Some variant_init, Some b) =
      Some (st, Some v, Some b') \<and> buf_read_step b b' \<and>
      (if st = SOPC_STATUS_OK then variant_good S env v else V_BuiltInTypeId v = SOPC_Null_Id)"
  proof (cases "lvl < max_level env")
    case False
    then show ?thesis
      using buf_read_step_refl [OF b(1)] by (simp add: SOPC_Variant_Read_Internal.simps enc_guard_def)
  next
    case True
    obtain st e b1 where 1: "SOPC_Byte_Read env (Some 0) (Some b) (lvl + 1) = Some (st, Some e, Some b1)"
      "buf_read_step b b1" "buf_wf b1" "unat (buf_length b1) \<le> 2 ^ 31"
      using safe_readE [OF byte_c.read_safe b] by metis
    obtain st2 v b2 where 2: "read_content X env e (lvl + 1) (Some b1) = Some (st2, Some v, Some b2)" "buf_read_step b1 b2"
      "if st2 = SOPC_STATUS_OK then variant_good S env v else V_BuiltInTypeId v = SOPC_Null_Id"
      using content_safe [OF X _ _ _ bound 1(3,4), of "lvl + 1" e] VD [OF True] by auto
    show ?thesis
      using Variant_Read_content [OF 1(1) True, of X] 1(2) 2 buf_read_step_trans [OF 1(2) 2(2)]
      by (auto simp: Variant_Read_Failed_def)
  qed
qed

lemma safe_finish:
  assumes "safe_read_or (\<lambda>(p, b). A p b) s Q (\<lambda>d. clearable (get d))"
  shows "safe_read (\<lambda>(p, b). do { (st, d, b) \<leftarrow> A p b; d \<leftarrow> d;
    if st = SOPC_STATUS_OK then Some (st, Some d, b)
    else do { v \<leftarrow> SOPC_Variant_Clear (get d); Some (st, Some (G v d), b) } }) s Q"
  unfolding safe_read_def
proof (intro allI impI)
  fix b assume "buf_wf b" "unat (buf_length b) \<le> 2 ^ 31"
  then obtain st d b' where "A (Some s) (Some b) = Some (st, Some d, Some b')" "buf_read_step b b'"
    "if st = SOPC_STATUS_OK then Q d else clearable (get d)"
    using safe_read_orE [OF assms] by metis
  then show "\<exists>st s' b'. (\<lambda>(p, b). do { (st, d, b) \<leftarrow> A p b; d \<leftarrow> d;
      if st = SOPC_STATUS_OK then Some (st, Some d, b)
      else do { v \<leftarrow> SOPC_Variant_Clear (get d); Some (st, Some (G v d), b) } }) (Some s, Some b) =
      Some (st, Some s', Some b') \<and> buf_read_step b b' \<and> (st = SOPC_STATUS_OK \<longrightarrow> Q s')"
    by (auto simp: clearable_def split: if_splits)
qed

lemma DV_Value_put [simp]:
  "DV_Value (put_DV_Value v d) = v" "DV_Value (put_DV_Status s d) = DV_Value d"
  "DV_Value (put_DV_SourceTimestamp t d) = DV_Value d" "DV_Value (put_DV_ServerTimestamp t d) = DV_Value d"
  "DV_Value (put_DV_SourcePicoSeconds p d) = DV_Value d" "DV_Value (put_DV_ServerPicoSeconds p d) = DV_Value d"
  by (cases d; simp add: put_DV_defs)+

lemma datavalue_good_sel: "datavalue_good S env d \<longleftrightarrow> variant_good S env (DV_Value d)"
  by (cases d) simp

lemma safe_read_or_skip: "safe_read_or (\<lambda>(p, b). Some (SOPC_STATUS_OK, p, b)) s (\<lambda>x. x = s) F"
  by (simp add: safe_read_or_def buf_read_step_refl)

lemma safe_value_field:
  assumes "variant_safe X S env lvl" "DV_Value d = variant_init"
  shows "safe_read_or (on_field DV_Value put_DV_Value (\<lambda>p b. SOPC_Variant_Read_Internal X env p b lvl)) d
    (\<lambda>d. variant_good S env (DV_Value d)) (\<lambda>d. clearable (DV_Value d))"
proof (rule safe_read_orI)
  fix b assume "buf_wf b" "unat (buf_length b) \<le> 2 ^ 31"
  then obtain st v b' where "SOPC_Variant_Read_Internal X env (Some variant_init) (Some b) lvl = Some (st, Some v, Some b')"
    "buf_read_step b b'" "if st = SOPC_STATUS_OK then variant_good S env v else V_BuiltInTypeId v = SOPC_Null_Id"
    using safe_read_orE [OF assms(1) [unfolded variant_safe_def]] by metis
  then show "\<exists>st s' b'. on_field DV_Value put_DV_Value (\<lambda>p b. SOPC_Variant_Read_Internal X env p b lvl) (Some d, Some b) =
      Some (st, Some s', Some b') \<and> buf_read_step b b' \<and>
      (if st = SOPC_STATUS_OK then variant_good S env (DV_Value s') else clearable (DV_Value s'))"
    using assms(2) by (auto simp: on_field_def clearable_null)
qed

lemma safe_other_field:
  assumes "\<And>x. safe_read (\<lambda>(p, b). R p b) x (\<lambda>_. True)" "\<And>w d. DV_Value (put w d) = DV_Value d"
    and "variant_good S env (DV_Value d)"
  shows "safe_read_or (on_field get put R) d (\<lambda>d. variant_good S env (DV_Value d)) (\<lambda>d. clearable (DV_Value d))"
  by (rule safe_field_or [OF assms(1)]) (simp_all add: assms(2,3) clearable_good [OF assms(3)])

lemma datavalue_safe_step:
  assumes V: "lvl < max_level env \<Longrightarrow> variant_safe X S env (lvl + 1)"
  shows "datavalue_safe X S env lvl"
proof (cases "lvl < max_level env")
  case False
  then show ?thesis
    by (simp add: datavalue_safe_def SOPC_DataValue_Read_Internal.simps enc_guard_def safe_read_def buf_read_step_refl)
next
  case True
  obtain v0 :: "'a SOPC_Variant" where clear: "SOPC_Variant_Clear variant_init = Some v0"
    using clearable_null [of variant_init] by (auto simp: clearable_def)
  have good: "datavalue_good S env = (\<lambda>d. variant_good S env (DV_Value d))"
    by (simp add: fun_eq_iff datavalue_good_sel)
  note next_field = safe_read_or_next [where Q = "\<lambda>d. variant_good S env (DV_Value d)" and F = "\<lambda>d. clearable (DV_Value d)",
      OF _ safe_other_field]
  show ?thesis
    unfolding datavalue_safe_def SOPC_DataValue_Read_Internal.simps good
  proof (rule safe_read_guard, rule safe_flags, goal_cases)
    case (1 m)
    show ?case
      by (rule safe_finish [where get = DV_Value], rule next_field, rule next_field, rule next_field, rule next_field,
          rule next_field)
        (rule safe_read_or_next [OF safe_read_or_skip [where F = "\<lambda>_. False"] safe_value_field] status_c.read_safe
          datetime_c.read_safe uint16_c.read_safe | use V True in \<open>simp add: datavalue_init_def put_V_init; fail\<close>)+
  next
    case (2 st m b)
    then show ?case
      by (simp add: read_or_def put_DV_defs datavalue_init_def put_V_init clear)
  qed
qed

section \<open>Every structure level\<close>

theorem readers_safe:
  assumes "ext_codec X S" "raw_bounded env"
  shows "variant_safe X S env lvl \<and> datavalue_safe X S env lvl"
proof (induction "max_level env - lvl" arbitrary: lvl rule: less_induct)
  case less
  have "variant_safe X S env l \<and> datavalue_safe X S env l" if "lvl < max_level env" "lvl < l" for l
    using less that by (simp add: diff_less_mono2)
  then show ?case
    using variant_safe_step [OF assms, of lvl] datavalue_safe_step [of lvl env X S] by simp
qed

end
