(* ===== verification/Extension_Object.thy ===== *)
theory Extension_Object
  imports Encoder_Types
begin

unbundle bit_operations_syntax

text \<open>
  The encoder and the decoder of extension objects of \<open>src/Common/opcua_types/sopc_encoder.c\<close>. The body
  of an extension object is absent, opaque (a byte string or an XML element) or an object of an encodeable
  type. What the two functions use of \<open>sopc_encodeabletype.c\<close> is a record of parameters: the registry of
  types, the fields of a type descriptor, and the functions that encode, decode and initialise an object
  of the type; \<open>'t\<close> is the type of descriptors and \<open>'o\<close> the type of objects.
\<close>

section \<open>Types\<close>

record ('t, 'o) object_ops =
  ot_lookup :: "u16 \<Rightarrow> u32 \<Rightarrow> 't option"
  ot_uri :: "'t \<Rightarrow> byte list option"
  ot_ns :: "'t \<Rightarrow> u16"
  ot_type :: "'t \<Rightarrow> u32"
  ot_id :: "'t \<Rightarrow> u32"
  ot_size :: "'t \<Rightarrow> nat"
  ot_init :: "'t \<Rightarrow> 'o"
  ot_encode :: "'t \<Rightarrow> enc_env \<Rightarrow> 'o writer"
  ot_decode :: "'t \<Rightarrow> enc_env \<Rightarrow> 'o reader"

datatype SOPC_ExtObjectBodyEncoding =
    SOPC_ExtObjBodyEncoding_None | SOPC_ExtObjBodyEncoding_ByteString
  | SOPC_ExtObjBodyEncoding_XMLElement | SOPC_ExtObjBodyEncoding_Object

primrec body_encoding_byte :: "SOPC_ExtObjectBodyEncoding \<Rightarrow> byte" where
  "body_encoding_byte SOPC_ExtObjBodyEncoding_None = 0"
| "body_encoding_byte SOPC_ExtObjBodyEncoding_ByteString = 1"
| "body_encoding_byte SOPC_ExtObjBodyEncoding_XMLElement = 2"
| "body_encoding_byte SOPC_ExtObjBodyEncoding_Object = 3"

text \<open>The union, by the member written last; \<open>Body_Zero\<close> is zeroed memory.\<close>

datatype ('t, 'o) SOPC_ExtObject_Body =
    Body_Zero
  | Body_Bstring SOPC_ByteString
  | Body_Xml SOPC_XmlElement
  | Body_Object "'o option" "'t option"

record ('t, 'o) SOPC_ExtensionObject =
  EO_TypeId :: SOPC_ExpandedNodeId
  EO_Encoding :: SOPC_ExtObjectBodyEncoding
  EO_Body :: "('t, 'o) SOPC_ExtObject_Body"

definition extobj_init :: "('t, 'o) SOPC_ExtensionObject" where
  "extobj_init = \<lparr>EO_TypeId = expnodeid_init, EO_Encoding = SOPC_ExtObjBodyEncoding_None, EO_Body = Body_Zero\<rparr>"

definition body_string_zero :: SOPC_String where
  "body_string_zero = \<lparr>Str_Length = 0, Str_DoNotClear = False, Str_Data = None\<rparr>"

fun union_Bstring :: "('t, 'o) SOPC_ExtObject_Body \<Rightarrow> SOPC_ByteString option" where
  "union_Bstring Body_Zero = Some body_string_zero"
| "union_Bstring (Body_Bstring s) = Some s"
| "union_Bstring (Body_Xml s) = Some s"
| "union_Bstring (Body_Object v t) = None"

fun union_Object :: "('t, 'o) SOPC_ExtObject_Body \<Rightarrow> ('o option \<times> 't option) option" where
  "union_Object Body_Zero = Some (None, None)"
| "union_Object (Body_Object v t) = Some (v, t)"
| "union_Object _ = None"

section \<open>Writing\<close>

text \<open>
  An object is written behind a length that is not known yet: -1 is written first, and replaced once the
  object has been encoded.
\<close>

definition Write_Object ::
  "enc_env \<Rightarrow> 'o writer \<Rightarrow> 'o option \<Rightarrow> bufp \<Rightarrow> nat \<Rightarrow> (SOPC_ReturnStatus \<times> bufp) option" where
  "Write_Object env encode v b lvl = do {
     c \<leftarrow> b;
     let lengthPos = position c;
     and_then (and_then (SOPC_Int32_Write env (Some (-1)) b lvl) (\<lambda>b. encode v b lvl))
       (\<lambda>b. do {
          c \<leftarrow> b;
          let curPos = position c;
          let len = curPos - (lengthPos + 4);
          if len \<le> 2147483647 then do {
            let (_, b) = SOPC_Buffer_SetPosition b lengthPos;
            (_, b) \<leftarrow> SOPC_Int32_Write env (Some len) b lvl;
            let (_, b) = SOPC_Buffer_SetPosition b curPos;
            Some (SOPC_STATUS_OK, b) }
          else Some (SOPC_STATUS_OK, b) }) }"

definition SOPC_ExtensionObject_Write ::
  "('t, 'o) object_ops \<Rightarrow> enc_env \<Rightarrow> ('t, 'o) SOPC_ExtensionObject writer" where
  "SOPC_ExtensionObject_Write T env extObj buf lvl =
     enc_guard env (extObj = None) lvl buf
       (do {
          x \<leftarrow> extObj;
          let nodeId = Exp_NodeId (EO_TypeId x);
          (st, e, nodeId) \<leftarrow>
            (if EO_Encoding x = SOPC_ExtObjBodyEncoding_Object then do {
               (_, t) \<leftarrow> union_Object (EO_Body x);
               case t of
                 None \<Rightarrow> Some (SOPC_STATUS_INVALID_PARAMETERS, 1, nodeId)
               | Some t \<Rightarrow>
                   if ot_uri T t = None then
                     Some (SOPC_STATUS_OK, 1,
                       nodeId\<lparr>NodeId_IdentifierType := SOPC_IdentifierType_Numeric,
                              NodeId_Namespace := ot_ns T t, NodeId_Data := Id_Numeric (ot_id T t)\<rparr>)
                   else None }
             else Some (SOPC_STATUS_OK, body_encoding_byte (EO_Encoding x), nodeId));
          if st \<noteq> SOPC_STATUS_OK then Some (st, buf)
          else
            and_then
              (and_then (SOPC_NodeId_Write env (Some nodeId) buf (lvl + 1))
                (\<lambda>buf. SOPC_Byte_Write env (Some e) buf (lvl + 1)))
              (\<lambda>buf. case EO_Encoding x of
                 SOPC_ExtObjBodyEncoding_None \<Rightarrow> Some (SOPC_STATUS_OK, buf)
               | SOPC_ExtObjBodyEncoding_ByteString \<Rightarrow> do {
                   s \<leftarrow> union_Bstring (EO_Body x);
                   SOPC_ByteString_Write env (Some s) buf (lvl + 1) }
               | SOPC_ExtObjBodyEncoding_XMLElement \<Rightarrow> do {
                   s \<leftarrow> union_Bstring (EO_Body x);
                   SOPC_XmlElement_Write env (Some s) buf (lvl + 1) }
               | SOPC_ExtObjBodyEncoding_Object \<Rightarrow> do {
                   (v, t) \<leftarrow> union_Object (EO_Body x);
                   t \<leftarrow> t;
                   Write_Object env (ot_encode T t env) v buf (lvl + 1) }) })"

section \<open>Reading\<close>

text \<open>
  The type of the body, after the identifier and the encoding byte: a byte string whose type is known is
  an object, and the encoding byte of an object is not a valid one.
\<close>

definition ExtensionObject_Body_Type ::
  "('t, 'o) object_ops \<Rightarrow> byte \<Rightarrow> SOPC_NodeId \<Rightarrow>
   (SOPC_ReturnStatus \<times> SOPC_ExtObjectBodyEncoding \<times> 't option) option" where
  "ExtensionObject_Body_Type T e nodeId =
     (if e = 1 then
        (if NodeId_IdentifierType nodeId = SOPC_IdentifierType_Numeric then do {
           n \<leftarrow> union_Numeric (NodeId_Data nodeId);
           case ot_lookup T (NodeId_Namespace nodeId) n of
             None \<Rightarrow> Some (SOPC_STATUS_OK, SOPC_ExtObjBodyEncoding_ByteString, None)
           | Some t \<Rightarrow> Some (SOPC_STATUS_OK, SOPC_ExtObjBodyEncoding_Object, Some t) }
         else Some (SOPC_STATUS_OK, SOPC_ExtObjBodyEncoding_ByteString, None))
      else if e = 0 then Some (SOPC_STATUS_OK, SOPC_ExtObjBodyEncoding_None, None)
      else if e = 2 then Some (SOPC_STATUS_OK, SOPC_ExtObjBodyEncoding_XMLElement, None)
      else Some (SOPC_STATUS_ENCODING_ERROR, SOPC_ExtObjBodyEncoding_None, None))"

text \<open>An object, in a block allocated and initialised for it; its length is only skipped.\<close>

definition Read_Object ::
  "('t, 'o) object_ops \<Rightarrow> enc_env \<Rightarrow> 't \<Rightarrow> bufp \<Rightarrow> nat \<Rightarrow> (SOPC_ReturnStatus \<times> 'o option \<times> bufp) option" where
  "Read_Object T env t b lvl = do {
     (st, _, b) \<leftarrow> SOPC_Int32_Read env (Some 0) b lvl;
     if st \<noteq> SOPC_STATUS_OK then Some (st, None, b)
     else if mem_ok env (ot_size T t) then do {
       (st, v, b) \<leftarrow> ot_decode T t env (Some (ot_init T t)) b lvl;
       Some (st, if st = SOPC_STATUS_OK then v else None, b) }
     else Some (SOPC_STATUS_OUT_OF_MEMORY, None, b) }"

definition put_EO_NodeId :: "SOPC_NodeId \<Rightarrow> ('t, 'o) SOPC_ExtensionObject \<Rightarrow> ('t, 'o) SOPC_ExtensionObject" where
  "put_EO_NodeId n x = x\<lparr>EO_TypeId := (EO_TypeId x)\<lparr>Exp_NodeId := n\<rparr>\<rparr>"

definition ExtensionObject_Read_Body ::
  "('t, 'o) object_ops \<Rightarrow> enc_env \<Rightarrow> byte \<Rightarrow> ('t, 'o) SOPC_ExtensionObject \<Rightarrow> bufp \<Rightarrow> nat \<Rightarrow>
   (SOPC_ReturnStatus \<times> ('t, 'o) SOPC_ExtensionObject option \<times> bufp) option" where
  "ExtensionObject_Read_Body T env e x b lvl = do {
     (st, enc, t) \<leftarrow> ExtensionObject_Body_Type T e (Exp_NodeId (EO_TypeId x));
     if st \<noteq> SOPC_STATUS_OK then Some (st, Some x, b)
     else do {
       (st, x, b) \<leftarrow>
         (case enc of
            SOPC_ExtObjBodyEncoding_None \<Rightarrow> Some (SOPC_STATUS_OK, x, b)
          | SOPC_ExtObjBodyEncoding_ByteString \<Rightarrow> do {
              s \<leftarrow> union_Bstring (EO_Body x);
              (st, s, b) \<leftarrow> SOPC_ByteString_Read env (Some s) b lvl;
              s \<leftarrow> s;
              Some (st, x\<lparr>EO_Body := Body_Bstring s\<rparr>, b) }
          | SOPC_ExtObjBodyEncoding_XMLElement \<Rightarrow> do {
              s \<leftarrow> union_Bstring (EO_Body x);
              (st, s, b) \<leftarrow> SOPC_XmlElement_Read env (Some s) b lvl;
              s \<leftarrow> s;
              Some (st, x\<lparr>EO_Body := Body_Xml s\<rparr>, b) }
          | SOPC_ExtObjBodyEncoding_Object \<Rightarrow> do {
              t \<leftarrow> t;
              (_, uri) \<leftarrow> SOPC_String_AttachFromCstring (Some (Exp_NamespaceUri (EO_TypeId x))) (ot_uri T t);
              uri \<leftarrow> uri;
              (st, v, b) \<leftarrow> Read_Object T env t b lvl;
              Some (st, x\<lparr>EO_TypeId := (EO_TypeId x)\<lparr>Exp_NamespaceUri := uri\<rparr>,
                          EO_Body := Body_Object v (Some t)\<rparr>, b) });
       Some (st, Some (if st = SOPC_STATUS_OK then x\<lparr>EO_Encoding := enc\<rparr> else x), b) } }"

definition SOPC_ExtensionObject_Read ::
  "('t, 'o) object_ops \<Rightarrow> enc_env \<Rightarrow> ('t, 'o) SOPC_ExtensionObject reader" where
  "SOPC_ExtensionObject_Read T env extObj buf lvl =
     enc_guard env (extObj = None) lvl (extObj, buf)
       (on_error
         (and_then
           (on_field (\<lambda>x. Exp_NodeId (EO_TypeId x)) put_EO_NodeId
              (\<lambda>p b. SOPC_NodeId_Read env p b (lvl + 1)) (extObj, buf))
           (\<lambda>(p, b). do {
              x \<leftarrow> p;
              (st, e, b) \<leftarrow> SOPC_Byte_Read env (Some 0) b (lvl + 1);
              e \<leftarrow> e;
              and_then (Some (st, Some x, b)) (\<lambda>(p, b). ExtensionObject_Read_Body T env e x b (lvl + 1)) }))
         (\<lambda>st (p, b). (st,
            map_option (\<lambda>x. put_EO_NodeId (the (SOPC_NodeId_Clear (Some (Exp_NodeId (EO_TypeId x))))) x) p, b)))"

end
