(* ===== verification/Extension_Laws.thy ===== *)
theory Extension_Laws
  imports Extension_Object Variant_Plain_Laws
begin

unbundle bit_operations_syntax

text \<open>
  Extension objects satisfy the contract \<open>ext_codec\<close> that variants rely on, provided that the functions
  of each encodeable type satisfy the contract \<open>codec_upto\<close>.
\<close>

section \<open>A length written afterwards\<close>

lemma stream_patch:
  assumes "s_pos s \<le> length (s_bytes s)" "length xs' = length xs"
  shows "(stream_put xs' ((stream_put ys (stream_put xs s))\<lparr>s_pos := s_pos s\<rparr>))
      \<lparr>s_pos := s_pos s + length xs + length ys\<rparr> = stream_put (xs' @ ys) s"
  using assms by (simp add: stream_put_def ac_simps)

lemma set_position:
  assumes "buf_wf b" "unat p \<le> unat (buf_length b)"
  shows "SOPC_Buffer_SetPosition (Some b) p = (SOPC_STATUS_OK, Some (b\<lparr>position := p\<rparr>))"
    "buf_wf (b\<lparr>position := p\<rparr>)" "stream_of (b\<lparr>position := p\<rparr>) = (stream_of b)\<lparr>s_pos := unat p\<rparr>"
  using assms
  by (auto simp: SOPC_Buffer_SetPosition_def u32_le_iff buf_wf_def stream_of_def buf_bytes_def split: option.splits)

lemma Write_Object_writes:
  assumes env: "mem_total env" and lvl: "lvl < max_level env" and small: "length ob < 2 ^ 31"
    and enc: "writes_upto variant_statuses (\<lambda>b. encode (Some v) b lvl) ob"
  shows "writes_upto variant_statuses (\<lambda>b. Write_Object env encode (Some v) b lvl) (le_bytes 4 (length ob) @ ob)"
proof -
  let ?m = "-1 :: i32"
  have int: "writes_upto variant_statuses (\<lambda>b. SOPC_Int32_Write env (Some n) b lvl) (le_bytes 4 (unat n))" for n :: i32
    using writes_upto_mono [OF int32_c.write_law full_variant_statuses] env lvl by simp
  have both: "writes_upto variant_statuses
      (\<lambda>b. and_then (SOPC_Int32_Write env (Some ?m) b lvl) (\<lambda>b. encode (Some v) b lvl)) (le_bytes 4 (unat ?m) @ ob)"
    by (rule writes_seq [OF int enc])
  show ?thesis
  proof (rule writes_uptoI)
    fix b
    assume b: "buf_wf b" "unat (maximum_size b) \<le> 2 ^ 31" and
      fits: "unat (position b) + length (le_bytes 4 (length ob) @ ob) \<le> unat (maximum_size b)"
    obtain b2 where b2: "and_then (SOPC_Int32_Write env (Some ?m) (Some b) lvl) (\<lambda>b. encode (Some v) b lvl) =
        Some (SOPC_STATUS_OK, Some b2)" "buf_wf b2"
      "stream_of b2 = stream_put (le_bytes 4 (unat ?m) @ ob) (stream_of b)" "maximum_size b2 = maximum_size b"
      "unat (position b2) = unat (position b) + (4 + length ob)"
      using writes_ok [OF both b] fits by auto
    have le: "unat (position b) \<le> unat (position b2)" "unat (position b2) \<le> unat (buf_length b2)"
      using b2(2,5) by (auto elim!: buf_wfE)
    have len: "position b2 - (position b + 4) = of_nat (length ob)"
    proof -
      have "of_nat (unat (position b2)) = (of_nat (unat (position b)) + 4 + of_nat (length ob) :: u32)"
        by (simp only: b2(5) of_nat_add of_nat_numeral add.assoc)
      then show ?thesis by simp
    qed
    have ulen: "unat (of_nat (length ob) :: u32) = length ob" using small by (intro unat_of_nat_u32) simp
    then have le31: "(of_nat (length ob) :: u32) \<le> 2147483647" using small by (simp add: word_le_nat_alt)
    let ?b3 = "b2\<lparr>position := position b\<rparr>"
    note b3 = set_position [OF b2(2) order_trans [OF le]]
    obtain b4 where b4: "SOPC_Int32_Write env (Some (of_nat (length ob))) (Some ?b3) lvl = Some (SOPC_STATUS_OK, Some b4)"
      "buf_wf b4" "stream_of b4 = stream_put (le_bytes 4 (length ob)) (stream_of ?b3)"
      using writes_ok [OF int [of "of_nat (length ob)"] b3(2)] b2(4) b(2) fits ulen by auto
    have bytes: "unat (position b) \<le> length (s_bytes (stream_of b))"
      using b(1) by (simp add: length_buf_bytes) (auto elim!: buf_wfE)
    have "unat (position b2) \<le> unat (buf_length b4)"
    proof -
      have "length (s_bytes (stream_of b4)) = unat (buf_length b4)" using b4(2) by (simp add: length_buf_bytes)
      moreover have "length (s_bytes (stream_of b4)) = max (length (s_bytes (stream_of b2))) (unat (position b) + 4)"
        using b3(3) b4(3) stream_put_length [of "stream_of ?b3" "le_bytes 4 (length ob)"] le b2(2)
        by (simp add: length_buf_bytes)
      moreover have "length (s_bytes (stream_of b2)) = unat (buf_length b2)" using b2(2) by (simp add: length_buf_bytes)
      ultimately show ?thesis using le by simp
    qed
    note b5 = set_position [OF b4(2) this]
    have "stream_of (b4\<lparr>position := position b2\<rparr>) = stream_put (le_bytes 4 (length ob) @ ob) (stream_of b)"
      using b5(3) b4(3) b3(3) b2(3,5) bytes stream_patch [of "stream_of b" "le_bytes 4 (length ob)" "le_bytes 4 (unat ?m)" ob]
      by (simp add: stream_put_append ac_simps)
    moreover have "Write_Object env encode (Some v) (Some b) lvl =
        Some (SOPC_STATUS_OK, Some (b4\<lparr>position := position b2\<rparr>))"
      using b2(1) b3(1) b4(1) b5(1) len le31 by (simp add: Write_Object_def Let_def)
    ultimately show "\<exists>b'. Write_Object env encode (Some v) (Some b) lvl = Some (SOPC_STATUS_OK, Some b') \<and> buf_wf b' \<and>
        stream_of b' = stream_put (le_bytes 4 (length ob) @ ob) (stream_of b)"
      using b5(2) by blast
  next
    fix b
    assume b: "buf_wf b" "unat (maximum_size b) \<le> 2 ^ 31"
      "unat (maximum_size b) < unat (position b) + length (le_bytes 4 (length ob) @ ob)"
    then obtain st b' where "and_then (SOPC_Int32_Write env (Some ?m) (Some b) lvl) (\<lambda>b. encode (Some v) b lvl) =
        Some (st, Some b')" "st \<in> variant_statuses" "st \<noteq> SOPC_STATUS_OK" "buf_wf b'" "maximum_size b' = maximum_size b"
      using writes_full [OF both b(1,2)] by auto
    then show "\<exists>st b'. Write_Object env encode (Some v) (Some b) lvl = Some (st, Some b') \<and>
        st \<in> variant_statuses - {SOPC_STATUS_OK} \<and> buf_wf b' \<and> maximum_size b' = maximum_size b"
      by (auto simp: Write_Object_def Let_def)
  qed
qed

lemma and_then_skip: "and_then r (\<lambda>s. Some (SOPC_STATUS_OK, s)) = r"
  by (auto simp: and_then_def split: option.splits)

section \<open>Specification\<close>

record ('t, 'o) object_spec =
  o_enc :: "'t \<Rightarrow> enc_env \<Rightarrow> 'o \<Rightarrow> byte list"
  o_ok :: "'t \<Rightarrow> enc_env \<Rightarrow> 'o \<Rightarrow> bool"
  o_dec :: "'t \<Rightarrow> enc_env \<Rightarrow> 'o \<Rightarrow> 'o"
  o_good :: "'t \<Rightarrow> enc_env \<Rightarrow> 'o \<Rightarrow> bool"
  o_depth :: nat

definition object_codec :: "('t, 'o) object_ops \<Rightarrow> ('t, 'o) object_spec \<Rightarrow> bool" where
  "object_codec T Os \<longleftrightarrow>
     0 < o_depth Os \<and>
     (\<forall>ns n t. ot_lookup T ns n = Some t \<longrightarrow> (\<forall>c\<in>set_option (ot_uri T t). c_strlen c \<noteq> None)) \<and>
     (\<forall>t. codec_upto (ot_encode T t) (ot_decode T t) (o_enc Os t) (o_ok Os t) (ot_init T t) (o_dec Os t) (o_good Os t)
       (o_depth Os) variant_statuses)"

text \<open>A type that the decoder finds again, and an identifier under which it finds none.\<close>

definition registered :: "('t, 'o) object_ops \<Rightarrow> 't \<Rightarrow> bool" where
  "registered T t \<longleftrightarrow> ot_uri T t = None \<and> ot_lookup T (ot_ns T t) (ot_id T t) = Some t"

definition unregistered :: "('t, 'o) object_ops \<Rightarrow> SOPC_NodeId \<Rightarrow> bool" where
  "unregistered T n \<longleftrightarrow>
     (case NodeId_Data n of Id_Numeric v \<Rightarrow> ot_lookup T (NodeId_Namespace n) v = None | _ \<Rightarrow> True)"

abbreviation ext_id :: "('t, 'o) SOPC_ExtensionObject \<Rightarrow> SOPC_NodeId" where
  "ext_id x \<equiv> Exp_NodeId (EO_TypeId x)"

definition type_nodeid :: "('t, 'o) object_ops \<Rightarrow> 't \<Rightarrow> SOPC_NodeId" where
  "type_nodeid T t =
     \<lparr>NodeId_IdentifierType = SOPC_IdentifierType_Numeric, NodeId_Namespace = ot_ns T t,
      NodeId_Data = Id_Numeric (ot_id T t)\<rparr>"

definition extobj_ok :: "('t, 'o) object_ops \<Rightarrow> ('t, 'o) object_spec \<Rightarrow> enc_env \<Rightarrow> ('t, 'o) SOPC_ExtensionObject \<Rightarrow> bool" where
  "extobj_ok T Os env x =
     (case (EO_Encoding x, EO_Body x) of
        (SOPC_ExtObjBodyEncoding_None, _) \<Rightarrow> nodeid_ok env (ext_id x)
      | (SOPC_ExtObjBodyEncoding_ByteString, Body_Bstring s) \<Rightarrow>
          nodeid_ok env (ext_id x) \<and> string_ok env s \<and> unregistered T (ext_id x)
      | (SOPC_ExtObjBodyEncoding_XMLElement, Body_Xml s) \<Rightarrow> nodeid_ok env (ext_id x) \<and> string_ok env s
      | (SOPC_ExtObjBodyEncoding_Object, Body_Object (Some v) (Some t)) \<Rightarrow>
          registered T t \<and> o_ok Os t env v \<and> length (o_enc Os t env v) < 2 ^ 31
      | _ \<Rightarrow> False)"

definition enc_extobj :: "('t, 'o) object_ops \<Rightarrow> ('t, 'o) object_spec \<Rightarrow> enc_env \<Rightarrow> ('t, 'o) SOPC_ExtensionObject \<Rightarrow> byte list" where
  "enc_extobj T Os env x =
     (case (EO_Encoding x, EO_Body x) of
        (SOPC_ExtObjBodyEncoding_ByteString, Body_Bstring s) \<Rightarrow> (enc_nodeid (ext_id x) @ [1]) @ enc_string s
      | (SOPC_ExtObjBodyEncoding_XMLElement, Body_Xml s) \<Rightarrow> (enc_nodeid (ext_id x) @ [2]) @ enc_string s
      | (SOPC_ExtObjBodyEncoding_Object, Body_Object (Some v) (Some t)) \<Rightarrow>
          (enc_nodeid (type_nodeid T t) @ [1]) @ le_bytes 4 (length (o_enc Os t env v)) @ o_enc Os t env v
      | _ \<Rightarrow> enc_nodeid (ext_id x) @ [0])"

definition dec_extobj ::
  "('t, 'o) object_ops \<Rightarrow> ('t, 'o) object_spec \<Rightarrow> enc_env \<Rightarrow> ('t, 'o) SOPC_ExtensionObject \<Rightarrow> ('t, 'o) SOPC_ExtensionObject" where
  "dec_extobj T Os env x =
     (let n = (case (EO_Encoding x, EO_Body x) of
                 (SOPC_ExtObjBodyEncoding_Object, Body_Object v (Some t)) \<Rightarrow> type_nodeid T t
               | _ \<Rightarrow> dec_nodeid (ext_id x))
      in \<lparr>EO_TypeId = expnodeid_init\<lparr>Exp_NodeId := n\<rparr>, EO_Encoding = EO_Encoding x,
          EO_Body =
            (case (EO_Encoding x, EO_Body x) of
               (SOPC_ExtObjBodyEncoding_ByteString, Body_Bstring s) \<Rightarrow> Body_Bstring (dec_bytes [] s)
             | (SOPC_ExtObjBodyEncoding_XMLElement, Body_Xml s) \<Rightarrow> Body_Xml (dec_bytes [] s)
             | (SOPC_ExtObjBodyEncoding_Object, Body_Object (Some v) (Some t)) \<Rightarrow>
                 Body_Object (Some (o_dec Os t env v)) (Some t)
             | _ \<Rightarrow> Body_Zero)\<rparr>)"

definition extobj_good :: "('t, 'o) object_spec \<Rightarrow> enc_env \<Rightarrow> ('t, 'o) SOPC_ExtensionObject \<Rightarrow> bool" where
  "extobj_good Os env x \<longleftrightarrow>
     decoded_nodeid env (ext_id x) \<and>
     (case EO_Encoding x of
        SOPC_ExtObjBodyEncoding_None \<Rightarrow> EO_Body x = Body_Zero
      | SOPC_ExtObjBodyEncoding_ByteString \<Rightarrow> (\<exists>s. EO_Body x = Body_Bstring s \<and> decoded_bytes 0 env s)
      | SOPC_ExtObjBodyEncoding_XMLElement \<Rightarrow> (\<exists>s. EO_Body x = Body_Xml s \<and> decoded_bytes 0 env s)
      | SOPC_ExtObjBodyEncoding_Object \<Rightarrow> (\<exists>v t. EO_Body x = Body_Object (Some v) (Some t) \<and> o_good Os t env v))"

definition extobj_depth :: "('t, 'o) object_spec \<Rightarrow> nat" where
  "extobj_depth Os = 1 + max 3 (o_depth Os)"

definition extobj_ops :: "('t, 'o) object_ops \<Rightarrow> ('t, 'o) SOPC_ExtensionObject ext_ops" where
  "extobj_ops T = \<lparr>ext_write = SOPC_ExtensionObject_Write T, ext_read = SOPC_ExtensionObject_Read T, ext_init = extobj_init\<rparr>"

definition extobj_spec :: "('t, 'o) object_ops \<Rightarrow> ('t, 'o) object_spec \<Rightarrow> ('t, 'o) SOPC_ExtensionObject ext_spec" where
  "extobj_spec T Os =
     \<lparr>x_enc = enc_extobj T Os, x_ok = extobj_ok T Os, x_dec = dec_extobj T Os, x_good = extobj_good Os,
      x_depth = extobj_depth Os\<rparr>"

lemma extobj_ok_cases [consumes 1, case_names None ByteString Xml Object]:
  assumes "extobj_ok T Os env x"
  obtains "EO_Encoding x = SOPC_ExtObjBodyEncoding_None" "nodeid_ok env (ext_id x)"
  | s where "EO_Encoding x = SOPC_ExtObjBodyEncoding_ByteString" "EO_Body x = Body_Bstring s"
    "nodeid_ok env (ext_id x)" "string_ok env s" "unregistered T (ext_id x)"
  | s where "EO_Encoding x = SOPC_ExtObjBodyEncoding_XMLElement" "EO_Body x = Body_Xml s"
    "nodeid_ok env (ext_id x)" "string_ok env s"
  | v t where "EO_Encoding x = SOPC_ExtObjBodyEncoding_Object" "EO_Body x = Body_Object (Some v) (Some t)"
    "registered T t" "o_ok Os t env v" "length (o_enc Os t env v) < 2 ^ 31"
  using assms
  by (auto simp: extobj_ok_def split: SOPC_ExtObjectBodyEncoding.splits SOPC_ExtObject_Body.splits option.splits)

lemma type_nodeid_ok [simp]: "nodeid_ok env (type_nodeid T t)" "dec_nodeid (type_nodeid T t) = type_nodeid T t"
  by (simp_all add: nodeid_ok.simps type_nodeid_def dec_nodeid_def)

lemma type_nodeid_update:
  "n\<lparr>NodeId_IdentifierType := SOPC_IdentifierType_Numeric, NodeId_Namespace := ot_ns T t,
     NodeId_Data := Id_Numeric (ot_id T t)\<rparr> = type_nodeid T t"
  by (cases n) (simp add: type_nodeid_def)

lemma object_codecD:
  assumes "object_codec T Os"
  shows "codec_core (ot_encode T t) (ot_decode T t) (o_enc Os t) (o_ok Os t) (ot_init T t) (o_dec Os t) (o_depth Os)
      variant_statuses"
    and "decoder (ot_decode T t) (ot_init T t) (o_good Os t)"
    and "ot_lookup T ns n = Some t \<Longrightarrow> ot_uri T t = Some c \<Longrightarrow> \<exists>k. c_strlen c = Some k"
  using assms by (auto simp: object_codec_def codec_upto_def)

section \<open>Writing\<close>

lemma extobj_writes:
  assumes Os: "object_codec T Os" and env: "mem_total env" and ok: "extobj_ok T Os env x"
    and lvl: "lvl + extobj_depth Os \<le> max_level env"
  shows "writes_upto variant_statuses (\<lambda>b. SOPC_ExtensionObject_Write T env (Some x) b lvl) (enc_extobj T Os env x)"
proof -
  have l: "lvl < max_level env" "lvl + 1 + 3 \<le> max_level env" "lvl + 1 + o_depth Os \<le> max_level env"
    using lvl by (simp_all add: extobj_depth_def)
  note up = writes_upto_mono [OF _ full_variant_statuses]
  have hd: "writes_upto variant_statuses (\<lambda>b. and_then (SOPC_NodeId_Write env (Some n) b (lvl + 1))
      (\<lambda>b. SOPC_Byte_Write env (Some e) b (lvl + 1))) (enc_nodeid n @ [e])" if "nodeid_ok env n" for n e
    using writes_seq [OF up [OF nodeid_c.write_law [OF env that l(2)]] up [OF byte_c.write_law [OF env _, of "lvl + 1" e]]]
      l(2) le_bytes_byte [of e] by simp
  from ok show ?thesis
  proof (cases rule: extobj_ok_cases)
    case None
    then show ?thesis
      unfolding SOPC_ExtensionObject_Write_def
      by (intro writes_guard l) (use hd [of "ext_id x" 0] in \<open>simp_all add: enc_extobj_def and_then_skip\<close>)
  next
    case (ByteString s)
    then show ?thesis
      unfolding SOPC_ExtensionObject_Write_def
      by (intro writes_guard l)
        (use writes_seq [OF hd [of "ext_id x" 1] up [OF bytestring_c.write_law [OF env, of s "lvl + 1"]]] l(2)
          in \<open>simp_all add: enc_extobj_def\<close>)
  next
    case (Xml s)
    then show ?thesis
      unfolding SOPC_ExtensionObject_Write_def
      by (intro writes_guard l)
        (use writes_seq [OF hd [of "ext_id x" 2] up [OF xmlelement_c.write_law [OF env, of s "lvl + 1"]]] l(2)
          in \<open>simp_all add: enc_extobj_def\<close>)
  next
    case (Object v t)
    have "writes_upto variant_statuses (\<lambda>b. Write_Object env (ot_encode T t env) (Some v) b (lvl + 1))
        (le_bytes 4 (length (o_enc Os t env v)) @ o_enc Os t env v)"
      using codec_core.write_law [OF object_codecD(1) [OF Os] env Object(4) l(3)] Object(5) l(2)
      by (intro Write_Object_writes env) simp_all
    from writes_seq [OF hd [of "type_nodeid T t" 1] this] Object show ?thesis
      unfolding SOPC_ExtensionObject_Write_def
      by (intro writes_guard l) (simp_all add: enc_extobj_def registered_def type_nodeid_update)
  qed
qed

section \<open>Reading\<close>

abbreviation eo_start :: "SOPC_NodeId \<Rightarrow> ('t, 'o) SOPC_ExtensionObject" where
  "eo_start n \<equiv> put_EO_NodeId n extobj_init"

text \<open>The identifier and the encoding byte, then the body.\<close>

lemma extobj_reads_head:
  assumes "mem_total env" "lvl + 1 + 3 \<le> max_level env" "nodeid_ok env n"
    and body: "reads (\<lambda>(p, b). do { x \<leftarrow> p; ExtensionObject_Read_Body T env e x b (lvl + 1) })
      (eo_start (dec_nodeid n)) x bs"
  shows "reads (\<lambda>(p, b). SOPC_ExtensionObject_Read T env p b lvl) extobj_init x ((enc_nodeid n @ [e]) @ bs)"
proof -
  have "reads (\<lambda>(p, b). do { (st, e, b) \<leftarrow> SOPC_Byte_Read env (Some 0) b (lvl + 1); e \<leftarrow> e;
      (\<lambda>st e p b. do { x \<leftarrow> p;
        and_then (Some (st, Some x, b)) (\<lambda>(p, b). ExtensionObject_Read_Body T env e x b (lvl + 1)) }) st e p b })
      (eo_start (dec_nodeid n)) x (le_bytes 1 (unat e) @ bs)"
    by (rule reads_flags) (use assms in simp_all)
  then have rest: "reads (\<lambda>(p, b). do { x \<leftarrow> p; (st, e, b) \<leftarrow> SOPC_Byte_Read env (Some 0) b (lvl + 1); e \<leftarrow> e;
      and_then (Some (st, Some x, b)) (\<lambda>(p, b). ExtensionObject_Read_Body T env e x b (lvl + 1)) })
      (eo_start (dec_nodeid n)) x ([e] @ bs)"
    unfolding le_bytes_byte reads_def by simp
  show ?thesis
    unfolding SOPC_ExtensionObject_Read_def append_assoc
    by (rule reads_guard, use assms in simp, simp, rule reads_on_error2, rule reads_seq2 [OF reads_field2 rest])
      (use nodeid_c.read_law [OF assms(1,3,2)] in \<open>simp_all add: extobj_init_def expnodeid_init_def\<close>)
qed

lemma Read_Object_law:
  assumes Os: "object_codec T Os" and env: "mem_total env" and lvl: "lvl + o_depth Os \<le> max_level env" "lvl < max_level env"
    and v: "o_ok Os t env v" "length (o_enc Os t env v) < 2 ^ 31"
    and b: "buf_wf b" "unat (buf_length b) \<le> 2 ^ 31"
    and rest: "stream_rest (stream_of b) = (le_bytes 4 (length (o_enc Os t env v)) @ o_enc Os t env v) @ rest"
  shows "Read_Object T env t (Some b) lvl =
    Some (SOPC_STATUS_OK, Some (o_dec Os t env v), Some (buf_advance (4 + length (o_enc Os t env v)) b))"
proof -
  let ?ob = "o_enc Os t env v"
  have r: "stream_rest (stream_of b) = le_bytes 4 (unat (of_nat (length ?ob) :: i32)) @ ?ob @ rest"
    using rest v(2) by (simp add: unat_of_nat_u32)
  have "SOPC_Int32_Read env (Some 0) (Some b) lvl =
      Some (SOPC_STATUS_OK, Some (of_nat (length ?ob)), Some (buf_advance 4 b))"
    using reads_bindD [OF int32_c.read_law b r] env lvl by simp
  moreover have "ot_decode T t env (Some (ot_init T t)) (Some (buf_advance 4 b)) lvl =
      Some (SOPC_STATUS_OK, Some (o_dec Os t env v), Some (buf_advance (length ?ob) (buf_advance 4 b)))"
    using reads_bindD [OF codec_core.read_law [OF object_codecD(1) [OF Os] env v(1) lvl(1)], of "buf_advance 4 b" rest]
      stream_rest_split [OF b(1) r] b(2) by simp
  ultimately show ?thesis using env by (simp add: Read_Object_def buf_advance_advance)
qed

lemma body_type_opaque:
  "nodeid_ok env n \<Longrightarrow> unregistered T n \<Longrightarrow>
    ExtensionObject_Body_Type T 1 (dec_nodeid n) = Some (SOPC_STATUS_OK, SOPC_ExtObjBodyEncoding_ByteString, None)"
  by (erule nodeid_ok_cases) (simp_all add: ExtensionObject_Body_Type_def unregistered_def dec_nodeid_def)

lemma body_type_object:
  "registered T t \<Longrightarrow>
    ExtensionObject_Body_Type T 1 (type_nodeid T t) = Some (SOPC_STATUS_OK, SOPC_ExtObjBodyEncoding_Object, Some t)"
  by (simp add: ExtensionObject_Body_Type_def type_nodeid_def registered_def)

lemma extobj_reads:
  assumes Os: "object_codec T Os" and env: "mem_total env" and ok: "extobj_ok T Os env x"
    and lvl: "lvl + extobj_depth Os \<le> max_level env"
  shows "reads (\<lambda>(p, b). SOPC_ExtensionObject_Read T env p b lvl) extobj_init (dec_extobj T Os env x) (enc_extobj T Os env x)"
proof -
  have l: "lvl + 1 + 3 \<le> max_level env" "lvl + 1 + o_depth Os \<le> max_level env" "lvl + 1 < max_level env"
    using lvl by (simp_all add: extobj_depth_def)
  note defs = ExtensionObject_Read_Body_def put_EO_NodeId_def extobj_init_def dec_extobj_def expnodeid_init_def
  note hd = extobj_reads_head [OF env l(1)]
  have zero: "string_start body_string_zero" by (simp add: string_start_def body_string_zero_def)
  from ok show ?thesis
  proof (cases rule: extobj_ok_cases)
    case None
    then show ?thesis using hd [OF None(2), of T 0 "dec_extobj T Os env x" "[]"]
      by (simp add: reads_def defs enc_extobj_def ExtensionObject_Body_Type_def)
  next
    case (ByteString s)
    have "reads (\<lambda>(p, b). do { x \<leftarrow> p; ExtensionObject_Read_Body T env 1 x b (lvl + 1) })
        (eo_start (dec_nodeid (ext_id x))) (dec_extobj T Os env x) (enc_string s)"
      using ByteString bytestring_reads [OF env ByteString(4) _ zero, of "lvl + 1"] l
        body_type_opaque [OF ByteString(3,5)]
      by (simp add: reads_def defs)
    from hd [OF ByteString(3) this] ByteString show ?thesis by (simp add: enc_extobj_def)
  next
    case (Xml s)
    have "reads (\<lambda>(p, b). do { x \<leftarrow> p; ExtensionObject_Read_Body T env 2 x b (lvl + 1) })
        (eo_start (dec_nodeid (ext_id x))) (dec_extobj T Os env x) (enc_string s)"
      using Xml bytestring_reads [OF env Xml(4) _ zero, of "lvl + 1"] l
      by (simp add: reads_def defs SOPC_XmlElement_Read_def ExtensionObject_Body_Type_def)
    from hd [OF Xml(3) this] Xml show ?thesis by (simp add: enc_extobj_def)
  next
    case (Object v t)
    have "reads (\<lambda>(p, b). do { x \<leftarrow> p; ExtensionObject_Read_Body T env 1 x b (lvl + 1) })
        (eo_start (dec_nodeid (type_nodeid T t))) (dec_extobj T Os env x)
        (le_bytes 4 (length (o_enc Os t env v)) @ o_enc Os t env v)"
      unfolding reads_def
      using Object(1-3) Read_Object_law [OF Os env l(2,3) Object(4,5)] body_type_object [OF Object(3)]
      by (simp add: defs registered_def SOPC_String_AttachFromCstring_def)
    from hd [OF type_nodeid_ok(1) this] Object show ?thesis by (simp add: enc_extobj_def)
  qed
qed

section \<open>Reading an arbitrary buffer\<close>

lemma body_type_cases [consumes 1, case_names Invalid None ByteString Xml Object]:
  assumes "decoded_nodeid env n"
  obtains enc t where "ExtensionObject_Body_Type T e n = Some (SOPC_STATUS_ENCODING_ERROR, enc, t)"
  | "ExtensionObject_Body_Type T e n = Some (SOPC_STATUS_OK, SOPC_ExtObjBodyEncoding_None, None)"
  | "ExtensionObject_Body_Type T e n = Some (SOPC_STATUS_OK, SOPC_ExtObjBodyEncoding_ByteString, None)"
  | "ExtensionObject_Body_Type T e n = Some (SOPC_STATUS_OK, SOPC_ExtObjBodyEncoding_XMLElement, None)"
  | t ns k where "ExtensionObject_Body_Type T e n = Some (SOPC_STATUS_OK, SOPC_ExtObjBodyEncoding_Object, Some t)"
    "ot_lookup T ns k = Some t"
proof -
  show thesis
  proof (cases "e = 1 \<and> NodeId_IdentifierType n = SOPC_IdentifierType_Numeric")
    case True
    then obtain k where "NodeId_Data n = Id_Numeric k"
      using assms by (auto simp: decoded_nodeid_def split: SOPC_NodeId_Data.splits)
    with True show thesis
      using that(3,5) by (cases "ot_lookup T (NodeId_Namespace n) k") (auto simp: ExtensionObject_Body_Type_def)
  next
    case False
    then show thesis
      using that(1-4) by (cases "e = 0"; cases "e = 1"; cases "e = 2") (simp_all add: ExtensionObject_Body_Type_def)
  qed
qed

lemma attach_uri:
  assumes "\<And>c. uri = Some c \<Longrightarrow> \<exists>k. c_strlen c = Some k"
  shows "\<exists>st s. SOPC_String_AttachFromCstring (Some d) uri = Some (st, Some s)"
  using assms by (cases uri) (auto simp: SOPC_String_AttachFromCstring_def)

lemma Read_Object_safe:
  assumes Os: "object_codec T Os" and b: "buf_wf b" "unat (buf_length b) \<le> 2 ^ 31"
  obtains st v b' where "Read_Object T env t (Some b) lvl = Some (st, v, Some b')" "buf_read_step b b'"
    "st = SOPC_STATUS_OK \<Longrightarrow> \<exists>w. v = Some w \<and> o_good Os t env w"
proof -
  obtain st1 n b1 where 1: "SOPC_Int32_Read env (Some 0) (Some b) lvl = Some (st1, Some n, Some b1)"
    "buf_read_step b b1" "buf_wf b1" "unat (buf_length b1) \<le> 2 ^ 31"
    using safe_readE [OF int32_c.read_safe b] by metis
  obtain st2 w b2 where 2: "ot_decode T t env (Some (ot_init T t)) (Some b1) lvl = Some (st2, Some w, Some b2)"
    "buf_read_step b1 b2" "st2 = SOPC_STATUS_OK \<Longrightarrow> o_good Os t env w"
    using safe_readE [OF decoder.read_safe [OF object_codecD(2) [OF Os]] 1(3,4)] by metis
  show thesis
  proof (cases "st1 = SOPC_STATUS_OK \<and> mem_ok env (ot_size T t)")
    case True
    with that [OF _ buf_read_step_trans [OF 1(2) 2(2)]] 1(1) 2(1,3) show thesis by (simp add: Read_Object_def)
  next
    case False
    then obtain st where "Read_Object T env t (Some b) lvl = Some (st, None, Some b1)" "st \<noteq> SOPC_STATUS_OK"
      using 1(1) by (cases "st1 = SOPC_STATUS_OK") (simp_all add: Read_Object_def)
    with that [OF _ 1(2)] show thesis by simp
  qed
qed

lemma body_safe:
  assumes Os: "object_codec T Os" and n: "decoded_nodeid env n"
  shows "safe_read (\<lambda>(p, b). do { x \<leftarrow> p; ExtensionObject_Read_Body T env e x b lvl }) (eo_start n) (extobj_good Os env)"
  unfolding safe_read_def
proof (intro allI impI, goal_cases)
  case (1 b)
  note defs = ExtensionObject_Read_Body_def put_EO_NodeId_def extobj_init_def expnodeid_init_def extobj_good_def
  have "string_start body_string_zero" by (simp add: string_start_def body_string_zero_def)
  from safe_readE [OF bytestring_safe [OF this] 1] obtain st s b'
    where s: "SOPC_ByteString_Read env (Some body_string_zero) (Some b) lvl = Some (st, Some s, Some b')"
    "buf_read_step b b'" "st = SOPC_STATUS_OK \<Longrightarrow> decoded_bytes 0 env s"
    by metis
  from n show ?case
  proof (cases rule: body_type_cases [where T = T and e = e])
    case (Object t ns k)
    obtain st v b' where v: "Read_Object T env t (Some b) lvl = Some (st, v, Some b')" "buf_read_step b b'"
      "st = SOPC_STATUS_OK \<Longrightarrow> \<exists>w. v = Some w \<and> o_good Os t env w"
      using Read_Object_safe [OF Os 1] by metis
    moreover obtain st2 u where "SOPC_String_AttachFromCstring (Some str_init) (ot_uri T t) = Some (st2, Some u)"
      using attach_uri object_codecD(3) [OF Os Object(2)] by metis
    ultimately show ?thesis
      using Object(1) n by (cases "st = SOPC_STATUS_OK") (auto simp: defs)
  qed (use s n buf_read_step_refl [OF 1(1)] in \<open>auto simp: defs SOPC_XmlElement_Read_def\<close>)
qed

lemma extobj_safe:
  assumes Os: "object_codec T Os"
  shows "safe_read (\<lambda>(p, b). SOPC_ExtensionObject_Read T env p b lvl) extobj_init (extobj_good Os env)"
proof -
  let ?B = "\<lambda>st e p b. do { x \<leftarrow> p;
      and_then (Some (st, Some x, b)) (\<lambda>(p, b). ExtensionObject_Read_Body T env e x b (lvl + 1)) }"
  have rest: "safe_read (\<lambda>(p, b). do { x \<leftarrow> p; (st, e, b) \<leftarrow> SOPC_Byte_Read env (Some 0) b (lvl + 1); e \<leftarrow> e;
      and_then (Some (st, Some x, b)) (\<lambda>(p, b). ExtensionObject_Read_Body T env e x b (lvl + 1)) })
      x (extobj_good Os env)" if "\<exists>n. decoded_nodeid env n \<and> x = eo_start n" for x
  proof -
    have "safe_read (\<lambda>(p, b). do { (st, e, b) \<leftarrow> SOPC_Byte_Read env (Some 0) b (lvl + 1); e \<leftarrow> e; ?B st e p b })
        x (extobj_good Os env)"
      by (rule safe_flags) (use that body_safe [OF Os] in auto)
    then show ?thesis unfolding safe_read_def by simp
  qed
  have hd: "safe_read (\<lambda>(p, b). on_field (\<lambda>x. Exp_NodeId (EO_TypeId x)) put_EO_NodeId
      (\<lambda>p b. SOPC_NodeId_Read env p b (lvl + 1)) (p, b)) extobj_init (\<lambda>x. \<exists>n. decoded_nodeid env n \<and> x = eo_start n)"
    by (rule safe_field2 [where Q = "decoded_nodeid env"])
      (use nodeid_c.read_safe [of env "lvl + 1"] in \<open>auto simp: extobj_init_def expnodeid_init_def\<close>)
  show ?thesis
    unfolding SOPC_ExtensionObject_Read_def
    by (rule safe_read_guard, rule safe_on_error2, rule safe_seq2 [OF hd rest]) auto
qed

theorem extobj_codec:
  assumes "object_codec T Os"
  shows "ext_codec (extobj_ops T) (extobj_spec T Os)"
  unfolding ext_codec_def extobj_ops_def extobj_spec_def ext_ops.simps ext_spec.simps
  by unfold_locales
    ((rule extobj_writes [OF assms]; assumption) | (rule extobj_reads [OF assms]; assumption) |
     rule extobj_safe [OF assms] | simp add: extobj_depth_def)+

end
