(* ===== verification/Message_Body.thy ===== *)
theory Message_Body
  imports Extension_Laws
begin

text \<open>
  The functions at the end of \<open>src/Common/opcua_types/sopc_encoder.c\<close> that encode and decode a whole
  message (the identifier of its type, a header and a body) or an object in a byte string. The encodeable
  types are the parameters of extension objects; the decoder of a type initialises the block it is given
  before it reads, hence the initial value in the calls below.
\<close>

section \<open>Messages\<close>

definition OpcUaId_ServiceFault :: u32 where "OpcUaId_ServiceFault = 395"
definition OPCUA_NAMESPACE_INDEX :: u16 where "OPCUA_NAMESPACE_INDEX = 0"

definition message_nodeid :: "('t, 'o) object_ops \<Rightarrow> 't \<Rightarrow> SOPC_NodeId" where
  "message_nodeid T t =
     nodeid_zero\<lparr>NodeId_IdentifierType := SOPC_IdentifierType_Numeric, NodeId_Namespace := 0,
                 NodeId_Data := Id_Numeric (ot_id T t)\<rparr>"

definition SOPC_EncodeMsg_Type_Header_Body ::
  "('t, 'o) object_ops \<Rightarrow> enc_env \<Rightarrow> bufp \<Rightarrow> 't option \<Rightarrow> 't option \<Rightarrow> 'o option \<Rightarrow> 'o option \<Rightarrow>
   (SOPC_ReturnStatus \<times> bufp) option" where
  "SOPC_EncodeMsg_Type_Header_Body T env buf encType headerType msgHeader msgBody =
     (case (encType, headerType) of
        (Some t, Some h) \<Rightarrow>
          if buf \<noteq> None \<and> (msgBody \<noteq> None \<or> ot_type T t = OpcUaId_ServiceFault) \<and> msgHeader \<noteq> None then
            and_when
              (and_then (SOPC_NodeId_Write env (Some (message_nodeid T t)) buf 0)
                (\<lambda>buf. ot_encode T h env msgHeader buf 0))
              (ot_type T t \<noteq> OpcUaId_ServiceFault)
              (\<lambda>buf. ot_encode T t env msgBody buf 0)
          else Some (SOPC_STATUS_INVALID_PARAMETERS, buf)
      | _ \<Rightarrow> Some (SOPC_STATUS_INVALID_PARAMETERS, buf))"

text \<open>\<open>receivedEncType\<close> is what the output parameter points to.\<close>

definition SOPC_MsgBodyType_Read ::
  "('t, 'o) object_ops \<Rightarrow> enc_env \<Rightarrow> bufp \<Rightarrow> 't option \<Rightarrow> (SOPC_ReturnStatus \<times> 't option \<times> bufp) option" where
  "SOPC_MsgBodyType_Read T env buf receivedEncType =
     (if buf = None then Some (SOPC_STATUS_INVALID_PARAMETERS, receivedEncType, buf)
      else do {
        (st, n, buf) \<leftarrow> SOPC_NodeId_Read env (Some nodeid_zero) buf 0;
        n \<leftarrow> n;
        if st = SOPC_STATUS_OK \<and> NodeId_IdentifierType n = SOPC_IdentifierType_Numeric then
          (if NodeId_Namespace n = OPCUA_NAMESPACE_INDEX then do {
             k \<leftarrow> union_Numeric (NodeId_Data n);
             Some (st, ot_lookup T OPCUA_NAMESPACE_INDEX k, buf) }
           else Some (SOPC_STATUS_ENCODING_ERROR, None, buf))
        else Some (st, receivedEncType, buf) })"

definition SOPC_DecodeMsg_HeaderOrBody ::
  "('t, 'o) object_ops \<Rightarrow> enc_env \<Rightarrow> bufp \<Rightarrow> 't option \<Rightarrow> 'o option option \<Rightarrow>
   (SOPC_ReturnStatus \<times> 'o option option \<times> bufp) option" where
  "SOPC_DecodeMsg_HeaderOrBody T env buf msgEncType encodeableObj =
     (case msgEncType of
        Some t \<Rightarrow>
          if buf \<noteq> None \<and> encodeableObj \<noteq> None then
            (if mem_ok env (ot_size T t) then do {
               (st, v, buf) \<leftarrow> ot_decode T t env (Some (ot_init T t)) buf 0;
               Some (st, Some (if st \<noteq> SOPC_STATUS_OK then None else v), buf) }
             else Some (SOPC_STATUS_NOK, Some None, buf))
          else Some (SOPC_STATUS_INVALID_PARAMETERS, encodeableObj, buf)
      | None \<Rightarrow> Some (SOPC_STATUS_INVALID_PARAMETERS, encodeableObj, buf))"

section \<open>Objects in byte strings\<close>

definition SOPC_DEFAULT_MAX_STRING_LENGTH :: u32 where "SOPC_DEFAULT_MAX_STRING_LENGTH = 65535"

definition SOPC_EncodeableObject_EncodeToByteString ::
  "('t, 'o) object_ops \<Rightarrow> enc_env \<Rightarrow> 't option \<Rightarrow> 'o option \<Rightarrow> SOPC_ByteString option \<Rightarrow>
   (SOPC_ReturnStatus \<times> SOPC_ByteString option) option" where
  "SOPC_EncodeableObject_EncodeToByteString T env type srcValue destByteString =
     (case (type, destByteString) of
        (Some t, Some s) \<Rightarrow>
          if srcValue = None then Some (SOPC_STATUS_INVALID_PARAMETERS, destByteString)
          else (case SOPC_Buffer_CreateResizable env (of_nat (ot_size T t)) SOPC_DEFAULT_MAX_STRING_LENGTH of
             None \<Rightarrow> Some (SOPC_STATUS_OUT_OF_MEMORY, destByteString)
           | Some pEncoded \<Rightarrow> do {
               (st, pEncoded) \<leftarrow> ot_encode T t env srcValue (Some pEncoded) 0;
               pEncoded \<leftarrow> pEncoded;
               Some (st, Some (if st = SOPC_STATUS_OK
                               then s\<lparr>Str_Data := buf_data pEncoded, Str_Length := buf_length pEncoded\<rparr> else s)) })
      | _ \<Rightarrow> Some (SOPC_STATUS_INVALID_PARAMETERS, destByteString))"

definition SOPC_EncodeableObject_DecodeFromByteString ::
  "('t, 'o) object_ops \<Rightarrow> enc_env \<Rightarrow> 't option \<Rightarrow> SOPC_ByteString option \<Rightarrow> 'o option \<Rightarrow>
   (SOPC_ReturnStatus \<times> 'o option) option" where
  "SOPC_EncodeableObject_DecodeFromByteString T env type srcByteString destValue =
     (case (type, srcByteString) of
        (Some t, Some s) \<Rightarrow>
          if destValue = None then Some (SOPC_STATUS_INVALID_PARAMETERS, destValue)
          else (case SOPC_Buffer_Attach env (Str_Data s) (Str_Length s) of
             None \<Rightarrow> Some (SOPC_STATUS_OUT_OF_MEMORY, destValue)
           | Some pToDecode \<Rightarrow>
               (case SOPC_Buffer_SetPosition (Some pToDecode) 0 of
                  (st, pToDecode) \<Rightarrow>
                    if st = SOPC_STATUS_OK then do {
                      (st, v, _) \<leftarrow> ot_decode T t env (Some (ot_init T t)) pToDecode 0;
                      Some (st, v) }
                    else Some (st, destValue)))
      | _ \<Rightarrow> Some (SOPC_STATUS_INVALID_PARAMETERS, destValue))"

section \<open>Laws\<close>

definition enc_message ::
  "('t, 'o) object_ops \<Rightarrow> ('t, 'o) object_spec \<Rightarrow> enc_env \<Rightarrow> 't \<Rightarrow> 't \<Rightarrow> 'o \<Rightarrow> 'o \<Rightarrow> byte list" where
  "enc_message T Os env t h hv v =
     (enc_nodeid (message_nodeid T t) @ o_enc Os h env hv) @
     (if ot_type T t \<noteq> OpcUaId_ServiceFault then o_enc Os t env v else [])"

lemma message_nodeid_ok:
  "nodeid_ok env (message_nodeid T t)" "dec_nodeid (message_nodeid T t) = message_nodeid T t"
  by (simp_all add: message_nodeid_def nodeid_ok.simps dec_nodeid_def)

lemma message_writes:
  assumes Os: "object_codec T Os" and env: "mem_total env" "max 3 (o_depth Os) \<le> max_level env"
    and ok: "o_ok Os h env hv" "o_ok Os t env v"
  shows "writes_upto variant_statuses
    (\<lambda>b. SOPC_EncodeMsg_Type_Header_Body T env b (Some t) (Some h) (Some hv) (Some v)) (enc_message T Os env t h hv v)"
proof -
  have l: "0 + 3 \<le> max_level env" "0 + o_depth Os \<le> max_level env" using env(2) by simp_all
  note W = codec_core.write_law [OF object_codecD(1) [OF Os] env(1)]
  have "writes_upto variant_statuses (\<lambda>b. and_when (and_then (SOPC_NodeId_Write env (Some (message_nodeid T t)) b 0)
      (\<lambda>b. ot_encode T h env (Some hv) b 0)) (ot_type T t \<noteq> OpcUaId_ServiceFault) (\<lambda>b. ot_encode T t env (Some v) b 0))
      (enc_message T Os env t h hv v)"
    unfolding enc_message_def
    by (rule writes_when [OF writes_seq [OF writes_upto_mono [OF nodeid_c.write_law [OF env(1) message_nodeid_ok(1) l(1)]
            full_variant_statuses] W [OF ok(1) l(2)]] W [OF ok(2) l(2)]])
  then show ?thesis by (subst (asm) writes_cong) (simp_all add: SOPC_EncodeMsg_Type_Header_Body_def)
qed

lemma type_read_law:
  assumes env: "mem_total env" "3 \<le> max_level env" and b: "buf_wf b" "unat (buf_length b) \<le> 2 ^ 31"
    and rest: "stream_rest (stream_of b) = enc_nodeid (message_nodeid T t) @ rest"
  shows "SOPC_MsgBodyType_Read T env (Some b) rt =
    Some (SOPC_STATUS_OK, ot_lookup T OPCUA_NAMESPACE_INDEX (ot_id T t),
      Some (buf_advance (length (enc_nodeid (message_nodeid T t))) b))"
proof -
  have "0 + 3 \<le> max_level env" using env(2) by simp
  from reads_bindD [OF nodeid_c.read_law [OF env(1) message_nodeid_ok(1) this] b rest]
  show ?thesis
    by (simp add: SOPC_MsgBodyType_Read_def message_nodeid_ok)
      (simp add: message_nodeid_def OPCUA_NAMESPACE_INDEX_def)
qed

lemma part_read_law:
  assumes Os: "object_codec T Os" and env: "mem_total env" "o_depth Os \<le> max_level env" and ok: "o_ok Os t env v"
    and b: "buf_wf b" "unat (buf_length b) \<le> 2 ^ 31" and rest: "stream_rest (stream_of b) = o_enc Os t env v @ rest"
  shows "SOPC_DecodeMsg_HeaderOrBody T env (Some b) (Some t) (Some p) =
    Some (SOPC_STATUS_OK, Some (Some (o_dec Os t env v)), Some (buf_advance (length (o_enc Os t env v)) b))"
proof -
  have "0 + o_depth Os \<le> max_level env" using env(2) by simp
  from reads_bindD [OF codec_core.read_law [OF object_codecD(1) [OF Os] env(1) ok this] b rest] env(1)
  show ?thesis by (simp add: SOPC_DecodeMsg_HeaderOrBody_def)
qed

end
