(* ===== verification/Variant_Properties.thy ===== *)
theory Variant_Properties
  imports Variant_Safe Message_Body Encoder_Properties
begin

unbundle bit_operations_syntax

text \<open>
  What the laws of variants, data values and extension objects mean for the users of the encoder. The
  functions of the encodeable types are parameters, with the contract \<open>object_codec\<close>.
\<close>

section \<open>Examples for the witnesses\<close>

text \<open>One registered type, whose objects are encoded as qualified names.\<close>

definition demo_types :: "(unit, SOPC_QualifiedName) object_ops" where
  "demo_types =
     \<lparr>ot_lookup = (\<lambda>ns n. if ns \<le> 1 \<and> n = 3000 then Some () else None), ot_uri = (\<lambda>_. None), ot_ns = (\<lambda>_. 1),
      ot_type = (\<lambda>_. 2999), ot_id = (\<lambda>_. 3000), ot_size = (\<lambda>_. 24), ot_init = (\<lambda>_. qname_init),
      ot_encode = (\<lambda>_. SOPC_QualifiedName_Write), ot_decode = (\<lambda>_. SOPC_QualifiedName_Read)\<rparr>"

definition demo_objects :: "(unit, SOPC_QualifiedName) object_spec" where
  "demo_objects =
     \<lparr>o_enc = (\<lambda>_ _. enc_qname), o_ok = (\<lambda>_. qname_ok), o_dec = (\<lambda>_ _. dec_qname),
      o_good = (\<lambda>_ env q. decoded_bytes 1 env (QN_Name q)), o_depth = 3\<rparr>"

lemma demo_object_codec: "object_codec demo_types demo_objects"
  using codec_upto_mono [OF qname_c.codec_upto_axioms full_variant_statuses]
  by (simp add: object_codec_def demo_types_def demo_objects_def)

text \<open>An object, and an array of two variants: a matrix of integers and that object.\<close>

definition demo_object :: "(unit, SOPC_QualifiedName) SOPC_ExtensionObject" where
  "demo_object =
     \<lparr>EO_TypeId = expnodeid_init, EO_Encoding = SOPC_ExtObjBodyEncoding_Object,
      EO_Body = Body_Object (Some \<lparr>QN_NamespaceIndex = 1, QN_Name = demo_string [78]\<rparr>) (Some ())\<rparr>"

definition demo_matrix :: "(unit, SOPC_QualifiedName) SOPC_ExtensionObject SOPC_Variant" where
  "demo_matrix = Variant False SOPC_Int32_Id SOPC_VariantArrayType_Matrix
     (Value_Matrix 2 (Some [2, 1]) (Some [Plain_v (Int32_v 7), Plain_v (Int32_v (-1))]))"

definition demo_variant :: "(unit, SOPC_QualifiedName) SOPC_ExtensionObject SOPC_Variant" where
  "demo_variant = Variant False SOPC_Variant_Id SOPC_VariantArrayType_Array
     (Value_Array 2 (Some [Variant_v demo_matrix,
        Variant_v (Variant False SOPC_ExtensionObject_Id SOPC_VariantArrayType_SingleValue
          (Value_Single (Plain_v (ExtensionObject_v demo_object))))]))"

lemma demo_object_ok:
  "extobj_ok demo_types demo_objects demo_enc demo_object"
  "length (enc_extobj demo_types demo_objects demo_enc demo_object) = 16"
  "extobj_depth demo_objects = 4"
  by (simp_all add: extobj_ok_def enc_extobj_def extobj_depth_def demo_object_def demo_types_def demo_objects_def
      registered_def qname_ok_def enc_qname_def type_nodeid_def enc_nodeid_def enc_nodeid_body_def
      GetNodeIdDataEncoding_def NodeIdEncoding_defs demo_string_simps)

lemmas demo_variant_simps =
  demo_variant_def demo_matrix_def no_builtin_def array_ok_def raw_type_def getBuiltinOptimizableSize_def
  builtin_size_def plain_type_def plain_defs plain_depth_def extobj_spec_def demo_object_ok dims_ok_def
  dims_length_def plain_memory_def

lemma demo_size_max [simp]: "size_max demo_enc = 18446744073709551615"
  by (simp add: demo_enc_def)

lemma demo_variant_ok:
  "variant_ok (extobj_spec demo_types demo_objects) demo_enc demo_variant"
  "length (enc_variant (extobj_spec demo_types demo_objects) demo_enc demo_variant) \<le> 100"
  "need_variant (extobj_spec demo_types demo_objects) demo_variant \<le> 10"
  by (simp_all add: demo_variant_simps)

section \<open>Round trips\<close>

lemma law_decodes_back:
  assumes W: "writes_upto errs (\<lambda>b. W (Some v) b lvl) bs" and R: "reads (\<lambda>(p, b). R p b lvl) ini d bs"
    and fits: "enc_fits env n b bs"
  shows "decodes_back W R ini lvl b v bs d"
proof -
  have b: "buf_wf b" "unat (maximum_size b) \<le> 2 ^ 31" "unat (position b) + length bs \<le> unat (maximum_size b)"
    using fits by (simp_all add: enc_fits_def)
  obtain b1 b2 rest where 1: "W (Some v) (Some b) lvl = Some (SOPC_STATUS_OK, Some b1)"
    "stream_of b1 = stream_put bs (stream_of b)"
    "SOPC_Buffer_SetPosition (Some b1) (position b) = (SOPC_STATUS_OK, Some b2)"
    "buf_wf b2" "unat (buf_length b2) \<le> 2 ^ 31" "stream_rest (stream_of b2) = bs @ rest"
    "stream_of (buf_advance (length bs) b2) = stream_of b1"
    using write_and_rewind [OF W b] by metis
  with reads_bindD [OF R 1(4-6)] show ?thesis unfolding decodes_back_def by blast
qed

text \<open>
  C8 (round trip): a variant whose elements can be decoded under the configured limits, nested in any
  way, written by \<open>SOPC_Variant_Write\<close> and read back by \<open>SOPC_Variant_Read\<close>, is the decoded form of
  itself: scalars are normalised, the raw arrays of fixed size elements are bit for bit the same.
\<close>

theorem variant_roundtrip:
  assumes "object_codec T Os" "variant_ok (extobj_spec T Os) env v"
    and "enc_fits env (lvl + need_variant (extobj_spec T Os) v) b (enc_variant (extobj_spec T Os) env v)"
  shows "decodes_back (SOPC_Variant_Write (extobj_ops T) env) (SOPC_Variant_Read (extobj_ops T) env) variant_init lvl b v
    (enc_variant (extobj_spec T Os) env v) (dec_variant (extobj_spec T Os) env v)"
proof -
  let ?S = "extobj_spec T Os"
  have env: "mem_total env" "lvl + need_variant ?S v \<le> max_level env" using assms(3) by (simp_all add: enc_fits_def)
  then have "lvl < max_level env" by (cases v) simp
  moreover have "variant_law (extobj_ops T) ?S env v"
    using value_laws(3) [OF extobj_codec [OF assms(1)] env(1)] assms(2) by blast
  ultimately show ?thesis
    using env(2) unfolding variant_law_def
    by (intro law_decodes_back [where errs = variant_statuses, OF _ _ assms(3)])
      (simp_all add: SOPC_Variant_Write_def SOPC_Variant_Read_def)
qed

theorem variant_roundtrip_witness:
  "decodes_back (SOPC_Variant_Write (extobj_ops demo_types) demo_enc) (SOPC_Variant_Read (extobj_ops demo_types) demo_enc)
    variant_init 0 demo_out demo_variant (enc_variant (extobj_spec demo_types demo_objects) demo_enc demo_variant)
    (dec_variant (extobj_spec demo_types demo_objects) demo_enc demo_variant)"
  using demo_variant_ok by (intro variant_roundtrip demo_object_codec demo_fits) simp_all

text \<open>
  C10 (round trip): a data value whose value can be decoded is read back with the same status, the same
  picoseconds and the dates after the epoch; the dates before it are lost.
\<close>

theorem datavalue_roundtrip:
  assumes "object_codec T Os" "datavalue_ok (extobj_spec T Os) env d"
    and "enc_fits env (lvl + need_datavalue (extobj_spec T Os) d) b (enc_datavalue (extobj_spec T Os) env d)"
  shows "decodes_back (SOPC_DataValue_Write (extobj_ops T) env) (SOPC_DataValue_Read (extobj_ops T) env) datavalue_init
    lvl b d (enc_datavalue (extobj_spec T Os) env d) (dec_datavalue (extobj_spec T Os) env d)"
proof -
  let ?S = "extobj_spec T Os"
  have env: "mem_total env" "lvl + need_datavalue ?S d \<le> max_level env" using assms(3) by (simp_all add: enc_fits_def)
  moreover have "datavalue_law (extobj_ops T) ?S env d"
    using value_laws(4) [OF extobj_codec [OF assms(1)] env(1)] assms(2) by blast
  ultimately show ?thesis
    unfolding datavalue_law_def
    by (intro law_decodes_back [where errs = variant_statuses, OF _ _ assms(3)])
      (simp_all add: SOPC_DataValue_Write_def SOPC_DataValue_Read_def)
qed

theorem datavalue_roundtrip_witness:
  "let d = DataValue demo_variant 0x80000000 5 (-1) 0 9 in
    decodes_back (SOPC_DataValue_Write (extobj_ops demo_types) demo_enc)
      (SOPC_DataValue_Read (extobj_ops demo_types) demo_enc) datavalue_init 0 demo_out d
      (enc_datavalue (extobj_spec demo_types demo_objects) demo_enc d)
      (dec_datavalue (extobj_spec demo_types demo_objects) demo_enc d)"
  unfolding Let_def
  using demo_variant_ok by (intro datavalue_roundtrip demo_object_codec demo_fits) simp_all

text \<open>
  C11 (round trip): an extension object with an opaque body, or with an object of a registered type,
  is read back; the length of the object, written after the object itself, is the length of its encoding.
\<close>

theorem extobj_roundtrip:
  assumes "object_codec T Os" "extobj_ok T Os env x"
    and "enc_fits env (lvl + extobj_depth Os) b (enc_extobj T Os env x)"
  shows "decodes_back (SOPC_ExtensionObject_Write T env) (SOPC_ExtensionObject_Read T env) extobj_init lvl b x
    (enc_extobj T Os env x) (dec_extobj T Os env x)"
proof -
  have "mem_total env" "lvl + extobj_depth Os \<le> max_level env" using assms(3) by (simp_all add: enc_fits_def)
  with extobj_writes extobj_reads assms show ?thesis by (intro law_decodes_back) blast+
qed

theorem extobj_roundtrip_witness:
  "decodes_back (SOPC_ExtensionObject_Write demo_types demo_enc) (SOPC_ExtensionObject_Read demo_types demo_enc)
    extobj_init 0 demo_out demo_object (enc_extobj demo_types demo_objects demo_enc demo_object)
    (dec_extobj demo_types demo_objects demo_enc demo_object)"
  by (intro extobj_roundtrip demo_object_codec demo_fits) (simp_all add: demo_object_ok)

text \<open>
  C12 (round trip): a message, written by \<open>SOPC_EncodeMsg_Type_Header_Body\<close>, is taken apart by the
  functions of the receiver: \<open>SOPC_MsgBodyType_Read\<close> finds the type of the body, and two calls of
  \<open>SOPC_DecodeMsg_HeaderOrBody\<close> give the header and the body and consume exactly the message.
\<close>

theorem message_roundtrip:
  assumes Os: "object_codec T Os" and t: "ot_lookup T OPCUA_NAMESPACE_INDEX (ot_id T t) = Some t"
    and body: "ot_type T t \<noteq> OpcUaId_ServiceFault" and ok: "o_ok Os h env hv" "o_ok Os t env v"
    and fits: "enc_fits env (max 3 (o_depth Os)) b (enc_message T Os env t h hv v)"
  shows "\<exists>b1 b2 b3 b4 b5.
    SOPC_EncodeMsg_Type_Header_Body T env (Some b) (Some t) (Some h) (Some hv) (Some v) = Some (SOPC_STATUS_OK, Some b1) \<and>
    SOPC_Buffer_SetPosition (Some b1) (position b) = (SOPC_STATUS_OK, Some b2) \<and>
    SOPC_MsgBodyType_Read T env (Some b2) rt = Some (SOPC_STATUS_OK, Some t, Some b3) \<and>
    SOPC_DecodeMsg_HeaderOrBody T env (Some b3) (Some h) (Some p) =
      Some (SOPC_STATUS_OK, Some (Some (o_dec Os h env hv)), Some b4) \<and>
    SOPC_DecodeMsg_HeaderOrBody T env (Some b4) (Some t) (Some q) =
      Some (SOPC_STATUS_OK, Some (Some (o_dec Os t env v)), Some b5) \<and>
    stream_of b5 = stream_of b1"
proof -
  let ?n = "enc_nodeid (message_nodeid T t)" and ?h = "o_enc Os h env hv" and ?v = "o_enc Os t env v"
  have env: "mem_total env" "max 3 (o_depth Os) \<le> max_level env" "buf_wf b" "unat (maximum_size b) \<le> 2 ^ 31"
    "unat (position b) + length (enc_message T Os env t h hv v) \<le> unat (maximum_size b)"
    using fits by (simp_all add: enc_fits_def)
  have l: "3 \<le> max_level env" "o_depth Os \<le> max_level env" using env(2) by simp_all
  obtain b1 b2 rest where 1:
    "SOPC_EncodeMsg_Type_Header_Body T env (Some b) (Some t) (Some h) (Some hv) (Some v) = Some (SOPC_STATUS_OK, Some b1)"
    "SOPC_Buffer_SetPosition (Some b1) (position b) = (SOPC_STATUS_OK, Some b2)"
    "buf_wf b2" "unat (buf_length b2) \<le> 2 ^ 31" "stream_rest (stream_of b2) = enc_message T Os env t h hv v @ rest"
    "stream_of (buf_advance (length (enc_message T Os env t h hv v)) b2) = stream_of b1"
    using write_and_rewind [OF message_writes [OF Os env(1,2) ok] env(3-5)] by metis
  have r2: "stream_rest (stream_of b2) = ?n @ ?h @ ?v @ rest" using 1(5) body by (simp add: enc_message_def)
  let ?b3 = "buf_advance (length ?n) b2"
  let ?b4 = "buf_advance (length ?h) ?b3"
  note s2 = stream_rest_split [OF 1(3) r2]
  note s3 = stream_rest_split [OF s2(2,3)]
  have len: "unat (buf_length ?b3) \<le> 2 ^ 31" "unat (buf_length ?b4) \<le> 2 ^ 31" using 1(4) by simp_all
  have "stream_of (buf_advance (length ?v) ?b4) = stream_of b1"
    using 1(6) body by (simp add: enc_message_def buf_advance_advance add.assoc)
  with 1(1,2) type_read_law [OF env(1) l(1) 1(3,4) r2, of rt] t
    part_read_law [OF Os env(1) l(2) ok(1) s2(2) len(1) s2(3), of p]
    part_read_law [OF Os env(1) l(2) ok(2) s3(2) len(2) s3(3), of q]
  show ?thesis by auto
qed

theorem message_roundtrip_witness:
  "let q = \<lparr>QN_NamespaceIndex = 1, QN_Name = demo_string [78]\<rparr> in
    \<exists>b1 b2 b3 b4 b5.
    SOPC_EncodeMsg_Type_Header_Body demo_types demo_enc (Some demo_out) (Some ()) (Some ()) (Some q) (Some q) =
      Some (SOPC_STATUS_OK, Some b1) \<and>
    SOPC_Buffer_SetPosition (Some b1) (position demo_out) = (SOPC_STATUS_OK, Some b2) \<and>
    SOPC_MsgBodyType_Read demo_types demo_enc (Some b2) None = Some (SOPC_STATUS_OK, Some (), Some b3) \<and>
    SOPC_DecodeMsg_HeaderOrBody demo_types demo_enc (Some b3) (Some ()) (Some None) =
      Some (SOPC_STATUS_OK, Some (Some (o_dec demo_objects () demo_enc q)), Some b4) \<and>
    SOPC_DecodeMsg_HeaderOrBody demo_types demo_enc (Some b4) (Some ()) (Some None) =
      Some (SOPC_STATUS_OK, Some (Some (o_dec demo_objects () demo_enc q)), Some b5) \<and>
    stream_of b5 = stream_of b1"
  unfolding Let_def
  by (intro message_roundtrip demo_object_codec demo_fits)
    (simp_all add: demo_types_def demo_objects_def OPCUA_NAMESPACE_INDEX_def OpcUaId_ServiceFault_def qname_ok_def
      enc_qname_def enc_message_def message_nodeid_def nodeid_zero_def enc_nodeid_def enc_nodeid_body_def
      GetNodeIdDataEncoding_def NodeIdEncoding_defs demo_string_simps)

section \<open>Arbitrary input\<close>

text \<open>
  C9 (safety): whatever the buffer holds, decoding a variant or a data value returns without leaving the
  buffer, at any structure level; an accepted value is consistent: the elements have the type of the variant, an array has
  the announced number of elements, within the limit, and the dimensions of a matrix multiply to it. This holds for a
  configured \<open>max_array_length\<close> below \<open>2 ^ 28\<close> (\<open>raw_bounded\<close>; the default is far below): with a greater limit
  the number of bytes of an array of scalars, added to the position in the buffer, can wrap around 32 bits, and the reader of
  such arrays can leave the buffer. The functions of the encodeable types are parameters with the contract \<open>object_codec\<close>.
\<close>

theorem variant_decode_safe:
  assumes "object_codec T Os" "raw_bounded env" "buf_wf b" "unat (buf_length b) \<le> 2 ^ 31"
  shows "decodes_safely (SOPC_Variant_Read (extobj_ops T) env) variant_init lvl b (variant_good (extobj_spec T Os) env) \<and>
    decodes_safely (SOPC_DataValue_Read (extobj_ops T) env) datavalue_init lvl b (datavalue_good (extobj_spec T Os) env)"
proof -
  have "variant_safe (extobj_ops T) (extobj_spec T Os) env lvl \<and> datavalue_safe (extobj_ops T) (extobj_spec T Os) env lvl"
    by (rule readers_safe [OF extobj_codec [OF assms(1)] assms(2)])
  then show ?thesis
    using assms(3,4)
    by (fastforce simp: variant_safe_def datavalue_safe_def safe_read_or_def safe_read_def decodes_safely_def
        SOPC_Variant_Read_def SOPC_DataValue_Read_def)
qed

theorem variant_decode_safe_witness:
  "decodes_safely (SOPC_Variant_Read (extobj_ops demo_types) demo_enc) variant_init 0 (demo_in [198, 255, 255, 255, 127])
    (variant_good (extobj_spec demo_types demo_objects) demo_enc)"
  using variant_decode_safe [OF demo_object_codec, of demo_enc "demo_in [198, 255, 255, 255, 127]" 0]
    demo_in_wf [of "[198, 255, 255, 255, 127]"]
  by (simp add: raw_bounded_def)

text \<open>
  C26: whatever a buffer holds, \<open>SOPC_Read_Array\<close> with the reader of any built-in type of the table, at any structure
  level, returns without leaving the buffer; an accepted array has as many elements as its count says, at most
  \<open>max_array_length\<close>, each decoded with that type. For variants and data values the limit on arrays is below
  \<open>2 ^ 28\<close> (\<open>raw_bounded\<close>), for the other types it is any. The buffer holds at most \<open>2 ^ 31\<close> bytes, and the functions of the
  encodeable types satisfy \<open>object_codec\<close>.
\<close>

theorem builtin_array_decode_safe:
  assumes "object_codec T Os" "plain_type tid \<or> \<not> no_builtin tid \<and> raw_bounded env" "buf_wf b" "unat (buf_length b) \<le> 2 ^ 31"
  shows "\<exists>st n es b'. SOPC_Read_Array env (Some b) (Some n0) (Some None) (builtin_size tid)
      (Some (builtin_decode (extobj_ops T) env tid)) (\<lambda>_. builtin_init (extobj_ops T) tid) (builtin_init (extobj_ops T) tid) lvl =
      Some (st, Some n, Some es, Some b') \<and> buf_read_step b b' \<and>
    (st = SOPC_STATUS_OK \<longrightarrow> 0 \<le> sint n \<and> int (length (elements es)) = sint n \<and>
      (0 < sint n \<longrightarrow> sint n \<le> sint (max_array_length (enc_cfg env))) \<and>
      (\<forall>x\<in>set (elements es). builtin_good (extobj_spec T Os) env tid x))"
proof -
  note X = extobj_codec [OF assms(1)]
  have "safe_read (\<lambda>(p, b). builtin_decode (extobj_ops T) env tid p b (lvl + 1)) (builtin_init (extobj_ops T) tid)
      (builtin_good (extobj_spec T Os) env tid)"
    using assms(2) plain_builtin_safe [OF X] builtin_safe [OF X] readers_safe [OF X] by blast
  from read_array_at_level [where R = "\<lambda>e. builtin_decode (extobj_ops T) e tid", OF this assms(3,4)] show ?thesis
    unfolding array_read_ok_def by blast
qed

theorem builtin_array_decode_safe_witness:
  "\<exists>st n es b'. SOPC_Read_Array demo_enc (Some (demo_in [255, 255, 255, 127])) (Some 0) (Some None) (builtin_size SOPC_Variant_Id)
      (Some (builtin_decode (extobj_ops demo_types) demo_enc SOPC_Variant_Id)) (\<lambda>_. builtin_init (extobj_ops demo_types) SOPC_Variant_Id)
      (builtin_init (extobj_ops demo_types) SOPC_Variant_Id) 0 = Some (st, Some n, Some es, Some b')"
  using builtin_array_decode_safe [OF demo_object_codec, of SOPC_Variant_Id demo_enc "demo_in [255, 255, 255, 127]" 0 0]
    demo_in_wf [of "[255, 255, 255, 127]"]
  by (simp add: raw_bounded_def no_builtin_def) blast

end
