(* ===== verification/Spec2Isabelle.thy ===== *)
theory Spec2Isabelle
  imports Buffer Builtin_Types Common_Constants Encoder_Properties Dict_Properties Queue_Properties Chunks_Properties Chunks_Signature
    SC_Properties Event_Properties Variant_Properties
begin

text \<open>
  Verification of the S2OPC OPC UA toolkit: its data structures, its binary encoding and its secure channels.

  \<^bold>\<open>The program.\<close> S2OPC is a client and server toolkit for the OPC UA protocol. \<open>src/Common\<close> holds what both
  sides and the publishers share: the byte buffer, lists, queues, the hash table, timers, the built-in types and
  their binary encoding. \<open>src/ClientServer\<close> holds the stack: the sockets give received bytes to the
  secure channels layer, which cuts them into chunks, decrypts and checks them, puts messages together and passes
  them to the services above; requests and responses go the other way. The layer is driven by one thread that
  treats one event at a time, from the sockets, from the services, from its timers and from itself. \<open>src/PubSub\<close> is a
  separate publisher and subscriber.

  \<^bold>\<open>Data structures.\<close>
  \<^item> \<open>S2OPC_Prelude\<close>: status values, words, allocation (\<open>mem_env\<close>: which allocations succeed and what fresh memory
    holds), reads and writes in a block (\<open>mem_read\<close>, \<open>mem_write\<close>), and the named collections of lemmas.
  \<^item> \<open>Buffer\<close> models \<open>sopc_buffer.c\<close> and shows that it refines a bounded byte stream.
  \<^item> \<open>Deque\<close> states the contract of a bounded double-ended queue as the locale \<open>bounded_deque\<close>;
    \<open>Circular_Queue\<close> (\<open>sopc_circular_queue.c\<close>, \<open>sopc_circular_queue_autogrow.c\<close>) and \<open>SLinkedList\<close>
    (\<open>sopc_singly_linked_list.c\<close>, cells in a store) are two interpretations, in their \<open>_Laws\<close> theories, and
    \<open>Queue_Properties\<close> draws the histories of both from the one proof in the locale. \<open>SOPC_CircularQueue_Delete\<close> and
    \<open>SOPC_CircularQueue_AutoGrow_Create\<close> only call functions that are modelled.
  \<^item> \<open>Dict\<close> models the hash table \<open>sopc_dict.c\<close>. \<open>Dict_Laws\<close> shows for any keys that satisfy the locale
    \<open>dict_keys\<close> that every operation returns and refines one on a finite map; \<open>Dict_Properties\<close> interprets it for node identifiers and plain integers.
  \<^item> \<open>Event_Timer\<close> models \<open>sopc_event_timer_manager.c\<close>; \<open>Event_Timer_Laws\<close> shows the invariant of the
    list of timers over any history and what one evaluation delivers.
  \<^item> \<open>Async_Queue\<close> models \<open>sopc_async_queue.c\<close> as programs of threads: a step takes the mutex, runs the code behind
    it on the linked list, waits, signals or releases it. \<open>Async_Queue_Laws\<close> has the invariant over any interleaving, \<open>Event_Handler\<close>
    models the event loop \<open>sopc_event_handler.c\<close> on top of it, and \<open>Event_Properties\<close> states the order of the calls, the
    absence of lost wake-ups and of blocking, and that the loop refines a queue of events.

  \<^bold>\<open>Types and encoding.\<close>
  \<^item> \<open>Builtin_Types\<close> models strings, byte strings, GUIDs and node identifiers of \<open>sopc_builtintypes.c\<close>, with
    order, equality and hash; \<open>Common_Constants\<close> the configuration of the encoder.
  \<^item> \<open>Encoder_Core\<close> and \<open>Encoder_Types\<close> model \<open>sopc_encoder.c\<close> for the numeric types, the strings, node
    identifiers, qualified names, localized texts, diagnostic informations and arrays. \<open>Codec\<close> states what a pair of a write and a
    read function promises: the locale \<open>codec_core\<close> (a value written within the limits is read back), the locale \<open>decoder\<close> (a read of
    any bytes stays inside the buffer), both together in \<open>codec_upto\<close>, and \<open>codec\<close> for the statuses most writers answer when the buffer is
    full; it derives the same for arrays. \<open>Codec\<close>, \<open>Encoder_Laws\<close>, \<open>NodeId_Laws\<close> and \<open>Struct_Laws\<close> interpret it for
    each type, and \<open>Encoder_Properties\<close> states the results.
  \<^item> \<open>Variant_Types\<close> has the built-in types, their union and the columns of the two tables of functions by type; \<open>Variant\<close> models the
    mutually recursive writers and readers of variants and data values, which terminate because every cycle of calls increments the
    structure level below \<open>max_nested_struct\<close>; \<open>Extension_Object\<close> models extension objects and \<open>Message_Body\<close> the functions that put a type,
    a header and a body in a message. \<open>Variant_Plain_Laws\<close> shows the contract \<open>codec_upto\<close> for each entry of the table,
    \<open>Variant_Array_Laws\<close> the arrays copied as they are and the dimensions of a matrix, \<open>Variant_Laws\<close> the round trip by induction on
    the nested values, \<open>Variant_Safe\<close> the reading of arbitrary bytes by induction on the levels that are left, \<open>Extension_Laws\<close> that
    extension objects satisfy the contract (\<open>ext_codec\<close>) that variants rely on, provided that the encodeable types satisfy
    \<open>object_codec\<close>. \<open>Variant_Properties\<close> states the results.

  \<^bold>\<open>Secure channels.\<close>
  \<^item> \<open>Secure_Channel\<close>, \<open>Chunks_Receive\<close> and \<open>Chunks_Send\<close> model \<open>sopc_chunks_mgr.c\<close>. The theories \<open>Chunks_Laws\<close> to
    \<open>Chunks_Packets\<close> follow a packet through the stages of reception; \<open>Chunks_Plain\<close> and \<open>Chunks_Output\<close> follow a message from
    the sender to the receiver on a channel without security. \<open>Chunks_Properties\<close>: reception returns and is memory safe for any
    bytes but those that make it stop on an assertion, which are described exactly (a message of several chunks without any byte, a
    chunk whose plain text does not fit the receive buffer or whose signature covers a part of the headers only); it does not depend on
    how the bytes are cut into packets, and delivers what the sender sent. \<open>Chunks_Signature\<close>: the plain text always fits for the
    RSA keys of the policies, and a signature over a part of the headers stops the receiver.
  \<^item> \<open>SC_World\<close> is the state of the layer (\<open>sopc_secure_channels_internal_ctx.h\<close>, the tables of
    \<open>sopc_toolkit_config.c\<close>); \<open>SC_Close\<close>, \<open>SC_Negotiate\<close>, \<open>SC_Open\<close>, \<open>SC_Open_Server\<close> and \<open>SC_State_Mgr\<close> model
    \<open>sopc_secure_connection_state_mgr.c\<close>, \<open>SC_Listener\<close> models \<open>sopc_secure_listener_state_mgr.c\<close>, and \<open>SC_Api\<close> the dispatch of
    \<open>sopc_secure_channels_api.c\<close> as the relation \<open>layer_step\<close> on the whole state. Events that a part posts are
    appended to lists of the state; the relation takes any event in any state, so what is shown holds for every order of
    delivery, for events the queue does not hold too.
  \<^item> \<open>SC_Frame\<close> has the rules for partial results (\<open>ensures\<close>) and what each operation keeps, \<open>SC_Slots\<close> the search of a free
    slot, \<open>SC_Transitions\<close> one specification per transition, \<open>SC_Automaton\<close> the automaton
    \<open>sc_edges\<close> and the invariant, \<open>SC_Handlers\<close>, \<open>SC_Chunks_Frame\<close> and \<open>SC_Layer\<close> that every handler of the three managers
    follows them, by induction on the reachable states. \<open>SC_Agreement\<close> follows the hello and acknowledge messages between a client
    and a server, \<open>SC_Typed\<close> shows that the arrays and indexes of the layer stay within their declared sizes, and
    \<open>SC_Listener_Laws\<close> that the connections of a listener are a bag. \<open>SC_Properties\<close> states the results.

  \<^bold>\<open>Conventions.\<close> A pointer is an \<open>option\<close> (\<open>None\<close> for \<open>NULL\<close>). A function that may stop on an assertion or leave a block of
  memory has a result of type \<open>option\<close> whose \<open>None\<close> stands for exactly that; statuses are values. Integers have their width.
  Loops that the code bounds are structural; the searches of \<open>sopc_dict.c\<close> and the tables of
  connections, the size computation of \<open>sopc_dict.c\<close> and the loop over received bytes are \<open>partial_function\<close>s, and are
  shown to return. Sizes are bounded where the proofs need it: buffers below \<open>2^31\<close> bytes (\<open>2^30\<close> for reception), lists below \<open>2^32\<close>
  elements, tables below \<open>2^59\<close> items; outside of these bounds two theorems show what goes wrong.

  \<^bold>\<open>Parameters.\<close> The cryptographic functions, the clock, allocation, random values, the certificates, the endpoint
  configuration and the generated codec of the messages that open a channel are arguments (\<open>sc_env\<close>, \<open>scm_env\<close>). What is
  assumed of them is named where it is used: \<open>crypto_laws\<close> (the lengths of decrypted texts, and that the check of the asymmetric header only advances in the chunk) for the memory safety of
  reception, \<open>asym_header_keeps\<close> (the check of an asymmetric header does not change state, role, limits and current token) for the
  automaton. Along the steps of the layer they may change at every step. The encodeable types (\<open>object_ops\<close>: registry, descriptor, functions of a type) are
  arguments of the encoder of extension objects and messages, with the contract \<open>object_codec\<close> on the functions of each type.

  \<^bold>\<open>Not modelled.\<close> In the composition of the layer the timers of the requests are left open, as is what the check of the asymmetric security
  header records in the connection; both may change in any way there. The log and the audit events have no effect on the state. The generic functions on encodeable types
  (\<open>sopc_encodeabletype.c\<close>), the copy and comparison of variants, the sockets, the client and server wrappers,
  the security keys service and PubSub are not modelled. The services are generated from a B model with its own proofs; the type
  tables of \<open>sopc_types.c\<close> are generated data; cryptography, threads and XML are adapters to other
  libraries.
\<close>

end
